(* ===== verification/Ext4_Prelude.thy ===== *)
theory Ext4_Prelude
  imports Main "HOL-Library.Word"
begin

unbundle bit_operations_syntax

text \<open>
  Shared vocabulary of the development: the machine integer types of the C sources, the error
  codes of \<^verbatim>\<open>ext4_errno.h\<close>, byte buffers with checked access, little- and big-endian
  encodings of words, and the generic lemmas on lists, \<open>find\<close> and words that the component
  theories use.  The collections \<open>ext4_bits\<close> and \<open>ext4_layout\<close> gather the facts that
  \<open>simp add:\<close> passes to bit-level and to struct-layout goals.
\<close>

named_theorems ext4_bits \<open>bit-level facts on bytes and words\<close>
named_theorems ext4_layout \<open>facts on the byte layout of on-disk structures\<close>

type_synonym u8 = "8 word"
type_synonym u16 = "16 word"
type_synonym u32 = "32 word"
type_synonym u64 = "64 word"
type_synonym bytes = "u8 list"

text \<open>The error codes of \<^verbatim>\<open>ext4_errno.h\<close>; \<open>EOK\<close> is success, and the last one is the internal
  code for a directory index that cannot be used.\<close>

datatype errno = EOK | EPERM | ENOENT | EIO | ENXIO | E2BIG | ENOMEM | EACCES | EFAULT | EEXIST
  | ENODEV | ENOTDIR | EISDIR | EINVAL | EFBIG | ENOSPC | EROFS | EMLINK | ERANGE | ENOTEMPTY
  | ENODATA | ENOTSUP | EXT4_ERR_BAD_DX_DIR

text \<open>
  \<open>'a option\<close> is the result of code that indexes memory: \<open>None\<close> is an access outside the
  buffer or a failed \<^verbatim>\<open>ext4_assert\<close> (which aborts), so that a theorem with the conclusion
  \<open>f x = Some y\<close> also says that the code stays inside its buffers.
\<close>

definition rd8 :: "bytes \<Rightarrow> nat \<Rightarrow> u8 option" where
  "rd8 bs i = (if i < length bs then Some (bs ! i) else None)"

definition wr8 :: "bytes \<Rightarrow> nat \<Rightarrow> u8 \<Rightarrow> bytes option" where
  "wr8 bs i v = (if i < length bs then Some (bs[i := v]) else None)"

lemma rd8_in [simp]: "i < length bs \<Longrightarrow> rd8 bs i = Some (bs ! i)"
  by (simp add: rd8_def)

lemma wr8_in [simp]: "i < length bs \<Longrightarrow> wr8 bs i v = Some (bs[i := v])"
  by (simp add: wr8_def)

lemma wr8_SomeD: "wr8 bs i v = Some bs' \<Longrightarrow> i < length bs \<and> bs' = bs[i := v]"
  by (auto simp: wr8_def split: if_splits)

lemma rd8_None_iff: "rd8 bs i = None \<longleftrightarrow> length bs \<le> i"
  by (auto simp: rd8_def)

lemma rd8_wr8_same: "wr8 bs i v = Some bs' \<Longrightarrow> rd8 bs' i = Some v"
  by (auto dest: wr8_SomeD)

lemma rd8_wr8_other: "wr8 bs i v = Some bs' \<Longrightarrow> j \<noteq> i \<Longrightarrow> rd8 bs' j = rd8 bs j"
  by (auto dest!: wr8_SomeD simp: rd8_def)

subsection \<open>Searching an interval\<close>

lemma find_upt_step:
  "find P [s..<e] = (if s < e then if P s then Some s else find P [Suc s..<e] else None)"
  by (simp add: upt_conv_Cons)

lemma find_upt_Some:
  "find P [s..<e] = Some i \<longleftrightarrow> s \<le> i \<and> i < e \<and> P i \<and> (\<forall>j. s \<le> j \<and> j < i \<longrightarrow> \<not> P j)"
proof
  assume "find P [s..<e] = Some i"
  then obtain k where k: "k < e - s" "P (s + k)" "i = s + k" "\<forall>j<k. \<not> P (s + j)"
    by (auto simp: find_Some_iff)
  have "\<not> P j" if "s \<le> j \<and> j < i" for j
    using k(3,4) that by (auto dest: spec [of _ "j - s"])
  with k show "s \<le> i \<and> i < e \<and> P i \<and> (\<forall>j. s \<le> j \<and> j < i \<longrightarrow> \<not> P j)"
    by auto
next
  assume "s \<le> i \<and> i < e \<and> P i \<and> (\<forall>j. s \<le> j \<and> j < i \<longrightarrow> \<not> P j)"
  then show "find P [s..<e] = Some i"
    unfolding find_Some_iff by (intro exI [of _ "i - s"]) auto
qed

lemma find_append: "find P (xs @ ys) = (case find P xs of None \<Rightarrow> find P ys | Some x \<Rightarrow> Some x)"
  by (induction xs) auto

lemma find_upt_None: "find P [s..<e] = None \<longleftrightarrow> (\<forall>j. s \<le> j \<and> j < e \<longrightarrow> \<not> P j)"
  by (auto simp: find_None_iff)

lemma find_upt_skip:
  "s \<le> m \<Longrightarrow> m \<le> e \<Longrightarrow> (\<forall>j. s \<le> j \<and> j < m \<longrightarrow> \<not> P j) \<Longrightarrow> find P [s..<e] = find P [m..<e]"
proof -
  assume "s \<le> m" "m \<le> e" "\<forall>j. s \<le> j \<and> j < m \<longrightarrow> \<not> P j"
  then have "[s..<e] = [s..<m] @ [m..<e]"
    by (metis le_add_diff_inverse upt_add_eq_append)
  moreover have "find P [s..<m] = None"
    using \<open>\<forall>j. s \<le> j \<and> j < m \<longrightarrow> \<not> P j\<close> by (simp add: find_upt_None)
  ultimately show ?thesis by (simp add: find_append)
qed

subsection \<open>Words as naturals\<close>

lemma unat_Suc_word: "unat (w :: 'a::len word) + 1 < 2 ^ LENGTH('a) \<Longrightarrow> unat (w + 1) = unat w + 1"
  by (simp add: unat_word_ariths)

lemmas unat_sub1_word = unat_minus_one

lemma unat_Suc_less_word: "(i :: 'a::len word) < n \<Longrightarrow> unat (i + 1) = unat i + 1"
proof -
  assume "i < n"
  moreover have "unat n < 2 ^ LENGTH('a)" by (rule unsigned_less)
  ultimately have "unat i + 1 < 2 ^ LENGTH('a)" unfolding word_less_nat_alt by linarith
  then show ?thesis by (rule unat_Suc_word)
qed

lemma unat_u32_lt: "unat (w :: u32) < 4294967296"
  using unsigned_less [of w] by simp

lemma unat_u64_lt: "unat (w :: u64) < 18446744073709551616"
  using unsigned_less [of w] by simp

lemma unat_ucast_mod: "unat (ucast (w :: 'a::len word) :: 'b::len word) = unat w mod 2 ^ LENGTH('b)"
  by (simp add: unsigned_ucast_eq take_bit_eq_mod)

lemma unat_ucast_up [simp]:
  "unat (ucast (a :: u32) :: u64) = unat a" "unat (ucast (b :: u16) :: u32) = unat b"
  "unat (ucast (c :: u8) :: u32) = unat c" "unat (ucast (b :: u16) :: u64) = unat b"
proof -
  have "unat a < 2 ^ 32" "unat b < 2 ^ 16" "unat c < 2 ^ 8"
    using unsigned_less [of a] unsigned_less [of b] unsigned_less [of c] by simp_all
  then show "unat (ucast a :: u64) = unat a" "unat (ucast b :: u32) = unat b"
    "unat (ucast c :: u32) = unat c" "unat (ucast b :: u64) = unat b"
    by (simp_all add: unat_ucast_mod)
qed

lemma ceil_div_Suc: "0 < B \<Longrightarrow> 0 < p \<Longrightarrow> (B + p - 1) div p = Suc ((B - 1) div (p :: nat))"
proof -
  assume "0 < B" and p: "0 < p"
  then have "B + p - 1 = (B - 1) + p" by linarith
  then have "(B + p - 1) div p = ((B - 1) + p) div p" by (rule arg_cong)
  also have "\<dots> = Suc ((B - 1) div p)" using p by (subst div_add_self2) simp_all
  finally show ?thesis .
qed

lemma ceil_div_cases:
  assumes "0 < p"
  shows "(B + p - 1) div p = (if B mod p \<noteq> 0 then B div p + 1 else B div (p :: nat))"
proof -
  define q r where "q = B div p" and "r = B mod p"
  then have B: "B = q * p + r" and r: "r < p" using assms by simp_all
  show ?thesis
  proof (cases "r = 0")
    case True
    then have eq: "B + p - 1 = (p - 1) + q * p" using B assms by simp
    have "(B + p - 1) div p = q" unfolding eq using assms by (subst div_mult_self1) auto
    then show ?thesis using True by (simp add: q_def [symmetric] r_def [symmetric])
  next
    case False
    then have eq: "B + p - 1 = (r - 1) + (q + 1) * p" using B assms by simp
    have "(B + p - 1) div p = q + 1" unfolding eq using assms r by (subst div_mult_self1) auto
    then show ?thesis using False by (simp add: q_def [symmetric] r_def [symmetric])
  qed
qed

lemma unat_and_7: "unat ((w :: u32) AND 7) = unat w mod 8"
proof -
  have "w AND 7 = take_bit 3 w" by (simp add: take_bit_eq_mask mask_eq_exp_minus_1)
  then show ?thesis by (simp add: take_bit_eq_mod unat_mod)
qed

lemma unat_drop_bit_3: "unat (drop_bit 3 (w :: u32)) = unat w div 8"
  by (simp add: drop_bit_eq_div unat_div)

subsection \<open>Encodings\<close>

text \<open>The bytes of an unsigned field on a little-endian host, which is what the on-disk
  structures hold (\<^verbatim>\<open>to_le32\<close> is the identity there), and the big-endian order of the journal.\<close>

definition le16 :: "u16 \<Rightarrow> bytes" where
  "le16 w = [ucast w, ucast (drop_bit 8 w)]"

definition le32 :: "u32 \<Rightarrow> bytes" where
  "le32 w = [ucast w, ucast (drop_bit 8 w), ucast (drop_bit 16 w), ucast (drop_bit 24 w)]"

definition le64 :: "u64 \<Rightarrow> bytes" where
  "le64 w = le32 (ucast w) @ le32 (ucast (drop_bit 32 w))"

definition be32 :: "u32 \<Rightarrow> bytes" where
  "be32 w = rev (le32 w)"

definition get_le16 :: "bytes \<Rightarrow> nat \<Rightarrow> u16" where
  "get_le16 bs o1 = ucast (bs ! o1) OR push_bit 8 (ucast (bs ! (o1 + 1)))"

definition get_le32 :: "bytes \<Rightarrow> nat \<Rightarrow> u32" where
  "get_le32 bs o1 = ucast (bs ! o1) OR push_bit 8 (ucast (bs ! (o1 + 1))) OR
     push_bit 16 (ucast (bs ! (o1 + 2))) OR push_bit 24 (ucast (bs ! (o1 + 3)))"

definition put_bytes :: "bytes \<Rightarrow> nat \<Rightarrow> bytes \<Rightarrow> bytes" where
  "put_bytes bs o1 v = take o1 bs @ v @ drop (o1 + length v) bs"

lemma length_le [simp, ext4_layout]:
  "length (le16 a) = 2" "length (le32 b) = 4" "length (le64 c) = 8" "length (be32 b) = 4"
  by (simp_all add: le16_def le32_def le64_def be32_def)

lemma length_concat_le32 [simp, ext4_layout]: "length (concat (map le32 ws)) = 4 * length ws"
  by (induction ws) simp_all

lemma length_put_bytes [simp]: "o1 + length v \<le> length bs \<Longrightarrow> length (put_bytes bs o1 v) = length bs"
  by (simp add: put_bytes_def)

lemma nth_put_bytes:
  assumes "o1 + length v \<le> length bs"
    and "i < length bs"
  shows "put_bytes bs o1 v ! i = (if o1 \<le> i \<and> i < o1 + length v then v ! (i - o1) else bs ! i)"
  using assms by (auto simp: put_bytes_def nth_append)

lemma get_le16_le16: "get_le16 (le16 w) 0 = w"
  by (rule bit_word_eqI) (auto simp: get_le16_def le16_def bit_simps)

lemma get_le32_le32: "get_le32 (le32 w) 0 = w"
proof (rule bit_word_eqI)
  fix n assume "n < LENGTH(32)"
  then consider "n < 8" | "8 \<le> n" "n < 16" | "16 \<le> n" "n < 24" | "24 \<le> n" "n < 32"
    by (simp, linarith)
  then show "bit (get_le32 (le32 w) 0) n = bit w n"
    by cases (auto simp: get_le32_def le32_def bit_simps)
qed

lemma get_le16_put:
  "o1 + 2 \<le> length bs \<Longrightarrow> get_le16 (put_bytes bs o1 (le16 w)) o1 = w"
  using get_le16_le16 [of w] by (simp add: get_le16_def nth_put_bytes)

lemma get_le32_put:
  "o1 + 4 \<le> length bs \<Longrightarrow> get_le32 (put_bytes bs o1 (le32 w)) o1 = w"
  using get_le32_le32 [of w] by (simp add: get_le32_def nth_put_bytes numeral_2_eq_2)

lemma get_le16_put_other:
  "o1 + length v \<le> length bs \<Longrightarrow> o2 + 2 \<le> o1 \<or> o1 + length v \<le> o2 \<Longrightarrow>
     o2 + 2 \<le> length bs \<Longrightarrow> get_le16 (put_bytes bs o1 v) o2 = get_le16 bs o2"
  by (auto simp: get_le16_def nth_put_bytes)

lemma get_le32_put_other:
  "o1 + length v \<le> length bs \<Longrightarrow> o2 + 4 \<le> o1 \<or> o1 + length v \<le> o2 \<Longrightarrow>
     o2 + 4 \<le> length bs \<Longrightarrow> get_le32 (put_bytes bs o1 v) o2 = get_le32 bs o2"
  by (auto simp: get_le32_def nth_put_bytes)

subsection \<open>Checked access to fields\<close>

definition ld16 :: "bytes \<Rightarrow> nat \<Rightarrow> u16 option" where
  "ld16 bs o1 = (if o1 + 2 \<le> length bs then Some (get_le16 bs o1) else None)"

definition ld32 :: "bytes \<Rightarrow> nat \<Rightarrow> u32 option" where
  "ld32 bs o1 = (if o1 + 4 \<le> length bs then Some (get_le32 bs o1) else None)"

definition ldn :: "bytes \<Rightarrow> nat \<Rightarrow> nat \<Rightarrow> bytes option" where
  "ldn bs o1 n = (if o1 + n \<le> length bs then Some (take n (drop o1 bs)) else None)"

definition wrn :: "bytes \<Rightarrow> nat \<Rightarrow> bytes \<Rightarrow> bytes option" where
  "wrn bs o1 v = (if o1 + length v \<le> length bs then Some (put_bytes bs o1 v) else None)"

lemma ld_in [simp]:
  "o1 + 2 \<le> length bs \<Longrightarrow> ld16 bs o1 = Some (get_le16 bs o1)"
  "o1 + 4 \<le> length bs \<Longrightarrow> ld32 bs o1 = Some (get_le32 bs o1)"
  "o1 + n \<le> length bs \<Longrightarrow> ldn bs o1 n = Some (take n (drop o1 bs))"
  "o1 + length v \<le> length bs \<Longrightarrow> wrn bs o1 v = Some (put_bytes bs o1 v)"
  by (simp_all add: ld16_def ld32_def ldn_def wrn_def)

lemma take_drop_put_bytes:
  "o1 + length v \<le> length bs \<Longrightarrow> take (length v) (drop o1 (put_bytes bs o1 v)) = v"
  by (simp add: put_bytes_def)

lemma take_drop_put_other:
  "o1 + length v \<le> length bs \<Longrightarrow> o2 + n \<le> o1 \<or> o1 + length v \<le> o2 \<Longrightarrow> o2 + n \<le> length bs \<Longrightarrow>
     take n (drop o2 (put_bytes bs o1 v)) = take n (drop o2 bs)"
  by (rule nth_equalityI) (auto simp: nth_put_bytes)

lemma nth_put_other:
  "o1 + length v \<le> length bs \<Longrightarrow> i < o1 \<or> o1 + length v \<le> i \<Longrightarrow> i < length bs \<Longrightarrow>
     put_bytes bs o1 v ! i = bs ! i"
  by (auto simp: nth_put_bytes)

end
