(* ===== verification/Bitmap.thy ===== *)
theory Bitmap
  imports Ext4_Prelude
begin

unbundle bit_operations_syntax

text \<open>
  Allocation bitmaps: \<^verbatim>\<open>ext4_bitmap.h\<close> and \<^verbatim>\<open>ext4_bitmap.c\<close>, built as the Makefile
  builds them (\<^verbatim>\<open>CONFIG_UNALIGNED_ACCESS\<close> is 0).  A bitmap is the byte buffer the C code is
  handed; an access outside it is \<open>None\<close>.
\<close>

section \<open>Single bits\<close>

definition bit_mask8 :: "u32 \<Rightarrow> u8" where
  "bit_mask8 i = push_bit (unat (i AND 7)) 1"

definition ext4_bmap_bit_set :: "bytes \<Rightarrow> u32 \<Rightarrow> bytes option" where
  "ext4_bmap_bit_set bmap i =
     (case rd8 bmap (unat (drop_bit 3 i)) of None \<Rightarrow> None
      | Some b \<Rightarrow> wr8 bmap (unat (drop_bit 3 i)) (b OR bit_mask8 i))"

definition ext4_bmap_bit_clr :: "bytes \<Rightarrow> u32 \<Rightarrow> bytes option" where
  "ext4_bmap_bit_clr bmap i =
     (case rd8 bmap (unat (drop_bit 3 i)) of None \<Rightarrow> None
      | Some b \<Rightarrow> wr8 bmap (unat (drop_bit 3 i)) (b AND NOT (bit_mask8 i)))"

definition ext4_bmap_is_bit_set :: "bytes \<Rightarrow> u32 \<Rightarrow> bool option" where
  "ext4_bmap_is_bit_set bmap i =
     (case rd8 bmap (unat (drop_bit 3 i)) of None \<Rightarrow> None
      | Some b \<Rightarrow> Some (b AND bit_mask8 i \<noteq> 0))"

definition ext4_bmap_is_bit_clr :: "bytes \<Rightarrow> u32 \<Rightarrow> bool option" where
  "ext4_bmap_is_bit_clr bmap i = map_option Not (ext4_bmap_is_bit_set bmap i)"

section \<open>Clearing a range\<close>

text \<open>The three loops of \<^verbatim>\<open>ext4_bmap_bits_free\<close>: bits up to a byte boundary, whole bytes,
  and the remaining bits.  \<open>Inl\<close> is the early return inside the first loop.\<close>

function bits_free_head :: "bytes \<Rightarrow> u32 \<Rightarrow> u32 \<Rightarrow> (bytes + bytes \<times> u32 \<times> u32) option" where
  "bits_free_head bmap i bcnt =
     (if i AND 7 = 0 then Some (Inr (bmap, i, bcnt))
      else if bcnt = 0 then Some (Inl bmap)
      else case ext4_bmap_bit_clr bmap i of None \<Rightarrow> None
        | Some bmap' \<Rightarrow> bits_free_head bmap' (i + 1) (bcnt - 1))"
  by pat_completeness auto
termination
  by (relation "measure (\<lambda>(bmap, i, bcnt). unat bcnt)")
    (auto simp: unat_sub1_word unat_gt_0)

text \<open>The pointer \<^verbatim>\<open>bmap\<close> that the code advances is the byte position \<open>p\<close>.\<close>

function bits_free_bytes :: "bytes \<Rightarrow> nat \<Rightarrow> u32 \<Rightarrow> (bytes \<times> nat \<times> u32) option" where
  "bits_free_bytes bmap p bcnt =
     (if 8 \<le> bcnt then case wr8 bmap p 0 of None \<Rightarrow> None
        | Some bmap' \<Rightarrow> bits_free_bytes bmap' (p + 1) (bcnt - 8)
      else Some (bmap, p, bcnt))"
  by pat_completeness auto
termination
  by (relation "measure (\<lambda>(bmap, p, bcnt). unat bcnt)")
    (auto simp: unat_sub word_le_nat_alt)

definition bmap_bit_clr_at :: "bytes \<Rightarrow> nat \<Rightarrow> u32 \<Rightarrow> bytes option" where
  "bmap_bit_clr_at bmap p i =
     map_option (\<lambda>rest. take p bmap @ rest) (ext4_bmap_bit_clr (drop p bmap) i)"

function bits_free_tail :: "bytes \<Rightarrow> nat \<Rightarrow> u32 \<Rightarrow> u32 \<Rightarrow> bytes option" where
  "bits_free_tail bmap p i bcnt =
     (if i < bcnt then case bmap_bit_clr_at bmap p i of None \<Rightarrow> None
        | Some bmap' \<Rightarrow> bits_free_tail bmap' p (i + 1) bcnt
      else Some bmap)"
  by pat_completeness auto
termination
  by (relation "measure (\<lambda>(bmap, p, i, bcnt). unat bcnt - unat i)")
    (auto simp: unat_Suc_less_word word_less_nat_alt)

declare bits_free_head.simps [simp del] bits_free_bytes.simps [simp del] bits_free_tail.simps [simp del]

definition ext4_bmap_bits_free :: "bytes \<Rightarrow> u32 \<Rightarrow> u32 \<Rightarrow> bytes option" where
  "ext4_bmap_bits_free bmap sbit bcnt =
     (case bits_free_head bmap sbit bcnt of
        None \<Rightarrow> None
      | Some (Inl bmap') \<Rightarrow> Some bmap'
      | Some (Inr (bmap', i, bcnt')) \<Rightarrow>
          (case bits_free_bytes bmap' (unat (drop_bit 3 i)) bcnt' of
             None \<Rightarrow> None
           | Some (bmap'', p, bcnt'') \<Rightarrow> bits_free_tail bmap'' p 0 bcnt''))"

section \<open>Finding a clear bit\<close>

datatype find_res = Found u32 | NoSpace

function find_clr_head :: "bytes \<Rightarrow> u32 \<Rightarrow> u32 \<Rightarrow> (find_res + u32 \<times> u32) option" where
  "find_clr_head bmap i bcnt =
     (if i AND 7 = 0 then Some (Inr (i, bcnt))
      else if bcnt = 0 then Some (Inl NoSpace)
      else case ext4_bmap_is_bit_clr bmap i of
          None \<Rightarrow> None
        | Some clr \<Rightarrow> if clr then Some (Inl (Found i)) else find_clr_head bmap (i + 1) (bcnt - 1))"
  by pat_completeness auto
termination
  by (relation "measure (\<lambda>(bmap, i, bcnt). unat bcnt)")
    (auto simp: unat_sub1_word unat_gt_0)

text \<open>\<^verbatim>\<open>for (i = 0; i < n; ++i) if (is_bit_clr(bmap, i)) return sbit + i\<close>, on the buffer
  from byte \<open>p\<close> on.\<close>

function find_clr_bits :: "bytes \<Rightarrow> nat \<Rightarrow> u32 \<Rightarrow> u32 \<Rightarrow> u32 \<Rightarrow> find_res option" where
  "find_clr_bits bmap p sbit i n =
     (if i < n then case ext4_bmap_is_bit_clr (drop p bmap) i of
          None \<Rightarrow> None
        | Some clr \<Rightarrow> if clr then Some (Found (sbit + i)) else find_clr_bits bmap p sbit (i + 1) n
      else Some NoSpace)"
  by pat_completeness auto
termination
  by (relation "measure (\<lambda>(bmap, p, sbit, i, n). unat n - unat i)")
    (auto simp: unat_Suc_less_word word_less_nat_alt)

function find_clr_bytes :: "bytes \<Rightarrow> nat \<Rightarrow> u32 \<Rightarrow> u32 \<Rightarrow> find_res option" where
  "find_clr_bytes bmap p sbit bcnt =
     (if 8 \<le> bcnt then
        case rd8 bmap p of
          None \<Rightarrow> None
        | Some b \<Rightarrow>
            (case (if b \<noteq> 0xFF then find_clr_bits bmap p sbit 0 8 else Some NoSpace) of
               None \<Rightarrow> None
             | Some (Found r) \<Rightarrow> Some (Found r)
             | Some NoSpace \<Rightarrow> find_clr_bytes bmap (p + 1) (sbit + 8) (bcnt - 8))
      else find_clr_bits bmap p sbit 0 bcnt)"
  by pat_completeness auto
termination
  by (relation "measure (\<lambda>(bmap, p, sbit, bcnt). unat bcnt)")
    (auto simp: unat_sub word_le_nat_alt)

declare find_clr_head.simps [simp del] find_clr_bits.simps [simp del] find_clr_bytes.simps [simp del]

definition ext4_bmap_bit_find_clr :: "bytes \<Rightarrow> u32 \<Rightarrow> u32 \<Rightarrow> find_res option" where
  "ext4_bmap_bit_find_clr bmap sbit ebit =
     (if ebit \<le> sbit then Some NoSpace
      else case find_clr_head bmap sbit (ebit - sbit) of
          None \<Rightarrow> None
        | Some (Inl r) \<Rightarrow> Some r
        | Some (Inr (i, bcnt)) \<Rightarrow> find_clr_bytes bmap (unat (drop_bit 3 i)) i bcnt)"

section \<open>The bits of a bitmap\<close>

definition bm_bit :: "bytes \<Rightarrow> nat \<Rightarrow> bool" where
  "bm_bit bm n = bit (bm ! (n div 8)) (n mod 8)"

definition bm_upd :: "bytes \<Rightarrow> nat \<Rightarrow> bool \<Rightarrow> bytes" where
  "bm_upd bm n v = bm[n div 8 := (if v then set_bit else unset_bit) (n mod 8) (bm ! (n div 8))]"

lemma length_bm_upd [simp]: "length (bm_upd bm n v) = length bm"
  by (simp add: bm_upd_def)

lemma bm_bit_upd:
  assumes "n < 8 * length bm"
  shows "bm_bit (bm_upd bm n v) m = (if m = n then v else bm_bit bm m)"
proof (cases "m div 8 = n div 8")
  case True
  have "n div 8 < length bm" using assms by auto
  moreover have "m mod 8 = n mod 8 \<longleftrightarrow> m = n"
    using True by (metis div_mult_mod_eq)
  ultimately show ?thesis
    using True by (auto simp: bm_bit_def bm_upd_def bit_set_bit_iff bit_unset_bit_iff)
next
  case False
  then show ?thesis by (auto simp: bm_bit_def bm_upd_def)
qed

lemma bm_bit_drop: "p \<le> length bm \<Longrightarrow> bm_bit (drop p bm) n = bm_bit bm (8 * p + n)"
  by (simp add: bm_bit_def)

lemma bit_mask8_eq: "bit_mask8 i = push_bit (unat i mod 8) 1"
  by (simp add: bit_mask8_def unat_and_7)

lemma and_bit_mask8: "b AND bit_mask8 i \<noteq> 0 \<longleftrightarrow> bit b (unat i mod 8)"
  by (simp add: bit_mask8_eq bit_iff_and_push_bit_not_eq_0)

lemma is_bit_set_eq:
  "ext4_bmap_is_bit_set bm i = (if unat i < 8 * length bm then Some (bm_bit bm (unat i)) else None)"
  by (auto simp: ext4_bmap_is_bit_set_def rd8_def unat_drop_bit_3 bm_bit_def and_bit_mask8)

lemma is_bit_clr_eq:
  "ext4_bmap_is_bit_clr bm i =
     (if unat i < 8 * length bm then Some (\<not> bm_bit bm (unat i)) else None)"
  by (simp add: ext4_bmap_is_bit_clr_def is_bit_set_eq)

lemma or_bit_mask8: "b OR bit_mask8 i = set_bit (unat i mod 8) b"
  by (simp add: bit_mask8_eq set_bit_eq_or)

lemma and_not_bit_mask8: "b AND NOT (bit_mask8 i) = unset_bit (unat i mod 8) b"
  by (simp add: bit_mask8_eq unset_bit_eq_and_not)

lemma bit_set_eq:
  "ext4_bmap_bit_set bm i = (if unat i < 8 * length bm then Some (bm_upd bm (unat i) True) else None)"
  by (auto simp: ext4_bmap_bit_set_def rd8_def wr8_def unat_drop_bit_3 bm_upd_def or_bit_mask8)

lemma bit_clr_eq:
  "ext4_bmap_bit_clr bm i = (if unat i < 8 * length bm then Some (bm_upd bm (unat i) False) else None)"
  by (auto simp: ext4_bmap_bit_clr_def rd8_def wr8_def unat_drop_bit_3 bm_upd_def and_not_bit_mask8)

section \<open>The search is the first clear bit of the range\<close>

definition first_clr :: "bytes \<Rightarrow> nat \<Rightarrow> nat \<Rightarrow> find_res" where
  "first_clr bm s e =
     (case find (\<lambda>i. \<not> bm_bit bm i) [s..<e] of None \<Rightarrow> NoSpace | Some i \<Rightarrow> Found (of_nat i))"

lemma first_clr_step:
  "first_clr bm s e =
     (if s < e then if bm_bit bm s then first_clr bm (Suc s) e else Found (of_nat s) else NoSpace)"
  by (simp add: first_clr_def find_upt_step [of _ s e])

lemma first_clr_empty [simp]: "e \<le> s \<Longrightarrow> first_clr bm s e = NoSpace"
  by (simp add: first_clr_step [of bm s e])

lemma first_clr_skip:
  "s \<le> m \<Longrightarrow> m \<le> e \<Longrightarrow> (\<And>j. s \<le> j \<Longrightarrow> j < m \<Longrightarrow> bm_bit bm j) \<Longrightarrow> first_clr bm s e = first_clr bm m e"
  by (simp add: first_clr_def find_upt_skip [of s m e])

lemma first_clr_Found_narrow:
  assumes "first_clr bm s m = Found r" and "m \<le> e"
  shows "first_clr bm s e = Found r"
proof -
  from assms(1) obtain i where "find (\<lambda>i. \<not> bm_bit bm i) [s..<m] = Some i" "r = of_nat i"
    by (auto simp: first_clr_def split: option.splits)
  with assms(2) have "find (\<lambda>i. \<not> bm_bit bm i) [s..<e] = Some i"
    by (auto simp: find_upt_Some)
  with \<open>r = of_nat i\<close> show ?thesis by (simp add: first_clr_def)
qed

lemma first_clr_NoSpace: "first_clr bm s e = NoSpace \<longleftrightarrow> (\<forall>j. s \<le> j \<and> j < e \<longrightarrow> bm_bit bm j)"
  by (auto simp: first_clr_def find_upt_None find_upt_Some split: option.splits)

lemma and_7_zero_iff: "(i :: u32) AND 7 = 0 \<longleftrightarrow> unat i mod 8 = 0"
  by (metis unat_and_7 unat_eq_zero)

lemma find_clr_head_spec:
  assumes "unat i + unat bcnt = e" "e \<le> 8 * length bm" "e < 2 ^ 32"
  shows "case find_clr_head bm i bcnt of
      None \<Rightarrow> False
    | Some (Inl r) \<Rightarrow> r = first_clr bm (unat i) e
    | Some (Inr (i', bcnt')) \<Rightarrow> unat i' mod 8 = 0 \<and> unat i' + unat bcnt' = e \<and>
        first_clr bm (unat i) e = first_clr bm (unat i') e"
  using assms
proof (induction bm i bcnt rule: find_clr_head.induct)
  case (1 bm i bcnt)
  show ?case
  proof (cases "i AND 7 = 0 \<or> bcnt = 0")
    case True
    then show ?thesis
      using "1.prems" by (auto simp: find_clr_head.simps [of bm i bcnt] and_7_zero_iff first_clr_step [of bm "unat i" "unat i"])
  next
    case False
    then have "0 < unat bcnt" by (simp add: unat_gt_0)
    with False have lt: "unat i < e" "unat (i + 1) = unat i + 1" "unat (bcnt - 1) = unat bcnt - 1"
      using "1.prems" unat_Suc_word [of i] by (auto simp: unat_sub1_word)
    have clr: "ext4_bmap_is_bit_clr bm i = Some (\<not> bm_bit bm (unat i))"
      using lt "1.prems" by (simp add: is_bit_clr_eq)
    have step: "first_clr bm (unat i) e =
        (if bm_bit bm (unat i) then first_clr bm (unat (i + 1)) e else Found i)"
      using lt by (simp add: first_clr_step [of bm "unat i"])
    have "unat (i + 1) + unat (bcnt - 1) = e"
      using lt \<open>0 < unat bcnt\<close> "1.prems" by linarith
    with "1.IH" [OF _ _ clr] False "1.prems" have IH: "bm_bit bm (unat i) \<Longrightarrow>
        case find_clr_head bm (i + 1) (bcnt - 1) of
          None \<Rightarrow> False
        | Some (Inl r) \<Rightarrow> r = first_clr bm (unat (i + 1)) e
        | Some (Inr (i', bcnt')) \<Rightarrow> unat i' mod 8 = 0 \<and> unat i' + unat bcnt' = e \<and>
            first_clr bm (unat (i + 1)) e = first_clr bm (unat i') e"
      by simp
    from False have unfold: "find_clr_head bm i bcnt =
        (if bm_bit bm (unat i) then find_clr_head bm (i + 1) (bcnt - 1) else Some (Inl (Found i)))"
      by (simp add: find_clr_head.simps [of bm i bcnt] clr)
    show ?thesis
      unfolding unfold step using IH by simp
  qed
qed

lemma find_clr_bits_spec:
  assumes "unat i \<le> unat n" "8 * p + unat n \<le> 8 * length bm" "8 * p + unat n < 2 ^ 32"
    and "unat sbit = 8 * p"
  shows "find_clr_bits bm p sbit i n = Some (first_clr bm (8 * p + unat i) (8 * p + unat n))"
  using assms
proof (induction bm p sbit i n rule: find_clr_bits.induct)
  case (1 bm p sbit i n)
  show ?case
  proof (cases "i < n")
    case True
    then have lt: "unat i < unat n" "unat (i + 1) = unat i + 1"
      by (auto simp: word_less_nat_alt unat_Suc_less_word)
    have sum: "of_nat (8 * p + unat i) = sbit + i"
      unfolding "1.prems"(4) [symmetric] by simp
    have clr: "ext4_bmap_is_bit_clr (drop p bm) i = Some (\<not> bm_bit bm (8 * p + unat i))"
      using lt "1.prems" by (simp add: is_bit_clr_eq bm_bit_drop)
    have step: "first_clr bm (8 * p + unat i) (8 * p + unat n) =
        (if bm_bit bm (8 * p + unat i) then first_clr bm (8 * p + unat (i + 1)) (8 * p + unat n)
         else Found (sbit + i))"
      unfolding first_clr_step [of bm "8 * p + unat i"] sum using lt by simp
    have "bm_bit bm (8 * p + unat i) \<Longrightarrow> find_clr_bits bm p sbit (i + 1) n =
        Some (first_clr bm (8 * p + unat (i + 1)) (8 * p + unat n))"
      using "1.IH" [OF True clr] lt "1.prems" by simp
    then show ?thesis
      unfolding find_clr_bits.simps [of bm p sbit i n] step using True clr by simp
  next
    case False
    with "1.prems" show ?thesis
      by (simp add: find_clr_bits.simps [of bm p sbit i n] first_clr_step [of bm "8 * p + unat i"]
          word_less_nat_alt)
  qed
qed

lemma bm_bit_byte_FF: "bm ! p = 0xFF \<Longrightarrow> 8 * p \<le> j \<Longrightarrow> j < 8 * p + 8 \<Longrightarrow> bm_bit bm j"
proof -
  assume a: "bm ! p = 0xFF" "8 * p \<le> j" "j < 8 * p + 8"
  then have "j div 8 = p" by auto
  moreover have "bit (0xFF :: u8) k" if "k < 8" for k
  proof -
    have "(0xFF :: u8) = mask 8" by (simp add: mask_eq_exp_minus_1)
    with that show ?thesis by (simp only: bit_mask_iff) simp
  qed
  ultimately show ?thesis using a by (simp add: bm_bit_def)
qed

lemma find_clr_bytes_spec:
  assumes "8 * p + unat bcnt = e" "e \<le> 8 * length bm" "e < 2 ^ 32" "unat sbit = 8 * p"
  shows "find_clr_bytes bm p sbit bcnt = Some (first_clr bm (8 * p) e)"
  using assms
proof (induction bm p sbit bcnt rule: find_clr_bytes.induct)
  case (1 bm p sbit bcnt)
  show ?case
  proof (cases "8 \<le> bcnt")
    case True
    then have b: "8 \<le> unat bcnt" "unat (bcnt - 8) = unat bcnt - 8"
      by (auto simp: word_le_nat_alt unat_sub)
    have s: "unat (sbit + 8) = 8 * (p + 1)"
      using "1.prems" b by (simp add: unat_word_ariths)
    let ?scan = "if bm ! p \<noteq> 0xFF then find_clr_bits bm p sbit 0 8 else Some NoSpace"
    have FF: "bm ! p = 0xFF \<Longrightarrow> first_clr bm (8 * p) (8 * p + 8) = NoSpace"
      unfolding first_clr_NoSpace using bm_bit_byte_FF by blast
    moreover have bits: "find_clr_bits bm p sbit 0 8 = Some (first_clr bm (8 * p) (8 * p + 8))"
      using find_clr_bits_spec [of 0 8 p bm sbit] "1.prems" b by simp
    ultimately have scan: "?scan = Some (first_clr bm (8 * p) (8 * p + 8))"
      by simp
    have p: "rd8 bm p = Some (bm ! p)"
      using "1.prems" b by (intro rd8_in) linarith
    have unfold: "find_clr_bytes bm p sbit bcnt =
        (case first_clr bm (8 * p) (8 * p + 8) of Found r \<Rightarrow> Some (Found r)
         | NoSpace \<Rightarrow> find_clr_bytes bm (p + 1) (sbit + 8) (bcnt - 8))"
      unfolding find_clr_bytes.simps [of bm p sbit bcnt] p
      using True FF by (cases "bm ! p = 0xFF") (simp_all add: bits)
    have e: "8 * p + 8 \<le> e"
      using "1.prems" b by linarith
    show ?thesis
    proof (cases "first_clr bm (8 * p) (8 * p + 8)")
      case (Found r)
      with first_clr_Found_narrow [OF Found e] show ?thesis by (simp add: unfold)
    next
      case NoSpace
      have "find_clr_bytes bm (p + 1) (sbit + 8) (bcnt - 8) = Some (first_clr bm (8 * (p + 1)) e)"
        using "1.IH" [OF True p scan [unfolded NoSpace]] "1.prems" b s by simp
      moreover have "first_clr bm (8 * p) e = first_clr bm (8 * (p + 1)) e"
        using NoSpace e by (intro first_clr_skip) (auto simp: first_clr_NoSpace)
      ultimately show ?thesis by (simp only: unfold NoSpace find_res.simps)
    qed
  next
    case False
    with "1.prems" show ?thesis
      by (simp add: find_clr_bytes.simps [of bm p sbit bcnt] find_clr_bits_spec)
  qed
qed

lemma find_clr_eq_first_clr:
  assumes "unat ebit \<le> 8 * length bm"
  shows "ext4_bmap_bit_find_clr bm sbit ebit = Some (first_clr bm (unat sbit) (unat ebit))"
proof (cases "ebit \<le> sbit")
  case True
  then show ?thesis
    by (simp add: ext4_bmap_bit_find_clr_def first_clr_step [of bm "unat sbit"] word_le_nat_alt)
next
  case False
  then have sum: "unat sbit + unat (ebit - sbit) = unat ebit"
    by (simp add: unat_sub word_le_nat_alt)
  have lt: "unat ebit < 2 ^ 32" using unat_u32_lt [of ebit] by simp
  have
    "case find_clr_head bm sbit (ebit - sbit) of
      None \<Rightarrow> False
    | Some (Inl r) \<Rightarrow> r = first_clr bm (unat sbit) (unat ebit)
    | Some (Inr (i, bcnt)) \<Rightarrow> find_clr_bytes bm (unat (drop_bit 3 i)) i bcnt =
        Some (first_clr bm (unat sbit) (unat ebit))"
    using find_clr_head_spec [OF sum assms lt] assms lt
    by (auto simp: unat_drop_bit_3 find_clr_bytes_spec mod_eq_0_iff_dvd split: option.splits sum.splits)
  with False show ?thesis
    by (auto simp: ext4_bmap_bit_find_clr_def split: option.splits sum.splits)
qed

lemma find_clr_Found_in_range:
  assumes "ext4_bmap_bit_find_clr bm sbit ebit = Some (Found r)" "unat ebit \<le> 8 * length bm"
  shows "sbit \<le> r \<and> r < ebit \<and> \<not> bm_bit bm (unat r)"
proof -
  from assms have "first_clr bm (unat sbit) (unat ebit) = Found r"
    by (simp add: find_clr_eq_first_clr)
  then obtain i where i: "unat sbit \<le> i" "i < unat ebit" "\<not> bm_bit bm i" "r = of_nat i"
    by (auto simp: first_clr_def find_upt_Some split: option.splits)
  moreover have "unat r = i"
    using i(2) unat_u32_lt [of ebit] unfolding i(4) by (simp add: unat_of_nat)
  ultimately show ?thesis by (simp add: word_le_nat_alt word_less_nat_alt)
qed

section \<open>Clearing a range clears exactly that range\<close>

text \<open>\<open>bm_cleared bm s e bm'\<close>: \<open>bm'\<close> is \<open>bm\<close> with the bits \<open>s..<e\<close> cleared.\<close>

definition bm_cleared :: "bytes \<Rightarrow> nat \<Rightarrow> nat \<Rightarrow> bytes \<Rightarrow> bool" where
  "bm_cleared bm s e bm' \<longleftrightarrow> length bm' = length bm \<and>
     (\<forall>m. bm_bit bm' m = (bm_bit bm m \<and> \<not> (s \<le> m \<and> m < e)))"

lemma bm_cleared_refl [simp]: "e \<le> s \<Longrightarrow> bm_cleared bm s e bm"
  by (auto simp: bm_cleared_def)

lemma bm_cleared_one: "s < 8 * length bm \<Longrightarrow> bm_cleared bm s (Suc s) (bm_upd bm s False)"
  by (auto simp: bm_cleared_def bm_bit_upd)

lemma bm_cleared_trans:
  "bm_cleared bm s m bm1 \<Longrightarrow> bm_cleared bm1 m e bm2 \<Longrightarrow> s \<le> m \<Longrightarrow> m \<le> e \<Longrightarrow> bm_cleared bm s e bm2"
  unfolding bm_cleared_def by (intro conjI allI) (simp, meson le_trans less_le_trans not_less)

lemma bm_cleared_byte:
  assumes "p < length bm"
  shows "bm_cleared bm (8 * p) (8 * p + 8) (bm[p := 0])"
proof -
  have "8 * p \<le> m \<and> m < 8 * p + 8 \<longleftrightarrow> m div 8 = p" for m :: nat by auto
  with assms show ?thesis by (simp add: bm_cleared_def bm_bit_def nth_list_update)
qed

lemma bits_free_head_spec:
  assumes "unat i + unat bcnt = e" "e \<le> 8 * length bm" "e < 2 ^ 32"
  shows "(\<exists>bm'. bits_free_head bm i bcnt = Some (Inl bm') \<and> bm_cleared bm (unat i) e bm') \<or>
    (\<exists>bm' i' bcnt'. bits_free_head bm i bcnt = Some (Inr (bm', i', bcnt')) \<and> unat i \<le> unat i' \<and>
       unat i' mod 8 = 0 \<and> unat i' + unat bcnt' = e \<and> bm_cleared bm (unat i) (unat i') bm')"
  using assms
proof (induction bm i bcnt rule: bits_free_head.induct)
  case (1 bm i bcnt)
  show ?case
  proof (cases "i AND 7 = 0 \<or> bcnt = 0")
    case True
    then show ?thesis
      using "1.prems" by (auto simp: bits_free_head.simps [of bm i bcnt] and_7_zero_iff)
  next
    case False
    then have "0 < unat bcnt" by (simp add: unat_gt_0)
    with False have lt: "unat i < e" "unat (i + 1) = unat i + 1" "unat (bcnt - 1) = unat bcnt - 1"
      using "1.prems" unat_Suc_word [of i] by (auto simp: unat_sub1_word)
    define bm1 where "bm1 = bm_upd bm (unat i) False"
    have clr: "ext4_bmap_bit_clr bm i = Some bm1"
      using lt "1.prems" by (simp add: bit_clr_eq bm1_def)
    have one: "bm_cleared bm (unat i) (unat (i + 1)) bm1"
      using lt "1.prems" bm_cleared_one [of "unat i" bm] by (simp add: bm1_def)
    have unfold: "bits_free_head bm i bcnt = bits_free_head bm1 (i + 1) (bcnt - 1)"
      using False by (simp add: bits_free_head.simps [of bm i bcnt] clr)
    have "unat (i + 1) + unat (bcnt - 1) = e" "length bm1 = length bm"
      using lt \<open>0 < unat bcnt\<close> "1.prems" by (linarith, simp add: bm1_def)
    with "1.IH" [OF _ _ clr] False "1.prems" have
      "(\<exists>bm'. bits_free_head bm1 (i + 1) (bcnt - 1) = Some (Inl bm') \<and> bm_cleared bm1 (unat (i + 1)) e bm') \<or>
       (\<exists>bm' i' bcnt'. bits_free_head bm1 (i + 1) (bcnt - 1) = Some (Inr (bm', i', bcnt')) \<and>
          unat (i + 1) \<le> unat i' \<and> unat i' mod 8 = 0 \<and> unat i' + unat bcnt' = e \<and>
          bm_cleared bm1 (unat (i + 1)) (unat i') bm')"
      by simp
    then show ?thesis
      unfolding unfold using one lt by (elim disjE exE conjE) (auto intro: bm_cleared_trans)
  qed
qed

lemma bits_free_bytes_spec:
  assumes "8 * p + unat bcnt = e" "e \<le> 8 * length bm"
  shows "\<exists>bm' p' bcnt'. bits_free_bytes bm p bcnt = Some (bm', p', bcnt') \<and> p \<le> p' \<and>
    8 * p' + unat bcnt' = e \<and> bcnt' < 8 \<and> bm_cleared bm (8 * p) (8 * p') bm'"
  using assms
proof (induction bm p bcnt rule: bits_free_bytes.induct)
  case (1 bm p bcnt)
  show ?case
  proof (cases "8 \<le> bcnt")
    case True
    then have b: "8 \<le> unat bcnt" "unat (bcnt - 8) = unat bcnt - 8"
      by (auto simp: word_le_nat_alt unat_sub)
    have p: "p < length bm" using b "1.prems" by linarith
    then have wr: "wr8 bm p 0 = Some (bm[p := 0])" by simp
    have "8 * (p + 1) + unat (bcnt - 8) = e" unfolding b(2) using b(1) "1.prems"(1) by simp
    from "1.IH" [OF True wr this] "1.prems" obtain bm' p' bcnt' where
      "bits_free_bytes (bm[p := 0]) (p + 1) (bcnt - 8) = Some (bm', p', bcnt')" "p + 1 \<le> p'"
      "8 * p' + unat bcnt' = e" "bcnt' < 8" "bm_cleared (bm[p := 0]) (8 * p + 8) (8 * p') bm'"
      by (auto simp: add.commute)
    with bm_cleared_trans [OF bm_cleared_byte [OF p]] True wr show ?thesis
      by (auto simp: bits_free_bytes.simps [of bm p bcnt])
  next
    case False
    with "1.prems" show ?thesis by (auto simp: bits_free_bytes.simps [of bm p bcnt])
  qed
qed

lemma bm_upd_drop:
  assumes "p \<le> length bm" "8 * p + n < 8 * length bm"
  shows "take p bm @ bm_upd (drop p bm) n v = bm_upd bm (8 * p + n) v"
proof -
  have "(drop p bm)[k := x] = drop p (bm[p + k := x])" for k x
    using assms by (simp add: drop_update_swap)
  moreover have "take p bm @ drop p (bm[p + k := x]) = bm[p + k := x]" for k x
    using append_take_drop_id [of p "bm[p + k := x]"] by simp
  ultimately show ?thesis
    using assms by (simp add: bm_upd_def)
qed

lemma bits_free_tail_spec:
  assumes "unat i \<le> unat n" "8 * p + unat n \<le> 8 * length bm"
  shows "\<exists>bm'. bits_free_tail bm p i n = Some bm' \<and>
    bm_cleared bm (8 * p + unat i) (8 * p + unat n) bm'"
  using assms
proof (induction bm p i n rule: bits_free_tail.induct)
  case (1 bm p i n)
  show ?case
  proof (cases "i < n")
    case True
    then have lt: "unat i < unat n" "unat (i + 1) = unat i + 1"
      by (auto simp: word_less_nat_alt unat_Suc_less_word)
    define bm1 where "bm1 = bm_upd bm (8 * p + unat i) False"
    have clr: "bmap_bit_clr_at bm p i = Some bm1"
      using lt "1.prems" by (simp add: bmap_bit_clr_at_def bit_clr_eq bm_upd_drop bm1_def)
    have one: "bm_cleared bm (8 * p + unat i) (8 * p + unat (i + 1)) bm1"
      using lt "1.prems" bm_cleared_one [of "8 * p + unat i" bm] by (simp add: bm1_def)
    from "1.IH" [OF True clr] lt "1.prems" obtain bm' where
      "bits_free_tail bm1 p (i + 1) n = Some bm'"
      "bm_cleared bm1 (8 * p + unat (i + 1)) (8 * p + unat n) bm'"
      by (auto simp: bm1_def)
    with True clr one lt show ?thesis
      by (auto simp: bits_free_tail.simps [of bm p i n] intro: bm_cleared_trans)
  next
    case False
    with "1.prems" show ?thesis
      by (simp add: bits_free_tail.simps [of bm p i n] word_less_nat_alt)
  qed
qed

lemma bits_free_cleared:
  assumes "unat sbit + unat bcnt \<le> 8 * length bm" "unat sbit + unat bcnt < 2 ^ 32"
  shows "\<exists>bm'. ext4_bmap_bits_free bm sbit bcnt = Some bm' \<and>
    bm_cleared bm (unat sbit) (unat sbit + unat bcnt) bm'"
  using bits_free_head_spec [OF refl assms]
proof (elim disjE exE conjE)
  fix bm1 i n
  let ?e = "unat sbit + unat bcnt"
  assume h: "bits_free_head bm sbit bcnt = Some (Inr (bm1, i, n))" "unat sbit \<le> unat i"
    "unat i mod 8 = 0" "unat i + unat n = ?e" "bm_cleared bm (unat sbit) (unat i) bm1"
  then have len: "length bm1 = length bm" by (simp add: bm_cleared_def)
  have i: "8 * (unat i div 8) = unat i" using h(3) by auto
  obtain bm2 p m where b: "bits_free_bytes bm1 (unat i div 8) n = Some (bm2, p, m)"
    "unat i div 8 \<le> p" "8 * p + unat m = ?e" "bm_cleared bm1 (unat i) (8 * p) bm2"
    using bits_free_bytes_spec [of "unat i div 8" n ?e bm1] h(4) i len assms(1) by auto
  then have len2: "length bm2 = length bm" using len by (simp add: bm_cleared_def)
  obtain bm3 where t: "bits_free_tail bm2 p 0 m = Some bm3" "bm_cleared bm2 (8 * p) ?e bm3"
    using bits_free_tail_spec [of 0 m p bm2] b(3) len2 assms(1) by auto
  have "bm_cleared bm (unat sbit) ?e bm3"
    using bm_cleared_trans [OF h(5) bm_cleared_trans [OF b(4) t(2)]] h(2) i b(2,3) by linarith
  with h(1) b(1) t(1) show ?thesis
    by (simp add: ext4_bmap_bits_free_def unat_drop_bit_3)
qed (auto simp: ext4_bmap_bits_free_def)

section \<open>Properties\<close>

text \<open>C32: the search stays inside the bitmap and returns the first clear bit of the half-open range
  from \<open>sbit\<close> to \<open>ebit\<close>, or no space exactly when every bit of the range is set, whatever its
  alignment to bytes.\<close>

theorem bit_find_clr_correct:
  assumes "unat ebit \<le> 8 * length bm"
  shows "case ext4_bmap_bit_find_clr bm sbit ebit of
      None \<Rightarrow> False
    | Some (Found r) \<Rightarrow> sbit \<le> r \<and> r < ebit \<and> \<not> bm_bit bm (unat r) \<and>
        (\<forall>j. unat sbit \<le> j \<and> j < unat r \<longrightarrow> bm_bit bm j)
    | Some NoSpace \<Rightarrow> \<forall>j. unat sbit \<le> j \<and> j < unat ebit \<longrightarrow> bm_bit bm j"
proof (cases "first_clr bm (unat sbit) (unat ebit)")
  case (Found r)
  then obtain i where i: "unat sbit \<le> i" "i < unat ebit" "\<not> bm_bit bm i" "r = of_nat i"
    "\<forall>j. unat sbit \<le> j \<and> j < i \<longrightarrow> bm_bit bm j"
    by (auto simp: first_clr_def find_upt_Some split: option.splits)
  have "unat r = i"
    using i(2) unat_u32_lt [of ebit] unfolding i(4) by (simp add: unat_of_nat)
  with i Found assms show ?thesis
    by (simp add: find_clr_eq_first_clr word_le_nat_alt word_less_nat_alt)
next
  case NoSpace
  with first_clr_NoSpace [THEN iffD1, OF NoSpace] assms show ?thesis
    by (simp add: find_clr_eq_first_clr)
qed

theorem bit_find_clr_correct_witness:
  "case ext4_bmap_bit_find_clr [0xFF, 0x0F, 0x01] 3 20 of
      None \<Rightarrow> False
    | Some (Found r) \<Rightarrow> 3 \<le> r \<and> r < 20 \<and> \<not> bm_bit [0xFF, 0x0F, 0x01] (unat r) \<and>
        (\<forall>j. unat (3 :: u32) \<le> j \<and> j < unat r \<longrightarrow> bm_bit [0xFF, 0x0F, 0x01] j)
    | Some NoSpace \<Rightarrow> \<forall>j. unat (3 :: u32) \<le> j \<and> j < unat (20 :: u32) \<longrightarrow> bm_bit [0xFF, 0x0F, 0x01] j"
  by (rule bit_find_clr_correct) simp

text \<open>freeing a range that lies in the bitmap succeeds, clears every bit of the range and leaves
  every other bit and the length of the bitmap as they were.\<close>

theorem bits_free_exact:
  assumes "unat sbit + unat bcnt \<le> 8 * length bm" "unat sbit + unat bcnt < 2 ^ 32"
  shows "\<exists>bm'. ext4_bmap_bits_free bm sbit bcnt = Some bm' \<and> length bm' = length bm \<and>
    (\<forall>m. bm_bit bm' m = (bm_bit bm m \<and> \<not> (unat sbit \<le> m \<and> m < unat sbit + unat bcnt)))"
  using bits_free_cleared [OF assms] by (auto simp: bm_cleared_def)

theorem bits_free_exact_witness:
  "\<exists>bm'. ext4_bmap_bits_free [0xFF, 0xFF, 0xFF, 0xFF] 5 20 = Some bm' \<and> length bm' = length [0xFF :: u8, 0xFF, 0xFF, 0xFF] \<and>
    (\<forall>m. bm_bit bm' m = (bm_bit [0xFF, 0xFF, 0xFF, 0xFF] m \<and> \<not> (5 \<le> m \<and> m < 25)))"
  using bits_free_exact [of 5 20 "[0xFF, 0xFF, 0xFF, 0xFF]"] by simp

end
