(* ===== verification/Crc.thy ===== *)
theory Crc
  imports Ext4_Prelude
begin

unbundle bit_operations_syntax

text \<open>
  Checksums: the table-driven CRC-32 and CRC-32C of \<^verbatim>\<open>ext4_crc32.c\<close> and the CRC-16 of
  \<^verbatim>\<open>ext4_block_group.c\<close>, with the source's tables.  The locale \<open>crc_table\<close> states what a
  table promises (entry \<open>n\<close> is eight steps of the shift register on \<open>n\<close>) and proves once
  what the checksum then guarantees; it is interpreted on the three tables of the source.
\<close>

section \<open>The code\<close>

definition crc32_tab :: "u32 list" where
  "crc32_tab = [
     0x00000000, 0x77073096, 0xEE0E612C, 0x990951BA, 0x076DC419, 0x706AF48F, 0xE963A535, 0x9E6495A3,
     0x0EDB8832, 0x79DCB8A4, 0xE0D5E91E, 0x97D2D988, 0x09B64C2B, 0x7EB17CBD, 0xE7B82D07, 0x90BF1D91,
     0x1DB71064, 0x6AB020F2, 0xF3B97148, 0x84BE41DE, 0x1ADAD47D, 0x6DDDE4EB, 0xF4D4B551, 0x83D385C7,
     0x136C9856, 0x646BA8C0, 0xFD62F97A, 0x8A65C9EC, 0x14015C4F, 0x63066CD9, 0xFA0F3D63, 0x8D080DF5,
     0x3B6E20C8, 0x4C69105E, 0xD56041E4, 0xA2677172, 0x3C03E4D1, 0x4B04D447, 0xD20D85FD, 0xA50AB56B,
     0x35B5A8FA, 0x42B2986C, 0xDBBBC9D6, 0xACBCF940, 0x32D86CE3, 0x45DF5C75, 0xDCD60DCF, 0xABD13D59,
     0x26D930AC, 0x51DE003A, 0xC8D75180, 0xBFD06116, 0x21B4F4B5, 0x56B3C423, 0xCFBA9599, 0xB8BDA50F,
     0x2802B89E, 0x5F058808, 0xC60CD9B2, 0xB10BE924, 0x2F6F7C87, 0x58684C11, 0xC1611DAB, 0xB6662D3D,
     0x76DC4190, 0x01DB7106, 0x98D220BC, 0xEFD5102A, 0x71B18589, 0x06B6B51F, 0x9FBFE4A5, 0xE8B8D433,
     0x7807C9A2, 0x0F00F934, 0x9609A88E, 0xE10E9818, 0x7F6A0DBB, 0x086D3D2D, 0x91646C97, 0xE6635C01,
     0x6B6B51F4, 0x1C6C6162, 0x856530D8, 0xF262004E, 0x6C0695ED, 0x1B01A57B, 0x8208F4C1, 0xF50FC457,
     0x65B0D9C6, 0x12B7E950, 0x8BBEB8EA, 0xFCB9887C, 0x62DD1DDF, 0x15DA2D49, 0x8CD37CF3, 0xFBD44C65,
     0x4DB26158, 0x3AB551CE, 0xA3BC0074, 0xD4BB30E2, 0x4ADFA541, 0x3DD895D7, 0xA4D1C46D, 0xD3D6F4FB,
     0x4369E96A, 0x346ED9FC, 0xAD678846, 0xDA60B8D0, 0x44042D73, 0x33031DE5, 0xAA0A4C5F, 0xDD0D7CC9,
     0x5005713C, 0x270241AA, 0xBE0B1010, 0xC90C2086, 0x5768B525, 0x206F85B3, 0xB966D409, 0xCE61E49F,
     0x5EDEF90E, 0x29D9C998, 0xB0D09822, 0xC7D7A8B4, 0x59B33D17, 0x2EB40D81, 0xB7BD5C3B, 0xC0BA6CAD,
     0xEDB88320, 0x9ABFB3B6, 0x03B6E20C, 0x74B1D29A, 0xEAD54739, 0x9DD277AF, 0x04DB2615, 0x73DC1683,
     0xE3630B12, 0x94643B84, 0x0D6D6A3E, 0x7A6A5AA8, 0xE40ECF0B, 0x9309FF9D, 0x0A00AE27, 0x7D079EB1,
     0xF00F9344, 0x8708A3D2, 0x1E01F268, 0x6906C2FE, 0xF762575D, 0x806567CB, 0x196C3671, 0x6E6B06E7,
     0xFED41B76, 0x89D32BE0, 0x10DA7A5A, 0x67DD4ACC, 0xF9B9DF6F, 0x8EBEEFF9, 0x17B7BE43, 0x60B08ED5,
     0xD6D6A3E8, 0xA1D1937E, 0x38D8C2C4, 0x4FDFF252, 0xD1BB67F1, 0xA6BC5767, 0x3FB506DD, 0x48B2364B,
     0xD80D2BDA, 0xAF0A1B4C, 0x36034AF6, 0x41047A60, 0xDF60EFC3, 0xA867DF55, 0x316E8EEF, 0x4669BE79,
     0xCB61B38C, 0xBC66831A, 0x256FD2A0, 0x5268E236, 0xCC0C7795, 0xBB0B4703, 0x220216B9, 0x5505262F,
     0xC5BA3BBE, 0xB2BD0B28, 0x2BB45A92, 0x5CB36A04, 0xC2D7FFA7, 0xB5D0CF31, 0x2CD99E8B, 0x5BDEAE1D,
     0x9B64C2B0, 0xEC63F226, 0x756AA39C, 0x026D930A, 0x9C0906A9, 0xEB0E363F, 0x72076785, 0x05005713,
     0x95BF4A82, 0xE2B87A14, 0x7BB12BAE, 0x0CB61B38, 0x92D28E9B, 0xE5D5BE0D, 0x7CDCEFB7, 0x0BDBDF21,
     0x86D3D2D4, 0xF1D4E242, 0x68DDB3F8, 0x1FDA836E, 0x81BE16CD, 0xF6B9265B, 0x6FB077E1, 0x18B74777,
     0x88085AE6, 0xFF0F6A70, 0x66063BCA, 0x11010B5C, 0x8F659EFF, 0xF862AE69, 0x616BFFD3, 0x166CCF45,
     0xA00AE278, 0xD70DD2EE, 0x4E048354, 0x3903B3C2, 0xA7672661, 0xD06016F7, 0x4969474D, 0x3E6E77DB,
     0xAED16A4A, 0xD9D65ADC, 0x40DF0B66, 0x37D83BF0, 0xA9BCAE53, 0xDEBB9EC5, 0x47B2CF7F, 0x30B5FFE9,
     0xBDBDF21C, 0xCABAC28A, 0x53B39330, 0x24B4A3A6, 0xBAD03605, 0xCDD70693, 0x54DE5729, 0x23D967BF,
     0xB3667A2E, 0xC4614AB8, 0x5D681B02, 0x2A6F2B94, 0xB40BBE37, 0xC30C8EA1, 0x5A05DF1B, 0x2D02EF8D]"

definition crc32c_tab :: "u32 list" where
  "crc32c_tab = [
     0x00000000, 0xF26B8303, 0xE13B70F7, 0x1350F3F4, 0xC79A971F, 0x35F1141C, 0x26A1E7E8, 0xD4CA64EB,
     0x8AD958CF, 0x78B2DBCC, 0x6BE22838, 0x9989AB3B, 0x4D43CFD0, 0xBF284CD3, 0xAC78BF27, 0x5E133C24,
     0x105EC76F, 0xE235446C, 0xF165B798, 0x030E349B, 0xD7C45070, 0x25AFD373, 0x36FF2087, 0xC494A384,
     0x9A879FA0, 0x68EC1CA3, 0x7BBCEF57, 0x89D76C54, 0x5D1D08BF, 0xAF768BBC, 0xBC267848, 0x4E4DFB4B,
     0x20BD8EDE, 0xD2D60DDD, 0xC186FE29, 0x33ED7D2A, 0xE72719C1, 0x154C9AC2, 0x061C6936, 0xF477EA35,
     0xAA64D611, 0x580F5512, 0x4B5FA6E6, 0xB93425E5, 0x6DFE410E, 0x9F95C20D, 0x8CC531F9, 0x7EAEB2FA,
     0x30E349B1, 0xC288CAB2, 0xD1D83946, 0x23B3BA45, 0xF779DEAE, 0x05125DAD, 0x1642AE59, 0xE4292D5A,
     0xBA3A117E, 0x4851927D, 0x5B016189, 0xA96AE28A, 0x7DA08661, 0x8FCB0562, 0x9C9BF696, 0x6EF07595,
     0x417B1DBC, 0xB3109EBF, 0xA0406D4B, 0x522BEE48, 0x86E18AA3, 0x748A09A0, 0x67DAFA54, 0x95B17957,
     0xCBA24573, 0x39C9C670, 0x2A993584, 0xD8F2B687, 0x0C38D26C, 0xFE53516F, 0xED03A29B, 0x1F682198,
     0x5125DAD3, 0xA34E59D0, 0xB01EAA24, 0x42752927, 0x96BF4DCC, 0x64D4CECF, 0x77843D3B, 0x85EFBE38,
     0xDBFC821C, 0x2997011F, 0x3AC7F2EB, 0xC8AC71E8, 0x1C661503, 0xEE0D9600, 0xFD5D65F4, 0x0F36E6F7,
     0x61C69362, 0x93AD1061, 0x80FDE395, 0x72966096, 0xA65C047D, 0x5437877E, 0x4767748A, 0xB50CF789,
     0xEB1FCBAD, 0x197448AE, 0x0A24BB5A, 0xF84F3859, 0x2C855CB2, 0xDEEEDFB1, 0xCDBE2C45, 0x3FD5AF46,
     0x7198540D, 0x83F3D70E, 0x90A324FA, 0x62C8A7F9, 0xB602C312, 0x44694011, 0x5739B3E5, 0xA55230E6,
     0xFB410CC2, 0x092A8FC1, 0x1A7A7C35, 0xE811FF36, 0x3CDB9BDD, 0xCEB018DE, 0xDDE0EB2A, 0x2F8B6829,
     0x82F63B78, 0x709DB87B, 0x63CD4B8F, 0x91A6C88C, 0x456CAC67, 0xB7072F64, 0xA457DC90, 0x563C5F93,
     0x082F63B7, 0xFA44E0B4, 0xE9141340, 0x1B7F9043, 0xCFB5F4A8, 0x3DDE77AB, 0x2E8E845F, 0xDCE5075C,
     0x92A8FC17, 0x60C37F14, 0x73938CE0, 0x81F80FE3, 0x55326B08, 0xA759E80B, 0xB4091BFF, 0x466298FC,
     0x1871A4D8, 0xEA1A27DB, 0xF94AD42F, 0x0B21572C, 0xDFEB33C7, 0x2D80B0C4, 0x3ED04330, 0xCCBBC033,
     0xA24BB5A6, 0x502036A5, 0x4370C551, 0xB11B4652, 0x65D122B9, 0x97BAA1BA, 0x84EA524E, 0x7681D14D,
     0x2892ED69, 0xDAF96E6A, 0xC9A99D9E, 0x3BC21E9D, 0xEF087A76, 0x1D63F975, 0x0E330A81, 0xFC588982,
     0xB21572C9, 0x407EF1CA, 0x532E023E, 0xA145813D, 0x758FE5D6, 0x87E466D5, 0x94B49521, 0x66DF1622,
     0x38CC2A06, 0xCAA7A905, 0xD9F75AF1, 0x2B9CD9F2, 0xFF56BD19, 0x0D3D3E1A, 0x1E6DCDEE, 0xEC064EED,
     0xC38D26C4, 0x31E6A5C7, 0x22B65633, 0xD0DDD530, 0x0417B1DB, 0xF67C32D8, 0xE52CC12C, 0x1747422F,
     0x49547E0B, 0xBB3FFD08, 0xA86F0EFC, 0x5A048DFF, 0x8ECEE914, 0x7CA56A17, 0x6FF599E3, 0x9D9E1AE0,
     0xD3D3E1AB, 0x21B862A8, 0x32E8915C, 0xC083125F, 0x144976B4, 0xE622F5B7, 0xF5720643, 0x07198540,
     0x590AB964, 0xAB613A67, 0xB831C993, 0x4A5A4A90, 0x9E902E7B, 0x6CFBAD78, 0x7FAB5E8C, 0x8DC0DD8F,
     0xE330A81A, 0x115B2B19, 0x020BD8ED, 0xF0605BEE, 0x24AA3F05, 0xD6C1BC06, 0xC5914FF2, 0x37FACCF1,
     0x69E9F0D5, 0x9B8273D6, 0x88D28022, 0x7AB90321, 0xAE7367CA, 0x5C18E4C9, 0x4F48173D, 0xBD23943E,
     0xF36E6F75, 0x0105EC76, 0x12551F82, 0xE03E9C81, 0x34F4F86A, 0xC69F7B69, 0xD5CF889D, 0x27A40B9E,
     0x79B737BA, 0x8BDCB4B9, 0x988C474D, 0x6AE7C44E, 0xBE2DA0A5, 0x4C4623A6, 0x5F16D052, 0xAD7D5351]"

fun crc32 :: "u32 \<Rightarrow> bytes \<Rightarrow> u32 list \<Rightarrow> u32" where
  "crc32 crc [] tab = crc"
| "crc32 crc (p # ps) tab =
     crc32 (tab ! unat ((crc XOR ucast p) AND 0xFF) XOR drop_bit 8 crc) ps tab"

definition ext4_crc32 :: "u32 \<Rightarrow> bytes \<Rightarrow> u32" where
  "ext4_crc32 crc buf = crc32 crc buf crc32_tab"

definition ext4_crc32c :: "u32 \<Rightarrow> bytes \<Rightarrow> u32" where
  "ext4_crc32c crc buf = crc32 crc buf crc32c_tab"

definition crc16_tab :: "u16 list" where
  "crc16_tab = [
     0x0000, 0xC0C1, 0xC181, 0x0140, 0xC301, 0x03C0, 0x0280, 0xC241,
     0xC601, 0x06C0, 0x0780, 0xC741, 0x0500, 0xC5C1, 0xC481, 0x0440,
     0xCC01, 0x0CC0, 0x0D80, 0xCD41, 0x0F00, 0xCFC1, 0xCE81, 0x0E40,
     0x0A00, 0xCAC1, 0xCB81, 0x0B40, 0xC901, 0x09C0, 0x0880, 0xC841,
     0xD801, 0x18C0, 0x1980, 0xD941, 0x1B00, 0xDBC1, 0xDA81, 0x1A40,
     0x1E00, 0xDEC1, 0xDF81, 0x1F40, 0xDD01, 0x1DC0, 0x1C80, 0xDC41,
     0x1400, 0xD4C1, 0xD581, 0x1540, 0xD701, 0x17C0, 0x1680, 0xD641,
     0xD201, 0x12C0, 0x1380, 0xD341, 0x1100, 0xD1C1, 0xD081, 0x1040,
     0xF001, 0x30C0, 0x3180, 0xF141, 0x3300, 0xF3C1, 0xF281, 0x3240,
     0x3600, 0xF6C1, 0xF781, 0x3740, 0xF501, 0x35C0, 0x3480, 0xF441,
     0x3C00, 0xFCC1, 0xFD81, 0x3D40, 0xFF01, 0x3FC0, 0x3E80, 0xFE41,
     0xFA01, 0x3AC0, 0x3B80, 0xFB41, 0x3900, 0xF9C1, 0xF881, 0x3840,
     0x2800, 0xE8C1, 0xE981, 0x2940, 0xEB01, 0x2BC0, 0x2A80, 0xEA41,
     0xEE01, 0x2EC0, 0x2F80, 0xEF41, 0x2D00, 0xEDC1, 0xEC81, 0x2C40,
     0xE401, 0x24C0, 0x2580, 0xE541, 0x2700, 0xE7C1, 0xE681, 0x2640,
     0x2200, 0xE2C1, 0xE381, 0x2340, 0xE101, 0x21C0, 0x2080, 0xE041,
     0xA001, 0x60C0, 0x6180, 0xA141, 0x6300, 0xA3C1, 0xA281, 0x6240,
     0x6600, 0xA6C1, 0xA781, 0x6740, 0xA501, 0x65C0, 0x6480, 0xA441,
     0x6C00, 0xACC1, 0xAD81, 0x6D40, 0xAF01, 0x6FC0, 0x6E80, 0xAE41,
     0xAA01, 0x6AC0, 0x6B80, 0xAB41, 0x6900, 0xA9C1, 0xA881, 0x6840,
     0x7800, 0xB8C1, 0xB981, 0x7940, 0xBB01, 0x7BC0, 0x7A80, 0xBA41,
     0xBE01, 0x7EC0, 0x7F80, 0xBF41, 0x7D00, 0xBDC1, 0xBC81, 0x7C40,
     0xB401, 0x74C0, 0x7580, 0xB541, 0x7700, 0xB7C1, 0xB681, 0x7640,
     0x7200, 0xB2C1, 0xB381, 0x7340, 0xB101, 0x71C0, 0x7080, 0xB041,
     0x5000, 0x90C1, 0x9181, 0x5140, 0x9301, 0x53C0, 0x5280, 0x9241,
     0x9601, 0x56C0, 0x5780, 0x9741, 0x5500, 0x95C1, 0x9481, 0x5440,
     0x9C01, 0x5CC0, 0x5D80, 0x9D41, 0x5F00, 0x9FC1, 0x9E81, 0x5E40,
     0x5A00, 0x9AC1, 0x9B81, 0x5B40, 0x9901, 0x59C0, 0x5880, 0x9841,
     0x8801, 0x48C0, 0x4980, 0x8941, 0x4B00, 0x8BC1, 0x8A81, 0x4A40,
     0x4E00, 0x8EC1, 0x8F81, 0x4F40, 0x8D01, 0x4DC0, 0x4C80, 0x8C41,
     0x4400, 0x84C1, 0x8581, 0x4540, 0x8701, 0x47C0, 0x4680, 0x8641,
     0x8201, 0x42C0, 0x4380, 0x8341, 0x4100, 0x81C1, 0x8081, 0x4040]"

text \<open>The C expression is computed at \<^verbatim>\<open>int\<close> width and masked to 16 bits; on 16-bit words the
  masks keep every bit.\<close>

fun ext4_bg_crc16 :: "u16 \<Rightarrow> bytes \<Rightarrow> u16" where
  "ext4_bg_crc16 crc [] = crc"
| "ext4_bg_crc16 crc (b # bs) =
     ext4_bg_crc16 (((drop_bit 8 crc AND 0xFF) XOR crc16_tab ! unat ((crc XOR ucast b) AND 0xFF))
       AND 0xFFFF) bs"

section \<open>The bitwise definition\<close>

text \<open>One step of the reflected shift register with generator \<open>poly\<close>, and a byte is eight steps.\<close>

definition crc_step :: "'a::len word \<Rightarrow> 'a word \<Rightarrow> 'a word" where
  "crc_step poly c = (if bit c 0 then drop_bit 1 c XOR poly else drop_bit 1 c)"

definition crc_step8 :: "'a::len word \<Rightarrow> 'a word \<Rightarrow> 'a word" where
  "crc_step8 poly c = crc_step poly (crc_step poly (crc_step poly (crc_step poly
     (crc_step poly (crc_step poly (crc_step poly (crc_step poly c)))))))"

definition crc_bitwise :: "'a::len word \<Rightarrow> 'a word \<Rightarrow> bytes \<Rightarrow> 'a word" where
  "crc_bitwise poly = foldl (\<lambda>c b. crc_step8 poly (c XOR ucast b))"

text \<open>The checksum over a table of any width; \<open>crc32\<close> and \<open>ext4_bg_crc16\<close> are instances.\<close>

definition crc_by_table :: "'a::len word list \<Rightarrow> 'a word \<Rightarrow> bytes \<Rightarrow> 'a word" where
  "crc_by_table tab = foldl (\<lambda>c b. tab ! unat ((c XOR ucast b) AND 0xFF) XOR drop_bit 8 c)"

lemma crc32_by_table: "crc32 crc buf tab = crc_by_table tab crc buf"
  by (induction crc buf tab rule: crc32.induct) (simp_all add: crc_by_table_def)

lemma u16_masks: "(drop_bit 8 (c :: u16) AND 0xFF) = drop_bit 8 c" "(c AND 0xFFFF) = c"
proof -
  have m: "(0xFF :: u16) = mask 8" "(0xFFFF :: u16) = mask 16"
    by (simp_all add: mask_eq_exp_minus_1)
  show "(drop_bit 8 c AND 0xFF) = drop_bit 8 c"
    unfolding m by (rule bit_word_eqI) (auto simp: bit_simps dest: bit_imp_le_length)
  show "(c AND 0xFFFF) = c"
    unfolding m by (rule bit_word_eqI) (auto simp: bit_simps)
qed

lemma crc16_by_table: "ext4_bg_crc16 crc buf = crc_by_table crc16_tab crc buf"
  by (induction crc buf rule: ext4_bg_crc16.induct)
    (simp_all add: crc_by_table_def u16_masks xor.commute)

section \<open>Tables are spanned by eight entries\<close>

text \<open>The register is linear over exclusive or, so a table is determined by its entries at the
  powers of two.\<close>

primrec xor_span :: "'a::len word list \<Rightarrow> 'a word list" where
  "xor_span [] = [0]"
| "xor_span (e # es) = (let t = xor_span es in t @ map (\<lambda>x. x XOR e) t)"

lemma length_xor_span [simp]: "length (xor_span es) = 2 ^ length es"
  by (induction es) (simp_all add: Let_def)

lemma crc_step_xor: "crc_step poly (x XOR y) = crc_step poly x XOR crc_step poly y"
  by (rule bit_word_eqI) (auto simp: crc_step_def bit_simps)

lemma crc_step8_xor: "crc_step8 poly (x XOR y) = crc_step8 poly x XOR crc_step8 poly y"
  by (simp add: crc_step8_def crc_step_xor)

lemma crc_step8_0 [simp]: "crc_step8 poly 0 = 0"
  by (simp add: crc_step8_def crc_step_def)

lemma add_exp_eq_xor:
  assumes "n < 2 ^ k" "k < LENGTH('a)"
  shows "(of_nat (2 ^ k + n) :: 'a::len word) = of_nat n XOR 2 ^ k"
proof -
  have "take_bit k n = n" using assms(1) by (simp add: take_bit_nat_eq_self_iff)
  then have "(of_nat n :: 'a word) AND 2 ^ k = 0"
    by (intro bit_word_eqI) (auto simp: bit_simps bit_of_nat_iff_bit take_bit_nat_eq_self_iff
        dest: bit_take_bit_iff [THEN iffD1, of k n, unfolded \<open>take_bit k n = n\<close>])
  then have "of_nat n + (2 ^ k :: 'a word) = of_nat n XOR 2 ^ k"
    by (metis disjunctive_xor_eq_or disjunctive_add_eq_or)
  then show ?thesis by (simp add: add.commute)
qed

lemma xor_span_nth:
  assumes "es = map (\<lambda>k. crc_step8 poly (2 ^ k)) (rev [0..<m])" "m < LENGTH('a)" "n < 2 ^ m"
  shows "xor_span es ! n = crc_step8 poly (of_nat n :: 'a::len word)"
  using assms
proof (induction m arbitrary: es n)
  case 0
  then show ?case by simp
next
  case (Suc m)
  define fs where "fs = map (\<lambda>k. crc_step8 poly (2 ^ k :: 'a word)) (rev [0..<m])"
  have len: "length (xor_span fs) = 2 ^ m" by (simp add: fs_def)
  have es: "xor_span es = xor_span fs @ map (\<lambda>x. x XOR crc_step8 poly (2 ^ m)) (xor_span fs)"
    by (simp add: Suc.prems(1) fs_def Let_def)
  show ?case
  proof (cases "n < 2 ^ m")
    case True
    with Suc.IH [OF fs_def] Suc.prems(2) len show ?thesis by (simp add: es nth_append)
  next
    case False
    then obtain r where r: "n = 2 ^ m + r" "r < 2 ^ m"
      using Suc.prems(3) by (metis add_less_cancel_left le_add_diff_inverse mult_2 not_less power_Suc)
    with Suc.IH [OF fs_def, of r] Suc.prems(2) len show ?thesis
      by (simp add: es nth_append add_exp_eq_xor crc_step8_xor del: of_nat_add)
  qed
qed

lemma crc32_tab_span: "crc32_tab = xor_span [0xEDB88320, 0x76DC4190, 0x3B6E20C8, 0x1DB71064, 0x0EDB8832, 0x076DC419, 0xEE0E612C, 0x77073096]"
  by (simp add: crc32_tab_def Let_def)

lemma crc32c_tab_span: "crc32c_tab = xor_span [0x82F63B78, 0x417B1DBC, 0x20BD8EDE, 0x105EC76F, 0x8AD958CF, 0xC79A971F, 0xE13B70F7, 0xF26B8303]"
  by (simp add: crc32c_tab_def Let_def)

lemma crc16_tab_span: "crc16_tab = xor_span [0xA001, 0xF001, 0xD801, 0xCC01, 0xC601, 0xC301, 0xC181, 0xC0C1]"
  by (simp add: crc16_tab_def Let_def)

section \<open>What a table promises\<close>

lemma xor_cancel_left: "(a :: 'a::len word) XOR b = a XOR c \<Longrightarrow> b = c"
proof -
  assume "a XOR b = a XOR c"
  then have "a XOR (a XOR b) = a XOR (a XOR c)" by simp
  then show ?thesis by (simp flip: xor.assoc)
qed

locale crc_table =
  fixes poly :: "'a::len word" and tab :: "'a word list"
  assumes width: "8 \<le> LENGTH('a)"
    and top: "bit poly (LENGTH('a) - 1)"
    and entry: "n < 256 \<Longrightarrow> tab ! n = crc_step8 poly (of_nat n)"
begin

lemma step_inj: "crc_step poly x = crc_step poly y \<Longrightarrow> x = y"
proof -
  assume eq: "crc_step poly x = crc_step poly y"
  have top_bit: "bit (crc_step poly z) (LENGTH('a) - 1) = bit z 0" for z
    using top by (auto simp: crc_step_def bit_simps dest: bit_imp_le_length)
  from eq have b0: "bit x 0 = bit y 0" using top_bit [of x] top_bit [of y] by simp
  with eq have "drop_bit 1 x = drop_bit 1 y"
    by (auto simp: crc_step_def split: if_splits) (metis xor_self_eq xor.assoc xor.right_neutral)+
  then have "bit x (Suc n) = bit y (Suc n)" for n
    by (metis bit_drop_bit_eq comp_apply plus_1_eq_Suc)
  with b0 show "x = y" by (intro bit_word_eqI) (metis not0_implies_Suc)
qed

lemma step8_inj: "crc_step8 poly x = crc_step8 poly y \<Longrightarrow> x = y"
  by (simp add: crc_step8_def) (blast dest: step_inj)

lemma step8_high: "(\<And>k. k < 8 \<Longrightarrow> \<not> bit c k) \<Longrightarrow> crc_step8 poly c = drop_bit 8 c"
proof -
  assume z: "\<And>k. k < 8 \<Longrightarrow> \<not> bit c k"
  have "crc_step poly (drop_bit k c) = drop_bit (Suc k) c" if "k < 8" for k
    using z [OF that] by (simp add: crc_step_def bit_drop_bit_eq)
  note s = this
  show ?thesis
    using s [of 0] s [of 1] s [of 2] s [of 3] s [of 4] s [of 5] s [of 6] s [of 7]
    by (simp add: crc_step8_def eval_nat_numeral)
qed

lemma mask_255: "(0xFF :: 'a word) = mask 8"
  by (simp add: mask_eq_exp_minus_1)

lemma byte_split: "(c :: 'a word) = (c AND 0xFF) XOR (c AND NOT 0xFF)"
  by (rule bit_word_eqI) (auto simp: bit_simps)

lemma step8_table: "crc_step8 poly c = tab ! unat (c AND 0xFF) XOR drop_bit 8 c"
proof -
  have lt: "unat (c AND 0xFF) < 256"
  proof -
    have "c AND 0xFF = take_bit 8 c" by (simp add: mask_255 take_bit_eq_mask)
    then show ?thesis by (simp add: unsigned_take_bit_eq) (simp add: take_bit_eq_mod)
  qed
  have "crc_step8 poly (c AND NOT 0xFF) = drop_bit 8 (c AND NOT 0xFF)"
    by (rule step8_high) (simp add: mask_255 bit_simps)
  also have "\<dots> = drop_bit 8 c"
    unfolding mask_255 by (rule bit_word_eqI) (auto simp: bit_simps dest: bit_imp_le_length)
  finally have "crc_step8 poly c = crc_step8 poly (c AND 0xFF) XOR drop_bit 8 c"
    using crc_step8_xor [of poly "c AND 0xFF" "c AND NOT 0xFF"] byte_split [of c] by simp
  then show ?thesis using entry [OF lt] by simp
qed

lemma drop_xor_byte: "drop_bit 8 (c XOR ucast (b :: u8)) = drop_bit 8 (c :: 'a word)"
  by (rule bit_word_eqI) (auto simp: bit_simps dest: bit_imp_le_length)

theorem by_table_eq_bitwise: "crc_by_table tab c buf = crc_bitwise poly c buf"
proof -
  have "tab ! unat ((c XOR ucast b) AND 0xFF) XOR drop_bit 8 c = crc_step8 poly (c XOR ucast b)"
    for c :: "'a word" and b :: u8
    unfolding step8_table drop_xor_byte by (rule refl)
  then show ?thesis by (simp add: crc_by_table_def crc_bitwise_def)
qed

lemma bitwise_inj: "crc_bitwise poly c buf = crc_bitwise poly d buf \<Longrightarrow> c = d"
proof (induction buf arbitrary: c d)
  case (Cons b bs)
  then have "crc_step8 poly (c XOR ucast b) = crc_step8 poly (d XOR ucast b)"
    by (simp add: crc_bitwise_def)
  from step8_inj [OF this] show ?case
    by (metis xor.assoc xor.right_neutral xor_self_eq)
qed (simp add: crc_bitwise_def)

text \<open>A change confined to one byte always changes the checksum.\<close>

theorem detects_byte_change:
  assumes "x \<noteq> y"
  shows "crc_by_table tab c (pre @ x # post) \<noteq> crc_by_table tab c (pre @ y # post)"
proof
  let ?d = "crc_bitwise poly c pre"
  assume "crc_by_table tab c (pre @ x # post) = crc_by_table tab c (pre @ y # post)"
  then have "crc_bitwise poly (crc_step8 poly (?d XOR ucast x)) post =
      crc_bitwise poly (crc_step8 poly (?d XOR ucast y)) post"
    by (simp add: by_table_eq_bitwise) (simp add: crc_bitwise_def)
  then have "?d XOR ucast x = ?d XOR (ucast y :: 'a word)"
    by (blast dest: bitwise_inj step8_inj)
  then have eq: "ucast x = (ucast y :: 'a word)"
    by (rule xor_cancel_left)
  have "bit x n = bit y n" if "n < 8" for n
    using arg_cong [OF eq, of "\<lambda>w. bit w n"] that width by (simp add: bit_ucast_iff)
  then have "x = y" by (intro bit_word_eqI) simp
  with assms show False ..
qed

lemma by_table_append: "crc_by_table tab c (a @ b) = crc_by_table tab (crc_by_table tab c a) b"
  by (simp add: crc_by_table_def)

end

lemma crc_basis_8: "map (\<lambda>k. crc_step8 poly (2 ^ k)) (rev [0..<8]) =
    [crc_step8 poly 128, crc_step8 poly 64, crc_step8 poly 32, crc_step8 poly 16,
     crc_step8 poly 8, crc_step8 poly 4, crc_step8 poly 2, crc_step8 poly (1 :: 'a::len word)]"
  by (simp add: upt_conv_Cons [of 0 8] upt_rec)

lemma xor_span_entry:
  assumes "tab = xor_span es"
    and "es = [crc_step8 poly 128, crc_step8 poly 64, crc_step8 poly 32, crc_step8 poly 16,
      crc_step8 poly 8, crc_step8 poly 4, crc_step8 poly 2, crc_step8 poly 1]"
    and "8 < LENGTH('a)" "n < 256"
  shows "tab ! n = crc_step8 poly (of_nat n :: 'a::len word)"
  using xor_span_nth [of es poly 8 n] assms by (simp add: crc_basis_8)

interpretation crc32: crc_table "0xEDB88320 :: u32" crc32_tab
  by unfold_locales
    (simp, simp, rule xor_span_entry [OF crc32_tab_span], simp_all add: crc_step8_def crc_step_def)

interpretation crc32c: crc_table "0x82F63B78 :: u32" crc32c_tab
  by unfold_locales
    (simp, simp, rule xor_span_entry [OF crc32c_tab_span], simp_all add: crc_step8_def crc_step_def)

interpretation crc16: crc_table "0xA001 :: u16" crc16_tab
  by unfold_locales
    (simp, simp, rule xor_span_entry [OF crc16_tab_span], simp_all add: crc_step8_def crc_step_def)

lemmas crc_defs = ext4_crc32_def ext4_crc32c_def crc32_by_table crc16_by_table

lemma ext4_crc32c_append: "ext4_crc32c c (a @ b) = ext4_crc32c (ext4_crc32c c a) b"
  by (simp add: crc_defs crc32c.by_table_append)

lemma ext4_crc32c_detects: "x \<noteq> y \<Longrightarrow> ext4_crc32c c (pre @ x # post) \<noteq> ext4_crc32c c (pre @ y # post)"
  unfolding crc_defs by (rule crc32c.detects_byte_change)

section \<open>Properties\<close>

text \<open>C33: the table-driven CRC-32, CRC-32C and CRC-16 of the code are the bit-by-bit cyclic
  redundancy checks of their polynomials, for every start value and every buffer.\<close>

theorem crc_tables_correct:
  "ext4_crc32 c buf = crc_bitwise 0xEDB88320 c buf \<and>
   ext4_crc32c c buf = crc_bitwise 0x82F63B78 c buf \<and>
   ext4_bg_crc16 d buf = crc_bitwise 0xA001 d buf"
  by (simp add: crc_defs crc32.by_table_eq_bitwise crc32c.by_table_eq_bitwise crc16.by_table_eq_bitwise)

end
