(* ===== verification/Super.thy ===== *)
theory Super
  imports Crc
begin

unbundle bit_operations_syntax

text \<open>
  The superblock: \<^verbatim>\<open>struct ext4_sblock\<close> of \<^verbatim>\<open>ext4_types.h\<close> field by field, the accessors
  of \<^verbatim>\<open>ext4_super.h\<close> and the functions of \<^verbatim>\<open>ext4_super.c\<close> that compute on it.  The fields
  carry the struct's names with the prefix \<open>s_\<close>; on the little-endian hosts the driver builds
  for, the \<^verbatim>\<open>to_le32\<close> of an accessor is the identity.  Divisions by \<^verbatim>\<open>blocks_per_group\<close> assume
  it is not zero, which \<^verbatim>\<open>ext4_sb_check\<close> establishes before any other use.
\<close>

section \<open>The structure and its bytes\<close>

record ext4_sblock =
  s_inodes_count :: u32
  s_blocks_count_lo :: u32
  s_reserved_blocks_count_lo :: u32
  s_free_blocks_count_lo :: u32
  s_free_inodes_count :: u32
  s_first_data_block :: u32
  s_log_block_size :: u32
  s_log_cluster_size :: u32
  s_blocks_per_group :: u32
  s_frags_per_group :: u32
  s_inodes_per_group :: u32
  s_mount_time :: u32
  s_write_time :: u32
  s_mount_count :: u16
  s_max_mount_count :: u16
  s_magic :: u16
  s_state :: u16
  s_errors :: u16
  s_minor_rev_level :: u16
  s_last_check_time :: u32
  s_check_interval :: u32
  s_creator_os :: u32
  s_rev_level :: u32
  s_def_resuid :: u16
  s_def_resgid :: u16
  s_first_inode :: u32
  s_inode_size :: u16
  s_block_group_index :: u16
  s_features_compatible :: u32
  s_features_incompatible :: u32
  s_features_read_only :: u32
  s_uuid :: bytes
  s_volume_name :: bytes
  s_last_mounted :: bytes
  s_algorithm_usage_bitmap :: u32
  s_prealloc_blocks :: u8
  s_prealloc_dir_blocks :: u8
  s_reserved_gdt_blocks :: u16
  s_journal_uuid :: bytes
  s_journal_inode_number :: u32
  s_journal_dev :: u32
  s_last_orphan :: u32
  s_hash_seed :: "u32 list"
  s_default_hash_version :: u8
  s_journal_backup_type :: u8
  s_desc_size :: u16
  s_default_mount_opts :: u32
  s_first_meta_bg :: u32
  s_mkfs_time :: u32
  s_journal_blocks :: "u32 list"
  s_blocks_count_hi :: u32
  s_reserved_blocks_count_hi :: u32
  s_free_blocks_count_hi :: u32
  s_min_extra_isize :: u16
  s_want_extra_isize :: u16
  s_flags :: u32
  s_raid_stride :: u16
  s_mmp_interval :: u16
  s_mmp_block :: u64
  s_raid_stripe_width :: u32
  s_log_groups_per_flex :: u8
  s_checksum_type :: u8
  s_reserved_pad :: u16
  s_kbytes_written :: u64
  s_snapshot_inum :: u32
  s_snapshot_id :: u32
  s_snapshot_r_blocks_count :: u64
  s_snapshot_list :: u32
  s_error_count :: u32
  s_first_error_time :: u32
  s_first_error_ino :: u32
  s_first_error_block :: u64
  s_first_error_func :: bytes
  s_first_error_line :: u32
  s_last_error_time :: u32
  s_last_error_ino :: u32
  s_last_error_line :: u32
  s_last_error_block :: u64
  s_last_error_func :: bytes
  s_mount_opts :: bytes
  s_usr_quota_inum :: u32
  s_grp_quota_inum :: u32
  s_overhead_clusters :: u32
  s_backup_bgs :: "u32 list"
  s_encrypt_algos :: bytes
  s_encrypt_pw_salt :: bytes
  s_lpf_ino :: u32
  s_prj_quota_inum :: u32
  s_checksum_seed :: u32
  s_padding :: "u32 list"
  s_checksum :: u32

text \<open>The bytes of the structure before its last field, and all of them.\<close>

definition sblock_head_bytes :: "ext4_sblock \<Rightarrow> bytes" where
  "sblock_head_bytes s =
       le32 (s_inodes_count s)
       @ le32 (s_blocks_count_lo s)
       @ le32 (s_reserved_blocks_count_lo s)
       @ le32 (s_free_blocks_count_lo s)
       @ le32 (s_free_inodes_count s)
       @ le32 (s_first_data_block s)
       @ le32 (s_log_block_size s)
       @ le32 (s_log_cluster_size s)
       @ le32 (s_blocks_per_group s)
       @ le32 (s_frags_per_group s)
       @ le32 (s_inodes_per_group s)
       @ le32 (s_mount_time s)
       @ le32 (s_write_time s)
       @ le16 (s_mount_count s)
       @ le16 (s_max_mount_count s)
       @ le16 (s_magic s)
       @ le16 (s_state s)
       @ le16 (s_errors s)
       @ le16 (s_minor_rev_level s)
       @ le32 (s_last_check_time s)
       @ le32 (s_check_interval s)
       @ le32 (s_creator_os s)
       @ le32 (s_rev_level s)
       @ le16 (s_def_resuid s)
       @ le16 (s_def_resgid s)
       @ le32 (s_first_inode s)
       @ le16 (s_inode_size s)
       @ le16 (s_block_group_index s)
       @ le32 (s_features_compatible s)
       @ le32 (s_features_incompatible s)
       @ le32 (s_features_read_only s)
       @ s_uuid s
       @ s_volume_name s
       @ s_last_mounted s
       @ le32 (s_algorithm_usage_bitmap s)
       @ [s_prealloc_blocks s]
       @ [s_prealloc_dir_blocks s]
       @ le16 (s_reserved_gdt_blocks s)
       @ s_journal_uuid s
       @ le32 (s_journal_inode_number s)
       @ le32 (s_journal_dev s)
       @ le32 (s_last_orphan s)
       @ concat (map le32 (s_hash_seed s))
       @ [s_default_hash_version s]
       @ [s_journal_backup_type s]
       @ le16 (s_desc_size s)
       @ le32 (s_default_mount_opts s)
       @ le32 (s_first_meta_bg s)
       @ le32 (s_mkfs_time s)
       @ concat (map le32 (s_journal_blocks s))
       @ le32 (s_blocks_count_hi s)
       @ le32 (s_reserved_blocks_count_hi s)
       @ le32 (s_free_blocks_count_hi s)
       @ le16 (s_min_extra_isize s)
       @ le16 (s_want_extra_isize s)
       @ le32 (s_flags s)
       @ le16 (s_raid_stride s)
       @ le16 (s_mmp_interval s)
       @ le64 (s_mmp_block s)
       @ le32 (s_raid_stripe_width s)
       @ [s_log_groups_per_flex s]
       @ [s_checksum_type s]
       @ le16 (s_reserved_pad s)
       @ le64 (s_kbytes_written s)
       @ le32 (s_snapshot_inum s)
       @ le32 (s_snapshot_id s)
       @ le64 (s_snapshot_r_blocks_count s)
       @ le32 (s_snapshot_list s)
       @ le32 (s_error_count s)
       @ le32 (s_first_error_time s)
       @ le32 (s_first_error_ino s)
       @ le64 (s_first_error_block s)
       @ s_first_error_func s
       @ le32 (s_first_error_line s)
       @ le32 (s_last_error_time s)
       @ le32 (s_last_error_ino s)
       @ le32 (s_last_error_line s)
       @ le64 (s_last_error_block s)
       @ s_last_error_func s
       @ s_mount_opts s
       @ le32 (s_usr_quota_inum s)
       @ le32 (s_grp_quota_inum s)
       @ le32 (s_overhead_clusters s)
       @ concat (map le32 (s_backup_bgs s))
       @ s_encrypt_algos s
       @ s_encrypt_pw_salt s
       @ le32 (s_lpf_ino s)
       @ le32 (s_prj_quota_inum s)
       @ le32 (s_checksum_seed s)
       @ concat (map le32 (s_padding s))"

definition sblock_bytes :: "ext4_sblock \<Rightarrow> bytes" where
  "sblock_bytes s = sblock_head_bytes s @ le32 (s_checksum s)"

definition wf_sblock :: "ext4_sblock \<Rightarrow> bool" where
  "wf_sblock s \<longleftrightarrow> length (s_uuid s) = 16 \<and>
     length (s_volume_name s) = 16 \<and>
     length (s_last_mounted s) = 64 \<and>
     length (s_journal_uuid s) = 16 \<and>
     length (s_hash_seed s) = 4 \<and>
     length (s_journal_blocks s) = 17 \<and>
     length (s_first_error_func s) = 32 \<and>
     length (s_last_error_func s) = 32 \<and>
     length (s_mount_opts s) = 64 \<and>
     length (s_backup_bgs s) = 2 \<and>
     length (s_encrypt_algos s) = 4 \<and>
     length (s_encrypt_pw_salt s) = 16 \<and>
     length (s_padding s) = 98"

text \<open>A superblock of zeroes, as \<^verbatim>\<open>memset\<close> leaves it.\<close>

definition zero_sblock :: ext4_sblock where
  "zero_sblock = \<lparr>s_inodes_count = 0,
     s_blocks_count_lo = 0,
     s_reserved_blocks_count_lo = 0,
     s_free_blocks_count_lo = 0,
     s_free_inodes_count = 0,
     s_first_data_block = 0,
     s_log_block_size = 0,
     s_log_cluster_size = 0,
     s_blocks_per_group = 0,
     s_frags_per_group = 0,
     s_inodes_per_group = 0,
     s_mount_time = 0,
     s_write_time = 0,
     s_mount_count = 0,
     s_max_mount_count = 0,
     s_magic = 0,
     s_state = 0,
     s_errors = 0,
     s_minor_rev_level = 0,
     s_last_check_time = 0,
     s_check_interval = 0,
     s_creator_os = 0,
     s_rev_level = 0,
     s_def_resuid = 0,
     s_def_resgid = 0,
     s_first_inode = 0,
     s_inode_size = 0,
     s_block_group_index = 0,
     s_features_compatible = 0,
     s_features_incompatible = 0,
     s_features_read_only = 0,
     s_uuid = replicate 16 0,
     s_volume_name = replicate 16 0,
     s_last_mounted = replicate 64 0,
     s_algorithm_usage_bitmap = 0,
     s_prealloc_blocks = 0,
     s_prealloc_dir_blocks = 0,
     s_reserved_gdt_blocks = 0,
     s_journal_uuid = replicate 16 0,
     s_journal_inode_number = 0,
     s_journal_dev = 0,
     s_last_orphan = 0,
     s_hash_seed = replicate 4 0,
     s_default_hash_version = 0,
     s_journal_backup_type = 0,
     s_desc_size = 0,
     s_default_mount_opts = 0,
     s_first_meta_bg = 0,
     s_mkfs_time = 0,
     s_journal_blocks = replicate 17 0,
     s_blocks_count_hi = 0,
     s_reserved_blocks_count_hi = 0,
     s_free_blocks_count_hi = 0,
     s_min_extra_isize = 0,
     s_want_extra_isize = 0,
     s_flags = 0,
     s_raid_stride = 0,
     s_mmp_interval = 0,
     s_mmp_block = 0,
     s_raid_stripe_width = 0,
     s_log_groups_per_flex = 0,
     s_checksum_type = 0,
     s_reserved_pad = 0,
     s_kbytes_written = 0,
     s_snapshot_inum = 0,
     s_snapshot_id = 0,
     s_snapshot_r_blocks_count = 0,
     s_snapshot_list = 0,
     s_error_count = 0,
     s_first_error_time = 0,
     s_first_error_ino = 0,
     s_first_error_block = 0,
     s_first_error_func = replicate 32 0,
     s_first_error_line = 0,
     s_last_error_time = 0,
     s_last_error_ino = 0,
     s_last_error_line = 0,
     s_last_error_block = 0,
     s_last_error_func = replicate 32 0,
     s_mount_opts = replicate 64 0,
     s_usr_quota_inum = 0,
     s_grp_quota_inum = 0,
     s_overhead_clusters = 0,
     s_backup_bgs = replicate 2 0,
     s_encrypt_algos = replicate 4 0,
     s_encrypt_pw_salt = replicate 16 0,
     s_lpf_ino = 0,
     s_prj_quota_inum = 0,
     s_checksum_seed = 0,
     s_padding = replicate 98 0,
     s_checksum = 0\<rparr>"

section \<open>Accessors\<close>

definition ext4_sb_get_blocks_cnt :: "ext4_sblock \<Rightarrow> u64" where
  "ext4_sb_get_blocks_cnt s = push_bit 32 (ucast (s_blocks_count_hi s)) OR ucast (s_blocks_count_lo s)"

definition ext4_sb_set_blocks_cnt :: "ext4_sblock \<Rightarrow> u64 \<Rightarrow> ext4_sblock" where
  "ext4_sb_set_blocks_cnt s cnt =
     s\<lparr>s_blocks_count_lo := ucast (drop_bit 32 (push_bit 32 cnt)),
       s_blocks_count_hi := ucast (drop_bit 32 cnt)\<rparr>"

definition ext4_sb_get_free_blocks_cnt :: "ext4_sblock \<Rightarrow> u64" where
  "ext4_sb_get_free_blocks_cnt s =
     push_bit 32 (ucast (s_free_blocks_count_hi s)) OR ucast (s_free_blocks_count_lo s)"

definition ext4_sb_set_free_blocks_cnt :: "ext4_sblock \<Rightarrow> u64 \<Rightarrow> ext4_sblock" where
  "ext4_sb_set_free_blocks_cnt s cnt =
     s\<lparr>s_free_blocks_count_lo := ucast (drop_bit 32 (push_bit 32 cnt)),
       s_free_blocks_count_hi := ucast (drop_bit 32 cnt)\<rparr>"

definition ext4_sb_get_block_size :: "ext4_sblock \<Rightarrow> u32" where
  "ext4_sb_get_block_size s =
     (let log = (if 6 < s_log_block_size s then 6 else s_log_block_size s)
      in push_bit (unat log) 1024)"

definition EXT4_MIN_BLOCK_GROUP_DESCRIPTOR_SIZE :: u16 where
  "EXT4_MIN_BLOCK_GROUP_DESCRIPTOR_SIZE = 32"

definition EXT4_MAX_BLOCK_GROUP_DESCRIPTOR_SIZE :: u16 where
  "EXT4_MAX_BLOCK_GROUP_DESCRIPTOR_SIZE = 64"

definition ext4_sb_get_desc_size :: "ext4_sblock \<Rightarrow> u16" where
  "ext4_sb_get_desc_size s =
     (if s_desc_size s < EXT4_MIN_BLOCK_GROUP_DESCRIPTOR_SIZE
      then EXT4_MIN_BLOCK_GROUP_DESCRIPTOR_SIZE else s_desc_size s)"

definition ext4_sb_check_flag :: "ext4_sblock \<Rightarrow> u32 \<Rightarrow> bool" where
  "ext4_sb_check_flag s v \<longleftrightarrow> s_flags s AND v \<noteq> 0"

definition ext4_sb_feature_com :: "ext4_sblock \<Rightarrow> u32 \<Rightarrow> bool" where
  "ext4_sb_feature_com s v \<longleftrightarrow> s_features_compatible s AND v \<noteq> 0"

definition ext4_sb_feature_incom :: "ext4_sblock \<Rightarrow> u32 \<Rightarrow> bool" where
  "ext4_sb_feature_incom s v \<longleftrightarrow> s_features_incompatible s AND v \<noteq> 0"

definition ext4_sb_feature_ro_com :: "ext4_sblock \<Rightarrow> u32 \<Rightarrow> bool" where
  "ext4_sb_feature_ro_com s v \<longleftrightarrow> s_features_read_only s AND v \<noteq> 0"

text \<open>A shift by the width of the operand or more is undefined in C; it is \<open>None\<close> here.\<close>

definition ext4_sb_bg_to_flex :: "ext4_sblock \<Rightarrow> u32 \<Rightarrow> u32 option" where
  "ext4_sb_bg_to_flex s block_group =
     (if unat (s_log_groups_per_flex s) < 32
      then Some (drop_bit (unat (s_log_groups_per_flex s)) block_group) else None)"

definition ext4_sb_flex_bg_size :: "ext4_sblock \<Rightarrow> u32 option" where
  "ext4_sb_flex_bg_size s =
     (if unat (s_log_groups_per_flex s) < 31
      then Some (push_bit (unat (s_log_groups_per_flex s)) 1) else None)"

definition ext4_sb_first_meta_bg :: "ext4_sblock \<Rightarrow> u32" where
  "ext4_sb_first_meta_bg s = s_first_meta_bg s"

section \<open>Block groups of the volume\<close>

definition ext4_block_group_cnt :: "ext4_sblock \<Rightarrow> u32" where
  "ext4_block_group_cnt s =
     (let blocks_count = ext4_sb_get_blocks_cnt s;
          blocks_per_group = (ucast (s_blocks_per_group s) :: u64);
          block_groups_count = (ucast (blocks_count div blocks_per_group) :: u32)
      in if blocks_count mod blocks_per_group \<noteq> 0 then block_groups_count + 1
         else block_groups_count)"

definition ext4_blocks_in_group_cnt :: "ext4_sblock \<Rightarrow> u32 \<Rightarrow> u32" where
  "ext4_blocks_in_group_cnt s bgid =
     (let block_group_count = ext4_block_group_cnt s;
          blocks_per_group = s_blocks_per_group s;
          total_blocks = ext4_sb_get_blocks_cnt s
      in if bgid < block_group_count - 1 then blocks_per_group
         else ucast (total_blocks - ucast ((block_group_count - 1) * blocks_per_group)))"

definition ext4_inodes_in_group_cnt :: "ext4_sblock \<Rightarrow> u32 \<Rightarrow> u32" where
  "ext4_inodes_in_group_cnt s bgid =
     (let block_group_count = ext4_block_group_cnt s;
          inodes_per_group = s_inodes_per_group s;
          total_inodes = s_inodes_count s
      in if bgid < block_group_count - 1 then inodes_per_group
         else total_inodes - (block_group_count - 1) * inodes_per_group)"

section \<open>Checksums\<close>

definition EXT4_CRC32_INIT :: u32 where "EXT4_CRC32_INIT = 0xFFFFFFFF"
definition EXT4_FINCOM_BG_USE_META_CSUM :: u32 where "EXT4_FINCOM_BG_USE_META_CSUM = 0x2000"
definition EXT4_FINCOM_META_BG :: u32 where "EXT4_FINCOM_META_BG = 0x0010"
definition EXT4_FINCOM_64BIT :: u32 where "EXT4_FINCOM_64BIT = 0x0080"
definition EXT4_FINCOM_FLEX_BG :: u32 where "EXT4_FINCOM_FLEX_BG = 0x0200"
definition EXT4_FRO_COM_SPARSE_SUPER :: u32 where "EXT4_FRO_COM_SPARSE_SUPER = 0x0001"
definition EXT4_FRO_COM_GDT_CSUM :: u32 where "EXT4_FRO_COM_GDT_CSUM = 0x0010"
definition EXT4_FRO_COM_HUGE_FILE :: u32 where "EXT4_FRO_COM_HUGE_FILE = 0x0008"
definition EXT4_FRO_COM_METADATA_CSUM :: u32 where "EXT4_FRO_COM_METADATA_CSUM = 0x0400"
definition EXT4_CHECKSUM_CRC32C :: u8 where "EXT4_CHECKSUM_CRC32C = 1"
definition EXT4_SUPERBLOCK_MAGIC :: u16 where "EXT4_SUPERBLOCK_MAGIC = 0xEF53"

definition ext4_sb_csum_seed :: "ext4_sblock \<Rightarrow> u32" where
  "ext4_sb_csum_seed s =
     (if ext4_sb_feature_incom s EXT4_FINCOM_BG_USE_META_CSUM then s_checksum_seed s
      else ext4_crc32c EXT4_CRC32_INIT (s_uuid s))"

text \<open>The checksum covers the structure up to \<^verbatim>\<open>offsetof(struct ext4_sblock, checksum)\<close>.\<close>

definition ext4_sb_csum :: "ext4_sblock \<Rightarrow> u32" where
  "ext4_sb_csum s = ext4_crc32c EXT4_CRC32_INIT (take 1020 (sblock_bytes s))"

definition ext4_sb_verify_csum :: "ext4_sblock \<Rightarrow> bool" where
  "ext4_sb_verify_csum s =
     (if \<not> ext4_sb_feature_ro_com s EXT4_FRO_COM_METADATA_CSUM then True
      else if s_checksum_type s \<noteq> EXT4_CHECKSUM_CRC32C then False
      else s_checksum s = ext4_sb_csum s)"

definition ext4_sb_set_csum :: "ext4_sblock \<Rightarrow> ext4_sblock" where
  "ext4_sb_set_csum s =
     (if \<not> ext4_sb_feature_ro_com s EXT4_FRO_COM_METADATA_CSUM then s
      else s\<lparr>s_checksum := ext4_sb_csum s\<rparr>)"

definition ext4_sb_check :: "ext4_sblock \<Rightarrow> bool" where
  "ext4_sb_check s =
     (if s_magic s \<noteq> EXT4_SUPERBLOCK_MAGIC then False
      else if s_inodes_count s = 0 then False
      else if ext4_sb_get_blocks_cnt s = 0 then False
      else if s_blocks_per_group s = 0 then False
      else if s_inodes_per_group s = 0 then False
      else if s_inode_size s < 128 then False
      else if s_first_inode s < 11 then False
      else if ext4_sb_get_desc_size s < EXT4_MIN_BLOCK_GROUP_DESCRIPTOR_SIZE then False
      else if EXT4_MAX_BLOCK_GROUP_DESCRIPTOR_SIZE < ext4_sb_get_desc_size s then False
      else if \<not> ext4_sb_verify_csum s then False
      else True)"

section \<open>Backups and descriptor blocks\<close>

text \<open>The loop of \<^verbatim>\<open>is_power_of\<close>.  With \<open>b = 0\<close> it divides by zero and with \<open>b = 1\<close> it never
  leaves a larger \<open>a\<close>: both are \<open>None\<close>.\<close>

function is_power_of :: "u32 \<Rightarrow> u32 \<Rightarrow> bool option" where
  "is_power_of a b =
     (if a < b then Some False
      else if a = b then Some True
      else if b < 2 then None
      else if a mod b \<noteq> 0 then Some False
      else is_power_of (a div b) b)"
  by pat_completeness auto
termination
  by (relation "measure (\<lambda>(a, b). unat a)") (auto simp: word_less_nat_alt unat_div)

declare is_power_of.simps [simp del]

definition ext4_sb_sparse :: "u32 \<Rightarrow> bool" where
  "ext4_sb_sparse grp =
     (if grp \<le> 1 then True
      else if grp AND 1 = 0 then False
      else is_power_of grp 7 = Some True \<or> is_power_of grp 5 = Some True \<or>
           is_power_of grp 3 = Some True)"

definition ext4_sb_is_super_in_bg :: "ext4_sblock \<Rightarrow> u32 \<Rightarrow> bool" where
  "ext4_sb_is_super_in_bg s grp =
     (if ext4_sb_feature_ro_com s EXT4_FRO_COM_SPARSE_SUPER \<and> \<not> ext4_sb_sparse grp then False
      else True)"

definition dsc_per_block :: "ext4_sblock \<Rightarrow> u32" where
  "dsc_per_block s = ext4_sb_get_block_size s div ucast (ext4_sb_get_desc_size s)"

definition ext4_bg_num_gdb_meta :: "ext4_sblock \<Rightarrow> u32 \<Rightarrow> u32" where
  "ext4_bg_num_gdb_meta s grp =
     (let metagroup = grp div dsc_per_block s;
          first = metagroup * dsc_per_block s;
          last = first + dsc_per_block s - 1
      in if grp = first \<or> grp = first + 1 \<or> grp = last then 1 else 0)"

definition ext4_bg_num_gdb_nometa :: "ext4_sblock \<Rightarrow> u32 \<Rightarrow> u32" where
  "ext4_bg_num_gdb_nometa s grp =
     (if \<not> ext4_sb_is_super_in_bg s grp then 0
      else let db_count = (ext4_block_group_cnt s + dsc_per_block s - 1) div dsc_per_block s
        in if ext4_sb_feature_incom s EXT4_FINCOM_META_BG then ext4_sb_first_meta_bg s
           else db_count)"

definition ext4_bg_num_gdb :: "ext4_sblock \<Rightarrow> u32 \<Rightarrow> u32" where
  "ext4_bg_num_gdb s grp =
     (let first_meta_bg = ext4_sb_first_meta_bg s;
          metagroup = grp div dsc_per_block s
      in if \<not> ext4_sb_feature_incom s EXT4_FINCOM_META_BG \<or> metagroup < first_meta_bg
         then ext4_bg_num_gdb_nometa s grp
         else ext4_bg_num_gdb_meta s grp)"

text \<open>\<^verbatim>\<open>1024 << log_cluster_size\<close> is an \<^verbatim>\<open>int\<close> shift, undefined from 21 on.\<close>

definition ext4_num_base_meta_clusters :: "ext4_sblock \<Rightarrow> u32 \<Rightarrow> u32 option" where
  "ext4_num_base_meta_clusters s block_group =
     (let num0 = (if ext4_sb_is_super_in_bg s block_group then 1 else 0);
          num = (if \<not> ext4_sb_feature_incom s EXT4_FINCOM_META_BG \<or>
                    block_group < ext4_sb_first_meta_bg s * dsc_per_block s
                 then if num0 \<noteq> 0
                   then num0 + ext4_bg_num_gdb s block_group + ucast (s_reserved_gdt_blocks s)
                   else num0
                 else num0 + ext4_bg_num_gdb s block_group);
          log = unat (s_log_cluster_size s)
      in if log < 21
         then let clustersize = push_bit log 1024;
                  cluster_ratio = clustersize div ext4_sb_get_block_size s
              in Some (drop_bit log (num + cluster_ratio - 1))
         else None)"

section \<open>Round trips and layout\<close>


lemma u64_halves:
  "unat (push_bit 32 (ucast (hi :: u32)) OR ucast (lo :: u32) :: u64) = unat hi * 2 ^ 32 + unat lo"
proof -
  have dis: "push_bit 32 (ucast hi :: u64) AND ucast lo = 0"
    by (rule bit_word_eqI) (auto simp: bit_simps dest: bit_imp_le_length)
  then have "push_bit 32 (ucast hi :: u64) OR ucast lo = ucast hi * 2 ^ 32 + ucast lo"
    by (simp add: disjunctive_add_eq_or [symmetric] push_bit_eq_mult)
  moreover have "unat hi * 2 ^ 32 + unat lo < 2 ^ 64"
    using unat_u32_lt [of hi] unat_u32_lt [of lo] by simp
  ultimately show ?thesis
    by (simp add: unat_word_ariths)
qed

lemma u64_split:
  "push_bit 32 (ucast (ucast (drop_bit 32 c) :: u32)) OR
     ucast (ucast (drop_bit 32 (push_bit 32 c)) :: u32) = (c :: u64)"
  by (rule bit_word_eqI) (auto simp: bit_simps)

lemma sb_blocks_cnt_roundtrip [simp]: "ext4_sb_get_blocks_cnt (ext4_sb_set_blocks_cnt s c) = c"
  by (simp add: ext4_sb_get_blocks_cnt_def ext4_sb_set_blocks_cnt_def u64_split)

lemma sb_free_blocks_cnt_roundtrip [simp]:
  "ext4_sb_get_free_blocks_cnt (ext4_sb_set_free_blocks_cnt s c) = c"
  by (simp add: ext4_sb_get_free_blocks_cnt_def ext4_sb_set_free_blocks_cnt_def u64_split)

lemma sblock_head_length: "wf_sblock s \<Longrightarrow> length (sblock_head_bytes s) = 1020"
  by (simp add: sblock_head_bytes_def wf_sblock_def)

lemma sblock_length: "wf_sblock s \<Longrightarrow> length (sblock_bytes s) = 1024"
  by (simp add: sblock_bytes_def sblock_head_length)

lemma sb_csum_head: "wf_sblock s \<Longrightarrow> ext4_sb_csum s = ext4_crc32c EXT4_CRC32_INIT (sblock_head_bytes s)"
  by (simp add: ext4_sb_csum_def sblock_bytes_def sblock_head_length)

lemma sblock_head_checksum [simp]: "sblock_head_bytes (s\<lparr>s_checksum := c\<rparr>) = sblock_head_bytes s"
  by (simp add: sblock_head_bytes_def)

lemma wf_sblock_checksum [simp]: "wf_sblock (s\<lparr>s_checksum := c\<rparr>) = wf_sblock s"
  by (simp add: wf_sblock_def)

lemma sb_set_csum_verifies:
  assumes "wf_sblock s" and "s_checksum_type s = EXT4_CHECKSUM_CRC32C"
  shows "ext4_sb_verify_csum (ext4_sb_set_csum s)"
  using assms
  by (simp add: ext4_sb_verify_csum_def ext4_sb_set_csum_def sb_csum_head ext4_sb_feature_ro_com_def)

lemma wf_zero_sblock [simp]: "wf_sblock zero_sblock"
  by (simp add: wf_sblock_def zero_sblock_def)

lemma sb_block_size_cases: "ext4_sb_get_block_size s \<in> {1024, 2048, 4096, 8192, 16384, 32768, 65536}"
proof -
  have "unat (if 6 < s_log_block_size s then 6 else s_log_block_size s) \<le> 6"
    by (auto simp: word_le_nat_alt word_less_nat_alt not_less)
  then have "unat (if 6 < s_log_block_size s then 6 else s_log_block_size s) \<in> {0,1,2,3,4,5,6}"
    by (simp only: insert_iff empty_iff) linarith
  then show ?thesis
    unfolding ext4_sb_get_block_size_def Let_def by (auto simp: push_bit_eq_mult)
qed

section \<open>Groups partition the volume\<close>

lemma block_group_cnt_nat:
  assumes "s_blocks_per_group s \<noteq> 0"
    and "unat (ext4_sb_get_blocks_cnt s) div unat (s_blocks_per_group s) < 2 ^ 32 - 1"
  shows "unat (ext4_block_group_cnt s) =
    (unat (ext4_sb_get_blocks_cnt s) + unat (s_blocks_per_group s) - 1) div unat (s_blocks_per_group s)"
proof -
  let ?B = "unat (ext4_sb_get_blocks_cnt s)" and ?p = "unat (s_blocks_per_group s)"
  have p: "0 < ?p" using assms(1) by (simp add: unat_gt_0)
  have q: "unat (ucast (ext4_sb_get_blocks_cnt s div ucast (s_blocks_per_group s)) :: u32) = ?B div ?p"
    using assms(2) by (simp add: unat_ucast_mod unat_div)
  have m: "ext4_sb_get_blocks_cnt s mod ucast (s_blocks_per_group s) \<noteq> 0 \<longleftrightarrow> ?B mod ?p \<noteq> 0"
  proof -
    have "unat (ext4_sb_get_blocks_cnt s mod ucast (s_blocks_per_group s)) = ?B mod ?p"
      by (simp add: unat_mod)
    then show ?thesis by (simp flip: unat_eq_zero)
  qed
  have "(?B + ?p - 1) div ?p = (if ?B mod ?p \<noteq> 0 then ?B div ?p + 1 else ?B div ?p)"
    by (rule ceil_div_cases [OF p])
  then show ?thesis
    using q m assms(2) by (simp add: ext4_block_group_cnt_def Let_def unat_word_ariths)
qed


lemma blocks_in_group_nat:
  assumes "s_blocks_per_group s \<noteq> 0" "ext4_sb_get_blocks_cnt s \<noteq> 0"
    and fits: "unat (ext4_sb_get_blocks_cnt s) div unat (s_blocks_per_group s) < 2 ^ 32 - 1"
    and g: "g < unat (ext4_block_group_cnt s)"
  shows "unat (ext4_blocks_in_group_cnt s (of_nat g)) =
    (if g < unat (ext4_block_group_cnt s) - 1 then unat (s_blocks_per_group s)
     else unat (ext4_sb_get_blocks_cnt s)
       - (unat (ext4_block_group_cnt s) - 1) * unat (s_blocks_per_group s))"
proof -
  let ?B = "unat (ext4_sb_get_blocks_cnt s)" and ?p = "unat (s_blocks_per_group s)"
  let ?n = "unat (ext4_block_group_cnt s)"
  have p: "0 < ?p" using assms(1) by (simp add: unat_gt_0)
  have B: "0 < ?B" using assms(2) by (simp add: unat_gt_0)
  have n: "?n = (?B + ?p - 1) div ?p" by (rule block_group_cnt_nat [OF assms(1) fits])
  have n1: "?n - 1 = (?B - 1) div ?p"
    unfolding n ceil_div_Suc [OF B p] by simp
  have lo: "(?n - 1) * ?p \<le> ?B - 1" unfolding n1 by simp
  have hi: "?B - (?n - 1) * ?p \<le> ?p"
  proof -
    have "?B - 1 < ((?B - 1) div ?p) * ?p + ?p" using div_mult_mod_eq [of "?B - 1" ?p] mod_less_divisor [OF p, of "?B - 1"] by linarith
    then show ?thesis unfolding n1 by linarith
  qed
  have g32: "unat (of_nat g :: u32) = g"
    using g unat_u32_lt [of "ext4_block_group_cnt s"] by (simp add: unat_of_nat)
  have n0: "0 < ?n" using g by simp
  then have "ext4_block_group_cnt s \<noteq> 0" by auto
  then have m1: "unat (ext4_block_group_cnt s - 1) = ?n - 1"
    by (rule unat_sub1_word)
  have last: "unat (ucast (ext4_sb_get_blocks_cnt s -
      ucast ((ext4_block_group_cnt s - 1) * s_blocks_per_group s)) :: u32) = ?B - (?n - 1) * ?p"
  proof -
    define k where "k = (?n - 1) * ?p"
    have k: "k \<le> ?B" using lo B by (simp add: k_def)
    have u: "unat ((ext4_block_group_cnt s - 1) * s_blocks_per_group s) = k mod 2 ^ 32"
      by (simp add: unat_word_ariths m1 k_def)
    have km: "k mod 2 ^ 32 \<le> ?B" using k by (meson le_trans mod_less_eq_dividend)
    have "unat (ext4_sb_get_blocks_cnt s - ucast ((ext4_block_group_cnt s - 1) * s_blocks_per_group s))
        = ?B - k mod 2 ^ 32"
      using km by (subst unat_sub) (simp_all add: word_le_nat_alt u)
    then have "unat (ucast (ext4_sb_get_blocks_cnt s -
        ucast ((ext4_block_group_cnt s - 1) * s_blocks_per_group s)) :: u32) = (?B - k mod 2 ^ 32) mod 2 ^ 32"
      by (simp add: unat_ucast_mod)
    also have "\<dots> = (?B - k) mod 2 ^ 32"
    proof -
      have "?B - k mod 2 ^ 32 = (?B - k) + (k div 2 ^ 32) * 2 ^ 32"
        using k div_mult_mod_eq [of k "2 ^ 32"] by linarith
      then show ?thesis by simp
    qed
    also have "\<dots> = ?B - k"
      using hi unat_u32_lt [of "s_blocks_per_group s"] by (simp add: k_def)
    finally show ?thesis by (simp add: k_def)
  qed
  show ?thesis
    using g32 m1 last
    by (simp add: ext4_blocks_in_group_cnt_def Let_def word_less_nat_alt)
qed



section \<open>Sparse superblock backups\<close>

text \<open>\<open>is_pow a b\<close>: \<open>a\<close> is a positive power of \<open>b\<close>.\<close>

definition is_pow :: "nat \<Rightarrow> nat \<Rightarrow> bool" where
  "is_pow a b \<longleftrightarrow> (\<exists>k. 0 < k \<and> a = b ^ k)"

lemma is_pow_small: "0 < b \<Longrightarrow> a < b \<Longrightarrow> \<not> is_pow a b"
proof
  assume "0 < b" "a < b" "is_pow a b"
  then obtain k where "0 < k" "a = b ^ k" by (auto simp: is_pow_def)
  with self_le_power [of b k] \<open>0 < b\<close> \<open>a < b\<close> show False by simp
qed

lemma is_pow_self: "is_pow b b"
  unfolding is_pow_def by (rule exI [of _ 1]) simp

lemma is_pow_dvd: "is_pow a b \<Longrightarrow> b dvd a"
  by (auto simp: is_pow_def)

lemma is_pow_div:
  assumes "b < a" "b dvd a" "2 \<le> b"
  shows "is_pow a b \<longleftrightarrow> is_pow (a div b) b"
proof
  assume "is_pow a b"
  then obtain k where k: "0 < k" "a = b ^ k" by (auto simp: is_pow_def)
  with assms have "k \<noteq> 1" by auto
  with k have "a div b = b ^ (k - 1)" "0 < k - 1"
    using assms by (auto simp: power_diff)
  then show "is_pow (a div b) b" unfolding is_pow_def by blast
next
  assume "is_pow (a div b) b"
  then obtain k where k: "0 < k" "a div b = b ^ k" by (auto simp: is_pow_def)
  then have "a = b ^ Suc k" using assms(2) by (metis dvd_mult_div_cancel power_Suc)
  then show "is_pow a b" unfolding is_pow_def by blast
qed

lemma is_power_of_iff: "2 \<le> b \<Longrightarrow> is_power_of a b = Some (is_pow (unat a) (unat b))"
proof (induction a b rule: is_power_of.induct)
  case (1 a b)
  then have b: "2 \<le> unat b" "\<not> b < 2" by (auto simp: word_le_nat_alt word_less_nat_alt)
  consider "a < b" | "a = b" | "b < a" "a mod b \<noteq> 0" | "b < a" "a mod b = 0"
    by (metis linorder_neqE_linordered_idom not_less_iff_gr_or_eq)
  then show ?case
  proof cases
    case 1
    then show ?thesis using b by (simp add: is_power_of.simps [of a b] is_pow_small word_less_nat_alt)
  next
    case 2
    then show ?thesis by (simp add: is_power_of.simps [of b b] is_pow_self)
  next
    case 3
    then have "\<not> unat b dvd unat a" by (metis mod_0_imp_dvd dvd_imp_mod_0 unat_eq_zero unat_mod)
    with 3 b show ?thesis by (auto simp: is_power_of.simps [of a b] dest: is_pow_dvd)
  next
    case 4
    then have d: "unat b dvd unat a" by (metis mod_0_imp_dvd unat_mod unsigned_0)
    from 4 have "unat b < unat a" by (simp add: word_less_nat_alt)
    with is_pow_div [OF this d b(1)] "1.IH" 4 b "1.prems" show ?thesis
      by (auto simp: is_power_of.simps [of a b] unat_div)
  qed
qed

lemma sb_sparse_iff:
  "ext4_sb_sparse g \<longleftrightarrow> unat g \<le> 1 \<or> is_pow (unat g) 3 \<or> is_pow (unat g) 5 \<or> is_pow (unat g) 7"
proof -
  have odd: "g AND 1 \<noteq> 0" if "odd b" "is_pow (unat g) b" for b
  proof -
    from that have "odd (unat g)" by (auto simp: is_pow_def)
    then have "unat g mod 2 = 1" by presburger
    then have "unat (g AND 1) \<noteq> 0" by (simp add: and_one_eq unat_mod)
    then show ?thesis by auto
  qed
  show ?thesis
    using odd [of 3] odd [of 5] odd [of 7]
    by (auto simp: ext4_sb_sparse_def is_power_of_iff word_le_nat_alt)
qed


section \<open>Properties\<close>



text \<open>storing the checksum of a superblock makes it verify, so what the driver writes it also
  accepts.\<close>

theorem sb_write_verifies:
  assumes "wf_sblock s" and "s_checksum_type s = EXT4_CHECKSUM_CRC32C"
  shows "ext4_sb_verify_csum (ext4_sb_set_csum s) \<and>
    sblock_head_bytes (ext4_sb_set_csum s) = sblock_head_bytes s"
  using sb_set_csum_verifies [OF assms] by (simp add: ext4_sb_set_csum_def sblock_head_bytes_def)

theorem sb_write_verifies_witness:
  "let s = zero_sblock\<lparr>s_features_read_only := 0x400, s_checksum_type := 1, s_inodes_count := 12\<rparr>
   in ext4_sb_verify_csum (ext4_sb_set_csum s) \<and> sblock_head_bytes (ext4_sb_set_csum s) = sblock_head_bytes s"
  unfolding Let_def
  by (rule sb_write_verifies) (simp_all add: wf_sblock_def zero_sblock_def EXT4_CHECKSUM_CRC32C_def)

text \<open>The blocks of the block groups add up to the blocks of the volume, for every volume whose
  group count fits its 32-bit counter.\<close>

theorem blocks_in_groups_sum:
  assumes "s_blocks_per_group s \<noteq> 0" "ext4_sb_get_blocks_cnt s \<noteq> 0"
    and fits: "unat (ext4_sb_get_blocks_cnt s) div unat (s_blocks_per_group s) < 2 ^ 32 - 1"
  shows "(\<Sum>g < unat (ext4_block_group_cnt s). unat (ext4_blocks_in_group_cnt s (of_nat g)))
    = unat (ext4_sb_get_blocks_cnt s)"
proof -
  let ?B = "unat (ext4_sb_get_blocks_cnt s)" and ?p = "unat (s_blocks_per_group s)"
  let ?n = "unat (ext4_block_group_cnt s)"
  let ?f = "\<lambda>g. unat (ext4_blocks_in_group_cnt s (of_nat g))"
  have p: "0 < ?p" using assms(1) by (simp add: unat_gt_0)
  have B: "0 < ?B" using assms(2) by (simp add: unat_gt_0)
  have n: "?n = (?B + ?p - 1) div ?p" by (rule block_group_cnt_nat [OF assms(1) fits])
  have "0 < ?n" unfolding n using B p by (simp add: div_greater_zero_iff)
  then obtain m where m: "?n = Suc m" by (auto dest: gr0_implies_Suc)
  have "m * ?p \<le> ?B"
  proof -
    have "m = (?B - 1) div ?p" using n m ceil_div_Suc [OF B p] by simp
    then show ?thesis by (metis div_times_less_eq_dividend le_diff_conv le_trans diff_le_self)
  qed
  moreover have "(\<Sum>g<m. ?f g) = m * ?p"
    using blocks_in_group_nat [OF assms] m by simp
  moreover have "?f m = ?B - m * ?p"
    using blocks_in_group_nat [OF assms, of m] m by simp
  ultimately show ?thesis unfolding m by simp
qed

theorem blocks_in_groups_sum_witness:
  "let s = zero_sblock\<lparr>s_blocks_count_lo := 100000, s_blocks_per_group := 32768\<rparr>
   in (\<Sum>g < unat (ext4_block_group_cnt s). unat (ext4_blocks_in_group_cnt s (of_nat g))) = 100000"
proof -
  let ?s = "zero_sblock\<lparr>s_blocks_count_lo := 100000, s_blocks_per_group := 32768\<rparr>"
  have cnt: "ext4_sb_get_blocks_cnt ?s = 100000" by (simp add: ext4_sb_get_blocks_cnt_def zero_sblock_def)
  show ?thesis
    unfolding Let_def using blocks_in_groups_sum [of ?s] by (simp add: cnt)
qed

text \<open>C35: a block group holds a copy of the superblock exactly if the volume is not sparse or its
  number is 0, 1 or a power of 3, 5 or 7.\<close>

theorem sb_backup_groups:
  "ext4_sb_is_super_in_bg s g = (if ext4_sb_feature_ro_com s EXT4_FRO_COM_SPARSE_SUPER
     then unat g \<le> 1 \<or> (\<exists>k. 0 < k \<and> (unat g = 3 ^ k \<or> unat g = 5 ^ k \<or> unat g = 7 ^ k)) else True)"
  unfolding ext4_sb_is_super_in_bg_def sb_sparse_iff is_pow_def if_bool_eq_conj by blast

end
