(* ===== verification/Block_Group.thy ===== *)
theory Block_Group
  imports Super
begin

unbundle bit_operations_syntax

text \<open>
  Block group descriptors: \<^verbatim>\<open>struct ext4_bgroup\<close>, the accessors of \<^verbatim>\<open>ext4_block_group.h\<close>,
  and the descriptor checksum \<^verbatim>\<open>ext4_fs_bg_checksum\<close> of \<^verbatim>\<open>ext4_fs.c\<close>.  The structure is a record
  with its 64-byte encoding; with 32-byte descriptors the accessors never touch the \<open>hi\<close> half.
\<close>

section \<open>The structure and its bytes\<close>

record ext4_bgroup =
  bg_block_bitmap_lo :: u32
  bg_inode_bitmap_lo :: u32
  bg_inode_table_first_block_lo :: u32
  bg_free_blocks_count_lo :: u16
  bg_free_inodes_count_lo :: u16
  bg_used_dirs_count_lo :: u16
  bg_flags :: u16
  bg_exclude_bitmap_lo :: u32
  bg_block_bitmap_csum_lo :: u16
  bg_inode_bitmap_csum_lo :: u16
  bg_itable_unused_lo :: u16
  bg_checksum :: u16
  bg_block_bitmap_hi :: u32
  bg_inode_bitmap_hi :: u32
  bg_inode_table_first_block_hi :: u32
  bg_free_blocks_count_hi :: u16
  bg_free_inodes_count_hi :: u16
  bg_used_dirs_count_hi :: u16
  bg_itable_unused_hi :: u16
  bg_exclude_bitmap_hi :: u32
  bg_block_bitmap_csum_hi :: u16
  bg_inode_bitmap_csum_hi :: u16
  bg_reserved :: u32

definition bgroup_bytes :: "ext4_bgroup \<Rightarrow> bytes" where
  "bgroup_bytes bg = le32 (bg_block_bitmap_lo bg)
     @ le32 (bg_inode_bitmap_lo bg)
     @ le32 (bg_inode_table_first_block_lo bg)
     @ le16 (bg_free_blocks_count_lo bg)
     @ le16 (bg_free_inodes_count_lo bg)
     @ le16 (bg_used_dirs_count_lo bg)
     @ le16 (bg_flags bg)
     @ le32 (bg_exclude_bitmap_lo bg)
     @ le16 (bg_block_bitmap_csum_lo bg)
     @ le16 (bg_inode_bitmap_csum_lo bg)
     @ le16 (bg_itable_unused_lo bg)
     @ le16 (bg_checksum bg)
     @ le32 (bg_block_bitmap_hi bg)
     @ le32 (bg_inode_bitmap_hi bg)
     @ le32 (bg_inode_table_first_block_hi bg)
     @ le16 (bg_free_blocks_count_hi bg)
     @ le16 (bg_free_inodes_count_hi bg)
     @ le16 (bg_used_dirs_count_hi bg)
     @ le16 (bg_itable_unused_hi bg)
     @ le32 (bg_exclude_bitmap_hi bg)
     @ le16 (bg_block_bitmap_csum_hi bg)
     @ le16 (bg_inode_bitmap_csum_hi bg)
     @ le32 (bg_reserved bg)"

definition bgroup_of_bytes :: "bytes \<Rightarrow> ext4_bgroup" where
  "bgroup_of_bytes bs = \<lparr>bg_block_bitmap_lo = get_le32 bs 0,
     bg_inode_bitmap_lo = get_le32 bs 4,
     bg_inode_table_first_block_lo = get_le32 bs 8,
     bg_free_blocks_count_lo = get_le16 bs 12,
     bg_free_inodes_count_lo = get_le16 bs 14,
     bg_used_dirs_count_lo = get_le16 bs 16,
     bg_flags = get_le16 bs 18,
     bg_exclude_bitmap_lo = get_le32 bs 20,
     bg_block_bitmap_csum_lo = get_le16 bs 24,
     bg_inode_bitmap_csum_lo = get_le16 bs 26,
     bg_itable_unused_lo = get_le16 bs 28,
     bg_checksum = get_le16 bs 30,
     bg_block_bitmap_hi = get_le32 bs 32,
     bg_inode_bitmap_hi = get_le32 bs 36,
     bg_inode_table_first_block_hi = get_le32 bs 40,
     bg_free_blocks_count_hi = get_le16 bs 44,
     bg_free_inodes_count_hi = get_le16 bs 46,
     bg_used_dirs_count_hi = get_le16 bs 48,
     bg_itable_unused_hi = get_le16 bs 50,
     bg_exclude_bitmap_hi = get_le32 bs 52,
     bg_block_bitmap_csum_hi = get_le16 bs 56,
     bg_inode_bitmap_csum_hi = get_le16 bs 58,
     bg_reserved = get_le32 bs 60\<rparr>"

section \<open>Accessors\<close>

definition ext4_bg_get_block_bitmap :: "ext4_bgroup \<Rightarrow> ext4_sblock \<Rightarrow> u64" where
  "ext4_bg_get_block_bitmap bg s =
     (let v = ucast (bg_block_bitmap_lo bg)
      in if EXT4_MIN_BLOCK_GROUP_DESCRIPTOR_SIZE < ext4_sb_get_desc_size s
         then v OR push_bit 32 (ucast (bg_block_bitmap_hi bg)) else v)"

definition ext4_bg_set_block_bitmap :: "ext4_bgroup \<Rightarrow> ext4_sblock \<Rightarrow> u64 \<Rightarrow> ext4_bgroup" where
  "ext4_bg_set_block_bitmap bg s blk =
     (let bg' = bg\<lparr>bg_block_bitmap_lo := ucast blk\<rparr>
      in if EXT4_MIN_BLOCK_GROUP_DESCRIPTOR_SIZE < ext4_sb_get_desc_size s
         then bg'\<lparr>bg_block_bitmap_hi := ucast (drop_bit 32 blk)\<rparr> else bg')"

definition ext4_bg_get_inode_bitmap :: "ext4_bgroup \<Rightarrow> ext4_sblock \<Rightarrow> u64" where
  "ext4_bg_get_inode_bitmap bg s =
     (let v = ucast (bg_inode_bitmap_lo bg)
      in if EXT4_MIN_BLOCK_GROUP_DESCRIPTOR_SIZE < ext4_sb_get_desc_size s
         then v OR push_bit 32 (ucast (bg_inode_bitmap_hi bg)) else v)"

definition ext4_bg_set_inode_bitmap :: "ext4_bgroup \<Rightarrow> ext4_sblock \<Rightarrow> u64 \<Rightarrow> ext4_bgroup" where
  "ext4_bg_set_inode_bitmap bg s blk =
     (let bg' = bg\<lparr>bg_inode_bitmap_lo := ucast blk\<rparr>
      in if EXT4_MIN_BLOCK_GROUP_DESCRIPTOR_SIZE < ext4_sb_get_desc_size s
         then bg'\<lparr>bg_inode_bitmap_hi := ucast (drop_bit 32 blk)\<rparr> else bg')"

definition ext4_bg_get_inode_table_first_block :: "ext4_bgroup \<Rightarrow> ext4_sblock \<Rightarrow> u64" where
  "ext4_bg_get_inode_table_first_block bg s =
     (let v = ucast (bg_inode_table_first_block_lo bg)
      in if EXT4_MIN_BLOCK_GROUP_DESCRIPTOR_SIZE < ext4_sb_get_desc_size s
         then v OR push_bit 32 (ucast (bg_inode_table_first_block_hi bg)) else v)"

definition ext4_bg_set_inode_table_first_block :: "ext4_bgroup \<Rightarrow> ext4_sblock \<Rightarrow> u64 \<Rightarrow> ext4_bgroup" where
  "ext4_bg_set_inode_table_first_block bg s blk =
     (let bg' = bg\<lparr>bg_inode_table_first_block_lo := ucast blk\<rparr>
      in if EXT4_MIN_BLOCK_GROUP_DESCRIPTOR_SIZE < ext4_sb_get_desc_size s
         then bg'\<lparr>bg_inode_table_first_block_hi := ucast (drop_bit 32 blk)\<rparr> else bg')"

definition ext4_bg_get_free_blocks_count :: "ext4_bgroup \<Rightarrow> ext4_sblock \<Rightarrow> u32" where
  "ext4_bg_get_free_blocks_count bg s =
     (let v = ucast (bg_free_blocks_count_lo bg)
      in if EXT4_MIN_BLOCK_GROUP_DESCRIPTOR_SIZE < ext4_sb_get_desc_size s
         then v OR push_bit 16 (ucast (bg_free_blocks_count_hi bg)) else v)"

definition ext4_bg_set_free_blocks_count :: "ext4_bgroup \<Rightarrow> ext4_sblock \<Rightarrow> u32 \<Rightarrow> ext4_bgroup" where
  "ext4_bg_set_free_blocks_count bg s cnt =
     (let bg' = bg\<lparr>bg_free_blocks_count_lo := ucast (drop_bit 16 (push_bit 16 cnt))\<rparr>
      in if EXT4_MIN_BLOCK_GROUP_DESCRIPTOR_SIZE < ext4_sb_get_desc_size s
         then bg'\<lparr>bg_free_blocks_count_hi := ucast (drop_bit 16 cnt)\<rparr> else bg')"

definition ext4_bg_get_free_inodes_count :: "ext4_bgroup \<Rightarrow> ext4_sblock \<Rightarrow> u32" where
  "ext4_bg_get_free_inodes_count bg s =
     (let v = ucast (bg_free_inodes_count_lo bg)
      in if EXT4_MIN_BLOCK_GROUP_DESCRIPTOR_SIZE < ext4_sb_get_desc_size s
         then v OR push_bit 16 (ucast (bg_free_inodes_count_hi bg)) else v)"

definition ext4_bg_set_free_inodes_count :: "ext4_bgroup \<Rightarrow> ext4_sblock \<Rightarrow> u32 \<Rightarrow> ext4_bgroup" where
  "ext4_bg_set_free_inodes_count bg s cnt =
     (let bg' = bg\<lparr>bg_free_inodes_count_lo := ucast (drop_bit 16 (push_bit 16 cnt))\<rparr>
      in if EXT4_MIN_BLOCK_GROUP_DESCRIPTOR_SIZE < ext4_sb_get_desc_size s
         then bg'\<lparr>bg_free_inodes_count_hi := ucast (drop_bit 16 cnt)\<rparr> else bg')"

definition ext4_bg_get_used_dirs_count :: "ext4_bgroup \<Rightarrow> ext4_sblock \<Rightarrow> u32" where
  "ext4_bg_get_used_dirs_count bg s =
     (let v = ucast (bg_used_dirs_count_lo bg)
      in if EXT4_MIN_BLOCK_GROUP_DESCRIPTOR_SIZE < ext4_sb_get_desc_size s
         then v OR push_bit 16 (ucast (bg_used_dirs_count_hi bg)) else v)"

definition ext4_bg_set_used_dirs_count :: "ext4_bgroup \<Rightarrow> ext4_sblock \<Rightarrow> u32 \<Rightarrow> ext4_bgroup" where
  "ext4_bg_set_used_dirs_count bg s cnt =
     (let bg' = bg\<lparr>bg_used_dirs_count_lo := ucast (drop_bit 16 (push_bit 16 cnt))\<rparr>
      in if EXT4_MIN_BLOCK_GROUP_DESCRIPTOR_SIZE < ext4_sb_get_desc_size s
         then bg'\<lparr>bg_used_dirs_count_hi := ucast (drop_bit 16 cnt)\<rparr> else bg')"

definition ext4_bg_get_itable_unused :: "ext4_bgroup \<Rightarrow> ext4_sblock \<Rightarrow> u32" where
  "ext4_bg_get_itable_unused bg s =
     (let v = ucast (bg_itable_unused_lo bg)
      in if EXT4_MIN_BLOCK_GROUP_DESCRIPTOR_SIZE < ext4_sb_get_desc_size s
         then v OR push_bit 16 (ucast (bg_itable_unused_hi bg)) else v)"

definition ext4_bg_set_itable_unused :: "ext4_bgroup \<Rightarrow> ext4_sblock \<Rightarrow> u32 \<Rightarrow> ext4_bgroup" where
  "ext4_bg_set_itable_unused bg s cnt =
     (let bg' = bg\<lparr>bg_itable_unused_lo := ucast (drop_bit 16 (push_bit 16 cnt))\<rparr>
      in if EXT4_MIN_BLOCK_GROUP_DESCRIPTOR_SIZE < ext4_sb_get_desc_size s
         then bg'\<lparr>bg_itable_unused_hi := ucast (drop_bit 16 cnt)\<rparr> else bg')"

definition ext4_bg_set_checksum :: "ext4_bgroup \<Rightarrow> u16 \<Rightarrow> ext4_bgroup" where
  "ext4_bg_set_checksum bg crc = bg\<lparr>bg_checksum := crc\<rparr>"

definition ext4_bg_has_flag :: "ext4_bgroup \<Rightarrow> u32 \<Rightarrow> bool" where
  "ext4_bg_has_flag bg f \<longleftrightarrow> ucast (bg_flags bg) AND f \<noteq> 0"

text \<open>\<^verbatim>\<open>flags |= f\<close> and \<^verbatim>\<open>flags &= ~f\<close> compute at 32 bits and store 16.\<close>

definition ext4_bg_set_flag :: "ext4_bgroup \<Rightarrow> u32 \<Rightarrow> ext4_bgroup" where
  "ext4_bg_set_flag bg f = bg\<lparr>bg_flags := ucast (ucast (bg_flags bg) OR f)\<rparr>"

definition ext4_bg_clear_flag :: "ext4_bgroup \<Rightarrow> u32 \<Rightarrow> ext4_bgroup" where
  "ext4_bg_clear_flag bg f = bg\<lparr>bg_flags := ucast (ucast (bg_flags bg) AND NOT f)\<rparr>"

section \<open>Descriptor checksum\<close>

text \<open>\<^verbatim>\<open>offsetof(struct ext4_bgroup, checksum)\<close> is 30.  The code zeroes the field, checksums
  \<^verbatim>\<open>desc_size\<close> bytes and restores the field.\<close>

definition ext4_fs_bg_checksum :: "ext4_sblock \<Rightarrow> u32 \<Rightarrow> ext4_bgroup \<Rightarrow> u16" where
  "ext4_fs_bg_checksum sb bgid bg =
     (if ext4_sb_feature_ro_com sb EXT4_FRO_COM_METADATA_CSUM then
        let c0 = ext4_sb_csum_seed sb;
            c1 = ext4_crc32c c0 (le32 bgid);
            c2 = ext4_crc32c c1
              (take (unat (ext4_sb_get_desc_size sb)) (bgroup_bytes (bg\<lparr>bg_checksum := 0\<rparr>)))
        in ucast (c2 AND 0xFFFF)
      else if ext4_sb_feature_ro_com sb EXT4_FRO_COM_GDT_CSUM then
        let offset = 30;
            c0 = ext4_bg_crc16 0xFFFF (s_uuid sb);
            c1 = ext4_bg_crc16 c0 (le32 bgid);
            c2 = ext4_bg_crc16 c1 (take offset (bgroup_bytes bg));
            offset' = offset + 2
        in if ext4_sb_feature_incom sb EXT4_FINCOM_64BIT \<and> offset' < unat (ext4_sb_get_desc_size sb)
           then ext4_bg_crc16 c2
             (take (unat (ext4_sb_get_desc_size sb) - offset') (drop offset' (bgroup_bytes bg)))
           else c2
      else 0)"

definition ext4_fs_verify_bg_csum :: "ext4_sblock \<Rightarrow> u32 \<Rightarrow> ext4_bgroup \<Rightarrow> bool" where
  "ext4_fs_verify_bg_csum sb bgid bg =
     (if \<not> ext4_sb_feature_ro_com sb EXT4_FRO_COM_METADATA_CSUM then True
      else ext4_fs_bg_checksum sb bgid bg = bg_checksum bg)"

section \<open>Round trips\<close>

lemma length_bgroup_bytes [simp]: "length (bgroup_bytes bg) = 64"
  by (simp add: bgroup_bytes_def)

lemma get_le_at:
  "length xs = n \<Longrightarrow> get_le16 (xs @ le16 a @ ys) n = a"
  "length xs = n \<Longrightarrow> get_le32 (xs @ le32 b @ ys) n = b"
  using get_le16_le16 [of a] get_le32_le32 [of b]
  by (auto simp: get_le16_def get_le32_def nth_append numeral_2_eq_2)

lemma get_le_skip:
  "length xs \<le> n \<Longrightarrow> get_le16 (xs @ ys) n = get_le16 ys (n - length xs)"
  "length xs \<le> n \<Longrightarrow> get_le32 (xs @ ys) n = get_le32 ys (n - length xs)"
  by (simp_all add: get_le16_def get_le32_def nth_append Suc_diff_le)

lemma get_le_head:
  "get_le16 (le16 a @ ys) 0 = a" "get_le32 (le32 b @ ys) 0 = b"
  using get_le_at(1) [of "[]" 0 a ys] get_le_at(2) [of "[]" 0 b ys] by simp_all

lemma bgroup_roundtrip: "bgroup_of_bytes (bgroup_bytes bg) = bg"
  by (simp add: bgroup_of_bytes_def bgroup_bytes_def get_le_skip get_le_head get_le16_le16 get_le32_le32)

lemma u32_halves: "ucast (ucast (drop_bit 16 (push_bit 16 c)) :: u16) OR
    push_bit 16 (ucast (ucast (drop_bit 16 c) :: u16)) = (c :: u32)"
  by (rule bit_word_eqI) (auto simp: bit_simps)

lemma u64_halves_lo: "ucast (ucast c :: u32) OR push_bit 32 (ucast (ucast (drop_bit 32 c) :: u32)) = (c :: u64)"
  by (rule bit_word_eqI) (auto simp: bit_simps)

lemmas bg_accessors =
  ext4_bg_get_block_bitmap_def ext4_bg_set_block_bitmap_def
  ext4_bg_get_inode_bitmap_def ext4_bg_set_inode_bitmap_def
  ext4_bg_get_inode_table_first_block_def ext4_bg_set_inode_table_first_block_def
  ext4_bg_get_free_blocks_count_def ext4_bg_set_free_blocks_count_def
  ext4_bg_get_free_inodes_count_def ext4_bg_set_free_inodes_count_def
  ext4_bg_get_used_dirs_count_def ext4_bg_set_used_dirs_count_def
  ext4_bg_get_itable_unused_def ext4_bg_set_itable_unused_def

text \<open>With 64-byte descriptors every accessor pair is a round trip; with 32-byte descriptors
  the address and the count are truncated to their low half.\<close>

definition bg_wide :: "ext4_sblock \<Rightarrow> bool" where
  "bg_wide s \<longleftrightarrow> EXT4_MIN_BLOCK_GROUP_DESCRIPTOR_SIZE < ext4_sb_get_desc_size s"

lemma bg_addr_roundtrip:
  "ext4_bg_get_block_bitmap (ext4_bg_set_block_bitmap bg s a) s = (if bg_wide s then a else ucast (ucast a :: u32))"
  "ext4_bg_get_inode_bitmap (ext4_bg_set_inode_bitmap bg s a) s = (if bg_wide s then a else ucast (ucast a :: u32))"
  "ext4_bg_get_inode_table_first_block (ext4_bg_set_inode_table_first_block bg s a) s =
     (if bg_wide s then a else ucast (ucast a :: u32))"
  by (simp_all add: bg_accessors bg_wide_def Let_def u64_halves_lo)

lemma ucast_u16_low: "ucast (ucast (drop_bit 16 (push_bit 16 c)) :: u16) = (c :: u32) AND 0xFFFF"
proof -
  have low: "c AND 0xFFFF = take_bit 16 c" by (simp add: take_bit_eq_mask mask_eq_exp_minus_1)
  show ?thesis unfolding low by (rule bit_word_eqI) (auto simp: bit_simps)
qed

lemma bg_count_roundtrip:
  "ext4_bg_get_free_blocks_count (ext4_bg_set_free_blocks_count bg s c) s = (if bg_wide s then c else c AND 0xFFFF)"
  "ext4_bg_get_free_inodes_count (ext4_bg_set_free_inodes_count bg s c) s = (if bg_wide s then c else c AND 0xFFFF)"
  "ext4_bg_get_used_dirs_count (ext4_bg_set_used_dirs_count bg s c) s = (if bg_wide s then c else c AND 0xFFFF)"
  "ext4_bg_get_itable_unused (ext4_bg_set_itable_unused bg s c) s = (if bg_wide s then c else c AND 0xFFFF)"
  unfolding bg_accessors bg_wide_def Let_def ucast_u16_low [symmetric]
  by (simp_all add: u32_halves)

lemma bg_flag_cleared: "\<not> ext4_bg_has_flag (ext4_bg_clear_flag bg f) f"
proof -
  have "ucast (ucast (ucast (bg_flags bg) AND NOT f) :: u16) AND f = 0"
    by (rule bit_word_eqI) (auto simp: bit_simps)
  then show ?thesis by (simp add: ext4_bg_has_flag_def ext4_bg_clear_flag_def)
qed

text \<open>The checksum does not depend on the field that stores it, so storing it makes the
  descriptor verify.\<close>

lemma take30_checksum: "take 30 (bgroup_bytes (bg\<lparr>bg_checksum := c\<rparr>)) = take 30 (bgroup_bytes bg)"
  by (simp add: bgroup_bytes_def)

lemma drop32_checksum: "drop 32 (bgroup_bytes (bg\<lparr>bg_checksum := c\<rparr>)) = drop 32 (bgroup_bytes bg)"
  by (simp add: bgroup_bytes_def)

lemma bg_checksum_stable: "ext4_fs_bg_checksum sb bgid (bg\<lparr>bg_checksum := c\<rparr>) = ext4_fs_bg_checksum sb bgid bg"
  by (simp add: ext4_fs_bg_checksum_def Let_def take30_checksum drop32_checksum)

lemma bg_checksum_verifies:
  "ext4_fs_verify_bg_csum sb bgid (ext4_bg_set_checksum bg (ext4_fs_bg_checksum sb bgid bg))"
  by (simp add: ext4_fs_verify_bg_csum_def ext4_bg_set_checksum_def bg_checksum_stable)

section \<open>Properties\<close>

text \<open>with 64-byte descriptors every address and every counter written through an accessor is
  read back unchanged; with 32-byte descriptors addresses are cut to 32 and counters to 16 bits.\<close>

theorem bg_accessors_roundtrip:
  "ext4_bg_get_block_bitmap (ext4_bg_set_block_bitmap bg s a) s = (if bg_wide s then a else ucast (ucast a :: u32)) \<and>
   ext4_bg_get_inode_bitmap (ext4_bg_set_inode_bitmap bg s a) s = (if bg_wide s then a else ucast (ucast a :: u32)) \<and>
   ext4_bg_get_inode_table_first_block (ext4_bg_set_inode_table_first_block bg s a) s =
     (if bg_wide s then a else ucast (ucast a :: u32)) \<and>
   ext4_bg_get_free_blocks_count (ext4_bg_set_free_blocks_count bg s c) s = (if bg_wide s then c else c AND 0xFFFF) \<and>
   ext4_bg_get_free_inodes_count (ext4_bg_set_free_inodes_count bg s c) s = (if bg_wide s then c else c AND 0xFFFF) \<and>
   ext4_bg_get_used_dirs_count (ext4_bg_set_used_dirs_count bg s c) s = (if bg_wide s then c else c AND 0xFFFF) \<and>
   ext4_bg_get_itable_unused (ext4_bg_set_itable_unused bg s c) s = (if bg_wide s then c else c AND 0xFFFF)"
  by (intro conjI bg_addr_roundtrip bg_count_roundtrip)

text \<open>A descriptor whose checksum has just been stored verifies, and survives the write to and
  the read from its 64-byte on-disk form.\<close>

theorem bg_write_verifies:
  "ext4_fs_verify_bg_csum sb bgid
     (bgroup_of_bytes (bgroup_bytes (ext4_bg_set_checksum bg (ext4_fs_bg_checksum sb bgid bg))))"
  unfolding bgroup_roundtrip by (rule bg_checksum_verifies)

end
