(* ===== verification/Hash.thy ===== *)
theory Hash
  imports Ext4_Prelude
begin

unbundle bit_operations_syntax

text \<open>
  Directory index hashing, \<^verbatim>\<open>ext4_hash.c\<close>: the half-MD4, TEA and legacy hashes, the packing of
  a name into words, and \<^verbatim>\<open>ext2_htree_hash\<close>, which maps a name to the key under which an HTree
  directory files it.  A C pointer into the name is the list from there on.
\<close>

section \<open>Half MD4\<close>

definition md4_F :: "u32 \<Rightarrow> u32 \<Rightarrow> u32 \<Rightarrow> u32" where
  "md4_F x y z = (x AND y) OR (NOT x AND z)"

definition md4_G :: "u32 \<Rightarrow> u32 \<Rightarrow> u32 \<Rightarrow> u32" where
  "md4_G x y z = (x AND y) OR (x AND z) OR (y AND z)"

definition md4_H :: "u32 \<Rightarrow> u32 \<Rightarrow> u32 \<Rightarrow> u32" where
  "md4_H x y z = x XOR y XOR z"

definition ROTATE_LEFT :: "u32 \<Rightarrow> nat \<Rightarrow> u32" where
  "ROTATE_LEFT x n = push_bit n x OR drop_bit (32 - n) x"

definition FF :: "u32 \<Rightarrow> u32 \<Rightarrow> u32 \<Rightarrow> u32 \<Rightarrow> u32 \<Rightarrow> nat \<Rightarrow> u32" where
  "FF a b c d x s = ROTATE_LEFT (a + (md4_F b c d + x)) s"

definition GG :: "u32 \<Rightarrow> u32 \<Rightarrow> u32 \<Rightarrow> u32 \<Rightarrow> u32 \<Rightarrow> nat \<Rightarrow> u32" where
  "GG a b c d x s = ROTATE_LEFT (a + (md4_G b c d + x + 0x5A827999)) s"

definition HH :: "u32 \<Rightarrow> u32 \<Rightarrow> u32 \<Rightarrow> u32 \<Rightarrow> u32 \<Rightarrow> nat \<Rightarrow> u32" where
  "HH a b c d x s = ROTATE_LEFT (a + (md4_H b c d + x + 0x6ED9EBA1)) s"

definition ext2_half_md4 :: "u32 list \<Rightarrow> u32 list \<Rightarrow> u32 list" where
  "ext2_half_md4 hash data =
     (let a = hash ! 0; b = hash ! 1; c = hash ! 2; d = hash ! 3;
          a = FF a b c d (data ! 0) 3;
          d = FF d a b c (data ! 1) 7;
          c = FF c d a b (data ! 2) 11;
          b = FF b c d a (data ! 3) 19;
          a = FF a b c d (data ! 4) 3;
          d = FF d a b c (data ! 5) 7;
          c = FF c d a b (data ! 6) 11;
          b = FF b c d a (data ! 7) 19;
          a = GG a b c d (data ! 1) 3;
          d = GG d a b c (data ! 3) 5;
          c = GG c d a b (data ! 5) 9;
          b = GG b c d a (data ! 7) 13;
          a = GG a b c d (data ! 0) 3;
          d = GG d a b c (data ! 2) 5;
          c = GG c d a b (data ! 4) 9;
          b = GG b c d a (data ! 6) 13;
          a = HH a b c d (data ! 3) 3;
          d = HH d a b c (data ! 7) 9;
          c = HH c d a b (data ! 2) 11;
          b = HH b c d a (data ! 6) 15;
          a = HH a b c d (data ! 1) 3;
          d = HH d a b c (data ! 5) 9;
          c = HH c d a b (data ! 0) 11;
          b = HH b c d a (data ! 4) 15
      in [hash ! 0 + a, hash ! 1 + b, hash ! 2 + c, hash ! 3 + d])"

section \<open>TEA\<close>

fun tea_rounds :: "u32 list \<Rightarrow> nat \<Rightarrow> u32 \<Rightarrow> u32 \<Rightarrow> u32 \<Rightarrow> u32 \<times> u32" where
  "tea_rounds data 0 i x y = (x, y)"
| "tea_rounds data (Suc n) i x y =
     (let sum = i * 0x9E3779B9;
          x' = x + ((push_bit 4 y + data ! 0) XOR (y + sum) XOR (drop_bit 5 y + data ! 1));
          y' = y + ((push_bit 4 x' + data ! 2) XOR (x' + sum) XOR (drop_bit 5 x' + data ! 3))
      in tea_rounds data n (i + 1) x' y')"

definition ext2_tea :: "u32 list \<Rightarrow> u32 list \<Rightarrow> u32 list" where
  "ext2_tea hash data =
     (let (x, y) = tea_rounds data 16 1 (hash ! 0) (hash ! 1)
      in hash[0 := hash ! 0 + x, 1 := hash ! 1 + y])"

section \<open>Legacy hash\<close>

definition char_val :: "bool \<Rightarrow> u8 \<Rightarrow> u32" where
  "char_val unsigned_char b = (if unsigned_char then ucast b else scast b)"

function legacy_loop :: "bytes \<Rightarrow> int \<Rightarrow> int \<Rightarrow> bool \<Rightarrow> u32 \<Rightarrow> u32 \<Rightarrow> u32 option" where
  "legacy_loop name i len unsigned_char h1 h2 =
     (if i < len then
        case rd8 name (nat i) of None \<Rightarrow> None
        | Some b \<Rightarrow>
            let h0 = h2 + (h1 XOR (char_val unsigned_char b * 0x6D22F5));
                h0 = (if h0 AND 0x80000000 \<noteq> 0 then h0 - 0x7FFFFFFF else h0)
            in legacy_loop name (i + 1) len unsigned_char h0 h1
      else Some h1)"
  by pat_completeness auto
termination
  by (relation "measure (\<lambda>(name, i, len, u, h1, h2). nat (len - i))") auto

definition ext2_legacy_hash :: "bytes \<Rightarrow> int \<Rightarrow> bool \<Rightarrow> u32 option" where
  "ext2_legacy_hash name len unsigned_char =
     map_option (push_bit 1) (legacy_loop name 0 len unsigned_char 0x12A3FE2D 0x37ABE8F9)"

section \<open>Packing a name into words\<close>

text \<open>\<open>dst\<close> collects the words stored through \<^verbatim>\<open>*dst++\<close>.\<close>

function prep_loop :: "bytes \<Rightarrow> int \<Rightarrow> int \<Rightarrow> bool \<Rightarrow> u32 \<Rightarrow> u32 \<Rightarrow> u32 list \<Rightarrow> int \<Rightarrow>
    (u32 \<times> u32 list \<times> int) option" where
  "prep_loop src i len unsigned_char padding buf_val dst dlen =
     (if i < len then
        case rd8 src (nat i) of None \<Rightarrow> None
        | Some b \<Rightarrow>
            let buf_byte = char_val unsigned_char b;
                buf_val = (if i mod 4 = 0 then padding else buf_val);
                buf_val = push_bit 8 buf_val + buf_byte
            in if i mod 4 = 3
               then prep_loop src (i + 1) len unsigned_char padding padding (dst @ [buf_val]) (dlen - 4)
               else prep_loop src (i + 1) len unsigned_char padding buf_val dst dlen
      else Some (buf_val, dst, dlen))"
  by pat_completeness auto
termination
  by (relation "measure (\<lambda>(src, i, len, u, p, v, dst, dlen). nat (len - i))") auto

function prep_pad :: "u32 \<Rightarrow> u32 list \<Rightarrow> int \<Rightarrow> u32 list" where
  "prep_pad padding dst dlen =
     (if 0 \<le> dlen then prep_pad padding (dst @ [padding]) (dlen - 4) else dst)"
  by pat_completeness auto
termination
  by (relation "measure (\<lambda>(p, dst, dlen). nat (dlen + 4))") auto

declare legacy_loop.simps [simp del] prep_loop.simps [simp del] prep_pad.simps [simp del]

definition hash_padding :: "u32 \<Rightarrow> u32" where
  "hash_padding slen = slen OR push_bit 8 slen OR push_bit 16 slen OR push_bit 24 slen"

definition ext2_prep_hashbuf :: "bytes \<Rightarrow> u32 \<Rightarrow> int \<Rightarrow> bool \<Rightarrow> u32 list option" where
  "ext2_prep_hashbuf src slen dlen unsigned_char =
     (let padding = hash_padding slen;
          len = (if word_of_int dlen < slen then dlen else uint slen)
      in case prep_loop src 0 len unsigned_char padding padding [] dlen of
           None \<Rightarrow> None
         | Some (buf_val, dst, dlen) \<Rightarrow>
             let dlen = dlen - 4;
                 dst = (if 0 \<le> dlen then dst @ [buf_val] else dst);
                 dlen = dlen - 4
             in Some (prep_pad padding dst dlen))"

section \<open>The hash of a name\<close>

datatype hash_version = HTREE_LEGACY | HTREE_HALF_MD4 | HTREE_TEA

text \<open>The numbers \<^verbatim>\<open>EXT2_HTREE_*\<close>: the algorithm and whether characters are unsigned.\<close>

definition hash_version_of :: "int \<Rightarrow> (hash_version \<times> bool) option" where
  "hash_version_of v =
     (if v = 5 then Some (HTREE_TEA, True) else if v = 2 then Some (HTREE_TEA, False)
      else if v = 3 then Some (HTREE_LEGACY, True) else if v = 0 then Some (HTREE_LEGACY, False)
      else if v = 4 then Some (HTREE_HALF_MD4, True) else if v = 1 then Some (HTREE_HALF_MD4, False)
      else None)"

function tea_loop :: "bytes \<Rightarrow> int \<Rightarrow> bool \<Rightarrow> u32 list \<Rightarrow> u32 list option" where
  "tea_loop name len unsigned_char hash =
     (if 0 < len then
        case ext2_prep_hashbuf name (word_of_int len) 16 unsigned_char of None \<Rightarrow> None
        | Some data \<Rightarrow> tea_loop (drop 16 name) (len - 16) unsigned_char (ext2_tea hash data)
      else Some hash)"
  by pat_completeness auto
termination
  by (relation "measure (\<lambda>(name, len, u, hash). nat len)") auto

function half_md4_loop :: "bytes \<Rightarrow> int \<Rightarrow> bool \<Rightarrow> u32 list \<Rightarrow> u32 list option" where
  "half_md4_loop name len unsigned_char hash =
     (if 0 < len then
        case ext2_prep_hashbuf name (word_of_int len) 32 unsigned_char of None \<Rightarrow> None
        | Some data \<Rightarrow> half_md4_loop (drop 32 name) (len - 32) unsigned_char (ext2_half_md4 hash data)
      else Some hash)"
  by pat_completeness auto
termination
  by (relation "measure (\<lambda>(name, len, u, hash). nat len)") auto

declare tea_loop.simps [simp del] half_md4_loop.simps [simp del]

text \<open>\<open>Hash_null\<close> is the return value -1 for a null \<^verbatim>\<open>name\<close> or \<^verbatim>\<open>hash_major\<close>; otherwise the
  status and the values stored through \<^verbatim>\<open>hash_major\<close> and, if it is not null, \<^verbatim>\<open>hash_minor\<close>.\<close>

datatype hash_res = Hash_null | Hash errno u32 u32

definition htree_mask_eof :: "u32 \<Rightarrow> u32" where
  "htree_mask_eof major0 =
     (let major = major0 AND NOT 1
      in if major = push_bit 1 0x7FFFFFFF then push_bit 1 (0x7FFFFFFF - 1) else major)"

definition ext2_htree_hash ::
    "bytes option \<Rightarrow> int \<Rightarrow> u32 list option \<Rightarrow> int \<Rightarrow> bool \<Rightarrow> hash_res option" where
  "ext2_htree_hash name_ptr len hash_seed version major_ptr =
     (case name_ptr of None \<Rightarrow> Some Hash_null
      | Some name \<Rightarrow>
        if \<not> major_ptr then Some Hash_null
        else if len < 1 \<or> 255 < len then Some (Hash ENOTSUP 0 0)
        else
          let hash = (case hash_seed of None \<Rightarrow> [0x67452301, 0xEFCDAB89, 0x98BADCFE, 0x10325476]
                      | Some seed \<Rightarrow> take 4 seed)
          in case hash_version_of version of
               None \<Rightarrow> Some (Hash ENOTSUP 0 0)
             | Some (HTREE_TEA, uc) \<Rightarrow>
                 map_option (\<lambda>h. Hash EOK (htree_mask_eof (h ! 0)) (h ! 1)) (tea_loop name len uc hash)
             | Some (HTREE_LEGACY, uc) \<Rightarrow>
                 map_option (\<lambda>m. Hash EOK (htree_mask_eof m) 0) (ext2_legacy_hash name len uc)
             | Some (HTREE_HALF_MD4, uc) \<Rightarrow>
                 map_option (\<lambda>h. Hash EOK (htree_mask_eof (h ! 1)) (h ! 2))
                   (half_md4_loop name len uc hash))"

section \<open>Packing computes the big-endian words of the padded name\<close>

text \<open>The reference: word \<open>k\<close> of the buffer packs the bytes \<open>4k..4k+3\<close> of the name behind the
  padding, and is the padding itself once the name is used up.\<close>

definition hashbuf_word :: "u32 \<Rightarrow> u32 list \<Rightarrow> nat \<Rightarrow> u32" where
  "hashbuf_word padding vals k = foldl (\<lambda>v b. push_bit 8 v + b) padding (take 4 (drop (4 * k) vals))"

definition hashbuf :: "bytes \<Rightarrow> u32 \<Rightarrow> nat \<Rightarrow> bool \<Rightarrow> u32 list" where
  "hashbuf src slen dlen uc = map (hashbuf_word (hash_padding slen)
     (map (char_val uc) (take (min (unat slen) dlen) src))) [0..<dlen div 4]"

definition prep_state :: "u32 \<Rightarrow> u32 list \<Rightarrow> int \<Rightarrow> nat \<Rightarrow> u32 \<times> u32 list \<times> int" where
  "prep_state p xs dl n = (foldl (\<lambda>v b. push_bit 8 v + b) p (take (n mod 4) (drop (4 * (n div 4)) xs)),
     map (hashbuf_word p xs) [0..<n div 4], dl - 4 * int (n div 4))"

lemma take_Suc_mod4:
  assumes "n < length xs"
  shows "take (Suc (n mod 4)) (drop (4 * (n div 4)) xs) = take (n mod 4) (drop (4 * (n div 4)) xs) @ [xs ! n]"
proof -
  have eq: "4 * (n div 4) + n mod 4 = n" by simp
  then have "n mod 4 < length (drop (4 * (n div 4)) xs)"
    using assms unfolding length_drop by linarith
  with eq show ?thesis by (simp add: take_Suc_conv_app_nth)
qed

lemma prep_step:
  assumes "n < length xs" "prep_state p xs dl n = (v, dst, D)"
  shows "prep_state p xs dl (Suc n) = (let w = push_bit 8 (if n mod 4 = 0 then p else v) + xs ! n
     in if n mod 4 = 3 then (p, dst @ [w], D - 4) else (w, dst, D))"
proof -
  let ?f = "\<lambda>v b. push_bit 8 v + b :: u32"
  from assms(2) have st: "v = foldl ?f p (take (n mod 4) (drop (4 * (n div 4)) xs))"
    "dst = map (hashbuf_word p xs) [0..<n div 4]" "D = dl - 4 * int (n div 4)"
    by (simp_all add: prep_state_def)
  have v: "(if n mod 4 = 0 then p else v) = v" by (simp add: st(1))
  have w: "push_bit 8 v + xs ! n = foldl ?f p (take (Suc (n mod 4)) (drop (4 * (n div 4)) xs))"
    unfolding take_Suc_mod4 [OF assms(1)] st(1) by simp
  show ?thesis
  proof (cases "n mod 4 = 3")
    case True
    then have d: "Suc n div 4 = Suc (n div 4)" "Suc n mod 4 = 0" by presburger+
    have "push_bit 8 v + xs ! n = hashbuf_word p xs (n div 4)"
      unfolding w hashbuf_word_def using True by simp
    then show ?thesis
      unfolding v by (simp add: True prep_state_def d st(2,3))
  next
    case False
    then have d: "Suc n div 4 = n div 4" "Suc n mod 4 = Suc (n mod 4)" by presburger+
    show ?thesis unfolding v by (simp add: False prep_state_def d st(2,3) w)
  qed
qed

lemma prep_loop_spec:
  assumes "n \<le> L" "L \<le> length src" "prep_state p (map (char_val uc) (take L src)) dl n = (v, dst, D)"
  shows "prep_loop src (int n) (int L) uc p v dst D =
    Some (prep_state p (map (char_val uc) (take L src)) dl L)"
  using assms(1,3)
proof (induction "L - n" arbitrary: n v dst D)
  case 0
  then show ?case by (simp add: prep_loop.simps [of src "int n"])
next
  case (Suc k)
  let ?xs = "map (char_val uc) (take L src)"
  from Suc.hyps(2) have lt: "n < L" "n < length ?xs" and k: "k = L - Suc n" "Suc n \<le> L" using assms(2) by simp_all
  have idx: "?xs ! n = char_val uc (src ! n)" "n < length src" using lt assms(2) by simp_all
  let ?w = "push_bit 8 (if n mod 4 = 0 then p else v) + char_val uc (src ! n)"
  have m: "int n mod 4 = int (n mod 4)" by (simp add: zmod_int)
  have m0: "(int n mod 4 = 0) = (n mod 4 = 0)" and m3: "(int n mod 4 = 3) = (n mod 4 = 3)"
    unfolding m by simp_all
  have step: "prep_loop src (int n) (int L) uc p v dst D =
      (if n mod 4 = 3 then prep_loop src (int (Suc n)) (int L) uc p p (dst @ [?w]) (D - 4)
       else prep_loop src (int (Suc n)) (int L) uc p ?w dst D)"
    using lt idx
    by (subst prep_loop.simps) (simp add: Let_def m0 m3 add.commute)
  note st = prep_step [OF lt(2) Suc.prems(2), unfolded idx Let_def]
  show ?case
  proof (cases "n mod 4 = 3")
    case True
    with st Suc.hyps(1) [OF k, of p "dst @ [?w]" "D - 4"] show ?thesis by (simp only: step if_True simp_thms)
  next
    case False
    with st Suc.hyps(1) [OF k, of ?w dst D] show ?thesis by (simp only: step if_False simp_thms)
  qed
qed

lemma prep_pad_eq:
  "prep_pad p dst (4 * (int n - 1)) = dst @ replicate n p"
proof (induction n arbitrary: dst)
  case 0
  show ?case by (simp add: prep_pad.simps)
next
  case (Suc n)
  have "4 * (int (Suc n) - 1) - 4 = 4 * (int n - 1)" by simp
  with Suc [of "dst @ [p]"] show ?case
    by (subst prep_pad.simps) (simp del: of_nat_Suc)
qed

lemma hashbuf_word_past: "length xs \<le> 4 * k \<Longrightarrow> hashbuf_word p xs k = p"
  by (simp add: hashbuf_word_def)

text \<open>The buffer sizes the code passes, 16 and 32 bytes, are \<open>4 * N\<close>.\<close>

lemma prep_hashbuf_eq:
  assumes "min (unat slen) (4 * N) \<le> length src" "4 * N < 2 ^ 31"
  shows "ext2_prep_hashbuf src slen (4 * int N) uc = Some (hashbuf src slen (4 * N) uc)"
proof -
  define L where "L = min (unat slen) (4 * N)"
  define xs where "xs = map (char_val uc) (take L src)"
  define p where "p = hash_padding slen"
  have cmp: "word_of_int (4 * int N) < slen \<longleftrightarrow> 4 * N < unat slen"
  proof -
    have "word_of_int (4 * int N) = (word_of_nat (4 * N) :: u32)" by simp
    moreover have "unat (word_of_nat (4 * N) :: u32) = 4 * N"
      using assms(2) by (simp add: unat_of_nat del: of_nat_mult)
    ultimately show ?thesis by (simp only: word_less_nat_alt)
  qed
  have len: "(if word_of_int (4 * int N) < slen then 4 * int N else uint slen) = int L"
    unfolding cmp L_def by (cases "4 * N < unat slen") (auto simp: min_def)
  have lxs: "length xs = L" using assms(1) by (simp add: xs_def L_def)
  have loop: "prep_loop src 0 (int L) uc p p [] (4 * int N) = Some (prep_state p xs (4 * int N) L)"
    using prep_loop_spec [of 0 L src p uc "4 * int N" p "[]" "4 * int N"] assms(1)
    by (simp add: xs_def L_def prep_state_def)
  define q where "q = L div 4"
  have qN: "q \<le> N" by (simp add: q_def L_def)
  have tail: "hashbuf_word p xs k = p" if "q < k" for k
    using that by (intro hashbuf_word_past) (simp add: lxs q_def)
  have val: "foldl (\<lambda>v b. push_bit 8 v + b) p (take (L mod 4) (drop (4 * q) xs)) = hashbuf_word p xs q"
  proof -
    have "length (drop (4 * q) xs) = L mod 4" unfolding length_drop lxs q_def by presburger
    then have "take (L mod 4) (drop (4 * q) xs) = take 4 (drop (4 * q) xs)" by simp
    then show ?thesis unfolding hashbuf_word_def by (rule arg_cong)
  qed
  have "ext2_prep_hashbuf src slen (4 * int N) uc = Some (map (hashbuf_word p xs) [0..<N])"
  proof (cases "q = N")
    case True
    then show ?thesis
      unfolding ext2_prep_hashbuf_def Let_def len p_def [symmetric] loop prep_state_def q_def [symmetric]
      by (simp add: prep_pad.simps)
  next
    case False
    with qN obtain n where n: "N = Suc (q + n)" by (metis le_neq_implies_less less_imp_Suc_add)
    have e: "4 * int N - 4 * int q - 4 - 4 = 4 * (int n - 1)" by (simp add: n)
    have "map (hashbuf_word p xs) [0..<N] = map (hashbuf_word p xs) [0..<Suc q] @ replicate n p"
    proof (rule nth_equalityI)
      fix i assume "i < length (map (hashbuf_word p xs) [0..<N])"
      then show "map (hashbuf_word p xs) [0..<N] ! i = (map (hashbuf_word p xs) [0..<Suc q] @ replicate n p) ! i"
        by (cases "i < Suc q") (simp_all del: upt_Suc add: n nth_append tail)
    qed (simp add: n)
    moreover have "ext2_prep_hashbuf src slen (4 * int N) uc =
        Some (prep_pad p (map (hashbuf_word p xs) [0..<q] @ [hashbuf_word p xs q]) (4 * int N - 4 * int q - 4 - 4))"
      unfolding ext2_prep_hashbuf_def Let_def len p_def [symmetric] loop prep_state_def q_def [symmetric] val
      by (simp add: n)
    ultimately show ?thesis unfolding e prep_pad_eq by simp
  qed
  then show ?thesis by (simp add: hashbuf_def xs_def L_def p_def)
qed

section \<open>The hash is total, in bounds, and never the end-of-directory key\<close>

lemma length_ext2_tea [simp]: "length (ext2_tea hash data) = length hash"
  by (simp add: ext2_tea_def split: prod.splits)

lemma length_LetI: "(\<And>x. length (f x) = n) \<Longrightarrow> length (Let e f) = n"
  by simp

lemma length_ext2_half_md4 [simp]: "length (ext2_half_md4 hash data) = 4"
  unfolding ext2_half_md4_def by (intro length_LetI) simp

lemma prep_hashbuf_total:
  assumes "0 < len" "len < 2 ^ 31" "nat len \<le> length name"
  shows "\<exists>data. ext2_prep_hashbuf name (word_of_int len) 16 uc = Some data \<and> length data = 4"
    and "\<exists>data. ext2_prep_hashbuf name (word_of_int len) 32 uc = Some data \<and> length data = 8"
proof -
  have "unat (word_of_int len :: u32) = nat len"
    using assms(1,2) by (simp add: unsigned_of_int take_bit_int_eq_self)
  then show "\<exists>data. ext2_prep_hashbuf name (word_of_int len) 16 uc = Some data \<and> length data = 4"
    "\<exists>data. ext2_prep_hashbuf name (word_of_int len) 32 uc = Some data \<and> length data = 8"
    using prep_hashbuf_eq [of "word_of_int len" 4 name uc] prep_hashbuf_eq [of "word_of_int len" 8 name uc] assms(3)
    by (simp_all add: hashbuf_def)
qed

lemma tea_loop_total:
  "nat len \<le> length name \<Longrightarrow> len < 2 ^ 31 \<Longrightarrow> \<exists>h. tea_loop name len uc hash = Some h \<and> length h = length hash"
proof (induction name len uc hash rule: tea_loop.induct)
  case (1 name len uc hash)
  show ?case
  proof (cases "0 < len")
    case True
    then obtain data where d: "ext2_prep_hashbuf name (word_of_int len) 16 uc = Some data"
      using prep_hashbuf_total(1) "1.prems" by blast
    with "1.IH" [OF True d] "1.prems" True show ?thesis by (simp add: tea_loop.simps [of name])
  qed (simp add: tea_loop.simps [of name])
qed

lemma half_md4_loop_total:
  "nat len \<le> length name \<Longrightarrow> len < 2 ^ 31 \<Longrightarrow> length hash = 4 \<Longrightarrow>
     \<exists>h. half_md4_loop name len uc hash = Some h \<and> length h = 4"
proof (induction name len uc hash rule: half_md4_loop.induct)
  case (1 name len uc hash)
  show ?case
  proof (cases "0 < len")
    case True
    then obtain data where d: "ext2_prep_hashbuf name (word_of_int len) 32 uc = Some data"
      using prep_hashbuf_total(2) "1.prems" by blast
    with "1.IH" [OF True d] "1.prems" True show ?thesis by (simp add: half_md4_loop.simps [of name])
  qed (use "1.prems" in \<open>simp add: half_md4_loop.simps [of name]\<close>)
qed

lemma legacy_loop_total:
  "nat len \<le> length name \<Longrightarrow> 0 \<le> i \<Longrightarrow> \<exists>h. legacy_loop name i len uc h1 h2 = Some h"
proof (induction name i len uc h1 h2 rule: legacy_loop.induct)
  case (1 name i len uc h1 h2)
  show ?case
  proof (cases "i < len")
    case True
    then have rd: "rd8 name (nat i) = Some (name ! nat i)"
      using "1.prems" by (intro rd8_in) linarith
    show ?thesis
      using "1.IH" [OF True rd refl refl] "1.prems" True by (simp add: legacy_loop.simps [of name] rd Let_def)
  qed (simp add: legacy_loop.simps [of name])
qed

lemma htree_mask_eof_range: "\<not> bit (htree_mask_eof m) 0 \<and> htree_mask_eof m < 0xFFFFFFFE"
proof (cases "m AND NOT 1 = (0xFFFFFFFE :: u32)")
  case True
  have "\<not> bit (0xFFFFFFFC :: u32) 0" by (simp add: bit_0)
  with True show ?thesis by (simp add: htree_mask_eof_def)
next
  case False
  have "\<not> bit (m AND NOT 1) 0" by (simp only: bit_simps) simp
  then have even: "even (m AND NOT 1)" by (simp add: bit_0)
  have "m AND NOT 1 \<noteq> (0xFFFFFFFF :: u32)"
  proof
    assume "m AND NOT 1 = (0xFFFFFFFF :: u32)"
    with even have "even (0xFFFFFFFF :: u32)" by simp
    then show False by simp
  qed
  moreover have "x < 0xFFFFFFFE" if "x \<noteq> 0xFFFFFFFE" "x \<noteq> 0xFFFFFFFF" for x :: u32
  proof -
    have "unat x \<noteq> unat (0xFFFFFFFE :: u32)" "unat x \<noteq> unat (0xFFFFFFFF :: u32)"
      using that unfolding word_unat_eq_iff by blast+
    then have "unat x < 4294967294" using unat_u32_lt [of x] by simp
    then show ?thesis by (simp add: word_less_nat_alt)
  qed
  ultimately show ?thesis using False even by (simp add: htree_mask_eof_def bit_0)
qed

lemma htree_hash_total:
  assumes "1 \<le> len" "len \<le> 255" "nat len \<le> length name" "hash_version_of v \<noteq> None"
    and "case seed of None \<Rightarrow> True | Some s \<Rightarrow> length s = 4"
  shows "\<exists>major minor. ext2_htree_hash (Some name) len seed v True = Some (Hash EOK (htree_mask_eof major) minor)"
proof -
  obtain alg uc where v: "hash_version_of v = Some (alg, uc)" using assms(4) by auto
  let ?h = "case seed of None \<Rightarrow> [0x67452301, 0xEFCDAB89, 0x98BADCFE, 0x10325476] | Some seed \<Rightarrow> take 4 seed"
  have "length ?h = 4" using assms(5) by (cases seed) simp_all
  with tea_loop_total [of len name uc ?h] half_md4_loop_total [of len name ?h uc]
    legacy_loop_total [of len name 0 uc "0x12A3FE2D" "0x37ABE8F9"] assms(1-3)
  show ?thesis
    by (cases alg) (auto simp: ext2_htree_hash_def v ext2_legacy_hash_def Let_def)
qed

text \<open>Characters below 128 have the same value signed and unsigned, so the two variants of an
  algorithm agree on ASCII names.\<close>

lemma char_val_ascii: "b < 128 \<Longrightarrow> char_val False b = char_val True b"
proof -
  assume "b < 128"
  then have "unat b < 2 ^ 7" by (simp add: word_less_nat_alt)
  then have "unat (take_bit 7 b) = unat b"
    by (simp add: unsigned_take_bit_eq take_bit_nat_eq_self)
  then have "take_bit 7 b = b" by (simp only: word_unat_eq_iff)
  then have high: "bit b n \<Longrightarrow> n < 7" for n by (metis bit_take_bit_iff)
  show ?thesis
    unfolding char_val_def by (intro bit_word_eqI) (auto simp: bit_simps min_def dest: high)
qed

section \<open>Properties\<close>

text \<open>C36: packing a name for hashing fills the 16- or 32-byte buffer exactly, with word \<open>k\<close> made of
  bytes \<open>4k\<close> to \<open>4k + 3\<close> of the name in big-endian order behind the length padding.\<close>

theorem prep_hashbuf_packs:
  assumes "N = 4 \<or> N = 8" "min (unat slen) (4 * N) \<le> length src"
  shows "ext2_prep_hashbuf src slen (4 * int N) uc = Some (hashbuf src slen (4 * N) uc) \<and>
    length (hashbuf src slen (4 * N) uc) = N"
  using prep_hashbuf_eq [OF assms(2), of uc] assms(1) by (auto simp: hashbuf_def)

theorem prep_hashbuf_packs_witness:
  "ext2_prep_hashbuf [0x61, 0x62, 0x63, 0x64, 0x65] 5 16 False =
     Some [0x61626364, 0x05050565, 0x05050505, 0x05050505]"
  using prep_hashbuf_packs [of 4 5 "[0x61, 0x62, 0x63, 0x64, 0x65]" False]
  by (simp add: hashbuf_def hashbuf_word_def hash_padding_def char_val_def upt_rec)

text \<open>C37: hashing a name of 1 to 255 bytes with a known hash version always succeeds, reads only the
  name, and gives an even key below the end-of-directory key.\<close>

theorem htree_hash_in_range:
  assumes "1 \<le> len" "len \<le> 255" "nat len \<le> length name" "0 \<le> v" "v \<le> 5"
    and "case seed of None \<Rightarrow> True | Some s \<Rightarrow> length s = 4"
  shows "\<exists>major minor. ext2_htree_hash (Some name) len seed v True = Some (Hash EOK major minor) \<and>
    \<not> bit major 0 \<and> major < push_bit 1 0x7FFFFFFF"
proof -
  have "v \<in> {0, 1, 2, 3, 4, 5}" using assms(4,5) by auto
  then have "hash_version_of v \<noteq> None" by (auto simp: hash_version_of_def)
  from htree_hash_total [OF assms(1-3) this assms(6)] htree_mask_eof_range show ?thesis
    by (auto simp: push_bit_eq_mult)
qed

theorem htree_hash_in_range_witness:
  "\<exists>major minor. ext2_htree_hash (Some [0x61, 0x62]) 2 None 1 True = Some (Hash EOK major minor) \<and>
    \<not> bit major 0 \<and> major < push_bit 1 0x7FFFFFFF"
  by (rule htree_hash_in_range) simp_all

end
