(* ===== verification/Bcache.thy ===== *)
theory Bcache
  imports Ext4_Prelude
begin

unbundle bit_operations_syntax

text \<open>
  The block cache of \<^verbatim>\<open>ext4_bcache.h\<close> and \<^verbatim>\<open>ext4_bcache.c\<close>.  A cached buffer is identified by its
  block address, so a C pointer to a buffer is that address.  The address tree is the list of its
  buffers in order, the LRU tree the list of its (LRU id, address) nodes in order, the dirty list the
  addresses it links.  The two operations that write to the device, \<^verbatim>\<open>ext4_bcache_free\<close> and
  \<^verbatim>\<open>ext4_bcache_cleanup\<close>, are in \<open>Blockdev\<close>.
\<close>

section \<open>Buffers and the cache\<close>

record ext4_buf =
  bf_flags :: u32
  bf_lba :: u64
  bf_data :: bytes
  bf_lru_id :: u32
  bf_refctr :: u32
  bf_on_dirty_list :: bool
  bf_end_write :: "nat option"

record ext4_bcache =
  bc_cnt :: u32
  bc_itemsize :: u32
  bc_lru_ctr :: u32
  bc_ref_blocks :: u32
  bc_max_ref_blocks :: u32
  bc_dont_shake :: bool
  bc_io_err :: errno
  bc_lba_root :: "ext4_buf list"
  bc_lru_root :: "(u32 \<times> u64) list"
  bc_dirty_list :: "u64 list"

text \<open>The handle of the callers: the block number and the buffer it points to.\<close>

record ext4_block =
  lb_id :: u64
  blk_buf :: "u64 option"

datatype bcache_state_bits = BC_UPTODATE | BC_DIRTY | BC_FLUSH | BC_TMP

fun bc_bit :: "bcache_state_bits \<Rightarrow> nat" where
  "bc_bit BC_UPTODATE = 0" | "bc_bit BC_DIRTY = 1" | "bc_bit BC_FLUSH = 2" | "bc_bit BC_TMP = 3"

definition ext4_bcache_set_flag :: "bcache_state_bits \<Rightarrow> ext4_buf \<Rightarrow> ext4_buf" where
  "ext4_bcache_set_flag b buf = buf\<lparr>bf_flags := bf_flags buf OR push_bit (bc_bit b) 1\<rparr>"

definition ext4_bcache_clear_flag :: "bcache_state_bits \<Rightarrow> ext4_buf \<Rightarrow> ext4_buf" where
  "ext4_bcache_clear_flag b buf = buf\<lparr>bf_flags := bf_flags buf AND NOT (push_bit (bc_bit b) 1)\<rparr>"

definition ext4_bcache_test_flag :: "ext4_buf \<Rightarrow> bcache_state_bits \<Rightarrow> bool" where
  "ext4_bcache_test_flag buf b \<longleftrightarrow> drop_bit (bc_bit b) (bf_flags buf AND push_bit (bc_bit b) 1) \<noteq> 0"

definition ext4_bcache_set_dirty :: "ext4_buf \<Rightarrow> ext4_buf" where
  "ext4_bcache_set_dirty buf = ext4_bcache_set_flag BC_DIRTY (ext4_bcache_set_flag BC_UPTODATE buf)"

definition ext4_bcache_clear_dirty :: "ext4_buf \<Rightarrow> ext4_buf" where
  "ext4_bcache_clear_dirty buf = ext4_bcache_clear_flag BC_DIRTY (ext4_bcache_clear_flag BC_UPTODATE buf)"

definition ext4_bcache_take_error :: "ext4_bcache \<Rightarrow> errno \<times> ext4_bcache" where
  "ext4_bcache_take_error bc = (bc_io_err bc, bc\<lparr>bc_io_err := EOK\<rparr>)"

section \<open>The two trees and the dirty list\<close>

text \<open>\<^verbatim>\<open>RB_INSERT\<close> leaves the tree alone when the key is present; \<^verbatim>\<open>RB_REMOVE\<close> unlinks the node
  it is given, without comparing keys.\<close>

definition rb_insert :: "('a \<Rightarrow> 'k::linorder) \<Rightarrow> 'a \<Rightarrow> 'a list \<Rightarrow> 'a list" where
  "rb_insert key x t = (if key x \<in> key ` set t then t else insort_key key x t)"

definition ext4_buf_lookup :: "ext4_bcache \<Rightarrow> u64 \<Rightarrow> ext4_buf option" where
  "ext4_buf_lookup bc lba = find (\<lambda>b. bf_lba b = lba) (bc_lba_root bc)"

definition ext4_buf_lowest_lru :: "ext4_bcache \<Rightarrow> u64 option" where
  "ext4_buf_lowest_lru bc = (case bc_lru_root bc of [] \<Rightarrow> None | (i, lba) # _ \<Rightarrow> Some lba)"

text \<open>An assignment through the pointer \<open>lba\<close>.\<close>

definition upd_buf :: "u64 \<Rightarrow> (ext4_buf \<Rightarrow> ext4_buf) \<Rightarrow> ext4_bcache \<Rightarrow> ext4_bcache" where
  "upd_buf lba f bc = bc\<lparr>bc_lba_root := map (\<lambda>b. if bf_lba b = lba then f b else b) (bc_lba_root bc)\<rparr>"

definition lru_insert :: "u32 \<Rightarrow> u64 \<Rightarrow> ext4_bcache \<Rightarrow> ext4_bcache" where
  "lru_insert i lba bc = bc\<lparr>bc_lru_root := rb_insert fst (i, lba) (bc_lru_root bc)\<rparr>"

definition lru_remove :: "u64 \<Rightarrow> ext4_bcache \<Rightarrow> ext4_bcache" where
  "lru_remove lba bc = bc\<lparr>bc_lru_root := filter (\<lambda>e. snd e \<noteq> lba) (bc_lru_root bc)\<rparr>"

definition lba_insert :: "ext4_buf \<Rightarrow> ext4_bcache \<Rightarrow> ext4_bcache" where
  "lba_insert buf bc = bc\<lparr>bc_lba_root := rb_insert bf_lba buf (bc_lba_root bc)\<rparr>"

definition lba_remove :: "u64 \<Rightarrow> ext4_bcache \<Rightarrow> ext4_bcache" where
  "lba_remove lba bc = bc\<lparr>bc_lba_root := filter (\<lambda>b. bf_lba b \<noteq> lba) (bc_lba_root bc)\<rparr>"

definition ext4_bcache_insert_dirty_node :: "u64 \<Rightarrow> ext4_bcache \<Rightarrow> ext4_bcache" where
  "ext4_bcache_insert_dirty_node lba bc =
     (case ext4_buf_lookup bc lba of None \<Rightarrow> bc
      | Some buf \<Rightarrow>
          if bf_on_dirty_list buf then bc
          else upd_buf lba (\<lambda>b. b\<lparr>bf_on_dirty_list := True\<rparr>) (bc\<lparr>bc_dirty_list := lba # bc_dirty_list bc\<rparr>))"

definition ext4_bcache_remove_dirty_node :: "u64 \<Rightarrow> ext4_bcache \<Rightarrow> ext4_bcache" where
  "ext4_bcache_remove_dirty_node lba bc =
     (case ext4_buf_lookup bc lba of None \<Rightarrow> bc
      | Some buf \<Rightarrow>
          if bf_on_dirty_list buf
          then upd_buf lba (\<lambda>b. b\<lparr>bf_on_dirty_list := False\<rparr>)
                 (bc\<lparr>bc_dirty_list := remove1 lba (bc_dirty_list bc)\<rparr>)
          else bc)"

section \<open>Operations\<close>

definition ext4_bcache_init_dynamic :: "u32 \<Rightarrow> u32 \<Rightarrow> ext4_bcache option" where
  "ext4_bcache_init_dynamic cnt itemsize =
     (if cnt = 0 \<or> itemsize = 0 then None
      else Some \<lparr>bc_cnt = cnt, bc_itemsize = itemsize, bc_lru_ctr = 0, bc_ref_blocks = 0,
        bc_max_ref_blocks = 0, bc_dont_shake = False, bc_io_err = EOK, bc_lba_root = [],
        bc_lru_root = [], bc_dirty_list = []\<rparr>)"

definition ext4_bcache_update_if_cached :: "ext4_bcache \<Rightarrow> u64 \<Rightarrow> u32 \<Rightarrow> bytes \<Rightarrow> u32 \<Rightarrow> ext4_bcache" where
  "ext4_bcache_update_if_cached bc lba offset src len =
     (case ext4_buf_lookup bc lba of None \<Rightarrow> bc
      | Some buf \<Rightarrow>
          if bc_itemsize bc < offset + len then bc
          else upd_buf lba (\<lambda>b. b\<lparr>bf_data := put_bytes (bf_data b) (unat offset) (take (unat len) src)\<rparr>) bc)"

definition ext4_bcache_drop_buf :: "u64 \<Rightarrow> ext4_bcache \<Rightarrow> ext4_bcache" where
  "ext4_bcache_drop_buf lba bc =
     (case ext4_buf_lookup bc lba of None \<Rightarrow> bc
      | Some buf \<Rightarrow>
          let bc1 = (if bf_refctr buf \<noteq> 0 then bc else lru_remove lba bc);
              bc2 = (if ext4_bcache_test_flag buf BC_DIRTY
                     then ext4_bcache_remove_dirty_node lba bc1 else bc1);
              bc3 = lba_remove lba bc2
          in bc3\<lparr>bc_ref_blocks := bc_ref_blocks bc3 - 1\<rparr>)"

definition ext4_bcache_invalidate_buf :: "u64 \<Rightarrow> ext4_bcache \<Rightarrow> ext4_bcache" where
  "ext4_bcache_invalidate_buf lba bc =
     (case ext4_buf_lookup bc lba of None \<Rightarrow> bc
      | Some buf \<Rightarrow>
          let bc1 = upd_buf lba (\<lambda>b. b\<lparr>bf_end_write := None\<rparr>) bc;
              bc2 = (if ext4_bcache_test_flag buf BC_DIRTY
                     then ext4_bcache_remove_dirty_node lba bc1 else bc1)
          in upd_buf lba ext4_bcache_clear_dirty bc2)"

text \<open>\<^verbatim>\<open>RB_FOREACH_FROM\<close> walks the tree in order from the node it is given, and not at all from a
  null pointer.\<close>

definition invalidate_walk :: "ext4_bcache \<Rightarrow> u64 \<Rightarrow> u64 list" where
  "invalidate_walk bc from =
     (case ext4_buf_lookup bc from of None \<Rightarrow> []
      | Some _ \<Rightarrow> dropWhile (\<lambda>l. l \<noteq> from) (map bf_lba (bc_lba_root bc)))"

definition ext4_bcache_invalidate_lba :: "u64 \<Rightarrow> u32 \<Rightarrow> ext4_bcache \<Rightarrow> ext4_bcache" where
  "ext4_bcache_invalidate_lba from cnt bc =
     (let last = from + ucast cnt - 1
      in fold ext4_bcache_invalidate_buf (takeWhile (\<lambda>l. l \<le> last) (invalidate_walk bc from)) bc)"

definition ext4_bcache_find_get :: "u64 \<Rightarrow> ext4_bcache \<Rightarrow> ext4_block option \<times> ext4_bcache" where
  "ext4_bcache_find_get lba bc =
     (case ext4_buf_lookup bc lba of None \<Rightarrow> (None, bc)
      | Some buf \<Rightarrow>
          let bc1 = (if bf_refctr buf = 0 then
                let ctr = bc_lru_ctr bc + 1;
                    bc' = lru_remove lba (upd_buf lba (\<lambda>b. b\<lparr>bf_lru_id := ctr\<rparr>) (bc\<lparr>bc_lru_ctr := ctr\<rparr>))
                in if ext4_bcache_test_flag buf BC_DIRTY
                   then ext4_bcache_remove_dirty_node lba bc' else bc'
              else bc)
          in (Some \<lparr>lb_id = lba, blk_buf = Some lba\<rparr>,
              upd_buf lba (\<lambda>b. b\<lparr>bf_refctr := bf_refctr b + 1\<rparr>) bc1))"

text \<open>\<open>mem\<close> is what the allocator returns: nothing, or a block of memory with arbitrary bytes.\<close>

definition ext4_buf_alloc :: "bytes option \<Rightarrow> u64 \<Rightarrow> ext4_buf option" where
  "ext4_buf_alloc mem lba =
     (case mem of None \<Rightarrow> None
      | Some data \<Rightarrow> Some \<lparr>bf_flags = 0, bf_lba = lba, bf_data = data, bf_lru_id = 0, bf_refctr = 0,
          bf_on_dirty_list = False, bf_end_write = None\<rparr>)"

definition ext4_bcache_alloc ::
    "bytes option \<Rightarrow> u64 \<Rightarrow> ext4_bcache \<Rightarrow> errno \<times> ext4_block option \<times> ext4_bcache" where
  "ext4_bcache_alloc mem lba bc =
     (case ext4_bcache_find_get lba bc of
        (Some b, bc') \<Rightarrow> (EOK, Some b, bc')
      | (None, bc') \<Rightarrow>
          case ext4_buf_alloc mem lba of None \<Rightarrow> (ENOMEM, None, bc')
          | Some buf \<Rightarrow>
              let bc1 = lba_insert buf bc';
                  bc2 = bc1\<lparr>bc_ref_blocks := bc_ref_blocks bc1 + 1\<rparr>;
                  bc3 = (if bc_max_ref_blocks bc2 < bc_ref_blocks bc2
                         then bc2\<lparr>bc_max_ref_blocks := bc_ref_blocks bc2\<rparr> else bc2);
                  bc4 = upd_buf lba (\<lambda>b. b\<lparr>bf_refctr := bf_refctr b + 1\<rparr>) bc3;
                  ctr = bc_lru_ctr bc4 + 1;
                  bc5 = upd_buf lba (\<lambda>b. b\<lparr>bf_lru_id := ctr\<rparr>) (bc4\<lparr>bc_lru_ctr := ctr\<rparr>)
              in (EOK, Some \<lparr>lb_id = lba, blk_buf = Some lba\<rparr>, bc5))"

definition ext4_bcache_is_full :: "ext4_bcache \<Rightarrow> bool" where
  "ext4_bcache_is_full bc \<longleftrightarrow> bc_cnt bc \<le> bc_ref_blocks bc"

section \<open>Lookup\<close>

named_theorems bc_lookup \<open>what a lookup returns after each primitive update\<close>

lemma lookup_SomeD: "ext4_buf_lookup bc lba = Some buf \<Longrightarrow> buf \<in> set (bc_lba_root bc) \<and> bf_lba buf = lba"
  by (auto simp: ext4_buf_lookup_def find_Some_iff)

lemma lookup_cong: "bc_lba_root bc = bc_lba_root bc' \<Longrightarrow> ext4_buf_lookup bc = ext4_buf_lookup bc'"
  by (simp add: ext4_buf_lookup_def fun_eq_iff)

lemma lookup_fields [simp]:
  "ext4_buf_lookup (bc\<lparr>bc_lru_ctr := a\<rparr>) = ext4_buf_lookup bc"
  "ext4_buf_lookup (bc\<lparr>bc_ref_blocks := b\<rparr>) = ext4_buf_lookup bc"
  "ext4_buf_lookup (bc\<lparr>bc_max_ref_blocks := c\<rparr>) = ext4_buf_lookup bc"
  "ext4_buf_lookup (bc\<lparr>bc_dont_shake := d\<rparr>) = ext4_buf_lookup bc"
  "ext4_buf_lookup (bc\<lparr>bc_io_err := e\<rparr>) = ext4_buf_lookup bc"
  "ext4_buf_lookup (bc\<lparr>bc_lru_root := f\<rparr>) = ext4_buf_lookup bc"
  "ext4_buf_lookup (bc\<lparr>bc_dirty_list := g\<rparr>) = ext4_buf_lookup bc"
  by (rule lookup_cong, simp)+

lemma find_map_key:
  "(\<And>b. bf_lba b = lba \<Longrightarrow> bf_lba (f b) = lba) \<Longrightarrow>
   find (\<lambda>b. bf_lba b = l) (map (\<lambda>b. if bf_lba b = lba then f b else b) bs) =
     (if l = lba then map_option f (find (\<lambda>b. bf_lba b = l) bs) else find (\<lambda>b. bf_lba b = l) bs)"
  by (induction bs) auto

lemma lookup_upd [bc_lookup]:
  "(\<And>b. bf_lba b = lba \<Longrightarrow> bf_lba (f b) = lba) \<Longrightarrow> ext4_buf_lookup (upd_buf lba f bc) l =
     (if l = lba then map_option f (ext4_buf_lookup bc l) else ext4_buf_lookup bc l)"
  by (simp add: ext4_buf_lookup_def upd_buf_def find_map_key)

lemma lookup_lru [simp]:
  "ext4_buf_lookup (lru_remove lba bc) = ext4_buf_lookup bc"
  "ext4_buf_lookup (lru_insert i lba bc) = ext4_buf_lookup bc"
  by (simp_all add: lru_remove_def lru_insert_def)

lemma find_insort:
  "bf_lba x \<notin> bf_lba ` set bs \<Longrightarrow> find (\<lambda>b. bf_lba b = l) (insort_key bf_lba x bs) =
     (if l = bf_lba x then Some x else find (\<lambda>b. bf_lba b = l) bs)"
  by (induction bs) auto

lemma lookup_None_iff: "ext4_buf_lookup bc l = None \<longleftrightarrow> l \<notin> bf_lba ` set (bc_lba_root bc)"
  by (auto simp: ext4_buf_lookup_def find_None_iff)

lemma lookup_lba_insert [bc_lookup]:
  "ext4_buf_lookup bc (bf_lba buf) = None \<Longrightarrow> ext4_buf_lookup (lba_insert buf bc) l =
     (if l = bf_lba buf then Some buf else ext4_buf_lookup bc l)"
  by (auto simp: lba_insert_def rb_insert_def ext4_buf_lookup_def find_insort find_None_iff)

lemma lookup_lba_remove [bc_lookup]:
  "ext4_buf_lookup (lba_remove lba bc) l = (if l = lba then None else ext4_buf_lookup bc l)"
proof -
  have "find (\<lambda>b. bf_lba b = l) (filter (\<lambda>b. bf_lba b \<noteq> lba) bs) =
      (if l = lba then None else find (\<lambda>b. bf_lba b = l) bs)" for bs
    by (induction bs) auto
  from this [of "bc_lba_root bc"] show ?thesis
    by (cases "l = lba") (simp_all add: ext4_buf_lookup_def lba_remove_def)
qed

lemma upd_fields [simp]:
  "bc_cnt (upd_buf lba f bc) = bc_cnt bc" "bc_itemsize (upd_buf lba f bc) = bc_itemsize bc"
  "bc_lru_ctr (upd_buf lba f bc) = bc_lru_ctr bc" "bc_ref_blocks (upd_buf lba f bc) = bc_ref_blocks bc"
  "bc_lru_root (upd_buf lba f bc) = bc_lru_root bc" "bc_dirty_list (upd_buf lba f bc) = bc_dirty_list bc"
  "bc_io_err (upd_buf lba f bc) = bc_io_err bc" "bc_dont_shake (upd_buf lba f bc) = bc_dont_shake bc"
  "length (bc_lba_root (upd_buf lba f bc)) = length (bc_lba_root bc)"
  by (simp_all add: upd_buf_def)

lemma map_lba_upd [simp]:
  "(\<And>b. bf_lba b = lba \<Longrightarrow> bf_lba (f b) = lba) \<Longrightarrow> map bf_lba (bc_lba_root (upd_buf lba f bc)) = map bf_lba (bc_lba_root bc)"
  by (auto simp: upd_buf_def)

subsection \<open>Flags\<close>

lemma test_flag_iff: "ext4_bcache_test_flag buf b \<longleftrightarrow> bit (bf_flags buf) (bc_bit b)"
proof -
  have lt: "bc_bit b < 32" by (cases b) simp_all
  have "bit (drop_bit (bc_bit b) (bf_flags buf AND push_bit (bc_bit b) 1)) n \<longleftrightarrow> n = 0 \<and> bit (bf_flags buf) (bc_bit b)" for n
    using lt by (auto simp: bit_simps)
  then show ?thesis unfolding ext4_bcache_test_flag_def by (metis bit_0_eq bot_apply bot_bool_def bit_eqI)
qed

lemma test_set_flag [simp]:
  "ext4_bcache_test_flag (ext4_bcache_set_flag b buf) b' \<longleftrightarrow> b = b' \<or> ext4_bcache_test_flag buf b'"
  unfolding test_flag_iff ext4_bcache_set_flag_def by (cases b; cases b') (auto simp: bit_simps)

lemma test_clear_flag [simp]:
  "ext4_bcache_test_flag (ext4_bcache_clear_flag b buf) b' \<longleftrightarrow> b \<noteq> b' \<and> ext4_bcache_test_flag buf b'"
  unfolding test_flag_iff ext4_bcache_clear_flag_def by (cases b; cases b') (auto simp: bit_simps)

lemma test_flag_fields [simp]:
  "ext4_bcache_test_flag (buf\<lparr>bf_data := d\<rparr>) b = ext4_bcache_test_flag buf b"
  "ext4_bcache_test_flag (buf\<lparr>bf_lru_id := i\<rparr>) b = ext4_bcache_test_flag buf b"
  "ext4_bcache_test_flag (buf\<lparr>bf_refctr := n\<rparr>) b = ext4_bcache_test_flag buf b"
  "ext4_bcache_test_flag (buf\<lparr>bf_on_dirty_list := v\<rparr>) b = ext4_bcache_test_flag buf b"
  "ext4_bcache_test_flag (buf\<lparr>bf_end_write := w\<rparr>) b = ext4_bcache_test_flag buf b"
  by (simp_all add: ext4_bcache_test_flag_def)

lemma flag_fields [simp]:
  "bf_lba (ext4_bcache_set_flag b buf) = bf_lba buf" "bf_lba (ext4_bcache_clear_flag b buf) = bf_lba buf"
  "bf_data (ext4_bcache_set_flag b buf) = bf_data buf" "bf_data (ext4_bcache_clear_flag b buf) = bf_data buf"
  "bf_lru_id (ext4_bcache_set_flag b buf) = bf_lru_id buf" "bf_lru_id (ext4_bcache_clear_flag b buf) = bf_lru_id buf"
  "bf_refctr (ext4_bcache_set_flag b buf) = bf_refctr buf" "bf_refctr (ext4_bcache_clear_flag b buf) = bf_refctr buf"
  "bf_on_dirty_list (ext4_bcache_set_flag b buf) = bf_on_dirty_list buf"
  "bf_on_dirty_list (ext4_bcache_clear_flag b buf) = bf_on_dirty_list buf"
  "bf_end_write (ext4_bcache_set_flag b buf) = bf_end_write buf"
  "bf_end_write (ext4_bcache_clear_flag b buf) = bf_end_write buf"
  by (simp_all add: ext4_bcache_set_flag_def ext4_bcache_clear_flag_def)

section \<open>The cache invariant\<close>

definition buf_wf :: "ext4_bcache \<Rightarrow> ext4_buf \<Rightarrow> bool" where
  "buf_wf bc b \<longleftrightarrow> length (bf_data b) = unat (bc_itemsize bc) \<and> bf_lru_id b \<le> bc_lru_ctr bc \<and>
     (bf_on_dirty_list b \<longrightarrow> ext4_bcache_test_flag b BC_DIRTY \<and> bf_refctr b = 0) \<and>
     (ext4_bcache_test_flag b BC_DIRTY \<longrightarrow> ext4_bcache_test_flag b BC_UPTODATE)"

text \<open>The LRU tree holds exactly the unreferenced buffers under their LRU ids, the dirty list exactly
  the buffers marked as being on it, and no two buffers share an address or an LRU id.\<close>

definition bc_wf :: "ext4_bcache \<Rightarrow> bool" where
  "bc_wf bc \<longleftrightarrow> sorted_wrt (<) (map bf_lba (bc_lba_root bc)) \<and>
     sorted_wrt (<) (map fst (bc_lru_root bc)) \<and> distinct (bc_dirty_list bc) \<and>
     (\<forall>i l. (i, l) \<in> set (bc_lru_root bc) \<longleftrightarrow>
        (\<exists>b. ext4_buf_lookup bc l = Some b \<and> bf_refctr b = 0 \<and> bf_lru_id b = i)) \<and>
     (\<forall>l. l \<in> set (bc_dirty_list bc) \<longleftrightarrow> (\<exists>b. ext4_buf_lookup bc l = Some b \<and> bf_on_dirty_list b)) \<and>
     (\<forall>l b. ext4_buf_lookup bc l = Some b \<longrightarrow> buf_wf bc b) \<and>
     (\<forall>l l' b b'. ext4_buf_lookup bc l = Some b \<and> ext4_buf_lookup bc l' = Some b' \<and>
        bf_lru_id b = bf_lru_id b' \<longrightarrow> l = l') \<and>
     unat (bc_ref_blocks bc) = length (bc_lba_root bc)"

lemma bc_wfI:
  assumes "sorted_wrt (<) (map bf_lba (bc_lba_root bc))"
    and "sorted_wrt (<) (map fst (bc_lru_root bc))" "distinct (bc_dirty_list bc)"
    and "\<And>i l. (i, l) \<in> set (bc_lru_root bc) \<longleftrightarrow>
        (\<exists>b. ext4_buf_lookup bc l = Some b \<and> bf_refctr b = 0 \<and> bf_lru_id b = i)"
    and "\<And>l. l \<in> set (bc_dirty_list bc) \<longleftrightarrow> (\<exists>b. ext4_buf_lookup bc l = Some b \<and> bf_on_dirty_list b)"
    and "\<And>l b. ext4_buf_lookup bc l = Some b \<Longrightarrow> buf_wf bc b"
    and "\<And>l l' b b'. ext4_buf_lookup bc l = Some b \<Longrightarrow> ext4_buf_lookup bc l' = Some b' \<Longrightarrow>
        bf_lru_id b = bf_lru_id b' \<Longrightarrow> l = l'"
    and "unat (bc_ref_blocks bc) = length (bc_lba_root bc)"
  shows "bc_wf bc"
  unfolding bc_wf_def using assms by (intro conjI) blast+

lemma bc_wfD:
  assumes "bc_wf bc"
  shows "sorted_wrt (<) (map bf_lba (bc_lba_root bc))"
    and "sorted_wrt (<) (map fst (bc_lru_root bc))" "distinct (bc_dirty_list bc)"
    and "(i, l) \<in> set (bc_lru_root bc) \<longleftrightarrow>
        (\<exists>b. ext4_buf_lookup bc l = Some b \<and> bf_refctr b = 0 \<and> bf_lru_id b = i)"
    and "l \<in> set (bc_dirty_list bc) \<longleftrightarrow> (\<exists>b. ext4_buf_lookup bc l = Some b \<and> bf_on_dirty_list b)"
    and "ext4_buf_lookup bc l = Some b \<Longrightarrow> buf_wf bc b"
    and "ext4_buf_lookup bc l = Some b \<Longrightarrow> ext4_buf_lookup bc l' = Some b' \<Longrightarrow>
        bf_lru_id b = bf_lru_id b' \<Longrightarrow> l = l'"
    and "unat (bc_ref_blocks bc) = length (bc_lba_root bc)"
  using assms unfolding bc_wf_def by blast+

lemma wf_upd:
  assumes wf: "bc_wf bc"
    and f: "\<And>b. bf_lba b = lba \<Longrightarrow> bf_lba (f b) = lba"
    and upd: "\<And>b. ext4_buf_lookup bc lba = Some b \<Longrightarrow> bf_refctr (f b) = bf_refctr b \<and>
      bf_lru_id (f b) = bf_lru_id b \<and> bf_on_dirty_list (f b) = bf_on_dirty_list b \<and> buf_wf bc (f b)"
  shows "bc_wf (upd_buf lba f bc)"
proof (rule bc_wfI)
  let ?bc = "upd_buf lba f bc"
  note look = lookup_upd [OF f]
  have cases: "\<exists>b0. ext4_buf_lookup bc l = Some b0 \<and> (b = b0 \<or> l = lba \<and> b = f b0)"
    if "ext4_buf_lookup ?bc l = Some b" for l b
    using that by (auto simp: look split: if_splits)
  show "(i, l) \<in> set (bc_lru_root ?bc) \<longleftrightarrow>
      (\<exists>b. ext4_buf_lookup ?bc l = Some b \<and> bf_refctr b = 0 \<and> bf_lru_id b = i)" for i l
    using bc_wfD(4) [OF wf, of i l] upd by (auto simp: look)
  show "l \<in> set (bc_dirty_list ?bc) \<longleftrightarrow> (\<exists>b. ext4_buf_lookup ?bc l = Some b \<and> bf_on_dirty_list b)" for l
    using bc_wfD(5) [OF wf, of l] upd by (auto simp: look)
  show "buf_wf ?bc b" if "ext4_buf_lookup ?bc l = Some b" for l b
    using cases [OF that] upd bc_wfD(6) [OF wf] by (auto simp: buf_wf_def)
  show "l = l'" if "ext4_buf_lookup ?bc l = Some b" "ext4_buf_lookup ?bc l' = Some b'"
    "bf_lru_id b = bf_lru_id b'" for l l' b b'
    using cases [OF that(1)] cases [OF that(2)] that(3) upd bc_wfD(7) [OF wf] by metis
qed (use bc_wfD [OF wf] f in simp_all)

lemma remove_dirty_eq:
  assumes "sorted_wrt (<) (map bf_lba (bc_lba_root bc))"
    and "lba \<in> set (bc_dirty_list bc) \<longleftrightarrow> (\<exists>b. ext4_buf_lookup bc lba = Some b \<and> bf_on_dirty_list b)"
  shows "ext4_bcache_remove_dirty_node lba bc =
    upd_buf lba (\<lambda>b. b\<lparr>bf_on_dirty_list := False\<rparr>) (bc\<lparr>bc_dirty_list := remove1 lba (bc_dirty_list bc)\<rparr>)"
proof (cases "ext4_buf_lookup bc lba")
  case None
  then have "lba \<notin> set (bc_dirty_list bc)" using assms(2) by simp
  have "lba \<notin> bf_lba ` set (bc_lba_root bc)"
    using None by (simp only: lookup_None_iff not_False_eq_True)
  then have "map (\<lambda>b. if bf_lba b = lba then b\<lparr>bf_on_dirty_list := False\<rparr> else b) (bc_lba_root bc) = bc_lba_root bc"
    by (intro map_idI) auto
  with None \<open>lba \<notin> set (bc_dirty_list bc)\<close> show ?thesis
    by (simp add: ext4_bcache_remove_dirty_node_def upd_buf_def remove1_idem)
next
  case (Some buf)
  show ?thesis
  proof (cases "bf_on_dirty_list buf")
    case False
    with Some have nd: "lba \<notin> set (bc_dirty_list bc)" using assms(2) by simp
    have "distinct (map bf_lba (bc_lba_root bc))"
      using assms(1) by (simp add: strict_sorted_iff)
    with Some have "b = buf" if "b \<in> set (bc_lba_root bc)" "bf_lba b = lba" for b
      using that lookup_SomeD [OF Some] by (auto simp: distinct_map dest: inj_onD)
    with False have "map (\<lambda>b. if bf_lba b = lba then b\<lparr>bf_on_dirty_list := False\<rparr> else b) (bc_lba_root bc) = bc_lba_root bc"
      by (intro map_idI) auto
    with Some False nd show ?thesis
      by (simp add: ext4_bcache_remove_dirty_node_def upd_buf_def remove1_idem)
  qed (simp add: ext4_bcache_remove_dirty_node_def Some)
qed

lemma wf_remove_dirty:
  assumes wf: "bc_wf bc"
  shows "bc_wf (ext4_bcache_remove_dirty_node lba bc)"
  unfolding remove_dirty_eq [OF bc_wfD(1,5) [OF wf]]
proof (rule bc_wfI)
  let ?f = "\<lambda>b. b\<lparr>bf_on_dirty_list := False\<rparr>"
  let ?bc = "upd_buf lba ?f (bc\<lparr>bc_dirty_list := remove1 lba (bc_dirty_list bc)\<rparr>)"
  have look: "ext4_buf_lookup ?bc l = (if l = lba then map_option ?f (ext4_buf_lookup bc l) else ext4_buf_lookup bc l)" for l
    by (subst lookup_upd) simp_all
  have cases: "\<exists>b0. ext4_buf_lookup bc l = Some b0 \<and> (b = b0 \<or> b = ?f b0)"
    if "ext4_buf_lookup ?bc l = Some b" for l b
    using that by (auto simp: look split: if_splits)
  show "(i, l) \<in> set (bc_lru_root ?bc) \<longleftrightarrow>
      (\<exists>b. ext4_buf_lookup ?bc l = Some b \<and> bf_refctr b = 0 \<and> bf_lru_id b = i)" for i l
    using bc_wfD(4) [OF wf, of i l] by (auto simp: look)
  show "l \<in> set (bc_dirty_list ?bc) \<longleftrightarrow> (\<exists>b. ext4_buf_lookup ?bc l = Some b \<and> bf_on_dirty_list b)" for l
    using bc_wfD(5) [OF wf, of l] bc_wfD(3) [OF wf] by (auto simp: look)
  show "buf_wf ?bc b" if "ext4_buf_lookup ?bc l = Some b" for l b
    using cases [OF that] bc_wfD(6) [OF wf] by (fastforce simp: buf_wf_def)
  show "l = l'" if "ext4_buf_lookup ?bc l = Some b" "ext4_buf_lookup ?bc l' = Some b'"
    "bf_lru_id b = bf_lru_id b'" for l l' b b'
    using cases [OF that(1)] cases [OF that(2)] that(3) bc_wfD(7) [OF wf] by auto
  show "sorted_wrt (<) (map bf_lba (bc_lba_root ?bc))"
    using bc_wfD(1) [OF wf] by (subst map_lba_upd) simp_all
qed (use bc_wfD [OF wf] in simp_all)

lemma wf_insert_dirty:
  assumes wf: "bc_wf bc"
    and buf: "ext4_buf_lookup bc lba = Some buf" "ext4_bcache_test_flag buf BC_DIRTY" "bf_refctr buf = 0"
  shows "bc_wf (ext4_bcache_insert_dirty_node lba bc)"
proof (cases "bf_on_dirty_list buf")
  case False
  let ?f = "\<lambda>b. b\<lparr>bf_on_dirty_list := True\<rparr>"
  let ?bc = "upd_buf lba ?f (bc\<lparr>bc_dirty_list := lba # bc_dirty_list bc\<rparr>)"
  have look: "ext4_buf_lookup ?bc l = (if l = lba then Some (?f buf) else ext4_buf_lookup bc l)" for l
    by (subst lookup_upd) (simp_all add: buf)
  have cases: "\<exists>b0. ext4_buf_lookup bc l = Some b0 \<and> (b = b0 \<or> b0 = buf \<and> b = ?f b0)"
    if "ext4_buf_lookup ?bc l = Some b" for l b
    using that buf by (auto simp: look split: if_splits)
  have "bc_wf ?bc"
  proof (rule bc_wfI)
    show "(i, l) \<in> set (bc_lru_root ?bc) \<longleftrightarrow>
        (\<exists>b. ext4_buf_lookup ?bc l = Some b \<and> bf_refctr b = 0 \<and> bf_lru_id b = i)" for i l
      using bc_wfD(4) [OF wf, of i l] buf by (auto simp: look)
    show "l \<in> set (bc_dirty_list ?bc) \<longleftrightarrow> (\<exists>b. ext4_buf_lookup ?bc l = Some b \<and> bf_on_dirty_list b)" for l
      using bc_wfD(5) [OF wf, of l] by (auto simp: look)
    show "buf_wf ?bc b" if "ext4_buf_lookup ?bc l = Some b" for l b
      using cases [OF that] bc_wfD(6) [OF wf] buf by (auto simp: buf_wf_def)
    show "l = l'" if "ext4_buf_lookup ?bc l = Some b" "ext4_buf_lookup ?bc l' = Some b'"
      "bf_lru_id b = bf_lru_id b'" for l l' b b'
      using cases [OF that(1)] cases [OF that(2)] that(3) bc_wfD(7) [OF wf] by auto
    show "sorted_wrt (<) (map bf_lba (bc_lba_root ?bc))"
      using bc_wfD(1) [OF wf] by (subst map_lba_upd) simp_all
    show "distinct (bc_dirty_list ?bc)"
      using bc_wfD(3) [OF wf] bc_wfD(5) [OF wf, of lba] buf False by simp
  qed (use bc_wfD [OF wf] in simp_all)
  then show ?thesis by (simp add: ext4_bcache_insert_dirty_node_def buf False)
qed (simp add: ext4_bcache_insert_dirty_node_def buf wf)

lemma lru_remove_fields [simp]:
  "bc_lba_root (lru_remove lba bc) = bc_lba_root bc" "bc_dirty_list (lru_remove lba bc) = bc_dirty_list bc"
  "bc_itemsize (lru_remove lba bc) = bc_itemsize bc" "bc_lru_ctr (lru_remove lba bc) = bc_lru_ctr bc"
  "bc_ref_blocks (lru_remove lba bc) = bc_ref_blocks bc" "bc_cnt (lru_remove lba bc) = bc_cnt bc"
  "bc_io_err (lru_remove lba bc) = bc_io_err bc"
  by (simp_all add: lru_remove_def)

lemma lba_insert_fields [simp]:
  "bc_lru_root (lba_insert b bc) = bc_lru_root bc" "bc_dirty_list (lba_insert b bc) = bc_dirty_list bc"
  "bc_itemsize (lba_insert b bc) = bc_itemsize bc" "bc_lru_ctr (lba_insert b bc) = bc_lru_ctr bc"
  "bc_ref_blocks (lba_insert b bc) = bc_ref_blocks bc" "bc_io_err (lba_insert b bc) = bc_io_err bc"
  by (simp_all add: lba_insert_def)

lemma sorted_wrt_filter_map: "sorted_wrt P (map f xs) \<Longrightarrow> sorted_wrt P (map f (filter Q xs))"
  by (induction xs) auto

text \<open>Taking a reference: what \<^verbatim>\<open>ext4_bcache_find_get\<close> does to a cached buffer.\<close>

definition got_buf :: "ext4_bcache \<Rightarrow> ext4_buf \<Rightarrow> ext4_buf" where
  "got_buf bc b = (if bf_refctr b = 0
     then b\<lparr>bf_lru_id := bc_lru_ctr bc + 1, bf_on_dirty_list := False, bf_refctr := 1\<rparr>
     else b\<lparr>bf_refctr := bf_refctr b + 1\<rparr>)"

lemma find_get_eq:
  assumes wf: "bc_wf bc" and buf: "ext4_buf_lookup bc lba = Some buf"
  shows "\<exists>bc'. ext4_bcache_find_get lba bc = (Some \<lparr>lb_id = lba, blk_buf = Some lba\<rparr>, bc') \<and>
    (\<forall>l. ext4_buf_lookup bc' l = (if l = lba then Some (got_buf bc buf) else ext4_buf_lookup bc l)) \<and>
    bc' = upd_buf lba (\<lambda>_. got_buf bc buf) (bc\<lparr>bc_lru_root := filter (\<lambda>e. snd e \<noteq> lba) (bc_lru_root bc),
      bc_dirty_list := remove1 lba (bc_dirty_list bc),
      bc_lru_ctr := (if bf_refctr buf = 0 then bc_lru_ctr bc + 1 else bc_lru_ctr bc)\<rparr>)"
proof -
  have uniq: "b = buf" if "b \<in> set (bc_lba_root bc)" "bf_lba b = lba" for b
  proof -
    have "distinct (map bf_lba (bc_lba_root bc))"
      using bc_wfD(1) [OF wf] by (simp add: strict_sorted_iff)
    with that lookup_SomeD [OF buf] show ?thesis by (auto simp: distinct_map dest: inj_onD)
  qed
  have lba: "bf_lba buf = lba" "bf_lba (got_buf bc buf) = lba"
    using lookup_SomeD [OF buf] by (simp_all add: got_buf_def)
  let ?bc = "upd_buf lba (\<lambda>_. got_buf bc buf) (bc\<lparr>bc_lru_root := filter (\<lambda>e. snd e \<noteq> lba) (bc_lru_root bc),
      bc_dirty_list := remove1 lba (bc_dirty_list bc),
      bc_lru_ctr := (if bf_refctr buf = 0 then bc_lru_ctr bc + 1 else bc_lru_ctr bc)\<rparr>)"
  have "ext4_buf_lookup ?bc l = (if l = lba then Some (got_buf bc buf) else ext4_buf_lookup bc l)" for l
    by (subst lookup_upd) (simp_all add: lba buf)
  moreover have "ext4_bcache_find_get lba bc = (Some \<lparr>lb_id = lba, blk_buf = Some lba\<rparr>, ?bc)"
  proof (cases "bf_refctr buf = 0")
    case True
    define bc1 where "bc1 = lru_remove lba (upd_buf lba (\<lambda>b. b\<lparr>bf_lru_id := bc_lru_ctr bc + 1\<rparr>)
      (bc\<lparr>bc_lru_ctr := bc_lru_ctr bc + 1\<rparr>))"
    have rd: "ext4_bcache_remove_dirty_node lba bc1 = upd_buf lba (\<lambda>b. b\<lparr>bf_on_dirty_list := False\<rparr>)
        (bc1\<lparr>bc_dirty_list := remove1 lba (bc_dirty_list bc1)\<rparr>)"
      using bc_wfD(1) [OF wf] bc_wfD(5) [OF wf, of lba]
      by (intro remove_dirty_eq) (auto simp: bc1_def bc_lookup comp_def)
    have nd: "\<not> ext4_bcache_test_flag buf BC_DIRTY \<Longrightarrow> \<not> bf_on_dirty_list buf \<and> lba \<notin> set (bc_dirty_list bc)"
      using bc_wfD(5) [OF wf, of lba] bc_wfD(6) [OF wf buf] buf by (auto simp: buf_wf_def)
    show ?thesis
      using True nd unfolding ext4_bcache_find_get_def buf option.case Let_def bc1_def [symmetric]
      by (auto simp: rd)
        (auto simp: bc1_def upd_buf_def lru_remove_def got_buf_def remove1_idem
          intro!: ext4_bcache.equality ext4_buf.equality dest!: uniq [OF _ sym])
  next
    case False
    then have "\<not> bf_on_dirty_list buf" using bc_wfD(6) [OF wf buf] by (auto simp: buf_wf_def)
    then have nd: "lba \<notin> set (bc_dirty_list bc)" using bc_wfD(5) [OF wf, of lba] buf by auto
    have "filter (\<lambda>e. snd e \<noteq> lba) (bc_lru_root bc) = bc_lru_root bc"
      using bc_wfD(4) [OF wf, of _ lba] buf False by (intro filter_True) auto
    with False nd show ?thesis
      by (auto simp: ext4_bcache_find_get_def buf upd_buf_def got_buf_def remove1_idem
          intro!: ext4_bcache.equality dest!: uniq [OF _ sym])
  qed
  ultimately show ?thesis by blast
qed

lemma wf_replace:
  assumes wf: "bc_wf bc" and buf: "ext4_buf_lookup bc lba = Some buf" and lba: "bf_lba nb = lba"
    and L: "sorted_wrt (<) (map fst L)"
      "\<And>i l. (i, l) \<in> set L \<longleftrightarrow> (if l = lba then bf_refctr nb = 0 \<and> bf_lru_id nb = i else (i, l) \<in> set (bc_lru_root bc))"
    and D: "distinct D" "\<And>l. l \<in> set D \<longleftrightarrow> (if l = lba then bf_on_dirty_list nb else l \<in> set (bc_dirty_list bc))"
    and c: "bc_lru_ctr bc \<le> c" and nb: "buf_wf (bc\<lparr>bc_lru_ctr := c\<rparr>) nb"
    and fresh: "\<And>l b. ext4_buf_lookup bc l = Some b \<Longrightarrow> l \<noteq> lba \<Longrightarrow> bf_lru_id b \<noteq> bf_lru_id nb"
  shows "bc_wf (upd_buf lba (\<lambda>_. nb) (bc\<lparr>bc_lru_root := L, bc_dirty_list := D, bc_lru_ctr := c\<rparr>))"
proof (rule bc_wfI)
  let ?bc = "upd_buf lba (\<lambda>_. nb) (bc\<lparr>bc_lru_root := L, bc_dirty_list := D, bc_lru_ctr := c\<rparr>)"
  have look: "ext4_buf_lookup ?bc l = (if l = lba then Some nb else ext4_buf_lookup bc l)" for l
    by (subst lookup_upd) (simp_all add: lba buf)
  show "(i, l) \<in> set (bc_lru_root ?bc) \<longleftrightarrow>
      (\<exists>b. ext4_buf_lookup ?bc l = Some b \<and> bf_refctr b = 0 \<and> bf_lru_id b = i)" for i l
    using L(2) [of i l] bc_wfD(4) [OF wf, of i l] by (auto simp: look)
  show "l \<in> set (bc_dirty_list ?bc) \<longleftrightarrow> (\<exists>b. ext4_buf_lookup ?bc l = Some b \<and> bf_on_dirty_list b)" for l
    using D(2) [of l] bc_wfD(5) [OF wf, of l] by (auto simp: look)
  show "buf_wf ?bc b" if "ext4_buf_lookup ?bc l = Some b" for l b
    using that bc_wfD(6) [OF wf, of l b] nb c by (auto simp: look buf_wf_def split: if_splits)
  show "l = l'" if "ext4_buf_lookup ?bc l = Some b" "ext4_buf_lookup ?bc l' = Some b'"
    "bf_lru_id b = bf_lru_id b'" for l l' b b'
    using that fresh [of l b] fresh [of l' b'] bc_wfD(7) [OF wf, of l b l' b'] by (auto simp: look split: if_splits)
  show "sorted_wrt (<) (map bf_lba (bc_lba_root ?bc))"
    using bc_wfD(1) [OF wf] by (subst map_lba_upd) (simp_all add: lba)
qed (use bc_wfD(8) [OF wf] L(1) D(1) in simp_all)

lemma distinct_map_insort:
  "distinct (map f (insort_key f x xs)) \<longleftrightarrow> f x \<notin> f ` set xs \<and> distinct (map f xs)"
  by (induction xs) (auto simp: set_insort_key)

lemma word_less_Suc: "(x :: 'a::len word) \<noteq> - 1 \<Longrightarrow> x < x + 1"
proof -
  assume "x \<noteq> - 1"
  then have "unat x \<noteq> unat (- 1 :: 'a word)" unfolding word_unat_eq_iff by blast
  then have "unat x \<noteq> 2 ^ LENGTH('a) - 1" by (simp add: unsigned_minus_1_eq_mask mask_eq_exp_minus_1)
  moreover have "unat x < 2 ^ LENGTH('a)" by (rule unsigned_less)
  ultimately have "unat x + 1 < 2 ^ LENGTH('a)" by linarith
  then show ?thesis by (simp add: word_less_nat_alt unat_Suc_word)
qed

lemma wf_find_get:
  assumes wf: "bc_wf bc" and buf: "ext4_buf_lookup bc lba = Some buf"
    and ctr: "bc_lru_ctr bc \<noteq> - 1" and ref: "bf_refctr buf \<noteq> - 1"
  shows "bc_wf (snd (ext4_bcache_find_get lba bc))"
proof -
  let ?L = "filter (\<lambda>e. snd e \<noteq> lba) (bc_lru_root bc)" and ?D = "remove1 lba (bc_dirty_list bc)"
  let ?c = "if bf_refctr buf = 0 then bc_lru_ctr bc + 1 else bc_lru_ctr bc"
  have up: "bc_lru_ctr bc < bc_lru_ctr bc + 1" by (rule word_less_Suc [OF ctr])
  have r0: "bf_refctr (got_buf bc buf) \<noteq> 0"
    using ref word_less_Suc [OF ref] by (auto simp: got_buf_def)
  note bw = bc_wfD(6) [OF wf]
  have "bc_wf (upd_buf lba (\<lambda>_. got_buf bc buf) (bc\<lparr>bc_lru_root := ?L, bc_dirty_list := ?D, bc_lru_ctr := ?c\<rparr>))"
  proof (rule wf_replace [OF wf buf])
    show "bf_lba (got_buf bc buf) = lba" using lookup_SomeD [OF buf] by (simp add: got_buf_def)
    show "sorted_wrt (<) (map fst ?L)" by (rule sorted_wrt_filter_map [OF bc_wfD(2) [OF wf]])
    show "(i, l) \<in> set ?L \<longleftrightarrow> (if l = lba then bf_refctr (got_buf bc buf) = 0 \<and> bf_lru_id (got_buf bc buf) = i
        else (i, l) \<in> set (bc_lru_root bc))" for i l using r0 by auto
    have nd: "\<not> bf_on_dirty_list (got_buf bc buf)" using bw [OF buf] by (auto simp: got_buf_def buf_wf_def)
    then show "l \<in> set ?D \<longleftrightarrow> (if l = lba then bf_on_dirty_list (got_buf bc buf) else l \<in> set (bc_dirty_list bc))" for l
      using bc_wfD(3) [OF wf] by auto
    show "buf_wf (bc\<lparr>bc_lru_ctr := ?c\<rparr>) (got_buf bc buf)"
      using bw [OF buf] nd up by (auto simp: got_buf_def buf_wf_def)
    show "bf_lru_id b \<noteq> bf_lru_id (got_buf bc buf)" if "ext4_buf_lookup bc l = Some b" "l \<noteq> lba" for l b
      using bw [OF that(1)] that bc_wfD(7) [OF wf that(1) buf] up by (auto simp: got_buf_def buf_wf_def)
  qed (use bc_wfD(3) [OF wf] up in auto)
  with find_get_eq [OF wf buf] show ?thesis by auto
qed

lemma wf_alloc_new:
  assumes wf: "bc_wf bc" and new: "ext4_buf_lookup bc lba = None"
    and ctr: "bc_lru_ctr bc \<noteq> - 1" and room: "bc_ref_blocks bc \<noteq> - 1"
    and data: "length data = unat (bc_itemsize bc)"
  shows "\<exists>bc'. ext4_bcache_alloc (Some data) lba bc = (EOK, Some \<lparr>lb_id = lba, blk_buf = Some lba\<rparr>, bc') \<and> bc_wf bc' \<and>
    (\<forall>l. ext4_buf_lookup bc' l = (if l = lba then Some \<lparr>bf_flags = 0, bf_lba = lba, bf_data = data,
       bf_lru_id = bc_lru_ctr bc + 1, bf_refctr = 1, bf_on_dirty_list = False, bf_end_write = None\<rparr>
       else ext4_buf_lookup bc l)) \<and>
    bc_itemsize bc' = bc_itemsize bc \<and> bc_io_err bc' = bc_io_err bc"
proof -
  obtain r bo bc' where al: "ext4_bcache_alloc (Some data) lba bc = (r, bo, bc')" by (metis prod_cases3)
  define nb0 where "nb0 = \<lparr>bf_flags = 0, bf_lba = lba, bf_data = data, bf_lru_id = 0, bf_refctr = 0,
    bf_on_dirty_list = False, bf_end_write = None\<rparr>"
  let ?nb = "\<lparr>bf_flags = 0, bf_lba = lba, bf_data = data, bf_lru_id = bc_lru_ctr bc + 1, bf_refctr = 1,
    bf_on_dirty_list = False, bf_end_write = None\<rparr>"
  have none: "ext4_bcache_find_get lba bc = (None, bc)" by (simp add: ext4_bcache_find_get_def new)
  have fields: "bc_lru_root bc' = bc_lru_root bc" "bc_dirty_list bc' = bc_dirty_list bc"
    "bc_itemsize bc' = bc_itemsize bc" "bc_lru_ctr bc' = bc_lru_ctr bc + 1"
    "bc_ref_blocks bc' = bc_ref_blocks bc + 1" "bc_io_err bc' = bc_io_err bc"
    "r = EOK" "bo = Some \<lparr>lb_id = lba, blk_buf = Some lba\<rparr>"
    using al by (auto simp: ext4_bcache_alloc_def none ext4_buf_alloc_def Let_def lba_insert_def)
  have nin: "lba \<notin> bf_lba ` set (bc_lba_root bc)" using new lookup_None_iff by blast
  have lbas: "map bf_lba (bc_lba_root bc') = map bf_lba (insort_key bf_lba nb0 (bc_lba_root bc))"
    using al nin by (auto simp: ext4_bcache_alloc_def none ext4_buf_alloc_def Let_def lba_insert_def
        rb_insert_def nb0_def comp_def upd_buf_def)
  have look: "ext4_buf_lookup bc' l = (if l = lba then Some ?nb else ext4_buf_lookup bc l)" for l
    using al by (auto simp: ext4_bcache_alloc_def none ext4_buf_alloc_def Let_def bc_lookup new)
  have up: "bc_lru_ctr bc < bc_lru_ctr bc + 1" by (rule word_less_Suc [OF ctr])
  note bw = bc_wfD(6) [OF wf]
  have fresh: "bf_lru_id b \<noteq> bc_lru_ctr bc + 1" if "ext4_buf_lookup bc l = Some b" for l b
    using bw [OF that] up by (auto simp: buf_wf_def)
  have flags: "\<not> ext4_bcache_test_flag ?nb b" for b by (simp add: test_flag_iff)
  have "bc_wf bc'"
  proof (rule bc_wfI)
    have "sorted (map bf_lba (insort_key bf_lba nb0 (bc_lba_root bc)))"
      using bc_wfD(1) [OF wf] by (simp add: sorted_insort_key strict_sorted_iff)
    moreover have "distinct (map bf_lba (insort_key bf_lba nb0 (bc_lba_root bc)))"
      using bc_wfD(1) [OF wf] nin by (simp add: strict_sorted_iff distinct_map_insort nb0_def)
    ultimately show "sorted_wrt (<) (map bf_lba (bc_lba_root bc'))"
      unfolding lbas by (simp add: strict_sorted_iff)
    have "length (bc_lba_root bc') = length (bc_lba_root bc) + 1"
      using arg_cong [OF lbas, of length] by simp
    moreover have "unat (bc_ref_blocks bc + 1) = unat (bc_ref_blocks bc) + 1"
      using word_less_Suc [OF room] by (rule unat_Suc_less_word)
    ultimately show "unat (bc_ref_blocks bc') = length (bc_lba_root bc')"
      using bc_wfD(8) [OF wf] fields by simp
    show "(i, l) \<in> set (bc_lru_root bc') \<longleftrightarrow>
        (\<exists>b. ext4_buf_lookup bc' l = Some b \<and> bf_refctr b = 0 \<and> bf_lru_id b = i)" for i l
      using bc_wfD(4) [OF wf, of i l] new by (auto simp: look fields)
    show "l \<in> set (bc_dirty_list bc') \<longleftrightarrow> (\<exists>b. ext4_buf_lookup bc' l = Some b \<and> bf_on_dirty_list b)" for l
      using bc_wfD(5) [OF wf, of l] new by (auto simp: look fields)
    show "buf_wf bc' b" if "ext4_buf_lookup bc' l = Some b" for l b
      using that bw [of l b] up data flags by (auto simp: look buf_wf_def fields split: if_splits)
    show "l = l'" if "ext4_buf_lookup bc' l = Some b" "ext4_buf_lookup bc' l' = Some b'"
      "bf_lru_id b = bf_lru_id b'" for l l' b b'
      using that fresh [of l b] fresh [of l' b'] bc_wfD(7) [OF wf, of l b l' b']
      by (cases "l = lba"; cases "l' = lba") (auto simp: look)
  qed (use bc_wfD(2,3) [OF wf] fields in simp_all)
  show ?thesis
  proof (intro exI conjI allI)
    show "ext4_bcache_alloc (Some data) lba bc = (EOK, Some \<lparr>lb_id = lba, blk_buf = Some lba\<rparr>, bc')"
      unfolding al fields(7,8) by (rule refl)
  qed (fact \<open>bc_wf bc'\<close>, rule look, (rule fields)+)
qed

text \<open>Giving a reference back.\<close>

definition dec_ref :: "u64 \<Rightarrow> ext4_buf \<Rightarrow> ext4_bcache \<Rightarrow> ext4_bcache" where
  "dec_ref lba buf bc = (let nb = buf\<lparr>bf_refctr := bf_refctr buf - 1\<rparr>; bc' = upd_buf lba (\<lambda>_. nb) bc
     in if bf_refctr nb = 0 then lru_insert (bf_lru_id nb) lba bc' else bc')"

lemma strict_sorted_insort:
  "sorted_wrt (<) (map f xs) \<Longrightarrow> f x \<notin> f ` set xs \<Longrightarrow> sorted_wrt (<) (map f (insort_key f x xs))"
  by (auto simp: strict_sorted_iff sorted_insort_key distinct_map_insort)

lemma wf_dec_ref:
  assumes wf: "bc_wf bc" and buf: "ext4_buf_lookup bc lba = Some buf" and ref: "bf_refctr buf \<noteq> 0"
  shows "bc_wf (dec_ref lba buf bc)"
proof -
  let ?nb = "buf\<lparr>bf_refctr := bf_refctr buf - 1\<rparr>"
  define L where "L = (if bf_refctr ?nb = 0 then rb_insert fst (bf_lru_id buf, lba) (bc_lru_root bc) else bc_lru_root bc)"
  have eq: "dec_ref lba buf bc = upd_buf lba (\<lambda>_. ?nb) (bc\<lparr>bc_lru_root := L, bc_dirty_list := bc_dirty_list bc,
      bc_lru_ctr := bc_lru_ctr bc\<rparr>)"
    by (auto simp: dec_ref_def L_def Let_def lru_insert_def upd_buf_def)
  note bw = bc_wfD(6) [OF wf buf]
  have notin: "bf_lru_id buf \<notin> fst ` set (bc_lru_root bc)"
  proof
    assume "bf_lru_id buf \<in> fst ` set (bc_lru_root bc)"
    then obtain l where "(bf_lru_id buf, l) \<in> set (bc_lru_root bc)" by auto
    then obtain b where b: "ext4_buf_lookup bc l = Some b" "bf_refctr b = 0" "bf_lru_id b = bf_lru_id buf"
      using bc_wfD(4) [OF wf] by blast
    with bc_wfD(7) [OF wf b(1) buf] buf ref show False by simp
  qed
  have notl: "(i, lba) \<notin> set (bc_lru_root bc)" for i using bc_wfD(4) [OF wf, of i lba] buf ref by auto
  show ?thesis
    unfolding eq
  proof (rule wf_replace [OF wf buf])
    show "bf_lba ?nb = lba" using lookup_SomeD [OF buf] by simp
    show "sorted_wrt (<) (map fst L)"
      using bc_wfD(2) [OF wf] notin by (simp add: L_def rb_insert_def strict_sorted_insort)
    show "(i, l) \<in> set L \<longleftrightarrow> (if l = lba then bf_refctr ?nb = 0 \<and> bf_lru_id ?nb = i else (i, l) \<in> set (bc_lru_root bc))" for i l
      using notl notin by (auto simp: L_def rb_insert_def set_insort_key)
    show "l \<in> set (bc_dirty_list bc) \<longleftrightarrow> (if l = lba then bf_on_dirty_list ?nb else l \<in> set (bc_dirty_list bc))" for l
      using bc_wfD(5) [OF wf, of lba] buf by auto
    show "buf_wf (bc\<lparr>bc_lru_ctr := bc_lru_ctr bc\<rparr>) ?nb" using bw ref by (auto simp: buf_wf_def)
    show "bf_lru_id b \<noteq> bf_lru_id ?nb" if "ext4_buf_lookup bc l = Some b" "l \<noteq> lba" for l b
      using bc_wfD(7) [OF wf that(1) buf] that(2) by auto
  qed (use bc_wfD(3) [OF wf] in simp_all)
qed

lemma lookup_dec_ref:
  "ext4_buf_lookup bc lba = Some buf \<Longrightarrow> ext4_buf_lookup (dec_ref lba buf bc) l =
     (if l = lba then Some (buf\<lparr>bf_refctr := bf_refctr buf - 1\<rparr>) else ext4_buf_lookup bc l)"
  using lookup_SomeD [of bc lba buf] by (auto simp: dec_ref_def Let_def bc_lookup)

text \<open>Dropping a buffer.\<close>

lemma lookup_remove_dirty:
  "ext4_buf_lookup (ext4_bcache_remove_dirty_node lba bc) l = (if l = lba
     then map_option (\<lambda>b. b\<lparr>bf_on_dirty_list := False\<rparr>) (ext4_buf_lookup bc l) else ext4_buf_lookup bc l)"
  by (auto simp: ext4_bcache_remove_dirty_node_def bc_lookup split: option.split)

lemma lookup_drop:
  "ext4_buf_lookup (ext4_bcache_drop_buf lba bc) l = (if l = lba then None else ext4_buf_lookup bc l)"
  by (cases "ext4_buf_lookup bc lba")
    (simp_all add: ext4_bcache_drop_buf_def Let_def bc_lookup lookup_remove_dirty)

lemma wf_drop:
  assumes wf: "bc_wf bc" and buf: "ext4_buf_lookup bc lba = Some buf"
  shows "bc_wf (ext4_bcache_drop_buf lba bc)"
proof -
  have distinct: "distinct (map bf_lba (bc_lba_root bc))"
    using bc_wfD(1) [OF wf] by (simp add: strict_sorted_iff)
  define bc1 where "bc1 = (if bf_refctr buf \<noteq> 0 then bc else lru_remove lba bc)"
  define bc2 where "bc2 = (if ext4_bcache_test_flag buf BC_DIRTY then ext4_bcache_remove_dirty_node lba bc1 else bc1)"
  define bc' where "bc' = ext4_bcache_drop_buf lba bc"
  have bc': "bc' = (lba_remove lba bc2)\<lparr>bc_ref_blocks := bc_ref_blocks (lba_remove lba bc2) - 1\<rparr>"
    by (simp only: bc'_def ext4_bcache_drop_buf_def buf option.case Let_def bc1_def bc2_def)
  have look: "ext4_buf_lookup bc' l = (if l = lba then None else ext4_buf_lookup bc l)" for l
    unfolding bc'_def by (rule lookup_drop)
  have lru: "bc_lru_root bc' = filter (\<lambda>e. snd e \<noteq> lba) (bc_lru_root bc)"
  proof -
    have "filter (\<lambda>e. snd e \<noteq> lba) (bc_lru_root bc) = bc_lru_root bc" if "bf_refctr buf \<noteq> 0"
      using bc_wfD(4) [OF wf, of _ lba] buf that by (intro filter_True) auto
    then show ?thesis
      by (simp add: bc' lba_remove_def bc2_def bc1_def lru_remove_def ext4_bcache_remove_dirty_node_def split: option.split)
  qed
  have rd: "ext4_bcache_remove_dirty_node lba bc1 =
      upd_buf lba (\<lambda>b. b\<lparr>bf_on_dirty_list := False\<rparr>) (bc1\<lparr>bc_dirty_list := remove1 lba (bc_dirty_list bc1)\<rparr>)"
    using bc_wfD(1) [OF wf] bc_wfD(5) [OF wf, of lba] by (intro remove_dirty_eq) (simp_all add: bc1_def)
  have dirty: "bc_dirty_list bc' = remove1 lba (bc_dirty_list bc)"
  proof -
    have "lba \<notin> set (bc_dirty_list bc)" if "\<not> ext4_bcache_test_flag buf BC_DIRTY"
      using bc_wfD(5) [OF wf, of lba] bc_wfD(6) [OF wf buf] buf that by (auto simp: buf_wf_def)
    moreover have "bc_dirty_list bc1 = bc_dirty_list bc" by (simp add: bc1_def)
    ultimately show ?thesis by (auto simp: bc' lba_remove_def bc2_def rd remove1_idem)
  qed
  have lbas: "map bf_lba (bc_lba_root bc') = filter (\<lambda>l. l \<noteq> lba) (map bf_lba (bc_lba_root bc))"
  proof -
    have "map bf_lba (bc_lba_root bc1) = map bf_lba (bc_lba_root bc)" by (simp add: bc1_def)
    moreover have "map bf_lba (bc_lba_root (ext4_bcache_remove_dirty_node lba bc1)) = map bf_lba (bc_lba_root bc1)"
      unfolding rd by (subst map_lba_upd) simp_all
    ultimately have "map bf_lba (bc_lba_root bc2) = map bf_lba (bc_lba_root bc)" by (simp add: bc2_def)
    then have "filter (\<lambda>l. l \<noteq> lba) (map bf_lba (bc_lba_root bc)) =
        filter (\<lambda>l. l \<noteq> lba) (map bf_lba (bc_lba_root bc2))" by simp
    also have "\<dots> = map bf_lba (bc_lba_root bc')"
      unfolding filter_map o_def by (simp add: bc' lba_remove_def)
    finally show ?thesis by (rule sym)
  qed
  have fields: "bc_itemsize bc' = bc_itemsize bc" "bc_lru_ctr bc' = bc_lru_ctr bc"
    "bc_ref_blocks bc' = bc_ref_blocks bc - 1"
    by (simp_all add: bc' lba_remove_def bc2_def rd) (simp_all add: bc1_def)
  have "bc_wf bc'"
  proof (rule bc_wfI)
    show "sorted_wrt (<) (map bf_lba (bc_lba_root bc'))"
      unfolding lbas using bc_wfD(1) [OF wf] by (rule sorted_wrt_filter)
    show "sorted_wrt (<) (map fst (bc_lru_root bc'))"
      unfolding lru by (rule sorted_wrt_filter_map [OF bc_wfD(2) [OF wf]])
    show "(i, l) \<in> set (bc_lru_root bc') \<longleftrightarrow>
        (\<exists>b. ext4_buf_lookup bc' l = Some b \<and> bf_refctr b = 0 \<and> bf_lru_id b = i)" for i l
      using bc_wfD(4) [OF wf, of i l] by (auto simp: look lru)
    show "l \<in> set (bc_dirty_list bc') \<longleftrightarrow> (\<exists>b. ext4_buf_lookup bc' l = Some b \<and> bf_on_dirty_list b)" for l
      using bc_wfD(3) [OF wf] bc_wfD(5) [OF wf, of l] by (auto simp: look dirty)
    show "buf_wf bc' b" if "ext4_buf_lookup bc' l = Some b" for l b
      using that bc_wfD(6) [OF wf, of l b] by (auto simp: look buf_wf_def fields split: if_splits)
    show "l = l'" if "ext4_buf_lookup bc' l = Some b" "ext4_buf_lookup bc' l' = Some b'"
      "bf_lru_id b = bf_lru_id b'" for l l' b b'
      using that bc_wfD(7) [OF wf, of l b l' b'] by (auto simp: look split: if_splits)
    have mem: "lba \<in> set (map bf_lba (bc_lba_root bc))" using lookup_SomeD [OF buf] by auto
    have "filter (\<lambda>l. l \<noteq> lba) (map bf_lba (bc_lba_root bc)) = remove1 lba (map bf_lba (bc_lba_root bc))"
      using distinct by (simp add: distinct_remove1_removeAll removeAll_filter_not_eq eq_commute)
    then have "length (map bf_lba (bc_lba_root bc')) = length (bc_lba_root bc) - 1"
      unfolding lbas using mem by (simp add: length_remove1)
    moreover have "bc_ref_blocks bc \<noteq> 0" using bc_wfD(8) [OF wf] mem by auto
    ultimately show "unat (bc_ref_blocks bc') = length (bc_lba_root bc')"
      using bc_wfD(8) [OF wf] by (simp add: fields unat_sub1_word)
  qed (use bc_wfD(3) [OF wf] dirty in simp_all)
  then show ?thesis by (simp add: bc'_def)
qed

end
