(* ===== verification/Blockdev.thy ===== *)
theory Blockdev
  imports Bcache
begin

unbundle bit_operations_syntax

text \<open>
  The block device layer of \<^verbatim>\<open>ext4_blockdev.c\<close>, on top of the device callbacks of
  \<^verbatim>\<open>ext4_bridge.c\<close>, and the two cache operations that write to the device.  The callbacks
  \<^verbatim>\<open>read_fn\<close>, \<^verbatim>\<open>write_fn\<close> and \<^verbatim>\<open>flush_fn\<close> are code of the host; they are function-valued fields of
  the device, as in the source, and act on the host's own state \<open>'c\<close>.  What a callback run by
  \<^verbatim>\<open>end_write\<close> does is the journal's business; here each run is recorded with its result.
\<close>

record 'c ext4_blockdev =
  bd_read_fn :: "('c \<Rightarrow> u64 \<Rightarrow> u64 \<Rightarrow> int \<times> bytes \<times> 'c) option"
  bd_write_fn :: "('c \<Rightarrow> bytes \<Rightarrow> u64 \<Rightarrow> u64 \<Rightarrow> int \<times> 'c) option"
  bd_flush_fn :: "('c \<Rightarrow> int \<times> 'c) option"
  bd_ctx :: 'c
  bd_read_only :: bool
  bd_ph_bsize :: u32
  bd_ph_refctr :: u32
  bd_bread_ctr :: u32
  bd_bwrite_ctr :: u32
  bd_part_offset :: u64
  bd_part_size :: u64
  bd_lg_bsize :: u32
  bd_lg_bcnt :: u64
  bd_cache_write_back :: u32
  bd_bc :: ext4_bcache
  bd_ended :: "(nat \<times> u64 \<times> errno) list"

definition map_bc :: "(ext4_bcache \<Rightarrow> ext4_bcache) \<Rightarrow> 'c ext4_blockdev \<Rightarrow> 'c ext4_blockdev" where
  "map_bc f bd = bd\<lparr>bd_bc := f (bd_bc bd)\<rparr>"

section \<open>The device\<close>

text \<open>A read gives the result code, the bytes the buffer then holds, and the new device.\<close>

definition bd_bread :: "u64 \<Rightarrow> u32 \<Rightarrow> bytes \<Rightarrow> 'c ext4_blockdev \<Rightarrow> errno \<times> bytes \<times> 'c ext4_blockdev" where
  "bd_bread blk_id blk_cnt buf bd =
     (case bd_read_fn bd of None \<Rightarrow> (EIO, buf, bd)
      | Some read_fn \<Rightarrow>
          if blk_cnt = 0 then (EOK, buf, bd)
          else
            let off = blk_id * ucast (bd_ph_bsize bd);
                len = ucast blk_cnt * ucast (bd_ph_bsize bd);
                (r, bs, c) = read_fn (bd_ctx bd) off len
            in (if r = 0 then EOK else EIO, bs, bd\<lparr>bd_ctx := c\<rparr>))"

definition bd_bwrite :: "u64 \<Rightarrow> u32 \<Rightarrow> bytes \<Rightarrow> 'c ext4_blockdev \<Rightarrow> errno \<times> 'c ext4_blockdev" where
  "bd_bwrite blk_id blk_cnt buf bd =
     (case bd_write_fn bd of None \<Rightarrow> (EIO, bd)
      | Some write_fn \<Rightarrow>
          if bd_read_only bd then (EROFS, bd)
          else if blk_cnt = 0 then (EOK, bd)
          else
            let off = blk_id * ucast (bd_ph_bsize bd);
                len = ucast blk_cnt * ucast (bd_ph_bsize bd);
                (r, c) = write_fn (bd_ctx bd) buf off len
            in (if r = 0 then EOK else EIO, bd\<lparr>bd_ctx := c\<rparr>))"

definition bd_flush :: "'c ext4_blockdev \<Rightarrow> errno \<times> 'c ext4_blockdev" where
  "bd_flush bd =
     (case bd_flush_fn bd of None \<Rightarrow> (EOK, bd)
      | Some flush_fn \<Rightarrow>
          if bd_read_only bd then (EOK, bd)
          else let (r, c) = flush_fn (bd_ctx bd) in (if r = 0 then EOK else EIO, bd\<lparr>bd_ctx := c\<rparr>))"

definition ext4_bdif_bread ::
    "u64 \<Rightarrow> u32 \<Rightarrow> bytes \<Rightarrow> 'c ext4_blockdev \<Rightarrow> errno \<times> bytes \<times> 'c ext4_blockdev" where
  "ext4_bdif_bread blk_id blk_cnt buf bd =
     (let (r, bs, bd') = bd_bread blk_id blk_cnt buf bd
      in (r, bs, bd'\<lparr>bd_bread_ctr := bd_bread_ctr bd' + 1\<rparr>))"

definition ext4_bdif_bwrite :: "u64 \<Rightarrow> u32 \<Rightarrow> bytes \<Rightarrow> 'c ext4_blockdev \<Rightarrow> errno \<times> 'c ext4_blockdev" where
  "ext4_bdif_bwrite blk_id blk_cnt buf bd =
     (let (r, bd') = bd_bwrite blk_id blk_cnt buf bd
      in (r, bd'\<lparr>bd_bwrite_ctr := bd_bwrite_ctr bd' + 1\<rparr>))"

text \<open>\<^verbatim>\<open>bd_open\<close> and \<^verbatim>\<open>bd_close\<close> always succeed and change nothing.\<close>

definition ext4_block_init :: "'c ext4_blockdev \<Rightarrow> errno \<times> 'c ext4_blockdev" where
  "ext4_block_init bd =
     (if bd_ph_refctr bd \<noteq> 0 then (EOK, bd\<lparr>bd_ph_refctr := bd_ph_refctr bd + 1\<rparr>)
      else (EOK, bd\<lparr>bd_ph_refctr := 1\<rparr>))"

definition ext4_block_fini :: "'c ext4_blockdev \<Rightarrow> errno \<times> 'c ext4_blockdev" where
  "ext4_block_fini bd =
     (if bd_ph_refctr bd = 0 then (EOK, bd)
      else (EOK, bd\<lparr>bd_ph_refctr := bd_ph_refctr bd - 1\<rparr>))"

definition ext4_block_set_lb_size :: "u32 \<Rightarrow> 'c ext4_blockdev \<Rightarrow> 'c ext4_blockdev option" where
  "ext4_block_set_lb_size lb_bsize bd =
     (if lb_bsize mod bd_ph_bsize bd \<noteq> 0 then None
      else Some (bd\<lparr>bd_lg_bsize := lb_bsize, bd_lg_bcnt := bd_part_size bd div ucast lb_bsize\<rparr>))"

definition ext4_block_barrier :: "'c ext4_blockdev \<Rightarrow> errno \<times> 'c ext4_blockdev" where
  "ext4_block_barrier bd = bd_flush bd"

section \<open>Whole blocks\<close>

definition lba_to_pba :: "'c ext4_blockdev \<Rightarrow> u64 \<Rightarrow> u64" where
  "lba_to_pba bd lba = (lba * ucast (bd_lg_bsize bd) + bd_part_offset bd) div ucast (bd_ph_bsize bd)"

definition ext4_blocks_get_direct ::
    "bytes \<Rightarrow> u64 \<Rightarrow> u32 \<Rightarrow> 'c ext4_blockdev \<Rightarrow> errno \<times> bytes \<times> 'c ext4_blockdev" where
  "ext4_blocks_get_direct buf lba cnt bd =
     ext4_bdif_bread (lba_to_pba bd lba) (bd_lg_bsize bd div bd_ph_bsize bd * cnt) buf bd"

definition ext4_blocks_set_direct ::
    "bytes \<Rightarrow> u64 \<Rightarrow> u32 \<Rightarrow> 'c ext4_blockdev \<Rightarrow> errno \<times> 'c ext4_blockdev" where
  "ext4_blocks_set_direct buf lba cnt bd =
     ext4_bdif_bwrite (lba_to_pba bd lba) (bd_lg_bsize bd div bd_ph_bsize bd * cnt) buf bd"

section \<open>Flushing and releasing buffers\<close>

definition run_end_write :: "u64 \<Rightarrow> errno \<Rightarrow> 'c ext4_blockdev \<Rightarrow> 'c ext4_blockdev" where
  "run_end_write lba r bd =
     (case ext4_buf_lookup (bd_bc bd) lba of None \<Rightarrow> bd
      | Some buf \<Rightarrow>
          case bf_end_write buf of None \<Rightarrow> bd
          | Some cb \<Rightarrow> map_bc (\<lambda>bc. bc\<lparr>bc_dont_shake := False\<rparr>) (bd\<lparr>bd_ended := bd_ended bd @ [(cb, lba, r)]\<rparr>))"

definition ext4_block_flush_buf :: "u64 \<Rightarrow> 'c ext4_blockdev \<Rightarrow> errno \<times> 'c ext4_blockdev" where
  "ext4_block_flush_buf lba bd =
     (case ext4_buf_lookup (bd_bc bd) lba of None \<Rightarrow> (EOK, bd)
      | Some buf \<Rightarrow>
          if ext4_bcache_test_flag buf BC_DIRTY \<and> ext4_bcache_test_flag buf BC_UPTODATE then
            let (r, bd1) = ext4_blocks_set_direct (bf_data buf) lba 1 bd
            in if r \<noteq> EOK then (r, run_end_write lba r bd1)
               else (EOK, run_end_write lba r
                 (map_bc (upd_buf lba (ext4_bcache_clear_flag BC_DIRTY))
                   (map_bc (ext4_bcache_remove_dirty_node lba) bd1)))
          else (EOK, bd))"

definition latch_error :: "errno \<Rightarrow> 'c ext4_blockdev \<Rightarrow> 'c ext4_blockdev" where
  "latch_error r = map_bc (\<lambda>bc. if r \<noteq> EOK \<and> bc_io_err bc = EOK then bc\<lparr>bc_io_err := r\<rparr> else bc)"

text \<open>The part of \<^verbatim>\<open>ext4_bcache_free\<close> that runs when the last reference is gone.\<close>

definition release_dirty :: "u64 \<Rightarrow> ext4_buf \<Rightarrow> 'c ext4_blockdev \<Rightarrow> 'c ext4_blockdev" where
  "release_dirty lba buf bd =
     (if ext4_bcache_test_flag buf BC_DIRTY \<and> ext4_bcache_test_flag buf BC_UPTODATE then
        if bd_cache_write_back bd \<noteq> 0 \<and> \<not> ext4_bcache_test_flag buf BC_FLUSH \<and>
           \<not> ext4_bcache_test_flag buf BC_TMP
        then map_bc (ext4_bcache_insert_dirty_node lba) bd
        else
          let (r, bd') = ext4_block_flush_buf lba bd
          in map_bc (upd_buf lba (ext4_bcache_clear_flag BC_FLUSH)) (latch_error r bd')
      else bd)"

text \<open>\<open>None\<close> is a failed \<^verbatim>\<open>ext4_assert\<close>: a handle with no buffer, or one already released.\<close>

definition ext4_bcache_free :: "ext4_block \<Rightarrow> 'c ext4_blockdev \<Rightarrow> (errno \<times> ext4_block \<times> 'c ext4_blockdev) option" where
  "ext4_bcache_free b bd =
     (case blk_buf b of None \<Rightarrow> None
      | Some lba \<Rightarrow>
          case ext4_buf_lookup (bd_bc bd) lba of None \<Rightarrow> None
          | Some buf \<Rightarrow>
              if bf_refctr buf = 0 then None
              else
                let buf1 = buf\<lparr>bf_refctr := bf_refctr buf - 1\<rparr>;
                    bd1 = map_bc (upd_buf lba (\<lambda>_. buf1)) bd;
                    bd4 = (if bf_refctr buf1 = 0 then
                        let bd2 = map_bc (lru_insert (bf_lru_id buf1) lba) bd1;
                            bd3 = release_dirty lba buf1 bd2
                        in case ext4_buf_lookup (bd_bc bd3) lba of None \<Rightarrow> bd3
                           | Some buf3 \<Rightarrow>
                               if \<not> ext4_bcache_test_flag buf3 BC_UPTODATE \<or> ext4_bcache_test_flag buf3 BC_TMP
                               then map_bc (ext4_bcache_drop_buf lba) bd3 else bd3
                      else bd1)
                in Some (EOK, b\<lparr>lb_id := 0\<rparr>, bd4))"

text \<open>\<^verbatim>\<open>RB_FOREACH_SAFE\<close> visits the buffers of the tree in order.\<close>

fun cleanup_walk :: "u64 list \<Rightarrow> 'c ext4_blockdev \<Rightarrow> 'c ext4_blockdev" where
  "cleanup_walk [] bd = bd"
| "cleanup_walk (lba # lbas) bd =
     (let (r, bd1) = ext4_block_flush_buf lba bd;
          bd2 = latch_error r bd1
      in cleanup_walk lbas (map_bc (ext4_bcache_drop_buf lba) bd2))"

definition ext4_bcache_cleanup :: "'c ext4_blockdev \<Rightarrow> 'c ext4_blockdev" where
  "ext4_bcache_cleanup bd = cleanup_walk (map bf_lba (bc_lba_root (bd_bc bd))) bd"

definition ext4_block_flush_lba :: "u64 \<Rightarrow> 'c ext4_blockdev \<Rightarrow> (errno \<times> 'c ext4_blockdev) option" where
  "ext4_block_flush_lba lba bd =
     (case ext4_bcache_find_get lba (bd_bc bd) of
        (None, bc) \<Rightarrow> Some (EOK, bd\<lparr>bd_bc := bc\<rparr>)
      | (Some b, bc) \<Rightarrow>
          let (r, bd1) = ext4_block_flush_buf lba (bd\<lparr>bd_bc := bc\<rparr>)
          in case ext4_bcache_free b bd1 of None \<Rightarrow> None | Some (_, _, bd2) \<Rightarrow> Some (r, bd2))"

section \<open>Making room\<close>

lemma length_root_remove_dirty [simp]:
  "length (bc_lba_root (ext4_bcache_remove_dirty_node lba bc)) = length (bc_lba_root bc)"
  by (simp add: ext4_bcache_remove_dirty_node_def upd_buf_def split: option.split)

lemma bc_bdif_bwrite [simp]:
  "ext4_bdif_bwrite pba cnt bs bd = (r, bd') \<Longrightarrow> bd_bc bd' = bd_bc bd"
  by (auto simp: ext4_bdif_bwrite_def bd_bwrite_def Let_def split: option.splits if_splits prod.splits)

lemma length_root_flush:
  "ext4_block_flush_buf lba bd = (r, bd') \<Longrightarrow> length (bc_lba_root (bd_bc bd')) = length (bc_lba_root (bd_bc bd))"
  by (auto simp: ext4_block_flush_buf_def ext4_blocks_set_direct_def run_end_write_def map_bc_def
      split: option.splits if_splits prod.splits)

lemma length_root_drop:
  assumes buf: "ext4_buf_lookup bc lba = Some buf"
  shows "length (bc_lba_root (ext4_bcache_drop_buf lba bc)) < length (bc_lba_root bc)"
proof -
  have len: "length (filter (\<lambda>b. bf_lba b \<noteq> lba) (bc_lba_root bc)) < length (bc_lba_root bc)"
    using lookup_SomeD [OF buf] by (intro length_filter_less [of buf]) auto
  define bc1 where "bc1 = (if bf_refctr buf \<noteq> 0 then bc else lru_remove lba bc)"
  define bc2 where "bc2 = (if ext4_bcache_test_flag buf BC_DIRTY then ext4_bcache_remove_dirty_node lba bc1 else bc1)"
  have "bc_lba_root bc1 = bc_lba_root bc" by (simp add: bc1_def lru_remove_def)
  moreover have "length (filter (\<lambda>b. bf_lba b \<noteq> lba) (bc_lba_root bc2)) =
      length (filter (\<lambda>b. bf_lba b \<noteq> lba) (bc_lba_root bc1))"
    by (simp add: bc2_def ext4_bcache_remove_dirty_node_def upd_buf_def filter_map o_def if_distrib
        cong: if_cong split: option.split)
  ultimately show ?thesis
    using len unfolding ext4_bcache_drop_buf_def buf Let_def option.case
      bc1_def [symmetric] bc2_def [symmetric] by (simp add: lba_remove_def)
qed

function shake_loop :: "'c ext4_blockdev \<Rightarrow> errno \<times> 'c ext4_blockdev" where
  "shake_loop bd =
     (case ext4_buf_lowest_lru (bd_bc bd) of None \<Rightarrow> (EOK, bd)
      | Some lba \<Rightarrow>
          if \<not> ext4_bcache_is_full (bd_bc bd) then (EOK, bd)
          else case ext4_buf_lookup (bd_bc bd) lba of None \<Rightarrow> (EOK, bd)
            | Some buf \<Rightarrow>
                let (r, bd1) = (if ext4_bcache_test_flag buf BC_DIRTY
                                then ext4_block_flush_buf lba bd else (EOK, bd))
                in if r \<noteq> EOK then (r, bd1)
                   else if ext4_buf_lookup (bd_bc bd1) lba = None then (EOK, bd1)
                   else shake_loop (map_bc (ext4_bcache_drop_buf lba) bd1))"
  by pat_completeness auto
termination
  by (relation "measure (\<lambda>bd. length (bc_lba_root (bd_bc bd)))")
    (auto simp: map_bc_def split: if_splits
      dest!: length_root_drop length_root_flush [OF sym [of "(EOK, _)"]])

declare shake_loop.simps [simp del]

text \<open>The last two tests of the loop above stand for the pointer being valid; they hold in every
  well-formed cache.\<close>

definition ext4_block_cache_shake :: "'c ext4_blockdev \<Rightarrow> errno \<times> 'c ext4_blockdev" where
  "ext4_block_cache_shake bd =
     (if bc_dont_shake (bd_bc bd) then (EOK, bd)
      else
        let (r, bd1) = shake_loop (map_bc (\<lambda>bc. bc\<lparr>bc_dont_shake := True\<rparr>) bd)
        in (r, map_bc (\<lambda>bc. bc\<lparr>bc_dont_shake := False\<rparr>) bd1))"

section \<open>Getting and setting blocks\<close>

definition block_alloc :: "bytes option \<Rightarrow> u64 \<Rightarrow> 'c ext4_blockdev \<Rightarrow>
    errno \<times> ext4_block option \<times> 'c ext4_blockdev" where
  "block_alloc mem lba bd =
     (let (r, bd1) = ext4_block_cache_shake bd
      in if r \<noteq> EOK then (r, None, bd1)
         else let (r, b, bc) = ext4_bcache_alloc mem lba (bd_bc bd1) in (r, b, bd1\<lparr>bd_bc := bc\<rparr>))"

definition ext4_block_get_noread :: "bytes option \<Rightarrow> u64 \<Rightarrow> 'c ext4_blockdev \<Rightarrow>
    errno \<times> ext4_block option \<times> 'c ext4_blockdev" where
  "ext4_block_get_noread mem lba bd =
     (if bd_ph_refctr bd = 0 then (EIO, None, bd)
      else if \<not> lba < bd_lg_bcnt bd then (ENXIO, None, bd)
      else if lba = 0 then (ENXIO, None, bd)
      else block_alloc mem lba bd)"

text \<open>The common end of \<^verbatim>\<open>ext4_block_get\<close> and \<^verbatim>\<open>ext4_block_get_sb\<close>: read the block unless the
  cached copy is valid.\<close>

definition block_fill :: "u64 \<Rightarrow> ext4_block \<Rightarrow> 'c ext4_blockdev \<Rightarrow>
    (errno \<times> ext4_block option \<times> 'c ext4_blockdev) option" where
  "block_fill lba b bd =
     (case ext4_buf_lookup (bd_bc bd) lba of None \<Rightarrow> None
      | Some buf \<Rightarrow>
          if ext4_bcache_test_flag buf BC_UPTODATE then Some (EOK, Some b, bd)
          else
            let (r, bs, bd1) = ext4_blocks_get_direct (bf_data buf) lba 1 bd;
                bd2 = map_bc (upd_buf lba (\<lambda>x. x\<lparr>bf_data := bs\<rparr>)) bd1
            in if r \<noteq> EOK then
                 case ext4_bcache_free b bd2 of None \<Rightarrow> None | Some (_, _, bd3) \<Rightarrow> Some (r, None, bd3)
               else Some (EOK, Some b, map_bc (upd_buf lba (ext4_bcache_set_flag BC_UPTODATE)) bd2))"

definition ext4_block_get :: "bytes option \<Rightarrow> u64 \<Rightarrow> 'c ext4_blockdev \<Rightarrow>
    (errno \<times> ext4_block option \<times> 'c ext4_blockdev) option" where
  "ext4_block_get mem lba bd =
     (case ext4_block_get_noread mem lba bd of
        (r, Some b, bd1) \<Rightarrow> if r \<noteq> EOK then Some (r, None, bd1) else block_fill lba b bd1
      | (r, None, bd1) \<Rightarrow> Some (r, None, bd1))"

definition ext4_block_get_sb :: "bytes option \<Rightarrow> 'c ext4_blockdev \<Rightarrow>
    (errno \<times> ext4_block option \<times> 'c ext4_blockdev) option" where
  "ext4_block_get_sb mem bd =
     (let lba = (if 1024 < bd_lg_bsize bd then 0 else 1)
      in if bd_ph_refctr bd = 0 then Some (EIO, None, bd)
         else if \<not> lba < bd_lg_bcnt bd then Some (ENXIO, None, bd)
         else case block_alloc mem lba bd of
             (r, Some b, bd1) \<Rightarrow> if r \<noteq> EOK then Some (r, None, bd1) else block_fill lba b bd1
           | (r, None, bd1) \<Rightarrow> Some (r, None, bd1))"

definition ext4_block_set :: "ext4_block \<Rightarrow> 'c ext4_blockdev \<Rightarrow>
    (errno \<times> ext4_block \<times> 'c ext4_blockdev) option" where
  "ext4_block_set b bd =
     (if blk_buf b = None then None
      else if bd_ph_refctr bd = 0 then Some (EIO, b, bd)
      else ext4_bcache_free b bd)"

text \<open>What a caller does with a handle: read or overwrite the buffer's bytes, and mark it dirty
  (\<^verbatim>\<open>ext4_trans_set_block_dirty\<close> with no transaction open).\<close>

definition blk_data :: "ext4_block \<Rightarrow> 'c ext4_blockdev \<Rightarrow> bytes option" where
  "blk_data b bd = (case blk_buf b of None \<Rightarrow> None
     | Some lba \<Rightarrow> map_option bf_data (ext4_buf_lookup (bd_bc bd) lba))"

definition blk_store :: "ext4_block \<Rightarrow> bytes \<Rightarrow> 'c ext4_blockdev \<Rightarrow> 'c ext4_blockdev" where
  "blk_store b bs bd = (case blk_buf b of None \<Rightarrow> bd
     | Some lba \<Rightarrow> map_bc (upd_buf lba (\<lambda>x. ext4_bcache_set_dirty (x\<lparr>bf_data := bs\<rparr>))) bd)"

section \<open>Byte ranges\<close>

definition bytes_in_range :: "u64 \<Rightarrow> u32 \<Rightarrow> 'c ext4_blockdev \<Rightarrow> bool" where
  "bytes_in_range off len bd \<longleftrightarrow> \<not> bd_part_size bd < off + ucast len"

text \<open>Read one device block, overwrite \<open>data\<close> at \<open>at\<close>, and write it back.\<close>

definition patch_block :: "u64 \<Rightarrow> nat \<Rightarrow> bytes \<Rightarrow> 'c ext4_blockdev \<Rightarrow> errno \<times> 'c ext4_blockdev" where
  "patch_block block_idx at data bd =
     (let (r, bs, bd1) = ext4_bdif_bread block_idx 1 [] bd
      in if r \<noteq> EOK then (r, bd1) else ext4_bdif_bwrite block_idx 1 (put_bytes bs at data) bd1)"

definition ext4_block_writebytes :: "u64 \<Rightarrow> bytes \<Rightarrow> u32 \<Rightarrow> 'c ext4_blockdev \<Rightarrow> errno \<times> 'c ext4_blockdev" where
  "ext4_block_writebytes off p len bd =
     (if bd_ph_refctr bd = 0 then (EIO, bd)
      else if \<not> bytes_in_range off len bd then (EINVAL, bd)
      else
        let ph = bd_ph_bsize bd;
            block_idx = (off + bd_part_offset bd) div ucast ph;
            unalg = (ucast (off AND ucast (ph - 1)) :: u32);
            wlen = (if unalg = 0 then 0 else if len < ph - unalg then len else ph - unalg);
            (r, bd1) = (if unalg \<noteq> 0 then patch_block block_idx (unat unalg) (take (unat wlen) p) bd
                        else (EOK, bd))
        in if r \<noteq> EOK then (r, bd1)
           else
             let p = drop (unat wlen) p;
                 len = len - wlen;
                 block_idx = (if unalg \<noteq> 0 then block_idx + 1 else block_idx);
                 blen = len div ph;
                 (r, bd2) = (if blen \<noteq> 0
                             then ext4_bdif_bwrite block_idx blen (take (unat (ph * blen)) p) bd1
                             else (EOK, bd1))
             in if r \<noteq> EOK then (r, bd2)
                else
                  let p = drop (unat (ph * blen)) p;
                      len = len - ph * blen;
                      block_idx = block_idx + ucast blen
                  in if len \<noteq> 0 then patch_block block_idx 0 (take (unat len) p) bd2
                     else (EOK, bd2))"

definition ext4_block_readbytes :: "u64 \<Rightarrow> u32 \<Rightarrow> 'c ext4_blockdev \<Rightarrow> errno \<times> bytes \<times> 'c ext4_blockdev" where
  "ext4_block_readbytes off len bd =
     (if bd_ph_refctr bd = 0 then (EIO, [], bd)
      else if \<not> bytes_in_range off len bd then (EINVAL, [], bd)
      else
        let ph = bd_ph_bsize bd;
            block_idx = (off + bd_part_offset bd) div ucast ph;
            unalg = (ucast (off AND ucast (ph - 1)) :: u32);
            rlen = (if unalg = 0 then 0 else if len < ph - unalg then len else ph - unalg);
            (r, bs, bd1) = (if unalg \<noteq> 0 then ext4_bdif_bread block_idx 1 [] bd else (EOK, [], bd))
        in if r \<noteq> EOK then (r, [], bd1)
           else
             let p1 = take (unat rlen) (drop (unat unalg) bs);
                 len = len - rlen;
                 block_idx = (if unalg \<noteq> 0 then block_idx + 1 else block_idx);
                 blen = len div ph;
                 (r, p2, bd2) = (if blen \<noteq> 0 then ext4_bdif_bread block_idx blen [] bd1 else (EOK, [], bd1))
             in if r \<noteq> EOK then (r, p1, bd2)
                else
                  let len = len - ph * blen;
                      block_idx = block_idx + ucast blen;
                      (r, p3, bd3) = (if len \<noteq> 0 then ext4_bdif_bread block_idx 1 [] bd2 else (EOK, [], bd2))
                  in if r \<noteq> EOK then (r, p1 @ p2, bd3)
                     else (EOK, p1 @ p2 @ take (unat len) p3, bd3))"

section \<open>Flushing the cache\<close>

text \<open>The loop ends only if every flush unlinks the buffer it was given.\<close>

partial_function (option) flush_loop :: "'c ext4_blockdev \<Rightarrow> (errno \<times> 'c ext4_blockdev) option" where
  "flush_loop bd =
     (case bc_dirty_list (bd_bc bd) of [] \<Rightarrow> Some (EOK, bd)
      | lba # _ \<Rightarrow>
          (case ext4_block_flush_buf lba bd of
             (r, bd1) \<Rightarrow> if r \<noteq> EOK then Some (r, bd1) else flush_loop bd1))"

definition ext4_block_cache_flush :: "'c ext4_blockdev \<Rightarrow> (errno \<times> 'c ext4_blockdev) option" where
  "ext4_block_cache_flush bd =
     (case flush_loop bd of None \<Rightarrow> None
      | Some (r, bd1) \<Rightarrow>
          if r \<noteq> EOK then Some (r, bd1)
          else let (e, bc) = ext4_bcache_take_error (bd_bc bd1) in Some (e, bd1\<lparr>bd_bc := bc\<rparr>))"

definition ext4_block_cache_write_back :: "bool \<Rightarrow> 'c ext4_blockdev \<Rightarrow> (errno \<times> 'c ext4_blockdev) option" where
  "ext4_block_cache_write_back on_off bd =
     (let bd1 = (if on_off then bd\<lparr>bd_cache_write_back := bd_cache_write_back bd + 1\<rparr> else bd);
          bd2 = (if \<not> on_off \<and> bd_cache_write_back bd1 \<noteq> 0
                 then bd1\<lparr>bd_cache_write_back := bd_cache_write_back bd1 - 1\<rparr> else bd1)
      in if bd_cache_write_back bd2 \<noteq> 0 then Some (EOK, bd2) else ext4_block_cache_flush bd2)"

end
