(* ===== verification/Cache_Store.thy ===== *)
theory Cache_Store
  imports Blockdev
begin

unbundle bit_operations_syntax

text \<open>
  Correctness of the cache over the device: the contents of the volume as its callers see them
  (\<open>bd_view\<close>), the invariant of cache and device (\<open>bd_inv\<close>), and that every operation keeps both;
  the interface \<open>block_store\<close> this gives the layers above, interpreted on the cache; and that a flush
  ends and reports success only when the medium holds what the callers see.
\<close>

section \<open>What the host's callbacks promise\<close>

text \<open>\<open>content c a\<close> is the byte of the medium at address \<open>a\<close>.  A read changes no byte and, if it
  succeeds, returns the bytes of its range; a write changes no byte outside its range and, if it
  succeeds, leaves the given bytes there.  A write that fails may leave anything inside its range.\<close>

definition reads_ok :: "('c \<Rightarrow> nat \<Rightarrow> u8) \<Rightarrow> ('c \<Rightarrow> u64 \<Rightarrow> u64 \<Rightarrow> int \<times> bytes \<times> 'c) \<Rightarrow> bool" where
  "reads_ok content rf \<longleftrightarrow> (\<forall>c off len r bs c'. rf c off len = (r, bs, c') \<longrightarrow>
     length bs = unat len \<and> content c' = content c \<and>
     (r = 0 \<longrightarrow> bs = map (content c) [unat off..<unat off + unat len]))"

definition writes_ok :: "('c \<Rightarrow> nat \<Rightarrow> u8) \<Rightarrow> ('c \<Rightarrow> bytes \<Rightarrow> u64 \<Rightarrow> u64 \<Rightarrow> int \<times> 'c) \<Rightarrow> bool" where
  "writes_ok content wrf \<longleftrightarrow> (\<forall>c bs off len r c'. wrf c bs off len = (r, c') \<longrightarrow>
     (\<forall>a. a < unat off \<or> unat off + unat len \<le> a \<longrightarrow> content c' a = content c a) \<and>
     (r = 0 \<longrightarrow> (\<forall>i < unat len. content c' (unat off + i) = bs ! i)))"

definition io_ok :: "('c \<Rightarrow> nat \<Rightarrow> u8) \<Rightarrow> 'c ext4_blockdev \<Rightarrow> bool" where
  "io_ok content bd \<longleftrightarrow> (\<forall>rf. bd_read_fn bd = Some rf \<longrightarrow> reads_ok content rf) \<and>
     (\<forall>wrf. bd_write_fn bd = Some wrf \<longrightarrow> writes_ok content wrf)"

definition geom_ok :: "'c ext4_blockdev \<Rightarrow> bool" where
  "geom_ok bd \<longleftrightarrow> 0 < unat (bd_ph_bsize bd) \<and> 0 < unat (bd_lg_bsize bd) \<and>
     unat (bd_ph_bsize bd) dvd unat (bd_lg_bsize bd) \<and>
     unat (bd_part_offset bd) + unat (bd_lg_bcnt bd) * unat (bd_lg_bsize bd) < 2 ^ 64"

definition blk_base :: "'c ext4_blockdev \<Rightarrow> u64 \<Rightarrow> nat" where
  "blk_base bd lba = unat lba * unat (bd_lg_bsize bd) +
     unat (bd_part_offset bd) div unat (bd_ph_bsize bd) * unat (bd_ph_bsize bd)"

definition disk_block :: "('c \<Rightarrow> nat \<Rightarrow> u8) \<Rightarrow> 'c ext4_blockdev \<Rightarrow> u64 \<Rightarrow> bytes" where
  "disk_block content bd lba =
     map (content (bd_ctx bd)) [blk_base bd lba..<blk_base bd lba + unat (bd_lg_bsize bd)]"

lemma length_disk_block [simp]: "length (disk_block content bd lba) = unat (bd_lg_bsize bd)"
  by (simp add: disk_block_def)

lemma geom_block:
  assumes "geom_ok bd" "lba < bd_lg_bcnt bd"
  shows "unat (lba_to_pba bd lba * ucast (bd_ph_bsize bd)) = blk_base bd lba"
    and "unat (ucast (bd_lg_bsize bd div bd_ph_bsize bd * 1) * ucast (bd_ph_bsize bd) :: u64) = unat (bd_lg_bsize bd)"
    and "bd_lg_bsize bd div bd_ph_bsize bd * 1 \<noteq> 0"
proof -
  let ?ph = "unat (bd_ph_bsize bd)" and ?lg = "unat (bd_lg_bsize bd)" and ?po = "unat (bd_part_offset bd)"
  from assms have g: "0 < ?ph" "0 < ?lg" "?ph dvd ?lg" "?po + unat (bd_lg_bcnt bd) * ?lg < 2 ^ 64"
    and l: "unat lba < unat (bd_lg_bcnt bd)"
    by (auto simp: geom_ok_def word_less_nat_alt)
  have "unat lba * ?lg \<le> unat (bd_lg_bcnt bd) * ?lg" using l by simp
  with g(4) have lt: "unat lba * ?lg + ?po < 2 ^ 64" by linarith
  then have mul: "unat (lba * ucast (bd_lg_bsize bd)) = unat lba * ?lg"
    by (subst unat_word_ariths) (simp add: mod_less)
  have sum: "unat (lba * ucast (bd_lg_bsize bd) + bd_part_offset bd) = unat lba * ?lg + ?po"
    using lt by (subst unat_word_ariths) (simp add: mul mod_less)
  obtain k where k: "?lg = ?ph * k" using g(3) by (rule dvdE)
  have pba: "unat (lba_to_pba bd lba) = unat lba * k + ?po div ?ph"
  proof -
    have "unat (lba_to_pba bd lba) = (unat lba * ?lg + ?po) div ?ph"
      by (simp add: lba_to_pba_def unat_div sum)
    also have "unat lba * ?lg + ?po = ?po + (unat lba * k) * ?ph" by (simp add: k)
    finally show ?thesis using g(1) by simp
  qed
  have base: "unat (lba_to_pba bd lba) * ?ph = blk_base bd lba"
    by (simp add: pba blk_base_def k algebra_simps)
  have "?po div ?ph * ?ph \<le> ?po" by simp
  then have "unat (lba_to_pba bd lba) * ?ph < 2 ^ 64"
    unfolding base blk_base_def using lt by linarith
  then show "unat (lba_to_pba bd lba * ucast (bd_ph_bsize bd)) = blk_base bd lba"
    by (subst unat_word_ariths) (simp add: base mod_less)
  have q: "unat (bd_lg_bsize bd div bd_ph_bsize bd) = k" using k g(1) by (simp add: unat_div)
  have "k * ?ph < 2 ^ 64" using k unat_u32_lt [of "bd_lg_bsize bd"] by (simp add: mult.commute)
  then show "unat (ucast (bd_lg_bsize bd div bd_ph_bsize bd * 1) * ucast (bd_ph_bsize bd) :: u64) = ?lg"
    by (subst unat_word_ariths) (simp add: q k mult.commute)
  have "k \<noteq> 0" using g(2) k by auto
  then show "bd_lg_bsize bd div bd_ph_bsize bd * 1 \<noteq> 0" using q by auto
qed

lemma blk_base_disjoint:
  assumes "l \<noteq> l'"
  shows "blk_base bd l + unat (bd_lg_bsize bd) \<le> blk_base bd l' \<or> blk_base bd l' + unat (bd_lg_bsize bd) \<le> blk_base bd l"
proof -
  have step: "unat a * g + g \<le> unat b * g" if "unat a < unat b" for a b :: u64 and g :: nat
  proof -
    have "(unat a + 1) * g \<le> unat b * g" using that by (intro mult_le_mono1) simp
    then show ?thesis by simp
  qed
  from assms have "unat l < unat l' \<or> unat l' < unat l" by (metis nat_neq_iff word_unat_eq_iff)
  then show ?thesis using step [of l l' "unat (bd_lg_bsize bd)"] step [of l' l "unat (bd_lg_bsize bd)"]
    by (auto simp: blk_base_def)
qed

text \<open>Two devices with the same configuration differ at most in the medium, the cache, the statistics
  and the record of callbacks.\<close>

definition same_cfg :: "'c ext4_blockdev \<Rightarrow> 'c ext4_blockdev \<Rightarrow> bool" where
  "same_cfg bd bd' \<longleftrightarrow> bd_read_fn bd' = bd_read_fn bd \<and> bd_write_fn bd' = bd_write_fn bd \<and>
     bd_read_only bd' = bd_read_only bd \<and> bd_ph_bsize bd' = bd_ph_bsize bd \<and>
     bd_ph_refctr bd' = bd_ph_refctr bd \<and> bd_part_offset bd' = bd_part_offset bd \<and>
     bd_lg_bsize bd' = bd_lg_bsize bd \<and> bd_lg_bcnt bd' = bd_lg_bcnt bd \<and>
     bd_cache_write_back bd' = bd_cache_write_back bd"

lemma same_cfg_refl [simp]: "same_cfg bd bd"
  by (simp add: same_cfg_def)

lemma same_cfg_trans: "same_cfg a b \<Longrightarrow> same_cfg b c \<Longrightarrow> same_cfg a c"
  by (simp add: same_cfg_def)

lemma same_cfg_bc [simp]: "same_cfg bd (map_bc f bd)" "same_cfg bd (bd\<lparr>bd_bc := bc\<rparr>)"
  by (simp_all add: same_cfg_def map_bc_def)

lemma same_cfg_io_ok: "same_cfg bd bd' \<Longrightarrow> io_ok content bd' = io_ok content bd"
  by (simp add: same_cfg_def io_ok_def)

lemma same_cfg_geom_ok: "same_cfg bd bd' \<Longrightarrow> geom_ok bd' = geom_ok bd"
  by (simp add: same_cfg_def geom_ok_def)

lemma same_cfg_blk_base: "same_cfg bd bd' \<Longrightarrow> blk_base bd' l = blk_base bd l"
  by (simp add: same_cfg_def blk_base_def)

lemma set_direct_spec:
  assumes "io_ok content bd" "geom_ok bd" "lba < bd_lg_bcnt bd" "length data = unat (bd_lg_bsize bd)"
    and w: "ext4_blocks_set_direct data lba 1 bd = (r, bd')"
  shows "same_cfg bd bd'" "bd_bc bd' = bd_bc bd" "bd_ended bd' = bd_ended bd"
    and "l \<noteq> lba \<Longrightarrow> disk_block content bd' l = disk_block content bd l"
    and "r = EOK \<Longrightarrow> disk_block content bd' lba = data"
proof -
  show cfg: "same_cfg bd bd'" and "bd_bc bd' = bd_bc bd" "bd_ended bd' = bd_ended bd"
    using w by (auto simp: ext4_blocks_set_direct_def ext4_bdif_bwrite_def bd_bwrite_def Let_def same_cfg_def
        split: option.splits if_splits prod.splits)
  let ?off = "lba_to_pba bd lba * ucast (bd_ph_bsize bd)"
  let ?len = "ucast (bd_lg_bsize bd div bd_ph_bsize bd * 1) * ucast (bd_ph_bsize bd) :: u64"
  note g = geom_block [OF assms(2,3)]
  have cases: "r \<noteq> EOK \<and> bd_ctx bd' = bd_ctx bd \<or>
      (\<exists>wrf v. bd_write_fn bd = Some wrf \<and> wrf (bd_ctx bd) data ?off ?len = (v, bd_ctx bd') \<and> (r = EOK \<longrightarrow> v = 0))"
    using w g(3) by (auto simp: ext4_blocks_set_direct_def ext4_bdif_bwrite_def bd_bwrite_def Let_def
        split: option.splits if_splits prod.splits)
  have writes: "(\<forall>a. a < unat ?off \<or> unat ?off + unat ?len \<le> a \<longrightarrow> content c' a = content (bd_ctx bd) a) \<and>
      (v = 0 \<longrightarrow> (\<forall>i < unat ?len. content c' (unat ?off + i) = data ! i))"
    if "bd_write_fn bd = Some wrf" "wrf (bd_ctx bd) data ?off ?len = (v, c')" for wrf v c'
    using assms(1) that unfolding io_ok_def writes_ok_def by blast
  have out: "content (bd_ctx bd') a = content (bd_ctx bd) a"
    if "a < blk_base bd lba \<or> blk_base bd lba + unat (bd_lg_bsize bd) \<le> a" for a
    using cases
  proof (elim disjE exE conjE)
    fix wrf v assume "bd_write_fn bd = Some wrf" "wrf (bd_ctx bd) data ?off ?len = (v, bd_ctx bd')"
    from writes [OF this, unfolded g(1,2)] that show ?thesis by blast
  qed simp
  have lg: "bd_lg_bsize bd' = bd_lg_bsize bd" using cfg by (simp add: same_cfg_def)
  show "disk_block content bd' l = disk_block content bd l" if "l \<noteq> lba"
    unfolding disk_block_def same_cfg_blk_base [OF cfg] lg
    using blk_base_disjoint [OF that, of bd] by (intro map_cong refl out) auto
  show "disk_block content bd' lba = data" if "r = EOK"
  proof -
    from cases that obtain wrf where wr: "bd_write_fn bd = Some wrf" "wrf (bd_ctx bd) data ?off ?len = (0, bd_ctx bd')"
      by auto
    have "content (bd_ctx bd') (blk_base bd lba + i) = data ! i" if "i < unat (bd_lg_bsize bd)" for i
      using writes [OF wr, unfolded g(1,2)] that by blast
    then show ?thesis
      unfolding disk_block_def same_cfg_blk_base [OF cfg] lg
      by (intro nth_equalityI) (simp_all add: assms(4))
  qed
qed

lemma get_direct_spec:
  assumes "io_ok content bd" "geom_ok bd" "lba < bd_lg_bcnt bd" "length buf = unat (bd_lg_bsize bd)"
    and rd: "ext4_blocks_get_direct buf lba 1 bd = (r, bs, bd')"
  shows "same_cfg bd bd'" "bd_bc bd' = bd_bc bd" "bd_ended bd' = bd_ended bd"
    and "disk_block content bd' l = disk_block content bd l"
    and "length bs = unat (bd_lg_bsize bd)" "r = EOK \<Longrightarrow> bs = disk_block content bd lba"
proof -
  show cfg: "same_cfg bd bd'" and "bd_bc bd' = bd_bc bd" "bd_ended bd' = bd_ended bd"
    using rd by (auto simp: ext4_blocks_get_direct_def ext4_bdif_bread_def bd_bread_def Let_def same_cfg_def
        split: option.splits if_splits prod.splits)
  let ?off = "lba_to_pba bd lba * ucast (bd_ph_bsize bd)"
  let ?len = "ucast (bd_lg_bsize bd div bd_ph_bsize bd * 1) * ucast (bd_ph_bsize bd) :: u64"
  note g = geom_block [OF assms(2,3)]
  have cases: "r \<noteq> EOK \<and> bs = buf \<and> bd_ctx bd' = bd_ctx bd \<or>
      (\<exists>rf v. bd_read_fn bd = Some rf \<and> rf (bd_ctx bd) ?off ?len = (v, bs, bd_ctx bd') \<and> (r = EOK \<longrightarrow> v = 0))"
  proof (cases "bd_read_fn bd")
    case None
    with rd show ?thesis
      by (auto simp: ext4_blocks_get_direct_def ext4_bdif_bread_def bd_bread_def)
  next
    case (Some rf)
    obtain v b c where io: "rf (bd_ctx bd) ?off ?len = (v, b, c)" by (metis prod_cases3)
    have "(r, bs, bd') = (if v = 0 then EOK else EIO, b, bd\<lparr>bd_ctx := c, bd_bread_ctr := bd_bread_ctr bd + 1\<rparr>)"
      unfolding rd [symmetric] ext4_blocks_get_direct_def ext4_bdif_bread_def bd_bread_def Some option.case
        if_not_P [OF g(3)] Let_def io prod.case by simp
    with Some io show ?thesis by auto
  qed
  have rf_ok: "length bs' = unat ?len \<and> content c' = content (bd_ctx bd) \<and>
      (v = 0 \<longrightarrow> bs' = map (content (bd_ctx bd)) [unat ?off..<unat ?off + unat ?len])"
    if "bd_read_fn bd = Some rf" "rf (bd_ctx bd) ?off ?len = (v, bs', c')" for rf v bs' c'
    using assms(1) that unfolding io_ok_def reads_ok_def by blast
  have same: "content (bd_ctx bd') = content (bd_ctx bd)" "length bs = unat (bd_lg_bsize bd)"
    using cases rf_ok assms(4) unfolding g(1,2) by auto
  then show "disk_block content bd' l = disk_block content bd l" "length bs = unat (bd_lg_bsize bd)"
    using cfg by (simp_all add: disk_block_def same_cfg_blk_base [OF cfg]) (simp add: same_cfg_def)
  show "bs = disk_block content bd lba" if "r = EOK"
    using cases rf_ok that unfolding g(1,2) disk_block_def by auto
qed

section \<open>The store the cache implements\<close>

definition bd_inv :: "('c \<Rightarrow> nat \<Rightarrow> u8) \<Rightarrow> 'c ext4_blockdev \<Rightarrow> bool" where
  "bd_inv content bd \<longleftrightarrow> io_ok content bd \<and> geom_ok bd \<and> bc_wf (bd_bc bd) \<and>
     bc_itemsize (bd_bc bd) = bd_lg_bsize bd \<and>
     (\<forall>l b. ext4_buf_lookup (bd_bc bd) l = Some b \<longrightarrow> l < bd_lg_bcnt bd \<and>
        (ext4_bcache_test_flag b BC_UPTODATE \<and> \<not> ext4_bcache_test_flag b BC_DIRTY \<longrightarrow>
           bf_data b = disk_block content bd l))"

text \<open>The contents of the volume as the callers see it: the valid cached copy, else the medium.\<close>

definition bd_view :: "('c \<Rightarrow> nat \<Rightarrow> u8) \<Rightarrow> 'c ext4_blockdev \<Rightarrow> u64 \<Rightarrow> bytes" where
  "bd_view content bd l = (case ext4_buf_lookup (bd_bc bd) l of None \<Rightarrow> disk_block content bd l
     | Some b \<Rightarrow> if ext4_bcache_test_flag b BC_UPTODATE then bf_data b else disk_block content bd l)"

lemma bc_wf_fields [simp]:
  "bc_wf (bc\<lparr>bc_io_err := e\<rparr>) = bc_wf bc" "bc_wf (bc\<lparr>bc_dont_shake := d\<rparr>) = bc_wf bc"
  by (simp_all add: bc_wf_def buf_wf_def)

lemma same_cfg_disk_block:
  "same_cfg bd bd' \<Longrightarrow> bd_ctx bd' = bd_ctx bd \<Longrightarrow> disk_block content bd' = disk_block content bd"
  by (auto simp: disk_block_def same_cfg_blk_base fun_eq_iff) (simp add: same_cfg_def)

lemma bd_invD:
  assumes "bd_inv content bd"
  shows "io_ok content bd" "geom_ok bd" "bc_wf (bd_bc bd)" "bc_itemsize (bd_bc bd) = bd_lg_bsize bd"
    and "ext4_buf_lookup (bd_bc bd) l = Some b \<Longrightarrow> l < bd_lg_bcnt bd"
    and "ext4_buf_lookup (bd_bc bd) l = Some b \<Longrightarrow> ext4_bcache_test_flag b BC_UPTODATE \<Longrightarrow>
      \<not> ext4_bcache_test_flag b BC_DIRTY \<Longrightarrow> bf_data b = disk_block content bd l"
    and "ext4_buf_lookup (bd_bc bd) l = Some b \<Longrightarrow> buf_wf (bd_bc bd) b"
  using assms bc_wfD(6) [of "bd_bc bd" l b] by (auto simp: bd_inv_def)

text \<open>A step keeps the store: the invariant holds after it, and no block reads differently.\<close>

definition bd_keeps :: "('c \<Rightarrow> nat \<Rightarrow> u8) \<Rightarrow> 'c ext4_blockdev \<Rightarrow> 'c ext4_blockdev \<Rightarrow> bool" where
  "bd_keeps content bd bd' \<longleftrightarrow> bd_inv content bd' \<and> same_cfg bd bd' \<and>
     (\<forall>l. bd_view content bd' l = bd_view content bd l)"

lemma bd_keeps_refl: "bd_inv content bd \<Longrightarrow> bd_keeps content bd bd"
  by (simp add: bd_keeps_def)

lemma bd_keeps_trans: "bd_keeps content a b \<Longrightarrow> bd_keeps content b c \<Longrightarrow> bd_keeps content a c"
  using same_cfg_trans by (auto simp: bd_keeps_def)

text \<open>A step that leaves the medium alone keeps the store if it replaces each buffer by one with the
  same contents and validity, and marks none clean.\<close>

definition buf_le :: "ext4_buf \<Rightarrow> ext4_buf \<Rightarrow> bool" where
  "buf_le b b' \<longleftrightarrow> (ext4_bcache_test_flag b' BC_UPTODATE = ext4_bcache_test_flag b BC_UPTODATE) \<and>
     bf_data b' = bf_data b \<and> (ext4_bcache_test_flag b BC_DIRTY \<longrightarrow> ext4_bcache_test_flag b' BC_DIRTY)"

lemma bd_keeps_cache:
  assumes inv: "bd_inv content bd" and cfg: "same_cfg bd bd'" "bd_ctx bd' = bd_ctx bd"
    and wf: "bc_wf (bd_bc bd')" "bc_itemsize (bd_bc bd') = bc_itemsize (bd_bc bd)"
    and look: "\<And>l. rel_option buf_le (ext4_buf_lookup (bd_bc bd) l) (ext4_buf_lookup (bd_bc bd') l)"
  shows "bd_keeps content bd bd'"
proof -
  note disk = same_cfg_disk_block [OF cfg, of content]
  have "bd_inv content bd'"
    unfolding bd_inv_def same_cfg_io_ok [OF cfg(1)] same_cfg_geom_ok [OF cfg(1)] disk
  proof (intro conjI allI impI)
    show "bc_itemsize (bd_bc bd') = bd_lg_bsize bd'"
      using bd_invD(4) [OF inv] wf(2) cfg(1) by (simp add: same_cfg_def)
    fix l b assume b: "ext4_buf_lookup (bd_bc bd') l = Some b"
    then obtain b0 where b0: "ext4_buf_lookup (bd_bc bd) l = Some b0" "buf_le b0 b"
      using look [of l] by (auto simp: option_rel_Some2)
    show "l < bd_lg_bcnt bd'" using bd_invD(5) [OF inv b0(1)] cfg(1) by (simp add: same_cfg_def)
    assume "ext4_bcache_test_flag b BC_UPTODATE \<and> \<not> ext4_bcache_test_flag b BC_DIRTY"
    with bd_invD(6) [OF inv b0(1)] b0(2) show "bf_data b = disk_block content bd l"
      by (auto simp: buf_le_def)
  qed (use bd_invD(1,2) [OF inv] wf in simp_all)
  moreover have "bd_view content bd' l = bd_view content bd l" for l
    using look [of l] by (auto simp: bd_view_def disk buf_le_def rel_option_iff split: option.splits)
  ultimately show ?thesis using cfg(1) by (simp add: bd_keeps_def)
qed

lemma buf_le_refl [simp]: "buf_le b b" "rel_option buf_le ob ob"
  by (simp_all add: buf_le_def option.rel_refl)

lemma run_end_write_fields [simp]:
  "bd_ctx (run_end_write lba r bd) = bd_ctx bd"
  "ext4_buf_lookup (bd_bc (run_end_write lba r bd)) = ext4_buf_lookup (bd_bc bd)"
  "bc_wf (bd_bc (run_end_write lba r bd)) = bc_wf (bd_bc bd)"
  "bc_itemsize (bd_bc (run_end_write lba r bd)) = bc_itemsize (bd_bc bd)"
  "bc_lru_root (bd_bc (run_end_write lba r bd)) = bc_lru_root (bd_bc bd)"
  "bc_lru_ctr (bd_bc (run_end_write lba r bd)) = bc_lru_ctr (bd_bc bd)"
  "bc_dirty_list (bd_bc (run_end_write lba r bd)) = bc_dirty_list (bd_bc bd)"
  "bc_ref_blocks (bd_bc (run_end_write lba r bd)) = bc_ref_blocks (bd_bc bd)"
  "bc_cnt (bd_bc (run_end_write lba r bd)) = bc_cnt (bd_bc bd)"
  "bc_io_err (bd_bc (run_end_write lba r bd)) = bc_io_err (bd_bc bd)"
  "bc_lba_root (bd_bc (run_end_write lba r bd)) = bc_lba_root (bd_bc bd)"
  by (simp_all add: run_end_write_def map_bc_def split: option.split)

lemma run_end_write_cfg [simp]: "same_cfg bd (run_end_write lba r bd)"
  by (simp add: run_end_write_def map_bc_def same_cfg_def split: option.split)

lemma map_bc_fields [simp]:
  "bd_bc (map_bc f bd) = f (bd_bc bd)" "bd_ctx (map_bc f bd) = bd_ctx bd"
  "bd_ended (map_bc f bd) = bd_ended bd" "bd_lg_bcnt (map_bc f bd) = bd_lg_bcnt bd"
  "bd_cache_write_back (map_bc f bd) = bd_cache_write_back bd"
  by (simp_all add: map_bc_def)

subsection \<open>Flushing one buffer\<close>

definition clean_buf :: "ext4_buf \<Rightarrow> ext4_buf" where
  "clean_buf b = ext4_bcache_clear_flag BC_DIRTY (b\<lparr>bf_on_dirty_list := False\<rparr>)"

lemma flush_fail:
  assumes inv: "bd_inv content bd" and buf: "ext4_buf_lookup (bd_bc bd) lba = Some buf"
    and dirty: "ext4_bcache_test_flag buf BC_DIRTY"
    and w: "ext4_blocks_set_direct (bf_data buf) lba 1 bd = (r, bd1)"
  shows "bd_keeps content bd bd1"
proof -
  have up: "ext4_bcache_test_flag buf BC_UPTODATE" and len: "length (bf_data buf) = unat (bd_lg_bsize bd)"
    using bd_invD(7) [OF inv buf] bd_invD(4) [OF inv] dirty by (auto simp: buf_wf_def)
  note sd = set_direct_spec [OF bd_invD(1,2) [OF inv] bd_invD(5) [OF inv buf] len w]
  have "bd_inv content bd1"
    unfolding bd_inv_def same_cfg_io_ok [OF sd(1)] same_cfg_geom_ok [OF sd(1)] sd(2)
  proof (intro conjI allI impI)
    fix l b assume b: "ext4_buf_lookup (bd_bc bd) l = Some b"
    then show "l < bd_lg_bcnt bd1" using bd_invD(5) [OF inv b] sd(1) by (simp add: same_cfg_def)
    assume fl: "ext4_bcache_test_flag b BC_UPTODATE \<and> \<not> ext4_bcache_test_flag b BC_DIRTY"
    with b buf dirty have "l \<noteq> lba" by auto
    with bd_invD(6) [OF inv b] fl sd(4) show "bf_data b = disk_block content bd1 l" by simp
  qed (use bd_invD(1-4) [OF inv] sd(1) in \<open>simp_all add: same_cfg_def\<close>)
  moreover have "bd_view content bd1 l = bd_view content bd l" for l
    using sd(4) [of l] buf up by (cases "l = lba") (auto simp: bd_view_def sd(2) split: option.split)
  ultimately show ?thesis using sd(1) by (simp add: bd_keeps_def)
qed

lemma clean_buf_fields [simp]:
  "bf_lba (clean_buf b) = bf_lba b" "bf_data (clean_buf b) = bf_data b" "bf_refctr (clean_buf b) = bf_refctr b"
  "bf_lru_id (clean_buf b) = bf_lru_id b" "\<not> bf_on_dirty_list (clean_buf b)"
  "ext4_bcache_test_flag (clean_buf b) x \<longleftrightarrow> x \<noteq> BC_DIRTY \<and> ext4_bcache_test_flag b x"
  by (auto simp: clean_buf_def)

lemma remove_dirty_fields [simp]:
  "bc_itemsize (ext4_bcache_remove_dirty_node lba bc) = bc_itemsize bc"
  "bc_lru_root (ext4_bcache_remove_dirty_node lba bc) = bc_lru_root bc"
  "bc_lru_ctr (ext4_bcache_remove_dirty_node lba bc) = bc_lru_ctr bc"
  "bc_ref_blocks (ext4_bcache_remove_dirty_node lba bc) = bc_ref_blocks bc"
  "bc_cnt (ext4_bcache_remove_dirty_node lba bc) = bc_cnt bc"
  "bc_io_err (ext4_bcache_remove_dirty_node lba bc) = bc_io_err bc"
  by (simp_all add: ext4_bcache_remove_dirty_node_def split: option.split)

lemma flush_mark_clean:
  assumes inv: "bd_inv content bd" and buf: "ext4_buf_lookup (bd_bc bd) lba = Some buf"
    and disk: "disk_block content bd lba = bf_data buf" and up: "ext4_bcache_test_flag buf BC_UPTODATE"
  defines "bd2 \<equiv> map_bc (upd_buf lba (ext4_bcache_clear_flag BC_DIRTY)) (map_bc (ext4_bcache_remove_dirty_node lba) bd)"
  shows "bd_keeps content bd bd2"
    and "ext4_buf_lookup (bd_bc bd2) l = (if l = lba then Some (clean_buf buf) else ext4_buf_lookup (bd_bc bd) l)"
proof -
  have look: "ext4_buf_lookup (bd_bc bd2) l = (if l = lba then Some (clean_buf buf) else ext4_buf_lookup (bd_bc bd) l)" for l
    by (auto simp: bd2_def bc_lookup lookup_remove_dirty buf clean_buf_def)
  have cfg: "same_cfg bd bd2" "bd_ctx bd2 = bd_ctx bd"
    unfolding bd2_def using same_cfg_trans [OF same_cfg_bc(1) same_cfg_bc(1)] by (simp_all add: map_bc_def)
  have "bc_wf (bd_bc bd2)"
    unfolding bd2_def map_bc_fields
  proof (rule wf_upd [OF wf_remove_dirty [OF bd_invD(3) [OF inv]]])
    fix b assume "ext4_buf_lookup (ext4_bcache_remove_dirty_node lba (bd_bc bd)) lba = Some b"
    then have "b = buf\<lparr>bf_on_dirty_list := False\<rparr>" by (simp add: lookup_remove_dirty buf)
    then show "bf_refctr (ext4_bcache_clear_flag BC_DIRTY b) = bf_refctr b \<and>
        bf_lru_id (ext4_bcache_clear_flag BC_DIRTY b) = bf_lru_id b \<and>
        bf_on_dirty_list (ext4_bcache_clear_flag BC_DIRTY b) = bf_on_dirty_list b \<and>
        buf_wf (ext4_bcache_remove_dirty_node lba (bd_bc bd)) (ext4_bcache_clear_flag BC_DIRTY b)"
      using bd_invD(7) [OF inv buf] by (simp add: buf_wf_def)
  qed simp
  moreover have "bc_itemsize (bd_bc bd2) = bc_itemsize (bd_bc bd)" by (simp add: bd2_def)
  moreover have "l < bd_lg_bcnt bd2" "ext4_bcache_test_flag b BC_UPTODATE \<Longrightarrow>
      \<not> ext4_bcache_test_flag b BC_DIRTY \<Longrightarrow> bf_data b = disk_block content bd l"
    if "ext4_buf_lookup (bd_bc bd2) l = Some b" for l b
    using that bd_invD(5,6) [OF inv, of l] buf disk cfg by (auto simp: look same_cfg_def split: if_splits)
  ultimately have "bd_inv content bd2"
    using bd_invD(1,2,4) [OF inv] cfg
    by (simp add: bd_inv_def same_cfg_io_ok same_cfg_geom_ok same_cfg_disk_block) (simp add: same_cfg_def)
  moreover have "bd_view content bd2 l = bd_view content bd l" for l
    using buf up unfolding bd_view_def look same_cfg_disk_block [OF cfg] by simp
  ultimately show "bd_keeps content bd bd2" using cfg by (simp add: bd_keeps_def)
  show "ext4_buf_lookup (bd_bc bd2) l = (if l = lba then Some (clean_buf buf) else ext4_buf_lookup (bd_bc bd) l)"
    by (rule look)
qed

lemma bd_keeps_end_write: "bd_inv content bd \<Longrightarrow> bd_keeps content bd (run_end_write lba r bd)"
  by (rule bd_keeps_cache) (simp_all add: bd_invD)

lemma flush_buf_spec:
  assumes inv: "bd_inv content bd" and fl: "ext4_block_flush_buf lba bd = (r, bd')"
  shows "bd_keeps content bd bd'"
    and "ext4_buf_lookup (bd_bc bd') l = (if l = lba \<and> r = EOK
      then map_option (\<lambda>b. if ext4_bcache_test_flag b BC_DIRTY then clean_buf b else b) (ext4_buf_lookup (bd_bc bd) l)
      else ext4_buf_lookup (bd_bc bd) l)"
    and "bc_lru_root (bd_bc bd') = bc_lru_root (bd_bc bd)" "bc_lru_ctr (bd_bc bd') = bc_lru_ctr (bd_bc bd)"
      "bc_ref_blocks (bd_bc bd') = bc_ref_blocks (bd_bc bd)" "bc_cnt (bd_bc bd') = bc_cnt (bd_bc bd)"
      "bc_io_err (bd_bc bd') = bc_io_err (bd_bc bd)"
    and "bc_dirty_list (bd_bc bd') = (if r = EOK then remove1 lba (bc_dirty_list (bd_bc bd)) else bc_dirty_list (bd_bc bd))"
proof -
  have "bd_keeps content bd bd' \<and> (\<forall>l. ext4_buf_lookup (bd_bc bd') l = (if l = lba \<and> r = EOK
      then map_option (\<lambda>b. if ext4_bcache_test_flag b BC_DIRTY then clean_buf b else b) (ext4_buf_lookup (bd_bc bd) l)
      else ext4_buf_lookup (bd_bc bd) l)) \<and>
    bc_lru_root (bd_bc bd') = bc_lru_root (bd_bc bd) \<and> bc_lru_ctr (bd_bc bd') = bc_lru_ctr (bd_bc bd) \<and>
    bc_ref_blocks (bd_bc bd') = bc_ref_blocks (bd_bc bd) \<and> bc_cnt (bd_bc bd') = bc_cnt (bd_bc bd) \<and>
    bc_io_err (bd_bc bd') = bc_io_err (bd_bc bd) \<and>
    bc_dirty_list (bd_bc bd') = (if r = EOK then remove1 lba (bc_dirty_list (bd_bc bd)) else bc_dirty_list (bd_bc bd))"
    (is "?P bd'")
  proof (cases "\<exists>buf. ext4_buf_lookup (bd_bc bd) lba = Some buf \<and> ext4_bcache_test_flag buf BC_DIRTY")
    case False
    then have "lba \<notin> set (bc_dirty_list (bd_bc bd))"
      using bc_wfD(5) [OF bd_invD(3) [OF inv], of lba] bd_invD(7) [OF inv, of lba] by (auto simp: buf_wf_def)
    moreover have "r = EOK" "bd' = bd"
      using False fl by (auto simp: ext4_block_flush_buf_def split: option.splits if_splits)
    ultimately show ?thesis
      using False bd_keeps_refl [OF inv] by (cases "ext4_buf_lookup (bd_bc bd) lba") (auto simp: remove1_idem)
  next
    case True
    then obtain buf where buf: "ext4_buf_lookup (bd_bc bd) lba = Some buf" "ext4_bcache_test_flag buf BC_DIRTY" by auto
    have up: "ext4_bcache_test_flag buf BC_UPTODATE" and len: "length (bf_data buf) = unat (bd_lg_bsize bd)"
      using bd_invD(7) [OF inv buf(1)] bd_invD(4) [OF inv] buf(2) by (auto simp: buf_wf_def)
    obtain r1 bd1 where w: "ext4_blocks_set_direct (bf_data buf) lba 1 bd = (r1, bd1)" by fastforce
    note sd = set_direct_spec [OF bd_invD(1,2) [OF inv] bd_invD(5) [OF inv buf(1)] len w]
    note k1 = flush_fail [OF inv buf w]
    then have inv1: "bd_inv content bd1" by (simp add: bd_keeps_def)
    show ?thesis
    proof (cases "r1 = EOK")
      case False
      then have "r = r1" "bd' = run_end_write lba r1 bd1" using fl buf up w by (auto simp: ext4_block_flush_buf_def)
      with False bd_keeps_trans [OF k1 bd_keeps_end_write [OF inv1]] sd(2) show ?thesis by simp
    next
      case True
      let ?bd2 = "map_bc (upd_buf lba (ext4_bcache_clear_flag BC_DIRTY)) (map_bc (ext4_bcache_remove_dirty_node lba) bd1)"
      have r: "r = EOK" "bd' = run_end_write lba EOK ?bd2"
        using fl buf up w True by (auto simp: ext4_block_flush_buf_def)
      note mc = flush_mark_clean [OF inv1 buf(1) [folded sd(2)] sd(5) [OF True] up]
      have dl: "bc_dirty_list (bd_bc ?bd2) = remove1 lba (bc_dirty_list (bd_bc bd))"
        using remove_dirty_eq [OF bc_wfD(1) [OF bd_invD(3) [OF inv]] bc_wfD(5) [OF bd_invD(3) [OF inv]]] by (simp add: sd(2))
      have "bd_inv content ?bd2" using mc(1) by (simp add: bd_keeps_def)
      then have "bd_keeps content bd bd'"
        unfolding r by (intro bd_keeps_trans [OF k1 bd_keeps_trans [OF mc(1) bd_keeps_end_write]])
      moreover have "ext4_buf_lookup (bd_bc bd') l = (if l = lba then Some (clean_buf buf) else ext4_buf_lookup (bd_bc bd) l)" for l
        using mc(2) by (simp add: r sd(2))
      ultimately show ?thesis using dl by (simp add: r buf sd(2))
    qed
  qed
  then show "bd_keeps content bd bd'"
    "ext4_buf_lookup (bd_bc bd') l = (if l = lba \<and> r = EOK
      then map_option (\<lambda>b. if ext4_bcache_test_flag b BC_DIRTY then clean_buf b else b) (ext4_buf_lookup (bd_bc bd) l)
      else ext4_buf_lookup (bd_bc bd) l)"
    "bc_lru_root (bd_bc bd') = bc_lru_root (bd_bc bd)" "bc_lru_ctr (bd_bc bd') = bc_lru_ctr (bd_bc bd)"
    "bc_ref_blocks (bd_bc bd') = bc_ref_blocks (bd_bc bd)" "bc_cnt (bd_bc bd') = bc_cnt (bd_bc bd)"
    "bc_io_err (bd_bc bd') = bc_io_err (bd_bc bd)"
    "bc_dirty_list (bd_bc bd') = (if r = EOK then remove1 lba (bc_dirty_list (bd_bc bd)) else bc_dirty_list (bd_bc bd))"
    by blast+
qed

subsection \<open>Releasing a reference\<close>

text \<open>Nothing is owed: every unreferenced dirty buffer is on the dirty list or has its failed flush
  latched.\<close>

definition bd_owed :: "'c ext4_blockdev \<Rightarrow> bool" where
  "bd_owed bd \<longleftrightarrow> (\<forall>l b. ext4_buf_lookup (bd_bc bd) l = Some b \<longrightarrow> ext4_bcache_test_flag b BC_DIRTY \<longrightarrow>
     bf_refctr b = 0 \<longrightarrow> bf_on_dirty_list b \<or> bc_io_err (bd_bc bd) \<noteq> EOK)"

lemma latch_error_fields [simp]:
  "ext4_buf_lookup (bd_bc (latch_error r bd)) = ext4_buf_lookup (bd_bc bd)"
  "bc_wf (bd_bc (latch_error r bd)) = bc_wf (bd_bc bd)"
  "bc_itemsize (bd_bc (latch_error r bd)) = bc_itemsize (bd_bc bd)"
  "bc_lru_ctr (bd_bc (latch_error r bd)) = bc_lru_ctr (bd_bc bd)"
  "bd_ctx (latch_error r bd) = bd_ctx bd"
  "bc_io_err (bd_bc (latch_error r bd)) = (if bc_io_err (bd_bc bd) = EOK then r else bc_io_err (bd_bc bd))"
  by (simp_all add: latch_error_def)

lemma latch_error_cfg [simp]: "same_cfg bd (latch_error r bd)"
  by (simp add: latch_error_def)

lemma bd_keeps_latch: "bd_inv content bd \<Longrightarrow> bd_keeps content bd (latch_error r bd)"
  by (rule bd_keeps_cache) (simp_all add: bd_invD)

lemma bd_keeps_upd:
  assumes inv: "bd_inv content bd" and f: "\<And>b. bf_lba b = lba \<Longrightarrow> bf_lba (f b) = lba"
    and upd: "\<And>b. ext4_buf_lookup (bd_bc bd) lba = Some b \<Longrightarrow> bf_refctr (f b) = bf_refctr b \<and>
      bf_lru_id (f b) = bf_lru_id b \<and> bf_on_dirty_list (f b) = bf_on_dirty_list b \<and> buf_wf (bd_bc bd) (f b) \<and> buf_le b (f b)"
  shows "bd_keeps content bd (map_bc (upd_buf lba f) bd)"
proof (rule bd_keeps_cache [OF inv])
  show "bc_wf (bd_bc (map_bc (upd_buf lba f) bd))"
    unfolding map_bc_fields by (rule wf_upd [OF bd_invD(3) [OF inv] f]) (use upd in blast)+
  show "rel_option buf_le (ext4_buf_lookup (bd_bc bd) l) (ext4_buf_lookup (bd_bc (map_bc (upd_buf lba f) bd)) l)" for l
    using upd by (cases "ext4_buf_lookup (bd_bc bd) l") (auto simp: lookup_upd [OF f])
qed simp_all

lemma insert_dirty_fields [simp]:
  "bc_itemsize (ext4_bcache_insert_dirty_node lba bc) = bc_itemsize bc"
  "bc_lru_ctr (ext4_bcache_insert_dirty_node lba bc) = bc_lru_ctr bc"
  "bc_io_err (ext4_bcache_insert_dirty_node lba bc) = bc_io_err bc"
  by (simp_all add: ext4_bcache_insert_dirty_node_def split: option.split)

lemma lookup_insert_dirty:
  "ext4_buf_lookup (ext4_bcache_insert_dirty_node lba bc) l = (if l = lba
     then map_option (\<lambda>b. b\<lparr>bf_on_dirty_list := True\<rparr>) (ext4_buf_lookup bc l) else ext4_buf_lookup bc l)"
  by (cases "ext4_buf_lookup bc lba") (auto simp: ext4_bcache_insert_dirty_node_def bc_lookup)

lemma release_dirty_spec:
  assumes inv: "bd_inv content bd" and buf: "ext4_buf_lookup (bd_bc bd) lba = Some buf" "bf_refctr buf = 0"
  defines "bd' \<equiv> release_dirty lba buf bd"
  shows "bd_keeps content bd bd'"
    and "l \<noteq> lba \<Longrightarrow> ext4_buf_lookup (bd_bc bd') l = ext4_buf_lookup (bd_bc bd) l"
    and "\<exists>b. ext4_buf_lookup (bd_bc bd') lba = Some b \<and> bf_refctr b = 0 \<and>
      ext4_bcache_test_flag b BC_UPTODATE = ext4_bcache_test_flag buf BC_UPTODATE \<and>
      ext4_bcache_test_flag b BC_TMP = ext4_bcache_test_flag buf BC_TMP \<and>
      (ext4_bcache_test_flag b BC_DIRTY \<longrightarrow> ext4_bcache_test_flag buf BC_DIRTY) \<and>
      (ext4_bcache_test_flag b BC_DIRTY \<longrightarrow> bc_io_err (bd_bc bd') \<noteq> EOK \<or>
         bf_on_dirty_list b \<and> \<not> ext4_bcache_test_flag b BC_TMP)"
    and "bc_io_err (bd_bc bd) \<noteq> EOK \<Longrightarrow> bc_io_err (bd_bc bd') \<noteq> EOK"
    and "bc_lru_ctr (bd_bc bd') = bc_lru_ctr (bd_bc bd)"
proof -
  note bw = bd_invD(7) [OF inv buf(1)]
  consider (clean) "\<not> ext4_bcache_test_flag buf BC_DIRTY" "bd' = bd"
    | (list) "ext4_bcache_test_flag buf BC_DIRTY" "\<not> ext4_bcache_test_flag buf BC_TMP"
        "bd' = map_bc (ext4_bcache_insert_dirty_node lba) bd"
    | (flush) r bd1 where "ext4_bcache_test_flag buf BC_DIRTY" "ext4_block_flush_buf lba bd = (r, bd1)"
        "bd' = map_bc (upd_buf lba (ext4_bcache_clear_flag BC_FLUSH)) (latch_error r bd1)"
  proof -
    obtain r bd1 where fl: "ext4_block_flush_buf lba bd = (r, bd1)" by fastforce
    let ?w = "bd_cache_write_back bd \<noteq> 0 \<and> \<not> ext4_bcache_test_flag buf BC_FLUSH \<and> \<not> ext4_bcache_test_flag buf BC_TMP"
    have up: "ext4_bcache_test_flag buf BC_DIRTY \<Longrightarrow> ext4_bcache_test_flag buf BC_UPTODATE" using bw by (simp add: buf_wf_def)
    have "bd' = (if ext4_bcache_test_flag buf BC_DIRTY then if ?w then map_bc (ext4_bcache_insert_dirty_node lba) bd
        else map_bc (upd_buf lba (ext4_bcache_clear_flag BC_FLUSH)) (latch_error r bd1) else bd)"
      using up unfolding bd'_def release_dirty_def fl by simp
    with fl that show ?thesis by (cases "ext4_bcache_test_flag buf BC_DIRTY"; cases ?w) simp_all
  qed
  then have "bd_keeps content bd bd' \<and> (\<forall>l. l \<noteq> lba \<longrightarrow> ext4_buf_lookup (bd_bc bd') l = ext4_buf_lookup (bd_bc bd) l) \<and>
    (\<exists>b. ext4_buf_lookup (bd_bc bd') lba = Some b \<and> bf_refctr b = 0 \<and>
      ext4_bcache_test_flag b BC_UPTODATE = ext4_bcache_test_flag buf BC_UPTODATE \<and>
      ext4_bcache_test_flag b BC_TMP = ext4_bcache_test_flag buf BC_TMP \<and>
      (ext4_bcache_test_flag b BC_DIRTY \<longrightarrow> ext4_bcache_test_flag buf BC_DIRTY) \<and>
      (ext4_bcache_test_flag b BC_DIRTY \<longrightarrow> bc_io_err (bd_bc bd') \<noteq> EOK \<or>
         bf_on_dirty_list b \<and> \<not> ext4_bcache_test_flag b BC_TMP)) \<and>
    (bc_io_err (bd_bc bd) \<noteq> EOK \<longrightarrow> bc_io_err (bd_bc bd') \<noteq> EOK) \<and>
    bc_lru_ctr (bd_bc bd') = bc_lru_ctr (bd_bc bd)"
  proof cases
    case clean
    with bd_keeps_refl [OF inv] buf show ?thesis by simp
  next
    case list
    have "bd_keeps content bd bd'"
      unfolding list(3)
    proof (rule bd_keeps_cache [OF inv])
      show "rel_option buf_le (ext4_buf_lookup (bd_bc bd) l)
          (ext4_buf_lookup (bd_bc (map_bc (ext4_bcache_insert_dirty_node lba) bd)) l)" for l
        by (cases "ext4_buf_lookup (bd_bc bd) l") (auto simp: lookup_insert_dirty buf_le_def)
    qed (simp_all add: wf_insert_dirty [OF bd_invD(3) [OF inv] buf(1) list(1) buf(2)])
    with list buf show ?thesis by (simp add: lookup_insert_dirty)
  next
    case flush
    note fs = flush_buf_spec [OF inv flush(2)]
    have inv1: "bd_inv content bd1" using fs(1) by (simp add: bd_keeps_def)
    note k2 = bd_keeps_latch [OF inv1, of r]
    then have inv2: "bd_inv content (latch_error r bd1)" by (simp add: bd_keeps_def)
    have "bd_keeps content (latch_error r bd1) bd'"
      unfolding flush(3)
    proof (rule bd_keeps_upd [OF inv2])
      fix b assume "ext4_buf_lookup (bd_bc (latch_error r bd1)) lba = Some b"
      with bd_invD(7) [OF inv2] show "bf_refctr (ext4_bcache_clear_flag BC_FLUSH b) = bf_refctr b \<and>
        bf_lru_id (ext4_bcache_clear_flag BC_FLUSH b) = bf_lru_id b \<and>
        bf_on_dirty_list (ext4_bcache_clear_flag BC_FLUSH b) = bf_on_dirty_list b \<and>
        buf_wf (bd_bc (latch_error r bd1)) (ext4_bcache_clear_flag BC_FLUSH b) \<and> buf_le b (ext4_bcache_clear_flag BC_FLUSH b)"
        by (auto simp: buf_wf_def buf_le_def)
    qed simp
    then have "bd_keeps content bd bd'" by (rule bd_keeps_trans [OF fs(1) bd_keeps_trans [OF k2]])
    then show ?thesis using fs(2) [of lba] fs(2) fs(4,7) buf flush(1)
      by (cases "r = EOK") (auto simp: flush(3) bc_lookup)
  qed
  then show "bd_keeps content bd bd'"
    "l \<noteq> lba \<Longrightarrow> ext4_buf_lookup (bd_bc bd') l = ext4_buf_lookup (bd_bc bd) l"
    "\<exists>b. ext4_buf_lookup (bd_bc bd') lba = Some b \<and> bf_refctr b = 0 \<and>
      ext4_bcache_test_flag b BC_UPTODATE = ext4_bcache_test_flag buf BC_UPTODATE \<and>
      ext4_bcache_test_flag b BC_TMP = ext4_bcache_test_flag buf BC_TMP \<and>
      (ext4_bcache_test_flag b BC_DIRTY \<longrightarrow> ext4_bcache_test_flag buf BC_DIRTY) \<and>
      (ext4_bcache_test_flag b BC_DIRTY \<longrightarrow> bc_io_err (bd_bc bd') \<noteq> EOK \<or>
         bf_on_dirty_list b \<and> \<not> ext4_bcache_test_flag b BC_TMP)"
    "bc_io_err (bd_bc bd) \<noteq> EOK \<Longrightarrow> bc_io_err (bd_bc bd') \<noteq> EOK"
    "bc_lru_ctr (bd_bc bd') = bc_lru_ctr (bd_bc bd)"
    by blast+
qed

lemma bd_keeps_dec_ref:
  assumes inv: "bd_inv content bd" and buf: "ext4_buf_lookup (bd_bc bd) lba = Some buf" "bf_refctr buf \<noteq> 0"
  shows "bd_keeps content bd (map_bc (dec_ref lba buf) bd)"
proof (rule bd_keeps_cache [OF inv])
  show "bc_itemsize (bd_bc (map_bc (dec_ref lba buf) bd)) = bc_itemsize (bd_bc bd)"
    by (simp add: dec_ref_def Let_def lru_insert_def)
  show "rel_option buf_le (ext4_buf_lookup (bd_bc bd) l) (ext4_buf_lookup (bd_bc (map_bc (dec_ref lba buf) bd)) l)" for l
    using buf by (auto simp: lookup_dec_ref buf_le_def)
qed (simp_all add: wf_dec_ref [OF bd_invD(3) [OF inv] buf])

lemma drop_fields [simp]:
  "bc_itemsize (ext4_bcache_drop_buf lba bc) = bc_itemsize bc"
  "bc_lru_ctr (ext4_bcache_drop_buf lba bc) = bc_lru_ctr bc"
  "bc_io_err (ext4_bcache_drop_buf lba bc) = bc_io_err bc"
  "bc_cnt (ext4_bcache_drop_buf lba bc) = bc_cnt bc"
  by (simp_all add: ext4_bcache_drop_buf_def Let_def lba_remove_def lru_remove_def split: option.split)

lemma drop_inv:
  assumes inv: "bd_inv content bd" and buf: "ext4_buf_lookup (bd_bc bd) lba = Some buf"
  shows "bd_inv content (map_bc (ext4_bcache_drop_buf lba) bd)"
    and "\<not> ext4_bcache_test_flag buf BC_DIRTY \<Longrightarrow> bd_keeps content bd (map_bc (ext4_bcache_drop_buf lba) bd)"
proof -
  let ?bd = "map_bc (ext4_bcache_drop_buf lba) bd"
  have disk: "disk_block content ?bd = disk_block content bd"
    by (rule same_cfg_disk_block) simp_all
  show inv': "bd_inv content ?bd"
    using bd_invD(1,2,4,5,6) [OF inv] wf_drop [OF bd_invD(3) [OF inv] buf]
    by (auto simp: bd_inv_def disk lookup_drop same_cfg_io_ok [OF same_cfg_bc(1)] same_cfg_geom_ok [OF same_cfg_bc(1)]
        split: if_splits) (simp_all add: map_bc_def)
  assume clean: "\<not> ext4_bcache_test_flag buf BC_DIRTY"
  have "bd_view content ?bd l = bd_view content bd l" for l
    using bd_invD(6) [OF inv buf] clean unfolding bd_view_def disk map_bc_fields lookup_drop
    by (cases "l = lba") (simp_all add: buf)
  with inv' show "bd_keeps content bd ?bd" by (simp add: bd_keeps_def)
qed

text \<open>Releasing a handle never fails and never loses data silently: either every block reads as
  before, or the buffer was temporary and the error of its write is latched.\<close>

lemma free_spec:
  assumes inv: "bd_inv content bd" and h: "blk_buf h = Some lba"
    and buf: "ext4_buf_lookup (bd_bc bd) lba = Some buf" "bf_refctr buf \<noteq> 0"
  shows "\<exists>bd'. ext4_bcache_free h bd = Some (EOK, h\<lparr>lb_id := 0\<rparr>, bd') \<and> bd_inv content bd' \<and> same_cfg bd bd' \<and>
    (bd_keeps content bd bd' \<or> ext4_bcache_test_flag buf BC_TMP \<and> ext4_bcache_test_flag buf BC_DIRTY \<and>
       bc_io_err (bd_bc bd') \<noteq> EOK) \<and>
    (\<forall>l. l \<noteq> lba \<longrightarrow> ext4_buf_lookup (bd_bc bd') l = ext4_buf_lookup (bd_bc bd) l) \<and>
    (bd_owed bd \<longrightarrow> bd_owed bd') \<and> bc_lru_ctr (bd_bc bd') = bc_lru_ctr (bd_bc bd)"
proof -
  let ?b1 = "buf\<lparr>bf_refctr := bf_refctr buf - 1\<rparr>" and ?bd1 = "map_bc (dec_ref lba buf) bd"
  note k1 = bd_keeps_dec_ref [OF inv buf]
  then have inv1: "bd_inv content ?bd1" by (simp add: bd_keeps_def)
  have look1: "ext4_buf_lookup (bd_bc ?bd1) l = (if l = lba then Some ?b1 else ext4_buf_lookup (bd_bc bd) l)" for l
    using buf by (simp add: lookup_dec_ref)
  have ctr1: "bc_lru_ctr (bd_bc ?bd1) = bc_lru_ctr (bd_bc bd)" "bc_io_err (bd_bc ?bd1) = bc_io_err (bd_bc bd)"
    by (simp_all add: dec_ref_def Let_def lru_insert_def)
  show ?thesis
  proof (cases "bf_refctr ?b1 = 0")
    case False
    then have "ext4_bcache_free h bd = Some (EOK, h\<lparr>lb_id := 0\<rparr>, ?bd1)"
      using buf by (simp add: ext4_bcache_free_def h Let_def dec_ref_def map_bc_def)
    moreover have "bd_owed bd \<longrightarrow> bd_owed ?bd1"
      using False buf unfolding bd_owed_def look1 ctr1 by (auto split: if_splits)
    ultimately show ?thesis using k1 inv1 ctr1 look1 by (simp add: bd_keeps_def)
  next
    case True
    let ?bd2 = "release_dirty lba ?b1 ?bd1"
    have "ext4_buf_lookup (bd_bc ?bd1) lba = Some ?b1" using look1 [of lba] by simp
    note rel = release_dirty_spec [OF inv1 this True]
    then have inv2: "bd_inv content ?bd2" and cfg2: "same_cfg ?bd1 ?bd2" by (auto simp: bd_keeps_def)
    from rel(3) obtain b2 where b2: "ext4_buf_lookup (bd_bc ?bd2) lba = Some b2" "bf_refctr b2 = 0"
      "ext4_bcache_test_flag b2 BC_UPTODATE = ext4_bcache_test_flag buf BC_UPTODATE"
      "ext4_bcache_test_flag b2 BC_TMP = ext4_bcache_test_flag buf BC_TMP"
      "ext4_bcache_test_flag b2 BC_DIRTY \<longrightarrow> ext4_bcache_test_flag buf BC_DIRTY"
      "ext4_bcache_test_flag b2 BC_DIRTY \<longrightarrow> bc_io_err (bd_bc ?bd2) \<noteq> EOK \<or>
         bf_on_dirty_list b2 \<and> \<not> ext4_bcache_test_flag b2 BC_TMP"
      by auto
    define drop where "drop \<longleftrightarrow> \<not> ext4_bcache_test_flag b2 BC_UPTODATE \<or> ext4_bcache_test_flag b2 BC_TMP"
    define bd3 where "bd3 = (if drop then map_bc (ext4_bcache_drop_buf lba) ?bd2 else ?bd2)"
    have eq1: "map_bc (lru_insert (bf_lru_id ?b1) lba) (map_bc (upd_buf lba (\<lambda>_. ?b1)) bd) = ?bd1"
      using True by (simp add: dec_ref_def Let_def map_bc_def)
    have free: "ext4_bcache_free h bd = Some (EOK, h\<lparr>lb_id := 0\<rparr>, bd3)"
      unfolding ext4_bcache_free_def h option.case buf(1) Let_def if_not_P [OF buf(2)] if_P [OF True]
        eq1 b2(1) bd3_def drop_def by (rule refl)
    have dirty: "ext4_bcache_test_flag b2 BC_DIRTY \<Longrightarrow> ext4_bcache_test_flag b2 BC_UPTODATE"
      using bd_invD(7) [OF inv2 b2(1)] by (simp add: buf_wf_def)
    have inv3: "bd_inv content bd3" using drop_inv(1) [OF inv2 b2(1)] inv2 by (simp add: bd3_def)
    have cfg3: "same_cfg bd bd3"
      using same_cfg_trans [OF same_cfg_bc(1) cfg2] same_cfg_trans [OF same_cfg_trans [OF same_cfg_bc(1) cfg2] same_cfg_bc(1)]
      by (simp add: bd3_def)
    have k12: "bd_keeps content bd ?bd2" using bd_keeps_trans [OF k1 rel(1)] .
    have k3: "bd_keeps content bd bd3" if "\<not> (drop \<and> ext4_bcache_test_flag b2 BC_DIRTY)"
      using that bd_keeps_trans [OF k12 drop_inv(2) [OF inv2 b2(1)]] k12 by (auto simp: bd3_def)
    have tmp: "ext4_bcache_test_flag buf BC_TMP \<and> ext4_bcache_test_flag buf BC_DIRTY \<and> bc_io_err (bd_bc bd3) \<noteq> EOK"
      if "drop" "ext4_bcache_test_flag b2 BC_DIRTY"
      using that b2(4-6) dirty by (auto simp: drop_def bd3_def)
    have look3: "ext4_buf_lookup (bd_bc bd3) l = ext4_buf_lookup (bd_bc bd) l" if "l \<noteq> lba" for l
      using that rel(2) [OF that] look1 by (simp add: bd3_def lookup_drop)
    have "bd_owed bd3" if ow: "bd_owed bd"
      unfolding bd_owed_def
    proof (intro allI impI)
      fix l b assume b: "ext4_buf_lookup (bd_bc bd3) l = Some b" "ext4_bcache_test_flag b BC_DIRTY" "bf_refctr b = 0"
      have err: "bc_io_err (bd_bc bd) \<noteq> EOK \<Longrightarrow> bc_io_err (bd_bc bd3) \<noteq> EOK"
        using rel(4) ctr1 by (simp add: bd3_def)
      show "bf_on_dirty_list b \<or> bc_io_err (bd_bc bd3) \<noteq> EOK"
      proof (cases "l = lba")
        case True
        with b b2 show ?thesis by (auto simp: bd3_def lookup_drop split: if_splits)
      next
        case False
        with ow b err look3 show ?thesis by (auto simp: bd_owed_def)
      qed
    qed
    moreover have "bc_lru_ctr (bd_bc bd3) = bc_lru_ctr (bd_bc bd)" using rel(5) ctr1 by (simp add: bd3_def)
    ultimately show ?thesis using free inv3 cfg3 k3 tmp look3 by blast
  qed
qed

subsection \<open>Making room keeps every block\<close>

lemma shake_loop_spec:
  assumes "bd_inv content bd"
  shows "case shake_loop bd of (r, bd') \<Rightarrow> bd_keeps content bd bd' \<and>
    bc_lru_ctr (bd_bc bd') = bc_lru_ctr (bd_bc bd) \<and> bc_io_err (bd_bc bd') = bc_io_err (bd_bc bd) \<and>
    (\<forall>l b. ext4_buf_lookup (bd_bc bd) l = Some b \<and> bf_refctr b \<noteq> 0 \<longrightarrow> ext4_buf_lookup (bd_bc bd') l = Some b) \<and>
    (\<forall>l b. ext4_buf_lookup (bd_bc bd') l = Some b \<longrightarrow> ext4_buf_lookup (bd_bc bd) l = Some b) \<and>
    (r = EOK \<longrightarrow> bc_lru_root (bd_bc bd') = [] \<or> \<not> ext4_bcache_is_full (bd_bc bd'))"
  using assms
proof (induction bd rule: shake_loop.induct)
  case (1 bd)
  note inv = "1.prems"
  show ?case
  proof (cases "bc_lru_root (bd_bc bd) = [] \<or> \<not> ext4_bcache_is_full (bd_bc bd)")
    case True
    then have "shake_loop bd = (EOK, bd)"
      by (subst shake_loop.simps) (auto simp: ext4_buf_lowest_lru_def split: list.split)
    with True bd_keeps_refl [OF inv] show ?thesis by simp
  next
    case False
    then obtain i lba rest where lru: "bc_lru_root (bd_bc bd) = (i, lba) # rest" by (metis list.exhaust surj_pair)
    then have low: "ext4_buf_lowest_lru (bd_bc bd) = Some lba" by (simp add: ext4_buf_lowest_lru_def)
    have full: "\<not> \<not> ext4_bcache_is_full (bd_bc bd)" using False by simp
    obtain buf where buf: "ext4_buf_lookup (bd_bc bd) lba = Some buf" "bf_refctr buf = 0"
      using bc_wfD(4) [OF bd_invD(3) [OF inv], of i lba] lru by auto
    define st where "st = (if ext4_bcache_test_flag buf BC_DIRTY then ext4_block_flush_buf lba bd else (EOK, bd))"
    obtain r1 bd1 where st1: "st = (r1, bd1)" by fastforce
    have f: "bd_keeps content bd bd1 \<and> bc_lru_ctr (bd_bc bd1) = bc_lru_ctr (bd_bc bd) \<and>
        bc_io_err (bd_bc bd1) = bc_io_err (bd_bc bd) \<and> bc_cnt (bd_bc bd1) = bc_cnt (bd_bc bd) \<and>
        (\<forall>l. l \<noteq> lba \<or> r1 \<noteq> EOK \<longrightarrow> ext4_buf_lookup (bd_bc bd1) l = ext4_buf_lookup (bd_bc bd) l) \<and>
        (r1 = EOK \<longrightarrow> (\<exists>b1. ext4_buf_lookup (bd_bc bd1) lba = Some b1 \<and> \<not> ext4_bcache_test_flag b1 BC_DIRTY))"
    proof (cases "ext4_bcache_test_flag buf BC_DIRTY")
      case True
      then have fl: "ext4_block_flush_buf lba bd = (r1, bd1)" using st1 by (simp add: st_def)
      note fs = flush_buf_spec [OF inv fl]
      show ?thesis using fs(1,2,4,6,7) buf True by auto
    next
      case False
      then show ?thesis using st1 buf bd_keeps_refl [OF inv] by (auto simp: st_def)
    qed
    have unfold: "shake_loop bd = (if r1 \<noteq> EOK then (r1, bd1)
        else if ext4_buf_lookup (bd_bc bd1) lba = None then (EOK, bd1)
        else shake_loop (map_bc (ext4_bcache_drop_buf lba) bd1))"
      using full buf(1) low st1 by (subst shake_loop.simps) (simp add: st_def)
    show ?thesis
    proof (cases "r1 = EOK")
      case False
      with f unfold show ?thesis by auto
    next
      case True
      with f obtain b1 where b1: "ext4_buf_lookup (bd_bc bd1) lba = Some b1" "\<not> ext4_bcache_test_flag b1 BC_DIRTY" by auto
      let ?bd2 = "map_bc (ext4_bcache_drop_buf lba) bd1"
      have inv1: "bd_inv content bd1" using f by (simp add: bd_keeps_def)
      note k2 = drop_inv(2) [OF inv1 b1]
      have "bd_inv content ?bd2" using k2 by (simp add: bd_keeps_def)
      from "1.IH" [OF low full buf(1) st1 [unfolded st_def, symmetric]] True b1 this
      have IH: "case shake_loop ?bd2 of (r, bd') \<Rightarrow> bd_keeps content ?bd2 bd' \<and>
          bc_lru_ctr (bd_bc bd') = bc_lru_ctr (bd_bc ?bd2) \<and> bc_io_err (bd_bc bd') = bc_io_err (bd_bc ?bd2) \<and>
          (\<forall>l b. ext4_buf_lookup (bd_bc ?bd2) l = Some b \<and> bf_refctr b \<noteq> 0 \<longrightarrow> ext4_buf_lookup (bd_bc bd') l = Some b) \<and>
          (\<forall>l b. ext4_buf_lookup (bd_bc bd') l = Some b \<longrightarrow> ext4_buf_lookup (bd_bc ?bd2) l = Some b) \<and>
          (r = EOK \<longrightarrow> bc_lru_root (bd_bc bd') = [] \<or> \<not> ext4_bcache_is_full (bd_bc bd'))"
        by simp
      obtain r bd' where sh: "shake_loop ?bd2 = (r, bd')" by fastforce
      note IH' = IH [unfolded sh prod.case]
      have look2: "ext4_buf_lookup (bd_bc ?bd2) l = (if l = lba then None else ext4_buf_lookup (bd_bc bd) l)" for l
        using f by (simp add: lookup_drop)
      have keep: "ext4_buf_lookup (bd_bc bd') l = Some b"
        if "ext4_buf_lookup (bd_bc bd) l = Some b" "bf_refctr b \<noteq> 0" for l b
      proof -
        have "l \<noteq> lba" using that buf by auto
        then have "ext4_buf_lookup (bd_bc ?bd2) l = Some b" using look2 [of l] that by simp
        with IH' that(2) show ?thesis by blast
      qed
      have sub: "ext4_buf_lookup (bd_bc bd) l = Some b" if "ext4_buf_lookup (bd_bc bd') l = Some b" for l b
      proof -
        have "ext4_buf_lookup (bd_bc ?bd2) l = Some b" using IH' that by blast
        then show ?thesis unfolding look2 by (simp split: if_splits)
      qed
      have "bd_keeps content bd bd'"
        using IH' f bd_keeps_trans [OF _ bd_keeps_trans [OF k2]] by blast
      moreover have sh0: "shake_loop bd = (r, bd')" unfolding unfold sh using True b1 by simp
      moreover have "bc_lru_ctr (bd_bc bd') = bc_lru_ctr (bd_bc bd)" "bc_io_err (bd_bc bd') = bc_io_err (bd_bc bd)"
        using IH' f by simp_all
      ultimately show ?thesis unfolding sh0 prod.case using IH' keep sub by (intro conjI) blast+
    qed
  qed
qed

subsection \<open>Getting a block\<close>

lemma cfg_map_bc [simp]:
  "io_ok content (map_bc f bd) = io_ok content bd" "geom_ok (map_bc f bd) = geom_ok bd"
  "disk_block content (map_bc f bd) = disk_block content bd" "bd_lg_bsize (map_bc f bd) = bd_lg_bsize bd"
  "bd_ph_refctr (map_bc f bd) = bd_ph_refctr bd"
  by (simp_all add: io_ok_def geom_ok_def disk_block_def blk_base_def fun_eq_iff map_bc_def)

lemma bd_inv_flags [simp]:
  "bd_inv content (map_bc (\<lambda>bc. bc\<lparr>bc_dont_shake := d\<rparr>) bd) = bd_inv content bd"
  by (simp add: bd_inv_def)

lemma bd_view_flags [simp]:
  "bd_view content (map_bc (\<lambda>bc. bc\<lparr>bc_dont_shake := d\<rparr>) bd) = bd_view content bd"
  unfolding bd_view_def cfg_map_bc map_bc_fields lookup_fields by (rule refl)

lemma shake_spec:
  assumes inv: "bd_inv content bd" and sh: "ext4_block_cache_shake bd = (r, bd')"
  shows "bd_keeps content bd bd'"
    and "bc_lru_ctr (bd_bc bd') = bc_lru_ctr (bd_bc bd)" "bc_io_err (bd_bc bd') = bc_io_err (bd_bc bd)"
    and "ext4_buf_lookup (bd_bc bd) l = Some b \<Longrightarrow> bf_refctr b \<noteq> 0 \<Longrightarrow> ext4_buf_lookup (bd_bc bd') l = Some b"
    and "ext4_buf_lookup (bd_bc bd') l = Some b \<Longrightarrow> ext4_buf_lookup (bd_bc bd) l = Some b"
proof -
  let ?bd1 = "map_bc (\<lambda>bc. bc\<lparr>bc_dont_shake := True\<rparr>) bd"
  obtain r2 bd2 where l: "shake_loop ?bd1 = (r2, bd2)" by fastforce
  have "bd_inv content ?bd1" using inv by simp
  note sl = shake_loop_spec [OF this, unfolded l prod.case]
  have eq: "(r, bd') = (if bc_dont_shake (bd_bc bd) then (EOK, bd)
      else (r2, map_bc (\<lambda>bc. bc\<lparr>bc_dont_shake := False\<rparr>) bd2))"
    unfolding sh [symmetric] ext4_block_cache_shake_def l by simp
  have cfg: "same_cfg bd bd2" using sl by (simp add: bd_keeps_def same_cfg_def map_bc_def)
  have "bd_keeps content bd bd' \<and> bc_lru_ctr (bd_bc bd') = bc_lru_ctr (bd_bc bd) \<and>
      bc_io_err (bd_bc bd') = bc_io_err (bd_bc bd) \<and>
      (\<forall>l b. ext4_buf_lookup (bd_bc bd) l = Some b \<and> bf_refctr b \<noteq> 0 \<longrightarrow> ext4_buf_lookup (bd_bc bd') l = Some b) \<and>
      (\<forall>l b. ext4_buf_lookup (bd_bc bd') l = Some b \<longrightarrow> ext4_buf_lookup (bd_bc bd) l = Some b)"
  proof (cases "bc_dont_shake (bd_bc bd)")
    case True
    with eq bd_keeps_refl [OF inv] show ?thesis by simp
  next
    case False
    with eq have "bd' = map_bc (\<lambda>bc. bc\<lparr>bc_dont_shake := False\<rparr>) bd2" by simp
    then have look: "ext4_buf_lookup (bd_bc bd') = ext4_buf_lookup (bd_bc bd2)" and
      f: "bc_lru_ctr (bd_bc bd') = bc_lru_ctr (bd_bc bd2)" "bc_io_err (bd_bc bd') = bc_io_err (bd_bc bd2)"
      "bd_inv content bd' = bd_inv content bd2" "bd_view content bd' = bd_view content bd2" "same_cfg bd2 bd'"
      by simp_all
    have "bd_keeps content bd bd'"
      using sl [THEN conjunct1] f same_cfg_trans [OF cfg f(5)] by (simp add: bd_keeps_def)
    moreover have "bc_lru_ctr (bd_bc bd') = bc_lru_ctr (bd_bc bd)" "bc_io_err (bd_bc bd') = bc_io_err (bd_bc bd)"
      using sl [THEN conjunct2, THEN conjunct1] sl [THEN conjunct2, THEN conjunct2, THEN conjunct1] f by simp_all
    ultimately show ?thesis
      using sl [unfolded map_bc_fields lookup_fields] unfolding look by blast
  qed
  then show "bd_keeps content bd bd'" "bc_lru_ctr (bd_bc bd') = bc_lru_ctr (bd_bc bd)"
    "bc_io_err (bd_bc bd') = bc_io_err (bd_bc bd)"
    "ext4_buf_lookup (bd_bc bd) l = Some b \<Longrightarrow> bf_refctr b \<noteq> 0 \<Longrightarrow> ext4_buf_lookup (bd_bc bd') l = Some b"
    "ext4_buf_lookup (bd_bc bd') l = Some b \<Longrightarrow> ext4_buf_lookup (bd_bc bd) l = Some b"
    by blast+
qed

lemma bd_owed_shake: "bd_inv content bd \<Longrightarrow> ext4_block_cache_shake bd = (r, bd') \<Longrightarrow> bd_owed bd \<Longrightarrow> bd_owed bd'"
  using shake_spec(3,5) unfolding bd_owed_def by metis

text \<open>A reference taken: the buffer is there with one more reference, every other buffer as before.\<close>

lemma alloc_spec:
  assumes inv: "bd_inv content bd" and lba: "lba < bd_lg_bcnt bd"
    and ctr: "bc_lru_ctr (bd_bc bd) \<noteq> - 1" and room: "bc_ref_blocks (bd_bc bd) \<noteq> - 1"
    and ref: "\<And>b. ext4_buf_lookup (bd_bc bd) lba = Some b \<Longrightarrow> bf_refctr b \<noteq> - 1"
    and mem: "length data = unat (bd_lg_bsize bd)"
  shows "\<exists>bc' b'. ext4_bcache_alloc (Some data) lba (bd_bc bd) = (EOK, Some \<lparr>lb_id = lba, blk_buf = Some lba\<rparr>, bc') \<and>
    bd_keeps content bd (bd\<lparr>bd_bc := bc'\<rparr>) \<and> ext4_buf_lookup bc' lba = Some b' \<and>
    (\<forall>l. l \<noteq> lba \<longrightarrow> ext4_buf_lookup bc' l = ext4_buf_lookup (bd_bc bd) l) \<and> bf_refctr b' \<noteq> 0 \<and>
    bf_refctr b' = (case ext4_buf_lookup (bd_bc bd) lba of None \<Rightarrow> 1 | Some b \<Rightarrow> bf_refctr b + 1) \<and>
    bc_io_err bc' = bc_io_err (bd_bc bd)"
proof (cases "ext4_buf_lookup (bd_bc bd) lba")
  case (Some b)
  note wf = bd_invD(3) [OF inv]
  obtain bc' where fg: "ext4_bcache_find_get lba (bd_bc bd) = (Some \<lparr>lb_id = lba, blk_buf = Some lba\<rparr>, bc')"
    and look: "\<And>l. ext4_buf_lookup bc' l = (if l = lba then Some (got_buf (bd_bc bd) b) else ext4_buf_lookup (bd_bc bd) l)"
    and bc': "bc' = upd_buf lba (\<lambda>_. got_buf (bd_bc bd) b) ((bd_bc bd)\<lparr>bc_lru_root := filter (\<lambda>e. snd e \<noteq> lba) (bc_lru_root (bd_bc bd)),
      bc_dirty_list := remove1 lba (bc_dirty_list (bd_bc bd)),
      bc_lru_ctr := (if bf_refctr b = 0 then bc_lru_ctr (bd_bc bd) + 1 else bc_lru_ctr (bd_bc bd))\<rparr>)"
    using find_get_eq [OF wf Some] by blast
  have "bc_wf bc'" using wf_find_get [OF wf Some ctr ref [OF Some]] fg by simp
  moreover have "buf_le b (got_buf (bd_bc bd) b)" by (simp add: buf_le_def got_buf_def)
  ultimately have k: "bd_keeps content bd (bd\<lparr>bd_bc := bc'\<rparr>)"
    using Some by (intro bd_keeps_cache [OF inv]) (simp_all add: look, simp add: bc')
  have "bf_refctr (got_buf (bd_bc bd) b) = bf_refctr b + 1" by (simp add: got_buf_def)
  moreover have "bf_refctr b + 1 \<noteq> 0" using word_less_Suc [OF ref [OF Some]] by auto
  moreover have "bc_io_err bc' = bc_io_err (bd_bc bd)" by (simp add: bc')
  ultimately show ?thesis using k fg look Some by (auto simp: ext4_bcache_alloc_def)
next
  case None
  note wf = bd_invD(3) [OF inv]
  have "length data = unat (bc_itemsize (bd_bc bd))" using mem bd_invD(4) [OF inv] by simp
  from wf_alloc_new [OF wf None ctr room this] obtain bc' where
    al: "ext4_bcache_alloc (Some data) lba (bd_bc bd) = (EOK, Some \<lparr>lb_id = lba, blk_buf = Some lba\<rparr>, bc')" and wf': "bc_wf bc'"
    and look: "\<And>l. ext4_buf_lookup bc' l = (if l = lba then Some \<lparr>bf_flags = 0, bf_lba = lba, bf_data = data,
       bf_lru_id = bc_lru_ctr (bd_bc bd) + 1, bf_refctr = 1, bf_on_dirty_list = False, bf_end_write = None\<rparr>
       else ext4_buf_lookup (bd_bc bd) l)"
    and it: "bc_itemsize bc' = bc_itemsize (bd_bc bd)" "bc_io_err bc' = bc_io_err (bd_bc bd)"
    by blast
  let ?bd = "bd\<lparr>bd_bc := bc'\<rparr>"
  have disk: "disk_block content ?bd = disk_block content bd" by (rule same_cfg_disk_block) simp_all
  have nf: "\<not> ext4_bcache_test_flag \<lparr>bf_flags = 0, bf_lba = lba, bf_data = data,
       bf_lru_id = i, bf_refctr = 1, bf_on_dirty_list = False, bf_end_write = None\<rparr> f" for f i
    by (simp add: test_flag_iff)
  have "bd_inv content ?bd"
    unfolding bd_inv_def same_cfg_io_ok [OF same_cfg_bc(2)] same_cfg_geom_ok [OF same_cfg_bc(2)] disk
    using bd_invD(1,2,4,5,6) [OF inv] wf' it lba nf by (auto simp: look split: if_splits)
  moreover have "bd_view content ?bd l = bd_view content bd l" for l
    using None nf unfolding bd_view_def disk by (simp add: look)
  ultimately have "bd_keeps content bd ?bd" by (simp add: bd_keeps_def)
  then show ?thesis using al look it None by auto
qed

lemma shake_loop_length:
  "shake_loop bd = (r, bd') \<Longrightarrow> length (bc_lba_root (bd_bc bd')) \<le> length (bc_lba_root (bd_bc bd))"
proof (induction bd rule: shake_loop.induct)
  case (1 bd)
  show ?case
  proof (cases "\<exists>lba buf. ext4_buf_lowest_lru (bd_bc bd) = Some lba \<and> ext4_bcache_is_full (bd_bc bd) \<and>
      ext4_buf_lookup (bd_bc bd) lba = Some buf")
    case False
    with "1.prems" show ?thesis
      by (subst (asm) shake_loop.simps) (auto split: option.splits if_splits)
  next
    case True
    then obtain lba buf where h: "ext4_buf_lowest_lru (bd_bc bd) = Some lba" "\<not> \<not> ext4_bcache_is_full (bd_bc bd)"
      "ext4_buf_lookup (bd_bc bd) lba = Some buf" by auto
    obtain r1 bd1 where st: "(if ext4_bcache_test_flag buf BC_DIRTY then ext4_block_flush_buf lba bd else (EOK, bd)) = (r1, bd1)"
      by fastforce
    have len: "length (bc_lba_root (bd_bc bd1)) = length (bc_lba_root (bd_bc bd))"
      using st length_root_flush by (auto split: if_splits)
    have unfold: "shake_loop bd = (if r1 \<noteq> EOK then (r1, bd1)
        else if ext4_buf_lookup (bd_bc bd1) lba = None then (EOK, bd1)
        else shake_loop (map_bc (ext4_bcache_drop_buf lba) bd1))"
      using h st by (subst shake_loop.simps) simp
    show ?thesis
    proof (cases "r1 \<noteq> EOK \<or> ext4_buf_lookup (bd_bc bd1) lba = None")
      case True
      with "1.prems" len show ?thesis by (auto simp: unfold split: if_splits)
    next
      case False
      then obtain b1 where b1: "ext4_buf_lookup (bd_bc bd1) lba = Some b1" by auto
      have "shake_loop (map_bc (ext4_bcache_drop_buf lba) bd1) = (r, bd')"
        using "1.prems" False b1 by (simp add: unfold)
      with "1.IH" [OF h st [symmetric] refl] False length_root_drop [OF b1] len show ?thesis by simp
    qed
  qed
qed

lemma shake_length:
  "ext4_block_cache_shake bd = (r, bd') \<Longrightarrow> length (bc_lba_root (bd_bc bd')) \<le> length (bc_lba_root (bd_bc bd))"
  using shake_loop_length [of "map_bc (\<lambda>bc. bc\<lparr>bc_dont_shake := True\<rparr>) bd"]
  by (fastforce simp: ext4_block_cache_shake_def split: if_splits prod.splits)

text \<open>The counters of the cache are not about to wrap around.\<close>

definition bd_room :: "'c ext4_blockdev \<Rightarrow> u64 \<Rightarrow> bool" where
  "bd_room bd lba \<longleftrightarrow> bc_lru_ctr (bd_bc bd) \<noteq> - 1 \<and> bc_ref_blocks (bd_bc bd) \<noteq> - 1 \<and>
     (\<forall>b. ext4_buf_lookup (bd_bc bd) lba = Some b \<longrightarrow> bf_refctr b \<noteq> - 1)"

lemma not_minus_one_le: "(y :: 'a::len word) \<noteq> - 1 \<Longrightarrow> unat (x :: 'a word) \<le> unat y \<Longrightarrow> x \<noteq> - 1"
proof
  assume "y \<noteq> - 1" "unat x \<le> unat y" "x = - 1"
  from word_less_Suc [OF this(1)] have "unat y < unat (y + 1)" by (simp add: word_less_nat_alt)
  moreover have "y + 1 \<le> - 1" by simp
  ultimately show False using \<open>unat x \<le> unat y\<close> unfolding \<open>x = - 1\<close> word_le_nat_alt by linarith
qed

text \<open>What \<^verbatim>\<open>ext4_block_get\<close> and \<^verbatim>\<open>ext4_block_get_sb\<close> do once the address is accepted.\<close>

lemma block_alloc_spec:
  assumes inv: "bd_inv content bd" and lba: "lba < bd_lg_bcnt bd" and room: "bd_room bd lba"
    and mem: "length data = unat (bd_lg_bsize bd)"
    and al: "block_alloc (Some data) lba bd = (r, bo, bd')"
  shows "bd_keeps content bd bd'" and "bd_owed bd \<Longrightarrow> bd_owed bd'"
    and "r \<noteq> EOK \<Longrightarrow> bo = None"
    and "r = EOK \<Longrightarrow> bo = Some \<lparr>lb_id = lba, blk_buf = Some lba\<rparr> \<and>
      (\<exists>b. ext4_buf_lookup (bd_bc bd') lba = Some b \<and> bf_refctr b \<noteq> 0)"
proof -
  obtain r1 bd1 where sh: "ext4_block_cache_shake bd = (r1, bd1)" by fastforce
  note ss = shake_spec [OF inv sh]
  have inv1: "bd_inv content bd1" and cfg1: "same_cfg bd bd1" using ss(1) by (simp_all add: bd_keeps_def)
  have "unat (bc_ref_blocks (bd_bc bd1)) \<le> unat (bc_ref_blocks (bd_bc bd))"
    using shake_length [OF sh] bc_wfD(8) [OF bd_invD(3) [OF inv]] bc_wfD(8) [OF bd_invD(3) [OF inv1]] by simp
  with room have rb: "bc_ref_blocks (bd_bc bd1) \<noteq> - 1" by (auto simp: bd_room_def dest: not_minus_one_le)
  have lc: "bc_lru_ctr (bd_bc bd1) \<noteq> - 1" using ss(2) room by (simp add: bd_room_def)
  have rc: "bf_refctr b \<noteq> - 1" if "ext4_buf_lookup (bd_bc bd1) lba = Some b" for b
    using ss(5) [OF that] room by (simp add: bd_room_def)
  have cfg: "lba < bd_lg_bcnt bd1" "length data = unat (bd_lg_bsize bd1)"
    using lba mem cfg1 by (simp_all add: same_cfg_def)
  obtain bc' b' where a: "ext4_bcache_alloc (Some data) lba (bd_bc bd1) = (EOK, Some \<lparr>lb_id = lba, blk_buf = Some lba\<rparr>, bc')"
    and k: "bd_keeps content bd1 (bd1\<lparr>bd_bc := bc'\<rparr>)" and b': "ext4_buf_lookup bc' lba = Some b'" "bf_refctr b' \<noteq> 0"
    and oth: "\<And>l. l \<noteq> lba \<Longrightarrow> ext4_buf_lookup bc' l = ext4_buf_lookup (bd_bc bd1) l"
    and err: "bc_io_err bc' = bc_io_err (bd_bc bd1)"
    using alloc_spec [OF inv1 cfg(1) lc rb rc cfg(2)] by blast
  have eq: "(r, bo, bd') = (if r1 \<noteq> EOK then (r1, None, bd1)
      else (EOK, Some \<lparr>lb_id = lba, blk_buf = Some lba\<rparr>, bd1\<lparr>bd_bc := bc'\<rparr>))"
    unfolding al [symmetric] block_alloc_def sh by (simp add: a)
  have ow: "bd_owed (bd1\<lparr>bd_bc := bc'\<rparr>)" if "bd_owed bd1"
    unfolding bd_owed_def
  proof (intro allI impI)
    fix l b assume b: "ext4_buf_lookup (bd_bc (bd1\<lparr>bd_bc := bc'\<rparr>)) l = Some b" "ext4_bcache_test_flag b BC_DIRTY" "bf_refctr b = 0"
    then have "l \<noteq> lba" using b' by auto
    then show "bf_on_dirty_list b \<or> bc_io_err (bd_bc (bd1\<lparr>bd_bc := bc'\<rparr>)) \<noteq> EOK"
      using b oth [of l] err that by (simp add: bd_owed_def)
  qed
  show "bd_keeps content bd bd'" using eq ss(1) bd_keeps_trans [OF ss(1) k] by (auto split: if_splits)
  show "bd_owed bd'" if "bd_owed bd"
    using eq bd_owed_shake [OF inv sh that] ow by (auto split: if_splits)
  show "bo = None" if "r \<noteq> EOK" using eq that by (auto split: if_splits)
  show "bo = Some \<lparr>lb_id = lba, blk_buf = Some lba\<rparr> \<and> (\<exists>b. ext4_buf_lookup (bd_bc bd') lba = Some b \<and> bf_refctr b \<noteq> 0)"
    if "r = EOK" using eq that b' by (auto split: if_splits)
qed

lemma fill_spec:
  assumes inv: "bd_inv content bd" and h: "h = \<lparr>lb_id = lba, blk_buf = Some lba\<rparr>"
    and buf: "ext4_buf_lookup (bd_bc bd) lba = Some buf" "bf_refctr buf \<noteq> 0"
  shows "\<exists>r bo bd'. block_fill lba h bd = Some (r, bo, bd') \<and> bd_keeps content bd bd' \<and> (bd_owed bd \<longrightarrow> bd_owed bd') \<and>
    (r \<noteq> EOK \<longrightarrow> bo = None) \<and> (r = EOK \<longrightarrow> bo = Some h \<and>
      (\<exists>b. ext4_buf_lookup (bd_bc bd') lba = Some b \<and> bf_refctr b \<noteq> 0 \<and> ext4_bcache_test_flag b BC_UPTODATE \<and>
         bf_data b = bd_view content bd lba))"
proof (cases "ext4_bcache_test_flag buf BC_UPTODATE")
  case True
  then show ?thesis
    using buf bd_keeps_refl [OF inv] by (simp add: block_fill_def bd_view_def)
next
  case False
  have len: "length (bf_data buf) = unat (bd_lg_bsize bd)" and nd: "\<not> ext4_bcache_test_flag buf BC_DIRTY"
    using bd_invD(7) [OF inv buf(1)] bd_invD(4) [OF inv] False by (auto simp: buf_wf_def)
  obtain r bs bd1 where rd: "ext4_blocks_get_direct (bf_data buf) lba 1 bd = (r, bs, bd1)" by (metis prod_cases3)
  note gd = get_direct_spec [OF bd_invD(1,2) [OF inv] bd_invD(5) [OF inv buf(1)] len rd]
  let ?f = "\<lambda>x. x\<lparr>bf_data := bs\<rparr>" and ?g = "\<lambda>x. ext4_bcache_set_flag BC_UPTODATE (x\<lparr>bf_data := bs\<rparr>)"
  let ?bd2 = "map_bc (upd_buf lba ?f) bd1" and ?bd3 = "map_bc (upd_buf lba (ext4_bcache_set_flag BC_UPTODATE)) (map_bc (upd_buf lba ?f) bd1)"
  have cfg: "same_cfg bd ?bd2" "same_cfg bd ?bd3"
    using same_cfg_trans [OF gd(1) same_cfg_bc(1)] same_cfg_trans [OF same_cfg_trans [OF gd(1) same_cfg_bc(1)] same_cfg_bc(1)]
    by simp_all
  have disk: "disk_block content ?bd2 = disk_block content bd" "disk_block content ?bd3 = disk_block content bd"
    by (simp_all add: fun_eq_iff gd(4))
  have look2: "ext4_buf_lookup (bd_bc ?bd2) l = (if l = lba then Some (?f buf) else ext4_buf_lookup (bd_bc bd) l)" for l
    by (simp add: bc_lookup gd(2) buf)
  have look3: "ext4_buf_lookup (bd_bc ?bd3) l = (if l = lba then Some (?g buf) else ext4_buf_lookup (bd_bc bd) l)" for l
    by (simp add: bc_lookup gd(2) buf)
  have wf2: "bc_wf (bd_bc ?bd2)"
    unfolding map_bc_fields gd(2)
    by (rule wf_upd [OF bd_invD(3) [OF inv]]) (use bd_invD(4,7) [OF inv] gd(5) in \<open>auto simp: buf_wf_def\<close>)
  have wf3: "bc_wf (bd_bc ?bd3)"
    unfolding map_bc_fields gd(2)
    by (rule wf_upd [OF wf2 [unfolded map_bc_fields gd(2)]])
      (use bc_wfD(6) [OF wf2 [unfolded map_bc_fields gd(2)]] in \<open>auto simp: buf_wf_def\<close>)
  have it: "bc_itemsize (bd_bc ?bd2) = bd_lg_bsize ?bd2" "bc_itemsize (bd_bc ?bd3) = bd_lg_bsize ?bd3"
    using bd_invD(4) [OF inv] gd(1,2) by (simp_all add: same_cfg_def)
  have lt: "l < bd_lg_bcnt bd1" if "ext4_buf_lookup (bd_bc bd) l = Some b" for l b
    using bd_invD(5) [OF inv that] gd(1) by (simp add: same_cfg_def)
  have inv2: "bd_inv content ?bd2"
    unfolding bd_inv_def disk look2 same_cfg_io_ok [OF cfg(1)] same_cfg_geom_ok [OF cfg(1)]
    using bd_invD(1,2,6) [OF inv] wf2 it lt buf False by (auto split: if_splits)
  have view2: "bd_view content ?bd2 l = bd_view content bd l" for l
    using buf False unfolding bd_view_def disk look2 by simp
  have ow2: "bd_owed bd \<Longrightarrow> bd_owed ?bd2"
    using buf nd unfolding bd_owed_def look2 by (auto simp: gd(2) split: if_splits)
  have k2: "bd_keeps content bd ?bd2" using inv2 view2 cfg by (simp add: bd_keeps_def)
  show ?thesis
  proof (cases "r = EOK")
    case True
    have bs: "bs = disk_block content bd lba" by (rule gd(6) [OF True])
    have "bd_inv content ?bd3"
      unfolding bd_inv_def disk look3 same_cfg_io_ok [OF cfg(2)] same_cfg_geom_ok [OF cfg(2)]
      using bd_invD(1,2,6) [OF inv] wf3 it lt buf bs by (auto split: if_splits)
    moreover have "bd_view content ?bd3 l = bd_view content bd l" for l
      using buf False bs unfolding bd_view_def disk look3 by simp
    moreover have "bd_owed bd \<Longrightarrow> bd_owed ?bd3"
      using buf unfolding bd_owed_def look3 by (auto simp: gd(2) split: if_splits)
    moreover have "block_fill lba h bd = Some (EOK, Some h, ?bd3)"
      using False buf unfolding block_fill_def buf(1) option.case Let_def rd prod.case True by simp
    moreover have "bd_view content bd lba = bs" using buf False bs by (simp add: bd_view_def)
    ultimately show ?thesis using cfg look3 [of lba] buf by (auto simp: bd_keeps_def)
  next
    case False
    have "blk_buf h = Some lba" "ext4_buf_lookup (bd_bc ?bd2) lba = Some (?f buf)" "bf_refctr (?f buf) \<noteq> 0"
      using h look2 [of lba] buf by simp_all
    from free_spec [OF inv2 this] obtain bd4 where fr: "ext4_bcache_free h ?bd2 = Some (EOK, h\<lparr>lb_id := 0\<rparr>, bd4)"
      and k4: "bd_keeps content ?bd2 bd4" and ow4: "bd_owed ?bd2 \<longrightarrow> bd_owed bd4"
      using nd by auto
    have "block_fill lba h bd = Some (r, None, bd4)"
      unfolding block_fill_def buf(1) option.case if_not_P [OF \<open>\<not> ext4_bcache_test_flag buf BC_UPTODATE\<close>]
        Let_def rd prod.case if_P [OF False] fr by simp
    with bd_keeps_trans [OF k2 k4] ow2 ow4 False show ?thesis by auto
  qed
qed

subsection \<open>Writing through a handle\<close>

lemma store_spec:
  assumes inv: "bd_inv content bd" and h: "blk_buf h = Some lba"
    and buf: "ext4_buf_lookup (bd_bc bd) lba = Some buf" "bf_refctr buf \<noteq> 0" and bs: "length bs = unat (bd_lg_bsize bd)"
  defines "bd' \<equiv> blk_store h bs bd"
  shows "bd_inv content bd'" "same_cfg bd bd'" "bd_view content bd' = (bd_view content bd)(lba := bs)"
    and "\<exists>b. ext4_buf_lookup (bd_bc bd') lba = Some b \<and> bf_refctr b \<noteq> 0 \<and> ext4_bcache_test_flag b BC_UPTODATE"
    and "bd_owed bd \<Longrightarrow> bd_owed bd'"
proof -
  let ?f = "\<lambda>x. ext4_bcache_set_dirty (x\<lparr>bf_data := bs\<rparr>)"
  have bd': "bd' = map_bc (upd_buf lba ?f) bd" by (simp add: bd'_def blk_store_def h)
  have look: "ext4_buf_lookup (bd_bc bd') l = (if l = lba then Some (?f buf) else ext4_buf_lookup (bd_bc bd) l)" for l
    by (simp add: bd' bc_lookup buf ext4_bcache_set_dirty_def)
  have fb: "bf_refctr (?f b) = bf_refctr b" "bf_lru_id (?f b) = bf_lru_id b" "bf_on_dirty_list (?f b) = bf_on_dirty_list b"
    "bf_data (?f b) = bs" "ext4_bcache_test_flag (?f b) BC_UPTODATE" "ext4_bcache_test_flag (?f b) BC_DIRTY" for b
    by (simp_all add: ext4_bcache_set_dirty_def)
  have bl: "\<And>b. bf_lba b = lba \<Longrightarrow> bf_lba (?f b) = lba" by (simp add: ext4_bcache_set_dirty_def)
  have wf: "bc_wf (bd_bc bd')"
    unfolding bd' map_bc_fields
  proof (rule wf_upd [OF bd_invD(3) [OF inv] bl])
    fix b assume "ext4_buf_lookup (bd_bc bd) lba = Some b"
    then show "bf_refctr (?f b) = bf_refctr b \<and> bf_lru_id (?f b) = bf_lru_id b \<and>
        bf_on_dirty_list (?f b) = bf_on_dirty_list b \<and> buf_wf (bd_bc bd) (?f b)"
      using bd_invD(7) [OF inv] bd_invD(4) [OF inv] bs fb by (simp add: buf_wf_def)
  qed
  show cfg: "same_cfg bd bd'" by (simp add: bd')
  have disk: "disk_block content bd' = disk_block content bd" by (simp add: bd')
  show "bd_inv content bd'"
    unfolding bd_inv_def disk look same_cfg_io_ok [OF cfg] same_cfg_geom_ok [OF cfg]
    using bd_invD(1,2,4,5,6) [OF inv] wf buf fb by (auto simp: bd' split: if_splits)
  show "bd_view content bd' = (bd_view content bd)(lba := bs)"
    unfolding bd_view_def disk look by (auto simp: fun_eq_iff fb)
  show "\<exists>b. ext4_buf_lookup (bd_bc bd') lba = Some b \<and> bf_refctr b \<noteq> 0 \<and> ext4_bcache_test_flag b BC_UPTODATE"
    using look [of lba] buf fb by auto
  show "bd_owed bd'" if "bd_owed bd"
    using that buf fb unfolding bd_owed_def look by (auto simp: bd' split: if_splits)
qed

section \<open>The interface the file system relies on\<close>

text \<open>What the layers above may assume of the cache: reading a block through a handle gives its
  contents, storing through a handle changes that block only, and releasing a handle changes
  nothing, or else an error is pending.\<close>

locale block_store =
  fixes inv :: "'s \<Rightarrow> bool" and view :: "'s \<Rightarrow> u64 \<Rightarrow> bytes" and room :: "'s \<Rightarrow> u64 \<Rightarrow> bool" and pending :: "'s \<Rightarrow> bool"
    and held :: "'s \<Rightarrow> 'h \<Rightarrow> u64 \<Rightarrow> bool"
    and get :: "u64 \<Rightarrow> 's \<Rightarrow> (errno \<times> 'h option \<times> 's) option" and put :: "'h \<Rightarrow> 's \<Rightarrow> (errno \<times> 'h \<times> 's) option"
    and data :: "'h \<Rightarrow> 's \<Rightarrow> bytes option" and store :: "'h \<Rightarrow> bytes \<Rightarrow> 's \<Rightarrow> 's"
  assumes get: "inv s \<Longrightarrow> room s l \<Longrightarrow> \<exists>r ho s'. get l s = Some (r, ho, s') \<and> inv s' \<and> view s' = view s \<and>
      (r \<noteq> EOK \<longrightarrow> ho = None) \<and> (r = EOK \<longrightarrow> (\<exists>h. ho = Some h \<and> held s' h l))"
    and data: "inv s \<Longrightarrow> held s h l \<Longrightarrow> data h s = Some (view s l)"
    and store: "inv s \<Longrightarrow> held s h l \<Longrightarrow> length bs = length (view s l) \<Longrightarrow>
      inv (store h bs s) \<and> view (store h bs s) = (view s)(l := bs) \<and> held (store h bs s) h l"
    and put: "inv s \<Longrightarrow> held s h l \<Longrightarrow> \<exists>h' s'. put h s = Some (EOK, h', s') \<and> inv s' \<and> (view s' = view s \<or> pending s')"
begin

lemma read_block:
  assumes "inv s" "room s l" "get l s = Some (EOK, Some h, s1)"
  shows "data h s1 = Some (view s l)" "inv s1" "view s1 = view s" "held s1 h l"
proof -
  from get [OF assms(1,2)] assms(3) have "inv s1" "view s1 = view s" "held s1 h l" by auto
  with data [OF this(1,3)] show "data h s1 = Some (view s l)" "inv s1" "view s1 = view s" "held s1 h l" by simp_all
qed

lemma update_block:
  assumes "inv s" "room s l" "get l s = Some (EOK, Some h, s1)" "length bs = length (view s l)"
  shows "\<exists>h' s2. put h (store h bs s1) = Some (EOK, h', s2) \<and> inv s2 \<and> (view s2 = (view s)(l := bs) \<or> pending s2)"
proof -
  note r = read_block [OF assms(1-3)]
  with store [of s1 h l bs] assms(4) have st: "inv (store h bs s1)" "view (store h bs s1) = (view s)(l := bs)"
    "held (store h bs s1) h l" by auto
  with put [OF st(1,3)] show ?thesis by auto
qed

end

definition cache_held :: "'c ext4_blockdev \<Rightarrow> ext4_block \<Rightarrow> u64 \<Rightarrow> bool" where
  "cache_held bd h lba \<longleftrightarrow> h = \<lparr>lb_id = lba, blk_buf = Some lba\<rparr> \<and> bd_ph_refctr bd \<noteq> 0 \<and>
     (\<exists>b. ext4_buf_lookup (bd_bc bd) lba = Some b \<and> bf_refctr b \<noteq> 0 \<and> ext4_bcache_test_flag b BC_UPTODATE)"

definition cache_pending :: "'c ext4_blockdev \<Rightarrow> bool" where
  "cache_pending bd \<longleftrightarrow> bc_io_err (bd_bc bd) \<noteq> EOK"

lemma bd_view_length: "bd_inv content bd \<Longrightarrow> length (bd_view content bd l) = unat (bd_lg_bsize bd)"
  using bd_invD(4,7) [of content bd] by (auto simp: bd_view_def buf_wf_def split: option.split)

lemma block_get_spec:
  assumes inv: "bd_inv content bd" and room: "bd_room bd lba" and mem: "length data = unat (bd_lg_bsize bd)"
  shows "\<exists>r bo bd'. ext4_block_get (Some data) lba bd = Some (r, bo, bd') \<and> bd_keeps content bd bd' \<and>
    (bd_owed bd \<longrightarrow> bd_owed bd') \<and> (r \<noteq> EOK \<longrightarrow> bo = None) \<and>
    (r = EOK \<longrightarrow> (\<exists>h. bo = Some h \<and> cache_held bd' h lba \<and> blk_data h bd' = Some (bd_view content bd lba)))"
proof (cases "bd_ph_refctr bd = 0 \<or> \<not> lba < bd_lg_bcnt bd \<or> lba = 0")
  case True
  then show ?thesis
    using bd_keeps_refl [OF inv] by (auto simp: ext4_block_get_def ext4_block_get_noread_def)
next
  case False
  then have ok: "bd_ph_refctr bd \<noteq> 0" "lba < bd_lg_bcnt bd" "lba \<noteq> 0" by auto
  obtain r bo bd1 where al: "block_alloc (Some data) lba bd = (r, bo, bd1)" by (metis prod_cases3)
  note as = block_alloc_spec [OF inv ok(2) room mem al]
  have nr: "ext4_block_get_noread (Some data) lba bd = (r, bo, bd1)"
    using ok al by (simp add: ext4_block_get_noread_def)
  show ?thesis
  proof (cases "r = EOK")
    case False
    with as(1-3) nr show ?thesis by (auto simp: ext4_block_get_def)
  next
    case True
    let ?h = "\<lparr>lb_id = lba, blk_buf = Some lba\<rparr>"
    from as(4) [OF True] obtain b where b: "bo = Some ?h" "ext4_buf_lookup (bd_bc bd1) lba = Some b" "bf_refctr b \<noteq> 0" by auto
    have inv1: "bd_inv content bd1" and view1: "\<And>l. bd_view content bd1 l = bd_view content bd l"
      and cfg1: "same_cfg bd bd1" using as(1) by (simp_all add: bd_keeps_def)
    from fill_spec [OF inv1 refl b(2,3)] obtain r2 bo2 bd2 where
      f: "block_fill lba ?h bd1 = Some (r2, bo2, bd2)" "bd_keeps content bd1 bd2" "bd_owed bd1 \<longrightarrow> bd_owed bd2"
      "r2 \<noteq> EOK \<longrightarrow> bo2 = None" "r2 = EOK \<longrightarrow> bo2 = Some ?h \<and> (\<exists>b. ext4_buf_lookup (bd_bc bd2) lba = Some b \<and>
         bf_refctr b \<noteq> 0 \<and> ext4_bcache_test_flag b BC_UPTODATE \<and> bf_data b = bd_view content bd lba)"
      unfolding view1 by blast
    have "ext4_block_get (Some data) lba bd = Some (r2, bo2, bd2)"
      using nr b True f(1) by (simp add: ext4_block_get_def)
    moreover have "bd_ph_refctr bd2 \<noteq> 0" using ok cfg1 f(2) by (simp add: bd_keeps_def same_cfg_def)
    moreover have "bd_keeps content bd bd2" using bd_keeps_trans [OF as(1) f(2)] .
    moreover have "cache_held bd2 ?h lba \<and> blk_data ?h bd2 = Some (bd_view content bd lba)" if "r2 = EOK"
      using f(5) that \<open>bd_ph_refctr bd2 \<noteq> 0\<close> by (auto simp: cache_held_def blk_data_def)
    ultimately show ?thesis using as(2) f(3-5) by auto
  qed
qed

interpretation cache: block_store "bd_inv content" "bd_view content"
    "\<lambda>bd l. bd_room bd l \<and> length mem = unat (bd_lg_bsize bd)" cache_pending cache_held
    "ext4_block_get (Some mem)" ext4_block_set blk_data blk_store for content mem
proof
  fix s :: "'a ext4_blockdev" and l :: u64 and h :: ext4_block and bs :: bytes
  assume inv: "bd_inv content s"
  show "\<exists>r ho s'. ext4_block_get (Some mem) l s = Some (r, ho, s') \<and> bd_inv content s' \<and>
      bd_view content s' = bd_view content s \<and> (r \<noteq> EOK \<longrightarrow> ho = None) \<and> (r = EOK \<longrightarrow> (\<exists>h. ho = Some h \<and> cache_held s' h l))"
    if "bd_room s l \<and> length mem = unat (bd_lg_bsize s)"
    using block_get_spec [OF inv, of l mem] that by (fastforce simp: bd_keeps_def fun_eq_iff)
  assume held: "cache_held s h l"
  then obtain b where h: "blk_buf h = Some l" "bd_ph_refctr s \<noteq> 0" and b: "ext4_buf_lookup (bd_bc s) l = Some b"
    "bf_refctr b \<noteq> 0" "ext4_bcache_test_flag b BC_UPTODATE" by (auto simp: cache_held_def)
  show "blk_data h s = Some (bd_view content s l)" using h b by (simp add: blk_data_def bd_view_def)
  show "\<exists>h' s'. ext4_block_set h s = Some (EOK, h', s') \<and> bd_inv content s' \<and> (bd_view content s' = bd_view content s \<or> cache_pending s')"
    using free_spec [OF inv h(1) b(1,2)] h by (fastforce simp: ext4_block_set_def bd_keeps_def cache_pending_def fun_eq_iff)
  assume len: "length bs = length (bd_view content s l)"
  note st = store_spec [OF inv h(1) b(1,2) len [unfolded bd_view_length [OF inv]]]
  show "bd_inv content (blk_store h bs s) \<and> bd_view content (blk_store h bs s) = (bd_view content s)(l := bs) \<and>
      cache_held (blk_store h bs s) h l"
    using st(1-4) held by (auto simp: cache_held_def same_cfg_def)
qed

section \<open>Flushing the cache\<close>

lemma bd_owed_flush:
  assumes inv: "bd_inv content bd" and fl: "ext4_block_flush_buf lba bd = (r, bd')" and ow: "bd_owed bd"
  shows "bd_owed bd'"
  unfolding bd_owed_def
proof (intro allI impI)
  fix l b assume b: "ext4_buf_lookup (bd_bc bd') l = Some b" "ext4_bcache_test_flag b BC_DIRTY" "bf_refctr b = 0"
  note fs = flush_buf_spec [OF inv fl]
  have "ext4_buf_lookup (bd_bc bd) l = Some b"
    using b(1,2) unfolding fs(2) by (auto split: if_splits option.splits)
  with ow b fs(7) show "bf_on_dirty_list b \<or> bc_io_err (bd_bc bd') \<noteq> EOK" by (simp add: bd_owed_def)
qed

lemma flush_loop_spec:
  assumes "bd_inv content bd"
  shows "\<exists>r bd'. flush_loop bd = Some (r, bd') \<and> bd_keeps content bd bd' \<and> (bd_owed bd \<longrightarrow> bd_owed bd') \<and>
    bc_io_err (bd_bc bd') = bc_io_err (bd_bc bd) \<and> (r = EOK \<longrightarrow> bc_dirty_list (bd_bc bd') = [])"
  using assms
proof (induction "length (bc_dirty_list (bd_bc bd))" arbitrary: bd rule: less_induct)
  case less
  note inv = less.prems
  show ?case
  proof (cases "bc_dirty_list (bd_bc bd)")
    case Nil
    then show ?thesis using bd_keeps_refl [OF inv] by (simp add: flush_loop.simps [of bd])
  next
    case (Cons lba rest)
    obtain r bd1 where fl: "ext4_block_flush_buf lba bd = (r, bd1)" by fastforce
    note fs = flush_buf_spec [OF inv fl] and ow = bd_owed_flush [OF inv fl]
    show ?thesis
    proof (cases "r = EOK")
      case False
      then show ?thesis using fs(1,7) ow by (simp add: flush_loop.simps [of bd] Cons fl)
    next
      case True
      have "length (bc_dirty_list (bd_bc bd1)) < length (bc_dirty_list (bd_bc bd))"
        using True Cons by (simp add: fs(8))
      moreover have "bd_inv content bd1" using fs(1) by (simp add: bd_keeps_def)
      ultimately obtain r' bd' where IH: "flush_loop bd1 = Some (r', bd')" "bd_keeps content bd1 bd'"
        "bd_owed bd1 \<longrightarrow> bd_owed bd'" "bc_io_err (bd_bc bd') = bc_io_err (bd_bc bd1)"
        "r' = EOK \<longrightarrow> bc_dirty_list (bd_bc bd') = []"
        using less.hyps by blast
      moreover have "flush_loop bd = Some (r', bd')"
        using IH(1) True by (simp add: flush_loop.simps [of bd] Cons fl)
      ultimately show ?thesis using bd_keeps_trans [OF fs(1) IH(2)] ow fs(7) by auto
    qed
  qed
qed

lemma cache_flush_spec:
  assumes inv: "bd_inv content bd"
  shows "\<exists>r bd'. ext4_block_cache_flush bd = Some (r, bd') \<and> bd_keeps content bd bd' \<and>
    (r = EOK \<longrightarrow> (bd_owed bd \<longrightarrow> bd_owed bd') \<and> bc_io_err (bd_bc bd') = EOK \<and> bc_dirty_list (bd_bc bd') = [])"
proof -
  obtain r bd1 where l: "flush_loop bd = Some (r, bd1)" "bd_keeps content bd bd1" "bd_owed bd \<longrightarrow> bd_owed bd1"
    "bc_io_err (bd_bc bd1) = bc_io_err (bd_bc bd)" "r = EOK \<longrightarrow> bc_dirty_list (bd_bc bd1) = []"
    using flush_loop_spec [OF inv] by blast
  show ?thesis
  proof (cases "r = EOK")
    case False
    then show ?thesis using l by (simp add: ext4_block_cache_flush_def)
  next
    case True
    let ?bd2 = "bd1\<lparr>bd_bc := (bd_bc bd1)\<lparr>bc_io_err := EOK\<rparr>\<rparr>"
    have inv1: "bd_inv content bd1" using l(2) by (simp add: bd_keeps_def)
    then have "bd_keeps content bd1 ?bd2"
      by (intro bd_keeps_cache) (simp_all add: bd_invD)
    then have "bd_keeps content bd ?bd2" by (rule bd_keeps_trans [OF l(2)])
    moreover have "ext4_block_cache_flush bd = Some (bc_io_err (bd_bc bd1), ?bd2)"
      using True l(1) by (simp add: ext4_block_cache_flush_def ext4_bcache_take_error_def)
    moreover have "bd_owed bd1 \<Longrightarrow> bc_io_err (bd_bc bd1) = EOK \<Longrightarrow> bd_owed ?bd2" by (simp add: bd_owed_def)
    ultimately show ?thesis using l True by auto
  qed
qed

lemma clean_on_medium:
  assumes inv: "bd_inv content bd" and ow: "bd_owed bd" and fl: "bc_io_err (bd_bc bd) = EOK" "bc_dirty_list (bd_bc bd) = []"
    and free: "\<And>b. ext4_buf_lookup (bd_bc bd) l = Some b \<Longrightarrow> bf_refctr b = 0"
  shows "disk_block content bd l = bd_view content bd l"
proof (cases "ext4_buf_lookup (bd_bc bd) l")
  case (Some b)
  have "\<not> bf_on_dirty_list b" using bc_wfD(5) [OF bd_invD(3) [OF inv], of l] fl(2) Some by auto
  then have "\<not> ext4_bcache_test_flag b BC_DIRTY" using ow free [OF Some] fl(1) Some by (auto simp: bd_owed_def)
  with bd_invD(6) [OF inv Some] Some show ?thesis by (auto simp: bd_view_def)
qed (simp add: bd_view_def)

section \<open>Runs of the cache\<close>

text \<open>Any sequence of gets, stores through held handles, releases and successful flushes.\<close>

inductive cache_run :: "'c ext4_blockdev \<Rightarrow> 'c ext4_blockdev \<Rightarrow> bool" where
  refl: "cache_run bd bd"
| get: "cache_run bd bd1 \<Longrightarrow> bd_room bd1 l \<Longrightarrow> length mem = unat (bd_lg_bsize bd1) \<Longrightarrow>
    ext4_block_get (Some mem) l bd1 = Some (r, ho, bd2) \<Longrightarrow> cache_run bd bd2"
| store: "cache_run bd bd1 \<Longrightarrow> cache_held bd1 h l \<Longrightarrow> length bs = unat (bd_lg_bsize bd1) \<Longrightarrow>
    cache_run bd (blk_store h bs bd1)"
| set: "cache_run bd bd1 \<Longrightarrow> cache_held bd1 h l \<Longrightarrow> ext4_block_set h bd1 = Some (r, h', bd2) \<Longrightarrow> cache_run bd bd2"
| flush: "cache_run bd bd1 \<Longrightarrow> ext4_block_cache_flush bd1 = Some (EOK, bd2) \<Longrightarrow> cache_run bd bd2"

lemma cache_run_inv:
  assumes "cache_run bd bd'" "bd_inv content bd" "bd_owed bd"
  shows "bd_inv content bd' \<and> bd_owed bd'"
  using assms
proof (induction rule: cache_run.induct)
  case (get bd bd1 l mem r ho bd2)
  with block_get_spec [of content bd1 l mem] show ?case by (auto simp: bd_keeps_def)
next
  case (store bd bd1 h l bs)
  then obtain b where "blk_buf h = Some l" "ext4_buf_lookup (bd_bc bd1) l = Some b" "bf_refctr b \<noteq> 0"
    by (auto simp: cache_held_def)
  with store_spec(1,5) [of content bd1 h l b bs] store show ?case by auto
next
  case (set bd bd1 h l r h' bd2)
  then obtain b where "blk_buf h = Some l" "ext4_buf_lookup (bd_bc bd1) l = Some b" "bf_refctr b \<noteq> 0" "bd_ph_refctr bd1 \<noteq> 0"
    by (auto simp: cache_held_def)
  with free_spec [of content bd1 h l b] set show ?case by (auto simp: ext4_block_set_def)
next
  case (flush bd bd1 bd2)
  with cache_flush_spec [of content bd1] show ?case by (auto simp: bd_keeps_def)
qed simp

section \<open>Properties\<close>

text \<open>A small device in memory, for the concrete instances.\<close>

definition ram_read :: "(nat \<Rightarrow> u8) \<Rightarrow> u64 \<Rightarrow> u64 \<Rightarrow> int \<times> bytes \<times> (nat \<Rightarrow> u8)" where
  "ram_read c off len = (0, map c [unat off..<unat off + unat len], c)"

definition ram_write :: "(nat \<Rightarrow> u8) \<Rightarrow> bytes \<Rightarrow> u64 \<Rightarrow> u64 \<Rightarrow> int \<times> (nat \<Rightarrow> u8)" where
  "ram_write c bs off len = (0, \<lambda>a. if unat off \<le> a \<and> a < unat off + unat len then bs ! (a - unat off) else c a)"

definition ram_dev :: "(nat \<Rightarrow> u8) ext4_blockdev" where
  "ram_dev = \<lparr>bd_read_fn = Some ram_read, bd_write_fn = Some ram_write, bd_flush_fn = None, bd_ctx = (\<lambda>a. of_nat a),
     bd_read_only = False, bd_ph_bsize = 2, bd_ph_refctr = 1, bd_bread_ctr = 0, bd_bwrite_ctr = 0, bd_part_offset = 0,
     bd_part_size = 32, bd_lg_bsize = 4, bd_lg_bcnt = 8, bd_cache_write_back = 0,
     bd_bc = \<lparr>bc_cnt = 2, bc_itemsize = 4, bc_lru_ctr = 0, bc_ref_blocks = 0, bc_max_ref_blocks = 0, bc_dont_shake = False,
       bc_io_err = EOK, bc_lba_root = [], bc_lru_root = [], bc_dirty_list = []\<rparr>, bd_ended = []\<rparr>"

lemma ram_dev_inv: "bd_inv (\<lambda>c. c) ram_dev" "bd_owed ram_dev" "bd_room ram_dev l"
proof -
  have "io_ok (\<lambda>c. c) ram_dev"
    by (auto simp: io_ok_def ram_dev_def reads_ok_def writes_ok_def ram_read_def ram_write_def)
  moreover have "geom_ok ram_dev" by (simp add: geom_ok_def ram_dev_def)
  moreover have "bc_wf (bd_bc ram_dev)" by (simp add: bc_wf_def ram_dev_def ext4_buf_lookup_def)
  ultimately show "bd_inv (\<lambda>c. c) ram_dev" by (simp add: bd_inv_def) (simp add: ram_dev_def ext4_buf_lookup_def)
  show "bd_owed ram_dev" by (simp add: bd_owed_def ram_dev_def ext4_buf_lookup_def)
  show "bd_room ram_dev l" by (simp add: bd_room_def ram_dev_def ext4_buf_lookup_def)
qed

lemma ram_get: "\<exists>bd. ext4_block_get (Some [0, 0, 0, 0]) 3 ram_dev = Some (EOK, Some \<lparr>lb_id = 3, blk_buf = Some 3\<rparr>, bd)"
  by (simp add: ext4_block_get_def ext4_block_get_noread_def block_alloc_def ext4_block_cache_shake_def shake_loop.simps
     ram_dev_def map_bc_def ext4_buf_lowest_lru_def ext4_bcache_alloc_def ext4_bcache_find_get_def ext4_buf_lookup_def ext4_buf_alloc_def
     lba_insert_def rb_insert_def upd_buf_def block_fill_def ext4_bcache_test_flag_def ext4_blocks_get_direct_def ext4_bdif_bread_def bd_bread_def ram_read_def Let_def)

text \<open>C7: getting a block never loses or changes any block of the volume, however the cache has to
  evict and flush to make room, and on success the handle's buffer holds the current contents of
  the block; on failure there is no handle.\<close>

theorem cache_get_correct:
  assumes "bd_inv content bd" "bd_room bd lba" "length mem = unat (bd_lg_bsize bd)"
  shows "\<exists>r ho bd'. ext4_block_get (Some mem) lba bd = Some (r, ho, bd') \<and> bd_inv content bd' \<and>
    bd_view content bd' = bd_view content bd \<and> (r \<noteq> EOK \<longrightarrow> ho = None) \<and>
    (r = EOK \<longrightarrow> (\<exists>h. ho = Some h \<and> blk_data h bd' = Some (bd_view content bd lba)))"
proof -
  from cache.get [OF assms(1)] assms(2,3) obtain r ho bd' where
    g: "ext4_block_get (Some mem) lba bd = Some (r, ho, bd')" "bd_inv content bd'" "bd_view content bd' = bd_view content bd"
    "r \<noteq> EOK \<longrightarrow> ho = None" "r = EOK \<longrightarrow> (\<exists>h. ho = Some h \<and> cache_held bd' h lba)" by blast
  then show ?thesis using cache.data [OF g(2), of _ lba] by auto
qed

theorem cache_get_correct_witness:
  "\<exists>r ho bd'. ext4_block_get (Some [0, 0, 0, 0]) 3 ram_dev = Some (r, ho, bd') \<and> bd_inv (\<lambda>c. c) bd' \<and>
    bd_view (\<lambda>c. c) bd' = bd_view (\<lambda>c. c) ram_dev \<and> (r \<noteq> EOK \<longrightarrow> ho = None) \<and>
    (r = EOK \<longrightarrow> (\<exists>h. ho = Some h \<and> blk_data h bd' = Some (bd_view (\<lambda>c. c) ram_dev 3)))"
  by (rule cache_get_correct [OF ram_dev_inv(1,3)]) (simp add: ram_dev_def)

text \<open>C19: overwriting a block through its handle and releasing the handle changes exactly that block
  of the volume, or else the failure of the write to the device is latched for the next flush.\<close>

theorem cache_update_correct:
  assumes "bd_inv content bd" "bd_room bd lba" "length mem = unat (bd_lg_bsize bd)"
    and "ext4_block_get (Some mem) lba bd = Some (EOK, Some h, bd1)" "length bs = unat (bd_lg_bsize bd)"
  shows "\<exists>h' bd2. ext4_block_set h (blk_store h bs bd1) = Some (EOK, h', bd2) \<and> bd_inv content bd2 \<and>
    (bd_view content bd2 = (bd_view content bd)(lba := bs) \<or> bc_io_err (bd_bc bd2) \<noteq> EOK)"
  using cache.update_block [OF assms(1) _ assms(4)] assms(2,3,5) bd_view_length [OF assms(1)]
  by (simp add: cache_pending_def)

theorem cache_update_correct_witness:
  "\<exists>h bd1 h' bd2. ext4_block_get (Some [0, 0, 0, 0]) 3 ram_dev = Some (EOK, Some h, bd1) \<and>
    ext4_block_set h (blk_store h [1, 2, 3, 4] bd1) = Some (EOK, h', bd2) \<and> bd_inv (\<lambda>c. c) bd2 \<and>
    (bd_view (\<lambda>c. c) bd2 = (bd_view (\<lambda>c. c) ram_dev)(3 := [1, 2, 3, 4]) \<or> bc_io_err (bd_bc bd2) \<noteq> EOK)"
proof -
  from ram_get obtain bd1 where g: "ext4_block_get (Some [0, 0, 0, 0]) 3 ram_dev =
      Some (EOK, Some \<lparr>lb_id = 3, blk_buf = Some 3\<rparr>, bd1)" by blast
  have "length [0 :: u8, 0, 0, 0] = unat (bd_lg_bsize ram_dev)" "length [1 :: u8, 2, 3, 4] = unat (bd_lg_bsize ram_dev)"
    by (simp_all add: ram_dev_def)
  from cache_update_correct [OF ram_dev_inv(1,3) this(1) g this(2)] g show ?thesis by blast
qed



text \<open>C20: flushing the cache always ends, changes no block of the volume, and reports success only if
  every block that no one holds a reference to is on the medium as its readers see it.\<close>

theorem cache_flush_durable:
  assumes "bd_inv content bd" "bd_owed bd"
  shows "\<exists>r bd'. ext4_block_cache_flush bd = Some (r, bd') \<and> bd_inv content bd' \<and>
    bd_view content bd' = bd_view content bd \<and>
    (r = EOK \<longrightarrow> (\<forall>l. (\<forall>b. ext4_buf_lookup (bd_bc bd') l = Some b \<longrightarrow> bf_refctr b = 0) \<longrightarrow>
       disk_block content bd' l = bd_view content bd l))"
proof -
  obtain r bd' where f: "ext4_block_cache_flush bd = Some (r, bd')" "bd_keeps content bd bd'"
    "r = EOK \<longrightarrow> (bd_owed bd \<longrightarrow> bd_owed bd') \<and> bc_io_err (bd_bc bd') = EOK \<and> bc_dirty_list (bd_bc bd') = []"
    using cache_flush_spec [OF assms(1)] by blast
  have k: "bd_inv content bd'" "bd_view content bd' = bd_view content bd" using f(2) by (simp_all add: bd_keeps_def fun_eq_iff)
  have "disk_block content bd' l = bd_view content bd l"
    if "r = EOK" "\<forall>b. ext4_buf_lookup (bd_bc bd') l = Some b \<longrightarrow> bf_refctr b = 0" for l
    using clean_on_medium [OF k(1), of l] f(3) assms(2) that k(2) by auto
  with f(1) k show ?thesis by blast
qed

theorem cache_flush_durable_witness:
  "\<exists>r bd'. ext4_block_cache_flush ram_dev = Some (r, bd') \<and> bd_inv (\<lambda>c. c) bd' \<and>
    bd_view (\<lambda>c. c) bd' = bd_view (\<lambda>c. c) ram_dev \<and>
    (r = EOK \<longrightarrow> (\<forall>l. (\<forall>b. ext4_buf_lookup (bd_bc bd') l = Some b \<longrightarrow> bf_refctr b = 0) \<longrightarrow>
       disk_block (\<lambda>c. c) bd' l = bd_view (\<lambda>c. c) ram_dev l))"
  by (rule cache_flush_durable [OF ram_dev_inv(1,2)])

text \<open>Invalidating a range of blocks does nothing at all when the first block of the range is not
  cached, whatever other blocks of the range are cached and dirty.\<close>

theorem invalidate_lba_gap:
  assumes "ext4_buf_lookup bc from = None"
  shows "ext4_bcache_invalidate_lba from cnt bc = bc"
  using assms by (simp add: ext4_bcache_invalidate_lba_def invalidate_walk_def)

theorem invalidate_lba_gap_witness:
  "let buf = \<lparr>bf_flags = 3, bf_lba = 6, bf_data = [0], bf_lru_id = 1, bf_refctr = 0, bf_on_dirty_list = True, bf_end_write = None\<rparr>;
       bc = (bd_bc ram_dev)\<lparr>bc_lba_root := [buf], bc_lru_root := [(1, 6)], bc_dirty_list := [6]\<rparr>
   in ext4_bcache_invalidate_lba 5 2 bc = bc \<and> ext4_buf_lookup bc 6 = Some buf \<and> ext4_bcache_test_flag buf BC_DIRTY"
proof -
  let ?buf = "\<lparr>bf_flags = 3, bf_lba = 6, bf_data = [0], bf_lru_id = 1, bf_refctr = 0, bf_on_dirty_list = True, bf_end_write = None\<rparr>"
  let ?bc = "(bd_bc ram_dev)\<lparr>bc_lba_root := [?buf], bc_lru_root := [(1, 6)], bc_dirty_list := [6]\<rparr>"
  have "ext4_bcache_invalidate_lba 5 2 ?bc = ?bc" by (rule invalidate_lba_gap) (simp add: ext4_buf_lookup_def)
  moreover have "ext4_buf_lookup ?bc 6 = Some ?buf" by (simp add: ext4_buf_lookup_def)
  moreover have "ext4_bcache_test_flag ?buf BC_DIRTY" by (simp add: ext4_bcache_test_flag_def)
  ultimately show ?thesis by (simp add: Let_def)
qed

end
