(* ===== verification/Inode.thy ===== *)
theory Inode
  imports Block_Group
begin

unbundle bit_operations_syntax

text \<open>
  Inodes: \<^verbatim>\<open>struct ext4_inode\<close>, the accessors of \<^verbatim>\<open>ext4_inode.c\<close>, and the inode checksum and link
  counting of \<^verbatim>\<open>ext4_fs.c\<close>.  The structure is a record with its 156-byte encoding; an inode of the
  table has \<open>s_inode_size\<close> bytes, of which the structure covers the first 128 or 156.
\<close>

section \<open>The structure and its bytes\<close>

text \<open>The two views of the union \<^verbatim>\<open>osd2\<close> overlap: \<^verbatim>\<open>hurd2.mode_high\<close> is the half-word that
  \<^verbatim>\<open>linux2\<close> calls \<open>file_acl_high\<close>.\<close>

record ext4_inode =
  i_mode :: u16
  i_uid :: u16
  i_size_lo :: u32
  i_access_time :: u32
  i_change_inode_time :: u32
  i_modification_time :: u32
  i_deletion_time :: u32
  i_gid :: u16
  i_links_count :: u16
  i_blocks_count_lo :: u32
  i_flags :: u32
  i_unused_osd1 :: u32
  i_blocks :: "u32 list"
  i_generation :: u32
  i_file_acl_lo :: u32
  i_size_hi :: u32
  i_obso_faddr :: u32
  i_blocks_high :: u16
  i_file_acl_high :: u16
  i_uid_high :: u16
  i_gid_high :: u16
  i_checksum_lo :: u16
  i_reserved2 :: u16
  i_extra_isize :: u16
  i_checksum_hi :: u16
  i_ctime_extra :: u32
  i_mtime_extra :: u32
  i_atime_extra :: u32
  i_crtime :: u32
  i_crtime_extra :: u32
  i_version_hi :: u32

definition inode_bytes :: "ext4_inode \<Rightarrow> bytes" where
  "inode_bytes ino = le16 (i_mode ino)
     @ le16 (i_uid ino)
     @ le32 (i_size_lo ino)
     @ le32 (i_access_time ino)
     @ le32 (i_change_inode_time ino)
     @ le32 (i_modification_time ino)
     @ le32 (i_deletion_time ino)
     @ le16 (i_gid ino)
     @ le16 (i_links_count ino)
     @ le32 (i_blocks_count_lo ino)
     @ le32 (i_flags ino)
     @ le32 (i_unused_osd1 ino)
     @ concat (map le32 (i_blocks ino))
     @ le32 (i_generation ino)
     @ le32 (i_file_acl_lo ino)
     @ le32 (i_size_hi ino)
     @ le32 (i_obso_faddr ino)
     @ le16 (i_blocks_high ino)
     @ le16 (i_file_acl_high ino)
     @ le16 (i_uid_high ino)
     @ le16 (i_gid_high ino)
     @ le16 (i_checksum_lo ino)
     @ le16 (i_reserved2 ino)
     @ le16 (i_extra_isize ino)
     @ le16 (i_checksum_hi ino)
     @ le32 (i_ctime_extra ino)
     @ le32 (i_mtime_extra ino)
     @ le32 (i_atime_extra ino)
     @ le32 (i_crtime ino)
     @ le32 (i_crtime_extra ino)
     @ le32 (i_version_hi ino)"

definition inode_blocks_of :: "bytes \<Rightarrow> u32 list" where
  "inode_blocks_of bs = map (\<lambda>k. get_le32 bs (40 + 4 * k)) [0..<15]"

definition inode_of_bytes :: "bytes \<Rightarrow> ext4_inode" where
  "inode_of_bytes bs = \<lparr>i_mode = get_le16 bs 0,
     i_uid = get_le16 bs 2,
     i_size_lo = get_le32 bs 4,
     i_access_time = get_le32 bs 8,
     i_change_inode_time = get_le32 bs 12,
     i_modification_time = get_le32 bs 16,
     i_deletion_time = get_le32 bs 20,
     i_gid = get_le16 bs 24,
     i_links_count = get_le16 bs 26,
     i_blocks_count_lo = get_le32 bs 28,
     i_flags = get_le32 bs 32,
     i_unused_osd1 = get_le32 bs 36,
     i_blocks = inode_blocks_of bs,
     i_generation = get_le32 bs 100,
     i_file_acl_lo = get_le32 bs 104,
     i_size_hi = get_le32 bs 108,
     i_obso_faddr = get_le32 bs 112,
     i_blocks_high = get_le16 bs 116,
     i_file_acl_high = get_le16 bs 118,
     i_uid_high = get_le16 bs 120,
     i_gid_high = get_le16 bs 122,
     i_checksum_lo = get_le16 bs 124,
     i_reserved2 = get_le16 bs 126,
     i_extra_isize = get_le16 bs 128,
     i_checksum_hi = get_le16 bs 130,
     i_ctime_extra = get_le32 bs 132,
     i_mtime_extra = get_le32 bs 136,
     i_atime_extra = get_le32 bs 140,
     i_crtime = get_le32 bs 144,
     i_crtime_extra = get_le32 bs 148,
     i_version_hi = get_le32 bs 152\<rparr>"

definition EXT4_SUPERBLOCK_OS_LINUX :: u32 where "EXT4_SUPERBLOCK_OS_LINUX = 0"
definition EXT4_SUPERBLOCK_OS_HURD :: u32 where "EXT4_SUPERBLOCK_OS_HURD = 1"
definition EXT4_GOOD_OLD_INODE_SIZE :: u16 where "EXT4_GOOD_OLD_INODE_SIZE = 128"
definition EXT4_INODE_BLOCKS :: nat where "EXT4_INODE_BLOCKS = 15"
definition EXT4_INODE_DIRECT_BLOCK_COUNT :: u32 where "EXT4_INODE_DIRECT_BLOCK_COUNT = 12"
definition EXT4_INODE_INDIRECT_BLOCK :: u32 where
  "EXT4_INODE_INDIRECT_BLOCK = EXT4_INODE_DIRECT_BLOCK_COUNT"

definition EXT4_INODE_MODE_FIFO :: u32 where "EXT4_INODE_MODE_FIFO = 0x1000"
definition EXT4_INODE_MODE_CHARDEV :: u32 where "EXT4_INODE_MODE_CHARDEV = 0x2000"
definition EXT4_INODE_MODE_DIRECTORY :: u32 where "EXT4_INODE_MODE_DIRECTORY = 0x4000"
definition EXT4_INODE_MODE_BLOCKDEV :: u32 where "EXT4_INODE_MODE_BLOCKDEV = 0x6000"
definition EXT4_INODE_MODE_FILE :: u32 where "EXT4_INODE_MODE_FILE = 0x8000"
definition EXT4_INODE_MODE_SOFTLINK :: u32 where "EXT4_INODE_MODE_SOFTLINK = 0xA000"
definition EXT4_INODE_MODE_SOCKET :: u32 where "EXT4_INODE_MODE_SOCKET = 0xC000"
definition EXT4_INODE_MODE_TYPE_MASK :: u32 where "EXT4_INODE_MODE_TYPE_MASK = 0xF000"

definition EXT4_INODE_FLAG_IMMUTABLE :: u32 where "EXT4_INODE_FLAG_IMMUTABLE = 0x10"
definition EXT4_INODE_FLAG_APPEND :: u32 where "EXT4_INODE_FLAG_APPEND = 0x20"
definition EXT4_INODE_FLAG_INDEX :: u32 where "EXT4_INODE_FLAG_INDEX = 0x1000"
definition EXT4_INODE_FLAG_HUGE_FILE :: u32 where "EXT4_INODE_FLAG_HUGE_FILE = 0x40000"
definition EXT4_INODE_FLAG_EXTENTS :: u32 where "EXT4_INODE_FLAG_EXTENTS = 0x80000"

section \<open>Accessors\<close>

text \<open>The loop of \<^verbatim>\<open>ext4_inode_block_bits_count\<close>: the body runs once before the test.\<close>

function inode_block_bits_loop :: "u32 \<Rightarrow> u32 \<Rightarrow> u32" where
  "inode_block_bits_loop bits sz =
     (let bits = bits + 1; sz = drop_bit 1 sz
      in if 256 < sz then inode_block_bits_loop bits sz else bits)"
  by pat_completeness auto
termination
  by (relation "measure (\<lambda>(_, sz). unat sz)")
    (auto simp: word_less_nat_alt drop_bit_eq_div unat_div)

declare inode_block_bits_loop.simps [simp del]

definition ext4_inode_block_bits_count :: "u32 \<Rightarrow> u32" where
  "ext4_inode_block_bits_count block_size = inode_block_bits_loop 8 block_size"

definition ext4_inode_get_mode :: "ext4_sblock \<Rightarrow> ext4_inode \<Rightarrow> u32" where
  "ext4_inode_get_mode sb inode =
     (let v = ucast (i_mode inode)
      in if s_creator_os sb = EXT4_SUPERBLOCK_OS_HURD
         then v OR push_bit 16 (ucast (i_file_acl_high inode)) else v)"

definition ext4_inode_set_mode :: "ext4_sblock \<Rightarrow> ext4_inode \<Rightarrow> u32 \<Rightarrow> ext4_inode" where
  "ext4_inode_set_mode sb inode mode =
     (let ino = inode\<lparr>i_mode := ucast (drop_bit 16 (push_bit 16 mode))\<rparr>
      in if s_creator_os sb = EXT4_SUPERBLOCK_OS_HURD
         then ino\<lparr>i_file_acl_high := ucast (drop_bit 16 mode)\<rparr> else ino)"

definition ext4_inode_get_uid :: "ext4_inode \<Rightarrow> u32" where
  "ext4_inode_get_uid inode = ucast (i_uid inode)"

definition ext4_inode_set_uid :: "ext4_inode \<Rightarrow> u32 \<Rightarrow> ext4_inode" where
  "ext4_inode_set_uid inode uid = inode\<lparr>i_uid := ucast uid\<rparr>"

definition ext4_inode_get_gid :: "ext4_inode \<Rightarrow> u32" where
  "ext4_inode_get_gid inode = ucast (i_gid inode)"

definition ext4_inode_set_gid :: "ext4_inode \<Rightarrow> u32 \<Rightarrow> ext4_inode" where
  "ext4_inode_set_gid inode gid = inode\<lparr>i_gid := ucast gid\<rparr>"

definition ext4_inode_type :: "ext4_sblock \<Rightarrow> ext4_inode \<Rightarrow> u32" where
  "ext4_inode_type sb inode = ext4_inode_get_mode sb inode AND EXT4_INODE_MODE_TYPE_MASK"

definition ext4_inode_is_type :: "ext4_sblock \<Rightarrow> ext4_inode \<Rightarrow> u32 \<Rightarrow> bool" where
  "ext4_inode_is_type sb inode type \<longleftrightarrow> ext4_inode_type sb inode = type"

definition ext4_inode_get_size :: "ext4_sblock \<Rightarrow> ext4_inode \<Rightarrow> u64" where
  "ext4_inode_get_size sb inode =
     (let v = ucast (i_size_lo inode)
      in if 0 < s_rev_level sb \<and> ext4_inode_is_type sb inode EXT4_INODE_MODE_FILE
         then v OR push_bit 32 (ucast (i_size_hi inode)) else v)"

definition ext4_inode_set_size :: "ext4_inode \<Rightarrow> u64 \<Rightarrow> ext4_inode" where
  "ext4_inode_set_size inode sz =
     inode\<lparr>i_size_lo := ucast (drop_bit 32 (push_bit 32 sz)), i_size_hi := ucast (drop_bit 32 sz)\<rparr>"

definition ext4_inode_get_csum :: "ext4_sblock \<Rightarrow> ext4_inode \<Rightarrow> u32" where
  "ext4_inode_get_csum sb inode =
     (let v = ucast (i_checksum_lo inode)
      in if EXT4_GOOD_OLD_INODE_SIZE < s_inode_size sb
         then v OR push_bit 16 (ucast (i_checksum_hi inode)) else v)"

definition ext4_inode_set_csum :: "ext4_sblock \<Rightarrow> ext4_inode \<Rightarrow> u32 \<Rightarrow> ext4_inode" where
  "ext4_inode_set_csum sb inode checksum =
     (let ino = inode\<lparr>i_checksum_lo := ucast (drop_bit 16 (push_bit 16 checksum))\<rparr>
      in if EXT4_GOOD_OLD_INODE_SIZE < s_inode_size sb
         then ino\<lparr>i_checksum_hi := ucast (drop_bit 16 checksum)\<rparr> else ino)"

definition ext4_inode_get_access_time :: "ext4_inode \<Rightarrow> u32" where
  "ext4_inode_get_access_time inode = i_access_time inode"

definition ext4_inode_set_access_time :: "ext4_inode \<Rightarrow> u32 \<Rightarrow> ext4_inode" where
  "ext4_inode_set_access_time inode time = inode\<lparr>i_access_time := time\<rparr>"

definition ext4_inode_get_change_inode_time :: "ext4_inode \<Rightarrow> u32" where
  "ext4_inode_get_change_inode_time inode = i_change_inode_time inode"

definition ext4_inode_set_change_inode_time :: "ext4_inode \<Rightarrow> u32 \<Rightarrow> ext4_inode" where
  "ext4_inode_set_change_inode_time inode time = inode\<lparr>i_change_inode_time := time\<rparr>"

definition ext4_inode_get_modif_time :: "ext4_inode \<Rightarrow> u32" where
  "ext4_inode_get_modif_time inode = i_modification_time inode"

definition ext4_inode_set_modif_time :: "ext4_inode \<Rightarrow> u32 \<Rightarrow> ext4_inode" where
  "ext4_inode_set_modif_time inode time = inode\<lparr>i_modification_time := time\<rparr>"

definition ext4_inode_get_del_time :: "ext4_inode \<Rightarrow> u32" where
  "ext4_inode_get_del_time inode = i_deletion_time inode"

definition ext4_inode_set_del_time :: "ext4_inode \<Rightarrow> u32 \<Rightarrow> ext4_inode" where
  "ext4_inode_set_del_time inode time = inode\<lparr>i_deletion_time := time\<rparr>"

definition ext4_inode_get_links_cnt :: "ext4_inode \<Rightarrow> u16" where
  "ext4_inode_get_links_cnt inode = i_links_count inode"

definition ext4_inode_set_links_cnt :: "ext4_inode \<Rightarrow> u16 \<Rightarrow> ext4_inode" where
  "ext4_inode_set_links_cnt inode cnt = inode\<lparr>i_links_count := cnt\<rparr>"

definition ext4_inode_get_flags :: "ext4_inode \<Rightarrow> u32" where
  "ext4_inode_get_flags inode = i_flags inode"

definition ext4_inode_set_flags :: "ext4_inode \<Rightarrow> u32 \<Rightarrow> ext4_inode" where
  "ext4_inode_set_flags inode flags = inode\<lparr>i_flags := flags\<rparr>"

definition ext4_inode_has_flag :: "ext4_inode \<Rightarrow> u32 \<Rightarrow> bool" where
  "ext4_inode_has_flag inode f \<longleftrightarrow> ext4_inode_get_flags inode AND f \<noteq> 0"

definition ext4_inode_clear_flag :: "ext4_inode \<Rightarrow> u32 \<Rightarrow> ext4_inode" where
  "ext4_inode_clear_flag inode f = ext4_inode_set_flags inode (ext4_inode_get_flags inode AND NOT f)"

definition ext4_inode_set_flag :: "ext4_inode \<Rightarrow> u32 \<Rightarrow> ext4_inode" where
  "ext4_inode_set_flag inode f = ext4_inode_set_flags inode (ext4_inode_get_flags inode OR f)"

definition ext4_inode_get_blocks_count :: "ext4_sblock \<Rightarrow> ext4_inode \<Rightarrow> u64" where
  "ext4_inode_get_blocks_count sb inode =
     (let cnt = ucast (i_blocks_count_lo inode)
      in if ext4_sb_feature_ro_com sb EXT4_FRO_COM_HUGE_FILE then
           let cnt = cnt OR push_bit 32 (ucast (i_blocks_high inode))
           in if ext4_inode_has_flag inode EXT4_INODE_FLAG_HUGE_FILE
              then push_bit (unat (ext4_inode_block_bits_count (ext4_sb_get_block_size sb) - 9)) cnt
              else cnt
         else cnt)"

definition ext4_inode_set_blocks_count :: "ext4_sblock \<Rightarrow> ext4_inode \<Rightarrow> u64 \<Rightarrow> errno \<times> ext4_inode" where
  "ext4_inode_set_blocks_count sb inode count =
     (if count \<le> drop_bit 32 (NOT 0)
      then (EOK, ext4_inode_clear_flag (inode\<lparr>i_blocks_count_lo := ucast count, i_blocks_high := 0\<rparr>)
              EXT4_INODE_FLAG_HUGE_FILE)
      else if \<not> ext4_sb_feature_ro_com sb EXT4_FRO_COM_HUGE_FILE then (EINVAL, inode)
      else if count \<le> drop_bit 16 (NOT 0)
      then (EOK, ext4_inode_clear_flag
              (inode\<lparr>i_blocks_count_lo := ucast count, i_blocks_high := ucast (drop_bit 32 count)\<rparr>)
              EXT4_INODE_FLAG_HUGE_FILE)
      else
        let block_bits = ext4_inode_block_bits_count (ext4_sb_get_block_size sb);
            ino = ext4_inode_set_flag inode EXT4_INODE_FLAG_HUGE_FILE;
            count = drop_bit (unat (block_bits - 9)) count
        in (EOK, ino\<lparr>i_blocks_count_lo := ucast count, i_blocks_high := ucast (drop_bit 32 count)\<rparr>))"

definition ext4_inode_get_generation :: "ext4_inode \<Rightarrow> u32" where
  "ext4_inode_get_generation inode = i_generation inode"

definition ext4_inode_set_generation :: "ext4_inode \<Rightarrow> u32 \<Rightarrow> ext4_inode" where
  "ext4_inode_set_generation inode gen = inode\<lparr>i_generation := gen\<rparr>"

definition ext4_inode_get_extra_isize :: "ext4_sblock \<Rightarrow> ext4_inode \<Rightarrow> u16" where
  "ext4_inode_get_extra_isize sb inode =
     (if EXT4_GOOD_OLD_INODE_SIZE < s_inode_size sb then i_extra_isize inode else 0)"

definition ext4_inode_set_extra_isize :: "ext4_sblock \<Rightarrow> ext4_inode \<Rightarrow> u16 \<Rightarrow> ext4_inode" where
  "ext4_inode_set_extra_isize sb inode sz =
     (if EXT4_GOOD_OLD_INODE_SIZE < s_inode_size sb then inode\<lparr>i_extra_isize := sz\<rparr> else inode)"

text \<open>The shift of \<^verbatim>\<open>ext4_inode_get_file_acl\<close> is by 16, and in 32 bits.\<close>

definition ext4_inode_get_file_acl :: "ext4_inode \<Rightarrow> ext4_sblock \<Rightarrow> u64" where
  "ext4_inode_get_file_acl inode sb =
     (let v = ucast (i_file_acl_lo inode)
      in if s_creator_os sb = EXT4_SUPERBLOCK_OS_LINUX
         then v OR ucast (push_bit 16 (ucast (i_file_acl_high inode) :: u32)) else v)"

definition ext4_inode_set_file_acl :: "ext4_inode \<Rightarrow> ext4_sblock \<Rightarrow> u64 \<Rightarrow> ext4_inode" where
  "ext4_inode_set_file_acl inode sb acl =
     (let ino = inode\<lparr>i_file_acl_lo := ucast (drop_bit 32 (push_bit 32 acl))\<rparr>
      in if s_creator_os sb = EXT4_SUPERBLOCK_OS_LINUX
         then ino\<lparr>i_file_acl_high := ucast (drop_bit 32 acl)\<rparr> else ino)"

text \<open>Block pointers; an index outside the array is an access outside the structure's field.\<close>

definition ext4_inode_get_direct_block :: "ext4_inode \<Rightarrow> u32 \<Rightarrow> u32 option" where
  "ext4_inode_get_direct_block inode idx =
     (if unat idx < length (i_blocks inode) then Some (i_blocks inode ! unat idx) else None)"

definition ext4_inode_set_direct_block :: "ext4_inode \<Rightarrow> u32 \<Rightarrow> u32 \<Rightarrow> ext4_inode option" where
  "ext4_inode_set_direct_block inode idx block =
     (if unat idx < length (i_blocks inode)
      then Some (inode\<lparr>i_blocks := (i_blocks inode)[unat idx := block]\<rparr>) else None)"

definition ext4_inode_get_indirect_block :: "ext4_inode \<Rightarrow> u32 \<Rightarrow> u32 option" where
  "ext4_inode_get_indirect_block inode idx =
     ext4_inode_get_direct_block inode (idx + EXT4_INODE_INDIRECT_BLOCK)"

definition ext4_inode_set_indirect_block :: "ext4_inode \<Rightarrow> u32 \<Rightarrow> u32 \<Rightarrow> ext4_inode option" where
  "ext4_inode_set_indirect_block inode idx block =
     ext4_inode_set_direct_block inode (idx + EXT4_INODE_INDIRECT_BLOCK) block"

definition ext4_inode_get_dev :: "ext4_inode \<Rightarrow> u32 option" where
  "ext4_inode_get_dev inode =
     (case (ext4_inode_get_direct_block inode 0, ext4_inode_get_direct_block inode 1) of
        (Some dev_0, Some dev_1) \<Rightarrow> Some (if dev_0 \<noteq> 0 then dev_0 else dev_1)
      | _ \<Rightarrow> None)"

definition ext4_inode_set_dev :: "ext4_inode \<Rightarrow> u32 \<Rightarrow> ext4_inode option" where
  "ext4_inode_set_dev inode dev =
     (if dev AND NOT 0xFFFF \<noteq> 0 then ext4_inode_set_direct_block inode 1 dev
      else ext4_inode_set_direct_block inode 0 dev)"

definition ext4_inode_can_truncate :: "ext4_sblock \<Rightarrow> ext4_inode \<Rightarrow> bool" where
  "ext4_inode_can_truncate sb inode \<longleftrightarrow>
     (if ext4_inode_has_flag inode EXT4_INODE_FLAG_APPEND \<or> ext4_inode_has_flag inode EXT4_INODE_FLAG_IMMUTABLE
      then False
      else ext4_inode_is_type sb inode EXT4_INODE_MODE_FILE \<or>
           ext4_inode_is_type sb inode EXT4_INODE_MODE_DIRECTORY \<or>
           ext4_inode_is_type sb inode EXT4_INODE_MODE_SOFTLINK)"

section \<open>The inode checksum\<close>

text \<open>\<open>raw\<close> is the inode's bytes in its table block.  Storing the structure writes the part of it
  that an inode of this size has.\<close>

definition inode_at :: "bytes \<Rightarrow> ext4_inode" where
  "inode_at raw = inode_of_bytes (raw @ replicate 156 0)"

definition inode_store :: "ext4_sblock \<Rightarrow> bytes \<Rightarrow> ext4_inode \<Rightarrow> bytes" where
  "inode_store sb raw ino = put_bytes raw 0 (take (unat (s_inode_size sb)) (inode_bytes ino))"

definition ext4_fs_inode_checksum :: "ext4_sblock \<Rightarrow> u32 \<Rightarrow> bytes \<Rightarrow> u32" where
  "ext4_fs_inode_checksum sb index raw =
     (if ext4_sb_feature_ro_com sb EXT4_FRO_COM_METADATA_CSUM then
        let ino_gen = ext4_inode_get_generation (inode_at raw);
            zeroed = inode_store sb raw (ext4_inode_set_csum sb (inode_at raw) 0);
            c0 = ext4_sb_csum_seed sb;
            c1 = ext4_crc32c c0 (le32 index);
            c2 = ext4_crc32c c1 (le32 ino_gen);
            c3 = ext4_crc32c c2 (take (unat (s_inode_size sb)) zeroed)
        in if s_inode_size sb = EXT4_GOOD_OLD_INODE_SIZE then c3 AND 0xFFFF else c3
      else 0)"

definition ext4_fs_set_inode_checksum :: "ext4_sblock \<Rightarrow> u32 \<Rightarrow> bytes \<Rightarrow> bytes" where
  "ext4_fs_set_inode_checksum sb index raw =
     (if \<not> ext4_sb_feature_ro_com sb EXT4_FRO_COM_METADATA_CSUM then raw
      else inode_store sb raw (ext4_inode_set_csum sb (inode_at raw) (ext4_fs_inode_checksum sb index raw)))"

definition ext4_fs_verify_inode_csum :: "ext4_sblock \<Rightarrow> u32 \<Rightarrow> bytes \<Rightarrow> bool" where
  "ext4_fs_verify_inode_csum sb index raw =
     (if \<not> ext4_sb_feature_ro_com sb EXT4_FRO_COM_METADATA_CSUM then True
      else ext4_inode_get_csum sb (inode_at raw) = ext4_fs_inode_checksum sb index raw)"

section \<open>Link counts and modes\<close>

definition EXT4_LINK_MAX :: u16 where "EXT4_LINK_MAX = 65000"
definition EXT4_FCOM_DIR_INDEX :: u32 where "EXT4_FCOM_DIR_INDEX = 0x20"
definition EXT4_FRO_COM_DIR_NLINK :: u32 where "EXT4_FRO_COM_DIR_NLINK = 0x20"

definition ext4_fs_inode_links_count_inc :: "ext4_sblock \<Rightarrow> ext4_inode \<Rightarrow> ext4_sblock \<times> ext4_inode" where
  "ext4_fs_inode_links_count_inc sb inode =
     (let link = ext4_inode_get_links_cnt inode + 1;
          ino = ext4_inode_set_links_cnt inode link;
          is_dx = ext4_sb_feature_com sb EXT4_FCOM_DIR_INDEX \<and> ext4_inode_has_flag ino EXT4_INODE_FLAG_INDEX
      in if is_dx \<and> 1 < link \<and> (EXT4_LINK_MAX \<le> link \<or> link = 2)
         then (sb\<lparr>s_features_read_only := s_features_read_only sb OR EXT4_FRO_COM_DIR_NLINK\<rparr>,
               ext4_inode_set_links_cnt ino 1)
         else (sb, ino))"

definition ext4_fs_inode_links_count_dec :: "ext4_sblock \<Rightarrow> ext4_inode \<Rightarrow> ext4_inode" where
  "ext4_fs_inode_links_count_dec sb inode =
     (let links = ext4_inode_get_links_cnt inode
      in if \<not> ext4_inode_is_type sb inode EXT4_INODE_MODE_DIRECTORY
         then if 0 < links then ext4_inode_set_links_cnt inode (links - 1) else inode
         else if 2 < links then ext4_inode_set_links_cnt inode (links - 1) else inode)"

text \<open>The types of directory entries (\<^verbatim>\<open>EXT4_DE_*\<close>); any other value is treated as a file.\<close>

definition ext4_fs_correspond_inode_mode :: "int \<Rightarrow> u32" where
  "ext4_fs_correspond_inode_mode filetype =
     (if filetype = 2 then EXT4_INODE_MODE_DIRECTORY
      else if filetype = 1 then EXT4_INODE_MODE_FILE
      else if filetype = 7 then EXT4_INODE_MODE_SOFTLINK
      else if filetype = 3 then EXT4_INODE_MODE_CHARDEV
      else if filetype = 4 then EXT4_INODE_MODE_BLOCKDEV
      else if filetype = 5 then EXT4_INODE_MODE_FIFO
      else if filetype = 6 then EXT4_INODE_MODE_SOCKET
      else EXT4_INODE_MODE_FILE)"

section \<open>Bytes and structure\<close>

lemma get_le32_concat:
  "k < length ws \<Longrightarrow> get_le32 (concat (map le32 ws) @ ys) (4 * k) = ws ! k"
proof (induction ws arbitrary: k)
  case (Cons w ws)
  show ?case
  proof (cases k)
    case 0
    then show ?thesis by (simp add: get_le_head)
  next
    case (Suc j)
    with Cons show ?thesis by (simp add: get_le_skip)
  qed
qed simp

lemma inode_blocks_roundtrip:
  assumes "length (i_blocks ino) = 15"
  shows "inode_blocks_of (inode_bytes ino @ ys) = i_blocks ino"
proof (rule nth_equalityI)
  fix k assume "k < length (inode_blocks_of (inode_bytes ino @ ys))"
  then have k: "k < 15" by (simp add: inode_blocks_of_def)
  with assms show "inode_blocks_of (inode_bytes ino @ ys) ! k = i_blocks ino ! k"
    by (simp add: inode_blocks_of_def inode_bytes_def get_le_skip get_le32_concat)
qed (simp add: assms inode_blocks_of_def)

lemma inode_roundtrip:
  assumes "length (i_blocks ino) = 15"
  shows "inode_of_bytes (inode_bytes ino @ ys) = ino"
  unfolding inode_of_bytes_def inode_blocks_roundtrip [OF assms] using assms
  by (simp add: inode_bytes_def get_le_skip get_le_head)

lemma length_inode_bytes: "length (i_blocks ino) = 15 \<Longrightarrow> length (inode_bytes ino) = 156"
  by (simp add: inode_bytes_def)

lemma length_inode_at [simp]: "length (i_blocks (inode_at raw)) = 15"
  by (simp add: inode_at_def inode_of_bytes_def inode_blocks_of_def)

lemma length_inode_setters [simp]:
  "length (i_blocks (ext4_inode_set_csum sb ino c)) = length (i_blocks ino)"
  by (simp add: ext4_inode_set_csum_def Let_def)

lemma inode_store_big:
  assumes "length (i_blocks ino) = 15" "156 \<le> unat (s_inode_size sb)" "length raw = unat (s_inode_size sb)"
  shows "inode_store sb raw ino = inode_bytes ino @ drop 156 raw"
  using assms by (simp add: inode_store_def put_bytes_def length_inode_bytes)

lemma inode_at_store_big:
  assumes "length (i_blocks ino) = 15" "156 \<le> unat (s_inode_size sb)" "length raw = unat (s_inode_size sb)"
  shows "inode_at (inode_store sb raw ino) = ino"
  using assms by (simp add: inode_at_def inode_store_big inode_roundtrip)

text \<open>A 128-byte inode has no field past \<^verbatim>\<open>osd2\<close>: what is stored and read back is the structure with
  those fields zero.\<close>

definition inode_old :: "ext4_inode \<Rightarrow> ext4_inode" where
  "inode_old ino = ino\<lparr>i_extra_isize := 0, i_checksum_hi := 0, i_ctime_extra := 0, i_mtime_extra := 0,
     i_atime_extra := 0, i_crtime := 0, i_crtime_extra := 0, i_version_hi := 0\<rparr>"

lemma length_inode_old [simp]: "length (i_blocks (inode_old ino)) = length (i_blocks ino)"
  by (simp add: inode_old_def)

lemma le_zero: "le16 0 = replicate 2 0" "le32 0 = replicate 4 0"
  by (simp_all add: le16_def le32_def numeral_2_eq_2 numeral_eq_Suc)

lemma inode_bytes_old:
  assumes "length (i_blocks ino) = 15"
  shows "inode_bytes (inode_old ino) = take 128 (inode_bytes ino) @ replicate 28 0"
  using assms by (simp add: inode_bytes_def inode_old_def le_zero flip: replicate_add)

lemma inode_store_old:
  assumes "length (i_blocks ino) = 15" "s_inode_size sb = EXT4_GOOD_OLD_INODE_SIZE" "length raw = 128"
  shows "inode_store sb raw ino = take 128 (inode_bytes ino)"
  using assms by (simp add: inode_store_def put_bytes_def length_inode_bytes EXT4_GOOD_OLD_INODE_SIZE_def)

lemma inode_at_store_old:
  assumes "length (i_blocks ino) = 15" "s_inode_size sb = EXT4_GOOD_OLD_INODE_SIZE" "length raw = 128"
  shows "inode_at (inode_store sb raw ino) = inode_old ino"
proof -
  have "replicate 156 (0 :: u8) = replicate 28 0 @ replicate 128 0" by (simp flip: replicate_add)
  then have "inode_at (inode_store sb raw ino) = inode_of_bytes (inode_bytes (inode_old ino) @ replicate 128 0)"
    unfolding inode_at_def inode_store_old [OF assms] inode_bytes_old [OF assms(1)] by simp
  with assms(1) show ?thesis by (simp add: inode_roundtrip)
qed

lemma inode_csum_set_set [simp]:
  "ext4_inode_set_csum sb (ext4_inode_set_csum sb ino c) d = ext4_inode_set_csum sb ino d"
  "ext4_inode_get_generation (ext4_inode_set_csum sb ino c) = ext4_inode_get_generation ino"
  by (simp_all add: ext4_inode_set_csum_def ext4_inode_get_generation_def Let_def)

lemma inode_csum_old:
  assumes "s_inode_size sb = EXT4_GOOD_OLD_INODE_SIZE"
  shows "inode_old (ext4_inode_set_csum sb ino c) = ext4_inode_set_csum sb (inode_old ino) c"
    and "ext4_inode_get_generation (inode_old ino) = ext4_inode_get_generation ino"
    and "length (i_blocks ino) = 15 \<Longrightarrow> take 128 (inode_bytes (inode_old ino)) = take 128 (inode_bytes ino)"
  using assms
  by (simp_all add: ext4_inode_set_csum_def inode_old_def ext4_inode_get_generation_def Let_def inode_bytes_def)

lemma inode_csum_get_set:
  "ext4_inode_get_csum sb (ext4_inode_set_csum sb ino c) =
     (if EXT4_GOOD_OLD_INODE_SIZE < s_inode_size sb then c else c AND 0xFFFF)"
  unfolding ext4_inode_get_csum_def ext4_inode_set_csum_def Let_def ucast_u16_low [symmetric]
  by (simp add: u32_halves)

lemma inode_csum_stable:
  assumes "s_inode_size sb = EXT4_GOOD_OLD_INODE_SIZE \<or> 156 \<le> s_inode_size sb"
    and "length raw = unat (s_inode_size sb)"
  shows "ext4_fs_inode_checksum sb index (inode_store sb raw (ext4_inode_set_csum sb (inode_at raw) c)) =
    ext4_fs_inode_checksum sb index raw"
  using assms(1)
proof
  assume old: "s_inode_size sb = EXT4_GOOD_OLD_INODE_SIZE"
  then have len: "length raw = 128" using assms(2) by (simp add: EXT4_GOOD_OLD_INODE_SIZE_def)
  let ?r = "inode_store sb raw (ext4_inode_set_csum sb (inode_at raw) c)"
  have len': "length ?r = 128"
    using old len by (simp add: inode_store_old length_inode_bytes)
  have at: "inode_at ?r = ext4_inode_set_csum sb (inode_old (inode_at raw)) c"
    using old len by (simp add: inode_at_store_old inode_csum_old(1))
  have gen: "ext4_inode_get_generation (inode_at ?r) = ext4_inode_get_generation (inode_at raw)"
    by (simp add: at inode_csum_old(2) [OF old])
  let ?z = "ext4_inode_set_csum sb (inode_old (inode_at raw)) 0" and ?y = "ext4_inode_set_csum sb (inode_at raw) 0"
  have "inode_store sb ?r ?z = take 128 (inode_bytes ?z)" "inode_store sb raw ?y = take 128 (inode_bytes ?y)"
    by (rule inode_store_old [OF _ old len'] inode_store_old [OF _ old len]; simp)+
  moreover have "take 128 (inode_bytes ?z) = take 128 (inode_bytes ?y)"
    using inode_csum_old(3) [OF old, of ?y] by (simp add: inode_csum_old(1) [OF old])
  ultimately have zero: "inode_store sb ?r (ext4_inode_set_csum sb (inode_at ?r) 0) = inode_store sb raw ?y"
    unfolding at inode_csum_set_set by (simp only:)
  show ?thesis unfolding ext4_fs_inode_checksum_def Let_def gen zero ..
next
  assume "156 \<le> s_inode_size sb"
  then have big: "156 \<le> unat (s_inode_size sb)" by (simp add: word_le_nat_alt)
  let ?r = "inode_store sb raw (ext4_inode_set_csum sb (inode_at raw) c)"
  have len: "length ?r = unat (s_inode_size sb)" and tl: "drop 156 ?r = drop 156 raw"
    using big assms(2) by (simp_all add: inode_store_big length_inode_bytes)
  have at: "inode_at ?r = ext4_inode_set_csum sb (inode_at raw) c"
    using big assms(2) by (simp add: inode_at_store_big)
  have "inode_store sb ?r (ext4_inode_set_csum sb (inode_at ?r) 0) =
      inode_store sb raw (ext4_inode_set_csum sb (inode_at raw) 0)"
    unfolding at inode_csum_set_set by (subst (1 2) inode_store_big) (use big assms(2) len tl in simp_all)
  then show ?thesis unfolding ext4_fs_inode_checksum_def Let_def by (simp only: at inode_csum_set_set)
qed

lemma inode_checksum_old_low:
  "s_inode_size sb = EXT4_GOOD_OLD_INODE_SIZE \<Longrightarrow>
     ext4_fs_inode_checksum sb index raw AND 0xFFFF = ext4_fs_inode_checksum sb index raw"
  by (simp add: ext4_fs_inode_checksum_def Let_def and.assoc)

section \<open>Block counts\<close>

lemma inode_block_bits:
  "ext4_inode_block_bits_count 1024 = 10" "ext4_inode_block_bits_count 2048 = 11"
  "ext4_inode_block_bits_count 4096 = 12" "ext4_inode_block_bits_count 8192 = 13"
  "ext4_inode_block_bits_count 16384 = 14" "ext4_inode_block_bits_count 32768 = 15"
  "ext4_inode_block_bits_count 65536 = 16"
  by (simp_all add: ext4_inode_block_bits_count_def inode_block_bits_loop.simps)

lemma inode_block_bits_size:
  "unat (ext4_sb_get_block_size sb) = 2 ^ (9 + unat (ext4_inode_block_bits_count (ext4_sb_get_block_size sb) - 9))"
  using sb_block_size_cases [of sb] by (auto simp: inode_block_bits)

lemma low32: "count \<le> drop_bit 32 (NOT 0) \<longleftrightarrow> count < (2 :: u64) ^ 32"
  and low48: "count \<le> drop_bit 16 (NOT 0) \<longleftrightarrow> count < (2 :: u64) ^ 48"
proof -
  have a: "drop_bit 32 (NOT 0) = (2 :: u64) ^ 32 - 1" and b: "drop_bit 16 (NOT 0) = (2 :: u64) ^ 48 - 1"
    by (simp_all add: mask_eq_exp_minus_1)
  show "count \<le> drop_bit 32 (NOT 0) \<longleftrightarrow> count < (2 :: u64) ^ 32"
    "count \<le> drop_bit 16 (NOT 0) \<longleftrightarrow> count < (2 :: u64) ^ 48"
    unfolding a b by (simp_all add: word_le_nat_alt word_less_nat_alt less_eq_Suc_le)
qed

lemma small_take_bit:
  "c < (2 :: u64) ^ 32 \<Longrightarrow> take_bit 32 c = c" "c < (2 :: u64) ^ 48 \<Longrightarrow> take_bit 48 c = c"
  by (simp_all add: word_unat_eq_iff unsigned_take_bit_eq take_bit_eq_mod word_less_nat_alt unat_mod)

lemma u64_lo32: "ucast (ucast c :: u32) = take_bit 32 (c :: u64)"
  by (rule bit_word_eqI) (auto simp: bit_simps)

lemma u64_lo48: "ucast (ucast c :: u32) OR push_bit 32 (ucast (ucast (drop_bit 32 c) :: u16)) = take_bit 48 (c :: u64)"
  by (rule bit_word_eqI) (auto simp: bit_simps)

lemma inode_flag_set_clear:
  "ext4_inode_has_flag (ext4_inode_clear_flag ino EXT4_INODE_FLAG_HUGE_FILE) EXT4_INODE_FLAG_HUGE_FILE = False"
  "ext4_inode_has_flag (ext4_inode_set_flag ino EXT4_INODE_FLAG_HUGE_FILE) EXT4_INODE_FLAG_HUGE_FILE = True"
proof -
  have "(x AND NOT f) AND f = (0 :: u32)" for x f by (rule bit_word_eqI) (auto simp: bit_simps)
  then show "ext4_inode_has_flag (ext4_inode_clear_flag ino EXT4_INODE_FLAG_HUGE_FILE) EXT4_INODE_FLAG_HUGE_FILE = False"
    by (simp add: ext4_inode_has_flag_def ext4_inode_clear_flag_def ext4_inode_get_flags_def ext4_inode_set_flags_def)
  have "(x OR f) AND f = (f :: u32)" for x f by (rule bit_word_eqI) (auto simp: bit_simps)
  then show "ext4_inode_has_flag (ext4_inode_set_flag ino EXT4_INODE_FLAG_HUGE_FILE) EXT4_INODE_FLAG_HUGE_FILE = True"
    by (simp add: ext4_inode_has_flag_def ext4_inode_set_flag_def ext4_inode_get_flags_def ext4_inode_set_flags_def
        EXT4_INODE_FLAG_HUGE_FILE_def)
qed

section \<open>Properties\<close>

text \<open>setting the block count of an inode stores every count below \<open>2^32\<close> exactly, refuses a larger
  one when the volume has no \<open>HUGE_FILE\<close>, stores every count below \<open>2^48\<close> exactly when it has, and
  beyond that keeps the count in units of the block size: the low bits and what exceeds 48 bits of such
  units are dropped.  The unit \<open>2^k\<close> is the block size in sectors.\<close>

theorem inode_blocks_count_roundtrip:
  "case ext4_inode_set_blocks_count sb ino c of (r, ino') \<Rightarrow>
     let huge = ext4_sb_feature_ro_com sb EXT4_FRO_COM_HUGE_FILE;
         k = unat (ext4_inode_block_bits_count (ext4_sb_get_block_size sb) - 9)
     in unat (ext4_sb_get_block_size sb) = 512 * 2 ^ k \<and>
        (if c < 2 ^ 32 \<or> huge \<and> c < 2 ^ 48 then r = EOK \<and> ext4_inode_get_blocks_count sb ino' = c
         else if \<not> huge then r = EINVAL \<and> ino' = ino
         else r = EOK \<and> ext4_inode_get_blocks_count sb ino' = push_bit k (take_bit 48 (drop_bit k c)))"
proof -
  have unit: "unat (ext4_sb_get_block_size sb) =
      512 * 2 ^ unat (ext4_inode_block_bits_count (ext4_sb_get_block_size sb) - 9)"
    using inode_block_bits_size [of sb] by (simp add: power_add)
  have clr: "ext4_inode_get_blocks_count sb (ext4_inode_clear_flag ino' EXT4_INODE_FLAG_HUGE_FILE) =
      (if ext4_sb_feature_ro_com sb EXT4_FRO_COM_HUGE_FILE
       then ucast (i_blocks_count_lo ino') OR push_bit 32 (ucast (i_blocks_high ino'))
       else ucast (i_blocks_count_lo ino'))" for ino'
    using inode_flag_set_clear(1) [of ino']
    by (simp add: ext4_inode_get_blocks_count_def Let_def ext4_inode_clear_flag_def ext4_inode_set_flags_def)
  have set_hf: "ext4_inode_has_flag ((ext4_inode_set_flag ino EXT4_INODE_FLAG_HUGE_FILE)
      \<lparr>i_blocks_count_lo := a, i_blocks_high := b\<rparr>) EXT4_INODE_FLAG_HUGE_FILE" for a b
    using inode_flag_set_clear(2) [of ino] by (simp add: ext4_inode_has_flag_def ext4_inode_get_flags_def)
  have huge: "ext4_inode_get_blocks_count sb ((ext4_inode_set_flag ino EXT4_INODE_FLAG_HUGE_FILE)
      \<lparr>i_blocks_count_lo := ucast d, i_blocks_high := ucast (drop_bit 32 d)\<rparr>) =
      push_bit (unat (ext4_inode_block_bits_count (ext4_sb_get_block_size sb) - 9)) (take_bit 48 d)"
    if "ext4_sb_feature_ro_com sb EXT4_FRO_COM_HUGE_FILE" for d
    using that set_hf by (simp add: ext4_inode_get_blocks_count_def Let_def flip: u64_lo48)
  consider "c < 2 ^ 32" | "\<not> c < 2 ^ 32" "\<not> ext4_sb_feature_ro_com sb EXT4_FRO_COM_HUGE_FILE"
    | "\<not> c < 2 ^ 32" "ext4_sb_feature_ro_com sb EXT4_FRO_COM_HUGE_FILE" "c < 2 ^ 48"
    | "\<not> c < 2 ^ 32" "ext4_sb_feature_ro_com sb EXT4_FRO_COM_HUGE_FILE" "\<not> c < 2 ^ 48"
    by blast
  then show ?thesis
  proof cases
    case 1
    then show ?thesis
      using small_take_bit(1) [OF 1]
      unfolding ext4_inode_set_blocks_count_def low32 low48 Let_def by (simp add: unit clr u64_lo32)
  next
    case 2
    then show ?thesis unfolding ext4_inode_set_blocks_count_def low32 low48 Let_def by (simp add: unit)
  next
    case 3
    then show ?thesis
      using small_take_bit(2) [OF 3(3)]
      unfolding ext4_inode_set_blocks_count_def low32 low48 Let_def by (simp add: unit clr u64_lo48)
  next
    case 4
    then show ?thesis
      unfolding ext4_inode_set_blocks_count_def low32 low48 Let_def by (simp add: unit huge del: drop_bit_drop_bit)
  qed
qed

text \<open>the size of an inode is read back exactly when it is a regular file of a volume with dynamic
  revision; any other inode's size is cut to 32 bits.\<close>

theorem inode_size_roundtrip:
  "ext4_inode_get_size sb (ext4_inode_set_size ino sz) =
     (if 0 < s_rev_level sb \<and> ext4_inode_is_type sb ino EXT4_INODE_MODE_FILE then sz else take_bit 32 sz)"
proof -
  have "ext4_inode_is_type sb (ext4_inode_set_size ino sz) t = ext4_inode_is_type sb ino t" for t
    by (simp add: ext4_inode_is_type_def ext4_inode_type_def ext4_inode_get_mode_def ext4_inode_set_size_def Let_def)
  moreover have "ucast (ucast (drop_bit 32 (push_bit 32 sz)) :: u32) = take_bit 32 sz"
    and "take_bit 32 sz OR push_bit 32 (ucast (ucast (drop_bit 32 sz) :: u32)) = sz"
    by (rule bit_word_eqI; auto simp: bit_simps)+
  ultimately show ?thesis
    by (simp add: ext4_inode_get_size_def Let_def) (simp add: ext4_inode_set_size_def)
qed


text \<open>An inode whose checksum has just been stored verifies, for the original inode size and for
  every size that holds the whole structure.\<close>

theorem inode_csum_verifies:
  assumes "s_inode_size sb = EXT4_GOOD_OLD_INODE_SIZE \<or> 156 \<le> s_inode_size sb"
    and "length raw = unat (s_inode_size sb)"
  shows "ext4_fs_verify_inode_csum sb index (ext4_fs_set_inode_checksum sb index raw)"
proof -
  let ?c = "ext4_fs_inode_checksum sb index raw"
  let ?ino = "ext4_inode_set_csum sb (inode_at raw) ?c"
  have "ext4_inode_get_csum sb (inode_at (inode_store sb raw ?ino)) = ?c"
    using assms(1)
  proof
    assume old: "s_inode_size sb = EXT4_GOOD_OLD_INODE_SIZE"
    then have len: "length raw = 128" using assms(2) by (simp add: EXT4_GOOD_OLD_INODE_SIZE_def)
    show ?thesis
      using old len inode_checksum_old_low [OF old]
      by (simp add: inode_at_store_old inode_csum_old(1) inode_csum_get_set)
  next
    assume big: "156 \<le> s_inode_size sb"
    then have "EXT4_GOOD_OLD_INODE_SIZE < s_inode_size sb" "156 \<le> unat (s_inode_size sb)"
      by (simp_all add: EXT4_GOOD_OLD_INODE_SIZE_def word_le_nat_alt word_less_nat_alt)
    with assms(2) show ?thesis by (simp add: inode_at_store_big inode_csum_get_set)
  qed
  with inode_csum_stable [OF assms, of index ?c] show ?thesis
    by (simp add: ext4_fs_verify_inode_csum_def ext4_fs_set_inode_checksum_def)
qed

theorem inode_csum_verifies_witness:
  "ext4_fs_verify_inode_csum (zero_sblock\<lparr>s_inode_size := 128\<rparr>) 12
     (ext4_fs_set_inode_checksum (zero_sblock\<lparr>s_inode_size := 128\<rparr>) 12 (replicate 128 0))"
  by (rule inode_csum_verifies) (simp_all add: EXT4_GOOD_OLD_INODE_SIZE_def)

text \<open>dropping a link never takes the count below zero, never below two for a directory that had
  more, and leaves a directory whose links are no longer counted alone; adding a link to an indexed
  directory whose count is not zero never wraps: past the limit the count becomes one.\<close>

theorem inode_links_bounds:
  assumes "0 < unat (ext4_inode_get_links_cnt ino)" "unat (ext4_inode_get_links_cnt ino) < 65000"
    and "ext4_sb_feature_com sb EXT4_FCOM_DIR_INDEX" "ext4_inode_has_flag ino EXT4_INODE_FLAG_INDEX"
  shows "let n = unat (ext4_inode_get_links_cnt ino)
    in unat (ext4_inode_get_links_cnt (snd (ext4_fs_inode_links_count_inc sb ino))) =
         (if n = 1 \<or> n = 64999 then 1 else n + 1) \<and>
       unat (ext4_inode_get_links_cnt (ext4_fs_inode_links_count_dec sb ino)) =
         (if ext4_inode_is_type sb ino EXT4_INODE_MODE_DIRECTORY \<and> n \<le> 2 then n else n - 1)"
proof -
  let ?l = "ext4_inode_get_links_cnt ino"
  have suc: "unat (?l + 1) = unat ?l + 1" using assms(2) by (intro unat_Suc_word) simp
  have flag: "ext4_inode_has_flag (ext4_inode_set_links_cnt ino n) f = ext4_inode_has_flag ino f" for n f
    by (simp add: ext4_inode_has_flag_def ext4_inode_get_flags_def ext4_inode_set_links_cnt_def)
  have two: "?l + 1 = 2 \<longleftrightarrow> unat ?l = 1" using suc by (auto simp: word_unat_eq_iff)
  have "1 < ?l + 1" "EXT4_LINK_MAX \<le> ?l + 1 \<longleftrightarrow> unat ?l = 64999"
    using suc assms(1,2) by (auto simp: word_less_nat_alt word_le_nat_alt EXT4_LINK_MAX_def)
  with two suc assms(3,4) flag
  have inc: "unat (ext4_inode_get_links_cnt (snd (ext4_fs_inode_links_count_inc sb ino))) =
      (if unat ?l = 1 \<or> unat ?l = 64999 then 1 else unat ?l + 1)"
    by (simp add: ext4_fs_inode_links_count_inc_def Let_def)
      (auto simp: ext4_inode_get_links_cnt_def ext4_inode_set_links_cnt_def)
  have "unat (?l - 1) = unat ?l - 1" using assms(1) by (intro unat_minus_one) auto
  then have "unat (ext4_inode_get_links_cnt (ext4_fs_inode_links_count_dec sb ino)) =
      (if ext4_inode_is_type sb ino EXT4_INODE_MODE_DIRECTORY \<and> unat ?l \<le> 2 then unat ?l else unat ?l - 1)"
    using assms(1)
    by (auto simp: ext4_fs_inode_links_count_dec_def Let_def word_less_nat_alt
        ext4_inode_get_links_cnt_def ext4_inode_set_links_cnt_def)
  with inc show ?thesis by (simp add: Let_def)
qed

theorem inode_links_bounds_witness:
  "let sb = zero_sblock\<lparr>s_features_compatible := 0x20\<rparr>;
       ino = (inode_of_bytes (replicate 156 0))\<lparr>i_links_count := 64999, i_flags := 0x1000\<rparr>
   in i_links_count (snd (ext4_fs_inode_links_count_inc sb ino)) = 1"
proof -
  let ?sb = "zero_sblock\<lparr>s_features_compatible := 0x20\<rparr>"
  let ?ino = "(inode_of_bytes (replicate 156 0))\<lparr>i_links_count := 64999, i_flags := 0x1000\<rparr>"
  have cnt: "ext4_inode_get_links_cnt ?ino = 64999" by (simp add: ext4_inode_get_links_cnt_def)
  have "unat (ext4_inode_get_links_cnt (snd (ext4_fs_inode_links_count_inc ?sb ?ino))) = 1"
    using inode_links_bounds [of ?ino ?sb] unfolding cnt Let_def
    by (simp add: ext4_sb_feature_com_def ext4_inode_has_flag_def ext4_inode_get_flags_def
        EXT4_FCOM_DIR_INDEX_def EXT4_INODE_FLAG_INDEX_def)
  then have "unat (i_links_count (snd (ext4_fs_inode_links_count_inc ?sb ?ino))) = unat (1 :: u16)"
    unfolding ext4_inode_get_links_cnt_def by simp
  then show ?thesis unfolding Let_def by (simp only: word_unat_eq_iff)
qed

end
