(* ===== verification/Probe.thy ===== *)
theory Probe
  imports Block_Group
begin

unbundle bit_operations_syntax

text \<open>
  The probe of \<^verbatim>\<open>ext4_bridge.c\<close>: the feature policy table, the geometry gate and \<^verbatim>\<open>ext4b_probe\<close>, which
  decides from the 1024 bytes of the superblock whether a volume is mounted, mounted read-only or
  refused.  The host's read callback is a parameter: what it returned for the superblock.
\<close>

section \<open>The policy table\<close>

datatype ext4b_policy = EXT4B_POLICY_SUPPORTED | EXT4B_POLICY_DOWNGRADED | EXT4B_POLICY_REFUSED

record ext4b_feature_rule =
  fr_set :: char
  fr_bit :: u32
  fr_name :: string
  fr_policy :: ext4b_policy
  fr_why :: string

definition frule :: "char \<Rightarrow> u32 \<Rightarrow> string \<Rightarrow> ext4b_policy \<Rightarrow> string \<Rightarrow> ext4b_feature_rule" where
  "frule st bt name policy why =
     \<lparr>fr_set = st, fr_bit = bt, fr_name = name, fr_policy = policy, fr_why = why\<rparr>"

definition ext4b_feature_rules :: "ext4b_feature_rule list" where
  "ext4b_feature_rules =
    [frule (CHR ''I'') 0x0001 ''compression'' EXT4B_POLICY_REFUSED ''filesystem uses compression'',
     frule (CHR ''I'') 0x0002 ''filetype'' EXT4B_POLICY_SUPPORTED '''',
     frule (CHR ''I'') 0x0004 ''needs_recovery'' EXT4B_POLICY_SUPPORTED '''',
     frule (CHR ''I'') 0x0008 ''journal_dev'' EXT4B_POLICY_REFUSED ''this is an external journal device'',
     frule (CHR ''I'') 0x0010 ''meta_bg'' EXT4B_POLICY_REFUSED
       ''filesystem uses meta_bg descriptor placement, which this driver reads incorrectly'',
     frule (CHR ''I'') 0x0040 ''extent'' EXT4B_POLICY_SUPPORTED '''',
     frule (CHR ''I'') 0x0080 ''64bit'' EXT4B_POLICY_SUPPORTED '''',
     frule (CHR ''I'') 0x0100 ''mmp'' EXT4B_POLICY_SUPPORTED '''',
     frule (CHR ''I'') 0x0200 ''flex_bg'' EXT4B_POLICY_SUPPORTED '''',
     frule (CHR ''I'') 0x0400 ''ea_inode'' EXT4B_POLICY_REFUSED ''filesystem uses EA inodes'',
     frule (CHR ''I'') 0x2000 ''metadata_csum_seed'' EXT4B_POLICY_SUPPORTED '''',
     frule (CHR ''I'') 0x4000 ''large_dir'' EXT4B_POLICY_REFUSED ''filesystem uses large directories'',
     frule (CHR ''I'') 0x8000 ''inline_data'' EXT4B_POLICY_REFUSED ''filesystem uses inline data'',
     frule (CHR ''I'') 0x10000 ''encrypt'' EXT4B_POLICY_REFUSED ''filesystem uses encryption (fscrypt)'',
     frule (CHR ''I'') 0x20000 ''casefold'' EXT4B_POLICY_REFUSED ''filesystem uses case-folding'',
     frule (CHR ''R'') 0x0001 ''sparse_super'' EXT4B_POLICY_SUPPORTED '''',
     frule (CHR ''R'') 0x0002 ''large_file'' EXT4B_POLICY_SUPPORTED '''',
     frule (CHR ''R'') 0x0008 ''huge_file'' EXT4B_POLICY_SUPPORTED '''',
     frule (CHR ''R'') 0x0010 ''uninit_bg'' EXT4B_POLICY_SUPPORTED '''',
     frule (CHR ''R'') 0x0020 ''dir_nlink'' EXT4B_POLICY_SUPPORTED '''',
     frule (CHR ''R'') 0x0040 ''extra_isize'' EXT4B_POLICY_SUPPORTED '''',
     frule (CHR ''R'') 0x0100 ''quota'' EXT4B_POLICY_DOWNGRADED ''filesystem uses quotas'',
     frule (CHR ''R'') 0x0200 ''bigalloc'' EXT4B_POLICY_REFUSED
       ''bigalloc (clustered allocation) is not supported by this driver; the volume itself is fine'',
     frule (CHR ''R'') 0x0400 ''metadata_csum'' EXT4B_POLICY_SUPPORTED '''',
     frule (CHR ''R'') 0x2000 ''project'' EXT4B_POLICY_DOWNGRADED ''filesystem uses project quotas'',
     frule (CHR ''R'') 0x8000 ''verity'' EXT4B_POLICY_DOWNGRADED ''filesystem uses fs-verity'']"

definition ext4b_supported_mask :: "char \<Rightarrow> u32" where
  "ext4b_supported_mask st =
     foldl (\<lambda>m r. if fr_set r = st \<and> fr_policy r = EXT4B_POLICY_SUPPORTED then m OR fr_bit r else m)
       0 ext4b_feature_rules"

definition ext4b_rule_for :: "char \<Rightarrow> u32 \<Rightarrow> ext4b_policy \<Rightarrow> ext4b_feature_rule option" where
  "ext4b_rule_for st bits policy =
     find (\<lambda>r. fr_set r = st \<and> fr_policy r = policy \<and> bits AND fr_bit r \<noteq> 0) ext4b_feature_rules"

section \<open>What a probe reports\<close>

datatype ext4b_probe_verdict = EXT4B_PROBE_NOT_EXT | EXT4B_PROBE_USABLE | EXT4B_PROBE_READ_ONLY
  | EXT4B_PROBE_UNSUPPORTED

text \<open>The sentence in \<^verbatim>\<open>unsupported\<close>, as its format and the values printed.\<close>

datatype probe_text = NoText | BadShift u32 | TooManyBlocks u64 | Sentence string
  | BadGeometry string | BadChecksum | BadIncompat string u32 | BadRoCompat string u32

record ext4b_probe_info =
  pi_verdict :: ext4b_probe_verdict
  pi_label :: bytes
  pi_uuid :: bytes
  pi_block_size :: u32
  pi_block_count :: u64
  pi_free_blocks :: u64
  pi_inode_count :: u32
  pi_free_inodes :: u32
  pi_feature_incompat :: u32
  pi_feature_ro_compat :: u32
  pi_feature_compat :: u32
  pi_has_journal :: bool
  pi_needs_recovery :: bool
  pi_generation :: int
  pi_unsupported :: probe_text

definition probe_empty :: ext4b_probe_info where
  "probe_empty = \<lparr>pi_verdict = EXT4B_PROBE_NOT_EXT, pi_label = replicate 17 0, pi_uuid = replicate 16 0,
     pi_block_size = 0, pi_block_count = 0, pi_free_blocks = 0, pi_inode_count = 0, pi_free_inodes = 0,
     pi_feature_incompat = 0, pi_feature_ro_compat = 0, pi_feature_compat = 0, pi_has_journal = False,
     pi_needs_recovery = False, pi_generation = 0, pi_unsupported = NoText\<rparr>"

definition rd16 :: "bytes \<Rightarrow> nat \<Rightarrow> u16" where
  "rd16 p off = ucast (p ! off) OR push_bit 8 (ucast (p ! (off + 1)))"

definition rd32 :: "bytes \<Rightarrow> nat \<Rightarrow> u32" where
  "rd32 p off = ucast (p ! off) OR push_bit 8 (ucast (p ! (off + 1))) OR
     push_bit 16 (ucast (p ! (off + 2))) OR push_bit 24 (ucast (p ! (off + 3)))"

section \<open>The geometry gate\<close>

text \<open>The reason to refuse, if there is one; the checks in the order of the source.\<close>

definition geometry_sizes :: "bytes \<Rightarrow> ext4b_probe_info \<Rightarrow> string option" where
  "geometry_sizes sb out =
     (let bs = pi_block_size out;
          inode_size = (ucast (rd16 sb 0x058) :: u32);
          first_data_block = rd32 sb 0x014;
          blocks_per_group = rd32 sb 0x020;
          inodes_per_group = rd32 sb 0x028;
          first_ino = rd32 sb 0x054;
          journal_inum = rd32 sb 0x0E0;
          reserved_gdt = (ucast (rd16 sb 0x0CE) :: u32);
          flex_shift = (ucast (sb ! 0x174) :: u32);
          rev_level = rd32 sb 0x04C
      in if rev_level = 0 \<and> inode_size \<noteq> 128
         then Some ''revision-0 superblock with an inode size other than 128''
         else if inode_size < 128 \<or> bs < inode_size then Some ''inode size is outside [128, block size]''
         else if inode_size AND (inode_size - 1) \<noteq> 0 then Some ''inode size is not a power of two''
         else if blocks_per_group < 8 \<or> (8 :: u64) * ucast bs * 1 < ucast blocks_per_group
         then Some ''blocks per group is outside [8, 8 x block size]''
         else if blocks_per_group mod 8 \<noteq> 0 then Some ''blocks per group is not a multiple of 8''
         else if inodes_per_group = 0 \<or> 8 * bs < inodes_per_group
         then Some ''inodes per group is outside [1, 8 x block size]''
         else if inodes_per_group mod 8 \<noteq> 0 then Some ''inodes per group is not a multiple of 8''
         else if pi_inode_count out < inodes_per_group
         then Some ''inodes per group exceeds the total inode count''
         else if first_data_block \<noteq> (if bs = 1024 then 1 else 0)
         then Some ''first data block does not match the block size''
         else if pi_block_count out \<le> ucast first_data_block
         then Some ''the volume has no blocks past its first''
         else if rev_level \<noteq> 0 \<and> first_ino < 11 then Some ''first non-reserved inode is below 11''
         else if pi_inode_count out < journal_inum
         then Some ''journal inode is past the end of the inode table''
         else if 31 < flex_shift then Some ''flex_bg group shift is impossible''
         else if bs div 4 < reserved_gdt
         then Some ''reserved GDT blocks exceed what one block can address''
         else None)"

definition geometry_desc_size :: "bytes \<Rightarrow> ext4b_probe_info \<Rightarrow> string option" where
  "geometry_desc_size sb out =
     (let bs = pi_block_size out; desc_size = (ucast (rd16 sb 0x0FE) :: u32)
      in if desc_size \<noteq> 0 then
           if desc_size < 32 \<or> bs < desc_size
           then Some ''group descriptor size is outside [32, block size]''
           else if desc_size AND (desc_size - 1) \<noteq> 0
           then Some ''group descriptor size is not a power of two''
           else None
         else if pi_feature_incompat out AND 0x0080 \<noteq> 0
         then Some ''64-bit volume with no group descriptor size''
         else None)"

definition geometry_groups :: "bytes \<Rightarrow> ext4b_probe_info \<Rightarrow> string option" where
  "geometry_groups sb out =
     (let blocks_per_group = rd32 sb 0x020;
          groups = (pi_block_count out - ucast (rd32 sb 0x014) + ucast blocks_per_group - 1) div ucast blocks_per_group
      in if groups = 0 \<or> 0xFFFFFFFF < groups
         then Some ''the volume needs more block groups than ext4 can address''
         else if ucast (rd32 sb 0x028) * groups \<noteq> (ucast (pi_inode_count out) :: u64)
         then Some ''inode count is not block groups x inodes per group''
         else None)"

definition geometry_gate :: "bytes \<Rightarrow> ext4b_probe_info \<Rightarrow> string option" where
  "geometry_gate sb out =
     (case geometry_sizes sb out of Some why \<Rightarrow> Some why
      | None \<Rightarrow> case geometry_desc_size sb out of Some why \<Rightarrow> Some why
        | None \<Rightarrow> geometry_groups sb out)"

section \<open>The probe\<close>

text \<open>The facts the probe copies out of the superblock once the block size is plausible.\<close>

definition probe_fields :: "bytes \<Rightarrow> ext4b_probe_info" where
  "probe_fields sb =
     (let incompat = rd32 sb 0x060; compat = rd32 sb 0x05C;
          wide = incompat AND 0x0080 \<noteq> 0;
          has_journal = compat AND 0x0004 \<noteq> 0
      in probe_empty
         \<lparr>pi_block_size := push_bit (unat (rd32 sb 0x018)) 1024,
          pi_feature_compat := compat, pi_feature_incompat := incompat,
          pi_feature_ro_compat := rd32 sb 0x064,
          pi_block_count := (if wide then ucast (rd32 sb 0x004) OR push_bit 32 (ucast (rd32 sb 0x150))
                             else ucast (rd32 sb 0x004)),
          pi_free_blocks := (if wide then ucast (rd32 sb 0x00C) OR push_bit 32 (ucast (rd32 sb 0x158))
                             else ucast (rd32 sb 0x00C)),
          pi_inode_count := rd32 sb 0x000, pi_free_inodes := rd32 sb 0x010,
          pi_uuid := take 16 (drop 0x068 sb), pi_label := take 16 (drop 0x078 sb) @ [0],
          pi_has_journal := has_journal, pi_needs_recovery := (incompat AND 0x0004 \<noteq> 0),
          pi_generation := (if incompat AND 0x0040 \<noteq> 0 then 4 else if has_journal then 3 else 2)\<rparr>)"

definition probe_refuse :: "ext4b_probe_info \<Rightarrow> probe_text \<Rightarrow> errno \<times> ext4b_probe_info" where
  "probe_refuse out t = (EOK, out\<lparr>pi_verdict := EXT4B_PROBE_UNSUPPORTED, pi_unsupported := t\<rparr>)"

definition ext4b_probe :: "int \<times> bytes \<Rightarrow> u64 \<Rightarrow> u32 \<Rightarrow> errno \<times> ext4b_probe_info" where
  "ext4b_probe answer ph_bcnt ph_bsize =
     (let (rc, sb) = answer in
      if rc \<noteq> 0 then (EIO, probe_empty)
      else if rd16 sb 0x038 \<noteq> 0xEF53 then (EOK, probe_empty)
      else if 6 < rd32 sb 0x018 then probe_refuse probe_empty (BadShift (rd32 sb 0x018))
      else
        let out = probe_fields sb;
            dev_bytes = ph_bcnt * ucast ph_bsize;
            max_blocks = (if pi_block_size out \<noteq> 0 then dev_bytes div ucast (pi_block_size out) else 0)
        in if pi_block_count out = 0 \<or> max_blocks < pi_block_count out
           then probe_refuse out (TooManyBlocks (pi_block_count out))
           else if rd32 sb 0x064 AND 0x0200 \<noteq> 0
           then probe_refuse out (Sentence
             (case ext4b_rule_for (CHR ''R'') 0x0200 EXT4B_POLICY_REFUSED of
                Some r \<Rightarrow> fr_why r | None \<Rightarrow> ''bigalloc is not supported by this driver''))
           else case geometry_gate sb out of Some why \<Rightarrow> probe_refuse out (BadGeometry why)
           | None \<Rightarrow>
               if pi_feature_ro_compat out AND 0x0400 \<noteq> 0 \<and>
                  rd32 sb 0x3FC \<noteq> ext4_crc32c EXT4_CRC32_INIT (take 0x3FC sb)
               then probe_refuse out BadChecksum
               else
                 let bad_incompat = pi_feature_incompat out AND NOT (ext4b_supported_mask (CHR ''I''));
                     bad_ro = pi_feature_ro_compat out AND NOT (ext4b_supported_mask (CHR ''R''))
                 in if bad_incompat \<noteq> 0
                    then probe_refuse out (BadIncompat
                      (case ext4b_rule_for (CHR ''I'') bad_incompat EXT4B_POLICY_REFUSED of
                         Some r \<Rightarrow> fr_why r | None \<Rightarrow> ''unsupported incompatible features'') bad_incompat)
                    else if bad_ro \<noteq> 0
                    then (EOK, out\<lparr>pi_verdict := EXT4B_PROBE_READ_ONLY, pi_unsupported := BadRoCompat
                      (case ext4b_rule_for (CHR ''R'') bad_ro EXT4B_POLICY_DOWNGRADED of
                         Some r \<Rightarrow> fr_why r | None \<Rightarrow> ''unsupported read-only features'') bad_ro\<rparr>)
                    else (EOK, out\<lparr>pi_verdict := EXT4B_PROBE_USABLE\<rparr>))"

section \<open>The bytes the probe reads\<close>

lemma rd_eq: "rd16 p off = get_le16 p off" "rd32 p off = get_le32 p off"
  by (simp_all add: rd16_def rd32_def get_le16_def get_le32_def)

lemma get_le_Cons: "0 < n \<Longrightarrow> get_le16 (x # xs) n = get_le16 xs (n - 1)" "0 < n \<Longrightarrow> get_le32 (x # xs) n = get_le32 xs (n - 1)"
  using get_le_skip [of "[x]" n xs] by simp_all

lemma sb_fields:
  assumes "wf_sblock s"
  shows "rd32 (sblock_bytes s) 0x000 = s_inodes_count s"
    and "rd32 (sblock_bytes s) 0x004 = s_blocks_count_lo s"
    and "rd32 (sblock_bytes s) 0x014 = s_first_data_block s"
    and "rd32 (sblock_bytes s) 0x018 = s_log_block_size s"
    and "rd32 (sblock_bytes s) 0x020 = s_blocks_per_group s"
    and "rd32 (sblock_bytes s) 0x028 = s_inodes_per_group s"
    and "rd16 (sblock_bytes s) 0x038 = s_magic s"
    and "rd32 (sblock_bytes s) 0x04C = s_rev_level s"
    and "rd32 (sblock_bytes s) 0x054 = s_first_inode s"
    and "rd16 (sblock_bytes s) 0x058 = s_inode_size s"
    and "rd32 (sblock_bytes s) 0x060 = s_features_incompatible s"
    and "rd32 (sblock_bytes s) 0x064 = s_features_read_only s"
    and "rd16 (sblock_bytes s) 0x0CE = s_reserved_gdt_blocks s"
    and "rd32 (sblock_bytes s) 0x0E0 = s_journal_inode_number s"
    and "rd16 (sblock_bytes s) 0x0FE = s_desc_size s"
    and "rd32 (sblock_bytes s) 0x150 = s_blocks_count_hi s"
    and "sblock_bytes s ! 0x174 = s_log_groups_per_flex s"
    and "rd32 (sblock_bytes s) 0x3FC = s_checksum s"
  using assms unfolding rd_eq wf_sblock_def sblock_bytes_def sblock_head_bytes_def
  by (simp_all add: get_le_skip get_le_Cons get_le_head get_le32_le32 nth_append)

section \<open>What a verdict promises\<close>

definition probe_mounts :: "ext4b_probe_info \<Rightarrow> bool" where
  "probe_mounts out \<longleftrightarrow> pi_verdict out = EXT4B_PROBE_USABLE \<or> pi_verdict out = EXT4B_PROBE_READ_ONLY"

lemma probe_refuse_verdict [simp]: "probe_refuse out t = (r, out') \<Longrightarrow> \<not> probe_mounts out'"
  by (auto simp: probe_refuse_def probe_mounts_def)

lemma probe_empty_verdict [simp]: "\<not> probe_mounts probe_empty"
  by (simp add: probe_mounts_def probe_empty_def)

lemma probe_accepts:
  assumes "ext4b_probe (rc, sb) ph_bcnt ph_bsize = (r, out)" "probe_mounts out"
  shows "rc = 0" "r = EOK" "rd16 sb 0x038 = 0xEF53" "rd32 sb 0x018 \<le> 6"
    and "pi_block_count (probe_fields sb) \<noteq> 0"
    and "pi_block_count (probe_fields sb) \<le> ph_bcnt * ucast ph_bsize div ucast (pi_block_size (probe_fields sb))"
    and "rd32 sb 0x064 AND 0x0200 = 0" "geometry_gate sb (probe_fields sb) = None"
    and "rd32 sb 0x064 AND 0x0400 = 0 \<or> rd32 sb 0x3FC = ext4_crc32c EXT4_CRC32_INIT (take 0x3FC sb)"
    and "rd32 sb 0x060 AND NOT (ext4b_supported_mask (CHR ''I'')) = 0"
    and "pi_verdict out = (if rd32 sb 0x064 AND NOT (ext4b_supported_mask (CHR ''R'')) = 0
      then EXT4B_PROBE_USABLE else EXT4B_PROBE_READ_ONLY)"
    and "pi_block_size out = pi_block_size (probe_fields sb)" "pi_block_count out = pi_block_count (probe_fields sb)"
    and "pi_inode_count out = pi_inode_count (probe_fields sb)"
proof -
  let ?out = "probe_fields sb"
  have ro: "pi_feature_ro_compat ?out = rd32 sb 0x064" "pi_feature_incompat ?out = rd32 sb 0x060"
    by (simp_all add: probe_fields_def Let_def)
  note d = assms(1) [unfolded ext4b_probe_def Let_def prod.case ro]
  have "rc = 0 \<and> rd16 sb 0x038 = 0xEF53 \<and> \<not> 6 < rd32 sb 0x018 \<and>
      \<not> (pi_block_count ?out = 0 \<or> (if pi_block_size ?out \<noteq> 0
         then ph_bcnt * ucast ph_bsize div ucast (pi_block_size ?out) else 0) < pi_block_count ?out) \<and>
      rd32 sb 0x064 AND 0x0200 = 0"
    using d assms(2) by (auto dest!: probe_refuse_verdict split del: if_split split: if_split_asm)
  note s1 = this
  have gate: "geometry_gate sb ?out = None"
    using d assms(2) s1 by (cases "geometry_gate sb ?out") auto
  note d = d [unfolded gate option.case]
  show "rc = 0" "rd16 sb 0x038 = 0xEF53" "rd32 sb 0x018 \<le> 6" "pi_block_count ?out \<noteq> 0"
    "rd32 sb 0x064 AND 0x0200 = 0" "geometry_gate sb ?out = None"
    "pi_block_count ?out \<le> ph_bcnt * ucast ph_bsize div ucast (pi_block_size ?out)"
    using s1 gate by (auto simp: not_less split: if_splits)
  have s2: "\<not> (rd32 sb 0x064 AND 0x0400 \<noteq> 0 \<and> rd32 sb 0x3FC \<noteq> ext4_crc32c EXT4_CRC32_INIT (take 0x3FC sb)) \<and>
      rd32 sb 0x060 AND NOT (ext4b_supported_mask (CHR ''I'')) = 0"
    using d assms(2) s1 by (auto dest!: probe_refuse_verdict split del: if_split split: if_split_asm)
  then show "rd32 sb 0x064 AND 0x0400 = 0 \<or> rd32 sb 0x3FC = ext4_crc32c EXT4_CRC32_INIT (take 0x3FC sb)"
    "rd32 sb 0x060 AND NOT (ext4b_supported_mask (CHR ''I'')) = 0" by blast+
  show "r = EOK" "pi_verdict out = (if rd32 sb 0x064 AND NOT (ext4b_supported_mask (CHR ''R'')) = 0
      then EXT4B_PROBE_USABLE else EXT4B_PROBE_READ_ONLY)"
    "pi_block_size out = pi_block_size ?out" "pi_block_count out = pi_block_count ?out"
    "pi_inode_count out = pi_inode_count ?out"
    using d s1 s2 by (auto split: if_splits)
qed

text \<open>The geometry the rest of the driver computes addresses with.\<close>

definition sb_geometry :: "ext4_sblock \<Rightarrow> bool" where
  "sb_geometry s \<longleftrightarrow>
     (let bs = unat (ext4_sb_get_block_size s)
      in 128 \<le> s_inode_size s \<and> unat (s_inode_size s) dvd bs \<and>
         8 \<le> unat (s_blocks_per_group s) \<and> unat (s_blocks_per_group s) \<le> 8 * bs \<and> 8 dvd unat (s_blocks_per_group s) \<and>
         0 < unat (s_inodes_per_group s) \<and> unat (s_inodes_per_group s) \<le> 8 * bs \<and> 8 dvd unat (s_inodes_per_group s) \<and>
         s_first_data_block s = (if bs = 1024 then 1 else 0) \<and>
         32 \<le> ext4_sb_get_desc_size s \<and> unat (ext4_sb_get_desc_size s) dvd bs)"

lemma pow2_nat: "(n :: nat) AND (n - 1) = 0 \<Longrightarrow> 0 < n \<Longrightarrow> \<exists>k. n = 2 ^ k"
proof (induction n rule: less_induct)
  case (less n)
  show ?case
  proof (cases "odd n")
    case True
    then obtain m where m: "n = 2 * m + 1" by (rule oddE)
    have "n AND (n - 1) = 2 * m" unfolding m by (subst and_rec) simp
    with less.prems m show ?thesis by (intro exI [of _ 0]) simp
  next
    case False
    then obtain m where m: "n = 2 * m" by (auto elim: evenE)
    with less.prems have "0 < m" by simp
    then have pred: "(2 * m - 1) div 2 = m - 1" by (cases m) simp_all
    have "n AND (n - 1) = 2 * (m AND (m - 1))" unfolding m by (subst and_rec) (simp add: pred [simplified])
    with less.prems have "m AND (m - 1) = 0" by simp
    with less.IH [of m] m \<open>0 < m\<close> obtain k where "m = 2 ^ k" by auto
    with m show ?thesis by (intro exI [of _ "Suc k"]) simp
  qed
qed

lemma pow2_word: "(w :: u32) AND (w - 1) = 0 \<Longrightarrow> 0 < unat w \<Longrightarrow> \<exists>k. unat w = 2 ^ k"
proof (rule pow2_nat)
  assume *: "w AND (w - 1) = 0" "0 < unat w"
  then have "unat (w - 1) = unat w - 1" by (intro unat_minus_one) auto
  then have "unat w AND (unat w - 1) = unat (w AND (w - 1))" by (simp add: unsigned_and_eq)
  with * show "unat w AND (unat w - 1) = 0" by simp
qed

lemma pow2_dvd: "(w :: u32) AND (w - 1) = 0 \<Longrightarrow> 0 < unat w \<Longrightarrow> unat w \<le> 2 ^ n \<Longrightarrow> unat w dvd 2 ^ n"
  using pow2_word [of w] le_imp_power_dvd by (fastforce dest: power_le_imp_le_exp [rotated])

lemma sb_block_size_shift:
  "s_log_block_size s \<le> 6 \<Longrightarrow> ext4_sb_get_block_size s = push_bit (unat (s_log_block_size s)) 1024"
  by (auto simp: ext4_sb_get_block_size_def not_less [symmetric])

lemma sb_block_size_pow: "\<exists>n. unat (ext4_sb_get_block_size s) = 2 ^ n"
  using sb_block_size_cases [of s]
  by (elim insertE emptyE) (simp_all, (rule exI [of _ 10] exI [of _ 11] exI [of _ 12] exI [of _ 13]
      exI [of _ 14] exI [of _ 15] exI [of _ 16], simp; fail)+)

lemma supported_masks:
  "ext4b_supported_mask (CHR ''I'') = 0x23C6" "ext4b_supported_mask (CHR ''R'') = 0x47B"
  by (simp_all add: ext4b_supported_mask_def ext4b_feature_rules_def frule_def)

lemma if_Some_None: "(if b then Some x else y) = None \<longleftrightarrow> \<not> b \<and> y = None"
  by simp

lemma word_mod_8: "(w :: u32) mod 8 = 0 \<Longrightarrow> 8 dvd unat w"
proof -
  assume "w mod 8 = 0"
  then have "unat (w mod 8) = 0" by (simp only: unsigned_0)
  then show ?thesis by (simp add: unat_mod mod_eq_0_iff_dvd)
qed

lemma gate_sizes:
  assumes wf: "wf_sblock s" and log: "s_log_block_size s \<le> 6"
    and gate: "geometry_gate (sblock_bytes s) (probe_fields (sblock_bytes s)) = None"
  shows "sb_geometry s" "pi_block_size (probe_fields (sblock_bytes s)) = ext4_sb_get_block_size s"
    and "ucast (s_first_data_block s) < pi_block_count (probe_fields (sblock_bytes s))"
proof -
  let ?out = "probe_fields (sblock_bytes s)" and ?bs = "ext4_sb_get_block_size s"
  show bs: "pi_block_size ?out = ?bs"
    using log by (simp add: probe_fields_def Let_def sb_fields [OF wf] sb_block_size_shift)
  have sizes: "geometry_sizes (sblock_bytes s) ?out = None" and desc: "geometry_desc_size (sblock_bytes s) ?out = None"
    using gate by (auto simp: geometry_gate_def split: option.splits)
  note sz = sizes [unfolded geometry_sizes_def Let_def sb_fields [OF wf] bs if_Some_None de_Morgan_disj not_not]
  note ds = desc [unfolded geometry_desc_size_def Let_def sb_fields [OF wf] bs]
  let ?is = "ucast (s_inode_size s) :: u32" and ?d = "ucast (s_desc_size s) :: u32"
  obtain n where n: "unat ?bs = 2 ^ n" using sb_block_size_pow by blast
  have isc: "\<not> ?is < 128" "\<not> ?bs < ?is" "?is AND (?is - 1) = 0" using sz by blast+
  then have isz: "128 \<le> unat (s_inode_size s)" "unat (s_inode_size s) \<le> unat ?bs"
    by (simp_all add: word_less_nat_alt)
  then have "unat (s_inode_size s) dvd unat ?bs"
    using pow2_dvd [OF isc(3), of n] n by simp
  moreover have bpg: "8 \<le> unat (s_blocks_per_group s)" "8 dvd unat (s_blocks_per_group s)"
    "\<not> (8 :: u64) * ucast ?bs * 1 < ucast (s_blocks_per_group s)"
  proof -
    have "\<not> s_blocks_per_group s < 8" "s_blocks_per_group s mod 8 = 0" using sz by blast+
    then show "8 \<le> unat (s_blocks_per_group s)" "8 dvd unat (s_blocks_per_group s)"
      by (simp_all add: word_less_nat_alt word_mod_8)
    show "\<not> (8 :: u64) * ucast ?bs * 1 < ucast (s_blocks_per_group s)" using sz by blast
  qed
  have "unat ((8 :: u64) * ucast ?bs * 1) = 8 * unat ?bs"
    using sb_block_size_cases [of s] by auto
  with bpg(3) have "unat (s_blocks_per_group s) \<le> 8 * unat ?bs" by (simp add: word_less_nat_alt)
  moreover have ipg: "0 < unat (s_inodes_per_group s)" "8 dvd unat (s_inodes_per_group s)"
    "\<not> 8 * ?bs < s_inodes_per_group s"
  proof -
    have "s_inodes_per_group s \<noteq> 0" "s_inodes_per_group s mod 8 = 0" using sz by blast+
    then show "0 < unat (s_inodes_per_group s)" "8 dvd unat (s_inodes_per_group s)"
      by (simp_all add: unat_gt_0 word_mod_8)
    show "\<not> 8 * ?bs < s_inodes_per_group s" using sz by blast
  qed
  have "unat (8 * ?bs) = 8 * unat ?bs" using sb_block_size_cases [of s] by auto
  with ipg(3) have "unat (s_inodes_per_group s) \<le> 8 * unat ?bs" by (simp add: word_less_nat_alt)
  moreover have "s_first_data_block s = (if unat ?bs = 1024 then 1 else 0)"
  proof -
    have "s_first_data_block s = (if ?bs = 1024 then 1 else 0)" using sz by blast
    moreover have "?bs = 1024 \<longleftrightarrow> unat ?bs = 1024" by (simp add: word_unat_eq_iff)
    ultimately show ?thesis by simp
  qed
  moreover have "32 \<le> ext4_sb_get_desc_size s \<and> unat (ext4_sb_get_desc_size s) dvd unat ?bs"
  proof (cases "s_desc_size s = 0")
    case True
    then have "ext4_sb_get_desc_size s = 32"
      by (simp add: ext4_sb_get_desc_size_def EXT4_MIN_BLOCK_GROUP_DESCRIPTOR_SIZE_def)
    then show ?thesis using sb_block_size_cases [of s] by auto
  next
    case False
    then have nz: "?d \<noteq> 0" by (simp add: word_unat_eq_iff)
    with ds have d: "\<not> ?d < 32" "\<not> ?bs < ?d" "?d AND (?d - 1) = 0" by (auto split: if_splits)
    then have dn: "32 \<le> unat (s_desc_size s)" "unat (s_desc_size s) \<le> unat ?bs"
      by (simp_all add: word_less_nat_alt)
    then have "ext4_sb_get_desc_size s = s_desc_size s"
      by (simp add: ext4_sb_get_desc_size_def EXT4_MIN_BLOCK_GROUP_DESCRIPTOR_SIZE_def word_less_nat_alt)
    with dn pow2_dvd [OF d(3), of n] n show ?thesis by (simp add: word_le_nat_alt)
  qed
  ultimately show "sb_geometry s"
    using bpg(1,2) ipg(1,2) isz by (simp add: sb_geometry_def Let_def word_le_nat_alt)
  have "\<not> pi_block_count ?out \<le> ucast (s_first_data_block s)" using sz by blast
  then show "ucast (s_first_data_block s) < pi_block_count ?out" by (simp only: not_le)
qed

lemma ceil_div_shift:
  assumes "0 < p" "f \<le> 1" "f < B"
  shows "(B + p - 1) div p = (if f = 1 \<and> (B - 1) mod p = 0 then (B - f + p - 1) div p + 1 else (B - f + p - 1) div (p :: nat))"
proof (cases "f = 0")
  case False
  with assms have f: "f = 1" and B: "1 < B" by simp_all
  have a: "(B + p - 1) div p = Suc ((B - 1) div p)" using ceil_div_Suc [of B p] assms(1) B by simp
  have "(B - f + p - 1) div p = (if (B - 1) mod p \<noteq> 0 then (B - 1) div p + 1 else (B - 1) div p)"
    using ceil_div_cases [OF assms(1), of "B - 1"] f by simp
  with a f show ?thesis by simp
qed simp

text \<open>The number of groups the gate computes, in the naturals.\<close>

lemma gate_groups:
  assumes wf: "wf_sblock s" and geo: "sb_geometry s"
    and gate: "geometry_gate (sblock_bytes s) (probe_fields (sblock_bytes s)) = None"
    and B: "B = unat (pi_block_count (probe_fields (sblock_bytes s)))" "B < 2 ^ 63"
    and f: "f = unat (s_first_data_block s)" "f < B"
  shows "unat (s_inodes_count s) = unat (s_inodes_per_group s) * ((B - f + unat (s_blocks_per_group s) - 1) div unat (s_blocks_per_group s))"
proof -
  let ?out = "probe_fields (sblock_bytes s)"
  let ?bc = "pi_block_count ?out" and ?p = "unat (s_blocks_per_group s)" and ?ipg = "unat (s_inodes_per_group s)"
  let ?g = "(?bc - ucast (s_first_data_block s) + ucast (s_blocks_per_group s) - 1) div (ucast (s_blocks_per_group s) :: u64)"
  have "geometry_groups (sblock_bytes s) ?out = None"
    using gate by (auto simp: geometry_gate_def split: option.splits)
  note gr = this [unfolded geometry_groups_def Let_def sb_fields [OF wf] if_Some_None de_Morgan_disj not_not]
  have p: "0 < ?p" "?p < 2 ^ 32" using geo unat_u32_lt [of "s_blocks_per_group s"] by (auto simp: sb_geometry_def Let_def)
  have sub: "unat (?bc - ucast (s_first_data_block s)) = B - f"
    using f B(1) by (subst unat_sub) (simp_all add: word_le_nat_alt)
  have add: "unat (?bc - ucast (s_first_data_block s) + ucast (s_blocks_per_group s)) = B - f + ?p"
    using B(2) p(2) by (subst unat_word_ariths) (simp add: sub)
  have "unat (?bc - ucast (s_first_data_block s) + ucast (s_blocks_per_group s) - 1) = B - f + ?p - 1"
    using add p(1) by (subst unat_minus_one) (auto simp: word_unat_eq_iff)
  then have g: "unat ?g = (B - f + ?p - 1) div ?p" by (simp add: unat_div)
  have glt: "unat ?g < 2 ^ 32" using gr by (simp add: word_less_nat_alt)
  have "?ipg * unat ?g \<le> ?ipg * 2 ^ 32" using glt by (intro mult_le_mono2) simp
  also have "?ipg * 2 ^ 32 < 2 ^ 32 * (2 ^ 32 :: nat)" using unat_u32_lt [of "s_inodes_per_group s"] by simp
  finally have "?ipg * unat ?g < 2 ^ 64" by simp
  then have "unat (ucast (s_inodes_per_group s) * ?g) = ?ipg * unat ?g"
    by (subst unat_word_ariths) (simp add: mod_less)
  moreover have "ucast (s_inodes_per_group s) * ?g = (ucast (pi_inode_count ?out) :: u64)" using gr by blast
  moreover have "pi_inode_count ?out = s_inodes_count s"
    by (simp add: probe_fields_def Let_def sb_fields [OF wf])
  ultimately show ?thesis using g by (metis unat_ucast_up(1))
qed

section \<open>Properties\<close>

text \<open>C4: a superblock whose probe ends in a mount, read-write or read-only, has a geometry the driver can
  compute with: inode and descriptor sizes that divide the block size, block and inode bitmaps that fit
  in one block and end on a byte, the first data block that goes with the block size, exactly one table
  entry per inode, no incompatible feature outside the supported set, no \<open>meta_bg\<close>, no \<open>bigalloc\<close>, and the
  stored checksum when the volume has checksums.\<close>

theorem probe_gate_sound:
  assumes "wf_sblock s" "ext4b_probe (0, sblock_bytes s) ph_bcnt ph_bsize = (r, out)"
    and "pi_verdict out = EXT4B_PROBE_USABLE \<or> pi_verdict out = EXT4B_PROBE_READ_ONLY"
  shows "sb_geometry s \<and> r = EOK \<and> pi_block_size out = ext4_sb_get_block_size s \<and>
    s_features_incompatible s AND NOT 0x23C6 = 0 \<and>
    \<not> ext4_sb_feature_incom s EXT4_FINCOM_META_BG \<and> s_features_read_only s AND 0x0200 = 0 \<and>
    (if ext4_sb_feature_ro_com s EXT4_FRO_COM_METADATA_CSUM then s_checksum s = ext4_sb_csum s else True)"
proof -
  have m: "probe_mounts out" using assms(3) by (simp add: probe_mounts_def)
  note pa = probe_accepts [OF assms(2) m, unfolded sb_fields [OF assms(1)] supported_masks]
  note gs = gate_sizes [OF assms(1) pa(4) pa(8)]
  have "s_features_incompatible s AND 0x10 = (s_features_incompatible s AND NOT 0x23C6) AND 0x10"
    by (simp add: and.assoc)
  then have meta: "\<not> ext4_sb_feature_incom s EXT4_FINCOM_META_BG"
    using pa(10) by (simp add: ext4_sb_feature_incom_def EXT4_FINCOM_META_BG_def)
  have "s_checksum s = ext4_sb_csum s" if "ext4_sb_feature_ro_com s EXT4_FRO_COM_METADATA_CSUM"
    using pa(9) that by (simp add: ext4_sb_feature_ro_com_def EXT4_FRO_COM_METADATA_CSUM_def ext4_sb_csum_def)
  then show ?thesis using gs(1,2) pa(2,7,10,12) meta by auto
qed

definition probe_example :: "u32 \<Rightarrow> ext4_sblock" where
  "probe_example hi = zero_sblock\<lparr>s_magic := 0xEF53, s_log_block_size := 2, s_inodes_count := 64,
     s_blocks_count_lo := 1000, s_blocks_count_hi := hi, s_blocks_per_group := 32768,
     s_inodes_per_group := 64, s_inode_size := 256, s_rev_level := 1, s_first_inode := 11\<rparr>"

lemma wf_probe_example [simp]: "wf_sblock (probe_example hi)"
  using wf_zero_sblock by (simp add: probe_example_def wf_sblock_def)

lemma probe_example_fields [simp]:
  "s_inodes_count (probe_example hi) = 64" "s_blocks_count_lo (probe_example hi) = 1000"
  "s_blocks_count_hi (probe_example hi) = hi" "s_first_data_block (probe_example hi) = 0"
  "s_log_block_size (probe_example hi) = 2" "s_blocks_per_group (probe_example hi) = 32768"
  "s_inodes_per_group (probe_example hi) = 64" "s_magic (probe_example hi) = 0xEF53"
  "s_rev_level (probe_example hi) = 1" "s_first_inode (probe_example hi) = 11"
  "s_inode_size (probe_example hi) = 256" "s_features_incompatible (probe_example hi) = 0"
  "s_features_read_only (probe_example hi) = 0" "s_reserved_gdt_blocks (probe_example hi) = 0"
  "s_journal_inode_number (probe_example hi) = 0" "s_desc_size (probe_example hi) = 0"
  "s_log_groups_per_flex (probe_example hi) = 0"
  by (simp_all add: probe_example_def zero_sblock_def)

lemmas probe_example_bytes = sb_fields [OF wf_probe_example, unfolded probe_example_fields]

lemma probe_example_out:
  fixes hi :: u32
  defines "out \<equiv> probe_fields (sblock_bytes (probe_example hi))"
  shows "pi_block_count out = 1000" "pi_block_size out = 4096" "pi_inode_count out = 64"
    "pi_feature_incompat out = 0" "pi_feature_ro_compat out = 0"
  unfolding out_def by (simp_all add: probe_fields_def Let_def probe_example_bytes)

lemma probe_example_gate:
  "geometry_gate (sblock_bytes (probe_example hi)) (probe_fields (sblock_bytes (probe_example hi))) = None"
  by (simp add: geometry_gate_def geometry_sizes_def geometry_desc_size_def geometry_groups_def Let_def
      probe_example_bytes probe_example_out)

lemma probe_example_usable:
  "\<exists>out. ext4b_probe (0, sblock_bytes (probe_example hi)) 8000 512 = (EOK, out) \<and>
     pi_verdict out = EXT4B_PROBE_USABLE \<and> pi_block_count out = 1000"
  by (simp add: ext4b_probe_def Let_def probe_example_bytes probe_example_out probe_example_gate)

theorem probe_gate_sound_witness:
  "sb_geometry (probe_example 0) \<and> \<not> ext4_sb_feature_incom (probe_example 0) EXT4_FINCOM_META_BG"
proof -
  obtain out where "ext4b_probe (0, sblock_bytes (probe_example 0)) 8000 512 = (EOK, out)"
    "pi_verdict out = EXT4B_PROBE_USABLE"
    using probe_example_usable by blast
  then show ?thesis using probe_gate_sound [of "probe_example 0" 8000 512 EOK out] by simp
qed




end
