(* ===== verification/Volume.thy ===== *)
theory Volume
  imports Inode Bitmap Cache_Store
begin

unbundle bit_operations_syntax

text \<open>
  A mounted volume: \<^verbatim>\<open>struct ext4_fs\<close> and the operations of \<^verbatim>\<open>ext4_fs.c\<close> and \<^verbatim>\<open>ext4_trans.c\<close> that get and
  put block group descriptors and inodes.  The block cache below appears as what its callers see of it:
  the current contents of every block (\<open>bd_view\<close> of \<open>Cache_Store\<close>), changed in place by a caller that
  holds the block.  A call into the cache, the device or the journal that can fail takes its result from
  the sequence \<open>fs_answer\<close>, so that every theorem is about every pattern of failures.  In the same way
  \<open>fs_stale\<close> says what the medium holds of a discarded block and \<open>fs_was_dirty\<close> whether the buffer of a
  block was dirty before its holder changed it, for the functions that ask.
\<close>

section \<open>Results and sequencing\<close>

text \<open>\<open>Ret\<close> is \<^verbatim>\<open>EOK\<close> with the values the function hands out, \<open>Err\<close> any other return code, and \<open>Crash\<close> a
  failed assertion or an access outside a buffer.\<close>

datatype 'a fsres = Ret 'a | Err errno | Crash

record ext4_fs =
  fs_read_only :: bool
  fs_sb :: ext4_sblock
  fs_disk_sb :: ext4_sblock
  fs_blk :: "u64 \<Rightarrow> bytes"
  fs_lg_bcnt :: u64
  fs_answer :: "nat \<Rightarrow> errno"
  fs_calls :: nat
  fs_stale :: "nat \<Rightarrow> u64 \<Rightarrow> bytes option"
  fs_was_dirty :: "nat \<Rightarrow> u64 \<Rightarrow> bool"
  fs_inode_block_limits :: "u64 list"
  fs_inode_blocks_per_level :: "u64 list"
  fs_last_inode_bg_id :: u32

type_synonym 'a fsm = "ext4_fs \<Rightarrow> 'a fsres \<times> ext4_fs"

definition fs_return :: "'a \<Rightarrow> 'a fsm" where
  "fs_return x fs = (Ret x, fs)"

definition fs_fail :: "errno \<Rightarrow> 'a fsm" where
  "fs_fail e fs = (Err e, fs)"

definition fs_crash :: "'a fsm" where
  "fs_crash fs = (Crash, fs)"

definition fs_bind :: "'a fsm \<Rightarrow> ('a \<Rightarrow> 'b fsm) \<Rightarrow> 'b fsm" where
  "fs_bind m f fs = (case m fs of (Ret x, fs') \<Rightarrow> f x fs' | (Err e, fs') \<Rightarrow> (Err e, fs') | (Crash, fs') \<Rightarrow> (Crash, fs'))"

definition fs_gets :: "(ext4_fs \<Rightarrow> 'a) \<Rightarrow> 'a fsm" where
  "fs_gets f fs = (Ret (f fs), fs)"

definition fs_modify :: "(ext4_fs \<Rightarrow> ext4_fs) \<Rightarrow> unit fsm" where
  "fs_modify f fs = (Ret (), f fs)"

definition fs_mem :: "'a option \<Rightarrow> 'a fsm" where
  "fs_mem x fs = (case x of None \<Rightarrow> (Crash, fs) | Some v \<Rightarrow> (Ret v, fs))"

text \<open>\<^verbatim>\<open>if (rc != EOK) { cleanup; return rc; }\<close>: the cleanup runs, its own result is ignored.\<close>

definition fs_on_error :: "'a fsm \<Rightarrow> 'b fsm \<Rightarrow> 'a fsm" where
  "fs_on_error m cleanup fs = (case m fs of
      (Err e, fs') \<Rightarrow> (case cleanup fs' of (Crash, fs'') \<Rightarrow> (Crash, fs'') | (_, fs'') \<Rightarrow> (Err e, fs''))
    | r \<Rightarrow> r)"

text \<open>A call whose return code the caller does not look at.\<close>

definition fs_ignore :: "'a fsm \<Rightarrow> unit fsm" where
  "fs_ignore m fs = (case m fs of (Crash, fs') \<Rightarrow> (Crash, fs') | (_, fs') \<Rightarrow> (Ret (), fs'))"

section \<open>Blocks\<close>

definition fs_ask :: "unit fsm" where
  "fs_ask fs = (let fs' = fs\<lparr>fs_calls := fs_calls fs + 1\<rparr>
     in if fs_answer fs (fs_calls fs) = EOK then (Ret (), fs') else (Err (fs_answer fs (fs_calls fs)), fs'))"

text \<open>A handle on a block is its address.  Both forms refuse an address outside the device and block 0
  before they touch the cache; every user of the second form overwrites the whole block.\<close>

definition ext4_trans_block_get :: "u64 \<Rightarrow> u64 fsm" where
  "ext4_trans_block_get lba fs =
     (if \<not> lba < fs_lg_bcnt fs then (Err ENXIO, fs)
      else if lba = 0 then (Err ENXIO, fs)
      else fs_bind fs_ask (\<lambda>_. fs_return lba) fs)"

definition ext4_trans_block_get_noread :: "u64 \<Rightarrow> u64 fsm" where
  "ext4_trans_block_get_noread lba = ext4_trans_block_get lba"

definition blk_get :: "u64 \<Rightarrow> bytes fsm" where
  "blk_get b = fs_gets (\<lambda>fs. fs_blk fs b)"

text \<open>Change the bytes of a held block.  \<^verbatim>\<open>ext4_trans_set_block_dirty\<close>, which keeps the change from
  being lost with the buffer, does not change what a reader sees.\<close>

definition blk_put :: "u64 \<Rightarrow> bytes \<Rightarrow> unit fsm" where
  "blk_put b bs = fs_modify (\<lambda>fs. fs\<lparr>fs_blk := (fs_blk fs)(b := bs)\<rparr>)"

text \<open>Releasing a handle that a get returned always succeeds: \<^verbatim>\<open>ext4_bcache_free\<close> reports a failed
  write-back through the latched error, not here.\<close>

definition blk_release :: "u64 \<Rightarrow> unit fsm" where
  "blk_release b = fs_return ()"

text \<open>Discarding cached copies.  What an affected block holds afterwards is what the medium holds; a
  block whose copy was not found keeps its contents.\<close>

definition fs_invalidate_lba :: "u64 \<Rightarrow> u32 \<Rightarrow> unit fsm" where
  "fs_invalidate_lba from cnt = fs_modify (\<lambda>fs. fs\<lparr>fs_blk := (\<lambda>l.
     if from \<le> l \<and> unat l < unat from + unat cnt
     then case fs_stale fs (fs_calls fs) l of None \<Rightarrow> fs_blk fs l | Some bs \<Rightarrow> bs
     else fs_blk fs l)\<rparr>)"

text \<open>With a journal the revocation may fail; without one it is nothing.  Either way the result is one
  answer.\<close>

definition ext4_trans_try_revoke_block :: "u64 \<Rightarrow> unit fsm" where
  "ext4_trans_try_revoke_block lba = fs_ask"

definition mem_fill :: "bytes \<Rightarrow> nat \<Rightarrow> nat \<Rightarrow> u8 \<Rightarrow> bytes option" where
  "mem_fill bs off n v = (if off + n \<le> length bs then Some (put_bytes bs off (replicate n v)) else None)"

section \<open>The superblock\<close>

definition ext4_sb_read :: "ext4_sblock fsm" where
  "ext4_sb_read = fs_bind fs_ask (\<lambda>_. fs_gets fs_disk_sb)"

definition ext4_sb_write :: "unit fsm" where
  "ext4_sb_write = fs_bind (fs_modify (\<lambda>fs. fs\<lparr>fs_sb := ext4_sb_set_csum (fs_sb fs)\<rparr>)) (\<lambda>_.
     fs_bind fs_ask (\<lambda>_. fs_modify (\<lambda>fs. fs\<lparr>fs_disk_sb := fs_sb fs\<rparr>)))"

text \<open>The build adds \<open>metadata_csum_seed\<close> to the ignored incompatible features.\<close>

definition CONFIG_SUPPORTED_FINCOM :: u32 where "CONFIG_SUPPORTED_FINCOM = 0x23D6"
definition CONFIG_SUPPORTED_FRO_COM :: u32 where "CONFIG_SUPPORTED_FRO_COM = 0x47B"

definition ext4_fs_check_features :: "ext4_sblock \<Rightarrow> bool fsres" where
  "ext4_fs_check_features sb =
     (if s_rev_level sb = 0 then Ret False
      else if s_features_incompatible sb AND NOT CONFIG_SUPPORTED_FINCOM \<noteq> 0 then Err ENOTSUP
      else if s_features_read_only sb AND NOT CONFIG_SUPPORTED_FRO_COM \<noteq> 0 then Ret True
      else Ret False)"

text \<open>The limits of the levels of indirection: entry \<open>i\<close> of the first list is the number of blocks one
  pointer of level \<open>i\<close> stands for, entry \<open>i\<close> of the second the first logical block beyond level \<open>i\<close>.\<close>

definition fs_levels :: "u32 \<Rightarrow> u64 list \<times> u64 list" where
  "fs_levels bsize =
     (let n = ucast (bsize div 4) :: u64;
          p1 = 1 * n; p2 = p1 * n; p3 = p2 * n;
          l0 = ucast EXT4_INODE_DIRECT_BLOCK_COUNT; l1 = l0 + p1; l2 = l1 + p2; l3 = l2 + p3
      in ([1, p1, p2, p3], [l0, l1, l2, l3]))"

definition EXT4_SUPERBLOCK_STATE_VALID_FS :: u16 where "EXT4_SUPERBLOCK_STATE_VALID_FS = 1"
definition EXT4_MAX_BLOCK_SIZE :: u32 where "EXT4_MAX_BLOCK_SIZE = 65536"

definition ext4_fs_init :: "bool \<Rightarrow> unit fsm" where
  "ext4_fs_init read_only =
     fs_bind (fs_modify (\<lambda>fs. fs\<lparr>fs_read_only := read_only\<rparr>)) (\<lambda>_.
     fs_bind ext4_sb_read (\<lambda>sb.
     fs_bind (fs_modify (\<lambda>fs. fs\<lparr>fs_sb := sb\<rparr>)) (\<lambda>_.
     if \<not> ext4_sb_check sb then fs_fail ENOTSUP
     else if EXT4_MAX_BLOCK_SIZE < ext4_sb_get_block_size sb then fs_fail ENXIO
     else case ext4_fs_check_features sb of Err e \<Rightarrow> fs_fail e | Crash \<Rightarrow> fs_crash
     | Ret ro \<Rightarrow>
       fs_bind (fs_modify (\<lambda>fs. fs
         \<lparr>fs_read_only := (if ro then True else fs_read_only fs),
          fs_inode_blocks_per_level := fst (fs_levels (ext4_sb_get_block_size sb)),
          fs_inode_block_limits := snd (fs_levels (ext4_sb_get_block_size sb))\<rparr>)) (\<lambda>_.
       fs_bind (fs_gets fs_read_only) (\<lambda>ro.
       if \<not> ro then
         fs_bind (fs_modify (\<lambda>fs. fs\<lparr>fs_sb := (fs_sb fs)
           \<lparr>s_state := s_state sb AND NOT EXT4_SUPERBLOCK_STATE_VALID_FS\<rparr>\<rparr>)) (\<lambda>_.
         fs_bind ext4_sb_write (\<lambda>_.
         fs_modify (\<lambda>fs. fs\<lparr>fs_sb := (fs_sb fs)\<lparr>s_mount_count := s_mount_count (fs_sb fs) + 1\<rparr>\<rparr>)))
       else fs_return ())))))"

definition ext4_fs_fini :: "unit fsm" where
  "ext4_fs_fini =
     fs_bind (fs_modify (\<lambda>fs. fs\<lparr>fs_sb := (fs_sb fs)
       \<lparr>s_state := s_state (fs_sb fs) OR EXT4_SUPERBLOCK_STATE_VALID_FS\<rparr>\<rparr>)) (\<lambda>_.
     fs_bind (fs_gets fs_read_only) (\<lambda>ro. if \<not> ro then ext4_sb_write else fs_return ()))"

section \<open>Block addresses and groups\<close>

definition ext4_balloc_get_bgid_of_block :: "ext4_sblock \<Rightarrow> u64 \<Rightarrow> u32" where
  "ext4_balloc_get_bgid_of_block s baddr =
     (let baddr = (if s_first_data_block s \<noteq> 0 \<and> baddr \<noteq> 0 then baddr - 1 else baddr)
      in ucast (baddr div ucast (s_blocks_per_group s)))"

definition ext4_balloc_get_block_of_bgid :: "ext4_sblock \<Rightarrow> u32 \<Rightarrow> u64" where
  "ext4_balloc_get_block_of_bgid s bgid =
     (let baddr = (if s_first_data_block s \<noteq> 0 then 1 else 0)
      in baddr + ucast (bgid * s_blocks_per_group s))"

definition ext4_fs_addr_to_idx_bg :: "ext4_sblock \<Rightarrow> u64 \<Rightarrow> u32" where
  "ext4_fs_addr_to_idx_bg s baddr =
     (let baddr = (if s_first_data_block s \<noteq> 0 \<and> baddr \<noteq> 0 then baddr - 1 else baddr)
      in ucast (baddr mod ucast (s_blocks_per_group s)))"

definition ext4_fs_bg_idx_to_addr :: "ext4_sblock \<Rightarrow> u32 \<Rightarrow> u32 \<Rightarrow> u64" where
  "ext4_fs_bg_idx_to_addr s index bgid =
     (let index = (if s_first_data_block s \<noteq> 0 then index + 1 else index)
      in ucast (s_blocks_per_group s * bgid + index))"

definition ext4_fs_first_bg_block_no :: "ext4_sblock \<Rightarrow> u32 \<Rightarrow> u64" where
  "ext4_fs_first_bg_block_no s bgid =
     ucast bgid * ucast (s_blocks_per_group s) + ucast (s_first_data_block s)"

definition ext4_block_in_group :: "ext4_sblock \<Rightarrow> u64 \<Rightarrow> u32 \<Rightarrow> bool" where
  "ext4_block_in_group s baddr bgid \<longleftrightarrow> ext4_balloc_get_bgid_of_block s baddr = bgid"

section \<open>References to group descriptors\<close>

text \<open>\<^verbatim>\<open>ref->block_group\<close> points into the held descriptor block: a reference is that block and the offset in
  it, and the descriptor is read and written there.  With 32-byte descriptors no accessor uses the other
  half of the structure; it reads as zero here.\<close>

record ext4_block_group_ref =
  bgr_block :: u64
  bgr_off :: nat
  bgr_index :: u32
  bgr_dirty :: bool

definition bg_at :: "ext4_sblock \<Rightarrow> bytes \<Rightarrow> nat \<Rightarrow> ext4_bgroup" where
  "bg_at sb bs off = bgroup_of_bytes (take (unat (ext4_sb_get_desc_size sb)) (drop off bs) @ replicate 64 0)"

definition bg_store :: "ext4_sblock \<Rightarrow> bytes \<Rightarrow> nat \<Rightarrow> ext4_bgroup \<Rightarrow> bytes" where
  "bg_store sb bs off bg = put_bytes bs off (take (unat (ext4_sb_get_desc_size sb)) (bgroup_bytes bg))"

definition bgref_get :: "ext4_block_group_ref \<Rightarrow> ext4_bgroup fsm" where
  "bgref_get ref = fs_gets (\<lambda>fs. bg_at (fs_sb fs) (fs_blk fs (bgr_block ref)) (bgr_off ref))"

definition bgref_put :: "ext4_block_group_ref \<Rightarrow> ext4_bgroup \<Rightarrow> unit fsm" where
  "bgref_put ref bg = fs_modify (\<lambda>fs. fs\<lparr>fs_blk := (fs_blk fs)
     (bgr_block ref := bg_store (fs_sb fs) (fs_blk fs (bgr_block ref)) (bgr_off ref) bg)\<rparr>)"

definition ext4_fs_get_descriptor_block :: "ext4_sblock \<Rightarrow> u32 \<Rightarrow> u32 \<Rightarrow> u64" where
  "ext4_fs_get_descriptor_block s bgid dsc_per_blk =
     (let dsc_id = bgid div dsc_per_blk;
          first_meta_bg = ext4_sb_first_meta_bg s;
          meta_bg = ext4_sb_feature_incom s EXT4_FINCOM_META_BG
      in if \<not> meta_bg \<or> dsc_id < first_meta_bg then ucast (s_first_data_block s + dsc_id + 1)
         else (if ext4_sb_is_super_in_bg s bgid then 1 else 0) + ext4_fs_first_bg_block_no s bgid)"

section \<open>Checksums of bitmaps\<close>

text \<open>The checksums read the first \<^verbatim>\<open>blocks_per_group / 8\<close> or \<^verbatim>\<open>(inodes_per_group + 7) / 8\<close> bytes of the
  bitmap block; beyond the block that is an access outside the buffer.\<close>

definition csum_bytes :: "ext4_sblock \<Rightarrow> bytes \<Rightarrow> u32 \<Rightarrow> u32 option" where
  "csum_bytes sb bitmap n =
     (if ext4_sb_feature_ro_com sb EXT4_FRO_COM_METADATA_CSUM then
        if unat n \<le> length bitmap then Some (ext4_crc32c (ext4_sb_csum_seed sb) (take (unat n) bitmap)) else None
      else Some 0)"

definition ext4_balloc_bitmap_csum :: "ext4_sblock \<Rightarrow> bytes \<Rightarrow> u32 option" where
  "ext4_balloc_bitmap_csum sb bitmap = csum_bytes sb bitmap (s_blocks_per_group sb div 8)"

definition ext4_balloc_set_bitmap_csum :: "ext4_sblock \<Rightarrow> ext4_bgroup \<Rightarrow> bytes \<Rightarrow> ext4_bgroup option" where
  "ext4_balloc_set_bitmap_csum sb bg bitmap =
     (case ext4_balloc_bitmap_csum sb bitmap of None \<Rightarrow> None
      | Some checksum \<Rightarrow>
          if \<not> ext4_sb_feature_ro_com sb EXT4_FRO_COM_METADATA_CSUM then Some bg
          else
            let bg1 = bg\<lparr>bg_block_bitmap_csum_lo := ucast (checksum AND 0xFFFF)\<rparr>
            in Some (if ext4_sb_get_desc_size sb = EXT4_MAX_BLOCK_GROUP_DESCRIPTOR_SIZE
                     then bg1\<lparr>bg_block_bitmap_csum_hi := ucast (drop_bit 16 checksum)\<rparr> else bg1))"

definition ext4_balloc_verify_bitmap_csum :: "ext4_sblock \<Rightarrow> ext4_bgroup \<Rightarrow> bytes \<Rightarrow> bool option" where
  "ext4_balloc_verify_bitmap_csum sb bg bitmap =
     (case ext4_balloc_bitmap_csum sb bitmap of None \<Rightarrow> None
      | Some checksum \<Rightarrow> Some
          (if \<not> ext4_sb_feature_ro_com sb EXT4_FRO_COM_METADATA_CSUM then True
           else if bg_block_bitmap_csum_lo bg \<noteq> ucast (checksum AND 0xFFFF) then False
           else if ext4_sb_get_desc_size sb = EXT4_MAX_BLOCK_GROUP_DESCRIPTOR_SIZE \<and>
                   bg_block_bitmap_csum_hi bg \<noteq> ucast (drop_bit 16 checksum) then False
           else True))"

definition ext4_ialloc_bitmap_csum :: "ext4_sblock \<Rightarrow> bytes \<Rightarrow> u32 option" where
  "ext4_ialloc_bitmap_csum sb bitmap = csum_bytes sb bitmap ((s_inodes_per_group sb + 7) div 8)"

definition ext4_ialloc_set_bitmap_csum :: "ext4_sblock \<Rightarrow> ext4_bgroup \<Rightarrow> bytes \<Rightarrow> ext4_bgroup option" where
  "ext4_ialloc_set_bitmap_csum sb bg bitmap =
     (case ext4_ialloc_bitmap_csum sb bitmap of None \<Rightarrow> None
      | Some csum \<Rightarrow>
          if \<not> ext4_sb_feature_ro_com sb EXT4_FRO_COM_METADATA_CSUM then Some bg
          else
            let bg1 = bg\<lparr>bg_inode_bitmap_csum_lo := ucast (csum AND 0xFFFF)\<rparr>
            in Some (if ext4_sb_get_desc_size sb = EXT4_MAX_BLOCK_GROUP_DESCRIPTOR_SIZE
                     then bg1\<lparr>bg_inode_bitmap_csum_hi := ucast (drop_bit 16 csum)\<rparr> else bg1))"

definition ext4_ialloc_verify_bitmap_csum :: "ext4_sblock \<Rightarrow> ext4_bgroup \<Rightarrow> bytes \<Rightarrow> bool option" where
  "ext4_ialloc_verify_bitmap_csum sb bg bitmap =
     (case ext4_ialloc_bitmap_csum sb bitmap of None \<Rightarrow> None
      | Some csum \<Rightarrow> Some
          (if \<not> ext4_sb_feature_ro_com sb EXT4_FRO_COM_METADATA_CSUM then True
           else if bg_inode_bitmap_csum_lo bg \<noteq> ucast (csum AND 0xFFFF) then False
           else if ext4_sb_get_desc_size sb = EXT4_MAX_BLOCK_GROUP_DESCRIPTOR_SIZE \<and>
                   bg_inode_bitmap_csum_hi bg \<noteq> ucast (drop_bit 16 csum) then False
           else True))"

section \<open>Initialising a group on first use\<close>

text \<open>Set the bits from \<open>i\<close> up to \<open>n\<close>, counted with the width of the loop variable.\<close>

fun set_bits :: "nat \<Rightarrow> u32 \<Rightarrow> bytes \<Rightarrow> bytes option" where
  "set_bits 0 i bm = Some bm"
| "set_bits (Suc n) i bm =
     (case ext4_bmap_bit_set bm i of None \<Rightarrow> None | Some bm' \<Rightarrow> set_bits n (i + 1) bm')"

text \<open>\<^verbatim>\<open>ext4_fs_mark_bitmap_end\<close> takes its bounds as \<^verbatim>\<open>int\<close>.\<close>

definition ext4_fs_mark_bitmap_end :: "u32 \<Rightarrow> u32 \<Rightarrow> bytes \<Rightarrow> bytes option" where
  "ext4_fs_mark_bitmap_end start_bit end_bit bitmap =
     (if sint end_bit \<le> sint start_bit then Some bitmap
      else if sint start_bit < 0 then None
      else
        let stop = 8 * ((unat start_bit + 7) div 8)
        in case set_bits (stop - unat start_bit) start_bit bitmap of None \<Rightarrow> None
           | Some bm \<Rightarrow> if int stop < sint end_bit then mem_fill bm (stop div 8) ((unat end_bit - stop) div 8) 0xFF
                       else Some bm)"

text \<open>Mark a block that lies in the group and inside the bitmap.\<close>

definition mark_in_group :: "ext4_sblock \<Rightarrow> u32 \<Rightarrow> u64 \<Rightarrow> u64 \<Rightarrow> bytes \<Rightarrow> bytes option" where
  "mark_in_group sb bgid first_bg b bm =
     (if (\<not> ext4_sb_feature_incom sb EXT4_FINCOM_FLEX_BG \<or> ext4_block_in_group sb b bgid) \<and>
         first_bg \<le> b \<and> b - first_bg < ucast (ext4_sb_get_block_size sb * 8)
      then ext4_bmap_bit_set bm (ucast (b - first_bg)) else Some bm)"

fun mark_table :: "nat \<Rightarrow> ext4_sblock \<Rightarrow> u32 \<Rightarrow> u64 \<Rightarrow> u64 \<Rightarrow> bytes \<Rightarrow> bytes option" where
  "mark_table 0 sb bgid first_bg i bm = Some bm"
| "mark_table (Suc n) sb bgid first_bg i bm =
     (case mark_in_group sb bgid first_bg i bm of None \<Rightarrow> None
      | Some bm' \<Rightarrow> mark_table n sb bgid first_bg (i + 1) bm')"

text \<open>How many blocks at the head of the group its own metadata takes, clamped to the bitmap.\<close>

definition head_blocks :: "ext4_sblock \<Rightarrow> u32 \<Rightarrow> u32" where
  "head_blocks sb bgid =
     (let block_size = ext4_sb_get_block_size sb;
          super_in_bg = ext4_sb_is_super_in_bg sb bgid;
          bit_max = (if super_in_bg then 1 else 0);
          count = ext4_sb_first_meta_bg sb * dsc_per_block sb;
          bit_max = (if \<not> ext4_sb_feature_incom sb EXT4_FINCOM_META_BG \<or> bgid < count
             then if super_in_bg then bit_max + ext4_bg_num_gdb sb bgid + ucast (s_reserved_gdt_blocks sb) else bit_max
             else bit_max + ext4_bg_num_gdb sb bgid);
          group_blocks = s_blocks_per_group sb;
          bit_max = (if group_blocks \<noteq> 0 \<and> group_blocks < bit_max then group_blocks else bit_max)
      in if block_size * 8 < bit_max then block_size * 8 else bit_max)"

definition group_blocks_cnt :: "ext4_sblock \<Rightarrow> u32 \<Rightarrow> u32" where
  "group_blocks_cnt sb bgid =
     (if bgid = ext4_block_group_cnt sb - 1
      then ucast (ext4_sb_get_blocks_cnt sb - ucast (s_first_data_block sb) -
             ucast (s_blocks_per_group sb * (ext4_block_group_cnt sb - 1)))
      else s_blocks_per_group sb)"

text \<open>The bitmap that \<^verbatim>\<open>ext4_fs_init_block_bitmap\<close> writes for a group that has never been used.\<close>

definition fresh_block_bitmap :: "ext4_sblock \<Rightarrow> ext4_bgroup \<Rightarrow> u32 \<Rightarrow> bytes option" where
  "fresh_block_bitmap sb bg bgid =
     (let block_size = ext4_sb_get_block_size sb;
          first_bg = ext4_balloc_get_block_of_bgid sb bgid;
          inode_table = ext4_bg_get_inode_table_first_block bg sb;
          inode_table_bcnt = s_inodes_per_group sb * ucast (s_inode_size sb) div block_size;
          inode_table_end = inode_table + ucast inode_table_bcnt
      in case set_bits (unat (head_blocks sb bgid)) 0 (replicate (unat block_size) 0) of None \<Rightarrow> None
         | Some b1 \<Rightarrow> case mark_in_group sb bgid first_bg (ext4_bg_get_block_bitmap bg sb) b1 of None \<Rightarrow> None
         | Some b2 \<Rightarrow> case mark_in_group sb bgid first_bg (ext4_bg_get_inode_bitmap bg sb) b2 of None \<Rightarrow> None
         | Some b3 \<Rightarrow> case mark_table (unat inode_table_end - unat inode_table) sb bgid first_bg inode_table b3 of None \<Rightarrow> None
         | Some b4 \<Rightarrow> ext4_fs_mark_bitmap_end (group_blocks_cnt sb bgid) (block_size * 8) b4)"

definition ext4_fs_init_block_bitmap :: "ext4_block_group_ref \<Rightarrow> ext4_block_group_ref fsm" where
  "ext4_fs_init_block_bitmap ref =
     fs_bind (fs_gets fs_sb) (\<lambda>sb.
     fs_bind (bgref_get ref) (\<lambda>bg.
     fs_bind (ext4_trans_block_get_noread (ext4_bg_get_block_bitmap bg sb)) (\<lambda>b.
     fs_bind (fs_mem (fresh_block_bitmap sb bg (bgr_index ref))) (\<lambda>bm.
     fs_bind (blk_put b bm) (\<lambda>_.
     fs_bind (bgref_get ref) (\<lambda>bg.
     fs_bind (fs_mem (ext4_balloc_set_bitmap_csum sb bg bm)) (\<lambda>bg'.
     fs_bind (bgref_put ref bg') (\<lambda>_.
     fs_bind (blk_release b) (\<lambda>_.
     fs_return (ref\<lparr>bgr_dirty := True\<rparr>))))))))))"

definition fresh_inode_bitmap :: "ext4_sblock \<Rightarrow> bytes \<Rightarrow> bytes option" where
  "fresh_inode_bitmap sb old =
     (let ipg = s_inodes_per_group sb;
          stop = (ipg + 7) AND NOT 7;
          i = (if ipg < stop then stop else ipg);
          end_bit = ext4_sb_get_block_size sb * 8
      in case mem_fill old 0 (unat ((ipg + 7) div 8)) 0 of None \<Rightarrow> None
         | Some b1 \<Rightarrow> case set_bits (unat stop - unat ipg) ipg b1 of None \<Rightarrow> None
         | Some b2 \<Rightarrow> if i < end_bit then mem_fill b2 (unat (drop_bit 3 i)) (unat (drop_bit 3 (end_bit - i))) 0xFF
                     else Some b2)"

definition ext4_fs_init_inode_bitmap :: "ext4_block_group_ref \<Rightarrow> ext4_block_group_ref fsm" where
  "ext4_fs_init_inode_bitmap ref =
     fs_bind (fs_gets fs_sb) (\<lambda>sb.
     fs_bind (bgref_get ref) (\<lambda>bg.
     fs_bind (ext4_trans_block_get_noread (ext4_bg_get_inode_bitmap bg sb)) (\<lambda>b.
     fs_bind (blk_get b) (\<lambda>old.
     fs_bind (fs_mem (fresh_inode_bitmap sb old)) (\<lambda>bm.
     fs_bind (blk_put b bm) (\<lambda>_.
     fs_bind (bgref_get ref) (\<lambda>bg.
     fs_bind (fs_mem (ext4_ialloc_set_bitmap_csum sb bg bm)) (\<lambda>bg'.
     fs_bind (bgref_put ref bg') (\<lambda>_.
     fs_bind (blk_release b) (\<lambda>_.
     fs_return (ref\<lparr>bgr_dirty := True\<rparr>)))))))))))"

text \<open>Zero a run of blocks with one device command and discard their cached copies afterwards.  A copy the
  invalidation misses stays (\<open>Some\<close>); when the command fails, the run may hold anything.\<close>

definition zero_run :: "u64 \<Rightarrow> u32 \<Rightarrow> bool \<Rightarrow> unit fsm" where
  "zero_run at n done = fs_modify (\<lambda>fs. fs\<lparr>fs_blk := (\<lambda>l.
     if at \<le> l \<and> unat l < unat at + unat n
     then case fs_stale fs (fs_calls fs) l of Some bs \<Rightarrow> bs
          | None \<Rightarrow> if done then replicate (unat (ext4_sb_get_block_size (fs_sb fs))) 0 else fs_blk fs l
     else fs_blk fs l)\<rparr>)"

function zero_chunks :: "u32 \<Rightarrow> u64 \<Rightarrow> u32 \<Rightarrow> unit fsm" where
  "zero_chunks chunk at left =
     (if left = 0 \<or> chunk = 0 then fs_return ()
      else
        let n = (if left < chunk then left else chunk)
        in fs_bind (fs_on_error fs_ask (zero_run at n False)) (\<lambda>_.
           fs_bind (zero_run at n True) (\<lambda>_. zero_chunks chunk (at + ucast n) (left - n))))"
  by pat_completeness auto
termination
  by (relation "measure (\<lambda>(_, _, left). unat left)")
    (auto simp: word_less_nat_alt unat_sub word_le_nat_alt unat_gt_0 split: if_splits)

declare zero_chunks.simps [simp del]

text \<open>The path taken when there is no memory for a buffer of zeroes.\<close>

fun zero_each :: "nat \<Rightarrow> u64 \<Rightarrow> unit fsm" where
  "zero_each 0 fblock = fs_return ()"
| "zero_each (Suc n) fblock =
     fs_bind (ext4_trans_block_get_noread fblock) (\<lambda>b.
     fs_bind (fs_gets fs_sb) (\<lambda>sb.
     fs_bind (blk_put b (replicate (unat (ext4_sb_get_block_size sb)) 0)) (\<lambda>_.
     fs_bind (blk_release b) (\<lambda>_. zero_each n (fblock + 1)))))"

definition fs_maybe :: "bool fsm" where
  "fs_maybe fs = (Ret (fs_answer fs (fs_calls fs) = EOK), fs\<lparr>fs_calls := fs_calls fs + 1\<rparr>)"

definition ext4_fs_init_inode_table :: "ext4_block_group_ref \<Rightarrow> unit fsm" where
  "ext4_fs_init_inode_table ref =
     fs_bind (fs_gets fs_sb) (\<lambda>sb.
     fs_bind (bgref_get ref) (\<lambda>bg.
     let block_size = ext4_sb_get_block_size sb;
         inodes_per_block = block_size div ucast (s_inode_size sb);
         inodes_in_group = ext4_inodes_in_group_cnt sb (bgr_index ref);
         table_blocks = inodes_in_group div inodes_per_block;
         table_blocks = (if inodes_in_group mod inodes_per_block \<noteq> 0 then table_blocks + 1 else table_blocks);
         first_block = ext4_bg_get_inode_table_first_block bg sb;
         last_block = first_block + ucast table_blocks - 1;
         chunk_max = 1048576 div block_size;
         chunk = (if table_blocks < chunk_max then table_blocks else chunk_max)
     in if s_inode_size sb = 0 \<or> inodes_per_block = 0 then fs_crash
        else fs_bind fs_maybe (\<lambda>zeros.
          if zeros then zero_chunks chunk first_block table_blocks
          else zero_each (unat last_block + 1 - unat first_block) first_block)))"

section \<open>Getting and putting references\<close>

definition EXT4_BLOCK_GROUP_INODE_UNINIT :: u32 where "EXT4_BLOCK_GROUP_INODE_UNINIT = 1"
definition EXT4_BLOCK_GROUP_BLOCK_UNINIT :: u32 where "EXT4_BLOCK_GROUP_BLOCK_UNINIT = 2"
definition EXT4_BLOCK_GROUP_ITABLE_ZEROED :: u32 where "EXT4_BLOCK_GROUP_ITABLE_ZEROED = 4"

definition bgref_upd :: "ext4_block_group_ref \<Rightarrow> (ext4_bgroup \<Rightarrow> ext4_bgroup) \<Rightarrow> unit fsm" where
  "bgref_upd ref f = fs_bind (bgref_get ref) (\<lambda>bg. bgref_put ref (f bg))"

text \<open>The two halves of \<^verbatim>\<open>ext4_fs_get_block_group_ref\<close> after the descriptor block is held.\<close>

definition init_if_block_uninit :: "ext4_block_group_ref \<Rightarrow> ext4_block_group_ref fsm" where
  "init_if_block_uninit ref =
     fs_bind (bgref_get ref) (\<lambda>bg.
     if ext4_bg_has_flag bg EXT4_BLOCK_GROUP_BLOCK_UNINIT then
       fs_bind (fs_on_error (ext4_fs_init_block_bitmap ref) (blk_release (bgr_block ref))) (\<lambda>ref.
       fs_bind (bgref_upd ref (\<lambda>bg. ext4_bg_clear_flag bg EXT4_BLOCK_GROUP_BLOCK_UNINIT)) (\<lambda>_.
       fs_return (ref\<lparr>bgr_dirty := True\<rparr>)))
     else fs_return ref)"

definition init_if_inode_uninit :: "ext4_block_group_ref \<Rightarrow> ext4_block_group_ref fsm" where
  "init_if_inode_uninit ref =
     fs_bind (bgref_get ref) (\<lambda>bg.
     if ext4_bg_has_flag bg EXT4_BLOCK_GROUP_INODE_UNINIT then
       fs_bind (fs_on_error (ext4_fs_init_inode_bitmap ref) (blk_release (bgr_block ref))) (\<lambda>ref.
       fs_bind (bgref_upd ref (\<lambda>bg. ext4_bg_clear_flag bg EXT4_BLOCK_GROUP_INODE_UNINIT)) (\<lambda>_.
       fs_bind (bgref_get ref) (\<lambda>bg.
       fs_bind (if \<not> ext4_bg_has_flag bg EXT4_BLOCK_GROUP_ITABLE_ZEROED then
           fs_bind (fs_on_error (ext4_fs_init_inode_table ref) (blk_release (bgr_block ref))) (\<lambda>_.
           bgref_upd ref (\<lambda>bg. ext4_bg_set_flag bg EXT4_BLOCK_GROUP_ITABLE_ZEROED))
         else fs_return ()) (\<lambda>_.
       fs_return (ref\<lparr>bgr_dirty := True\<rparr>)))))
     else fs_return ref)"

definition ext4_fs_get_block_group_ref :: "u32 \<Rightarrow> ext4_block_group_ref fsm" where
  "ext4_fs_get_block_group_ref bgid =
     fs_bind (fs_gets fs_sb) (\<lambda>sb.
     let dsc_cnt = ext4_sb_get_block_size sb div ucast (ext4_sb_get_desc_size sb)
     in if dsc_cnt = 0 then fs_crash
        else
          let block_id = ext4_fs_get_descriptor_block sb bgid dsc_cnt;
              offset = (bgid mod dsc_cnt) * ucast (ext4_sb_get_desc_size sb)
          in fs_bind (ext4_trans_block_get block_id) (\<lambda>b.
             fs_bind (init_if_block_uninit
               \<lparr>bgr_block = b, bgr_off = unat offset, bgr_index = bgid, bgr_dirty = False\<rparr>) init_if_inode_uninit))"

definition ext4_fs_put_block_group_ref :: "ext4_block_group_ref \<Rightarrow> unit fsm" where
  "ext4_fs_put_block_group_ref ref =
     fs_bind (fs_gets fs_sb) (\<lambda>sb.
     fs_bind (if bgr_dirty ref
              then bgref_upd ref (\<lambda>bg. ext4_bg_set_checksum bg (ext4_fs_bg_checksum sb (bgr_index ref) bg))
              else fs_return ()) (\<lambda>_.
     blk_release (bgr_block ref)))"

record ext4_inode_ref =
  ir_block :: u64
  ir_off :: nat
  ir_index :: u32
  ir_dirty :: bool

definition ino_raw :: "ext4_fs \<Rightarrow> ext4_inode_ref \<Rightarrow> bytes" where
  "ino_raw fs ref = take (unat (s_inode_size (fs_sb fs))) (drop (ir_off ref) (fs_blk fs (ir_block ref)))"

definition ino_write_raw :: "ext4_inode_ref \<Rightarrow> bytes \<Rightarrow> unit fsm" where
  "ino_write_raw ref raw = fs_modify (\<lambda>fs. fs\<lparr>fs_blk := (fs_blk fs)
     (ir_block ref := put_bytes (fs_blk fs (ir_block ref)) (ir_off ref) raw)\<rparr>)"

definition inoref_get :: "ext4_inode_ref \<Rightarrow> ext4_inode fsm" where
  "inoref_get ref = fs_gets (\<lambda>fs. inode_at (ino_raw fs ref))"

definition inoref_put :: "ext4_inode_ref \<Rightarrow> ext4_inode \<Rightarrow> unit fsm" where
  "inoref_put ref ino =
     fs_bind (fs_gets (\<lambda>fs. inode_store (fs_sb fs) (ino_raw fs ref) ino)) (ino_write_raw ref)"

text \<open>\<^verbatim>\<open>__ext4_fs_get_inode_ref\<close>; its last argument only decides whether a failed checksum is logged.\<close>

definition ext4_fs_get_inode_ref :: "u32 \<Rightarrow> ext4_inode_ref fsm" where
  "ext4_fs_get_inode_ref index =
     fs_bind (fs_gets fs_sb) (\<lambda>sb.
     let ipg = s_inodes_per_group sb;
         index = index - 1;
         block_group = index div ipg;
         offset_in_group = index mod ipg
     in if ipg = 0 then fs_crash
        else
          fs_bind (ext4_fs_get_block_group_ref block_group) (\<lambda>ref.
          fs_bind (bgref_get ref) (\<lambda>bg.
          let inode_table_start = ext4_bg_get_inode_table_first_block bg sb
          in fs_bind (ext4_fs_put_block_group_ref ref) (\<lambda>_.
             let block_size = ext4_sb_get_block_size sb;
                 byte_offset_in_group = offset_in_group * ucast (s_inode_size sb);
                 block_id = inode_table_start + ucast (byte_offset_in_group div block_size)
             in fs_bind (ext4_trans_block_get block_id) (\<lambda>b.
                fs_return \<lparr>ir_block = b, ir_off = unat (byte_offset_in_group mod block_size),
                  ir_index = index + 1, ir_dirty = False\<rparr>)))))"

definition ext4_fs_put_inode_ref :: "ext4_inode_ref \<Rightarrow> unit fsm" where
  "ext4_fs_put_inode_ref ref =
     fs_bind (if ir_dirty ref
              then fs_bind (fs_gets (\<lambda>fs. ext4_fs_set_inode_checksum (fs_sb fs) (ir_index ref) (ino_raw fs ref)))
                (ino_write_raw ref)
              else fs_return ()) (\<lambda>_.
     blk_release (ir_block ref))"

end
