(* ===== verification/Balloc.thy ===== *)
theory Balloc
  imports Volume
begin

unbundle bit_operations_syntax

text \<open>
  The block allocator of \<^verbatim>\<open>ext4_balloc.c\<close>: freeing one block and a range, allocating near a goal, and
  trying to take a given block.
\<close>

section \<open>Counters\<close>

definition EXT4_INODE_BLOCK_SIZE :: u32 where "EXT4_INODE_BLOCK_SIZE = 512"

text \<open>\<^verbatim>\<open>ext4_inode_set_blocks_count\<close> may refuse; the allocator does not look.\<close>

definition inode_add_blocks :: "ext4_inode_ref \<Rightarrow> u64 \<Rightarrow> ext4_inode_ref fsm" where
  "inode_add_blocks iref n =
     fs_bind (fs_gets fs_sb) (\<lambda>sb.
     fs_bind (inoref_get iref) (\<lambda>ino.
     fs_bind (inoref_put iref (snd (ext4_inode_set_blocks_count sb ino (ext4_inode_get_blocks_count sb ino + n)))) (\<lambda>_.
     fs_return (iref\<lparr>ir_dirty := True\<rparr>))))"

definition sb_add_free_blocks :: "u64 \<Rightarrow> unit fsm" where
  "sb_add_free_blocks n = fs_modify (\<lambda>fs. fs\<lparr>fs_sb :=
     ext4_sb_set_free_blocks_cnt (fs_sb fs) (ext4_sb_get_free_blocks_cnt (fs_sb fs) + n)\<rparr>)"

definition bg_add_free_blocks :: "ext4_block_group_ref \<Rightarrow> u32 \<Rightarrow> unit fsm" where
  "bg_add_free_blocks ref n =
     fs_bind (fs_gets fs_sb) (\<lambda>sb.
     bgref_upd ref (\<lambda>bg. ext4_bg_set_free_blocks_count bg sb (ext4_bg_get_free_blocks_count bg sb + n)))"

section \<open>Changing a bitmap\<close>

text \<open>Get the block bitmap of a held group and refuse one whose checksum does not match.\<close>

definition balloc_get_bitmap :: "ext4_block_group_ref \<Rightarrow> u64 fsm" where
  "balloc_get_bitmap ref =
     fs_bind (fs_gets fs_sb) (\<lambda>sb.
     fs_bind (bgref_get ref) (\<lambda>bg.
     fs_bind (fs_on_error (ext4_trans_block_get (ext4_bg_get_block_bitmap bg sb))
       (ext4_fs_put_block_group_ref ref)) (\<lambda>b.
     fs_bind (blk_get b) (\<lambda>bm.
     fs_bind (fs_mem (ext4_balloc_verify_bitmap_csum sb bg bm)) (\<lambda>ok.
     if \<not> ok then
       fs_bind (fs_ignore (blk_release b)) (\<lambda>_.
       fs_bind (fs_ignore (ext4_fs_put_block_group_ref ref)) (\<lambda>_. fs_fail EIO))
     else fs_return b)))))"

text \<open>Store a changed bitmap with its checksum and release it.\<close>

definition balloc_put_bitmap :: "ext4_block_group_ref \<Rightarrow> u64 \<Rightarrow> bytes \<Rightarrow> unit fsm" where
  "balloc_put_bitmap ref b bm =
     fs_bind (blk_put b bm) (\<lambda>_.
     fs_bind (fs_gets fs_sb) (\<lambda>sb.
     fs_bind (bgref_get ref) (\<lambda>bg.
     fs_bind (fs_mem (ext4_balloc_set_bitmap_csum sb bg bm)) (\<lambda>bg'.
     fs_bind (bgref_put ref bg') (\<lambda>_.
     fs_on_error (blk_release b) (ext4_fs_put_block_group_ref ref))))))"

section \<open>Freeing\<close>

definition ext4_balloc_free_block :: "ext4_inode_ref \<Rightarrow> u64 \<Rightarrow> ext4_inode_ref fsm" where
  "ext4_balloc_free_block iref baddr =
     fs_bind (fs_gets fs_sb) (\<lambda>sb.
     let bg_id = ext4_balloc_get_bgid_of_block sb baddr;
         index_in_group = ext4_fs_addr_to_idx_bg sb baddr
     in fs_bind (ext4_fs_get_block_group_ref bg_id) (\<lambda>ref.
        fs_bind (balloc_get_bitmap ref) (\<lambda>b.
        fs_bind (blk_get b) (\<lambda>bm.
        fs_bind (fs_mem (ext4_bmap_bit_clr bm index_in_group)) (\<lambda>bm'.
        fs_bind (balloc_put_bitmap ref b bm') (\<lambda>_.
        fs_bind (sb_add_free_blocks 1) (\<lambda>_.
        fs_bind (inode_add_blocks iref (- ucast (ext4_sb_get_block_size sb div EXT4_INODE_BLOCK_SIZE))) (\<lambda>iref.
        fs_bind (bg_add_free_blocks ref 1) (\<lambda>_.
        let ref = ref\<lparr>bgr_dirty := True\<rparr>
        in fs_bind (fs_on_error (ext4_trans_try_revoke_block baddr)
             (ext4_fs_put_block_group_ref (ref\<lparr>bgr_dirty := False\<rparr>))) (\<lambda>_.
           fs_bind (fs_invalidate_lba baddr 1) (\<lambda>_.
           fs_bind (ext4_fs_put_block_group_ref ref) (\<lambda>_.
           fs_return iref))))))))))))"

text \<open>One turn of the loop of \<^verbatim>\<open>ext4_balloc_free_blocks\<close>: the share of one group.  It gives the blocks
  still to free.  The put at the end of a turn only releases a held block, which cannot fail, so the
  \<^verbatim>\<open>break\<close> after it is never taken.\<close>

definition free_group_share :: "ext4_inode_ref \<Rightarrow> u32 \<Rightarrow> u64 \<Rightarrow> u32 \<Rightarrow> (ext4_inode_ref \<times> u64 \<times> u32) fsm" where
  "free_group_share iref bg_first first count =
     fs_bind (ext4_fs_get_block_group_ref bg_first) (\<lambda>ref.
     fs_bind (fs_gets fs_sb) (\<lambda>sb.
     let idx_in_bg_first = ext4_fs_addr_to_idx_bg sb first
     in fs_bind (balloc_get_bitmap ref) (\<lambda>b.
        let free_cnt = ext4_sb_get_block_size sb * 8 - idx_in_bg_first;
            free_cnt = (if free_cnt < count then free_cnt else count)
        in fs_bind (blk_get b) (\<lambda>bm.
           fs_bind (fs_mem (ext4_bmap_bits_free bm idx_in_bg_first free_cnt)) (\<lambda>bm'.
           fs_bind (balloc_put_bitmap ref b bm') (\<lambda>_.
           fs_bind (sb_add_free_blocks (ucast free_cnt)) (\<lambda>_.
           fs_bind (inode_add_blocks iref
             (- ucast (free_cnt * (ext4_sb_get_block_size sb div EXT4_INODE_BLOCK_SIZE)))) (\<lambda>iref.
           fs_bind (bg_add_free_blocks ref free_cnt) (\<lambda>_.
           fs_bind (ext4_fs_put_block_group_ref (ref\<lparr>bgr_dirty := True\<rparr>)) (\<lambda>_.
           fs_return (iref, first + ucast free_cnt, count - free_cnt)))))))))))"

fun free_groups :: "nat \<Rightarrow> ext4_inode_ref \<Rightarrow> u32 \<Rightarrow> u64 \<Rightarrow> u32 \<Rightarrow> (ext4_inode_ref \<times> u32) fsm" where
  "free_groups 0 iref bg_first first count = fs_return (iref, count)"
| "free_groups (Suc n) iref bg_first first count =
     fs_bind (free_group_share iref bg_first first count) (\<lambda>(iref, first, count).
     free_groups n iref (bg_first + 1) first count)"

fun revoke_blocks :: "nat \<Rightarrow> u64 \<Rightarrow> unit fsm" where
  "revoke_blocks 0 b = fs_return ()"
| "revoke_blocks (Suc n) b = fs_bind (ext4_trans_try_revoke_block b) (\<lambda>_. revoke_blocks n (b + 1))"

text \<open>The group loop runs from the group of the first block to that of the last.  The assertion at the
  end is that the groups together took every block.\<close>

definition ext4_balloc_free_blocks :: "ext4_inode_ref \<Rightarrow> u64 \<Rightarrow> u32 \<Rightarrow> ext4_inode_ref fsm" where
  "ext4_balloc_free_blocks iref first count =
     fs_bind (fs_gets fs_sb) (\<lambda>sb.
     let blocks_cnt = ext4_sb_get_blocks_cnt sb
     in if count = 0 then fs_return iref
        else if first < ucast (s_first_data_block sb) \<or> blocks_cnt \<le> first \<or> blocks_cnt - first < ucast count
        then fs_fail EINVAL
        else
          let bg_first = ext4_balloc_get_bgid_of_block sb first;
              bg_last = ext4_balloc_get_bgid_of_block sb (first + ucast count - 1)
          in fs_bind (free_groups (unat bg_last + 1 - unat bg_first) iref bg_first first count) (\<lambda>(iref, left).
             fs_bind (revoke_blocks (unat count) first) (\<lambda>_.
             fs_bind (fs_invalidate_lba first count) (\<lambda>_.
             if left = 0 then fs_return iref else fs_crash))))"

section \<open>Allocating\<close>

text \<open>Scan the bits from \<open>i\<close> for the first clear one.\<close>

fun scan_near :: "nat \<Rightarrow> u32 \<Rightarrow> bytes \<Rightarrow> u32 option option" where
  "scan_near 0 i bm = Some None"
| "scan_near (Suc n) i bm =
     (case ext4_bmap_is_bit_clr bm i of None \<Rightarrow> None
      | Some clr \<Rightarrow> if clr then Some (Some i) else scan_near n (i + 1) bm)"

text \<open>The bit the goal group offers: the goal itself, else one of the rest of its 64 bits, else the first
  clear bit from the goal on.\<close>

definition pick_near_goal :: "bytes \<Rightarrow> u32 \<Rightarrow> u32 \<Rightarrow> u32 option option" where
  "pick_near_goal bm idx_in_bg blk_in_bg =
     (case ext4_bmap_is_bit_clr bm idx_in_bg of None \<Rightarrow> None
      | Some True \<Rightarrow> Some (Some idx_in_bg)
      | Some False \<Rightarrow>
          let end_idx = (idx_in_bg + 63) AND NOT 63;
              end_idx = (if blk_in_bg < end_idx then blk_in_bg else end_idx)
          in case scan_near (unat end_idx - unat (idx_in_bg + 1)) (idx_in_bg + 1) bm of
               None \<Rightarrow> None
             | Some (Some i) \<Rightarrow> Some (Some i)
             | Some None \<Rightarrow>
                 case ext4_bmap_bit_find_clr bm idx_in_bg blk_in_bg of
                   None \<Rightarrow> None | Some (Found i) \<Rightarrow> Some (Some i) | Some NoSpace \<Rightarrow> Some None)"

definition pick_first :: "bytes \<Rightarrow> u32 \<Rightarrow> u32 \<Rightarrow> u32 option option" where
  "pick_first bm idx_in_bg blk_in_bg =
     (case ext4_bmap_bit_find_clr bm idx_in_bg blk_in_bg of
        None \<Rightarrow> None | Some (Found i) \<Rightarrow> Some (Some i) | Some NoSpace \<Rightarrow> Some None)"

text \<open>Take a bit of a held group, if its counter and its bitmap offer one.  \<open>None\<close> leaves the group
  held and unchanged.\<close>

definition alloc_in_group :: "(bytes \<Rightarrow> u32 option option) \<Rightarrow> ext4_block_group_ref \<Rightarrow> u64 option fsm" where
  "alloc_in_group pick ref =
     fs_bind (fs_gets fs_sb) (\<lambda>sb.
     fs_bind (bgref_get ref) (\<lambda>bg.
     if ext4_bg_get_free_blocks_count bg sb = 0 then fs_return None
     else
       fs_bind (balloc_get_bitmap ref) (\<lambda>b.
       fs_bind (blk_get b) (\<lambda>bm.
       fs_bind (fs_mem (pick bm)) (\<lambda>choice.
       case choice of
         Some i \<Rightarrow>
           fs_bind (fs_mem (ext4_bmap_bit_set bm i)) (\<lambda>bm'.
           fs_bind (balloc_put_bitmap ref b bm') (\<lambda>_.
           fs_return (Some (ext4_fs_bg_idx_to_addr sb i (bgr_index ref)))))
       | None \<Rightarrow>
           fs_bind (fs_on_error (blk_release b) (ext4_fs_put_block_group_ref ref)) (\<lambda>_. fs_return None))))))"

text \<open>The counters, after the label \<^verbatim>\<open>success\<close>.\<close>

definition alloc_success :: "ext4_inode_ref \<Rightarrow> ext4_block_group_ref \<Rightarrow> u64 \<Rightarrow> (ext4_inode_ref \<times> u64) fsm" where
  "alloc_success iref ref alloc =
     fs_bind (fs_gets fs_sb) (\<lambda>sb.
     fs_bind (sb_add_free_blocks (- 1)) (\<lambda>_.
     fs_bind (inode_add_blocks iref (ucast (ext4_sb_get_block_size sb div EXT4_INODE_BLOCK_SIZE))) (\<lambda>iref.
     fs_bind (bg_add_free_blocks ref (- 1)) (\<lambda>_.
     fs_bind (ext4_fs_put_block_group_ref (ref\<lparr>bgr_dirty := True\<rparr>)) (\<lambda>_.
     fs_return (iref, alloc))))))"

text \<open>The first bit of a group that the search starts from.\<close>

definition first_idx :: "ext4_sblock \<Rightarrow> u32 \<Rightarrow> u32" where
  "first_idx sb bgid = ext4_fs_addr_to_idx_bg sb (ext4_balloc_get_block_of_bgid sb bgid)"

fun alloc_other_groups :: "nat \<Rightarrow> ext4_inode_ref \<Rightarrow> u32 \<Rightarrow> (ext4_inode_ref \<times> u64) fsm" where
  "alloc_other_groups 0 iref bgid = fs_fail ENOSPC"
| "alloc_other_groups (Suc count) iref bgid =
     fs_bind (ext4_fs_get_block_group_ref bgid) (\<lambda>ref.
     fs_bind (fs_gets fs_sb) (\<lambda>sb.
     fs_bind (alloc_in_group (\<lambda>bm. pick_first bm (first_idx sb bgid) (ext4_blocks_in_group_cnt sb bgid)) ref) (\<lambda>a.
     case a of Some alloc \<Rightarrow> alloc_success iref ref alloc
     | None \<Rightarrow>
         fs_bind (ext4_fs_put_block_group_ref ref) (\<lambda>_.
         alloc_other_groups count iref ((bgid + 1) mod ext4_block_group_cnt sb)))))"

definition clamp_goal :: "ext4_sblock \<Rightarrow> u64 \<Rightarrow> u64" where
  "clamp_goal sb goal =
     (if goal < ucast (s_first_data_block sb) \<or> ext4_sb_get_blocks_cnt sb \<le> goal
      then ucast (s_first_data_block sb) else goal)"

definition ext4_balloc_alloc_block :: "ext4_inode_ref \<Rightarrow> u64 \<Rightarrow> (ext4_inode_ref \<times> u64) fsm" where
  "ext4_balloc_alloc_block iref goal =
     fs_bind (fs_gets fs_sb) (\<lambda>sb.
     let goal = clamp_goal sb goal;
         bg_id = ext4_balloc_get_bgid_of_block sb goal;
         idx_in_bg = ext4_fs_addr_to_idx_bg sb goal;
         idx_in_bg = (if idx_in_bg < first_idx sb bg_id then first_idx sb bg_id else idx_in_bg)
     in fs_bind (ext4_fs_get_block_group_ref bg_id) (\<lambda>ref.
        fs_bind (alloc_in_group (\<lambda>bm. pick_near_goal bm idx_in_bg (ext4_blocks_in_group_cnt sb bg_id)) ref) (\<lambda>a.
        case a of Some alloc \<Rightarrow> alloc_success iref ref alloc
        | None \<Rightarrow>
            fs_bind (ext4_fs_put_block_group_ref ref) (\<lambda>_.
            let cnt = ext4_block_group_cnt sb
            in if cnt = 0 then fs_crash
               else alloc_other_groups (unat cnt) iref ((bg_id + 1) mod cnt)))))"

definition ext4_balloc_try_alloc_block :: "ext4_inode_ref \<Rightarrow> u64 \<Rightarrow> (ext4_inode_ref \<times> bool) fsm" where
  "ext4_balloc_try_alloc_block iref baddr =
     fs_bind (fs_gets fs_sb) (\<lambda>sb.
     if baddr < ucast (s_first_data_block sb) \<or> ext4_sb_get_blocks_cnt sb \<le> baddr
     then fs_return (iref, False)
     else
       fs_bind (ext4_fs_get_block_group_ref (ext4_balloc_get_bgid_of_block sb baddr)) (\<lambda>ref.
       fs_bind (balloc_get_bitmap ref) (\<lambda>b.
       fs_bind (blk_get b) (\<lambda>bm.
       fs_bind (fs_mem (ext4_bmap_is_bit_clr bm (ext4_fs_addr_to_idx_bg sb baddr))) (\<lambda>free.
       if free then
         fs_bind (fs_mem (ext4_bmap_bit_set bm (ext4_fs_addr_to_idx_bg sb baddr))) (\<lambda>bm'.
         fs_bind (balloc_put_bitmap ref b bm') (\<lambda>_.
         fs_bind (alloc_success iref ref baddr) (\<lambda>(iref, _). fs_return (iref, True))))
       else
         fs_bind (fs_on_error (blk_release b) (ext4_fs_put_block_group_ref ref)) (\<lambda>_.
         fs_bind (ext4_fs_put_block_group_ref ref) (\<lambda>_. fs_return (iref, False))))))))"

end
