(* ===== verification/Alloc_Spec.thy ===== *)
theory Alloc_Spec
  imports Balloc Probe
begin

unbundle bit_operations_syntax

text \<open>
  Correctness of the block allocator: what a well-formed volume is, how each step of the allocator
  changes it, and what allocating and freeing do to the block bitmaps and the counters.
\<close>

section \<open>Descriptors in their block\<close>

text \<open>With 32-byte descriptors only the first half of a descriptor is stored and read back.\<close>

definition bg_cut :: "ext4_sblock \<Rightarrow> ext4_bgroup \<Rightarrow> ext4_bgroup" where
  "bg_cut sb bg = (if ext4_sb_get_desc_size sb = 64 then bg
     else bg\<lparr>bg_block_bitmap_hi := 0, bg_inode_bitmap_hi := 0, bg_inode_table_first_block_hi := 0,
       bg_free_blocks_count_hi := 0, bg_free_inodes_count_hi := 0, bg_used_dirs_count_hi := 0,
       bg_itable_unused_hi := 0, bg_exclude_bitmap_hi := 0, bg_block_bitmap_csum_hi := 0,
       bg_inode_bitmap_csum_hi := 0, bg_reserved := 0\<rparr>)"

definition desc_ok :: "ext4_sblock \<Rightarrow> bool" where
  "desc_ok sb \<longleftrightarrow> ext4_sb_get_desc_size sb = 32 \<or> ext4_sb_get_desc_size sb = 64"

lemma bgroup_of_bytes_append: "bgroup_of_bytes (bgroup_bytes bg @ ys) = bg"
  by (simp add: bgroup_of_bytes_def bgroup_bytes_def get_le_skip get_le_head)

lemma bgroup_bytes_half:
  "take 32 (bgroup_bytes bg) @ replicate 32 0 = bgroup_bytes (bg_cut sb bg)" if "ext4_sb_get_desc_size sb = 32"
  using that by (simp add: bgroup_bytes_def bg_cut_def le_zero flip: replicate_add)

lemma length_bg_store [simp]:
  "off + unat (ext4_sb_get_desc_size sb) \<le> length bs \<Longrightarrow> length (bg_store sb bs off bg) = length bs"
  by (simp add: bg_store_def put_bytes_def)

lemma bg_at_store:
  assumes "desc_ok sb" "off + unat (ext4_sb_get_desc_size sb) \<le> length bs"
  shows "bg_at sb (bg_store sb bs off bg) off = bg_cut sb bg"
proof (cases "ext4_sb_get_desc_size sb = 64")
  case True
  then have "take 64 (drop off (bg_store sb bs off bg)) = bgroup_bytes bg"
    using assms(2) by (simp add: bg_store_def put_bytes_def)
  then show ?thesis using True by (simp add: bg_at_def bg_cut_def bgroup_of_bytes_append)
next
  case False
  then have d: "ext4_sb_get_desc_size sb = 32" using assms(1) by (simp add: desc_ok_def)
  then have "take 32 (drop off (bg_store sb bs off bg)) = take 32 (bgroup_bytes bg)"
    using assms(2) by (simp add: bg_store_def put_bytes_def)
  moreover have "replicate 64 (0 :: u8) = replicate 32 0 @ replicate 32 0" by (simp flip: replicate_add)
  ultimately have "bg_at sb (bg_store sb bs off bg) off = bgroup_of_bytes (bgroup_bytes (bg_cut sb bg) @ replicate 32 0)"
    using d by (simp add: bg_at_def flip: bgroup_bytes_half)
  then show ?thesis by (simp add: bgroup_of_bytes_append)
qed

lemma bg_at_store_other:
  assumes "desc_ok sb" "off + unat (ext4_sb_get_desc_size sb) \<le> length bs"
    and "off' + unat (ext4_sb_get_desc_size sb) \<le> off \<or> off + unat (ext4_sb_get_desc_size sb) \<le> off'"
  shows "bg_at sb (bg_store sb bs off bg) off' = bg_at sb bs off'"
proof -
  let ?d = "unat (ext4_sb_get_desc_size sb)"
  let ?v = "take ?d (bgroup_bytes bg)"
  have v: "length ?v = ?d" using assms(1) by (auto simp: desc_ok_def)
  have "take ?d (drop off' (bg_store sb bs off bg)) = take ?d (drop off' bs)"
  proof (rule nth_equalityI)
    show "length (take ?d (drop off' (bg_store sb bs off bg))) = length (take ?d (drop off' bs))"
      using assms(2) by simp
    fix i assume "i < length (take ?d (drop off' (bg_store sb bs off bg)))"
    then have i: "i < ?d" "off' + i < length bs" using assms(2) by auto
    then show "take ?d (drop off' (bg_store sb bs off bg)) ! i = take ?d (drop off' bs) ! i"
      using assms(2,3) v by (auto simp: bg_store_def nth_put_bytes)
  qed
  then show ?thesis by (simp add: bg_at_def)
qed

text \<open>What the allocators read of a descriptor does not depend on the half that is not stored.\<close>

lemma bg_cut_get:
  assumes "desc_ok sb"
  shows "ext4_bg_get_block_bitmap (bg_cut sb a) sb = ext4_bg_get_block_bitmap a sb"
    and "ext4_bg_get_inode_bitmap (bg_cut sb a) sb = ext4_bg_get_inode_bitmap a sb"
    and "ext4_bg_get_inode_table_first_block (bg_cut sb a) sb = ext4_bg_get_inode_table_first_block a sb"
    and "ext4_bg_get_free_blocks_count (bg_cut sb a) sb = ext4_bg_get_free_blocks_count a sb"
    and "ext4_bg_get_free_inodes_count (bg_cut sb a) sb = ext4_bg_get_free_inodes_count a sb"
    and "ext4_bg_get_used_dirs_count (bg_cut sb a) sb = ext4_bg_get_used_dirs_count a sb"
    and "ext4_bg_get_itable_unused (bg_cut sb a) sb = ext4_bg_get_itable_unused a sb"
    and "bg_flags (bg_cut sb a) = bg_flags a"
    and "ext4_balloc_verify_bitmap_csum sb (bg_cut sb a) bm = ext4_balloc_verify_bitmap_csum sb a bm"
    and "ext4_ialloc_verify_bitmap_csum sb (bg_cut sb a) bm = ext4_ialloc_verify_bitmap_csum sb a bm"
  using assms
  by (auto simp: desc_ok_def bg_cut_def bg_accessors EXT4_MIN_BLOCK_GROUP_DESCRIPTOR_SIZE_def Let_def
      EXT4_MAX_BLOCK_GROUP_DESCRIPTOR_SIZE_def ext4_balloc_verify_bitmap_csum_def
      ext4_ialloc_verify_bitmap_csum_def split: option.split)

section \<open>The volume as the allocators see it\<close>

definition dblk :: "ext4_sblock \<Rightarrow> u32 \<Rightarrow> u64" where
  "dblk sb g = ext4_fs_get_descriptor_block sb g (dsc_per_block sb)"

definition doff :: "ext4_sblock \<Rightarrow> u32 \<Rightarrow> nat" where
  "doff sb g = unat ((g mod dsc_per_block sb) * ucast (ext4_sb_get_desc_size sb))"

definition vbg :: "ext4_fs \<Rightarrow> u32 \<Rightarrow> ext4_bgroup" where
  "vbg fs g = bg_at (fs_sb fs) (fs_blk fs (dblk (fs_sb fs) g)) (doff (fs_sb fs) g)"

text \<open>The address and the contents of a group's block bitmap.\<close>

definition vbb :: "ext4_fs \<Rightarrow> u32 \<Rightarrow> u64" where
  "vbb fs g = ext4_bg_get_block_bitmap (vbg fs g) (fs_sb fs)"

definition vbm :: "ext4_fs \<Rightarrow> u32 \<Rightarrow> bytes" where
  "vbm fs g = fs_blk fs (vbb fs g)"

abbreviation vcnt :: "ext4_fs \<Rightarrow> u32" where
  "vcnt fs \<equiv> ext4_block_group_cnt (fs_sb fs)"

text \<open>A well-formed volume: the geometry the probe guarantees, block addresses of 32 bits (the address
  arithmetic of the allocator is done at that width), groups that are initialised, and a
  bitmap block of its own, outside the descriptor table, for every group.\<close>

definition vol_ok :: "ext4_fs \<Rightarrow> bool" where
  "vol_ok fs \<longleftrightarrow>
     sb_geometry (fs_sb fs) \<and> desc_ok (fs_sb fs) \<and> \<not> ext4_sb_feature_incom (fs_sb fs) EXT4_FINCOM_META_BG \<and>
     unat (ext4_sb_get_blocks_cnt (fs_sb fs)) < 2 ^ 32 \<and>
     ucast (s_first_data_block (fs_sb fs)) < ext4_sb_get_blocks_cnt (fs_sb fs) \<and>
     (\<forall>l. length (fs_blk fs l) = unat (ext4_sb_get_block_size (fs_sb fs))) \<and>
     (\<forall>n l bs. fs_stale fs n l = Some bs \<longrightarrow> length bs = unat (ext4_sb_get_block_size (fs_sb fs))) \<and>
     (\<forall>g < vcnt fs. \<not> ext4_bg_has_flag (vbg fs g) EXT4_BLOCK_GROUP_BLOCK_UNINIT \<and>
        \<not> ext4_bg_has_flag (vbg fs g) EXT4_BLOCK_GROUP_INODE_UNINIT) \<and>
     (\<forall>g < vcnt fs. \<forall>h < vcnt fs. vbb fs g \<noteq> dblk (fs_sb fs) h) \<and>
     (\<forall>g < vcnt fs. \<forall>h < vcnt fs. g \<noteq> h \<longrightarrow> vbb fs g \<noteq> vbb fs h)"

lemma vol_okD:
  assumes "vol_ok fs"
  shows "sb_geometry (fs_sb fs)" "desc_ok (fs_sb fs)" "\<not> ext4_sb_feature_incom (fs_sb fs) EXT4_FINCOM_META_BG"
    "unat (ext4_sb_get_blocks_cnt (fs_sb fs)) < 2 ^ 32"
    "ucast (s_first_data_block (fs_sb fs)) < ext4_sb_get_blocks_cnt (fs_sb fs)"
    "length (fs_blk fs l) = unat (ext4_sb_get_block_size (fs_sb fs))"
    "g < vcnt fs \<Longrightarrow> \<not> ext4_bg_has_flag (vbg fs g) EXT4_BLOCK_GROUP_BLOCK_UNINIT"
    "g < vcnt fs \<Longrightarrow> \<not> ext4_bg_has_flag (vbg fs g) EXT4_BLOCK_GROUP_INODE_UNINIT"
    "g < vcnt fs \<Longrightarrow> h < vcnt fs \<Longrightarrow> vbb fs g \<noteq> dblk (fs_sb fs) h"
    "g < vcnt fs \<Longrightarrow> h < vcnt fs \<Longrightarrow> g \<noteq> h \<Longrightarrow> vbb fs g \<noteq> vbb fs h"
    "fs_stale fs n l = Some bs \<Longrightarrow> length bs = unat (ext4_sb_get_block_size (fs_sb fs))"
  using assms unfolding vol_ok_def by blast+

lemma dsc_nat:
  assumes "sb_geometry sb" "desc_ok sb"
  shows "unat (dsc_per_block sb) * unat (ext4_sb_get_desc_size sb) = unat (ext4_sb_get_block_size sb)"
    "16 \<le> unat (dsc_per_block sb)"
proof -
  let ?d = "unat (ext4_sb_get_desc_size sb)" and ?b = "unat (ext4_sb_get_block_size sb)"
  have q: "unat (dsc_per_block sb) = ?b div ?d" by (simp add: dsc_per_block_def unat_div)
  have dvd: "?d dvd ?b" using assms(1) by (simp add: sb_geometry_def Let_def)
  then show eq: "unat (dsc_per_block sb) * ?d = ?b" by (simp add: q)
  have "1024 \<le> ?b" using sb_block_size_cases [of sb] by auto
  with eq assms(2) show "16 \<le> unat (dsc_per_block sb)" by (auto simp: desc_ok_def)
qed

lemma doff_nat:
  assumes "sb_geometry sb" "desc_ok sb"
  shows "doff sb g = unat g mod unat (dsc_per_block sb) * unat (ext4_sb_get_desc_size sb)"
    and "doff sb g + unat (ext4_sb_get_desc_size sb) \<le> unat (ext4_sb_get_block_size sb)"
proof -
  let ?d = "unat (ext4_sb_get_desc_size sb)" and ?n = "unat (dsc_per_block sb)"
  note n = dsc_nat [OF assms]
  have "Suc (unat g mod ?n) * ?d \<le> ?n * ?d" using n(2) by (intro mult_le_mono1 Suc_leI mod_less_divisor) simp
  then have le: "unat g mod ?n * ?d + ?d \<le> unat (ext4_sb_get_block_size sb)" using n(1) by simp
  then have "unat g mod ?n * ?d < 2 ^ 32" using unat_u32_lt [of "ext4_sb_get_block_size sb"] by simp
  then show eq: "doff sb g = unat g mod ?n * ?d"
    unfolding doff_def by (subst unat_word_ariths) (simp add: unat_mod mod_less)
  show "doff sb g + ?d \<le> unat (ext4_sb_get_block_size sb)" using le by (simp add: eq)
qed

lemma dblk_nat:
  assumes "sb_geometry sb" "desc_ok sb" "\<not> ext4_sb_feature_incom sb EXT4_FINCOM_META_BG"
  shows "unat (dblk sb g) = unat (s_first_data_block sb) + unat g div unat (dsc_per_block sb) + 1"
proof -
  have f: "unat (s_first_data_block sb) \<le> 1"
    using assms(1) by (auto simp: sb_geometry_def Let_def split: if_splits)
  have "unat g div unat (dsc_per_block sb) \<le> unat g div 16"
    using dsc_nat(2) [OF assms(1,2)] by (intro div_le_mono2) simp_all
  then have q: "unat g div unat (dsc_per_block sb) < 2 ^ 28" using unat_u32_lt [of g] by simp
  have "unat (s_first_data_block sb + g div dsc_per_block sb + 1) =
      unat (s_first_data_block sb) + unat g div unat (dsc_per_block sb) + 1"
    using f q by (simp add: unat_word_ariths unat_div)
  then show ?thesis using assms(3) by (simp add: dblk_def ext4_fs_get_descriptor_block_def Let_def)
qed

lemma desc_disjoint:
  assumes "sb_geometry sb" "desc_ok sb" "\<not> ext4_sb_feature_incom sb EXT4_FINCOM_META_BG" "g \<noteq> h"
    and "dblk sb g = dblk sb h"
  shows "doff sb h + unat (ext4_sb_get_desc_size sb) \<le> doff sb g \<or> doff sb g + unat (ext4_sb_get_desc_size sb) \<le> doff sb h"
proof -
  let ?n = "unat (dsc_per_block sb)" and ?d = "unat (ext4_sb_get_desc_size sb)"
  have "unat g div ?n = unat h div ?n"
    using assms(5) dblk_nat [OF assms(1-3)] by (metis add_left_imp_eq add_right_imp_eq)
  moreover have "unat g \<noteq> unat h" using assms(4) by (simp add: word_unat_eq_iff)
  ultimately have "unat g mod ?n \<noteq> unat h mod ?n" by (metis div_mult_mod_eq)
  then consider "unat g mod ?n < unat h mod ?n" | "unat h mod ?n < unat g mod ?n" by linarith
  then show ?thesis
  proof cases
    case 1
    then have "Suc (unat g mod ?n) * ?d \<le> unat h mod ?n * ?d" by (intro mult_le_mono1) simp
    then show ?thesis by (simp add: doff_nat(1) [OF assms(1,2)])
  next
    case 2
    then have "Suc (unat h mod ?n) * ?d \<le> unat g mod ?n * ?d" by (intro mult_le_mono1) simp
    then show ?thesis by (simp add: doff_nat(1) [OF assms(1,2)])
  qed
qed

section \<open>Updates of a volume\<close>

definition vput_blk :: "ext4_fs \<Rightarrow> u64 \<Rightarrow> bytes \<Rightarrow> ext4_fs" where
  "vput_blk fs l bs = fs\<lparr>fs_blk := (fs_blk fs)(l := bs)\<rparr>"

definition vput_bg :: "ext4_fs \<Rightarrow> u32 \<Rightarrow> ext4_bgroup \<Rightarrow> ext4_fs" where
  "vput_bg fs g bg = vput_blk fs (dblk (fs_sb fs) g)
     (bg_store (fs_sb fs) (fs_blk fs (dblk (fs_sb fs) g)) (doff (fs_sb fs) g) bg)"

definition vput_free :: "ext4_fs \<Rightarrow> u64 \<Rightarrow> ext4_fs" where
  "vput_free fs c = fs\<lparr>fs_sb := ext4_sb_set_free_blocks_cnt (fs_sb fs) c\<rparr>"

text \<open>The blocks a group owns for itself.\<close>

definition meta_block :: "ext4_fs \<Rightarrow> u64 \<Rightarrow> bool" where
  "meta_block fs l \<longleftrightarrow> (\<exists>g < vcnt fs. l = dblk (fs_sb fs) g \<or> l = vbb fs g)"

lemma vput_sb [simp]:
  "fs_sb (vput_blk fs l bs) = fs_sb fs" "fs_sb (vput_bg fs g bg) = fs_sb fs"
  "fs_lg_bcnt (vput_blk fs l bs) = fs_lg_bcnt fs" "fs_lg_bcnt (vput_bg fs g bg) = fs_lg_bcnt fs"
  "fs_blk (vput_blk fs l bs) = (fs_blk fs)(l := bs)"
  "fs_stale (vput_blk fs l bs) = fs_stale fs" "fs_stale (vput_bg fs g bg) = fs_stale fs"
  "fs_answer (vput_blk fs l bs) = fs_answer fs" "fs_answer (vput_bg fs g bg) = fs_answer fs"
  by (simp_all add: vput_blk_def vput_bg_def)

lemma calls_simps [simp]:
  "vbg (fs\<lparr>fs_calls := n\<rparr>) = vbg fs" "vbb (fs\<lparr>fs_calls := n\<rparr>) = vbb fs" "vbm (fs\<lparr>fs_calls := n\<rparr>) = vbm fs"
  "vol_ok (fs\<lparr>fs_calls := n\<rparr>) = vol_ok fs" "meta_block (fs\<lparr>fs_calls := n\<rparr>) = meta_block fs"
  "vput_bg (fs\<lparr>fs_calls := n\<rparr>) g bg = (vput_bg fs g bg)\<lparr>fs_calls := n\<rparr>"
  "vput_blk (fs\<lparr>fs_calls := n\<rparr>) l bs = (vput_blk fs l bs)\<lparr>fs_calls := n\<rparr>"
  "vput_free (fs\<lparr>fs_calls := n\<rparr>) c = (vput_free fs c)\<lparr>fs_calls := n\<rparr>"
proof -
  show a: "vbg (fs\<lparr>fs_calls := n\<rparr>) = vbg fs" by (simp add: vbg_def fun_eq_iff)
  then show b: "vbb (fs\<lparr>fs_calls := n\<rparr>) = vbb fs" by (simp add: vbb_def fun_eq_iff)
  then show "vbm (fs\<lparr>fs_calls := n\<rparr>) = vbm fs" by (simp add: vbm_def fun_eq_iff)
  show "vol_ok (fs\<lparr>fs_calls := n\<rparr>) = vol_ok fs" unfolding vol_ok_def a b by simp
  show "meta_block (fs\<lparr>fs_calls := n\<rparr>) = meta_block fs" by (simp add: meta_block_def b fun_eq_iff)
qed (simp_all add: vput_bg_def vput_blk_def vput_free_def)

subsection \<open>Blocks that are not metadata\<close>

lemma vput_blk_data:
  assumes "vol_ok fs" "\<not> meta_block fs l" "length bs = unat (ext4_sb_get_block_size (fs_sb fs))"
  shows "g < vcnt fs \<Longrightarrow> vbg (vput_blk fs l bs) g = vbg fs g"
    and "g < vcnt fs \<Longrightarrow> vbb (vput_blk fs l bs) g = vbb fs g"
    and "g < vcnt fs \<Longrightarrow> vbm (vput_blk fs l bs) g = vbm fs g"
    and "vol_ok (vput_blk fs l bs)"
    and "meta_block (vput_blk fs l bs) = meta_block fs"
proof -
  have ne: "l \<noteq> dblk (fs_sb fs) g" "l \<noteq> vbb fs g" if "g < vcnt fs" for g
    using assms(2) that by (auto simp: meta_block_def)
  show a: "vbg (vput_blk fs l bs) g = vbg fs g" if "g < vcnt fs" for g
    using ne(1) [OF that] by (simp add: vbg_def)
  show b: "vbb (vput_blk fs l bs) g = vbb fs g" if "g < vcnt fs" for g
    using a [OF that] by (simp add: vbb_def)
  show "vbm (vput_blk fs l bs) g = vbm fs g" if "g < vcnt fs" for g
    using b [OF that] ne(2) [OF that] by (simp add: vbm_def)
  show "vol_ok (vput_blk fs l bs)"
    using assms(1,3) a b unfolding vol_ok_def by simp
  show "meta_block (vput_blk fs l bs) = meta_block fs"
    using b by (auto simp: meta_block_def fun_eq_iff)
qed

subsection \<open>The bitmap of a group\<close>

lemma vput_bitmap:
  assumes "vol_ok fs" "g < vcnt fs" "length bm = unat (ext4_sb_get_block_size (fs_sb fs))"
  shows "h < vcnt fs \<Longrightarrow> vbg (vput_blk fs (vbb fs g) bm) h = vbg fs h"
    and "h < vcnt fs \<Longrightarrow> vbb (vput_blk fs (vbb fs g) bm) h = vbb fs h"
    and "h < vcnt fs \<Longrightarrow> vbm (vput_blk fs (vbb fs g) bm) h = (if h = g then bm else vbm fs h)"
    and "vol_ok (vput_blk fs (vbb fs g) bm)"
    and "meta_block (vput_blk fs (vbb fs g) bm) = meta_block fs"
proof -
  let ?fs = "vput_blk fs (vbb fs g) bm"
  show a: "vbg ?fs h = vbg fs h" if "h < vcnt fs" for h
    using vol_okD(9) [OF assms(1,2) that] by (simp add: vbg_def)
  show b: "vbb ?fs h = vbb fs h" if "h < vcnt fs" for h
    using a [OF that] by (simp add: vbb_def)
  show "vbm ?fs h = (if h = g then bm else vbm fs h)" if "h < vcnt fs" for h
    using b [OF that] vol_okD(10) [OF assms(1) that assms(2)] by (auto simp: vbm_def)
  show "vol_ok ?fs" using assms(1,3) a b unfolding vol_ok_def by simp
  show "meta_block ?fs = meta_block fs" using b by (auto simp: meta_block_def fun_eq_iff)
qed

subsection \<open>The descriptor of a group\<close>

lemma vput_desc:
  assumes "vol_ok fs" "g < vcnt fs" "ext4_bg_get_block_bitmap bg (fs_sb fs) = vbb fs g"
    and "bg_flags bg = bg_flags (vbg fs g)"
  shows "h < vcnt fs \<Longrightarrow> vbg (vput_bg fs g bg) h = (if h = g then bg_cut (fs_sb fs) bg else vbg fs h)"
    and "h < vcnt fs \<Longrightarrow> vbb (vput_bg fs g bg) h = vbb fs h"
    and "h < vcnt fs \<Longrightarrow> vbm (vput_bg fs g bg) h = vbm fs h"
    and "vol_ok (vput_bg fs g bg)"
    and "meta_block (vput_bg fs g bg) = meta_block fs"
proof -
  let ?fs = "vput_bg fs g bg" and ?sb = "fs_sb fs"
  note v = vol_okD [OF assms(1)]
  have room: "doff ?sb g + unat (ext4_sb_get_desc_size ?sb) \<le> length (fs_blk fs (dblk ?sb g))"
    using doff_nat(2) [OF v(1,2)] by (simp add: v(6))
  show a: "vbg ?fs h = (if h = g then bg_cut ?sb bg else vbg fs h)" if "h < vcnt fs" for h
  proof (cases "h = g")
    case True
    then show ?thesis using bg_at_store [OF v(2) room] by (simp add: vbg_def vput_bg_def)
  next
    case False
    show ?thesis
    proof (cases "dblk ?sb h = dblk ?sb g")
      case True
      then have "doff ?sb h + unat (ext4_sb_get_desc_size ?sb) \<le> doff ?sb g \<or>
          doff ?sb g + unat (ext4_sb_get_desc_size ?sb) \<le> doff ?sb h"
        using desc_disjoint [OF v(1-3), of g h] False by auto
      then show ?thesis using bg_at_store_other [OF v(2) room] False True
        by (simp add: vbg_def vput_bg_def)
    next
      case ne: False
      then show ?thesis using False by (simp add: vbg_def vput_bg_def)
    qed
  qed
  show b: "vbb ?fs h = vbb fs h" if "h < vcnt fs" for h
    using a [OF that] assms(3) bg_cut_get(1) [OF v(2)] by (auto simp: vbb_def)
  show "vbm ?fs h = vbm fs h" if "h < vcnt fs" for h
    using b [OF that] v(9) [OF that assms(2)] by (simp add: vbm_def vput_bg_def)
  have fl: "bg_flags (vbg ?fs h) = bg_flags (vbg fs h)" if "h < vcnt fs" for h
    using a [OF that] assms(4) bg_cut_get(8) [OF v(2)] by auto
  have len: "length (fs_blk ?fs l) = unat (ext4_sb_get_block_size ?sb)" for l
    using room v(6) by (simp add: vput_bg_def)
  show "vol_ok ?fs"
    using assms(1) b fl len unfolding vol_ok_def ext4_bg_has_flag_def by simp
  show "meta_block ?fs = meta_block fs" using b by (auto simp: meta_block_def fun_eq_iff)
qed

subsection \<open>The free count of the superblock\<close>

lemma set_free_simps [simp]:
  "ext4_sb_get_block_size (ext4_sb_set_free_blocks_cnt s c) = ext4_sb_get_block_size s"
  "ext4_sb_get_desc_size (ext4_sb_set_free_blocks_cnt s c) = ext4_sb_get_desc_size s"
  "ext4_sb_get_blocks_cnt (ext4_sb_set_free_blocks_cnt s c) = ext4_sb_get_blocks_cnt s"
  "ext4_sb_feature_incom (ext4_sb_set_free_blocks_cnt s c) v = ext4_sb_feature_incom s v"
  "ext4_sb_feature_ro_com (ext4_sb_set_free_blocks_cnt s c) v = ext4_sb_feature_ro_com s v"
  "s_first_data_block (ext4_sb_set_free_blocks_cnt s c) = s_first_data_block s"
  "s_blocks_per_group (ext4_sb_set_free_blocks_cnt s c) = s_blocks_per_group s"
  "s_inodes_per_group (ext4_sb_set_free_blocks_cnt s c) = s_inodes_per_group s"
  "s_inode_size (ext4_sb_set_free_blocks_cnt s c) = s_inode_size s"
  "s_uuid (ext4_sb_set_free_blocks_cnt s c) = s_uuid s"
  "s_checksum_seed (ext4_sb_set_free_blocks_cnt s c) = s_checksum_seed s"
  "s_first_meta_bg (ext4_sb_set_free_blocks_cnt s c) = s_first_meta_bg s"
  by (simp_all add: ext4_sb_set_free_blocks_cnt_def ext4_sb_get_block_size_def ext4_sb_get_desc_size_def
      ext4_sb_get_blocks_cnt_def ext4_sb_feature_incom_def ext4_sb_feature_ro_com_def)

lemma set_free_geometry [simp]:
  "sb_geometry (ext4_sb_set_free_blocks_cnt s c) = sb_geometry s"
  "desc_ok (ext4_sb_set_free_blocks_cnt s c) = desc_ok s"
  "ext4_block_group_cnt (ext4_sb_set_free_blocks_cnt s c) = ext4_block_group_cnt s"
  "ext4_blocks_in_group_cnt (ext4_sb_set_free_blocks_cnt s c) = ext4_blocks_in_group_cnt s"
  "dsc_per_block (ext4_sb_set_free_blocks_cnt s c) = dsc_per_block s"
  "ext4_sb_csum_seed (ext4_sb_set_free_blocks_cnt s c) = ext4_sb_csum_seed s"
  "ext4_sb_first_meta_bg (ext4_sb_set_free_blocks_cnt s c) = ext4_sb_first_meta_bg s"
  "ext4_sb_is_super_in_bg (ext4_sb_set_free_blocks_cnt s c) = ext4_sb_is_super_in_bg s"
  "ext4_fs_first_bg_block_no (ext4_sb_set_free_blocks_cnt s c) = ext4_fs_first_bg_block_no s"
  "bg_at (ext4_sb_set_free_blocks_cnt s c) = bg_at s"
  "bg_cut (ext4_sb_set_free_blocks_cnt s c) = bg_cut s"
  by (simp_all add: sb_geometry_def desc_ok_def ext4_block_group_cnt_def ext4_blocks_in_group_cnt_def
      dsc_per_block_def ext4_sb_csum_seed_def ext4_sb_first_meta_bg_def ext4_sb_is_super_in_bg_def
      ext4_fs_first_bg_block_no_def bg_at_def bg_cut_def fun_eq_iff)

lemma set_free_views [simp]:
  "dblk (ext4_sb_set_free_blocks_cnt s c) = dblk s"
  "doff (ext4_sb_set_free_blocks_cnt s c) = doff s"
  "ext4_bg_get_block_bitmap bg (ext4_sb_set_free_blocks_cnt s c) = ext4_bg_get_block_bitmap bg s"
  "ext4_bg_get_free_blocks_count bg (ext4_sb_set_free_blocks_cnt s c) = ext4_bg_get_free_blocks_count bg s"
  "ext4_bg_set_free_blocks_count bg (ext4_sb_set_free_blocks_cnt s c) n = ext4_bg_set_free_blocks_count bg s n"
  "ext4_balloc_verify_bitmap_csum (ext4_sb_set_free_blocks_cnt s c) bg bm = ext4_balloc_verify_bitmap_csum s bg bm"
  by (simp_all add: dblk_def doff_def ext4_fs_get_descriptor_block_def bg_accessors Let_def fun_eq_iff
      ext4_balloc_verify_bitmap_csum_def ext4_balloc_bitmap_csum_def csum_bytes_def)

lemma get_set_free: "ext4_sb_get_free_blocks_cnt (ext4_sb_set_free_blocks_cnt s c) = c"
proof -
  have "push_bit 32 (ucast (ucast (drop_bit 32 c) :: u32)) OR ucast (ucast (drop_bit 32 (push_bit 32 c)) :: u32) = c"
    by (rule bit_word_eqI) (auto simp: bit_simps)
  then show ?thesis by (simp add: ext4_sb_get_free_blocks_cnt_def ext4_sb_set_free_blocks_cnt_def)
qed

lemma vput_free_simps [simp]:
  "fs_sb (vput_free fs c) = ext4_sb_set_free_blocks_cnt (fs_sb fs) c" "fs_blk (vput_free fs c) = fs_blk fs"
  "fs_stale (vput_free fs c) = fs_stale fs" "fs_answer (vput_free fs c) = fs_answer fs"
  "fs_lg_bcnt (vput_free fs c) = fs_lg_bcnt fs"
  "vbg (vput_free fs c) = vbg fs" "vbb (vput_free fs c) = vbb fs" "vbm (vput_free fs c) = vbm fs"
  "meta_block (vput_free fs c) = meta_block fs" "vol_ok (vput_free fs c) = vol_ok fs"
proof -
  show f: "fs_sb (vput_free fs c) = ext4_sb_set_free_blocks_cnt (fs_sb fs) c" "fs_blk (vput_free fs c) = fs_blk fs"
    "fs_stale (vput_free fs c) = fs_stale fs" "fs_answer (vput_free fs c) = fs_answer fs"
    "fs_lg_bcnt (vput_free fs c) = fs_lg_bcnt fs"
    by (simp_all add: vput_free_def)
  then show a: "vbg (vput_free fs c) = vbg fs" by (simp add: vbg_def fun_eq_iff)
  then show b: "vbb (vput_free fs c) = vbb fs" using f by (simp add: vbb_def fun_eq_iff)
  then show "vbm (vput_free fs c) = vbm fs" using f by (simp add: vbm_def fun_eq_iff)
  show "meta_block (vput_free fs c) = meta_block fs" using f b by (simp add: meta_block_def fun_eq_iff)
  show "vol_ok (vput_free fs c) = vol_ok fs" unfolding vol_ok_def f a b by simp
qed

section \<open>The steps of the allocator\<close>

definition gref :: "ext4_sblock \<Rightarrow> u32 \<Rightarrow> ext4_block_group_ref" where
  "gref sb g = \<lparr>bgr_block = dblk sb g, bgr_off = doff sb g, bgr_index = g, bgr_dirty = False\<rparr>"

lemma gref_fields [simp]:
  "bgr_block (gref sb g) = dblk sb g" "bgr_off (gref sb g) = doff sb g" "bgr_index (gref sb g) = g"
  "\<not> bgr_dirty (gref sb g)"
  by (simp_all add: gref_def)

lemma bgref_ops:
  "bgref_get (gref (fs_sb fs) g) fs = (Ret (vbg fs g), fs)"
  "bgref_put (gref (fs_sb fs) g) bg fs = (Ret (), vput_bg fs g bg)"
  by (simp_all add: bgref_get_def bgref_put_def fs_gets_def fs_modify_def vbg_def vput_bg_def vput_blk_def)

text \<open>The outcome of getting a block: one answer is consumed, or none for an address that is refused.\<close>

lemma calls_self: "\<exists>n. fs = fs\<lparr>fs_calls := n\<rparr>"
  by (rule exI [of _ "fs_calls fs"]) simp

lemma block_get_outcome:
  assumes "ext4_trans_block_get l fs = (r, fs')"
  shows "(\<exists>n. fs' = fs\<lparr>fs_calls := n\<rparr>) \<and> (r = Ret l \<or> (\<exists>e. r = Err e))"
  using assms calls_self [of fs]
  by (auto simp: ext4_trans_block_get_def fs_bind_def fs_ask_def fs_return_def Let_def split: if_splits)

lemma get_ref_run:
  assumes "vol_ok fs" "g < vcnt fs"
  shows "ext4_fs_get_block_group_ref g fs = (case ext4_trans_block_get (dblk (fs_sb fs) g) fs of
    (Ret b, fs1) \<Rightarrow> (Ret (gref (fs_sb fs) g), fs1) | (Err e, fs1) \<Rightarrow> (Err e, fs1) | (Crash, fs1) \<Rightarrow> (Crash, fs1))"
proof -
  note v = vol_okD [OF assms(1)]
  have nz: "dsc_per_block (fs_sb fs) \<noteq> 0" using dsc_nat(2) [OF v(1,2)] by auto
  obtain r1 fs1 where g: "ext4_trans_block_get (dblk (fs_sb fs) g) fs = (r1, fs1)" by fastforce
  from block_get_outcome [OF g] obtain n where fs1: "fs1 = fs\<lparr>fs_calls := n\<rparr>"
    and r1: "r1 = Ret (dblk (fs_sb fs) g) \<or> (\<exists>e. r1 = Err e)" by blast
  have ref: "\<lparr>bgr_block = dblk (fs_sb fs) g, bgr_off = unat (g mod dsc_per_block (fs_sb fs) * ucast (ext4_sb_get_desc_size (fs_sb fs))),
      bgr_index = g, bgr_dirty = False\<rparr> = gref (fs_sb fs) g"
    by (simp add: gref_def doff_def)
  have run: "ext4_fs_get_block_group_ref g fs =
      fs_bind (ext4_trans_block_get (dblk (fs_sb fs) g)) (\<lambda>b. fs_bind (init_if_block_uninit
        \<lparr>bgr_block = b, bgr_off = unat (g mod dsc_per_block (fs_sb fs) * ucast (ext4_sb_get_desc_size (fs_sb fs))),
         bgr_index = g, bgr_dirty = False\<rparr>) init_if_inode_uninit) fs"
    using nz by (simp add: ext4_fs_get_block_group_ref_def fs_bind_def fs_gets_def Let_def dblk_def
        dsc_per_block_def)
  have "fs_bind (init_if_block_uninit (gref (fs_sb fs) g)) init_if_inode_uninit fs1 = (Ret (gref (fs_sb fs) g), fs1)"
    using v(7,8) [OF assms(2)] bgref_ops(1) [of fs1 g] unfolding fs1
    by (simp add: fs_bind_def init_if_block_uninit_def init_if_inode_uninit_def fs_return_def)
  with run r1 g ref fs1 show ?thesis by (auto simp: fs_bind_def)
qed

lemma get_ref_outcome:
  assumes "vol_ok fs" "g < vcnt fs" "ext4_fs_get_block_group_ref g fs = (r, fs')"
  shows "(\<exists>n. fs' = fs\<lparr>fs_calls := n\<rparr>) \<and> (r = Ret (gref (fs_sb fs) g) \<or> (\<exists>e. r = Err e))"
  using assms(3) block_get_outcome [of "dblk (fs_sb fs) g" fs]
  unfolding get_ref_run [OF assms(1,2)]
  by (cases "ext4_trans_block_get (dblk (fs_sb fs) g) fs") (auto split: fsres.splits)

lemma put_ref_clean [simp]: "\<not> bgr_dirty ref \<Longrightarrow> ext4_fs_put_block_group_ref ref fs = (Ret (), fs)"
  by (simp add: ext4_fs_put_block_group_ref_def fs_bind_def fs_gets_def fs_return_def blk_release_def)

lemma bitmap_csum_ok:
  assumes "vol_ok fs" "length bm = unat (ext4_sb_get_block_size (fs_sb fs))"
  shows "\<exists>c. ext4_balloc_bitmap_csum (fs_sb fs) bm = Some c"
proof -
  have "unat (s_blocks_per_group (fs_sb fs)) \<le> 8 * unat (ext4_sb_get_block_size (fs_sb fs))"
    using vol_okD(1) [OF assms(1)] by (simp add: sb_geometry_def Let_def)
  then have "unat (s_blocks_per_group (fs_sb fs) div 8) \<le> length bm"
    using assms(2) by (simp add: unat_div)
  then show ?thesis by (simp add: ext4_balloc_bitmap_csum_def csum_bytes_def)
qed

lemma get_bitmap_run:
  assumes "vol_ok fs" "g < vcnt fs"
  obtains ok where "ext4_balloc_verify_bitmap_csum (fs_sb fs) (vbg fs g) (vbm fs g) = Some ok"
    "balloc_get_bitmap (gref (fs_sb fs) g) fs = (case ext4_trans_block_get (vbb fs g) fs of
      (Ret b, fs1) \<Rightarrow> if ok then (Ret (vbb fs g), fs1) else (Err EIO, fs1) | (Err e, fs1) \<Rightarrow> (Err e, fs1) | (Crash, fs1) \<Rightarrow> (Crash, fs1))"
proof -
  obtain r1 fs1 where g: "ext4_trans_block_get (vbb fs g) fs = (r1, fs1)" by fastforce
  from block_get_outcome [OF g] obtain n where fs1: "fs1 = fs\<lparr>fs_calls := n\<rparr>"
    and r1: "r1 = Ret (vbb fs g) \<or> (\<exists>e. r1 = Err e)" by blast
  obtain c where c: "ext4_balloc_bitmap_csum (fs_sb fs) (vbm fs g) = Some c"
    using bitmap_csum_ok [OF assms(1)] vol_okD(6) [OF assms(1)] by (auto simp: vbm_def)
  obtain ok where ok: "ext4_balloc_verify_bitmap_csum (fs_sb fs) (vbg fs g) (vbm fs g) = Some ok"
    by (simp add: ext4_balloc_verify_bitmap_csum_def c)
  have "balloc_get_bitmap (gref (fs_sb fs) g) fs =
      (case r1 of Ret b \<Rightarrow> if ok then (Ret b, fs1) else (Err EIO, fs1) | Err e \<Rightarrow> (Err e, fs1) | Crash \<Rightarrow> (Crash, fs1))"
    using r1 g ok fs1
    by (auto simp: balloc_get_bitmap_def fs_bind_def fs_gets_def bgref_ops fs_on_error_def vbb_def [symmetric]
        blk_get_def fs_mem_def fs_ignore_def blk_release_def fs_return_def fs_fail_def vbm_def [symmetric]
        split: fsres.splits)
  with that [OF ok] r1 g show ?thesis by auto
qed

lemma get_bitmap_outcome:
  assumes "vol_ok fs" "g < vcnt fs" "balloc_get_bitmap (gref (fs_sb fs) g) fs = (r, fs')"
  shows "(\<exists>n. fs' = fs\<lparr>fs_calls := n\<rparr>) \<and>
    (r = Ret (vbb fs g) \<and> ext4_balloc_verify_bitmap_csum (fs_sb fs) (vbg fs g) (vbm fs g) = Some True \<or> (\<exists>e. r = Err e))"
proof -
  obtain ok where ok: "ext4_balloc_verify_bitmap_csum (fs_sb fs) (vbg fs g) (vbm fs g) = Some ok"
    and run: "balloc_get_bitmap (gref (fs_sb fs) g) fs = (case ext4_trans_block_get (vbb fs g) fs of
      (Ret b, fs1) \<Rightarrow> if ok then (Ret (vbb fs g), fs1) else (Err EIO, fs1) | (Err e, fs1) \<Rightarrow> (Err e, fs1) | (Crash, fs1) \<Rightarrow> (Crash, fs1))"
    by (rule get_bitmap_run [OF assms(1,2)])
  obtain r1 fs1 where g: "ext4_trans_block_get (vbb fs g) fs = (r1, fs1)" by fastforce
  from block_get_outcome [OF g] assms(3) run g ok show ?thesis by (auto split: if_splits)
qed

text \<open>A change of one group and of the superblock's counters that keeps the volume well-formed.\<close>

definition vol_chg :: "ext4_fs \<Rightarrow> u32 \<Rightarrow> ext4_fs \<Rightarrow> bool" where
  "vol_chg fs g fs' \<longleftrightarrow> vol_ok fs' \<and> (\<exists>c. fs_sb fs' = ext4_sb_set_free_blocks_cnt (fs_sb fs) c) \<and>
     (\<forall>h < vcnt fs. vbb fs' h = vbb fs h) \<and>
     (\<forall>h < vcnt fs. h \<noteq> g \<longrightarrow> vbg fs' h = vbg fs h \<and> vbm fs' h = vbm fs h) \<and>
     meta_block fs' = meta_block fs \<and> fs_answer fs' = fs_answer fs \<and> fs_lg_bcnt fs' = fs_lg_bcnt fs"

lemma set_free_get: "ext4_sb_set_free_blocks_cnt s (ext4_sb_get_free_blocks_cnt s) = s"
proof -
  have "ucast (drop_bit 32 (push_bit 32 (push_bit 32 (ucast a) OR ucast b :: u64))) = (b :: u32)"
    "ucast (drop_bit 32 (push_bit 32 (ucast a) OR ucast b :: u64)) = (a :: u32)" for a b
    by (rule bit_word_eqI; auto simp: bit_simps dest: bit_imp_le_length)+
  then show ?thesis by (simp add: ext4_sb_set_free_blocks_cnt_def ext4_sb_get_free_blocks_cnt_def)
qed

lemma set_free_free [simp]:
  "ext4_sb_set_free_blocks_cnt (ext4_sb_set_free_blocks_cnt s c) d = ext4_sb_set_free_blocks_cnt s d"
  by (simp add: ext4_sb_set_free_blocks_cnt_def)

lemma same_sb_free: "s' = s \<Longrightarrow> \<exists>c. s' = ext4_sb_set_free_blocks_cnt s c"
  using set_free_get [of s] by metis

lemma vol_chg_refl: "vol_ok fs \<Longrightarrow> vol_chg fs g fs"
  by (simp add: vol_chg_def same_sb_free)

lemma vol_chg_trans: "vol_chg a g b \<Longrightarrow> vol_chg b g c \<Longrightarrow> vol_chg a g c"
  unfolding vol_chg_def by auto

lemma vol_chgD:
  assumes "vol_chg fs g fs'"
  shows "vol_ok fs'" "vcnt fs' = vcnt fs" "meta_block fs' = meta_block fs"
    "h < vcnt fs \<Longrightarrow> vbb fs' h = vbb fs h" "h < vcnt fs \<Longrightarrow> h \<noteq> g \<Longrightarrow> vbg fs' h = vbg fs h"
    "h < vcnt fs \<Longrightarrow> h \<noteq> g \<Longrightarrow> vbm fs' h = vbm fs h"
    "ext4_sb_get_block_size (fs_sb fs') = ext4_sb_get_block_size (fs_sb fs)"
    "s_inode_size (fs_sb fs') = s_inode_size (fs_sb fs)" "gref (fs_sb fs') = gref (fs_sb fs)"
    "bg_wide (fs_sb fs') = bg_wide (fs_sb fs)"
  using assms unfolding vol_chg_def
  by (auto simp: gref_def fun_eq_iff bg_wide_def)

lemma vol_chg_calls [simp]: "vol_chg fs g (fs'\<lparr>fs_calls := n\<rparr>) = vol_chg fs g fs'"
  "vol_chg (fs\<lparr>fs_calls := n\<rparr>) g fs' = vol_chg fs g fs'"
  by (simp_all add: vol_chg_def)

subsection \<open>Storing a bitmap\<close>

lemma set_bitmap_csum_fields:
  assumes "ext4_balloc_set_bitmap_csum sb bg bm = Some bg'"
  shows "ext4_bg_get_block_bitmap bg' s = ext4_bg_get_block_bitmap bg s" "bg_flags bg' = bg_flags bg"
    "ext4_bg_get_free_blocks_count bg' s = ext4_bg_get_free_blocks_count bg s"
    "ext4_balloc_verify_bitmap_csum sb bg' bm = Some True"
  using assms
  by (auto simp: ext4_balloc_set_bitmap_csum_def ext4_balloc_verify_bitmap_csum_def bg_accessors Let_def
      split: option.splits if_splits)

lemma put_bitmap_spec:
  assumes "vol_ok fs" "g < vcnt fs" "length bm = unat (ext4_sb_get_block_size (fs_sb fs))"
  obtains fs' where "balloc_put_bitmap (gref (fs_sb fs) g) (vbb fs g) bm fs = (Ret (), fs')"
    "vol_chg fs g fs'" "fs_sb fs' = fs_sb fs" "vbm fs' g = bm"
    "ext4_bg_get_free_blocks_count (vbg fs' g) (fs_sb fs) = ext4_bg_get_free_blocks_count (vbg fs g) (fs_sb fs)"
    "ext4_balloc_verify_bitmap_csum (fs_sb fs) (vbg fs' g) bm = Some True"
proof -
  let ?sb = "fs_sb fs" and ?fs1 = "vput_blk fs (vbb fs g) bm"
  note p = vput_bitmap [OF assms]
  obtain c where "ext4_balloc_bitmap_csum ?sb bm = Some c" using bitmap_csum_ok [OF assms(1,3)] by blast
  then have "\<exists>bg. ext4_balloc_set_bitmap_csum ?sb (vbg fs g) bm = Some bg"
    unfolding ext4_balloc_set_bitmap_csum_def Let_def by simp
  then obtain bg where bg: "ext4_balloc_set_bitmap_csum ?sb (vbg fs g) bm = Some bg" ..
  note f = set_bitmap_csum_fields [OF bg]
  let ?fs2 = "vput_bg ?fs1 g bg"
  have bb: "ext4_bg_get_block_bitmap bg (fs_sb ?fs1) = vbb ?fs1 g" "bg_flags bg = bg_flags (vbg ?fs1 g)"
    using f(1,2) p(1,2) [OF assms(2)] by (simp_all add: vbb_def)
  have g1: "g < vcnt ?fs1" using assms(2) by simp
  note q = vput_desc [OF p(4) g1 bb]
  have run: "balloc_put_bitmap (gref ?sb g) (vbb fs g) bm fs = (Ret (), ?fs2)"
    using bg bgref_ops [of ?fs1 g] p(1) [OF assms(2)]
    by (simp add: balloc_put_bitmap_def fs_bind_def blk_put_def fs_modify_def vput_blk_def [symmetric] fs_gets_def
        fs_mem_def fs_on_error_def blk_release_def fs_return_def)
  have "vol_chg fs g ?fs2"
    using q p by (simp add: vol_chg_def same_sb_free)
  moreover have "vbm ?fs2 g = bm" using q(3) p(3) assms(2) by simp
  moreover have "vbg ?fs2 g = bg_cut ?sb bg" using q(1) assms(2) by simp
  ultimately show ?thesis
    using that [OF run] f(3,4) bg_cut_get(4,9) [OF vol_okD(2) [OF assms(1)]] by simp
qed

subsection \<open>The counters\<close>

definition iref_ok :: "ext4_fs \<Rightarrow> ext4_inode_ref \<Rightarrow> bool" where
  "iref_ok fs iref \<longleftrightarrow> \<not> meta_block fs (ir_block iref) \<and>
     ir_off iref + unat (s_inode_size (fs_sb fs)) \<le> unat (ext4_sb_get_block_size (fs_sb fs))"

lemma iref_ok_chg: "vol_chg fs g fs' \<Longrightarrow> iref_ok fs' iref = iref_ok fs iref"
  using vol_chgD(3,7,8) [of fs g fs'] by (simp add: iref_ok_def)

lemma inode_add_blocks_spec:
  assumes "vol_ok fs" "iref_ok fs iref"
  obtains fs' where "inode_add_blocks iref n fs = (Ret (iref\<lparr>ir_dirty := True\<rparr>), fs')"
    "vol_chg fs g fs'" "fs_sb fs' = fs_sb fs" "\<And>h. h < vcnt fs \<Longrightarrow> vbg fs' h = vbg fs h"
    "\<And>h. h < vcnt fs \<Longrightarrow> vbm fs' h = vbm fs h"
proof -
  let ?sb = "fs_sb fs"
  define ino where "ino = inode_at (ino_raw fs iref)"
  define new where "new = inode_store ?sb (ino_raw fs iref)
    (snd (ext4_inode_set_blocks_count ?sb ino (ext4_inode_get_blocks_count ?sb ino + n)))"
  define fs' where "fs' = vput_blk fs (ir_block iref) (put_bytes (fs_blk fs (ir_block iref)) (ir_off iref) new)"
  have room: "ir_off iref + unat (s_inode_size ?sb) \<le> length (fs_blk fs (ir_block iref))"
    using assms(2) vol_okD(6) [OF assms(1)] by (simp add: iref_ok_def)
  then have "length (ino_raw fs iref) = unat (s_inode_size ?sb)" by (simp add: ino_raw_def)
  then have "length new = unat (s_inode_size ?sb)" by (simp add: new_def inode_store_def put_bytes_def)
  then have len: "length (put_bytes (fs_blk fs (ir_block iref)) (ir_off iref) new) = unat (ext4_sb_get_block_size ?sb)"
    using room vol_okD(6) [OF assms(1)] by simp
  note p = vput_blk_data [OF assms(1) _ len, folded fs'_def]
  have nm: "\<not> meta_block fs (ir_block iref)" using assms(2) by (simp add: iref_ok_def)
  have "inode_add_blocks iref n fs = (Ret (iref\<lparr>ir_dirty := True\<rparr>), fs')"
    by (simp add: inode_add_blocks_def fs_bind_def fs_gets_def inoref_get_def inoref_put_def ino_write_raw_def
        fs_modify_def fs_return_def fs'_def vput_blk_def new_def ino_def)
  moreover have "vol_chg fs g fs'" using p [OF nm] by (simp add: vol_chg_def same_sb_free fs'_def)
  ultimately show ?thesis using that p [OF nm] by (simp add: fs'_def)
qed

lemma bg_free_count_pred:
  assumes "ext4_bg_get_free_blocks_count bg s \<noteq> 0"
  shows "ext4_bg_get_free_blocks_count (ext4_bg_set_free_blocks_count bg s (ext4_bg_get_free_blocks_count bg s + - 1)) s =
    ext4_bg_get_free_blocks_count bg s - 1"
proof (cases "bg_wide s")
  case True
  then show ?thesis by (simp add: bg_count_roundtrip(1))
next
  case False
  let ?c = "ext4_bg_get_free_blocks_count bg s"
  have "?c = ucast (bg_free_blocks_count_lo bg)"
    using False by (simp add: ext4_bg_get_free_blocks_count_def bg_wide_def)
  then have "unat ?c < 2 ^ 16" using unsigned_less [of "bg_free_blocks_count_lo bg"] by simp
  then have "unat (?c - 1) < 2 ^ 16" using assms by (subst unat_minus_one) auto
  moreover have "(?c - 1) AND 0xFFFF = take_bit 16 (?c - 1)"
    by (simp add: take_bit_eq_mask mask_eq_exp_minus_1)
  ultimately have "(?c - 1) AND 0xFFFF = ?c - 1"
    by (simp add: word_unat_eq_iff take_bit_eq_mod unat_mod)
  with False show ?thesis by (simp add: bg_count_roundtrip(1))
qed

lemma bgref_upd_spec:
  assumes "vol_ok fs" "g < vcnt fs"
    and "ext4_bg_get_block_bitmap (f (vbg fs g)) (fs_sb fs) = vbb fs g" "bg_flags (f (vbg fs g)) = bg_flags (vbg fs g)"
  obtains fs' where "bgref_upd (gref (fs_sb fs) g) f fs = (Ret (), fs')" "vol_chg fs g fs'" "fs_sb fs' = fs_sb fs"
    "vbm fs' g = vbm fs g" "vbg fs' g = bg_cut (fs_sb fs) (f (vbg fs g))"
proof -
  note p = vput_desc [OF assms]
  have "bgref_upd (gref (fs_sb fs) g) f fs = (Ret (), vput_bg fs g (f (vbg fs g)))"
    by (simp add: bgref_upd_def fs_bind_def bgref_ops)
  moreover have "vol_chg fs g (vput_bg fs g (f (vbg fs g)))" using p by (simp add: vol_chg_def same_sb_free)
  ultimately show ?thesis using that p(1,3) [OF assms(2)] by simp
qed

lemma bgref_dirty [simp]:
  "bgref_upd (ref\<lparr>bgr_dirty := b\<rparr>) = bgref_upd ref"
  by (simp add: bgref_upd_def bgref_get_def bgref_put_def fun_eq_iff)

lemma bg_cut_verify:
  assumes "desc_ok sb"
  shows "ext4_fs_verify_bg_csum sb g (bg_cut sb bg) = ext4_fs_verify_bg_csum sb g bg"
proof -
  have "take (unat (ext4_sb_get_desc_size sb)) (bgroup_bytes ((bg_cut sb bg)\<lparr>bg_checksum := 0\<rparr>)) =
      take (unat (ext4_sb_get_desc_size sb)) (bgroup_bytes (bg\<lparr>bg_checksum := 0\<rparr>))"
    using assms by (auto simp: desc_ok_def bg_cut_def bgroup_bytes_def)
  moreover have "bg_checksum (bg_cut sb bg) = bg_checksum bg" by (simp add: bg_cut_def)
  ultimately show ?thesis
    by (simp add: ext4_fs_verify_bg_csum_def ext4_fs_bg_checksum_def Let_def)
qed

lemma put_ref_spec:
  assumes "vol_ok fs" "g < vcnt fs"
  obtains fs' where "ext4_fs_put_block_group_ref ((gref (fs_sb fs) g)\<lparr>bgr_dirty := True\<rparr>) fs = (Ret (), fs')"
    "vol_chg fs g fs'" "fs_sb fs' = fs_sb fs" "vbm fs' g = vbm fs g"
    "ext4_bg_get_free_blocks_count (vbg fs' g) (fs_sb fs) = ext4_bg_get_free_blocks_count (vbg fs g) (fs_sb fs)"
    "ext4_balloc_verify_bitmap_csum (fs_sb fs) (vbg fs' g) bm = ext4_balloc_verify_bitmap_csum (fs_sb fs) (vbg fs g) bm"
    "ext4_fs_verify_bg_csum (fs_sb fs) g (vbg fs' g)"
proof -
  let ?f = "\<lambda>bg. ext4_bg_set_checksum bg (ext4_fs_bg_checksum (fs_sb fs) g bg)"
  have acc: "ext4_bg_get_block_bitmap (?f bg) s = ext4_bg_get_block_bitmap bg s" "bg_flags (?f bg) = bg_flags bg"
    "ext4_bg_get_free_blocks_count (?f bg) s = ext4_bg_get_free_blocks_count bg s"
    "ext4_balloc_verify_bitmap_csum s (?f bg) bm = ext4_balloc_verify_bitmap_csum s bg bm" for bg s
    unfolding ext4_bg_set_checksum_def bg_accessors ext4_balloc_verify_bitmap_csum_def Let_def
    by (simp_all split: option.split)
  note d = vol_okD(2) [OF assms(1)]
  obtain fs' where u: "bgref_upd (gref (fs_sb fs) g) ?f fs = (Ret (), fs')" "vol_chg fs g fs'" "fs_sb fs' = fs_sb fs"
    "vbm fs' g = vbm fs g" "vbg fs' g = bg_cut (fs_sb fs) (?f (vbg fs g))"
    by (rule bgref_upd_spec [OF assms, of ?f]) (simp_all add: acc vbb_def)
  have "ext4_fs_put_block_group_ref ((gref (fs_sb fs) g)\<lparr>bgr_dirty := True\<rparr>) fs = (Ret (), fs')"
    using u(1) by (simp add: ext4_fs_put_block_group_ref_def fs_bind_def fs_gets_def blk_release_def fs_return_def)
  then show ?thesis
    using that u acc bg_cut_get(4,9) [OF d] bg_cut_verify [OF d] bg_checksum_verifies by simp
qed

lemma bg_add_free_spec:
  assumes "vol_ok fs" "g < vcnt fs"
  obtains fs' where "bg_add_free_blocks (gref (fs_sb fs) g) n fs = (Ret (), fs')" "vol_chg fs g fs'"
    "fs_sb fs' = fs_sb fs" "vbm fs' g = vbm fs g"
    "ext4_bg_get_free_blocks_count (vbg fs' g) (fs_sb fs) =
       ext4_bg_get_free_blocks_count (ext4_bg_set_free_blocks_count (vbg fs g) (fs_sb fs)
         (ext4_bg_get_free_blocks_count (vbg fs g) (fs_sb fs) + n)) (fs_sb fs)"
    "ext4_balloc_verify_bitmap_csum (fs_sb fs) (vbg fs' g) bm = ext4_balloc_verify_bitmap_csum (fs_sb fs) (vbg fs g) bm"
proof -
  let ?f = "\<lambda>bg. ext4_bg_set_free_blocks_count bg (fs_sb fs) (ext4_bg_get_free_blocks_count bg (fs_sb fs) + n)"
  have acc: "ext4_bg_get_block_bitmap (?f bg) s = ext4_bg_get_block_bitmap bg s" "bg_flags (?f bg) = bg_flags bg"
    "ext4_balloc_verify_bitmap_csum s (?f bg) bm = ext4_balloc_verify_bitmap_csum s bg bm" for bg s
    unfolding bg_accessors ext4_balloc_verify_bitmap_csum_def Let_def by (simp_all split: option.split)
  obtain fs' where "bgref_upd (gref (fs_sb fs) g) ?f fs = (Ret (), fs')" "vol_chg fs g fs'" "fs_sb fs' = fs_sb fs"
    "vbm fs' g = vbm fs g" "vbg fs' g = bg_cut (fs_sb fs) (?f (vbg fs g))"
    by (rule bgref_upd_spec [OF assms, of ?f]) (simp_all add: acc vbb_def)
  then show ?thesis
    using that acc bg_cut_get(4,9) [OF vol_okD(2) [OF assms(1)]]
    by (simp add: bg_add_free_blocks_def fs_bind_def fs_gets_def)
qed

text \<open>The three counters that every allocation and every release updates, in this order.\<close>

lemma counters_spec:
  assumes "vol_ok fs" "g < vcnt fs" "iref_ok fs iref"
  obtains fs1 fs2 fs3 where "sb_add_free_blocks c fs = (Ret (), fs1)" "fs_sb fs1 = ext4_sb_set_free_blocks_cnt (fs_sb fs) (ext4_sb_get_free_blocks_cnt (fs_sb fs) + c)"
    "inode_add_blocks iref m fs1 = (Ret (iref\<lparr>ir_dirty := True\<rparr>), fs2)" "fs_sb fs2 = fs_sb fs1"
    "bg_add_free_blocks (gref (fs_sb fs) g) n fs2 = (Ret (), fs3)" "fs_sb fs3 = fs_sb fs2"
    "vol_chg fs g fs3" "vbm fs3 g = vbm fs g"
    "ext4_bg_get_free_blocks_count (vbg fs3 g) (fs_sb fs) =
       ext4_bg_get_free_blocks_count (ext4_bg_set_free_blocks_count (vbg fs g) (fs_sb fs)
         (ext4_bg_get_free_blocks_count (vbg fs g) (fs_sb fs) + n)) (fs_sb fs)"
    "ext4_balloc_verify_bitmap_csum (fs_sb fs) (vbg fs3 g) bm = ext4_balloc_verify_bitmap_csum (fs_sb fs) (vbg fs g) bm"
proof -
  let ?sb = "fs_sb fs"
  let ?fs1 = "vput_free fs (ext4_sb_get_free_blocks_cnt ?sb + c)"
  have r1: "sb_add_free_blocks c fs = (Ret (), ?fs1)"
    by (simp add: sb_add_free_blocks_def fs_modify_def vput_free_def)
  have c1: "vol_chg fs g ?fs1" using assms(1) by (auto simp: vol_chg_def)
  note d1 = vol_chgD [OF c1]
  have i1: "iref_ok ?fs1 iref" using iref_ok_chg [OF c1] assms(3) by simp
  obtain fs2 where r2: "inode_add_blocks iref m ?fs1 = (Ret (iref\<lparr>ir_dirty := True\<rparr>), fs2)"
    and c2: "vol_chg ?fs1 g fs2" and s2: "fs_sb fs2 = fs_sb ?fs1"
    and b2: "vbg fs2 g = vbg ?fs1 g" "vbm fs2 g = vbm ?fs1 g"
    using inode_add_blocks_spec [OF d1(1) i1] assms(2) by (metis d1(2))
  note d2 = vol_chgD [OF vol_chg_trans [OF c1 c2]]
  have g2: "g < vcnt fs2" using assms(2) d2(2) by simp
  obtain fs3 where r3: "bg_add_free_blocks (gref (fs_sb fs2) g) n fs2 = (Ret (), fs3)" and c3: "vol_chg fs2 g fs3"
    and s3: "fs_sb fs3 = fs_sb fs2" and m3: "vbm fs3 g = vbm fs2 g"
    and f3: "ext4_bg_get_free_blocks_count (vbg fs3 g) (fs_sb fs2) =
       ext4_bg_get_free_blocks_count (ext4_bg_set_free_blocks_count (vbg fs2 g) (fs_sb fs2)
         (ext4_bg_get_free_blocks_count (vbg fs2 g) (fs_sb fs2) + n)) (fs_sb fs2)"
    and v3: "ext4_balloc_verify_bitmap_csum (fs_sb fs2) (vbg fs3 g) bm = ext4_balloc_verify_bitmap_csum (fs_sb fs2) (vbg fs2 g) bm"
    by (rule bg_add_free_spec [OF d2(1) g2])
  have "vol_chg fs g fs3" using c1 c2 c3 by (blast intro: vol_chg_trans)
  moreover have "bg_add_free_blocks (gref ?sb g) n fs2 = (Ret (), fs3)" using r3 d2(9) by simp
  moreover have "vbm fs3 g = vbm fs g" using m3 b2 by simp
  ultimately show ?thesis using that [OF r1 _ r2] s2 s3 f3 v3 b2 by simp
qed

lemma alloc_success_spec:
  assumes "vol_ok fs" "g < vcnt fs" "iref_ok fs iref"
    and nz: "ext4_bg_get_free_blocks_count (vbg fs g) (fs_sb fs) \<noteq> 0"
  obtains fs' where "alloc_success iref (gref (fs_sb fs) g) a fs = (Ret (iref\<lparr>ir_dirty := True\<rparr>, a), fs')"
    "vol_chg fs g fs'" "vbm fs' g = vbm fs g"
    "ext4_bg_get_free_blocks_count (vbg fs' g) (fs_sb fs) = ext4_bg_get_free_blocks_count (vbg fs g) (fs_sb fs) - 1"
    "ext4_sb_get_free_blocks_cnt (fs_sb fs') = ext4_sb_get_free_blocks_cnt (fs_sb fs) - 1"
    "ext4_balloc_verify_bitmap_csum (fs_sb fs) (vbg fs' g) bm = ext4_balloc_verify_bitmap_csum (fs_sb fs) (vbg fs g) bm"
    "ext4_fs_verify_bg_csum (fs_sb fs') g (vbg fs' g)"
proof -
  let ?sb = "fs_sb fs"
  obtain fs1 fs2 fs3 where r1: "sb_add_free_blocks (- 1) fs = (Ret (), fs1)"
    and s1: "fs_sb fs1 = ext4_sb_set_free_blocks_cnt ?sb (ext4_sb_get_free_blocks_cnt ?sb + - 1)"
    and r2: "inode_add_blocks iref (ucast (ext4_sb_get_block_size ?sb div EXT4_INODE_BLOCK_SIZE)) fs1 =
      (Ret (iref\<lparr>ir_dirty := True\<rparr>), fs2)" and s2: "fs_sb fs2 = fs_sb fs1"
    and r3: "bg_add_free_blocks (gref ?sb g) (- 1) fs2 = (Ret (), fs3)" and s3: "fs_sb fs3 = fs_sb fs2"
    and c3: "vol_chg fs g fs3" and m3: "vbm fs3 g = vbm fs g"
    and f3: "ext4_bg_get_free_blocks_count (vbg fs3 g) ?sb =
       ext4_bg_get_free_blocks_count (ext4_bg_set_free_blocks_count (vbg fs g) ?sb
         (ext4_bg_get_free_blocks_count (vbg fs g) ?sb + - 1)) ?sb"
    and v3: "ext4_balloc_verify_bitmap_csum ?sb (vbg fs3 g) bm = ext4_balloc_verify_bitmap_csum ?sb (vbg fs g) bm"
    by (rule counters_spec [OF assms(1-3)])
  note d3 = vol_chgD [OF c3]
  have g3: "g < vcnt fs3" using assms(2) d3(2) by simp
  obtain fs4 where r4: "ext4_fs_put_block_group_ref ((gref (fs_sb fs3) g)\<lparr>bgr_dirty := True\<rparr>) fs3 = (Ret (), fs4)"
    and c4: "vol_chg fs3 g fs4" and s4: "fs_sb fs4 = fs_sb fs3" and m4: "vbm fs4 g = vbm fs3 g"
    and f4: "ext4_bg_get_free_blocks_count (vbg fs4 g) (fs_sb fs3) = ext4_bg_get_free_blocks_count (vbg fs3 g) (fs_sb fs3)"
    and v4: "ext4_balloc_verify_bitmap_csum (fs_sb fs3) (vbg fs4 g) bm = ext4_balloc_verify_bitmap_csum (fs_sb fs3) (vbg fs3 g) bm"
    and k4: "ext4_fs_verify_bg_csum (fs_sb fs3) g (vbg fs4 g)"
    by (rule put_ref_spec [OF d3(1) g3])
  have run: "alloc_success iref (gref ?sb g) a fs = (Ret (iref\<lparr>ir_dirty := True\<rparr>, a), fs4)"
    using r1 r2 r3 r4 d3(9) by (simp add: alloc_success_def fs_bind_def fs_gets_def fs_return_def)
  have free: "ext4_bg_get_free_blocks_count (vbg fs4 g) ?sb = ext4_bg_get_free_blocks_count (vbg fs g) ?sb - 1"
    using f3 f4 s1 s2 s3 bg_free_count_pred [OF nz] by simp
  have "ext4_balloc_verify_bitmap_csum ?sb (vbg fs4 g) bm = ext4_balloc_verify_bitmap_csum ?sb (vbg fs g) bm"
    using v4 v3 s1 s2 s3 by simp
  moreover have "ext4_sb_get_free_blocks_cnt (fs_sb fs4) = ext4_sb_get_free_blocks_cnt ?sb - 1"
    using s1 s2 s3 s4 get_set_free by simp
  ultimately show ?thesis using that [OF run vol_chg_trans [OF c3 c4] _ free] m4 m3 k4 s4 by simp
qed

subsection \<open>Choosing a bit\<close>

definition pick_ok :: "(bytes \<Rightarrow> u32 option option) \<Rightarrow> nat \<Rightarrow> nat \<Rightarrow> bool" where
  "pick_ok pick size1 lim \<longleftrightarrow> lim \<le> 8 * size1 \<and> (\<forall>bm. length bm = size1 \<longrightarrow> pick bm \<noteq> None \<and>
     (\<forall>i. pick bm = Some (Some i) \<longrightarrow> unat i < lim \<and> \<not> bm_bit bm (unat i)))"

lemma pick_first_ok: "unat e \<le> 8 * n \<Longrightarrow> pick_ok (\<lambda>bm. pick_first bm st e) n (unat e)"
  using find_clr_Found_in_range
  by (auto simp: pick_ok_def pick_first_def find_clr_eq_first_clr word_less_nat_alt
      split: option.splits find_res.splits)

lemma scan_near_spec:
  assumes "unat i + n \<le> 8 * length bm" "unat i + n < 2 ^ 32"
  shows "\<exists>c. scan_near n i bm = Some c \<and>
    (\<forall>j. c = Some j \<longrightarrow> unat i \<le> unat j \<and> unat j < unat i + n \<and> \<not> bm_bit bm (unat j))"
  using assms
proof (induction n arbitrary: i)
  case (Suc n)
  have i1: "unat (i + 1) = unat i + 1" using Suc.prems(2) by (intro unat_Suc_word) simp
  have "ext4_bmap_is_bit_clr bm i = Some (\<not> bm_bit bm (unat i))"
    using Suc.prems(1) by (simp add: is_bit_clr_eq)
  with Suc.IH [of "i + 1"] Suc.prems i1 show ?case by (cases "bm_bit bm (unat i)") auto
qed simp

lemma pick_near_goal_ok:
  assumes "unat idx < unat e" "unat e \<le> 8 * n" "8 * n < 2 ^ 31"
  shows "pick_ok (\<lambda>bm. pick_near_goal bm idx e) n (unat e)"
  unfolding pick_ok_def
proof (intro conjI allI impI)
  show "unat e \<le> 8 * n" by fact
  fix bm :: bytes assume len: "length bm = n"
  have idx: "ext4_bmap_is_bit_clr bm idx = Some (\<not> bm_bit bm (unat idx))"
    using assms len by (simp add: is_bit_clr_eq)
  define en where "en = (let en = (idx + 63) AND NOT 63 in if e < en then e else en)"
  have en: "unat en \<le> unat e" by (auto simp: en_def Let_def word_less_nat_alt)
  have i1: "unat (idx + 1) = unat idx + 1" using assms by (intro unat_Suc_word) simp
  have "\<exists>c. scan_near (unat en - unat (idx + 1)) (idx + 1) bm = Some c \<and>
      (\<forall>j. c = Some j \<longrightarrow> unat (idx + 1) \<le> unat j \<and> unat j < unat (idx + 1) + (unat en - unat (idx + 1)) \<and> \<not> bm_bit bm (unat j))"
    using assms en i1 len by (intro scan_near_spec) simp_all
  then obtain c where sc: "scan_near (unat en - unat (idx + 1)) (idx + 1) bm = Some c"
    and c: "\<And>j. c = Some j \<Longrightarrow> unat (idx + 1) \<le> unat j \<and> unat j < unat (idx + 1) + (unat en - unat (idx + 1)) \<and> \<not> bm_bit bm (unat j)"
    by blast
  have fc: "ext4_bmap_bit_find_clr bm idx e = Some (first_clr bm (unat idx) (unat e))"
    using assms len by (intro find_clr_eq_first_clr) simp
  have eq: "pick_near_goal bm idx e = (if \<not> bm_bit bm (unat idx) then Some (Some idx)
      else case c of Some i \<Rightarrow> Some (Some i) | None \<Rightarrow> (case first_clr bm (unat idx) (unat e) of
        Found i \<Rightarrow> Some (Some i) | NoSpace \<Rightarrow> Some None))"
    unfolding pick_near_goal_def idx using sc fc by (simp add: en_def Let_def split: option.split)
  show "pick_near_goal bm idx e \<noteq> None" unfolding eq by (simp split: option.split find_res.split)
  fix i assume i: "pick_near_goal bm idx e = Some (Some i)"
  show "unat i < unat e" "\<not> bm_bit bm (unat i)"
    using i c [of i] assms(1) en find_clr_Found_in_range [of bm idx e i] fc assms(2) len unfolding eq
    by (auto simp: word_less_nat_alt split: if_splits option.splits find_res.splits)
qed

lemma blocks_in_group_bound:
  assumes "vol_ok fs" "g < vcnt fs"
  shows "unat (ext4_blocks_in_group_cnt (fs_sb fs) g) =
      (if unat g < unat (vcnt fs) - 1 then unat (s_blocks_per_group (fs_sb fs))
       else unat (ext4_sb_get_blocks_cnt (fs_sb fs)) - (unat (vcnt fs) - 1) * unat (s_blocks_per_group (fs_sb fs)))"
    and "unat (ext4_blocks_in_group_cnt (fs_sb fs) g) \<le> unat (s_blocks_per_group (fs_sb fs))"
    and "unat (vcnt fs) = (unat (ext4_sb_get_blocks_cnt (fs_sb fs)) + unat (s_blocks_per_group (fs_sb fs)) - 1) div unat (s_blocks_per_group (fs_sb fs))"
proof -
  let ?s = "fs_sb fs"
  let ?B = "unat (ext4_sb_get_blocks_cnt ?s)" and ?p = "unat (s_blocks_per_group ?s)" and ?n = "unat (vcnt fs)"
  note v = vol_okD [OF assms(1)]
  have p: "0 < ?p" using v(1) by (simp add: sb_geometry_def Let_def)
  have B: "0 < ?B" using v(5) by (simp add: word_less_nat_alt)
  have pz: "s_blocks_per_group ?s \<noteq> 0" "ext4_sb_get_blocks_cnt ?s \<noteq> 0" using p B by auto
  have "?B div ?p \<le> ?B div 8" using v(1) by (intro div_le_mono2) (simp_all add: sb_geometry_def Let_def)
  then have fits: "?B div ?p < 2 ^ 32 - 1" using v(4) by simp
  show n: "?n = (?B + ?p - 1) div ?p" by (rule block_group_cnt_nat [OF pz(1) fits])
  show eq: "unat (ext4_blocks_in_group_cnt ?s g) = (if unat g < ?n - 1 then ?p else ?B - (?n - 1) * ?p)"
    using blocks_in_group_nat [OF pz fits, of "unat g"] assms(2) by (simp add: word_less_nat_alt)
  have n1: "?n - 1 = (?B - 1) div ?p" unfolding n ceil_div_Suc [OF B p] by simp
  have "?B - 1 < ((?B - 1) div ?p) * ?p + ?p"
    using div_mult_mod_eq [of "?B - 1" ?p] mod_less_divisor [OF p, of "?B - 1"] by linarith
  then have "?B - (?n - 1) * ?p \<le> ?p" unfolding n1 by linarith
  with eq show "unat (ext4_blocks_in_group_cnt ?s g) \<le> ?p" by simp
qed

subsection \<open>Allocating in one group\<close>

text \<open>What taking bit \<open>i\<close> of group \<open>g\<close> does: that bit was clear and the bitmap verified; afterwards the
  bit is set, the bitmap and the descriptor verify, both counters are one less, and no other group has
  changed.\<close>

definition took :: "ext4_fs \<Rightarrow> u32 \<Rightarrow> u32 \<Rightarrow> ext4_fs \<Rightarrow> bool" where
  "took fs g i fs' \<longleftrightarrow> vol_chg fs g fs' \<and> unat i < 8 * length (vbm fs g) \<and> \<not> bm_bit (vbm fs g) (unat i) \<and>
     ext4_balloc_verify_bitmap_csum (fs_sb fs) (vbg fs g) (vbm fs g) = Some True \<and>
     vbm fs' g = bm_upd (vbm fs g) (unat i) True \<and>
     ext4_balloc_verify_bitmap_csum (fs_sb fs) (vbg fs' g) (vbm fs' g) = Some True \<and>
     ext4_fs_verify_bg_csum (fs_sb fs') g (vbg fs' g) \<and>
     0 < ext4_bg_get_free_blocks_count (vbg fs g) (fs_sb fs) \<and>
     ext4_bg_get_free_blocks_count (vbg fs' g) (fs_sb fs) = ext4_bg_get_free_blocks_count (vbg fs g) (fs_sb fs) - 1 \<and>
     ext4_sb_get_free_blocks_cnt (fs_sb fs') = ext4_sb_get_free_blocks_cnt (fs_sb fs) - 1"

lemma took_calls [simp]: "took (fs\<lparr>fs_calls := n\<rparr>) g i fs' = took fs g i fs'"
  by (simp add: took_def)

lemma alloc_in_group_outcome:
  assumes ok: "vol_ok fs" "g < vcnt fs" "iref_ok fs iref"
    and pick: "pick_ok pick (unat (ext4_sb_get_block_size (fs_sb fs))) lim"
    and run: "alloc_in_group pick (gref (fs_sb fs) g) fs = (r, fs')"
  shows "(r = Ret None \<or> (\<exists>e. r = Err e)) \<and> (\<exists>n. fs' = fs\<lparr>fs_calls := n\<rparr>) \<or>
    (\<exists>i fs''. r = Ret (Some (ext4_fs_bg_idx_to_addr (fs_sb fs) i g)) \<and> unat i < lim \<and> took fs g i fs'' \<and>
       alloc_success iref (gref (fs_sb fs) g) a fs' = (Ret (iref\<lparr>ir_dirty := True\<rparr>, a), fs''))"
proof (cases "ext4_bg_get_free_blocks_count (vbg fs g) (fs_sb fs) = 0")
  case True
  then have "r = Ret None" "fs' = fs"
    using run by (simp_all add: alloc_in_group_def fs_bind_def fs_gets_def bgref_ops fs_return_def)
  then show ?thesis using calls_self by blast
next
  case nz: False
  let ?sb = "fs_sb fs" and ?bm = "vbm fs g"
  obtain r1 fs1 where gb: "balloc_get_bitmap (gref ?sb g) fs = (r1, fs1)" by fastforce
  from get_bitmap_outcome [OF ok(1,2) gb] obtain n where fs1: "fs1 = fs\<lparr>fs_calls := n\<rparr>"
    and r1: "r1 = Ret (vbb fs g) \<and> ext4_balloc_verify_bitmap_csum ?sb (vbg fs g) ?bm = Some True \<or> (\<exists>e. r1 = Err e)"
    by blast
  note run' = run [unfolded alloc_in_group_def fs_bind_def fs_gets_def bgref_ops fsres.case prod.case if_not_P [OF nz] gb]
  show ?thesis
  proof (cases "\<exists>e. r1 = Err e")
    case True
    then show ?thesis using run' fs1 by auto
  next
    case False
    with r1 have r1: "r1 = Ret (vbb fs g)" and ver: "ext4_balloc_verify_bitmap_csum ?sb (vbg fs g) ?bm = Some True"
      by auto
    have len: "length ?bm = unat (ext4_sb_get_block_size ?sb)" by (simp add: vbm_def vol_okD(6) [OF ok(1)])
    have bm: "fs_blk fs (vbb fs g) = ?bm" by (simp add: vbm_def)
    from pick len obtain c where c: "pick ?bm = Some c" by (auto simp: pick_ok_def)
    show ?thesis
    proof (cases c)
      case None
      then have "r = Ret None" "fs' = fs1"
        using run' r1 c fs1 bm by (simp_all add: blk_get_def fs_gets_def fs_mem_def fs_on_error_def blk_release_def fs_return_def)
      then show ?thesis using fs1 by blast
    next
      case (Some i)
      with pick len c have i: "unat i < lim" "\<not> bm_bit ?bm (unat i)" "unat i < 8 * length ?bm"
        by (auto simp: pick_ok_def)
      let ?bm' = "bm_upd ?bm (unat i) True"
      have set: "ext4_bmap_bit_set ?bm i = Some ?bm'" using i(3) by (simp add: bit_set_eq)
      have fs1_ok: "vol_ok fs1" "g < vcnt fs1" "length ?bm' = unat (ext4_sb_get_block_size (fs_sb fs1))"
        using ok len fs1 by simp_all
      obtain fs2 where r2: "balloc_put_bitmap (gref (fs_sb fs1) g) (vbb fs1 g) ?bm' fs1 = (Ret (), fs2)"
        and c2: "vol_chg fs1 g fs2" "fs_sb fs2 = fs_sb fs1" "vbm fs2 g = ?bm'"
        and f2: "ext4_bg_get_free_blocks_count (vbg fs2 g) (fs_sb fs1) = ext4_bg_get_free_blocks_count (vbg fs1 g) (fs_sb fs1)"
        and v2: "ext4_balloc_verify_bitmap_csum (fs_sb fs1) (vbg fs2 g) ?bm' = Some True"
        by (rule put_bitmap_spec [OF fs1_ok])
      have res: "r = Ret (Some (ext4_fs_bg_idx_to_addr ?sb i g))" "fs' = fs2"
        using run' r1 c Some set r2 bm unfolding fs1
        by (simp_all add: blk_get_def fs_gets_def fs_mem_def fs_return_def)
      have c2': "vol_chg fs g fs2" "fs_sb fs2 = ?sb" using c2 fs1 by simp_all
      note d2 = vol_chgD [OF c2'(1)]
      have pre: "vol_ok fs2" "g < vcnt fs2" "iref_ok fs2 iref"
        "ext4_bg_get_free_blocks_count (vbg fs2 g) (fs_sb fs2) \<noteq> 0"
        using d2(1,2) ok(2,3) iref_ok_chg [OF c2'(1)] f2 fs1 c2(2) nz by simp_all
      obtain fs3 where s3: "alloc_success iref (gref (fs_sb fs2) g) a fs2 = (Ret (iref\<lparr>ir_dirty := True\<rparr>, a), fs3)"
        and c3: "vol_chg fs2 g fs3" "vbm fs3 g = vbm fs2 g"
        and f3: "ext4_bg_get_free_blocks_count (vbg fs3 g) (fs_sb fs2) = ext4_bg_get_free_blocks_count (vbg fs2 g) (fs_sb fs2) - 1"
          "ext4_sb_get_free_blocks_cnt (fs_sb fs3) = ext4_sb_get_free_blocks_cnt (fs_sb fs2) - 1"
        and v3: "ext4_balloc_verify_bitmap_csum (fs_sb fs2) (vbg fs3 g) ?bm' = ext4_balloc_verify_bitmap_csum (fs_sb fs2) (vbg fs2 g) ?bm'"
          "ext4_fs_verify_bg_csum (fs_sb fs3) g (vbg fs3 g)"
        by (rule alloc_success_spec [OF pre])
      have "took fs g i fs3"
        unfolding took_def using vol_chg_trans [OF c2'(1) c3(1)] i(2,3) ver c3(2) c2(3) v3 v2 f3 f2 c2'(2) fs1 nz
        by (simp add: word_gt_0)
      then show ?thesis using res i(1) s3 c2'(2) by auto
    qed
  qed
qed

subsection \<open>Addresses\<close>

lemma group_span:
  assumes "vol_ok fs" "g < vcnt fs" "n < unat (ext4_blocks_in_group_cnt (fs_sb fs) g)"
  shows "unat g * unat (s_blocks_per_group (fs_sb fs)) + n < unat (ext4_sb_get_blocks_cnt (fs_sb fs))"
    and "n < unat (s_blocks_per_group (fs_sb fs))"
proof -
  let ?B = "unat (ext4_sb_get_blocks_cnt (fs_sb fs))" and ?p = "unat (s_blocks_per_group (fs_sb fs))"
  let ?n = "unat (vcnt fs)"
  note b = blocks_in_group_bound [OF assms(1,2)]
  show "n < ?p" using assms(3) b(2) by simp
  have p: "0 < ?p" using \<open>n < ?p\<close> by simp
  have B: "0 < ?B" using vol_okD(5) [OF assms(1)] by (simp add: word_less_nat_alt)
  have n1: "?n - 1 = (?B - 1) div ?p" unfolding b(3) ceil_div_Suc [OF B p] by simp
  have lo: "(?n - 1) * ?p \<le> ?B - 1" unfolding n1 by simp
  show "unat g * ?p + n < ?B"
  proof (cases "unat g < ?n - 1")
    case True
    then have "(unat g + 1) * ?p \<le> (?n - 1) * ?p" by (intro mult_le_mono1) simp
    then have "unat g * ?p + ?p \<le> (?n - 1) * ?p" by simp
    then show ?thesis using lo \<open>n < ?p\<close> B by linarith
  next
    case False
    then have "unat g = ?n - 1" using assms(2) by (simp add: word_less_nat_alt)
    then show ?thesis using False assms(3) b(1) by simp
  qed
qed

lemma first_data_cases: "vol_ok fs \<Longrightarrow> s_first_data_block (fs_sb fs) = 0 \<or> s_first_data_block (fs_sb fs) = 1"
  using vol_okD(1) [of fs] by (auto simp: sb_geometry_def Let_def split: if_splits)

lemma idx_to_addr_nat:
  assumes "vol_ok fs" "g < vcnt fs" "unat i < unat (ext4_blocks_in_group_cnt (fs_sb fs) g)"
  shows "unat (ext4_fs_bg_idx_to_addr (fs_sb fs) i g) =
    unat g * unat (s_blocks_per_group (fs_sb fs)) + unat i + unat (s_first_data_block (fs_sb fs))"
proof -
  let ?p = "unat (s_blocks_per_group (fs_sb fs))"
  note sp = group_span [OF assms(1,2,3)]
  have lt: "unat g * ?p + unat i + 1 < 2 ^ 32 + 1" using sp(1) vol_okD(4) [OF assms(1)] by linarith
  have m: "unat (s_blocks_per_group (fs_sb fs) * g) = unat g * ?p"
    using lt by (subst unat_word_ariths) (simp add: mult.commute mod_less)
  show ?thesis
    using first_data_cases [OF assms(1)]
  proof
    assume f: "s_first_data_block (fs_sb fs) = 0"
    then show ?thesis
      using lt by (simp add: ext4_fs_bg_idx_to_addr_def) (subst unat_word_ariths, simp add: m)
  next
    assume f: "s_first_data_block (fs_sb fs) = 1"
    have B: "unat g * ?p + unat i + 1 < 2 ^ 32" using sp(1) vol_okD(4) [OF assms(1)] by linarith
    have i1: "unat (i + 1) = unat i + 1" using B by (intro unat_Suc_word) simp
    show ?thesis
      using B f by (simp add: ext4_fs_bg_idx_to_addr_def) (subst unat_word_ariths, simp add: m i1)
  qed
qed

lemma addr_roundtrip:
  assumes "vol_ok fs" "g < vcnt fs" "unat i < unat (ext4_blocks_in_group_cnt (fs_sb fs) g)"
  shows "ext4_balloc_get_bgid_of_block (fs_sb fs) (ext4_fs_bg_idx_to_addr (fs_sb fs) i g) = g"
    and "ext4_fs_addr_to_idx_bg (fs_sb fs) (ext4_fs_bg_idx_to_addr (fs_sb fs) i g) = i"
proof -
  let ?a = "ext4_fs_bg_idx_to_addr (fs_sb fs) i g" and ?p = "unat (s_blocks_per_group (fs_sb fs))"
  define b where "b = (if s_first_data_block (fs_sb fs) \<noteq> 0 \<and> ?a \<noteq> 0 then ?a - 1 else ?a)"
  note a = idx_to_addr_nat [OF assms]
  have b: "unat b = unat g * ?p + unat i"
    using first_data_cases [OF assms(1)] a by (auto simp: b_def unat_minus_one)
  have ip: "unat i < ?p" using group_span(2) [OF assms] .
  have "unat (ucast (b div ucast (s_blocks_per_group (fs_sb fs))) :: u32) = unat g"
    using ip unat_u32_lt [of g] by (simp add: unat_ucast_mod unat_div b mod_less)
  then show "ext4_balloc_get_bgid_of_block (fs_sb fs) ?a = g"
    unfolding ext4_balloc_get_bgid_of_block_def Let_def b_def [symmetric] by (simp add: word_unat_eq_iff)
  have "unat (ucast (b mod ucast (s_blocks_per_group (fs_sb fs))) :: u32) = unat i"
    using ip unat_u32_lt [of i] by (simp add: unat_ucast_mod unat_mod b mod_less)
  then show "ext4_fs_addr_to_idx_bg (fs_sb fs) ?a = i"
    unfolding ext4_fs_addr_to_idx_bg_def Let_def b_def [symmetric] by (simp add: word_unat_eq_iff)
qed

text \<open>The group and the bit of a block of the volume.\<close>

lemma block_in_volume:
  assumes "vol_ok fs" "ucast (s_first_data_block (fs_sb fs)) \<le> a" "a < ext4_sb_get_blocks_cnt (fs_sb fs)"
  defines "g \<equiv> ext4_balloc_get_bgid_of_block (fs_sb fs) a" and "i \<equiv> ext4_fs_addr_to_idx_bg (fs_sb fs) a"
  shows "g < vcnt fs" "unat i < unat (ext4_blocks_in_group_cnt (fs_sb fs) g)"
    and "ext4_fs_bg_idx_to_addr (fs_sb fs) i g = a"
proof -
  let ?p = "unat (s_blocks_per_group (fs_sb fs))" and ?B = "unat (ext4_sb_get_blocks_cnt (fs_sb fs))"
  let ?f = "unat (s_first_data_block (fs_sb fs))"
  define b where "b = (if s_first_data_block (fs_sb fs) \<noteq> 0 \<and> a \<noteq> 0 then a - 1 else a)"
  have fa: "?f \<le> unat a" "unat a < ?B" using assms(2,3) by (simp_all add: word_le_nat_alt word_less_nat_alt)
  have b: "unat b = unat a - ?f"
    using first_data_cases [OF assms(1)] fa by (auto simp: b_def unat_minus_one)
  have p: "8 \<le> ?p" using vol_okD(1) [OF assms(1)] by (simp add: sb_geometry_def Let_def)
  have b32: "unat b < 2 ^ 32" using b fa vol_okD(4) [OF assms(1)] by simp
  have g: "unat g = unat b div ?p"
    unfolding g_def ext4_balloc_get_bgid_of_block_def Let_def b_def [symmetric]
    using b32 div_le_dividend [of "unat b" ?p] by (simp add: unat_ucast_mod unat_div mod_less del: div_le_dividend)
  have i: "unat i = unat b mod ?p"
    unfolding i_def ext4_fs_addr_to_idx_bg_def Let_def b_def [symmetric]
    using b32 mod_less_eq_dividend [of "unat b" ?p] by (simp add: unat_ucast_mod unat_mod del: mod_less_eq_dividend)
  have bB: "unat b \<le> ?B - 1" and B: "0 < ?B" using b fa by simp_all
  have n: "unat (vcnt fs) = Suc ((?B - 1) div ?p)"
  proof -
    have "0 < ?p" using p by simp
    moreover have "unat (vcnt fs) = (?B + ?p - 1) div ?p"
    proof -
      have "?B div ?p \<le> ?B div 8" using p by (intro div_le_mono2) simp_all
      then have fits: "?B div ?p < 2 ^ 32 - 1" using vol_okD(4) [OF assms(1)] by simp
      show ?thesis by (rule block_group_cnt_nat [OF _ fits]) (use p in auto)
    qed
    ultimately show ?thesis using ceil_div_Suc [OF B] by simp
  qed
  have "unat b div ?p \<le> (?B - 1) div ?p" using bB by (rule div_le_mono)
  then show gl: "g < vcnt fs" by (simp add: word_less_nat_alt g n)
  have bg: "unat b = unat g * ?p + unat i" by (simp add: g i)
  show il: "unat i < unat (ext4_blocks_in_group_cnt (fs_sb fs) g)"
  proof (cases "unat g < unat (vcnt fs) - 1")
    case True
    then show ?thesis using blocks_in_group_bound(1) [OF assms(1) gl] p by (simp add: i)
  next
    case False
    then have "unat g = unat (vcnt fs) - 1" using gl by (simp add: word_less_nat_alt)
    then show ?thesis using blocks_in_group_bound(1) [OF assms(1) gl] False bg bB B by simp
  qed
  have "unat (ext4_fs_bg_idx_to_addr (fs_sb fs) i g) = unat a"
    using idx_to_addr_nat [OF assms(1) gl il] bg b fa by simp
  then show "ext4_fs_bg_idx_to_addr (fs_sb fs) i g = a" by (simp add: word_unat_eq_iff)
qed

lemma first_idx_zero:
  assumes "vol_ok fs" "g < vcnt fs"
  shows "first_idx (fs_sb fs) g = 0"
proof -
  let ?p = "unat (s_blocks_per_group (fs_sb fs))"
  have p: "0 < ?p" using vol_okD(1) [OF assms(1)] by (simp add: sb_geometry_def Let_def)
  have n: "0 < unat (ext4_blocks_in_group_cnt (fs_sb fs) g)"
  proof -
    have B: "0 < unat (ext4_sb_get_blocks_cnt (fs_sb fs))"
      using vol_okD(5) [OF assms(1)] by (simp add: word_less_nat_alt)
    have "(unat (vcnt fs) - 1) * ?p \<le> unat (ext4_sb_get_blocks_cnt (fs_sb fs)) - 1"
      unfolding blocks_in_group_bound(3) [OF assms] ceil_div_Suc [OF B p] by simp
    then have "(unat (vcnt fs) - 1) * ?p < unat (ext4_sb_get_blocks_cnt (fs_sb fs))" using B by linarith
    then show ?thesis using blocks_in_group_bound(1) [OF assms] p by simp
  qed
  have lt: "unat g * ?p < 2 ^ 32" using group_span(1) [OF assms n] vol_okD(4) [OF assms(1)] by simp
  then have m: "unat (g * s_blocks_per_group (fs_sb fs)) = unat g * ?p"
    by (subst unat_word_ariths) (simp add: mod_less)
  let ?x = "ucast (g * s_blocks_per_group (fs_sb fs)) :: u64"
  have x: "unat ?x = unat g * ?p" using m by simp
  have "ext4_fs_addr_to_idx_bg (fs_sb fs) (ext4_balloc_get_block_of_bgid (fs_sb fs) g) =
      ucast (?x mod ucast (s_blocks_per_group (fs_sb fs)))"
  proof (cases "s_first_data_block (fs_sb fs) = 0")
    case False
    have "unat (1 + ?x) = 1 + unat g * ?p" using x lt by (subst unat_word_ariths) simp
    then have "1 + ?x \<noteq> 0" by auto
    then show ?thesis
      using False by (simp add: ext4_fs_addr_to_idx_bg_def ext4_balloc_get_block_of_bgid_def)
  qed (simp add: ext4_fs_addr_to_idx_bg_def ext4_balloc_get_block_of_bgid_def)
  moreover have "unat (?x mod ucast (s_blocks_per_group (fs_sb fs))) = 0" by (simp add: unat_mod m)
  ultimately show ?thesis by (simp add: first_idx_def unat_eq_zero)
qed

subsection \<open>The whole search\<close>

definition no_change :: "ext4_fs \<Rightarrow> ext4_fs \<Rightarrow> bool" where
  "no_change fs fs' \<longleftrightarrow> (\<exists>n. fs' = fs\<lparr>fs_calls := n\<rparr>)"

lemma no_change_trans: "no_change a b \<Longrightarrow> no_change b c \<Longrightarrow> no_change a c"
  by (auto simp: no_change_def)

lemma bitmap_bits: "vol_ok fs \<Longrightarrow> unat (s_blocks_per_group (fs_sb fs)) \<le> 8 * unat (ext4_sb_get_block_size (fs_sb fs))"
  using vol_okD(1) [of fs] by (simp add: sb_geometry_def Let_def)

text \<open>One turn of either search, on a group that is held.\<close>

lemma alloc_turn:
  assumes ok: "vol_ok fs" "g < vcnt fs" "iref_ok fs iref"
    and pick: "pick_ok pick (unat (ext4_sb_get_block_size (fs_sb fs))) (unat (ext4_blocks_in_group_cnt (fs_sb fs) g))"
    and next_ok: "\<And>fs1 r fs'. no_change fs fs1 \<Longrightarrow> next_group fs1 = (r, fs') \<Longrightarrow> P r fs'"
    and err: "\<And>e fs'. no_change fs fs' \<Longrightarrow> P (Err e) fs'"
    and hit: "\<And>i fs'. unat i < unat (ext4_blocks_in_group_cnt (fs_sb fs) g) \<Longrightarrow> took fs g i fs' \<Longrightarrow>
      P (Ret (iref\<lparr>ir_dirty := True\<rparr>, ext4_fs_bg_idx_to_addr (fs_sb fs) i g)) fs'"
    and run: "fs_bind (ext4_fs_get_block_group_ref g) (\<lambda>ref.
      fs_bind (alloc_in_group pick ref) (\<lambda>a. case a of Some alloc \<Rightarrow> alloc_success iref ref alloc
        | None \<Rightarrow> fs_bind (ext4_fs_put_block_group_ref ref) (\<lambda>_. next_group))) fs = (r, fs')"
  shows "P r fs'"
proof -
  obtain r1 fs1 where gr: "ext4_fs_get_block_group_ref g fs = (r1, fs1)" by fastforce
  from get_ref_outcome [OF ok(1,2) gr] obtain n where fs1: "fs1 = fs\<lparr>fs_calls := n\<rparr>"
    and r1: "r1 = Ret (gref (fs_sb fs) g) \<or> (\<exists>e. r1 = Err e)" by blast
  have nc1: "no_change fs fs1" using fs1 by (auto simp: no_change_def)
  show ?thesis
  proof (cases "\<exists>e. r1 = Err e")
    case True
    then obtain e where "r1 = Err e" ..
    then have "r = Err e" "fs' = fs1" using run gr by (simp_all add: fs_bind_def)
    then show ?thesis using err [OF nc1] by simp
  next
    case False
    with r1 have r1: "r1 = Ret (gref (fs_sb fs) g)" by blast
    obtain r2 fs2 where ag: "alloc_in_group pick (gref (fs_sb fs1) g) fs1 = (r2, fs2)" by fastforce
    have ok1: "vol_ok fs1" "g < vcnt fs1" "iref_ok fs1 iref"
      "pick_ok pick (unat (ext4_sb_get_block_size (fs_sb fs1))) (unat (ext4_blocks_in_group_cnt (fs_sb fs) g))"
      using ok pick fs1 by (simp_all add: iref_ok_def)
    note out = alloc_in_group_outcome [OF ok1 ag]
    have run1: "(case r2 of Ret a \<Rightarrow> (case a of Some alloc \<Rightarrow> alloc_success iref (gref (fs_sb fs) g) alloc
        | None \<Rightarrow> fs_bind (ext4_fs_put_block_group_ref (gref (fs_sb fs) g)) (\<lambda>_. next_group)) fs2
      | Err e \<Rightarrow> (Err e, fs2) | Crash \<Rightarrow> (Crash, fs2)) = (r, fs')"
      using run gr r1 ag fs1 by (simp add: fs_bind_def split: fsres.splits)
    consider (none) "r2 = Ret None" "no_change fs fs2" | (fail) e where "r2 = Err e" "no_change fs fs2"
      | (got) i where "r2 = Ret (Some (ext4_fs_bg_idx_to_addr (fs_sb fs) i g))"
          "unat i < unat (ext4_blocks_in_group_cnt (fs_sb fs) g)"
          "\<exists>fs''. took fs g i fs'' \<and> alloc_success iref (gref (fs_sb fs) g) (ext4_fs_bg_idx_to_addr (fs_sb fs) i g) fs2 =
             (Ret (iref\<lparr>ir_dirty := True\<rparr>, ext4_fs_bg_idx_to_addr (fs_sb fs) i g), fs'')"
    proof (cases "\<exists>i. r2 = Ret (Some (ext4_fs_bg_idx_to_addr (fs_sb fs) i g)) \<and>
        unat i < unat (ext4_blocks_in_group_cnt (fs_sb fs) g) \<and> (\<exists>fs''. took fs g i fs'')")
      case True
      then have not_none: "r2 \<noteq> Ret None" "\<nexists>e. r2 = Err e" by auto
      from out [where a = undefined] not_none obtain i where
        i: "r2 = Ret (Some (ext4_fs_bg_idx_to_addr (fs_sb fs) i g))" using fs1 by auto
      from out [where a = "ext4_fs_bg_idx_to_addr (fs_sb fs) i g"] not_none i fs1 that(3)
      show ?thesis by auto
    next
      case False
      with out [where a = undefined] fs1 that(1,2) show ?thesis
        by (auto simp: no_change_def)
    qed
    then show ?thesis
    proof cases
      case none
      then show ?thesis using run1 next_ok [of fs2 r fs'] by (simp add: fs_bind_def)
    next
      case fail
      then show ?thesis using run1 err [of fs' e] by simp
    next
      case got
      then show ?thesis using run1 hit [of i fs'] by auto
    qed
  qed
qed

text \<open>The result of a search: nothing, with an error and nothing changed; or a block that was free.\<close>

definition alloc_result :: "ext4_fs \<Rightarrow> ext4_inode_ref \<Rightarrow> (ext4_inode_ref \<times> u64) fsres \<Rightarrow> ext4_fs \<Rightarrow> bool" where
  "alloc_result fs iref r fs' \<longleftrightarrow>
     (case r of Crash \<Rightarrow> False
      | Err e \<Rightarrow> no_change fs fs'
      | Ret (iref', a) \<Rightarrow> iref' = iref\<lparr>ir_dirty := True\<rparr> \<and>
          (\<exists>g i. g < vcnt fs \<and> unat i < unat (ext4_blocks_in_group_cnt (fs_sb fs) g) \<and>
             a = ext4_fs_bg_idx_to_addr (fs_sb fs) i g \<and> took fs g i fs'))"

lemma alloc_result_calls [simp]: "alloc_result (fs\<lparr>fs_calls := n\<rparr>) iref r fs' = alloc_result fs iref r fs'"
  by (auto simp: alloc_result_def no_change_def split: fsres.splits prod.splits)

lemma no_change_result: "no_change fs fs1 \<Longrightarrow> alloc_result fs1 iref r fs' \<Longrightarrow> alloc_result fs iref r fs'"
  by (auto simp: no_change_def)

lemma no_change_ok: "no_change fs fs1 \<Longrightarrow> vol_ok fs1 = vol_ok fs" "no_change fs fs1 \<Longrightarrow> fs_sb fs1 = fs_sb fs"
  "no_change fs fs1 \<Longrightarrow> iref_ok fs1 iref = iref_ok fs iref"
  by (auto simp: no_change_def iref_ok_def)

lemma alloc_other_groups_spec:
  assumes "vol_ok fs" "g < vcnt fs" "iref_ok fs iref" "alloc_other_groups n iref g fs = (r, fs')"
  shows "alloc_result fs iref r fs'"
  using assms
proof (induction n arbitrary: g fs r fs')
  case 0
  then show ?case using calls_self [of fs] by (auto simp: alloc_result_def fs_fail_def no_change_def)
next
  case (Suc n)
  let ?sb = "fs_sb fs"
  let ?pick = "\<lambda>bm. pick_first bm (first_idx ?sb g) (ext4_blocks_in_group_cnt ?sb g)"
  have bits: "unat (ext4_blocks_in_group_cnt ?sb g) \<le> 8 * unat (ext4_sb_get_block_size ?sb)"
    using blocks_in_group_bound(2) [OF Suc.prems(1,2)] bitmap_bits [OF Suc.prems(1)] by simp
  have nextg: "(g + 1) mod vcnt fs < vcnt fs"
    using Suc.prems(2) by (auto simp: word_less_nat_alt unat_mod intro!: mod_less_divisor)
  have run: "fs_bind (ext4_fs_get_block_group_ref g) (\<lambda>ref.
      fs_bind (alloc_in_group ?pick ref) (\<lambda>a. case a of Some alloc \<Rightarrow> alloc_success iref ref alloc
        | None \<Rightarrow> fs_bind (ext4_fs_put_block_group_ref ref)
            (\<lambda>_. alloc_other_groups n iref ((g + 1) mod vcnt fs)))) fs = (r, fs')"
  proof -
    obtain r1 fs1 where gr: "ext4_fs_get_block_group_ref g fs = (r1, fs1)" by fastforce
    then have "fs_sb fs1 = ?sb" using get_ref_outcome [OF Suc.prems(1,2) gr] by auto
    with Suc.prems(4) gr show ?thesis by (simp add: fs_bind_def fs_gets_def split: fsres.splits)
  qed
  show ?case
  proof (rule alloc_turn [OF Suc.prems(1-3) pick_first_ok [OF bits] _ _ _ run])
    fix fs1 r2 fs2
    assume nc: "no_change fs fs1" and "alloc_other_groups n iref ((g + 1) mod vcnt fs) fs1 = (r2, fs2)"
    then show "alloc_result fs iref r2 fs2"
      using Suc.IH [of fs1 "(g + 1) mod vcnt fs" r2 fs2] Suc.prems(1,3) nextg no_change_ok [OF nc] no_change_result [OF nc]
      by simp
  next
    show "alloc_result fs iref (Err e) fs'" if "no_change fs fs'" for e fs'
      using that by (simp add: alloc_result_def)
  next
    fix i fs'
    assume "unat i < unat (ext4_blocks_in_group_cnt ?sb g)" "took fs g i fs'"
    then show "alloc_result fs iref (Ret (iref\<lparr>ir_dirty := True\<rparr>, ext4_fs_bg_idx_to_addr ?sb i g)) fs'"
      using Suc.prems(2) by (auto simp: alloc_result_def)
  qed
qed

lemma alloc_block_result:
  assumes "vol_ok fs" "iref_ok fs iref" and res: "ext4_balloc_alloc_block iref goal fs = (r, fs')"
  shows "alloc_result fs iref r fs'"
proof -
  let ?sb = "fs_sb fs"
  define a where "a = clamp_goal ?sb goal"
  define g where "g = ext4_balloc_get_bgid_of_block ?sb a"
  define i where "i = ext4_fs_addr_to_idx_bg ?sb a"
  have a: "ucast (s_first_data_block ?sb) \<le> a" "a < ext4_sb_get_blocks_cnt ?sb"
    using vol_okD(5) [OF assms(1)] by (auto simp: a_def clamp_goal_def not_less)
  note bv = block_in_volume [OF assms(1) a, folded g_def i_def]
  have fi: "(if i < first_idx ?sb g then first_idx ?sb g else i) = i"
    using first_idx_zero [OF assms(1) bv(1)] by simp
  let ?pick = "\<lambda>bm. pick_near_goal bm i (ext4_blocks_in_group_cnt ?sb g)"
  have bs: "unat (ext4_sb_get_block_size ?sb) \<le> 65536" using sb_block_size_cases [of ?sb] by auto
  have pick: "pick_ok ?pick (unat (ext4_sb_get_block_size ?sb)) (unat (ext4_blocks_in_group_cnt ?sb g))"
    using bv(2) blocks_in_group_bound(2) [OF assms(1) bv(1)] bitmap_bits [OF assms(1)] bs
    by (intro pick_near_goal_ok) simp_all
  have nz: "vcnt fs \<noteq> 0" using bv(1) by auto
  have nextg: "(g + 1) mod vcnt fs < vcnt fs"
    using bv(1) by (auto simp: word_less_nat_alt unat_mod intro!: mod_less_divisor)
  have run: "fs_bind (ext4_fs_get_block_group_ref g) (\<lambda>ref.
      fs_bind (alloc_in_group ?pick ref) (\<lambda>c. case c of Some alloc \<Rightarrow> alloc_success iref ref alloc
        | None \<Rightarrow> fs_bind (ext4_fs_put_block_group_ref ref)
            (\<lambda>_. alloc_other_groups (unat (vcnt fs)) iref ((g + 1) mod vcnt fs)))) fs = (r, fs')"
    using res unfolding ext4_balloc_alloc_block_def fs_bind_def [of "fs_gets fs_sb"] fs_gets_def Let_def
      prod.case fsres.case a_def [symmetric] g_def [symmetric] i_def [symmetric] fi if_not_P [OF nz] .
  show ?thesis
  proof (rule alloc_turn [OF assms(1) bv(1) assms(2) pick _ _ _ run])
    fix fs1 r2 fs2
    assume nc: "no_change fs fs1"
      and "alloc_other_groups (unat (vcnt fs)) iref ((g + 1) mod vcnt fs) fs1 = (r2, fs2)"
    then show "alloc_result fs iref r2 fs2"
      using alloc_other_groups_spec [of fs1 "(g + 1) mod vcnt fs" iref _ r2 fs2] assms(1,2) nextg no_change_ok [OF nc]
        no_change_result [OF nc] by simp
  next
    show "alloc_result fs iref (Err e) fs'" if "no_change fs fs'" for e fs'
      using that by (simp add: alloc_result_def)
  next
    fix j fs'
    assume "unat j < unat (ext4_blocks_in_group_cnt ?sb g)" "took fs g j fs'"
    then show "alloc_result fs iref (Ret (iref\<lparr>ir_dirty := True\<rparr>, ext4_fs_bg_idx_to_addr ?sb j g)) fs'"
      using bv(1) by (auto simp: alloc_result_def)
  qed
qed

section \<open>Properties\<close>

text \<open>C2: allocating a block of a well-formed volume never goes outside a buffer and ends in one of two
  ways.  With an error, nothing on the volume has changed.  Otherwise the block returned was free in a
  bitmap that verified; its bit, and no other bit of any group, is now set; the free counts of its group
  and of the superblock are one less; its bitmap and its descriptor verify; and the volume is still
  well-formed.  This holds whatever the goal and whichever calls into the device fail.\<close>

theorem alloc_block_correct:
  assumes "vol_ok fs" "iref_ok fs iref"
  shows "case ext4_balloc_alloc_block iref goal fs of (r, fs') \<Rightarrow> alloc_result fs iref r fs' \<and> vol_ok fs'"
proof -
  obtain r fs' where run: "ext4_balloc_alloc_block iref goal fs = (r, fs')" by fastforce
  have res: "alloc_result fs iref r fs'" by (rule alloc_block_result [OF assms run])
  then have "vol_ok fs'"
    using assms(1) by (auto simp: alloc_result_def no_change_def took_def vol_chg_def split: fsres.splits prod.splits)
  with run res show ?thesis by simp
qed

text \<open>A volume of one group: descriptors in block 1, the bitmaps in blocks 2 and 3, nothing marked as used.\<close>

definition bg_example :: ext4_bgroup where
  "bg_example = (bgroup_of_bytes (replicate 64 0))\<lparr>bg_block_bitmap_lo := 2, bg_inode_bitmap_lo := 3,
     bg_free_blocks_count_lo := 900, bg_free_inodes_count_lo := 50\<rparr>"

definition vol_example :: ext4_fs where
  "vol_example = \<lparr>fs_read_only = False, fs_sb = probe_example 0, fs_disk_sb = probe_example 0,
     fs_blk = (\<lambda>l. if l = 1 then bg_store (probe_example 0) (replicate 4096 0) 0 bg_example else replicate 4096 0),
     fs_lg_bcnt = 1000, fs_answer = (\<lambda>_. EOK), fs_calls = 0, fs_stale = (\<lambda>_ _. None), fs_was_dirty = (\<lambda>_ _. False),
     fs_inode_block_limits = [], fs_inode_blocks_per_level = [], fs_last_inode_bg_id = 0\<rparr>"

definition iref_example :: ext4_inode_ref where
  "iref_example = \<lparr>ir_block = 5, ir_off = 0, ir_index = 12, ir_dirty = False\<rparr>"

lemma vol_example_sb [simp]: "fs_sb vol_example = probe_example 0" "fs_stale vol_example = (\<lambda>_ _. None)"
  by (simp_all add: vol_example_def)

lemma probe_example_geo [simp]:
  "ext4_sb_get_block_size (probe_example 0) = 4096" "ext4_sb_get_desc_size (probe_example 0) = 32"
  "ext4_sb_get_blocks_cnt (probe_example 0) = 1000"
  by (simp_all add: ext4_sb_get_block_size_def ext4_sb_get_desc_size_def ext4_sb_get_blocks_cnt_def
      EXT4_MIN_BLOCK_GROUP_DESCRIPTOR_SIZE_def)

lemma vol_example_cnt [simp]: "ext4_block_group_cnt (probe_example 0) = 1"
  by (simp add: ext4_block_group_cnt_def)

lemma probe_example_ok: "sb_geometry (probe_example 0)" "desc_ok (probe_example 0)"
  "\<not> ext4_sb_feature_incom (probe_example 0) EXT4_FINCOM_META_BG"
  by (simp_all add: sb_geometry_def desc_ok_def ext4_sb_feature_incom_def)

lemma vol_example_views:
  "dblk (probe_example 0) 0 = 1" "vbg vol_example 0 = bg_cut (probe_example 0) bg_example" "vbb vol_example 0 = 2"
proof -
  have d: "unat (dblk (probe_example 0) 0) = 1" using dblk_nat [OF probe_example_ok, of 0] by simp
  then show d: "dblk (probe_example 0) 0 = 1" by (simp add: word_unat_eq_iff)
  have "doff (probe_example 0) 0 = 0" using doff_nat(1) [OF probe_example_ok(1,2), of 0] by simp
  then show b: "vbg vol_example 0 = bg_cut (probe_example 0) bg_example"
    using bg_at_store [OF probe_example_ok(2), of 0 "replicate 4096 0" bg_example]
    by (simp add: vbg_def d vol_example_def)
  have "ext4_bg_get_block_bitmap bg_example (probe_example 0) = 2"
    by (simp add: bg_example_def ext4_bg_get_block_bitmap_def EXT4_MIN_BLOCK_GROUP_DESCRIPTOR_SIZE_def)
  then show "vbb vol_example 0 = 2" using bg_cut_get(1) [OF probe_example_ok(2)] by (simp add: vbb_def b)
qed

lemma vol_example_ok: "vol_ok vol_example"
proof -
  have len: "length (fs_blk vol_example l) = 4096" for l by (simp add: vol_example_def)
  have "bg_flags (vbg vol_example 0) = bg_flags bg_example"
    using bg_cut_get(8) [OF probe_example_ok(2)] by (simp add: vol_example_views(2))
  also have "\<dots> = 0" by (simp add: bg_example_def bgroup_of_bytes_def get_le16_def)
  finally have f: "bg_flags (vbg vol_example 0) = 0" .
  have z: "g = 0" if "g < 1" for g :: u32 using that by simp
  show ?thesis
    unfolding vol_ok_def using probe_example_ok len z f vol_example_views(1,3)
    by (auto simp: ext4_bg_has_flag_def)
qed

theorem alloc_block_correct_witness:
  "case ext4_balloc_alloc_block iref_example 7 vol_example of (r, fs') \<Rightarrow>
     alloc_result vol_example iref_example r fs' \<and> vol_ok fs'"
proof (rule alloc_block_correct [OF vol_example_ok])
  have "\<not> meta_block vol_example 5"
    unfolding meta_block_def using vol_example_views(1,3) by auto
  then show "iref_ok vol_example iref_example" by (simp add: iref_ok_def iref_example_def)
qed

end
