(* ===== verification/Free_Spec.thy ===== *)
theory Free_Spec
  imports Alloc_Spec
begin

unbundle bit_operations_syntax

text \<open>
  Correctness of freeing: what \<^verbatim>\<open>ext4_balloc_free_block\<close> and \<^verbatim>\<open>ext4_balloc_free_blocks\<close> do to the bitmaps and the
  counters of a well-formed volume, and that freeing undoes allocating.
\<close>

section \<open>A volume on which nothing fails\<close>

definition no_fail :: "ext4_fs \<Rightarrow> bool" where
  "no_fail fs \<longleftrightarrow> (\<forall>n. fs_answer fs n = EOK) \<and>
     (\<forall>g < vcnt fs. dblk (fs_sb fs) g < fs_lg_bcnt fs \<and> 0 < vbb fs g \<and> vbb fs g < fs_lg_bcnt fs \<and>
        ext4_balloc_verify_bitmap_csum (fs_sb fs) (vbg fs g) (vbm fs g) = Some True)"

lemma no_fail_calls [simp]: "no_fail (fs\<lparr>fs_calls := n\<rparr>) = no_fail fs"
  by (simp add: no_fail_def)

lemma block_get_ok:
  assumes "\<forall>n. fs_answer fs n = EOK" "0 < l" "l < fs_lg_bcnt fs"
  shows "ext4_trans_block_get l fs = (Ret l, fs\<lparr>fs_calls := fs_calls fs + 1\<rparr>)"
  using assms by (simp add: ext4_trans_block_get_def fs_bind_def fs_ask_def fs_return_def Let_def word_gt_0)

lemma get_ref_ok:
  assumes "vol_ok fs" "no_fail fs" "g < vcnt fs"
  shows "ext4_fs_get_block_group_ref g fs = (Ret (gref (fs_sb fs) g), fs\<lparr>fs_calls := fs_calls fs + 1\<rparr>)"
proof -
  have "0 < unat (dblk (fs_sb fs) g)" using dblk_nat [OF vol_okD(1-3) [OF assms(1)]] by simp
  then have "0 < dblk (fs_sb fs) g" by (simp add: word_less_nat_alt)
  then show ?thesis using block_get_ok assms(2,3) by (simp add: get_ref_run [OF assms(1,3)] no_fail_def)
qed

lemma get_bitmap_ok:
  assumes "vol_ok fs" "no_fail fs" "g < vcnt fs"
  shows "balloc_get_bitmap (gref (fs_sb fs) g) fs = (Ret (vbb fs g), fs\<lparr>fs_calls := fs_calls fs + 1\<rparr>)"
proof -
  obtain ok where "ext4_balloc_verify_bitmap_csum (fs_sb fs) (vbg fs g) (vbm fs g) = Some ok"
    and "balloc_get_bitmap (gref (fs_sb fs) g) fs = (case ext4_trans_block_get (vbb fs g) fs of
      (Ret b, fs1) \<Rightarrow> if ok then (Ret (vbb fs g), fs1) else (Err EIO, fs1) | (Err e, fs1) \<Rightarrow> (Err e, fs1) | (Crash, fs1) \<Rightarrow> (Crash, fs1))"
    by (rule get_bitmap_run [OF assms(1,3)])
  then show ?thesis using block_get_ok assms(2,3) by (auto simp: no_fail_def)
qed

section \<open>Steps\<close>

lemma iref_ok_dirty [simp]: "iref_ok fs (iref\<lparr>ir_dirty := b\<rparr>) = iref_ok fs iref"
  by (simp add: iref_ok_def)

definition in_volume :: "ext4_sblock \<Rightarrow> u64 \<Rightarrow> bool" where
  "in_volume sb a \<longleftrightarrow> ucast (s_first_data_block sb) \<le> a \<and> a < ext4_sb_get_blocks_cnt sb"

text \<open>Discarding the cached copies of blocks that are not metadata changes no group.\<close>

lemma invalidate_data:
  assumes "vol_ok fs" "\<And>l. from \<le> l \<Longrightarrow> unat l < unat from + unat cnt \<Longrightarrow> \<not> meta_block fs l"
  obtains fs' where "fs_invalidate_lba from cnt fs = (Ret (), fs')" "vol_chg fs g fs'" "fs_sb fs' = fs_sb fs"
    "\<And>h. h < vcnt fs \<Longrightarrow> vbg fs' h = vbg fs h" "\<And>h. h < vcnt fs \<Longrightarrow> vbm fs' h = vbm fs h"
proof -
  define f where "f = (\<lambda>l. if from \<le> l \<and> unat l < unat from + unat cnt
     then case fs_stale fs (fs_calls fs) l of None \<Rightarrow> fs_blk fs l | Some bs \<Rightarrow> bs else fs_blk fs l)"
  let ?fs = "fs\<lparr>fs_blk := f\<rparr>"
  have len: "length (f l) = unat (ext4_sb_get_block_size (fs_sb fs))" for l
    using vol_okD(6,11) [OF assms(1)] by (auto simp: f_def split: option.split)
  have keep: "f l = fs_blk fs l" if "meta_block fs l" for l using assms(2) [of l] that by (auto simp: f_def)
  have meta: "meta_block fs (dblk (fs_sb fs) h)" "meta_block fs (vbb fs h)" if "h < vcnt fs" for h
    using that by (auto simp: meta_block_def)
  have a: "vbg ?fs h = vbg fs h" if "h < vcnt fs" for h
    using keep [OF meta(1) [OF that]] by (simp add: vbg_def)
  then have b: "vbb ?fs h = vbb fs h" if "h < vcnt fs" for h using that by (simp add: vbb_def)
  then have c: "vbm ?fs h = vbm fs h" if "h < vcnt fs" for h
    using keep [OF meta(2) [OF that]] that by (simp add: vbm_def)
  have "vol_ok ?fs" using assms(1) a b len unfolding vol_ok_def by simp
  moreover have "meta_block ?fs = meta_block fs" using b by (auto simp: meta_block_def fun_eq_iff)
  ultimately have "vol_chg fs g ?fs" using a b c by (simp add: vol_chg_def same_sb_free)
  moreover have "fs_invalidate_lba from cnt fs = (Ret (), ?fs)"
    by (simp add: fs_invalidate_lba_def fs_modify_def f_def)
  ultimately show ?thesis using that a c by simp
qed

text \<open>The bitmap and the counters of group \<open>g\<close> after bit \<open>i\<close> has been released.\<close>

definition gave :: "ext4_fs \<Rightarrow> u32 \<Rightarrow> u32 \<Rightarrow> ext4_fs \<Rightarrow> bool" where
  "gave fs g i fs' \<longleftrightarrow> vol_chg fs g fs' \<and> unat i < 8 * length (vbm fs g) \<and>
     ext4_balloc_verify_bitmap_csum (fs_sb fs) (vbg fs g) (vbm fs g) = Some True \<and>
     vbm fs' g = bm_upd (vbm fs g) (unat i) False \<and>
     ext4_balloc_verify_bitmap_csum (fs_sb fs) (vbg fs' g) (vbm fs' g) = Some True \<and>
     ext4_bg_get_free_blocks_count (vbg fs' g) (fs_sb fs) =
       (let c = ext4_bg_get_free_blocks_count (vbg fs g) (fs_sb fs) + 1 in if bg_wide (fs_sb fs) then c else c AND 0xFFFF) \<and>
     ext4_sb_get_free_blocks_cnt (fs_sb fs') = ext4_sb_get_free_blocks_cnt (fs_sb fs) + 1"

lemma gave_calls [simp]: "gave (fs\<lparr>fs_calls := n\<rparr>) g i fs' = gave fs g i fs'"
  "gave fs g i (fs'\<lparr>fs_calls := n\<rparr>) = gave fs g i fs'"
  unfolding gave_def by simp_all

definition free_result :: "ext4_fs \<Rightarrow> ext4_inode_ref \<Rightarrow> u64 \<Rightarrow> ext4_inode_ref fsres \<Rightarrow> ext4_fs \<Rightarrow> bool" where
  "free_result fs iref a r fs' \<longleftrightarrow>
     (let g = ext4_balloc_get_bgid_of_block (fs_sb fs) a; i = ext4_fs_addr_to_idx_bg (fs_sb fs) a
      in case r of Crash \<Rightarrow> False
         | Err e \<Rightarrow> no_change fs fs' \<or> gave fs g i fs'
         | Ret iref' \<Rightarrow> iref' = iref\<lparr>ir_dirty := True\<rparr> \<and> gave fs g i fs' \<and>
             ext4_fs_verify_bg_csum (fs_sb fs') g (vbg fs' g))"

text \<open>From the bitmap that has been checked to the counters.\<close>

lemma free_bit_and_count:
  assumes ok: "vol_ok fs" "g < vcnt fs" "iref_ok fs iref" "unat i < 8 * length (vbm fs g)"
    and ver: "ext4_balloc_verify_bitmap_csum (fs_sb fs) (vbg fs g) (vbm fs g) = Some True"
  obtains fs1 fs2 fs3 fs4 where
    "balloc_put_bitmap (gref (fs_sb fs) g) (vbb fs g) (bm_upd (vbm fs g) (unat i) False) fs = (Ret (), fs1)"
    "sb_add_free_blocks 1 fs1 = (Ret (), fs2)" "inode_add_blocks iref m fs2 = (Ret (iref\<lparr>ir_dirty := True\<rparr>), fs3)"
    "bg_add_free_blocks (gref (fs_sb fs) g) 1 fs3 = (Ret (), fs4)" "gave fs g i fs4"
proof -
  let ?sb = "fs_sb fs" and ?bm = "bm_upd (vbm fs g) (unat i) False"
  have len: "length ?bm = unat (ext4_sb_get_block_size ?sb)" using vol_okD(6) [OF ok(1)] by (simp add: vbm_def)
  obtain fs1 where r1: "balloc_put_bitmap (gref ?sb g) (vbb fs g) ?bm fs = (Ret (), fs1)"
    and c1: "vol_chg fs g fs1" and s1: "fs_sb fs1 = ?sb" and m1: "vbm fs1 g = ?bm"
    and f1: "ext4_bg_get_free_blocks_count (vbg fs1 g) ?sb = ext4_bg_get_free_blocks_count (vbg fs g) ?sb"
    and v1: "ext4_balloc_verify_bitmap_csum ?sb (vbg fs1 g) ?bm = Some True"
    by (rule put_bitmap_spec [OF ok(1,2) len])
  note d1 = vol_chgD [OF c1]
  have ok1: "vol_ok fs1" "g < vcnt fs1" "iref_ok fs1 iref" using d1(1,2) ok(2,3) iref_ok_chg [OF c1] by simp_all
  obtain fs2 fs3 fs4 where r2: "sb_add_free_blocks 1 fs1 = (Ret (), fs2)"
    and s2: "fs_sb fs2 = ext4_sb_set_free_blocks_cnt (fs_sb fs1) (ext4_sb_get_free_blocks_cnt (fs_sb fs1) + 1)"
    and r3: "inode_add_blocks iref m fs2 = (Ret (iref\<lparr>ir_dirty := True\<rparr>), fs3)" and s3: "fs_sb fs3 = fs_sb fs2"
    and r4: "bg_add_free_blocks (gref (fs_sb fs1) g) 1 fs3 = (Ret (), fs4)" and s4: "fs_sb fs4 = fs_sb fs3"
    and c4: "vol_chg fs1 g fs4" and m4: "vbm fs4 g = vbm fs1 g"
    and f4: "ext4_bg_get_free_blocks_count (vbg fs4 g) (fs_sb fs1) =
       ext4_bg_get_free_blocks_count (ext4_bg_set_free_blocks_count (vbg fs1 g) (fs_sb fs1)
         (ext4_bg_get_free_blocks_count (vbg fs1 g) (fs_sb fs1) + 1)) (fs_sb fs1)"
    and v4: "ext4_balloc_verify_bitmap_csum (fs_sb fs1) (vbg fs4 g) ?bm = ext4_balloc_verify_bitmap_csum (fs_sb fs1) (vbg fs1 g) ?bm"
    by (rule counters_spec [OF ok1])
  have "gave fs g i fs4"
    unfolding gave_def using vol_chg_trans [OF c1 c4] ok(4) ver m4 m1 v4 v1 s1 s2 s3 s4 f4 f1 get_set_free
    by (simp add: bg_count_roundtrip(1) Let_def)
  then show ?thesis using that r1 r2 r3 r4 s1 by simp
qed

lemma gave_chg:
  assumes "gave fs g i fs1" "vol_chg fs1 g fs2" "fs_sb fs2 = fs_sb fs1" "vbm fs2 g = vbm fs1 g"
    and "ext4_bg_get_free_blocks_count (vbg fs2 g) (fs_sb fs1) = ext4_bg_get_free_blocks_count (vbg fs1 g) (fs_sb fs1)"
    and "ext4_balloc_verify_bitmap_csum (fs_sb fs1) (vbg fs2 g) (vbm fs1 g) = ext4_balloc_verify_bitmap_csum (fs_sb fs1) (vbg fs1 g) (vbm fs1 g)"
  shows "gave fs g i fs2"
proof -
  have c: "vol_chg fs g fs1" using assms(1) by (simp add: gave_def)
  then obtain c where "fs_sb fs1 = ext4_sb_set_free_blocks_cnt (fs_sb fs) c" by (auto simp: vol_chg_def)
  then show ?thesis
    using assms vol_chg_trans [OF c assms(2)] unfolding gave_def by auto
qed


lemma free_block_result:
  assumes ok: "vol_ok fs" "iref_ok fs iref" and a: "in_volume (fs_sb fs) a" "\<not> meta_block fs a"
    and run: "ext4_balloc_free_block iref a fs = (r, fs')"
  shows "free_result fs iref a r fs' \<and> (no_fail fs \<longrightarrow> (\<exists>iref'. r = Ret iref'))"
proof -
  let ?sb = "fs_sb fs"
  define g where "g = ext4_balloc_get_bgid_of_block ?sb a"
  define i where "i = ext4_fs_addr_to_idx_bg ?sb a"
  have "ucast (s_first_data_block ?sb) \<le> a" "a < ext4_sb_get_blocks_cnt ?sb" using a(1) by (simp_all add: in_volume_def)
  note bv = block_in_volume [OF ok(1) this, folded g_def i_def]
  have bits: "unat i < 8 * length (vbm fs g)"
    using bv(2) blocks_in_group_bound(2) [OF ok(1) bv(1)] bitmap_bits [OF ok(1)] vol_okD(6) [OF ok(1)] by (simp add: vbm_def)
  obtain r1 fs1 where gr: "ext4_fs_get_block_group_ref g fs = (r1, fs1)" by fastforce
  from get_ref_outcome [OF ok(1) bv(1) gr] obtain n where fs1: "fs1 = fs\<lparr>fs_calls := n\<rparr>"
    and r1: "r1 = Ret (gref ?sb g) \<or> (\<exists>e. r1 = Err e)" by blast
  obtain r2 fs2 where gb: "balloc_get_bitmap (gref (fs_sb fs1) g) fs1 = (r2, fs2)" by fastforce
  have ok1: "vol_ok fs1" "g < vcnt fs1" using ok(1) bv(1) fs1 by simp_all
  from get_bitmap_outcome [OF ok1 gb] fs1 obtain k where fs2: "fs2 = fs\<lparr>fs_calls := k\<rparr>"
    and r2: "r2 = Ret (vbb fs g) \<and> ext4_balloc_verify_bitmap_csum ?sb (vbg fs g) (vbm fs g) = Some True \<or> (\<exists>e. r2 = Err e)"
    by auto
  have nc: "no_change fs fs1" "no_change fs fs2" using fs1 fs2 by (auto simp: no_change_def)
  note run' = run [unfolded ext4_balloc_free_block_def fs_bind_def fs_gets_def Let_def prod.case fsres.case
      g_def [symmetric] i_def [symmetric] gr]
  show ?thesis
  proof (cases "(\<exists>e. r1 = Err e) \<or> (\<exists>e. r2 = Err e)")
    case True
    then have "\<exists>e. r = Err e \<and> (fs' = fs1 \<or> fs' = fs2)"
      using run' r1 gb fs1 by auto
    moreover have "\<not> no_fail fs"
      using True r1 gr gb get_ref_ok [OF ok(1) _ bv(1)] get_bitmap_ok [OF ok1(1) _ ok1(2)] fs1 by auto
    ultimately show ?thesis using nc by (auto simp: free_result_def)
  next
    case False
    with r1 r2 have r1: "r1 = Ret (gref ?sb g)" and r2: "r2 = Ret (vbb fs g)"
      and ver: "ext4_balloc_verify_bitmap_csum ?sb (vbg fs g) (vbm fs g) = Some True" by auto
    have ok2: "vol_ok fs2" "g < vcnt fs2" "iref_ok fs2 iref" "unat i < 8 * length (vbm fs2 g)"
      "ext4_balloc_verify_bitmap_csum (fs_sb fs2) (vbg fs2 g) (vbm fs2 g) = Some True"
      using ok bv(1) bits ver fs2 by (simp_all add: iref_ok_def)
    obtain fs3 fs4 fs5 fs6 where
      p: "balloc_put_bitmap (gref (fs_sb fs2) g) (vbb fs2 g) (bm_upd (vbm fs2 g) (unat i) False) fs2 = (Ret (), fs3)"
        "sb_add_free_blocks 1 fs3 = (Ret (), fs4)"
        "inode_add_blocks iref (- ucast (ext4_sb_get_block_size ?sb div EXT4_INODE_BLOCK_SIZE)) fs4 = (Ret (iref\<lparr>ir_dirty := True\<rparr>), fs5)"
        "bg_add_free_blocks (gref (fs_sb fs2) g) 1 fs5 = (Ret (), fs6)" and g6: "gave fs2 g i fs6"
      by (rule free_bit_and_count [OF ok2])
    have g6': "gave fs g i fs6" using g6 fs2 by simp
    have c6: "vol_chg fs g fs6" using g6' by (simp add: gave_def)
    note d6 = vol_chgD [OF c6]
    obtain m where ask: "fs_ask fs6 = ((if fs_answer fs6 (fs_calls fs6) = EOK then Ret () else Err (fs_answer fs6 (fs_calls fs6))), fs6\<lparr>fs_calls := m\<rparr>)"
      by (auto simp: fs_ask_def Let_def)
    let ?fs7 = "fs6\<lparr>fs_calls := m\<rparr>"
    have "k = a" if "a \<le> k" "unat k < unat a + unat (1 :: u32)" for k
      using that by (simp add: word_le_nat_alt word_unat_eq_iff)
    then have ok7: "vol_ok ?fs7" "\<And>k. a \<le> k \<Longrightarrow> unat k < unat a + unat (1 :: u32) \<Longrightarrow> \<not> meta_block ?fs7 k"
      using d6(1,3) a(2) by auto
    obtain fs8 where r8: "fs_invalidate_lba a 1 ?fs7 = (Ret (), fs8)" and c8: "vol_chg ?fs7 g fs8" and s8: "fs_sb fs8 = fs_sb ?fs7"
      and b8: "\<And>h. h < vcnt ?fs7 \<Longrightarrow> vbg fs8 h = vbg ?fs7 h" "\<And>h. h < vcnt ?fs7 \<Longrightarrow> vbm fs8 h = vbm ?fs7 h"
      using invalidate_data [OF ok7, where g = g] by blast
    have g7: "g < vcnt ?fs7" using bv(1) d6(2) by simp
    have g8: "gave fs g i fs8"
      using gave_chg [OF g6', of fs8] c8 s8 b8 [OF g7] by simp
    note d8 = vol_chgD [OF c8]
    have ok8: "vol_ok fs8" "g < vcnt fs8" using d8(1,2) g7 by simp_all
    obtain fs9 where r9: "ext4_fs_put_block_group_ref ((gref (fs_sb fs8) g)\<lparr>bgr_dirty := True\<rparr>) fs8 = (Ret (), fs9)"
      and c9: "vol_chg fs8 g fs9" "fs_sb fs9 = fs_sb fs8" "vbm fs9 g = vbm fs8 g"
      "ext4_bg_get_free_blocks_count (vbg fs9 g) (fs_sb fs8) = ext4_bg_get_free_blocks_count (vbg fs8 g) (fs_sb fs8)"
      "ext4_balloc_verify_bitmap_csum (fs_sb fs8) (vbg fs9 g) (vbm fs8 g) = ext4_balloc_verify_bitmap_csum (fs_sb fs8) (vbg fs8 g) (vbm fs8 g)"
      and k9: "ext4_fs_verify_bg_csum (fs_sb fs8) g (vbg fs9 g)"
      by (rule put_ref_spec [OF ok8])
    have ref: "gref (fs_sb fs8) = gref ?sb" using d8(9) d6(9) by simp
    have g9: "gave fs g i fs9" using gave_chg [OF g8 c9] .
    have clr: "ext4_bmap_bit_clr (vbm fs g) i = Some (bm_upd (vbm fs g) (unat i) False)" using bits by (simp add: bit_clr_eq)
    have bm: "fs_blk fs (vbb fs g) = vbm fs g" by (simp add: vbm_def)
    have "(r, fs') = (if fs_answer fs6 (fs_calls fs6) = EOK then (Ret (iref\<lparr>ir_dirty := True\<rparr>), fs9)
        else (Err (fs_answer fs6 (fs_calls fs6)), ?fs7))"
      using run' r1 gb r2 p ask r8 r9 fs1 fs2 clr bm ref
      by (cases "fs_answer fs6 (fs_calls fs6) = EOK")
        (simp_all add: blk_get_def fs_gets_def fs_mem_def fs_on_error_def ext4_trans_try_revoke_block_def fs_return_def)
    moreover have "gave fs g i ?fs7" using g6' by simp
    moreover have "fs_answer fs6 = fs_answer fs" using c6 by (simp add: vol_chg_def)
    ultimately show ?thesis
      using g9 k9 c9(2) by (auto simp: no_fail_def free_result_def Let_def g_def [symmetric] i_def [symmetric] split: if_splits)
  qed
qed


section \<open>Ranges\<close>

lemma set_free_addr [simp]:
  "ext4_balloc_get_bgid_of_block (ext4_sb_set_free_blocks_cnt s c) = ext4_balloc_get_bgid_of_block s"
  "ext4_fs_addr_to_idx_bg (ext4_sb_set_free_blocks_cnt s c) = ext4_fs_addr_to_idx_bg s"
  "in_volume (ext4_sb_set_free_blocks_cnt s c) = in_volume s"
  by (simp_all add: ext4_balloc_get_bgid_of_block_def ext4_fs_addr_to_idx_bg_def in_volume_def fun_eq_iff)

text \<open>Whether a block is marked as used.\<close>

definition vbit :: "ext4_fs \<Rightarrow> u64 \<Rightarrow> bool" where
  "vbit fs a = bm_bit (vbm fs (ext4_balloc_get_bgid_of_block (fs_sb fs) a)) (unat (ext4_fs_addr_to_idx_bg (fs_sb fs) a))"

lemma vbit_calls [simp]: "vbit (fs\<lparr>fs_calls := n\<rparr>) = vbit fs"
  by (simp add: vbit_def fun_eq_iff)

lemma block_nat:
  assumes "vol_ok fs" "in_volume (fs_sb fs) a"
  defines "p \<equiv> unat (s_blocks_per_group (fs_sb fs))" and "x \<equiv> unat a - unat (s_first_data_block (fs_sb fs))"
  shows "unat (ext4_balloc_get_bgid_of_block (fs_sb fs) a) = x div p"
    and "unat (ext4_fs_addr_to_idx_bg (fs_sb fs) a) = x mod p"
    and "ext4_balloc_get_bgid_of_block (fs_sb fs) a < vcnt fs"
proof -
  have "ucast (s_first_data_block (fs_sb fs)) \<le> a" "a < ext4_sb_get_blocks_cnt (fs_sb fs)"
    using assms(2) by (simp_all add: in_volume_def)
  note bv = block_in_volume [OF assms(1) this]
  let ?g = "ext4_balloc_get_bgid_of_block (fs_sb fs) a" and ?i = "ext4_fs_addr_to_idx_bg (fs_sb fs) a"
  have x: "x = unat ?g * p + unat ?i" using idx_to_addr_nat [OF assms(1) bv(1,2)] bv(3) by (simp add: x_def p_def)
  have i: "unat ?i < p" using group_span(2) [OF assms(1) bv(1,2)] by (simp add: p_def)
  show "unat ?g = x div p" "unat ?i = x mod p" using i by (simp_all add: x)
  show "?g < vcnt fs" by (rule bv(1))
qed

text \<open>The part of a group that a range covers, in terms of offsets from the first data block.\<close>

lemma group_part_iff:
  assumes "n \<le> p - x mod p" "0 < (p :: nat)"
  shows "y div p = x div p \<and> x mod p \<le> y mod p \<and> y mod p < x mod p + n \<longleftrightarrow> x \<le> y \<and> y < x + n"
proof
  assume "y div p = x div p \<and> x mod p \<le> y mod p \<and> y mod p < x mod p + n"
  then have "y div p * p = x div p * p" "x mod p \<le> y mod p" "y mod p < x mod p + n" by simp_all
  then show "x \<le> y \<and> y < x + n" using div_mult_mod_eq [of x p] div_mult_mod_eq [of y p] by linarith
next
  assume r: "x \<le> y \<and> y < x + n"
  define k where "k = y - x"
  then have y: "y = x + k" "k < n" using r by auto
  then have lt: "x mod p + k < p" using assms by linarith
  have e: "y = x div p * p + (x mod p + k)" using y(1) by simp
  have "(q * p + m) div p = q \<and> (q * p + m) mod p = m" if "m < p" for q m using that by simp
  from this [OF lt, of "x div p"] have "y div p = x div p" "y mod p = x mod p + k" unfolding e [symmetric] by simp_all
  then show "y div p = x div p \<and> x mod p \<le> y mod p \<and> y mod p < x mod p + n" using y(2) by simp
qed

text \<open>A change of several groups.\<close>

definition vol_many :: "ext4_fs \<Rightarrow> ext4_fs \<Rightarrow> bool" where
  "vol_many fs fs' \<longleftrightarrow> vol_ok fs' \<and> (\<exists>c. fs_sb fs' = ext4_sb_set_free_blocks_cnt (fs_sb fs) c) \<and> meta_block fs' = meta_block fs"

lemma vol_many_chg: "vol_chg fs g fs' \<Longrightarrow> vol_many fs fs'"
  by (auto simp: vol_many_def vol_chg_def)

lemma vol_many_trans: "vol_many a b \<Longrightarrow> vol_many b c \<Longrightarrow> vol_many a c"
  by (auto simp: vol_many_def)

lemma vol_many_no_change: "vol_ok fs \<Longrightarrow> no_change fs fs' \<Longrightarrow> vol_many fs fs'"
  using vol_many_chg [OF vol_chg_refl] by (auto simp: no_change_def vol_many_def)


lemma sb_free_add:
  assumes "vol_many a b"
  shows "vcnt b = vcnt a" "in_volume (fs_sb b) = in_volume (fs_sb a)" "s_blocks_per_group (fs_sb b) = s_blocks_per_group (fs_sb a)"
    "s_first_data_block (fs_sb b) = s_first_data_block (fs_sb a)" "ext4_sb_get_block_size (fs_sb b) = ext4_sb_get_block_size (fs_sb a)"
    "iref_ok b iref = iref_ok a iref" "gref (fs_sb b) = gref (fs_sb a)"
    "ext4_fs_addr_to_idx_bg (fs_sb b) = ext4_fs_addr_to_idx_bg (fs_sb a)"
proof -
  from assms obtain c where c: "fs_sb b = ext4_sb_set_free_blocks_cnt (fs_sb a) c" "meta_block b = meta_block a"
    by (auto simp: vol_many_def)
  then show "vcnt b = vcnt a" "in_volume (fs_sb b) = in_volume (fs_sb a)" "s_blocks_per_group (fs_sb b) = s_blocks_per_group (fs_sb a)"
    "s_first_data_block (fs_sb b) = s_first_data_block (fs_sb a)" "ext4_sb_get_block_size (fs_sb b) = ext4_sb_get_block_size (fs_sb a)"
    "iref_ok b iref = iref_ok a iref" "gref (fs_sb b) = gref (fs_sb a)"
    "ext4_fs_addr_to_idx_bg (fs_sb b) = ext4_fs_addr_to_idx_bg (fs_sb a)"
    by (simp_all add: iref_ok_def gref_def fun_eq_iff)
qed

text \<open>One turn: the share of the group of \<open>first\<close>.\<close>

definition share :: "ext4_sblock \<Rightarrow> u64 \<Rightarrow> u32 \<Rightarrow> u32" where
  "share sb first count = (let free_cnt = ext4_sb_get_block_size sb * 8 - ext4_fs_addr_to_idx_bg sb first
     in if free_cnt < count then free_cnt else count)"

definition bits_gone :: "ext4_fs \<Rightarrow> u64 \<Rightarrow> nat \<Rightarrow> ext4_fs \<Rightarrow> bool" where
  "bits_gone fs first n fs' \<longleftrightarrow> (\<forall>a. in_volume (fs_sb fs) a \<longrightarrow>
     vbit fs' a = (vbit fs a \<and> \<not> (unat first \<le> unat a \<and> unat a < unat first + n)))"

lemma share_nat:
  assumes "vol_ok fs" "in_volume (fs_sb fs) first" "unat (s_blocks_per_group (fs_sb fs)) = 8 * unat (ext4_sb_get_block_size (fs_sb fs))"
  defines "p \<equiv> unat (s_blocks_per_group (fs_sb fs))" and "x \<equiv> unat first - unat (s_first_data_block (fs_sb fs))"
  shows "unat (share (fs_sb fs) first count) = min (p - x mod p) (unat count)" "0 < p"
proof -
  let ?bs = "ext4_sb_get_block_size (fs_sb fs)" and ?i = "ext4_fs_addr_to_idx_bg (fs_sb fs) first"
  have bs: "unat ?bs \<le> 65536" "0 < unat ?bs" using sb_block_size_cases [of "fs_sb fs"] by auto
  have p: "unat (?bs * 8) = p" using bs(1) assms(3) by (subst unat_word_ariths) (simp add: p_def)
  show "0 < p" using bs(2) assms(3) by (simp add: p_def)
  have i: "unat ?i = x mod p" unfolding x_def p_def by (rule block_nat(2) [OF assms(1,2)])
  have "unat ?i < p" using i \<open>0 < p\<close> by simp
  then have "unat (?bs * 8 - ?i) = p - x mod p" using p i by (subst unat_sub) (simp_all add: word_le_nat_alt)
  then show "unat (share (fs_sb fs) first count) = min (p - x mod p) (unat count)"
    by (auto simp: share_def Let_def word_less_nat_alt min_def)
qed

lemma share_bits:
  assumes "vol_ok fs" "in_volume (fs_sb fs) first" "n \<le> unat (s_blocks_per_group (fs_sb fs)) - unat (ext4_fs_addr_to_idx_bg (fs_sb fs) first)"
    and g: "g = ext4_balloc_get_bgid_of_block (fs_sb fs) first" and chg: "vol_chg fs g fs'"
    and clr: "bm_cleared (vbm fs g) (unat (ext4_fs_addr_to_idx_bg (fs_sb fs) first)) (unat (ext4_fs_addr_to_idx_bg (fs_sb fs) first) + n) (vbm fs' g)"
  shows "bits_gone fs first n fs'"
  unfolding bits_gone_def
proof (intro allI impI)
  fix a assume a: "in_volume (fs_sb fs) a"
  let ?f = "unat (s_first_data_block (fs_sb fs))" and ?p = "unat (s_blocks_per_group (fs_sb fs))"
  let ?x = "unat first - ?f" and ?y = "unat a - ?f"
  note bf = block_nat [OF assms(1,2)] and ba = block_nat [OF assms(1) a]
  have ge: "?f \<le> unat first" "?f \<le> unat a" using a assms(2) by (simp_all add: in_volume_def word_le_nat_alt)
  have p: "0 < ?p" using vol_okD(1) [OF assms(1)] by (simp add: sb_geometry_def Let_def)
  have n: "n \<le> ?p - ?x mod ?p" using assms(3) bf(2) by simp
  have sb: "ext4_balloc_get_bgid_of_block (fs_sb fs') = ext4_balloc_get_bgid_of_block (fs_sb fs)"
    "ext4_fs_addr_to_idx_bg (fs_sb fs') = ext4_fs_addr_to_idx_bg (fs_sb fs)"
    using chg by (auto simp: vol_chg_def)
  have shift: "?x \<le> ?y \<and> ?y < ?x + n \<longleftrightarrow> unat first \<le> unat a \<and> unat a < unat first + n" using ge by auto
  note part = group_part_iff [OF n p, of ?y, unfolded shift]
  show "vbit fs' a = (vbit fs a \<and> \<not> (unat first \<le> unat a \<and> unat a < unat first + n))"
  proof (cases "ext4_balloc_get_bgid_of_block (fs_sb fs) a = g")
    case True
    then have "?y div ?p = ?x div ?p" using ba(1) bf(1) g by simp
    then have e: "(?x mod ?p \<le> ?y mod ?p \<and> ?y mod ?p < ?x mod ?p + n) = (unat first \<le> unat a \<and> unat a < unat first + n)"
      using part by blast
    have "bm_bit (vbm fs' g) (?y mod ?p) = (bm_bit (vbm fs g) (?y mod ?p) \<and> \<not> (?x mod ?p \<le> ?y mod ?p \<and> ?y mod ?p < ?x mod ?p + n))"
      using clr bf(2) by (simp add: bm_cleared_def)
    then show ?thesis unfolding e using True ba(2) by (simp add: vbit_def sb)
  next
    case False
    then have "?y div ?p \<noteq> ?x div ?p" using ba(1) bf(1) g by (auto simp: word_unat_eq_iff)
    then have "\<not> (unat first \<le> unat a \<and> unat a < unat first + n)" using part by blast
    then show ?thesis using False vol_chgD(6) [OF chg ba(3)] by (simp add: vbit_def sb)
  qed
qed


definition full_groups :: "ext4_fs \<Rightarrow> bool" where
  "full_groups fs \<longleftrightarrow> unat (s_blocks_per_group (fs_sb fs)) = 8 * unat (ext4_sb_get_block_size (fs_sb fs))"

lemma group_share_spec:
  assumes ok: "vol_ok fs" "iref_ok fs iref" "full_groups fs" "in_volume (fs_sb fs) first"
    and g: "g = ext4_balloc_get_bgid_of_block (fs_sb fs) first" and n: "n = share (fs_sb fs) first count"
    and run: "free_group_share iref g first count fs = (r, fs')"
  shows "(\<exists>e. r = Err e) \<and> no_change fs fs' \<or>
    r = Ret (iref\<lparr>ir_dirty := True\<rparr>, first + ucast n, count - n) \<and> vol_many fs fs' \<and> bits_gone fs first (unat n) fs' \<and>
    ext4_sb_get_free_blocks_cnt (fs_sb fs') = ext4_sb_get_free_blocks_cnt (fs_sb fs) + ucast n"
proof -
  let ?sb = "fs_sb fs"
  define i where "i = ext4_fs_addr_to_idx_bg ?sb first"
  note bn = block_nat [OF ok(1,4), folded g i_def]
  note sn = share_nat(1) [OF ok(1,4) ok(3) [unfolded full_groups_def], of count, folded n]
    share_nat(2) [OF ok(1,4) ok(3) [unfolded full_groups_def]]
  have nl: "unat i + unat n \<le> unat (s_blocks_per_group ?sb)"
    using sn(1) bn(2) mod_less_divisor [OF sn(2), of "unat first - unat (s_first_data_block ?sb)"] by linarith
  have len: "length (vbm fs g) = unat (ext4_sb_get_block_size ?sb)" by (simp add: vbm_def vol_okD(6) [OF ok(1)])
  have "unat (ext4_sb_get_block_size ?sb) \<le> 65536" using sb_block_size_cases [of ?sb] by auto
  then have rng: "unat i + unat n \<le> 8 * length (vbm fs g)" "unat i + unat n < 2 ^ 32"
    using nl len ok(3) by (simp_all add: full_groups_def)
  from bits_free_cleared [OF rng] obtain bm' where bm': "ext4_bmap_bits_free (vbm fs g) i n = Some bm'"
    and clr: "bm_cleared (vbm fs g) (unat i) (unat i + unat n) bm'" by blast
  have len': "length bm' = unat (ext4_sb_get_block_size ?sb)" using clr len by (simp add: bm_cleared_def)
  obtain r1 fs1 where gr: "ext4_fs_get_block_group_ref g fs = (r1, fs1)" by fastforce
  from get_ref_outcome [OF ok(1) bn(3) gr] obtain n1 where fs1: "fs1 = fs\<lparr>fs_calls := n1\<rparr>"
    and r1: "r1 = Ret (gref ?sb g) \<or> (\<exists>e. r1 = Err e)" by blast
  obtain r2 fs2 where gb: "balloc_get_bitmap (gref (fs_sb fs1) g) fs1 = (r2, fs2)" by fastforce
  have ok1: "vol_ok fs1" "g < vcnt fs1" using ok(1) bn(3) fs1 by simp_all
  from get_bitmap_outcome [OF ok1 gb] fs1 obtain n2 where fs2: "fs2 = fs\<lparr>fs_calls := n2\<rparr>"
    and r2: "r2 = Ret (vbb fs g) \<or> (\<exists>e. r2 = Err e)" by auto
  have nc: "no_change fs fs1" "no_change fs fs2" using fs1 fs2 by (auto simp: no_change_def)
  note run' = run [unfolded free_group_share_def fs_bind_def gr prod.case]
  show ?thesis
  proof (cases "(\<exists>e. r1 = Err e) \<or> (\<exists>e. r2 = Err e)")
    case True
    then have "\<exists>e. r = Err e \<and> (fs' = fs1 \<or> fs' = fs2)"
      using run' r1 gb fs1 by (auto simp: fs_gets_def Let_def)
    then show ?thesis using nc by blast
  next
    case False
    with r1 r2 have r1: "r1 = Ret (gref ?sb g)" and r2: "r2 = Ret (vbb fs g)" by auto
    have ok2: "vol_ok fs2" "g < vcnt fs2" "length bm' = unat (ext4_sb_get_block_size (fs_sb fs2))"
      using ok bn(3) len' fs2 by simp_all
    obtain fs3 where r3: "balloc_put_bitmap (gref (fs_sb fs2) g) (vbb fs2 g) bm' fs2 = (Ret (), fs3)"
      and c3: "vol_chg fs2 g fs3" and s3: "fs_sb fs3 = fs_sb fs2" and m3: "vbm fs3 g = bm'"
      by (rule put_bitmap_spec [OF ok2])
    note d3 = vol_chgD [OF c3]
    have ok3: "vol_ok fs3" "g < vcnt fs3" "iref_ok fs3 iref"
      using d3(1,2) ok2(2) iref_ok_chg [OF c3] ok(2) fs2 by (simp_all add: iref_ok_def)
    obtain fs4 fs5 fs6 where r4: "sb_add_free_blocks (ucast n) fs3 = (Ret (), fs4)"
      and s4: "fs_sb fs4 = ext4_sb_set_free_blocks_cnt (fs_sb fs3) (ext4_sb_get_free_blocks_cnt (fs_sb fs3) + ucast n)"
      and r5: "inode_add_blocks iref (- ucast (n * (ext4_sb_get_block_size ?sb div EXT4_INODE_BLOCK_SIZE))) fs4 = (Ret (iref\<lparr>ir_dirty := True\<rparr>), fs5)"
      and s5: "fs_sb fs5 = fs_sb fs4"
      and r6: "bg_add_free_blocks (gref (fs_sb fs3) g) n fs5 = (Ret (), fs6)" and s6: "fs_sb fs6 = fs_sb fs5"
      and c6: "vol_chg fs3 g fs6" and m6: "vbm fs6 g = vbm fs3 g"
      by (rule counters_spec [OF ok3])
    note d6 = vol_chgD [OF c6]
    have ok6: "vol_ok fs6" "g < vcnt fs6" using d6(1,2) ok3(2) by simp_all
    obtain fs7 where r7: "ext4_fs_put_block_group_ref ((gref (fs_sb fs6) g)\<lparr>bgr_dirty := True\<rparr>) fs6 = (Ret (), fs7)"
      and c7: "vol_chg fs6 g fs7" and s7: "fs_sb fs7 = fs_sb fs6" and m7: "vbm fs7 g = vbm fs6 g"
      by (rule put_ref_spec [OF ok6])
    have c: "vol_chg fs g fs7" using vol_chg_trans [OF vol_chg_trans [OF c3 c6] c7] fs2 by simp
    have bm: "fs_blk fs (vbb fs g) = vbm fs g" by (simp add: vbm_def)
    have refs: "gref (fs_sb fs3) = gref ?sb" "gref (fs_sb fs6) = gref ?sb" using s3 fs2 d6(9) by simp_all
    have sb1: "fs_sb fs1 = ?sb" by (simp add: fs1)
    have sh: "(if ext4_sb_get_block_size ?sb * 8 - i < count then ext4_sb_get_block_size ?sb * 8 - i else count) = n"
      by (simp add: n share_def i_def Let_def)
    have "r = Ret (iref\<lparr>ir_dirty := True\<rparr>, first + ucast n, count - n)" "fs' = fs7"
      using run' [unfolded r1 fsres.case fs_gets_def prod.case sb1 Let_def i_def [symmetric] sh] gb r2 r3 r4 r5 r6 r7 fs1 fs2 bm refs bm'
      by (simp_all add: blk_get_def fs_gets_def fs_mem_def fs_return_def)
    moreover have "bits_gone fs first (unat n) fs7"
      using share_bits [OF ok(1,4) _ g c] nl clr m3 m6 m7 by (simp add: i_def)
    moreover have "ext4_sb_get_free_blocks_cnt (fs_sb fs7) = ext4_sb_get_free_blocks_cnt ?sb + ucast n"
      using s3 s4 s5 s6 s7 fs2 get_set_free by simp
    ultimately show ?thesis using vol_many_chg [OF c] by simp
  qed
qed


text \<open>The whole loop, from the group of the first block to that of the last.\<close>

lemma bits_gone_trans:
  assumes "bits_gone a x m b" "bits_gone b y n c" "in_volume (fs_sb b) = in_volume (fs_sb a)" "unat y = unat x + m"
  shows "bits_gone a x (m + n) c"
  using assms unfolding bits_gone_def by auto

lemma bits_gone_zero: "bits_gone fs x 0 fs"
  by (simp add: bits_gone_def)

definition only_range :: "ext4_fs \<Rightarrow> u64 \<Rightarrow> nat \<Rightarrow> ext4_fs \<Rightarrow> bool" where
  "only_range fs first n fs' \<longleftrightarrow> (\<forall>a. in_volume (fs_sb fs) a \<longrightarrow> \<not> (unat first \<le> unat a \<and> unat a < unat first + n) \<longrightarrow>
     vbit fs' a = vbit fs a)"

lemma groups_left:
  fixes x c p n :: nat
  assumes "0 < c" "0 < p" "n = min (p - x mod p) c"
  shows "n = c \<and> (x + c - 1) div p = x div p \<or>
    n < c \<and> (x + n) div p = Suc (x div p) \<and> (x + c - 1) div p = (x + n + (c - n) - 1) div p \<and> Suc (x div p) \<le> (x + c - 1) div p"
proof (cases "c \<le> p - x mod p")
  case True
  then have n: "n = c" using assms(3) by simp
  have lt: "x mod p + (c - 1) < p" using True assms(1,2) mod_less_divisor [OF assms(2), of x] by linarith
  have e: "x + c - 1 = x div p * p + (x mod p + (c - 1))" using assms(1) by simp
  have "(q * p + m) div p = q" if "m < p" for q m using that by simp
  from this [OF lt, of "x div p"] show ?thesis using n e by simp
next
  case False
  then have n: "n = p - x mod p" "n < c" using assms(3) by simp_all
  have e: "x + n = Suc (x div p) * p" using n(1) mod_less_divisor [OF assms(2), of x] div_mult_mod_eq [of x p]
    by (simp only: mult_Suc)
  then have d: "(x + n) div p = Suc (x div p)" using assms(2) by simp
  have "(x + n) div p \<le> (x + c - 1) div p" using n(2) by (intro div_le_mono) simp
  then show ?thesis using n(2) d by simp
qed

lemma free_groups_spec:
  assumes "vol_ok fs" "iref_ok fs iref" "full_groups fs"
    and "count \<noteq> 0 \<Longrightarrow> in_volume (fs_sb fs) first \<and> unat first + unat count \<le> unat (ext4_sb_get_blocks_cnt (fs_sb fs)) \<and>
      bg = ext4_balloc_get_bgid_of_block (fs_sb fs) first \<and>
      n = (unat first - unat (s_first_data_block (fs_sb fs)) + unat count - 1) div unat (s_blocks_per_group (fs_sb fs)) + 1 - unat bg"
    and "count = 0 \<Longrightarrow> n = 0"
    and "free_groups n iref bg first count fs = (r, fs')"
  shows "vol_many fs fs' \<and> only_range fs first (unat count) fs' \<and> (case r of Crash \<Rightarrow> False | Err e \<Rightarrow> True
    | Ret (iref', left) \<Rightarrow> left = 0 \<and> (iref' = iref \<or> iref' = iref\<lparr>ir_dirty := True\<rparr>) \<and>
        bits_gone fs first (unat count) fs' \<and>
        ext4_sb_get_free_blocks_cnt (fs_sb fs') = ext4_sb_get_free_blocks_cnt (fs_sb fs) + ucast count)"
  using assms
proof (induction n arbitrary: fs iref bg first count)
  case 0
  have "count = 0"
  proof (rule ccontr)
    assume c: "count \<noteq> 0"
    note v = "0.prems"(4) [OF c]
    have c0: "0 < unat count" using c by (simp add: unat_gt_0)
    have "unat bg = (unat first - unat (s_first_data_block (fs_sb fs))) div unat (s_blocks_per_group (fs_sb fs))"
      using v block_nat(1) [OF "0.prems"(1)] by blast
    also have "\<dots> \<le> (unat first - unat (s_first_data_block (fs_sb fs)) + unat count - 1) div unat (s_blocks_per_group (fs_sb fs))"
      using c0 by (intro div_le_mono) simp
    finally show False using v by linarith
  qed
  with "0.prems" show ?case
    using vol_many_chg [OF vol_chg_refl [OF "0.prems"(1)]] bits_gone_zero by (auto simp: fs_return_def only_range_def)
next
  case (Suc k)
  let ?sb = "fs_sb fs" and ?p = "unat (s_blocks_per_group (fs_sb fs))" and ?f = "unat (s_first_data_block (fs_sb fs))"
  have c: "count \<noteq> 0" using Suc.prems(5) by blast
  then have c0: "0 < unat count" by (simp add: unat_gt_0)
  note v = Suc.prems(4) [OF c]
  have inv: "in_volume ?sb first" using v by blast
  define n where "n = share ?sb first count"
  note sn = share_nat(1) [OF Suc.prems(1) inv Suc.prems(3) [unfolded full_groups_def], of count, folded n_def]
    share_nat(2) [OF Suc.prems(1) inv Suc.prems(3) [unfolded full_groups_def]]
  let ?x = "unat first - ?f"
  have bg: "unat bg = ?x div ?p" "bg = ext4_balloc_get_bgid_of_block ?sb first"
    using v block_nat(1) [OF Suc.prems(1) inv] by blast+
  have ge: "?f \<le> unat first" using inv by (simp add: in_volume_def word_le_nat_alt)
  note gl = groups_left [OF c0 sn(2) sn(1)]
  obtain r1 fs1 where sh: "free_group_share iref bg first count fs = (r1, fs1)" by fastforce
  note out = group_share_spec [OF Suc.prems(1-3) inv bg(2) n_def sh]
  show ?case
  proof (cases "\<exists>e. r1 = Err e")
    case True
    with out have "no_change fs fs1" by auto
    moreover from True Suc.prems(6) sh have "fs' = fs1" "\<exists>e. r = Err e" by (auto simp: fs_bind_def)
    ultimately show ?thesis
      using vol_many_no_change [OF Suc.prems(1)] by (auto simp: only_range_def no_change_def)
  next
    case False
    with out have r1: "r1 = Ret (iref\<lparr>ir_dirty := True\<rparr>, first + ucast n, count - n)" and m1: "vol_many fs fs1"
      and b1: "bits_gone fs first (unat n) fs1"
      and f1: "ext4_sb_get_free_blocks_cnt (fs_sb fs1) = ext4_sb_get_free_blocks_cnt ?sb + ucast n" by auto
    have B: "unat (ext4_sb_get_blocks_cnt ?sb) < 2 ^ 32" by (rule vol_okD(4) [OF Suc.prems(1)])
    have nc: "unat n \<le> unat count" using sn(1) by simp
    have fn: "unat (first + ucast n) = unat first + unat n"
      using v nc B by (subst unat_word_ariths) simp
    have cn: "unat (count - n) = unat count - unat n" using nc by (subst unat_sub) (simp_all add: word_le_nat_alt)
    note s1 = sb_free_add [OF m1]
    have ok1: "vol_ok fs1" "iref_ok fs1 (iref\<lparr>ir_dirty := True\<rparr>)" "full_groups fs1"
      using m1 Suc.prems(2,3) s1(3,5,6) by (simp_all add: vol_many_def full_groups_def)
    have cz: "(count - n = 0) = (unat n = unat count)" using cn nc by (auto simp: word_unat_eq_iff)
    have kn: "Suc k = (?x + unat count - 1) div ?p + 1 - unat bg" using v by blast
    have more: "in_volume (fs_sb fs1) (first + ucast n) \<and>
        unat (first + ucast n) + unat (count - n) \<le> unat (ext4_sb_get_blocks_cnt (fs_sb fs1)) \<and>
        bg + 1 = ext4_balloc_get_bgid_of_block (fs_sb fs1) (first + ucast n) \<and>
        k = (unat (first + ucast n) - unat (s_first_data_block (fs_sb fs1)) + unat (count - n) - 1) div
          unat (s_blocks_per_group (fs_sb fs1)) + 1 - unat (bg + 1)" if ne: "count - n \<noteq> 0"
    proof -
      have gl2: "unat n < unat count" "(?x + unat n) div ?p = Suc (?x div ?p)" "Suc (?x div ?p) \<le> (?x + unat count - 1) div ?p"
        using gl ne cz by linarith+
      have in1: "in_volume ?sb (first + ucast n)"
        using inv v fn gl2(1) by (simp add: in_volume_def word_le_nat_alt word_less_nat_alt)
      have x1: "unat (first + ucast n) - ?f = ?x + unat n" using fn ge by linarith
      have bgn: "unat (ext4_balloc_get_bgid_of_block ?sb (first + ucast n)) = Suc (?x div ?p)"
        using block_nat(1) [OF Suc.prems(1) in1] gl2(2) x1 by simp
      have "unat (bg + 1) = unat bg + 1"
        using bgn bg(1) unat_u32_lt [of "ext4_balloc_get_bgid_of_block ?sb (first + ucast n)"] by (intro unat_Suc_word) simp
      moreover from this have "bg + 1 = ext4_balloc_get_bgid_of_block ?sb (first + ucast n)" using bgn bg(1) by (simp add: word_unat_eq_iff)
      moreover have "unat (first + ucast n) + unat (count - n) \<le> unat (ext4_sb_get_blocks_cnt ?sb)" using v fn cn nc by linarith
      moreover have "?x + unat n + unat (count - n) = ?x + unat count" using cn nc by linarith
      moreover have "ext4_balloc_get_bgid_of_block (fs_sb fs1) = ext4_balloc_get_bgid_of_block ?sb"
        "ext4_sb_get_blocks_cnt (fs_sb fs1) = ext4_sb_get_blocks_cnt ?sb" using m1 by (auto simp: vol_many_def)
      ultimately show ?thesis using in1 s1(2-4) x1 kn by (simp only: simp_thms) linarith
    qed
    have none: "k = 0" if "count - n = 0"
      using gl kn bg(1) cz that by linarith
    have rest: "free_groups k (iref\<lparr>ir_dirty := True\<rparr>) (bg + 1) (first + ucast n) (count - n) fs1 = (r, fs')"
      using Suc.prems(6) sh r1 by (simp add: fs_bind_def)
    note ih = Suc.IH [OF ok1 more none rest]
    have tot: "unat n + unat (count - n) = unat count" using cn nc by linarith
    have "only_range fs first (unat count) fs'"
      unfolding only_range_def
    proof (intro allI impI)
      fix a assume a: "in_volume ?sb a" "\<not> (unat first \<le> unat a \<and> unat a < unat first + unat count)"
      then have "vbit fs1 a = vbit fs a" using b1 nc by (auto simp: bits_gone_def)
      moreover have "\<not> (unat (first + ucast n) \<le> unat a \<and> unat a < unat (first + ucast n) + unat (count - n))"
        using a(2) fn tot by linarith
      then have "vbit fs' a = vbit fs1 a" using ih a(1) s1(2) by (auto simp: only_range_def)
      ultimately show "vbit fs' a = vbit fs a" by simp
    qed
    moreover have "vol_many fs fs'" using vol_many_trans [OF m1] ih by blast
    moreover have "bits_gone fs first (unat count) fs'" if "bits_gone fs1 (first + ucast n) (unat (count - n)) fs'"
      using bits_gone_trans [OF b1 that s1(2) fn] tot by simp
    moreover have "(ucast n :: u64) + ucast (count - n) = ucast count"
      using tot unat_u32_lt [of count] by (simp add: word_unat_eq_iff unat_word_ariths)
    ultimately show ?thesis using ih f1 by (auto simp: add.assoc split: fsres.splits)
  qed
qed


lemma revoke_outcome:
  assumes "revoke_blocks n b fs = (r, fs')"
  shows "no_change fs fs' \<and> (r = Ret () \<or> (\<exists>e. r = Err e))"
  using assms
proof (induction n arbitrary: b fs)
  case 0
  then show ?case using calls_self [of fs] by (auto simp: fs_return_def no_change_def)
next
  case (Suc n)
  obtain r1 fs1 where a: "fs_ask fs = (r1, fs1)" by fastforce
  then have "no_change fs fs1" "r1 = Ret () \<or> (\<exists>e. r1 = Err e)"
    by (auto simp: fs_ask_def Let_def no_change_def split: if_splits)
  then show ?case
    using Suc.prems Suc.IH [of "b + 1" fs1] a no_change_trans [of fs fs1 fs']
    by (auto simp: fs_bind_def ext4_trans_try_revoke_block_def)
qed

text \<open>The range of a call, and what the call refuses.\<close>

definition bad_range :: "ext4_sblock \<Rightarrow> u64 \<Rightarrow> u32 \<Rightarrow> bool" where
  "bad_range sb first count \<longleftrightarrow>
     first < ucast (s_first_data_block sb) \<or> unat (ext4_sb_get_blocks_cnt sb) < unat first + unat count"

lemma range_check:
  assumes "count \<noteq> 0"
  shows "(first < ucast (s_first_data_block sb) \<or> ext4_sb_get_blocks_cnt sb \<le> first \<or>
     ext4_sb_get_blocks_cnt sb - first < ucast count) = bad_range sb first count"
proof (cases "ext4_sb_get_blocks_cnt sb \<le> first")
  case True
  then show ?thesis using assms by (simp add: bad_range_def word_le_nat_alt unat_gt_0 trans_le_add1 order.strict_trans1 [of _ "unat first"])
next
  case False
  then have "unat (ext4_sb_get_blocks_cnt sb - first) = unat (ext4_sb_get_blocks_cnt sb) - unat first"
    by (subst unat_sub) simp_all
  then show ?thesis using False by (auto simp: bad_range_def word_le_nat_alt word_less_nat_alt)
qed

section \<open>Properties\<close>

text \<open>C18: freeing a block of a well-formed volume that is not metadata never goes outside a buffer.  If it
  succeeds, the bit of the block, and no other bit of any group, is cleared, the free counts of its group
  and of the superblock are one more, and bitmap and descriptor verify; a bitmap that does not verify is
  refused.  If it fails, either nothing has changed, or only the journal refused to revoke the block, which
  is free by then.  The volume stays well-formed.\<close>

theorem free_block_correct:
  assumes "vol_ok fs" "iref_ok fs iref" "in_volume (fs_sb fs) a" "\<not> meta_block fs a"
  shows "case ext4_balloc_free_block iref a fs of (r, fs') \<Rightarrow> free_result fs iref a r fs' \<and> vol_ok fs'"
proof -
  obtain r fs' where run: "ext4_balloc_free_block iref a fs = (r, fs')" by fastforce
  have res: "free_result fs iref a r fs'" using free_block_result [OF assms run] by blast
  then have "vol_ok fs'"
    using assms(1) by (auto simp: free_result_def no_change_def gave_def vol_chg_def Let_def split: fsres.splits)
  with run res show ?thesis by simp
qed

lemma vol_example_meta: "meta_block vol_example l \<longleftrightarrow> l = 1 \<or> l = 2"
  using vol_example_views(1,3) by (auto simp: meta_block_def)

lemma iref_example_ok: "iref_ok vol_example iref_example"
  by (simp add: iref_ok_def iref_example_def vol_example_meta)

theorem free_block_correct_witness:
  "case ext4_balloc_free_block iref_example 7 vol_example of (r, fs') \<Rightarrow>
     free_result vol_example iref_example 7 r fs' \<and> vol_ok fs'"
  by (rule free_block_correct [OF vol_example_ok iref_example_ok]) (simp_all add: in_volume_def vol_example_meta)

text \<open>C15: freeing a range refuses one that is not wholly inside the volume and then changes nothing.
  Otherwise it never goes outside a buffer, no block outside the range changes its state, also when it
  fails half-way, and if it succeeds every block of the range is free, the superblock's free count has
  grown by the length of the range, and the assertion at its end holds.  This is for volumes whose groups
  fill their bitmap block, which is what the share of a group is computed from.\<close>

theorem free_blocks_correct:
  assumes "vol_ok fs" "iref_ok fs iref" "full_groups fs"
    and "\<And>a. unat first \<le> unat a \<Longrightarrow> unat a < unat first + unat count \<Longrightarrow> \<not> meta_block fs a"
  shows "case ext4_balloc_free_blocks iref first count fs of (r, fs') \<Rightarrow>
    if count \<noteq> 0 \<and> bad_range (fs_sb fs) first count then r = Err EINVAL \<and> fs' = fs
    else vol_ok fs' \<and> only_range fs first (unat count) fs' \<and> (case r of Crash \<Rightarrow> False | Err e \<Rightarrow> True
      | Ret _ \<Rightarrow> bits_gone fs first (unat count) fs' \<and>
          ext4_sb_get_free_blocks_cnt (fs_sb fs') = ext4_sb_get_free_blocks_cnt (fs_sb fs) + ucast count)"
proof -
  obtain r fs' where res: "ext4_balloc_free_blocks iref first count fs = (r, fs')" by fastforce
  show ?thesis
  proof (cases "count = 0")
    case True
    then show ?thesis using assms(1) bits_gone_zero
      by (simp add: ext4_balloc_free_blocks_def fs_bind_def fs_gets_def Let_def fs_return_def only_range_def)
  next
    case False
    note rc = range_check [OF False, of first "fs_sb fs"]
    note res' = res [unfolded ext4_balloc_free_blocks_def fs_bind_def fs_gets_def Let_def prod.case fsres.case if_not_P [OF False] rc]
    show ?thesis
    proof (cases "bad_range (fs_sb fs) first count")
      case True
      then show ?thesis using res' False res by (simp add: fs_fail_def)
    next
      case good: False
      let ?sb = "fs_sb fs" and ?last = "first + ucast count - 1" and ?f = "unat (s_first_data_block (fs_sb fs))"
      define n where "n = unat (ext4_balloc_get_bgid_of_block ?sb ?last) + 1 - unat (ext4_balloc_get_bgid_of_block ?sb first)"
      have B: "unat (ext4_sb_get_blocks_cnt ?sb) < 2 ^ 32" by (rule vol_okD(4) [OF assms(1)])
      have c0: "0 < unat count" using False by (simp add: unat_gt_0)
      have rg: "?f \<le> unat first" "unat first + unat count \<le> unat (ext4_sb_get_blocks_cnt ?sb)"
        using good by (simp_all add: bad_range_def word_less_nat_alt)
      have sum: "unat (first + ucast count) = unat first + unat count" using rg(2) B by (subst unat_word_ariths) simp
      then have "first + ucast count \<noteq> 0" using c0 by auto
      then have last: "unat ?last = unat first + unat count - 1" using sum by (simp add: unat_minus_one)
      have vols: "in_volume ?sb first" "in_volume ?sb ?last"
        using rg last c0 by (auto simp: in_volume_def word_le_nat_alt word_less_nat_alt)
      have "unat ?last - ?f = unat first - ?f + unat count - 1" using last rg c0 by linarith
      then have n: "n = (unat first - ?f + unat count - 1) div unat (s_blocks_per_group ?sb) + 1 -
          unat (ext4_balloc_get_bgid_of_block ?sb first)"
        using block_nat(1) [OF assms(1) vols(2)] by (simp add: n_def)
      obtain r1 fs1 where fg: "free_groups n iref (ext4_balloc_get_bgid_of_block ?sb first) first count fs = (r1, fs1)" by fastforce
      have spec: "vol_many fs fs1 \<and> only_range fs first (unat count) fs1 \<and> (case r1 of Crash \<Rightarrow> False | Err e \<Rightarrow> True
        | Ret (iref', left) \<Rightarrow> left = 0 \<and> (iref' = iref \<or> iref' = iref\<lparr>ir_dirty := True\<rparr>) \<and>
            bits_gone fs first (unat count) fs1 \<and>
            ext4_sb_get_free_blocks_cnt (fs_sb fs1) = ext4_sb_get_free_blocks_cnt (fs_sb fs) + ucast count)"
        by (rule free_groups_spec [OF assms(1-3) _ _ fg]) (use vols rg n False in auto)
      obtain r2 fs2 where rv: "revoke_blocks (unat count) first fs1 = (r2, fs2)" by fastforce
      note ro = revoke_outcome [OF rv]
      have ok2: "vol_ok fs2" "\<And>l. first \<le> l \<Longrightarrow> unat l < unat first + unat count \<Longrightarrow> \<not> meta_block fs2 l"
        using spec ro assms(4) by (auto simp: vol_many_def no_change_def word_le_nat_alt)
      obtain fs3 where iv: "fs_invalidate_lba first count fs2 = (Ret (), fs3)" and c3: "vol_chg fs2 0 fs3" "fs_sb fs3 = fs_sb fs2"
        and m3: "\<And>h. h < vcnt fs2 \<Longrightarrow> vbm fs3 h = vbm fs2 h"
        using invalidate_data [OF ok2, where g = 0] by blast
      have same2: "vbit fs2 = vbit fs1" "fs_sb fs2 = fs_sb fs1" using ro by (auto simp: no_change_def)
      have bit3: "vbit fs3 a = vbit fs1 a" if "in_volume ?sb a" for a
      proof -
        have "in_volume (fs_sb fs2) a" using that same2(2) spec sb_free_add(2) by metis
        then have "vbit fs3 a = vbit fs2 a" using m3 [OF block_nat(3) [OF ok2(1)]] c3(2) by (simp add: vbit_def)
        then show ?thesis using same2(1) by simp
      qed
      have keep: "only_range fs first (unat count) f" "bits_gone fs first (unat count) fs1 \<Longrightarrow> bits_gone fs first (unat count) f"
        if "f = fs1 \<or> f = fs2 \<or> f = fs3" for f
        using that spec bit3 same2(1) by (auto simp: only_range_def bits_gone_def)
      have oks: "vol_ok fs1" "vol_ok fs2" "vol_ok fs3" using spec ok2(1) c3(1) by (auto simp: vol_many_def vol_chg_def)
      consider (groups) e where "r1 = Err e" | (revoke) p e where "r1 = Ret p" "r2 = Err e"
        | (all) i2 where "r1 = Ret (i2, 0)" "r2 = Ret ()"
        using spec ro by (cases r1) auto
      then have out: "(\<exists>e. r = Err e) \<and> (fs' = fs1 \<or> fs' = fs2) \<or> (\<exists>i2. r = Ret i2 \<and> r1 = Ret (i2, 0)) \<and> fs' = fs3"
        using res' good fg rv iv unfolding n_def by cases (auto simp: fs_return_def split: prod.splits)
      have "vol_ok fs'" "only_range fs first (unat count) fs'" using out oks keep(1) [of fs'] by blast+
      moreover have "case r of Crash \<Rightarrow> False | Err e \<Rightarrow> True | Ret _ \<Rightarrow> bits_gone fs first (unat count) fs' \<and>
          ext4_sb_get_free_blocks_cnt (fs_sb fs') = ext4_sb_get_free_blocks_cnt (fs_sb fs) + ucast count"
      proof (cases r)
        case (Ret i2)
        then have "fs' = fs3" "r1 = Ret (i2, 0)" using out by auto
        then show ?thesis using Ret spec keep(2) [of fs3] c3(2) same2(2) by simp
      qed (use out in auto)
      ultimately show ?thesis using good res by simp
    qed
  qed
qed


theorem free_blocks_correct_witness:
  "case ext4_balloc_free_blocks iref_example 7 20 vol_example of (r, fs') \<Rightarrow>
    if (20 :: u32) \<noteq> 0 \<and> bad_range (fs_sb vol_example) 7 20 then r = Err EINVAL \<and> fs' = vol_example
    else vol_ok fs' \<and> only_range vol_example 7 (unat (20 :: u32)) fs' \<and> (case r of Crash \<Rightarrow> False | Err e \<Rightarrow> True
      | Ret _ \<Rightarrow> bits_gone vol_example 7 (unat (20 :: u32)) fs' \<and>
          ext4_sb_get_free_blocks_cnt (fs_sb fs') = ext4_sb_get_free_blocks_cnt (fs_sb vol_example) + ucast (20 :: u32))"
proof (rule free_blocks_correct [OF vol_example_ok iref_example_ok])
  show "full_groups vol_example" by (simp add: full_groups_def)
  show "\<not> meta_block vol_example a" if "unat (7 :: u64) \<le> unat a" for a
    using that by (auto simp: vol_example_meta)
qed

end
