(* ===== verification/Alloc_Live.thy ===== *)
theory Alloc_Live
  imports Free_Spec
begin

unbundle bit_operations_syntax

text \<open>
  The other half of the allocator's contract: when the device answers every request and the bitmaps verify,
  the search finds a block whenever there is one, wherever it is, and freeing a block just allocated puts
  every bitmap and counter back.
\<close>

section \<open>Finding a block\<close>

definition has_space :: "ext4_fs \<Rightarrow> u32 \<Rightarrow> bool" where
  "has_space fs g \<longleftrightarrow> ext4_bg_get_free_blocks_count (vbg fs g) (fs_sb fs) \<noteq> 0 \<and>
     (\<exists>i < unat (ext4_blocks_in_group_cnt (fs_sb fs) g). \<not> bm_bit (vbm fs g) i)"

lemma has_space_calls [simp]: "has_space (fs\<lparr>fs_calls := n\<rparr>) = has_space fs"
  by (simp add: has_space_def fun_eq_iff)

text \<open>In one group: a block unless the counter is zero or the choice finds nothing.\<close>

lemma alloc_in_group_live:
  assumes "vol_ok fs" "no_fail fs" "g < vcnt fs" "iref_ok fs iref"
    and pick: "pick_ok pick (unat (ext4_sb_get_block_size (fs_sb fs))) lim"
    and run: "alloc_in_group pick (gref (fs_sb fs) g) fs = (r, fs')"
  shows "r = Ret None \<and> no_change fs fs' \<and>
      (ext4_bg_get_free_blocks_count (vbg fs g) (fs_sb fs) = 0 \<or> pick (vbm fs g) = Some None) \<or>
    (\<exists>i. pick (vbm fs g) = Some (Some i) \<and> r = Ret (Some (ext4_fs_bg_idx_to_addr (fs_sb fs) i g)))"
proof (cases "ext4_bg_get_free_blocks_count (vbg fs g) (fs_sb fs) = 0")
  case True
  then show ?thesis
    using run calls_self by (auto simp: alloc_in_group_def fs_bind_def fs_gets_def bgref_ops fs_return_def no_change_def)
next
  case nz: False
  have len: "length (vbm fs g) = unat (ext4_sb_get_block_size (fs_sb fs))" by (simp add: vbm_def vol_okD(6) [OF assms(1)])
  have bm: "fs_blk fs (vbb fs g) = vbm fs g" by (simp add: vbm_def)
  note run' = run [unfolded alloc_in_group_def fs_bind_def fs_gets_def bgref_ops fsres.case prod.case if_not_P [OF nz]
      get_bitmap_ok [OF assms(1-3)]]
  from pick len obtain c where c: "pick (vbm fs g) = Some c" by (auto simp: pick_ok_def)
  show ?thesis
  proof (cases c)
    case None
    then show ?thesis
      using run' c bm by (auto simp: blk_get_def fs_gets_def fs_mem_def fs_on_error_def blk_release_def fs_return_def no_change_def)
  next
    case (Some i)
    let ?fs = "fs\<lparr>fs_calls := fs_calls fs + 1\<rparr>" and ?bm = "bm_upd (vbm fs g) (unat i) True"
    from pick len c Some have "unat i < 8 * length (vbm fs g)" by (auto simp: pick_ok_def)
    then have b: "ext4_bmap_bit_set (vbm fs g) i = Some ?bm" by (simp add: bit_set_eq)
    have ok: "vol_ok ?fs" "g < vcnt ?fs" "length ?bm = unat (ext4_sb_get_block_size (fs_sb ?fs))"
      using assms(1,3) len by simp_all
    obtain fs2 where "balloc_put_bitmap (gref (fs_sb ?fs) g) (vbb ?fs g) ?bm ?fs = (Ret (), fs2)"
      by (rule put_bitmap_spec [OF ok])
    then show ?thesis
      using run' c bm Some b by (auto simp: blk_get_def fs_gets_def fs_mem_def fs_return_def)
  qed
qed

text \<open>In every group in turn.\<close>

lemma pick_first_none:
  assumes "pick_first bm st e = Some None" "unat e \<le> 8 * length bm" "st = 0"
  shows "\<not> (\<exists>i < unat e. \<not> bm_bit bm i)"
  using assms find_upt_None [of "\<lambda>i. \<not> bm_bit bm i" 0 "unat e"]
  by (auto simp: pick_first_def find_clr_eq_first_clr first_clr_def split: option.splits find_res.splits)

lemma alloc_success_ret:
  assumes "vol_ok fs" "g < vcnt fs" "iref_ok fs iref" "pick_ok pick (unat (ext4_sb_get_block_size (fs_sb fs))) lim"
    and "alloc_in_group pick (gref (fs_sb fs) g) fs = (Ret (Some a), fs1)"
  shows "\<exists>fs2. alloc_success iref (gref (fs_sb fs) g) a fs1 = (Ret (iref\<lparr>ir_dirty := True\<rparr>, a), fs2)"
  using alloc_in_group_outcome [OF assms, of a] by auto

text \<open>The turn of a group: it takes a block, or has none to offer and passes on.\<close>

lemma turn_live:
  assumes ok: "vol_ok fs" "no_fail fs" "g < vcnt fs" "iref_ok fs iref"
    and pick: "pick_ok pick (unat (ext4_sb_get_block_size (fs_sb fs))) lim"
    and pass: "\<And>n. ext4_bg_get_free_blocks_count (vbg fs g) (fs_sb fs) = 0 \<or> pick (vbm fs g) = Some None \<Longrightarrow>
      \<exists>x fs'. next_group (fs\<lparr>fs_calls := n\<rparr>) = (Ret x, fs')"
  shows "\<exists>x fs'. fs_bind (ext4_fs_get_block_group_ref g) (\<lambda>ref.
      fs_bind (alloc_in_group pick ref) (\<lambda>a. case a of Some alloc \<Rightarrow> alloc_success iref ref alloc
        | None \<Rightarrow> fs_bind (ext4_fs_put_block_group_ref ref) (\<lambda>_. next_group))) fs = (Ret x, fs')"
proof -
  let ?fs = "fs\<lparr>fs_calls := fs_calls fs + 1\<rparr>"
  obtain r2 fs2 where ag: "alloc_in_group pick (gref (fs_sb ?fs) g) ?fs = (r2, fs2)" by fastforce
  have ok': "vol_ok ?fs" "no_fail ?fs" "g < vcnt ?fs" "iref_ok ?fs iref"
    "pick_ok pick (unat (ext4_sb_get_block_size (fs_sb ?fs))) lim" using ok pick by (simp_all add: iref_ok_def)
  from alloc_in_group_live [OF ok' ag]
  consider (none) n where "r2 = Ret None" "fs2 = fs\<lparr>fs_calls := n\<rparr>"
      "ext4_bg_get_free_blocks_count (vbg fs g) (fs_sb fs) = 0 \<or> pick (vbm fs g) = Some None"
    | (some) a where "r2 = Ret (Some a)" by (auto simp: no_change_def)
  then show ?thesis
  proof cases
    case none
    then show ?thesis using pass [of n] ag get_ref_ok [OF ok(1-3)] by (simp add: fs_bind_def)
  next
    case some
    from alloc_success_ret [OF ok'(1,3,4,5), of a fs2] ag some get_ref_ok [OF ok(1-3)]
    show ?thesis by (auto simp: fs_bind_def)
  qed
qed


definition next_bg :: "u32 \<Rightarrow> u32 \<Rightarrow> u32" where
  "next_bg c g = (g + 1) mod c"

lemma next_bg_nat: "g < c \<Longrightarrow> unat (next_bg c g) = (unat g + 1) mod unat c"
  using unat_Suc_less_word [of g c] by (simp add: next_bg_def unat_mod)

lemma next_bg_less: "g < c \<Longrightarrow> next_bg c g < c"
  by (auto simp: next_bg_def word_less_nat_alt unat_mod intro!: mod_less_divisor)

lemma next_bg_pow:
  "g < c \<Longrightarrow> (next_bg c ^^ k) g < c \<and> unat ((next_bg c ^^ k) g) = (unat g + k) mod unat c"
proof (induction k)
  case 0
  then show ?case by (simp add: word_less_nat_alt)
next
  case (Suc k)
  then show ?case using next_bg_less next_bg_nat by (simp add: mod_Suc_eq)
qed

lemma next_bg_covers:
  assumes "g < c" "h < c"
  obtains k where "k < unat c" "(next_bg c ^^ k) g = h"
proof -
  let ?k = "(unat h + unat c - unat g) mod unat c"
  have c: "unat g < unat c" "unat h < unat c" using assms by (simp_all add: word_less_nat_alt)
  have "(unat g + ?k) mod unat c = (unat g + (unat h + unat c - unat g)) mod unat c" by (simp add: mod_add_right_eq)
  also have "\<dots> = unat h" using c by simp
  finally have "unat ((next_bg c ^^ ?k) g) = unat h" using next_bg_pow [OF assms(1), of ?k] by simp
  then show ?thesis using that [of ?k] c by (simp add: word_unat_eq_iff)
qed

lemma alloc_other_groups_live:
  assumes "vol_ok fs" "no_fail fs" "g < vcnt fs" "iref_ok fs iref" "k < n" "has_space fs ((next_bg (vcnt fs) ^^ k) g)"
  shows "\<exists>x fs'. alloc_other_groups n iref g fs = (Ret x, fs')"
  using assms
proof (induction n arbitrary: g k fs)
  case (Suc n)
  let ?sb = "fs_sb fs"
  let ?pick = "\<lambda>bm. pick_first bm (first_idx ?sb g) (ext4_blocks_in_group_cnt ?sb g)"
  have bits: "unat (ext4_blocks_in_group_cnt ?sb g) \<le> 8 * unat (ext4_sb_get_block_size ?sb)"
    using blocks_in_group_bound(2) [OF Suc.prems(1,3)] bitmap_bits [OF Suc.prems(1)] by simp
  have len: "length (vbm fs g) = unat (ext4_sb_get_block_size ?sb)" by (simp add: vbm_def vol_okD(6) [OF Suc.prems(1)])
  have "\<exists>x fs'. fs_bind (ext4_fs_get_block_group_ref g) (\<lambda>ref.
      fs_bind (alloc_in_group ?pick ref) (\<lambda>a. case a of Some alloc \<Rightarrow> alloc_success iref ref alloc
        | None \<Rightarrow> fs_bind (ext4_fs_put_block_group_ref ref)
            (\<lambda>_. alloc_other_groups n iref (next_bg (vcnt fs) g)))) fs = (Ret x, fs')"
  proof (rule turn_live [OF Suc.prems(1-4) pick_first_ok [OF bits]])
    fix m
    assume "ext4_bg_get_free_blocks_count (vbg fs g) ?sb = 0 \<or> ?pick (vbm fs g) = Some None"
    then have "\<not> has_space fs g"
      using pick_first_none [of "vbm fs g"] bits len first_idx_zero [OF Suc.prems(1,3)] by (auto simp: has_space_def)
    then obtain j where j: "k = Suc j" using Suc.prems(6) by (cases k) auto
    have "has_space fs ((next_bg (vcnt fs) ^^ j) (next_bg (vcnt fs) g))"
      using Suc.prems(6) by (simp add: j funpow_swap1)
    then show "\<exists>x fs'. alloc_other_groups n iref (next_bg (vcnt fs) g) (fs\<lparr>fs_calls := m\<rparr>) = (Ret x, fs')"
      using Suc.IH [of "fs\<lparr>fs_calls := m\<rparr>" "next_bg (vcnt fs) g" j] Suc.prems next_bg_less j by (simp add: iref_ok_def)
  qed
  moreover have "fs_sb (fs\<lparr>fs_calls := m\<rparr>) = ?sb" for m by simp
  ultimately show ?case
    unfolding alloc_other_groups.simps fs_bind_def [of "ext4_fs_get_block_group_ref g"] get_ref_ok [OF Suc.prems(1-3)]
      prod.case fsres.case fs_bind_def [of "fs_gets fs_sb"] fs_gets_def next_bg_def by (simp only:)
qed simp

section \<open>Undoing an allocation\<close>

lemma bm_upd_undo:
  assumes "n < 8 * length bm" "\<not> bm_bit bm n"
  shows "bm_upd (bm_upd bm n True) n False = bm"
proof -
  have "unset_bit (n mod 8) (set_bit (n mod 8) (bm ! (n div 8))) = bm ! (n div 8)"
    using assms(2) by (intro bit_eqI) (auto simp: bm_bit_def bit_simps)
  then show ?thesis using assms(1) by (simp add: bm_upd_def)
qed

lemma free_count_16:
  assumes "\<not> bg_wide s"
  shows "ext4_bg_get_free_blocks_count bg s AND 0xFFFF = ext4_bg_get_free_blocks_count bg s"
proof -
  have "ext4_bg_get_free_blocks_count bg s = ucast (bg_free_blocks_count_lo bg)"
    using assms by (simp add: ext4_bg_get_free_blocks_count_def bg_wide_def)
  then have "unat (ext4_bg_get_free_blocks_count bg s) < 2 ^ 16" using unsigned_less [of "bg_free_blocks_count_lo bg"] by simp
  then have "take_bit 16 (ext4_bg_get_free_blocks_count bg s) = ext4_bg_get_free_blocks_count bg s"
    by (simp add: word_unat_eq_iff take_bit_eq_mod unat_mod)
  then show ?thesis by (simp add: take_bit_eq_mask mask_eq_exp_minus_1)
qed

lemma undo:
  assumes "vol_ok fs" "g < vcnt fs" "took fs g i fs1" "gave fs1 g i fs2"
  shows "(\<forall>h < vcnt fs. vbm fs2 h = vbm fs h \<and>
      ext4_bg_get_free_blocks_count (vbg fs2 h) (fs_sb fs) = ext4_bg_get_free_blocks_count (vbg fs h) (fs_sb fs)) \<and>
    ext4_sb_get_free_blocks_cnt (fs_sb fs2) = ext4_sb_get_free_blocks_cnt (fs_sb fs)"
proof -
  have c1: "vol_chg fs g fs1" and c2: "vol_chg fs1 g fs2" using assms(3,4) by (simp_all add: took_def gave_def)
  obtain c where sb: "fs_sb fs1 = ext4_sb_set_free_blocks_cnt (fs_sb fs) c" using c1 by (auto simp: vol_chg_def)
  have "vbm fs2 g = vbm fs g"
    using assms(3,4) bm_upd_undo [of "unat i" "vbm fs g"] by (simp add: took_def gave_def)
  moreover have "ext4_bg_get_free_blocks_count (vbg fs2 g) (fs_sb fs) = ext4_bg_get_free_blocks_count (vbg fs g) (fs_sb fs)"
    using assms(3,4) sb vol_chgD(10) [OF c1] free_count_16 [of "fs_sb fs"] by (simp add: took_def gave_def Let_def)
  moreover have "vbm fs2 h = vbm fs h" "vbg fs2 h = vbg fs h" if "h < vcnt fs" "h \<noteq> g" for h
    using that vol_chgD(2,5,6) [OF c1] vol_chgD(5,6) [OF c2] by simp_all
  ultimately have "vbm fs2 h = vbm fs h \<and>
      ext4_bg_get_free_blocks_count (vbg fs2 h) (fs_sb fs) = ext4_bg_get_free_blocks_count (vbg fs h) (fs_sb fs)"
    if "h < vcnt fs" for h using that by (cases "h = g") simp_all
  then show ?thesis using assms(3,4) by (simp add: took_def gave_def)
qed

section \<open>Properties\<close>

text \<open>The goal itself is taken when it is free.\<close>

lemma alloc_goal:
  assumes "vol_ok fs" "iref_ok fs iref" "no_fail fs" "in_volume (fs_sb fs) goal"
    and free: "\<not> vbit fs goal" "ext4_bg_get_free_blocks_count (vbg fs (ext4_balloc_get_bgid_of_block (fs_sb fs) goal)) (fs_sb fs) \<noteq> 0"
  shows "\<exists>fs'. ext4_balloc_alloc_block iref goal fs = (Ret (iref\<lparr>ir_dirty := True\<rparr>, goal), fs')"
proof -
  let ?sb = "fs_sb fs" and ?fs = "fs\<lparr>fs_calls := fs_calls fs + 1\<rparr>"
  define g where "g = ext4_balloc_get_bgid_of_block ?sb goal"
  define i where "i = ext4_fs_addr_to_idx_bg ?sb goal"
  have a: "ucast (s_first_data_block ?sb) \<le> goal" "goal < ext4_sb_get_blocks_cnt ?sb" using assms(4) by (simp_all add: in_volume_def)
  then have cl: "clamp_goal ?sb goal = goal" by (auto simp: clamp_goal_def)
  note bv = block_in_volume [OF assms(1) a, folded g_def i_def]
  have fi: "(if i < first_idx ?sb g then first_idx ?sb g else i) = i"
    using first_idx_zero [OF assms(1) bv(1)] by simp
  let ?pick = "\<lambda>bm. pick_near_goal bm i (ext4_blocks_in_group_cnt ?sb g)"
  have bs: "unat (ext4_sb_get_block_size ?sb) \<le> 65536" using sb_block_size_cases [of ?sb] by auto
  have pick: "pick_ok ?pick (unat (ext4_sb_get_block_size (fs_sb ?fs))) (unat (ext4_blocks_in_group_cnt ?sb g))"
    using bv(2) blocks_in_group_bound(2) [OF assms(1) bv(1)] bitmap_bits [OF assms(1)] bs
    by (simp, intro pick_near_goal_ok) simp_all
  have len: "length (vbm fs g) = unat (ext4_sb_get_block_size ?sb)" by (simp add: vbm_def vol_okD(6) [OF assms(1)])
  have "unat i < 8 * length (vbm fs g)"
    using bv(2) blocks_in_group_bound(2) [OF assms(1) bv(1)] bitmap_bits [OF assms(1)] len by simp
  then have p: "?pick (vbm fs g) = Some (Some i)"
    using free(1) by (simp add: pick_near_goal_def is_bit_clr_eq vbit_def g_def i_def)
  obtain r fs1 where ag: "alloc_in_group ?pick (gref (fs_sb ?fs) g) ?fs = (r, fs1)" by fastforce
  have ok: "vol_ok ?fs" "no_fail ?fs" "g < vcnt ?fs" "iref_ok ?fs iref" using assms(1-3) bv(1) by (simp_all add: iref_ok_def)
  have r: "r = Ret (Some goal)"
    using alloc_in_group_live [OF ok pick ag] p free(2) bv(3) by (auto simp: g_def [symmetric])
  obtain fs2 where "alloc_success iref (gref (fs_sb ?fs) g) goal fs1 = (Ret (iref\<lparr>ir_dirty := True\<rparr>, goal), fs2)"
    using alloc_success_ret [OF ok(1,3,4) pick] ag r by blast
  then show ?thesis
    using ag r get_ref_ok [OF assms(1,3) bv(1)]
    unfolding ext4_balloc_alloc_block_def fs_bind_def [of "fs_gets fs_sb"] fs_gets_def Let_def
      prod.case fsres.case cl g_def [symmetric] i_def [symmetric] fi by (simp add: fs_bind_def)
qed

text \<open>C17: if the device answers every request and every bitmap verifies, allocating finds a block whenever
  any group has one that is free: it can report that there is no space only when there is none.\<close>

theorem alloc_block_live:
  assumes "vol_ok fs" "iref_ok fs iref" "no_fail fs" "h < vcnt fs" "has_space fs h"
  shows "\<exists>a fs'. ext4_balloc_alloc_block iref goal fs = (Ret (iref\<lparr>ir_dirty := True\<rparr>, a), fs')"
proof -
  let ?sb = "fs_sb fs"
  define a where "a = clamp_goal ?sb goal"
  define g where "g = ext4_balloc_get_bgid_of_block ?sb a"
  define i where "i = ext4_fs_addr_to_idx_bg ?sb a"
  have a: "ucast (s_first_data_block ?sb) \<le> a" "a < ext4_sb_get_blocks_cnt ?sb"
    using vol_okD(5) [OF assms(1)] by (auto simp: a_def clamp_goal_def not_less)
  note bv = block_in_volume [OF assms(1) a, folded g_def i_def]
  have fi: "(if i < first_idx ?sb g then first_idx ?sb g else i) = i"
    using first_idx_zero [OF assms(1) bv(1)] by simp
  let ?pick = "\<lambda>bm. pick_near_goal bm i (ext4_blocks_in_group_cnt ?sb g)"
  have bs: "unat (ext4_sb_get_block_size ?sb) \<le> 65536" using sb_block_size_cases [of ?sb] by auto
  have pick: "pick_ok ?pick (unat (ext4_sb_get_block_size ?sb)) (unat (ext4_blocks_in_group_cnt ?sb g))"
    using bv(2) blocks_in_group_bound(2) [OF assms(1) bv(1)] bitmap_bits [OF assms(1)] bs
    by (intro pick_near_goal_ok) simp_all
  have nz: "vcnt fs \<noteq> 0" using bv(1) by auto
  have nextg: "next_bg (vcnt fs) g < vcnt fs" using next_bg_less bv(1) by simp
  obtain k where k: "k < unat (vcnt fs)" "(next_bg (vcnt fs) ^^ k) (next_bg (vcnt fs) g) = h"
    by (rule next_bg_covers [OF nextg assms(4)])
  have "\<exists>x fs'. fs_bind (ext4_fs_get_block_group_ref g) (\<lambda>ref.
      fs_bind (alloc_in_group ?pick ref) (\<lambda>c. case c of Some alloc \<Rightarrow> alloc_success iref ref alloc
        | None \<Rightarrow> fs_bind (ext4_fs_put_block_group_ref ref)
            (\<lambda>_. alloc_other_groups (unat (vcnt fs)) iref (next_bg (vcnt fs) g)))) fs = (Ret x, fs')"
  proof (rule turn_live [OF assms(1,3) bv(1) assms(2) pick])
    fix n
    show "\<exists>x fs'. alloc_other_groups (unat (vcnt fs)) iref (next_bg (vcnt fs) g) (fs\<lparr>fs_calls := n\<rparr>) = (Ret x, fs')"
      using alloc_other_groups_live [of "fs\<lparr>fs_calls := n\<rparr>" "next_bg (vcnt fs) g" iref k] assms nextg k by (simp add: iref_ok_def)
  qed
  then have "\<exists>x fs'. ext4_balloc_alloc_block iref goal fs = (Ret x, fs')"
    unfolding ext4_balloc_alloc_block_def fs_bind_def [of "fs_gets fs_sb"] fs_gets_def Let_def
      prod.case fsres.case a_def [symmetric] g_def [symmetric] i_def [symmetric] fi if_not_P [OF nz] next_bg_def .
  then obtain i2 b fs' where r: "ext4_balloc_alloc_block iref goal fs = (Ret (i2, b), fs')" by (metis surj_pair)
  moreover have "alloc_result fs iref (Ret (i2, b)) fs'" using alloc_block_result [OF assms(1,2) r] .
  ultimately show ?thesis by (auto simp: alloc_result_def)
qed


lemma vol_example_live: "no_fail vol_example" "has_space vol_example 0"
proof -
  have bm: "vbm vol_example 0 = replicate 4096 0" using vol_example_views(3) by (simp add: vbm_def vol_example_def)
  have "\<not> ext4_sb_feature_ro_com (probe_example 0) EXT4_FRO_COM_METADATA_CSUM"
    by (simp add: ext4_sb_feature_ro_com_def)
  then have "ext4_balloc_verify_bitmap_csum (probe_example 0) bg bm = Some True" for bg bm
    by (simp add: ext4_balloc_verify_bitmap_csum_def ext4_balloc_bitmap_csum_def csum_bytes_def)
  moreover have "g = 0" if "g < 1" for g :: u32 using that by simp
  ultimately show "no_fail vol_example"
    using vol_example_views(1,3) by (auto simp: no_fail_def vol_example_def)
  have "ext4_bg_get_free_blocks_count (vbg vol_example 0) (probe_example 0) = 900"
    unfolding vol_example_views(2) bg_cut_get(4) [OF probe_example_ok(2)]
    by (simp add: bg_example_def bgroup_of_bytes_def ext4_bg_get_free_blocks_count_def EXT4_MIN_BLOCK_GROUP_DESCRIPTOR_SIZE_def)
  moreover have "0 < unat (ext4_blocks_in_group_cnt (probe_example 0) 0)"
    by (simp add: ext4_blocks_in_group_cnt_def)
  ultimately show "has_space vol_example 0" by (auto simp: has_space_def bm bm_bit_def)
qed

theorem alloc_block_live_witness:
  "\<exists>a fs'. ext4_balloc_alloc_block iref_example 7 vol_example = (Ret (iref_example\<lparr>ir_dirty := True\<rparr>, a), fs')"
  by (rule alloc_block_live [OF vol_example_ok iref_example_ok vol_example_live(1) _ vol_example_live(2)]) simp

text \<open>C22: freeing a block that has just been allocated restores the bitmap and the free count of every
  group and the free count of the superblock.\<close>

theorem alloc_free_roundtrip:
  assumes "vol_ok fs" "iref_ok fs iref"
    and "ext4_balloc_alloc_block iref goal fs = (Ret (iref1, a), fs1)"
    and "\<not> meta_block fs a" "in_volume (fs_sb fs) a" "ext4_balloc_free_block iref1 a fs1 = (Ret iref2, fs2)"
  shows "(\<forall>g < vcnt fs. vbm fs2 g = vbm fs g \<and>
      ext4_bg_get_free_blocks_count (vbg fs2 g) (fs_sb fs) = ext4_bg_get_free_blocks_count (vbg fs g) (fs_sb fs)) \<and>
    ext4_sb_get_free_blocks_cnt (fs_sb fs2) = ext4_sb_get_free_blocks_cnt (fs_sb fs)"
proof -
  from alloc_block_result [OF assms(1-3)] obtain g i where i1: "iref1 = iref\<lparr>ir_dirty := True\<rparr>" and g: "g < vcnt fs"
    and i: "unat i < unat (ext4_blocks_in_group_cnt (fs_sb fs) g)" and a: "a = ext4_fs_bg_idx_to_addr (fs_sb fs) i g"
    and t: "took fs g i fs1" by (auto simp: alloc_result_def)
  have c1: "vol_chg fs g fs1" using t by (simp add: took_def)
  note d1 = vol_chgD [OF c1]
  obtain c where sb: "fs_sb fs1 = ext4_sb_set_free_blocks_cnt (fs_sb fs) c" using c1 by (auto simp: vol_chg_def)
  note ar = addr_roundtrip [OF assms(1) g i, folded a]
  have ok1: "vol_ok fs1" "iref_ok fs1 iref1" "in_volume (fs_sb fs1) a" "\<not> meta_block fs1 a"
    using d1(1,3) iref_ok_chg [OF c1] assms(2,4,5) i1 sb by (simp_all add: iref_ok_def)
  have "gave fs1 g i fs2"
    using conjunct1 [OF free_block_result [OF ok1 assms(6)]] ar sb by (simp add: free_result_def Let_def)
  with undo [OF assms(1) g t] show ?thesis .
qed


lemma took_no_fail:
  assumes "no_fail fs" "took fs g i fs1" "g < vcnt fs"
  shows "no_fail fs1"
proof -
  have c: "vol_chg fs g fs1" using assms(2) by (simp add: took_def)
  obtain d where sb: "fs_sb fs1 = ext4_sb_set_free_blocks_cnt (fs_sb fs) d" using c by (auto simp: vol_chg_def)
  have "ext4_balloc_verify_bitmap_csum (fs_sb fs1) (vbg fs1 h) (vbm fs1 h) = Some True" if "h < vcnt fs" for h
    using that assms(1,2) vol_chgD(5,6) [OF c that] by (cases "h = g") (auto simp: no_fail_def took_def sb)
  moreover have "fs_answer fs1 = fs_answer fs" "fs_lg_bcnt fs1 = fs_lg_bcnt fs" using c by (simp_all add: vol_chg_def)
  ultimately show ?thesis using assms(1) vol_chgD(4) [OF c] by (auto simp: no_fail_def sb)
qed

theorem alloc_free_roundtrip_witness:
  "\<exists>iref1 fs1 iref2 fs2. ext4_balloc_alloc_block iref_example 7 vol_example = (Ret (iref1, 7), fs1) \<and>
    ext4_balloc_free_block iref1 7 fs1 = (Ret iref2, fs2) \<and>
    (\<forall>g < vcnt vol_example. vbm fs2 g = vbm vol_example g \<and>
      ext4_bg_get_free_blocks_count (vbg fs2 g) (fs_sb vol_example) = ext4_bg_get_free_blocks_count (vbg vol_example g) (fs_sb vol_example)) \<and>
    ext4_sb_get_free_blocks_cnt (fs_sb fs2) = ext4_sb_get_free_blocks_cnt (fs_sb vol_example)"
proof -
  have b7: "ext4_balloc_get_bgid_of_block (probe_example 0) 7 = 0" by (simp add: ext4_balloc_get_bgid_of_block_def)
  have v7: "in_volume (fs_sb vol_example) 7" "\<not> meta_block vol_example 7" by (simp_all add: in_volume_def vol_example_meta)
  have "vbm vol_example 0 = replicate 4096 0" using vol_example_views(3) by (simp add: vbm_def vol_example_def)
  then have "\<not> vbit vol_example 7" by (simp add: vbit_def b7 bm_bit_def ext4_fs_addr_to_idx_bg_def)
  then obtain fs1 where al: "ext4_balloc_alloc_block iref_example 7 vol_example = (Ret (iref_example\<lparr>ir_dirty := True\<rparr>, 7), fs1)"
    using alloc_goal [OF vol_example_ok iref_example_ok vol_example_live(1) v7(1)] vol_example_live(2) b7 by (auto simp: has_space_def)
  from alloc_block_result [OF vol_example_ok iref_example_ok al] obtain g i where t: "took vol_example g i fs1" "g < vcnt vol_example"
    by (auto simp: alloc_result_def)
  then have c: "vol_chg vol_example g fs1" by (simp add: took_def)
  let ?i1 = "iref_example\<lparr>ir_dirty := True\<rparr>"
  have ok1: "vol_ok fs1" "iref_ok fs1 ?i1" "in_volume (fs_sb fs1) 7" "\<not> meta_block fs1 7"
    using vol_chgD(1,3) [OF c] iref_ok_chg [OF c] iref_example_ok v7 sb_free_add(2) [OF vol_many_chg [OF c]] by simp_all
  obtain r fs2 where fr: "ext4_balloc_free_block ?i1 7 fs1 = (r, fs2)" by fastforce
  then obtain iref2 where "r = Ret iref2"
    using free_block_result [OF ok1 fr] took_no_fail [OF vol_example_live(1) t] by blast
  with fr al alloc_free_roundtrip [OF vol_example_ok iref_example_ok al v7(2,1)] show ?thesis by blast
qed

end
