(* ===== verification/Ialloc.thy ===== *)
theory Ialloc
  imports Volume
begin

unbundle bit_operations_syntax

text \<open>
  The inode allocator of \<^verbatim>\<open>ext4_ialloc.c\<close>: inode numbers and their groups, freeing an inode, and the search
  for a free one that starts at the group of the last allocation and wraps around once.
\<close>

section \<open>Inode numbers\<close>

definition ext4_ialloc_inode_to_bgidx :: "ext4_sblock \<Rightarrow> u32 \<Rightarrow> u32" where
  "ext4_ialloc_inode_to_bgidx sb inode = (inode - 1) mod s_inodes_per_group sb"

definition ext4_ialloc_bgidx_to_inode :: "ext4_sblock \<Rightarrow> u32 \<Rightarrow> u32 \<Rightarrow> u32" where
  "ext4_ialloc_bgidx_to_inode sb index bgid = bgid * s_inodes_per_group sb + (index + 1)"

definition ext4_ialloc_get_bgid_of_inode :: "ext4_sblock \<Rightarrow> u32 \<Rightarrow> u32" where
  "ext4_ialloc_get_bgid_of_inode sb inode = (inode - 1) div s_inodes_per_group sb"

section \<open>The inode bitmap of a held group\<close>

text \<open>The bitmap block is held; a bitmap whose checksum does not match is refused.\<close>

definition ialloc_check_bitmap :: "ext4_block_group_ref \<Rightarrow> u64 \<Rightarrow> unit fsm" where
  "ialloc_check_bitmap ref b =
     fs_bind (fs_gets fs_sb) (\<lambda>sb.
     fs_bind (bgref_get ref) (\<lambda>bg.
     fs_bind (blk_get b) (\<lambda>bm.
     fs_bind (fs_mem (ext4_ialloc_verify_bitmap_csum sb bg bm)) (\<lambda>ok.
     if \<not> ok then
       fs_bind (fs_ignore (blk_release b)) (\<lambda>_.
       fs_bind (fs_ignore (ext4_fs_put_block_group_ref ref)) (\<lambda>_. fs_fail EIO))
     else fs_return ()))))"

text \<open>Store a changed bitmap with its checksum in the descriptor.\<close>

definition ialloc_store_bitmap :: "ext4_block_group_ref \<Rightarrow> u64 \<Rightarrow> bytes \<Rightarrow> unit fsm" where
  "ialloc_store_bitmap ref b bm =
     fs_bind (blk_put b bm) (\<lambda>_.
     fs_bind (fs_gets fs_sb) (\<lambda>sb.
     fs_bind (bgref_get ref) (\<lambda>bg.
     fs_bind (fs_mem (ext4_ialloc_set_bitmap_csum sb bg bm)) (bgref_put ref))))"

section \<open>Freeing\<close>

text \<open>When the bitmap block cannot be read, the function returns without putting the group.\<close>

definition ext4_ialloc_free_inode :: "u32 \<Rightarrow> bool \<Rightarrow> unit fsm" where
  "ext4_ialloc_free_inode index is_dir =
     fs_bind (fs_gets fs_sb) (\<lambda>sb.
     if s_inodes_per_group sb = 0 then fs_crash
     else
     fs_bind (ext4_fs_get_block_group_ref (ext4_ialloc_get_bgid_of_inode sb index)) (\<lambda>ref.
     fs_bind (bgref_get ref) (\<lambda>bg.
     fs_bind (ext4_trans_block_get (ext4_bg_get_inode_bitmap bg sb)) (\<lambda>b.
     fs_bind (ialloc_check_bitmap ref b) (\<lambda>_.
     fs_bind (blk_get b) (\<lambda>bm.
     fs_bind (fs_mem (ext4_bmap_bit_clr bm (ext4_ialloc_inode_to_bgidx sb index))) (\<lambda>bm'.
     fs_bind (ialloc_store_bitmap ref b bm') (\<lambda>_.
     fs_bind (fs_on_error (blk_release b) (ext4_fs_put_block_group_ref ref)) (\<lambda>_.
     fs_bind (bgref_upd ref (\<lambda>bg.
       let bg = (if is_dir then ext4_bg_set_used_dirs_count bg sb (ext4_bg_get_used_dirs_count bg sb - 1) else bg)
       in ext4_bg_set_free_inodes_count bg sb (ext4_bg_get_free_inodes_count bg sb + 1))) (\<lambda>_.
     fs_bind (ext4_fs_put_block_group_ref (ref\<lparr>bgr_dirty := True\<rparr>)) (\<lambda>_.
     fs_modify (\<lambda>fs. fs\<lparr>fs_sb := (fs_sb fs)\<lparr>s_free_inodes_count := s_free_inodes_count (fs_sb fs) + 1\<rparr>\<rparr>))))))))))))"

section \<open>Allocating\<close>

text \<open>The counters of the group whose inode \<open>idx\<close> has been taken.\<close>

definition inode_taken :: "ext4_sblock \<Rightarrow> u32 \<Rightarrow> u32 \<Rightarrow> u32 \<Rightarrow> bool \<Rightarrow> u32 \<Rightarrow> ext4_bgroup \<Rightarrow> ext4_bgroup" where
  "inode_taken sb free_inodes used_dirs inodes_in_bg is_dir idx_in_bg bg =
     (let bg = ext4_bg_set_free_inodes_count bg sb (free_inodes - 1);
          bg = (if is_dir then ext4_bg_set_used_dirs_count bg sb (used_dirs + 1) else bg);
          unused = ext4_bg_get_itable_unused bg sb;
          free = inodes_in_bg - unused
      in if free \<le> idx_in_bg then ext4_bg_set_itable_unused bg sb (inodes_in_bg - (idx_in_bg + 1)) else bg)"

text \<open>The turn of a group with free inodes.  \<open>None\<close>: the bitmap has none after all; the group has been put.\<close>

definition alloc_inode_in_group :: "ext4_block_group_ref \<Rightarrow> u32 \<Rightarrow> bool \<Rightarrow> u32 option fsm" where
  "alloc_inode_in_group ref bgid is_dir =
     fs_bind (fs_gets fs_sb) (\<lambda>sb.
     fs_bind (bgref_get ref) (\<lambda>bg.
     let free_inodes = ext4_bg_get_free_inodes_count bg sb;
         used_dirs = ext4_bg_get_used_dirs_count bg sb;
         inodes_in_bg = ext4_inodes_in_group_cnt sb bgid
     in fs_bind (fs_on_error (ext4_trans_block_get (ext4_bg_get_inode_bitmap bg sb))
          (ext4_fs_put_block_group_ref ref)) (\<lambda>b.
        fs_bind (ialloc_check_bitmap ref b) (\<lambda>_.
        fs_bind (blk_get b) (\<lambda>bm.
        fs_bind (fs_mem (ext4_bmap_bit_find_clr bm 0 inodes_in_bg)) (\<lambda>found.
        case found of
          NoSpace \<Rightarrow>
            fs_bind (fs_on_error (blk_release b) (ext4_fs_put_block_group_ref ref)) (\<lambda>_.
            fs_bind (ext4_fs_put_block_group_ref ref) (\<lambda>_. fs_return None))
        | Found idx_in_bg \<Rightarrow>
            fs_bind (fs_mem (ext4_bmap_bit_set bm idx_in_bg)) (\<lambda>bm'.
            fs_bind (ialloc_store_bitmap ref b bm') (\<lambda>_.
            fs_bind (fs_ignore (blk_release b)) (\<lambda>_.
            fs_bind (bgref_upd ref (inode_taken sb free_inodes used_dirs inodes_in_bg is_dir idx_in_bg)) (\<lambda>_.
            fs_bind (ext4_fs_put_block_group_ref (ref\<lparr>bgr_dirty := True\<rparr>)) (\<lambda>_.
            fs_return (Some idx_in_bg))))))))))))"

lemma group_step: "\<not> c < (g :: u32) \<Longrightarrow> g \<noteq> c \<Longrightarrow> unat c - unat (g + 1) < unat c - unat g"
  using unat_Suc_less_word [of g c] by (auto simp: word_less_nat_alt not_less word_unat_eq_iff)

text \<open>The loop.  It ends: \<open>bgid\<close> grows up to \<open>bg_count\<close>, and the one return to group 0 sets \<open>rewind\<close>.\<close>

function alloc_inode_groups :: "u32 \<Rightarrow> u32 \<Rightarrow> bool \<Rightarrow> u32 \<Rightarrow> bool \<Rightarrow> u32 fsm" where
  "alloc_inode_groups bg_count bgid rewind sb_free_inodes is_dir =
     (if bg_count < bgid then fs_fail ENOSPC
      else if bgid = bg_count then
        if rewind then fs_fail ENOSPC
        else fs_bind (fs_gets fs_last_inode_bg_id) (\<lambda>last. alloc_inode_groups last 0 True sb_free_inodes is_dir)
      else
        fs_bind (ext4_fs_get_block_group_ref bgid) (\<lambda>ref.
        fs_bind (fs_gets fs_sb) (\<lambda>sb.
        fs_bind (bgref_get ref) (\<lambda>bg.
        if 0 < ext4_bg_get_free_inodes_count bg sb then
          fs_bind (alloc_inode_in_group ref bgid is_dir) (\<lambda>found.
          case found of None \<Rightarrow> alloc_inode_groups bg_count (bgid + 1) rewind sb_free_inodes is_dir
          | Some idx_in_bg \<Rightarrow>
              fs_bind (fs_modify (\<lambda>fs. fs
                \<lparr>fs_sb := (fs_sb fs)\<lparr>s_free_inodes_count := sb_free_inodes - 1\<rparr>, fs_last_inode_bg_id := bgid\<rparr>)) (\<lambda>_.
              fs_return (ext4_ialloc_bgidx_to_inode sb idx_in_bg bgid)))
        else
          fs_bind (fs_ignore (ext4_fs_put_block_group_ref ref)) (\<lambda>_.
          alloc_inode_groups bg_count (bgid + 1) rewind sb_free_inodes is_dir)))))"
  by pat_completeness auto
termination
  by (relation "measures [\<lambda>(bg_count, bgid, rewind, _). if rewind then 0 else 1, \<lambda>(bg_count, bgid, _). unat bg_count - unat bgid]")
    (auto dest: group_step)

declare alloc_inode_groups.simps [simp del]

definition ext4_ialloc_alloc_inode :: "bool \<Rightarrow> u32 fsm" where
  "ext4_ialloc_alloc_inode is_dir =
     fs_bind (fs_gets fs_sb) (\<lambda>sb.
     fs_bind (fs_gets fs_last_inode_bg_id) (\<lambda>last.
     alloc_inode_groups (ext4_block_group_cnt sb) last False (s_free_inodes_count sb) is_dir))"

end
