(* ===== verification/Ialloc_Spec.thy ===== *)
theory Ialloc_Spec
  imports Ialloc Free_Spec
begin

unbundle bit_operations_syntax

text \<open>
  Correctness of the inode allocator on a well-formed volume: what allocating and freeing an inode do to
  the inode bitmaps and the counters, that the search over the groups ends and misses none, and that
  inode numbers and their places correspond.
\<close>

section \<open>The inode bitmaps of a volume\<close>

definition vib :: "ext4_fs \<Rightarrow> u32 \<Rightarrow> u64" where
  "vib fs g = ext4_bg_get_inode_bitmap (vbg fs g) (fs_sb fs)"

definition vim :: "ext4_fs \<Rightarrow> u32 \<Rightarrow> bytes" where
  "vim fs g = fs_blk fs (vib fs g)"

text \<open>Besides what the block allocator needs, the inode bitmaps have blocks of their own, no group has more
  inodes than its share, and inode numbers fit in 32 bits.\<close>

definition ino_ok :: "ext4_fs \<Rightarrow> bool" where
  "ino_ok fs \<longleftrightarrow> vol_ok fs \<and> (\<forall>g < vcnt fs. \<not> meta_block fs (vib fs g)) \<and>
     (\<forall>g < vcnt fs. \<forall>h < vcnt fs. g \<noteq> h \<longrightarrow> vib fs g \<noteq> vib fs h) \<and>
     (\<forall>g < vcnt fs. ext4_inodes_in_group_cnt (fs_sb fs) g \<le> s_inodes_per_group (fs_sb fs)) \<and>
     unat (vcnt fs) * unat (s_inodes_per_group (fs_sb fs)) < 2 ^ 32"

lemma ino_okD:
  assumes "ino_ok fs"
  shows "vol_ok fs" "g < vcnt fs \<Longrightarrow> \<not> meta_block fs (vib fs g)"
    "g < vcnt fs \<Longrightarrow> h < vcnt fs \<Longrightarrow> g \<noteq> h \<Longrightarrow> vib fs g \<noteq> vib fs h"
    "g < vcnt fs \<Longrightarrow> ext4_inodes_in_group_cnt (fs_sb fs) g \<le> s_inodes_per_group (fs_sb fs)"
    "unat (vcnt fs) * unat (s_inodes_per_group (fs_sb fs)) < 2 ^ 32"
  using assms unfolding ino_ok_def by blast+

lemma ino_calls [simp]:
  "vib (fs\<lparr>fs_calls := n\<rparr>) = vib fs" "vim (fs\<lparr>fs_calls := n\<rparr>) = vim fs" "ino_ok (fs\<lparr>fs_calls := n\<rparr>) = ino_ok fs"
proof -
  show a: "vib (fs\<lparr>fs_calls := n\<rparr>) = vib fs" by (simp add: vib_def fun_eq_iff)
  then show "vim (fs\<lparr>fs_calls := n\<rparr>) = vim fs" by (simp add: vim_def fun_eq_iff)
  show "ino_ok (fs\<lparr>fs_calls := n\<rparr>) = ino_ok fs" unfolding ino_ok_def a by simp
qed

section \<open>The counter of the superblock\<close>

lemma set_ifree_simps [simp]:
  fixes s :: ext4_sblock
  shows "ext4_sb_get_block_size (s\<lparr>s_free_inodes_count := c\<rparr>) = ext4_sb_get_block_size s"
    "ext4_sb_get_desc_size (s\<lparr>s_free_inodes_count := c\<rparr>) = ext4_sb_get_desc_size s"
    "ext4_sb_get_blocks_cnt (s\<lparr>s_free_inodes_count := c\<rparr>) = ext4_sb_get_blocks_cnt s"
    "ext4_sb_feature_incom (s\<lparr>s_free_inodes_count := c\<rparr>) v = ext4_sb_feature_incom s v"
    "ext4_sb_feature_ro_com (s\<lparr>s_free_inodes_count := c\<rparr>) v = ext4_sb_feature_ro_com s v"
    "ext4_sb_first_meta_bg (s\<lparr>s_free_inodes_count := c\<rparr>) = ext4_sb_first_meta_bg s"
    "ext4_sb_csum_seed (s\<lparr>s_free_inodes_count := c\<rparr>) = ext4_sb_csum_seed s"
    "ext4_block_group_cnt (s\<lparr>s_free_inodes_count := c\<rparr>) = ext4_block_group_cnt s"
    "ext4_inodes_in_group_cnt (s\<lparr>s_free_inodes_count := c\<rparr>) = ext4_inodes_in_group_cnt s"
    "ext4_sb_is_super_in_bg (s\<lparr>s_free_inodes_count := c\<rparr>) = ext4_sb_is_super_in_bg s"
    "ext4_fs_first_bg_block_no (s\<lparr>s_free_inodes_count := c\<rparr>) = ext4_fs_first_bg_block_no s"
  by (simp_all add: ext4_sb_is_super_in_bg_def ext4_fs_first_bg_block_no_def ext4_sb_get_block_size_def ext4_sb_get_desc_size_def ext4_sb_get_blocks_cnt_def fun_eq_iff
      ext4_sb_feature_incom_def ext4_sb_feature_ro_com_def ext4_sb_first_meta_bg_def ext4_sb_csum_seed_def
      ext4_block_group_cnt_def ext4_inodes_in_group_cnt_def Let_def)

lemma set_ifree_views [simp]:
  fixes s :: ext4_sblock
  shows "sb_geometry (s\<lparr>s_free_inodes_count := c\<rparr>) = sb_geometry s"
    "desc_ok (s\<lparr>s_free_inodes_count := c\<rparr>) = desc_ok s"
    "dsc_per_block (s\<lparr>s_free_inodes_count := c\<rparr>) = dsc_per_block s"
    "dblk (s\<lparr>s_free_inodes_count := c\<rparr>) = dblk s"
    "doff (s\<lparr>s_free_inodes_count := c\<rparr>) = doff s"
    "gref (s\<lparr>s_free_inodes_count := c\<rparr>) = gref s"
    "bg_at (s\<lparr>s_free_inodes_count := c\<rparr>) = bg_at s"
    "bg_cut (s\<lparr>s_free_inodes_count := c\<rparr>) = bg_cut s"
  by (simp_all add: sb_geometry_def desc_ok_def dsc_per_block_def dblk_def doff_def gref_def bg_at_def bg_cut_def
      ext4_fs_get_descriptor_block_def Let_def fun_eq_iff)

lemma set_ifree_bg [simp]:
  fixes s :: ext4_sblock
  shows "ext4_bg_get_block_bitmap bg (s\<lparr>s_free_inodes_count := c\<rparr>) = ext4_bg_get_block_bitmap bg s"
    "ext4_bg_get_inode_bitmap bg (s\<lparr>s_free_inodes_count := c\<rparr>) = ext4_bg_get_inode_bitmap bg s"
    "ext4_bg_get_free_inodes_count bg (s\<lparr>s_free_inodes_count := c\<rparr>) = ext4_bg_get_free_inodes_count bg s"
    "ext4_bg_get_used_dirs_count bg (s\<lparr>s_free_inodes_count := c\<rparr>) = ext4_bg_get_used_dirs_count bg s"
    "ext4_bg_get_itable_unused bg (s\<lparr>s_free_inodes_count := c\<rparr>) = ext4_bg_get_itable_unused bg s"
    "ext4_ialloc_verify_bitmap_csum (s\<lparr>s_free_inodes_count := c\<rparr>) bg bm = ext4_ialloc_verify_bitmap_csum s bg bm"
    "ext4_fs_verify_bg_csum (s\<lparr>s_free_inodes_count := c\<rparr>) = ext4_fs_verify_bg_csum s"
  by (simp_all add: bg_accessors Let_def ext4_ialloc_verify_bitmap_csum_def ext4_ialloc_bitmap_csum_def csum_bytes_def
      ext4_fs_verify_bg_csum_def ext4_fs_bg_checksum_def fun_eq_iff)


definition iput_free :: "ext4_fs \<Rightarrow> u32 \<Rightarrow> u32 \<Rightarrow> ext4_fs" where
  "iput_free fs c l = fs\<lparr>fs_sb := (fs_sb fs)\<lparr>s_free_inodes_count := c\<rparr>, fs_last_inode_bg_id := l\<rparr>"

lemma iput_free_simps [simp]:
  "fs_sb (iput_free fs c l) = (fs_sb fs)\<lparr>s_free_inodes_count := c\<rparr>" "fs_blk (iput_free fs c l) = fs_blk fs"
  "fs_answer (iput_free fs c l) = fs_answer fs" "fs_lg_bcnt (iput_free fs c l) = fs_lg_bcnt fs"
  "fs_last_inode_bg_id (iput_free fs c l) = l"
  "vbg (iput_free fs c l) = vbg fs" "vbb (iput_free fs c l) = vbb fs" "vbm (iput_free fs c l) = vbm fs"
  "vib (iput_free fs c l) = vib fs" "vim (iput_free fs c l) = vim fs"
  "meta_block (iput_free fs c l) = meta_block fs" "vol_ok (iput_free fs c l) = vol_ok fs" "ino_ok (iput_free fs c l) = ino_ok fs"
proof -
  show f: "fs_sb (iput_free fs c l) = (fs_sb fs)\<lparr>s_free_inodes_count := c\<rparr>" "fs_blk (iput_free fs c l) = fs_blk fs"
    "fs_answer (iput_free fs c l) = fs_answer fs" "fs_lg_bcnt (iput_free fs c l) = fs_lg_bcnt fs"
    "fs_last_inode_bg_id (iput_free fs c l) = l" by (simp_all add: iput_free_def)
  have st: "fs_stale (iput_free fs c l) = fs_stale fs" by (simp add: iput_free_def)
  from f show a: "vbg (iput_free fs c l) = vbg fs" by (simp add: vbg_def fun_eq_iff)
  then show b: "vbb (iput_free fs c l) = vbb fs" using f by (simp add: vbb_def fun_eq_iff)
  then show "vbm (iput_free fs c l) = vbm fs" using f by (simp add: vbm_def fun_eq_iff)
  from a show i: "vib (iput_free fs c l) = vib fs" using f by (simp add: vib_def fun_eq_iff)
  then show "vim (iput_free fs c l) = vim fs" using f by (simp add: vim_def fun_eq_iff)
  show m: "meta_block (iput_free fs c l) = meta_block fs" using f b by (simp add: meta_block_def fun_eq_iff)
  show v: "vol_ok (iput_free fs c l) = vol_ok fs" unfolding vol_ok_def f a b st by simp
  show "ino_ok (iput_free fs c l) = ino_ok fs" unfolding ino_ok_def v i m f by simp
qed

section \<open>Changes of one group\<close>

definition ichg :: "ext4_fs \<Rightarrow> u32 \<Rightarrow> ext4_fs \<Rightarrow> bool" where
  "ichg fs g fs' \<longleftrightarrow> ino_ok fs' \<and> (\<exists>c. fs_sb fs' = (fs_sb fs)\<lparr>s_free_inodes_count := c\<rparr>) \<and>
     meta_block fs' = meta_block fs \<and> fs_answer fs' = fs_answer fs \<and> fs_lg_bcnt fs' = fs_lg_bcnt fs \<and>
     (\<forall>h < vcnt fs. vbb fs' h = vbb fs h \<and> vib fs' h = vib fs h \<and> vbm fs' h = vbm fs h) \<and>
     (\<forall>h < vcnt fs. h \<noteq> g \<longrightarrow> vbg fs' h = vbg fs h \<and> vim fs' h = vim fs h)"

lemma same_ifree: "s' = s \<Longrightarrow> \<exists>c. s' = s\<lparr>s_free_inodes_count := c\<rparr>" for s :: ext4_sblock
  by (rule exI [of _ "s_free_inodes_count s"]) simp

lemma ichg_refl: "ino_ok fs \<Longrightarrow> ichg fs g fs"
  by (simp add: ichg_def same_ifree)

lemma ichg_calls [simp]: "ichg fs g (fs'\<lparr>fs_calls := n\<rparr>) = ichg fs g fs'" "ichg (fs\<lparr>fs_calls := n\<rparr>) g fs' = ichg fs g fs'"
  by (simp_all add: ichg_def)

lemma ichg_trans:
  assumes "ichg a g b" "ichg b g c"
  shows "ichg a g c"
proof -
  obtain x y where "fs_sb b = (fs_sb a)\<lparr>s_free_inodes_count := x\<rparr>" "fs_sb c = (fs_sb b)\<lparr>s_free_inodes_count := y\<rparr>"
    using assms by (auto simp: ichg_def)
  then show ?thesis using assms by (auto simp: ichg_def)
qed

lemma ichgD:
  assumes "ichg fs g fs'"
  shows "ino_ok fs'" "vcnt fs' = vcnt fs" "gref (fs_sb fs') = gref (fs_sb fs)"
    "h < vcnt fs \<Longrightarrow> vib fs' h = vib fs h" "h < vcnt fs \<Longrightarrow> h \<noteq> g \<Longrightarrow> vbg fs' h = vbg fs h"
    "h < vcnt fs \<Longrightarrow> h \<noteq> g \<Longrightarrow> vim fs' h = vim fs h"
    "ext4_sb_get_block_size (fs_sb fs') = ext4_sb_get_block_size (fs_sb fs)"
proof -
  obtain c where "fs_sb fs' = (fs_sb fs)\<lparr>s_free_inodes_count := c\<rparr>" using assms by (auto simp: ichg_def)
  then show "vcnt fs' = vcnt fs" "gref (fs_sb fs') = gref (fs_sb fs)"
    "ext4_sb_get_block_size (fs_sb fs') = ext4_sb_get_block_size (fs_sb fs)" by simp_all
qed (use assms in \<open>simp_all add: ichg_def\<close>)

lemma ichg_free: "ino_ok fs \<Longrightarrow> ichg fs g (iput_free fs c l)"
  by (auto simp: ichg_def)

lemma iput_bitmap:
  assumes "ino_ok fs" "g < vcnt fs" "length bm = unat (ext4_sb_get_block_size (fs_sb fs))"
  defines "fs' \<equiv> vput_blk fs (vib fs g) bm"
  shows "ichg fs g fs'" "vbg fs' g = vbg fs g" "vim fs' g = bm"
proof -
  note p = vput_blk_data [OF ino_okD(1) [OF assms(1)] ino_okD(2) [OF assms(1,2)] assms(3), folded fs'_def]
  have sb: "fs_sb fs' = fs_sb fs" "fs_answer fs' = fs_answer fs" "fs_lg_bcnt fs' = fs_lg_bcnt fs" by (simp_all add: fs'_def)
  have i: "vib fs' h = vib fs h" if "h < vcnt fs" for h using p(1) [OF that] sb by (simp add: vib_def)
  then have m: "vim fs' h = (if h = g then bm else vim fs h)" if "h < vcnt fs" for h
    using that ino_okD(3) [OF assms(1) that assms(2)] by (cases "h = g") (simp_all add: vim_def fs'_def)
  have "ino_ok fs'" using assms(1) p(4,5) i sb unfolding ino_ok_def by simp
  then show "ichg fs g fs'" using p i m sb by (simp add: ichg_def same_ifree)
  show "vbg fs' g = vbg fs g" "vim fs' g = bm" using p(1) m assms(2) by simp_all
qed

lemma iput_desc:
  assumes "ino_ok fs" "g < vcnt fs" "ext4_bg_get_block_bitmap bg (fs_sb fs) = vbb fs g"
    and "ext4_bg_get_inode_bitmap bg (fs_sb fs) = vib fs g" "bg_flags bg = bg_flags (vbg fs g)"
  defines "fs' \<equiv> vput_bg fs g bg"
  shows "ichg fs g fs'" "vbg fs' g = bg_cut (fs_sb fs) bg" "vim fs' g = vim fs g"
proof -
  note v = vol_okD [OF ino_okD(1) [OF assms(1)]]
  note p = vput_desc [OF ino_okD(1) [OF assms(1)] assms(2,3,5), folded fs'_def]
  have sb: "fs_sb fs' = fs_sb fs" "fs_lg_bcnt fs' = fs_lg_bcnt fs" "fs_answer fs' = fs_answer fs" by (simp_all add: fs'_def)
  have i: "vib fs' h = vib fs h" if "h < vcnt fs" for h
    using p(1) [OF that] assms(4) bg_cut_get(2) [OF v(2)] sb by (auto simp: vib_def)
  then have m: "vim fs' h = vim fs h" if "h < vcnt fs" for h
    using that ino_okD(2) [OF assms(1) that] assms(2) by (auto simp: vim_def fs'_def vput_bg_def meta_block_def)
  have "ino_ok fs'" using assms(1) p(4,5) i sb unfolding ino_ok_def by simp
  then show "ichg fs g fs'" using p i m sb by (simp add: ichg_def same_ifree)
  show "vbg fs' g = bg_cut (fs_sb fs) bg" "vim fs' g = vim fs g" using p(1) m assms(2) by simp_all
qed


section \<open>The steps\<close>

lemma ibitmap_csum_ok:
  assumes "vol_ok fs" "length bm = unat (ext4_sb_get_block_size (fs_sb fs))"
  shows "\<exists>c. ext4_ialloc_bitmap_csum (fs_sb fs) bm = Some c"
proof -
  let ?p = "unat (s_inodes_per_group (fs_sb fs))" and ?b = "unat (ext4_sb_get_block_size (fs_sb fs))"
  have p: "?p \<le> 8 * ?b" using vol_okD(1) [OF assms(1)] by (simp add: sb_geometry_def Let_def)
  have "?b \<le> 65536" using sb_block_size_cases [of "fs_sb fs"] by auto
  then have "unat (s_inodes_per_group (fs_sb fs) + 7) = ?p + 7" using p by (subst unat_word_ariths) simp
  then have "unat ((s_inodes_per_group (fs_sb fs) + 7) div 8) \<le> length bm" using p assms(2) by (simp add: unat_div)
  then show ?thesis by (simp add: ext4_ialloc_bitmap_csum_def csum_bytes_def)
qed

lemma length_vim: "vol_ok fs \<Longrightarrow> length (vim fs g) = unat (ext4_sb_get_block_size (fs_sb fs))"
  by (simp add: vim_def vol_okD(6))

lemma check_bitmap_outcome:
  assumes "ino_ok fs" "g < vcnt fs"
  shows "ialloc_check_bitmap (gref (fs_sb fs) g) (vib fs g) fs =
    ((if ext4_ialloc_verify_bitmap_csum (fs_sb fs) (vbg fs g) (vim fs g) = Some True then Ret () else Err EIO), fs)"
proof -
  obtain c where "ext4_ialloc_bitmap_csum (fs_sb fs) (vim fs g) = Some c"
    using ibitmap_csum_ok ino_okD(1) [OF assms(1)] length_vim by blast
  then obtain ok where "ext4_ialloc_verify_bitmap_csum (fs_sb fs) (vbg fs g) (vim fs g) = Some ok"
    by (simp add: ext4_ialloc_verify_bitmap_csum_def)
  then show ?thesis
    by (simp add: ialloc_check_bitmap_def fs_bind_def fs_gets_def bgref_ops blk_get_def fs_mem_def fs_ignore_def
        blk_release_def fs_return_def fs_fail_def vim_def [symmetric])
qed

lemma store_bitmap_spec:
  assumes "ino_ok fs" "g < vcnt fs" "length bm = unat (ext4_sb_get_block_size (fs_sb fs))"
  obtains fs' where "ialloc_store_bitmap (gref (fs_sb fs) g) (vib fs g) bm fs = (Ret (), fs')"
    "ichg fs g fs'" "fs_sb fs' = fs_sb fs" "vim fs' g = bm"
    "ext4_bg_get_free_inodes_count (vbg fs' g) (fs_sb fs) = ext4_bg_get_free_inodes_count (vbg fs g) (fs_sb fs)"
    "ext4_bg_get_used_dirs_count (vbg fs' g) (fs_sb fs) = ext4_bg_get_used_dirs_count (vbg fs g) (fs_sb fs)"
    "ext4_bg_get_itable_unused (vbg fs' g) (fs_sb fs) = ext4_bg_get_itable_unused (vbg fs g) (fs_sb fs)"
    "ext4_ialloc_verify_bitmap_csum (fs_sb fs) (vbg fs' g) bm = Some True"
proof -
  let ?sb = "fs_sb fs" and ?fs1 = "vput_blk fs (vib fs g) bm"
  note p = iput_bitmap [OF assms]
  note d = vol_okD(2) [OF ino_okD(1) [OF assms(1)]]
  obtain c where "ext4_ialloc_bitmap_csum ?sb bm = Some c" using ibitmap_csum_ok [OF ino_okD(1) [OF assms(1)] assms(3)] by blast
  then have "\<exists>bg. ext4_ialloc_set_bitmap_csum ?sb (vbg fs g) bm = Some bg"
    unfolding ext4_ialloc_set_bitmap_csum_def Let_def by simp
  then obtain bg where bg: "ext4_ialloc_set_bitmap_csum ?sb (vbg fs g) bm = Some bg" ..
  have f: "ext4_bg_get_block_bitmap bg s = ext4_bg_get_block_bitmap (vbg fs g) s"
    "ext4_bg_get_inode_bitmap bg s = ext4_bg_get_inode_bitmap (vbg fs g) s" "bg_flags bg = bg_flags (vbg fs g)"
    "ext4_bg_get_free_inodes_count bg s = ext4_bg_get_free_inodes_count (vbg fs g) s"
    "ext4_bg_get_used_dirs_count bg s = ext4_bg_get_used_dirs_count (vbg fs g) s"
    "ext4_bg_get_itable_unused bg s = ext4_bg_get_itable_unused (vbg fs g) s"
    "ext4_ialloc_verify_bitmap_csum ?sb bg bm = Some True" for s
    using bg by (auto simp: ext4_ialloc_set_bitmap_csum_def ext4_ialloc_verify_bitmap_csum_def bg_accessors Let_def
        split: option.splits if_splits)
  have c1: "vib ?fs1 g = vib fs g" "vbb ?fs1 g = vbb fs g" using p(2) by (simp_all add: vib_def vbb_def)
  have pre: "ino_ok ?fs1" "g < vcnt ?fs1" "ext4_bg_get_block_bitmap bg (fs_sb ?fs1) = vbb ?fs1 g"
    "ext4_bg_get_inode_bitmap bg (fs_sb ?fs1) = vib ?fs1 g" "bg_flags bg = bg_flags (vbg ?fs1 g)"
    using ichgD(1) [OF p(1)] assms(2) f p(2) c1 by (simp_all add: vib_def vbb_def)
  note q = iput_desc [OF pre]
  have run: "ialloc_store_bitmap (gref ?sb g) (vib fs g) bm fs = (Ret (), vput_bg ?fs1 g bg)"
    using bg bgref_ops [of ?fs1 g] p(2)
    by (simp add: ialloc_store_bitmap_def fs_bind_def blk_put_def fs_modify_def vput_blk_def [symmetric] fs_gets_def fs_mem_def)
  show ?thesis
    using that [OF run ichg_trans [OF p(1) q(1)]] q(2,3) p(3) f bg_cut_get(5,6,7,10) [OF d] by simp
qed


lemma iupd_spec:
  assumes "ino_ok fs" "g < vcnt fs"
    and "ext4_bg_get_block_bitmap (f (vbg fs g)) (fs_sb fs) = vbb fs g"
    "ext4_bg_get_inode_bitmap (f (vbg fs g)) (fs_sb fs) = vib fs g" "bg_flags (f (vbg fs g)) = bg_flags (vbg fs g)"
  obtains fs' where "bgref_upd (gref (fs_sb fs) g) f fs = (Ret (), fs')" "ichg fs g fs'" "fs_sb fs' = fs_sb fs"
    "vim fs' g = vim fs g" "vbg fs' g = bg_cut (fs_sb fs) (f (vbg fs g))"
proof -
  note p = iput_desc [OF assms]
  have "bgref_upd (gref (fs_sb fs) g) f fs = (Ret (), vput_bg fs g (f (vbg fs g)))"
    by (simp add: bgref_upd_def fs_bind_def bgref_ops)
  then show ?thesis using that p by simp
qed

text \<open>What the rest of the code reads of a descriptor.\<close>

definition idesc :: "ext4_sblock \<Rightarrow> ext4_bgroup \<Rightarrow> u32 \<times> u32 \<times> u32" where
  "idesc sb bg = (ext4_bg_get_free_inodes_count bg sb, ext4_bg_get_used_dirs_count bg sb, ext4_bg_get_itable_unused bg sb)"

lemma idesc_cut: "desc_ok sb \<Longrightarrow> idesc sb (bg_cut sb bg) = idesc sb bg"
  by (simp add: idesc_def bg_cut_get)

lemma iput_ref_spec:
  assumes "ino_ok fs" "g < vcnt fs"
  obtains fs' where "ext4_fs_put_block_group_ref ((gref (fs_sb fs) g)\<lparr>bgr_dirty := True\<rparr>) fs = (Ret (), fs')"
    "ichg fs g fs'" "fs_sb fs' = fs_sb fs" "vim fs' g = vim fs g" "idesc (fs_sb fs) (vbg fs' g) = idesc (fs_sb fs) (vbg fs g)"
    "ext4_ialloc_verify_bitmap_csum (fs_sb fs) (vbg fs' g) bm = ext4_ialloc_verify_bitmap_csum (fs_sb fs) (vbg fs g) bm"
    "ext4_fs_verify_bg_csum (fs_sb fs) g (vbg fs' g)"
proof -
  let ?f = "\<lambda>bg. ext4_bg_set_checksum bg (ext4_fs_bg_checksum (fs_sb fs) g bg)"
  have acc: "ext4_bg_get_block_bitmap (?f bg) s = ext4_bg_get_block_bitmap bg s" "bg_flags (?f bg) = bg_flags bg"
    "ext4_bg_get_inode_bitmap (?f bg) s = ext4_bg_get_inode_bitmap bg s" "idesc s (?f bg) = idesc s bg"
    "ext4_ialloc_verify_bitmap_csum s (?f bg) bm = ext4_ialloc_verify_bitmap_csum s bg bm" for bg s
    unfolding ext4_bg_set_checksum_def bg_accessors ext4_ialloc_verify_bitmap_csum_def Let_def idesc_def
    by (simp_all split: option.split)
  note d = vol_okD(2) [OF ino_okD(1) [OF assms(1)]]
  obtain fs' where u: "bgref_upd (gref (fs_sb fs) g) ?f fs = (Ret (), fs')" "ichg fs g fs'" "fs_sb fs' = fs_sb fs"
    "vim fs' g = vim fs g" "vbg fs' g = bg_cut (fs_sb fs) (?f (vbg fs g))"
    by (rule iupd_spec [OF assms, of ?f]) (simp_all add: acc vbb_def vib_def)
  have "ext4_fs_put_block_group_ref ((gref (fs_sb fs) g)\<lparr>bgr_dirty := True\<rparr>) fs = (Ret (), fs')"
    using u(1) by (simp add: ext4_fs_put_block_group_ref_def fs_bind_def fs_gets_def blk_release_def fs_return_def)
  then show ?thesis
    using that u acc bg_cut_get(10) [OF d] idesc_cut [OF d] bg_cut_verify [OF d] bg_checksum_verifies by simp
qed

text \<open>Descriptor counters after a write, cut to the width of the descriptor.\<close>

definition bg_fit :: "ext4_sblock \<Rightarrow> u32 \<Rightarrow> u32" where
  "bg_fit sb c = (if bg_wide sb then c else c AND 0xFFFF)"

lemma iset_others:
  "ext4_bg_get_used_dirs_count (ext4_bg_set_free_inodes_count bg sb c) s = ext4_bg_get_used_dirs_count bg s"
  "ext4_bg_get_itable_unused (ext4_bg_set_free_inodes_count bg sb c) s = ext4_bg_get_itable_unused bg s"
  "ext4_bg_get_free_inodes_count (ext4_bg_set_used_dirs_count bg sb c) s = ext4_bg_get_free_inodes_count bg s"
  "ext4_bg_get_itable_unused (ext4_bg_set_used_dirs_count bg sb c) s = ext4_bg_get_itable_unused bg s"
  "ext4_bg_get_free_inodes_count (ext4_bg_set_itable_unused bg sb c) s = ext4_bg_get_free_inodes_count bg s"
  "ext4_bg_get_used_dirs_count (ext4_bg_set_itable_unused bg sb c) s = ext4_bg_get_used_dirs_count bg s"
  by (simp_all add: bg_accessors Let_def)

lemma idesc_set:
  "idesc sb (ext4_bg_set_free_inodes_count bg sb c) = (bg_fit sb c, ext4_bg_get_used_dirs_count bg sb, ext4_bg_get_itable_unused bg sb)"
  "idesc sb (ext4_bg_set_used_dirs_count bg sb c) = (ext4_bg_get_free_inodes_count bg sb, bg_fit sb c, ext4_bg_get_itable_unused bg sb)"
  "idesc sb (ext4_bg_set_itable_unused bg sb c) = (ext4_bg_get_free_inodes_count bg sb, ext4_bg_get_used_dirs_count bg sb, bg_fit sb c)"
  by (simp_all add: idesc_def bg_fit_def iset_others bg_count_roundtrip)

lemma iset_keeps:
  "ext4_bg_get_block_bitmap (ext4_bg_set_free_inodes_count bg sb c) s = ext4_bg_get_block_bitmap bg s"
  "ext4_bg_get_inode_bitmap (ext4_bg_set_free_inodes_count bg sb c) s = ext4_bg_get_inode_bitmap bg s"
  "bg_flags (ext4_bg_set_free_inodes_count bg sb c) = bg_flags bg"
  "ext4_ialloc_verify_bitmap_csum s (ext4_bg_set_free_inodes_count bg sb c) bm = ext4_ialloc_verify_bitmap_csum s bg bm"
  "ext4_bg_get_block_bitmap (ext4_bg_set_used_dirs_count bg sb c) s = ext4_bg_get_block_bitmap bg s"
  "ext4_bg_get_inode_bitmap (ext4_bg_set_used_dirs_count bg sb c) s = ext4_bg_get_inode_bitmap bg s"
  "bg_flags (ext4_bg_set_used_dirs_count bg sb c) = bg_flags bg"
  "ext4_ialloc_verify_bitmap_csum s (ext4_bg_set_used_dirs_count bg sb c) bm = ext4_ialloc_verify_bitmap_csum s bg bm"
  "ext4_bg_get_block_bitmap (ext4_bg_set_itable_unused bg sb c) s = ext4_bg_get_block_bitmap bg s"
  "ext4_bg_get_inode_bitmap (ext4_bg_set_itable_unused bg sb c) s = ext4_bg_get_inode_bitmap bg s"
  "bg_flags (ext4_bg_set_itable_unused bg sb c) = bg_flags bg"
  "ext4_ialloc_verify_bitmap_csum s (ext4_bg_set_itable_unused bg sb c) bm = ext4_ialloc_verify_bitmap_csum s bg bm"
  unfolding bg_accessors ext4_ialloc_verify_bitmap_csum_def Let_def by (simp_all split: option.split)


section \<open>Taking an inode of a group\<close>

text \<open>Inode \<open>i\<close> of group \<open>g\<close> has been taken: it was free in a bitmap that verified, exactly its bit is now
  set, bitmap and descriptor verify, and the counters of the descriptor have moved by one.  The part of the
  inode table that has never been used no longer contains it.\<close>

definition itook :: "ext4_fs \<Rightarrow> u32 \<Rightarrow> u32 \<Rightarrow> bool \<Rightarrow> ext4_fs \<Rightarrow> bool" where
  "itook fs g i is_dir fs' \<longleftrightarrow> ichg fs g fs' \<and> unat i < unat (ext4_inodes_in_group_cnt (fs_sb fs) g) \<and>
     \<not> bm_bit (vim fs g) (unat i) \<and> ext4_ialloc_verify_bitmap_csum (fs_sb fs) (vbg fs g) (vim fs g) = Some True \<and>
     vim fs' g = bm_upd (vim fs g) (unat i) True \<and>
     ext4_ialloc_verify_bitmap_csum (fs_sb fs) (vbg fs' g) (vim fs' g) = Some True \<and>
     ext4_fs_verify_bg_csum (fs_sb fs) g (vbg fs' g) \<and>
     (case (idesc (fs_sb fs) (vbg fs g), idesc (fs_sb fs) (vbg fs' g)) of ((free, dirs, unused), free', dirs', unused') \<Rightarrow>
        0 < free \<and> free' = bg_fit (fs_sb fs) (free - 1) \<and> dirs' = (if is_dir then bg_fit (fs_sb fs) (dirs + 1) else dirs) \<and>
        (unused \<le> ext4_inodes_in_group_cnt (fs_sb fs) g \<longrightarrow> unat unused' + unat i < unat (ext4_inodes_in_group_cnt (fs_sb fs) g)))"

lemma bg_fit_le: "unat (bg_fit sb c) \<le> unat c"
  using word_and_le2 [of c "0xFFFF"] by (simp add: bg_fit_def word_le_nat_alt)

lemma inode_taken_desc:
  fixes bg sb n i d
  defines "bg' \<equiv> inode_taken sb (ext4_bg_get_free_inodes_count bg sb) (ext4_bg_get_used_dirs_count bg sb) n d i bg"
  assumes "unat i < unat n"
  shows "ext4_bg_get_block_bitmap bg' s = ext4_bg_get_block_bitmap bg s" "ext4_bg_get_inode_bitmap bg' s = ext4_bg_get_inode_bitmap bg s"
    "bg_flags bg' = bg_flags bg" "ext4_ialloc_verify_bitmap_csum s bg' bm = ext4_ialloc_verify_bitmap_csum s bg bm"
    "case (idesc sb bg, idesc sb bg') of ((free, dirs, unused), free', dirs', unused') \<Rightarrow>
       free' = bg_fit sb (free - 1) \<and> dirs' = (if d then bg_fit sb (dirs + 1) else dirs) \<and>
       (unused \<le> n \<longrightarrow> unat unused' + unat i < unat n)"
proof -
  show "ext4_bg_get_block_bitmap bg' s = ext4_bg_get_block_bitmap bg s" "ext4_bg_get_inode_bitmap bg' s = ext4_bg_get_inode_bitmap bg s"
    "bg_flags bg' = bg_flags bg" "ext4_ialloc_verify_bitmap_csum s bg' bm = ext4_ialloc_verify_bitmap_csum s bg bm"
    unfolding bg'_def inode_taken_def Let_def by (simp_all add: iset_keeps)
  let ?u = "ext4_bg_get_itable_unused bg sb"
  have i1: "unat (i + 1) = unat i + 1" using assms(2) unat_Suc_less_word [of i n] by (simp add: word_less_nat_alt)
  then have "unat (n - (i + 1)) = unat n - (unat i + 1)" using assms(2) by (subst unat_sub) (simp_all add: word_le_nat_alt)
  then have cut: "unat (bg_fit sb (n - (i + 1))) + unat i < unat n" using bg_fit_le [of sb "n - (i + 1)"] assms(2) by linarith
  have rest: "unat ?u + unat i < unat n" if "\<not> n - ?u \<le> i" "?u \<le> n"
    using that by (simp add: word_le_nat_alt unat_sub)
  have desc: "idesc sb bg' = (bg_fit sb (ext4_bg_get_free_inodes_count bg sb - 1),
      (if d then bg_fit sb (ext4_bg_get_used_dirs_count bg sb + 1) else ext4_bg_get_used_dirs_count bg sb),
      (if n - ?u \<le> i then bg_fit sb (n - (i + 1)) else ?u))"
    unfolding bg'_def inode_taken_def Let_def
    by (simp add: idesc_def iset_others bg_count_roundtrip bg_fit_def)
  show "case (idesc sb bg, idesc sb bg') of ((free, dirs, unused), free', dirs', unused') \<Rightarrow>
       free' = bg_fit sb (free - 1) \<and> dirs' = (if d then bg_fit sb (dirs + 1) else dirs) \<and>
       (unused \<le> n \<longrightarrow> unat unused' + unat i < unat n)"
    unfolding desc using cut rest by (simp add: idesc_def)
qed


lemma block_get_cases:
  obtains (got) n where "ext4_trans_block_get l fs = (Ret l, fs\<lparr>fs_calls := n\<rparr>)"
    | (failed) e n where "ext4_trans_block_get l fs = (Err e, fs\<lparr>fs_calls := n\<rparr>)"
  using block_get_outcome [of l fs] by (cases "ext4_trans_block_get l fs") auto

lemma inode_limits:
  assumes "ino_ok fs" "g < vcnt fs"
  shows "unat (ext4_inodes_in_group_cnt (fs_sb fs) g) \<le> 8 * length (vim fs g)"
proof -
  have "unat (s_inodes_per_group (fs_sb fs)) \<le> 8 * unat (ext4_sb_get_block_size (fs_sb fs))"
    using vol_okD(1) [OF ino_okD(1) [OF assms(1)]] by (simp add: sb_geometry_def Let_def)
  then show ?thesis using ino_okD(4) [OF assms] length_vim [OF ino_okD(1) [OF assms(1)]] by (simp add: word_le_nat_alt)
qed

text \<open>The device answers every request and every inode bitmap verifies.\<close>

definition ino_no_fail :: "ext4_fs \<Rightarrow> bool" where
  "ino_no_fail fs \<longleftrightarrow> (\<forall>n. fs_answer fs n = EOK) \<and>
     (\<forall>g < vcnt fs. dblk (fs_sb fs) g < fs_lg_bcnt fs \<and> 0 < vib fs g \<and> vib fs g < fs_lg_bcnt fs \<and>
        ext4_ialloc_verify_bitmap_csum (fs_sb fs) (vbg fs g) (vim fs g) = Some True)"

lemma ino_no_fail_calls [simp]: "ino_no_fail (fs\<lparr>fs_calls := n\<rparr>) = ino_no_fail fs"
  by (simp add: ino_no_fail_def)

lemma inode_in_group_outcome:
  assumes ok: "ino_ok fs" "g < vcnt fs" and nz: "0 < ext4_bg_get_free_inodes_count (vbg fs g) (fs_sb fs)"
    and run: "alloc_inode_in_group (gref (fs_sb fs) g) g is_dir fs = (r, fs')"
  shows "no_change fs fs' \<and> ((\<exists>e. r = Err e) \<and> \<not> ino_no_fail fs \<or>
      r = Ret None \<and> (\<forall>i < unat (ext4_inodes_in_group_cnt (fs_sb fs) g). bm_bit (vim fs g) i)) \<or>
    (\<exists>i. r = Ret (Some i) \<and> itook fs g i is_dir fs' \<and> fs_sb fs' = fs_sb fs)"
proof -
  let ?sb = "fs_sb fs" and ?n = "ext4_inodes_in_group_cnt (fs_sb fs) g" and ?bm = "vim fs g"
  note v = ino_okD(1) [OF ok(1)]
  note run' = run [unfolded alloc_inode_in_group_def fs_bind_def [of "fs_gets fs_sb"] fs_gets_def fs_bind_def [of "bgref_get _"] bgref_ops
      fsres.case prod.case Let_def vib_def [symmetric]]
  show ?thesis
  proof (cases rule: block_get_cases [of "vib fs g" fs])
    case (failed e n)
    then have "no_change fs fs'" "r = Err e" using run' by (auto simp: fs_bind_def fs_on_error_def no_change_def)
    moreover have "\<not> ino_no_fail fs" using failed block_get_ok [of fs "vib fs g"] ok(2) by (auto simp: ino_no_fail_def)
    ultimately show ?thesis by blast
  next
    case (got n)
    let ?fs = "fs\<lparr>fs_calls := n\<rparr>"
    have nc: "no_change fs ?fs" by (auto simp: no_change_def)
    have ok1: "ino_ok ?fs" "g < vcnt ?fs" using ok by simp_all
    note chk = check_bitmap_outcome [OF ok1, simplified]
    have bm: "fs_blk fs (vib fs g) = ?bm" by (simp add: vim_def)
    show ?thesis
    proof (cases "ext4_ialloc_verify_bitmap_csum ?sb (vbg fs g) ?bm = Some True")
      case False
      then have "r = Err EIO" "fs' = ?fs" using run' got chk by (simp_all add: fs_bind_def fs_on_error_def)
      moreover have "\<not> ino_no_fail fs" using False ok(2) by (auto simp: ino_no_fail_def)
      ultimately show ?thesis using nc by blast
    next
      case ver: True
      have fc: "ext4_bmap_bit_find_clr ?bm 0 ?n = Some (first_clr ?bm 0 (unat ?n))"
        using find_clr_eq_first_clr [of ?n ?bm 0] inode_limits [OF ok] by simp
      show ?thesis
      proof (cases "first_clr ?bm 0 (unat ?n)")
        case NoSpace
        then have "r = Ret None" "fs' = ?fs"
          using run' got chk ver bm fc
          by (simp_all add: fs_bind_def fs_on_error_def blk_get_def fs_gets_def fs_mem_def blk_release_def fs_return_def)
        moreover have "\<forall>i < unat ?n. bm_bit ?bm i"
          using NoSpace find_upt_None [of "\<lambda>i. \<not> bm_bit ?bm i" 0 "unat ?n"] by (auto simp: first_clr_def split: option.splits)
        ultimately show ?thesis using nc by blast
      next
        case (Found i)
        have "unat i < unat ?n \<and> \<not> bm_bit ?bm (unat i)"
          using find_clr_Found_in_range [of ?bm 0 ?n i] fc Found inode_limits [OF ok] by (simp add: word_less_nat_alt)
        then have i: "unat i < unat ?n" "\<not> bm_bit ?bm (unat i)" "unat i < 8 * length ?bm"
          using inode_limits [OF ok] by auto
        let ?bm' = "bm_upd ?bm (unat i) True"
        have setb: "ext4_bmap_bit_set ?bm i = Some ?bm'" using i(3) by (simp add: bit_set_eq)
        have ok1': "ino_ok ?fs" "g < vcnt ?fs" "length ?bm' = unat (ext4_sb_get_block_size (fs_sb ?fs))"
          using ok length_vim [OF v] by simp_all
        obtain fs2 where r2: "ialloc_store_bitmap (gref (fs_sb ?fs) g) (vib ?fs g) ?bm' ?fs = (Ret (), fs2)"
          and c2: "ichg ?fs g fs2" "fs_sb fs2 = fs_sb ?fs" "vim fs2 g = ?bm'"
          and d2: "ext4_bg_get_free_inodes_count (vbg fs2 g) (fs_sb ?fs) = ext4_bg_get_free_inodes_count (vbg ?fs g) (fs_sb ?fs)"
            "ext4_bg_get_used_dirs_count (vbg fs2 g) (fs_sb ?fs) = ext4_bg_get_used_dirs_count (vbg ?fs g) (fs_sb ?fs)"
            "ext4_bg_get_itable_unused (vbg fs2 g) (fs_sb ?fs) = ext4_bg_get_itable_unused (vbg ?fs g) (fs_sb ?fs)"
          and v2: "ext4_ialloc_verify_bitmap_csum (fs_sb ?fs) (vbg fs2 g) ?bm' = Some True"
          by (rule store_bitmap_spec [OF ok1'])
        let ?t = "inode_taken ?sb (ext4_bg_get_free_inodes_count (vbg fs2 g) ?sb) (ext4_bg_get_used_dirs_count (vbg fs2 g) ?sb) ?n is_dir i"
        note t = inode_taken_desc [OF i(1), where sb = ?sb and bg = "vbg fs2 g" and d = is_dir]
        note e2 = ichgD [OF c2(1)]
        have ok2: "ino_ok fs2" "g < vcnt fs2" using e2(1,2) ok(2) by simp_all
        obtain fs3 where r3: "bgref_upd (gref (fs_sb fs2) g) ?t fs2 = (Ret (), fs3)" and c3: "ichg fs2 g fs3" "fs_sb fs3 = fs_sb fs2"
          "vim fs3 g = vim fs2 g" "vbg fs3 g = bg_cut (fs_sb fs2) (?t (vbg fs2 g))"
          by (rule iupd_spec [OF ok2, of ?t]) (simp_all add: t vbb_def vib_def)
        note e3 = ichgD [OF c3(1)]
        have ok3: "ino_ok fs3" "g < vcnt fs3" using e3(1,2) ok2(2) by simp_all
        obtain fs4 where r4: "ext4_fs_put_block_group_ref ((gref (fs_sb fs3) g)\<lparr>bgr_dirty := True\<rparr>) fs3 = (Ret (), fs4)"
          and c4: "ichg fs3 g fs4" "fs_sb fs4 = fs_sb fs3" "vim fs4 g = vim fs3 g" "idesc (fs_sb fs3) (vbg fs4 g) = idesc (fs_sb fs3) (vbg fs3 g)"
          "ext4_ialloc_verify_bitmap_csum (fs_sb fs3) (vbg fs4 g) ?bm' = ext4_ialloc_verify_bitmap_csum (fs_sb fs3) (vbg fs3 g) ?bm'"
          "ext4_fs_verify_bg_csum (fs_sb fs3) g (vbg fs4 g)"
          by (rule iput_ref_spec [OF ok3])
        have res: "r = Ret (Some i)" "fs' = fs4"
          using run' got chk ver bm fc Found setb r2 d2 c2(2) c3(2) r3 r4
          by (simp_all add: fs_bind_def fs_on_error_def blk_get_def fs_gets_def fs_mem_def blk_release_def fs_return_def fs_ignore_def)
        note desc = vol_okD(2) [OF v]
        have id: "idesc ?sb (vbg fs4 g) = idesc ?sb (?t (vbg fs2 g))" "idesc ?sb (vbg fs2 g) = idesc ?sb (vbg fs g)"
          using c4(4) c3(2,4) c2(2) d2 idesc_cut [OF desc] by (simp_all add: idesc_def)
        have "itook fs g i is_dir fs4"
          unfolding itook_def
          using ichg_trans [OF ichg_trans [OF c2(1) c3(1)] c4(1)] i ver c4(2,3,5,6) c3(2,3,4) c2(2,3) v2
            bg_cut_get(10) [OF desc] t(4,5) nz id by (simp add: idesc_def)
        then show ?thesis using res c4(2) c3(2) c2(2) by simp
      qed
    qed
  qed
qed


section \<open>Inode numbers\<close>

lemma inode_number_nat:
  assumes "ino_ok fs" "g < vcnt fs" "unat i < unat (s_inodes_per_group (fs_sb fs))"
  shows "unat (ext4_ialloc_bgidx_to_inode (fs_sb fs) i g) = unat g * unat (s_inodes_per_group (fs_sb fs)) + unat i + 1"
proof -
  let ?p = "unat (s_inodes_per_group (fs_sb fs))"
  have "(unat g + 1) * ?p \<le> unat (vcnt fs) * ?p" using assms(2) by (intro mult_le_mono1) (simp add: word_less_nat_alt)
  then have lt: "unat g * ?p + unat i + 1 < 2 ^ 32" using ino_okD(5) [OF assms(1)] assms(3) by simp
  then have m: "unat (g * s_inodes_per_group (fs_sb fs)) = unat g * ?p" by (subst unat_word_ariths) (simp add: mod_less)
  have i: "unat (i + 1) = unat i + 1" using lt by (intro unat_Suc_word) simp
  show ?thesis unfolding ext4_ialloc_bgidx_to_inode_def using lt m i by (subst unat_word_ariths) simp
qed

lemma inode_number_roundtrip:
  assumes "ino_ok fs" "g < vcnt fs" "unat i < unat (s_inodes_per_group (fs_sb fs))"
  defines "n \<equiv> ext4_ialloc_bgidx_to_inode (fs_sb fs) i g"
  shows "ext4_ialloc_get_bgid_of_inode (fs_sb fs) n = g" "ext4_ialloc_inode_to_bgidx (fs_sb fs) n = i"
proof -
  let ?p = "unat (s_inodes_per_group (fs_sb fs))"
  have n: "unat n = unat g * ?p + unat i + 1" using inode_number_nat [OF assms(1-3)] by (simp add: n_def)
  then have "n \<noteq> 0" by auto
  then have n1: "unat (n - 1) = unat g * ?p + unat i" using n by (simp add: unat_minus_one)
  show "ext4_ialloc_get_bgid_of_inode (fs_sb fs) n = g"
    using assms(3) by (simp add: ext4_ialloc_get_bgid_of_inode_def word_unat_eq_iff unat_div n1)
  show "ext4_ialloc_inode_to_bgidx (fs_sb fs) n = i"
    using assms(3) by (simp add: ext4_ialloc_inode_to_bgidx_def word_unat_eq_iff unat_mod n1)
qed

section \<open>The search\<close>

definition alloc_inode_result :: "ext4_fs \<Rightarrow> bool \<Rightarrow> u32 fsres \<Rightarrow> ext4_fs \<Rightarrow> bool" where
  "alloc_inode_result fs is_dir r fs' \<longleftrightarrow>
     (case r of Crash \<Rightarrow> False | Err e \<Rightarrow> no_change fs fs'
      | Ret n \<Rightarrow> \<exists>g i fs1. g < vcnt fs \<and> n = ext4_ialloc_bgidx_to_inode (fs_sb fs) i g \<and> itook fs g i is_dir fs1 \<and>
          fs' = iput_free fs1 (s_free_inodes_count (fs_sb fs) - 1) g)"

lemma itook_calls [simp]: "itook (fs\<lparr>fs_calls := n\<rparr>) g i d fs' = itook fs g i d fs'"
proof -
  have sb: "fs_sb (fs\<lparr>fs_calls := n\<rparr>) = fs_sb fs" by simp
  show ?thesis unfolding itook_def sb by simp
qed

lemma alloc_inode_result_calls [simp]:
  "alloc_inode_result (fs\<lparr>fs_calls := n\<rparr>) d r fs' = alloc_inode_result fs d r fs'"
  by (auto simp: alloc_inode_result_def no_change_def split: fsres.splits)

text \<open>One turn of the loop, with the rest of the loop as a continuation.\<close>

definition inode_turn :: "u32 fsm \<Rightarrow> u32 \<Rightarrow> u32 \<Rightarrow> bool \<Rightarrow> u32 fsm" where
  "inode_turn rest g sb_free is_dir =
     fs_bind (ext4_fs_get_block_group_ref g) (\<lambda>ref.
     fs_bind (fs_gets fs_sb) (\<lambda>sb.
     fs_bind (bgref_get ref) (\<lambda>bg.
     if 0 < ext4_bg_get_free_inodes_count bg sb then
       fs_bind (alloc_inode_in_group ref g is_dir) (\<lambda>found.
       case found of None \<Rightarrow> rest
       | Some idx_in_bg \<Rightarrow>
           fs_bind (fs_modify (\<lambda>fs. fs
             \<lparr>fs_sb := (fs_sb fs)\<lparr>s_free_inodes_count := sb_free - 1\<rparr>, fs_last_inode_bg_id := g\<rparr>)) (\<lambda>_.
           fs_return (ext4_ialloc_bgidx_to_inode sb idx_in_bg g)))
     else fs_bind (fs_ignore (ext4_fs_put_block_group_ref ref)) (\<lambda>_. rest))))"

lemma alloc_inode_groups_turn:
  "bgid < bg_count \<Longrightarrow> alloc_inode_groups bg_count bgid rewind sb_free is_dir =
     inode_turn (alloc_inode_groups bg_count (bgid + 1) rewind sb_free is_dir) bgid sb_free is_dir"
  unfolding inode_turn_def by (subst alloc_inode_groups.simps) auto

lemma alloc_inode_groups_end:
  "bg_count < bgid \<Longrightarrow> alloc_inode_groups bg_count bgid rewind sb_free is_dir = fs_fail ENOSPC"
  "alloc_inode_groups c c True sb_free is_dir = fs_fail ENOSPC"
  "alloc_inode_groups c c False sb_free is_dir fs = alloc_inode_groups (fs_last_inode_bg_id fs) 0 True sb_free is_dir fs"
  by (subst alloc_inode_groups.simps; simp add: fs_bind_def fs_gets_def)+


definition ino_space :: "ext4_fs \<Rightarrow> u32 \<Rightarrow> bool" where
  "ino_space fs g \<longleftrightarrow> 0 < ext4_bg_get_free_inodes_count (vbg fs g) (fs_sb fs) \<and>
     (\<exists>i < unat (ext4_inodes_in_group_cnt (fs_sb fs) g). \<not> bm_bit (vim fs g) i)"

lemma ino_space_calls [simp]: "ino_space (fs\<lparr>fs_calls := n\<rparr>) = ino_space fs"
  by (simp add: ino_space_def fun_eq_iff)

lemma inode_turn_outcome:
  assumes ok: "ino_ok fs" "g < vcnt fs"
    and rest: "\<And>n. \<not> ino_space fs g \<Longrightarrow> rest (fs\<lparr>fs_calls := n\<rparr>) = (r, fs') \<Longrightarrow> P"
    and err: "\<And>e. r = Err e \<Longrightarrow> no_change fs fs' \<Longrightarrow> \<not> ino_no_fail fs \<Longrightarrow> P"
    and hit: "\<And>i fs1. r = Ret (ext4_ialloc_bgidx_to_inode (fs_sb fs) i g) \<Longrightarrow> itook fs g i is_dir fs1 \<Longrightarrow>
      fs' = iput_free fs1 (sb_free - 1) g \<Longrightarrow> P"
    and run: "inode_turn rest g sb_free is_dir fs = (r, fs')"
  shows P
proof (cases rule: block_get_cases [of "dblk (fs_sb fs) g" fs])
  case (failed e n)
  note v = vol_okD [OF ino_okD(1) [OF ok(1)]]
  have "0 < dblk (fs_sb fs) g" using dblk_nat [OF v(1-3), of g] by (simp add: word_less_nat_alt)
  then have "\<not> ino_no_fail fs" using failed block_get_ok [of fs "dblk (fs_sb fs) g"] ok(2) by (auto simp: ino_no_fail_def)
  moreover have "r = Err e" "no_change fs fs'"
    using run failed get_ref_run [OF ino_okD(1) [OF ok(1)] ok(2)] by (auto simp: inode_turn_def fs_bind_def no_change_def)
  ultimately show P using err by blast
next
  case (got n)
  let ?fs = "fs\<lparr>fs_calls := n\<rparr>" and ?free = "ext4_bg_get_free_inodes_count (vbg fs g) (fs_sb fs)"
  have ref: "ext4_fs_get_block_group_ref g fs = (Ret (gref (fs_sb fs) g), ?fs)"
    using got get_ref_run [OF ino_okD(1) [OF ok(1)] ok(2)] by simp
  have sb: "fs_sb ?fs = fs_sb fs" by simp
  have bg: "bgref_get (gref (fs_sb fs) g) ?fs = (Ret (vbg fs g), ?fs)" using bgref_ops(1) [of ?fs g] by simp
  note run' = run [unfolded inode_turn_def fs_bind_def [of "ext4_fs_get_block_group_ref g"] ref prod.case fsres.case
      fs_bind_def [of "fs_gets fs_sb"] fs_gets_def sb fs_bind_def [of "bgref_get _"] bg]
  show P
  proof (cases "0 < ?free")
    case False
    then have "rest ?fs = (r, fs')" using run' by (simp add: fs_bind_def fs_ignore_def)
    then show P using rest [of n] False by (simp add: ino_space_def)
  next
    case True
    obtain r2 fs2 where ag: "alloc_inode_in_group (gref (fs_sb ?fs) g) g is_dir ?fs = (r2, fs2)" by fastforce
    have pre: "ino_ok ?fs" "g < vcnt ?fs" "0 < ext4_bg_get_free_inodes_count (vbg ?fs g) (fs_sb ?fs)" using ok True by simp_all
    note out = inode_in_group_outcome [OF pre ag]
    from out consider (err) e where "r2 = Err e" "no_change ?fs fs2" "\<not> ino_no_fail fs"
      | (none) "r2 = Ret None" "no_change ?fs fs2" "\<not> ino_space fs g"
      | (some) i where "r2 = Ret (Some i)" "itook fs g i is_dir fs2" "fs_sb fs2 = fs_sb fs"
      by (auto simp: ino_space_def)
    then show P
    proof cases
      case err
      then show P using run' True ag assms(4) [of e] by (auto simp: fs_bind_def no_change_def)
    next
      case none
      then obtain m where "fs2 = fs\<lparr>fs_calls := m\<rparr>" by (auto simp: no_change_def)
      then show P using run' True ag none rest [of m] by (simp add: fs_bind_def)
    next
      case some
      then show P using run' True ag hit [of i fs2] by (simp add: fs_bind_def fs_modify_def fs_return_def iput_free_def)
    qed
  qed
qed


text \<open>A walk from one group up to the end of its range.\<close>

lemma inode_groups_walk:
  assumes "ino_ok fs" "bgid \<le> bg_count" "bg_count \<le> vcnt fs"
    and "alloc_inode_groups bg_count bgid rw sb_free is_dir (fs\<lparr>fs_calls := n\<rparr>) = (r, fs')"
    and fin: "\<And>n. (\<And>h. bgid \<le> h \<Longrightarrow> h < bg_count \<Longrightarrow> \<not> ino_space fs h) \<Longrightarrow>
      alloc_inode_groups bg_count bg_count rw sb_free is_dir (fs\<lparr>fs_calls := n\<rparr>) = (r, fs') \<Longrightarrow> P"
    and err: "\<And>e. r = Err e \<Longrightarrow> no_change fs fs' \<Longrightarrow> \<not> ino_no_fail fs \<Longrightarrow> P"
    and hit: "\<And>g i fs1. g < vcnt fs \<Longrightarrow> r = Ret (ext4_ialloc_bgidx_to_inode (fs_sb fs) i g) \<Longrightarrow> itook fs g i is_dir fs1 \<Longrightarrow>
      fs' = iput_free fs1 (sb_free - 1) g \<Longrightarrow> P"
  shows P
  using assms(2,4) fin
proof (induction "unat bg_count - unat bgid" arbitrary: bgid n)
  case 0
  then have "bgid = bg_count" by (simp add: word_le_nat_alt word_unat_eq_iff)
  then show P using "0.prems" by auto
next
  case (Suc k)
  then have lt: "bgid < bg_count" by (simp add: word_less_nat_alt)
  note b1 = unat_Suc_less_word [OF lt]
  have le: "bgid + 1 \<le> bg_count" using lt b1 by (simp add: word_le_nat_alt word_less_nat_alt)
  have k: "k = unat bg_count - unat (bgid + 1)" using Suc.hyps(2) b1 by simp
  have ge: "bgid = h \<or> bgid + 1 \<le> h" if "bgid \<le> h" for h using that b1 by (auto simp: word_le_nat_alt word_unat_eq_iff)
  have ok: "ino_ok (fs\<lparr>fs_calls := n\<rparr>)" "bgid < vcnt (fs\<lparr>fs_calls := n\<rparr>)" using assms(1,3) lt by simp_all
  note run = Suc.prems(2) [unfolded alloc_inode_groups_turn [OF lt]]
  show P
  proof (rule inode_turn_outcome [OF ok _ _ _ run])
    fix m
    assume ns: "\<not> ino_space (fs\<lparr>fs_calls := n\<rparr>) bgid"
      and rest: "alloc_inode_groups bg_count (bgid + 1) rw sb_free is_dir (fs\<lparr>fs_calls := n, fs_calls := m\<rparr>) = (r, fs')"
    show P
    proof (rule Suc.hyps(1) [OF k le])
      show "alloc_inode_groups bg_count (bgid + 1) rw sb_free is_dir (fs\<lparr>fs_calls := m\<rparr>) = (r, fs')" using rest by simp
      fix j
      assume "\<And>h. bgid + 1 \<le> h \<Longrightarrow> h < bg_count \<Longrightarrow> \<not> ino_space fs h"
        and "alloc_inode_groups bg_count bg_count rw sb_free is_dir (fs\<lparr>fs_calls := j\<rparr>) = (r, fs')"
      then show P using Suc.prems(3) [of j] ns ge by auto
    qed
  next
    fix e
    assume "r = Err e" "no_change (fs\<lparr>fs_calls := n\<rparr>) fs'" "\<not> ino_no_fail (fs\<lparr>fs_calls := n\<rparr>)"
    then show P using err by (auto simp: no_change_def)
  next
    fix i fs1
    assume "r = Ret (ext4_ialloc_bgidx_to_inode (fs_sb (fs\<lparr>fs_calls := n\<rparr>)) i bgid)" "itook (fs\<lparr>fs_calls := n\<rparr>) bgid i is_dir fs1"
      "fs' = iput_free fs1 (sb_free - 1) bgid"
    then show P using hit [of bgid i fs1] ok(2) by simp
  qed
qed

lemma alloc_inode_spec:
  assumes ok: "ino_ok fs" and run: "ext4_ialloc_alloc_inode is_dir fs = (r, fs')"
  shows "alloc_inode_result fs is_dir r fs' \<and>
    (ino_no_fail fs \<longrightarrow> fs_last_inode_bg_id fs \<le> vcnt fs \<longrightarrow> (\<exists>h < vcnt fs. ino_space fs h) \<longrightarrow> (\<exists>n. r = Ret n))"
    (is "?res \<and> ?live")
proof -
  let ?last = "fs_last_inode_bg_id fs" and ?free = "s_free_inodes_count (fs_sb fs)"
  have run': "alloc_inode_groups (vcnt fs) ?last False ?free is_dir (fs\<lparr>fs_calls := fs_calls fs\<rparr>) = (r, fs')"
    using run by (simp add: ext4_ialloc_alloc_inode_def fs_bind_def fs_gets_def)
  have hit: "?res \<and> ?live" if "g < vcnt fs" "r = Ret (ext4_ialloc_bgidx_to_inode (fs_sb fs) i g)" "itook fs g i is_dir fs1"
    "fs' = iput_free fs1 (?free - 1) g" for g i fs1
    using that by (auto simp: alloc_inode_result_def)
  have err: "?res \<and> ?live" if "r = Err e" "no_change fs fs'" "\<not> ino_no_fail fs" for e
    using that by (simp add: alloc_inode_result_def)
  show ?thesis
  proof (cases "?last \<le> vcnt fs")
    case False
    then have "r = Err ENOSPC" "fs' = fs" using run' by (simp_all add: alloc_inode_groups_end(1) fs_fail_def not_le)
    then show ?thesis using False calls_self [of fs] by (simp add: alloc_inode_result_def no_change_def)
  next
    case True
    show ?thesis
    proof (rule inode_groups_walk [OF ok True order_refl run' _ err hit])
      fix n
      assume first: "\<And>h. ?last \<le> h \<Longrightarrow> h < vcnt fs \<Longrightarrow> \<not> ino_space fs h"
        and "alloc_inode_groups (vcnt fs) (vcnt fs) False ?free is_dir (fs\<lparr>fs_calls := n\<rparr>) = (r, fs')"
      then have again: "alloc_inode_groups ?last 0 True ?free is_dir (fs\<lparr>fs_calls := n\<rparr>) = (r, fs')"
        by (simp add: alloc_inode_groups_end(3))
      show "?res \<and> ?live"
      proof (rule inode_groups_walk [OF ok _ True again _ err hit])
        fix m
        assume second: "\<And>h. 0 \<le> h \<Longrightarrow> h < ?last \<Longrightarrow> \<not> ino_space fs h"
          and "alloc_inode_groups ?last ?last True ?free is_dir (fs\<lparr>fs_calls := m\<rparr>) = (r, fs')"
        then have "r = Err ENOSPC" "no_change fs fs'" by (auto simp: alloc_inode_groups_end(2) fs_fail_def no_change_def)
        moreover have "\<not> ino_space fs h" if "h < vcnt fs" for h
          using first [OF _ that] second [of h] by (cases "h < ?last") auto
        ultimately show "?res \<and> ?live" by (auto simp: alloc_inode_result_def)
      qed simp_all
    qed
  qed
qed


section \<open>Freeing\<close>

definition igave :: "ext4_fs \<Rightarrow> u32 \<Rightarrow> u32 \<Rightarrow> bool \<Rightarrow> ext4_fs \<Rightarrow> bool" where
  "igave fs g i is_dir fs' \<longleftrightarrow> ichg fs g fs' \<and>
     ext4_ialloc_verify_bitmap_csum (fs_sb fs) (vbg fs g) (vim fs g) = Some True \<and>
     vim fs' g = bm_upd (vim fs g) (unat i) False \<and>
     ext4_ialloc_verify_bitmap_csum (fs_sb fs) (vbg fs' g) (vim fs' g) = Some True \<and>
     ext4_fs_verify_bg_csum (fs_sb fs') g (vbg fs' g) \<and>
     (case (idesc (fs_sb fs) (vbg fs g), idesc (fs_sb fs) (vbg fs' g)) of ((free, dirs, unused), free', dirs', unused') \<Rightarrow>
        free' = bg_fit (fs_sb fs) (free + 1) \<and> dirs' = (if is_dir then bg_fit (fs_sb fs) (dirs - 1) else dirs) \<and> unused' = unused) \<and>
     s_free_inodes_count (fs_sb fs') = s_free_inodes_count (fs_sb fs) + 1"

definition free_inode_result :: "ext4_fs \<Rightarrow> u32 \<Rightarrow> bool \<Rightarrow> unit fsres \<Rightarrow> ext4_fs \<Rightarrow> bool" where
  "free_inode_result fs n is_dir r fs' \<longleftrightarrow>
     (case r of Crash \<Rightarrow> False | Err e \<Rightarrow> no_change fs fs'
      | Ret _ \<Rightarrow> igave fs (ext4_ialloc_get_bgid_of_inode (fs_sb fs) n) (ext4_ialloc_inode_to_bgidx (fs_sb fs) n) is_dir fs')"

definition inode_in_volume :: "ext4_fs \<Rightarrow> u32 \<Rightarrow> bool" where
  "inode_in_volume fs n \<longleftrightarrow> 0 < unat n \<and> unat n \<le> unat (vcnt fs) * unat (s_inodes_per_group (fs_sb fs))"

lemma inode_place:
  assumes "ino_ok fs" "inode_in_volume fs n"
  shows "ext4_ialloc_get_bgid_of_inode (fs_sb fs) n < vcnt fs" "s_inodes_per_group (fs_sb fs) \<noteq> 0"
    "unat (ext4_ialloc_inode_to_bgidx (fs_sb fs) n) < 8 * length (vim fs g)"
proof -
  let ?p = "unat (s_inodes_per_group (fs_sb fs))"
  have p: "0 < ?p" "?p \<le> 8 * unat (ext4_sb_get_block_size (fs_sb fs))"
    using vol_okD(1) [OF ino_okD(1) [OF assms(1)]] by (simp_all add: sb_geometry_def Let_def)
  show "s_inodes_per_group (fs_sb fs) \<noteq> 0" using p(1) by auto
  have "n \<noteq> 0" using assms(2) by (auto simp: inode_in_volume_def)
  then have "unat (n - 1) = unat n - 1" by (simp add: unat_minus_one)
  then have n1: "unat (n - 1) < unat (vcnt fs) * ?p" using assms(2) unfolding inode_in_volume_def by linarith
  then have "unat (n - 1) div ?p < unat (vcnt fs)" using p(1) by (simp add: less_mult_imp_div_less)
  then show "ext4_ialloc_get_bgid_of_inode (fs_sb fs) n < vcnt fs"
    by (simp add: ext4_ialloc_get_bgid_of_inode_def word_less_nat_alt unat_div)
  have "unat (n - 1) mod ?p < ?p" using p(1) by simp
  then show "unat (ext4_ialloc_inode_to_bgidx (fs_sb fs) n) < 8 * length (vim fs g)"
    using p(2) length_vim [OF ino_okD(1) [OF assms(1)]] by (simp add: ext4_ialloc_inode_to_bgidx_def unat_mod)
qed

lemma iput_free_same:
  "iput_free fs c (fs_last_inode_bg_id fs) = fs\<lparr>fs_sb := (fs_sb fs)\<lparr>s_free_inodes_count := c\<rparr>\<rparr>"
  by (cases fs) (simp add: iput_free_def)

lemma free_inode_spec:
  assumes ok: "ino_ok fs" "inode_in_volume fs n" and run: "ext4_ialloc_free_inode n is_dir fs = (r, fs')"
  shows "free_inode_result fs n is_dir r fs'"
proof -
  let ?sb = "fs_sb fs"
  define g where "g = ext4_ialloc_get_bgid_of_inode ?sb n"
  define i where "i = ext4_ialloc_inode_to_bgidx ?sb n"
  note pl = inode_place [OF ok, folded g_def i_def]
  note v = ino_okD(1) [OF ok(1)]
  note run' = run [unfolded ext4_ialloc_free_inode_def fs_bind_def [of "fs_gets fs_sb"] fs_gets_def prod.case fsres.case
      if_not_P [OF pl(2)] g_def [symmetric] i_def [symmetric]]
  have fail: "?thesis" if "r = Err e" "fs' = fs\<lparr>fs_calls := m\<rparr>" for e m
    using that by (auto simp: free_inode_result_def no_change_def)
  show ?thesis
  proof (cases rule: block_get_cases [of "dblk ?sb g" fs])
    case (failed e m)
    then show ?thesis using run' get_ref_run [OF v pl(1)] fail [of e m] by (simp add: fs_bind_def)
  next
    case (got m)
    let ?fs = "fs\<lparr>fs_calls := m\<rparr>"
    have ref: "ext4_fs_get_block_group_ref g fs = (Ret (gref ?sb g), ?fs)" using got get_ref_run [OF v pl(1)] by simp
    have bg: "bgref_get (gref ?sb g) ?fs = (Ret (vbg fs g), ?fs)" using bgref_ops(1) [of ?fs g] by simp
    note run1 = run' [unfolded fs_bind_def [of "ext4_fs_get_block_group_ref g"] ref prod.case fsres.case
        fs_bind_def [of "bgref_get _"] bg vib_def [symmetric]]
    show ?thesis
    proof (cases rule: block_get_cases [of "vib fs g" ?fs])
      case (failed e k)
      then show ?thesis using run1 fail [of e k] by (simp add: fs_bind_def)
    next
      case (got k)
      let ?fs2 = "fs\<lparr>fs_calls := k\<rparr>" and ?bm = "bm_upd (vim fs g) (unat i) False"
      have ok2: "ino_ok ?fs2" "g < vcnt ?fs2" "length ?bm = unat (ext4_sb_get_block_size (fs_sb ?fs2))"
        using ok(1) pl(1) length_vim [OF v] by simp_all
      note chk = check_bitmap_outcome [OF ok2(1,2), simplified]
      show ?thesis
      proof (cases "ext4_ialloc_verify_bitmap_csum ?sb (vbg fs g) (vim fs g) = Some True")
        case False
        then show ?thesis using run1 got chk fail [of EIO k] by (simp add: fs_bind_def)
      next
        case ver: True
        have clr: "ext4_bmap_bit_clr (vim fs g) i = Some ?bm" using pl(3) [of g] by (simp add: bit_clr_eq)
        have bm: "fs_blk fs (vib fs g) = vim fs g" by (simp add: vim_def)
        obtain fs3 where r3: "ialloc_store_bitmap (gref (fs_sb ?fs2) g) (vib ?fs2 g) ?bm ?fs2 = (Ret (), fs3)"
          and c3: "ichg ?fs2 g fs3" "fs_sb fs3 = fs_sb ?fs2" "vim fs3 g = ?bm"
          and d3: "ext4_bg_get_free_inodes_count (vbg fs3 g) (fs_sb ?fs2) = ext4_bg_get_free_inodes_count (vbg ?fs2 g) (fs_sb ?fs2)"
            "ext4_bg_get_used_dirs_count (vbg fs3 g) (fs_sb ?fs2) = ext4_bg_get_used_dirs_count (vbg ?fs2 g) (fs_sb ?fs2)"
            "ext4_bg_get_itable_unused (vbg fs3 g) (fs_sb ?fs2) = ext4_bg_get_itable_unused (vbg ?fs2 g) (fs_sb ?fs2)"
          and v3: "ext4_ialloc_verify_bitmap_csum (fs_sb ?fs2) (vbg fs3 g) ?bm = Some True"
          by (rule store_bitmap_spec [OF ok2])
        define f where "f = (\<lambda>bg. let bg = (if is_dir then ext4_bg_set_used_dirs_count bg ?sb (ext4_bg_get_used_dirs_count bg ?sb - 1) else bg)
          in ext4_bg_set_free_inodes_count bg ?sb (ext4_bg_get_free_inodes_count bg ?sb + 1))"
        have f: "ext4_bg_get_block_bitmap (f x) s = ext4_bg_get_block_bitmap x s" "ext4_bg_get_inode_bitmap (f x) s = ext4_bg_get_inode_bitmap x s"
          "bg_flags (f x) = bg_flags x" "ext4_ialloc_verify_bitmap_csum s (f x) bm = ext4_ialloc_verify_bitmap_csum s x bm"
          "idesc ?sb (f x) = (bg_fit ?sb (ext4_bg_get_free_inodes_count x ?sb + 1),
            (if is_dir then bg_fit ?sb (ext4_bg_get_used_dirs_count x ?sb - 1) else ext4_bg_get_used_dirs_count x ?sb),
            ext4_bg_get_itable_unused x ?sb)" for x s bm
          by (simp_all add: f_def Let_def iset_keeps idesc_def iset_others bg_count_roundtrip bg_fit_def)
        have ok3: "ino_ok fs3" "g < vcnt fs3" using ichgD(1,2) [OF c3(1)] pl(1) by simp_all
        obtain fs4 where r4: "bgref_upd (gref (fs_sb fs3) g) f fs3 = (Ret (), fs4)" and c4: "ichg fs3 g fs4" "fs_sb fs4 = fs_sb fs3"
          "vim fs4 g = vim fs3 g" "vbg fs4 g = bg_cut (fs_sb fs3) (f (vbg fs3 g))"
          by (rule iupd_spec [OF ok3, of f]) (simp_all add: f vbb_def vib_def)
        have ok4: "ino_ok fs4" "g < vcnt fs4" using ichgD(1,2) [OF c4(1)] ok3(2) by simp_all
        obtain fs5 where r5: "ext4_fs_put_block_group_ref ((gref (fs_sb fs4) g)\<lparr>bgr_dirty := True\<rparr>) fs4 = (Ret (), fs5)"
          and c5: "ichg fs4 g fs5" "fs_sb fs5 = fs_sb fs4" "vim fs5 g = vim fs4 g" "idesc (fs_sb fs4) (vbg fs5 g) = idesc (fs_sb fs4) (vbg fs4 g)"
          "ext4_ialloc_verify_bitmap_csum (fs_sb fs4) (vbg fs5 g) ?bm = ext4_ialloc_verify_bitmap_csum (fs_sb fs4) (vbg fs4 g) ?bm"
          "ext4_fs_verify_bg_csum (fs_sb fs4) g (vbg fs5 g)"
          by (rule iput_ref_spec [OF ok4])
        let ?fs6 = "iput_free fs5 (s_free_inodes_count (fs_sb fs5) + 1) (fs_last_inode_bg_id fs5)"
        have res: "r = Ret ()" "fs' = ?fs6"
          using run1 got chk ver bm clr r3 c3(2) c4(2) r4 r5 unfolding f_def [symmetric]
          by (simp_all add: fs_bind_def fs_on_error_def blk_get_def fs_gets_def fs_mem_def blk_release_def fs_return_def fs_modify_def iput_free_same)
        note desc = vol_okD(2) [OF v]
        have sb5: "fs_sb fs5 = ?sb" using c5(2) c4(2) c3(2) by simp
        have "ichg fs g ?fs6"
          using ichg_trans [OF ichg_trans [OF ichg_trans [OF c3(1) c4(1)] c5(1)] ichg_free [OF ichgD(1) [OF c5(1)]]] by simp
        moreover have "idesc ?sb (vbg fs5 g) = idesc ?sb (f (vbg fs3 g))" using c5(4) c4(2,4) c3(2) idesc_cut [OF desc] by simp
        moreover have "ext4_ialloc_verify_bitmap_csum ?sb (vbg fs5 g) ?bm = Some True"
          using c5(5) c4(2,4) c3(2) v3 f(4) bg_cut_get(10) [OF desc] by simp
        ultimately have "igave fs g i is_dir ?fs6"
          unfolding igave_def using ver c5(2,3,6) c4(2,3) c3(2,3) d3 sb5 f(5) by (simp add: idesc_def)
        then show ?thesis using res by (simp add: free_inode_result_def g_def i_def)
      qed
    qed
  qed
qed


section \<open>Properties\<close>

text \<open>C16: allocating an inode on a well-formed volume never goes outside a buffer.  With an error nothing
  has changed.  Otherwise the inode returned was free in a bitmap that verified and is one of its group;
  exactly its bit is set, bitmap and descriptor verify, the free counts are one less, the directory count
  is one more if a directory is made, the inode lies before the part of the table marked as never used,
  and the next search starts at its group.  The volume stays well-formed.\<close>

theorem alloc_inode_correct:
  assumes "ino_ok fs"
  shows "case ext4_ialloc_alloc_inode is_dir fs of (r, fs') \<Rightarrow> alloc_inode_result fs is_dir r fs' \<and> ino_ok fs'"
proof -
  obtain r fs' where run: "ext4_ialloc_alloc_inode is_dir fs = (r, fs')" by fastforce
  have res: "alloc_inode_result fs is_dir r fs'" using alloc_inode_spec [OF assms run] by blast
  then have "ino_ok fs'"
    using assms by (auto simp: alloc_inode_result_def no_change_def itook_def ichg_def split: fsres.splits)
  with run res show ?thesis by simp
qed

lemma ino_example_views: "vib vol_example 0 = 3" "vim vol_example 0 = replicate 4096 0"
    "idesc (probe_example 0) (vbg vol_example 0) = (50, 0, 0)"
proof -
  have "ext4_bg_get_inode_bitmap bg_example (probe_example 0) = 3"
    by (simp add: bg_example_def ext4_bg_get_inode_bitmap_def EXT4_MIN_BLOCK_GROUP_DESCRIPTOR_SIZE_def)
  then show i: "vib vol_example 0 = 3" by (simp add: vib_def vol_example_views(2) bg_cut_get(2) [OF probe_example_ok(2)])
  show "vim vol_example 0 = replicate 4096 0" unfolding vim_def i by (simp add: vol_example_def)
  show "idesc (probe_example 0) (vbg vol_example 0) = (50, 0, 0)"
    unfolding vol_example_views(2) idesc_cut [OF probe_example_ok(2)]
    by (simp add: idesc_def bg_example_def bgroup_of_bytes_def bg_accessors EXT4_MIN_BLOCK_GROUP_DESCRIPTOR_SIZE_def get_le16_def)
qed

lemma ino_example_cnt: "ext4_inodes_in_group_cnt (probe_example 0) 0 = 64"
  by (simp add: ext4_inodes_in_group_cnt_def)

lemma ino_example_ok: "ino_ok vol_example" "ino_no_fail vol_example" "ino_space vol_example 0"
proof -
  have z: "g = 0" if "g < 1" for g :: u32 using that by simp
  show "ino_ok vol_example"
    unfolding ino_ok_def using vol_example_ok z ino_example_views(1) ino_example_cnt by (auto simp: vol_example_meta)
  have "\<not> ext4_sb_feature_ro_com (probe_example 0) EXT4_FRO_COM_METADATA_CSUM"
    by (simp add: ext4_sb_feature_ro_com_def)
  then have "ext4_ialloc_verify_bitmap_csum (probe_example 0) bg bm = Some True" for bg bm
    by (simp add: ext4_ialloc_verify_bitmap_csum_def ext4_ialloc_bitmap_csum_def csum_bytes_def)
  then show "ino_no_fail vol_example"
    unfolding ino_no_fail_def using z ino_example_views(1) vol_example_views(1) by (auto simp: vol_example_def)
  show "ino_space vol_example 0"
    using ino_example_views(2,3) ino_example_cnt by (auto simp: ino_space_def idesc_def bm_bit_def intro!: exI [of _ 0])
qed

theorem alloc_inode_correct_witness:
  "case ext4_ialloc_alloc_inode True vol_example of (r, fs') \<Rightarrow> alloc_inode_result vol_example True r fs' \<and> ino_ok fs'"
  by (rule alloc_inode_correct [OF ino_example_ok(1)])

text \<open>C21: the search for an inode ends and misses no group: when the device answers every request and the
  inode bitmaps verify, an inode is found whenever some group counts and has a free one, wherever the search
  starts.\<close>

theorem alloc_inode_live:
  assumes "ino_ok fs" "ino_no_fail fs" "fs_last_inode_bg_id fs \<le> vcnt fs" "h < vcnt fs" "ino_space fs h"
  shows "\<exists>n fs'. ext4_ialloc_alloc_inode is_dir fs = (Ret n, fs')"
proof -
  obtain r fs' where run: "ext4_ialloc_alloc_inode is_dir fs = (r, fs')" by fastforce
  then show ?thesis using alloc_inode_spec [OF assms(1) run] assms(2-5) by auto
qed

theorem alloc_inode_live_witness: "\<exists>n fs'. ext4_ialloc_alloc_inode True vol_example = (Ret n, fs')"
  by (rule alloc_inode_live [OF ino_example_ok(1,2) _ _ ino_example_ok(3)]) (simp_all add: vol_example_def)

text \<open>C31: freeing an inode of the volume clears its bit and no other, adds one to the free counts, takes
  one from the directory count if it was a directory, and leaves bitmap and descriptor verifying; a bitmap
  that does not verify is refused, and after an error nothing has changed.\<close>

theorem free_inode_correct:
  assumes "ino_ok fs" "inode_in_volume fs n"
  shows "case ext4_ialloc_free_inode n is_dir fs of (r, fs') \<Rightarrow> free_inode_result fs n is_dir r fs' \<and> ino_ok fs'"
proof -
  obtain r fs' where run: "ext4_ialloc_free_inode n is_dir fs = (r, fs')" by fastforce
  have res: "free_inode_result fs n is_dir r fs'" by (rule free_inode_spec [OF assms run])
  then have "ino_ok fs'"
    using assms by (auto simp: free_inode_result_def no_change_def igave_def ichg_def split: fsres.splits)
  with run res show ?thesis by simp
qed


theorem free_inode_correct_witness:
  "case ext4_ialloc_free_inode 12 False vol_example of (r, fs') \<Rightarrow> free_inode_result vol_example 12 False r fs' \<and> ino_ok fs'"
  by (rule free_inode_correct [OF ino_example_ok(1)]) (simp add: inode_in_volume_def)

text \<open>an inode number stands for exactly one place: the number made of a group and an index in it
  leads back to that group and index, and different places have different numbers.\<close>

theorem inode_number_places:
  assumes "ino_ok fs" "g < vcnt fs" "unat i < unat (s_inodes_per_group (fs_sb fs))"
    and "h < vcnt fs" "unat j < unat (s_inodes_per_group (fs_sb fs))"
  shows "ext4_ialloc_get_bgid_of_inode (fs_sb fs) (ext4_ialloc_bgidx_to_inode (fs_sb fs) i g) = g \<and>
    ext4_ialloc_inode_to_bgidx (fs_sb fs) (ext4_ialloc_bgidx_to_inode (fs_sb fs) i g) = i \<and>
    (ext4_ialloc_bgidx_to_inode (fs_sb fs) i g = ext4_ialloc_bgidx_to_inode (fs_sb fs) j h \<longleftrightarrow> g = h \<and> i = j)"
  using inode_number_roundtrip [OF assms(1-3)] inode_number_roundtrip [OF assms(1,4,5)] by metis

theorem inode_number_places_witness:
  "ext4_ialloc_get_bgid_of_inode (fs_sb vol_example) (ext4_ialloc_bgidx_to_inode (fs_sb vol_example) 11 0) = 0 \<and>
    ext4_ialloc_inode_to_bgidx (fs_sb vol_example) (ext4_ialloc_bgidx_to_inode (fs_sb vol_example) 11 0) = 11 \<and>
    (ext4_ialloc_bgidx_to_inode (fs_sb vol_example) 11 0 = ext4_ialloc_bgidx_to_inode (fs_sb vol_example) 12 0 \<longleftrightarrow>
      (0 :: u32) = 0 \<and> (11 :: u32) = 12)"
  by (rule inode_number_places [OF ino_example_ok(1)]) simp_all

end
