(* ===== verification/Inode_Map.thy ===== *)
theory Inode_Map
  imports Balloc Ialloc
begin

unbundle bit_operations_syntax

text \<open>
  The data blocks of an inode: \<^verbatim>\<open>ext4_fs.c\<close> from \<^verbatim>\<open>ext4_fs_inode_blocks_init\<close> to \<^verbatim>\<open>ext4_fs_append_inode_dblk\<close>,
  with the direct pointers, the three levels of indirect blocks, truncation, and the allocation and freeing
  of whole inodes.  The extent tree of \<^verbatim>\<open>ext4_extent.c\<close> is a parameter, a record of the functions that these
  call.
\<close>

section \<open>Working on a reference\<close>

text \<open>The functions take the caller's reference by pointer and set its dirty flag on the way, also before an
  error return: the reference is part of the state.\<close>

type_synonym 'a irm = "ext4_inode_ref \<Rightarrow> ext4_fs \<Rightarrow> 'a fsres \<times> ext4_inode_ref \<times> ext4_fs"

definition ir_return :: "'a \<Rightarrow> 'a irm" where
  "ir_return x ref fs = (Ret x, ref, fs)"

definition ir_fail :: "errno \<Rightarrow> 'a irm" where
  "ir_fail e ref fs = (Err e, ref, fs)"

definition ir_crash :: "'a irm" where
  "ir_crash ref fs = (Crash, ref, fs)"

definition ir_bind :: "'a irm \<Rightarrow> ('a \<Rightarrow> 'b irm) \<Rightarrow> 'b irm" where
  "ir_bind m f ref fs = (case m ref fs of (Ret x, ref', fs') \<Rightarrow> f x ref' fs'
     | (Err e, ref', fs') \<Rightarrow> (Err e, ref', fs') | (Crash, ref', fs') \<Rightarrow> (Crash, ref', fs'))"

definition ir_lift :: "'a fsm \<Rightarrow> 'a irm" where
  "ir_lift m ref fs = (case m fs of (r, fs') \<Rightarrow> (r, ref, fs'))"

text \<open>A call that hands back the reference.\<close>

definition ir_call :: "(ext4_inode_ref \<Rightarrow> (ext4_inode_ref \<times> 'a) fsm) \<Rightarrow> 'a irm" where
  "ir_call f ref fs = (case f ref fs of (Ret (ref', x), fs') \<Rightarrow> (Ret x, ref', fs')
     | (Err e, fs') \<Rightarrow> (Err e, ref, fs') | (Crash, fs') \<Rightarrow> (Crash, ref, fs'))"

definition ir_on_error :: "'a irm \<Rightarrow> 'b irm \<Rightarrow> 'a irm" where
  "ir_on_error m cleanup ref fs = (case m ref fs of
      (Err e, ref', fs') \<Rightarrow> (case cleanup ref' fs' of (Crash, ref'', fs'') \<Rightarrow> (Crash, ref'', fs'')
        | (_, ref'', fs'') \<Rightarrow> (Err e, ref'', fs''))
    | r \<Rightarrow> r)"

definition ir_inode :: "ext4_inode irm" where
  "ir_inode ref = ir_lift (inoref_get ref) ref"

definition ir_set_inode :: "ext4_inode \<Rightarrow> unit irm" where
  "ir_set_inode ino ref = ir_lift (inoref_put ref ino) ref"

definition ir_mark_dirty :: "unit irm" where
  "ir_mark_dirty ref fs = (Ret (), ref\<lparr>ir_dirty := True\<rparr>, fs)"

definition ir_alloc :: "u64 \<Rightarrow> u64 irm" where
  "ir_alloc goal = ir_call (\<lambda>ref. ext4_balloc_alloc_block ref goal)"

definition ir_free :: "u64 \<Rightarrow> unit irm" where
  "ir_free b = ir_call (\<lambda>ref. fs_bind (ext4_balloc_free_block ref b) (\<lambda>ref. fs_return (ref, ())))"

text \<open>The extent functions: \<^verbatim>\<open>ext4_extent_get_blocks\<close> (first logical block, number of blocks, whether to
  create; it gives the physical block and the length of the run), \<^verbatim>\<open>ext4_extent_remove_space\<close> and
  \<^verbatim>\<open>ext4_extent_tree_init\<close>.\<close>

record extent_ops =
  ext_get_blocks :: "u32 \<Rightarrow> u32 \<Rightarrow> bool \<Rightarrow> (u64 \<times> u32) irm"
  ext_remove_space :: "u32 \<Rightarrow> u32 \<Rightarrow> unit irm"
  ext_tree_init :: "unit irm"

definition EXT4_FINCOM_EXTENTS :: u32 where "EXT4_FINCOM_EXTENTS = 0x40"
definition EXT_MAX_BLOCKS :: u32 where "EXT_MAX_BLOCKS = 0xFFFFFFFF"

definition uses_extents :: "ext4_sblock \<Rightarrow> ext4_inode \<Rightarrow> bool" where
  "uses_extents sb ino \<longleftrightarrow>
     ext4_sb_feature_incom sb EXT4_FINCOM_EXTENTS \<and> ext4_inode_has_flag ino EXT4_INODE_FLAG_EXTENTS"

section \<open>Looking up a block\<close>

text \<open>The level of indirection of a logical block, 0 when it is beyond the last.\<close>

definition ind_level :: "ext4_fs \<Rightarrow> u32 \<Rightarrow> nat" where
  "ind_level fs iblock =
     (case find (\<lambda>i. ucast iblock < fs_inode_block_limits fs ! i) [1, 2, 3] of None \<Rightarrow> 0 | Some i \<Rightarrow> i)"

definition next_off :: "ext4_fs \<Rightarrow> nat \<Rightarrow> u32 \<Rightarrow> u32" where
  "next_off fs l blk_off_in_lvl = ucast (ucast blk_off_in_lvl mod fs_inode_blocks_per_level fs ! l)"

definition off_in_blk :: "ext4_fs \<Rightarrow> nat \<Rightarrow> u32 \<Rightarrow> u32" where
  "off_in_blk fs l blk_off_in_lvl = ucast (ucast blk_off_in_lvl div fs_inode_blocks_per_level fs ! (l - 1))"

text \<open>Read a pointer of an indirect block.\<close>

definition ptr_get :: "u64 \<Rightarrow> u32 \<Rightarrow> u32 fsm" where
  "ptr_get b off = fs_bind (blk_get b) (\<lambda>bs. fs_mem (ld32 bs (4 * unat off)))"

definition ptr_put :: "u64 \<Rightarrow> u32 \<Rightarrow> u32 \<Rightarrow> unit fsm" where
  "ptr_put b off v = fs_bind (blk_get b) (\<lambda>bs. fs_bind (fs_mem (wrn bs (4 * unat off) (le32 v))) (blk_put b))"

text \<open>Navigate from an indirect block at level \<open>l\<close> down to the data block; a null pointer is a hole.\<close>

fun ind_walk :: "nat \<Rightarrow> u64 \<Rightarrow> u32 \<Rightarrow> u64 fsm" where
  "ind_walk 0 current_block blk_off = fs_return current_block"
| "ind_walk (Suc l) current_block blk_off =
     fs_bind (fs_gets (\<lambda>fs. off_in_blk fs (Suc l) blk_off)) (\<lambda>off.
     fs_bind (ext4_trans_block_get current_block) (\<lambda>b.
     fs_bind (ptr_get b off) (\<lambda>p.
     fs_bind (blk_release b) (\<lambda>_.
     if p = 0 then fs_return 0
     else fs_bind (fs_gets (\<lambda>fs. next_off fs l blk_off)) (ind_walk l (ucast p))))))"

definition ext4_fs_get_inode_dblk_idx_internal :: "extent_ops \<Rightarrow> u32 \<Rightarrow> bool \<Rightarrow> bool \<Rightarrow> u64 irm" where
  "ext4_fs_get_inode_dblk_idx_internal X iblock extent_create support_unwritten =
     ir_bind (ir_lift (fs_gets fs_sb)) (\<lambda>sb.
     ir_bind ir_inode (\<lambda>ino.
     if ext4_inode_get_size sb ino = 0 then ir_return 0
     else if uses_extents sb ino then
       ir_bind (ext_get_blocks X iblock 1 extent_create) (\<lambda>(fblock, _).
       if fblock = 0 \<and> \<not> support_unwritten then ir_fail EIO else ir_return fblock)
     else if iblock < EXT4_INODE_DIRECT_BLOCK_COUNT then
       ir_bind (ir_lift (fs_mem (ext4_inode_get_direct_block ino iblock))) (\<lambda>b. ir_return (ucast b))
     else
       ir_bind (ir_lift (fs_gets (\<lambda>fs. (ind_level fs iblock, fs_inode_block_limits fs)))) (\<lambda>(l, limits).
       if l = 0 then ir_fail EIO
       else
         ir_bind (ir_lift (fs_mem (ext4_inode_get_indirect_block ino (of_nat (l - 1))))) (\<lambda>current_block.
         if current_block = 0 then ir_return 0
         else ir_lift (ind_walk l (ucast current_block) (ucast (ucast iblock - limits ! (l - 1))))))))"

definition ext4_fs_get_inode_dblk_idx :: "extent_ops \<Rightarrow> u32 \<Rightarrow> bool \<Rightarrow> u64 irm" where
  "ext4_fs_get_inode_dblk_idx X iblock support_unwritten =
     ext4_fs_get_inode_dblk_idx_internal X iblock False support_unwritten"

definition ext4_fs_init_inode_dblk_idx :: "extent_ops \<Rightarrow> u32 \<Rightarrow> u64 irm" where
  "ext4_fs_init_inode_dblk_idx X iblock = ext4_fs_get_inode_dblk_idx_internal X iblock True True"

section \<open>Where to allocate\<close>

text \<open>The goal for extents is the number of the group of the inode.\<close>

definition ext4_fs_inode_to_goal_block :: "ext4_sblock \<Rightarrow> ext4_inode_ref \<Rightarrow> u64" where
  "ext4_fs_inode_to_goal_block sb ref = ucast ((ir_index ref - 1) div s_inodes_per_group sb)"

definition itab_bytes :: "ext4_sblock \<Rightarrow> u32 \<Rightarrow> u32" where
  "itab_bytes sb block_group =
     (let bg_count = ext4_block_group_cnt sb
      in if block_group < bg_count - 1 then s_inodes_per_group sb * ucast (s_inode_size sb)
         else (s_inodes_count sb - (bg_count - 1) * s_inodes_per_group sb) * ucast (s_inode_size sb))"

definition ext4_fs_indirect_find_goal :: "extent_ops \<Rightarrow> u64 irm" where
  "ext4_fs_indirect_find_goal X =
     ir_bind (ir_lift (fs_gets fs_sb)) (\<lambda>sb.
     ir_bind ir_inode (\<lambda>ino.
     let inode_size = ext4_inode_get_size sb ino;
         block_size = ext4_sb_get_block_size sb;
         iblock_cnt = ucast (inode_size div ucast block_size) :: u32;
         iblock_cnt = (if inode_size mod ucast block_size \<noteq> 0 then iblock_cnt + 1 else iblock_cnt)
     in if block_size = 0 then ir_crash
        else
          ir_bind (if 0 < iblock_cnt then ext4_fs_get_inode_dblk_idx X (iblock_cnt - 1) False else ir_return 0) (\<lambda>goal.
          if goal \<noteq> 0 then ir_return (goal + 1)
          else if s_inodes_per_group sb = 0 then ir_crash
          else (\<lambda>ref.
            let block_group = (ir_index ref - 1) div s_inodes_per_group sb
            in ir_lift
                 (fs_bind (ext4_fs_get_block_group_ref block_group) (\<lambda>bg_ref.
                  fs_bind (bgref_get bg_ref) (\<lambda>bg.
                  let itab_first_block = ext4_bg_get_inode_table_first_block bg sb;
                      bytes = itab_bytes sb block_group;
                      inode_table_blocks = ucast (bytes div block_size) :: u64;
                      inode_table_blocks = (if bytes mod block_size \<noteq> 0 then inode_table_blocks + 1 else inode_table_blocks)
                  in fs_bind (ext4_fs_put_block_group_ref bg_ref) (\<lambda>_.
                     fs_return (itab_first_block + inode_table_blocks))))) ref))))"

section \<open>Setting a block\<close>

text \<open>Zero a newly allocated indirect block.\<close>

definition zero_block :: "u64 \<Rightarrow> unit fsm" where
  "zero_block nb =
     fs_bind (fs_gets fs_sb) (\<lambda>sb.
     fs_bind (blk_put nb (replicate (unat (ext4_sb_get_block_size sb)) 0)) (\<lambda>_. blk_release nb))"

text \<open>The new block on the inode's level: the inode points to it before it is loaded, and a load that fails
  frees the block and leaves the pointer.\<close>

definition new_top_block :: "extent_ops \<Rightarrow> nat \<Rightarrow> u64 irm" where
  "new_top_block X l =
     ir_bind (ext4_fs_indirect_find_goal X) (\<lambda>goal.
     ir_bind (ir_alloc goal) (\<lambda>new_blk.
     ir_bind ir_inode (\<lambda>ino.
     ir_bind (ir_lift (fs_mem (ext4_inode_set_indirect_block ino (of_nat (l - 1)) (ucast new_blk)))) (\<lambda>ino'.
     ir_bind (ir_set_inode ino') (\<lambda>_.
     ir_bind ir_mark_dirty (\<lambda>_.
     ir_bind (ir_on_error (ir_lift (ext4_trans_block_get_noread new_blk)) (ir_free new_blk)) (\<lambda>nb.
     ir_bind (ir_lift (zero_block nb)) (\<lambda>_. ir_return new_blk))))))))"

text \<open>A new block below the held block \<open>b\<close>; a load that fails leaves the new block allocated.\<close>

definition new_sub_block :: "extent_ops \<Rightarrow> u64 \<Rightarrow> u32 \<Rightarrow> u64 irm" where
  "new_sub_block X b off =
     ir_bind (ir_on_error
       (ir_bind (ext4_fs_indirect_find_goal X) (\<lambda>goal.
        ir_bind (ir_alloc goal) (\<lambda>new_blk.
        ir_bind (ir_lift (ext4_trans_block_get_noread new_blk)) (\<lambda>nb.
        ir_bind (ir_lift (zero_block nb)) (\<lambda>_. ir_return new_blk))))) (ir_lift (blk_release b))) (\<lambda>new_blk.
     ir_bind (ir_lift (ptr_put b off (ucast new_blk))) (\<lambda>_. ir_return new_blk))"

fun set_walk :: "extent_ops \<Rightarrow> nat \<Rightarrow> u64 \<Rightarrow> u32 \<Rightarrow> u64 \<Rightarrow> unit irm" where
  "set_walk X 0 current_block blk_off fblock = ir_return ()"
| "set_walk X (Suc l) current_block blk_off fblock =
     ir_bind (ir_lift (fs_gets (\<lambda>fs. off_in_blk fs (Suc l) blk_off))) (\<lambda>off.
     ir_bind (ir_lift (ext4_trans_block_get current_block)) (\<lambda>b.
     ir_bind (ir_lift (ptr_get b off)) (\<lambda>p.
     ir_bind (if 0 < l \<and> p = 0 then new_sub_block X b off else ir_return (ucast p)) (\<lambda>current_block.
     ir_bind (if l = 0 then ir_lift (ptr_put b off (ucast fblock)) else ir_return ()) (\<lambda>_.
     ir_bind (ir_lift (blk_release b)) (\<lambda>_.
     ir_bind (ir_lift (fs_gets (\<lambda>fs. next_off fs l blk_off))) (\<lambda>blk_off.
     set_walk X l current_block blk_off fblock)))))))"

definition ext4_fs_set_inode_data_block_index :: "extent_ops \<Rightarrow> u32 \<Rightarrow> u64 \<Rightarrow> unit irm" where
  "ext4_fs_set_inode_data_block_index X iblock fblock =
     ir_bind (ir_lift (fs_gets fs_sb)) (\<lambda>sb.
     ir_bind ir_inode (\<lambda>ino.
     if uses_extents sb ino then ir_fail ENOTSUP
     else if iblock < EXT4_INODE_DIRECT_BLOCK_COUNT then
       ir_bind (ir_lift (fs_mem (ext4_inode_set_direct_block ino iblock (ucast fblock)))) (\<lambda>ino'.
       ir_bind (ir_set_inode ino') (\<lambda>_. ir_mark_dirty))
     else
       ir_bind (ir_lift (fs_gets (\<lambda>fs. (ind_level fs iblock, fs_inode_block_limits fs)))) (\<lambda>(l, limits).
       if l = 0 then ir_fail EIO
       else
         ir_bind (ir_lift (fs_mem (ext4_inode_get_indirect_block ino (of_nat (l - 1))))) (\<lambda>current_block.
         ir_bind (if current_block = 0 then new_top_block X l else ir_return (ucast current_block)) (\<lambda>current_block.
         set_walk X l current_block (ucast (ucast iblock - limits ! (l - 1))) fblock)))))"

section \<open>Appending\<close>

text \<open>With extents: ask for the blocks behind the last one and let the size grow by one block, or by what came
  when the caller asked for a range.\<close>

definition append_extent :: "extent_ops \<Rightarrow> u32 \<Rightarrow> bool \<Rightarrow> (u64 \<times> u32 \<times> u32) irm" where
  "append_extent X max_blocks as_range =
     ir_bind (ir_lift (fs_gets fs_sb)) (\<lambda>sb.
     ir_bind ir_inode (\<lambda>ino.
     let inode_size = ext4_inode_get_size sb ino;
         block_size = ucast (ext4_sb_get_block_size sb) :: u64
     in if block_size = 0 then ir_crash
        else
          let iblock = ucast ((inode_size + block_size - 1) div block_size) :: u32
          in ir_bind (ext_get_blocks X iblock max_blocks True) (\<lambda>(fblock, got).
             let got = (if \<not> as_range \<or> got = 0 then 1 else got)
             in if fblock = 0 then ir_crash
                else
                  ir_bind ir_inode (\<lambda>ino.
                  ir_bind (ir_set_inode (ext4_inode_set_size ino (inode_size + ucast got * block_size))) (\<lambda>_.
                  ir_bind ir_mark_dirty (\<lambda>_. ir_return (fblock, iblock, got)))))))"

definition ext4_fs_append_inode_dblk :: "extent_ops \<Rightarrow> (u64 \<times> u32) irm" where
  "ext4_fs_append_inode_dblk X =
     ir_bind (ir_lift (fs_gets fs_sb)) (\<lambda>sb.
     ir_bind ir_inode (\<lambda>ino.
     if uses_extents sb ino then
       ir_bind (append_extent X 1 False) (\<lambda>(fblock, iblock, _). ir_return (fblock, iblock))
     else
       let inode_size = ext4_inode_get_size sb ino;
           block_size = ucast (ext4_sb_get_block_size sb) :: u64
       in if block_size = 0 then ir_crash
          else
            let inode_size = (if inode_size mod block_size \<noteq> 0
                  then inode_size + (block_size - inode_size mod block_size) else inode_size);
                new_block_idx = ucast (inode_size div block_size) :: u32
            in ir_bind (ext4_fs_indirect_find_goal X) (\<lambda>goal.
               ir_bind (ir_alloc goal) (\<lambda>phys_block.
               ir_bind (ir_on_error (ext4_fs_set_inode_data_block_index X new_block_idx phys_block) (ir_free phys_block)) (\<lambda>_.
               ir_bind ir_inode (\<lambda>ino.
               ir_bind (ir_set_inode (ext4_inode_set_size ino (inode_size + block_size))) (\<lambda>_.
               ir_bind ir_mark_dirty (\<lambda>_. ir_return (phys_block, new_block_idx)))))))))"

definition ext4_fs_append_inode_dblk_range :: "extent_ops \<Rightarrow> u32 \<Rightarrow> (u64 \<times> u32 \<times> u32) irm" where
  "ext4_fs_append_inode_dblk_range X max_blocks =
     (let max_blocks = (if max_blocks = 0 then 1 else max_blocks)
      in ir_bind (ir_lift (fs_gets fs_sb)) (\<lambda>sb.
         ir_bind ir_inode (\<lambda>ino.
         if uses_extents sb ino then append_extent X max_blocks True
         else ir_bind (ext4_fs_append_inode_dblk X) (\<lambda>(fblock, iblock). ir_return (fblock, iblock, 1)))))"

section \<open>Truncation\<close>

text \<open>Walk down to the pointer of a data block, clear it and give what it was; a null pointer on the way is a
  hole.\<close>

fun release_walk :: "nat \<Rightarrow> u64 \<Rightarrow> u32 \<Rightarrow> u64 fsm" where
  "release_walk 0 current_block blk_off = fs_return current_block"
| "release_walk (Suc l) current_block blk_off =
     (if current_block = 0 then fs_return 0
      else
        fs_bind (fs_gets (\<lambda>fs. off_in_blk fs (Suc l) blk_off)) (\<lambda>off.
        fs_bind (ext4_trans_block_get current_block) (\<lambda>b.
        fs_bind (ptr_get b off) (\<lambda>p.
        fs_bind (if l = 0 then ptr_put b off 0 else fs_return ()) (\<lambda>_.
        fs_bind (blk_release b) (\<lambda>_.
        fs_bind (fs_gets (\<lambda>fs. next_off fs l blk_off)) (release_walk l (ucast p))))))))"

definition ext4_fs_release_inode_block :: "u32 \<Rightarrow> unit irm" where
  "ext4_fs_release_inode_block iblock =
     ir_bind (ir_lift (fs_gets fs_sb)) (\<lambda>sb.
     ir_bind ir_inode (\<lambda>ino.
     if uses_extents sb ino then ir_crash
     else if iblock < EXT4_INODE_DIRECT_BLOCK_COUNT then
       ir_bind (ir_lift (fs_mem (ext4_inode_get_direct_block ino iblock))) (\<lambda>fblock.
       if fblock = 0 then ir_return ()
       else
         ir_bind (ir_lift (fs_mem (ext4_inode_set_direct_block ino iblock 0))) (\<lambda>ino'.
         ir_bind (ir_set_inode ino') (\<lambda>_. ir_free (ucast fblock))))
     else
       ir_bind (ir_lift (fs_gets (\<lambda>fs. (ind_level fs iblock, fs_inode_block_limits fs)))) (\<lambda>(l, limits).
       if l = 0 then ir_fail EIO
       else
         ir_bind (ir_lift (fs_mem (ext4_inode_get_indirect_block ino (of_nat (l - 1))))) (\<lambda>current_block.
         ir_bind (ir_lift (release_walk l (ucast current_block) (ucast (ucast iblock - limits ! (l - 1))))) (\<lambda>fblock.
         if fblock = 0 then ir_return () else ir_free fblock)))))"

fun release_blocks :: "nat \<Rightarrow> u32 \<Rightarrow> unit irm" where
  "release_blocks 0 iblock = ir_return ()"
| "release_blocks (Suc n) iblock = ir_bind (ext4_fs_release_inode_block iblock) (\<lambda>_. release_blocks n (iblock + 1))"

text \<open>The target of a short symbolic link lies in the 60 bytes of the block pointers: clear them from
  \<open>n\<close> on.\<close>

definition clear_inline :: "ext4_inode \<Rightarrow> nat \<Rightarrow> ext4_inode" where
  "clear_inline ino n =
     (let raw = take n (concat (map le32 (i_blocks ino))) @ replicate (60 - n) 0
      in ino\<lparr>i_blocks := map (\<lambda>k. get_le32 raw (4 * k)) [0..<15]\<rparr>)"

definition ext4_fs_truncate_inode :: "extent_ops \<Rightarrow> u64 \<Rightarrow> unit irm" where
  "ext4_fs_truncate_inode X new_size =
     ir_bind (ir_lift (fs_gets fs_sb)) (\<lambda>sb.
     ir_bind ir_inode (\<lambda>ino.
     let old_size = ext4_inode_get_size sb ino;
         blocks_count = ext4_inode_get_blocks_count sb ino;
         i = ext4_inode_type sb ino;
         block_size = ucast (ext4_sb_get_block_size sb) :: u64;
         new_blocks_cnt = ucast ((new_size + block_size - 1) div block_size) :: u32;
         old_blocks_cnt = ucast ((old_size + block_size - 1) div block_size) :: u32;
         diff_blocks_cnt = old_blocks_cnt - new_blocks_cnt
     in if \<not> ext4_inode_can_truncate sb ino then ir_fail EINVAL
        else if old_size = new_size \<and> (new_size \<noteq> 0 \<or> blocks_count = 0) then ir_return ()
        else if old_size < new_size then ir_fail EINVAL
        else if ext4_inode_is_type sb ino EXT4_INODE_MODE_SOFTLINK \<and> old_size < 60 \<and> blocks_count = 0 then
          ir_bind (ir_set_inode (ext4_inode_set_size (clear_inline ino (unat new_size)) new_size)) (\<lambda>_. ir_mark_dirty)
        else if i = EXT4_INODE_MODE_CHARDEV \<or> i = EXT4_INODE_MODE_BLOCKDEV \<or> i = EXT4_INODE_MODE_SOCKET then
          ir_bind (ir_set_inode (ino\<lparr>i_blocks := (i_blocks ino)[0 := 0, 1 := 0]\<rparr>)) (\<lambda>_. ir_mark_dirty)
        else if block_size = 0 then ir_crash
        else
          ir_bind
            (if uses_extents sb ino then
               if diff_blocks_cnt \<noteq> 0 \<or> (new_size = 0 \<and> blocks_count \<noteq> 0)
               then ext_remove_space X new_blocks_cnt EXT_MAX_BLOCKS else ir_return ()
             else release_blocks (unat diff_blocks_cnt) new_blocks_cnt) (\<lambda>_.
          ir_bind ir_inode (\<lambda>ino.
          ir_bind (ir_set_inode (ext4_inode_set_size ino new_size)) (\<lambda>_. ir_mark_dirty)))))"

section \<open>Freeing an inode\<close>

text \<open>Call \<open>f\<close> on every non-null pointer of the held block \<open>b\<close>, from \<open>off\<close> on; an error puts the block.\<close>

fun each_ptr :: "nat \<Rightarrow> u32 \<Rightarrow> u64 \<Rightarrow> (u64 \<Rightarrow> unit irm) \<Rightarrow> unit irm" where
  "each_ptr 0 off b f = ir_return ()"
| "each_ptr (Suc n) off b f =
     ir_bind (ir_lift (ptr_get b off)) (\<lambda>p.
     ir_bind (if p = 0 then ir_return () else ir_on_error (f (ucast p)) (ir_lift (blk_release b))) (\<lambda>_.
     each_ptr n (off + 1) b f))"

text \<open>Free the blocks that an indirect block points to, with \<open>f\<close>, and then the block itself.\<close>

definition free_pointed :: "u64 \<Rightarrow> (u64 \<Rightarrow> unit irm) \<Rightarrow> unit irm" where
  "free_pointed fblock f =
     ir_bind (ir_lift (fs_gets fs_sb)) (\<lambda>sb.
     ir_bind (ir_lift (ext4_trans_block_get fblock)) (\<lambda>b.
     ir_bind (each_ptr (unat (ext4_sb_get_block_size sb div 4)) 0 b f) (\<lambda>_.
     ir_bind (ir_lift (fs_ignore (blk_release b))) (\<lambda>_. ir_free fblock))))"

text \<open>Release one of the three indirect pointers of the inode.\<close>

definition free_indirect :: "u32 \<Rightarrow> (u64 \<Rightarrow> unit irm) \<Rightarrow> unit irm" where
  "free_indirect idx f =
     ir_bind ir_inode (\<lambda>ino.
     ir_bind (ir_lift (fs_mem (ext4_inode_get_indirect_block ino idx))) (\<lambda>fblock.
     if fblock = 0 then ir_return ()
     else
       ir_bind (f (ucast fblock)) (\<lambda>_.
       ir_bind ir_inode (\<lambda>ino.
       ir_bind (ir_lift (fs_mem (ext4_inode_set_indirect_block ino idx 0))) ir_set_inode))))"

definition ext4_fs_free_inode :: "unit irm" where
  "ext4_fs_free_inode =
     ir_bind (ir_lift (fs_gets fs_sb)) (\<lambda>sb.
     ir_bind ir_inode (\<lambda>ino.
     ir_bind
       (if uses_extents sb ino then ir_return ()
        else
          ir_bind (free_indirect 0 ir_free) (\<lambda>_.
          ir_bind (free_indirect 1 (\<lambda>b. free_pointed b ir_free)) (\<lambda>_.
          free_indirect 2 (\<lambda>b. free_pointed b (\<lambda>b. free_pointed b ir_free))))) (\<lambda>_.
     ir_bind ir_mark_dirty (\<lambda>_.
     ir_bind ir_inode (\<lambda>ino.
     let xattr_block = ext4_inode_get_file_acl ino sb
     in ir_bind
          (if xattr_block \<noteq> 0 then
             ir_bind (ir_free xattr_block) (\<lambda>_.
             ir_bind ir_inode (\<lambda>ino. ir_set_inode (ext4_inode_set_file_acl ino sb 0)))
           else ir_return ()) (\<lambda>_.
        ir_bind ir_inode (\<lambda>ino.
        (\<lambda>ref. ir_lift (ext4_ialloc_free_inode (ir_index ref)
           (ext4_inode_is_type sb ino EXT4_INODE_MODE_DIRECTORY)) ref))))))))"

section \<open>A new inode\<close>

text \<open>The extra size of a new inode: what the superblock wants, unless it is not a multiple of 4 or leaves no
  room for the header of the in-body attributes.\<close>

definition new_extra_isize :: "ext4_sblock \<Rightarrow> u16" where
  "new_extra_isize sb =
     (let sz = s_want_extra_isize sb
      in if sz AND 3 \<noteq> 0 \<or> (ucast (s_inode_size sb) :: u32) < ucast EXT4_GOOD_OLD_INODE_SIZE + ucast sz + 4 then 0 else sz)"

definition new_mode :: "int \<Rightarrow> u32" where
  "new_mode filetype =
     (if filetype = 2 then 511 OR EXT4_INODE_MODE_DIRECTORY
      else if filetype = 7 then 511 OR EXT4_INODE_MODE_SOFTLINK
      else 438 OR ext4_fs_correspond_inode_mode filetype)"

definition fresh_inode :: "ext4_sblock \<Rightarrow> int \<Rightarrow> ext4_inode \<Rightarrow> ext4_inode" where
  "fresh_inode sb filetype ino =
     (let ino = ext4_inode_set_mode sb ino (new_mode filetype);
          ino = ext4_inode_set_links_cnt ino 0;
          ino = ext4_inode_set_uid ino 0;
          ino = ext4_inode_set_gid ino 0;
          ino = ext4_inode_set_size ino 0;
          ino = ext4_inode_set_access_time ino 0;
          ino = ext4_inode_set_change_inode_time ino 0;
          ino = ext4_inode_set_modif_time ino 0;
          ino = ext4_inode_set_del_time ino 0;
          ino = snd (ext4_inode_set_blocks_count sb ino 0);
          ino = ext4_inode_set_flags ino 0;
          ino = ext4_inode_set_generation ino 0;
          ino = (if EXT4_GOOD_OLD_INODE_SIZE < s_inode_size sb
                 then ext4_inode_set_extra_isize sb ino (new_extra_isize sb) else ino)
      in ino\<lparr>i_blocks := replicate 15 0\<rparr>)"

definition ext4_fs_alloc_inode :: "int \<Rightarrow> ext4_inode_ref fsm" where
  "ext4_fs_alloc_inode filetype =
     fs_bind (fs_gets fs_sb) (\<lambda>sb.
     let is_dir = (filetype = 2)
     in fs_bind (ext4_ialloc_alloc_inode is_dir) (\<lambda>index.
        fs_bind (fs_on_error (ext4_fs_get_inode_ref index) (ext4_ialloc_free_inode index is_dir)) (\<lambda>ref.
        fs_bind (ino_write_raw ref (replicate (unat (s_inode_size sb)) 0)) (\<lambda>_.
        fs_bind (inoref_get ref) (\<lambda>ino.
        fs_bind (inoref_put ref (fresh_inode sb filetype ino)) (\<lambda>_.
        fs_return (ref\<lparr>ir_dirty := True\<rparr>)))))))"

definition ext4_fs_inode_blocks_init :: "extent_ops \<Rightarrow> unit irm" where
  "ext4_fs_inode_blocks_init X =
     ir_bind (ir_lift (fs_gets fs_sb)) (\<lambda>sb.
     ir_bind ir_inode (\<lambda>ino.
     if ext4_inode_type sb ino = EXT4_INODE_MODE_FILE \<or> ext4_inode_type sb ino = EXT4_INODE_MODE_DIRECTORY then
       ir_bind (if ext4_sb_feature_incom sb EXT4_FINCOM_EXTENTS then
                  ir_bind (ir_set_inode (ext4_inode_set_flag ino EXT4_INODE_FLAG_EXTENTS)) (\<lambda>_. ext_tree_init X)
                else ir_return ()) (\<lambda>_. ir_mark_dirty)
     else ir_return ()))"

end
