(* ===== verification/Dir.thy ===== *)
theory Dir
  imports Volume
begin

unbundle bit_operations_syntax

text \<open>
  Linear directories: \<^verbatim>\<open>ext4_dir.c\<close> and the entry accessors of \<^verbatim>\<open>ext4_dir.h\<close>.  A directory block is the
  byte list of a held block, a pointer to an entry is its offset in the block, and every field access is
  checked against the end of the buffer.  The functions of other files that a directory calls are
  parameters: the block map of its inode (\<open>get_dblk\<close>, \<open>append_dblk\<close>) and the hash tree (\<open>dx_find\<close>, \<open>dx_add\<close>).
\<close>

section \<open>Entries\<close>

text \<open>\<^verbatim>\<open>struct ext4_dir_en\<close>: inode at 0, record length at 4, name length at 6, then the type or the high half of
  the name length at 7, and the name at 8.\<close>

definition ext4_dir_en_get_inode :: "bytes \<Rightarrow> nat \<Rightarrow> u32 option" where
  "ext4_dir_en_get_inode bs de = ld32 bs de"

definition ext4_dir_en_set_inode :: "bytes \<Rightarrow> nat \<Rightarrow> u32 \<Rightarrow> bytes option" where
  "ext4_dir_en_set_inode bs de inode = wrn bs de (le32 inode)"

definition ext4_dir_en_get_entry_len :: "bytes \<Rightarrow> nat \<Rightarrow> u16 option" where
  "ext4_dir_en_get_entry_len bs de = ld16 bs (de + 4)"

definition ext4_dir_en_set_entry_len :: "bytes \<Rightarrow> nat \<Rightarrow> u16 \<Rightarrow> bytes option" where
  "ext4_dir_en_set_entry_len bs de l = wrn bs (de + 4) (le16 l)"

definition long_names :: "ext4_sblock \<Rightarrow> bool" where
  "long_names sb \<longleftrightarrow> s_rev_level sb = 0 \<and> s_minor_rev_level sb < 5"

definition ext4_dir_en_get_name_len :: "ext4_sblock \<Rightarrow> bytes \<Rightarrow> nat \<Rightarrow> u16 option" where
  "ext4_dir_en_get_name_len sb bs de =
     Option.bind (rd8 bs (de + 6)) (\<lambda>v.
     if long_names sb then Option.bind (rd8 bs (de + 7)) (\<lambda>h. Some (ucast v OR push_bit 8 (ucast h)))
     else Some (ucast v))"

definition ext4_dir_en_set_name_len :: "ext4_sblock \<Rightarrow> bytes \<Rightarrow> nat \<Rightarrow> u16 \<Rightarrow> bytes option" where
  "ext4_dir_en_set_name_len sb bs de len =
     Option.bind (wr8 bs (de + 6) (ucast len)) (\<lambda>bs.
     if long_names sb then wr8 bs (de + 7) (ucast (drop_bit 8 len)) else Some bs)"

definition EXT4_DE_UNKNOWN :: u8 where "EXT4_DE_UNKNOWN = 0"
definition EXT4_DE_REG_FILE :: u8 where "EXT4_DE_REG_FILE = 1"
definition EXT4_DE_DIR :: u8 where "EXT4_DE_DIR = 2"
definition EXT4_DE_CHRDEV :: u8 where "EXT4_DE_CHRDEV = 3"
definition EXT4_DE_BLKDEV :: u8 where "EXT4_DE_BLKDEV = 4"
definition EXT4_DE_FIFO :: u8 where "EXT4_DE_FIFO = 5"
definition EXT4_DE_SOCK :: u8 where "EXT4_DE_SOCK = 6"
definition EXT4_DE_SYMLINK :: u8 where "EXT4_DE_SYMLINK = 7"
definition EXT4_DIRENTRY_DIR_CSUM :: u8 where "EXT4_DIRENTRY_DIR_CSUM = 0xDE"

definition ext4_dir_en_get_inode_type :: "ext4_sblock \<Rightarrow> bytes \<Rightarrow> nat \<Rightarrow> u8 option" where
  "ext4_dir_en_get_inode_type sb bs de =
     (if 0 < s_rev_level sb \<or> 5 \<le> s_minor_rev_level sb then rd8 bs (de + 7) else Some EXT4_DE_UNKNOWN)"

definition ext4_dir_en_set_inode_type :: "ext4_sblock \<Rightarrow> bytes \<Rightarrow> nat \<Rightarrow> u8 \<Rightarrow> bytes option" where
  "ext4_dir_en_set_inode_type sb bs de t =
     (if 0 < s_rev_level sb \<or> 5 \<le> s_minor_rev_level sb then wr8 bs (de + 7) t else Some bs)"

section \<open>The checksum of a block\<close>

text \<open>\<^verbatim>\<open>struct ext4_dir_entry_tail\<close>, the last 12 bytes of a block: a record without an inode and without a
  name, of type \<^verbatim>\<open>0xDE\<close>, and the checksum at 8.\<close>

definition dirent_tail :: "ext4_sblock \<Rightarrow> nat" where
  "dirent_tail sb = unat (ext4_sb_get_block_size sb - 12)"

definition ext4_dir_get_tail :: "ext4_sblock \<Rightarrow> bytes \<Rightarrow> nat option option" where
  "ext4_dir_get_tail sb bs =
     (let t = dirent_tail sb
      in case (ld32 bs t, ld16 bs (t + 4), rd8 bs (t + 6), rd8 bs (t + 7)) of
           (Some reserved_zero1, Some rec_len, Some reserved_zero2, Some reserved_ft) \<Rightarrow>
             Some (if reserved_zero1 \<noteq> 0 \<or> reserved_zero2 \<noteq> 0 then None
                   else if rec_len \<noteq> 12 then None
                   else if reserved_ft \<noteq> EXT4_DIRENTRY_DIR_CSUM then None
                   else Some t)
         | _ \<Rightarrow> None)"

text \<open>The directory is identified by its inode number and generation.\<close>

definition ext4_dir_csum :: "ext4_sblock \<Rightarrow> u32 \<Rightarrow> u32 \<Rightarrow> bytes \<Rightarrow> u32" where
  "ext4_dir_csum sb ino_index ino_gen entries =
     ext4_crc32c (ext4_crc32c (ext4_crc32c (ext4_sb_csum_seed sb) (le32 ino_index)) (le32 ino_gen)) entries"

definition ext4_dir_csum_verify :: "ext4_sblock \<Rightarrow> u32 \<Rightarrow> u32 \<Rightarrow> bytes \<Rightarrow> bool option" where
  "ext4_dir_csum_verify sb ino_index ino_gen bs =
     (if ext4_sb_feature_ro_com sb EXT4_FRO_COM_METADATA_CSUM then
        case ext4_dir_get_tail sb bs of None \<Rightarrow> None
        | Some None \<Rightarrow> Some False
        | Some (Some t) \<Rightarrow> map_option (\<lambda>c. c = ext4_dir_csum sb ino_index ino_gen (take t bs)) (ld32 bs (t + 8))
      else Some True)"

definition ext4_dir_init_entry_tail :: "bytes \<Rightarrow> nat \<Rightarrow> bytes option" where
  "ext4_dir_init_entry_tail bs t =
     Option.bind (wrn bs t (replicate 12 0)) (\<lambda>bs.
     Option.bind (wrn bs (t + 4) (le16 12)) (\<lambda>bs. wr8 bs (t + 7) EXT4_DIRENTRY_DIR_CSUM))"

definition ext4_dir_set_csum :: "ext4_sblock \<Rightarrow> u32 \<Rightarrow> u32 \<Rightarrow> bytes \<Rightarrow> bytes option" where
  "ext4_dir_set_csum sb ino_index ino_gen bs =
     (if ext4_sb_feature_ro_com sb EXT4_FRO_COM_METADATA_CSUM then
        case ext4_dir_get_tail sb bs of None \<Rightarrow> None
        | Some None \<Rightarrow> Some bs
        | Some (Some t) \<Rightarrow> wrn bs (t + 8) (le32 (ext4_dir_csum sb ino_index ino_gen (take t bs)))
      else Some bs)"

section \<open>Searching a block\<close>

definition res_mem :: "'a option \<Rightarrow> ('a \<Rightarrow> 'b fsres) \<Rightarrow> 'b fsres" where
  "res_mem m f = (case m of None \<Rightarrow> Crash | Some x \<Rightarrow> f x)"

text \<open>Compare one entry with the name; a used entry whose name leaves the block is corruption.\<close>

definition entry_matches :: "ext4_sblock \<Rightarrow> nat \<Rightarrow> bytes \<Rightarrow> bytes \<Rightarrow> nat \<Rightarrow> bool fsres" where
  "entry_matches sb addr_limit name bs de =
     res_mem (ext4_dir_en_get_inode bs de) (\<lambda>inode.
     if inode \<noteq> 0 then
       res_mem (ext4_dir_en_get_name_len sb bs de) (\<lambda>el.
       if addr_limit < de + 8 + unat el then Err EIO
       else if unat el = length name then res_mem (ldn bs (de + 8) (length name)) (\<lambda>n. Ret (n = name))
       else Ret False)
     else Ret False)"

function find_walk :: "ext4_sblock \<Rightarrow> nat \<Rightarrow> bytes \<Rightarrow> bytes \<Rightarrow> nat \<Rightarrow> nat fsres" where
  "find_walk sb addr_limit name bs de =
     (if de < addr_limit then
        if addr_limit < de + 8 then Err EIO
        else case entry_matches sb addr_limit name bs de of
            Crash \<Rightarrow> Crash
          | Err e \<Rightarrow> Err e
          | Ret found \<Rightarrow>
              if found then Ret de
              else (case ext4_dir_en_get_entry_len bs de of None \<Rightarrow> Crash
                | Some de_len \<Rightarrow>
                    if de_len < 8 \<or> de_len mod 4 \<noteq> 0 \<or> addr_limit < de + unat de_len then Err EIO
                    else find_walk sb addr_limit name bs (de + unat de_len))
      else Err ENOENT)"
  by pat_completeness auto
termination
proof (relation "measure (\<lambda>(sb, addr_limit, name, bs, de). addr_limit - de)")
  fix sb addr_limit name bs de and found :: bool and de_len :: u16
  assume "de < addr_limit" "\<not> (de_len < 8 \<or> de_len mod 4 \<noteq> 0 \<or> addr_limit < de + unat de_len)"
  then have "8 \<le> unat de_len" by (simp add: word_less_nat_alt)
  with \<open>de < addr_limit\<close> show "((sb, addr_limit, name, bs, de + unat de_len), sb, addr_limit, name, bs, de)
      \<in> measure (\<lambda>(sb, addr_limit, name, bs, de). addr_limit - de)"
    by simp
qed simp

declare find_walk.simps [simp del]

definition ext4_dir_find_in_block :: "ext4_sblock \<Rightarrow> bytes \<Rightarrow> bytes \<Rightarrow> nat fsres" where
  "ext4_dir_find_in_block sb name bs = find_walk sb (unat (ext4_sb_get_block_size sb)) name bs 0"

section \<open>Changing a block\<close>

definition de_type :: "ext4_sblock \<Rightarrow> ext4_inode \<Rightarrow> u8" where
  "de_type sb child =
     (let t = ext4_inode_type sb child
      in if t = EXT4_INODE_MODE_DIRECTORY then EXT4_DE_DIR
         else if t = EXT4_INODE_MODE_FILE then EXT4_DE_REG_FILE
         else if t = EXT4_INODE_MODE_SOFTLINK then EXT4_DE_SYMLINK
         else if t = EXT4_INODE_MODE_CHARDEV then EXT4_DE_CHRDEV
         else if t = EXT4_INODE_MODE_BLOCKDEV then EXT4_DE_BLKDEV
         else if t = EXT4_INODE_MODE_FIFO then EXT4_DE_FIFO
         else if t = EXT4_INODE_MODE_SOCKET then EXT4_DE_SOCK
         else EXT4_DE_UNKNOWN)"

text \<open>The child is its inode number and its inode.\<close>

definition ext4_dir_write_entry ::
    "ext4_sblock \<Rightarrow> bytes \<Rightarrow> nat \<Rightarrow> u16 \<Rightarrow> u32 \<Rightarrow> ext4_inode \<Rightarrow> bytes \<Rightarrow> bytes option" where
  "ext4_dir_write_entry sb bs en entry_len index child name =
     (if \<not> ucast entry_len \<le> ext4_sb_get_block_size sb then None
      else
        Option.bind (ext4_dir_en_set_inode_type sb bs en (de_type sb child)) (\<lambda>bs.
        Option.bind (ext4_dir_en_set_inode bs en index) (\<lambda>bs.
        Option.bind (ext4_dir_en_set_entry_len bs en entry_len) (\<lambda>bs.
        Option.bind (ext4_dir_en_set_name_len sb bs en (of_nat (length name))) (\<lambda>bs.
        wrn bs (en + 8) name)))))"

text \<open>The length a new entry needs, and the length a used entry takes: the header and the name, rounded up
  to a multiple of 4, at the width of the code.\<close>

definition required_len :: "bytes \<Rightarrow> u16" where
  "required_len name =
     (let l = ucast (8 + of_nat (length name) :: u32) :: u16
      in if l mod 4 \<noteq> 0 then l + (4 - l mod 4) else l)"

definition used_size :: "u16 \<Rightarrow> u16" where
  "used_size used_len = (let sz = 8 + used_len in if used_len mod 4 \<noteq> 0 then sz + (4 - used_len mod 4) else sz)"

text \<open>A used entry is cut after its name when what it leaves is long enough for the new one.\<close>

definition split_entry :: "ext4_sblock \<Rightarrow> u32 \<Rightarrow> u32 \<Rightarrow> u32 \<Rightarrow> ext4_inode \<Rightarrow> bytes \<Rightarrow> bytes \<Rightarrow> nat \<Rightarrow> u16 \<Rightarrow>
    bytes option fsres" where
  "split_entry sb dir gen index child name bs start rec_len =
     res_mem (ext4_dir_en_get_name_len sb bs start) (\<lambda>used_len.
     let sz = used_size used_len
     in if rec_len < sz then Err EIO
        else
          let free_space = rec_len - sz
          in if required_len name \<le> free_space then
               res_mem (Option.bind (ext4_dir_en_set_entry_len bs start sz) (\<lambda>bs.
                 Option.bind (ext4_dir_write_entry sb bs (start + unat sz) free_space index child name)
                   (ext4_dir_set_csum sb dir gen))) (\<lambda>bs. Ret (Some bs))
             else Ret None)"

function insert_walk :: "ext4_sblock \<Rightarrow> u32 \<Rightarrow> u32 \<Rightarrow> u32 \<Rightarrow> ext4_inode \<Rightarrow> bytes \<Rightarrow> nat \<Rightarrow> bytes \<Rightarrow> nat \<Rightarrow>
    bytes fsres" where
  "insert_walk sb dir gen index child name stop bs start =
     (if start + 8 \<le> stop then
        case (ext4_dir_en_get_inode bs start, ext4_dir_en_get_entry_len bs start, ext4_dir_en_get_inode_type sb bs start) of
          (Some inode, Some rec_len, Some itype) \<Rightarrow>
            if rec_len < 8 \<or> rec_len mod 4 \<noteq> 0 \<or> stop < start + unat rec_len then Err EIO
            else if inode = 0 \<and> itype \<noteq> EXT4_DIRENTRY_DIR_CSUM \<and> required_len name \<le> rec_len then
              res_mem (Option.bind (ext4_dir_write_entry sb bs start rec_len index child name)
                (ext4_dir_set_csum sb dir gen)) Ret
            else (case (if inode \<noteq> 0 then split_entry sb dir gen index child name bs start rec_len else Ret None) of
                Crash \<Rightarrow> Crash
              | Err e \<Rightarrow> Err e
              | Ret (Some bs') \<Rightarrow> Ret bs'
              | Ret None \<Rightarrow> insert_walk sb dir gen index child name stop bs (start + unat rec_len))
        | _ \<Rightarrow> Crash
      else if start \<noteq> stop then Err EIO
      else Err ENOSPC)"
  by pat_completeness auto
termination
proof (relation "measure (\<lambda>(sb, dir, gen, index, child, name, stop, bs, start). stop - start)", simp)
  fix sb dir gen index child name stop bs start and rec_len :: u16
  assume "start + 8 \<le> stop" "\<not> (rec_len < 8 \<or> rec_len mod 4 \<noteq> 0 \<or> stop < start + unat rec_len)"
  then have "8 \<le> unat rec_len" by (simp add: word_less_nat_alt)
  with \<open>start + 8 \<le> stop\<close>
  show "((sb, dir, gen, index, child, name, stop, bs, start + unat rec_len), sb, dir, gen, index, child, name, stop, bs, start)
      \<in> measure (\<lambda>(sb, dir, gen, index, child, name, stop, bs, start). stop - start)"
    by simp
qed

declare insert_walk.simps [simp del]

text \<open>Every error return comes before the block is changed.\<close>

definition ext4_dir_try_insert_entry ::
    "ext4_sblock \<Rightarrow> u32 \<Rightarrow> u32 \<Rightarrow> bytes \<Rightarrow> u32 \<Rightarrow> ext4_inode \<Rightarrow> bytes \<Rightarrow> bytes fsres" where
  "ext4_dir_try_insert_entry sb dir gen bs index child name =
     insert_walk sb dir gen index child name (unat (ext4_sb_get_block_size sb)) bs 0"

text \<open>The walk of \<^verbatim>\<open>ext4_dir_remove_entry\<close> to the predecessor of the entry at \<open>pos\<close>: it gives the offset and
  the length of the record that ends there.\<close>

function pred_walk :: "nat \<Rightarrow> bytes \<Rightarrow> nat \<Rightarrow> (nat \<times> u16) fsres" where
  "pred_walk pos bs offset =
     (case ext4_dir_en_get_entry_len bs offset of None \<Rightarrow> Crash
      | Some de_len \<Rightarrow>
          if offset + unat de_len < pos then
            if de_len = 0 then Err EIO else pred_walk pos bs (offset + unat de_len)
          else if offset + unat de_len \<noteq> pos then Err EIO
          else Ret (offset, de_len))"
  by pat_completeness auto
termination
proof (relation "measure (\<lambda>(pos, bs, offset). pos - offset)", simp)
  fix pos bs offset and de_len :: u16
  assume "offset + unat de_len < pos" "de_len \<noteq> 0"
  moreover from this have "0 < unat de_len" by (simp add: unat_gt_0)
  ultimately show "((pos, bs, offset + unat de_len), pos, bs, offset) \<in> measure (\<lambda>(pos, bs, offset). pos - offset)"
    by simp
qed

declare pred_walk.simps [simp del]

text \<open>The block after the entry at \<open>pos\<close> is removed, with the return code.  An error return leaves the
  entry cleared in the buffer.\<close>

definition remove_in_block :: "ext4_sblock \<Rightarrow> u32 \<Rightarrow> u32 \<Rightarrow> bytes \<Rightarrow> nat \<Rightarrow> (errno \<times> bytes) option" where
  "remove_in_block sb dir gen bs pos =
     Option.bind (ext4_dir_en_set_inode bs pos 0) (\<lambda>bs.
     if pos \<noteq> 0 then
       case pred_walk pos bs 0 of Crash \<Rightarrow> None
       | Err e \<Rightarrow> Some (e, bs)
       | Ret (offset, de_len) \<Rightarrow>
           Option.bind (ext4_dir_en_get_entry_len bs pos) (\<lambda>del_len.
           Option.bind (ext4_dir_en_set_entry_len bs offset (de_len + del_len)) (\<lambda>bs.
           map_option (Pair EOK) (ext4_dir_set_csum sb dir gen bs)))
     else map_option (Pair EOK) (ext4_dir_set_csum sb dir gen bs))"

section \<open>Directories\<close>

text \<open>A call whose error code the caller looks at.\<close>

definition fs_try :: "'a fsm \<Rightarrow> (errno + 'a) fsm" where
  "fs_try m fs = (case m fs of (Ret x, fs') \<Rightarrow> (Ret (Inr x), fs') | (Err e, fs') \<Rightarrow> (Ret (Inl e), fs')
     | (Crash, fs') \<Rightarrow> (Crash, fs'))"

record ext4_dir_search_result =
  dsr_block :: u64
  dsr_dentry :: nat

type_synonym dblk_fn = "ext4_inode_ref \<Rightarrow> u32 \<Rightarrow> u64 fsm"

definition ext4_dir_destroy_result :: "ext4_dir_search_result \<Rightarrow> unit fsm" where
  "ext4_dir_destroy_result result = (if dsr_block result \<noteq> 0 then blk_release (dsr_block result) else fs_return ())"

text \<open>Load logical block \<open>iblock\<close> of the directory: its address, its bytes, and whether its checksum holds.\<close>

definition dir_load :: "dblk_fn \<Rightarrow> ext4_inode_ref \<Rightarrow> u32 \<Rightarrow> (u64 \<times> bytes \<times> bool) fsm" where
  "dir_load get_dblk parent iblock =
     fs_bind (get_dblk parent iblock) (\<lambda>fblock.
     fs_bind (ext4_trans_block_get fblock) (\<lambda>b.
     fs_bind (blk_get b) (\<lambda>bs.
     fs_bind (fs_gets fs_sb) (\<lambda>sb.
     fs_bind (inoref_get parent) (\<lambda>ino.
     fs_bind (fs_mem (ext4_dir_csum_verify sb (ir_index parent) (ext4_inode_get_generation ino) bs)) (\<lambda>ok.
     fs_return (b, bs, ok)))))))"

text \<open>The number of blocks of the directory, from its size.\<close>

definition total_blocks :: "ext4_sblock \<Rightarrow> ext4_inode \<Rightarrow> u32" where
  "total_blocks sb ino = ucast (ext4_inode_get_size sb ino div ucast (ext4_sb_get_block_size sb))"

text \<open>A failed checksum is only logged by a lookup.\<close>

fun find_blocks :: "dblk_fn \<Rightarrow> ext4_inode_ref \<Rightarrow> bytes \<Rightarrow> nat \<Rightarrow> u32 \<Rightarrow> ext4_dir_search_result fsm" where
  "find_blocks get_dblk parent name 0 iblock = fs_fail ENOENT"
| "find_blocks get_dblk parent name (Suc n) iblock =
     fs_bind (dir_load get_dblk parent iblock) (\<lambda>(b, bs, ok).
     fs_bind (fs_gets fs_sb) (\<lambda>sb.
     case ext4_dir_find_in_block sb name bs of
       Ret de \<Rightarrow> fs_return \<lparr>dsr_block = b, dsr_dentry = de\<rparr>
     | Crash \<Rightarrow> fs_crash
     | Err e \<Rightarrow>
         if e \<noteq> ENOENT then fs_bind (fs_ignore (blk_release b)) (\<lambda>_. fs_fail e)
         else fs_bind (blk_release b) (\<lambda>_. find_blocks get_dblk parent name n (iblock + 1))))"

text \<open>Whether the index is to be used, and giving up on a corrupted one.\<close>

definition dir_indexed :: "ext4_sblock \<Rightarrow> ext4_inode \<Rightarrow> bool" where
  "dir_indexed sb ino \<longleftrightarrow> ext4_sb_feature_com sb EXT4_FCOM_DIR_INDEX \<and> ext4_inode_has_flag ino EXT4_INODE_FLAG_INDEX"

definition drop_index :: "ext4_inode_ref \<Rightarrow> ext4_inode_ref fsm" where
  "drop_index parent =
     fs_bind (inoref_get parent) (\<lambda>ino.
     fs_bind (inoref_put parent (ext4_inode_clear_flag ino EXT4_INODE_FLAG_INDEX)) (\<lambda>_.
     fs_return (parent\<lparr>ir_dirty := True\<rparr>)))"

definition find_linear :: "dblk_fn \<Rightarrow> ext4_inode_ref \<Rightarrow> bytes \<Rightarrow>
    ((errno + ext4_dir_search_result) \<times> ext4_inode_ref) fsm" where
  "find_linear get_dblk parent name =
     fs_bind (fs_gets fs_sb) (\<lambda>sb.
     fs_bind (inoref_get parent) (\<lambda>ino.
     if ext4_sb_get_block_size sb = 0 then fs_crash
     else fs_bind (fs_try (find_blocks get_dblk parent name (unat (total_blocks sb ino)) 0)) (\<lambda>r.
       fs_return (r, parent))))"

text \<open>The return code (or the result) and the caller's reference, which an unusable index marks dirty.\<close>

definition ext4_dir_find_entry :: "dblk_fn \<Rightarrow> (ext4_inode_ref \<Rightarrow> bytes \<Rightarrow> ext4_dir_search_result fsm) \<Rightarrow>
    ext4_inode_ref \<Rightarrow> bytes \<Rightarrow> ((errno + ext4_dir_search_result) \<times> ext4_inode_ref) fsm" where
  "ext4_dir_find_entry get_dblk dx_find parent name =
     fs_bind (fs_gets fs_sb) (\<lambda>sb.
     fs_bind (inoref_get parent) (\<lambda>ino.
     if dir_indexed sb ino then
       fs_bind (fs_try (dx_find parent name)) (\<lambda>r.
       if r \<noteq> Inl EXT4_ERR_BAD_DX_DIR then fs_return (r, parent)
       else fs_bind (drop_index parent) (\<lambda>parent. find_linear get_dblk parent name))
     else find_linear get_dblk parent name))"

definition ext4_dir_remove_entry :: "dblk_fn \<Rightarrow> (ext4_inode_ref \<Rightarrow> bytes \<Rightarrow> ext4_dir_search_result fsm) \<Rightarrow>
    ext4_inode_ref \<Rightarrow> bytes \<Rightarrow> (errno \<times> ext4_inode_ref) fsm" where
  "ext4_dir_remove_entry get_dblk dx_find parent name =
     fs_bind (fs_gets fs_sb) (\<lambda>sb.
     fs_bind (inoref_get parent) (\<lambda>ino.
     if \<not> ext4_inode_is_type sb ino EXT4_INODE_MODE_DIRECTORY then fs_return (ENOTDIR, parent)
     else
       fs_bind (ext4_dir_find_entry get_dblk dx_find parent name) (\<lambda>(r, parent).
       case r of Inl e \<Rightarrow> fs_return (e, parent)
       | Inr result \<Rightarrow>
           fs_bind (blk_get (dsr_block result)) (\<lambda>bs.
           let gen = ext4_inode_get_generation ino
           in fs_bind (fs_mem (ext4_dir_csum_verify sb (ir_index parent) gen bs)) (\<lambda>ok.
              if \<not> ok then
                fs_bind (fs_ignore (ext4_dir_destroy_result result)) (\<lambda>_. fs_return (EIO, parent))
              else
                fs_bind (fs_mem (remove_in_block sb (ir_index parent) gen bs (dsr_dentry result))) (\<lambda>(e, bs').
                fs_bind (blk_put (dsr_block result) bs') (\<lambda>_.
                if e \<noteq> EOK then fs_bind (fs_ignore (ext4_dir_destroy_result result)) (\<lambda>_. fs_return (e, parent))
                else fs_bind (ext4_dir_destroy_result result) (\<lambda>_. fs_return (EOK, parent)))))))))"

text \<open>The loop of \<^verbatim>\<open>ext4_dir_add_entry\<close> over the blocks: whether the entry went into one of them.\<close>

fun insert_blocks :: "dblk_fn \<Rightarrow> ext4_inode_ref \<Rightarrow> ext4_inode_ref \<Rightarrow> bytes \<Rightarrow> nat \<Rightarrow> u32 \<Rightarrow> bool fsm" where
  "insert_blocks get_dblk parent child name 0 iblock = fs_return False"
| "insert_blocks get_dblk parent child name (Suc n) iblock =
     fs_bind (dir_load get_dblk parent iblock) (\<lambda>(b, bs, ok).
     if \<not> ok then fs_bind (fs_ignore (blk_release b)) (\<lambda>_. fs_fail EIO)
     else
       fs_bind (fs_gets fs_sb) (\<lambda>sb.
       fs_bind (inoref_get parent) (\<lambda>ino.
       fs_bind (inoref_get child) (\<lambda>cino.
       case ext4_dir_try_insert_entry sb (ir_index parent) (ext4_inode_get_generation ino) bs (ir_index child) cino name of
         Crash \<Rightarrow> fs_crash
       | Ret bs' \<Rightarrow> fs_bind (blk_put b bs') (\<lambda>_. fs_bind (blk_release b) (\<lambda>_. fs_return True))
       | Err e \<Rightarrow>
           if e \<noteq> ENOSPC then fs_bind (fs_ignore (blk_release b)) (\<lambda>_. fs_fail e)
           else fs_bind (blk_release b) (\<lambda>_. insert_blocks get_dblk parent child name n (iblock + 1))))))"

text \<open>The contents of a new block: one entry that takes all of it, or all but the tail.  The length of the
  entry is cut to 16 bits.\<close>

definition fresh_dir_block :: "ext4_sblock \<Rightarrow> u32 \<Rightarrow> u32 \<Rightarrow> u32 \<Rightarrow> ext4_inode \<Rightarrow> bytes \<Rightarrow> bytes option" where
  "fresh_dir_block sb dir gen index child name =
     (let block_size = ext4_sb_get_block_size sb;
          bs = replicate (unat block_size) 0
      in Option.bind
           (if ext4_sb_feature_ro_com sb EXT4_FRO_COM_METADATA_CSUM then
              Option.bind (ext4_dir_write_entry sb bs 0 (ucast (block_size - 12)) index child name) (\<lambda>bs.
              ext4_dir_init_entry_tail bs (dirent_tail sb))
            else ext4_dir_write_entry sb bs 0 (ucast block_size) index child name)
           (ext4_dir_set_csum sb dir gen))"

definition add_linear :: "dblk_fn \<Rightarrow> (ext4_inode_ref \<Rightarrow> (u64 \<times> ext4_inode_ref) fsm) \<Rightarrow>
    ext4_inode_ref \<Rightarrow> bytes \<Rightarrow> ext4_inode_ref \<Rightarrow> (errno \<times> ext4_inode_ref) fsm" where
  "add_linear get_dblk append_dblk parent name child =
     fs_bind (fs_gets fs_sb) (\<lambda>sb.
     fs_bind (inoref_get parent) (\<lambda>ino.
     if ext4_sb_get_block_size sb = 0 then fs_crash
     else
       fs_bind (fs_try (insert_blocks get_dblk parent child name (unat (total_blocks sb ino)) 0)) (\<lambda>r.
       case r of Inl e \<Rightarrow> fs_return (e, parent)
       | Inr True \<Rightarrow> fs_return (EOK, parent)
       | Inr False \<Rightarrow>
           fs_bind (fs_try (append_dblk parent)) (\<lambda>r.
           case r of Inl e \<Rightarrow> fs_return (e, parent)
           | Inr (fblock, parent) \<Rightarrow>
               fs_bind (fs_try (ext4_trans_block_get_noread fblock)) (\<lambda>r.
               case r of Inl e \<Rightarrow> fs_return (e, parent)
               | Inr b \<Rightarrow>
                   fs_bind (fs_gets fs_sb) (\<lambda>sb.
                   fs_bind (inoref_get parent) (\<lambda>ino.
                   fs_bind (inoref_get child) (\<lambda>cino.
                   fs_bind (fs_mem (fresh_dir_block sb (ir_index parent) (ext4_inode_get_generation ino) (ir_index child)
                     cino name)) (\<lambda>bs.
                   fs_bind (blk_put b bs) (\<lambda>_.
                   fs_bind (blk_release b) (\<lambda>_. fs_return (EOK, parent))))))))))))"

definition ext4_dir_add_entry :: "dblk_fn \<Rightarrow> (ext4_inode_ref \<Rightarrow> (u64 \<times> ext4_inode_ref) fsm) \<Rightarrow>
    (ext4_inode_ref \<Rightarrow> ext4_inode_ref \<Rightarrow> bytes \<Rightarrow> ext4_inode_ref fsm) \<Rightarrow>
    ext4_inode_ref \<Rightarrow> bytes \<Rightarrow> ext4_inode_ref \<Rightarrow> (errno \<times> ext4_inode_ref) fsm" where
  "ext4_dir_add_entry get_dblk append_dblk dx_add parent name child =
     fs_bind (fs_gets fs_sb) (\<lambda>sb.
     fs_bind (inoref_get parent) (\<lambda>ino.
     if dir_indexed sb ino then
       fs_bind (fs_try (dx_add parent child name)) (\<lambda>r.
       case r of Inr parent \<Rightarrow> fs_return (EOK, parent)
       | Inl e \<Rightarrow>
           if e \<noteq> EXT4_ERR_BAD_DX_DIR then fs_return (e, parent)
           else fs_bind (drop_index parent) (\<lambda>parent. add_linear get_dblk append_dblk parent name child))
     else add_linear get_dblk append_dblk parent name child))"

section \<open>The iterator\<close>

text \<open>\<^verbatim>\<open>struct ext4_dir_iter\<close>: the held block (0 when there is none), the position in the directory, and the
  current entry as its offset in the block.  Every function also gives the iterator as it leaves it on an
  error.\<close>

record ext4_dir_iter =
  it_blk :: u64
  it_off :: u64
  it_curr :: "nat option"

text \<open>\<^verbatim>\<open>length - 8\<close> is an \<^verbatim>\<open>int\<close>: for a length below 8 it is negative and no name length passes.\<close>

definition ext4_dir_iterator_set :: "ext4_sblock \<Rightarrow> bytes \<Rightarrow> u64 \<Rightarrow> u32 \<Rightarrow> nat fsres" where
  "ext4_dir_iterator_set sb bs curr_off block_size =
     (let off_in_block = ucast (curr_off mod ucast block_size) :: u32
      in if off_in_block mod 4 \<noteq> 0 then Err EIO
         else if block_size - 8 < off_in_block then Err EIO
         else
           res_mem (ext4_dir_en_get_entry_len bs (unat off_in_block)) (\<lambda>length.
           if block_size < off_in_block + ucast length then Err EIO
           else
             res_mem (ext4_dir_en_get_name_len sb bs (unat off_in_block)) (\<lambda>name_len.
             if int (unat length) - 8 < int (unat name_len) then Err EIO
             else Ret (unat off_in_block))))"

definition ext4_dir_iterator_seek :: "dblk_fn \<Rightarrow> ext4_inode_ref \<Rightarrow> ext4_dir_iter \<Rightarrow> u64 \<Rightarrow> (errno \<times> ext4_dir_iter) fsm" where
  "ext4_dir_iterator_seek get_dblk iref it pos =
     fs_bind (fs_gets fs_sb) (\<lambda>sb.
     fs_bind (inoref_get iref) (\<lambda>ino.
     let it = it\<lparr>it_curr := None\<rparr>;
         block_size = ext4_sb_get_block_size sb
     in if ext4_inode_get_size sb ino \<le> pos then
          fs_bind (if it_blk it \<noteq> 0 then blk_release (it_blk it) else fs_return ()) (\<lambda>_.
          fs_return (EOK, it\<lparr>it_blk := 0, it_off := pos\<rparr>))
        else if block_size = 0 then fs_crash
        else
          let current_blk_idx = it_off it div ucast block_size;
              next_blk_idx = ucast (pos div ucast block_size) :: u32
          in fs_bind
               (if it_blk it = 0 \<or> current_blk_idx \<noteq> ucast next_blk_idx then
                  fs_bind (if it_blk it \<noteq> 0 then blk_release (it_blk it) else fs_return ()) (\<lambda>_.
                  fs_try (fs_bind (get_dblk iref next_blk_idx) ext4_trans_block_get))
                else fs_return (Inr (it_blk it))) (\<lambda>r.
             case r of Inl e \<Rightarrow> fs_return (e, it\<lparr>it_blk := 0\<rparr>)
             | Inr b \<Rightarrow>
                 let it = it\<lparr>it_blk := b, it_off := pos\<rparr>
                 in fs_bind (blk_get b) (\<lambda>bs.
                    case ext4_dir_iterator_set sb bs pos block_size of
                      Crash \<Rightarrow> fs_crash
                    | Err e \<Rightarrow> fs_return (e, it)
                    | Ret en \<Rightarrow> fs_return (EOK, it\<lparr>it_curr := Some en\<rparr>)))))"

definition ext4_dir_iterator_init :: "dblk_fn \<Rightarrow> ext4_inode_ref \<Rightarrow> u64 \<Rightarrow> (errno \<times> ext4_dir_iter) fsm" where
  "ext4_dir_iterator_init get_dblk iref pos =
     ext4_dir_iterator_seek get_dblk iref \<lparr>it_blk = 0, it_off = 0, it_curr = None\<rparr> pos"

text \<open>The loop of \<^verbatim>\<open>ext4_dir_iterator_next\<close> over unused entries, with a bound on the number of turns;
  \<open>None\<close> says that the bound was reached.\<close>

fun iterator_next :: "nat \<Rightarrow> dblk_fn \<Rightarrow> ext4_inode_ref \<Rightarrow> ext4_dir_iter \<Rightarrow> (errno \<times> ext4_dir_iter) option fsm" where
  "iterator_next 0 get_dblk iref it = fs_return None"
| "iterator_next (Suc n) get_dblk iref it =
     (case it_curr it of None \<Rightarrow> fs_crash
      | Some en \<Rightarrow>
          fs_bind (blk_get (it_blk it)) (\<lambda>bs.
          fs_bind (fs_mem (ext4_dir_en_get_entry_len bs en)) (\<lambda>skip.
          fs_bind (ext4_dir_iterator_seek get_dblk iref it (it_off it + ucast skip)) (\<lambda>(r, it).
          case it_curr it of None \<Rightarrow> fs_return (Some (r, it))
          | Some en \<Rightarrow>
              fs_bind (blk_get (it_blk it)) (\<lambda>bs.
              fs_bind (fs_mem (ext4_dir_en_get_inode bs en)) (\<lambda>inode.
              if inode \<noteq> 0 \<or> r \<noteq> EOK then fs_return (Some (r, it))
              else iterator_next n get_dblk iref it))))))"

text \<open>A turn moves on by at least 8 bytes, so this many turns reach the end of the directory.\<close>

definition ext4_dir_iterator_next :: "dblk_fn \<Rightarrow> ext4_inode_ref \<Rightarrow> ext4_dir_iter \<Rightarrow> (errno \<times> ext4_dir_iter) option fsm" where
  "ext4_dir_iterator_next get_dblk iref it =
     fs_bind (fs_gets fs_sb) (\<lambda>sb.
     fs_bind (inoref_get iref) (\<lambda>ino.
     iterator_next (unat (ext4_inode_get_size sb ino) div 8 + 2) get_dblk iref it))"

definition ext4_dir_iterator_fini :: "ext4_dir_iter \<Rightarrow> ext4_dir_iter fsm" where
  "ext4_dir_iterator_fini it =
     fs_bind (if it_blk it \<noteq> 0 then blk_release (it_blk it) else fs_return ()) (\<lambda>_.
     fs_return (it\<lparr>it_curr := None\<rparr>))"

end
