(* ===== verification/Dir_Spec.thy ===== *)
theory Dir_Spec
  imports Dir
begin

unbundle bit_operations_syntax

text \<open>
  What a directory block means and that the walks of \<open>Dir\<close> implement it.  A block is a chain of records
  that tile it; the records with an inode are its entries, a list of names with inode numbers.  The search
  finds the first entry of a name, the insertion adds one entry and keeps the others, the removal deletes
  the entry that the search found, and every walk stays inside the buffer whatever the bytes are.
\<close>

section \<open>Records\<close>

definition en_ino :: "bytes \<Rightarrow> nat \<Rightarrow> u32" where
  "en_ino bs p = get_le32 bs p"

definition en_len :: "bytes \<Rightarrow> nat \<Rightarrow> nat" where
  "en_len bs p = unat (get_le16 bs (p + 4))"

definition en_nlen :: "ext4_sblock \<Rightarrow> bytes \<Rightarrow> nat \<Rightarrow> nat" where
  "en_nlen sb bs p = unat (if long_names sb then ucast (bs ! (p + 6)) OR push_bit 8 (ucast (bs ! (p + 7)))
     else ucast (bs ! (p + 6)) :: u16)"

definition en_name :: "ext4_sblock \<Rightarrow> bytes \<Rightarrow> nat \<Rightarrow> bytes" where
  "en_name sb bs p = take (en_nlen sb bs p) (drop (p + 8) bs)"

definition rec_ok :: "ext4_sblock \<Rightarrow> bytes \<Rightarrow> nat \<Rightarrow> bool" where
  "rec_ok sb bs p \<longleftrightarrow> 8 \<le> en_len bs p \<and> en_len bs p mod 4 = 0 \<and>
     (en_ino bs p \<noteq> 0 \<longrightarrow> 8 + en_nlen sb bs p \<le> en_len bs p)"

text \<open>The records from offset \<open>a\<close> to offset \<open>e\<close>.\<close>

fun chain :: "ext4_sblock \<Rightarrow> bytes \<Rightarrow> nat \<Rightarrow> nat list \<Rightarrow> nat \<Rightarrow> bool" where
  "chain sb bs a [] e \<longleftrightarrow> a = e"
| "chain sb bs a (p # ps) e \<longleftrightarrow> p = a \<and> rec_ok sb bs p \<and> chain sb bs (p + en_len bs p) ps e"

definition entries :: "ext4_sblock \<Rightarrow> bytes \<Rightarrow> nat list \<Rightarrow> (bytes \<times> u32) list" where
  "entries sb bs ps = map (\<lambda>p. (en_name sb bs p, en_ino bs p)) (filter (\<lambda>p. en_ino bs p \<noteq> 0) ps)"

lemma entries_simps [simp]:
  "entries sb bs [] = []"
  "entries sb bs (ps @ qs) = entries sb bs ps @ entries sb bs qs"
  "entries sb bs (p # ps) = (if en_ino bs p \<noteq> 0 then (en_name sb bs p, en_ino bs p) # entries sb bs ps else entries sb bs ps)"
  by (simp_all add: entries_def)

lemma chain_append: "chain sb bs a (ps @ qs) e \<longleftrightarrow> (\<exists>m. chain sb bs a ps m \<and> chain sb bs m qs e)"
  by (induction ps arbitrary: a) auto

lemma chain_le: "chain sb bs a ps e \<Longrightarrow> a \<le> e"
  by (induction ps arbitrary: a) force+

lemma chain_mid:
  assumes "chain sb bs a (xs @ p # ys) e"
  shows "chain sb bs a xs p" "rec_ok sb bs p" "chain sb bs (p + en_len bs p) ys e" "a \<le> p" "p + en_len bs p \<le> e"
proof -
  show c: "chain sb bs a xs p" "rec_ok sb bs p" "chain sb bs (p + en_len bs p) ys e"
    using assms by (auto simp: chain_append)
  show "a \<le> p" "p + en_len bs p \<le> e" using chain_le [OF c(1)] chain_le [OF c(3)] .
qed

lemma chain_mid_iff:
  "chain sb bs a (xs @ p # ys) e \<longleftrightarrow> chain sb bs a xs p \<and> rec_ok sb bs p \<and> chain sb bs (p + en_len bs p) ys e"
  by (auto simp: chain_append)

lemma chain_in:
  assumes "chain sb bs a ps e" and "p \<in> set ps"
  shows "rec_ok sb bs p" "a \<le> p" "p + en_len bs p \<le> e" "p + 8 \<le> e"
proof -
  obtain xs ys where "ps = xs @ p # ys" using assms(2) by (auto dest: split_list)
  with assms(1) have c: "chain sb bs a (xs @ p # ys) e" by simp
  show "rec_ok sb bs p" "a \<le> p" "p + en_len bs p \<le> e" by (rule chain_mid [OF c])+
  then show "p + 8 \<le> e" by (simp add: rec_ok_def)
qed

section \<open>Records depend only on their own bytes\<close>

definition agree :: "bytes \<Rightarrow> bytes \<Rightarrow> nat \<Rightarrow> nat \<Rightarrow> bool" where
  "agree bs bs' a b \<longleftrightarrow> length bs = length bs' \<and> (\<forall>i. a \<le> i \<and> i < b \<longrightarrow> bs ! i = bs' ! i)"

lemma agree_sub: "agree bs bs' a b \<Longrightarrow> a \<le> c \<Longrightarrow> d \<le> b \<Longrightarrow> agree bs bs' c d"
  by (auto simp: agree_def)

lemma agree_trans: "agree bs bs' a b \<Longrightarrow> agree bs' bs'' a b \<Longrightarrow> agree bs bs'' a b"
  by (auto simp: agree_def)

lemma agree_head:
  assumes "agree bs bs' p (p + 8)"
  shows "en_ino bs' p = en_ino bs p" "en_len bs' p = en_len bs p" "en_nlen sb bs' p = en_nlen sb bs p"
  using assms by (auto simp: agree_def en_ino_def en_len_def en_nlen_def get_le32_def get_le16_def)

lemma agree_name:
  assumes "agree bs bs' p (p + 8 + en_nlen sb bs p)"
  shows "en_name sb bs' p = en_name sb bs p"
proof -
  have n: "en_nlen sb bs' p = en_nlen sb bs p" by (rule agree_head, rule agree_sub [OF assms]) simp_all
  show ?thesis using assms unfolding en_name_def n by (intro nth_equalityI) (auto simp: agree_def)
qed

lemma agree_rec:
  assumes "agree bs bs' p (p + en_len bs p)" and "rec_ok sb bs p"
  shows "rec_ok sb bs' p" "en_len bs' p = en_len bs p" "en_ino bs' p = en_ino bs p"
    "en_ino bs p \<noteq> 0 \<Longrightarrow> en_name sb bs' p = en_name sb bs p"
proof -
  have h: "agree bs bs' p (p + 8)"
    by (rule agree_sub [OF assms(1)]) (use assms(2) in \<open>simp_all add: rec_ok_def\<close>)
  note [simp] = agree_head [OF h]
  show "rec_ok sb bs' p" "en_len bs' p = en_len bs p" "en_ino bs' p = en_ino bs p"
    using assms(2) by (simp_all add: rec_ok_def)
  show "en_name sb bs' p = en_name sb bs p" if "en_ino bs p \<noteq> 0"
    by (rule agree_name, rule agree_sub [OF assms(1)]) (use that assms(2) in \<open>simp_all add: rec_ok_def\<close>)
qed

lemma chain_agree_both:
  "agree bs bs' a e \<Longrightarrow> chain sb bs a ps e \<Longrightarrow> chain sb bs' a ps e \<and> entries sb bs' ps = entries sb bs ps"
proof (induction ps arbitrary: a)
  case (Cons p ps)
  then have ok: "rec_ok sb bs p" and c: "chain sb bs (p + en_len bs p) ps e" and p: "p = a" by auto
  have le: "p + en_len bs p \<le> e" by (rule chain_le [OF c])
  have a: "agree bs bs' p (p + en_len bs p)" "agree bs bs' (p + en_len bs p) e"
    using agree_sub [OF Cons.prems(1)] le p by simp_all
  show ?case using Cons.IH [OF a(2) c] agree_rec [OF a(1) ok] p by simp
qed simp

lemmas chain_agree = chain_agree_both [THEN conjunct1] chain_agree_both [THEN conjunct2]

section \<open>The search\<close>

lemma en_heads [simp]:
  assumes "p + 8 \<le> length bs"
  shows "ext4_dir_en_get_inode bs p = Some (en_ino bs p)"
    "ext4_dir_en_get_entry_len bs p = Some (get_le16 bs (p + 4))"
    "ext4_dir_en_get_name_len sb bs p = Some (of_nat (en_nlen sb bs p))"
  using assms by (simp_all add: ext4_dir_en_get_inode_def ext4_dir_en_get_entry_len_def
    ext4_dir_en_get_name_len_def en_ino_def en_nlen_def)

lemma en_nlen_lt: "en_nlen sb bs p < 65536"
  unfolding en_nlen_def by (rule order_less_le_trans, rule unsigned_less) simp

lemma unat_en_nlen [simp]: "unat (of_nat (en_nlen sb bs p) :: u16) = en_nlen sb bs p"
  using en_nlen_lt by (simp add: unat_of_nat)

lemma en_len_lt: "en_len bs p < 65536"
  unfolding en_len_def by (rule order_less_le_trans, rule unsigned_less) simp

lemma len_tests:
  "(get_le16 bs (p + 4) < 8) = (en_len bs p < 8)" "(get_le16 bs (p + 4) mod 4 \<noteq> 0) = (en_len bs p mod 4 \<noteq> 0)"
  "unat (get_le16 bs (p + 4)) = en_len bs p"
  by (simp_all add: en_len_def word_less_nat_alt unat_eq_0 [symmetric] unat_mod del: unat_eq_0)

lemma length_en_name: "p + 8 + en_nlen sb bs p \<le> length bs \<Longrightarrow> length (en_name sb bs p) = en_nlen sb bs p"
  by (simp add: en_name_def)

lemma entry_matches_ok:
  assumes "rec_ok sb bs p" "p + en_len bs p \<le> e" "e \<le> length bs"
  shows "entry_matches sb e name bs p = Ret (en_ino bs p \<noteq> 0 \<and> en_name sb bs p = name)"
proof (cases "en_ino bs p = 0")
  case True
  then show ?thesis using assms by (simp add: entry_matches_def res_mem_def rec_ok_def)
next
  case False
  then have n: "8 + en_nlen sb bs p \<le> en_len bs p" using assms(1) by (simp add: rec_ok_def)
  have l: "length (en_name sb bs p) = en_nlen sb bs p" using n assms by (intro length_en_name) simp
  show ?thesis
  proof (cases "en_nlen sb bs p = length name")
    case True
    then have "en_name sb bs p = take (length name) (drop (p + 8) bs)" by (simp add: en_name_def)
    moreover have "unat (of_nat (length name) :: u16) = length name" using unat_en_nlen [of sb bs p] True by simp
    ultimately show ?thesis using False True n assms by (simp add: entry_matches_def res_mem_def)
  next
    case 2: False
    then have "en_name sb bs p \<noteq> name" using l by auto
    then show ?thesis using False 2 n assms by (simp add: entry_matches_def res_mem_def)
  qed
qed

definition first_named :: "ext4_sblock \<Rightarrow> bytes \<Rightarrow> bytes \<Rightarrow> nat list \<Rightarrow> nat option" where
  "first_named sb bs name ps = find (\<lambda>p. en_ino bs p \<noteq> 0 \<and> en_name sb bs p = name) ps"

lemma find_walk_chain:
  "chain sb bs a ps e \<Longrightarrow> e \<le> length bs \<Longrightarrow>
     find_walk sb e name bs a = (case first_named sb bs name ps of None \<Rightarrow> Err ENOENT | Some p \<Rightarrow> Ret p)"
proof (induction ps arbitrary: a)
  case Nil
  then show ?case by (simp add: find_walk.simps first_named_def)
next
  case (Cons p ps)
  then have p: "a = p" and ok: "rec_ok sb bs p" and c: "chain sb bs (p + en_len bs p) ps e" by auto
  have le: "p + en_len bs p \<le> e" by (rule chain_le [OF c])
  have h: "8 \<le> en_len bs p" "en_len bs p mod 4 = 0" using ok by (auto simp: rec_ok_def)
  note m = entry_matches_ok [OF ok le Cons.prems(2), of name]
  show ?case unfolding p
    using Cons.IH [OF c Cons.prems(2)] le h Cons.prems(2)
    by (subst find_walk.simps) (auto simp: m first_named_def len_tests)
qed

lemma first_named_SomeD:
  assumes "first_named sb bs name ps = Some p"
  obtains xs ys where "ps = xs @ p # ys" "en_ino bs p \<noteq> 0" "en_name sb bs p = name"
    "entries sb bs ps = entries sb bs xs @ (name, en_ino bs p) # entries sb bs ys"
    "name \<notin> fst ` set (entries sb bs xs)"
proof -
  obtain i where i: "i < length ps" "en_ino bs (ps ! i) \<noteq> 0" "en_name sb bs (ps ! i) = name" "p = ps ! i"
    "\<forall>j<i. \<not> (en_ino bs (ps ! j) \<noteq> 0 \<and> en_name sb bs (ps ! j) = name)"
    using assms by (auto simp: first_named_def find_Some_iff)
  have s: "ps = take i ps @ p # drop (Suc i) ps" using i(1,4) by (simp add: id_take_nth_drop)
  have "name \<notin> fst ` set (entries sb bs (take i ps))"
    using i(1,5) by (auto simp: entries_def in_set_conv_nth)
  moreover have "entries sb bs ps = entries sb bs (take i ps) @ (name, en_ino bs p) # entries sb bs (drop (Suc i) ps)"
    by (subst s) (use i(2-4) in simp)
  ultimately show ?thesis using that [of "take i ps" "drop (Suc i) ps"] s i by blast
qed

lemma first_named_None: "first_named sb bs name ps = None \<longleftrightarrow> name \<notin> fst ` set (entries sb bs ps)"
  by (force simp: first_named_def find_None_iff entries_def)

section \<open>Writing an entry\<close>

lemma typed_iff: "(0 < s_rev_level sb \<or> 5 \<le> s_minor_rev_level sb) = (\<not> long_names sb)"
  by (auto simp: long_names_def word_gt_0 linorder_not_less)

lemma get_le_update_other [simp]:
  "i < p \<or> p + 4 \<le> i \<Longrightarrow> get_le32 (bs[i := v]) p = get_le32 bs p"
  "i < p \<or> p + 2 \<le> i \<Longrightarrow> get_le16 (bs[i := v]) p = get_le16 bs p"
  by (auto simp: get_le32_def get_le16_def nth_list_update)

lemma u16_halves: "ucast (ucast l :: u8) OR push_bit 8 (ucast (ucast (drop_bit 8 l) :: u8)) = (l :: u16)"
  by (rule bit_word_eqI) (auto simp: bit_simps)

lemma u16_byte: "l < 256 \<Longrightarrow> ucast (ucast (of_nat l :: u16) :: u8) = (of_nat l :: u16)"
  by (simp add: word_unat_eq_iff unat_ucast_mod unat_of_nat)

lemma agree_put: "o1 + length v \<le> length bs \<Longrightarrow> b \<le> o1 \<or> o1 + length v \<le> a \<Longrightarrow> b \<le> length bs \<Longrightarrow>
    agree bs (put_bytes bs o1 v) a b"
  by (auto simp: agree_def nth_put_bytes)

lemma agree_update: "i < a \<or> b \<le> i \<Longrightarrow> agree bs (bs[i := v]) a b"
  by (auto simp: agree_def)

lemma write_entry_ok:
  assumes room: "en + 8 + length name \<le> length bs"
    and name: "length name \<le> 255"
    and len: "ucast len \<le> ext4_sb_get_block_size sb"
  obtains bs' where "ext4_dir_write_entry sb bs en len index child name = Some bs'" "length bs' = length bs"
    "en_ino bs' en = index" "en_len bs' en = unat len" "en_nlen sb bs' en = length name" "en_name sb bs' en = name"
    "agree bs bs' 0 en" "agree bs bs' (en + 8 + length name) (length bs)"
proof -
  define n :: u16 where "n = of_nat (length name)"
  define b1 where "b1 = (if long_names sb then bs else bs[en + 7 := de_type sb child])"
  define b2 where "b2 = put_bytes b1 en (le32 index)"
  define b3 where "b3 = put_bytes b2 (en + 4) (le16 len)"
  define b4 where "b4 = b3[en + 6 := ucast n]"
  define b5 where "b5 = (if long_names sb then b4[en + 7 := ucast (drop_bit 8 n)] else b4)"
  define b6 where "b6 = put_bytes b5 (en + 8) name"
  have l [simp]: "length b1 = length bs" "length b2 = length bs" "length b3 = length bs" "length b4 = length bs"
    "length b5 = length bs" using room by (simp_all add: b1_def b2_def b3_def b4_def b5_def)
  have l6: "length b6 = length bs" using room by (simp add: b6_def)
  have w: "ext4_dir_write_entry sb bs en len index child name = Some b6"
    using room len by (simp add: ext4_dir_write_entry_def ext4_dir_en_set_inode_type_def typed_iff
        ext4_dir_en_set_inode_def ext4_dir_en_set_entry_len_def ext4_dir_en_set_name_len_def
        b1_def b2_def b3_def b4_def b5_def b6_def n_def)
  have ino: "en_ino b6 en = index"
    using room by (simp add: en_ino_def b6_def get_le32_put_other b5_def b4_def b3_def)
      (simp add: b2_def get_le32_put)
  have elen: "en_len b6 en = unat len"
    using room by (simp add: en_len_def b6_def get_le16_put_other b5_def b4_def)
      (simp add: b3_def get_le16_put)
  have b67: "b6 ! (en + 6) = b5 ! (en + 6)" "b6 ! (en + 7) = b5 ! (en + 7)"
    using room by (simp_all add: b6_def nth_put_bytes)
  have nlen: "en_nlen sb b6 en = length name"
  proof (cases "long_names sb")
    case True
    then have "b5 ! (en + 6) = ucast n" "b5 ! (en + 7) = ucast (drop_bit 8 n)"
      using room by (simp_all add: b5_def b4_def)
    then show ?thesis using True name by (simp add: en_nlen_def b67 u16_halves n_def unat_of_nat)
  next
    case False
    then have "b5 ! (en + 6) = ucast n" using room by (simp add: b5_def b4_def)
    then show ?thesis using False name by (simp add: en_nlen_def b67 n_def u16_byte unat_of_nat)
  qed
  have nm: "en_name sb b6 en = name"
    unfolding en_name_def nlen unfolding b6_def using room by (simp add: take_drop_put_bytes)
  have a: "agree bs b6 x y" if "y \<le> en \<or> en + 8 + length name \<le> x" "y \<le> length bs" for x y
  proof -
    have "agree bs b1 x y" using that by (auto simp: b1_def agree_def nth_list_update)
    moreover have "agree b1 b2 x y" unfolding b2_def by (rule agree_put) (use that room in auto)
    moreover have "agree b2 b3 x y" unfolding b3_def by (rule agree_put) (use that room in auto)
    moreover have "agree b3 b5 x y" using that by (auto simp: b5_def b4_def agree_def nth_list_update)
    moreover have "agree b5 b6 x y" unfolding b6_def by (rule agree_put) (use that room in auto)
    ultimately show ?thesis by (blast intro: agree_trans)
  qed
  show ?thesis by (rule that [OF w l6 ino elen nlen nm]) (use a room in auto)
qed

section \<open>Well-formed blocks\<close>

abbreviation bsize :: "ext4_sblock \<Rightarrow> nat" where
  "bsize sb \<equiv> unat (ext4_sb_get_block_size sb)"

abbreviation csums :: "ext4_sblock \<Rightarrow> bool" where
  "csums sb \<equiv> ext4_sb_feature_ro_com sb EXT4_FRO_COM_METADATA_CSUM"

text \<open>With checksums the last record of a block is the tail, and the revision has typed entries, so that an
  insertion can tell the tail from a free record.\<close>

definition tail_ok :: "ext4_sblock \<Rightarrow> bytes \<Rightarrow> bool" where
  "tail_ok sb bs \<longleftrightarrow> en_ino bs (dirent_tail sb) = 0 \<and> en_len bs (dirent_tail sb) = 12 \<and>
     bs ! (dirent_tail sb + 6) = 0 \<and> bs ! (dirent_tail sb + 7) = EXT4_DIRENTRY_DIR_CSUM"

definition dir_block :: "ext4_sblock \<Rightarrow> bytes \<Rightarrow> nat list \<Rightarrow> bool" where
  "dir_block sb bs ps \<longleftrightarrow> length bs = bsize sb \<and> chain sb bs 0 ps (bsize sb) \<and>
     (csums sb \<longrightarrow> ps \<noteq> [] \<and> last ps = dirent_tail sb \<and> tail_ok sb bs)"

definition dir_sb :: "ext4_sblock \<Rightarrow> bool" where
  "dir_sb sb \<longleftrightarrow> 12 \<le> bsize sb \<and> (if csums sb then bsize sb \<le> 65536 \<and> \<not> long_names sb else bsize sb < 65536)"

lemma dirent_tail: "12 \<le> bsize sb \<Longrightarrow> dirent_tail sb + 12 = bsize sb"
  by (simp add: dirent_tail_def unat_sub_if' word_le_nat_alt)

lemma get_tail_ok:
  assumes "dir_sb sb" "length bs = bsize sb" "tail_ok sb bs"
  shows "ext4_dir_get_tail sb bs = Some (Some (dirent_tail sb))"
  using assms dirent_tail [of sb] by (simp add: dir_sb_def ext4_dir_get_tail_def tail_ok_def en_ino_def en_len_def
    word_unat_eq_iff Let_def)

lemma tail_agree:
  "agree bs bs' (dirent_tail sb) (dirent_tail sb + 8) \<Longrightarrow> tail_ok sb bs \<Longrightarrow> tail_ok sb bs'"
  using agree_head [of bs bs' "dirent_tail sb"] by (auto simp: tail_ok_def agree_def)

text \<open>Stamping the checksum changes nothing but the last four bytes and makes the block verify.\<close>

lemma set_csum_ok:
  assumes sb: "dir_sb sb" and l: "length bs = bsize sb" and t: "csums sb \<longrightarrow> tail_ok sb bs"
  obtains bs' where "ext4_dir_set_csum sb dir gen bs = Some bs'" "length bs' = bsize sb"
    "agree bs bs' 0 (if csums sb then dirent_tail sb + 8 else bsize sb)"
    "ext4_dir_csum_verify sb dir gen bs' = Some True"
proof (cases "csums sb")
  case False
  then show ?thesis using that [of bs] l by (simp add: ext4_dir_set_csum_def ext4_dir_csum_verify_def agree_def)
next
  case True
  define t where "t = dirent_tail sb"
  have tb: "t + 12 = bsize sb" using sb by (simp add: t_def dirent_tail dir_sb_def)
  define bs' where "bs' = put_bytes bs (t + 8) (le32 (ext4_dir_csum sb dir gen (take t bs)))"
  have tok: "tail_ok sb bs" using t True by simp
  have l': "length bs' = bsize sb" using tb l by (simp add: bs'_def)
  have s: "ext4_dir_set_csum sb dir gen bs = Some bs'"
    using True get_tail_ok [OF sb l tok] tb l by (simp add: ext4_dir_set_csum_def bs'_def t_def)
  have a: "agree bs bs' 0 (t + 8)" unfolding bs'_def by (rule agree_put) (use tb l in simp_all)
  have t': "tail_ok sb bs'" by (rule tail_agree [OF agree_sub [OF a]]) (use tok in \<open>simp_all add: t_def\<close>)
  have "take t bs' = take t bs" using a tb l by (intro nth_equalityI) (auto simp: agree_def)
  moreover have "get_le32 bs' (t + 8) = ext4_dir_csum sb dir gen (take t bs)"
    unfolding bs'_def by (rule get_le32_put) (use tb l in simp)
  ultimately have "ext4_dir_csum_verify sb dir gen bs' = Some True"
    using True get_tail_ok [OF sb l' t'] tb l' by (simp add: ext4_dir_csum_verify_def t_def)
  then show ?thesis using that [OF s l'] a True by (simp add: t_def)
qed

lemma dir_block_agree:
  assumes b: "dir_block sb bs ps" and sb: "dir_sb sb"
    and a: "agree bs bs' 0 (if csums sb then dirent_tail sb + 8 else bsize sb)"
  shows "dir_block sb bs' ps" "entries sb bs' ps = entries sb bs ps"
proof -
  have "dir_block sb bs' ps \<and> entries sb bs' ps = entries sb bs ps"
  proof (cases "csums sb")
    case False
    then show ?thesis using chain_agree [of bs bs' 0 "bsize sb" sb ps] a b by (auto simp: dir_block_def agree_def)
  next
    case True
    define t where "t = dirent_tail sb"
    have tb: "t + 12 = bsize sb" using sb by (simp add: t_def dirent_tail dir_sb_def)
    obtain qs where ps: "ps = qs @ [t]" using b True by (metis append_butlast_last_id dir_block_def t_def)
    have c: "chain sb bs 0 qs t" using b by (simp add: dir_block_def ps chain_mid_iff)
    have tok: "tail_ok sb bs" using b True by (simp add: dir_block_def)
    have t: "tail_ok sb bs'" by (rule tail_agree [OF agree_sub [OF a]]) (use tok True in auto)
    have "chain sb bs' 0 qs t" "entries sb bs' qs = entries sb bs qs"
      by (rule chain_agree [OF agree_sub [OF a] c]; use True in \<open>simp add: t_def\<close>)+
    moreover have "rec_ok sb bs' t" using t by (simp add: rec_ok_def tail_ok_def t_def)
    ultimately show ?thesis using b a t tok True tb
      by (simp add: dir_block_def ps chain_mid_iff agree_def) (simp add: tail_ok_def t_def)
  qed
  then show "dir_block sb bs' ps" "entries sb bs' ps = entries sb bs ps" by simp_all
qed

section \<open>The insertion\<close>

definition round4 :: "nat \<Rightarrow> nat" where
  "round4 n = 4 * ((n + 3) div 4)"

lemma round4_bounds: "n \<le> round4 n" "round4 n mod 4 = 0" "round4 n \<le> n + 3"
  by (auto simp: round4_def)

lemma round4_le: "n \<le> m \<Longrightarrow> m mod 4 = 0 \<Longrightarrow> round4 n \<le> m"
  unfolding round4_def by presburger

lemma round4_step: "(if n mod 4 \<noteq> 0 then n + (4 - n mod 4) else n) = round4 n"
  unfolding round4_def by presburger

lemma u16_round_up:
  assumes "unat (l :: u16) \<le> 65532"
  shows "unat (if l mod 4 \<noteq> 0 then l + (4 - l mod 4) else l) = round4 (unat l)"
proof -
  have m: "unat (l mod 4) = unat l mod 4" "l mod 4 \<le> 4"
    by (simp_all add: unat_mod word_le_nat_alt)
  have "unat (4 - l mod 4) = 4 - unat l mod 4" using m by (simp add: unat_sub)
  moreover have "l mod 4 \<noteq> 0 \<longleftrightarrow> unat l mod 4 \<noteq> 0" using m(1) by (metis unat_eq_0)
  moreover have "unat l + (4 - unat l mod 4) < 65536" if "unat l mod 4 \<noteq> 0" using assms that by presburger
  ultimately show ?thesis unfolding round4_step [symmetric] by (simp add: unat_word_ariths)
qed

lemma unat_required_len: "length name \<le> 255 \<Longrightarrow> unat (required_len name) = 8 + round4 (length name)"
proof -
  assume n: "length name \<le> 255"
  define l :: u16 where "l = ucast (8 + of_nat (length name) :: u32)"
  have l: "unat l = 8 + length name" using n by (simp add: l_def unat_ucast_mod unat_word_ariths unat_of_nat)
  have "unat (required_len name) = round4 (8 + length name)"
    unfolding required_len_def Let_def l_def [symmetric] l [symmetric] by (rule u16_round_up) (use l n in simp)
  then show ?thesis unfolding round4_def by presburger
qed

lemma used_size_round: "used_size n = (if n mod 4 \<noteq> 0 then 8 + (n + (4 - n mod 4)) else 8 + n)"
  by (simp add: used_size_def Let_def algebra_simps)

lemma unat_used_size: "n \<le> 65524 \<Longrightarrow> unat (used_size (of_nat n)) = 8 + round4 n"
proof -
  assume n: "n \<le> 65524"
  then have u: "unat (of_nat n :: u16) = n" by (simp add: unat_of_nat)
  have r: "unat (if (of_nat n :: u16) mod 4 \<noteq> 0 then of_nat n + (4 - of_nat n mod 4) else of_nat n :: u16) = round4 n"
    using u16_round_up [of "of_nat n"] n by (simp add: u)
  have "used_size (of_nat n) = 8 + (if (of_nat n :: u16) mod 4 \<noteq> 0 then of_nat n + (4 - of_nat n mod 4) else of_nat n)"
    by (simp add: used_size_round)
  moreover have "8 + round4 n < 65536" using n round4_bounds(3) [of n] by simp
  ultimately show ?thesis using r by (simp add: unat_word_ariths del: of_nat_numeral)
qed

definition slot_type :: "ext4_sblock \<Rightarrow> bytes \<Rightarrow> nat \<Rightarrow> u8" where
  "slot_type sb bs p = (if long_names sb then EXT4_DE_UNKNOWN else bs ! (p + 7))"

text \<open>The record at \<open>p\<close> can take an entry with this name.\<close>

definition room_at :: "ext4_sblock \<Rightarrow> bytes \<Rightarrow> bytes \<Rightarrow> nat \<Rightarrow> bool" where
  "room_at sb bs name p \<longleftrightarrow>
     (if en_ino bs p = 0 then slot_type sb bs p \<noteq> EXT4_DIRENTRY_DIR_CSUM \<and> 8 + round4 (length name) \<le> en_len bs p
      else 8 + round4 (en_nlen sb bs p) + (8 + round4 (length name)) \<le> en_len bs p)"

definition insert_at :: "ext4_sblock \<Rightarrow> u32 \<Rightarrow> u32 \<Rightarrow> u32 \<Rightarrow> ext4_inode \<Rightarrow> bytes \<Rightarrow> bytes \<Rightarrow> nat \<Rightarrow> bytes option" where
  "insert_at sb dir gen index child name bs p =
     (if en_ino bs p = 0
      then Option.bind (ext4_dir_write_entry sb bs p (get_le16 bs (p + 4)) index child name) (ext4_dir_set_csum sb dir gen)
      else let sz = used_size (of_nat (en_nlen sb bs p))
           in Option.bind (ext4_dir_en_set_entry_len bs p sz) (\<lambda>bs'.
              Option.bind (ext4_dir_write_entry sb bs' (p + unat sz) (get_le16 bs (p + 4) - sz) index child name)
                (ext4_dir_set_csum sb dir gen)))"

lemma used_size_le:
  assumes "rec_ok sb bs p" "en_ino bs p \<noteq> 0"
  shows "unat (used_size (of_nat (en_nlen sb bs p))) = 8 + round4 (en_nlen sb bs p)"
    "8 + round4 (en_nlen sb bs p) \<le> en_len bs p"
proof -
  have h: "8 + en_nlen sb bs p \<le> en_len bs p" "en_len bs p mod 4 = 0" using assms by (auto simp: rec_ok_def)
  then have "en_len bs p \<le> 65532" using en_len_lt [of bs p] by presburger
  then show "unat (used_size (of_nat (en_nlen sb bs p))) = 8 + round4 (en_nlen sb bs p)"
    using h by (intro unat_used_size) simp
  have "round4 (8 + en_nlen sb bs p) \<le> en_len bs p" by (rule round4_le [OF h])
  then show "8 + round4 (en_nlen sb bs p) \<le> en_len bs p" unfolding round4_def by presburger
qed

lemma en_type [simp]: "p + 8 \<le> length bs \<Longrightarrow> ext4_dir_en_get_inode_type sb bs p = Some (slot_type sb bs p)"
  by (simp add: ext4_dir_en_get_inode_type_def slot_type_def typed_iff)

lemma insert_walk_chain:
  assumes n: "length name \<le> 255" and e: "e \<le> length bs"
  shows "chain sb bs a ps e \<Longrightarrow> insert_walk sb dir gen index child name e bs a =
    (case find (room_at sb bs name) ps of None \<Rightarrow> Err ENOSPC
     | Some p \<Rightarrow> res_mem (insert_at sb dir gen index child name bs p) Ret)"
proof (induction ps arbitrary: a)
  case Nil
  then show ?case by (simp add: insert_walk.simps)
next
  case (Cons p ps)
  then have p: "a = p" and ok: "rec_ok sb bs p" and c: "chain sb bs (p + en_len bs p) ps e" by auto
  have le: "p + en_len bs p \<le> e" by (rule chain_le [OF c])
  have h: "8 \<le> en_len bs p" "en_len bs p mod 4 = 0" using ok by (auto simp: rec_ok_def)
  have b: "p + 8 \<le> e" "p + 8 \<le> length bs" using le h e by simp_all
  note IH = Cons.IH [OF c]
  have req: "required_len name \<le> w \<longleftrightarrow> 8 + round4 (length name) \<le> unat w" for w
    by (simp add: word_le_nat_alt unat_required_len [OF n])
  show ?case
  proof (cases "en_ino bs p = 0")
    case True
    then show ?thesis unfolding p using IH le h b
      by (subst insert_walk.simps) (simp add: len_tests req room_at_def [of sb bs name p] insert_at_def [of sb dir gen index child name bs p])
  next
    case False
    define sz where "sz = used_size (of_nat (en_nlen sb bs p))"
    have sz: "unat sz = 8 + round4 (en_nlen sb bs p)" "8 + round4 (en_nlen sb bs p) \<le> en_len bs p"
      using used_size_le [OF ok False] by (simp_all add: sz_def)
    have szle: "\<not> get_le16 bs (p + 4) < sz" using sz by (simp add: word_less_nat_alt len_tests)
    then have fr: "unat (get_le16 bs (p + 4) - sz) = en_len bs p - unat sz"
      by (simp add: unat_sub linorder_not_less len_tests)
    have sp: "split_entry sb dir gen index child name bs p (get_le16 bs (p + 4)) =
       (if room_at sb bs name p then res_mem (insert_at sb dir gen index child name bs p) (\<lambda>bs. Ret (Some bs)) else Ret None)"
      using b False szle sz(2) by (auto simp: split_entry_def res_mem_def sz_def [symmetric] req fr sz(1) room_at_def
        insert_at_def Let_def)
    show ?thesis unfolding p using IH le h b False
      by (subst insert_walk.simps) (auto simp: len_tests sp res_mem_def split: option.splits)
  qed
qed

text \<open>Replacing the records from \<open>a\<close> to \<open>b\<close> by records that tile the same bytes.\<close>

lemma replace_slots:
  assumes d: "dir_block sb bs (xs @ qs @ ys)" and y: "csums sb \<Longrightarrow> ys \<noteq> []"
    and c: "chain sb bs 0 xs a" "chain sb bs b ys (bsize sb)"
    and a: "agree bs bs' 0 a" "agree bs bs' b (bsize sb)"
    and r: "chain sb bs' a rs b"
  shows "dir_block sb bs' (xs @ rs @ ys)"
    "entries sb bs' (xs @ rs @ ys) = entries sb bs xs @ entries sb bs' rs @ entries sb bs ys"
proof -
  have l: "length bs = bsize sb" using d by (auto simp: dir_block_def)
  have x: "chain sb bs' 0 xs a" "entries sb bs' xs = entries sb bs xs" using chain_agree [OF a(1) c(1)] .
  have ys: "chain sb bs' b ys (bsize sb)" "entries sb bs' ys = entries sb bs ys" using chain_agree [OF a(2) c(2)] .
  have t: "tail_ok sb bs'" "last (xs @ rs @ ys) = dirent_tail sb" if cs: "csums sb"
  proof -
    have last: "last ys = dirent_tail sb" and tok: "tail_ok sb bs" using d y [OF cs] cs by (auto simp: dir_block_def)
    then have "dirent_tail sb \<in> set ys" using y [OF cs] last_in_set by metis
    then have "b \<le> dirent_tail sb" "dirent_tail sb + 8 \<le> bsize sb" by (rule chain_in [OF c(2)])+
    then show "tail_ok sb bs'" by (intro tail_agree [OF agree_sub [OF a(2)]] tok)
    show "last (xs @ rs @ ys) = dirent_tail sb" using y [OF cs] last by simp
  qed
  have "chain sb bs' 0 (xs @ rs @ ys) (bsize sb)" using x ys r by (auto simp: chain_append)
  then show "dir_block sb bs' (xs @ rs @ ys)" using t y l a(1) by (auto simp: dir_block_def agree_def)
  show "entries sb bs' (xs @ rs @ ys) = entries sb bs xs @ entries sb bs' rs @ entries sb bs ys"
    using x ys by simp
qed

lemma replace_slot:
  assumes b: "dir_block sb bs (xs @ p # ys)" and y: "csums sb \<Longrightarrow> ys \<noteq> []"
    and a: "agree bs bs' 0 p" "agree bs bs' (p + en_len bs p) (bsize sb)"
    and r: "chain sb bs' p rs (p + en_len bs p)"
  shows "dir_block sb bs' (xs @ rs @ ys)"
    "entries sb bs' (xs @ rs @ ys) = entries sb bs xs @ entries sb bs' rs @ entries sb bs ys"
proof -
  have c: "chain sb bs 0 (xs @ p # ys) (bsize sb)" using b by (auto simp: dir_block_def)
  note s = replace_slots [of sb bs xs "[p]" ys, simplified, OF b y chain_mid(1,3) [OF c] a r]
  show "dir_block sb bs' (xs @ rs @ ys)"
    "entries sb bs' (xs @ rs @ ys) = entries sb bs xs @ entries sb bs' rs @ entries sb bs ys"
    using s by simp_all
qed

lemma room_not_tail:
  assumes sb: "dir_sb sb" and b: "dir_block sb bs (xs @ p # ys)" and r: "en_ino bs p \<noteq> 0 \<or> room_at sb bs name p" and cs: "csums sb"
  shows "ys \<noteq> []"
proof
  assume "ys = []"
  then have "p = dirent_tail sb" "tail_ok sb bs" using b cs by (auto simp: dir_block_def)
  then show False using r sb cs by (auto simp: room_at_def tail_ok_def slot_type_def dir_sb_def)
qed

text \<open>The records that take the place of the one at \<open>p\<close>, before the checksum is stamped.\<close>

lemma reuse_slot:
  assumes b: "dir_block sb bs (xs @ p # ys)" and r: "room_at sb bs name p" and n: "length name \<le> 255" and z: "en_ino bs p = 0"
  obtains bs' where "ext4_dir_write_entry sb bs p (get_le16 bs (p + 4)) index child name = Some bs'"
    "agree bs bs' 0 p" "agree bs bs' (p + en_len bs p) (bsize sb)" "chain sb bs' p [p] (p + en_len bs p)"
    "index \<noteq> 0 \<Longrightarrow> entries sb bs' [p] = [(name, index)]"
proof -
  have c: "chain sb bs 0 (xs @ p # ys) (bsize sb)" and l: "length bs = bsize sb" using b by (auto simp: dir_block_def)
  note m = chain_mid [OF c]
  have room: "8 + round4 (length name) \<le> en_len bs p" using r z by (simp add: room_at_def)
  then have fit: "8 + length name \<le> en_len bs p" using round4_bounds(1) [of "length name"] by simp
  obtain bs' where w: "ext4_dir_write_entry sb bs p (get_le16 bs (p + 4)) index child name = Some bs'"
    "length bs' = length bs" "en_ino bs' p = index" "en_len bs' p = unat (get_le16 bs (p + 4))"
    "en_nlen sb bs' p = length name" "en_name sb bs' p = name" "agree bs bs' 0 p"
    "agree bs bs' (p + 8 + length name) (length bs)"
    by (rule write_entry_ok [of p name bs "get_le16 bs (p + 4)" sb index child])
      (use fit m(5) l n in \<open>simp_all add: word_le_nat_alt len_tests\<close>)
  show ?thesis
  proof (rule that [OF w(1,7)])
    show "agree bs bs' (p + en_len bs p) (bsize sb)" by (rule agree_sub [OF w(8)]) (use fit l in simp_all)
    show "chain sb bs' p [p] (p + en_len bs p)" using m(2) fit w(3-5) by (simp add: rec_ok_def len_tests)
    show "index \<noteq> 0 \<Longrightarrow> entries sb bs' [p] = [(name, index)]" using w(3,6) by simp
  qed
qed

lemma split_slot:
  assumes b: "dir_block sb bs (xs @ p # ys)" and r: "room_at sb bs name p" and n: "length name \<le> 255" and z: "en_ino bs p \<noteq> 0"
    and sz: "sz = used_size (of_nat (en_nlen sb bs p))"
  obtains bs1 bs' where "ext4_dir_en_set_entry_len bs p sz = Some bs1"
    "ext4_dir_write_entry sb bs1 (p + unat sz) (get_le16 bs (p + 4) - sz) index child name = Some bs'"
    "agree bs bs' 0 p" "agree bs bs' (p + en_len bs p) (bsize sb)" "chain sb bs' p [p, p + unat sz] (p + en_len bs p)"
    "index \<noteq> 0 \<Longrightarrow> entries sb bs' [p, p + unat sz] = [(en_name sb bs p, en_ino bs p), (name, index)]"
proof -
  have c: "chain sb bs 0 (xs @ p # ys) (bsize sb)" and l: "length bs = bsize sb" using b by (auto simp: dir_block_def)
  note m = chain_mid [OF c]
  have s: "unat sz = 8 + round4 (en_nlen sb bs p)" using used_size_le [OF m(2) z] sz by simp
  have room: "unat sz + (8 + round4 (length name)) \<le> en_len bs p" using r z s by (simp add: room_at_def)
  then have fit: "unat sz + 8 + length name \<le> en_len bs p" using round4_bounds(1) [of "length name"] by simp
  have nl: "8 + en_nlen sb bs p \<le> unat sz" using s round4_bounds(1) [of "en_nlen sb bs p"] by simp
  have fr: "unat (get_le16 bs (p + 4) - sz) = en_len bs p - unat sz"
    using room by (simp add: unat_sub word_le_nat_alt len_tests)
  define bs1 where "bs1 = put_bytes bs (p + 4) (le16 sz)"
  define q where "q = p + unat sz"
  have e1: "ext4_dir_en_set_entry_len bs p sz = Some bs1" and l1: "length bs1 = length bs"
    using m(5) fit l by (simp_all add: ext4_dir_en_set_entry_len_def bs1_def)
  have h1: "en_ino bs1 p = en_ino bs p" "en_len bs1 p = unat sz" "en_nlen sb bs1 p = en_nlen sb bs p"
    using m(5) fit l by (simp_all add: bs1_def en_ino_def en_len_def en_nlen_def get_le32_put_other get_le16_put nth_put_bytes)
  have nm1: "en_name sb bs1 p = en_name sb bs p"
    unfolding en_name_def h1 unfolding bs1_def by (rule take_drop_put_other) (use m(5) fit nl l in simp_all)
  have ok1: "rec_ok sb bs1 p" using nl s by (simp add: rec_ok_def h1 round4_def)
  obtain bs' where w: "ext4_dir_write_entry sb bs1 q (get_le16 bs (p + 4) - sz) index child name = Some bs'"
    "length bs' = length bs1" "en_ino bs' q = index" "en_len bs' q = unat (get_le16 bs (p + 4) - sz)"
    "en_nlen sb bs' q = length name" "en_name sb bs' q = name" "agree bs1 bs' 0 q"
    "agree bs1 bs' (q + 8 + length name) (length bs1)"
    by (rule write_entry_ok [of q name bs1 "get_le16 bs (p + 4) - sz" sb index child])
      (use fit m(5) l l1 n in \<open>simp_all add: word_le_nat_alt fr q_def\<close>)
  have ap: "agree bs1 bs' p (p + en_len bs1 p)" by (rule agree_sub [OF w(7)]) (simp_all add: h1 q_def)
  note r1 = agree_rec [OF ap ok1]
  have a1: "agree bs bs1 0 p" "agree bs bs1 (p + en_len bs p) (bsize sb)"
    unfolding bs1_def by (rule agree_put; use m(5) fit l in simp)+
  have a2: "agree bs1 bs' 0 p" "agree bs1 bs' (p + en_len bs p) (bsize sb)"
    using agree_sub [OF w(7), of 0 p] agree_sub [OF w(8), of "p + en_len bs p" "bsize sb"] fit l l1 by (simp_all add: q_def)
  have wl: "en_len bs' q = en_len bs p - unat sz" using w(4) fr by simp
  have "4 dvd en_len bs p" "4 dvd unat sz" using m(2) s by (auto simp: rec_ok_def round4_def mod_0_imp_dvd)
  then have "(en_len bs p - unat sz) mod 4 = 0" using dvd_diff_nat by fastforce
  moreover have "8 + length name \<le> en_len bs p - unat sz" using fit by linarith
  ultimately have okq: "rec_ok sb bs' q" by (simp add: rec_ok_def wl w(5))
  have lq: "q + en_len bs' q = p + en_len bs p" unfolding wl using fit by (simp add: q_def)
  show ?thesis
  proof (rule that [OF e1, of bs', folded q_def, OF w(1)])
    show "agree bs bs' 0 p" "agree bs bs' (p + en_len bs p) (bsize sb)" using agree_trans [OF a1(1) a2(1)] agree_trans [OF a1(2) a2(2)] .
    show "chain sb bs' p [p, q] (p + en_len bs p)" using r1 okq lq by (simp add: h1 q_def)
    show "index \<noteq> 0 \<Longrightarrow> entries sb bs' [p, q] = [(en_name sb bs p, en_ino bs p), (name, index)]"
      using r1 z w(3,6) by (simp add: h1 nm1)
  qed
qed

lemma insert_at_ok:
  assumes sb: "dir_sb sb" and b: "dir_block sb bs (xs @ p # ys)" and r: "room_at sb bs name p"
    and n: "length name \<le> 255" and i: "index \<noteq> 0"
  obtains bs' ps' vs ws where "insert_at sb dir gen index child name bs p = Some bs'" "dir_block sb bs' ps'"
    "ext4_dir_csum_verify sb dir gen bs' = Some True"
    "entries sb bs (xs @ p # ys) = vs @ ws" "entries sb bs' ps' = vs @ (name, index) # ws"
proof -
  note result = that
  have y: "csums sb \<Longrightarrow> ys \<noteq> []" using room_not_tail [OF sb b] r by blast
  have fin: thesis
    if w: "insert_at sb dir gen index child name bs p = ext4_dir_set_csum sb dir gen bs1"
      and a: "agree bs bs1 0 p" "agree bs bs1 (p + en_len bs p) (bsize sb)" and c: "chain sb bs1 p rs (p + en_len bs p)"
      and e: "entries sb bs1 rs = us @ [(name, index)]" "entries sb bs [p] = us"
    for bs1 rs us
  proof -
    note s = replace_slot [OF b y a c]
    have l: "length bs1 = bsize sb" "csums sb \<longrightarrow> tail_ok sb bs1" using s(1) by (auto simp: dir_block_def)
    obtain bs' where cs: "ext4_dir_set_csum sb dir gen bs1 = Some bs'" "length bs' = bsize sb"
      "agree bs1 bs' 0 (if csums sb then dirent_tail sb + 8 else bsize sb)" "ext4_dir_csum_verify sb dir gen bs' = Some True"
      by (rule set_csum_ok [OF sb l])
    have "insert_at sb dir gen index child name bs p = Some bs'" using w cs(1) by simp
    moreover note dir_block_agree [OF s(1) sb cs(3)]
    ultimately show thesis
      using result [of bs' "xs @ rs @ ys" "entries sb bs xs @ us" "entries sb bs ys"] cs(4) e s(2) by (simp split: if_splits)
  qed
  show thesis
  proof (cases "en_ino bs p = 0")
    case True
    obtain bs1 where w: "ext4_dir_write_entry sb bs p (get_le16 bs (p + 4)) index child name = Some bs1"
      "agree bs bs1 0 p" "agree bs bs1 (p + en_len bs p) (bsize sb)" "chain sb bs1 p [p] (p + en_len bs p)"
      "entries sb bs1 [p] = [(name, index)]"
      using reuse_slot [OF b r n True, of index child] i by metis
    show thesis by (rule fin [OF _ w(2,3,4), of "[]"]) (use True w(1) w(5) in \<open>simp_all add: insert_at_def\<close>)
  next
    case False
    define sz where "sz = used_size (of_nat (en_nlen sb bs p))"
    obtain bs1 bs2 where w: "ext4_dir_en_set_entry_len bs p sz = Some bs1"
      "ext4_dir_write_entry sb bs1 (p + unat sz) (get_le16 bs (p + 4) - sz) index child name = Some bs2"
      "agree bs bs2 0 p" "agree bs bs2 (p + en_len bs p) (bsize sb)" "chain sb bs2 p [p, p + unat sz] (p + en_len bs p)"
      "entries sb bs2 [p, p + unat sz] = [(en_name sb bs p, en_ino bs p), (name, index)]"
      using split_slot [OF b r n False sz_def, of index child] i by metis
    show thesis
      by (rule fin [OF _ w(3,4,5), of "[(en_name sb bs p, en_ino bs p)]"])
        (use False w(1,2) w(6) in \<open>simp_all add: insert_at_def sz_def [symmetric] del: entries_simps(3)\<close>,
         use False in simp)
  qed
qed

lemma try_insert_eq:
  assumes "dir_block sb bs ps" "length name \<le> 255"
  shows "ext4_dir_try_insert_entry sb dir gen bs index child name =
    (case find (room_at sb bs name) ps of None \<Rightarrow> Err ENOSPC
     | Some p \<Rightarrow> res_mem (insert_at sb dir gen index child name bs p) Ret)"
  using assms insert_walk_chain [of name "bsize sb" bs sb 0 ps]
  by (simp add: ext4_dir_try_insert_entry_def dir_block_def)

lemma try_insert_cases:
  assumes sb: "dir_sb sb" and b: "dir_block sb bs ps" and n: "length name \<le> 255" and i: "index \<noteq> 0"
  obtains (full) "ext4_dir_try_insert_entry sb dir gen bs index child name = Err ENOSPC" "\<forall>p\<in>set ps. \<not> room_at sb bs name p"
  | (added) bs' ps' vs ws where "ext4_dir_try_insert_entry sb dir gen bs index child name = Ret bs'"
      "dir_block sb bs' ps'" "ext4_dir_csum_verify sb dir gen bs' = Some True"
      "entries sb bs ps = vs @ ws" "entries sb bs' ps' = vs @ (name, index) # ws" "\<exists>p\<in>set ps. room_at sb bs name p"
proof (cases "find (room_at sb bs name) ps")
  case None
  then have "\<forall>p\<in>set ps. \<not> room_at sb bs name p" by (simp add: find_None_iff)
  then show ?thesis using full None try_insert_eq [OF b n] by simp
next
  case (Some p)
  then have r: "room_at sb bs name p" "p \<in> set ps" by (auto simp: find_Some_iff)
  then obtain xs ys where ps: "ps = xs @ p # ys" by (auto dest: split_list)
  obtain bs' ps' vs ws where w: "insert_at sb dir gen index child name bs p = Some bs'" "dir_block sb bs' ps'"
    "ext4_dir_csum_verify sb dir gen bs' = Some True"
    "entries sb bs (xs @ p # ys) = vs @ ws" "entries sb bs' ps' = vs @ (name, index) # ws"
    by (rule insert_at_ok [OF sb b [unfolded ps] r(1) n i])
  show ?thesis by (rule added [OF _ w(2,3), of vs ws]) (use Some w r try_insert_eq [OF b n] in \<open>auto simp: res_mem_def ps\<close>)
qed

section \<open>The removal\<close>

text \<open>Only the lengths of the records on the way matter to the walk to the predecessor.\<close>

fun lens :: "bytes \<Rightarrow> nat \<Rightarrow> nat list \<Rightarrow> nat \<Rightarrow> bool" where
  "lens bs a [] e \<longleftrightarrow> a = e"
| "lens bs a (p # ps) e \<longleftrightarrow> p = a \<and> 8 \<le> en_len bs p \<and> lens bs (p + en_len bs p) ps e"

lemma lens_le: "lens bs a ps e \<Longrightarrow> a \<le> e"
  by (induction ps arbitrary: a) force+

lemma chain_lens: "chain sb bs a ps e \<Longrightarrow> lens bs a ps e"
  by (induction ps arbitrary: a) (auto simp: rec_ok_def)

lemma lens_agree: "agree bs bs' a e \<Longrightarrow> lens bs a ps e \<Longrightarrow> lens bs' a ps e"
proof (induction ps arbitrary: a)
  case (Cons p ps)
  then have p: "p = a" "8 \<le> en_len bs p" and c: "lens bs (p + en_len bs p) ps e" by auto
  note le = lens_le [OF c]
  have "en_len bs' p = en_len bs p" by (rule agree_head, rule agree_sub [OF Cons.prems(1)]) (use p le in simp_all)
  moreover have "lens bs' (p + en_len bs p) ps e"
    by (rule Cons.IH [OF agree_sub [OF Cons.prems(1)] c]) (use p in simp_all)
  ultimately show ?case using p by simp
qed simp

lemma last_lens: "lens bs a ps e \<Longrightarrow> ps \<noteq> [] \<Longrightarrow> last ps + en_len bs (last ps) = e"
  by (induction ps arbitrary: a) (auto split: if_splits)

lemma last_lens_ge: "lens bs a ps e \<Longrightarrow> ps \<noteq> [] \<Longrightarrow> 8 \<le> en_len bs (last ps)"
  by (induction ps arbitrary: a) (auto split: if_splits)

lemma pred_walk_lens:
  "lens bs a ps pos \<Longrightarrow> ps \<noteq> [] \<Longrightarrow> pos + 8 \<le> length bs \<Longrightarrow>
     pred_walk pos bs a = Ret (last ps, get_le16 bs (last ps + 4))"
proof (induction ps arbitrary: a)
  case (Cons p ps)
  then have p: "a = p" "8 \<le> en_len bs p" and c: "lens bs (p + en_len bs p) ps pos" by auto
  note le = lens_le [OF c]
  have h: "ext4_dir_en_get_entry_len bs p = Some (get_le16 bs (p + 4))" using le Cons.prems(3) by simp
  show ?case
  proof (cases "ps = []")
    case True
    then show ?thesis unfolding p(1) using c by (subst pred_walk.simps) (simp add: h len_tests)
  next
    case False
    then obtain q qs where "ps = q # qs" by (cases ps) auto
    then have "p + en_len bs p < pos" using c lens_le [of bs "q + en_len bs q" qs pos] by auto
    moreover have "get_le16 bs (p + 4) \<noteq> 0" using p(2) by (auto simp: en_len_def)
    ultimately show ?thesis unfolding p(1) using Cons.IH [OF c False Cons.prems(3)] False
      by (subst pred_walk.simps) (simp add: h len_tests)
  qed
qed simp

text \<open>The search has followed the same lengths, whatever the bytes are.\<close>

lemma find_walk_lens:
  "find_walk sb e name bs a = Ret p \<Longrightarrow> e \<le> length bs \<Longrightarrow> p + 8 \<le> e \<and> (\<exists>ps. lens bs a ps p)"
proof (induction sb e name bs a rule: find_walk.induct)
  case (1 sb e name bs a)
  have a: "a + 8 \<le> e" using 1(2) by (subst (asm) find_walk.simps) (simp split: if_splits)
  obtain found where m: "entry_matches sb e name bs a = Ret found"
    using 1(2) a by (subst (asm) find_walk.simps) (simp split: fsres.splits)
  have h: "ext4_dir_en_get_entry_len bs a = Some (get_le16 bs (a + 4))" using a 1(3) by simp
  show ?case
  proof (cases found)
    case True
    then have "p = a" using 1(2) a m by (subst (asm) find_walk.simps) simp
    then show ?thesis using a by (auto intro: exI [of _ "[]"])
  next
    case False
    have g: "\<not> (get_le16 bs (a + 4) < 8 \<or> get_le16 bs (a + 4) mod 4 \<noteq> 0 \<or> e < a + unat (get_le16 bs (a + 4)))"
      using 1(2) a m h False by (subst (asm) find_walk.simps) (simp split: if_splits)
    have w: "find_walk sb e name bs (a + unat (get_le16 bs (a + 4))) = Ret p"
      using 1(2) a m h False g by (subst (asm) find_walk.simps) simp
    obtain ps where "p + 8 \<le> e" "lens bs (a + en_len bs a) ps p"
      using 1(1) [OF _ _ m False h g w 1(3)] a by (auto simp: len_tests)
    then show ?thesis using g by (auto simp: len_tests intro: exI [of _ "a # ps"])
  qed
qed

lemma set_csum_total:
  assumes "12 \<le> bsize sb" "length bs = bsize sb"
  obtains bs' where "ext4_dir_set_csum sb dir gen bs = Some bs'" "length bs' = bsize sb"
proof -
  have "\<exists>bs'. ext4_dir_set_csum sb dir gen bs = Some bs' \<and> length bs' = bsize sb"
    using assms dirent_tail [of sb] by (simp add: ext4_dir_set_csum_def ext4_dir_get_tail_def Let_def)
  then show ?thesis using that by blast
qed

lemma put_head:
  assumes "p + 8 \<le> length bs"
  shows "en_ino (put_bytes bs p (le32 v)) p = v" "en_len (put_bytes bs p (le32 v)) p = en_len bs p"
    "en_len (put_bytes bs (p + 4) (le16 w)) p = unat w" "en_ino (put_bytes bs (p + 4) (le16 w)) p = en_ino bs p"
    "en_nlen sb (put_bytes bs (p + 4) (le16 w)) p = en_nlen sb bs p"
  using assms by (simp_all add: en_ino_def en_len_def en_nlen_def get_le32_put get_le16_put get_le32_put_other
      get_le16_put_other nth_put_bytes)

lemma put_len_name:
  assumes "p + 8 + en_nlen sb bs p \<le> length bs"
  shows "en_name sb (put_bytes bs (p + 4) (le16 w)) p = en_name sb bs p"
proof -
  have h: "p + 8 \<le> length bs" using assms by simp
  show ?thesis unfolding en_name_def put_head(5) [OF h] by (rule take_drop_put_other) (use assms in simp_all)
qed

text \<open>The bytes after an entry is taken out of the chain, before the checksum is stamped.\<close>

definition unlinked :: "bytes \<Rightarrow> nat list \<Rightarrow> nat \<Rightarrow> bytes" where
  "unlinked bs xs p = (let bs1 = put_bytes bs p (le32 0)
     in if xs = [] then bs1
        else put_bytes bs1 (last xs + 4) (le16 (get_le16 bs (last xs + 4) + get_le16 bs (p + 4))))"

lemma remove_in_block_eq:
  assumes c: "lens bs 0 xs p" and p: "p + 8 \<le> length bs"
  shows "remove_in_block sb dir gen bs p = map_option (Pair EOK) (ext4_dir_set_csum sb dir gen (unlinked bs xs p))"
proof -
  define bs1 where "bs1 = put_bytes bs p (le32 0)"
  have l1: "length bs1 = length bs" using p by (simp add: bs1_def)
  have s1: "ext4_dir_en_set_inode bs p 0 = Some bs1" using p by (simp add: ext4_dir_en_set_inode_def bs1_def)
  show ?thesis
  proof (cases "xs = []")
    case True
    then show ?thesis using c s1 by (simp add: remove_in_block_def unlinked_def bs1_def)
  next
    case False
    have a: "agree bs bs1 0 p" unfolding bs1_def by (rule agree_put) (use p in simp_all)
    note c1 = lens_agree [OF a c]
    have w: "pred_walk p bs1 0 = Ret (last xs, get_le16 bs1 (last xs + 4))"
      by (rule pred_walk_lens [OF c1 False]) (use p l1 in simp)
    note q = last_lens [OF c1 False]
    have in8: "last xs + 8 \<le> p" using q last_lens_ge [OF c1 False] by simp
    have g: "get_le16 bs1 (last xs + 4) = get_le16 bs (last xs + 4)" "get_le16 bs1 (p + 4) = get_le16 bs (p + 4)"
      using in8 p by (simp_all add: bs1_def get_le16_put_other)
    have "p \<noteq> 0" using in8 by simp
    then show ?thesis using False s1 w in8 p l1 g
      by (simp add: remove_in_block_def ext4_dir_en_set_entry_len_def unlinked_def Let_def bs1_def [symmetric])
  qed
qed

lemma length_unlinked:
  assumes "lens bs 0 xs p" "p + 8 \<le> length bs"
  shows "length (unlinked bs xs p) = length bs"
proof (cases "xs = []")
  case False
  then have "last xs + 8 \<le> p" using last_lens last_lens_ge assms(1) by fastforce
  then show ?thesis using assms(2) by (simp add: unlinked_def Let_def)
qed (use assms(2) in \<open>simp add: unlinked_def\<close>)

text \<open>The removal of an entry that the search found succeeds and never leaves the buffer, also on a block
  that is not well-formed.\<close>

lemma remove_found:
  assumes b: "12 \<le> bsize sb" "length bs = bsize sb" and f: "ext4_dir_find_in_block sb name bs = Ret pos"
  obtains bs' where "remove_in_block sb dir gen bs pos = Some (EOK, bs')" "length bs' = bsize sb"
proof -
  have p: "pos + 8 \<le> length bs" and "\<exists>ps. lens bs 0 ps pos"
    using find_walk_lens [OF f [unfolded ext4_dir_find_in_block_def]] b(2) by auto
  then obtain ps where ps: "lens bs 0 ps pos" by auto
  have l: "length (unlinked bs ps pos) = bsize sb" using length_unlinked [OF ps p] b(2) by simp
  obtain bs' where "ext4_dir_set_csum sb dir gen (unlinked bs ps pos) = Some bs'" "length bs' = bsize sb"
    by (rule set_csum_total [OF b(1) l])
  then show thesis using that remove_in_block_eq [OF ps p] by simp
qed

lemma unlinked_first:
  assumes b: "dir_block sb bs (p # ys)" and y: "csums sb \<Longrightarrow> ys \<noteq> []"
  shows "dir_block sb (unlinked bs [] p) (p # ys)" "entries sb (unlinked bs [] p) (p # ys) = entries sb bs ys"
proof -
  have c: "chain sb bs 0 ([] @ p # ys) (bsize sb)" and l: "length bs = bsize sb" using b by (auto simp: dir_block_def)
  note m = chain_mid [OF c]
  have h: "p + 8 \<le> length bs" "8 \<le> en_len bs p" using m(2,5) l by (auto simp: rec_ok_def)
  define bs' where "bs' = unlinked bs [] p"
  have f: "en_ino bs' p = 0" "en_len bs' p = en_len bs p" using put_head(1,2) [OF h(1)] by (simp_all add: bs'_def unlinked_def)
  have a: "agree bs bs' 0 p" "agree bs bs' (p + en_len bs p) (bsize sb)"
    unfolding bs'_def unlinked_def by (simp_all, (rule agree_put; use h l in simp)+)
  have r: "chain sb bs' p [p] (p + en_len bs p)" using f m(2) by (simp add: rec_ok_def)
  show "dir_block sb (unlinked bs [] p) (p # ys)" "entries sb (unlinked bs [] p) (p # ys) = entries sb bs ys"
    using replace_slot [of sb bs "[]" p ys bs' "[p]"] b y a r f by (simp_all add: bs'_def [symmetric])
qed

lemma merged_no_wrap:
  assumes sb: "dir_sb sb" and b: "dir_block sb bs (us @ q # p # ys)" and y: "csums sb \<Longrightarrow> ys \<noteq> []"
  shows "unat (get_le16 bs (q + 4) + get_le16 bs (p + 4)) = en_len bs q + en_len bs p"
proof -
  have c: "chain sb bs 0 (us @ q # p # ys) (bsize sb)" using b by (simp add: dir_block_def)
  then have n: "chain sb bs (q + en_len bs q + en_len bs p) ys (bsize sb)" by (auto simp: chain_append)
  have "en_len bs q + en_len bs p < 65536"
  proof (cases "csums sb")
    case True
    then have "dirent_tail sb \<in> set ys" using b y by (metis append_is_Nil_conv dir_block_def last_ConsR last_appendR last_in_set list.distinct(1))
    then have "q + en_len bs q + en_len bs p + 8 \<le> bsize sb" using chain_in(2,4) [OF n] by fastforce
    then show ?thesis using sb True by (simp add: dir_sb_def)
  next
    case False
    then show ?thesis using chain_le [OF n] sb by (simp add: dir_sb_def)
  qed
  then show ?thesis by (simp add: unat_word_ariths len_tests)
qed

lemma unlinked_merged:
  assumes sb: "dir_sb sb" and b: "dir_block sb bs (us @ q # p # ys)" and y: "csums sb \<Longrightarrow> ys \<noteq> []"
  shows "dir_block sb (unlinked bs (us @ [q]) p) (us @ q # ys)"
    "entries sb (unlinked bs (us @ [q]) p) (us @ q # ys) = entries sb bs (us @ [q]) @ entries sb bs ys"
proof -
  have c: "chain sb bs 0 (us @ q # p # ys) (bsize sb)" and l: "length bs = bsize sb" using b by (auto simp: dir_block_def)
  note m = chain_mid [OF c]
  have pq: "p = q + en_len bs q" "rec_ok sb bs p" "chain sb bs (p + en_len bs p) ys (bsize sb)" using m(3) by auto
  note le = chain_le [OF pq(3)]
  have h: "8 \<le> en_len bs q" "8 \<le> en_len bs p" "en_len bs q mod 4 = 0" "en_len bs p mod 4 = 0"
    "en_ino bs q \<noteq> 0 \<longrightarrow> 8 + en_nlen sb bs q \<le> en_len bs q"
    using m(2) pq(2) by (auto simp: rec_ok_def)
  define w where "w = get_le16 bs (q + 4) + get_le16 bs (p + 4)"
  define bs1 where "bs1 = put_bytes bs p (le32 0)"
  define bs' where "bs' = put_bytes bs1 (q + 4) (le16 w)"
  have u: "unlinked bs (us @ [q]) p = bs'" by (simp add: unlinked_def bs'_def bs1_def w_def)
  have wl: "unat w = en_len bs q + en_len bs p" using merged_no_wrap [OF sb b y] by (simp add: w_def)
  have l1: "length bs1 = length bs" using le l h by (simp add: bs1_def)
  have a1: "agree bs bs1 0 p" "agree bs bs1 (p + en_len bs p) (bsize sb)"
    unfolding bs1_def by (rule agree_put; use h le l in simp)+
  have q1: "q + 8 \<le> length bs1" using le h l l1 pq(1) by simp
  have e1: "en_ino bs1 q = en_ino bs q" "en_nlen sb bs1 q = en_nlen sb bs q"
    by (rule agree_head, rule agree_sub [OF a1(1)], use h pq in simp_all)+
  have n1: "en_name sb bs1 q = en_name sb bs q" if "en_ino bs q \<noteq> 0"
    by (rule agree_name, rule agree_sub [OF a1(1)]) (use h pq that in simp_all)
  have f: "en_ino bs' q = en_ino bs q" "en_len bs' q = en_len bs q + en_len bs p" "en_nlen sb bs' q = en_nlen sb bs q"
    using put_head(3-5) [OF q1] e1 wl by (simp_all add: bs'_def)
  have n: "en_name sb bs' q = en_name sb bs q" if "en_ino bs q \<noteq> 0"
    using put_len_name [of q sb bs1 w] n1 that h le l l1 pq e1 by (simp add: bs'_def)
  have a: "agree bs bs' 0 q" "agree bs bs' (p + en_len bs p) (bsize sb)"
    using agree_trans [OF agree_sub [OF a1(1), of 0 q] agree_put [of "q + 4" "le16 w" bs1 q 0]]
      agree_trans [OF a1(2) agree_put [of "q + 4" "le16 w" bs1 "bsize sb" "p + en_len bs p"]]
      q1 pq h l l1 by (simp_all add: bs'_def)
  have "(en_len bs q + en_len bs p) mod 4 = 0" using h(3,4) by presburger
  then have r: "chain sb bs' q [q] (p + en_len bs p)" using f h pq(1) by (auto simp: rec_ok_def)
  note s = replace_slots [of sb bs us "[q, p]" ys q "p + en_len bs p" bs' "[q]"]
  show "dir_block sb (unlinked bs (us @ [q]) p) (us @ q # ys)"
    "entries sb (unlinked bs (us @ [q]) p) (us @ q # ys) = entries sb bs (us @ [q]) @ entries sb bs ys"
    using s b y m(1) pq(3) a r f n by (simp_all add: u)
qed

lemma remove_ok:
  assumes sb: "dir_sb sb" and b: "dir_block sb bs (xs @ p # ys)" and i: "en_ino bs p \<noteq> 0"
  obtains bs' ps' where "remove_in_block sb dir gen bs p = Some (EOK, bs')" "dir_block sb bs' ps'"
    "ext4_dir_csum_verify sb dir gen bs' = Some True" "entries sb bs' ps' = entries sb bs xs @ entries sb bs ys"
proof -
  have c: "chain sb bs 0 (xs @ p # ys) (bsize sb)" and l: "length bs = bsize sb" using b by (auto simp: dir_block_def)
  have y: "csums sb \<Longrightarrow> ys \<noteq> []" using room_not_tail [OF sb b] i by blast
  have p8: "p + 8 \<le> length bs" using chain_in(4) [OF c, of p] l by simp
  define bs1 where "bs1 = unlinked bs xs p"
  obtain ps where u: "dir_block sb bs1 ps" "entries sb bs1 ps = entries sb bs xs @ entries sb bs ys"
  proof (cases xs rule: rev_cases)
    case Nil
    then show thesis using unlinked_first [of sb bs p ys] b y that [of "p # ys"] by (simp add: bs1_def)
  next
    case (snoc us q)
    then show thesis using unlinked_merged [of sb bs us q p ys] sb b y that [of "us @ q # ys"] by (simp add: bs1_def)
  qed
  have l1: "length bs1 = bsize sb" "csums sb \<longrightarrow> tail_ok sb bs1" using u(1) by (auto simp: dir_block_def)
  obtain bs' where s: "ext4_dir_set_csum sb dir gen bs1 = Some bs'" "length bs' = bsize sb"
    "agree bs1 bs' 0 (if csums sb then dirent_tail sb + 8 else bsize sb)" "ext4_dir_csum_verify sb dir gen bs' = Some True"
    by (rule set_csum_ok [OF sb l1])
  note d = dir_block_agree [OF u(1) sb s(3)]
  show thesis
    by (rule that [OF _ d(1) s(4)])
      (use remove_in_block_eq [OF chain_lens [OF chain_mid(1) [OF c]] p8] s(1) d(2) u(2) in \<open>simp_all add: bs1_def\<close>)
qed

section \<open>Any bytes\<close>

lemma entry_matches_safe:
  "de + 8 \<le> e \<Longrightarrow> e \<le> length bs \<Longrightarrow> entry_matches sb e name bs de \<noteq> Crash"
  by (auto simp: entry_matches_def res_mem_def)

lemma find_walk_safe:
  assumes "e \<le> length bs"
  shows "find_walk sb e name bs a \<noteq> Crash"
proof (induction "e - a" arbitrary: a rule: less_induct)
  case less
  define n where "n = get_le16 bs (a + 4)"
  show ?case
  proof (cases "a + 8 \<le> e")
    case True
    then have h: "ext4_dir_en_get_entry_len bs a = Some n" using assms by (simp add: n_def)
    show ?thesis
    proof (cases "entry_matches sb e name bs a = Ret False \<and> \<not> (n < 8 \<or> n mod 4 \<noteq> 0 \<or> e < a + unat n)")
      case go: True
      have "find_walk sb e name bs (a + unat n) \<noteq> Crash"
        by (rule less) (use go True in \<open>auto simp: word_less_nat_alt\<close>)
      then show ?thesis using go True h by (subst find_walk.simps) simp
    next
      case False
      then show ?thesis using True h entry_matches_safe [OF True assms, of sb name]
        by (subst find_walk.simps) (cases "entry_matches sb e name bs a", auto)
    qed
  next
    case False
    then show ?thesis by (subst find_walk.simps) auto
  qed
qed

text \<open>Writing an entry of length \<open>len\<close> and stamping the block.\<close>

lemma write_and_stamp:
  assumes "12 \<le> bsize sb" "length bs = bsize sb" "length name \<le> 255" "en + unat len \<le> bsize sb" "required_len name \<le> len"
  obtains bs' where "Option.bind (ext4_dir_write_entry sb bs en len index child name) (ext4_dir_set_csum sb dir gen) = Some bs'"
    "length bs' = bsize sb"
proof -
  have "8 + length name \<le> unat len"
    using assms(3,5) round4_bounds(1) [of "length name"] by (simp add: word_le_nat_alt unat_required_len)
  then obtain bs1 where w: "ext4_dir_write_entry sb bs en len index child name = Some bs1" "length bs1 = bsize sb"
    using write_entry_ok [of en name bs len sb index child] assms by (auto simp: word_le_nat_alt)
  obtain bs' where "ext4_dir_set_csum sb dir gen bs1 = Some bs'" "length bs' = bsize sb"
    by (rule set_csum_total [OF assms(1) w(2)])
  then show thesis using that w by simp
qed

lemma split_entry_safe:
  assumes b: "12 \<le> bsize sb" "length bs = bsize sb" "length name \<le> 255" and s: "start + 8 \<le> bsize sb"
    and r: "start + unat rec_len \<le> bsize sb"
  shows "split_entry sb dir gen index child name bs start rec_len \<noteq> Crash"
proof -
  define sz where "sz = used_size (of_nat (en_nlen sb bs start))"
  have h: "ext4_dir_en_get_name_len sb bs start = Some (of_nat (en_nlen sb bs start))" using s b by simp
  define bs1 where "bs1 = put_bytes bs (start + 4) (le16 sz)"
  have l: "ext4_dir_en_set_entry_len bs start sz = Some bs1" "length bs1 = bsize sb"
    using s b by (simp_all add: ext4_dir_en_set_entry_len_def bs1_def)
  show ?thesis
  proof (cases "\<not> rec_len < sz \<and> required_len name \<le> rec_len - sz")
    case True
    then have "start + unat sz + unat (rec_len - sz) \<le> bsize sb"
      using r by (simp add: unat_sub linorder_not_less word_le_nat_alt)
    then obtain bs' where "Option.bind (ext4_dir_write_entry sb bs1 (start + unat sz) (rec_len - sz) index child name)
        (ext4_dir_set_csum sb dir gen) = Some bs'"
      using write_and_stamp [OF b(1) l(2) b(3)] True by metis
    then show ?thesis using True by (simp add: split_entry_def h res_mem_def sz_def [symmetric] l(1) Let_def)
  next
    case False
    then show ?thesis by (auto simp: split_entry_def h res_mem_def sz_def [symmetric] Let_def)
  qed
qed

lemma insert_walk_safe:
  assumes b: "12 \<le> bsize sb" "length bs = bsize sb" "length name \<le> 255"
  shows "insert_walk sb dir gen index child name (bsize sb) bs a \<noteq> Crash"
proof (induction "bsize sb - a" arbitrary: a rule: less_induct)
  case less
  define n where "n = get_le16 bs (a + 4)"
  show ?case
  proof (cases "a + 8 \<le> bsize sb \<and> \<not> (n < 8 \<or> n mod 4 \<noteq> 0 \<or> bsize sb < a + unat n)")
    case True
    then have a: "a + 8 \<le> bsize sb" "a + 8 \<le> length bs" "8 \<le> unat n" "a + unat n \<le> bsize sb"
      using b by (auto simp: word_less_nat_alt)
    have IH: "insert_walk sb dir gen index child name (bsize sb) bs (a + unat n) \<noteq> Crash"
      by (rule less) (use a in simp)
    note h = en_heads(1,2) [OF a(2)] en_type [OF a(2)] n_def [symmetric]
    consider "en_ino bs a \<noteq> 0" | "en_ino bs a = 0" "slot_type sb bs a \<noteq> EXT4_DIRENTRY_DIR_CSUM \<and> required_len name \<le> n"
      | "en_ino bs a = 0" "\<not> (slot_type sb bs a \<noteq> EXT4_DIRENTRY_DIR_CSUM \<and> required_len name \<le> n)"
      by blast
    then show ?thesis
    proof cases
      case 1
      then show ?thesis using True IH h split_entry_safe [OF b a(1,4), of dir gen index child]
        by (subst insert_walk.simps) (simp split: fsres.split option.split)
    next
      case 2
      obtain bs' where "Option.bind (ext4_dir_write_entry sb bs a n index child name) (ext4_dir_set_csum sb dir gen) = Some bs'"
        using write_and_stamp [OF b a(4)] 2 by metis
      then show ?thesis using True h 2 by (subst insert_walk.simps) (simp add: res_mem_def)
    next
      case 3
      then show ?thesis using True IH h by (subst insert_walk.simps) auto
    qed
  next
    case False
    then show ?thesis using b by (subst insert_walk.simps) (auto simp: n_def)
  qed
qed

end
