(* ===== verification/Dir_Ops.thy ===== *)
theory Dir_Ops
  imports Dir_Spec
begin

unbundle bit_operations_syntax

text \<open>
  Lookup, creation and removal of names in a whole linear directory.  What a directory needs of the block
  map of its inode is the locale \<open>block_map\<close>: reading the map gives the addresses of the blocks or an error
  and changes no block, and writing a block of the directory does not change the map.  Inside it a
  directory is the concatenation of the entries of its blocks, for every pattern of device errors.
\<close>

section \<open>The entries of a block as a function of its bytes\<close>

function slot_walk :: "bytes \<Rightarrow> nat \<Rightarrow> nat \<Rightarrow> nat list" where
  "slot_walk bs a e = (if a < e \<and> 8 \<le> en_len bs a then a # slot_walk bs (a + en_len bs a) e else [])"
  by pat_completeness auto
termination by (relation "measure (\<lambda>(bs, a, e). e - a)") auto

declare slot_walk.simps [simp del]

lemma slot_walk_chain: "chain sb bs a ps e \<Longrightarrow> slot_walk bs a e = ps"
proof (induction ps arbitrary: a)
  case Nil
  then show ?case by (simp add: slot_walk.simps)
next
  case (Cons p ps)
  then have "p = a" "rec_ok sb bs p" "chain sb bs (p + en_len bs p) ps e" by auto
  then show ?case using Cons.IH chain_le [of sb bs "p + en_len bs p" ps e]
    by (subst slot_walk.simps) (simp add: rec_ok_def)
qed

definition slots :: "ext4_sblock \<Rightarrow> bytes \<Rightarrow> nat list" where
  "slots sb bs = slot_walk bs 0 (bsize sb)"

definition good_block :: "ext4_sblock \<Rightarrow> bytes \<Rightarrow> bool" where
  "good_block sb bs \<longleftrightarrow> dir_block sb bs (slots sb bs)"

definition names :: "ext4_sblock \<Rightarrow> bytes \<Rightarrow> (bytes \<times> u32) list" where
  "names sb bs = entries sb bs (slots sb bs)"

lemma dir_block_good: "dir_block sb bs ps \<Longrightarrow> good_block sb bs" "dir_block sb bs ps \<Longrightarrow> names sb bs = entries sb bs ps"
proof -
  assume d: "dir_block sb bs ps"
  then have "slots sb bs = ps" by (auto simp: slots_def dir_block_def intro: slot_walk_chain)
  then show "good_block sb bs" "names sb bs = entries sb bs ps" using d by (simp_all add: good_block_def names_def)
qed

lemma csum_verify_total:
  assumes "12 \<le> bsize sb" "length bs = bsize sb"
  obtains ok where "ext4_dir_csum_verify sb dir gen bs = Some ok"
proof -
  have "ext4_dir_csum_verify sb dir gen bs \<noteq> None"
    using assms dirent_tail [of sb] by (simp add: ext4_dir_csum_verify_def ext4_dir_get_tail_def Let_def ex_bool_eq)
  then show thesis using that by blast
qed

lemma find_in_block_good:
  assumes "good_block sb bs"
  shows "case ext4_dir_find_in_block sb name bs of
      Ret p \<Rightarrow> map_of (names sb bs) name = Some (en_ino bs p) \<and> first_named sb bs name (slots sb bs) = Some p
    | Err e \<Rightarrow> e = ENOENT \<and> map_of (names sb bs) name = None
    | Crash \<Rightarrow> False"
proof -
  have c: "chain sb bs 0 (slots sb bs) (bsize sb)" "bsize sb \<le> length bs"
    using assms by (auto simp: good_block_def dir_block_def)
  note f = find_walk_chain [OF c, of name]
  show ?thesis
  proof (cases "first_named sb bs name (slots sb bs)")
    case None
    then have "map_of (names sb bs) name = None" by (simp add: first_named_None map_of_eq_None_iff names_def)
    then show ?thesis using f None by (simp add: ext4_dir_find_in_block_def)
  next
    case (Some p)
    obtain xs ys where "entries sb bs (slots sb bs) = entries sb bs xs @ (name, en_ino bs p) # entries sb bs ys"
      "name \<notin> fst ` set (entries sb bs xs)"
      by (rule first_named_SomeD [OF Some])
    moreover from this have "map_of (entries sb bs xs) name = None" by (simp add: map_of_eq_None_iff)
    ultimately have "map_of (names sb bs) name = Some (en_ino bs p)" by (simp add: names_def map_add_def)
    then show ?thesis using f Some by (simp add: ext4_dir_find_in_block_def)
  qed
qed

text \<open>Removing from and inserting into a well-formed block.\<close>

lemma remove_good:
  assumes sb: "dir_sb sb" and g: "good_block sb bs" and f: "ext4_dir_find_in_block sb name bs = Ret p"
  obtains bs' vs i ws where "remove_in_block sb dir gen bs p = Some (EOK, bs')" "good_block sb bs'"
    "names sb bs = vs @ (name, i) # ws" "name \<notin> fst ` set vs" "names sb bs' = vs @ ws"
    "ext4_dir_csum_verify sb dir gen bs' = Some True"
proof -
  have "first_named sb bs name (slots sb bs) = Some p" using find_in_block_good [OF g, of name] f by simp
  then obtain xs ys where s: "slots sb bs = xs @ p # ys" "en_ino bs p \<noteq> 0" "en_name sb bs p = name"
    "entries sb bs (slots sb bs) = entries sb bs xs @ (name, en_ino bs p) # entries sb bs ys"
    "name \<notin> fst ` set (entries sb bs xs)"
    by (rule first_named_SomeD)
  obtain bs' ps' where r: "remove_in_block sb dir gen bs p = Some (EOK, bs')" "dir_block sb bs' ps'"
    "ext4_dir_csum_verify sb dir gen bs' = Some True" "entries sb bs' ps' = entries sb bs xs @ entries sb bs ys"
    by (rule remove_ok [OF sb g [unfolded good_block_def s(1)] s(2)])
  show thesis
    by (rule that [OF r(1) dir_block_good(1) [OF r(2)], of "entries sb bs xs" "en_ino bs p" "entries sb bs ys"])
      (use s(4,5) r(3,4) dir_block_good(2) [OF r(2)] in \<open>simp_all add: names_def\<close>)
qed

definition block_room :: "ext4_sblock \<Rightarrow> bytes \<Rightarrow> bytes \<Rightarrow> bool" where
  "block_room sb bs name \<longleftrightarrow> list_ex (room_at sb bs name) (slots sb bs)"

lemma insert_good:
  assumes sb: "dir_sb sb" and g: "good_block sb bs" and n: "length name \<le> 255" and i: "index \<noteq> 0"
  obtains (full) "ext4_dir_try_insert_entry sb dir gen bs index child name = Err ENOSPC" "\<not> block_room sb bs name"
  | (added) bs' vs ws where "ext4_dir_try_insert_entry sb dir gen bs index child name = Ret bs'" "good_block sb bs'"
      "names sb bs = vs @ ws" "names sb bs' = vs @ (name, index) # ws" "block_room sb bs name"
      "ext4_dir_csum_verify sb dir gen bs' = Some True"
  using try_insert_cases [OF sb g [unfolded good_block_def] n i, of dir gen child] dir_block_good
  by (metis block_room_def list_ex_iff names_def)

section \<open>Directories over their blocks\<close>

text \<open>The blocks of the directory: as many as its size says, distinct, on the device, well-formed, and none of
  them the block that holds its inode.\<close>

definition dir_on :: "ext4_fs \<Rightarrow> ext4_inode_ref \<Rightarrow> u64 list \<Rightarrow> bool" where
  "dir_on fs ref bl \<longleftrightarrow> dir_sb (fs_sb fs) \<and> \<not> dir_indexed (fs_sb fs) (inode_at (ino_raw fs ref)) \<and>
     length bl = unat (total_blocks (fs_sb fs) (inode_at (ino_raw fs ref))) \<and> distinct bl \<and> ir_block ref \<notin> set bl \<and>
     (\<forall>b\<in>set bl. b \<noteq> 0 \<and> b < fs_lg_bcnt fs \<and> good_block (fs_sb fs) (fs_blk fs b))"

definition names_on :: "ext4_fs \<Rightarrow> u64 list \<Rightarrow> (bytes \<times> u32) list" where
  "names_on fs bl = concat (map (\<lambda>b. names (fs_sb fs) (fs_blk fs b)) bl)"

lemma names_on_append [simp]: "names_on fs (xs @ ys) = names_on fs xs @ names_on fs ys"
  by (simp add: names_on_def)

lemma names_on_split:
  assumes "j < length bl"
  shows "names_on fs bl = names_on fs (take j bl) @ names (fs_sb fs) (fs_blk fs (bl ! j)) @ names_on fs (drop (Suc j) bl)"
  by (subst id_take_nth_drop [OF assms]) (simp add: names_on_def)

text \<open>Writing one block of the directory.\<close>

lemma dir_on_write:
  assumes "dir_on fs ref bl" "j < length bl" "good_block (fs_sb fs) v"
  shows "dir_on (fs\<lparr>fs_blk := (fs_blk fs)(bl ! j := v)\<rparr>) ref bl"
proof -
  have "ir_block ref \<noteq> bl ! j" using assms(1,2) by (auto simp: dir_on_def)
  then show ?thesis using assms by (auto simp: dir_on_def ino_raw_def)
qed

lemma names_on_write:
  assumes "distinct bl" "j < length bl"
  shows "names_on (fs\<lparr>fs_blk := (fs_blk fs)(bl ! j := v)\<rparr>) bl =
    names_on fs (take j bl) @ names (fs_sb fs) v @ names_on fs (drop (Suc j) bl)"
proof -
  have "bl ! j \<notin> set (take j bl)" "bl ! j \<notin> set (drop (Suc j) bl)"
    using assms by (auto simp: in_set_conv_nth nth_eq_iff_index_eq)
  then have "names_on (fs\<lparr>fs_blk := (fs_blk fs)(bl ! j := v)\<rparr>) xs = names_on fs xs"
    if "xs \<in> {take j bl, drop (Suc j) bl}" for xs
    using that by (auto simp: names_on_def intro!: arg_cong [of _ _ concat])
  then show ?thesis by (subst names_on_split [OF assms(2)]) simp
qed

text \<open>What trying the blocks from the \<open>i\<close>-th on may give: an error or no room, with nothing changed, or one block
  with the new entry.\<close>

definition insert_post :: "ext4_fs \<Rightarrow> u64 list \<Rightarrow> nat \<Rightarrow> bytes \<Rightarrow> u32 \<Rightarrow> bool fsres \<Rightarrow> nat \<Rightarrow> ext4_fs \<Rightarrow> bool" where
  "insert_post fs bl i name index r m fs' \<longleftrightarrow>
     (case r of Crash \<Rightarrow> False
      | Err e \<Rightarrow> e \<noteq> EOK \<and> fs' = fs\<lparr>fs_calls := m\<rparr>
      | Ret added \<Rightarrow>
          if added then \<exists>j bs' vs ws. i \<le> j \<and> j < length bl \<and>
            fs' = fs\<lparr>fs_calls := m, fs_blk := (fs_blk fs)(bl ! j := bs')\<rparr> \<and> good_block (fs_sb fs) bs' \<and>
            names (fs_sb fs) (fs_blk fs (bl ! j)) = vs @ ws \<and> names (fs_sb fs) bs' = vs @ (name, index) # ws
          else fs' = fs\<lparr>fs_calls := m\<rparr> \<and> (\<forall>b\<in>set (drop i bl). \<not> block_room (fs_sb fs) (fs_blk fs b) name))"

lemma insert_post_step:
  assumes "insert_post (fs\<lparr>fs_calls := n\<rparr>) bl (Suc i) name index r m fs'" "i < length bl"
    "\<not> block_room (fs_sb fs) (fs_blk fs (bl ! i)) name"
  shows "insert_post fs bl i name index r m fs'"
proof (cases r)
  case (Ret added)
  show ?thesis
  proof (cases added)
    case True
    then obtain j bs' vs ws where "Suc i \<le> j" "j < length bl" "good_block (fs_sb fs) bs'"
      "fs' = fs\<lparr>fs_calls := m, fs_blk := (fs_blk fs)(bl ! j := bs')\<rparr>"
      "names (fs_sb fs) (fs_blk fs (bl ! j)) = vs @ ws" "names (fs_sb fs) bs' = vs @ (name, index) # ws"
      using assms(1) Ret by (auto simp: insert_post_def)
    then show ?thesis using Ret True by (auto simp: insert_post_def intro!: exI [of _ j] exI [of _ bs'])
  next
    case False
    have "drop i bl = bl ! i # drop (Suc i) bl" using assms(2) by (simp add: Cons_nth_drop_Suc)
    then show ?thesis using assms Ret False by (simp add: insert_post_def)
  qed
qed (use assms(1) in \<open>simp_all add: insert_post_def\<close>)

locale block_map =
  fixes get_dblk :: dblk_fn
    and valid :: "ext4_fs \<Rightarrow> ext4_inode_ref \<Rightarrow> bool"
    and blocks_of :: "ext4_fs \<Rightarrow> ext4_inode_ref \<Rightarrow> u64 list"
  assumes get: "valid fs ref \<Longrightarrow> i < length (blocks_of fs ref) \<Longrightarrow> \<exists>r n. get_dblk ref (of_nat i) fs = (r, fs\<lparr>fs_calls := n\<rparr>) \<and>
      (r = Ret (blocks_of fs ref ! i) \<or> (\<exists>e. r = Err e \<and> e \<notin> {EOK, ENOENT}))"
    and calls: "valid fs ref \<Longrightarrow> valid (fs\<lparr>fs_calls := n\<rparr>) ref \<and> blocks_of (fs\<lparr>fs_calls := n\<rparr>) ref = blocks_of fs ref"
    and frame: "valid fs ref \<Longrightarrow> b \<in> set (blocks_of fs ref) \<Longrightarrow>
      valid (fs\<lparr>fs_blk := (fs_blk fs)(b := v)\<rparr>) ref \<and> blocks_of (fs\<lparr>fs_blk := (fs_blk fs)(b := v)\<rparr>) ref = blocks_of fs ref"
    and answers: "valid fs ref \<Longrightarrow> fs_answer fs n \<noteq> ENOENT"
begin

lemma dir_load:
  assumes v: "valid fs ref" and d: "dir_on fs ref (blocks_of fs ref)" and i: "i < length (blocks_of fs ref)"
    and b: "b = blocks_of fs ref ! i"
  obtains (ok) n ok where "dir_load get_dblk ref (of_nat i) fs = (Ret (b, fs_blk fs b, ok), fs\<lparr>fs_calls := n\<rparr>)"
    "ext4_dir_csum_verify (fs_sb fs) (ir_index ref) (ext4_inode_get_generation (inode_at (ino_raw fs ref))) (fs_blk fs b) = Some ok"
  | (err) n e where "dir_load get_dblk ref (of_nat i) fs = (Err e, fs\<lparr>fs_calls := n\<rparr>)" "e \<notin> {EOK, ENOENT}"
proof -
  obtain r n where g: "get_dblk ref (of_nat i) fs = (r, fs\<lparr>fs_calls := n\<rparr>)" "r = Ret b \<or> (\<exists>e. r = Err e \<and> e \<notin> {EOK, ENOENT})"
    using get [OF v i] b by blast
  have bs: "b \<noteq> 0" "b < fs_lg_bcnt fs" "good_block (fs_sb fs) (fs_blk fs b)" "dir_sb (fs_sb fs)"
    using d i b by (auto simp: dir_on_def)
  then have l: "12 \<le> bsize (fs_sb fs)" "length (fs_blk fs b) = bsize (fs_sb fs)"
    by (auto simp: good_block_def dir_block_def dir_sb_def)
  obtain ok where c: "ext4_dir_csum_verify (fs_sb fs) (ir_index ref)
      (ext4_inode_get_generation (inode_at (ino_raw fs ref))) (fs_blk fs b) = Some ok"
    by (rule csum_verify_total [OF l])
  have raw: "ino_raw (fs\<lparr>fs_calls := m\<rparr>) ref = ino_raw fs ref" for m by (simp add: ino_raw_def)
  show thesis
  proof (cases "r = Ret b")
    case False
    then show thesis using g that(2) by (auto simp: dir_load_def fs_bind_def)
  next
    case True
    show thesis
    proof (cases "fs_answer fs n = EOK")
      case True
      then show thesis using g(1) \<open>r = Ret b\<close> bs c raw that(1) [of ok "n + 1"]
        by (simp add: dir_load_def fs_bind_def ext4_trans_block_get_def fs_ask_def Let_def fs_return_def blk_get_def
            fs_gets_def inoref_get_def fs_mem_def)
    next
      case False
      then show thesis using g(1) \<open>r = Ret b\<close> bs that(2) [of "fs_answer fs n" "n + 1"] answers [OF v]
        by (simp add: dir_load_def fs_bind_def ext4_trans_block_get_def fs_ask_def Let_def)
    qed
  qed
qed

lemma dir_on_calls [simp]:
  "dir_on (fs\<lparr>fs_calls := n\<rparr>) ref bl = dir_on fs ref bl" "names_on (fs\<lparr>fs_calls := n\<rparr>) bl = names_on fs bl"
  by (simp_all add: dir_on_def names_on_def ino_raw_def)

text \<open>What a lookup over the blocks from the \<open>i\<close>-th on gives.\<close>

lemma find_blocks:
  "valid fs ref \<Longrightarrow> dir_on fs ref (blocks_of fs ref) \<Longrightarrow> i + n = length (blocks_of fs ref) \<Longrightarrow>
     \<exists>r m. find_blocks get_dblk ref name n (of_nat i) fs = (r, fs\<lparr>fs_calls := m\<rparr>) \<and>
       (case r of Crash \<Rightarrow> False
        | Err e \<Rightarrow> e \<noteq> EOK \<and> (e = ENOENT \<longrightarrow> map_of (names_on fs (drop i (blocks_of fs ref))) name = None)
        | Ret res \<Rightarrow> \<exists>j. i \<le> j \<and> j < length (blocks_of fs ref) \<and> dsr_block res = blocks_of fs ref ! j \<and>
            ext4_dir_find_in_block (fs_sb fs) name (fs_blk fs (dsr_block res)) = Ret (dsr_dentry res) \<and>
            map_of (names_on fs (take (j - i) (drop i (blocks_of fs ref)))) name = None)"
proof (induction n arbitrary: i fs)
  case 0
  then show ?case by (auto simp: fs_fail_def names_on_def intro: exI [of _ "fs_calls fs"])
next
  case (Suc n)
  define bl where "bl = blocks_of fs ref"
  define b where "b = bl ! i"
  have i: "i < length bl" using Suc.prems(3) by (simp add: bl_def)
  have good: "good_block (fs_sb fs) (fs_blk fs b)" using Suc.prems(2) i by (auto simp: dir_on_def bl_def b_def)
  have dr: "drop i bl = b # drop (Suc i) bl" using i by (simp add: Cons_nth_drop_Suc b_def)
  consider (ok) m ok where "dir_load get_dblk ref (of_nat i) fs = (Ret (b, fs_blk fs b, ok), fs\<lparr>fs_calls := m\<rparr>)"
    | (err) m e where "dir_load get_dblk ref (of_nat i) fs = (Err e, fs\<lparr>fs_calls := m\<rparr>)" "e \<notin> {EOK, ENOENT}"
    by (rule dir_load [OF Suc.prems(1,2) i [unfolded bl_def] b_def [unfolded bl_def]]) blast+
  then show ?case
  proof cases
    case err
    then show ?thesis by (auto simp: fs_bind_def)
  next
    case ok
    note f = find_in_block_good [OF good, of name]
    show ?thesis
    proof (cases "ext4_dir_find_in_block (fs_sb fs) name (fs_blk fs b)")
      case Crash
      then show ?thesis using f by simp
    next
      case (Ret p)
      have "find_blocks get_dblk ref name (Suc n) (of_nat i) fs = (Ret \<lparr>dsr_block = b, dsr_dentry = p\<rparr>, fs\<lparr>fs_calls := m\<rparr>)"
        using ok Ret by (simp add: fs_bind_def fs_gets_def fs_return_def)
      moreover have "i \<le> i \<and> i < length bl \<and> b = bl ! i \<and> map_of (names_on fs (take (i - i) (drop i bl))) name = None"
        using i by (simp add: names_on_def b_def)
      ultimately show ?thesis using Ret unfolding bl_def
        by (intro exI [of _ "Ret \<lparr>dsr_block = b, dsr_dentry = p\<rparr>"] exI [of _ m]) (auto intro!: exI [of _ i])
    next
      case (Err e)
      then have e: "e = ENOENT" "map_of (names (fs_sb fs) (fs_blk fs b)) name = None" using f by simp_all
      define fs1 where "fs1 = fs\<lparr>fs_calls := m\<rparr>"
      have v1: "valid fs1 ref" "blocks_of fs1 ref = bl" "dir_on fs1 ref (blocks_of fs1 ref)" "Suc i + n = length (blocks_of fs1 ref)"
        using calls [OF Suc.prems(1)] Suc.prems by (simp_all add: fs1_def bl_def)
      obtain r k where r: "find_blocks get_dblk ref name n (of_nat (Suc i)) fs1 = (r, fs1\<lparr>fs_calls := k\<rparr>)"
        "case r of Crash \<Rightarrow> False
         | Err e \<Rightarrow> e \<noteq> EOK \<and> (e = ENOENT \<longrightarrow> map_of (names_on fs1 (drop (Suc i) bl)) name = None)
         | Ret res \<Rightarrow> \<exists>j. Suc i \<le> j \<and> j < length bl \<and> dsr_block res = bl ! j \<and>
             ext4_dir_find_in_block (fs_sb fs1) name (fs_blk fs1 (dsr_block res)) = Ret (dsr_dentry res) \<and>
             map_of (names_on fs1 (take (j - Suc i) (drop (Suc i) bl))) name = None"
        using Suc.IH [OF v1(1,3,4)] v1(2) by auto
      have step: "find_blocks get_dblk ref name (Suc n) (of_nat i) fs = (r, fs\<lparr>fs_calls := k\<rparr>)"
        using ok Err e(1) r(1) by (simp add: fs_bind_def fs_gets_def blk_release_def fs_return_def fs1_def add.commute)
      have tk: "take (j - i) (drop i bl) = b # take (j - Suc i) (drop (Suc i) bl)" if "Suc i \<le> j" for j
        using that by (simp add: dr Suc_diff_le [symmetric] Suc_diff_Suc take_Cons')
      have no: "map_of (names_on fs (b # xs)) name = map_of (names_on fs xs) name" for xs
        using e(2) by (simp add: names_on_def map_add_def split: option.split)
      have "case r of Crash \<Rightarrow> False
        | Err e \<Rightarrow> e \<noteq> EOK \<and> (e = ENOENT \<longrightarrow> map_of (names_on fs (drop i bl)) name = None)
        | Ret res \<Rightarrow> \<exists>j. i \<le> j \<and> j < length bl \<and> dsr_block res = bl ! j \<and>
            ext4_dir_find_in_block (fs_sb fs) name (fs_blk fs (dsr_block res)) = Ret (dsr_dentry res) \<and>
            map_of (names_on fs (take (j - i) (drop i bl))) name = None"
      proof (cases r)
        case (Ret res)
        then obtain j where j: "Suc i \<le> j" "j < length bl" "dsr_block res = bl ! j"
          "ext4_dir_find_in_block (fs_sb fs) name (fs_blk fs (dsr_block res)) = Ret (dsr_dentry res)"
          "map_of (names_on fs (take (j - Suc i) (drop (Suc i) bl))) name = None" using r(2) by (auto simp: fs1_def)
        then show ?thesis using Ret tk [OF j(1)] no by (auto intro!: exI [of _ j])
      qed (use r(2) no in \<open>auto simp: fs1_def dr\<close>)
      with step show ?thesis unfolding bl_def by blast
    qed
  qed
qed

lemma find_entry:
  assumes v: "valid fs ref" and d: "dir_on fs ref (blocks_of fs ref)"
  obtains r m where "ext4_dir_find_entry get_dblk dx ref name fs = (Ret (r, ref), fs\<lparr>fs_calls := m\<rparr>)"
    "case r of Inl e \<Rightarrow> e \<noteq> EOK \<and> (e = ENOENT \<longrightarrow> map_of (names_on fs (blocks_of fs ref)) name = None)
     | Inr res \<Rightarrow> \<exists>j<length (blocks_of fs ref). dsr_block res = blocks_of fs ref ! j \<and>
         ext4_dir_find_in_block (fs_sb fs) name (fs_blk fs (dsr_block res)) = Ret (dsr_dentry res) \<and>
         map_of (names_on fs (take j (blocks_of fs ref))) name = None"
proof -
  have l: "0 + unat (total_blocks (fs_sb fs) (inode_at (ino_raw fs ref))) = length (blocks_of fs ref)"
    using d by (simp add: dir_on_def)
  obtain r m where f: "find_blocks get_dblk ref name (unat (total_blocks (fs_sb fs) (inode_at (ino_raw fs ref)))) (of_nat 0) fs
      = (r, fs\<lparr>fs_calls := m\<rparr>)"
    "case r of Crash \<Rightarrow> False
     | Err e \<Rightarrow> e \<noteq> EOK \<and> (e = ENOENT \<longrightarrow> map_of (names_on fs (drop 0 (blocks_of fs ref))) name = None)
     | Ret res \<Rightarrow> \<exists>j. 0 \<le> j \<and> j < length (blocks_of fs ref) \<and> dsr_block res = blocks_of fs ref ! j \<and>
         ext4_dir_find_in_block (fs_sb fs) name (fs_blk fs (dsr_block res)) = Ret (dsr_dentry res) \<and>
         map_of (names_on fs (take (j - 0) (drop 0 (blocks_of fs ref)))) name = None"
    using find_blocks [OF v d l] by blast
  define s where "s = (case r of Ret res \<Rightarrow> Inr res | Err e \<Rightarrow> Inl e)"
  have ni: "\<not> dir_indexed (fs_sb fs) (inode_at (ino_raw fs ref))" "ext4_sb_get_block_size (fs_sb fs) \<noteq> 0"
    using d by (auto simp: dir_on_def dir_sb_def)
  have "ext4_dir_find_entry get_dblk dx ref name fs = (Ret (s, ref), fs\<lparr>fs_calls := m\<rparr>)"
    using f ni by (cases r) (simp_all add: ext4_dir_find_entry_def find_linear_def fs_bind_def fs_gets_def inoref_get_def
        fs_try_def fs_return_def s_def)
  moreover have "case s of Inl e \<Rightarrow> e \<noteq> EOK \<and> (e = ENOENT \<longrightarrow> map_of (names_on fs (blocks_of fs ref)) name = None)
     | Inr res \<Rightarrow> \<exists>j<length (blocks_of fs ref). dsr_block res = blocks_of fs ref ! j \<and>
         ext4_dir_find_in_block (fs_sb fs) name (fs_blk fs (dsr_block res)) = Ret (dsr_dentry res) \<and>
         map_of (names_on fs (take j (blocks_of fs ref))) name = None"
    using f(2) by (cases r) (auto simp: s_def)
  ultimately show thesis by (rule that)
qed

lemma find_correct:
  assumes v: "valid fs ref" and d: "dir_on fs ref (blocks_of fs ref)"
  shows "\<exists>r m. ext4_dir_find_entry get_dblk dx ref name fs = (Ret (r, ref), fs\<lparr>fs_calls := m\<rparr>) \<and>
    (case r of Inl e \<Rightarrow> e \<noteq> EOK \<and> (e = ENOENT \<longrightarrow> map_of (names_on fs (blocks_of fs ref)) name = None)
     | Inr res \<Rightarrow> map_of (names_on fs (blocks_of fs ref)) name = Some (en_ino (fs_blk fs (dsr_block res)) (dsr_dentry res)))"
proof -
  obtain r m where f: "ext4_dir_find_entry get_dblk dx ref name fs = (Ret (r, ref), fs\<lparr>fs_calls := m\<rparr>)"
    "case r of Inl e \<Rightarrow> e \<noteq> EOK \<and> (e = ENOENT \<longrightarrow> map_of (names_on fs (blocks_of fs ref)) name = None)
     | Inr res \<Rightarrow> \<exists>j<length (blocks_of fs ref). dsr_block res = blocks_of fs ref ! j \<and>
         ext4_dir_find_in_block (fs_sb fs) name (fs_blk fs (dsr_block res)) = Ret (dsr_dentry res) \<and>
         map_of (names_on fs (take j (blocks_of fs ref))) name = None"
    by (rule find_entry [OF v d])
  have "map_of (names_on fs (blocks_of fs ref)) name = Some (en_ino (fs_blk fs (dsr_block res)) (dsr_dentry res))"
    if r: "r = Inr res" for res
  proof -
    obtain j where j: "j < length (blocks_of fs ref)" "dsr_block res = blocks_of fs ref ! j"
      "ext4_dir_find_in_block (fs_sb fs) name (fs_blk fs (dsr_block res)) = Ret (dsr_dentry res)"
      "map_of (names_on fs (take j (blocks_of fs ref))) name = None" using f(2) r by auto
    have "good_block (fs_sb fs) (fs_blk fs (dsr_block res))" using d j(1,2) by (simp add: dir_on_def)
    from find_in_block_good [OF this, of name] show ?thesis
      using j(3,4) by (subst names_on_split [OF j(1)]) (simp add: map_add_def j(2))
  qed
  then show ?thesis using f by (cases r) auto
qed

lemma write_back:
  assumes v: "valid fs ref" and d: "dir_on fs ref (blocks_of fs ref)" and j: "j < length (blocks_of fs ref)"
    and g: "good_block (fs_sb fs) bs'" and f: "fs' = fs\<lparr>fs_calls := m, fs_blk := (fs_blk fs)(blocks_of fs ref ! j := bs')\<rparr>"
  shows "valid fs' ref" "blocks_of fs' ref = blocks_of fs ref" "dir_on fs' ref (blocks_of fs ref)"
    "names_on fs' (blocks_of fs ref) = names_on fs (take j (blocks_of fs ref)) @ names (fs_sb fs) bs' @
       names_on fs (drop (Suc j) (blocks_of fs ref))"
proof -
  define fs1 where "fs1 = fs\<lparr>fs_blk := (fs_blk fs)(blocks_of fs ref ! j := bs')\<rparr>"
  have f1: "fs' = fs1\<lparr>fs_calls := m\<rparr>" by (simp add: f fs1_def)
  have v1: "valid fs1 ref" "blocks_of fs1 ref = blocks_of fs ref"
    using frame [OF v nth_mem [OF j], of bs'] by (simp_all add: fs1_def)
  show "valid fs' ref" "blocks_of fs' ref = blocks_of fs ref" using calls [OF v1(1)] v1(2) by (simp_all add: f1)
  show "dir_on fs' ref (blocks_of fs ref)" using dir_on_write [OF d j g] by (simp add: f1 fs1_def)
  have "distinct (blocks_of fs ref)" using d by (simp add: dir_on_def)
  from names_on_write [OF this j] show "names_on fs' (blocks_of fs ref) = names_on fs (take j (blocks_of fs ref)) @
      names (fs_sb fs) bs' @ names_on fs (drop (Suc j) (blocks_of fs ref))"
    by (simp add: f1 fs1_def)
qed

lemma remove_correct:
  assumes v: "valid fs ref" and d: "dir_on fs ref (blocks_of fs ref)"
    and t: "ext4_inode_is_type (fs_sb fs) (inode_at (ino_raw fs ref)) EXT4_INODE_MODE_DIRECTORY"
  shows "\<exists>e fs'. ext4_dir_remove_entry get_dblk dx ref name fs = (Ret (e, ref), fs') \<and>
    (if e = EOK then valid fs' ref \<and> blocks_of fs' ref = blocks_of fs ref \<and> dir_on fs' ref (blocks_of fs ref) \<and>
       (\<exists>vs i ws. names_on fs (blocks_of fs ref) = vs @ (name, i) # ws \<and> name \<notin> fst ` set vs \<and>
          names_on fs' (blocks_of fs ref) = vs @ ws)
     else (\<exists>m. fs' = fs\<lparr>fs_calls := m\<rparr>) \<and> (e = ENOENT \<longrightarrow> name \<notin> fst ` set (names_on fs (blocks_of fs ref))))"
proof -
  define bl where "bl = blocks_of fs ref"
  define gen where "gen = ext4_inode_get_generation (inode_at (ino_raw fs ref))"
  obtain r m where f: "ext4_dir_find_entry get_dblk dx ref name fs = (Ret (r, ref), fs\<lparr>fs_calls := m\<rparr>)"
    "case r of Inl e \<Rightarrow> e \<noteq> EOK \<and> (e = ENOENT \<longrightarrow> map_of (names_on fs bl) name = None)
     | Inr res \<Rightarrow> \<exists>j<length bl. dsr_block res = bl ! j \<and>
         ext4_dir_find_in_block (fs_sb fs) name (fs_blk fs (dsr_block res)) = Ret (dsr_dentry res) \<and>
         map_of (names_on fs (take j bl)) name = None"
    unfolding bl_def by (rule find_entry [OF v d])
  note run = ext4_dir_remove_entry_def fs_bind_def fs_gets_def inoref_get_def t f(1)
  show ?thesis
  proof (cases r)
    case (Inl e)
    have "e = ENOENT \<longrightarrow> name \<notin> fst ` set (names_on fs bl)" using f(2) Inl by (simp add: map_of_eq_None_iff)
    moreover have "e \<noteq> EOK" using f(2) Inl by simp
    ultimately show ?thesis using Inl by (simp add: run fs_return_def bl_def) blast
  next
    case (Inr res)
    then obtain j where j: "j < length bl" "dsr_block res = bl ! j"
      "ext4_dir_find_in_block (fs_sb fs) name (fs_blk fs (bl ! j)) = Ret (dsr_dentry res)"
      "map_of (names_on fs (take j bl)) name = None" using f(2) by auto
    have b: "bl ! j \<noteq> 0" "good_block (fs_sb fs) (fs_blk fs (bl ! j))" "dir_sb (fs_sb fs)"
      using d j(1) by (auto simp: dir_on_def bl_def)
    have l: "12 \<le> bsize (fs_sb fs)" "length (fs_blk fs (bl ! j)) = bsize (fs_sb fs)"
      using b by (auto simp: good_block_def dir_block_def dir_sb_def)
    obtain ok where c: "ext4_dir_csum_verify (fs_sb fs) (ir_index ref) gen (fs_blk fs (bl ! j)) = Some ok"
      by (rule csum_verify_total [OF l])
    obtain bs' vs i ws where w: "remove_in_block (fs_sb fs) (ir_index ref) gen (fs_blk fs (bl ! j)) (dsr_dentry res) = Some (EOK, bs')"
      "good_block (fs_sb fs) bs'" "names (fs_sb fs) (fs_blk fs (bl ! j)) = vs @ (name, i) # ws" "name \<notin> fst ` set vs"
      "names (fs_sb fs) bs' = vs @ ws"
      by (rule remove_good [OF b(3,2) j(3), of "ir_index ref" gen])
    show ?thesis
    proof (cases ok)
      case False
      then show ?thesis using Inr j(2) b(1) c
        by (simp add: run fs_return_def blk_get_def fs_mem_def gen_def [symmetric] fs_ignore_def ext4_dir_destroy_result_def
            blk_release_def) blast
    next
      case True
      define fs' where "fs' = fs\<lparr>fs_calls := m, fs_blk := (fs_blk fs)(bl ! j := bs')\<rparr>"
      have r: "ext4_dir_remove_entry get_dblk dx ref name fs = (Ret (EOK, ref), fs')"
        using True Inr j(2) b(1) c w(1)
        by (simp add: run fs_return_def blk_get_def fs_mem_def gen_def [symmetric] ext4_dir_destroy_result_def
            blk_release_def blk_put_def fs_modify_def fs'_def)
      note wb = write_back [OF v d j(1) [unfolded bl_def] w(2) fs'_def [unfolded bl_def], folded bl_def]
      define us where "us = names_on fs (take j bl) @ vs"
      define zs where "zs = ws @ names_on fs (drop (Suc j) bl)"
      have "names_on fs bl = us @ (name, i) # zs" "names_on fs' bl = us @ zs"
        using names_on_split [OF j(1), of fs] wb(4) w(3,5) by (simp_all add: us_def zs_def)
      moreover have "name \<notin> fst ` set us" using j(4) w(4) by (auto simp: map_of_eq_None_iff us_def)
      ultimately have "\<exists>vs i ws. names_on fs bl = vs @ (name, i) # ws \<and> name \<notin> fst ` set vs \<and> names_on fs' bl = vs @ ws"
        by blast
      then show ?thesis using r wb(1-3) by (intro exI [of _ EOK] exI [of _ fs']) (simp add: bl_def)
    qed
  qed
qed

lemma insert_blocks:
  assumes n: "length name \<le> 255" and idx: "ir_index child \<noteq> 0"
  shows "valid fs ref \<Longrightarrow> dir_on fs ref (blocks_of fs ref) \<Longrightarrow> i + k = length (blocks_of fs ref) \<Longrightarrow>
     \<exists>r m fs'. insert_blocks get_dblk ref child name k (of_nat i) fs = (r, fs') \<and>
       insert_post fs (blocks_of fs ref) i name (ir_index child) r m fs'"
proof (induction k arbitrary: i fs)
  case 0
  then show ?case by (auto simp: fs_return_def insert_post_def intro!: exI [of _ "Ret False"] exI [of _ "fs_calls fs"])
next
  case (Suc k)
  define bl where "bl = blocks_of fs ref"
  define b where "b = bl ! i"
  define gen where "gen = ext4_inode_get_generation (inode_at (ino_raw fs ref))"
  have i: "i < length bl" using Suc.prems(3) by (simp add: bl_def)
  have good: "good_block (fs_sb fs) (fs_blk fs b)" "dir_sb (fs_sb fs)"
    using Suc.prems(2) i by (auto simp: dir_on_def bl_def b_def)
  have raw: "ino_raw (fs\<lparr>fs_calls := m\<rparr>) r = ino_raw fs r" for m r by (simp add: ino_raw_def)
  note run = fs_bind_def fs_gets_def fs_return_def inoref_get_def raw gen_def [symmetric] fs_ignore_def blk_release_def
    fs_fail_def
  consider (ok) m ok where "dir_load get_dblk ref (of_nat i) fs = (Ret (b, fs_blk fs b, ok), fs\<lparr>fs_calls := m\<rparr>)"
    | (err) m e where "dir_load get_dblk ref (of_nat i) fs = (Err e, fs\<lparr>fs_calls := m\<rparr>)" "e \<notin> {EOK, ENOENT}"
    by (rule dir_load [OF Suc.prems(1,2) i [unfolded bl_def] b_def [unfolded bl_def]]) blast+
  then show ?case
  proof cases
    case err
    then show ?thesis by (auto simp: fs_bind_def insert_post_def intro!: exI [of _ "Err e"] exI [of _ m])
  next
    case ok
    show ?thesis
    proof (cases ok)
      case False
      then show ?thesis using ok by (auto simp: run insert_post_def intro!: exI [of _ "Err EIO"] exI [of _ m])
    next
      case ck: True
      define cino where "cino = inode_at (ino_raw fs child)"
      consider (full) "ext4_dir_try_insert_entry (fs_sb fs) (ir_index ref) gen (fs_blk fs b) (ir_index child) cino name = Err ENOSPC"
          "\<not> block_room (fs_sb fs) (fs_blk fs b) name"
        | (added) bs' vs ws where
          "ext4_dir_try_insert_entry (fs_sb fs) (ir_index ref) gen (fs_blk fs b) (ir_index child) cino name = Ret bs'"
          "good_block (fs_sb fs) bs'" "names (fs_sb fs) (fs_blk fs b) = vs @ ws" "names (fs_sb fs) bs' = vs @ (name, ir_index child) # ws"
        by (rule insert_good [OF good(2,1) n idx]) blast+
      then show ?thesis
      proof cases
        case added
        define fs' where "fs' = fs\<lparr>fs_calls := m, fs_blk := (fs_blk fs)(b := bs')\<rparr>"
        have "insert_blocks get_dblk ref child name (Suc k) (of_nat i) fs = (Ret True, fs')"
          using ok ck added(1) by (simp add: run cino_def [symmetric] blk_put_def fs_modify_def fs'_def)
        then show ?thesis using added(2-4) i unfolding bl_def
          by (intro exI [of _ "Ret True"] exI [of _ m] exI [of _ fs'])
            (auto simp: insert_post_def fs'_def b_def bl_def intro!: exI [of _ i] exI [of _ bs'])
      next
        case full
        define fs1 where "fs1 = fs\<lparr>fs_calls := m\<rparr>"
        have v1: "valid fs1 ref" "dir_on fs1 ref (blocks_of fs1 ref)" "Suc i + k = length (blocks_of fs1 ref)" "blocks_of fs1 ref = bl"
          using calls [OF Suc.prems(1)] Suc.prems by (simp_all add: fs1_def bl_def)
        have "insert_blocks get_dblk ref child name (Suc k) (of_nat i) fs = insert_blocks get_dblk ref child name k (of_nat (Suc i)) fs1"
          using ok ck full(1) by (simp add: run cino_def [symmetric] fs1_def add.commute)
        moreover obtain r m' fs' where "insert_blocks get_dblk ref child name k (of_nat (Suc i)) fs1 = (r, fs')"
          "insert_post fs1 bl (Suc i) name (ir_index child) r m' fs'"
          using Suc.IH [OF v1(1-3)] unfolding v1(4) by blast
        moreover from this have "insert_post fs bl i name (ir_index child) r m' fs'"
          using insert_post_step i full(2) unfolding fs1_def b_def by blast
        ultimately show ?thesis unfolding bl_def by auto
      qed
    qed
  qed
qed

lemma add_correct:
  assumes v: "valid fs ref" and d: "dir_on fs ref (blocks_of fs ref)"
    and n: "length name \<le> 255" and idx: "ir_index child \<noteq> 0"
    and room: "\<exists>b\<in>set (blocks_of fs ref). block_room (fs_sb fs) (fs_blk fs b) name"
  shows "\<exists>e fs'. ext4_dir_add_entry get_dblk append_dblk dx ref name child fs = (Ret (e, ref), fs') \<and>
    (if e = EOK then valid fs' ref \<and> blocks_of fs' ref = blocks_of fs ref \<and> dir_on fs' ref (blocks_of fs ref) \<and>
       (\<exists>vs ws. names_on fs (blocks_of fs ref) = vs @ ws \<and> names_on fs' (blocks_of fs ref) = vs @ (name, ir_index child) # ws)
     else \<exists>m. fs' = fs\<lparr>fs_calls := m\<rparr>)"
proof -
  define bl where "bl = blocks_of fs ref"
  have l: "0 + unat (total_blocks (fs_sb fs) (inode_at (ino_raw fs ref))) = length (blocks_of fs ref)"
    using d by (simp add: dir_on_def)
  obtain r m fs' where f: "insert_blocks get_dblk ref child name (unat (total_blocks (fs_sb fs) (inode_at (ino_raw fs ref))))
      (of_nat 0) fs = (r, fs')" "insert_post fs bl 0 name (ir_index child) r m fs'"
    using insert_blocks [OF n idx v d l] unfolding bl_def by blast
  have ni: "\<not> dir_indexed (fs_sb fs) (inode_at (ino_raw fs ref))" "ext4_sb_get_block_size (fs_sb fs) \<noteq> 0"
    using d by (auto simp: dir_on_def dir_sb_def)
  note run = ext4_dir_add_entry_def add_linear_def fs_bind_def fs_gets_def inoref_get_def fs_try_def fs_return_def
  show ?thesis
  proof (cases r)
    case Crash
    then show ?thesis using f(2) by (simp add: insert_post_def)
  next
    case (Err e)
    then show ?thesis using f ni by (auto simp: run insert_post_def)
  next
    case (Ret added)
    then have added: "added" using f(2) room unfolding bl_def insert_post_def by (auto split: if_splits)
    obtain j bs' vs ws where j: "j < length bl" "fs' = fs\<lparr>fs_calls := m, fs_blk := (fs_blk fs)(bl ! j := bs')\<rparr>"
      "good_block (fs_sb fs) bs'" "names (fs_sb fs) (fs_blk fs (bl ! j)) = vs @ ws"
      "names (fs_sb fs) bs' = vs @ (name, ir_index child) # ws"
      using f(2) Ret added by (auto simp: insert_post_def)
    have r: "ext4_dir_add_entry get_dblk append_dblk dx ref name child fs = (Ret (EOK, ref), fs')"
      using f(1) Ret added ni by (simp add: run)
    note wb = write_back [OF v d j(1) [unfolded bl_def] j(3) j(2) [unfolded bl_def], folded bl_def]
    define us where "us = names_on fs (take j bl) @ vs"
    define zs where "zs = ws @ names_on fs (drop (Suc j) bl)"
    have "names_on fs bl = us @ zs" "names_on fs' bl = us @ (name, ir_index child) # zs"
      using names_on_split [OF j(1), of fs] wb(4) j(4,5) by (simp_all add: us_def zs_def)
    then have "\<exists>vs ws. names_on fs bl = vs @ ws \<and> names_on fs' bl = vs @ (name, ir_index child) # ws" by blast
    then show ?thesis using r wb(1-3) by (intro exI [of _ EOK] exI [of _ fs']) (simp add: bl_def)
  qed
qed

text \<open>A name that was added is found, with the inode number of the child, when the directory did not have it
  before; a name that was removed and was there once is not found.\<close>

lemma add_then_find:
  assumes v: "valid fs ref" and d: "dir_on fs ref (blocks_of fs ref)"
    and n: "length name \<le> 255" and idx: "ir_index child \<noteq> 0"
    and room: "\<exists>b\<in>set (blocks_of fs ref). block_room (fs_sb fs) (fs_blk fs b) name"
    and new: "name \<notin> fst ` set (names_on fs (blocks_of fs ref))"
    and a: "ext4_dir_add_entry get_dblk append_dblk dxa ref name child fs = (Ret (EOK, ref), fs1)"
    and f: "ext4_dir_find_entry get_dblk dxf ref name fs1 = (Ret (r, ref'), fs2)"
  shows "case r of Inl e \<Rightarrow> e \<noteq> ENOENT | Inr res \<Rightarrow> en_ino (fs_blk fs1 (dsr_block res)) (dsr_dentry res) = ir_index child"
proof -
  obtain vs ws where w: "valid fs1 ref" "blocks_of fs1 ref = blocks_of fs ref" "dir_on fs1 ref (blocks_of fs1 ref)"
    "names_on fs (blocks_of fs ref) = vs @ ws" "names_on fs1 (blocks_of fs1 ref) = vs @ (name, ir_index child) # ws"
    using add_correct [OF v d n idx room, of append_dblk dxa] a by auto
  then have "map_of vs name = None" using new by (simp add: map_of_eq_None_iff image_Un)
  then have "map_of (names_on fs1 (blocks_of fs1 ref)) name = Some (ir_index child)" using w(5) by (simp add: map_add_def)
  then show ?thesis using find_correct [OF w(1,3), of dxf name] f by (auto split: sum.splits)
qed

lemma remove_then_find:
  assumes v: "valid fs ref" and d: "dir_on fs ref (blocks_of fs ref)"
    and t: "ext4_inode_is_type (fs_sb fs) (inode_at (ino_raw fs ref)) EXT4_INODE_MODE_DIRECTORY"
    and once: "distinct (map fst (names_on fs (blocks_of fs ref)))"
    and a: "ext4_dir_remove_entry get_dblk dxa ref name fs = (Ret (EOK, ref), fs1)"
    and f: "ext4_dir_find_entry get_dblk dxf ref name fs1 = (Ret (r, ref'), fs2)"
  shows "\<exists>e. r = Inl e"
proof -
  obtain vs i ws where w: "valid fs1 ref" "blocks_of fs1 ref = blocks_of fs ref" "dir_on fs1 ref (blocks_of fs1 ref)"
    "names_on fs (blocks_of fs ref) = vs @ (name, i) # ws" "names_on fs1 (blocks_of fs1 ref) = vs @ ws"
    using remove_correct [OF v d t, of dxa name] a by auto
  then have "map_of (names_on fs1 (blocks_of fs1 ref)) name = None"
    using once by (auto simp: map_of_eq_None_iff map_add_None)
  then show ?thesis using find_correct [OF w(1,3), of dxf name] f by (auto split: sum.splits)
qed

end

end
