(* ===== verification/Inode_Map_Spec.thy ===== *)
theory Inode_Map_Spec
  imports Inode_Map Dir_Ops Alloc_Spec
begin

unbundle bit_operations_syntax

text \<open>
  What the block map of an inode without extents says, as a function of the volume, and that the lookup of
  \<open>Inode_Map\<close> computes it without leaving an indirect block.  The map is then an interpretation of
  \<open>block_map\<close>, which gives the directory operations on such an inode.
\<close>

section \<open>Levels\<close>

text \<open>The tables that mounting computed from the block size.\<close>

definition levels_ok :: "ext4_fs \<Rightarrow> bool" where
  "levels_ok fs \<longleftrightarrow> 4 \<le> bsize (fs_sb fs) \<and> bsize (fs_sb fs) \<le> 65536 \<and>
     fs_inode_blocks_per_level fs = fst (fs_levels (ext4_sb_get_block_size (fs_sb fs))) \<and>
     fs_inode_block_limits fs = snd (fs_levels (ext4_sb_get_block_size (fs_sb fs)))"

definition ptrs :: "ext4_fs \<Rightarrow> nat" where
  "ptrs fs = bsize (fs_sb fs) div 4"

lemma levels_calls [simp]: "levels_ok (fs\<lparr>fs_calls := n\<rparr>) = levels_ok fs" "ptrs (fs\<lparr>fs_calls := n\<rparr>) = ptrs fs"
  by (simp_all add: levels_ok_def ptrs_def)

lemma ptrs_bounds: "levels_ok fs \<Longrightarrow> 1 \<le> ptrs fs \<and> ptrs fs \<le> 16384 \<and> 4 * ptrs fs \<le> bsize (fs_sb fs)"
  by (auto simp: levels_ok_def ptrs_def)

lemma pow_bound: "(n :: nat) \<le> 16384 \<Longrightarrow> l \<le> 3 \<Longrightarrow> n ^ l \<le> 4398046511104"
proof -
  assume "n \<le> 16384" "l \<le> 3"
  then have "n ^ l \<le> 16384 ^ l" by (simp add: power_mono)
  also have "(16384 :: nat) ^ l \<le> 16384 ^ 3" using \<open>l \<le> 3\<close> by (intro power_increasing) simp_all
  finally show ?thesis by simp
qed

lemma per_level:
  assumes "levels_ok fs" "l \<le> 3"
  shows "unat (fs_inode_blocks_per_level fs ! l) = ptrs fs ^ l"
proof -
  define n where "n = ptrs fs"
  define w :: u64 where "w = ucast (ext4_sb_get_block_size (fs_sb fs) div 4)"
  have w: "unat w = n" by (simp add: w_def n_def ptrs_def unat_div)
  have n: "n \<le> 16384" using ptrs_bounds [OF assms(1)] by (simp add: n_def)
  have "n ^ 2 \<le> 4398046511104" "n ^ 3 \<le> 4398046511104" using pow_bound [OF n] by simp_all
  then have p: "n * n < 18446744073709551616" "n * n * n < 18446744073709551616" by (simp_all add: power2_eq_square power3_eq_cube)
  have p2: "unat (w * w) = n ^ 2" using p(1) w by (simp add: unat_word_ariths power2_eq_square)
  have p3: "unat (w * w * w) = n ^ 3" using p w by (simp add: unat_word_ariths power3_eq_cube)
  have "l = 0 \<or> l = 1 \<or> l = 2 \<or> l = 3" using assms(2) by auto
  then show ?thesis using assms(1) w p2 p3 by (auto simp: levels_ok_def fs_levels_def Let_def w_def [symmetric] n_def [symmetric])
qed

fun level_limit :: "nat \<Rightarrow> nat \<Rightarrow> nat" where
  "level_limit n 0 = 12"
| "level_limit n (Suc l) = level_limit n l + n ^ Suc l"

lemma limits:
  assumes "levels_ok fs" "l \<le> 3"
  shows "unat (fs_inode_block_limits fs ! l) = level_limit (ptrs fs) l"
proof -
  define n where "n = ptrs fs"
  define w :: u64 where "w = ucast (ext4_sb_get_block_size (fs_sb fs) div 4)"
  have w: "unat w = n" by (simp add: w_def n_def ptrs_def unat_div)
  have n: "n \<le> 16384" using ptrs_bounds [OF assms(1)] by (simp add: n_def)
  have b: "n ^ 2 \<le> 4398046511104" "n ^ 3 \<le> 4398046511104" using pow_bound [OF n] by simp_all
  then have p: "n * n \<le> 4398046511104" "n * n * n \<le> 4398046511104" by (simp_all add: power2_eq_square power3_eq_cube)
  have p2: "unat (w * w) = n * n" using p(1) w by (simp add: unat_word_ariths)
  have p3: "unat (w * w * w) = n * n * n" using p w by (simp add: unat_word_ariths)
  have l1: "unat (12 + w) = 12 + n" using w n by (simp add: unat_word_ariths)
  have l2: "unat (12 + w + w * w) = 12 + n + n * n" using l1 p2 p n by (simp add: unat_word_ariths(1) [of "12 + w"])
  have l3: "unat (12 + w + w * w + w * w * w) = 12 + n + n * n + n * n * n"
    using l2 p3 p n by (simp add: unat_word_ariths(1) [of "12 + w + w * w"])
  have lim: "fs_inode_block_limits fs = [12, 12 + w, 12 + w + w * w, 12 + w + w * w + w * w * w]"
    using assms(1) by (simp add: levels_ok_def fs_levels_def Let_def w_def EXT4_INODE_DIRECT_BLOCK_COUNT_def)
  consider "l = 0" | "l = Suc 0" | "l = Suc (Suc 0)" | "l = Suc (Suc (Suc 0))" using assms(2) by linarith
  then show ?thesis
    by cases (simp_all add: lim l1 l2 l3 n_def [symmetric])
qed

lemma ind_level:
  assumes "levels_ok fs" "12 \<le> unat iblock" "ind_level fs iblock = Suc l"
  shows "l < 3" "level_limit (ptrs fs) l \<le> unat iblock" "unat iblock < level_limit (ptrs fs) (Suc l)"
proof -
  have lt: "ucast iblock < fs_inode_block_limits fs ! i \<longleftrightarrow> unat iblock < level_limit (ptrs fs) i" if "i \<le> 3" for i
    using limits [OF assms(1) that] by (simp add: word_less_nat_alt)
  have "(l = 0 \<or> l = 1 \<or> l = 2) \<and> unat iblock < level_limit (ptrs fs) (l + 1) \<and> (l \<noteq> 0 \<longrightarrow> level_limit (ptrs fs) l \<le> unat iblock)"
    using assms(3) by (auto simp: ind_level_def lt numeral_2_eq_2 numeral_3_eq_3 simp del: level_limit.simps split: if_splits option.splits)
  then show "l < 3" "level_limit (ptrs fs) l \<le> unat iblock" "unat iblock < level_limit (ptrs fs) (Suc l)"
    using assms(2) by (auto simp del: level_limit.simps(2))
qed

lemma offs_bound:
  assumes lv: "levels_ok fs" and l: "l \<le> 3" and b: "unat boff < ptrs fs ^ Suc l"
  shows "unat (off_in_blk fs (Suc l) boff) < ptrs fs" "unat (next_off fs l boff) < ptrs fs ^ l"
proof -
  have p: "unat (ucast boff div fs_inode_blocks_per_level fs ! l) = unat boff div ptrs fs ^ l"
    "unat (ucast boff mod fs_inode_blocks_per_level fs ! l) = unat boff mod ptrs fs ^ l"
    using per_level [OF lv l] by (simp_all add: unat_div unat_mod)
  have s: "unat boff div ptrs fs ^ l < 2 ^ 32" "unat boff mod ptrs fs ^ l < 2 ^ 32"
    using unat_u32_lt [of boff] by (auto intro: order_le_less_trans [OF div_le_dividend] order_le_less_trans [OF mod_less_eq_dividend])
  have "unat boff div ptrs fs ^ l < ptrs fs" by (rule less_mult_imp_div_less) (use b in simp)
  then show "unat (off_in_blk fs (Suc l) boff) < ptrs fs" using s by (simp add: off_in_blk_def unat_ucast_mod p)
  have "0 < ptrs fs ^ l" using ptrs_bounds [OF lv] by simp
  then show "unat (next_off fs l boff) < ptrs fs ^ l" using s by (simp add: next_off_def unat_ucast_mod p)
qed

section \<open>The map as a function of the volume\<close>

definition ptr_at :: "ext4_fs \<Rightarrow> u64 \<Rightarrow> u32 \<Rightarrow> u32" where
  "ptr_at fs b off = get_le32 (fs_blk fs b) (4 * unat off)"

text \<open>The data block below an indirect block, 0 for a hole, and the indirect blocks on the way.\<close>

fun ind_addr :: "ext4_fs \<Rightarrow> nat \<Rightarrow> u64 \<Rightarrow> u32 \<Rightarrow> u64" where
  "ind_addr fs 0 b boff = b"
| "ind_addr fs (Suc l) b boff =
     (let p = ptr_at fs b (off_in_blk fs (Suc l) boff) in if p = 0 then 0 else ind_addr fs l (ucast p) (next_off fs l boff))"

fun ind_meta :: "ext4_fs \<Rightarrow> nat \<Rightarrow> u64 \<Rightarrow> u32 \<Rightarrow> u64 list" where
  "ind_meta fs 0 b boff = []"
| "ind_meta fs (Suc l) b boff =
     b # (let p = ptr_at fs b (off_in_blk fs (Suc l) boff) in if p = 0 then [] else ind_meta fs l (ucast p) (next_off fs l boff))"

definition top_ptr :: "ext4_inode \<Rightarrow> nat \<Rightarrow> u32" where
  "top_ptr ino l = i_blocks ino ! (12 + l)"

definition top_off :: "ext4_fs \<Rightarrow> u32 \<Rightarrow> nat \<Rightarrow> u32" where
  "top_off fs iblock l = ucast (ucast iblock - fs_inode_block_limits fs ! l)"

definition block_addr :: "ext4_fs \<Rightarrow> ext4_inode \<Rightarrow> u32 \<Rightarrow> u64" where
  "block_addr fs ino iblock =
     (if unat iblock < 12 then ucast (i_blocks ino ! unat iblock)
      else case ind_level fs iblock of 0 \<Rightarrow> 0
        | Suc l \<Rightarrow> if top_ptr ino l = 0 then 0 else ind_addr fs (Suc l) (ucast (top_ptr ino l)) (top_off fs iblock l))"

definition block_meta :: "ext4_fs \<Rightarrow> ext4_inode \<Rightarrow> u32 \<Rightarrow> u64 list" where
  "block_meta fs ino iblock =
     (if unat iblock < 12 then []
      else case ind_level fs iblock of 0 \<Rightarrow> []
        | Suc l \<Rightarrow> if top_ptr ino l = 0 then [] else ind_meta fs (Suc l) (ucast (top_ptr ino l)) (top_off fs iblock l))"

lemma top_off_bound:
  assumes lv: "levels_ok fs" and i: "12 \<le> unat iblock" and l: "ind_level fs iblock = Suc l"
  shows "unat (top_off fs iblock l) < ptrs fs ^ Suc l"
proof -
  note b = ind_level [OF lv i l]
  have lim: "unat (fs_inode_block_limits fs ! l) = level_limit (ptrs fs) l" using limits [OF lv] b(1) by simp
  have "unat (ucast iblock - fs_inode_block_limits fs ! l) = unat iblock - level_limit (ptrs fs) l"
    using b(2) lim by (simp add: unat_sub word_le_nat_alt)
  moreover have "unat iblock - level_limit (ptrs fs) l < 2 ^ 32" using unat_u32_lt [of iblock] by simp
  ultimately have "unat (top_off fs iblock l) = unat iblock - level_limit (ptrs fs) l"
    by (simp add: top_off_def unat_ucast_mod)
  then show ?thesis using b(2,3) by simp
qed

section \<open>The lookup\<close>

lemma ind_calls [simp]:
  "off_in_blk (fs\<lparr>fs_calls := n\<rparr>) l b = off_in_blk fs l b" "next_off (fs\<lparr>fs_calls := n\<rparr>) l b = next_off fs l b"
  "ptr_at (fs\<lparr>fs_calls := n\<rparr>) x o1 = ptr_at fs x o1" "ind_level (fs\<lparr>fs_calls := n\<rparr>) i = ind_level fs i"
  "top_off (fs\<lparr>fs_calls := n\<rparr>) i l = top_off fs i l"
  by (simp_all add: off_in_blk_def next_off_def ptr_at_def ind_level_def top_off_def)

lemma ind_addr_calls [simp]:
  "ind_addr (fs\<lparr>fs_calls := n\<rparr>) l b boff = ind_addr fs l b boff" "ind_meta (fs\<lparr>fs_calls := n\<rparr>) l b boff = ind_meta fs l b boff"
  by (induction l arbitrary: b boff) (simp_all add: Let_def)

lemma ind_walk_ok:
  "levels_ok fs \<Longrightarrow> l \<le> 3 \<Longrightarrow> unat boff < ptrs fs ^ l \<Longrightarrow>
   \<forall>m\<in>set (ind_meta fs l b boff). length (fs_blk fs m) = bsize (fs_sb fs) \<Longrightarrow> \<forall>k. fs_answer fs k \<noteq> ENOENT \<Longrightarrow>
   \<exists>r n. ind_walk l b boff fs = (r, fs\<lparr>fs_calls := n\<rparr>) \<and>
     (r = Ret (ind_addr fs l b boff) \<or> (\<exists>e. r = Err e \<and> e \<notin> {EOK, ENOENT}))"
proof (induction l arbitrary: b boff fs)
  case 0
  then show ?case by (auto simp: fs_return_def intro: exI [of _ "fs_calls fs"])
next
  case (Suc l)
  define off where "off = off_in_blk fs (Suc l) boff"
  define p where "p = ptr_at fs b off"
  have o: "unat off < ptrs fs" "unat (next_off fs l boff) < ptrs fs ^ l"
    using offs_bound [of fs l boff] Suc.prems by (simp_all add: off_def)
  have "length (fs_blk fs b) = bsize (fs_sb fs)" using Suc.prems(4) by simp
  then have rd: "ld32 (fs_blk fs b) (4 * unat off) = Some p"
    using o(1) ptrs_bounds [OF Suc.prems(1)] by (simp add: p_def ptr_at_def)
  note run = fs_bind_def fs_gets_def fs_return_def ext4_trans_block_get_def off_def [symmetric] fs_ask_def Let_def
    ptr_get_def blk_get_def fs_mem_def rd blk_release_def
  show ?case
  proof (cases "b < fs_lg_bcnt fs \<and> b \<noteq> 0")
    case False
    then show ?thesis by (auto simp: run intro: exI [of _ "fs_calls fs"])
  next
    case dev: True
    show ?thesis
    proof (cases "fs_answer fs (fs_calls fs) = EOK")
      case False
      then show ?thesis using dev Suc.prems(5) by (auto simp: run)
    next
      case ok: True
      define fs1 where "fs1 = fs\<lparr>fs_calls := Suc (fs_calls fs)\<rparr>"
      show ?thesis
      proof (cases "p = 0")
        case True
        then show ?thesis using dev ok by (auto simp: run p_def)
      next
        case False
        have "\<exists>r n. ind_walk l (ucast p) (next_off fs l boff) fs1 = (r, fs1\<lparr>fs_calls := n\<rparr>) \<and>
            (r = Ret (ind_addr fs1 l (ucast p) (next_off fs l boff)) \<or> (\<exists>e. r = Err e \<and> e \<notin> {EOK, ENOENT}))"
          by (rule Suc.IH) (use Suc.prems o False in \<open>auto simp: fs1_def off_def [symmetric] p_def [symmetric] Let_def\<close>)
        then obtain r n where w: "ind_walk l (ucast p) (next_off fs l boff) fs1 = (r, fs1\<lparr>fs_calls := n\<rparr>)"
          "r = Ret (ind_addr fs l (ucast p) (next_off fs l boff)) \<or> (\<exists>e. r = Err e \<and> e \<notin> {EOK, ENOENT})"
          by (auto simp: fs1_def)
        have "ind_walk (Suc l) b boff fs = (r, fs\<lparr>fs_calls := n\<rparr>)"
          using dev ok False w(1) by (simp add: run fs1_def)
        moreover have "ind_addr fs (Suc l) b boff = ind_addr fs l (ucast p) (next_off fs l boff)"
          using False by (simp add: off_def [symmetric] p_def [symmetric])
        ultimately show ?thesis using w(2) by auto
      qed
    qed
  qed
qed

text \<open>The indirect blocks on the way are whole blocks.\<close>

definition meta_whole :: "ext4_fs \<Rightarrow> ext4_inode \<Rightarrow> u32 \<Rightarrow> bool" where
  "meta_whole fs ino iblock \<longleftrightarrow> (\<forall>m\<in>set (block_meta fs ino iblock). length (fs_blk fs m) = bsize (fs_sb fs))"

lemma lookup_ok:
  assumes lv: "levels_ok fs" and ino: "ino = inode_at (ino_raw fs ref)"
    and e: "\<not> uses_extents (fs_sb fs) ino" and sz: "ext4_inode_get_size (fs_sb fs) ino \<noteq> 0"
    and w: "meta_whole fs ino iblock" and a: "\<forall>k. fs_answer fs k \<noteq> ENOENT"
  obtains r n where "ext4_fs_get_inode_dblk_idx X iblock su ref fs = (r, ref, fs\<lparr>fs_calls := n\<rparr>)"
    "r = Ret (block_addr fs ino iblock) \<or> (\<exists>e. r = Err e \<and> e \<notin> {EOK, ENOENT})"
proof -
  have len: "length (i_blocks ino) = 15" by (simp add: ino)
  note run = ext4_fs_get_inode_dblk_idx_def ext4_fs_get_inode_dblk_idx_internal_def ir_bind_def ir_lift_def fs_gets_def
    ir_inode_def inoref_get_def ino [symmetric] e sz ir_return_def fs_mem_def ir_fail_def
  have d: "iblock < EXT4_INODE_DIRECT_BLOCK_COUNT \<longleftrightarrow> unat iblock < 12"
    by (simp add: EXT4_INODE_DIRECT_BLOCK_COUNT_def word_less_nat_alt)
  show thesis
  proof (cases "unat iblock < 12")
    case True
    then have "ext4_inode_get_direct_block ino iblock = Some (i_blocks ino ! unat iblock)"
      using len by (simp add: ext4_inode_get_direct_block_def)
    then show thesis using that [of "Ret (block_addr fs ino iblock)" "fs_calls fs"] True by (simp add: run d block_addr_def)
  next
    case far: False
    show thesis
    proof (cases "ind_level fs iblock")
      case 0
      then show thesis using that [of "Err EIO" "fs_calls fs"] far by (simp add: run d)
    next
      case (Suc l)
      have lt: "l < 3" using ind_level [OF lv _ Suc] far by simp
      then have "unat (of_nat l + EXT4_INODE_INDIRECT_BLOCK :: u32) = 12 + l"
        by (simp add: EXT4_INODE_INDIRECT_BLOCK_def EXT4_INODE_DIRECT_BLOCK_COUNT_def unat_word_ariths unat_of_nat)
      then have t: "ext4_inode_get_indirect_block ino (of_nat l) = Some (top_ptr ino l)"
        using lt len by (simp add: ext4_inode_get_indirect_block_def ext4_inode_get_direct_block_def top_ptr_def)
      show thesis
      proof (cases "top_ptr ino l = 0")
        case True
        then show thesis using that [of "Ret 0" "fs_calls fs"] far Suc t by (simp add: run d block_addr_def)
      next
        case False
        have b: "unat (top_off fs iblock l) < ptrs fs ^ Suc l" using top_off_bound [OF lv _ Suc] far by simp
        have "\<exists>r n. ind_walk (Suc l) (ucast (top_ptr ino l)) (top_off fs iblock l) fs = (r, fs\<lparr>fs_calls := n\<rparr>) \<and>
            (r = Ret (ind_addr fs (Suc l) (ucast (top_ptr ino l)) (top_off fs iblock l)) \<or> (\<exists>e. r = Err e \<and> e \<notin> {EOK, ENOENT}))"
          by (rule ind_walk_ok [OF lv _ b _ a]) (use lt w far Suc False in \<open>simp_all add: meta_whole_def block_meta_def del: ind_meta.simps\<close>)
        then obtain r n where r: "ind_walk (Suc l) (ucast (top_ptr ino l)) (top_off fs iblock l) fs = (r, fs\<lparr>fs_calls := n\<rparr>)"
          "r = Ret (ind_addr fs (Suc l) (ucast (top_ptr ino l)) (top_off fs iblock l)) \<or> (\<exists>e. r = Err e \<and> e \<notin> {EOK, ENOENT})"
          by blast
        show thesis
          by (rule that [of r n]) (use r far Suc t False in \<open>simp_all add: run d block_addr_def top_off_def del: ind_walk.simps ind_addr.simps\<close>)
      qed
    qed
  qed
qed

section \<open>The map does not change with the data\<close>

lemma ind_frame:
  assumes "fs_inode_blocks_per_level fs' = fs_inode_blocks_per_level fs"
  shows "\<forall>m\<in>set (ind_meta fs l b boff). fs_blk fs' m = fs_blk fs m \<Longrightarrow>
    ind_addr fs' l b boff = ind_addr fs l b boff \<and> ind_meta fs' l b boff = ind_meta fs l b boff"
proof (induction l arbitrary: b boff)
  case (Suc l)
  have s: "off_in_blk fs' = off_in_blk fs" "next_off fs' = next_off fs" using assms by (simp_all add: off_in_blk_def next_off_def fun_eq_iff)
  have "ptr_at fs' b off = ptr_at fs b off" for off using Suc.prems by (simp add: ptr_at_def)
  then show ?case using Suc.IH Suc.prems by (simp add: s Let_def)
qed simp

lemma block_frame:
  assumes f: "fs_inode_blocks_per_level fs' = fs_inode_blocks_per_level fs" "fs_inode_block_limits fs' = fs_inode_block_limits fs"
    and m: "\<forall>m\<in>set (block_meta fs ino i). fs_blk fs' m = fs_blk fs m"
  shows "block_addr fs' ino i = block_addr fs ino i" "block_meta fs' ino i = block_meta fs ino i"
proof -
  have s: "ind_level fs' = ind_level fs" "top_off fs' = top_off fs" using f by (simp_all add: ind_level_def top_off_def fun_eq_iff)
  have "block_addr fs' ino i = block_addr fs ino i \<and> block_meta fs' ino i = block_meta fs ino i"
  proof (cases "unat i < 12 \<or> ind_level fs i = 0")
    case True
    then show ?thesis by (auto simp: block_addr_def block_meta_def s)
  next
    case False
    then obtain l where "ind_level fs i = Suc l" by (cases "ind_level fs i") auto
    then show ?thesis using ind_frame [OF f(1), of "Suc l" "ucast (top_ptr ino l)" "top_off fs i l"] m False
      by (simp add: block_addr_def block_meta_def s del: ind_addr.simps ind_meta.simps)
  qed
  then show "block_addr fs' ino i = block_addr fs ino i" "block_meta fs' ino i = block_meta fs ino i" by simp_all
qed

definition map_blocks :: "ext4_fs \<Rightarrow> ext4_inode_ref \<Rightarrow> u64 list" where
  "map_blocks fs ref = map (\<lambda>i. block_addr fs (inode_at (ino_raw fs ref)) (of_nat i))
     [0..<unat (total_blocks (fs_sb fs) (inode_at (ino_raw fs ref)))]"

text \<open>The inode is not empty and has no extents, no block of the file is an indirect block of its map or the
  block of its inode, and no device answers \<^verbatim>\<open>ENOENT\<close>.\<close>

definition map_valid :: "ext4_fs \<Rightarrow> ext4_inode_ref \<Rightarrow> bool" where
  "map_valid fs ref \<longleftrightarrow> levels_ok fs \<and> \<not> uses_extents (fs_sb fs) (inode_at (ino_raw fs ref)) \<and>
     ext4_inode_get_size (fs_sb fs) (inode_at (ino_raw fs ref)) \<noteq> 0 \<and> ir_block ref \<notin> set (map_blocks fs ref) \<and>
     (\<forall>i<unat (total_blocks (fs_sb fs) (inode_at (ino_raw fs ref))).
        meta_whole fs (inode_at (ino_raw fs ref)) (of_nat i) \<and>
        (\<forall>m\<in>set (block_meta fs (inode_at (ino_raw fs ref)) (of_nat i)). m \<notin> set (map_blocks fs ref))) \<and>
     (\<forall>k. fs_answer fs k \<noteq> ENOENT)"

text \<open>The lookup of a directory: holes are not wanted, the reference does not change.\<close>

definition dir_dblk :: "extent_ops \<Rightarrow> dblk_fn" where
  "dir_dblk X ref iblock fs = (case ext4_fs_get_inode_dblk_idx X iblock False ref fs of (r, _, fs') \<Rightarrow> (r, fs'))"

interpretation inode_map: block_map "dir_dblk X" map_valid map_blocks
proof
  fix fs ref and i :: nat
  assume v: "map_valid fs ref" and i: "i < length (map_blocks fs ref)"
  define ino where "ino = inode_at (ino_raw fs ref)"
  have w: "meta_whole fs ino (of_nat i)" using v i by (simp add: map_valid_def map_blocks_def ino_def)
  obtain r n where "ext4_fs_get_inode_dblk_idx X (of_nat i) False ref fs = (r, ref, fs\<lparr>fs_calls := n\<rparr>)"
    "r = Ret (block_addr fs ino (of_nat i)) \<or> (\<exists>e. r = Err e \<and> e \<notin> {EOK, ENOENT})"
    by (rule lookup_ok [of fs ino ref "of_nat i" X False]) (use v w in \<open>simp_all add: map_valid_def ino_def\<close>)
  then show "\<exists>r n. dir_dblk X ref (of_nat i) fs = (r, fs\<lparr>fs_calls := n\<rparr>) \<and>
      (r = Ret (map_blocks fs ref ! i) \<or> (\<exists>e. r = Err e \<and> e \<notin> {EOK, ENOENT}))"
    using i by (auto simp: dir_dblk_def map_blocks_def ino_def)
next
  fix fs ref and n :: nat
  assume v: "map_valid fs ref"
  have raw: "ino_raw (fs\<lparr>fs_calls := n\<rparr>) ref = ino_raw fs ref" by (simp add: ino_raw_def)
  have b: "block_addr (fs\<lparr>fs_calls := n\<rparr>) ino i = block_addr fs ino i" "block_meta (fs\<lparr>fs_calls := n\<rparr>) ino i = block_meta fs ino i" for ino i
    by (cases "ind_level fs i"; simp add: block_addr_def block_meta_def del: ind_addr.simps ind_meta.simps)+
  then have m: "map_blocks (fs\<lparr>fs_calls := n\<rparr>) ref = map_blocks fs ref" by (simp add: map_blocks_def raw)
  then show "map_valid (fs\<lparr>fs_calls := n\<rparr>) ref \<and> map_blocks (fs\<lparr>fs_calls := n\<rparr>) ref = map_blocks fs ref"
    using v b by (simp add: map_valid_def raw meta_whole_def)
next
  fix fs ref b and bs :: bytes
  assume v: "map_valid fs ref" and b: "b \<in> set (map_blocks fs ref)"
  define fs' where "fs' = fs\<lparr>fs_blk := (fs_blk fs)(b := bs)\<rparr>"
  define ino where "ino = inode_at (ino_raw fs ref)"
  define n where "n = unat (total_blocks (fs_sb fs) ino)"
  have raw: "ino_raw fs' ref = ino_raw fs ref" using v b by (auto simp: ino_raw_def fs'_def map_valid_def)
  have m: "\<forall>m\<in>set (block_meta fs ino (of_nat i)). fs_blk fs' m = fs_blk fs m" if "i < n" for i
    using v b that by (auto simp: map_valid_def fs'_def ino_def n_def)
  have f: "block_addr fs' ino (of_nat i) = block_addr fs ino (of_nat i)" "block_meta fs' ino (of_nat i) = block_meta fs ino (of_nat i)"
    if "i < n" for i using block_frame [OF _ _ m [OF that]] by (simp_all add: fs'_def)
  have bl: "map_blocks fs' ref = map_blocks fs ref"
    using f by (simp add: map_blocks_def raw ino_def [symmetric]) (simp add: fs'_def n_def)
  have wh: "meta_whole fs' ino (of_nat i)" if "i < n" for i
    using v that m [OF that] f [OF that] by (auto simp: meta_whole_def map_valid_def ino_def n_def) (simp_all add: fs'_def)
  have lv: "levels_ok fs' = levels_ok fs" "fs_sb fs' = fs_sb fs" "fs_answer fs' = fs_answer fs" by (simp_all add: fs'_def levels_ok_def)
  have "map_valid fs' ref" using v wh f unfolding map_valid_def bl raw lv ino_def [symmetric] n_def [symmetric] by auto
  then show "map_valid (fs\<lparr>fs_blk := (fs_blk fs)(b := bs)\<rparr>) ref \<and>
      map_blocks (fs\<lparr>fs_blk := (fs_blk fs)(b := bs)\<rparr>) ref = map_blocks fs ref"
    using bl by (simp add: fs'_def)
qed (simp add: map_valid_def)

section \<open>The first entry of a new block\<close>

lemma init_tail_ok:
  assumes l: "length bs = bsize sb" and b: "12 \<le> bsize sb" and t: "t = dirent_tail sb"
  obtains bs' where "ext4_dir_init_entry_tail bs t = Some bs'" "length bs' = bsize sb" "tail_ok sb bs'" "agree bs bs' 0 t"
proof -
  have tb: "t + 12 = bsize sb" using dirent_tail [OF b] t by simp
  define b1 where "b1 = put_bytes bs t (replicate 12 0)"
  define b2 where "b2 = put_bytes b1 (t + 4) (le16 12)"
  define b3 where "b3 = b2[t + 7 := EXT4_DIRENTRY_DIR_CSUM]"
  have l1: "length b1 = bsize sb" "length b2 = bsize sb" "length b3 = bsize sb"
    using tb l by (simp_all add: b1_def b2_def b3_def)
  have w: "ext4_dir_init_entry_tail bs t = Some b3"
    using tb l l1 by (simp add: ext4_dir_init_entry_tail_def b1_def [symmetric] b2_def [symmetric] b3_def)
  have z: "b1 ! i = 0" if "t \<le> i" "i < t + 12" for i using that tb l by (simp add: b1_def nth_put_bytes)
  have "en_ino b3 t = 0"
    using tb l1 z by (simp add: en_ino_def b3_def b2_def get_le32_put_other) (simp add: get_le32_def)
  moreover have "en_len b3 t = 12"
    using tb l1 by (simp add: en_len_def b3_def b2_def get_le16_put)
  moreover have "b3 ! (t + 6) = 0" using tb l1 z by (simp add: b3_def b2_def nth_put_bytes)
  moreover have "b3 ! (t + 7) = EXT4_DIRENTRY_DIR_CSUM" using tb l1 by (simp add: b3_def)
  ultimately have k: "tail_ok sb b3" by (simp add: tail_ok_def t)
  have "agree bs b1 0 t" "agree b1 b2 0 t" unfolding b1_def b2_def by (rule agree_put; use tb l l1 in \<open>simp add: b1_def\<close>)+
  moreover have "agree b2 b3 0 t" unfolding b3_def by (rule agree_update) simp
  ultimately have "agree bs b3 0 t" by (blast intro: agree_trans)
  then show thesis by (rule that [OF w l1(3) k])
qed

lemma fresh_block:
  assumes sb: "dir_sb sb" and b: "280 \<le> bsize sb" "bsize sb mod 4 = 0" and n: "length name \<le> 255" and i: "index \<noteq> 0"
  obtains bs where "fresh_dir_block sb dir gen index child name = Some bs" "good_block sb bs" "names sb bs = [(name, index)]"
    "ext4_dir_csum_verify sb dir gen bs = Some True"
proof -
  define el :: u16 where "el = (if csums sb then ucast (ext4_sb_get_block_size sb - 12) else ucast (ext4_sb_get_block_size sb))"
  have m: "unat (ext4_sb_get_block_size sb - 12) = bsize sb - 12" using b by (simp add: unat_sub word_le_nat_alt)
  have el: "unat el = (if csums sb then bsize sb - 12 else bsize sb)"
    using sb m b by (auto simp: el_def dir_sb_def unat_ucast_mod mod_less split: if_splits)
  obtain b1 where w: "ext4_dir_write_entry sb (replicate (bsize sb) 0) 0 el index child name = Some b1"
    "length b1 = length (replicate (bsize sb) (0 :: u8))" "en_ino b1 0 = index" "en_len b1 0 = unat el"
    "en_nlen sb b1 0 = length name" "en_name sb b1 0 = name"
    by (rule write_entry_ok [of 0 name "replicate (bsize sb) 0" el sb index child]) (use b n el in \<open>auto simp: word_le_nat_alt\<close>)
  have ok: "rec_ok sb b1 0" using b n el w by (auto simp: rec_ok_def mod_diff_eq split: if_splits)
  obtain b2 ps where d: "(if csums sb then ext4_dir_init_entry_tail b1 (dirent_tail sb) else Some b1) = Some b2"
    "dir_block sb b2 ps" "entries sb b2 ps = [(name, index)]"
  proof (cases "csums sb")
    case False
    then show thesis using that [of b1 "[0]"] w el ok i by (simp add: dir_block_def)
  next
    case True
    define t where "t = dirent_tail sb"
    have tb: "t + 12 = bsize sb" using dirent_tail [of sb] b by (simp add: t_def)
    have l1: "length b1 = bsize sb" "12 \<le> bsize sb" using w(2) b by simp_all
    obtain b2 where t2: "ext4_dir_init_entry_tail b1 t = Some b2" "length b2 = bsize sb" "tail_ok sb b2" "agree b1 b2 0 t"
      by (rule init_tail_ok [OF l1 t_def])
    have "chain sb b1 0 [0] t" using ok w(4) el True tb by simp
    note c = chain_agree [OF t2(4) this]
    have tl: "rec_ok sb b2 t" "en_len b2 t = 12" "en_ino b2 t = 0" using t2(3) by (simp_all add: tail_ok_def t_def rec_ok_def)
    have "chain sb b2 0 ([0] @ t # []) (bsize sb)" unfolding chain_mid_iff using c(1) tl tb by simp
    then have "dir_block sb b2 [0, t]" using t2 True by (simp add: dir_block_def t_def [symmetric] del: chain.simps)
    moreover have "entries sb b2 [0, t] = [(name, index)]" using c(2) tl(3) w(3,6) i by (auto split: if_splits)
    ultimately show thesis using that t2(1) True by (simp add: t_def)
  qed
  have l2: "length b2 = bsize sb" "csums sb \<longrightarrow> tail_ok sb b2" using d(2) by (auto simp: dir_block_def)
  obtain bs where s: "ext4_dir_set_csum sb dir gen b2 = Some bs" "length bs = bsize sb"
    "agree b2 bs 0 (if csums sb then dirent_tail sb + 8 else bsize sb)" "ext4_dir_csum_verify sb dir gen bs = Some True"
    by (rule set_csum_ok [OF sb l2])
  note a = dir_block_agree [OF d(2) sb s(3)]
  have "fresh_dir_block sb dir gen index child name = Some bs"
    using w(1) d(1) s(1) by (auto simp: fresh_dir_block_def el_def Let_def split: if_splits)
  then show thesis using that dir_block_good [OF a(1)] a(2) d(3) s(4) by simp
qed

text \<open>With blocks of 64 KiB and no checksums the length of the first entry is cut to 0.\<close>

lemma fresh_block_64k:
  assumes "ext4_sb_get_block_size sb = 65536" "\<not> csums sb" "length name \<le> 255"
  shows "\<exists>bs. fresh_dir_block sb dir gen index child name = Some bs \<and> en_len bs 0 = 0"
proof -
  obtain b1 where "ext4_dir_write_entry sb (replicate (bsize sb) 0) 0 0 index child name = Some b1" "en_len b1 0 = unat (0 :: u16)"
    using write_entry_ok [of 0 name "replicate (bsize sb) 0" 0 sb index child] assms by auto
  moreover have z: "(65536 :: u16) = 0" by simp
  ultimately show ?thesis using assms(1,2) by (simp add: fresh_dir_block_def ext4_dir_set_csum_def Let_def z)
qed

section \<open>A directory of one block\<close>

definition dir_inode_example :: ext4_inode where
  "dir_inode_example = (inode_at [])\<lparr>i_mode := 0x41FF, i_size_lo := 4096, i_blocks := 9 # replicate 14 0\<rparr>"

text \<open>One entry, the name \<^verbatim>\<open>a\<close> for inode 12, in a record that takes the whole block.\<close>

definition dir_block_example :: bytes where
  "dir_block_example = [12, 0, 0, 0, 0, 16, 1, 1, 97] @ replicate 4087 0"

definition dir_example :: ext4_fs where
  "dir_example = vol_example\<lparr>
     fs_blk := (\<lambda>b. if b = 5 then inode_store (probe_example 0) (replicate 256 0) dir_inode_example @ replicate 3840 0
       else if b = 9 then dir_block_example else replicate 4096 0),
     fs_inode_blocks_per_level := fst (fs_levels 4096), fs_inode_block_limits := snd (fs_levels 4096)\<rparr>"

definition no_extents :: extent_ops where
  "no_extents = \<lparr>ext_get_blocks = (\<lambda>_ _ _. ir_fail ENOTSUP), ext_remove_space = (\<lambda>_ _. ir_fail ENOTSUP),
     ext_tree_init = ir_fail ENOTSUP\<rparr>"

lemma dir_example_sb [simp]:
  "fs_sb dir_example = probe_example 0" "ext4_sb_get_block_size (probe_example 0) = 4096"
  "fs_answer dir_example k = EOK" "fs_lg_bcnt dir_example = 1000" "fs_blk dir_example 9 = dir_block_example"
  "ext4_sb_feature_ro_com (probe_example 0) m = False" "ext4_sb_feature_com (probe_example 0) m = False"
  "ext4_sb_feature_incom (probe_example 0) m = False" "long_names (probe_example 0) = False"
  by (simp_all add: dir_example_def vol_example_def probe_example_def ext4_sb_get_block_size_def zero_sblock_def
      ext4_sb_feature_ro_com_def ext4_sb_feature_com_def ext4_sb_feature_incom_def long_names_def)

lemma dir_example_inode [simp]: "inode_at (ino_raw dir_example iref_example) = dir_inode_example"
proof -
  have l: "length (i_blocks dir_inode_example) = 15" by (simp add: dir_inode_example_def)
  have sz: "s_inode_size (probe_example 0) = 256" by (simp add: probe_example_def)
  have len: "length (inode_store (probe_example 0) (replicate 256 0) dir_inode_example) = 256"
    using length_inode_bytes [OF l] by (simp add: inode_store_def sz)
  have "ino_raw dir_example iref_example = inode_store (probe_example 0) (replicate 256 0) dir_inode_example"
    using len by (simp add: ino_raw_def sz) (simp add: dir_example_def iref_example_def)
  then show ?thesis using inode_at_store_big [OF l, of "probe_example 0" "replicate 256 0"] by (simp add: sz)
qed

lemma dir_example_size: "ext4_inode_get_size (probe_example 0) dir_inode_example = 4096"
  "total_blocks (probe_example 0) dir_inode_example = 1"
proof -
  have t: "ext4_inode_is_type (probe_example 0) dir_inode_example EXT4_INODE_MODE_FILE = False"
    by (simp add: ext4_inode_is_type_def ext4_inode_type_def ext4_inode_get_mode_def dir_inode_example_def probe_example_def
        zero_sblock_def EXT4_SUPERBLOCK_OS_HURD_def EXT4_INODE_MODE_TYPE_MASK_def EXT4_INODE_MODE_FILE_def)
  show sz: "ext4_inode_get_size (probe_example 0) dir_inode_example = 4096"
    by (simp add: ext4_inode_get_size_def t) (simp add: dir_inode_example_def)
  show "total_blocks (probe_example 0) dir_inode_example = 1" by (simp add: total_blocks_def sz)
qed

lemma dir_example_map: "map_blocks dir_example iref_example = [9]" "map_valid dir_example iref_example"
proof -
  have b: "block_addr dir_example dir_inode_example 0 = 9" "block_meta dir_example dir_inode_example 0 = []"
    by (simp_all add: block_addr_def block_meta_def dir_inode_example_def)
  show m: "map_blocks dir_example iref_example = [9]" by (simp add: map_blocks_def dir_example_size b)
  have lv: "levels_ok dir_example" by (simp add: levels_ok_def) (simp add: dir_example_def)
  show "map_valid dir_example iref_example"
    unfolding map_valid_def m by (simp add: lv dir_example_size b uses_extents_def meta_whole_def)
      (simp add: iref_example_def)
qed

lemma dir_example_bytes:
  assumes "bsize sb = 4096" "\<not> long_names sb" "\<not> ext4_sb_feature_ro_com sb EXT4_FRO_COM_METADATA_CSUM"
  shows "good_block sb dir_block_example" "names sb dir_block_example = [([97], 12)]" "block_room sb dir_block_example [98]"
proof -
  have l: "length dir_block_example = 4096" by (simp add: dir_block_example_def)
  have e: "en_ino dir_block_example 0 = 12" "en_len dir_block_example 0 = 4096"
    by (simp_all add: dir_block_example_def en_ino_def en_len_def get_le32_def get_le16_def nth_Cons' push_bit_eq_mult)
  have n: "en_nlen sb dir_block_example 0 = 1" using assms(2) by (simp add: en_nlen_def dir_block_example_def nth_Cons')
  have nm: "en_name sb dir_block_example 0 = [97]" unfolding en_name_def n by (simp add: dir_block_example_def)
  have d: "dir_block sb dir_block_example [0]" using assms(1,3) by (simp add: dir_block_def rec_ok_def l e n)
  show "good_block sb dir_block_example" by (rule dir_block_good(1) [OF d])
  show "names sb dir_block_example = [([97], 12)]" by (simp add: dir_block_good(2) [OF d] e nm)
  have "slots sb dir_block_example = [0]"
    unfolding slots_def by (rule slot_walk_chain [of sb]) (use d in \<open>simp add: dir_block_def\<close>)
  then show "block_room sb dir_block_example [98]" by (simp add: block_room_def room_at_def e n round4_def)
qed

lemma dir_example_block: "good_block (probe_example 0) dir_block_example" "names (probe_example 0) dir_block_example = [([97], 12)]"
  "block_room (probe_example 0) dir_block_example [98]"
  by (rule dir_example_bytes; simp)+

lemma dir_example_on: "dir_on dir_example iref_example (map_blocks dir_example iref_example)"
  by (simp add: dir_on_def dir_example_map dir_example_size dir_sb_def dir_indexed_def dir_example_block)
    (simp add: iref_example_def)

section \<open>Looking up a block of an inode\<close>



section \<open>Directories on such inodes\<close>

text \<open>C8: A lookup in a linear directory changes nothing and gives the first entry of the name, over all blocks,
  or an error; it says \<^verbatim>\<open>ENOENT\<close> only when no block has the name, whatever the device answers.\<close>

theorem dir_lookup_correct:
  assumes "map_valid fs ref" "dir_on fs ref (map_blocks fs ref)"
  shows "\<exists>r m. ext4_dir_find_entry (dir_dblk X) dx ref name fs = (Ret (r, ref), fs\<lparr>fs_calls := m\<rparr>) \<and>
    (case r of Inl e \<Rightarrow> e \<noteq> EOK \<and> (e = ENOENT \<longrightarrow> map_of (names_on fs (map_blocks fs ref)) name = None)
     | Inr res \<Rightarrow> map_of (names_on fs (map_blocks fs ref)) name = Some (en_ino (fs_blk fs (dsr_block res)) (dsr_dentry res)))"
  by (rule inode_map.find_correct [OF assms])

theorem dir_lookup_correct_witness:
  "\<exists>r m. ext4_dir_find_entry (dir_dblk no_extents) (\<lambda>_ _. fs_fail ENOTSUP) iref_example [97] dir_example =
      (Ret (r, iref_example), dir_example\<lparr>fs_calls := m\<rparr>) \<and>
    (case r of Inl e \<Rightarrow> e \<noteq> EOK \<and> e \<noteq> ENOENT | Inr res \<Rightarrow> en_ino (fs_blk dir_example (dsr_block res)) (dsr_dentry res) = 12)"
proof -
  have "map_of (names_on dir_example (map_blocks dir_example iref_example)) [97] = Some 12"
    by (simp add: names_on_def dir_example_map dir_example_block)
  then show ?thesis
    using dir_lookup_correct [OF dir_example_map(2) dir_example_on, of no_extents "\<lambda>_ _. fs_fail ENOTSUP" "[97]"]
    by (auto split: sum.splits)
qed

text \<open>C5: In a linear directory with room, adding a name either adds exactly one entry with the child's inode
  number, keeps every other entry and the well-formedness of all blocks, or fails and changes nothing.\<close>

theorem dir_add_correct:
  assumes "map_valid fs ref" "dir_on fs ref (map_blocks fs ref)" "length name \<le> 255" "ir_index child \<noteq> 0"
    "\<exists>b\<in>set (map_blocks fs ref). block_room (fs_sb fs) (fs_blk fs b) name"
  shows "\<exists>e fs'. ext4_dir_add_entry (dir_dblk X) append_dblk dx ref name child fs = (Ret (e, ref), fs') \<and>
    (if e = EOK then map_valid fs' ref \<and> map_blocks fs' ref = map_blocks fs ref \<and> dir_on fs' ref (map_blocks fs ref) \<and>
       (\<exists>vs ws. names_on fs (map_blocks fs ref) = vs @ ws \<and> names_on fs' (map_blocks fs ref) = vs @ (name, ir_index child) # ws)
     else \<exists>m. fs' = fs\<lparr>fs_calls := m\<rparr>)"
  by (rule inode_map.add_correct [OF assms])

theorem dir_add_correct_witness:
  "\<exists>e fs'. ext4_dir_add_entry (dir_dblk no_extents) (\<lambda>_. fs_fail ENOSPC) (\<lambda>_ _ _. fs_fail ENOTSUP) iref_example [98] iref_example
      dir_example = (Ret (e, iref_example), fs') \<and>
    (if e = EOK then \<exists>vs ws. [([97], 12)] = vs @ ws \<and> names_on fs' [9] = vs @ ([98], 12) # ws
     else \<exists>m. fs' = dir_example\<lparr>fs_calls := m\<rparr>)"
proof -
  have n: "names_on dir_example [9] = [([97], 12)]" by (simp add: names_on_def dir_example_block)
  have r: "\<exists>b\<in>set (map_blocks dir_example iref_example). block_room (fs_sb dir_example) (fs_blk dir_example b) [98]"
    by (simp add: dir_example_map(1) dir_example_block)
  have x: "ir_index iref_example = 12" "length [98 :: u8] \<le> 255" "(12 :: u32) \<noteq> 0" by (simp_all add: iref_example_def)
  show ?thesis
    using dir_add_correct [OF dir_example_map(2) dir_example_on x(2) x(3) [folded x(1)] r, of no_extents "\<lambda>_. fs_fail ENOSPC"
        "\<lambda>_ _ _. fs_fail ENOTSUP"]
    unfolding dir_example_map(1) n x(1) by (auto split: if_splits)
qed

text \<open>C6: Removing a name from a linear directory deletes exactly its first entry and keeps every other entry and
  the well-formedness of all blocks, or fails and changes nothing; it says \<^verbatim>\<open>ENOENT\<close> only when the name is
  not there.\<close>

theorem dir_remove_correct:
  assumes "map_valid fs ref" "dir_on fs ref (map_blocks fs ref)"
    "ext4_inode_is_type (fs_sb fs) (inode_at (ino_raw fs ref)) EXT4_INODE_MODE_DIRECTORY"
  shows "\<exists>e fs'. ext4_dir_remove_entry (dir_dblk X) dx ref name fs = (Ret (e, ref), fs') \<and>
    (if e = EOK then map_valid fs' ref \<and> map_blocks fs' ref = map_blocks fs ref \<and> dir_on fs' ref (map_blocks fs ref) \<and>
       (\<exists>vs i ws. names_on fs (map_blocks fs ref) = vs @ (name, i) # ws \<and> name \<notin> fst ` set vs \<and>
          names_on fs' (map_blocks fs ref) = vs @ ws)
     else (\<exists>m. fs' = fs\<lparr>fs_calls := m\<rparr>) \<and> (e = ENOENT \<longrightarrow> name \<notin> fst ` set (names_on fs (map_blocks fs ref))))"
  by (rule inode_map.remove_correct [OF assms])

theorem dir_remove_correct_witness:
  "\<exists>e fs'. ext4_dir_remove_entry (dir_dblk no_extents) (\<lambda>_ _. fs_fail ENOTSUP) iref_example [97] dir_example =
      (Ret (e, iref_example), fs') \<and>
    (if e = EOK then names_on fs' [9] = [] else (\<exists>m. fs' = dir_example\<lparr>fs_calls := m\<rparr>) \<and> e \<noteq> ENOENT)"
proof -
  have t: "ext4_inode_is_type (fs_sb dir_example) (inode_at (ino_raw dir_example iref_example)) EXT4_INODE_MODE_DIRECTORY"
    by (simp add: ext4_inode_is_type_def ext4_inode_type_def ext4_inode_get_mode_def)
      (simp add: dir_inode_example_def probe_example_def zero_sblock_def EXT4_SUPERBLOCK_OS_HURD_def
        EXT4_INODE_MODE_TYPE_MASK_def EXT4_INODE_MODE_DIRECTORY_def)
  have n: "names_on dir_example [9] = [([97], 12)]" by (simp add: names_on_def dir_example_block)
  obtain e fs' where w: "ext4_dir_remove_entry (dir_dblk no_extents) (\<lambda>_ _. fs_fail ENOTSUP) iref_example [97] dir_example =
      (Ret (e, iref_example), fs')"
    "if e = EOK then map_valid fs' iref_example \<and> map_blocks fs' iref_example = [9] \<and> dir_on fs' iref_example [9] \<and>
       (\<exists>vs i ws. [([97], 12)] = vs @ ([97], i) # ws \<and> [97] \<notin> fst ` set vs \<and> names_on fs' [9] = vs @ ws)
     else (\<exists>m. fs' = dir_example\<lparr>fs_calls := m\<rparr>) \<and> (e = ENOENT \<longrightarrow> [97 :: u8] \<notin> fst ` set [([97], 12 :: u32)])"
    using dir_remove_correct [OF dir_example_map(2) dir_example_on t, of no_extents "\<lambda>_ _. fs_fail ENOTSUP" "[97]"]
    unfolding dir_example_map(1) n by blast
  show ?thesis
  proof (cases "e = EOK")
    case True
    then obtain vs i ws where v: "[([97], 12)] = vs @ ([97], i) # ws" "names_on fs' [9] = vs @ ws" using w(2) by auto
    then have "vs = [] \<and> ws = []" by (cases vs) auto
    then show ?thesis using w(1) v True by auto
  next
    case False
    then show ?thesis using w by auto
  qed
qed

text \<open>C23: A name that a create added to a directory that did not have it is found by the next lookup, with the
  inode number of the child: the lookup may fail with an error, but never with \<^verbatim>\<open>ENOENT\<close>.\<close>

theorem dir_add_then_find:
  assumes "map_valid fs ref" "dir_on fs ref (map_blocks fs ref)" "length name \<le> 255" "ir_index child \<noteq> 0"
    "\<exists>b\<in>set (map_blocks fs ref). block_room (fs_sb fs) (fs_blk fs b) name"
    "name \<notin> fst ` set (names_on fs (map_blocks fs ref))"
    "ext4_dir_add_entry (dir_dblk X) append_dblk dxa ref name child fs = (Ret (EOK, ref), fs1)"
    "ext4_dir_find_entry (dir_dblk X) dxf ref name fs1 = (Ret (r, ref'), fs2)"
  shows "case r of Inl e \<Rightarrow> e \<noteq> ENOENT | Inr res \<Rightarrow> en_ino (fs_blk fs1 (dsr_block res)) (dsr_dentry res) = ir_index child"
  by (rule inode_map.add_then_find [OF assms])

lemma dir_example_add:
  obtains fs1 where "ext4_dir_add_entry (dir_dblk no_extents) (\<lambda>_. fs_fail ENOSPC) (\<lambda>_ _ _. fs_fail ENOTSUP) iref_example [98]
    iref_example dir_example = (Ret (EOK, iref_example), fs1)"
proof -
  have sb: "dir_sb (probe_example 0)" by (simp add: dir_sb_def)
  have x: "ir_index iref_example = 12" by (simp add: iref_example_def)
  have l: "length [98 :: u8] \<le> 255" "(12 :: u32) \<noteq> 0" by simp_all
  have g: "dir_dblk no_extents iref_example 0 dir_example = (Ret 9, dir_example)"
    by (simp add: dir_dblk_def ext4_fs_get_inode_dblk_idx_def ext4_fs_get_inode_dblk_idx_internal_def ir_bind_def ir_lift_def
        fs_gets_def ir_inode_def inoref_get_def dir_example_size uses_extents_def EXT4_INODE_DIRECT_BLOCK_COUNT_def
        ext4_inode_get_direct_block_def fs_mem_def ir_return_def)
      (simp add: dir_inode_example_def)
  obtain bs' where t: "ext4_dir_try_insert_entry (probe_example 0) 12 (ext4_inode_get_generation dir_inode_example) dir_block_example
      12 dir_inode_example [98] = Ret bs'"
    by (rule insert_good [OF sb dir_example_block(1) l, of 12 "ext4_inode_get_generation dir_inode_example" dir_inode_example])
      (use dir_example_block(3) in auto)
  have raw: "ino_raw (dir_example\<lparr>fs_calls := n\<rparr>) r = ino_raw dir_example r" for n r by (simp add: ino_raw_def)
  define c where "c = fs_calls dir_example"
  have ld: "dir_load (dir_dblk no_extents) iref_example 0 dir_example = (Ret (9, dir_block_example, True), dir_example\<lparr>fs_calls := Suc c\<rparr>)"
    by (simp add: dir_load_def fs_bind_def g ext4_trans_block_get_def fs_ask_def Let_def fs_return_def blk_get_def fs_gets_def
        inoref_get_def fs_mem_def ext4_dir_csum_verify_def c_def)
  have "insert_blocks (dir_dblk no_extents) iref_example iref_example [98] 1 0 dir_example =
      (Ret True, dir_example\<lparr>fs_calls := Suc c, fs_blk := (fs_blk dir_example)(9 := bs')\<rparr>)"
    by (simp add: fs_bind_def ld fs_gets_def inoref_get_def raw x t blk_put_def fs_modify_def blk_release_def fs_return_def)
  then show thesis
    using that by (simp add: ext4_dir_add_entry_def add_linear_def fs_bind_def fs_gets_def inoref_get_def dir_indexed_def
        dir_example_size fs_try_def fs_return_def del: insert_blocks.simps)
qed

theorem dir_add_then_find_witness:
  "\<exists>fs1 r fs2. ext4_dir_add_entry (dir_dblk no_extents) (\<lambda>_. fs_fail ENOSPC) (\<lambda>_ _ _. fs_fail ENOTSUP) iref_example [98]
      iref_example dir_example = (Ret (EOK, iref_example), fs1) \<and>
    ext4_dir_find_entry (dir_dblk no_extents) (\<lambda>_ _. fs_fail ENOTSUP) iref_example [98] fs1 = (Ret (r, iref_example), fs2) \<and>
    (case r of Inl e \<Rightarrow> e \<noteq> ENOENT | Inr res \<Rightarrow> en_ino (fs_blk fs1 (dsr_block res)) (dsr_dentry res) = 12)"
proof -
  obtain fs1 where a: "ext4_dir_add_entry (dir_dblk no_extents) (\<lambda>_. fs_fail ENOSPC) (\<lambda>_ _ _. fs_fail ENOTSUP) iref_example [98]
      iref_example dir_example = (Ret (EOK, iref_example), fs1)"
    by (rule dir_example_add)
  have x: "ir_index iref_example = 12" "length [98 :: u8] \<le> 255" "(12 :: u32) \<noteq> 0" by (simp_all add: iref_example_def)
  note i = x(3) [folded x(1)]
  have r: "\<exists>b\<in>set (map_blocks dir_example iref_example). block_room (fs_sb dir_example) (fs_blk dir_example b) [98]"
    by (simp add: dir_example_map(1) dir_example_block)
  have new: "[98] \<notin> fst ` set (names_on dir_example (map_blocks dir_example iref_example))"
    by (simp add: dir_example_map(1) names_on_def dir_example_block)
  have v: "map_valid fs1 iref_example" "dir_on fs1 iref_example (map_blocks fs1 iref_example)"
    using inode_map.add_correct [OF dir_example_map(2) dir_example_on x(2) i r, of no_extents "\<lambda>_. fs_fail ENOSPC"
      "\<lambda>_ _ _. fs_fail ENOTSUP"] a by auto
  obtain s m where f: "ext4_dir_find_entry (dir_dblk no_extents) (\<lambda>_ _. fs_fail ENOTSUP) iref_example [98] fs1 =
      (Ret (s, iref_example), fs1\<lparr>fs_calls := m\<rparr>)"
    using inode_map.find_correct [OF v, of no_extents "\<lambda>_ _. fs_fail ENOTSUP" "[98]"] by blast
  show ?thesis using a f dir_add_then_find [OF dir_example_map(2) dir_example_on x(2) i r new a f] unfolding x(1) by blast
qed

text \<open>C24: On any bytes whatsoever, the search of a block and the insertion into it end without an access outside
  the buffer and without a failed assertion, and an entry that the search found can always be removed.\<close>

theorem dir_walks_safe:
  assumes "12 \<le> bsize sb" "length bs = bsize sb" "length name \<le> 255"
  shows "ext4_dir_find_in_block sb name bs \<noteq> Crash \<and>
    ext4_dir_try_insert_entry sb dir gen bs index child name \<noteq> Crash \<and>
    (\<forall>pos. ext4_dir_find_in_block sb name bs = Ret pos \<longrightarrow> (\<exists>bs'. remove_in_block sb dir gen bs pos = Some (EOK, bs')))"
proof (intro conjI allI impI)
  show "ext4_dir_find_in_block sb name bs \<noteq> Crash" using find_walk_safe [of "bsize sb" bs] assms by (simp add: ext4_dir_find_in_block_def)
  show "ext4_dir_try_insert_entry sb dir gen bs index child name \<noteq> Crash"
    unfolding ext4_dir_try_insert_entry_def by (rule insert_walk_safe [OF assms])
  show "\<exists>bs'. remove_in_block sb dir gen bs pos = Some (EOK, bs')" if "ext4_dir_find_in_block sb name bs = Ret pos" for pos
    using remove_found [OF assms(1,2) that] by metis
qed

theorem dir_walks_safe_witness:
  "ext4_dir_find_in_block (probe_example 0) [97] (replicate 4096 0xFF) \<noteq> Crash \<and>
    ext4_dir_try_insert_entry (probe_example 0) 2 0 (replicate 4096 0xFF) 12 dir_inode_example [97] \<noteq> Crash"
  using dir_walks_safe [of "probe_example 0" "replicate 4096 0xFF" "[97]" 2 0 12 dir_inode_example] by simp

end
