(* ===== verification/Extent.thy ===== *)
theory Extent
  imports Inode_Map
begin

unbundle bit_operations_syntax

text \<open>
  The extent tree of an inode: \<^verbatim>\<open>ext4_extent.c\<close>.  A node is the 60 bytes of \<^verbatim>\<open>inode->blocks\<close> or a whole block; it
  starts with a header and holds entries of 12 bytes, indexes above and extents at the bottom.  A pointer
  into a node is the number of the entry, so that a comparison of pointers is one of numbers, and an access
  outside the node is \<open>Crash\<close>.  The path of a lookup is the array the code allocates, one element a level.
\<close>

section \<open>The structures on the medium\<close>

record ext4_extent =
  ee_first_block :: u32
  ee_block_count :: u16
  ee_start_hi :: u16
  ee_start_lo :: u32

record ext4_extent_index =
  ei_first_block :: u32
  ei_leaf_lo :: u32
  ei_leaf_hi :: u16
  ei_padding :: u16

record ext4_extent_header =
  eh_magic :: u16
  eh_entries_count :: u16
  eh_max_entries_count :: u16
  eh_depth :: u16
  eh_generation :: u32

definition extent_bytes :: "ext4_extent \<Rightarrow> bytes" where
  "extent_bytes e = le32 (ee_first_block e) @ le16 (ee_block_count e) @ le16 (ee_start_hi e) @ le32 (ee_start_lo e)"

definition index_bytes :: "ext4_extent_index \<Rightarrow> bytes" where
  "index_bytes x = le32 (ei_first_block x) @ le32 (ei_leaf_lo x) @ le16 (ei_leaf_hi x) @ le16 (ei_padding x)"

definition header_bytes :: "ext4_extent_header \<Rightarrow> bytes" where
  "header_bytes h = le16 (eh_magic h) @ le16 (eh_entries_count h) @ le16 (eh_max_entries_count h) @
     le16 (eh_depth h) @ le32 (eh_generation h)"

definition extent_of :: "bytes \<Rightarrow> nat \<Rightarrow> ext4_extent" where
  "extent_of bs o1 = \<lparr>ee_first_block = get_le32 bs o1, ee_block_count = get_le16 bs (o1 + 4),
     ee_start_hi = get_le16 bs (o1 + 6), ee_start_lo = get_le32 bs (o1 + 8)\<rparr>"

definition index_of :: "bytes \<Rightarrow> nat \<Rightarrow> ext4_extent_index" where
  "index_of bs o1 = \<lparr>ei_first_block = get_le32 bs o1, ei_leaf_lo = get_le32 bs (o1 + 4),
     ei_leaf_hi = get_le16 bs (o1 + 8), ei_padding = get_le16 bs (o1 + 10)\<rparr>"

definition header_of :: "bytes \<Rightarrow> ext4_extent_header" where
  "header_of bs = \<lparr>eh_magic = get_le16 bs 0, eh_entries_count = get_le16 bs 2,
     eh_max_entries_count = get_le16 bs 4, eh_depth = get_le16 bs 6, eh_generation = get_le32 bs 8\<rparr>"

text \<open>Entry \<open>n\<close> of a node, and the header, read and written with a check against the end of the node.\<close>

definition entry_off :: "nat \<Rightarrow> nat" where
  "entry_off n = 12 + 12 * n"

definition extent_at :: "bytes \<Rightarrow> nat \<Rightarrow> ext4_extent option" where
  "extent_at bs n = (if entry_off n + 12 \<le> length bs then Some (extent_of bs (entry_off n)) else None)"

definition extent_put :: "bytes \<Rightarrow> nat \<Rightarrow> ext4_extent \<Rightarrow> bytes option" where
  "extent_put bs n e = wrn bs (entry_off n) (extent_bytes e)"

definition index_at :: "bytes \<Rightarrow> nat \<Rightarrow> ext4_extent_index option" where
  "index_at bs n = (if entry_off n + 12 \<le> length bs then Some (index_of bs (entry_off n)) else None)"

definition index_put :: "bytes \<Rightarrow> nat \<Rightarrow> ext4_extent_index \<Rightarrow> bytes option" where
  "index_put bs n x = wrn bs (entry_off n) (index_bytes x)"

definition header_at :: "bytes \<Rightarrow> ext4_extent_header option" where
  "header_at bs = (if 12 \<le> length bs then Some (header_of bs) else None)"

definition header_put :: "bytes \<Rightarrow> ext4_extent_header \<Rightarrow> bytes option" where
  "header_put bs h = wrn bs 0 (header_bytes h)"

text \<open>\<^verbatim>\<open>memmove\<close> of \<open>n\<close> entries.\<close>

definition entries_move :: "bytes \<Rightarrow> nat \<Rightarrow> nat \<Rightarrow> nat \<Rightarrow> bytes option" where
  "entries_move bs dst src n = Option.bind (ldn bs (entry_off src) (12 * n)) (wrn bs (entry_off dst))"

section \<open>Accessors\<close>

definition EXT_INIT_MAX_LEN :: nat where "EXT_INIT_MAX_LEN = 32768"
definition EXT_UNWRITTEN_MAX_LEN :: nat where "EXT_UNWRITTEN_MAX_LEN = 32767"
definition EXT4_EXTENT_MAGIC :: u16 where "EXT4_EXTENT_MAGIC = 0xF30A"
definition EXT4_MAX_EXTENT_DEPTH :: nat where "EXT4_MAX_EXTENT_DEPTH = 5"

definition ext4_extent_get_first_block :: "ext4_extent \<Rightarrow> u32" where
  "ext4_extent_get_first_block e = ee_first_block e"

definition ext4_extent_set_first_block :: "ext4_extent \<Rightarrow> u32 \<Rightarrow> ext4_extent" where
  "ext4_extent_set_first_block e iblock = e\<lparr>ee_first_block := iblock\<rparr>"

definition ext4_extent_get_block_count :: "ext4_extent \<Rightarrow> u16" where
  "ext4_extent_get_block_count e =
     (if 32768 < ee_block_count e then ee_block_count e AND NOT 32768 else ee_block_count e)"

definition ext4_extent_set_block_count :: "ext4_extent \<Rightarrow> u16 \<Rightarrow> bool \<Rightarrow> ext4_extent" where
  "ext4_extent_set_block_count e count unwritten =
     (let e = e\<lparr>ee_block_count := count\<rparr>
      in if unwritten then e\<lparr>ee_block_count := ee_block_count e OR 32768\<rparr> else e)"

definition ext4_extent_get_start :: "ext4_extent \<Rightarrow> u64" where
  "ext4_extent_get_start e = push_bit 32 (ucast (ee_start_hi e)) OR ucast (ee_start_lo e)"

definition ext4_extent_set_start :: "ext4_extent \<Rightarrow> u64 \<Rightarrow> ext4_extent" where
  "ext4_extent_set_start e fblock =
     e\<lparr>ee_start_lo := ucast (drop_bit 32 (push_bit 32 fblock)), ee_start_hi := ucast (drop_bit 32 fblock)\<rparr>"

definition ext4_extent_index_get_first_block :: "ext4_extent_index \<Rightarrow> u32" where
  "ext4_extent_index_get_first_block x = ei_first_block x"

definition ext4_extent_index_set_first_block :: "ext4_extent_index \<Rightarrow> u32 \<Rightarrow> ext4_extent_index" where
  "ext4_extent_index_set_first_block x iblock = x\<lparr>ei_first_block := iblock\<rparr>"

definition ext4_extent_index_get_leaf :: "ext4_extent_index \<Rightarrow> u64" where
  "ext4_extent_index_get_leaf x = push_bit 32 (ucast (ei_leaf_hi x)) OR ucast (ei_leaf_lo x)"

definition ext4_extent_index_set_leaf :: "ext4_extent_index \<Rightarrow> u64 \<Rightarrow> ext4_extent_index" where
  "ext4_extent_index_set_leaf x fblock =
     x\<lparr>ei_leaf_lo := ucast (drop_bit 32 (push_bit 32 fblock)), ei_leaf_hi := ucast (drop_bit 32 fblock)\<rparr>"

definition ext4_extent_header_get_magic :: "ext4_extent_header \<Rightarrow> u16" where
  "ext4_extent_header_get_magic h = eh_magic h"

definition ext4_extent_header_set_magic :: "ext4_extent_header \<Rightarrow> u16 \<Rightarrow> ext4_extent_header" where
  "ext4_extent_header_set_magic h magic = h\<lparr>eh_magic := magic\<rparr>"

definition ext4_extent_header_get_entries_count :: "ext4_extent_header \<Rightarrow> u16" where
  "ext4_extent_header_get_entries_count h = eh_entries_count h"

definition ext4_extent_header_set_entries_count :: "ext4_extent_header \<Rightarrow> u16 \<Rightarrow> ext4_extent_header" where
  "ext4_extent_header_set_entries_count h count = h\<lparr>eh_entries_count := count\<rparr>"

definition ext4_extent_header_get_max_entries_count :: "ext4_extent_header \<Rightarrow> u16" where
  "ext4_extent_header_get_max_entries_count h = eh_max_entries_count h"

definition ext4_extent_header_set_max_entries_count :: "ext4_extent_header \<Rightarrow> u16 \<Rightarrow> ext4_extent_header" where
  "ext4_extent_header_set_max_entries_count h max_count = h\<lparr>eh_max_entries_count := max_count\<rparr>"

definition ext4_extent_header_get_depth :: "ext4_extent_header \<Rightarrow> u16" where
  "ext4_extent_header_get_depth h = eh_depth h"

definition ext4_extent_header_set_depth :: "ext4_extent_header \<Rightarrow> u16 \<Rightarrow> ext4_extent_header" where
  "ext4_extent_header_set_depth h depth = h\<lparr>eh_depth := depth\<rparr>"

definition ext4_extent_header_get_generation :: "ext4_extent_header \<Rightarrow> u32" where
  "ext4_extent_header_get_generation h = eh_generation h"

definition ext4_extent_header_set_generation :: "ext4_extent_header \<Rightarrow> u32 \<Rightarrow> ext4_extent_header" where
  "ext4_extent_header_set_generation h generation = h\<lparr>eh_generation := generation\<rparr>"

text \<open>The high bit of the length marks an extent that is allocated but not written; the length \<open>0x8000\<close> is a
  written one.\<close>

definition ext4_ext_get_actual_len :: "ext4_extent \<Rightarrow> u16" where
  "ext4_ext_get_actual_len e =
     (if ee_block_count e \<le> 32768 then ee_block_count e else ee_block_count e - 32768)"

definition ext4_ext_mark_initialized :: "ext4_extent \<Rightarrow> ext4_extent" where
  "ext4_ext_mark_initialized e = e\<lparr>ee_block_count := ext4_ext_get_actual_len e\<rparr>"

definition ext4_ext_mark_unwritten :: "ext4_extent \<Rightarrow> ext4_extent" where
  "ext4_ext_mark_unwritten e = e\<lparr>ee_block_count := ee_block_count e OR 32768\<rparr>"

definition ext4_ext_is_unwritten :: "ext4_extent \<Rightarrow> bool" where
  "ext4_ext_is_unwritten e \<longleftrightarrow> 32768 < ee_block_count e"

definition ext4_ext_pblock :: "ext4_extent \<Rightarrow> u64" where
  "ext4_ext_pblock e = ucast (ee_start_lo e) OR push_bit 1 (push_bit 31 (ucast (ee_start_hi e)))"

definition ext4_idx_pblock :: "ext4_extent_index \<Rightarrow> u64" where
  "ext4_idx_pblock x = ucast (ei_leaf_lo x) OR push_bit 1 (push_bit 31 (ucast (ei_leaf_hi x)))"

definition ext4_ext_store_pblock :: "ext4_extent \<Rightarrow> u64 \<Rightarrow> ext4_extent" where
  "ext4_ext_store_pblock e pb =
     e\<lparr>ee_start_lo := ucast (pb AND 0xFFFFFFFF), ee_start_hi := ucast (drop_bit 32 pb) AND 0xFFFF\<rparr>"

definition ext4_idx_store_pblock :: "ext4_extent_index \<Rightarrow> u64 \<Rightarrow> ext4_extent_index" where
  "ext4_idx_store_pblock x pb =
     x\<lparr>ei_leaf_lo := ucast (pb AND 0xFFFFFFFF), ei_leaf_hi := ucast (drop_bit 32 pb) AND 0xFFFF\<rparr>"

text \<open>\<^verbatim>\<open>IN_RANGE\<close> on \<^verbatim>\<open>uint32_t\<close>; the length is promoted and the sum wraps.\<close>

definition in_range :: "u32 \<Rightarrow> u32 \<Rightarrow> u16 \<Rightarrow> bool" where
  "in_range b first len \<longleftrightarrow> first \<le> b \<and> b \<le> first + ucast len - 1"

section \<open>Capacities\<close>

definition ext4_ext_space_block :: "ext4_sblock \<Rightarrow> u16" where
  "ext4_ext_space_block sb = ucast ((ucast (ext4_sb_get_block_size sb) - 12 :: u64) div 12)"

definition ext4_ext_space_block_idx :: "ext4_sblock \<Rightarrow> u16" where
  "ext4_ext_space_block_idx sb = ucast ((ucast (ext4_sb_get_block_size sb) - 12 :: u64) div 12)"

definition ext4_ext_space_root :: u16 where "ext4_ext_space_root = (60 - 12) div 12"
definition ext4_ext_space_root_idx :: u16 where "ext4_ext_space_root_idx = (60 - 12) div 12"

text \<open>A node at depth \<open>depth\<close> is the root exactly when it is at the depth of the tree.\<close>

definition ext4_ext_max_entries :: "ext4_sblock \<Rightarrow> u16 \<Rightarrow> u32 \<Rightarrow> u16" where
  "ext4_ext_max_entries sb root_depth depth =
     (if depth = ucast root_depth then if depth = 0 then ext4_ext_space_root else ext4_ext_space_root_idx
      else if depth = 0 then ext4_ext_space_block sb else ext4_ext_space_block_idx sb)"

section \<open>The checksum and the check of a node\<close>

definition tail_off :: "ext4_extent_header \<Rightarrow> nat" where
  "tail_off h = 12 + 12 * unat (eh_max_entries_count h)"

definition ext4_ext_block_csum :: "ext4_sblock \<Rightarrow> u32 \<Rightarrow> u32 \<Rightarrow> bytes \<Rightarrow> u32 option" where
  "ext4_ext_block_csum sb ino_index ino_gen bs =
     (if ext4_sb_feature_ro_com sb EXT4_FRO_COM_METADATA_CSUM then
        Option.bind (header_at bs) (\<lambda>h. map_option
          (ext4_crc32c (ext4_crc32c (ext4_crc32c (ext4_sb_csum_seed sb) (le32 ino_index)) (le32 ino_gen)))
          (ldn bs 0 (tail_off h)))
      else Some 0)"

definition ext4_extent_block_csum_set :: "ext4_sblock \<Rightarrow> u32 \<Rightarrow> u32 \<Rightarrow> bytes \<Rightarrow> bytes option" where
  "ext4_extent_block_csum_set sb ino_index ino_gen bs =
     Option.bind (header_at bs) (\<lambda>h.
     Option.bind (ext4_ext_block_csum sb ino_index ino_gen bs) (\<lambda>c. wrn bs (tail_off h) (le32 c)))"

text \<open>A wrong checksum is only logged, but computing it reads the node up to its tail; block 0 stands for
  the root, which has none.\<close>

definition check_tail :: "ext4_sblock \<Rightarrow> u32 \<Rightarrow> u32 \<Rightarrow> bytes \<Rightarrow> u64 \<Rightarrow> unit option" where
  "check_tail sb ino_index ino_gen bs pblk =
     (if pblk \<noteq> 0 \<and> ext4_sb_feature_ro_com sb EXT4_FRO_COM_METADATA_CSUM then
        Option.bind (header_at bs) (\<lambda>h.
        Option.bind (ld32 bs (tail_off h)) (\<lambda>_.
        map_option (\<lambda>_. ()) (ext4_ext_block_csum sb ino_index ino_gen bs)))
      else Some ())"

definition ext4_ext_check :: "ext4_sblock \<Rightarrow> u32 \<Rightarrow> u32 \<Rightarrow> u16 \<Rightarrow> bytes \<Rightarrow> u16 \<Rightarrow> u64 \<Rightarrow> errno option" where
  "ext4_ext_check sb ino_index ino_gen root_depth bs depth pblk =
     Option.bind (header_at bs) (\<lambda>eh.
     if eh_magic eh \<noteq> EXT4_EXTENT_MAGIC then Some EIO
     else if eh_depth eh \<noteq> depth then Some EIO
     else if eh_max_entries_count eh = 0 then Some EIO
     else if ext4_ext_max_entries sb root_depth (ucast depth) < eh_max_entries_count eh then Some EIO
     else if eh_max_entries_count eh < eh_entries_count eh then Some EIO
     else map_option (\<lambda>_. EOK) (check_tail sb ino_index ino_gen bs pblk))"

section \<open>Binary search\<close>

text \<open>The loop of both searches, with \<open>r\<close> one past the pointer of the code: the last entry whose key is not
  above \<open>block\<close>, the first entry when there is none.\<close>

function ext_bsearch :: "(nat \<Rightarrow> u32 option) \<Rightarrow> u32 \<Rightarrow> nat \<Rightarrow> nat \<Rightarrow> nat option" where
  "ext_bsearch key block l r =
     (if l < r then
        let m = l + (r - 1 - l) div 2
        in case key m of None \<Rightarrow> None
           | Some k \<Rightarrow> if block < k then ext_bsearch key block l m else ext_bsearch key block (m + 1) r
      else Some (l - 1))"
  by pat_completeness auto
termination
proof (relation "measure (\<lambda>(key, block, l, r). r - l)")
  fix key :: "nat \<Rightarrow> u32 option" and block k :: u32 and l r m :: nat
  assume l: "l < r" and m: "m = l + (r - 1 - l) div 2"
  have "(r - 1 - l) div 2 \<le> r - 1 - l" by simp
  then have "l \<le> m" "m < r" using l m by linarith+
  then show "((key, block, l, m), (key, block, l, r)) \<in> measure (\<lambda>(key, block, l, r). r - l)"
    "((key, block, m + 1, r), (key, block, l, r)) \<in> measure (\<lambda>(key, block, l, r). r - l)" by simp_all
qed simp

declare ext_bsearch.simps [simp del]

definition ext4_ext_binsearch_idx :: "bytes \<Rightarrow> u32 \<Rightarrow> nat option" where
  "ext4_ext_binsearch_idx bs block =
     Option.bind (header_at bs) (\<lambda>eh.
     ext_bsearch (\<lambda>m. map_option ei_first_block (index_at bs m)) block 1 (unat (eh_entries_count eh)))"

text \<open>An empty leaf leaves the pointer alone, which the caller has set to \<^verbatim>\<open>NULL\<close>.\<close>

definition ext4_ext_binsearch :: "bytes \<Rightarrow> u32 \<Rightarrow> nat option option" where
  "ext4_ext_binsearch bs block =
     Option.bind (header_at bs) (\<lambda>eh.
     if eh_entries_count eh = 0 then Some None
     else map_option Some
       (ext_bsearch (\<lambda>m. map_option ee_first_block (extent_at bs m)) block 1 (unat (eh_entries_count eh))))"

end
