(* ===== verification/Extent_Tree.thy ===== *)
theory Extent_Tree
  imports Extent
begin

unbundle bit_operations_syntax

text \<open>
  The operations on the extent tree: finding an extent, inserting one with the splitting of nodes and the
  growth of the tree, removing a range, converting an unwritten range, and the entry points
  \<^verbatim>\<open>ext4_extent_get_blocks\<close>, \<^verbatim>\<open>ext4_extent_map_range\<close>, \<^verbatim>\<open>ext4_extent_mark_written\<close>, \<^verbatim>\<open>ext4_extent_preallocate\<close>,
  \<^verbatim>\<open>ext4_extent_probe\<close> and \<^verbatim>\<open>ext4_extent_remove_space\<close>.
\<close>

section \<open>Nodes and paths\<close>

text \<open>Where the header of a path element points: into the inode or into a block.\<close>

datatype ext_node = In_Inode | In_Block u64

text \<open>\<open>p_lb\<close> is \<^verbatim>\<open>block.lb_id\<close>, 0 when no block is held; \<open>p_dirty\<close> says that the block was marked dirty through
  this element.\<close>

record ext4_extent_path =
  p_block :: u64
  p_lb :: u64
  p_dirty :: bool
  p_depth :: nat
  p_maxdepth :: nat
  p_header :: ext_node
  p_index :: "nat option"
  p_extent :: "nat option"

definition no_path :: ext4_extent_path where
  "no_path = \<lparr>p_block = 0, p_lb = 0, p_dirty = False, p_depth = 0, p_maxdepth = 0, p_header = In_Inode,
     p_index = None, p_extent = None\<rparr>"

type_synonym ext_path = "ext4_extent_path list"

definition ir_mem :: "'a option \<Rightarrow> 'a irm" where
  "ir_mem x = ir_lift (fs_mem x)"

text \<open>A call whose return code the caller looks at, and one whose return code nobody looks at.\<close>

definition ir_try :: "'a irm \<Rightarrow> (errno + 'a) irm" where
  "ir_try m ref fs = (case m ref fs of (Ret x, s) \<Rightarrow> (Ret (Inr x), s) | (Err e, s) \<Rightarrow> (Ret (Inl e), s) | (Crash, s) \<Rightarrow> (Crash, s))"

definition ir_ignore :: "'a irm \<Rightarrow> unit irm" where
  "ir_ignore m ref fs = (case m ref fs of (Crash, s) \<Rightarrow> (Crash, s) | (_, s) \<Rightarrow> (Ret (), s))"

definition ir_free_blocks :: "u64 \<Rightarrow> u32 \<Rightarrow> unit irm" where
  "ir_free_blocks b n = ir_call (\<lambda>ref. fs_bind (ext4_balloc_free_blocks ref b n) (\<lambda>ref. fs_return (ref, ())))"

definition node_get :: "ext_node \<Rightarrow> bytes irm" where
  "node_get h = (case h of In_Inode \<Rightarrow> ir_bind ir_inode (\<lambda>ino. ir_return (concat (map le32 (i_blocks ino))))
     | In_Block b \<Rightarrow> ir_lift (blk_get b))"

definition node_put :: "ext_node \<Rightarrow> bytes \<Rightarrow> unit irm" where
  "node_put h bs = (case h of
       In_Inode \<Rightarrow> ir_bind ir_inode (\<lambda>ino. ir_set_inode (ino\<lparr>i_blocks := map (\<lambda>k. get_le32 bs (4 * k)) [0..<15]\<rparr>))
     | In_Block b \<Rightarrow> ir_lift (blk_put b bs))"

definition node_upd :: "ext_node \<Rightarrow> (bytes \<Rightarrow> bytes option) \<Rightarrow> unit irm" where
  "node_upd h f = ir_bind (node_get h) (\<lambda>bs. ir_bind (ir_mem (f bs)) (node_put h))"

definition node_header :: "ext_node \<Rightarrow> ext4_extent_header irm" where
  "node_header h = ir_bind (node_get h) (\<lambda>bs. ir_mem (header_at bs))"

definition node_extent :: "ext_node \<Rightarrow> nat \<Rightarrow> ext4_extent irm" where
  "node_extent h n = ir_bind (node_get h) (\<lambda>bs. ir_mem (extent_at bs n))"

definition node_index :: "ext_node \<Rightarrow> nat \<Rightarrow> ext4_extent_index irm" where
  "node_index h n = ir_bind (node_get h) (\<lambda>bs. ir_mem (index_at bs n))"

definition ext_depth :: "u16 irm" where
  "ext_depth = ir_bind (node_header In_Inode) (\<lambda>h. ir_return (eh_depth h))"

definition path_at :: "ext_path \<Rightarrow> nat \<Rightarrow> ext4_extent_path irm" where
  "path_at p i = (if i < length p then ir_return (p ! i) else ir_crash)"

definition ir_deref :: "'a option \<Rightarrow> 'a irm" where
  "ir_deref x = (case x of None \<Rightarrow> ir_crash | Some v \<Rightarrow> ir_return v)"

text \<open>The identity of the inode in checksums.\<close>

definition ext_ids :: "(ext4_sblock \<times> u32 \<times> u32) irm" where
  "ext_ids ref = ir_bind (ir_lift (fs_gets fs_sb)) (\<lambda>sb. ir_bind ir_inode (\<lambda>ino.
     ir_return (sb, ir_index ref, ext4_inode_get_generation ino))) ref"

section \<open>Releasing a path\<close>

definition ext4_ext_dirty :: "ext4_extent_path \<Rightarrow> ext4_extent_path irm" where
  "ext4_ext_dirty c = (if p_lb c \<noteq> 0 then ir_return (c\<lparr>p_dirty := True\<rparr>) else ir_bind ir_mark_dirty (\<lambda>_. ir_return c))"

text \<open>\<^verbatim>\<open>BC_DIRTY\<close> of a held block: set through the handle, or still set from before the block was fetched.\<close>

definition held_dirty :: "ext4_extent_path \<Rightarrow> bool irm" where
  "held_dirty c = ir_lift (fs_gets (\<lambda>fs. p_dirty c \<or> fs_was_dirty fs (fs_calls fs) (p_lb c)))"

definition csum_set_node :: "ext_node \<Rightarrow> unit irm" where
  "csum_set_node h = ir_bind ext_ids (\<lambda>(sb, i, g). node_upd h (ext4_extent_block_csum_set sb i g))"

definition drop_ref :: "ext4_extent_path \<Rightarrow> ext4_extent_path irm" where
  "drop_ref c =
     (if p_lb c \<noteq> 0 then
        ir_bind (held_dirty c) (\<lambda>d.
        ir_bind (if d then csum_set_node (p_header c) else ir_return ()) (\<lambda>_.
        ir_bind (ir_lift (blk_release (p_lb c))) (\<lambda>_. ir_return (c\<lparr>p_lb := 0, p_dirty := False\<rparr>))))
      else ir_return c)"

fun drop_each :: "ext_path \<Rightarrow> ext_path irm" where
  "drop_each [] = ir_return []"
| "drop_each (c # cs) = ir_bind (drop_ref c) (\<lambda>c. ir_bind (drop_each cs) (\<lambda>cs. ir_return (c # cs)))"

text \<open>\<^verbatim>\<open>ext4_ext_drop_refs(path + i, keep_other)\<close>.\<close>

definition ext4_ext_drop_refs :: "ext_path \<Rightarrow> nat \<Rightarrow> bool \<Rightarrow> ext_path irm" where
  "ext4_ext_drop_refs p i keep_other =
     ir_bind (path_at p i) (\<lambda>c.
     let n = (if keep_other then 1 else Suc (p_depth c))
     in if length p < i + n then ir_crash
        else ir_bind (drop_each (take n (drop i p))) (\<lambda>cs. ir_return (take i p @ cs @ drop (i + n) p)))"

definition drop_path :: "ext_path option \<Rightarrow> unit irm" where
  "drop_path p = (case p of None \<Rightarrow> ir_return () | Some p \<Rightarrow> ir_bind (ext4_ext_drop_refs p 0 False) (\<lambda>_. ir_return ()))"

section \<open>Finding an extent\<close>

definition read_extent_tree_block :: "u64 \<Rightarrow> u16 \<Rightarrow> u64 irm" where
  "read_extent_tree_block pblk depth =
     ir_bind (ir_lift (ext4_trans_block_get pblk)) (\<lambda>b.
     ir_bind ext_ids (\<lambda>(sb, i, g).
     ir_bind ext_depth (\<lambda>root_depth.
     ir_bind (node_get (In_Block b)) (\<lambda>bs.
     ir_bind (ir_mem (ext4_ext_check sb i g root_depth bs depth pblk)) (\<lambda>e.
     if e \<noteq> EOK then ir_bind (ir_lift (blk_release b)) (\<lambda>_. ir_fail e) else ir_return b)))))"

text \<open>The walk from the element \<open>ppos\<close> at height \<open>i\<close> down to the leaf.  An error releases the path and frees
  it.\<close>

fun find_levels :: "nat \<Rightarrow> nat \<Rightarrow> nat \<Rightarrow> u32 \<Rightarrow> ext_path \<Rightarrow> (errno \<times> ext_path option) irm" where
  "find_levels depth 0 ppos block p =
     ir_bind (path_at p ppos) (\<lambda>c.
     ir_bind (node_get (p_header c)) (\<lambda>bs.
     ir_bind (ir_mem (ext4_ext_binsearch bs block)) (\<lambda>ex.
     let c = c\<lparr>p_depth := 0, p_index := None, p_extent := ex\<rparr>
     in case ex of None \<Rightarrow> ir_return (EOK, Some (p[ppos := c]))
        | Some n \<Rightarrow> ir_bind (ir_mem (extent_at bs n)) (\<lambda>e.
            ir_return (EOK, Some (p[ppos := c\<lparr>p_block := ext4_ext_pblock e\<rparr>]))))))"
| "find_levels depth (Suc i) ppos block p =
     ir_bind (path_at p ppos) (\<lambda>c.
     ir_bind (node_get (p_header c)) (\<lambda>bs.
     ir_bind (ir_mem (ext4_ext_binsearch_idx bs block)) (\<lambda>n.
     ir_bind (ir_mem (index_at bs n)) (\<lambda>ix.
     let buf_block = ext4_idx_pblock ix;
         p = p[ppos := c\<lparr>p_index := Some n, p_block := buf_block, p_depth := Suc i, p_extent := None\<rparr>]
     in ir_bind (path_at p (Suc ppos)) (\<lambda>c1.
        if p_lb c1 = 0 \<or> p_lb c1 \<noteq> buf_block then
          ir_bind (ir_try (read_extent_tree_block buf_block (of_nat i))) (\<lambda>r.
          case r of
            Inl e \<Rightarrow> ir_bind (drop_path (Some p)) (\<lambda>_. ir_return (e, None))
          | Inr b \<Rightarrow>
              if depth < Suc ppos then
                ir_bind (ir_lift (blk_release b)) (\<lambda>_. ir_bind (drop_path (Some p)) (\<lambda>_. ir_return (EIO, None)))
              else find_levels depth i (Suc ppos) block (p[Suc ppos := c1\<lparr>p_lb := b, p_dirty := False, p_header := In_Block b\<rparr>]))
        else find_levels depth i (Suc ppos) block p)))))"

text \<open>An allocation of memory may fail.\<close>

definition mem_alloc :: "unit irm" where
  "mem_alloc = ir_bind (ir_try (ir_lift fs_ask)) (\<lambda>r. case r of Inl _ \<Rightarrow> ir_fail ENOMEM | Inr _ \<Rightarrow> ir_return ())"

text \<open>The path of the caller is used again when it is long enough.\<close>

definition reuse_path :: "nat \<Rightarrow> ext_path option \<Rightarrow> ext_path option irm" where
  "reuse_path depth path = (case path of None \<Rightarrow> ir_return None
     | Some p \<Rightarrow> ir_bind (ext4_ext_drop_refs p 0 False) (\<lambda>p.
         if p_maxdepth (p ! 0) < depth then ir_return None else ir_return (Some p)))"

definition new_path :: "nat \<Rightarrow> ext_path" where
  "new_path depth = (replicate (depth + 2) no_path)[0 := no_path\<lparr>p_maxdepth := depth + 1\<rparr>]"

definition ext4_find_extent :: "u32 \<Rightarrow> ext_path option \<Rightarrow> (errno \<times> ext_path option) irm" where
  "ext4_find_extent block path =
     ir_bind (node_get In_Inode) (\<lambda>root.
     ir_bind ext_depth (\<lambda>root_depth.
     let depth = unat root_depth
     in if EXT4_MAX_EXTENT_DEPTH < depth then ir_return (EIO, path)
        else
          ir_bind ext_ids (\<lambda>(sb, i, g).
          ir_bind (ir_mem (ext4_ext_check sb i g root_depth root root_depth 0)) (\<lambda>e.
          if e \<noteq> EOK then ir_return (e, path)
          else
            ir_bind (reuse_path depth path) (\<lambda>path.
            ir_bind (case path of Some p \<Rightarrow> ir_return (Inr p)
                     | None \<Rightarrow> ir_try (ir_bind mem_alloc (\<lambda>_. ir_return (new_path depth)))) (\<lambda>r.
            case r of Inl e \<Rightarrow> ir_return (e, None)
            | Inr p \<Rightarrow>
                ir_bind (path_at p 0) (\<lambda>c.
                find_levels depth depth 0 block (p[0 := c\<lparr>p_header := In_Inode, p_lb := 0, p_dirty := False\<rparr>]))))))))"

section \<open>Where to allocate\<close>

definition ext4_ext_find_goal :: "ext_path \<Rightarrow> u32 \<Rightarrow> u64 irm" where
  "ext4_ext_find_goal p block =
     ir_bind (path_at p 0) (\<lambda>c0.
     ir_bind (path_at p (p_depth c0)) (\<lambda>c.
     case p_extent c of
       Some n \<Rightarrow> ir_bind (node_extent (p_header c) n) (\<lambda>ex.
         let ext_pblk = ext4_ext_pblock ex; ext_block = ee_first_block ex
         in ir_return (if ext_block < block then ext_pblk + ucast (block - ext_block) else ext_pblk - ucast (ext_block - block)))
     | None \<Rightarrow>
         if p_lb c \<noteq> 0 then ir_return (p_lb c)
         else ir_bind (ir_lift (fs_gets fs_sb)) (\<lambda>sb.
           if s_inodes_per_group sb = 0 then ir_crash else (\<lambda>ref. ir_return (ext4_fs_inode_to_goal_block sb ref) ref))))"

text \<open>One block, 0 with the error when there is none.\<close>

definition ext4_new_meta_blocks :: "u64 \<Rightarrow> (u64 \<times> errno) irm" where
  "ext4_new_meta_blocks goal =
     ir_bind (ir_try (ir_alloc goal)) (\<lambda>r. ir_return (case r of Inl e \<Rightarrow> (0, e) | Inr b \<Rightarrow> (b, EOK)))"

definition ext4_ext_new_meta_block :: "ext_path \<Rightarrow> ext4_extent \<Rightarrow> (u64 \<times> errno) irm" where
  "ext4_ext_new_meta_block p ex =
     ir_bind (ext4_ext_find_goal p (ee_first_block ex)) ext4_new_meta_blocks"

definition ext4_ext_free_blocks :: "u64 \<Rightarrow> u32 \<Rightarrow> unit irm" where
  "ext4_ext_free_blocks block count = ir_ignore (ir_free_blocks block count)"

section \<open>Changing one node\<close>

definition ext4_ext_init_header :: "ext4_sblock \<Rightarrow> u16 \<Rightarrow> bytes \<Rightarrow> nat \<Rightarrow> bytes option" where
  "ext4_ext_init_header sb root_depth bs depth =
     Option.bind (header_at bs) (\<lambda>eh. header_put bs (eh\<lparr>eh_entries_count := 0,
       eh_max_entries_count := ext4_ext_max_entries sb root_depth (of_nat depth),
       eh_magic := EXT4_EXTENT_MAGIC, eh_depth := of_nat depth\<rparr>))"

definition set_entries_count :: "bytes \<Rightarrow> u16 \<Rightarrow> bytes option" where
  "set_entries_count bs n = Option.bind (header_at bs) (\<lambda>eh. header_put bs (eh\<lparr>eh_entries_count := n\<rparr>))"

definition ext4_ext_can_append :: "ext4_extent \<Rightarrow> ext4_extent \<Rightarrow> bool" where
  "ext4_ext_can_append ex1 ex2 =
     (let l1 = ext4_ext_get_actual_len ex1; l2 = ext4_ext_get_actual_len ex2
      in if ext4_ext_is_unwritten ex1 \<noteq> ext4_ext_is_unwritten ex2 then False
         else if ext4_ext_pblock ex1 + ucast l1 \<noteq> ext4_ext_pblock ex2 then False
         else if (if ext4_ext_is_unwritten ex1 then EXT_UNWRITTEN_MAX_LEN else EXT_INIT_MAX_LEN) < unat l1 + unat l2 then False
         else ee_first_block ex1 + ucast l1 = ee_first_block ex2)"

definition ext4_ext_can_prepend :: "ext4_extent \<Rightarrow> ext4_extent \<Rightarrow> bool" where
  "ext4_ext_can_prepend ex1 ex2 =
     (let l1 = ext4_ext_get_actual_len ex1; l2 = ext4_ext_get_actual_len ex2
      in if ext4_ext_is_unwritten ex1 \<noteq> ext4_ext_is_unwritten ex2 then False
         else if ext4_ext_pblock ex2 + ucast l2 \<noteq> ext4_ext_pblock ex1 then False
         else if (if ext4_ext_is_unwritten ex1 then EXT_UNWRITTEN_MAX_LEN else EXT_INIT_MAX_LEN) < unat l1 + unat l2 then False
         else ee_first_block ex2 + ucast l2 = ee_first_block ex1)"

text \<open>The extent with the blocks of another one: its length grows, its state stays.\<close>

definition add_len :: "ext4_extent \<Rightarrow> ext4_extent \<Rightarrow> ext4_extent" where
  "add_len ex other =
     (let ex' = ex\<lparr>ee_block_count := ext4_ext_get_actual_len ex + ext4_ext_get_actual_len other\<rparr>
      in if ext4_ext_is_unwritten ex then ext4_ext_mark_unwritten ex' else ex')"

definition merge_extent :: "ext4_extent \<Rightarrow> ext4_extent \<Rightarrow> ext4_extent option" where
  "merge_extent cur newext =
     (if ext4_ext_can_append cur newext then Some (add_len cur newext)
      else if ext4_ext_can_prepend cur newext
      then Some ((add_len cur newext)\<lparr>ee_first_block := ee_first_block newext\<rparr>)
      else None)"

text \<open>Open a gap at entry \<open>n\<close> of a node that has room, for an extent or an index.\<close>

definition open_entry :: "bytes \<Rightarrow> nat \<Rightarrow> bytes option" where
  "open_entry bs n =
     Option.bind (header_at bs) (\<lambda>eh.
     let entries = unat (eh_entries_count eh)
     in if entries < n then None
        else if n < entries then entries_move bs (n + 1) n (entries - n) else Some bs)"

definition leaf_put :: "bytes \<Rightarrow> nat \<Rightarrow> ext4_extent \<Rightarrow> (errno \<times> bytes) option" where
  "leaf_put bs n newext =
     Option.bind (header_at bs) (\<lambda>eh.
     Option.bind (open_entry bs n) (\<lambda>bs.
     if unat (eh_max_entries_count eh) \<le> n then Some (EIO, bs)
     else
       Option.bind (extent_put bs n (ext4_ext_store_pblock newext (ext4_ext_pblock newext))) (\<lambda>bs.
       map_option (Pair (if unat (eh_entries_count eh + 1) \<le> n then EIO else EOK))
         (set_entries_count bs (eh_entries_count eh + 1)))))"

definition node_index_put :: "bytes \<Rightarrow> nat \<Rightarrow> u32 \<Rightarrow> u64 \<Rightarrow> (errno \<times> bytes) option" where
  "node_index_put bs n insert_index insert_block =
     Option.bind (header_at bs) (\<lambda>eh.
     Option.bind (open_entry bs n) (\<lambda>bs.
     Option.bind (index_at bs n) (\<lambda>ix.
     Option.bind (index_put bs n (ext4_idx_store_pblock (ix\<lparr>ei_first_block := insert_index\<rparr>) insert_block)) (\<lambda>bs.
     map_option (Pair (if unat (eh_entries_count eh + 1) \<le> n then EIO else EOK))
       (set_entries_count bs (eh_entries_count eh + 1))))))"

definition set_index_key :: "nat \<Rightarrow> u32 \<Rightarrow> bytes \<Rightarrow> bytes option" where
  "set_index_key n border bs =
     Option.bind (index_at bs n) (\<lambda>ix. index_put bs n (ix\<lparr>ei_first_block := border\<rparr>))"

text \<open>Move \<open>m\<close> entries from entry \<open>src\<close> of one node to entry \<open>dst\<close> of another.\<close>

definition move_tail :: "bytes \<Rightarrow> bytes \<Rightarrow> nat \<Rightarrow> nat \<Rightarrow> nat \<Rightarrow> (bytes \<times> bytes) option" where
  "move_tail old new src dst m =
     Option.bind (ldn old (entry_off src) (12 * m)) (\<lambda>es.
     Option.bind (wrn new (entry_off dst) es) (\<lambda>new.
     Option.bind (header_at new) (\<lambda>neh.
     Option.bind (set_entries_count new (eh_entries_count neh + of_nat m)) (\<lambda>new.
     Option.bind (header_at old) (\<lambda>oeh.
     map_option (\<lambda>old. (old, new)) (set_entries_count old (eh_entries_count oeh - of_nat m)))))))"

section \<open>Inserting into a leaf\<close>

text \<open>Correct the keys above a leaf whose first extent was changed.\<close>

fun correct_up :: "nat \<Rightarrow> u32 \<Rightarrow> ext_path \<Rightarrow> ext_path irm" where
  "correct_up 0 border p = ir_return p"
| "correct_up (Suc k) border p =
     ir_bind (path_at p (Suc k)) (\<lambda>c1.
     if p_index c1 \<noteq> Some 0 then ir_return p
     else
       ir_bind (path_at p k) (\<lambda>c.
       ir_bind (ir_deref (p_index c)) (\<lambda>n.
       ir_bind (node_upd (p_header c) (set_index_key n border)) (\<lambda>_.
       ir_bind (ext4_ext_dirty c) (\<lambda>c. correct_up k border (p[k := c]))))))"

definition ext4_ext_correct_indexes :: "ext_path \<Rightarrow> (errno \<times> ext_path) irm" where
  "ext4_ext_correct_indexes p =
     ir_bind ext_depth (\<lambda>d.
     let depth = unat d
     in ir_bind (path_at p depth) (\<lambda>c.
        case p_extent c of None \<Rightarrow> ir_return (EIO, p)
        | Some n \<Rightarrow>
            if depth = 0 then ir_return (EOK, p)
            else if n \<noteq> 0 then ir_return (EOK, p)
            else
              ir_bind (node_extent (p_header c) n) (\<lambda>ex.
              let border = ee_first_block ex
              in ir_bind (path_at p (depth - 1)) (\<lambda>ck.
                 ir_bind (ir_deref (p_index ck)) (\<lambda>m.
                 ir_bind (node_upd (p_header ck) (set_index_key m border)) (\<lambda>_.
                 ir_bind (ext4_ext_dirty ck) (\<lambda>ck.
                 ir_bind (correct_up (depth - 1) border (p[depth - 1 := ck])) (\<lambda>p. ir_return (EOK, p)))))))))"

definition insert_new_entry :: "ext_path \<Rightarrow> nat \<Rightarrow> ext4_extent option \<Rightarrow> ext4_extent \<Rightarrow> (errno \<times> bool \<times> ext_path) irm" where
  "insert_new_entry p at cur newext =
     ir_bind (path_at p at) (\<lambda>curp.
     ir_bind (node_get (p_header curp)) (\<lambda>bs.
     let n = (case (p_extent curp, cur) of (Some k, Some e) \<Rightarrow> if ee_first_block e < ee_first_block newext then k + 1 else k
               | _ \<Rightarrow> 0);
         curp = curp\<lparr>p_extent := (case p_extent curp of None \<Rightarrow> Some 0 | k \<Rightarrow> k)\<rparr>;
         p = p[at := curp]
     in ir_bind (ir_mem (leaf_put bs n newext)) (\<lambda>(e, bs).
        ir_bind (node_put (p_header curp) bs) (\<lambda>_.
        if e \<noteq> EOK then ir_return (e, False, p)
        else
          ir_bind (ext4_ext_correct_indexes p) (\<lambda>(e, p).
          if e \<noteq> EOK then ir_return (e, False, p)
          else
            ir_bind (path_at p at) (\<lambda>curp.
            ir_bind (ext4_ext_dirty curp) (\<lambda>curp.
            ir_bind (node_extent (p_header curp) n) (\<lambda>ex.
            ir_return (EOK, False, p[at := curp\<lparr>p_extent := Some n, p_block := ext4_ext_pblock ex\<rparr>])))))))))"

definition cur_extent :: "bytes \<Rightarrow> nat option \<Rightarrow> ext4_extent option option" where
  "cur_extent bs k = (case k of None \<Rightarrow> Some None | Some n \<Rightarrow> map_option Some (extent_at bs n))"

definition ext4_ext_insert_leaf :: "ext_path \<Rightarrow> nat \<Rightarrow> ext4_extent \<Rightarrow> bool \<Rightarrow> (errno \<times> bool \<times> ext_path) irm" where
  "ext4_ext_insert_leaf p at newext no_combine =
     ir_bind (path_at p at) (\<lambda>curp.
     ir_bind (node_get (p_header curp)) (\<lambda>bs.
     ir_bind (ir_mem (cur_extent bs (p_extent curp))) (\<lambda>cur.
     if map_option ee_first_block cur = Some (ee_first_block newext) then ir_return (EIO, False, p)
     else case (p_extent curp, if no_combine then None else Option.bind cur (\<lambda>c. merge_extent c newext)) of
       (Some n, Some ex) \<Rightarrow>
         ir_bind (node_upd (p_header curp) (\<lambda>bs. extent_put bs n ex)) (\<lambda>_.
         ir_bind (ext4_ext_dirty curp) (\<lambda>curp.
         ir_return (EOK, False, p[at := curp\<lparr>p_block := ext4_ext_pblock ex\<rparr>])))
     | _ \<Rightarrow>
         ir_bind (ir_mem (header_at bs)) (\<lambda>eh.
         if eh_entries_count eh = eh_max_entries_count eh then ir_return (EIO, True, p)
         else insert_new_entry p at cur newext))))"

section \<open>Splitting nodes and growing the tree\<close>

definition ext4_ext_insert_index :: "ext_path \<Rightarrow> nat \<Rightarrow> u32 \<Rightarrow> u64 \<Rightarrow> bool \<Rightarrow> (errno \<times> ext_path) irm" where
  "ext4_ext_insert_index p at insert_index insert_block set_to_ix =
     ir_bind (path_at p at) (\<lambda>curp.
     ir_bind (node_get (p_header curp)) (\<lambda>bs.
     ir_bind (ir_mem (case p_index curp of None \<Rightarrow> Some None | Some k \<Rightarrow> map_option Some (index_at bs k))) (\<lambda>cur.
     ir_bind (ir_mem (header_at bs)) (\<lambda>eh.
     if map_option ei_first_block cur = Some insert_index then ir_return (EIO, p)
     else if eh_entries_count eh = eh_max_entries_count eh then ir_return (EIO, p)
     else
       let n = (case (p_index curp, cur) of (Some k, Some x) \<Rightarrow> if ei_first_block x < insert_index then k + 1 else k | _ \<Rightarrow> 0);
           curp = curp\<lparr>p_index := (case p_index curp of None \<Rightarrow> Some 0 | k \<Rightarrow> k)\<rparr>;
           p = p[at := curp]
       in if unat (eh_max_entries_count eh) \<le> n then ir_return (EIO, p)
          else
            ir_bind (ir_mem (node_index_put bs n insert_index insert_block)) (\<lambda>(e, bs).
            ir_bind (node_put (p_header curp) bs) (\<lambda>_.
            if e \<noteq> EOK then ir_return (e, p)
            else
              ir_bind (ext4_ext_dirty curp) (\<lambda>curp.
              ir_bind (node_index (p_header curp) n) (\<lambda>ix.
              ir_return (EOK, p[at := if set_to_ix then curp\<lparr>p_index := Some n, p_block := ext4_idx_pblock ix\<rparr> else curp])))))))))"

text \<open>A new node: a block is allocated and zeroed.  The first component of the failure is the block to be
  freed.\<close>

definition new_node :: "ext_path \<Rightarrow> ext4_extent \<Rightarrow> (u64 \<times> errno + u64) irm" where
  "new_node p newext =
     ir_bind (ext4_ext_new_meta_block p newext) (\<lambda>(newblock, e).
     if e \<noteq> EOK then ir_return (Inl (newblock, e))
     else
       ir_bind (ir_try (ir_lift (ext4_trans_block_get_noread newblock))) (\<lambda>r.
       case r of Inl e \<Rightarrow> ir_return (Inl (newblock, e))
       | Inr b \<Rightarrow> ir_bind (ir_lift (zero_block b)) (\<lambda>_. ir_return (Inr b))))"

text \<open>Move what follows the current entry of a full node to the new block \<open>b\<close>; the result is the element of
  the new path.\<close>

definition split_leaf :: "ext_path \<Rightarrow> nat \<Rightarrow> u64 \<Rightarrow> (ext_path \<times> ext4_extent_path) irm" where
  "split_leaf p i b =
     ir_bind (path_at p i) (\<lambda>c.
     ir_bind (ir_lift (fs_gets fs_sb)) (\<lambda>sb.
     ir_bind ext_depth (\<lambda>rd.
     ir_bind (node_get (p_header c)) (\<lambda>old.
     ir_bind (node_get (In_Block b)) (\<lambda>new.
     ir_bind (ir_mem (ext4_ext_init_header sb rd new 0)) (\<lambda>new.
     ir_bind (ir_mem (header_at old)) (\<lambda>eh.
     ir_bind (ir_deref (p_extent c)) (\<lambda>n.
     let max = unat (eh_max_entries_count eh); m = max - 1 - n;
         np = no_path\<lparr>p_lb := b, p_dirty := True, p_header := In_Block b\<rparr>
     in if max < n + 1 then ir_crash
        else if m = 0 then ir_bind (node_put (In_Block b) new) (\<lambda>_. ir_return (p, np))
        else
          ir_bind (ir_mem (move_tail old new (n + 1) 0 m)) (\<lambda>(old, new).
          ir_bind (node_put (p_header c) old) (\<lambda>_.
          ir_bind (node_put (In_Block b) new) (\<lambda>_.
          ir_bind (ext4_ext_dirty c) (\<lambda>c.
          ir_bind (ir_mem (extent_at new 0)) (\<lambda>ex.
          ir_return (p[i := c], np\<lparr>p_block := ext4_ext_pblock ex, p_extent := Some 0\<rparr>))))))))))))))"

definition split_index :: "ext_path \<Rightarrow> nat \<Rightarrow> nat \<Rightarrow> u64 \<Rightarrow> u32 \<Rightarrow> u64 \<Rightarrow> (ext_path \<times> ext4_extent_path) irm" where
  "split_index p depth i b insert_index child =
     ir_bind (path_at p i) (\<lambda>c.
     ir_bind (ir_lift (fs_gets fs_sb)) (\<lambda>sb.
     ir_bind ext_depth (\<lambda>rd.
     ir_bind (node_get (p_header c)) (\<lambda>old.
     ir_bind (node_get (In_Block b)) (\<lambda>new.
     ir_bind (ir_mem (ext4_ext_init_header sb rd new (depth - i))) (\<lambda>new.
     ir_bind (ir_mem (index_at new 0)) (\<lambda>ix.
     let ix = ext4_idx_store_pblock (ix\<lparr>ei_first_block := insert_index\<rparr>) child
     in ir_bind (ir_mem (Option.bind (index_put new 0 ix) (\<lambda>new. set_entries_count new 1))) (\<lambda>new.
        ir_bind (ir_mem (header_at old)) (\<lambda>eh.
        ir_bind (ir_deref (p_index c)) (\<lambda>n.
        let max = unat (eh_max_entries_count eh); m = max - 1 - n;
            np = no_path\<lparr>p_lb := b, p_dirty := True, p_header := In_Block b, p_block := ext4_idx_pblock ix,
              p_depth := depth - i, p_index := Some 0\<rparr>
        in if max < n + 1 then ir_crash
           else if m = 0 then ir_bind (node_put (In_Block b) new) (\<lambda>_. ir_return (p, np))
           else
             ir_bind (ir_mem (move_tail old new (n + 1) 1 m)) (\<lambda>(old, new).
             ir_bind (node_put (p_header c) old) (\<lambda>_.
             ir_bind (node_put (In_Block b) new) (\<lambda>_.
             ir_bind (ext4_ext_dirty c) (\<lambda>c. ir_return (p[i := c], np)))))))))))))))"

text \<open>The loop from the leaf up to level \<open>at\<close>, which is \<open>j\<close> levels above level \<open>at + j\<close>.  The result has the
  block to be freed and the error when a level failed.\<close>

fun split_levels :: "nat \<Rightarrow> ext_path \<Rightarrow> nat \<Rightarrow> nat \<Rightarrow> ext4_extent \<Rightarrow> u32 \<Rightarrow> ext_path \<Rightarrow>
    ((u64 \<times> errno) option \<times> ext_path \<times> ext_path) irm" where
  "split_levels 0 p depth at newext insert_index np = ir_return (None, p, np)"
| "split_levels (Suc j) p depth at newext insert_index np =
     ir_bind (new_node p newext) (\<lambda>r.
     case r of Inl x \<Rightarrow> ir_return (Some x, p, np)
     | Inr b \<Rightarrow>
         ir_bind (if at + j = depth then split_leaf p (at + j) b
                  else ir_bind (path_at np (Suc j)) (\<lambda>below. split_index p depth (at + j) b insert_index (p_lb below))) (\<lambda>(p, n).
         if length np \<le> j then ir_crash
         else split_levels j p depth at newext insert_index (np[j := n])))"

text \<open>Give back the new blocks of a failed split, the last first.\<close>

fun free_new_nodes :: "nat \<Rightarrow> ext_path \<Rightarrow> ext_path irm" where
  "free_new_nodes 0 np = ir_return np"
| "free_new_nodes (Suc j) np =
     ir_bind (path_at np j) (\<lambda>c.
     if p_lb c \<noteq> 0 then
       ir_bind (ir_lift (blk_release (p_lb c))) (\<lambda>_.
       ir_bind (ext4_ext_free_blocks (p_lb c) 1) (\<lambda>_.
       free_new_nodes j (np[j := c\<lparr>p_lb := 0, p_dirty := False\<rparr>])))
     else free_new_nodes j np)"

text \<open>The key of the new right half: that of the entry after the current one, or the new extent's when the
  current one is the last of the capacity.\<close>

definition split_key :: "ext_path \<Rightarrow> nat \<Rightarrow> ext4_extent \<Rightarrow> u32 irm" where
  "split_key p depth newext =
     ir_bind (path_at p depth) (\<lambda>c.
     ir_bind (node_header (p_header c)) (\<lambda>eh.
     if p_extent c \<noteq> Some (unat (eh_max_entries_count eh) - 1) then
       ir_bind (ir_deref (p_extent c)) (\<lambda>n.
       ir_bind (node_extent (p_header c) (n + 1)) (\<lambda>ex. ir_return (ee_first_block ex)))
     else ir_return (ee_first_block newext)))"

definition ext4_ext_split_node :: "ext_path \<Rightarrow> nat \<Rightarrow> ext4_extent \<Rightarrow> ext_path \<Rightarrow> (errno \<times> bool \<times> ext_path \<times> ext_path) irm" where
  "ext4_ext_split_node p at newext np =
     ir_bind ext_depth (\<lambda>d.
     let depth = unat d
     in if at = 0 \<or> depth < at then ir_crash
        else
          ir_bind (split_key p depth newext) (\<lambda>insert_index.
          ir_bind (split_levels (depth - at + 1) p depth at newext insert_index np) (\<lambda>(r, p, np).
          let right = (\<not> ee_first_block newext < insert_index)
          in ir_bind (case r of Some (nb, e) \<Rightarrow> ir_return (e, nb, p)
                      | None \<Rightarrow>
                          ir_bind (path_at np 0) (\<lambda>n0.
                          ir_bind (ext4_ext_insert_index p (at - 1) insert_index (p_lb n0) right) (\<lambda>(e, p).
                          ir_return (e, 0, p)))) (\<lambda>(e, nb, p).
             if e \<noteq> EOK then
               ir_bind (if nb \<noteq> 0 then ext4_ext_free_blocks nb 1 else ir_return ()) (\<lambda>_.
               ir_bind (free_new_nodes (depth - at + 1) np) (\<lambda>np.
               ir_return (e, right, p, np)))
             else ir_return (EOK, right, p, np)))))"

definition grow_node :: "ext4_sblock \<Rightarrow> u32 \<Rightarrow> u32 \<Rightarrow> bytes \<Rightarrow> bytes \<Rightarrow> bytes option" where
  "grow_node sb ino_index ino_gen root bs =
     Option.bind (wrn bs 0 root) (\<lambda>bs.
     Option.bind (header_at bs) (\<lambda>eh.
     Option.bind (header_put bs (eh\<lparr>eh_max_entries_count := (if eh_depth eh \<noteq> 0 then ext4_ext_space_block_idx sb
         else ext4_ext_space_block sb), eh_magic := EXT4_EXTENT_MAGIC\<rparr>))
       (ext4_extent_block_csum_set sb ino_index ino_gen)))"

definition grow_root :: "u64 \<Rightarrow> bytes \<Rightarrow> bytes option" where
  "grow_root newblock root =
     Option.bind (header_at root) (\<lambda>eh.
     Option.bind (index_at root 0) (\<lambda>ix.
     Option.bind (extent_at root 0) (\<lambda>ex.
     Option.bind (index_put root 0 (let ix = ext4_idx_store_pblock ix newblock
         in if eh_depth eh = 0 then ix\<lparr>ei_first_block := ee_first_block ex\<rparr> else ix)) (\<lambda>root.
     header_put root (eh\<lparr>eh_entries_count := 1,
       eh_max_entries_count := (if eh_depth eh = 0 then ext4_ext_space_root_idx else eh_max_entries_count eh),
       eh_depth := eh_depth eh + 1\<rparr>)))))"

definition ext4_ext_grow_indepth :: "errno irm" where
  "ext4_ext_grow_indepth =
     ir_bind ext_depth (\<lambda>d.
     ir_bind (ir_lift (fs_gets fs_sb)) (\<lambda>sb.
     ir_bind (if d \<noteq> 0 then ir_bind (node_index In_Inode 0) (\<lambda>ix. ir_return (ext4_idx_pblock ix))
              else if s_inodes_per_group sb = 0 then ir_crash
              else (\<lambda>ref. ir_return (ext4_fs_inode_to_goal_block sb ref) ref)) (\<lambda>goal.
     ir_bind (ext4_new_meta_blocks goal) (\<lambda>(newblock, e).
     if newblock = 0 then ir_return e
     else
       ir_bind (ir_try (ir_lift (ext4_trans_block_get_noread newblock))) (\<lambda>r.
       case r of Inl e \<Rightarrow> ir_bind (ext4_ext_free_blocks newblock 1) (\<lambda>_. ir_return e)
       | Inr b \<Rightarrow>
           ir_bind (ir_lift (zero_block b)) (\<lambda>_.
           ir_bind (node_get In_Inode) (\<lambda>root.
           ir_bind ext_ids (\<lambda>(sb, i, g).
           ir_bind (node_upd (In_Block b) (grow_node sb i g root)) (\<lambda>_.
           ir_bind (node_upd In_Inode (grow_root newblock)) (\<lambda>_.
           ir_bind ir_mark_dirty (\<lambda>_.
           ir_bind (ir_lift (blk_release b)) (\<lambda>_. ir_return EOK))))))))))))"

section \<open>Inserting an extent\<close>

definition ext4_ext_replace_path :: "ext_path \<Rightarrow> ext4_extent_path \<Rightarrow> nat \<Rightarrow> ext_path irm" where
  "ext4_ext_replace_path p n at = ir_bind (ext4_ext_drop_refs p at True) (\<lambda>p. ir_return (p[at := n]))"

definition has_free_index :: "ext4_extent_path \<Rightarrow> bool irm" where
  "has_free_index c = ir_bind (node_header (p_header c)) (\<lambda>eh. ir_return (eh_entries_count eh < eh_max_entries_count eh))"

text \<open>The number of full nodes from level \<open>i\<close> upwards, before the first that has room.\<close>

fun full_levels :: "ext_path \<Rightarrow> nat \<Rightarrow> nat irm" where
  "full_levels p 0 = ir_bind (path_at p 0) (\<lambda>c. ir_bind (has_free_index c) (\<lambda>f. ir_return (if f then 0 else 1)))"
| "full_levels p (Suc i) =
     ir_bind (path_at p (Suc i)) (\<lambda>c. ir_bind (has_free_index c) (\<lambda>f.
     if f then ir_return 0 else ir_bind (full_levels p i) (\<lambda>n. ir_return (Suc n))))"

text \<open>Put the new path in place, or release it, from the last level to the first.\<close>

fun take_levels :: "nat \<Rightarrow> bool \<Rightarrow> nat \<Rightarrow> ext_path \<Rightarrow> ext_path \<Rightarrow> (ext_path \<times> ext_path) irm" where
  "take_levels 0 right i p np = ir_return (p, np)"
| "take_levels (Suc level) right i p np =
     ir_bind (path_at np level) (\<lambda>n.
     if right then
       ir_bind (ext4_ext_replace_path p n (i + level)) (\<lambda>p. take_levels level right i p (np[level := no_path]))
     else if p_lb n \<noteq> 0 then ir_bind (ext4_ext_drop_refs np level True) (\<lambda>np. take_levels level right i p np)
     else take_levels level right i p np)"

fun free_npath :: "nat \<Rightarrow> ext_path \<Rightarrow> unit irm" where
  "free_npath 0 np = ir_return ()"
| "free_npath (Suc level) np =
     ir_bind (path_at np level) (\<lambda>n.
     if p_lb n \<noteq> 0 then
       ir_bind (ext4_ext_free_blocks (p_lb n) 1) (\<lambda>_.
       ir_bind (ext4_ext_drop_refs np level True) (free_npath level))
     else free_npath level np)"

text \<open>Make room: grow the tree when every node on the path is full, then split.  The result is the error,
  the path, and what is left of the new path on an error.  When the tree has grown the path is looked up
  again; an error of that lookup frees it, and the code goes on with the pointer it had.\<close>

definition make_room :: "ext_path \<Rightarrow> ext4_extent \<Rightarrow> (errno \<times> ext_path option \<times> nat \<times> ext_path) irm" where
  "make_room p newext =
     ir_bind ext_depth (\<lambda>d.
     ir_bind (full_levels p (unat d)) (\<lambda>level.
     ir_bind (if level = unat d + 1 then
                ir_bind ext4_ext_grow_indepth (\<lambda>e.
                if e \<noteq> EOK then ir_return (e, Some p, level)
                else ir_bind (ext4_find_extent (ee_first_block newext) (Some p)) (\<lambda>(e, p). ir_return (e, p, level - 1)))
              else ir_return (EOK, Some p, level)) (\<lambda>(e, p', level').
     if e \<noteq> EOK then ir_return (e, p', level, [])
     else
       ir_bind (ir_deref p') (\<lambda>p.
       let depth = (if level = unat d + 1 then unat d + 1 else unat d); i = depth + 1 - level'
       in if level' = 0 then ir_return (EOK, Some p, 0, [])
          else
            ir_bind (ir_try mem_alloc) (\<lambda>r.
            case r of Inl e \<Rightarrow> ir_return (e, Some p, 0, [])
            | Inr _ \<Rightarrow>
                ir_bind (ext4_ext_split_node p i newext (replicate level' no_path)) (\<lambda>(e, right, p, np).
                if e \<noteq> EOK then ir_return (e, Some p, level', np)
                else
                  ir_bind (take_levels level' right i p np) (\<lambda>(p, np).
                  ir_return (EOK, Some p, 0, [])))))))) "

text \<open>\<^verbatim>\<open>goto again\<close> is the recursion.  After an error the references are put; a path that the lookup freed is
  used all the same, which is an access to freed memory.\<close>

fun insert_again :: "nat \<Rightarrow> ext_path \<Rightarrow> ext4_extent \<Rightarrow> bool \<Rightarrow> (errno \<times> ext_path) irm" where
  "insert_again 0 p newext no_combine = ir_crash"
| "insert_again (Suc fuel) p newext no_combine =
     ir_bind ext_depth (\<lambda>d.
     ir_bind (ext4_ext_insert_leaf p (unat d) newext no_combine) (\<lambda>(e, need_split, p).
     if e = EIO \<and> need_split then
       ir_bind (make_room p newext) (\<lambda>(e, p, level, np).
       ir_bind (ir_deref p) (\<lambda>p.
       if e \<noteq> EOK then
         ir_bind (ext4_ext_drop_refs p 0 False) (\<lambda>p.
         ir_bind (if np = [] then ir_return () else free_npath level np) (\<lambda>_. ir_return (e, p)))
       else insert_again fuel p newext no_combine))
     else if e \<noteq> EOK then ir_bind (ext4_ext_drop_refs p 0 False) (\<lambda>p. ir_return (e, p))
     else ir_return (EOK, p)))"

definition ext4_ext_insert_extent :: "ext_path \<Rightarrow> ext4_extent \<Rightarrow> bool \<Rightarrow> (errno \<times> ext_path) irm" where
  "ext4_ext_insert_extent = insert_again 3"

section \<open>Removing a range\<close>

text \<open>The results of freeing are not looked at.\<close>

definition ext4_ext_remove_blocks :: "ext4_extent \<Rightarrow> u32 \<Rightarrow> u32 \<Rightarrow> unit irm" where
  "ext4_ext_remove_blocks ex from to =
     (let len = to - from + 1; num = from - ee_first_block ex
      in ext4_ext_free_blocks (ext4_ext_pblock ex + ucast num) len)"

definition remove_entry :: "bytes \<Rightarrow> nat \<Rightarrow> bytes option" where
  "remove_entry bs n =
     Option.bind (header_at bs) (\<lambda>eh.
     let entries = unat (eh_entries_count eh)
     in Option.bind (if n + 1 = entries then Some bs
          else if entries < n + 1 then None else entries_move bs n (n + 1) (entries - 1 - n)) (\<lambda>bs.
        set_entries_count bs (eh_entries_count eh - 1)))"

text \<open>Keys of the levels above, once the first entry of a node has gone.\<close>

fun remove_up :: "nat \<Rightarrow> ext_path \<Rightarrow> ext_path irm" where
  "remove_up 0 p = ir_return p"
| "remove_up (Suc i) p =
     ir_bind (path_at p (Suc i)) (\<lambda>c.
     if p_index c \<noteq> Some 0 then ir_return p
     else
       ir_bind (node_index (p_header c) 0) (\<lambda>ix.
       ir_bind (path_at p i) (\<lambda>up.
       ir_bind (ir_deref (p_index up)) (\<lambda>n.
       ir_bind (node_upd (p_header up) (set_index_key n (ei_first_block ix))) (\<lambda>_.
       ir_bind (ext4_ext_dirty up) (\<lambda>up. remove_up i (p[i := up])))))))"

definition ext4_ext_remove_idx :: "ext_path \<Rightarrow> nat \<Rightarrow> ext_path irm" where
  "ext4_ext_remove_idx p i =
     ir_bind (path_at p i) (\<lambda>c.
     ir_bind (ir_deref (p_index c)) (\<lambda>n.
     ir_bind (node_index (p_header c) n) (\<lambda>ix.
     ir_bind (node_upd (p_header c) (\<lambda>bs. remove_entry bs n)) (\<lambda>_.
     ir_bind (ext4_ext_dirty c) (\<lambda>c.
     ir_bind (ext4_ext_free_blocks (ext4_idx_pblock ix) 1) (\<lambda>_.
     remove_up i (p[i := c])))))))"

text \<open>One extent of the range \<open>from\<close> to \<open>to\<close>: what is left of it (its first block, its length, its place) and the
  blocks that go.\<close>

definition cut_extent :: "ext4_extent \<Rightarrow> u32 \<Rightarrow> u32 \<Rightarrow> (u32 \<times> u32 \<times> u64) \<times> (u32 \<times> u32) \<times> bool" where
  "cut_extent ex from to =
     (let start = ee_first_block ex; len = ucast (ext4_ext_get_actual_len ex) :: u32; newblock = ext4_ext_pblock ex
      in if start < from then ((start, from - start, newblock), (from, from + (len - (from - start)) - 1), False)
         else if to < start + len - 1 then
           let new_len = start + len - 1 - to
           in ((to + 1, new_len, newblock + ucast (to + 1 - start)), (start, start + (len - new_len) - 1), True)
         else ((start, 0, newblock), (start, start + len - 1), False))"

text \<open>The loop over the extents of a leaf from entry \<open>n\<close> on: it carries the number of entries that stay, the
  entry that the rest is moved to and the entry the rest starts at, when the last extent was cut.\<close>

fun remove_extents :: "nat \<Rightarrow> ext_node \<Rightarrow> nat \<Rightarrow> u32 \<Rightarrow> u32 \<Rightarrow> u16 \<Rightarrow> nat \<Rightarrow> nat option \<Rightarrow> (u16 \<times> nat \<times> nat) irm" where
  "remove_extents 0 h n from to new_entries start_ex ex2 =
     ir_return (new_entries, start_ex, case ex2 of None \<Rightarrow> n | Some k \<Rightarrow> k)"
| "remove_extents (Suc k) h n from to new_entries start_ex ex2 =
     ir_bind (node_extent h n) (\<lambda>ex.
     if to < ee_first_block ex then ir_return (new_entries, start_ex, case ex2 of None \<Rightarrow> n | Some k \<Rightarrow> k)
     else
       case cut_extent ex from to of ((new_start, new_len, newblock), (a, b), right) \<Rightarrow>
         ir_bind (ext4_ext_remove_blocks ex a b) (\<lambda>_.
         let ex1 = ex\<lparr>ee_first_block := new_start\<rparr>;
             kept = ext4_ext_store_pblock (ex1\<lparr>ee_block_count := ucast new_len\<rparr>) newblock;
             ex' = (if new_len = 0 then ex1
                    else if ext4_ext_is_unwritten ex then ext4_ext_mark_unwritten kept else kept)
         in ir_bind (node_upd h (\<lambda>bs. extent_put bs n ex')) (\<lambda>_.
            remove_extents k h (n + 1) from to (if new_len = 0 then new_entries - 1 else new_entries)
              (if ee_first_block ex < from then start_ex + 1 else start_ex) (if right then Some n else ex2))))"

definition ext4_ext_remove_leaf :: "ext_path \<Rightarrow> u32 \<Rightarrow> u32 \<Rightarrow> (errno \<times> ext_path) irm" where
  "ext4_ext_remove_leaf p from to =
     ir_bind ext_depth (\<lambda>d.
     let depth = unat d
     in ir_bind (path_at p depth) (\<lambda>c.
        ir_bind (ir_deref (p_extent c)) (\<lambda>n.
        ir_bind (node_header (p_header c)) (\<lambda>eh.
        let entries = unat (eh_entries_count eh)
        in ir_bind (remove_extents (entries - n) (p_header c) n from to (eh_entries_count eh) n None) (\<lambda>(new_entries, start_ex, ex2).
           ir_bind (node_upd (p_header c) (\<lambda>bs. Option.bind
             (if ex2 < entries then entries_move bs start_ex ex2 (entries - ex2) else Some bs)
             (\<lambda>bs. set_entries_count bs new_entries))) (\<lambda>_.
           ir_bind (ext4_ext_dirty c) (\<lambda>c.
           let p = p[depth := c]
           in ir_bind (if n = 0 \<and> new_entries \<noteq> 0 then ext4_ext_correct_indexes p else ir_return (EOK, p)) (\<lambda>(e, p).
              if e \<noteq> EOK then ir_return (e, p)
              else if new_entries = 0 \<and> p_lb c \<noteq> 0 then
                if depth = 0 then ir_crash else ir_bind (ext4_ext_remove_idx p (depth - 1)) (\<lambda>p. ir_return (EOK, p))
              else if 0 < depth then
                ir_bind (path_at p (depth - 1)) (\<lambda>up.
                ir_return (EOK, p[depth - 1 := up\<lparr>p_index := map_option Suc (p_index up)\<rparr>]))
              else ir_return (EOK, p)))))))))"

definition ext4_ext_more_to_rm :: "ext4_extent_path \<Rightarrow> u32 \<Rightarrow> bool irm" where
  "ext4_ext_more_to_rm c to =
     ir_bind (node_header (p_header c)) (\<lambda>eh.
     if eh_entries_count eh = 0 then ir_return False
     else
       ir_bind (ir_deref (p_index c)) (\<lambda>n.
       if unat (eh_entries_count eh) \<le> n then ir_return False
       else ir_bind (node_index (p_header c) n) (\<lambda>ix. ir_return (\<not> to < ei_first_block ix))))"

text \<open>The leaf on the path, cut to the part of the range it holds.\<close>

definition remove_in_leaf :: "ext_path \<Rightarrow> nat \<Rightarrow> u32 \<Rightarrow> u32 \<Rightarrow> ext_path irm" where
  "remove_in_leaf p i from to =
     ir_bind (path_at p i) (\<lambda>c.
     ir_bind (node_header (p_header c)) (\<lambda>eh.
     if eh_entries_count eh = 0 then ir_crash
     else
       ir_bind (node_extent (p_header c) 0) (\<lambda>first_ex.
       ir_bind (node_extent (p_header c) (unat (eh_entries_count eh) - 1)) (\<lambda>last_ex.
       let leaf_from = ee_first_block first_ex;
           leaf_to = ee_first_block last_ex + ucast (ext4_ext_get_actual_len last_ex) - 1
       in ir_bind (ext4_ext_remove_leaf p (if leaf_from < from then from else leaf_from) (if to < leaf_to then to else leaf_to)) (\<lambda>(_, p).
          ext4_ext_drop_refs p i False)))))"

text \<open>Down into the next child that has something to remove.\<close>

definition remove_descend :: "ext_path \<Rightarrow> nat \<Rightarrow> nat \<Rightarrow> (errno \<times> ext_path) irm" where
  "remove_descend p depth i =
     ir_bind (path_at p i) (\<lambda>c.
     ir_bind (path_at p (i + 1)) (\<lambda>c1.
     ir_bind (if p_lb c1 \<noteq> 0 then ext4_ext_drop_refs p (i + 1) False else ir_return p) (\<lambda>p.
     ir_bind (ir_deref (p_index c)) (\<lambda>n.
     ir_bind (node_index (p_header c) n) (\<lambda>ix.
     ir_bind (ir_try (read_extent_tree_block (ext4_idx_pblock ix) (of_nat (depth - i - 1)))) (\<lambda>r.
     case r of Inl e \<Rightarrow> ir_return (e, p)
     | Inr b \<Rightarrow>
         ir_bind (path_at p (i + 1)) (\<lambda>c1.
         let c1 = c1\<lparr>p_lb := b, p_dirty := False, p_header := In_Block b, p_depth := depth - i - 1\<rparr>
         in ir_return (EOK, p[i := c\<lparr>p_block := ext4_idx_pblock ix\<rparr>,
              i + 1 := if i + 1 = depth then c1\<lparr>p_extent := Some 0\<rparr> else c1\<lparr>p_index := Some 0\<rparr>]))))))))"

text \<open>Up again: a node that has become empty is removed from its parent.\<close>

definition remove_ascend :: "ext_path \<Rightarrow> nat \<Rightarrow> ext_path irm" where
  "remove_ascend p i =
     ir_bind (path_at p i) (\<lambda>c.
     ir_bind (node_header (p_header c)) (\<lambda>eh.
     if i = 0 then ir_return p
     else
       ir_bind (if eh_entries_count eh = 0 then ext4_ext_remove_idx p (i - 1)
                else ir_bind (path_at p (i - 1)) (\<lambda>up.
                  ir_return (p[i - 1 := up\<lparr>p_index := map_option Suc (p_index up)\<rparr>]))) (\<lambda>p.
       ir_bind (path_at p i) (\<lambda>c.
       if p_lb c = 0 then ir_crash
       else ir_bind (ir_lift (blk_release (p_lb c))) (\<lambda>_. ir_return (p[i := c\<lparr>p_lb := 0, p_dirty := False\<rparr>]))))))"

text \<open>The loop; \<open>i\<close> is one more than the level of the code, and \<open>None\<close> that the fuel was not enough.\<close>

fun remove_loop :: "nat \<Rightarrow> ext_path \<Rightarrow> nat \<Rightarrow> nat \<Rightarrow> u32 \<Rightarrow> u32 \<Rightarrow> (errno \<times> ext_path) option irm" where
  "remove_loop fuel p depth 0 from to = ir_return (Some (EOK, p))"
| "remove_loop 0 p depth (Suc i) from to = ir_return None"
| "remove_loop (Suc fuel) p depth (Suc i) from to =
     (if i = depth then ir_bind (remove_in_leaf p i from to) (\<lambda>p. remove_loop fuel p depth i from to)
      else
        ir_bind (path_at p i) (\<lambda>c.
        ir_bind (ext4_ext_more_to_rm c to) (\<lambda>more.
        if more then
          ir_bind (remove_descend p depth i) (\<lambda>(e, p).
          if e \<noteq> EOK then ir_return (Some (e, p)) else remove_loop fuel p depth (Suc (Suc i)) from to)
        else ir_bind (remove_ascend p i) (\<lambda>p. remove_loop fuel p depth i from to))))"

definition empty_root :: "bytes \<Rightarrow> bytes option" where
  "empty_root bs =
     Option.bind (header_at bs) (\<lambda>eh. header_put bs (eh\<lparr>eh_depth := 0, eh_max_entries_count := ext4_ext_space_root\<rparr>))"

text \<open>Removal inside one extent: it is cut and its end becomes a new extent.\<close>

definition remove_inside :: "ext_path \<Rightarrow> nat \<Rightarrow> u32 \<Rightarrow> u32 \<Rightarrow> (errno \<times> ext_path) irm" where
  "remove_inside p depth from to =
     ir_bind (path_at p depth) (\<lambda>c.
     ir_bind (ir_deref (p_extent c)) (\<lambda>n.
     ir_bind (node_extent (p_header c) n) (\<lambda>ex.
     let ee_block = ee_first_block ex;
         len = ucast (ext4_ext_get_actual_len ex) :: u32;
         newblock = ucast (to + 1 - ee_block) + ext4_ext_pblock ex;
         ex' = ex\<lparr>ee_block_count := ucast (from - ee_block)\<rparr>;
         newex = ext4_ext_store_pblock \<lparr>ee_first_block = to + 1, ee_block_count = ucast (ee_block + len - 1 - to),
           ee_start_hi = 0, ee_start_lo = 0\<rparr> newblock
     in ir_bind (node_upd (p_header c) (\<lambda>bs. extent_put bs n
          (if ext4_ext_is_unwritten ex then ext4_ext_mark_unwritten ex' else ex'))) (\<lambda>_.
        ir_bind (ext4_ext_dirty c) (\<lambda>c.
        ext4_ext_insert_extent (p[depth := c])
          (if ext4_ext_is_unwritten ex then ext4_ext_mark_unwritten newex else newex) False)))))"

definition ext4_extent_remove_space :: "nat \<Rightarrow> u32 \<Rightarrow> u32 \<Rightarrow> errno option irm" where
  "ext4_extent_remove_space fuel from to =
     ir_bind ext_depth (\<lambda>d.
     let depth = unat d
     in ir_bind (ext4_find_extent from None) (\<lambda>(e, path).
        if e \<noteq> EOK then ir_bind (drop_path path) (\<lambda>_. ir_return (Some e))
        else
          ir_bind (ir_deref path) (\<lambda>p.
          ir_bind (path_at p depth) (\<lambda>c.
          case p_extent c of None \<Rightarrow> ir_bind (drop_path (Some p)) (\<lambda>_. ir_return (Some EOK))
          | Some n \<Rightarrow>
            ir_bind (node_extent (p_header c) n) (\<lambda>ex.
            let len = ext4_ext_get_actual_len ex
            in if \<not> in_range from (ee_first_block ex) len then ir_bind (drop_path (Some p)) (\<lambda>_. ir_return (Some EOK))
               else if ee_first_block ex < from \<and> to < ee_first_block ex + ucast len - 1 then
                 ir_bind (remove_inside p depth from to) (\<lambda>(e, p). ir_bind (drop_path (Some p)) (\<lambda>_. ir_return (Some e)))
               else
                 ir_bind (remove_loop fuel p depth (depth + 1) from to) (\<lambda>r.
                 case r of None \<Rightarrow> ir_return None
                 | Some (e, p) \<Rightarrow>
                     if e \<noteq> EOK then ir_bind (drop_path (Some p)) (\<lambda>_. ir_return (Some e))
                     else
                       ir_bind (path_at p 0) (\<lambda>c0.
                       ir_bind (node_header (p_header c0)) (\<lambda>eh.
                       ir_bind (if eh_entries_count eh = 0
                                then ir_bind (node_upd In_Inode empty_root) (\<lambda>_. ext4_ext_dirty c0)
                                else ir_return c0) (\<lambda>c0.
                       ir_bind (drop_path (Some (p[0 := c0]))) (\<lambda>_. ir_return (Some EOK)))))))))))"

section \<open>Splitting and merging extents\<close>

text \<open>The state of the two halves is in the flags.  When the insertion fails the length is put back as that of
  a written extent, through the pointer the code kept, and the result is that of marking the path dirty.\<close>

definition ext4_ext_split_extent_at :: "ext_path \<Rightarrow> u32 \<Rightarrow> bool \<Rightarrow> bool \<Rightarrow> (errno \<times> ext_path) irm" where
  "ext4_ext_split_extent_at p split mark1 mark2 =
     ir_bind ext_depth (\<lambda>d.
     let depth = unat d
     in ir_bind (path_at p depth) (\<lambda>c.
        ir_bind (ir_deref (p_extent c)) (\<lambda>n.
        ir_bind (node_extent (p_header c) n) (\<lambda>ex.
        let ee_block = ee_first_block ex;
            ee_len = ext4_ext_get_actual_len ex;
            newblock = ucast (split - ee_block) + ext4_ext_pblock ex
        in if split = ee_block then
             ir_bind (node_upd (p_header c) (\<lambda>bs. extent_put bs n
               (if mark2 then ext4_ext_mark_unwritten ex else ext4_ext_mark_initialized ex))) (\<lambda>_.
             ir_bind (ext4_ext_dirty c) (\<lambda>c. ir_return (EOK, p[depth := c])))
           else
             let ex' = ex\<lparr>ee_block_count := ucast (split - ee_block)\<rparr>;
                 newex = ext4_ext_store_pblock \<lparr>ee_first_block = split,
                   ee_block_count = ucast (ucast ee_len - (split - ee_block)), ee_start_hi = 0, ee_start_lo = 0\<rparr> newblock
             in ir_bind (node_upd (p_header c) (\<lambda>bs. extent_put bs n (if mark1 then ext4_ext_mark_unwritten ex' else ex'))) (\<lambda>_.
                ir_bind (ext4_ext_dirty c) (\<lambda>c.
                ir_bind (ext4_ext_insert_extent (p[depth := c])
                  (if mark2 then ext4_ext_mark_unwritten newex else newex) True) (\<lambda>(e, p).
                if e = EOK then ir_return (EOK, p)
                else
                  ir_bind (node_upd (p_header c) (\<lambda>bs. Option.bind (extent_at bs n) (\<lambda>ex.
                    extent_put bs n (ex\<lparr>ee_block_count := ee_len\<rparr>)))) (\<lambda>_.
                  ir_bind (path_at p depth) (\<lambda>c.
                  ir_bind (ext4_ext_dirty c) (\<lambda>c. ir_return (EOK, p[depth := c])))))))))))"

text \<open>Fold the extent after entry \<open>n\<close> into it; the inner \<open>None\<close> when they are not one run.\<close>

definition ext4_ext_merge_next :: "bytes \<Rightarrow> nat \<Rightarrow> bytes option option" where
  "ext4_ext_merge_next bs n =
     Option.bind (header_at bs) (\<lambda>eh.
     let entries = unat (eh_entries_count eh)
     in if entries \<le> n + 1 then Some None
        else
          Option.bind (extent_at bs n) (\<lambda>ex.
          Option.bind (extent_at bs (n + 1)) (\<lambda>ex1.
          if \<not> ext4_ext_can_append ex ex1 then Some None
          else
            Option.bind (extent_put bs n (add_len ex ex1)) (\<lambda>bs.
            Option.bind (if n + 2 < entries then entries_move bs (n + 1) (n + 2) (entries - 2 - n) else Some bs) (\<lambda>bs.
            map_option Some (set_entries_count bs (eh_entries_count eh - 1)))))))"

fun merge_back :: "bytes \<Rightarrow> nat \<Rightarrow> (bytes \<times> nat \<times> bool) option" where
  "merge_back bs 0 = Some (bs, 0, False)"
| "merge_back bs (Suc n) =
     Option.bind (ext4_ext_merge_next bs n) (\<lambda>r.
     case r of None \<Rightarrow> Some (bs, Suc n, False)
     | Some bs \<Rightarrow> map_option (\<lambda>(bs, n, _). (bs, n, True)) (merge_back bs n))"

text \<open>Every merge takes an entry, so the number of entries bounds the second loop.\<close>

fun merge_on :: "nat \<Rightarrow> bytes \<Rightarrow> nat \<Rightarrow> (bytes \<times> bool) option" where
  "merge_on 0 bs n = Some (bs, False)"
| "merge_on (Suc k) bs n =
     Option.bind (ext4_ext_merge_next bs n) (\<lambda>r.
     case r of None \<Rightarrow> Some (bs, False) | Some bs \<Rightarrow> map_option (\<lambda>(bs, _). (bs, True)) (merge_on k bs n))"

definition merge_around :: "bytes \<Rightarrow> nat \<Rightarrow> (bytes \<times> nat \<times> bool) option" where
  "merge_around bs n =
     Option.bind (merge_back bs n) (\<lambda>(bs, n, back).
     Option.bind (header_at bs) (\<lambda>eh.
     map_option (\<lambda>(bs, on). (bs, n, back \<or> on)) (merge_on (unat (eh_entries_count eh)) bs n)))"

definition ext4_ext_try_to_merge :: "ext_path \<Rightarrow> ext_path irm" where
  "ext4_ext_try_to_merge p =
     ir_bind ext_depth (\<lambda>d.
     let depth = unat d
     in ir_bind (path_at p depth) (\<lambda>c.
        case p_extent c of None \<Rightarrow> ir_return p
        | Some n \<Rightarrow>
            ir_bind (node_get (p_header c)) (\<lambda>bs.
            ir_bind (ir_mem (merge_around bs n)) (\<lambda>(bs, n, merged).
            if \<not> merged then ir_return p
            else
              ir_bind (node_put (p_header c) bs) (\<lambda>_.
              ir_bind (ext4_ext_dirty (c\<lparr>p_extent := Some n\<rparr>)) (\<lambda>c. ir_return (p[depth := c])))))))"

definition ext4_ext_convert_to_initialized :: "ext_path \<Rightarrow> u32 \<Rightarrow> u32 \<Rightarrow> (errno \<times> ext_path option) irm" where
  "ext4_ext_convert_to_initialized p split blocks =
     ir_bind ext_depth (\<lambda>d.
     ir_bind (path_at p (unat d)) (\<lambda>c.
     ir_bind (ir_deref (p_extent c)) (\<lambda>n.
     ir_bind (node_extent (p_header c) n) (\<lambda>ex.
     if split < ee_first_block ex then ir_crash
     else if split + blocks = ee_first_block ex + ucast (ext4_ext_get_actual_len ex) then
       ir_bind (ext4_ext_split_extent_at p split True False) (\<lambda>(e, p). ir_return (e, Some p))
     else if ee_first_block ex = split then
       ir_bind (ext4_ext_split_extent_at p (split + blocks) False True) (\<lambda>(e, p). ir_return (e, Some p))
     else
       ir_bind (ext4_ext_split_extent_at p (split + blocks) True True) (\<lambda>(e, p).
       ir_bind (if e = EOK then ext4_find_extent split (Some p) else ir_return (e, Some p)) (\<lambda>(e, path).
       if e = EOK then
         ir_bind (ir_deref path) (\<lambda>p.
         ir_bind (ext4_ext_split_extent_at p split True False) (\<lambda>(e, p). ir_return (e, Some p)))
       else ir_return (e, path)))))))"

section \<open>Zeroing\<close>

text \<open>A buffer of as many blocks as memory allows, halving.\<close>

function zero_buffer :: "nat \<Rightarrow> nat irm" where
  "zero_buffer n =
     ir_bind (ir_try mem_alloc) (\<lambda>r.
     case r of Inr _ \<Rightarrow> ir_return n
     | Inl _ \<Rightarrow> if 1 < n then zero_buffer (n div 2) else ir_fail ENOMEM)"
  by pat_completeness auto
termination by (relation "measure (\<lambda>n. n)") auto

declare zero_buffer.simps [simp del]

text \<open>A write past the cache; what readers see of a block that is cached follows in the invalidation.\<close>

definition zero_blocks :: "u64 \<Rightarrow> nat \<Rightarrow> unit irm" where
  "zero_blocks b n =
     ir_lift (fs_bind fs_ask (\<lambda>_. fs_modify (\<lambda>fs. fs\<lparr>fs_blk := (\<lambda>l.
       if b \<le> l \<and> unat l < unat b + n then replicate (unat (ext4_sb_get_block_size (fs_sb fs))) 0 else fs_blk fs l)\<rparr>)))"

fun zero_chunks :: "nat \<Rightarrow> nat \<Rightarrow> u64 \<Rightarrow> nat \<Rightarrow> unit irm" where
  "zero_chunks 0 chunk b n = ir_return ()"
| "zero_chunks (Suc k) chunk b n =
     (if n = 0 then ir_return ()
      else let m = (if chunk < n then chunk else n)
        in ir_bind (zero_blocks b m) (\<lambda>_. zero_chunks k chunk (b + of_nat m) (n - m)))"

definition ext4_ext_zero_unwritten_range :: "u64 \<Rightarrow> u32 \<Rightarrow> errno irm" where
  "ext4_ext_zero_unwritten_range block blocks_count =
     ir_bind (ir_lift (fs_gets fs_sb)) (\<lambda>sb.
     if ext4_sb_get_block_size sb = 0 then ir_crash
     else
       let chunk = 1048576 div unat (ext4_sb_get_block_size sb);
           chunk = (if chunk = 0 then 1 else chunk);
           chunk = (if unat blocks_count < chunk then unat blocks_count else chunk)
       in ir_bind (ir_try (zero_buffer chunk)) (\<lambda>r.
          case r of Inl e \<Rightarrow> ir_return e
          | Inr chunk \<Rightarrow>
              ir_bind (ir_try (zero_chunks (unat blocks_count) chunk block (unat blocks_count))) (\<lambda>r.
              ir_bind (ir_lift (fs_invalidate_lba block blocks_count)) (\<lambda>_.
              ir_return (case r of Inl e \<Rightarrow> e | Inr _ \<Rightarrow> EOK)))))"

section \<open>The entry points\<close>

text \<open>The first allocated block after the current position, level by level upwards.\<close>

fun next_from :: "ext_path \<Rightarrow> nat \<Rightarrow> u32 irm" where
  "next_from p k =
     ir_bind (path_at p k) (\<lambda>c.
     ir_bind (node_header (p_header c)) (\<lambda>eh.
     ir_bind (path_at p 0) (\<lambda>c0.
     let at = (if k = p_depth c0 then p_extent c else p_index c)
     in if (if k = p_depth c0 then at \<noteq> None else True) \<and> map_option Suc at \<noteq> Some (unat (eh_entries_count eh)) then
          ir_bind (ir_deref at) (\<lambda>n.
          ir_bind (node_extent (p_header c) (n + 1)) (\<lambda>ex. ir_return (ee_first_block ex)))
        else case k of 0 \<Rightarrow> ir_return EXT_MAX_BLOCKS | Suc k \<Rightarrow> next_from p k)))"

definition ext4_ext_next_allocated_block :: "ext_path \<Rightarrow> u32 irm" where
  "ext4_ext_next_allocated_block p =
     ir_bind (path_at p 0) (\<lambda>c.
     if p_depth c = 0 \<and> p_extent c = None then ir_return EXT_MAX_BLOCKS else next_from p (p_depth c))"

text \<open>The extent on the path, when it holds the block.\<close>

definition found_extent :: "ext_path \<Rightarrow> u32 \<Rightarrow> ext4_extent option irm" where
  "found_extent p iblock =
     ir_bind ext_depth (\<lambda>d.
     ir_bind (path_at p (unat d)) (\<lambda>c.
     case p_extent c of None \<Rightarrow> ir_return None
     | Some n \<Rightarrow> ir_bind (node_extent (p_header c) n) (\<lambda>ex.
         ir_return (if in_range iblock (ee_first_block ex) (ext4_ext_get_actual_len ex) then Some ex else None))))"

text \<open>Blocks of the extent from \<open>iblock\<close> on.\<close>

definition blocks_left :: "ext4_extent \<Rightarrow> u32 \<Rightarrow> u32" where
  "blocks_left ex iblock = ucast (ext4_ext_get_actual_len ex) - (iblock - ee_first_block ex)"

definition block_in_extent :: "ext4_extent \<Rightarrow> u32 \<Rightarrow> u64" where
  "block_in_extent ex iblock = ucast (iblock - ee_first_block ex) + ext4_ext_pblock ex"

definition ext4_extent_map_range :: "u32 \<Rightarrow> u32 \<Rightarrow> (u64 \<times> u32 \<times> bool) irm" where
  "ext4_extent_map_range iblock max_blocks =
     ir_bind (ext4_find_extent iblock None) (\<lambda>(e, path).
     if e \<noteq> EOK then ir_fail e
     else
       ir_bind (ir_deref path) (\<lambda>p.
       ir_bind (found_extent p iblock) (\<lambda>ex.
       ir_bind (drop_path (Some p)) (\<lambda>_.
       ir_return (case ex of None \<Rightarrow> (0, 0, False)
         | Some ex \<Rightarrow> (block_in_extent ex iblock, min (blocks_left ex iblock) max_blocks, ext4_ext_is_unwritten ex))))))"

definition ext4_extent_probe :: "u32 \<Rightarrow> (u64 \<times> u32 \<times> bool) irm" where
  "ext4_extent_probe iblock =
     ir_bind (ext4_find_extent iblock None) (\<lambda>(e, path).
     if e \<noteq> EOK then ir_fail e
     else
       ir_bind (ir_deref path) (\<lambda>p.
       ir_bind (found_extent p iblock) (\<lambda>ex.
       ir_bind (case ex of Some ex \<Rightarrow> ir_return (block_in_extent ex iblock, blocks_left ex iblock, ext4_ext_is_unwritten ex)
                | None \<Rightarrow> ir_bind (ext4_ext_next_allocated_block p) (\<lambda>next.
                    ir_return (0, if next = EXT_MAX_BLOCKS then 0 else next - iblock, False))) (\<lambda>r.
       ir_bind (drop_path (Some p)) (\<lambda>_. ir_return r)))))"

definition ext4_extent_mark_written :: "u32 \<Rightarrow> u32 \<Rightarrow> unit irm" where
  "ext4_extent_mark_written iblock blocks_count =
     (if blocks_count = 0 then ir_return ()
      else
        ir_bind (ext4_find_extent iblock None) (\<lambda>(e, path).
        if e \<noteq> EOK then ir_fail e
        else
          ir_bind (ir_deref path) (\<lambda>p.
          ir_bind ext_depth (\<lambda>d.
          ir_bind (path_at p (unat d)) (\<lambda>c.
          ir_bind (case p_extent c of None \<Rightarrow> ir_return (EIO, Some p)
            | Some n \<Rightarrow>
                ir_bind (node_extent (p_header c) n) (\<lambda>ex.
                if \<not> ext4_ext_is_unwritten ex then ir_return (EOK, Some p)
                else
                  ir_bind (ext4_ext_convert_to_initialized p iblock blocks_count) (\<lambda>(e, path).
                  if e \<noteq> EOK then ir_return (e, path)
                  else
                    ir_bind (ext4_find_extent iblock path) (\<lambda>(e, path).
                    if e \<noteq> EOK then ir_return (e, path)
                    else
                      ir_bind (ir_deref path) (\<lambda>p.
                      ir_bind (ext4_ext_try_to_merge p) (\<lambda>p. ir_return (EOK, Some p))))))) (\<lambda>(e, path).
          ir_bind (drop_path path) (\<lambda>_. if e \<noteq> EOK then ir_fail e else ir_return ())))))))"

text \<open>The part of \<^verbatim>\<open>ext4_extent_get_blocks\<close> that answers from an extent that covers the block.\<close>

definition get_covered :: "ext_path \<Rightarrow> ext4_extent \<Rightarrow> u32 \<Rightarrow> u32 \<Rightarrow> bool \<Rightarrow> (errno \<times> ext_path option \<times> u64 \<times> u32) irm" where
  "get_covered p ex iblock max_blocks create =
     (let allocated = blocks_left ex iblock; newblock = block_in_extent ex iblock
      in if \<not> ext4_ext_is_unwritten ex then ir_return (EOK, Some p, newblock, min allocated max_blocks)
         else if \<not> create then ir_return (EOK, Some p, 0, min allocated max_blocks)
         else
           let zero_range = min allocated max_blocks
           in ir_bind (ext4_ext_zero_unwritten_range newblock zero_range) (\<lambda>e.
              if e \<noteq> EOK then ir_return (e, Some p, 0, 0)
              else
                ir_bind (ext4_ext_convert_to_initialized p iblock zero_range) (\<lambda>(e, path).
                ir_return (if e \<noteq> EOK then (e, path, 0, 0) else (EOK, path, newblock, min allocated max_blocks)))))"

text \<open>A new block and its extent; \<^verbatim>\<open>ext4_new_meta_blocks\<close> sets the count to one.\<close>

definition get_new :: "ext_path \<Rightarrow> u32 \<Rightarrow> u32 \<Rightarrow> (errno \<times> ext_path option \<times> u64 \<times> u32) irm" where
  "get_new p iblock max_blocks =
     ir_bind (ext4_ext_next_allocated_block p) (\<lambda>next.
     ir_bind (ext4_ext_find_goal p iblock) (\<lambda>goal.
     ir_bind (ext4_new_meta_blocks goal) (\<lambda>(newblock, e).
     if newblock = 0 then ir_return (e, Some p, 0, 0)
     else
       let newex = ext4_ext_store_pblock \<lparr>ee_first_block = iblock, ee_block_count = 1, ee_start_hi = 0, ee_start_lo = 0\<rparr> newblock
       in ir_bind (ext4_ext_insert_extent p newex False) (\<lambda>(e, p).
          if e \<noteq> EOK then
            ir_bind (ext4_ext_free_blocks (ext4_ext_pblock newex) (ucast (ee_block_count newex))) (\<lambda>_.
            ir_return (e, Some p, 0, 0))
          else ir_return (EOK, Some p, ext4_ext_pblock newex, min 1 max_blocks)))))"

definition ext4_extent_get_blocks :: "u32 \<Rightarrow> u32 \<Rightarrow> bool \<Rightarrow> (u64 \<times> u32) irm" where
  "ext4_extent_get_blocks iblock max_blocks create =
     ir_bind (ext4_find_extent iblock None) (\<lambda>(e, path).
     if e \<noteq> EOK then ir_fail e
     else
       ir_bind (ir_deref path) (\<lambda>p.
       ir_bind (found_extent p iblock) (\<lambda>ex.
       ir_bind (case ex of Some ex \<Rightarrow> get_covered p ex iblock max_blocks create
                | None \<Rightarrow> if \<not> create then ir_return (EOK, Some p, 0, 0) else get_new p iblock max_blocks) (\<lambda>(e, path, fblock, n).
       ir_bind (drop_path path) (\<lambda>_. if e \<noteq> EOK then ir_fail e else ir_return (fblock, n))))))"

text \<open>The loop of the preallocation; \<open>None\<close> when the fuel was not enough.  The count that was newly allocated
  is handed out also with an error.\<close>

fun preallocate_loop :: "nat \<Rightarrow> u32 \<Rightarrow> u32 \<Rightarrow> u32 \<Rightarrow> u32 \<Rightarrow> (errno \<times> u32) option irm" where
  "preallocate_loop 0 iblock count done1 allocated = (if done1 < count then ir_return None else ir_return (Some (EOK, allocated)))"
| "preallocate_loop (Suc fuel) iblock count done1 allocated =
     (if \<not> done1 < count then ir_return (Some (EOK, allocated))
      else
        let at = iblock + done1
        in ir_bind (ext4_find_extent at None) (\<lambda>(e, path).
           if e \<noteq> EOK then ir_return (Some (e, allocated))
           else
             ir_bind (ir_deref path) (\<lambda>p.
             ir_bind (found_extent p at) (\<lambda>ex.
             case ex of
               Some ex \<Rightarrow> ir_bind (drop_path (Some p)) (\<lambda>_.
                 preallocate_loop fuel iblock count (done1 + blocks_left ex at) allocated)
             | None \<Rightarrow>
                 ir_bind (ext4_ext_next_allocated_block p) (\<lambda>_.
                 ir_bind (ext4_ext_find_goal p at) (\<lambda>goal.
                 ir_bind (ext4_new_meta_blocks goal) (\<lambda>(block, e).
                 if block = 0 then ir_bind (drop_path (Some p)) (\<lambda>_. ir_return (Some (e, allocated)))
                 else
                   let newex = ext4_ext_mark_unwritten (ext4_ext_store_pblock
                         \<lparr>ee_first_block = at, ee_block_count = 1, ee_start_hi = 0, ee_start_lo = 0\<rparr> block)
                   in ir_bind (ext4_ext_insert_extent p newex False) (\<lambda>(e, p).
                      if e \<noteq> EOK then
                        ir_bind (ext4_ext_free_blocks block 1) (\<lambda>_.
                        ir_bind (drop_path (Some p)) (\<lambda>_. ir_return (Some (e, allocated))))
                      else
                        ir_bind (drop_path (Some p)) (\<lambda>_.
                        preallocate_loop fuel iblock count (done1 + 1) (allocated + 1))))))))))"

definition ext4_extent_preallocate :: "nat \<Rightarrow> u32 \<Rightarrow> u32 \<Rightarrow> (errno \<times> u32) option irm" where
  "ext4_extent_preallocate fuel iblock count = preallocate_loop fuel iblock count 0 0"

definition ext4_extent_tree_init :: "unit irm" where
  "ext4_extent_tree_init =
     ir_bind (node_upd In_Inode (\<lambda>bs. Option.bind (header_at bs) (\<lambda>h.
       header_put bs
         (ext4_extent_header_set_max_entries_count
           (ext4_extent_header_set_magic
             (ext4_extent_header_set_generation
               (ext4_extent_header_set_entries_count
                 (ext4_extent_header_set_depth h 0) 0) 0) EXT4_EXTENT_MAGIC) ((15 * 4 - 12) div 12))))) (\<lambda>_. ir_mark_dirty)"

text \<open>The functions that \<^verbatim>\<open>ext4_fs.c\<close> calls.  A removal that has not come to an end within the fuel does not return.\<close>

definition extent_tree_ops :: "nat \<Rightarrow> extent_ops" where
  "extent_tree_ops fuel = \<lparr>ext_get_blocks = ext4_extent_get_blocks,
     ext_remove_space = (\<lambda>from to. ir_bind (ext4_extent_remove_space fuel from to) (\<lambda>r.
       case r of None \<Rightarrow> ir_crash | Some e \<Rightarrow> if e \<noteq> EOK then ir_fail e else ir_return ())),
     ext_tree_init = ext4_extent_tree_init\<rparr>"

end
