(* ===== verification/Extent_Spec.thy ===== *)
theory Extent_Spec
  imports Extent_Tree Inode_Map_Spec
begin

unbundle bit_operations_syntax

text \<open>
  What a lookup in the extent tree does.  On any volume whose blocks are whole the walk stays inside the nodes
  it reads, whatever they hold; on a well-formed tree it finds the extent that covers the block, and the tree
  is then another interpretation of \<open>block_map\<close>, so that the directory operations are correct on it.
\<close>

section \<open>The encoding of a node\<close>

lemma length_node [simp, ext4_layout]:
  "length (extent_bytes e) = 12" "length (index_bytes x) = 12" "length (header_bytes h) = 12"
  by (simp_all add: extent_bytes_def index_bytes_def header_bytes_def)

lemma get_le16_app: "o1 + 2 \<le> length xs \<Longrightarrow> get_le16 (xs @ ys) o1 = get_le16 xs o1"
  by (simp add: get_le16_def nth_append)

lemma get_le32_app: "o1 + 4 \<le> length xs \<Longrightarrow> get_le32 (xs @ ys) o1 = get_le32 xs o1"
  by (simp add: get_le32_def nth_append)

lemma get_le_put_at:
  assumes "o1 + length v \<le> length bs"
  shows "k + 2 \<le> length v \<Longrightarrow> get_le16 (put_bytes bs o1 v) (o1 + k) = get_le16 v k"
    "k + 4 \<le> length v \<Longrightarrow> get_le32 (put_bytes bs o1 v) (o1 + k) = get_le32 v k"
  using assms by (auto simp: get_le16_def get_le32_def nth_put_bytes add.assoc)

lemma get_le_skip_node:
  "length xs \<le> o1 \<Longrightarrow> get_le16 (xs @ ys) o1 = get_le16 ys (o1 - length xs)"
  "length xs \<le> o1 \<Longrightarrow> get_le32 (xs @ ys) o1 = get_le32 ys (o1 - length xs)"
  by (simp_all add: get_le16_def get_le32_def nth_append Suc_diff_le add.commute)

lemma entry_roundtrip:
  assumes "o1 + 12 \<le> length bs"
  shows "extent_of (put_bytes bs o1 (extent_bytes e)) o1 = e"
    "index_of (put_bytes bs o1 (index_bytes x)) o1 = x"
  using assms get_le_put_at [of o1 "extent_bytes e" bs] get_le_put_at [of o1 "index_bytes x" bs]
    get_le_put_at [of o1 "extent_bytes e" bs 0] get_le_put_at [of o1 "index_bytes x" bs 0]
  by (simp_all add: extent_of_def index_of_def extent_bytes_def index_bytes_def get_le_skip_node get_le16_app get_le32_app
      get_le16_le16 get_le32_le32)

lemma header_roundtrip: "12 \<le> length bs \<Longrightarrow> header_of (put_bytes bs 0 (header_bytes h)) = h"
  using get_le_put_at [of 0 "header_bytes h" bs]
  by (simp add: header_of_def header_bytes_def get_le_skip_node get_le16_app get_le32_app get_le16_le16 get_le32_le32)

section \<open>A node that passed the check\<close>

lemma bsize_cases: "bsize sb \<in> {1024, 2048, 4096, 8192, 16384, 32768, 65536}"
  using sb_block_size_cases [of sb] by auto

text \<open>The entries lie inside the node; in a block there is room for the checksum after them.\<close>

definition node_fits :: "bytes \<Rightarrow> bool" where
  "node_fits bs \<longleftrightarrow> 12 \<le> length bs \<and> 1 \<le> unat (eh_max_entries_count (header_of bs)) \<and>
     eh_entries_count (header_of bs) \<le> eh_max_entries_count (header_of bs) \<and> tail_off (header_of bs) \<le> length bs"

definition node_safe :: "bytes \<Rightarrow> bool" where
  "node_safe bs \<longleftrightarrow> node_fits bs \<and> tail_off (header_of bs) + 4 \<le> length bs \<and> 60 \<le> length bs"

lemma header_at_fits [simp]: "node_fits bs \<Longrightarrow> header_at bs = Some (header_of bs)"
  by (simp add: node_fits_def header_at_def)

lemma entry_fits:
  assumes "node_fits bs" "n < unat (eh_max_entries_count (header_of bs))"
  shows "entry_off n + 12 \<le> length bs" "extent_at bs n = Some (extent_of bs (entry_off n))"
    "index_at bs n = Some (index_of bs (entry_off n))"
proof -
  show "entry_off n + 12 \<le> length bs" using assms by (simp add: node_fits_def tail_off_def entry_off_def)
  then show "extent_at bs n = Some (extent_of bs (entry_off n))" "index_at bs n = Some (index_of bs (entry_off n))"
    by (simp_all add: extent_at_def index_at_def)
qed

lemma space_block: "12 + 12 * unat (ext4_ext_space_block sb) + 4 \<le> bsize sb" "ext4_ext_space_block_idx sb = ext4_ext_space_block sb"
proof -
  have "ext4_sb_get_block_size sb \<in> {1024, 2048, 4096, 8192, 16384, 32768, 65536}" by (rule sb_block_size_cases)
  then show "12 + 12 * unat (ext4_ext_space_block sb) + 4 \<le> bsize sb" by (auto simp: ext4_ext_space_block_def)
qed (simp add: ext4_ext_space_block_def ext4_ext_space_block_idx_def)

lemma space_root: "ext4_ext_space_root = 4" "ext4_ext_space_root_idx = 4"
  by (simp_all add: ext4_ext_space_root_def ext4_ext_space_root_idx_def)

lemma max_entries:
  "ext4_ext_max_entries sb d (ucast d) = 4"
  "depth \<noteq> d \<Longrightarrow> ext4_ext_max_entries sb d (ucast depth) = ext4_ext_space_block sb"
proof -
  have inj: "(ucast depth :: u32) = ucast d \<longleftrightarrow> depth = d" for depth d :: u16
    by (simp add: word_unat_eq_iff)
  show "ext4_ext_max_entries sb d (ucast d) = 4" by (simp add: ext4_ext_max_entries_def space_root)
  show "depth \<noteq> d \<Longrightarrow> ext4_ext_max_entries sb d (ucast depth) = ext4_ext_space_block sb"
    by (simp add: ext4_ext_max_entries_def inj space_block)
qed

lemma block_csum_total: "node_fits bs \<Longrightarrow> \<exists>c. ext4_ext_block_csum sb i g bs = Some c"
  by (simp add: ext4_ext_block_csum_def node_fits_def)

text \<open>The fields that the check looks at.\<close>

definition header_good :: "ext4_sblock \<Rightarrow> u16 \<Rightarrow> bytes \<Rightarrow> u16 \<Rightarrow> bool" where
  "header_good sb rd bs depth \<longleftrightarrow> eh_magic (header_of bs) = EXT4_EXTENT_MAGIC \<and> eh_depth (header_of bs) = depth \<and>
     eh_max_entries_count (header_of bs) \<noteq> 0 \<and>
     eh_max_entries_count (header_of bs) \<le> ext4_ext_max_entries sb rd (ucast depth) \<and>
     eh_entries_count (header_of bs) \<le> eh_max_entries_count (header_of bs)"

lemma header_good_root:
  assumes "header_good sb rd bs rd" "length bs = 60"
  shows "node_fits bs"
proof -
  have "unat (eh_max_entries_count (header_of bs)) \<le> 4" using assms(1) by (simp add: header_good_def max_entries word_le_nat_alt)
  moreover have "0 < unat (eh_max_entries_count (header_of bs))" using assms(1) by (simp add: header_good_def unat_gt_0)
  ultimately show ?thesis using assms by (simp add: header_good_def node_fits_def tail_off_def)
qed

lemma header_good_block:
  assumes "header_good sb rd bs depth" "depth \<noteq> rd" "length bs = bsize sb"
  shows "node_safe bs" "node_fits bs"
proof -
  have "unat (eh_max_entries_count (header_of bs)) \<le> unat (ext4_ext_space_block sb)"
    using assms(1,2) by (simp add: header_good_def max_entries word_le_nat_alt)
  moreover have "0 < unat (eh_max_entries_count (header_of bs))" using assms(1) by (simp add: header_good_def unat_gt_0)
  ultimately show "node_safe bs" using assms(1,3) space_block(1) [of sb] bsize_cases [of sb]
    by (auto simp: header_good_def node_safe_def node_fits_def tail_off_def)
  then show "node_fits bs" by (simp add: node_safe_def)
qed

lemma check_root:
  assumes "length bs = 60"
  shows "ext4_ext_check sb i g rd bs rd 0 = Some (if header_good sb rd bs rd then EOK else EIO)"
  using assms by (simp add: ext4_ext_check_def header_good_def header_at_def check_tail_def not_less [symmetric])

lemma check_block:
  assumes "length bs = bsize sb" "depth \<noteq> rd"
  shows "ext4_ext_check sb i g rd bs depth pblk = Some (if header_good sb rd bs depth then EOK else EIO)"
proof -
  have "12 \<le> length bs" using bsize_cases [of sb] assms(1) by auto
  then have h: "header_at bs = Some (header_of bs)" by (simp add: header_at_def)
  have "check_tail sb i g bs pblk = Some ()" if "header_good sb rd bs depth"
  proof -
    have "node_safe bs" by (rule header_good_block [OF that assms(2,1)])
    then show ?thesis using block_csum_total [of bs sb i g]
      by (auto simp: check_tail_def node_safe_def h)
  qed
  then show ?thesis by (auto simp: ext4_ext_check_def h header_good_def not_less [symmetric])
qed

section \<open>The search in a node\<close>

lemma ext_bsearch_spec:
  assumes "1 \<le> l" "l \<le> r" "r \<le> E" "\<forall>m. 1 \<le> m \<and> m < E \<longrightarrow> key m = Some (k m)"
    and "l = 1 \<or> k (l - 1) \<le> b" "r = E \<or> b < k r"
  shows "\<exists>j. ext_bsearch key b l r = Some j \<and> j < E \<and> (j = 0 \<or> k j \<le> b) \<and> (j + 1 = E \<or> b < k (j + 1))"
  using assms
proof (induction key b l r rule: ext_bsearch.induct)
  case (1 key b l r)
  show ?case
  proof (cases "l < r")
    case False
    then have "l = r" using "1.prems"(2) by simp
    then show ?thesis using "1.prems" by (subst ext_bsearch.simps) auto
  next
    case lr: True
    define m where "m = l + (r - 1 - l) div 2"
    have "(r - 1 - l) div 2 \<le> r - 1 - l" by simp
    then have m: "l \<le> m" "m < r" using lr m_def by linarith+
    then have key: "key m = Some (k m)" using "1.prems" by simp
    have step: "ext_bsearch key b l r = (if b < k m then ext_bsearch key b l m else ext_bsearch key b (m + 1) r)"
      by (subst ext_bsearch.simps) (simp only: lr if_True Let_def m_def [symmetric] key option.case)
    show ?thesis
    proof (cases "b < k m")
      case True
      then have "\<exists>j. ext_bsearch key b l m = Some j \<and> j < E \<and> (j = 0 \<or> k j \<le> b) \<and> (j + 1 = E \<or> b < k (j + 1))"
        using "1.IH"(1) [OF lr m_def key True] "1.prems" m by simp
      then show ?thesis by (simp only: step True if_True)
    next
      case False
      then have "\<exists>j. ext_bsearch key b (m + 1) r = Some j \<and> j < E \<and> (j = 0 \<or> k j \<le> b) \<and> (j + 1 = E \<or> b < k (j + 1))"
        using "1.IH"(2) [OF lr m_def key False] "1.prems" m by simp
      then show ?thesis by (simp only: step False if_False)
    qed
  qed
qed

lemma bsearch_start:
  assumes "\<forall>m. 1 \<le> m \<and> m < E \<longrightarrow> key m = Some (k m)"
  shows "\<exists>j. ext_bsearch key b 1 E = Some j \<and> (E = 0 \<and> j = 0 \<or>
    j < E \<and> (j = 0 \<or> k j \<le> b) \<and> (j + 1 = E \<or> b < k (j + 1)))"
proof (cases "E = 0")
  case True
  then show ?thesis by (subst ext_bsearch.simps) simp
next
  case False
  then show ?thesis using ext_bsearch_spec [of 1 E E key k b] assms by simp
qed

abbreviation ents :: "bytes \<Rightarrow> nat" where
  "ents bs \<equiv> unat (eh_entries_count (header_of bs))"

abbreviation ext_n :: "bytes \<Rightarrow> nat \<Rightarrow> ext4_extent" where
  "ext_n bs n \<equiv> extent_of bs (entry_off n)"

abbreviation idx_n :: "bytes \<Rightarrow> nat \<Rightarrow> ext4_extent_index" where
  "idx_n bs n \<equiv> index_of bs (entry_off n)"

lemma fits_ents: "node_fits bs \<Longrightarrow> n < ents bs \<Longrightarrow> n < unat (eh_max_entries_count (header_of bs))"
  by (simp add: node_fits_def word_le_nat_alt)

lemma search_index:
  assumes "node_fits bs"
  obtains j where "ext4_ext_binsearch_idx bs b = Some j" "index_at bs j = Some (idx_n bs j)"
    "ents bs = 0 \<and> j = 0 \<or> j < ents bs \<and> (j = 0 \<or> ei_first_block (idx_n bs j) \<le> b) \<and>
       (j + 1 = ents bs \<or> b < ei_first_block (idx_n bs (j + 1)))"
proof -
  have "\<forall>m. 1 \<le> m \<and> m < ents bs \<longrightarrow> map_option ei_first_block (index_at bs m) = Some (ei_first_block (idx_n bs m))"
    using entry_fits(3) [OF assms fits_ents [OF assms]] by simp
  from bsearch_start [OF this, of b] obtain j where j: "ext_bsearch (\<lambda>m. map_option ei_first_block (index_at bs m)) b 1 (ents bs) = Some j"
    "ents bs = 0 \<and> j = 0 \<or> j < ents bs \<and> (j = 0 \<or> ei_first_block (idx_n bs j) \<le> b) \<and>
       (j + 1 = ents bs \<or> b < ei_first_block (idx_n bs (j + 1)))" by blast
  have "j < unat (eh_max_entries_count (header_of bs))" using j(2) fits_ents [OF assms, of j] assms by (auto simp: node_fits_def)
  then have "index_at bs j = Some (idx_n bs j)" by (rule entry_fits(3) [OF assms])
  then show thesis using that j assms by (simp add: ext4_ext_binsearch_idx_def)
qed

lemma search_extent:
  assumes "node_fits bs"
  obtains (empty) "ents bs = 0" "ext4_ext_binsearch bs b = Some None"
  | (found) j where "ext4_ext_binsearch bs b = Some (Some j)" "j < ents bs" "extent_at bs j = Some (ext_n bs j)"
    "j = 0 \<or> ee_first_block (ext_n bs j) \<le> b" "j + 1 = ents bs \<or> b < ee_first_block (ext_n bs (j + 1))"
proof (cases "ents bs = 0")
  case True
  then have "eh_entries_count (header_of bs) = 0" by (simp add: unat_eq_0)
  then show thesis using that(1) True assms by (simp add: ext4_ext_binsearch_def)
next
  case False
  have "\<forall>m. 1 \<le> m \<and> m < ents bs \<longrightarrow> map_option ee_first_block (extent_at bs m) = Some (ee_first_block (ext_n bs m))"
    using entry_fits(2) [OF assms fits_ents [OF assms]] by simp
  from bsearch_start [OF this, of b] False obtain j where j: "ext_bsearch (\<lambda>m. map_option ee_first_block (extent_at bs m)) b 1 (ents bs) = Some j"
    "j < ents bs" "j = 0 \<or> ee_first_block (ext_n bs j) \<le> b" "j + 1 = ents bs \<or> b < ee_first_block (ext_n bs (j + 1))" by auto
  moreover have "eh_entries_count (header_of bs) \<noteq> 0" using False by auto
  ultimately show thesis using that(2) [of j] entry_fits(2) [OF assms fits_ents [OF assms j(2)]] assms
    by (simp add: ext4_ext_binsearch_def)
qed

section \<open>Running the basic operations\<close>

definition root_bytes :: "ext4_fs \<Rightarrow> ext4_inode_ref \<Rightarrow> bytes" where
  "root_bytes fs ref = concat (map le32 (i_blocks (inode_at (ino_raw fs ref))))"

definition node_bytes :: "ext4_fs \<Rightarrow> ext4_inode_ref \<Rightarrow> ext_node \<Rightarrow> bytes" where
  "node_bytes fs ref h = (case h of In_Inode \<Rightarrow> root_bytes fs ref | In_Block b \<Rightarrow> fs_blk fs b)"

definition tree_depth :: "ext4_fs \<Rightarrow> ext4_inode_ref \<Rightarrow> u16" where
  "tree_depth fs ref = eh_depth (header_of (root_bytes fs ref))"

abbreviation generation :: "ext4_fs \<Rightarrow> ext4_inode_ref \<Rightarrow> u32" where
  "generation fs ref \<equiv> ext4_inode_get_generation (inode_at (ino_raw fs ref))"

lemma length_root [simp]: "length (root_bytes fs ref) = 60"
  by (simp add: root_bytes_def)

lemma node_bytes_simps [simp]: "node_bytes fs ref In_Inode = root_bytes fs ref" "node_bytes fs ref (In_Block b) = fs_blk fs b"
  by (simp_all add: node_bytes_def)

lemma calls_root [simp]:
  "root_bytes (fs\<lparr>fs_calls := n\<rparr>) ref = root_bytes fs ref" "node_bytes (fs\<lparr>fs_calls := n\<rparr>) ref h = node_bytes fs ref h"
  "tree_depth (fs\<lparr>fs_calls := n\<rparr>) ref = tree_depth fs ref" "ino_raw (fs\<lparr>fs_calls := n\<rparr>) ref = ino_raw fs ref"
  by (simp_all add: root_bytes_def node_bytes_def tree_depth_def ino_raw_def split: ext_node.split)

lemmas ir_ops = ir_bind_def ir_lift_def ir_return_def ir_fail_def ir_crash_def

lemma ir_ret: "m ref fs = (Ret x, ref', fs') \<Longrightarrow> ir_bind m f ref fs = f x ref' fs'"
  by (simp add: ir_bind_def)

lemma run_basic [simp]:
  "ir_inode ref fs = (Ret (inode_at (ino_raw fs ref)), ref, fs)"
  "node_get h ref fs = (Ret (node_bytes fs ref h), ref, fs)"
  "ir_mem (Some x) ref fs = (Ret x, ref, fs)" "ir_mem None ref fs = (Crash, ref, fs)"
  "ir_deref (Some x) ref fs = (Ret x, ref, fs)"
  "ext_depth ref fs = (Ret (tree_depth fs ref), ref, fs)"
  "ext_ids ref fs = (Ret (fs_sb fs, ir_index ref, generation fs ref), ref, fs)"
  "i < length p \<Longrightarrow> path_at p i ref fs = (Ret (p ! i), ref, fs)"
proof -
  show i: "ir_inode ref fs = (Ret (inode_at (ino_raw fs ref)), ref, fs)"
    by (simp add: ir_inode_def ir_lift_def inoref_get_def fs_gets_def)
  show g: "node_get h ref fs = (Ret (node_bytes fs ref h), ref, fs)" for h
    by (cases h) (simp_all add: node_get_def ir_ops i root_bytes_def blk_get_def fs_gets_def)
  show "ext_depth ref fs = (Ret (tree_depth fs ref), ref, fs)"
    by (simp add: ext_depth_def node_header_def ir_ops g ir_mem_def header_at_def fs_mem_def tree_depth_def)
  show "ext_ids ref fs = (Ret (fs_sb fs, ir_index ref, generation fs ref), ref, fs)"
    by (simp add: ext_ids_def ir_ops i fs_gets_def)
qed (simp_all add: ir_mem_def ir_lift_def fs_mem_def ir_deref_def ir_return_def path_at_def)

section \<open>Releasing a path\<close>

text \<open>What a release may do to a block: its checksum is set again when the buffer was dirty.\<close>

definition stamp_same :: "ext4_fs \<Rightarrow> ext4_inode_ref \<Rightarrow> u64 \<Rightarrow> bool" where
  "stamp_same fs ref b \<longleftrightarrow> (\<exists>n. fs_was_dirty fs n b) \<longrightarrow>
     ext4_extent_block_csum_set (fs_sb fs) (ir_index ref) (generation fs ref) (fs_blk fs b) = Some (fs_blk fs b)"

definition held_ok :: "ext4_fs \<Rightarrow> ext4_extent_path \<Rightarrow> bool" where
  "held_ok fs c \<longleftrightarrow> p_lb c = 0 \<or> p_header c = In_Block (p_lb c) \<and> node_safe (fs_blk fs (p_lb c)) \<and> \<not> p_dirty c"

definition held :: "ext_path \<Rightarrow> u64 list" where
  "held p = filter (\<lambda>b. b \<noteq> 0) (map p_lb p)"

lemma held_simps [simp]: "held [] = []" "held (c # p) = (if p_lb c = 0 then held p else p_lb c # held p)"
  by (simp_all add: held_def)

lemma csum_set_safe:
  assumes "node_safe bs"
  obtains bs' where "ext4_extent_block_csum_set sb i g bs = Some bs'" "length bs' = length bs"
proof -
  have f: "node_fits bs" using assms by (simp add: node_safe_def)
  obtain c where "ext4_ext_block_csum sb i g bs = Some c" using block_csum_total [OF f] by blast
  then show thesis using that f assms by (simp add: ext4_extent_block_csum_set_def node_safe_def)
qed

lemma drop_ref_run:
  assumes "held_ok fs c"
  obtains f where "drop_ref c ref fs = (Ret (c\<lparr>p_lb := 0, p_dirty := (p_lb c = 0 \<and> p_dirty c)\<rparr>), ref, fs\<lparr>fs_blk := f\<rparr>)"
    "\<forall>b. length (f b) = length (fs_blk fs b)" "\<forall>b. b \<noteq> p_lb c \<longrightarrow> f b = fs_blk fs b"
    "p_lb c = 0 \<or> stamp_same fs ref (p_lb c) \<longrightarrow> f = fs_blk fs"
proof (cases "p_lb c = 0")
  case True
  then show thesis using that [of "fs_blk fs"] by (simp add: drop_ref_def ir_return_def)
next
  case False
  then have c: "p_header c = In_Block (p_lb c)" "node_safe (fs_blk fs (p_lb c))" "\<not> p_dirty c" using assms by (auto simp: held_ok_def)
  have d: "held_dirty c ref fs = (Ret (fs_was_dirty fs (fs_calls fs) (p_lb c)), ref, fs)"
    using c by (simp add: held_dirty_def ir_lift_def fs_gets_def)
  show thesis
  proof (cases "fs_was_dirty fs (fs_calls fs) (p_lb c)")
    case no: False
    then show thesis using that [of "fs_blk fs"] False by (simp add: drop_ref_def ir_ops d blk_release_def fs_return_def)
  next
    case True
    obtain bs' where s: "ext4_extent_block_csum_set (fs_sb fs) (ir_index ref) (generation fs ref) (fs_blk fs (p_lb c)) = Some bs'"
      "length bs' = length (fs_blk fs (p_lb c))" by (rule csum_set_safe [OF c(2)])
    have "csum_set_node (p_header c) ref fs = (Ret (), ref, fs\<lparr>fs_blk := (fs_blk fs)(p_lb c := bs')\<rparr>)"
      using s c(1) by (simp add: csum_set_node_def ir_bind_def node_upd_def node_put_def ir_lift_def blk_put_def fs_modify_def)
    then have "drop_ref c ref fs = (Ret (c\<lparr>p_lb := 0, p_dirty := False\<rparr>), ref, fs\<lparr>fs_blk := (fs_blk fs)(p_lb c := bs')\<rparr>)"
      using False True by (simp add: drop_ref_def ir_ops d blk_release_def fs_return_def)
    moreover have "stamp_same fs ref (p_lb c) \<longrightarrow> bs' = fs_blk fs (p_lb c)" using s(1) True by (auto simp: stamp_same_def)
    ultimately show thesis using that [of "(fs_blk fs)(p_lb c := bs')"] False s(2) by auto
  qed
qed

lemma drop_each_run:
  assumes "\<forall>c\<in>set cs. held_ok fs c" "distinct (held cs)"
  obtains f cs' where "drop_each cs ref fs = (Ret cs', ref, fs\<lparr>fs_blk := f\<rparr>)" "length cs' = length cs"
    "\<forall>b. length (f b) = length (fs_blk fs b)" "\<forall>b. b \<notin> set (held cs) \<longrightarrow> f b = fs_blk fs b"
    "(\<forall>b\<in>set (held cs). stamp_same fs ref b) \<longrightarrow> f = fs_blk fs"
  using assms
proof (induction cs arbitrary: fs thesis)
  case Nil
  then show ?case using Nil.prems(1) [of "[]" "fs_blk fs"] by (simp add: ir_return_def)
next
  case (Cons c cs)
  obtain f where f: "drop_ref c ref fs = (Ret (c\<lparr>p_lb := 0, p_dirty := (p_lb c = 0 \<and> p_dirty c)\<rparr>), ref, fs\<lparr>fs_blk := f\<rparr>)"
    "\<forall>b. length (f b) = length (fs_blk fs b)" "\<forall>b. b \<noteq> p_lb c \<longrightarrow> f b = fs_blk fs b"
    "p_lb c = 0 \<or> stamp_same fs ref (p_lb c) \<longrightarrow> f = fs_blk fs"
    by (rule drop_ref_run [of fs c ref]) (use Cons.prems in auto)
  let ?fs = "fs\<lparr>fs_blk := f\<rparr>"
  have "held_ok ?fs d" if "d \<in> set cs" for d
  proof -
    have "held_ok fs d" using Cons.prems that by simp
    moreover have "p_lb d \<noteq> p_lb c" if "p_lb d \<noteq> 0" "p_lb c \<noteq> 0"
      using Cons.prems(3) that \<open>d \<in> set cs\<close> by (auto simp: held_def dest!: imageI [of d _ p_lb])
    ultimately show ?thesis using f(3,4) by (cases "p_lb c = 0") (auto simp: held_ok_def)
  qed
  moreover have "distinct (held cs)" using Cons.prems(3) by (simp split: if_splits)
  ultimately obtain g cs' where g: "drop_each cs ref ?fs = (Ret cs', ref, ?fs\<lparr>fs_blk := g\<rparr>)" "length cs' = length cs"
    "\<forall>b. length (g b) = length (f b)" "\<forall>b. b \<notin> set (held cs) \<longrightarrow> g b = f b"
    "(\<forall>b\<in>set (held cs). stamp_same ?fs ref b) \<longrightarrow> g = f"
    using Cons.IH [of ?fs] by auto
  show ?case
  proof (rule Cons.prems(1) [of "c\<lparr>p_lb := 0, p_dirty := (p_lb c = 0 \<and> p_dirty c)\<rparr> # cs'" g])
    show "drop_each (c # cs) ref fs = (Ret (c\<lparr>p_lb := 0, p_dirty := (p_lb c = 0 \<and> p_dirty c)\<rparr> # cs'), ref, fs\<lparr>fs_blk := g\<rparr>)"
      using f(1) g(1) by (simp add: ir_bind_def ir_return_def)
    show "\<forall>b. b \<notin> set (held (c # cs)) \<longrightarrow> g b = fs_blk fs b" using g(4) f(3,4) by (auto split: if_splits)
    show "(\<forall>b\<in>set (held (c # cs)). stamp_same fs ref b) \<longrightarrow> g = fs_blk fs"
    proof
      assume s: "\<forall>b\<in>set (held (c # cs)). stamp_same fs ref b"
      then have e: "f = fs_blk fs" using f(4) by (cases "p_lb c = 0") auto
      then have "?fs = fs" by simp
      then show "g = fs_blk fs" using g(5) s e by (auto split: if_splits)
    qed
  qed (use f(2) g(2,3) in auto)
qed

lemma drop_refs_run:
  assumes "\<forall>c\<in>set p. held_ok fs c" "distinct (held p)" "i + (if keep then 1 else Suc (p_depth (p ! i))) \<le> length p"
  obtains f p' where "ext4_ext_drop_refs p i keep ref fs = (Ret p', ref, fs\<lparr>fs_blk := f\<rparr>)" "length p' = length p"
    "\<forall>b. length (f b) = length (fs_blk fs b)" "\<forall>b. b \<notin> set (held p) \<longrightarrow> f b = fs_blk fs b"
    "(\<forall>b\<in>set (held p). stamp_same fs ref b) \<longrightarrow> f = fs_blk fs"
proof -
  define n where "n = (if keep then 1 else Suc (p_depth (p ! i)))"
  let ?cs = "take n (drop i p)"
  have i: "i < length p" "i + n \<le> length p" using assms(3) by (auto simp: n_def split: if_splits)
  have p: "p = take i p @ ?cs @ drop (i + n) p"
    by (metis append_take_drop_id drop_drop add.commute)
  have sub: "set ?cs \<subseteq> set p" by (meson order_trans set_drop_subset set_take_subset)
  have h: "held p = held (take i p) @ held ?cs @ held (drop (i + n) p)" using arg_cong [OF p, of held] by (simp add: held_def)
  obtain f cs' where r: "drop_each ?cs ref fs = (Ret cs', ref, fs\<lparr>fs_blk := f\<rparr>)" "length cs' = length ?cs"
    "\<forall>b. length (f b) = length (fs_blk fs b)" "\<forall>b. b \<notin> set (held ?cs) \<longrightarrow> f b = fs_blk fs b"
    "(\<forall>b\<in>set (held ?cs). stamp_same fs ref b) \<longrightarrow> f = fs_blk fs"
    by (rule drop_each_run [of ?cs fs ref]) (use assms(1,2) h sub in auto)
  have "ext4_ext_drop_refs p i keep ref fs = (Ret (take i p @ cs' @ drop (i + n) p), ref, fs\<lparr>fs_blk := f\<rparr>)"
    using r(1) i by (simp add: ext4_ext_drop_refs_def ir_bind_def Let_def n_def [symmetric] ir_return_def)
  then show thesis by (rule that) (use r(2-5) h i in auto)
qed

section \<open>The walk\<close>

text \<open>The blocks on the way down, and the path that the walk leaves.\<close>

fun ext_spine :: "ext4_fs \<Rightarrow> u16 \<Rightarrow> nat \<Rightarrow> bytes \<Rightarrow> u32 \<Rightarrow> u64 list" where
  "ext_spine fs rd 0 bs b = []"
| "ext_spine fs rd (Suc i) bs b = (case ext4_ext_binsearch_idx bs b of None \<Rightarrow> []
     | Some j \<Rightarrow> let c = ext4_idx_pblock (idx_n bs j)
         in c # (if header_good (fs_sb fs) rd (fs_blk fs c) (of_nat i) then ext_spine fs rd i (fs_blk fs c) b else []))"

fun path_walk :: "ext4_fs \<Rightarrow> ext4_inode_ref \<Rightarrow> nat \<Rightarrow> ext_path \<Rightarrow> u32 \<Rightarrow> bool" where
  "path_walk fs ref 0 (c # p) b \<longleftrightarrow> p_depth c = 0 \<and>
     ext4_ext_binsearch (node_bytes fs ref (p_header c)) b = Some (p_extent c)"
| "path_walk fs ref (Suc i) (c # c' # p) b \<longleftrightarrow> p_depth c = Suc i \<and>
     (\<exists>j. p_index c = Some j \<and> ext4_ext_binsearch_idx (node_bytes fs ref (p_header c)) b = Some j \<and>
       (let x = ext4_idx_pblock (idx_n (node_bytes fs ref (p_header c)) j)
        in p_header c' = In_Block x \<and> header_good (fs_sb fs) (tree_depth fs ref) (fs_blk fs x) (of_nat i))) \<and>
     path_walk fs ref i (c' # p) b"
| "path_walk fs ref _ _ b \<longleftrightarrow> False"

definition path_held :: "ext4_fs \<Rightarrow> nat \<Rightarrow> nat \<Rightarrow> ext_path \<Rightarrow> bool" where
  "path_held fs depth k p \<longleftrightarrow> (\<forall>j<length p. if 1 \<le> j \<and> j \<le> k
     then p_lb (p ! j) \<noteq> 0 \<and> p_header (p ! j) = In_Block (p_lb (p ! j)) \<and> node_safe (fs_blk fs (p_lb (p ! j))) \<and>
       eh_depth (header_of (fs_blk fs (p_lb (p ! j)))) = of_nat (depth - j) \<and> \<not> p_dirty (p ! j)
     else p_lb (p ! j) = 0)"

definition walk_err :: "ext4_fs \<Rightarrow> errno \<Rightarrow> bool" where
  "walk_err fs e \<longleftrightarrow> e \<in> {ENXIO, EIO, ENOMEM} \<or> e \<noteq> EOK \<and> (\<exists>k. e = fs_answer fs k)"

definition spine_whole :: "ext4_fs \<Rightarrow> u64 list \<Rightarrow> bool" where
  "spine_whole fs xs \<longleftrightarrow> (\<forall>c\<in>set xs. c \<noteq> 0 \<and> c < fs_lg_bcnt fs \<longrightarrow> length (fs_blk fs c) = bsize (fs_sb fs))"

lemma ext_spine_calls [simp]: "ext_spine (fs\<lparr>fs_calls := n\<rparr>) rd i bs b = ext_spine fs rd i bs b"
  by (induction i arbitrary: bs) (simp_all add: Let_def split: option.split)

lemma path_walk_calls [simp]: "path_walk (fs\<lparr>fs_calls := n\<rparr>) ref i p b = path_walk fs ref i p b"
  by (induction fs ref i p b rule: path_walk.induct) simp_all

lemma walk_calls [simp]:
  "path_held (fs\<lparr>fs_calls := n\<rparr>) depth k p = path_held fs depth k p" "walk_err (fs\<lparr>fs_calls := n\<rparr>) e = walk_err fs e"
  "spine_whole (fs\<lparr>fs_calls := n\<rparr>) xs = spine_whole fs xs" "stamp_same (fs\<lparr>fs_calls := n\<rparr>) ref x = stamp_same fs ref x"
  by (simp_all add: path_held_def walk_err_def spine_whole_def stamp_same_def)

lemma small_u16: "m \<le> 5 \<Longrightarrow> n \<le> 5 \<Longrightarrow> (of_nat m :: u16) = of_nat n \<longleftrightarrow> m = n"
  by (auto dest!: arg_cong [of _ _ unat] simp: unat_of_nat)

lemma distinct_held:
  "\<forall>i<length p. \<forall>j<length p. i \<noteq> j \<and> p_lb (p ! i) \<noteq> 0 \<and> p_lb (p ! j) \<noteq> 0 \<longrightarrow> p_lb (p ! i) \<noteq> p_lb (p ! j) \<Longrightarrow> distinct (held p)"
proof (induction p)
  case (Cons c p)
  have "distinct (held p)"
  proof (rule Cons.IH, intro allI impI)
    fix i j assume "i < length p" "j < length p" "i \<noteq> j \<and> p_lb (p ! i) \<noteq> 0 \<and> p_lb (p ! j) \<noteq> 0"
    then show "p_lb (p ! i) \<noteq> p_lb (p ! j)" using Cons.prems [rule_format, of "Suc i" "Suc j"] by simp
  qed
  moreover have "p_lb c \<notin> set (held p)" if "p_lb c \<noteq> 0"
  proof
    assume "p_lb c \<in> set (held p)"
    then obtain j where "j < length p" "p_lb (p ! j) = p_lb c" by (auto simp: held_def in_set_conv_nth)
    then show False using Cons.prems [rule_format, of 0 "Suc j"] that by simp
  qed
  ultimately show ?case by simp
qed simp

lemma path_held_ok:
  assumes "path_held fs depth k p" "k \<le> depth" "depth \<le> 5"
  shows "\<forall>c\<in>set p. held_ok fs c" "distinct (held p)"
proof -
  show "\<forall>c\<in>set p. held_ok fs c"
    using assms(1) by (auto simp: path_held_def held_ok_def in_set_conv_nth split: if_splits)
  show "distinct (held p)"
  proof (rule distinct_held, intro allI impI)
    fix i j assume ij: "i < length p" "j < length p" "i \<noteq> j \<and> p_lb (p ! i) \<noteq> 0 \<and> p_lb (p ! j) \<noteq> 0"
    have r: "1 \<le> j \<and> j \<le> k \<and> eh_depth (header_of (fs_blk fs (p_lb (p ! j)))) = of_nat (depth - j)"
      if "j < length p" "p_lb (p ! j) \<noteq> 0" for j
      using assms(1) that unfolding path_held_def by (metis (no_types, lifting))
    show "p_lb (p ! i) \<noteq> p_lb (p ! j)"
    proof
      assume "p_lb (p ! i) = p_lb (p ! j)"
      then have "(of_nat (depth - i) :: u16) = of_nat (depth - j)" using r [of i] r [of j] ij by simp
      then have "depth - i = depth - j" using small_u16 [of "depth - i" "depth - j"] assms(3) by simp
      moreover have "i \<le> k" "j \<le> k" using r [of i] r [of j] ij by blast+
      ultimately show False using ij assms(2) by linarith
    qed
  qed
qed

lemma read_block_run:
  assumes "b \<noteq> 0 \<and> b < fs_lg_bcnt fs \<longrightarrow> length (fs_blk fs b) = bsize (fs_sb fs)" "depth \<noteq> tree_depth fs ref"
  obtains (ok) "read_extent_tree_block b depth ref fs = (Ret b, ref, fs\<lparr>fs_calls := fs_calls fs + 1\<rparr>)"
      "b \<noteq> 0" "length (fs_blk fs b) = bsize (fs_sb fs)" "header_good (fs_sb fs) (tree_depth fs ref) (fs_blk fs b) depth"
  | (err) e n where "read_extent_tree_block b depth ref fs = (Err e, ref, fs\<lparr>fs_calls := n\<rparr>)" "walk_err fs e"
proof (cases "b \<noteq> 0 \<and> b < fs_lg_bcnt fs \<and> fs_answer fs (fs_calls fs) = EOK")
  case False
  have "read_extent_tree_block b depth ref fs = (Err ENXIO, ref, fs\<lparr>fs_calls := fs_calls fs\<rparr>) \<or>
    fs_answer fs (fs_calls fs) \<noteq> EOK \<and> read_extent_tree_block b depth ref fs = (Err (fs_answer fs (fs_calls fs)), ref, fs\<lparr>fs_calls := fs_calls fs + 1\<rparr>)"
    using False by (auto simp: read_extent_tree_block_def ir_ops ext4_trans_block_get_def fs_bind_def fs_ask_def Let_def)
  then show thesis using err [of ENXIO "fs_calls fs"] err [of "fs_answer fs (fs_calls fs)" "fs_calls fs + 1"]
    by (auto simp: walk_err_def)
next
  case True
  then have g: "ext4_trans_block_get b fs = (Ret b, fs\<lparr>fs_calls := fs_calls fs + 1\<rparr>)"
    by (simp add: ext4_trans_block_get_def fs_bind_def fs_ask_def Let_def fs_return_def)
  have c: "ext4_ext_check (fs_sb fs) (ir_index ref) (generation fs ref) (tree_depth fs ref) (fs_blk fs b) depth b =
      Some (if header_good (fs_sb fs) (tree_depth fs ref) (fs_blk fs b) depth then EOK else EIO)"
    by (rule check_block) (use assms True in auto)
  show thesis
  proof (cases "header_good (fs_sb fs) (tree_depth fs ref) (fs_blk fs b) depth")
    case hg: True
    then have "read_extent_tree_block b depth ref fs = (Ret b, ref, fs\<lparr>fs_calls := fs_calls fs + 1\<rparr>)"
      by (simp add: read_extent_tree_block_def ir_bind_def ir_lift_def g c ir_return_def)
    then show thesis using ok hg True assms(1) by blast
  next
    case False
    then have "read_extent_tree_block b depth ref fs = (Err EIO, ref, fs\<lparr>fs_calls := fs_calls fs + 1\<rparr>)"
      by (simp add: read_extent_tree_block_def ir_bind_def g c ir_lift_def ir_fail_def blk_release_def fs_return_def)
    then show thesis using err by (simp add: walk_err_def)
  qed
qed

lemma drop_path_run:
  assumes "path_held fs depth k p" "k \<le> depth" "depth \<le> 5" "p_depth (p ! 0) = depth" "depth + 2 \<le> length p"
  obtains f where "drop_path (Some p) ref fs = (Ret (), ref, fs\<lparr>fs_blk := f\<rparr>)"
    "\<forall>b. length (f b) = length (fs_blk fs b)" "\<forall>b. b \<notin> set (held p) \<longrightarrow> f b = fs_blk fs b"
    "(\<forall>b\<in>set (held p). stamp_same fs ref b) \<longrightarrow> f = fs_blk fs"
proof -
  obtain f p' where f: "ext4_ext_drop_refs p 0 False ref fs = (Ret p', ref, fs\<lparr>fs_blk := f\<rparr>)" "length p' = length p"
    "\<forall>b. length (f b) = length (fs_blk fs b)" "\<forall>b. b \<notin> set (held p) \<longrightarrow> f b = fs_blk fs b"
    "(\<forall>b\<in>set (held p). stamp_same fs ref b) \<longrightarrow> f = fs_blk fs"
    by (rule drop_refs_run [OF path_held_ok [OF assms(1-3)], of 0 False ref]) (use assms(4,5) in auto)
  show thesis by (rule that [of f]) (use f in \<open>auto simp: drop_path_def ir_bind_def ir_return_def\<close>)
qed

definition walk_found :: "ext4_fs \<Rightarrow> ext4_inode_ref \<Rightarrow> nat \<Rightarrow> nat \<Rightarrow> nat \<Rightarrow> u32 \<Rightarrow> ext_path \<Rightarrow> u64 list \<Rightarrow> ext_path \<Rightarrow> bool" where
  "walk_found fs ref depth i ppos b p spine p' \<longleftrightarrow> path_held fs depth depth p' \<and> length p' = length p \<and>
     take ppos p' = take ppos p \<and> p_header (p' ! ppos) = p_header (p ! ppos) \<and> path_walk fs ref i (drop ppos p') b \<and>
     p_depth (p' ! 0) = depth \<and> set (held p') \<subseteq> set (held p) \<union> set spine"

definition walk_failed :: "ext4_fs \<Rightarrow> ext4_inode_ref \<Rightarrow> u64 list \<Rightarrow> errno \<Rightarrow> (u64 \<Rightarrow> bytes) \<Rightarrow> bool" where
  "walk_failed fs ref bs e f \<longleftrightarrow> walk_err fs e \<and> (\<forall>x. length (f x) = length (fs_blk fs x)) \<and>
     (\<forall>x. x \<notin> set bs \<longrightarrow> f x = fs_blk fs x) \<and> ((\<forall>x\<in>set bs. stamp_same fs ref x) \<longrightarrow> f = fs_blk fs)"

lemma walk_out_calls [simp]:
  "walk_found (fs\<lparr>fs_calls := n\<rparr>) ref depth i ppos b p spine p' = walk_found fs ref depth i ppos b p spine p'"
  "walk_failed (fs\<lparr>fs_calls := n\<rparr>) ref bs e f = walk_failed fs ref bs e f"
  by (simp_all add: walk_found_def walk_failed_def)

lemma walk_failed_mono: "walk_failed fs ref bs e f \<Longrightarrow> set bs \<subseteq> set cs \<Longrightarrow> walk_failed fs ref cs e f"
  by (auto simp: walk_failed_def)

lemma set_held: "set (held p) = {x. x \<noteq> 0 \<and> (\<exists>j<length p. p_lb (p ! j) = x)}"
proof -
  have "p_lb ` set p = {p_lb (p ! j) | j. j < length p}" unfolding set_conv_nth by blast
  then show ?thesis by (auto simp: held_def)
qed

lemma path_held_upd:
  assumes "path_held fs depth k p" "j < length p" "p_lb c = p_lb (p ! j)" "p_header c = p_header (p ! j)" "p_dirty c = p_dirty (p ! j)"
  shows "path_held fs depth k (p[j := c])"
  using assms by (auto simp: path_held_def nth_list_update)

lemma held_upd: "j < length p \<Longrightarrow> p_lb c = p_lb (p ! j) \<Longrightarrow> held (p[j := c]) = held p"
proof -
  assume "j < length p" "p_lb c = p_lb (p ! j)"
  then have "map p_lb (p[j := c]) = map p_lb p" by (metis list_update_id map_update nth_map)
  then show ?thesis by (simp add: held_def)
qed

lemma path_held_next:
  assumes "path_held fs depth k p" "Suc k < length p" "x \<noteq> 0" "node_safe (fs_blk fs x)"
    "eh_depth (header_of (fs_blk fs x)) = of_nat (depth - Suc k)" "p_lb c = x" "p_header c = In_Block x" "\<not> p_dirty c"
  shows "path_held fs depth (Suc k) (p[Suc k := c])" "set (held (p[Suc k := c])) \<subseteq> insert x (set (held p))"
  using assms by (auto simp: path_held_def nth_list_update set_held)

lemma find_levels_run:
  assumes "depth \<le> 5" "ppos + i = depth" "tree_depth fs ref = of_nat depth" "path_held fs depth ppos p" "depth + 2 \<le> length p"
    "node_fits (node_bytes fs ref (p_header (p ! ppos)))" "ppos = 0 \<or> p_depth (p ! 0) = depth"
    "spine_whole fs (ext_spine fs (tree_depth fs ref) i (node_bytes fs ref (p_header (p ! ppos))) b)"
    "spine = ext_spine fs (tree_depth fs ref) i (node_bytes fs ref (p_header (p ! ppos))) b"
  shows "(\<exists>n p'. find_levels depth i ppos b p ref fs = (Ret (EOK, Some p'), ref, fs\<lparr>fs_calls := n\<rparr>) \<and>
        walk_found fs ref depth i ppos b p spine p') \<or>
    (\<exists>n f e. find_levels depth i ppos b p ref fs = (Ret (e, None), ref, fs\<lparr>fs_calls := n, fs_blk := f\<rparr>) \<and>
        walk_failed fs ref (held p @ spine) e f)"
  using assms
proof (induction i arbitrary: ppos p fs spine)
  case 0
  define c where "c = p ! ppos"
  have pp: "ppos < length p" "ppos = depth" using "0.prems"(2,5) by auto
  have fits: "node_fits (node_bytes fs ref (p_header c))" using "0.prems"(6) by (simp add: c_def)
  define done1 where "done1 p' \<longleftrightarrow> find_levels depth 0 ppos b p ref fs = (Ret (EOK, Some p'), ref, fs\<lparr>fs_calls := fs_calls fs\<rparr>) \<and>
      walk_found fs ref depth 0 ppos b p spine p'" for p'
  have fin: "walk_found fs ref depth 0 ppos b p spine (p[ppos := c'])"
    if c': "ext4_ext_binsearch (node_bytes fs ref (p_header c)) b = Some (p_extent c')" "p_depth c' = 0"
      "p_lb c' = p_lb c" "p_header c' = p_header c" "p_dirty c' = p_dirty c" for c'
  proof -
    have "path_held fs depth depth (p[ppos := c'])" "held (p[ppos := c']) = held p"
      using path_held_upd [of fs depth ppos p ppos c'] held_upd [of ppos p c'] pp "0.prems"(4) c' by (simp_all add: c_def)
    moreover have "drop ppos (p[ppos := c']) = c' # drop (Suc ppos) p" using pp
      by (simp add: drop_update_swap Cons_nth_drop_Suc [symmetric])
    moreover have "p_depth (p[ppos := c'] ! 0) = depth" using c'(2) pp "0.prems"(7) by (cases "ppos = 0") simp_all
    ultimately show ?thesis using c' pp by (simp add: walk_found_def c_def)
  qed
  show ?case
  proof (cases rule: search_extent [OF fits, of b, case_names empty found])
    case empty
    then have "done1 (p[ppos := c\<lparr>p_depth := 0, p_index := None, p_extent := None\<rparr>])"
      using pp(1) fin by (simp add: done1_def ir_bind_def c_def [symmetric] ir_return_def)
    then show ?thesis unfolding done1_def by blast
  next
    case (found j)
    then have "done1 (p[ppos := c\<lparr>p_depth := 0, p_index := None, p_extent := Some j,
        p_block := ext4_ext_pblock (ext_n (node_bytes fs ref (p_header c)) j)\<rparr>])"
      using pp(1) fin by (simp add: done1_def ir_bind_def c_def [symmetric] ir_return_def)
    then show ?thesis unfolding done1_def by blast
  qed
next
  case (Suc i)
  define c where "c = p ! ppos"
  define bs where "bs = node_bytes fs ref (p_header c)"
  have pp: "Suc ppos < length p" "Suc ppos \<le> depth" using Suc.prems(2,5) by auto
  have fits: "node_fits bs" using Suc.prems(6) by (simp add: bs_def c_def)
  obtain j where j: "ext4_ext_binsearch_idx bs b = Some j" "index_at bs j = Some (idx_n bs j)"
    by (rule search_index [OF fits])
  define x where "x = ext4_idx_pblock (idx_n bs j)"
  define p1 where "p1 = p[ppos := c\<lparr>p_index := Some j, p_block := x, p_depth := Suc i, p_extent := None\<rparr>]"
  have sp: "spine = x # (if header_good (fs_sb fs) (tree_depth fs ref) (fs_blk fs x) (of_nat i)
      then ext_spine fs (tree_depth fs ref) i (fs_blk fs x) b else [])"
    using Suc.prems(9) j(1) by (simp add: bs_def c_def x_def Let_def)
  have h1: "path_held fs depth ppos p1" "held p1 = held p" "length p1 = length p"
    using path_held_upd [OF Suc.prems(4)] held_upd [of ppos p] pp by (simp_all add: p1_def c_def)
  have pne: "p \<noteq> []" using pp(1) by auto
  have d1: "p_depth (p1 ! 0) = depth" using Suc.prems(2,7) pne by (cases "ppos = 0") (auto simp: p1_def)
  have c1: "p_lb (p1 ! Suc ppos) = 0" using h1(1) pp(1) h1(3) by (auto simp: path_held_def)
  have spw: "spine_whole fs spine" unfolding Suc.prems(9) by (rule Suc.prems(8))
  then have wh: "x \<noteq> 0 \<and> x < fs_lg_bcnt fs \<longrightarrow> length (fs_blk fs x) = bsize (fs_sb fs)" by (simp add: sp spine_whole_def)
  have i5: "i < depth" "depth \<le> 5" using Suc.prems(1,2) by auto
  have dd: "of_nat i \<noteq> tree_depth fs ref" using small_u16 [of i depth] i5 Suc.prems(3) by simp
  note run = ir_bind_def c_def [symmetric] bs_def [symmetric] j x_def [symmetric] p1_def [symmetric] ir_try_def
  show ?case
  proof (cases rule: read_block_run [OF wh dd, case_names ok err])
    case (err e n)
    obtain f where f: "drop_path (Some p1) ref (fs\<lparr>fs_calls := n\<rparr>) = (Ret (), ref, fs\<lparr>fs_calls := n, fs_blk := f\<rparr>)"
      "\<forall>x. length (f x) = length (fs_blk fs x)" "\<forall>x. x \<notin> set (held p) \<longrightarrow> f x = fs_blk fs x"
      "(\<forall>x\<in>set (held p). stamp_same fs ref x) \<longrightarrow> f = fs_blk fs"
      by (rule drop_path_run [of "fs\<lparr>fs_calls := n\<rparr>" depth ppos p1 ref]) (use h1 pp i5 d1 Suc.prems(5) in auto)
    have "find_levels depth (Suc i) ppos b p ref fs = (Ret (e, None), ref, fs\<lparr>fs_calls := n, fs_blk := f\<rparr>)"
      using pp c1 err(1) f(1) h1(3) by (simp add: run Let_def ir_return_def)
    moreover have "walk_failed fs ref (held p) e f" using err(2) f by (simp add: walk_failed_def)
    ultimately show ?thesis using walk_failed_mono [of fs ref "held p" e f "held p @ spine"] by auto
  next
    case ok
    define p2 where "p2 = p1[Suc ppos := (p1 ! Suc ppos)\<lparr>p_lb := x, p_dirty := False, p_header := In_Block x\<rparr>]"
    let ?fs = "fs\<lparr>fs_calls := fs_calls fs + 1\<rparr>"
    have safe: "node_safe (fs_blk fs x)" "node_fits (fs_blk fs x)" by (rule header_good_block [OF ok(4) dd ok(3)])+
    have eh: "eh_depth (header_of (fs_blk fs x)) = of_nat (depth - Suc ppos)"
      using ok(4) Suc.prems(2) by (auto simp: header_good_def)
    have h2: "path_held fs depth (Suc ppos) p2" "set (held p2) \<subseteq> insert x (set (held p))"
      unfolding p2_def h1(2) [symmetric]
      by (rule path_held_next [OF h1(1) _ ok(2) safe(1) eh]; use pp h1(3) in simp)+
    have p2: "length p2 = length p" "p_header (p2 ! Suc ppos) = In_Block x" "p_depth (p2 ! 0) = depth" "take (Suc ppos) p2 = take (Suc ppos) p1"
      using pp h1(3) d1 by (simp_all add: p2_def)
    define sp' where "sp' = ext_spine fs (tree_depth fs ref) i (fs_blk fs x) b"
    have sp'': "spine = x # sp'" using sp ok(4) by (simp add: sp'_def)
    have lv: "find_levels depth (Suc i) ppos b p ref fs = find_levels depth i (Suc ppos) b p2 ref ?fs"
      using pp c1 ok(1) h1(3) by (simp add: run Let_def p2_def)
    have ih: "(\<exists>n p'. find_levels depth i (Suc ppos) b p2 ref ?fs = (Ret (EOK, Some p'), ref, ?fs\<lparr>fs_calls := n\<rparr>) \<and>
        walk_found ?fs ref depth i (Suc ppos) b p2 sp' p') \<or>
      (\<exists>n f e. find_levels depth i (Suc ppos) b p2 ref ?fs = (Ret (e, None), ref, ?fs\<lparr>fs_calls := n, fs_blk := f\<rparr>) \<and>
        walk_failed ?fs ref (held p2 @ sp') e f)"
    proof (rule Suc.IH)
      have "spine_whole fs sp'" using spw by (simp add: sp'' spine_whole_def)
      then show "spine_whole ?fs (ext_spine ?fs (tree_depth ?fs ref) i (node_bytes ?fs ref (p_header (p2 ! Suc ppos))) b)"
        by (simp add: p2(2) sp'_def)
    qed (use Suc.prems(1-3,5) h2(1) p2 safe in \<open>simp_all add: sp'_def\<close>)
    then show ?thesis
    proof (elim disjE exE conjE)
      fix n p' assume r: "find_levels depth i (Suc ppos) b p2 ref ?fs = (Ret (EOK, Some p'), ref, ?fs\<lparr>fs_calls := n\<rparr>)"
        and "walk_found ?fs ref depth i (Suc ppos) b p2 sp' p'"
      then have w: "path_held fs depth depth p'" "length p' = length p" "take (Suc ppos) p' = take (Suc ppos) p1"
        "p_header (p' ! Suc ppos) = In_Block x" "path_walk fs ref i (drop (Suc ppos) p') b" "p_depth (p' ! 0) = depth"
        "set (held p') \<subseteq> set (held p2) \<union> set sp'" using p2 by (simp_all add: walk_found_def)
      have e: "p' ! ppos = p1 ! ppos" using arg_cong [OF w(3), of "\<lambda>xs. xs ! ppos"] by simp
      have pc: "p' ! ppos = c\<lparr>p_index := Some j, p_block := x, p_depth := Suc i, p_extent := None\<rparr>" using e pp by (simp add: p1_def)
      have "take ppos p' = take ppos p1" using arg_cong [OF w(3), of "take ppos"] by simp
      then have t: "take ppos p' = take ppos p" by (simp add: p1_def)
      have dr: "drop ppos p' = (p' ! ppos) # drop (Suc ppos) p'" "drop (Suc ppos) p' = (p' ! Suc ppos) # drop (Suc (Suc ppos)) p'"
        using pp w(2) by (simp_all add: Cons_nth_drop_Suc)
      have "path_walk fs ref (Suc i) (drop ppos p') b"
        unfolding dr(1) unfolding dr(2) using w(4,5) dr(2) pc j(1) ok(4) by (simp add: bs_def [symmetric] x_def [symmetric] Let_def)
      then have "walk_found fs ref depth (Suc i) ppos b p spine p'"
        using w t pc h2(2) sp'' by (auto simp: walk_found_def c_def)
      then show ?thesis using lv r by auto
    next
      fix n f e assume r: "find_levels depth i (Suc ppos) b p2 ref ?fs = (Ret (e, None), ref, ?fs\<lparr>fs_calls := n, fs_blk := f\<rparr>)"
        and "walk_failed ?fs ref (held p2 @ sp') e f"
      then have "walk_failed fs ref (held p2 @ sp') e f" by simp
      then have "walk_failed fs ref (held p @ spine) e f"
        by (rule walk_failed_mono) (use h2(2) sp'' in auto)
      then show ?thesis using lv r by auto
    qed
  qed
qed

section \<open>Finding an extent\<close>

abbreviation root_spine :: "ext4_fs \<Rightarrow> ext4_inode_ref \<Rightarrow> u32 \<Rightarrow> u64 list" where
  "root_spine fs ref b \<equiv> ext_spine fs (tree_depth fs ref) (unat (tree_depth fs ref)) (root_bytes fs ref) b"

lemma mem_alloc_run:
  "mem_alloc ref fs = (if fs_answer fs (fs_calls fs) = EOK then Ret () else Err ENOMEM, ref, fs\<lparr>fs_calls := fs_calls fs + 1\<rparr>)"
  by (simp add: mem_alloc_def ir_bind_def ir_try_def ir_lift_def fs_ask_def Let_def ir_fail_def ir_return_def)

lemma find_extent_run:
  assumes "spine_whole fs (root_spine fs ref b)"
  obtains (ok) n p where "ext4_find_extent b None ref fs = (Ret (EOK, Some p), ref, fs\<lparr>fs_calls := n\<rparr>)"
      "walk_found fs ref (unat (tree_depth fs ref)) (unat (tree_depth fs ref)) 0 b (new_path (unat (tree_depth fs ref))) (root_spine fs ref b) p"
      "header_good (fs_sb fs) (tree_depth fs ref) (root_bytes fs ref) (tree_depth fs ref)" "unat (tree_depth fs ref) \<le> 5"
  | (err) n f e where "ext4_find_extent b None ref fs = (Ret (e, None), ref, fs\<lparr>fs_calls := n, fs_blk := f\<rparr>)"
      "walk_failed fs ref (root_spine fs ref b) e f"
proof -
  define d where "d = unat (tree_depth fs ref)"
  define p0 where "p0 = (new_path d)[0 := no_path\<lparr>p_maxdepth := d + 1\<rparr>]"
  have none: "(fs\<lparr>fs_blk := fs_blk fs\<rparr>) = fs" by simp
  have chk: "ext4_ext_check (fs_sb fs) (ir_index ref) (generation fs ref) (tree_depth fs ref) (root_bytes fs ref) (tree_depth fs ref) 0 =
      Some (if header_good (fs_sb fs) (tree_depth fs ref) (root_bytes fs ref) (tree_depth fs ref) then EOK else EIO)"
    by (rule check_root) simp
  have np: "new_path d ! 0 = no_path\<lparr>p_maxdepth := d + 1\<rparr>" "length (new_path d) = d + 2" by (simp_all add: new_path_def)
  have p0: "p0 = new_path d" "(new_path d)[0 := (new_path d ! 0)\<lparr>p_header := In_Inode, p_lb := 0, p_dirty := False\<rparr>] = p0"
    unfolding p0_def np(1) by (simp_all add: new_path_def no_path_def)
  note run = ext4_find_extent_def ir_bind_def Let_def d_def [symmetric] EXT4_MAX_EXTENT_DEPTH_def chk ir_return_def
  have eio: thesis if "ext4_find_extent b None ref fs = (Ret (EIO, None), ref, fs)"
    by (rule err [where e = EIO and n = "fs_calls fs" and f = "fs_blk fs"]) (use that in \<open>simp_all add: walk_failed_def walk_err_def\<close>)
  consider "5 < d" | "d \<le> 5" "\<not> header_good (fs_sb fs) (tree_depth fs ref) (root_bytes fs ref) (tree_depth fs ref)"
    | "d \<le> 5" "header_good (fs_sb fs) (tree_depth fs ref) (root_bytes fs ref) (tree_depth fs ref)" "fs_answer fs (fs_calls fs) \<noteq> EOK"
    | "d \<le> 5" "header_good (fs_sb fs) (tree_depth fs ref) (root_bytes fs ref) (tree_depth fs ref)" "fs_answer fs (fs_calls fs) = EOK"
    by linarith
  then show thesis
  proof cases
    case 1
    then show thesis by (intro eio) (simp add: run)
  next
    case 2
    then show thesis by (intro eio) (simp add: run)
  next
    case 3
    then have "ext4_find_extent b None ref fs = (Ret (ENOMEM, None), ref, fs\<lparr>fs_calls := fs_calls fs + 1, fs_blk := fs_blk fs\<rparr>)"
      by (simp add: run reuse_path_def ir_try_def mem_alloc_run)
    then show thesis by (rule err) (simp add: walk_failed_def walk_err_def)
  next
    case 4
    let ?fs = "fs\<lparr>fs_calls := fs_calls fs + 1\<rparr>"
    have lv: "ext4_find_extent b None ref fs = find_levels d d 0 b (new_path d) ref ?fs"
      using 4 p0 np by (simp add: run reuse_path_def ir_try_def mem_alloc_run)
    have h0: "held (new_path d) = []" by (simp add: new_path_def held_def no_path_def)
    have "\<forall>c\<in>set (new_path d). p_lb c = 0" by (simp add: new_path_def no_path_def)
    then have ph: "path_held ?fs d 0 (new_path d)" by (simp add: path_held_def)
    have fits: "node_fits (root_bytes fs ref)" by (rule header_good_root [OF 4(2)]) simp
    have hd: "p_header (new_path d ! 0) = In_Inode" by (simp add: np no_path_def)
    have "(\<exists>n p'. find_levels d d 0 b (new_path d) ref ?fs = (Ret (EOK, Some p'), ref, ?fs\<lparr>fs_calls := n\<rparr>) \<and>
        walk_found ?fs ref d d 0 b (new_path d) (root_spine fs ref b) p') \<or>
      (\<exists>n f e. find_levels d d 0 b (new_path d) ref ?fs = (Ret (e, None), ref, ?fs\<lparr>fs_calls := n, fs_blk := f\<rparr>) \<and>
        walk_failed ?fs ref (held (new_path d) @ root_spine fs ref b) e f)"
    proof (rule find_levels_run [OF 4(1)])
      show "spine_whole ?fs (ext_spine ?fs (tree_depth ?fs ref) d (node_bytes ?fs ref (p_header (new_path d ! 0))) b)"
        using assms by (simp add: hd d_def [symmetric])
      show "root_spine fs ref b = ext_spine ?fs (tree_depth ?fs ref) d (node_bytes ?fs ref (p_header (new_path d ! 0))) b"
        by (simp add: hd d_def [symmetric])
    qed (use ph fits hd np(2) in \<open>simp_all add: d_def\<close>)
    then show thesis
    proof (elim disjE exE conjE)
      fix n p' assume "find_levels d d 0 b (new_path d) ref ?fs = (Ret (EOK, Some p'), ref, ?fs\<lparr>fs_calls := n\<rparr>)"
        "walk_found ?fs ref d d 0 b (new_path d) (root_spine fs ref b) p'"
      then show thesis using lv 4 by (intro ok [where p = p' and n = n]) (simp_all add: d_def)
    next
      fix n f e assume "find_levels d d 0 b (new_path d) ref ?fs = (Ret (e, None), ref, ?fs\<lparr>fs_calls := n, fs_blk := f\<rparr>)"
        "walk_failed ?fs ref (held (new_path d) @ root_spine fs ref b) e f"
      then show thesis using lv h0 by (intro err [where e = e and n = n and f = f]) simp_all
    qed
  qed
qed

text \<open>The extent that the walk ends at, when it covers the block.\<close>

definition leaf_find :: "bytes \<Rightarrow> u32 \<Rightarrow> ext4_extent option" where
  "leaf_find bs b = (case ext4_ext_binsearch bs b of Some (Some j) \<Rightarrow>
       if in_range b (ee_first_block (ext_n bs j)) (ext4_ext_get_actual_len (ext_n bs j)) then Some (ext_n bs j) else None
     | _ \<Rightarrow> None)"

fun tree_find :: "ext4_fs \<Rightarrow> nat \<Rightarrow> bytes \<Rightarrow> u32 \<Rightarrow> ext4_extent option" where
  "tree_find fs 0 bs b = leaf_find bs b"
| "tree_find fs (Suc i) bs b = (case ext4_ext_binsearch_idx bs b of None \<Rightarrow> None
     | Some j \<Rightarrow> tree_find fs i (fs_blk fs (ext4_idx_pblock (idx_n bs j))) b)"

lemma path_walk_leaf:
  "path_walk fs ref i p b \<Longrightarrow> i < length p \<and>
     ext4_ext_binsearch (node_bytes fs ref (p_header (p ! i))) b = Some (p_extent (p ! i)) \<and>
     leaf_find (node_bytes fs ref (p_header (p ! i))) b = tree_find fs i (node_bytes fs ref (p_header (p ! 0))) b"
proof (induction i arbitrary: p)
  case 0
  then show ?case by (cases p) auto
next
  case (Suc i)
  then obtain c c' q where p: "p = c # c' # q" by (cases p; cases "tl p") auto
  show ?case using Suc.IH [of "c' # q"] Suc.prems by (auto simp: p Let_def)
qed

definition level_fits :: "ext4_fs \<Rightarrow> ext4_inode_ref \<Rightarrow> ext_path \<Rightarrow> nat \<Rightarrow> bool" where
  "level_fits fs ref p depth \<longleftrightarrow> (\<forall>k\<le>depth. node_fits (node_bytes fs ref (p_header (p ! k))) \<and>
     60 \<le> length (node_bytes fs ref (p_header (p ! k))))"

lemma found_run:
  assumes w: "walk_found fs ref d d 0 b p0 spine p" and d: "d = unat (tree_depth fs ref)" "d + 2 \<le> length p0"
    and root: "p_header (p0 ! 0) = In_Inode" "header_good (fs_sb fs) (tree_depth fs ref) (root_bytes fs ref) (tree_depth fs ref)"
  shows "level_fits fs ref p d" "found_extent p b ref fs = (Ret (tree_find fs d (root_bytes fs ref) b), ref, fs)"
proof -
  have p: "path_held fs d d p" "length p = length p0" "p_header (p ! 0) = In_Inode" "path_walk fs ref d p b"
    using w root(1) by (simp_all add: walk_found_def)
  have fr: "node_fits (root_bytes fs ref)" by (rule header_good_root [OF root(2)]) simp
  have fits: "node_fits (node_bytes fs ref (p_header (p ! k)))" "60 \<le> length (node_bytes fs ref (p_header (p ! k)))" if "k \<le> d" for k
  proof -
    have "node_fits (node_bytes fs ref (p_header (p ! k))) \<and> 60 \<le> length (node_bytes fs ref (p_header (p ! k)))"
    proof (cases k)
    case 0
    then show ?thesis using fr p(3) by simp
  next
    case (Suc m)
    have "k < length p" using that d(2) p(2) by simp
    then have "p_header (p ! k) = In_Block (p_lb (p ! k)) \<and> node_safe (fs_blk fs (p_lb (p ! k)))"
      using p(1) that Suc unfolding path_held_def by (auto split: if_splits)
    then show ?thesis by (simp add: node_safe_def)
  qed
    then show "node_fits (node_bytes fs ref (p_header (p ! k)))" "60 \<le> length (node_bytes fs ref (p_header (p ! k)))" by simp_all
  qed
  then show "level_fits fs ref p d" by (simp add: level_fits_def)
  let ?bs = "node_bytes fs ref (p_header (p ! d))"
  note leaf = path_walk_leaf [OF p(4)]
  have tf: "leaf_find ?bs b = tree_find fs d (root_bytes fs ref) b" using leaf p(3) by simp
  show "found_extent p b ref fs = (Ret (tree_find fs d (root_bytes fs ref) b), ref, fs)"
  proof (cases rule: search_extent [OF fits(1) [of d], of b, case_names _ empty found])
    case empty
    then show ?thesis using leaf tf d by (simp add: found_extent_def ir_bind_def leaf_find_def ir_return_def)
  next
    case (found j)
    then have "p_extent (p ! d) = Some j" using leaf by simp
    then show ?thesis using leaf tf [symmetric] d found by (simp add: found_extent_def node_extent_def ir_bind_def leaf_find_def ir_return_def)
  qed simp
qed

declare next_from.simps [simp del]

lemma path_walk_index:
  "path_walk fs ref i p b \<Longrightarrow> k < i \<Longrightarrow> \<exists>j. p_index (p ! k) = Some j \<and>
     ext4_ext_binsearch_idx (node_bytes fs ref (p_header (p ! k))) b = Some j"
proof (induction i arbitrary: p k)
  case (Suc i)
  then obtain c c' q where p: "p = c # c' # q" by (cases p; cases "tl p") auto
  show ?case using Suc.prems Suc.IH [of "c' # q" "k - 1"] by (cases k) (auto simp: p Let_def)
qed simp

text \<open>The way to the next extent stays inside the nodes.\<close>

lemma next_from_run:
  assumes w: "path_walk fs ref d p b" "p_depth (p ! 0) = d" "level_fits fs ref p d" "d + 2 \<le> length p" and "k \<le> d"
  shows "\<exists>v. next_from p k ref fs = (Ret v, ref, fs)"
  using \<open>k \<le> d\<close>
proof (induction k rule: less_induct)
  case (less k)
  let ?bs = "node_bytes fs ref (p_header (p ! k))"
  define at where "at = (if k = d then p_extent (p ! k) else p_index (p ! k))"
  have pne: "p \<noteq> []" "k < length p" using w(4) less.prems by auto
  have fits: "node_fits ?bs" "60 \<le> length ?bs" using w(3) less.prems by (simp_all add: level_fits_def)
  have at: "(k = d \<and> at = None) \<or> (\<exists>j. at = Some j \<and> (j < ents ?bs \<or> j = 0))"
  proof (cases "k = d")
    case True
    then have "ext4_ext_binsearch ?bs b = Some at" using path_walk_leaf [OF w(1)] by (simp add: at_def)
    then show ?thesis using True by (cases rule: search_extent [OF fits(1), of b, case_names empty found]) auto
  next
    case False
    then obtain j where "at = Some j" "ext4_ext_binsearch_idx ?bs b = Some j" using path_walk_index [OF w(1), of k] less.prems by (auto simp: at_def)
    then show ?thesis by (cases rule: search_index [OF fits(1), of b, case_names found]) auto
  qed
  have up: "\<exists>v. (case k of 0 \<Rightarrow> ir_return EXT_MAX_BLOCKS | Suc k \<Rightarrow> next_from p k) ref fs = (Ret v, ref, fs)"
    using less.IH [of "k - 1"] less.prems by (cases k) (simp_all add: ir_return_def)
  have nx: "\<exists>e. extent_at ?bs (j + 1) = Some e" if "j < ents ?bs \<or> j = 0" "j + 1 \<noteq> ents ?bs" for j
  proof (cases "j + 1 < ents ?bs")
    case True
    then show ?thesis using entry_fits(2) [OF fits(1) fits_ents [OF fits(1) True]] by blast
  next
    case False
    then have "j = 0" using that by linarith
    then show ?thesis using fits(2) by (simp add: extent_at_def entry_off_def)
  qed
  have step: "next_from p k ref fs =
      (if (if k = d then at \<noteq> None else True) \<and> map_option Suc at \<noteq> Some (ents ?bs)
       then ir_bind (ir_deref at) (\<lambda>n. ir_bind (node_extent (p_header (p ! k)) (n + 1)) (\<lambda>ex. ir_return (ee_first_block ex))) ref fs
       else (case k of 0 \<Rightarrow> ir_return EXT_MAX_BLOCKS | Suc k \<Rightarrow> next_from p k) ref fs)"
  proof -
    have "node_header (p_header (p ! k)) ref fs = (Ret (header_of ?bs), ref, fs)"
      using fits(1) by (simp add: node_header_def ir_ret)
    then show ?thesis using pne w(2) by (subst next_from.simps) (simp only: ir_ret run_basic length_greater_0_conv Let_def at_def not_False_eq_True if_distribR)
  qed
  show ?case
  proof (cases "(if k = d then at \<noteq> None else True) \<and> map_option Suc at \<noteq> Some (ents ?bs)")
    case True
    then obtain j where j: "at = Some j" "j < ents ?bs \<or> j = 0" "j + 1 \<noteq> ents ?bs" using at by (auto split: if_splits)
    obtain e where "extent_at ?bs (j + 1) = Some e" using nx [OF j(2,3)] by blast
    then show ?thesis unfolding step if_P [OF True] using j by (simp add: ir_ret node_extent_def ir_return_def)
  next
    case False
    show ?thesis unfolding step if_not_P [OF False] by (rule up)
  qed
qed

lemma next_block_run:
  assumes w: "path_walk fs ref d p b" "p_depth (p ! 0) = d" "level_fits fs ref p d" "d + 2 \<le> length p"
  obtains v where "ext4_ext_next_allocated_block p ref fs = (Ret v, ref, fs)"
proof -
  have "p \<noteq> []" using w(4) by auto
  then have pd: "path_at p 0 ref fs = (Ret (p ! 0), ref, fs)" by simp
  obtain v where v: "next_from p (p_depth (p ! 0)) ref fs = (Ret v, ref, fs)" using next_from_run [OF w order_refl] w(2) by auto
  show thesis
  proof (cases "p_depth (p ! 0) = 0 \<and> p_extent (p ! 0) = None")
    case True
    then have "ext4_ext_next_allocated_block p ref fs = (Ret EXT_MAX_BLOCKS, ref, fs)"
      unfolding ext4_ext_next_allocated_block_def ir_ret [where m = "path_at p 0", OF pd] if_P [OF True] by (simp add: ir_return_def)
    then show thesis by (rule that)
  next
    case False
    have "ext4_ext_next_allocated_block p ref fs = (Ret v, ref, fs)"
      unfolding ext4_ext_next_allocated_block_def ir_ret [where m = "path_at p 0", OF pd] if_not_P [OF False] by (rule v)
    then show thesis by (rule that)
  qed
qed

section \<open>A lookup on any volume\<close>

text \<open>The outcome of the three lookups: the extent that the walk finds decides, and at the end the path is
  released.\<close>

lemma lookup_run:
  assumes "spine_whole fs (root_spine fs ref b)"
  obtains (ok) n f p where "ext4_find_extent b None ref fs = (Ret (EOK, Some p), ref, fs\<lparr>fs_calls := n\<rparr>)"
      "found_extent p b ref (fs\<lparr>fs_calls := n\<rparr>) = (Ret (tree_find fs (unat (tree_depth fs ref)) (root_bytes fs ref) b), ref, fs\<lparr>fs_calls := n\<rparr>)"
      "drop_path (Some p) ref (fs\<lparr>fs_calls := n\<rparr>) = (Ret (), ref, fs\<lparr>fs_calls := n, fs_blk := f\<rparr>)"
      "\<exists>v. ext4_ext_next_allocated_block p ref (fs\<lparr>fs_calls := n\<rparr>) = (Ret v, ref, fs\<lparr>fs_calls := n\<rparr>)"
      "(\<forall>x\<in>set (root_spine fs ref b). stamp_same fs ref x) \<longrightarrow> f = fs_blk fs"
      "header_good (fs_sb fs) (tree_depth fs ref) (root_bytes fs ref) (tree_depth fs ref)"
  | (err) n f e where "ext4_find_extent b None ref fs = (Ret (e, None), ref, fs\<lparr>fs_calls := n, fs_blk := f\<rparr>)"
      "walk_failed fs ref (root_spine fs ref b) e f"
proof (cases rule: find_extent_run [OF assms, case_names ok err])
  case (err n f e)
  then show thesis by (rule that(2))
next
  case (ok n p)
  let ?d = "unat (tree_depth fs ref)" and ?fs = "fs\<lparr>fs_calls := n\<rparr>"
  have np: "p_header (new_path ?d ! 0) = In_Inode" "length (new_path ?d) = ?d + 2" "held (new_path ?d) = []"
    by (simp_all add: new_path_def no_path_def held_def)
  have w: "walk_found ?fs ref ?d ?d 0 b (new_path ?d) (root_spine fs ref b) p" using ok(2) by simp
  have p: "path_held ?fs ?d ?d p" "p_depth (p ! 0) = ?d" "length p = ?d + 2" "path_walk ?fs ref ?d p b"
    "set (held p) \<subseteq> set (root_spine fs ref b)" using w np by (simp_all add: walk_found_def)
  have f: "level_fits ?fs ref p ?d" "found_extent p b ref ?fs = (Ret (tree_find ?fs ?d (root_bytes fs ref) b), ref, ?fs)"
    using found_run [OF w, of] np ok(3) by simp_all
  have tf: "tree_find ?fs i bs b = tree_find fs i bs b" for i bs by (induction i arbitrary: bs) (simp_all split: option.split)
  obtain g where g: "drop_path (Some p) ref ?fs = (Ret (), ref, ?fs\<lparr>fs_blk := g\<rparr>)"
    "(\<forall>b\<in>set (held p). stamp_same ?fs ref b) \<longrightarrow> g = fs_blk ?fs"
    by (rule drop_path_run [OF p(1) order_refl ok(4) p(2), of ref]) (use p(3) in auto)
  obtain v where v: "ext4_ext_next_allocated_block p ref ?fs = (Ret v, ref, ?fs)"
    by (rule next_block_run [OF p(4,2) f(1)]) (use p(3) in simp_all)
  show thesis
    by (rule that(1) [OF ok(1) _ g(1) _ _ ok(3)]) (use f(2) tf v g(2) p(5) in auto)
qed

lemmas lookup_defs = ext4_extent_get_blocks_def ext4_extent_map_range_def ext4_extent_probe_def

lemma lookup_failed:
  assumes "ext4_find_extent b None ref fs = (Ret (e, None), ref, fs\<lparr>fs_calls := n, fs_blk := f\<rparr>)" "e \<noteq> EOK"
  shows "ext4_extent_get_blocks b m c ref fs = (Err e, ref, fs\<lparr>fs_calls := n, fs_blk := f\<rparr>)"
    "ext4_extent_map_range b m ref fs = (Err e, ref, fs\<lparr>fs_calls := n, fs_blk := f\<rparr>)"
    "ext4_extent_probe b ref fs = (Err e, ref, fs\<lparr>fs_calls := n, fs_blk := f\<rparr>)"
  using assms by (simp_all add: lookup_defs ir_bind_def ir_fail_def)

text \<open>What a lookup reports of the extent that covers the block.\<close>

definition report_blocks :: "ext4_extent option \<Rightarrow> u32 \<Rightarrow> u32 \<Rightarrow> u64 \<times> u32" where
  "report_blocks ex b m = (case ex of None \<Rightarrow> (0, 0)
     | Some ex \<Rightarrow> (if ext4_ext_is_unwritten ex then 0 else block_in_extent ex b, min (blocks_left ex b) m))"

definition report_range :: "ext4_extent option \<Rightarrow> u32 \<Rightarrow> u32 \<Rightarrow> u64 \<times> u32 \<times> bool" where
  "report_range ex b m = (case ex of None \<Rightarrow> (0, 0, False)
     | Some ex \<Rightarrow> (block_in_extent ex b, min (blocks_left ex b) m, ext4_ext_is_unwritten ex))"

lemma lookup_found:
  assumes "ext4_find_extent b None ref fs = (Ret (EOK, Some p), ref, fs1)" "found_extent p b ref fs1 = (Ret ex, ref, fs1)"
    "drop_path (Some p) ref fs1 = (Ret (), ref, fs2)" "ext4_ext_next_allocated_block p ref fs1 = (Ret v, ref, fs1)"
  shows "ext4_extent_get_blocks b m False ref fs = (Ret (report_blocks ex b m), ref, fs2)"
    "ext4_extent_map_range b m ref fs = (Ret (report_range ex b m), ref, fs2)"
    "ext4_extent_probe b ref fs = (Ret (case ex of None \<Rightarrow> (0, if v = EXT_MAX_BLOCKS then 0 else v - b, False)
       | Some ex \<Rightarrow> (block_in_extent ex b, blocks_left ex b, ext4_ext_is_unwritten ex)), ref, fs2)"
  using assms
  by (cases ex; simp add: lookup_defs ir_ret ir_return_def get_covered_def report_blocks_def report_range_def Let_def)+

section \<open>Well-formed trees\<close>

text \<open>All extents of a tree in the order of its leaves.\<close>

fun tree_exts :: "ext4_fs \<Rightarrow> nat \<Rightarrow> bytes \<Rightarrow> ext4_extent list" where
  "tree_exts fs 0 bs = map (ext_n bs) [0..<ents bs]"
| "tree_exts fs (Suc i) bs = concat (map (\<lambda>j. tree_exts fs i (fs_blk fs (ext4_idx_pblock (idx_n bs j)))) [0..<ents bs])"

abbreviation ext_first :: "ext4_extent \<Rightarrow> nat" where
  "ext_first e \<equiv> unat (ee_first_block e)"

abbreviation ext_len :: "ext4_extent \<Rightarrow> nat" where
  "ext_len e \<equiv> unat (ext4_ext_get_actual_len e)"

definition covers :: "ext4_extent \<Rightarrow> u32 \<Rightarrow> bool" where
  "covers e b \<longleftrightarrow> ext_first e \<le> unat b \<and> unat b < ext_first e + ext_len e"

text \<open>Extents one after the other, none empty, between two logical blocks.\<close>

fun ext_seq :: "nat \<Rightarrow> nat \<Rightarrow> ext4_extent list \<Rightarrow> bool" where
  "ext_seq lo hi [] \<longleftrightarrow> lo \<le> hi"
| "ext_seq lo hi (e # es) \<longleftrightarrow> lo \<le> ext_first e \<and> 1 \<le> ext_len e \<and> ext_seq (ext_first e + ext_len e) hi es"

abbreviation idx_key :: "bytes \<Rightarrow> nat \<Rightarrow> nat" where
  "idx_key bs j \<equiv> unat (ei_first_block (idx_n bs j))"

definition next_key :: "bytes \<Rightarrow> nat \<Rightarrow> nat \<Rightarrow> nat" where
  "next_key bs hi j = (if j + 1 < ents bs then idx_key bs (j + 1) else hi)"

text \<open>The keys of an index node are ascending and each child holds what lies between its key and the next.\<close>

fun tree_ok :: "ext4_fs \<Rightarrow> u16 \<Rightarrow> nat \<Rightarrow> bytes \<Rightarrow> nat \<Rightarrow> nat \<Rightarrow> bool" where
  "tree_ok fs rd 0 bs lo hi \<longleftrightarrow> ext_seq lo hi (tree_exts fs 0 bs)"
| "tree_ok fs rd (Suc i) bs lo hi \<longleftrightarrow> 1 \<le> ents bs \<and> lo \<le> idx_key bs 0 \<and>
     (\<forall>j<ents bs. idx_key bs j < next_key bs hi j \<and>
        (let c = fs_blk fs (ext4_idx_pblock (idx_n bs j))
         in length c = bsize (fs_sb fs) \<and> header_good (fs_sb fs) rd c (of_nat i) \<and>
            tree_ok fs rd i c (idx_key bs j) (next_key bs hi j)))"

lemma in_range_covers:
  assumes "1 \<le> ext_len e" "ext_first e + ext_len e \<le> 2 ^ 32"
  shows "in_range b (ee_first_block e) (ext4_ext_get_actual_len e) \<longleftrightarrow> covers e b"
proof -
  let ?l = "ucast (ext4_ext_get_actual_len e) :: u32"
  have "(1 :: u32) \<le> ?l" using assms(1) by (simp add: word_le_nat_alt)
  then have l1: "unat (?l - 1) = ext_len e - 1" by (simp add: unat_sub)
  have eq: "ee_first_block e + ?l - 1 = ee_first_block e + (?l - 1)" by simp
  have "unat (ee_first_block e + ?l - 1) = ext_first e + (ext_len e - 1)"
    unfolding eq using assms l1 by (simp add: unat_word_ariths(1))
  then show ?thesis using assms(1) by (auto simp: in_range_def covers_def word_le_nat_alt)
qed

lemma ext_seq_le: "ext_seq lo hi es \<Longrightarrow> lo \<le> hi"
  by (induction es arbitrary: lo) fastforce+

lemma ext_seq_in:
  "ext_seq lo hi es \<Longrightarrow> e \<in> set es \<Longrightarrow> lo \<le> ext_first e \<and> 1 \<le> ext_len e \<and> ext_first e + ext_len e \<le> hi"
proof (induction es arbitrary: lo)
  case (Cons x es)
  then show ?case using ext_seq_le [of "ext_first x + ext_len x" hi es] by fastforce
qed simp

lemma ext_seq_append:
  "ext_seq lo hi (xs @ ys) \<longleftrightarrow> (\<exists>m. ext_seq lo m xs \<and> ext_seq m hi ys)"
proof (induction xs arbitrary: lo)
  case Nil
  have "ext_seq lo' hi ys" if "ext_seq m hi ys" "lo' \<le> m" for m lo'
    using that by (cases ys) auto
  then show ?case using order_refl by auto
qed auto

lemma ext_seq_wider: "ext_seq lo hi es \<Longrightarrow> lo' \<le> lo \<Longrightarrow> hi \<le> hi' \<Longrightarrow> ext_seq lo' hi' es"
  by (induction es arbitrary: lo lo') fastforce+

lemma ext_seq_sorted: "ext_seq lo hi es \<Longrightarrow> sorted_wrt (\<lambda>a b. ext_first a + ext_len a \<le> ext_first b) es"
proof (induction es arbitrary: lo)
  case (Cons e es)
  then have "\<forall>x\<in>set es. ext_first e + ext_len e \<le> ext_first x"
    using ext_seq_in [of "ext_first e + ext_len e" hi es] by auto
  then show ?case using Cons by auto
qed simp

lemma find_covers:
  assumes s: "ext_seq lo hi es" and n: "n < length es" "n = 0 \<or> ee_first_block (es ! n) \<le> b"
    and u: "n + 1 = length es \<or> b < ee_first_block (es ! (n + 1))"
  shows "find (\<lambda>e. covers e b) es = (if covers (es ! n) b then Some (es ! n) else None)"
proof -
  note sw = sorted_wrt_nth_less [OF ext_seq_sorted [OF s]]
  have other: "\<not> covers (es ! i) b" if "i < length es" "i \<noteq> n" for i
  proof (cases "i < n")
    case True
    then have "ext_first (es ! i) + ext_len (es ! i) \<le> ext_first (es ! n)" by (rule sw) (rule n)
    also have "\<dots> \<le> unat b" using n(2) True by (simp add: word_le_nat_alt)
    finally show ?thesis by (simp add: covers_def)
  next
    case False
    then have i: "n + 1 \<le> i" using that by simp
    then have u': "unat b < ext_first (es ! (n + 1))" using u that by (simp add: word_less_nat_alt)
    have "ext_first (es ! (n + 1)) \<le> ext_first (es ! i)"
    proof (cases "i = n + 1")
      case False
      then have "ext_first (es ! (n + 1)) + ext_len (es ! (n + 1)) \<le> ext_first (es ! i)" using sw [of "n + 1" i] i that by simp
      then show ?thesis by simp
    qed simp
    then show ?thesis using u' by (simp add: covers_def)
  qed
  show ?thesis
  proof (cases "covers (es ! n) b")
    case True
    then show ?thesis using other n(1) by (auto simp: find_Some_iff intro!: exI [of _ n])
  next
    case False
    then show ?thesis using other by (auto simp: find_None_iff in_set_conv_nth)
  qed
qed

lemma leaf_find_ok:
  assumes f: "node_fits bs" and s: "ext_seq lo hi (map (ext_n bs) [0..<ents bs])" and hi: "hi \<le> 2 ^ 32"
  shows "leaf_find bs b = find (\<lambda>e. covers e b) (map (ext_n bs) [0..<ents bs])"
proof (cases rule: search_extent [OF f, of b, case_names empty found])
  case empty
  then show ?thesis by (simp add: leaf_find_def)
next
  case (found j)
  let ?e = "ext_n bs j"
  have "?e \<in> set (map (ext_n bs) [0..<ents bs])" using found(2) by simp
  from ext_seq_in [OF s this] have r: "in_range b (ee_first_block ?e) (ext4_ext_get_actual_len ?e) \<longleftrightarrow> covers ?e b"
    using hi by (intro in_range_covers) auto
  have "find (\<lambda>e. covers e b) (map (ext_n bs) [0..<ents bs]) = (if covers ?e b then Some ?e else None)"
  proof -
    have "j + 1 = ents bs \<or> b < ee_first_block (map (ext_n bs) [0..<ents bs] ! (j + 1))"
      using found(2,5) by (cases "j + 1 = ents bs") auto
    then show ?thesis using find_covers [OF s, of j b] found by simp
  qed
  then show ?thesis using found(1) r by (simp add: leaf_find_def)
qed

lemma find_concat_one:
  assumes "j < E" "\<And>i x. i < E \<Longrightarrow> i \<noteq> j \<Longrightarrow> x \<in> set (f i) \<Longrightarrow> \<not> P x"
  shows "find P (concat (map f [0..<E])) = find P (f j)"
proof -
  have none: "find P (concat (map f ks)) = None" if "\<forall>i\<in>set ks. i < E \<and> i \<noteq> j" for ks
    using that assms(2) by (auto simp: find_None_iff)
  have "[0..<E] = [0..<j] @ j # [Suc j..<E]" using assms(1) by (metis less_imp_add_positive upt_add_eq_append upt_conv_Cons zero_le)
  then have "find P (concat (map f [0..<E])) = find P (concat (map f [0..<j]) @ f j @ concat (map f [Suc j..<E]))" by simp
  also have "\<dots> = find P (f j)"
    using none [of "[0..<j]"] none [of "[Suc j..<E]"] assms(1) by (simp add: find_append split: option.split)
  finally show ?thesis .
qed

lemma tree_ok_keys:
  assumes "tree_ok fs rd (Suc i) bs lo hi" "j \<le> k" "k < ents bs"
  shows "idx_key bs j \<le> idx_key bs k" "next_key bs hi j \<le> next_key bs hi k"
proof -
  have s: "idx_key bs m \<le> idx_key bs (Suc m)" if "Suc m < ents bs" for m
    using assms(1) that by (auto simp: next_key_def dest!: spec [of _ m])
  show k: "idx_key bs j \<le> idx_key bs k" using assms(2,3)
  proof (induction k)
    case (Suc k)
    then show ?case using s [of k] by (cases "j = Suc k") auto
  qed simp
  show "next_key bs hi j \<le> next_key bs hi k" using assms(2,3)
  proof (induction k)
    case (Suc k)
    have "next_key bs hi k \<le> next_key bs hi (Suc k)"
      using assms(1) Suc.prems(2) by (auto simp: next_key_def dest!: spec [of _ "Suc k"])
    then show ?case using Suc by (cases "j = Suc k") auto
  qed simp
qed

text \<open>The extents of a well-formed tree are one sequence.\<close>

lemma tree_ok_seq: "tree_ok fs rd i bs lo hi \<Longrightarrow> ext_seq lo hi (tree_exts fs i bs)"
proof (induction i arbitrary: bs lo hi)
  case (Suc i)
  let ?f = "\<lambda>j. tree_exts fs i (fs_blk fs (ext4_idx_pblock (idx_n bs j)))"
  have child: "ext_seq (idx_key bs j) (next_key bs hi j) (?f j)" if "j < ents bs" for j
    using Suc.prems that by (auto simp: Let_def intro!: Suc.IH)
  have "ext_seq lo (if n = 0 then lo else next_key bs hi (n - 1)) (concat (map ?f [0..<n]))" if "n \<le> ents bs" for n
    using that
  proof (induction n)
    case (Suc n)
    have "(if n = 0 then lo else next_key bs hi (n - 1)) \<le> idx_key bs n"
      using Suc.prems \<open>tree_ok fs rd (Suc i) bs lo hi\<close> by (auto simp: next_key_def)
    then have "ext_seq (if n = 0 then lo else next_key bs hi (n - 1)) (next_key bs hi n) (?f n)"
      using child [of n] Suc.prems ext_seq_wider by (auto simp del: tree_exts.simps)
    moreover have "ext_seq lo (if n = 0 then lo else next_key bs hi (n - 1)) (concat (map ?f [0..<n]))" using Suc by simp
    ultimately show ?case by (auto simp: ext_seq_append simp del: tree_exts.simps)
  qed simp
  from this [OF order_refl] have "ext_seq lo (next_key bs hi (ents bs - 1)) (concat (map ?f [0..<ents bs]))"
    using Suc.prems by (simp split: if_splits)
  then show ?case using Suc.prems by (simp add: next_key_def)
qed simp

lemma tree_find_ok:
  "tree_ok fs rd i bs lo hi \<Longrightarrow> node_fits bs \<Longrightarrow> hi \<le> 2 ^ 32 \<Longrightarrow> i \<le> 5 \<Longrightarrow> unat rd \<le> 5 \<Longrightarrow> i \<le> unat rd \<Longrightarrow>
    tree_find fs i bs b = find (\<lambda>e. covers e b) (tree_exts fs i bs)"
proof (induction i arbitrary: bs lo hi)
  case 0
  then show ?case using leaf_find_ok [of bs lo hi b] by simp
next
  case (Suc i)
  let ?c = "\<lambda>j. fs_blk fs (ext4_idx_pblock (idx_n bs j))"
  obtain j where j: "ext4_ext_binsearch_idx bs b = Some j"
    "ents bs = 0 \<and> j = 0 \<or> j < ents bs \<and> (j = 0 \<or> ei_first_block (idx_n bs j) \<le> b) \<and>
       (j + 1 = ents bs \<or> b < ei_first_block (idx_n bs (j + 1)))"
    by (rule search_index [OF Suc.prems(2), of b])
  have e: "j < ents bs" using j(2) Suc.prems(1) by auto
  have c: "tree_ok fs rd i (?c k) (idx_key bs k) (next_key bs hi k)" "header_good (fs_sb fs) rd (?c k) (of_nat i)"
    "length (?c k) = bsize (fs_sb fs)" if "k < ents bs" for k using Suc.prems(1) that by (simp_all add: Let_def)
  have "of_nat i \<noteq> rd" using small_u16 [of i "unat rd"] Suc.prems(4-6) by auto
  then have fits: "node_fits (?c j)" using header_good_block(2) [OF c(2) _ c(3)] e by blast
  have nk: "next_key bs hi (ents bs - 1) = hi" using e by (simp add: next_key_def)
  have "j \<le> ents bs - 1" "ents bs - 1 < ents bs" using e by simp_all
  then have hj: "next_key bs hi j \<le> 2 ^ 32" using tree_ok_keys(2) [OF Suc.prems(1), of j "ents bs - 1"] nk Suc.prems(3) by simp
  have "tree_find fs (Suc i) bs b = tree_find fs i (?c j) b" using j(1) by simp
  also have "\<dots> = find (\<lambda>e. covers e b) (tree_exts fs i (?c j))"
    by (rule Suc.IH [OF c(1) [OF e] fits hj]) (use Suc.prems in auto)
  also have "\<dots> = find (\<lambda>e. covers e b) (tree_exts fs (Suc i) bs)"
    unfolding tree_exts.simps
  proof (rule find_concat_one [symmetric, OF e])
    fix k x assume k: "k < ents bs" "k \<noteq> j" "x \<in> set (tree_exts fs i (?c k))"
    from ext_seq_in [OF tree_ok_seq [OF c(1) [OF k(1)]] k(3)]
    have x: "idx_key bs k \<le> ext_first x" "ext_first x + ext_len x \<le> next_key bs hi k" by simp_all
    show "\<not> covers x b"
    proof (cases "k < j")
      case True
      have "next_key bs hi k = idx_key bs (k + 1)" using True e by (simp add: next_key_def)
      also have "\<dots> \<le> idx_key bs j" by (rule tree_ok_keys(1) [OF Suc.prems(1)]) (use True e in auto)
      also have "\<dots> \<le> unat b" using j(2) True by (auto simp: word_le_nat_alt)
      finally show ?thesis using x(2) by (simp add: covers_def)
    next
      case False
      then have "j + 1 \<le> k" using k(2) by simp
      then have "idx_key bs (j + 1) \<le> idx_key bs k" using tree_ok_keys(1) [OF Suc.prems(1)] k(1) by blast
      moreover have "unat b < idx_key bs (j + 1)" using j(2) \<open>j + 1 \<le> k\<close> k(1) by (auto simp: word_less_nat_alt)
      ultimately show ?thesis using x(1) by (simp add: covers_def)
    qed
  qed
  finally show ?case .
qed

end
