(* ===== verification/Extent_Map.thy ===== *)
theory Extent_Map
  imports Extent_Spec
begin

unbundle bit_operations_syntax

text \<open>
  The lookups of the extent tree on a well-formed tree, as a map from logical to physical blocks, and on any
  bytes at all.  The map is a second interpretation of \<open>block_map\<close>: the directory operations of \<open>Dir_Ops\<close>
  hold of a directory whose blocks are in extents.
\<close>

section \<open>The map of an inode\<close>

fun tree_nodes :: "ext4_fs \<Rightarrow> nat \<Rightarrow> bytes \<Rightarrow> u64 list" where
  "tree_nodes fs 0 bs = []"
| "tree_nodes fs (Suc i) bs = concat (map (\<lambda>j. let c = ext4_idx_pblock (idx_n bs j) in c # tree_nodes fs i (fs_blk fs c)) [0..<ents bs])"

abbreviation inode_nodes :: "ext4_fs \<Rightarrow> ext4_inode_ref \<Rightarrow> u64 list" where
  "inode_nodes fs ref \<equiv> tree_nodes fs (unat (tree_depth fs ref)) (root_bytes fs ref)"

definition inode_exts :: "ext4_fs \<Rightarrow> ext4_inode_ref \<Rightarrow> ext4_extent list" where
  "inode_exts fs ref = tree_exts fs (unat (tree_depth fs ref)) (root_bytes fs ref)"

definition extent_of_block :: "ext4_fs \<Rightarrow> ext4_inode_ref \<Rightarrow> u32 \<Rightarrow> ext4_extent option" where
  "extent_of_block fs ref b = find (\<lambda>e. covers e b) (inode_exts fs ref)"

text \<open>A well-formed tree over the whole range of logical blocks; a block of it that is dirty in the cache has
  its checksum already.\<close>

definition extent_tree_ok :: "ext4_fs \<Rightarrow> ext4_inode_ref \<Rightarrow> bool" where
  "extent_tree_ok fs ref \<longleftrightarrow> unat (tree_depth fs ref) \<le> 5 \<and>
     header_good (fs_sb fs) (tree_depth fs ref) (root_bytes fs ref) (tree_depth fs ref) \<and>
     tree_ok fs (tree_depth fs ref) (unat (tree_depth fs ref)) (root_bytes fs ref) 0 (2 ^ 32) \<and>
     (\<forall>x\<in>set (inode_nodes fs ref). stamp_same fs ref x)"

lemma spine_nodes:
  "tree_ok fs rd i bs lo hi \<Longrightarrow> node_fits bs \<Longrightarrow> i \<le> unat rd \<Longrightarrow> unat rd \<le> 5 \<Longrightarrow>
    set (ext_spine fs rd i bs b) \<subseteq> set (tree_nodes fs i bs) \<and>
    (\<forall>c\<in>set (ext_spine fs rd i bs b). length (fs_blk fs c) = bsize (fs_sb fs))"
proof (induction i arbitrary: bs lo hi)
  case (Suc i)
  obtain j where j: "ext4_ext_binsearch_idx bs b = Some j" "ents bs = 0 \<and> j = 0 \<or> j < ents bs"
    by (rule search_index [OF Suc.prems(2), of b]) auto
  define x where "x = ext4_idx_pblock (idx_n bs j)"
  have e: "j < ents bs" using j(2) Suc.prems(1) by auto
  have c: "tree_ok fs rd i (fs_blk fs x) (idx_key bs j) (next_key bs hi j)" "header_good (fs_sb fs) rd (fs_blk fs x) (of_nat i)"
    "length (fs_blk fs x) = bsize (fs_sb fs)" using Suc.prems(1) e by (simp_all add: Let_def x_def)
  have "of_nat i \<noteq> rd" using small_u16 [of i "unat rd"] Suc.prems(3,4) by auto
  then have fits: "node_fits (fs_blk fs x)" using header_good_block(2) [OF c(2) _ c(3)] by blast
  have sp: "ext_spine fs rd (Suc i) bs b = x # ext_spine fs rd i (fs_blk fs x) b"
    using j(1) c(2) by (simp add: x_def Let_def)
  have nd: "insert x (set (tree_nodes fs i (fs_blk fs x))) \<subseteq> set (tree_nodes fs (Suc i) bs)"
    using e by (auto simp: Let_def x_def)
  have ih: "set (ext_spine fs rd i (fs_blk fs x) b) \<subseteq> set (tree_nodes fs i (fs_blk fs x))"
    "\<forall>c\<in>set (ext_spine fs rd i (fs_blk fs x) b). length (fs_blk fs c) = bsize (fs_sb fs)"
    using Suc.IH [OF c(1) fits] Suc.prems(3,4) by simp_all
  show ?case unfolding sp using ih nd c(3) by auto
qed simp

lemma ok_spine:
  assumes "extent_tree_ok fs ref"
  shows "spine_whole fs (root_spine fs ref b)" "set (root_spine fs ref b) \<subseteq> set (inode_nodes fs ref)"
    "tree_find fs (unat (tree_depth fs ref)) (root_bytes fs ref) b = extent_of_block fs ref b"
proof -
  let ?d = "unat (tree_depth fs ref)"
  have ok: "tree_ok fs (tree_depth fs ref) ?d (root_bytes fs ref) 0 (2 ^ 32)" "?d \<le> 5" using assms by (simp_all add: extent_tree_ok_def)
  have fits: "node_fits (root_bytes fs ref)"
    using assms by (intro header_good_root [of "fs_sb fs" "tree_depth fs ref"]) (simp_all add: extent_tree_ok_def)
  from spine_nodes [OF ok(1) fits order_refl ok(2), of b]
  show "spine_whole fs (root_spine fs ref b)" "set (root_spine fs ref b) \<subseteq> set (inode_nodes fs ref)"
    by (simp_all add: spine_whole_def)
  show "tree_find fs ?d (root_bytes fs ref) b = extent_of_block fs ref b"
    unfolding extent_of_block_def inode_exts_def by (rule tree_find_ok [OF ok(1) fits]) (use ok(2) in simp_all)
qed

lemma extent_lookup:
  assumes "extent_tree_ok fs ref"
  shows "\<exists>r n. ext4_extent_get_blocks b m False ref fs = (r, ref, fs\<lparr>fs_calls := n\<rparr>) \<and>
      (r = Ret (report_blocks (extent_of_block fs ref b) b m) \<or> (\<exists>e. r = Err e \<and> walk_err fs e))"
    "\<exists>r n. ext4_extent_map_range b m ref fs = (r, ref, fs\<lparr>fs_calls := n\<rparr>) \<and>
      (r = Ret (report_range (extent_of_block fs ref b) b m) \<or> (\<exists>e. r = Err e \<and> walk_err fs e))"
proof -
  note sp = ok_spine [OF assms, of b]
  have st: "\<forall>x\<in>set (root_spine fs ref b). stamp_same fs ref x" using assms sp(2) by (auto simp: extent_tree_ok_def)
  have "(\<exists>r n. ext4_extent_get_blocks b m False ref fs = (r, ref, fs\<lparr>fs_calls := n\<rparr>) \<and>
      (r = Ret (report_blocks (extent_of_block fs ref b) b m) \<or> (\<exists>e. r = Err e \<and> walk_err fs e))) \<and>
    (\<exists>r n. ext4_extent_map_range b m ref fs = (r, ref, fs\<lparr>fs_calls := n\<rparr>) \<and>
      (r = Ret (report_range (extent_of_block fs ref b) b m) \<or> (\<exists>e. r = Err e \<and> walk_err fs e)))"
  proof (cases rule: lookup_run [OF sp(1), case_names ok err])
    case (ok n f p)
    then obtain v where v: "ext4_ext_next_allocated_block p ref (fs\<lparr>fs_calls := n\<rparr>) = (Ret v, ref, fs\<lparr>fs_calls := n\<rparr>)" by blast
    have same: "fs\<lparr>fs_calls := n, fs_blk := f\<rparr> = fs\<lparr>fs_calls := n\<rparr>" using ok(5) st by simp
    show ?thesis using lookup_found(1,2) [OF ok(1,2,3) v] unfolding sp(3) same by blast
  next
    case (err n f e)
    have "walk_err fs e" "f = fs_blk fs" using err(2) st by (simp_all add: walk_failed_def)
    moreover have "e \<noteq> EOK" using \<open>walk_err fs e\<close> by (auto simp: walk_err_def)
    moreover have "fs\<lparr>fs_calls := n, fs_blk := f\<rparr> = fs\<lparr>fs_calls := n\<rparr>" using \<open>f = fs_blk fs\<close> by simp
    ultimately show ?thesis using lookup_failed(1,2) [OF err(1)] by auto
  qed
  then show "\<exists>r n. ext4_extent_get_blocks b m False ref fs = (r, ref, fs\<lparr>fs_calls := n\<rparr>) \<and>
      (r = Ret (report_blocks (extent_of_block fs ref b) b m) \<or> (\<exists>e. r = Err e \<and> walk_err fs e))"
    "\<exists>r n. ext4_extent_map_range b m ref fs = (r, ref, fs\<lparr>fs_calls := n\<rparr>) \<and>
      (r = Ret (report_range (extent_of_block fs ref b) b m) \<or> (\<exists>e. r = Err e \<and> walk_err fs e))" by blast+
qed

section \<open>The map does not change with the data\<close>

lemma tree_frame:
  assumes "fs_sb fs' = fs_sb fs"
  shows "\<forall>x\<in>set (tree_nodes fs i bs). fs_blk fs' x = fs_blk fs x \<Longrightarrow>
    tree_nodes fs' i bs = tree_nodes fs i bs \<and> tree_exts fs' i bs = tree_exts fs i bs \<and>
    tree_ok fs' rd i bs lo hi = tree_ok fs rd i bs lo hi"
proof (induction i arbitrary: bs lo hi)
  case (Suc i)
  let ?x = "\<lambda>j. ext4_idx_pblock (idx_n bs j)"
  have c: "fs_blk fs' (?x j) = fs_blk fs (?x j)" "\<forall>x\<in>set (tree_nodes fs i (fs_blk fs (?x j))). fs_blk fs' x = fs_blk fs x"
    if "j < ents bs" for j using Suc.prems that by (auto simp: Let_def)
  have "tree_nodes fs' (Suc i) bs = tree_nodes fs (Suc i) bs" "tree_exts fs' (Suc i) bs = tree_exts fs (Suc i) bs"
    using c Suc.IH by (auto simp: Let_def intro!: arg_cong [of _ _ concat])
  moreover have "tree_ok fs' rd (Suc i) bs lo hi = tree_ok fs rd (Suc i) bs lo hi"
    using c Suc.IH assms by (auto simp: Let_def)
  ultimately show ?case by blast
qed simp

definition ext_blocks :: "ext4_fs \<Rightarrow> ext4_inode_ref \<Rightarrow> u64 list" where
  "ext_blocks fs ref = map (\<lambda>i. fst (report_blocks (extent_of_block fs ref (of_nat i)) (of_nat i) 1))
     [0..<unat (total_blocks (fs_sb fs) (inode_at (ino_raw fs ref)))]"

text \<open>The inode is not empty and has a well-formed tree; no block of the file is a node of the tree or the block
  of the inode, and no device answers \<^verbatim>\<open>ENOENT\<close>.\<close>

definition ext_valid :: "ext4_fs \<Rightarrow> ext4_inode_ref \<Rightarrow> bool" where
  "ext_valid fs ref \<longleftrightarrow> extent_tree_ok fs ref \<and> uses_extents (fs_sb fs) (inode_at (ino_raw fs ref)) \<and>
     ext4_inode_get_size (fs_sb fs) (inode_at (ino_raw fs ref)) \<noteq> 0 \<and> ir_block ref \<notin> set (ext_blocks fs ref) \<and>
     (\<forall>x\<in>set (inode_nodes fs ref). x \<notin> set (ext_blocks fs ref)) \<and> (\<forall>k. fs_answer fs k \<noteq> ENOENT)"

lemma extent_calls [simp]:
  "extent_tree_ok (fs\<lparr>fs_calls := n\<rparr>) ref = extent_tree_ok fs ref" "inode_nodes (fs\<lparr>fs_calls := n\<rparr>) ref = inode_nodes fs ref"
  "extent_of_block (fs\<lparr>fs_calls := n\<rparr>) ref b = extent_of_block fs ref b"
proof -
  have t: "tree_nodes (fs\<lparr>fs_calls := n\<rparr>) i bs = tree_nodes fs i bs \<and> tree_exts (fs\<lparr>fs_calls := n\<rparr>) i bs = tree_exts fs i bs \<and>
      tree_ok (fs\<lparr>fs_calls := n\<rparr>) rd i bs lo hi = tree_ok fs rd i bs lo hi" for i bs rd lo hi
    by (rule tree_frame) simp_all
  then show "extent_tree_ok (fs\<lparr>fs_calls := n\<rparr>) ref = extent_tree_ok fs ref" "inode_nodes (fs\<lparr>fs_calls := n\<rparr>) ref = inode_nodes fs ref"
    "extent_of_block (fs\<lparr>fs_calls := n\<rparr>) ref b = extent_of_block fs ref b"
    by (simp_all add: extent_tree_ok_def extent_of_block_def inode_exts_def)
qed

interpretation extent_map: block_map "dir_dblk (extent_tree_ops fuel)" ext_valid ext_blocks
proof
  fix fs ref and i :: nat
  assume v: "ext_valid fs ref" and i: "i < length (ext_blocks fs ref)"
  obtain r n where g: "ext4_extent_get_blocks (of_nat i) 1 False ref fs = (r, ref, fs\<lparr>fs_calls := n\<rparr>)"
    "r = Ret (report_blocks (extent_of_block fs ref (of_nat i)) (of_nat i) 1) \<or> (\<exists>e. r = Err e \<and> walk_err fs e)"
    using extent_lookup(1) [of fs ref "of_nat i" 1] v by (auto simp: ext_valid_def)
  have ne: "e \<notin> {EOK, ENOENT}" if "walk_err fs e" for e using that v by (auto simp: walk_err_def ext_valid_def)
  have b: "ext_blocks fs ref ! i = fst (report_blocks (extent_of_block fs ref (of_nat i)) (of_nat i) 1)"
    using i by (simp add: ext_blocks_def)
  have x: "ext_get_blocks (extent_tree_ops fuel) = ext4_extent_get_blocks" by (simp add: extent_tree_ops_def)
  have d: "dir_dblk (extent_tree_ops fuel) ref (of_nat i) fs =
      (case r of Ret (f, _) \<Rightarrow> if f = 0 then Err EIO else Ret f | Err e \<Rightarrow> Err e | Crash \<Rightarrow> Crash, fs\<lparr>fs_calls := n\<rparr>)"
    using v g(1) by (cases r) (auto simp: dir_dblk_def ext4_fs_get_inode_dblk_idx_def ext4_fs_get_inode_dblk_idx_internal_def
        ir_bind_def ir_lift_def fs_gets_def ir_return_def ir_fail_def ext_valid_def x)
  show "\<exists>r n. dir_dblk (extent_tree_ops fuel) ref (of_nat i) fs = (r, fs\<lparr>fs_calls := n\<rparr>) \<and>
      (r = Ret (ext_blocks fs ref ! i) \<or> (\<exists>e. r = Err e \<and> e \<notin> {EOK, ENOENT}))"
    using g(2) ne unfolding d b by (auto split: prod.split)
next
  fix fs ref and n :: nat
  assume v: "ext_valid fs ref"
  have m: "ext_blocks (fs\<lparr>fs_calls := n\<rparr>) ref = ext_blocks fs ref" by (simp add: ext_blocks_def)
  then show "ext_valid (fs\<lparr>fs_calls := n\<rparr>) ref \<and> ext_blocks (fs\<lparr>fs_calls := n\<rparr>) ref = ext_blocks fs ref"
    using v unfolding ext_valid_def m extent_calls by simp
next
  fix fs ref b and bs :: bytes
  assume v: "ext_valid fs ref" and b: "b \<in> set (ext_blocks fs ref)"
  define fs' where "fs' = fs\<lparr>fs_blk := (fs_blk fs)(b := bs)\<rparr>"
  have raw: "ino_raw fs' ref = ino_raw fs ref" using v b by (auto simp: ino_raw_def fs'_def ext_valid_def)
  then have rt: "root_bytes fs' ref = root_bytes fs ref" "tree_depth fs' ref = tree_depth fs ref"
    by (simp_all add: root_bytes_def tree_depth_def)
  have same: "fs_blk fs' x = fs_blk fs x" if "x \<in> set (inode_nodes fs ref)" for x
    using v b that by (auto simp: ext_valid_def fs'_def)
  have sb: "fs_sb fs' = fs_sb fs" "fs_answer fs' = fs_answer fs" "fs_was_dirty fs' = fs_was_dirty fs" by (simp_all add: fs'_def)
  note fr = tree_frame [OF sb(1), of "unat (tree_depth fs ref)" "root_bytes fs ref"]
  have t: "inode_nodes fs' ref = inode_nodes fs ref" "extent_of_block fs' ref = extent_of_block fs ref"
    "tree_ok fs' (tree_depth fs ref) (unat (tree_depth fs ref)) (root_bytes fs ref) 0 (2 ^ 32) =
      tree_ok fs (tree_depth fs ref) (unat (tree_depth fs ref)) (root_bytes fs ref) 0 (2 ^ 32)"
    using fr same by (auto simp: rt extent_of_block_def inode_exts_def fun_eq_iff)
  have st: "stamp_same fs' ref x = stamp_same fs ref x" if "x \<in> set (inode_nodes fs ref)" for x
    using same [OF that] by (simp add: stamp_same_def sb raw)
  have "extent_tree_ok fs ref" using v by (simp add: ext_valid_def)
  then have ok: "extent_tree_ok fs' ref" using st t(1,3) by (simp add: extent_tree_ok_def rt sb)
  have bl: "ext_blocks fs' ref = ext_blocks fs ref" by (simp add: ext_blocks_def t sb raw)
  show "ext_valid (fs\<lparr>fs_blk := (fs_blk fs)(b := bs)\<rparr>) ref \<and>
      ext_blocks (fs\<lparr>fs_blk := (fs_blk fs)(b := bs)\<rparr>) ref = ext_blocks fs ref"
    unfolding fs'_def [symmetric] using v ok bl by (simp add: ext_valid_def t sb raw)
qed (simp add: ext_valid_def)

section \<open>A file of two extents under an index\<close>

lemma byte_bit: "8 \<le> n \<Longrightarrow> \<not> bit (x :: u8) n"
  using bit_imp_le_length [of x n] by auto

lemma le32_get_le32: "o1 + 4 \<le> length bs \<Longrightarrow> le32 (get_le32 bs o1) = take 4 (drop o1 bs)"
proof -
  assume l: "o1 + 4 \<le> length bs"
  have "le32 (get_le32 bs o1) = [bs ! o1, bs ! (o1 + 1), bs ! (o1 + 2), bs ! (o1 + 3)]"
    by (auto simp: le32_def get_le32_def bit_simps byte_bit intro!: bit_word_eqI)
  also have "\<dots> = take 4 (drop o1 bs)"
    using l by (intro nth_equalityI) (auto simp: less_Suc_eq numeral_eq_Suc)
  finally show ?thesis .
qed

lemma root_words:
  "length bs = 4 * n \<Longrightarrow> concat (map le32 (map (\<lambda>k. get_le32 bs (4 * k)) [0..<n])) = bs"
proof (induction n arbitrary: bs)
  case (Suc n)
  have "concat (map le32 (map (\<lambda>k. get_le32 (take (4 * n) bs) (4 * k)) [0..<n])) = take (4 * n) bs"
    by (rule Suc.IH) (use Suc.prems in simp)
  moreover have "map (\<lambda>k. get_le32 (take (4 * n) bs) (4 * k)) [0..<n] = map (\<lambda>k. get_le32 bs (4 * k)) [0..<n]"
    by (rule map_cong) (use Suc.prems in \<open>auto simp: get_le32_def\<close>)
  ultimately have "concat (map le32 (map (\<lambda>k. get_le32 bs (4 * k)) [0..<n])) = take (4 * n) bs"
    by simp
  moreover have "le32 (get_le32 bs (4 * n)) = drop (4 * n) bs" using Suc.prems by (simp add: le32_get_le32)
  ultimately show ?case by simp
qed simp

lemma header_of_app: "header_of (header_bytes h @ ys) = h"
  using header_roundtrip [of "header_bytes h @ ys" h] by (simp add: put_bytes_def)

lemma entry_of_app:
  "length xs = o1 \<Longrightarrow> extent_of (xs @ extent_bytes e @ ys) o1 = e" "length xs = o1 \<Longrightarrow> index_of (xs @ index_bytes x @ ys) o1 = x"
  using entry_roundtrip(1) [of o1 "xs @ extent_bytes e @ ys" e] entry_roundtrip(2) [of o1 "xs @ index_bytes x @ ys" x]
  by (simp_all add: put_bytes_def)

definition ext_root_example :: bytes where
  "ext_root_example = header_bytes \<lparr>eh_magic = EXT4_EXTENT_MAGIC, eh_entries_count = 1, eh_max_entries_count = 4,
     eh_depth = 1, eh_generation = 0\<rparr> @
     index_bytes \<lparr>ei_first_block = 0, ei_leaf_lo = 7, ei_leaf_hi = 0, ei_padding = 0\<rparr> @ replicate 36 0"

definition ext_leaf_example :: bytes where
  "ext_leaf_example = header_bytes \<lparr>eh_magic = EXT4_EXTENT_MAGIC, eh_entries_count = 2, eh_max_entries_count = 340,
     eh_depth = 0, eh_generation = 0\<rparr> @
     extent_bytes \<lparr>ee_first_block = 0, ee_block_count = 1, ee_start_hi = 0, ee_start_lo = 9\<rparr> @
     extent_bytes \<lparr>ee_first_block = 2, ee_block_count = 32771, ee_start_hi = 0, ee_start_lo = 20\<rparr> @ replicate 4060 0"

definition ext_sb_example :: ext4_sblock where
  "ext_sb_example = (probe_example 0)\<lparr>s_features_incompatible := 0x40\<rparr>"

text \<open>An inode with a given root of the tree.\<close>

definition ext_inode_example :: "bytes \<Rightarrow> ext4_inode" where
  "ext_inode_example root = dir_inode_example\<lparr>i_flags := 0x80000, i_blocks := map (\<lambda>k. get_le32 root (4 * k)) [0..<15]\<rparr>"

definition ext_fs_example :: "bytes \<Rightarrow> ext4_fs" where
  "ext_fs_example root = vol_example\<lparr>fs_sb := ext_sb_example,
     fs_blk := (\<lambda>b. if b = 5 then inode_store ext_sb_example (replicate 256 0) (ext_inode_example root) @ replicate 3840 0
       else if b = 7 then ext_leaf_example else if b = 9 then dir_block_example else replicate 4096 0)\<rparr>"

text \<open>Block 0 is mapped to 9, block 1 is a hole, and the blocks 2 to 4 are allocated and not written.\<close>

abbreviation ext_example :: ext4_fs where
  "ext_example \<equiv> ext_fs_example ext_root_example"

lemma ext_example_sb [simp]:
  "fs_sb (ext_fs_example r) = ext_sb_example" "ext4_sb_get_block_size ext_sb_example = 4096"
  "fs_answer (ext_fs_example r) k = EOK" "fs_lg_bcnt (ext_fs_example r) = 1000" "fs_blk (ext_fs_example r) 9 = dir_block_example"
  "fs_blk (ext_fs_example r) 7 = ext_leaf_example" "fs_was_dirty (ext_fs_example r) n b = False"
  "ext4_sb_feature_ro_com ext_sb_example m = False" "ext4_sb_feature_com ext_sb_example m = False"
  "uses_extents ext_sb_example (ext_inode_example r)" "long_names ext_sb_example = False"
  by (simp_all add: ext_fs_example_def vol_example_def ext_sb_example_def probe_example_def ext4_sb_get_block_size_def
      zero_sblock_def ext4_sb_feature_ro_com_def ext4_sb_feature_com_def ext4_sb_feature_incom_def long_names_def
      uses_extents_def ext_inode_example_def ext4_inode_has_flag_def ext4_inode_get_flags_def EXT4_FINCOM_EXTENTS_def
      EXT4_INODE_FLAG_EXTENTS_def)

lemma ext_example_inode [simp]: "inode_at (ino_raw (ext_fs_example root) iref_example) = ext_inode_example root"
proof -
  let ?i = "ext_inode_example root"
  have l: "length (i_blocks ?i) = 15" by (simp add: ext_inode_example_def)
  have sz: "s_inode_size ext_sb_example = 256" by (simp add: ext_sb_example_def)
  have len: "length (inode_store ext_sb_example (replicate 256 0) ?i) = 256"
    using length_inode_bytes [OF l] by (simp add: inode_store_def sz)
  have "ino_raw (ext_fs_example root) iref_example = inode_store ext_sb_example (replicate 256 0) ?i"
    using len by (simp add: ino_raw_def sz) (simp add: ext_fs_example_def iref_example_def)
  then show "inode_at (ino_raw (ext_fs_example root) iref_example) = ?i"
    using inode_at_store_big [OF l, of ext_sb_example "replicate 256 0"] by (simp add: sz)
qed

lemma ext_example_root [simp]: "length root = 60 \<Longrightarrow> root_bytes (ext_fs_example root) iref_example = root"
  using root_words [of root 15] by (simp add: root_bytes_def ext_inode_example_def)

lemma length_ext_root_example [simp]: "length ext_root_example = 60"
  by (simp add: ext_root_example_def)

lemma ext_example_nodes [simp]:
  "eh_depth (header_of ext_root_example) = 1" "eh_depth (header_of ext_leaf_example) = 0"
  "eh_entries_count (header_of ext_root_example) = 1" "eh_entries_count (header_of ext_leaf_example) = 2"
  "index_of ext_root_example 12 = \<lparr>ei_first_block = 0, ei_leaf_lo = 7, ei_leaf_hi = 0, ei_padding = 0\<rparr>"
  "extent_of ext_leaf_example 12 = \<lparr>ee_first_block = 0, ee_block_count = 1, ee_start_hi = 0, ee_start_lo = 9\<rparr>"
  "extent_of ext_leaf_example 24 = \<lparr>ee_first_block = 2, ee_block_count = 32771, ee_start_hi = 0, ee_start_lo = 20\<rparr>"
  "length ext_leaf_example = 4096" "tree_depth ext_example iref_example = 1"
proof -
  show "eh_depth (header_of ext_root_example) = 1" "eh_depth (header_of ext_leaf_example) = 0"
    "eh_entries_count (header_of ext_root_example) = 1" "eh_entries_count (header_of ext_leaf_example) = 2"
    by (simp_all add: ext_root_example_def ext_leaf_example_def header_of_app)
  then show "tree_depth ext_example iref_example = 1" by (simp add: tree_depth_def)
  show "index_of ext_root_example 12 = \<lparr>ei_first_block = 0, ei_leaf_lo = 7, ei_leaf_hi = 0, ei_padding = 0\<rparr>"
    "extent_of ext_leaf_example 12 = \<lparr>ee_first_block = 0, ee_block_count = 1, ee_start_hi = 0, ee_start_lo = 9\<rparr>"
    unfolding ext_root_example_def ext_leaf_example_def by (rule entry_of_app; simp)+
  have "extent_of ((h @ x) @ extent_bytes e @ ys) 24 = e" if "length (h @ x) = 24" for h x e ys
    using that by (rule entry_of_app(1))
  then show "extent_of ext_leaf_example 24 = \<lparr>ee_first_block = 2, ee_block_count = 32771, ee_start_hi = 0, ee_start_lo = 20\<rparr>"
    unfolding ext_leaf_example_def append_assoc by simp
qed (simp add: ext_leaf_example_def)

lemma ext_example_tree: "inode_nodes ext_example iref_example = [7]" "extent_tree_ok ext_example iref_example"
  "inode_exts ext_example iref_example = [\<lparr>ee_first_block = 0, ee_block_count = 1, ee_start_hi = 0, ee_start_lo = 9\<rparr>,
     \<lparr>ee_first_block = 2, ee_block_count = 32771, ee_start_hi = 0, ee_start_lo = 20\<rparr>]"
proof -
  have p: "ext4_idx_pblock \<lparr>ei_first_block = 0, ei_leaf_lo = 7, ei_leaf_hi = 0, ei_padding = 0\<rparr> = 7"
    by (simp add: ext4_idx_pblock_def)
  have two: "[0..<2] = [0, 1::nat]" by (simp add: upt_rec)
  show n: "inode_nodes ext_example iref_example = [7]" by (simp add: Let_def entry_off_def p)
  show x: "inode_exts ext_example iref_example = [\<lparr>ee_first_block = 0, ee_block_count = 1, ee_start_hi = 0, ee_start_lo = 9\<rparr>,
     \<lparr>ee_first_block = 2, ee_block_count = 32771, ee_start_hi = 0, ee_start_lo = 20\<rparr>]"
    by (simp add: inode_exts_def Let_def entry_off_def p two)
  note root = space_root
  have g: "header_good ext_sb_example 1 ext_root_example 1" "header_good ext_sb_example 1 ext_leaf_example 0"
    using max_entries(1) [of ext_sb_example 1]
    by (simp_all add: header_good_def ext_root_example_def ext_leaf_example_def header_of_app ext4_ext_max_entries_def
        ext4_ext_space_block_def root)
  have "tree_ok ext_example 1 1 ext_root_example 0 (2 ^ 32)"
    using g(2) by (simp add: Let_def entry_off_def p next_key_def two ext4_ext_get_actual_len_def)
  then show "extent_tree_ok ext_example iref_example"
    using g by (simp add: extent_tree_ok_def n stamp_same_def)
qed

lemma ext_example_find:
  "extent_of_block ext_example iref_example 3 = Some \<lparr>ee_first_block = 2, ee_block_count = 32771, ee_start_hi = 0, ee_start_lo = 20\<rparr>"
  "extent_of_block ext_example iref_example 0 = Some \<lparr>ee_first_block = 0, ee_block_count = 1, ee_start_hi = 0, ee_start_lo = 9\<rparr>"
  by (simp_all add: extent_of_block_def ext_example_tree(3) covers_def ext4_ext_get_actual_len_def EXT_INIT_MAX_LEN_def)

section \<open>Lookups\<close>





section \<open>Directories in extents\<close>

lemma ext_example_size: "ext4_inode_get_size ext_sb_example (ext_inode_example r) = 4096"
  "total_blocks ext_sb_example (ext_inode_example r) = 1"
proof -
  have t: "ext4_inode_is_type ext_sb_example (ext_inode_example r) EXT4_INODE_MODE_FILE = False"
    by (simp add: ext4_inode_is_type_def ext4_inode_type_def ext4_inode_get_mode_def ext_inode_example_def dir_inode_example_def
        ext_sb_example_def probe_example_def zero_sblock_def EXT4_SUPERBLOCK_OS_HURD_def EXT4_INODE_MODE_TYPE_MASK_def
        EXT4_INODE_MODE_FILE_def)
  show sz: "ext4_inode_get_size ext_sb_example (ext_inode_example r) = 4096"
    by (simp add: ext4_inode_get_size_def t) (simp add: ext_inode_example_def dir_inode_example_def)
  show "total_blocks ext_sb_example (ext_inode_example r) = 1" by (simp add: total_blocks_def sz)
qed

lemma ext_example_map: "ext_blocks ext_example iref_example = [9]" "ext_valid ext_example iref_example"
proof -
  have "report_blocks (extent_of_block ext_example iref_example 0) 0 1 = (9, 1)"
    by (simp add: ext_example_find report_blocks_def block_in_extent_def blocks_left_def ext4_ext_get_actual_len_def
        ext4_ext_is_unwritten_def EXT_INIT_MAX_LEN_def ext4_ext_pblock_def)
  then show m: "ext_blocks ext_example iref_example = [9]" by (simp add: ext_blocks_def ext_example_size)
  show "ext_valid ext_example iref_example"
    unfolding ext_valid_def m ext_example_tree(1) by (simp add: ext_example_tree(2) ext_example_size) (simp add: iref_example_def)
qed

lemma ext_example_on: "dir_on ext_example iref_example (ext_blocks ext_example iref_example)"
proof -
  have "good_block ext_sb_example dir_block_example" by (rule dir_example_bytes; simp)
  then show ?thesis
    by (simp add: dir_on_def ext_example_map ext_example_size dir_sb_def dir_indexed_def) (simp add: iref_example_def)
qed



section \<open>Ranges that start in a hole\<close>

lemma remove_not_found:
  assumes "ext4_find_extent b None ref fs = (Ret (EOK, Some p), ref, fs\<lparr>fs_calls := n\<rparr>)"
    "found_extent p b ref (fs\<lparr>fs_calls := n\<rparr>) = (Ret None, ref, fs\<lparr>fs_calls := n\<rparr>)"
    "drop_path (Some p) ref (fs\<lparr>fs_calls := n\<rparr>) = (Ret (), ref, fs2)"
  shows "ext4_extent_remove_space fuel b e ref fs = (Ret (Some EOK), ref, fs2)"
proof -
  let ?fs = "fs\<lparr>fs_calls := n\<rparr>" and ?d = "unat (tree_depth fs ref)"
  have l: "?d < length p"
    using assms(2) by (rule contrapos_pp) (simp add: found_extent_def ir_ret path_at_def ir_crash_def ir_bind_def)
  have at: "path_at p ?d ref ?fs = (Ret (p ! ?d), ref, ?fs)" using l by (simp add: path_at_def ir_return_def)
  show ?thesis
  proof (cases "p_extent (p ! ?d)")
    case None
    then show ?thesis using assms(1,3) at by (simp add: ext4_extent_remove_space_def ir_ret Let_def ir_return_def)
  next
    case (Some k)
    then obtain ex where "node_extent (p_header (p ! ?d)) k ref ?fs = (Ret ex, ref, ?fs)"
      "\<not> in_range b (ee_first_block ex) (ext4_ext_get_actual_len ex)"
      using assms(2) at by (auto simp: found_extent_def ir_ret ir_bind_def ir_return_def split: prod.splits fsres.splits if_splits)
    then show ?thesis using assms(1,3) at Some
      by (simp add: ext4_extent_remove_space_def ir_ret Let_def ir_return_def)
  qed
qed



section \<open>An extent without blocks\<close>

lemma tree_find_calls [simp]: "tree_find (fs\<lparr>fs_calls := n\<rparr>) i bs b = tree_find fs i bs b"
  by (induction i arbitrary: bs) (simp_all split: option.split)

lemma preallocate_stuck:
  assumes "tree_find fs (unat (tree_depth fs ref)) (root_bytes fs ref) 0 = Some ex" "ee_first_block ex = 0" "ee_block_count ex = 0"
    "spine_whole fs (root_spine fs ref 0)" "\<forall>x\<in>set (root_spine fs ref 0). stamp_same fs ref x" "0 < count"
  shows "\<exists>r n. preallocate_loop fuel 0 count 0 0 ref fs = (r, ref, fs\<lparr>fs_calls := n\<rparr>) \<and>
    (r = Ret None \<or> (\<exists>e. r = Ret (Some (e, 0)) \<and> walk_err fs e))"
  using assms
proof (induction fuel arbitrary: fs)
  case 0
  have "fs = fs\<lparr>fs_calls := fs_calls fs\<rparr>" by simp
  then show ?case using 0 by (auto simp: ir_return_def intro!: exI [of _ "fs_calls fs"])
next
  case (Suc fuel)
  show ?case
  proof (cases rule: lookup_run [OF Suc.prems(4), case_names ok err])
    case (ok n f p)
    have "f = fs_blk fs" using ok(5) Suc.prems(5) by simp
    then have d: "drop_path (Some p) ref (fs\<lparr>fs_calls := n\<rparr>) = (Ret (), ref, fs\<lparr>fs_calls := n\<rparr>)" using ok(3) by simp
    have z: "blocks_left ex 0 = 0" using Suc.prems(2,3) by (simp add: blocks_left_def ext4_ext_get_actual_len_def)
    have "preallocate_loop (Suc fuel) 0 count 0 0 ref fs = preallocate_loop fuel 0 count 0 0 ref (fs\<lparr>fs_calls := n\<rparr>)"
      using ok(1,2) d Suc.prems(1,6) z by (simp add: ir_ret)
    then show ?thesis using Suc.IH [of "fs\<lparr>fs_calls := n\<rparr>"] Suc.prems by simp
  next
    case (err n f e)
    have w: "walk_err fs e" "f = fs_blk fs" using err(2) Suc.prems(5) by (simp_all add: walk_failed_def)
    have "e \<noteq> EOK" using w(1) by (auto simp: walk_err_def)
    then show ?thesis using err(1) w Suc.prems(6) by (auto simp: ir_ret ir_return_def)
  qed
qed


definition ext_zero_example :: bytes where
  "ext_zero_example = header_bytes \<lparr>eh_magic = EXT4_EXTENT_MAGIC, eh_entries_count = 1, eh_max_entries_count = 4,
     eh_depth = 0, eh_generation = 0\<rparr> @
     extent_bytes \<lparr>ee_first_block = 0, ee_block_count = 0, ee_start_hi = 0, ee_start_lo = 9\<rparr> @ replicate 36 0"


end
