(* ===== verification/Extent_Insert.thy ===== *)
theory Extent_Insert
  imports Extent_Map
begin

unbundle bit_operations_syntax

text \<open>
  What the insertion of an extent into a leaf does to the map from logical to physical blocks.
\<close>

section \<open>A new entry in a leaf\<close>

abbreviation leaf_exts :: "bytes \<Rightarrow> ext4_extent list" where
  "leaf_exts bs \<equiv> map (ext_n bs) [0..<ents bs]"

lemma extent_of_cong: "(\<And>k. k < 12 \<Longrightarrow> bs ! (o1 + k) = bs' ! (o2 + k)) \<Longrightarrow> extent_of bs o1 = extent_of bs' o2"
proof -
  assume e: "\<And>k. k < 12 \<Longrightarrow> bs ! (o1 + k) = bs' ! (o2 + k)"
  show ?thesis using e [of 0] e [of 1] e [of 2] e [of 3] e [of 4] e [of 5] e [of 6] e [of 7] e [of 8] e [of 9] e [of 10] e [of 11]
    by (simp add: extent_of_def get_le16_def get_le32_def add.assoc add.commute [of _ o1] add.commute [of _ o2])
qed

lemma header_of_cong: "(\<And>k. k < 12 \<Longrightarrow> bs ! k = bs' ! k) \<Longrightarrow> header_of bs = header_of bs'"
proof -
  assume e: "\<And>k. k < 12 \<Longrightarrow> bs ! k = bs' ! k"
  show ?thesis using e [of 0] e [of 1] e [of 2] e [of 3] e [of 4] e [of 5] e [of 6] e [of 7] e [of 8] e [of 9] e [of 10] e [of 11]
    by (simp add: header_of_def get_le16_def get_le32_def)
qed

lemma put_extent:
  assumes "entry_off n + 12 \<le> length bs"
  shows "extent_put bs n e = Some (put_bytes bs (entry_off n) (extent_bytes e))"
    "header_of (put_bytes bs (entry_off n) (extent_bytes e)) = header_of bs"
    "entry_off i + 12 \<le> length bs \<Longrightarrow> ext_n (put_bytes bs (entry_off n) (extent_bytes e)) i = (if i = n then e else ext_n bs i)"
proof -
  show "extent_put bs n e = Some (put_bytes bs (entry_off n) (extent_bytes e))"
    using assms by (simp add: extent_put_def wrn_def)
  show "header_of (put_bytes bs (entry_off n) (extent_bytes e)) = header_of bs"
    by (rule header_of_cong) (use assms in \<open>simp add: nth_put_bytes entry_off_def\<close>)
  show "ext_n (put_bytes bs (entry_off n) (extent_bytes e)) i = (if i = n then e else ext_n bs i)" if "entry_off i + 12 \<le> length bs"
  proof (cases "i = n")
    case False
    then have "entry_off i + 12 \<le> entry_off n \<or> entry_off n + 12 \<le> entry_off i" by (auto simp: entry_off_def)
    then have "ext_n (put_bytes bs (entry_off n) (extent_bytes e)) i = ext_n bs i"
      by (intro extent_of_cong) (use assms that in \<open>auto simp: nth_put_bytes\<close>)
    then show ?thesis using False by simp
  qed (use assms in \<open>simp add: entry_roundtrip\<close>)
qed

lemma put_header:
  assumes "12 \<le> length bs"
  shows "set_entries_count bs c = Some (put_bytes bs 0 (header_bytes ((header_of bs)\<lparr>eh_entries_count := c\<rparr>)))"
    "header_of (put_bytes bs 0 (header_bytes h)) = h" "entry_off i + 12 \<le> length bs \<Longrightarrow> ext_n (put_bytes bs 0 (header_bytes h)) i = ext_n bs i"
proof -
  show "set_entries_count bs c = Some (put_bytes bs 0 (header_bytes ((header_of bs)\<lparr>eh_entries_count := c\<rparr>)))"
    using assms by (simp add: set_entries_count_def header_at_def header_put_def wrn_def)
  show "header_of (put_bytes bs 0 (header_bytes h)) = h" by (rule header_roundtrip [OF assms])
  show "ext_n (put_bytes bs 0 (header_bytes h)) i = ext_n bs i" if "entry_off i + 12 \<le> length bs"
    by (rule extent_of_cong) (use assms that in \<open>simp add: nth_put_bytes entry_off_def\<close>)
qed

lemma open_gap:
  assumes f: "node_fits bs" and e: "ents bs < unat (eh_max_entries_count (header_of bs))" and n: "n \<le> ents bs"
  obtains bs' where "open_entry bs n = Some bs'" "length bs' = length bs" "header_of bs' = header_of bs"
    "\<forall>i<n. ext_n bs' i = ext_n bs i" "\<forall>i. n \<le> i \<and> i < ents bs \<longrightarrow> ext_n bs' (Suc i) = ext_n bs i"
proof (cases "n < ents bs")
  case True
  let ?m = "12 * (ents bs - n)" and ?bs = "put_bytes bs (entry_off (n + 1)) (take (12 * (ents bs - n)) (drop (entry_off n) bs))"
  have in1: "entry_off (ents bs) + 12 \<le> length bs" by (rule entry_fits(1) [OF f e])
  have off: "entry_off n + ?m = entry_off (ents bs)" "entry_off (n + 1) + ?m = entry_off (ents bs) + 12"
    using True by (simp_all add: entry_off_def)
  have l: "length (take ?m (drop (entry_off n) bs)) = ?m" using in1 off(1) by (simp add: min_def)
  have fit: "entry_off (n + 1) + length (take ?m (drop (entry_off n) bs)) \<le> length bs" unfolding l using in1 off(2) by simp
  show thesis
  proof (rule that)
    show "open_entry bs n = Some ?bs"
      using True f in1 off fit by (simp add: open_entry_def entries_move_def ldn_def wrn_def Let_def)
    show "length ?bs = length bs" by (rule length_put_bytes [OF fit])
    show "header_of ?bs = header_of bs"
      by (rule header_of_cong) (use fit in \<open>simp add: nth_put_bytes entry_off_def\<close>)
    show "\<forall>i<n. ext_n ?bs i = ext_n bs i"
      by (intro allI impI extent_of_cong) (use fit in \<open>simp add: nth_put_bytes entry_off_def\<close>)
    have "ext_n ?bs (Suc i) = ext_n bs i" if "n \<le> i" "i < ents bs" for i
    proof (rule extent_of_cong)
      fix k :: nat assume "k < 12"
      then have "entry_off (n + 1) \<le> entry_off (Suc i) + k" "entry_off (Suc i) + k < entry_off (n + 1) + ?m"
        "entry_off n + (entry_off (Suc i) + k - entry_off (n + 1)) = entry_off i + k"
        using that by (simp_all add: entry_off_def)
      then show "?bs ! (entry_off (Suc i) + k) = bs ! (entry_off i + k)"
        using fit l in1 off by (simp add: nth_put_bytes)
    qed
    then show "\<forall>i. n \<le> i \<and> i < ents bs \<longrightarrow> ext_n ?bs (Suc i) = ext_n bs i" by blast
  qed
next
  case False
  then show thesis using f n by (intro that [of bs]) (auto simp: open_entry_def)
qed

lemma leaf_put_run:
  assumes f: "node_fits bs" and e: "ents bs < unat (eh_max_entries_count (header_of bs))" and n: "n \<le> ents bs"
  obtains bs' where "leaf_put bs n x = Some (EOK, bs')" "length bs' = length bs"
    "header_of bs' = (header_of bs)\<lparr>eh_entries_count := eh_entries_count (header_of bs) + 1\<rparr>"
    "leaf_exts bs' = take n (leaf_exts bs) @ ext4_ext_store_pblock x (ext4_ext_pblock x) # drop n (leaf_exts bs)"
proof -
  let ?x = "ext4_ext_store_pblock x (ext4_ext_pblock x)"
  obtain b1 where b1: "open_entry bs n = Some b1" "length b1 = length bs" "header_of b1 = header_of bs"
    "\<forall>i<n. ext_n b1 i = ext_n bs i" "\<forall>i. n \<le> i \<and> i < ents bs \<longrightarrow> ext_n b1 (Suc i) = ext_n bs i"
    by (rule open_gap [OF f e n])
  have "entry_off n \<le> entry_off (ents bs)" using n by (simp add: entry_off_def)
  then have w: "entry_off n + 12 \<le> length b1" using entry_fits(1) [OF f e] b1(2) by simp
  let ?b2 = "put_bytes b1 (entry_off n) (extent_bytes ?x)"
  have l2: "length ?b2 = length bs" using w b1(2) by simp
  let ?h = "(header_of bs)\<lparr>eh_entries_count := eh_entries_count (header_of bs) + 1\<rparr>"
  let ?b3 = "put_bytes ?b2 0 (header_bytes ?h)"
  have l12: "12 \<le> length ?b2" using f l2 by (simp add: node_fits_def)
  have c: "unat (eh_entries_count (header_of bs) + 1) = ents bs + 1"
    using e unsigned_less [of "eh_max_entries_count (header_of bs)", where ?'a = nat] by (simp add: unat_word_ariths)
  have h: "set_entries_count ?b2 (eh_entries_count (header_of bs) + 1) = Some ?b3"
    using put_header(1) [OF l12] put_extent(2) [OF w] b1(3) by simp
  have h3: "header_of ?b3 = ?h" by (rule put_header(2) [OF l12])
  show thesis
  proof (rule that)
    show "leaf_put bs n x = Some (EOK, ?b3)"
      using f b1(1) put_extent(1) [OF w] h e n c by (simp add: leaf_put_def)
    show "length ?b3 = length bs" using l12 l2 by simp
    show "header_of ?b3 = ?h" by (rule h3)
    have x3: "ext_n ?b3 i = (if i = n then ?x else ext_n b1 i)" if "i \<le> ents bs" for i
    proof -
      have "entry_off i \<le> entry_off (ents bs)" using that by (simp add: entry_off_def)
      then have "entry_off i + 12 \<le> length b1" "entry_off i + 12 \<le> length ?b2" using entry_fits(1) [OF f e] b1(2) l2 by simp_all
      then show ?thesis using put_header(3) [OF l12] put_extent(3) [OF w] by simp
    qed
    show "leaf_exts ?b3 = take n (leaf_exts bs) @ ?x # drop n (leaf_exts bs)"
    proof (rule nth_equalityI)
      show "length (leaf_exts ?b3) = length (take n (leaf_exts bs) @ ?x # drop n (leaf_exts bs))" using h3 c n by simp
    next
      fix i assume "i < length (leaf_exts ?b3)"
      then have i: "i < Suc (ents bs)" using h3 c by simp
      show "leaf_exts ?b3 ! i = (take n (leaf_exts bs) @ ?x # drop n (leaf_exts bs)) ! i"
      proof (cases i n rule: linorder_cases)
        case less
        then show ?thesis using i n h3 c x3 b1(4) by (simp add: nth_append)
      next
        case equal
        then show ?thesis using i n h3 c x3 by (simp add: nth_append)
      next
        case greater
        then obtain k where "i = Suc k" "n \<le> k" by (cases i) auto
        then show ?thesis using i n h3 c x3 b1(5) by (simp add: nth_append nth_Cons' Suc_diff_le del: upt_Suc)
      qed
    qed
  qed
qed

section \<open>A new extent in the sequence\<close>

lemma store_own_pblock [simp]: "ext4_ext_store_pblock x (ext4_ext_pblock x) = x"
proof -
  have m: "(0xFFFFFFFF :: u64) = mask 32" "(0xFFFF :: u16) = mask 16" by (simp_all add: mask_eq_exp_minus_1)
  have lo: "(ucast (ext4_ext_pblock x AND 0xFFFFFFFF) :: u32) = ee_start_lo x"
    unfolding m by (rule bit_word_eqI) (auto simp: ext4_ext_pblock_def bit_simps)
  have hi: "(ucast (drop_bit 32 (ext4_ext_pblock x)) :: u16) AND 0xFFFF = ee_start_hi x"
    unfolding m by (rule bit_word_eqI) (auto simp: ext4_ext_pblock_def bit_simps dest: bit_imp_le_length)
  show ?thesis unfolding ext4_ext_store_pblock_def lo hi by simp
qed

text \<open>The physical block of a logical block, and whether it is allocated only.\<close>

definition maps :: "ext4_extent list \<Rightarrow> u32 \<Rightarrow> (u64 \<times> bool) option" where
  "maps es b = map_option (\<lambda>e. (block_in_extent e b, ext4_ext_is_unwritten e)) (find (\<lambda>e. covers e b) es)"

lemma ext_seq_iff:
  "ext_seq lo hi es \<longleftrightarrow> lo \<le> hi \<and> sorted_wrt (\<lambda>a b. ext_first a + ext_len a \<le> ext_first b) es \<and>
     (\<forall>e\<in>set es. lo \<le> ext_first e \<and> 1 \<le> ext_len e \<and> ext_first e + ext_len e \<le> hi)"
proof (induction es arbitrary: lo)
  case (Cons e es)
  show ?case unfolding ext_seq.simps Cons.IH by fastforce
qed simp

lemma covers_apart:
  assumes "1 \<le> ext_len x" "1 \<le> ext_len y"
  shows "(\<forall>b. \<not> (covers x b \<and> covers y b)) \<longleftrightarrow>
    ext_first x + ext_len x \<le> ext_first y \<or> ext_first y + ext_len y \<le> ext_first x"
proof
  assume a: "\<forall>b. \<not> (covers x b \<and> covers y b)"
  show "ext_first x + ext_len x \<le> ext_first y \<or> ext_first y + ext_len y \<le> ext_first x"
    using a [rule_format, of "ee_first_block x"] a [rule_format, of "ee_first_block y"] assms by (auto simp: covers_def)
qed (auto simp: covers_def)

lemma maps_split:
  assumes "\<forall>x\<in>set xs. \<not> (covers x b \<and> covers e b)"
  shows "maps (xs @ e # ys) b = (if covers e b then Some (block_in_extent e b, ext4_ext_is_unwritten e) else maps (xs @ ys) b)"
proof -
  have "find (\<lambda>e. covers e b) xs = None" if "covers e b" using assms that by (auto simp: find_None_iff)
  then show ?thesis by (auto simp: maps_def find_append split: option.split)
qed

lemma seq_insert:
  assumes s: "ext_seq lo hi es" and e: "1 \<le> ext_len e" "lo \<le> ext_first e" "ext_first e + ext_len e \<le> hi"
    and l: "\<forall>x\<in>set (take n es). ext_first x + ext_len x \<le> ext_first e"
    and r: "\<forall>y\<in>set (drop n es). ext_first e + ext_len e \<le> ext_first y"
  shows "ext_seq lo hi (take n es @ e # drop n es)"
    "maps (take n es @ e # drop n es) b = (if covers e b then Some (block_in_extent e b, ext4_ext_is_unwritten e) else maps es b)"
proof -
  have es: "es = take n es @ drop n es" by simp
  then have s': "ext_seq lo hi (take n es @ drop n es)" using s by simp
  have ins: "ext_seq lo hi (xs @ e # ys)" if "ext_seq lo hi (xs @ ys)" "\<forall>x\<in>set xs. ext_first x + ext_len x \<le> ext_first e"
    "\<forall>y\<in>set ys. ext_first e + ext_len e \<le> ext_first y" for xs ys
    using that e unfolding ext_seq_iff by (auto simp: sorted_wrt_append)
  show "ext_seq lo hi (take n es @ e # drop n es)"
    by (rule ins [OF s' l r])
  show "maps (take n es @ e # drop n es) b = (if covers e b then Some (block_in_extent e b, ext4_ext_is_unwritten e) else maps es b)"
  proof -
    have "\<forall>x\<in>set (take n es). \<not> (covers x b \<and> covers e b)" using l by (fastforce simp: covers_def)
    from maps_split [OF this, of "drop n es"] show ?thesis by simp
  qed
qed

text \<open>Where the search puts an extent that overlaps none.\<close>

definition insert_pos :: "ext4_extent list \<Rightarrow> nat option \<Rightarrow> ext4_extent \<Rightarrow> nat" where
  "insert_pos es k e = (case k of None \<Rightarrow> 0 | Some j \<Rightarrow> if ee_first_block (es ! j) < ee_first_block e then j + 1 else j)"

definition found_pos :: "ext4_extent list \<Rightarrow> nat option \<Rightarrow> u32 \<Rightarrow> bool" where
  "found_pos es k b \<longleftrightarrow> (case k of None \<Rightarrow> es = []
     | Some j \<Rightarrow> j < length es \<and> (j = 0 \<or> ee_first_block (es ! j) \<le> b) \<and> (j + 1 = length es \<or> b < ee_first_block (es ! (j + 1))))"

lemma insert_pos_gap:
  assumes s: "ext_seq lo hi es" and k: "found_pos es k (ee_first_block e)" and e: "1 \<le> ext_len e"
    and apart: "\<forall>b. covers e b \<longrightarrow> (\<forall>x\<in>set es. \<not> covers x b)"
  shows "insert_pos es k e \<le> length es" "\<forall>x\<in>set (take (insert_pos es k e) es). ext_first x + ext_len x \<le> ext_first e"
    "\<forall>y\<in>set (drop (insert_pos es k e) es). ext_first e + ext_len e \<le> ext_first y"
    "\<forall>j. k = Some j \<longrightarrow> ee_first_block (es ! j) \<noteq> ee_first_block e"
proof -
  let ?n = "insert_pos es k e"
  note st = s [unfolded ext_seq_iff]
  have two: "ext_first x + ext_len x \<le> ext_first e \<or> ext_first e + ext_len e \<le> ext_first x" if "x \<in> set es" for x
    using covers_apart [of x e] st e apart that by blast
  have ord: "ext_first (es ! i) \<le> ext_first (es ! j)" if "i \<le> j" "j < length es" for i j
  proof (cases "i = j")
    case False
    then show ?thesis using st that sorted_wrt_nth_less [of _ es i j] by fastforce
  qed simp
  show ne: "\<forall>j. k = Some j \<longrightarrow> ee_first_block (es ! j) \<noteq> ee_first_block e"
  proof (intro allI impI)
    fix j assume j: "k = Some j"
    then have "es ! j \<in> set es" using k by (simp add: found_pos_def)
    then have "1 \<le> ext_len (es ! j)" "ext_first (es ! j) \<noteq> ext_first e" using two [of "es ! j"] st e by auto
    then show "ee_first_block (es ! j) \<noteq> ee_first_block e" by auto
  qed
  show "?n \<le> length es" using k by (auto simp: insert_pos_def found_pos_def split: option.splits)
  have left: "ext_first (es ! i) \<le> ext_first e" if "i < ?n" for i
  proof (cases k)
    case (Some j)
    then have "j < length es" "j = 0 \<or> ext_first (es ! j) \<le> ext_first e"
      using k by (auto simp: found_pos_def word_le_nat_alt)
    moreover have "i \<le> j" "j = 0 \<longrightarrow> ext_first (es ! j) < ext_first e"
      using that Some by (auto simp: insert_pos_def word_less_nat_alt split: if_splits)
    ultimately show ?thesis using ord [of i j] by auto
  qed (use that in \<open>simp add: insert_pos_def\<close>)
  have right: "ext_first e < ext_first (es ! i)" if "?n \<le> i" "i < length es" for i
  proof (cases k)
    case (Some j)
    show ?thesis
    proof (cases "ee_first_block (es ! j) < ee_first_block e")
      case True
      then have "j + 1 \<le> i" using that Some by (simp add: insert_pos_def)
      moreover from this have "ext_first e < ext_first (es ! (j + 1))"
        using k Some that by (auto simp: found_pos_def word_less_nat_alt)
      ultimately show ?thesis using ord [of "j + 1" i] that by simp
    next
      case False
      then have "ext_first e < ext_first (es ! j)" using ne Some
        by (metis linorder_neqE_nat unsigned_word_eqI word_less_nat_alt)
      moreover have "j \<le> i" using that Some False by (simp add: insert_pos_def)
      ultimately show ?thesis using ord [of j i] that by simp
    qed
  qed (use k that in \<open>simp add: found_pos_def\<close>)
  show "\<forall>x\<in>set (take ?n es). ext_first x + ext_len x \<le> ext_first e"
  proof
    fix x assume "x \<in> set (take ?n es)"
    then obtain i where "i < ?n" "i < length es" "x = es ! i" by (auto simp: in_set_conv_nth)
    then show "ext_first x + ext_len x \<le> ext_first e" using left [of i] two [of x] e by auto
  qed
  show "\<forall>y\<in>set (drop ?n es). ext_first e + ext_len e \<le> ext_first y"
  proof
    fix y assume "y \<in> set (drop ?n es)"
    then obtain m where "m < length es - ?n" "y = es ! (?n + m)" by (auto simp: in_set_conv_nth)
    then show "ext_first e + ext_len e \<le> ext_first y" using right [of "?n + m"] two [of y] by (auto simp: less_diff_conv add.commute)
  qed
qed

section \<open>Merging with a neighbour\<close>

lemma first_upd [simp]:
  "ext4_ext_get_actual_len (c\<lparr>ee_first_block := k\<rparr>) = ext4_ext_get_actual_len c"
  "ext4_ext_is_unwritten (c\<lparr>ee_first_block := k\<rparr>) = ext4_ext_is_unwritten c"
  "ext4_ext_pblock (c\<lparr>ee_first_block := k\<rparr>) = ext4_ext_pblock c"
  by (simp_all add: ext4_ext_get_actual_len_def ext4_ext_is_unwritten_def ext4_ext_pblock_def)

lemma can_mergeD:
  "ext4_ext_can_append c e \<Longrightarrow> ext4_ext_is_unwritten c = ext4_ext_is_unwritten e \<and>
     ext4_ext_pblock c + ucast (ext4_ext_get_actual_len c) = ext4_ext_pblock e \<and>
     ext_len c + ext_len e \<le> (if ext4_ext_is_unwritten c then 32767 else 32768) \<and>
     ee_first_block c + ucast (ext4_ext_get_actual_len c) = ee_first_block e"
  "ext4_ext_can_prepend c e \<Longrightarrow> ext4_ext_is_unwritten c = ext4_ext_is_unwritten e \<and>
     ext4_ext_pblock e + ucast (ext4_ext_get_actual_len e) = ext4_ext_pblock c \<and>
     ext_len c + ext_len e \<le> (if ext4_ext_is_unwritten c then 32767 else 32768) \<and>
     ee_first_block e + ucast (ext4_ext_get_actual_len e) = ee_first_block c"
  by (auto simp: ext4_ext_can_append_def ext4_ext_can_prepend_def Let_def EXT_INIT_MAX_LEN_def EXT_UNWRITTEN_MAX_LEN_def
      split: if_splits)

lemma sum_first: "ext_first x + ext_len x < 2 ^ 32 \<Longrightarrow> unat (ee_first_block x + ucast (ext4_ext_get_actual_len x)) = ext_first x + ext_len x"
  by (simp add: unat_word_ariths unsigned_ucast_eq)

lemma below_max: "\<not> covers x 0xFFFFFFFF \<Longrightarrow> ext_first x + ext_len x < 2 ^ 32"
  using unsigned_less [of "ee_first_block x", where ?'a = nat] by (auto simp: covers_def)

lemma mark_len:
  assumes "1 \<le> unat n" "unat n \<le> 32767"
  shows "ext4_ext_get_actual_len (ext4_ext_mark_unwritten (c\<lparr>ee_block_count := n\<rparr>)) = n"
    "ext4_ext_is_unwritten (ext4_ext_mark_unwritten (c\<lparr>ee_block_count := n\<rparr>))"
proof -
  have z: "n AND 32768 = 0"
  proof (rule bit_word_eqI)
    fix k assume "k < LENGTH(16)"
    have m: "(32768 :: u16) = push_bit 15 1" by (simp add: push_bit_eq_mult)
    have "\<not> bit (unat n) 15" using assms(2) by (simp add: bit_iff_odd)
    then have "\<not> bit n 15" by (simp add: bit_unsigned_iff)
    then show "bit (n AND 32768) k = bit 0 k" unfolding m bit_and_iff bit_push_bit_iff by (cases "k = 15") (auto simp: bit_1_iff)
  qed
  have s: "n OR 32768 = n + 32768" using word_plus_and_or [of n 32768] unfolding z by simp
  have u: "unat (n + 32768) = unat n + 32768" using assms(2) by (simp add: unat_word_ariths)
  show "ext4_ext_get_actual_len (ext4_ext_mark_unwritten (c\<lparr>ee_block_count := n\<rparr>)) = n"
    "ext4_ext_is_unwritten (ext4_ext_mark_unwritten (c\<lparr>ee_block_count := n\<rparr>))"
    using u assms by (simp_all add: ext4_ext_get_actual_len_def ext4_ext_is_unwritten_def ext4_ext_mark_unwritten_def s
        word_le_nat_alt word_less_nat_alt)
qed

lemma add_len_props:
  assumes "ext_len c + ext_len e \<le> (if ext4_ext_is_unwritten c then 32767 else 32768)" "1 \<le> ext_len c"
  shows "ext_len (add_len c e) = ext_len c + ext_len e" "ext4_ext_is_unwritten (add_len c e) = ext4_ext_is_unwritten c"
    "ee_first_block (add_len c e) = ee_first_block c" "ext4_ext_pblock (add_len c e) = ext4_ext_pblock c"
proof -
  let ?n = "ext4_ext_get_actual_len c + ext4_ext_get_actual_len e"
  have n: "unat ?n = ext_len c + ext_len e" using assms(1) by (simp add: unat_word_ariths split: if_splits)
  show "ext_len (add_len c e) = ext_len c + ext_len e" "ext4_ext_is_unwritten (add_len c e) = ext4_ext_is_unwritten c"
  proof (atomize (full), cases "ext4_ext_is_unwritten c")
    case True
    then have "add_len c e = ext4_ext_mark_unwritten (c\<lparr>ee_block_count := ?n\<rparr>)" by (simp add: add_len_def Let_def)
    then show "ext_len (add_len c e) = ext_len c + ext_len e \<and> ext4_ext_is_unwritten (add_len c e) = ext4_ext_is_unwritten c"
      using mark_len [of ?n c] n assms True by simp
  next
    case False
    then have "add_len c e = c\<lparr>ee_block_count := ?n\<rparr>" by (simp add: add_len_def Let_def)
    moreover have "?n \<le> 32768" using n assms(1) False by (simp add: word_le_nat_alt)
    ultimately show "ext_len (add_len c e) = ext_len c + ext_len e \<and> ext4_ext_is_unwritten (add_len c e) = ext4_ext_is_unwritten c"
      using False n by (simp add: ext4_ext_get_actual_len_def [of "c\<lparr>ee_block_count := ?n\<rparr>"]
          ext4_ext_is_unwritten_def [of "c\<lparr>ee_block_count := ?n\<rparr>"] not_less)
  qed
  show "ee_first_block (add_len c e) = ee_first_block c" "ext4_ext_pblock (add_len c e) = ext4_ext_pblock c"
    by (simp_all add: add_len_def Let_def ext4_ext_mark_unwritten_def ext4_ext_pblock_def)
qed

lemma ucast_small_sum: "unat (a :: u32) = unat (b :: u32) + unat (l :: u16) \<Longrightarrow> (ucast a :: u64) = ucast b + ucast l"
  by (metis of_nat_add of_nat_unat)

lemma block_apart:
  assumes "covers e b" "ext_first e = ext_first c + ext_len c"
  shows "(ucast (b - ee_first_block c) :: u64) = ucast (b - ee_first_block e) + ucast (ext4_ext_get_actual_len c)"
proof (rule ucast_small_sum)
  have "ee_first_block c \<le> b" "ee_first_block e \<le> b" using assms by (auto simp: covers_def word_le_nat_alt)
  then show "unat (b - ee_first_block c) = unat (b - ee_first_block e) + ext_len c"
    using assms by (auto simp: unat_sub covers_def)
qed

text \<open>Appending to the extent before.\<close>

lemma append_merge:
  assumes s: "ext_seq lo hi (xs @ c # ys)" "hi \<le> 2 ^ 32" and m: "ext4_ext_can_append c e" "1 \<le> ext_len e"
    and w: "ext_first c + ext_len c < 2 ^ 32" and e: "ext_first e + ext_len e \<le> hi"
    and r: "\<forall>y\<in>set ys. ext_first e + ext_len e \<le> ext_first y"
  shows "ext_seq lo hi (xs @ add_len c e # ys)"
    "maps (xs @ add_len c e # ys) b = (if covers e b then Some (block_in_extent e b, ext4_ext_is_unwritten e) else maps (xs @ c # ys) b)"
proof -
  note st = s(1) [unfolded ext_seq_iff]
  have c: "1 \<le> ext_len c" "\<forall>x\<in>set xs. ext_first x + ext_len x \<le> ext_first c" using st by (auto simp: sorted_wrt_append)
  note k = can_mergeD(1) [OF m(1)]
  have p: "ext_len (add_len c e) = ext_len c + ext_len e" "ext4_ext_is_unwritten (add_len c e) = ext4_ext_is_unwritten c"
    "ee_first_block (add_len c e) = ee_first_block c" "ext4_ext_pblock (add_len c e) = ext4_ext_pblock c"
    using add_len_props [of c e] k c(1) by blast+
  have "unat (ee_first_block c + ucast (ext4_ext_get_actual_len c)) = ext_first c + ext_len c"
    using w by (simp add: unat_word_ariths unsigned_ucast_eq)
  then have f: "ext_first e = ext_first c + ext_len c" using k by simp
  show "ext_seq lo hi (xs @ add_len c e # ys)"
    using st p e f r c by (auto simp: ext_seq_iff sorted_wrt_append)
  have cov: "covers (add_len c e) b \<longleftrightarrow> covers c b \<or> covers e b" using p f by (auto simp: covers_def)
  have "block_in_extent (add_len c e) b = block_in_extent e b" if "covers e b"
    using block_apart [OF that f] k p by (simp add: block_in_extent_def add.commute add.left_commute)
  moreover have "block_in_extent (add_len c e) b = block_in_extent c b" by (simp add: block_in_extent_def p)
  moreover have "\<not> (covers c b \<and> covers e b)" using f by (auto simp: covers_def)
  moreover have "\<forall>x\<in>set xs. \<not> (covers x b \<and> covers c b)" "\<forall>x\<in>set xs. \<not> (covers x b \<and> covers (add_len c e) b)"
    using c(2) f p by (fastforce simp: covers_def)+
  ultimately show "maps (xs @ add_len c e # ys) b =
      (if covers e b then Some (block_in_extent e b, ext4_ext_is_unwritten e) else maps (xs @ c # ys) b)"
    using k p cov by (auto simp: maps_split)
qed

text \<open>Prepending to the extent after keeps the physical start of that extent.\<close>

lemma prepend_merge:
  assumes m: "ext4_ext_can_prepend c e" "1 \<le> ext_len c" and b: "covers c b" and w: "ext_first c + ext_len c \<le> 2 ^ 32"
    "ext_first e + ext_len e < 2 ^ 32"
  shows "merge_extent c e = Some ((add_len c e)\<lparr>ee_first_block := ee_first_block e\<rparr>) \<or> ext4_ext_can_append c e"
    "block_in_extent ((add_len c e)\<lparr>ee_first_block := ee_first_block e\<rparr>) b = block_in_extent c b + ucast (ext4_ext_get_actual_len e)"
proof -
  note k = can_mergeD(2) [OF m(1)]
  show "merge_extent c e = Some ((add_len c e)\<lparr>ee_first_block := ee_first_block e\<rparr>) \<or> ext4_ext_can_append c e"
    using m(1) by (simp add: merge_extent_def)
  have "unat (ee_first_block e + ucast (ext4_ext_get_actual_len e)) = ext_first e + ext_len e"
    using w(2) by (simp add: unat_word_ariths unsigned_ucast_eq)
  then have f: "ext_first c = ext_first e + ext_len e" using k by simp
  have "ext4_ext_pblock (add_len c e) = ext4_ext_pblock c" using add_len_props(4) [of c e] k m(2) by blast
  then show "block_in_extent ((add_len c e)\<lparr>ee_first_block := ee_first_block e\<rparr>) b =
      block_in_extent c b + ucast (ext4_ext_get_actual_len e)"
    using block_apart [OF b f] by (simp add: block_in_extent_def add.commute add.left_commute)
qed

lemma prepend_chosen:
  assumes p: "ext4_ext_can_prepend x e" and x: "1 \<le> ext_len x" "ext_first x + ext_len x \<le> 2 ^ 32"
    and e: "1 \<le> ext_len e" "ext_first e + ext_len e < 2 ^ 32"
  shows "merge_extent x e = Some ((add_len x e)\<lparr>ee_first_block := ee_first_block e\<rparr>)"
proof -
  note k = can_mergeD(2) [OF p]
  have f: "ext_first x = ext_first e + ext_len e" using k sum_first [OF e(2)] by simp
  have s: "ext_len x + ext_len e \<le> 32768" using k by (auto split: if_splits)
  have "\<not> ext4_ext_can_append x e"
  proof
    assume "ext4_ext_can_append x e"
    then have "unat (ee_first_block x + ucast (ext4_ext_get_actual_len x)) = ext_first e" using can_mergeD(1) by simp
    then have "(ext_first x + ext_len x) mod 2 ^ 32 = ext_first e" by (simp add: unat_word_ariths unsigned_ucast_eq)
    then show False using f s x e by (cases "ext_first x + ext_len x = 2 ^ 32") auto
  qed
  then show ?thesis using p by (simp add: merge_extent_def)
qed

section \<open>Writing the root\<close>

text \<open>The inode lies in its block and has one of the sizes that the probe admits.\<close>

definition inode_whole :: "ext4_fs \<Rightarrow> ext4_inode_ref \<Rightarrow> bool" where
  "inode_whole fs ref \<longleftrightarrow> ir_off ref + unat (s_inode_size (fs_sb fs)) \<le> length (fs_blk fs (ir_block ref)) \<and>
     (s_inode_size (fs_sb fs) = EXT4_GOOD_OLD_INODE_SIZE \<or> 156 \<le> unat (s_inode_size (fs_sb fs)))"

lemma dirty_root [simp]:
  "root_bytes fs (ref\<lparr>ir_dirty := d\<rparr>) = root_bytes fs ref" "ino_raw fs (ref\<lparr>ir_dirty := d\<rparr>) = ino_raw fs ref"
  "tree_depth fs (ref\<lparr>ir_dirty := d\<rparr>) = tree_depth fs ref" "node_bytes fs (ref\<lparr>ir_dirty := d\<rparr>) h = node_bytes fs ref h"
  by (simp_all add: root_bytes_def ino_raw_def tree_depth_def node_bytes_def split: ext_node.split)

lemma put_root:
  assumes "inode_whole fs ref" "length bs = 60"
  obtains v where "node_put In_Inode bs ref fs = (Ret (), ref, fs\<lparr>fs_blk := (fs_blk fs)(ir_block ref := v)\<rparr>)"
    "root_bytes (fs\<lparr>fs_blk := (fs_blk fs)(ir_block ref := v)\<rparr>) ref = bs"
proof -
  let ?sb = "fs_sb fs" and ?raw = "ino_raw fs ref" and ?ws = "map (\<lambda>k. get_le32 bs (4 * k)) [0..<15]"
  let ?ino = "(inode_at ?raw)\<lparr>i_blocks := ?ws\<rparr>"
  let ?new = "inode_store ?sb ?raw ?ino"
  let ?v = "put_bytes (fs_blk fs (ir_block ref)) (ir_off ref) ?new"
  have l: "length (i_blocks ?ino) = 15" by simp
  have raw: "length ?raw = unat (s_inode_size ?sb)" using assms(1) by (auto simp: ino_raw_def inode_whole_def)
  have size: "unat (s_inode_size ?sb) = 128 \<or> 156 \<le> unat (s_inode_size ?sb)"
    using assms(1) by (auto simp: inode_whole_def EXT4_GOOD_OLD_INODE_SIZE_def)
  have new: "length ?new = unat (s_inode_size ?sb) \<and> i_blocks (inode_at ?new) = ?ws"
  proof (cases "156 \<le> unat (s_inode_size ?sb)")
    case True
    then show ?thesis using inode_at_store_big [OF l True raw] raw length_inode_bytes [OF l] by (simp add: inode_store_def)
  next
    case False
    then have old: "s_inode_size ?sb = EXT4_GOOD_OLD_INODE_SIZE" "length ?raw = 128"
      using assms(1) raw by (auto simp: inode_whole_def EXT4_GOOD_OLD_INODE_SIZE_def)
    then show ?thesis using inode_at_store_old [OF l old] raw length_inode_bytes [OF l] by (simp add: inode_store_def inode_old_def)
  qed
  have fit: "ir_off ref + length ?new \<le> length (fs_blk fs (ir_block ref))" using new assms(1) by (simp add: inode_whole_def)
  have "node_put In_Inode bs ref fs = (Ret (), ref, fs\<lparr>fs_blk := (fs_blk fs)(ir_block ref := ?v)\<rparr>)"
    by (simp add: node_put_def ir_bind_def ir_set_inode_def ir_lift_def inoref_put_def fs_bind_def fs_gets_def ino_write_raw_def
        fs_modify_def)
  moreover have "ino_raw (fs\<lparr>fs_blk := (fs_blk fs)(ir_block ref := ?v)\<rparr>) ref = ?new"
    using take_drop_put_bytes [OF fit] new by (simp add: ino_raw_def)
  then have "root_bytes (fs\<lparr>fs_blk := (fs_blk fs)(ir_block ref := ?v)\<rparr>) ref = bs"
    using new root_words [of bs 15] assms(2) by (simp add: root_bytes_def)
  ultimately show thesis by (rule that)
qed

section \<open>Inserting into a tree of one leaf\<close>

lemma insert_merged:
  assumes w: "inode_whole fs ref" and d: "tree_depth fs ref = 0" and f: "node_fits (root_bytes fs ref)"
    and p: "0 < length p" "p_header (p ! 0) = In_Inode" "p_lb (p ! 0) = 0" "p_extent (p ! 0) = Some k"
    and k: "k < ents (root_bytes fs ref)" "ee_first_block (ext_n (root_bytes fs ref) k) \<noteq> ee_first_block e"
    and m: "merge_extent (ext_n (root_bytes fs ref) k) e = Some ex"
  obtains p' ref' fs' where "ext4_ext_insert_extent p e False ref fs = (Ret (EOK, p'), ref', fs')" "fs_sb fs' = fs_sb fs"
    "header_of (root_bytes fs' ref') = header_of (root_bytes fs ref)" "leaf_exts (root_bytes fs' ref') = (leaf_exts (root_bytes fs ref))[k := ex]"
proof -
  let ?bs = "root_bytes fs ref"
  have at: "extent_at ?bs k = Some (ext_n ?bs k)" "entry_off k + 12 \<le> length ?bs"
    using entry_fits [OF f fits_ents [OF f k(1)]] by simp_all
  let ?new = "put_bytes ?bs (entry_off k) (extent_bytes ex)"
  have "length ?new = 60" using at(2) by (simp only: length_put_bytes length_node length_root)
  then obtain v where v: "node_put In_Inode ?new ref fs = (Ret (), ref, fs\<lparr>fs_blk := (fs_blk fs)(ir_block ref := v)\<rparr>)"
    "root_bytes (fs\<lparr>fs_blk := (fs_blk fs)(ir_block ref := v)\<rparr>) ref = ?new" by (rule put_root [OF w])
  let ?fs = "fs\<lparr>fs_blk := (fs_blk fs)(ir_block ref := v)\<rparr>" and ?ref = "ref\<lparr>ir_dirty := True\<rparr>"
  have u: "node_upd In_Inode (\<lambda>bs. extent_put bs k ex) ref fs = (Ret (), ref, ?fs)"
    using v(1) put_extent(1) [OF at(2)] by (simp add: node_upd_def ir_ret)
  have dirty: "ext4_ext_dirty (p ! 0) ref' fs' = (Ret (p ! 0), ref'\<lparr>ir_dirty := True\<rparr>, fs')" for ref' fs'
    using p(3) by (simp add: ext4_ext_dirty_def ir_bind_def ir_mark_dirty_def ir_return_def)
  have leaf: "ext4_ext_insert_leaf p 0 e False ref fs = (Ret (EOK, False, p[0 := (p ! 0)\<lparr>p_block := ext4_ext_pblock ex\<rparr>]), ?ref, ?fs)"
    using p k(2) m at(1) u dirty
    by (simp add: ext4_ext_insert_leaf_def ir_ret cur_extent_def ir_return_def)
  have ins: "ext4_ext_insert_extent p e False ref fs = (Ret (EOK, p[0 := (p ! 0)\<lparr>p_block := ext4_ext_pblock ex\<rparr>]), ?ref, ?fs)"
    using leaf d by (simp add: ext4_ext_insert_extent_def numeral_3_eq_3 ir_ret ir_return_def)
  show thesis
  proof (rule that [OF ins])
    show "header_of (root_bytes ?fs ?ref) = header_of ?bs" using v(2) put_extent(2) [OF at(2)] by simp
    then have h: "ents (root_bytes ?fs ?ref) = ents ?bs" by simp
    have "ext_n ?new i = (if i = k then ex else ext_n ?bs i)" if "i < ents ?bs" for i
      using put_extent(3) [OF at(2)] entry_fits(1) [OF f fits_ents [OF f that]] by blast
    then show "leaf_exts (root_bytes ?fs ?ref) = (leaf_exts ?bs)[k := ex]"
      using v(2) h by (intro nth_equalityI) (auto simp: nth_list_update)
  qed simp
qed

lemma insert_fresh:
  assumes w: "inode_whole fs ref" and d: "tree_depth fs ref = 0" and f: "node_fits (root_bytes fs ref)"
    and p: "0 < length p" "p_header (p ! 0) = In_Inode" "p_lb (p ! 0) = 0"
    and k: "found_pos (leaf_exts (root_bytes fs ref)) (p_extent (p ! 0)) (ee_first_block e)"
      "\<forall>j. p_extent (p ! 0) = Some j \<longrightarrow> ee_first_block (ext_n (root_bytes fs ref) j) \<noteq> ee_first_block e"
    and m: "\<forall>j. p_extent (p ! 0) = Some j \<longrightarrow> merge_extent (ext_n (root_bytes fs ref) j) e = None"
    and room: "ents (root_bytes fs ref) < unat (eh_max_entries_count (header_of (root_bytes fs ref)))"
    and n: "n = insert_pos (leaf_exts (root_bytes fs ref)) (p_extent (p ! 0)) e"
  obtains p' ref' fs' where "ext4_ext_insert_extent p e False ref fs = (Ret (EOK, p'), ref', fs')" "fs_sb fs' = fs_sb fs"
    "header_of (root_bytes fs' ref') = (header_of (root_bytes fs ref))\<lparr>eh_entries_count := eh_entries_count (header_of (root_bytes fs ref)) + 1\<rparr>"
    "leaf_exts (root_bytes fs' ref') = take n (leaf_exts (root_bytes fs ref)) @ e # drop n (leaf_exts (root_bytes fs ref))"
proof -
  let ?bs = "root_bytes fs ref" and ?k = "p_extent (p ! 0)"
  let ?curp = "(p ! 0)\<lparr>p_extent := (case ?k of None \<Rightarrow> Some 0 | k \<Rightarrow> k)\<rparr>"
  have n1: "n \<le> ents ?bs" using k(1) n by (auto simp: insert_pos_def found_pos_def split: option.splits)
  obtain bs' where put: "leaf_put ?bs n e = Some (EOK, bs')" "length bs' = 60"
    "header_of bs' = (header_of ?bs)\<lparr>eh_entries_count := eh_entries_count (header_of ?bs) + 1\<rparr>"
    "leaf_exts bs' = take n (leaf_exts ?bs) @ e # drop n (leaf_exts ?bs)"
    by (rule leaf_put_run [OF f room n1, of e]) simp
  obtain v where v: "node_put In_Inode bs' ref fs = (Ret (), ref, fs\<lparr>fs_blk := (fs_blk fs)(ir_block ref := v)\<rparr>)"
    "root_bytes (fs\<lparr>fs_blk := (fs_blk fs)(ir_block ref := v)\<rparr>) ref = bs'" by (rule put_root [OF w put(2)])
  let ?fs = "fs\<lparr>fs_blk := (fs_blk fs)(ir_block ref := v)\<rparr>" and ?ref = "ref\<lparr>ir_dirty := True\<rparr>"
  have d': "tree_depth ?fs ref = 0" using d v(2) put(3) by (simp add: tree_depth_def)
  have cur: "cur_extent ?bs ?k = Some (map_option (ext_n ?bs) ?k)"
    using k(1) entry_fits(2) [OF f fits_ents [OF f]] by (auto simp: cur_extent_def found_pos_def split: option.split)
  have c: "ext4_ext_correct_indexes (p[0 := ?curp]) ref ?fs = (Ret (EOK, p[0 := ?curp]), ref, ?fs)"
    using p(1) d' by (simp add: ext4_ext_correct_indexes_def ir_ret Let_def ir_return_def split: option.split)
  have dirty: "ext4_ext_dirty ?curp ref ?fs = (Ret ?curp, ?ref, ?fs)"
    using p(3) by (simp add: ext4_ext_dirty_def ir_bind_def ir_mark_dirty_def ir_return_def)
  have "n < unat (eh_max_entries_count (header_of bs'))" using n1 room put(3) by simp
  then have "entry_off n + 12 \<le> length bs'" using f put(2,3) by (simp add: node_fits_def tail_off_def entry_off_def)
  then have x: "extent_at bs' n = Some (ext_n bs' n)" by (simp add: extent_at_def)
  have new: "insert_new_entry p 0 (map_option (ext_n ?bs) ?k) e ref fs =
      (Ret (EOK, False, p[0 := ?curp\<lparr>p_extent := Some n, p_block := ext4_ext_pblock (ext_n bs' n)\<rparr>]), ?ref, ?fs)"
  proof (cases ?k)
    case None
    then have "n = 0" by (simp add: n insert_pos_def)
    then show ?thesis unfolding insert_new_entry_def using None p put(1) v c dirty x
      by (simp add: ir_ret Let_def node_extent_def ir_return_def)
  next
    case (Some j)
    then have pos: "(if ee_first_block (ext_n ?bs j) < ee_first_block e then j + 1 else j) = n"
      using k(1) by (simp add: n insert_pos_def found_pos_def)
    show ?thesis unfolding insert_new_entry_def using Some p put(1) v c dirty x
      by (simp add: ir_ret pos Let_def node_extent_def ir_return_def)
  qed
  have full: "eh_entries_count (header_of ?bs) \<noteq> eh_max_entries_count (header_of ?bs)" using room by auto
  have "ext4_ext_insert_leaf p 0 e False ref fs =
      (Ret (EOK, False, p[0 := ?curp\<lparr>p_extent := Some n, p_block := ext4_ext_pblock (ext_n bs' n)\<rparr>]), ?ref, ?fs)"
    using p k(2) m cur new full f
    by (cases ?k) (simp_all add: ext4_ext_insert_leaf_def ir_ret)
  then have ins: "ext4_ext_insert_extent p e False ref fs =
      (Ret (EOK, p[0 := ?curp\<lparr>p_extent := Some n, p_block := ext4_ext_pblock (ext_n bs' n)\<rparr>]), ?ref, ?fs)"
    using d by (simp add: ext4_ext_insert_extent_def numeral_3_eq_3 ir_ret ir_return_def)
  show thesis by (rule that [OF ins]) (use v(2) put(3,4) in simp_all)
qed

lemma root_path:
  assumes ok: "extent_tree_ok fs ref" and d: "tree_depth fs ref = 0"
    and p: "ext4_find_extent b None ref fs = (Ret (EOK, Some p), ref1, fs1)"
  shows "ref1 = ref" "\<exists>n. fs1 = fs\<lparr>fs_calls := n\<rparr>" "0 < length p" "p_header (p ! 0) = In_Inode" "p_lb (p ! 0) = 0"
    "found_pos (leaf_exts (root_bytes fs ref)) (p_extent (p ! 0)) b"
proof -
  have f: "node_fits (root_bytes fs ref)"
    using ok by (intro header_good_root [of "fs_sb fs" "tree_depth fs ref"]) (simp_all add: extent_tree_ok_def)
  note run = find_extent_run [OF ok_spine(1) [OF ok, of b], unfolded d]
  show ref: "ref1 = ref" by (rule run) (use p in auto)
  show "\<exists>n. fs1 = fs\<lparr>fs_calls := n\<rparr>" by (rule run) (use p in auto)
  have w: "walk_found fs ref 0 0 0 b (new_path 0) [] p" by (rule run) (use p in auto)
  then have q: "path_walk fs ref 0 p b" "path_held fs 0 0 p" "length p = 2" "p_header (p ! 0) = In_Inode"
    by (simp_all add: walk_found_def new_path_def no_path_def)
  show "0 < length p" "p_header (p ! 0) = In_Inode" using q by simp_all
  show "p_lb (p ! 0) = 0" using q(2,3) by (simp add: path_held_def)
  have k: "ext4_ext_binsearch (root_bytes fs ref) b = Some (p_extent (p ! 0))" using path_walk_leaf [OF q(1)] q(4) by simp
  show "found_pos (leaf_exts (root_bytes fs ref)) (p_extent (p ! 0)) b"
  proof (cases rule: search_extent [OF f, of b, case_names empty found])
    case empty
    then have "p_extent (p ! 0) = None" using k by simp
    then show ?thesis using empty(1) by (simp add: found_pos_def)
  next
    case (found j)
    then have "p_extent (p ! 0) = Some j" using k by simp
    then show ?thesis using found(2,4,5) by (cases "Suc j = ents (root_bytes fs ref)") (auto simp: found_pos_def)
  qed
qed

lemma one_leaf:
  assumes "tree_depth fs ref = 0"
  shows "inode_exts fs ref = leaf_exts (root_bytes fs ref)"
    "extent_tree_ok fs ref \<longleftrightarrow> header_good (fs_sb fs) 0 (root_bytes fs ref) 0 \<and> ext_seq 0 (2 ^ 32) (leaf_exts (root_bytes fs ref))"
  using assms by (simp_all add: inode_exts_def extent_tree_ok_def)

lemma one_leaf_after:
  assumes "tree_depth fs ref = 0" "header_good (fs_sb fs) 0 (root_bytes fs ref) 0" "fs_sb fs' = fs_sb fs"
    "header_of (root_bytes fs' ref') = (header_of (root_bytes fs ref))\<lparr>eh_entries_count := c\<rparr>"
    "c \<le> eh_max_entries_count (header_of (root_bytes fs ref))"
    "leaf_exts (root_bytes fs' ref') = es" "ext_seq 0 (2 ^ 32) es"
  shows "extent_tree_ok fs' ref'" "inode_exts fs' ref' = es"
proof -
  have d: "tree_depth fs' ref' = 0" using assms(1,4) by (simp add: tree_depth_def)
  show "extent_tree_ok fs' ref'" using assms by (simp add: one_leaf(2) [OF d] header_good_def)
  show "inode_exts fs' ref' = es" using assms(6) by (simp add: one_leaf(1) [OF d])
qed

text \<open>The merge that \<open>merge_extent\<close> chooses when the first extent cannot be prepended to.\<close>

lemma merge_found:
  assumes s: "ext_seq 0 (2 ^ 32) es" and k: "found_pos es (Some j) (ee_first_block e)" and e: "1 \<le> ext_len e" "ext_first e + ext_len e < 2 ^ 32"
    and apart: "\<forall>b. covers e b \<longrightarrow> (\<forall>x\<in>set es. \<not> covers x b)" and top: "\<forall>x\<in>set es. \<not> covers x 0xFFFFFFFF"
    and np: "\<forall>x xs. es = x # xs \<longrightarrow> \<not> ext4_ext_can_prepend x e" and m: "merge_extent (es ! j) e = Some ex"
  shows "ext_seq 0 (2 ^ 32) (es[j := ex])"
    "maps (es[j := ex]) b = (if covers e b then Some (block_in_extent e b, ext4_ext_is_unwritten e) else maps es b)"
proof -
  let ?c = "es ! j"
  note gap = insert_pos_gap [OF s k e(1) apart]
  have jl: "j < length es" and first: "j = 0 \<or> ext_first ?c \<le> ext_first e" using k by (auto simp: found_pos_def word_le_nat_alt)
  have es: "es = take j es @ ?c # drop (Suc j) es" using jl by (rule id_take_nth_drop)
  have cin: "?c \<in> set es" using jl by simp
  have ctop: "ext_first ?c + ext_len ?c < 2 ^ 32" using top cin below_max by blast
  have cl: "1 \<le> ext_len ?c" using s cin unfolding ext_seq_iff by blast
  have "\<not> ext4_ext_can_prepend ?c e"
  proof
    assume a: "ext4_ext_can_prepend ?c e"
    then have "ext_first ?c = ext_first e + ext_len e" using can_mergeD(2) [OF a] sum_first [OF e(2)] by simp
    then have "j = 0" using first e(1) by simp
    then have "es = ?c # drop 1 es" using es by simp
    then show False using np a by blast
  qed
  then have app: "ext4_ext_can_append ?c e" and ex: "ex = add_len ?c e"
    using m by (auto simp: merge_extent_def split: if_splits)
  have "ext_first e = ext_first ?c + ext_len ?c" using can_mergeD(1) [OF app] sum_first [OF ctop] by simp
  then have "insert_pos es (Some j) e = Suc j" using cl by (simp add: insert_pos_def word_less_nat_alt)
  then have r: "\<forall>y\<in>set (drop (Suc j) es). ext_first e + ext_len e \<le> ext_first y" using gap(3) by simp
  have s': "ext_seq 0 (2 ^ 32) (take j es @ ?c # drop (Suc j) es)" using s es by simp
  show "ext_seq 0 (2 ^ 32) (es[j := ex])"
    "maps (es[j := ex]) b = (if covers e b then Some (block_in_extent e b, ext4_ext_is_unwritten e) else maps es b)"
    using append_merge [OF s' order_refl app e(1) ctop less_imp_le [OF e(2)] r] jl es
    by (simp_all add: upd_conv_take_nth_drop ex)
qed

definition root_max :: "ext4_fs \<Rightarrow> ext4_inode_ref \<Rightarrow> nat" where
  "root_max fs ref = unat (eh_max_entries_count (header_of (root_bytes fs ref)))"

lemma insert_one_leaf:
  assumes "extent_tree_ok fs ref" "tree_depth fs ref = 0" "inode_whole fs ref" "length (inode_exts fs ref) < root_max fs ref"
    and e: "1 \<le> ext_len e" "ext_first e + ext_len e < 2 ^ 32"
    and apart: "\<forall>b. covers e b \<or> b = 0xFFFFFFFF \<longrightarrow> (\<forall>x\<in>set (inode_exts fs ref). \<not> covers x b)"
    and np: "\<forall>x xs. inode_exts fs ref = x # xs \<longrightarrow> \<not> ext4_ext_can_prepend x e"
    and p: "0 < length p" "p_header (p ! 0) = In_Inode" "p_lb (p ! 0) = 0"
      "found_pos (inode_exts fs ref) (p_extent (p ! 0)) (ee_first_block e)"
  obtains p' ref' fs' where "ext4_ext_insert_extent p e False ref fs = (Ret (EOK, p'), ref', fs')" "extent_tree_ok fs' ref'"
    "\<And>b. maps (inode_exts fs' ref') b =
       (if covers e b then Some (block_in_extent e b, ext4_ext_is_unwritten e) else maps (inode_exts fs ref) b)"
proof -
  let ?bs = "root_bytes fs ref" and ?k = "p_extent (p ! 0)"
  let ?es = "leaf_exts ?bs"
  note ex = one_leaf(1) [OF assms(2)]
  have s: "ext_seq 0 (2 ^ 32) ?es" and hg: "header_good (fs_sb fs) 0 ?bs 0" using assms(1) one_leaf(2) [OF assms(2)] by simp_all
  have f: "node_fits ?bs" by (rule header_good_root [OF hg]) simp
  have ap: "\<forall>b. covers e b \<longrightarrow> (\<forall>x\<in>set ?es. \<not> covers x b)" and top: "\<forall>x\<in>set ?es. \<not> covers x 0xFFFFFFFF"
    using apart unfolding ex by blast+
  note fp = p(4) [unfolded ex]
  note gap = insert_pos_gap [OF s fp e(1) ap]
  have ne: "\<forall>j. ?k = Some j \<longrightarrow> ee_first_block (ext_n ?bs j) \<noteq> ee_first_block e" using gap(4) fp by (auto simp: found_pos_def)
  note after = one_leaf_after [OF assms(2) hg]
  show thesis
  proof (cases "\<exists>j x. ?k = Some j \<and> merge_extent (ext_n ?bs j) e = Some x")
    case True
    then obtain j x where j: "?k = Some j" "merge_extent (ext_n ?bs j) e = Some x" by blast
    have jl: "j < ents ?bs" and nj: "?es ! j = ext_n ?bs j" using fp j(1) by (simp_all add: found_pos_def)
    note m = merge_found [OF s fp [unfolded j(1)] e ap top np [unfolded ex] j(2) [folded nj]]
    obtain p' ref' fs' where r: "ext4_ext_insert_extent p e False ref fs = (Ret (EOK, p'), ref', fs')" "fs_sb fs' = fs_sb fs"
      "header_of (root_bytes fs' ref') = header_of ?bs" "leaf_exts (root_bytes fs' ref') = ?es[j := x]"
      using insert_merged [OF assms(3,2) f p(1-3) j(1) jl _ j(2)] ne j(1) by metis
    have c: "header_of (root_bytes fs' ref') = (header_of ?bs)\<lparr>eh_entries_count := eh_entries_count (header_of ?bs)\<rparr>"
      "eh_entries_count (header_of ?bs) \<le> eh_max_entries_count (header_of ?bs)"
      using r(3) hg by (simp_all add: header_good_def)
    show thesis using that [OF r(1)] after [OF r(2) c r(4) m(1)] m(2) unfolding ex by simp
  next
    case False
    let ?n = "insert_pos ?es ?k e"
    have room: "ents ?bs < unat (eh_max_entries_count (header_of ?bs))" using assms(4) ex by (simp add: root_max_def)
    obtain p' ref' fs' where r: "ext4_ext_insert_extent p e False ref fs = (Ret (EOK, p'), ref', fs')" "fs_sb fs' = fs_sb fs"
      "header_of (root_bytes fs' ref') = (header_of ?bs)\<lparr>eh_entries_count := eh_entries_count (header_of ?bs) + 1\<rparr>"
      "leaf_exts (root_bytes fs' ref') = take ?n ?es @ e # drop ?n ?es"
      using insert_fresh [OF assms(3,2) f p(1-3) fp ne _ room HOL.refl] False by auto
    have c: "eh_entries_count (header_of ?bs) + 1 \<le> eh_max_entries_count (header_of ?bs)"
      using room by (intro inc_le) (simp add: word_less_nat_alt)
    note m = seq_insert [OF s e(1) le0 less_imp_le [OF e(2)] gap(2,3)]
    show thesis using that [OF r(1)] after [OF r(2,3) c r(4) m(1)] m(2) unfolding ex by simp
  qed
qed


definition ext_one_example :: bytes where
  "ext_one_example = header_bytes \<lparr>eh_magic = EXT4_EXTENT_MAGIC, eh_entries_count = 1, eh_max_entries_count = 4,
     eh_depth = 0, eh_generation = 0\<rparr> @
     extent_bytes \<lparr>ee_first_block = 5, ee_block_count = 2, ee_start_hi = 0, ee_start_lo = 20\<rparr> @ replicate 36 0"

abbreviation one_extent :: ext4_extent where
  "one_extent \<equiv> \<lparr>ee_first_block = 5, ee_block_count = 2, ee_start_hi = 0, ee_start_lo = 20\<rparr>"

abbreviation one_example :: ext4_fs where
  "one_example \<equiv> ext_fs_example ext_one_example"

lemma one_example_root:
  "length ext_one_example = 60" "root_bytes one_example iref_example = ext_one_example"
  "header_of ext_one_example = \<lparr>eh_magic = EXT4_EXTENT_MAGIC, eh_entries_count = 1, eh_max_entries_count = 4, eh_depth = 0, eh_generation = 0\<rparr>"
  "tree_depth one_example iref_example = 0" "leaf_exts ext_one_example = [one_extent]"
proof -
  show l: "length ext_one_example = 60" by (simp add: ext_one_example_def)
  then show r: "root_bytes one_example iref_example = ext_one_example" by simp
  show h: "header_of ext_one_example = \<lparr>eh_magic = EXT4_EXTENT_MAGIC, eh_entries_count = 1, eh_max_entries_count = 4, eh_depth = 0, eh_generation = 0\<rparr>"
    by (simp add: ext_one_example_def header_of_app)
  show "tree_depth one_example iref_example = 0" by (simp add: tree_depth_def r h)
  have "ext_n ext_one_example 0 = one_extent" unfolding ext_one_example_def entry_off_def by (simp add: entry_of_app)
  then show "leaf_exts ext_one_example = [one_extent]" by (simp add: h)
qed

lemma one_example_tree: "inode_exts one_example iref_example = [one_extent]" "extent_tree_ok one_example iref_example"
  "root_max one_example iref_example = 4" "inode_whole one_example iref_example"
proof -
  note d = one_example_root(4)
  show "inode_exts one_example iref_example = [one_extent]" by (simp only: one_leaf(1) [OF d] one_example_root(2,5))
  show "extent_tree_ok one_example iref_example"
    unfolding one_leaf(2) [OF d] one_example_root(2,5) using max_entries(1) [of ext_sb_example 0]
    by (simp add: header_good_def one_example_root(3) ext4_ext_get_actual_len_def)
  show "root_max one_example iref_example = 4" by (simp add: root_max_def one_example_root(2,3))
  have l: "length (i_blocks (ext_inode_example r)) = 15" for r by (simp add: ext_inode_example_def)
  show "inode_whole one_example iref_example"
    using length_inode_bytes [OF l]
    by (simp add: inode_whole_def) (simp add: ext_fs_example_def iref_example_def ext_sb_example_def inode_store_def)
qed

lemma root_find:
  assumes "tree_depth fs ref = 0" "header_good (fs_sb fs) 0 (root_bytes fs ref) 0" "fs_answer fs (fs_calls fs) = EOK"
  obtains p n where "ext4_find_extent b None ref fs = (Ret (EOK, Some p), ref, fs\<lparr>fs_calls := n\<rparr>)"
proof -
  let ?bs = "root_bytes fs ref"
  have f: "node_fits ?bs" by (rule header_good_root [OF assms(2)]) simp
  have c: "ext4_ext_check (fs_sb fs) i g 0 ?bs 0 0 = Some EOK" for i g using check_root [of ?bs] assms(2) by simp
  have r: "ir_try (ir_bind mem_alloc (\<lambda>_. ir_return (new_path 0))) ref fs = (Ret (Inr (new_path 0)), ref, fs\<lparr>fs_calls := fs_calls fs + 1\<rparr>)"
    using assms(3) by (simp add: ir_try_def ir_bind_def mem_alloc_run ir_return_def)
  have l: "0 < length (new_path 0)" by (simp add: new_path_def)
  let ?q = "(new_path 0)[0 := (new_path 0 ! 0)\<lparr>p_header := In_Inode, p_lb := 0, p_dirty := False\<rparr>]"
  obtain p where "find_levels 0 0 0 b ?q ref (fs\<lparr>fs_calls := fs_calls fs + 1\<rparr>) = (Ret (EOK, Some p), ref, fs\<lparr>fs_calls := fs_calls fs + 1\<rparr>)"
    by (cases rule: search_extent [OF f, of b]) (use l in \<open>auto simp: ir_ret Let_def ir_return_def\<close>)
  then have "ext4_find_extent b None ref fs = (Ret (EOK, Some p), ref, fs\<lparr>fs_calls := fs_calls fs + 1\<rparr>)"
    using assms(1) c r l by (simp add: ext4_find_extent_def ir_ret Let_def reuse_path_def ir_return_def [of None] ir_return_def [of "Inr _"])
  then show thesis by (rule that)
qed


text \<open>C26: An extent that ends where the first extent of the tree begins, on the disk and in the file, is merged with it, and
  every block of that first extent is then mapped to another physical block, as far away as the new extent is
  long.\<close>

theorem extent_prepend_shifts:
  assumes "extent_tree_ok fs ref" "tree_depth fs ref = 0" "inode_whole fs ref" "inode_exts fs ref = x # xs"
    "ext4_ext_can_prepend x e" "1 \<le> unat (ext4_ext_get_actual_len e)"
    "unat (ee_first_block e) + unat (ext4_ext_get_actual_len e) < 2 ^ 32"
    "ext4_find_extent (ee_first_block e) None ref fs = (Ret (EOK, Some p), ref1, fs1)"
  shows "\<exists>p' ref' fs'. ext4_ext_insert_extent p e False ref1 fs1 = (Ret (EOK, p'), ref', fs') \<and>
    (\<forall>b. covers x b \<longrightarrow> maps (inode_exts fs ref) b = Some (block_in_extent x b, ext4_ext_is_unwritten x) \<and>
       maps (inode_exts fs' ref') b = Some (block_in_extent x b + ucast (ext4_ext_get_actual_len e), ext4_ext_is_unwritten x))"
proof -
  let ?bs = "root_bytes fs ref"
  note rp = root_path [OF assms(1,2,8)]
  obtain n where fs1: "fs1 = fs\<lparr>fs_calls := n\<rparr>" using rp(2) by blast
  note es = one_leaf(1) [OF assms(2), unfolded assms(4), symmetric]
  have s: "ext_seq 0 (2 ^ 32) (x # xs)" and hg: "header_good (fs_sb fs) 0 ?bs 0"
    using assms(1) es one_leaf(2) [OF assms(2)] by simp_all
  have f: "node_fits ?bs" by (rule header_good_root [OF hg]) simp
  have x: "1 \<le> ext_len x" "ext_first x + ext_len x \<le> 2 ^ 32" using s by (simp_all add: ext_seq_iff)
  note k = can_mergeD(2) [OF assms(5)]
  have xf: "ext_first x = ext_first e + ext_len e" using k sum_first [OF assms(7)] by simp
  have x0: "0 < ents ?bs" using arg_cong [OF es, of length] by simp
  then have x1: "ext_n ?bs 0 = x" using arg_cong [OF es, of "\<lambda>l. l ! 0"] by (simp del: upt_Suc)
  have k0: "p_extent (p ! 0) = Some 0"
  proof -
    obtain j where j: "p_extent (p ! 0) = Some j" "j < length (x # xs)" "j = 0 \<or> ext_first ((x # xs) ! j) \<le> ext_first e"
      using rp(6) unfolding es by (auto simp: found_pos_def word_le_nat_alt split: option.splits)
    have "ext_first x + ext_len x \<le> ext_first ((x # xs) ! j)" if "0 < j"
      using s j(2) that sorted_wrt_nth_less [of _ "x # xs" 0 j] unfolding ext_seq_iff by auto
    then show ?thesis using j xf assms(6) by fastforce
  qed
  let ?ex = "(add_len x e)\<lparr>ee_first_block := ee_first_block e\<rparr>"
  have w1: "inode_whole fs1 ref" "tree_depth fs1 ref = 0" "root_bytes fs1 ref = ?bs" using assms(2,3) by (simp_all add: fs1 inode_whole_def)
  have ne: "ee_first_block x \<noteq> ee_first_block e" using xf assms(6) by auto
  obtain p' ref' fs' where r: "ext4_ext_insert_extent p e False ref fs1 = (Ret (EOK, p'), ref', fs')" "fs_sb fs' = fs_sb fs1"
    "header_of (root_bytes fs' ref') = header_of ?bs" "leaf_exts (root_bytes fs' ref') = (leaf_exts ?bs)[0 := ?ex]"
    using insert_merged [OF w1(1,2) _ rp(3-5) k0, unfolded w1(3), OF f x0, unfolded x1, OF ne prepend_chosen [OF assms(5) x assms(6,7)]] by metis
  have d': "tree_depth fs' ref' = 0" using r(3) assms(2) by (simp add: tree_depth_def)
  have new: "inode_exts fs' ref' = ?ex # xs" using r(4) es by (simp add: one_leaf(1) [OF d'])
  have "maps (x # xs) b = Some (block_in_extent x b, ext4_ext_is_unwritten x)" if "covers x b" for b
    using that by (simp add: maps_def)
  moreover have "maps (?ex # xs) b = Some (block_in_extent x b + ucast (ext4_ext_get_actual_len e), ext4_ext_is_unwritten x)"
    if b: "covers x b" for b
  proof -
    have l: "ext_len ?ex = ext_len x + ext_len e" "ext4_ext_is_unwritten ?ex = ext4_ext_is_unwritten x"
      using add_len_props(1,2) [OF conjunct1 [OF conjunct2 [OF conjunct2 [OF k]]] x(1)] by simp_all
    then have "covers ?ex b" using b xf by (auto simp: covers_def)
    then show ?thesis using prepend_merge(2) [OF assms(5) x(1) b x(2) assms(7)] l(2) by (simp add: maps_def)
  qed
  ultimately show ?thesis using r(1) new unfolding rp(1) assms(4) by metis
qed

theorem extent_prepend_shifts_witness:
  "\<exists>p ref1 fs1 p' ref' fs'. ext4_find_extent 4 None iref_example one_example = (Ret (EOK, Some p), ref1, fs1) \<and>
    ext4_ext_insert_extent p \<lparr>ee_first_block = 4, ee_block_count = 1, ee_start_hi = 0, ee_start_lo = 19\<rparr> False ref1 fs1 =
      (Ret (EOK, p'), ref', fs') \<and>
    maps (inode_exts one_example iref_example) 5 = Some (20, False) \<and> maps (inode_exts fs' ref') 5 = Some (21, False)"
proof -
  let ?e = "\<lparr>ee_first_block = 4, ee_block_count = 1, ee_start_hi = 0, ee_start_lo = 19\<rparr>"
  have hg: "header_good (fs_sb one_example) 0 (root_bytes one_example iref_example) 0"
    using one_example_tree(2) one_leaf(2) [OF one_example_root(4)] by blast
  obtain p n where p: "ext4_find_extent 4 None iref_example one_example = (Ret (EOK, Some p), iref_example, one_example\<lparr>fs_calls := n\<rparr>)"
    by (rule root_find [OF one_example_root(4) hg]) simp
  have c: "covers one_extent 5" by (simp add: covers_def ext4_ext_get_actual_len_def)
  have "\<exists>p' ref' fs'. ext4_ext_insert_extent p ?e False iref_example (one_example\<lparr>fs_calls := n\<rparr>) = (Ret (EOK, p'), ref', fs') \<and>
      (\<forall>b. covers one_extent b \<longrightarrow> maps (inode_exts one_example iref_example) b =
         Some (block_in_extent one_extent b, ext4_ext_is_unwritten one_extent) \<and>
       maps (inode_exts fs' ref') b = Some (block_in_extent one_extent b + ucast (ext4_ext_get_actual_len ?e), ext4_ext_is_unwritten one_extent))"
    by (rule extent_prepend_shifts [OF one_example_tree(2) one_example_root(4) one_example_tree(4,1)])
      (use p in \<open>simp_all add: ext4_ext_get_actual_len_def ext4_ext_can_prepend_def Let_def ext4_ext_is_unwritten_def
         ext4_ext_pblock_def EXT_INIT_MAX_LEN_def\<close>)
  then obtain p' ref' fs' where i: "ext4_ext_insert_extent p ?e False iref_example (one_example\<lparr>fs_calls := n\<rparr>) = (Ret (EOK, p'), ref', fs')"
    "\<And>b. covers one_extent b \<Longrightarrow> maps (inode_exts one_example iref_example) b =
         Some (block_in_extent one_extent b, ext4_ext_is_unwritten one_extent) \<and>
       maps (inode_exts fs' ref') b = Some (block_in_extent one_extent b + ucast (ext4_ext_get_actual_len ?e), ext4_ext_is_unwritten one_extent)"
    by blast
  have "maps (inode_exts one_example iref_example) 5 = Some (20, False)" "maps (inode_exts fs' ref') 5 = Some (21, False)"
    using i(2) [OF c] by (simp_all add: block_in_extent_def ext4_ext_is_unwritten_def ext4_ext_pblock_def ext4_ext_get_actual_len_def)
  then show ?thesis using p i(1) by blast
qed

end
