(* ===== verification/Journal.thy ===== *)
theory Journal
  imports Extent_Tree
begin

unbundle bit_operations_syntax

text \<open>
  Recovery from the journal, the first half of \<^verbatim>\<open>ext4_journal.c\<close>: the journal superblock, the checksums of its
  blocks, the tags of a descriptor block, the revoke records, the read-ahead window over the log, the batch in
  which replayed blocks wait to be written, the walk over the log in its three passes and \<^verbatim>\<open>jbd_recover\<close>.  The
  journal is a file, so everything works on the reference of its inode; \<open>X\<close> is the extent tree.

  Fields of the journal are big-endian; the records here hold their values.  Buffers of the batch and the window
  hold blocks of \<^verbatim>\<open>bdev->lg_bsize\<close> bytes, which is the block size of the journal: \<^verbatim>\<open>jbd_get_fs\<close> refuses any other.
  Nothing writes a block of the journal while it is recovered, so a read past the cache sees what the cache would
  show.
\<close>

section \<open>Big-endian fields\<close>

definition get_be32 :: "bytes \<Rightarrow> nat \<Rightarrow> u32" where
  "get_be32 bs o1 = get_le32 (rev (take 4 (drop o1 bs))) 0"

definition be16 :: "u16 \<Rightarrow> bytes" where
  "be16 w = rev (le16 w)"

definition get_be16 :: "bytes \<Rightarrow> nat \<Rightarrow> u16" where
  "get_be16 bs o1 = get_le16 (rev (take 2 (drop o1 bs))) 0"

definition get_be64 :: "bytes \<Rightarrow> nat \<Rightarrow> u64" where
  "get_be64 bs o1 = push_bit 32 (ucast (get_be32 bs o1)) OR ucast (get_be32 bs (o1 + 4))"

definition get_le64 :: "bytes \<Rightarrow> nat \<Rightarrow> u64" where
  "get_le64 bs o1 = ucast (get_le32 bs o1) OR push_bit 32 (ucast (get_le32 bs (o1 + 4)))"

text \<open>\<^verbatim>\<open>to_be32\<close> on a little-endian host.\<close>

definition bswap32 :: "u32 \<Rightarrow> u32" where
  "bswap32 w = get_le32 (be32 w) 0"

text \<open>Checked access.\<close>

definition ldb32 :: "bytes \<Rightarrow> nat \<Rightarrow> u32 option" where
  "ldb32 bs o1 = (if o1 + 4 \<le> length bs then Some (get_be32 bs o1) else None)"

definition ldb16 :: "bytes \<Rightarrow> nat \<Rightarrow> u16 option" where
  "ldb16 bs o1 = (if o1 + 2 \<le> length bs then Some (get_be16 bs o1) else None)"

text \<open>The superblock of the volume as it is read back from its bytes.\<close>

definition sblock_of_bytes :: "bytes \<Rightarrow> ext4_sblock" where
  "sblock_of_bytes bs = \<lparr>s_inodes_count = get_le32 bs 0,
     s_blocks_count_lo = get_le32 bs 4,
     s_reserved_blocks_count_lo = get_le32 bs 8,
     s_free_blocks_count_lo = get_le32 bs 12,
     s_free_inodes_count = get_le32 bs 16,
     s_first_data_block = get_le32 bs 20,
     s_log_block_size = get_le32 bs 24,
     s_log_cluster_size = get_le32 bs 28,
     s_blocks_per_group = get_le32 bs 32,
     s_frags_per_group = get_le32 bs 36,
     s_inodes_per_group = get_le32 bs 40,
     s_mount_time = get_le32 bs 44,
     s_write_time = get_le32 bs 48,
     s_mount_count = get_le16 bs 52,
     s_max_mount_count = get_le16 bs 54,
     s_magic = get_le16 bs 56,
     s_state = get_le16 bs 58,
     s_errors = get_le16 bs 60,
     s_minor_rev_level = get_le16 bs 62,
     s_last_check_time = get_le32 bs 64,
     s_check_interval = get_le32 bs 68,
     s_creator_os = get_le32 bs 72,
     s_rev_level = get_le32 bs 76,
     s_def_resuid = get_le16 bs 80,
     s_def_resgid = get_le16 bs 82,
     s_first_inode = get_le32 bs 84,
     s_inode_size = get_le16 bs 88,
     s_block_group_index = get_le16 bs 90,
     s_features_compatible = get_le32 bs 92,
     s_features_incompatible = get_le32 bs 96,
     s_features_read_only = get_le32 bs 100,
     s_uuid = take 16 (drop 104 bs),
     s_volume_name = take 16 (drop 120 bs),
     s_last_mounted = take 64 (drop 136 bs),
     s_algorithm_usage_bitmap = get_le32 bs 200,
     s_prealloc_blocks = bs ! 204,
     s_prealloc_dir_blocks = bs ! 205,
     s_reserved_gdt_blocks = get_le16 bs 206,
     s_journal_uuid = take 16 (drop 208 bs),
     s_journal_inode_number = get_le32 bs 224,
     s_journal_dev = get_le32 bs 228,
     s_last_orphan = get_le32 bs 232,
     s_hash_seed = map (\<lambda>k. get_le32 bs (236 + 4 * k)) [0..<4],
     s_default_hash_version = bs ! 252,
     s_journal_backup_type = bs ! 253,
     s_desc_size = get_le16 bs 254,
     s_default_mount_opts = get_le32 bs 256,
     s_first_meta_bg = get_le32 bs 260,
     s_mkfs_time = get_le32 bs 264,
     s_journal_blocks = map (\<lambda>k. get_le32 bs (268 + 4 * k)) [0..<17],
     s_blocks_count_hi = get_le32 bs 336,
     s_reserved_blocks_count_hi = get_le32 bs 340,
     s_free_blocks_count_hi = get_le32 bs 344,
     s_min_extra_isize = get_le16 bs 348,
     s_want_extra_isize = get_le16 bs 350,
     s_flags = get_le32 bs 352,
     s_raid_stride = get_le16 bs 356,
     s_mmp_interval = get_le16 bs 358,
     s_mmp_block = get_le64 bs 360,
     s_raid_stripe_width = get_le32 bs 368,
     s_log_groups_per_flex = bs ! 372,
     s_checksum_type = bs ! 373,
     s_reserved_pad = get_le16 bs 374,
     s_kbytes_written = get_le64 bs 376,
     s_snapshot_inum = get_le32 bs 384,
     s_snapshot_id = get_le32 bs 388,
     s_snapshot_r_blocks_count = get_le64 bs 392,
     s_snapshot_list = get_le32 bs 400,
     s_error_count = get_le32 bs 404,
     s_first_error_time = get_le32 bs 408,
     s_first_error_ino = get_le32 bs 412,
     s_first_error_block = get_le64 bs 416,
     s_first_error_func = take 32 (drop 424 bs),
     s_first_error_line = get_le32 bs 456,
     s_last_error_time = get_le32 bs 460,
     s_last_error_ino = get_le32 bs 464,
     s_last_error_line = get_le32 bs 468,
     s_last_error_block = get_le64 bs 472,
     s_last_error_func = take 32 (drop 480 bs),
     s_mount_opts = take 64 (drop 512 bs),
     s_usr_quota_inum = get_le32 bs 576,
     s_grp_quota_inum = get_le32 bs 580,
     s_overhead_clusters = get_le32 bs 584,
     s_backup_bgs = map (\<lambda>k. get_le32 bs (588 + 4 * k)) [0..<2],
     s_encrypt_algos = take 4 (drop 596 bs),
     s_encrypt_pw_salt = take 16 (drop 600 bs),
     s_lpf_ino = get_le32 bs 616,
     s_prj_quota_inum = get_le32 bs 620,
     s_checksum_seed = get_le32 bs 624,
     s_padding = map (\<lambda>k. get_le32 bs (628 + 4 * k)) [0..<98],
     s_checksum = get_le32 bs 1020\<rparr>"

section \<open>The journal superblock\<close>

record jbd_sb =
  js_magic :: u32
  js_blocktype :: u32
  js_hdr_sequence :: u32
  js_blocksize :: u32
  js_maxlen :: u32
  js_first :: u32
  js_sequence :: u32
  js_start :: u32
  js_error_val :: u32
  js_feature_compat :: u32
  js_feature_incompat :: u32
  js_feature_ro_compat :: u32
  js_uuid :: bytes
  js_nr_users :: u32
  js_dynsuper :: u32
  js_max_transaction :: u32
  js_max_trandata :: u32
  js_checksum_type :: u8
  js_padding :: bytes
  js_checksum :: u32
  js_users :: bytes

definition jbd_sb_bytes :: "jbd_sb \<Rightarrow> bytes" where
  "jbd_sb_bytes s =
     be32 (js_magic s) @ be32 (js_blocktype s) @ be32 (js_hdr_sequence s) @ be32 (js_blocksize s) @
     be32 (js_maxlen s) @ be32 (js_first s) @ be32 (js_sequence s) @ be32 (js_start s) @ be32 (js_error_val s) @
     be32 (js_feature_compat s) @ be32 (js_feature_incompat s) @ be32 (js_feature_ro_compat s) @ js_uuid s @
     be32 (js_nr_users s) @ be32 (js_dynsuper s) @ be32 (js_max_transaction s) @ be32 (js_max_trandata s) @
     [js_checksum_type s] @ js_padding s @ be32 (js_checksum s) @ js_users s"

definition jbd_sb_of_bytes :: "bytes \<Rightarrow> jbd_sb" where
  "jbd_sb_of_bytes bs =
     \<lparr>js_magic = get_be32 bs 0, js_blocktype = get_be32 bs 4, js_hdr_sequence = get_be32 bs 8,
      js_blocksize = get_be32 bs 12, js_maxlen = get_be32 bs 16, js_first = get_be32 bs 20,
      js_sequence = get_be32 bs 24, js_start = get_be32 bs 28, js_error_val = get_be32 bs 32,
      js_feature_compat = get_be32 bs 36, js_feature_incompat = get_be32 bs 40, js_feature_ro_compat = get_be32 bs 44,
      js_uuid = take 16 (drop 48 bs), js_nr_users = get_be32 bs 64, js_dynsuper = get_be32 bs 68,
      js_max_transaction = get_be32 bs 72, js_max_trandata = get_be32 bs 76, js_checksum_type = bs ! 80,
      js_padding = take 171 (drop 81 bs), js_checksum = get_be32 bs 252, js_users = take 768 (drop 256 bs)\<rparr>"

definition JBD_MAGIC_NUMBER :: u32 where "JBD_MAGIC_NUMBER = 0xC03B3998"
definition JBD_DESCRIPTOR_BLOCK :: u32 where "JBD_DESCRIPTOR_BLOCK = 1"
definition JBD_COMMIT_BLOCK :: u32 where "JBD_COMMIT_BLOCK = 2"
definition JBD_SUPERBLOCK :: u32 where "JBD_SUPERBLOCK = 3"
definition JBD_SUPERBLOCK_V2 :: u32 where "JBD_SUPERBLOCK_V2 = 4"
definition JBD_REVOKE_BLOCK :: u32 where "JBD_REVOKE_BLOCK = 5"

definition JBD_FEATURE_COMPAT_CHECKSUM :: u32 where "JBD_FEATURE_COMPAT_CHECKSUM = 1"
definition JBD_FEATURE_INCOMPAT_64BIT :: u32 where "JBD_FEATURE_INCOMPAT_64BIT = 2"
definition JBD_FEATURE_INCOMPAT_CSUM_V2 :: u32 where "JBD_FEATURE_INCOMPAT_CSUM_V2 = 8"
definition JBD_FEATURE_INCOMPAT_CSUM_V3 :: u32 where "JBD_FEATURE_INCOMPAT_CSUM_V3 = 16"

text \<open>The macro compares the block type as it lies in memory.\<close>

definition jbd_has_incompat :: "jbd_sb \<Rightarrow> u32 \<Rightarrow> bool" where
  "jbd_has_incompat s m \<longleftrightarrow> bswap32 2 \<le> bswap32 (js_blocktype s) \<and> js_feature_incompat s AND m \<noteq> 0"

definition jbd_has_csum :: "jbd_sb \<Rightarrow> nat" where
  "jbd_has_csum s = (if jbd_has_incompat s JBD_FEATURE_INCOMPAT_CSUM_V2 then 2
     else if jbd_has_incompat s JBD_FEATURE_INCOMPAT_CSUM_V3 then 3 else 0)"

definition jbd_sb_csum :: "jbd_sb \<Rightarrow> u32" where
  "jbd_sb_csum s = (if jbd_has_csum s \<noteq> 0 then ext4_crc32c EXT4_CRC32_INIT (jbd_sb_bytes (s\<lparr>js_checksum := 0\<rparr>)) else 0)"

definition jbd_sb_csum_set :: "jbd_sb \<Rightarrow> jbd_sb" where
  "jbd_sb_csum_set s = (if jbd_has_csum s = 0 then s else s\<lparr>js_checksum := jbd_sb_csum s\<rparr>)"

definition jbd_verify_sb_csum :: "jbd_sb \<Rightarrow> bool" where
  "jbd_verify_sb_csum s \<longleftrightarrow> (if jbd_has_csum s = 0 then True else jbd_sb_csum s = js_checksum s)"

definition jbd_verify_sb :: "jbd_sb \<Rightarrow> bool" where
  "jbd_verify_sb s \<longleftrightarrow>
     (if js_magic s \<noteq> JBD_MAGIC_NUMBER then False
      else if js_blocktype s \<noteq> JBD_SUPERBLOCK \<and> js_blocktype s \<noteq> JBD_SUPERBLOCK_V2 then False
      else jbd_verify_sb_csum s)"

section \<open>Checksums of journal blocks\<close>

text \<open>They read \<^verbatim>\<open>blocksize\<close> bytes of the buffer; more than it has is an access outside it.\<close>

definition jbd_meta_csum :: "jbd_sb \<Rightarrow> bytes \<Rightarrow> u32 option" where
  "jbd_meta_csum s b =
     (if jbd_has_csum s = 0 then Some 0
      else
        let n = unat (js_blocksize s)
        in if n < 4 \<or> length b < n then None
           else Some (ext4_crc32c (ext4_crc32c EXT4_CRC32_INIT (js_uuid s)) (take n (put_bytes b (n - 4) (be32 0)))))"

definition jbd_meta_csum_set :: "jbd_sb \<Rightarrow> bytes \<Rightarrow> bytes option" where
  "jbd_meta_csum_set s b =
     (if jbd_has_csum s = 0 then Some b
      else map_option (\<lambda>c. put_bytes b (unat (js_blocksize s) - 4) (be32 c)) (jbd_meta_csum s b))"

definition jbd_verify_meta_csum :: "jbd_sb \<Rightarrow> bytes \<Rightarrow> bool option" where
  "jbd_verify_meta_csum s b =
     (if jbd_has_csum s = 0 then Some True
      else map_option (\<lambda>c. c = get_be32 b (unat (js_blocksize s) - 4)) (jbd_meta_csum s b))"

text \<open>The commit header has its checksum type and size in bytes 12 and 13 and its first checksum in bytes 16
  to 19; all of them count as zero.\<close>

definition jbd_commit_csum :: "jbd_sb \<Rightarrow> bytes \<Rightarrow> u32 option" where
  "jbd_commit_csum s b =
     (if jbd_has_csum s = 0 then Some 0
      else
        let n = unat (js_blocksize s)
        in if length b < n \<or> length b < 20 then None
           else Some (ext4_crc32c (ext4_crc32c EXT4_CRC32_INIT (js_uuid s))
                  (take n (put_bytes (put_bytes b 12 [0, 0]) 16 (be32 0)))))"

definition jbd_commit_csum_set :: "jbd_sb \<Rightarrow> bytes \<Rightarrow> bytes option" where
  "jbd_commit_csum_set s b =
     (if jbd_has_csum s = 0 then Some b
      else
        let b = put_bytes b 12 [0, 0]
        in map_option (\<lambda>c. put_bytes b 16 (be32 c)) (jbd_commit_csum s b))"

definition jbd_verify_commit_csum :: "jbd_sb \<Rightarrow> bytes \<Rightarrow> bool option" where
  "jbd_verify_commit_csum s b =
     (if jbd_has_csum s = 0 then Some True
      else map_option (\<lambda>c. get_be32 b 16 = c) (jbd_commit_csum s b))"

text \<open>The checksum of a logged block, for its tag.  Without the checksum features the running CRC over all blocks
  of the transaction is kept when the bit of \<^verbatim>\<open>JBD_FEATURE_COMPAT_CHECKSUM\<close> is set among the incompatible
  features.\<close>

definition jbd_block_csum :: "jbd_sb \<Rightarrow> bytes \<Rightarrow> u32 \<Rightarrow> u32 \<Rightarrow> u32 option" where
  "jbd_block_csum s b csum sequence =
     (let n = unat (js_blocksize s)
      in if jbd_has_csum s \<noteq> 0 then
           if length b < n then None
           else Some (ext4_crc32c (ext4_crc32c (ext4_crc32c EXT4_CRC32_INIT (js_uuid s)) (be32 sequence)) (take n b))
         else if jbd_has_incompat s JBD_FEATURE_COMPAT_CHECKSUM then
           if length b < n then None else Some (ext4_crc32 csum (take n b))
         else Some 0)"

section \<open>Tags of a descriptor block\<close>

definition UUID_SIZE :: nat where "UUID_SIZE = 16"

definition jbd_tag_bytes :: "jbd_sb \<Rightarrow> nat" where
  "jbd_tag_bytes s =
     (if jbd_has_incompat s JBD_FEATURE_INCOMPAT_CSUM_V3 then 16
      else
        let size = (if jbd_has_incompat s JBD_FEATURE_INCOMPAT_CSUM_V2 then 14 else 12)
        in if jbd_has_incompat s JBD_FEATURE_INCOMPAT_64BIT then size else size - 4)"

record tag_info =
  t_tag_bytes :: nat
  t_block :: u64
  t_is_escape :: bool
  t_uuid_exist :: bool
  t_uuid :: bytes
  t_last_tag :: bool
  t_checksum :: u32

definition JBD_FLAG_ESCAPE :: u32 where "JBD_FLAG_ESCAPE = 1"
definition JBD_FLAG_SAME_UUID :: u32 where "JBD_FLAG_SAME_UUID = 2"
definition JBD_FLAG_LAST_TAG :: u32 where "JBD_FLAG_LAST_TAG = 8"

text \<open>The flags, 32 bits behind the block number with the third version of the checksums and 16 bits behind its
  16-bit checksum otherwise.\<close>

definition tag_flags :: "jbd_sb \<Rightarrow> bytes \<Rightarrow> nat \<Rightarrow> u32 option" where
  "tag_flags s b off =
     (if jbd_has_incompat s JBD_FEATURE_INCOMPAT_CSUM_V3 then ldb32 b (off + 4) else map_option ucast (ldb16 b (off + 6)))"

definition tag_block :: "jbd_sb \<Rightarrow> bytes \<Rightarrow> nat \<Rightarrow> u64 option" where
  "tag_block s b off =
     Option.bind (ldb32 b off) (\<lambda>lo.
     if jbd_has_incompat s JBD_FEATURE_INCOMPAT_64BIT
     then map_option (\<lambda>hi. ucast lo OR push_bit 32 (ucast hi)) (ldb32 b (off + 8)) else Some (ucast lo))"

text \<open>The tag at offset \<open>off\<close> of the block, in a table of which \<open>remain\<close> bytes are left.  The UUID field of the
  result is only set when there is one.\<close>

definition jbd_extract_block_tag :: "jbd_sb \<Rightarrow> bytes \<Rightarrow> nat \<Rightarrow> nat \<Rightarrow> int \<Rightarrow> (errno + tag_info) option" where
  "jbd_extract_block_tag s b off tag_bytes remain =
     (if remain - int tag_bytes < 0 then Some (Inl EINVAL)
      else
        Option.bind (tag_block s b off) (\<lambda>block.
        Option.bind (tag_flags s b off) (\<lambda>flags.
        let info = \<lparr>t_tag_bytes = tag_bytes, t_block = block, t_is_escape = flags AND JBD_FLAG_ESCAPE \<noteq> 0,
              t_uuid_exist = False, t_uuid = [], t_last_tag = flags AND JBD_FLAG_LAST_TAG \<noteq> 0, t_checksum = 0\<rparr>
        in if flags AND JBD_FLAG_SAME_UUID = 0 then
             if remain - int tag_bytes < int UUID_SIZE then Some (Inl EINVAL)
             else map_option (\<lambda>u. Inr (info\<lparr>t_uuid_exist := True, t_tag_bytes := tag_bytes + UUID_SIZE, t_uuid := u\<rparr>))
                    (ldn b (off + tag_bytes) UUID_SIZE)
           else Some (Inr info))))"

text \<open>Writing a tag: the structure is cleared, then filled; an error leaves what is written so far.  Setting flags
  reads them back.\<close>

definition put_flags :: "jbd_sb \<Rightarrow> nat \<Rightarrow> u32 \<Rightarrow> bytes \<Rightarrow> bytes option" where
  "put_flags s off v b =
     (if jbd_has_incompat s JBD_FEATURE_INCOMPAT_CSUM_V3
      then Option.bind (ldb32 b (off + 4)) (\<lambda>f. wrn b (off + 4) (be32 (f OR v)))
      else Option.bind (ldb16 b (off + 6)) (\<lambda>f. wrn b (off + 6) (be16 (f OR ucast v))))"

text \<open>The 16-bit checksum keeps the first half of the big-endian word.\<close>

definition jbd_block_tag_csum_set :: "jbd_sb \<Rightarrow> nat \<Rightarrow> u32 \<Rightarrow> bytes \<Rightarrow> bytes option" where
  "jbd_block_tag_csum_set s off checksum b =
     (if jbd_has_csum s = 0 then Some b
      else if jbd_has_csum s = 2 then wrn b (off + 4) (le16 (ucast (bswap32 checksum)))
      else wrn b (off + 12) (be32 checksum))"

definition tag_place :: "jbd_sb \<Rightarrow> nat \<Rightarrow> u64 \<Rightarrow> bytes \<Rightarrow> bytes option" where
  "tag_place s off block b =
     Option.bind (wrn b off (replicate (if jbd_has_incompat s JBD_FEATURE_INCOMPAT_CSUM_V3 then 16 else 12) 0)) (\<lambda>b.
     Option.bind (wrn b off (be32 (ucast block))) (\<lambda>b.
     if jbd_has_incompat s JBD_FEATURE_INCOMPAT_64BIT then wrn b (off + 8) (be32 (ucast (drop_bit 32 block))) else Some b))"

definition jbd_write_block_tag :: "jbd_sb \<Rightarrow> bytes \<Rightarrow> nat \<Rightarrow> int \<Rightarrow> tag_info \<Rightarrow> (errno \<times> bytes \<times> tag_info) option" where
  "jbd_write_block_tag s b off remain t =
     (let tag_bytes = jbd_tag_bytes s; t = t\<lparr>t_tag_bytes := tag_bytes\<rparr>
      in if remain - int tag_bytes < 0 then Some (EINVAL, b, t)
         else
           Option.bind (tag_place s off (t_block t) b) (\<lambda>b.
           if t_uuid_exist t \<and> remain - int tag_bytes < int UUID_SIZE then Some (EINVAL, b, t)
           else
             Option.bind (if t_uuid_exist t then wrn b (off + tag_bytes) (t_uuid t)
                          else put_flags s off JBD_FLAG_SAME_UUID b) (\<lambda>b.
             let t = (if t_uuid_exist t then t\<lparr>t_tag_bytes := tag_bytes + UUID_SIZE\<rparr> else t)
             in Option.bind (jbd_block_tag_csum_set s off (t_checksum t) b) (\<lambda>b.
                Option.bind (if t_last_tag t then put_flags s off JBD_FLAG_LAST_TAG b else Some b) (\<lambda>b.
                Option.bind (if t_is_escape t then put_flags s off JBD_FLAG_ESCAPE b else Some b) (\<lambda>b.
                Some (EOK, b, t)))))))"

section \<open>The state of a recovery\<close>

record jbd_fs =
  jf_sb :: jbd_sb
  jf_dirty :: bool

record jbd_replay_wnd =
  wn_data :: "bytes list"
  wn_first :: u32
  wn_cnt :: u32
  wn_cap :: u32

text \<open>The batch: target blocks and data in the order of arrival.\<close>

record jbd_replay_wb =
  wb_recs :: "(u64 \<times> bytes) list"
  wb_cap :: nat
  wb_checkpoint :: bool

record recover_info =
  ri_start_trans_id :: u32
  ri_last_trans_id :: u32
  ri_this_trans_id :: u32
  ri_trans_cnt :: u32
  ri_revoke_block_cnt :: u32
  ri_blocks_replayed :: u32
  ri_revoke_root :: "u64 \<Rightarrow> u32 option"
  ri_wnd :: "jbd_replay_wnd option"
  ri_wb :: "jbd_replay_wb option"
  ri_rc :: errno

record jbd_recovery =
  rc_trans_replayed :: u32
  rc_blocks_replayed :: u32
  rc_log_blocks :: u32

datatype log_action = ACTION_SCAN | ACTION_REVOKE | ACTION_RECOVER

definition jbd_wrap :: "jbd_sb \<Rightarrow> u32 \<Rightarrow> u32" where
  "jbd_wrap s v = (if js_maxlen s \<le> v then v - (js_maxlen s - js_first s) else v)"

definition trans_id_diff :: "u32 \<Rightarrow> u32 \<Rightarrow> int" where
  "trans_id_diff x y = sint (x - y)"

section \<open>Blocks of the journal and of the volume\<close>

definition jbd_inode_bmap :: "extent_ops \<Rightarrow> u32 \<Rightarrow> u64 irm" where
  "jbd_inode_bmap X iblock = ext4_fs_get_inode_dblk_idx X iblock False"

text \<open>A block of the log through the cache; block 0 of the journal is refused.\<close>

definition jbd_block_get :: "extent_ops \<Rightarrow> u32 \<Rightarrow> u64 irm" where
  "jbd_block_get X iblock =
     (if iblock = 0 then ir_fail ENOSPC
      else ir_bind (jbd_inode_bmap X iblock) (\<lambda>fblock. ir_lift (ext4_trans_block_get fblock)))"

definition jbd_block_get_noread :: "extent_ops \<Rightarrow> u32 \<Rightarrow> u64 irm" where
  "jbd_block_get_noread X iblock =
     (if iblock = 0 then ir_fail ENOSPC
      else ir_bind (jbd_inode_bmap X iblock) (\<lambda>fblock. ir_lift (ext4_trans_block_get_noread fblock)))"

definition jbd_block_set :: "u64 \<Rightarrow> unit irm" where
  "jbd_block_set b = ir_lift (blk_release b)"

text \<open>Reads and writes past the cache compute a byte address with 64 bits and check nothing, so a block number
  that is too large reaches the device as the block \<open>direct_block\<close>.\<close>

definition direct_block :: "u32 \<Rightarrow> u64 \<Rightarrow> u64" where
  "direct_block bsize lba = (lba * ucast bsize) div ucast bsize"

text \<open>What a write past the cache leaves: \<open>v\<close> is what readers see of the block afterwards and \<open>m\<close> what is on the
  medium.  The superblock lies in bytes 1024 to 2047 of the device, so a block that holds them brings its own
  copy.\<close>

definition medium_put :: "u32 \<Rightarrow> u64 \<Rightarrow> bytes \<Rightarrow> bytes \<Rightarrow> ext4_fs \<Rightarrow> ext4_fs" where
  "medium_put bsize l v m fs =
     (let fs' = fs\<lparr>fs_blk := (fs_blk fs)(l := v)\<rparr>
      in if 1024 < bsize \<and> l = 0 then fs'\<lparr>fs_disk_sb := sblock_of_bytes (take 1024 (drop 1024 m))\<rparr>
         else if bsize = 1024 \<and> l = 1 then fs'\<lparr>fs_disk_sb := sblock_of_bytes (take 1024 m)\<rparr>
         else fs')"

fun medium_puts :: "u32 \<Rightarrow> u64 \<Rightarrow> (bytes \<times> bytes) list \<Rightarrow> ext4_fs \<Rightarrow> ext4_fs" where
  "medium_puts bsize l [] fs = fs"
| "medium_puts bsize l ((v, m) # bs) fs = medium_puts bsize (l + 1) bs (medium_put bsize l v m fs)"

text \<open>\<^verbatim>\<open>ext4_blocks_set_direct\<close> together with the update of resident copies before it.  A write that fails leaves
  in each block the new contents or anything else.  During a checkpoint a dirty resident copy keeps its
  contents.\<close>

definition blocks_set_direct :: "u32 \<Rightarrow> bool \<Rightarrow> u64 \<Rightarrow> bytes list \<Rightarrow> unit fsm" where
  "blocks_set_direct bsize checkpoint lba bs fs =
     (let to = direct_block bsize lba;
          see = (\<lambda>i. if checkpoint \<and> fs_was_dirty fs (fs_calls fs) (to + of_nat i) then fs_blk fs (to + of_nat i) else bs ! i);
          torn = (\<lambda>i x. case fs_stale fs (fs_calls fs) (to + of_nat i) of None \<Rightarrow> x | Some b \<Rightarrow> b)
      in case fs_ask fs of
           (Ret _, fs') \<Rightarrow> (Ret (), medium_puts bsize to (map (\<lambda>i. (see i, bs ! i)) [0..<length bs]) fs')
         | (Err e, fs') \<Rightarrow> (Err e, medium_puts bsize to (map (\<lambda>i. (torn i (see i), torn i (bs ! i))) [0..<length bs]) fs')
         | (Crash, fs') \<Rightarrow> (Crash, fs'))"

section \<open>The read-ahead window\<close>

text \<open>The longest run of journal blocks from \<open>iblock\<close> that lies at consecutive physical blocks from \<open>fblock\<close>; a
  lookup that fails ends it.\<close>

fun wnd_run :: "extent_ops \<Rightarrow> u32 \<Rightarrow> u64 \<Rightarrow> nat \<Rightarrow> u32 \<Rightarrow> u32 irm" where
  "wnd_run X iblock fblock 0 run = ir_return run"
| "wnd_run X iblock fblock (Suc n) run =
     ir_bind (ir_try (jbd_inode_bmap X (iblock + run))) (\<lambda>r.
     case r of Inl _ \<Rightarrow> ir_return run
     | Inr next \<Rightarrow> if next \<noteq> fblock + ucast run then ir_return run else wnd_run X iblock fblock n (run + 1))"

text \<open>Fill the window; a read that fails may leave anything in its buffer.\<close>

definition wnd_fill :: "jbd_replay_wnd \<Rightarrow> u32 \<Rightarrow> u32 \<Rightarrow> u64 \<Rightarrow> u32 \<Rightarrow> (errno \<times> jbd_replay_wnd) fsm" where
  "wnd_fill w bsize iblock fblock run fs =
     (let from = direct_block bsize fblock;
          blocks = map (\<lambda>i. fs_blk fs (from + of_nat i)) [0..<unat run];
          junk = map (\<lambda>i. case fs_stale fs (fs_calls fs) (from + of_nat i) of None \<Rightarrow> wn_data w ! i | Some b \<Rightarrow> b)
                   [0..<length (wn_data w)]
      in case fs_ask fs of
           (Ret _, fs') \<Rightarrow> (Ret (EOK, w\<lparr>wn_data := blocks, wn_first := iblock, wn_cnt := run\<rparr>), fs')
         | (Err e, fs') \<Rightarrow> (Ret (e, w\<lparr>wn_data := junk\<rparr>), fs')
         | (Crash, fs') \<Rightarrow> (Crash, fs'))"

definition jbd_replay_wnd_read :: "extent_ops \<Rightarrow> jbd_sb \<Rightarrow> jbd_replay_wnd \<Rightarrow> u32 \<Rightarrow> ((errno + bytes) \<times> jbd_replay_wnd) irm" where
  "jbd_replay_wnd_read X s w iblock =
     (if wn_cnt w \<noteq> 0 \<and> wn_first w \<le> iblock \<and> iblock - wn_first w < wn_cnt w
      then ir_bind (ir_mem (if unat (iblock - wn_first w) < length (wn_data w)
                            then Some (wn_data w ! unat (iblock - wn_first w)) else None)) (\<lambda>b. ir_return (Inr b, w))
      else
        let want = js_maxlen s - iblock; want = (if wn_cap w < want then wn_cap w else want)
        in if want = 0 then ir_return (Inl EINVAL, w)
           else
             ir_bind (ir_try (jbd_inode_bmap X iblock)) (\<lambda>r.
             case r of Inl e \<Rightarrow> ir_return (Inl e, w)
             | Inr fblock \<Rightarrow>
                 ir_bind (wnd_run X iblock fblock (unat want - 1) 1) (\<lambda>run.
                 ir_bind (ir_lift (wnd_fill w (js_blocksize s) iblock fblock run)) (\<lambda>(e, w).
                 if e \<noteq> EOK then ir_return (Inl e, w)
                 else ir_bind (ir_mem (case wn_data w of [] \<Rightarrow> None | b # _ \<Rightarrow> Some b)) (\<lambda>b. ir_return (Inr b, w))))))"

definition JBD_REPLAY_WND_BYTES :: u32 where "JBD_REPLAY_WND_BYTES = 1048576"

definition jbd_replay_wnd_new :: "jbd_sb \<Rightarrow> u32 \<Rightarrow> jbd_replay_wnd option irm" where
  "jbd_replay_wnd_new s cap_hint =
     (if js_blocksize s = 0 then ir_crash
      else
        let cap = JBD_REPLAY_WND_BYTES div js_blocksize s;
            cap = (if cap_hint \<noteq> 0 \<and> cap_hint < cap then cap_hint else cap)
        in if cap = 0 then ir_return None
           else ir_bind (ir_try mem_alloc) (\<lambda>r. ir_return (case r of Inl _ \<Rightarrow> None
             | Inr _ \<Rightarrow> Some \<lparr>wn_data = [], wn_first = 0, wn_cnt = 0, wn_cap = cap\<rparr>)))"

section \<open>The batch of replayed blocks\<close>

text \<open>\<^verbatim>\<open>jbd_wb_cmp\<close> orders by target block and then by arrival: a stable sort by target block.  Of the copies of
  a block only the last is kept.\<close>

fun keep_newest :: "(u64 \<times> 'b) list \<Rightarrow> (u64 \<times> 'b) list" where
  "keep_newest (x # y # r) = (if fst y = fst x then keep_newest (y # r) else x # keep_newest (y # r))"
| "keep_newest r = r"

definition wb_order :: "(u64 \<times> 'b) list \<Rightarrow> (u64 \<times> 'b) list" where
  "wb_order recs = keep_newest (sort_key fst recs)"

text \<open>How many of the following blocks continue the run.\<close>

fun run_tail :: "u64 \<Rightarrow> (u64 \<times> 'b) list \<Rightarrow> nat" where
  "run_tail l [] = 0"
| "run_tail l (x # xs) = (if fst x = l + 1 then Suc (run_tail (l + 1) xs) else 0)"

function write_runs :: "u32 \<Rightarrow> bool \<Rightarrow> (u64 \<times> bytes) list \<Rightarrow> unit irm" where
  "write_runs bsize checkpoint [] = ir_return ()"
| "write_runs bsize checkpoint (x # xs) =
     (let n = run_tail (fst x) xs
      in ir_bind (ir_lift (blocks_set_direct bsize checkpoint (fst x) (map snd (x # take n xs)))) (\<lambda>_.
         write_runs bsize checkpoint (drop n xs)))"
  by pat_completeness auto
termination by (relation "measure (\<lambda>(_, _, xs). length xs)") auto

text \<open>Whatever happens after the memory for the order is there, the batch is empty afterwards.\<close>

definition jbd_replay_wb_flush :: "jbd_sb \<Rightarrow> jbd_replay_wb \<Rightarrow> (errno \<times> jbd_replay_wb) irm" where
  "jbd_replay_wb_flush s wb =
     (if wb_recs wb = [] then ir_return (EOK, wb)
      else
        ir_bind (ir_try mem_alloc) (\<lambda>r.
        case r of Inl e \<Rightarrow> ir_return (e, wb)
        | Inr _ \<Rightarrow>
            ir_bind (ir_try (write_runs (js_blocksize s) (wb_checkpoint wb) (wb_order (wb_recs wb)))) (\<lambda>r.
            ir_return (case r of Inl e \<Rightarrow> e | Inr _ \<Rightarrow> EOK, wb\<lparr>wb_recs := []\<rparr>))))"

definition jbd_replay_wb_record :: "jbd_sb \<Rightarrow> jbd_replay_wb \<Rightarrow> u64 \<Rightarrow> bytes \<Rightarrow> bool \<Rightarrow> (errno \<times> jbd_replay_wb) irm" where
  "jbd_replay_wb_record s wb lba jdata is_escape =
     ir_bind (if length (wb_recs wb) = wb_cap wb then jbd_replay_wb_flush s wb else ir_return (EOK, wb)) (\<lambda>(e, wb).
     if e \<noteq> EOK then ir_return (e, wb)
     else
       ir_bind (ir_mem (if is_escape then wrn jdata 0 (be32 JBD_MAGIC_NUMBER) else Some jdata)) (\<lambda>slot.
       ir_return (EOK, wb\<lparr>wb_recs := wb_recs wb @ [(lba, slot)]\<rparr>)))"

definition JBD_REPLAY_WB_BYTES :: u32 where "JBD_REPLAY_WB_BYTES = 4194304"

definition jbd_replay_wb_new :: "jbd_sb \<Rightarrow> jbd_replay_wb option irm" where
  "jbd_replay_wb_new s =
     (if js_blocksize s = 0 then ir_crash
      else if JBD_REPLAY_WB_BYTES div js_blocksize s = 0 then ir_return None
      else ir_bind (ir_try mem_alloc) (\<lambda>r. ir_return (case r of Inl _ \<Rightarrow> None
        | Inr _ \<Rightarrow> Some \<lparr>wb_recs = [], wb_cap = unat (JBD_REPLAY_WB_BYTES div js_blocksize s), wb_checkpoint = False\<rparr>)))"

section \<open>Walking the tags\<close>

text \<open>Each tag is read from the block as it is then; the fuel is the size of the table, of which each tag takes at
  least 8 bytes.  The callback works on a state of its own.\<close>

fun table_walk :: "nat \<Rightarrow> jbd_sb \<Rightarrow> bytes irm \<Rightarrow> nat \<Rightarrow> int \<Rightarrow> (tag_info \<Rightarrow> 's \<Rightarrow> 's irm) \<Rightarrow> 's \<Rightarrow> 's irm" where
  "table_walk 0 s rd off remain f st = ir_return st"
| "table_walk (Suc n) s rd off remain f st =
     (if remain = 0 then ir_return st
      else
        ir_bind rd (\<lambda>b.
        ir_bind (ir_mem (jbd_extract_block_tag s b off (jbd_tag_bytes s) remain)) (\<lambda>r.
        case r of Inl _ \<Rightarrow> ir_return st
        | Inr t \<Rightarrow>
            ir_bind (f t st) (\<lambda>st.
            if t_last_tag t then ir_return st
            else table_walk n s rd (off + t_tag_bytes t) (remain - int (t_tag_bytes t)) f st))))"

definition table_size :: "jbd_sb \<Rightarrow> int" where
  "table_size s = sint (js_blocksize s - 12) -
     (if jbd_has_incompat s JBD_FEATURE_INCOMPAT_CSUM_V2 \<or> jbd_has_incompat s JBD_FEATURE_INCOMPAT_CSUM_V3 then 4 else 0)"

definition jbd_iterate_block_table :: "jbd_sb \<Rightarrow> bytes irm \<Rightarrow> (tag_info \<Rightarrow> 's \<Rightarrow> 's irm) \<Rightarrow> 's \<Rightarrow> 's irm" where
  "jbd_iterate_block_table s rd f st = table_walk (nat (table_size s)) s rd 12 (table_size s) f st"

definition jbd_display_block_tags :: "jbd_sb \<Rightarrow> tag_info \<Rightarrow> u32 \<Rightarrow> u32 irm" where
  "jbd_display_block_tags s t iblock = ir_return (jbd_wrap s (iblock + 1))"

section \<open>Replaying a logged block\<close>

definition log_copy :: "extent_ops \<Rightarrow> jbd_sb \<Rightarrow> u32 \<Rightarrow> recover_info \<Rightarrow> ((errno + bytes) \<times> recover_info) irm" where
  "log_copy X s this_block info =
     (case ri_wnd info of
        Some w \<Rightarrow> ir_bind (jbd_replay_wnd_read X s w this_block) (\<lambda>(r, w). ir_return (r, info\<lparr>ri_wnd := Some w\<rparr>))
      | None \<Rightarrow>
          ir_bind (ir_try (jbd_block_get X this_block)) (\<lambda>r.
          case r of Inl e \<Rightarrow> ir_return (Inl e, info)
          | Inr b \<Rightarrow> ir_bind (ir_lift (blk_get b)) (\<lambda>bs. ir_return (Inr bs, info))))"

text \<open>A block other than 0 goes into the batch or, without one, home at once.\<close>

definition replay_home :: "jbd_sb \<Rightarrow> tag_info \<Rightarrow> bytes \<Rightarrow> recover_info \<Rightarrow> recover_info irm" where
  "replay_home s t jdata info =
     (case ri_wb info of
        Some wb \<Rightarrow>
          ir_bind (jbd_replay_wb_record s wb (t_block t) jdata (t_is_escape t)) (\<lambda>(e, wb).
          ir_return (if e \<noteq> EOK then info\<lparr>ri_wb := Some wb, ri_rc := e\<rparr> else info\<lparr>ri_wb := Some wb\<rparr>))
      | None \<Rightarrow>
          ir_bind (ir_try (ir_lift (ext4_trans_block_get_noread (t_block t)))) (\<lambda>r.
          case r of Inl e \<Rightarrow> ir_return (info\<lparr>ri_rc := e\<rparr>)
          | Inr b \<Rightarrow>
              ir_bind (ir_mem (ldn jdata 0 (unat (js_blocksize s)))) (\<lambda>d.
              ir_bind (ir_lift (blk_get b)) (\<lambda>old.
              ir_bind (ir_mem (wrn old 0 d)) (\<lambda>new.
              ir_bind (ir_mem (if t_is_escape t then wrn new 0 (be32 JBD_MAGIC_NUMBER) else Some new)) (\<lambda>new.
              ir_bind (ir_lift (fs_modify (medium_put (js_blocksize s) b new new))) (\<lambda>_.
              ir_bind (ir_lift (blk_release b)) (\<lambda>_. ir_return info))))))))"

text \<open>Block 0 holds the superblock: it is taken over into the mounted one, with the state and the mount count that
  the mount has set.\<close>

definition replay_super :: "bytes \<Rightarrow> recover_info \<Rightarrow> recover_info irm" where
  "replay_super jdata info =
     ir_bind (ir_lift (fs_gets fs_sb)) (\<lambda>old.
     ir_bind (ir_mem (ldn jdata 1024 1024)) (\<lambda>bs.
     ir_bind (ir_lift (fs_modify (\<lambda>fs. fs\<lparr>fs_sb := (sblock_of_bytes bs)\<lparr>s_state := s_state old\<rparr>\<rparr>))) (\<lambda>_.
     ir_bind (ir_try (ir_lift ext4_sb_write)) (\<lambda>r.
     case r of Inl e \<Rightarrow> ir_return (info\<lparr>ri_rc := e\<rparr>)
     | Inr _ \<Rightarrow>
         ir_bind (ir_lift (fs_modify (\<lambda>fs. fs\<lparr>fs_sb := (fs_sb fs)\<lparr>s_mount_count := s_mount_count old\<rparr>\<rparr>))) (\<lambda>_.
         ir_return info)))))"

definition jbd_revoke_entry_lookup :: "recover_info \<Rightarrow> u64 \<Rightarrow> u32 option" where
  "jbd_revoke_entry_lookup info block = ri_revoke_root info block"

definition is_revoked :: "recover_info \<Rightarrow> u64 \<Rightarrow> u32 \<Rightarrow> bool" where
  "is_revoked info block this_trans \<longleftrightarrow>
     (case jbd_revoke_entry_lookup info block of None \<Rightarrow> False | Some t \<Rightarrow> trans_id_diff this_trans t \<le> 0)"

definition jbd_replay_block_tags :: "extent_ops \<Rightarrow> jbd_sb \<Rightarrow> u32 \<Rightarrow> tag_info \<Rightarrow> recover_info \<times> u32 \<Rightarrow> (recover_info \<times> u32) irm" where
  "jbd_replay_block_tags X s this_trans t = (\<lambda>(info, this_block).
     let this_block = jbd_wrap s (this_block + 1)
     in if is_revoked info (t_block t) this_trans then ir_return (info, this_block)
        else
          ir_bind (log_copy X s this_block info) (\<lambda>(r, info).
          case r of Inl e \<Rightarrow> ir_return (info\<lparr>ri_rc := e\<rparr>, this_block)
          | Inr jdata \<Rightarrow>
              let info = info\<lparr>ri_blocks_replayed := ri_blocks_replayed info + 1\<rparr>
              in ir_bind (if t_block t \<noteq> 0 then replay_home s t jdata info else replay_super jdata info) (\<lambda>info.
                 ir_return (info, this_block))))"

section \<open>Revoke records\<close>

definition jbd_add_revoke_block_tags :: "u64 \<Rightarrow> recover_info \<Rightarrow> recover_info irm" where
  "jbd_add_revoke_block_tags block info =
     (let info' = info\<lparr>ri_revoke_root := (ri_revoke_root info)(block \<mapsto> ri_this_trans_id info)\<rparr>
      in if jbd_revoke_entry_lookup info block \<noteq> None then ir_return info'
         else
           ir_bind (ir_try mem_alloc) (\<lambda>r.
           ir_return (case r of Inl _ \<Rightarrow> info\<lparr>ri_rc := ENOMEM\<rparr> | Inr _ \<Rightarrow> info')))"

definition revoke_entry :: "nat \<Rightarrow> bytes \<Rightarrow> nat \<Rightarrow> u64 option" where
  "revoke_entry record_len b i =
     (let off = 16 + record_len * i
      in if length b < off + record_len then None
         else Some (if record_len = 8 then get_be64 b off else ucast (get_be32 b off)))"

fun revoke_entries :: "nat \<Rightarrow> nat \<Rightarrow> bytes \<Rightarrow> nat \<Rightarrow> recover_info \<Rightarrow> recover_info irm" where
  "revoke_entries 0 record_len b i info = ir_return info"
| "revoke_entries (Suc n) record_len b i info =
     ir_bind (ir_mem (revoke_entry record_len b i)) (\<lambda>block.
     ir_bind (jbd_add_revoke_block_tags block info) (revoke_entries n record_len b (Suc i)))"

definition jbd_build_revoke_tree :: "jbd_sb \<Rightarrow> bytes \<Rightarrow> recover_info \<Rightarrow> recover_info irm" where
  "jbd_build_revoke_tree s b info =
     (let record_len = (if jbd_has_incompat s JBD_FEATURE_INCOMPAT_64BIT then 8 else 4)
      in ir_bind (ir_mem (ldb32 b 12)) (\<lambda>count.
         if count < 16 \<or> js_blocksize s < count then ir_return info
         else revoke_entries ((unat count - 16) div record_len) record_len b 0 info))"

section \<open>Walking the log\<close>

text \<open>The header block at \<open>this_block\<close>, with the way its tags are read: the recovery pass reads a stable copy of
  the window, everything else the cached block.\<close>

definition log_header :: "extent_ops \<Rightarrow> jbd_sb \<Rightarrow> log_action \<Rightarrow> u32 \<Rightarrow> recover_info \<Rightarrow> ((errno + bytes \<times> bytes irm) \<times> recover_info) irm" where
  "log_header X s action this_block info =
     (case (if action = ACTION_RECOVER then ri_wnd info else None) of
        Some w \<Rightarrow> ir_bind (jbd_replay_wnd_read X s w this_block) (\<lambda>(r, w).
          ir_return (case r of Inl e \<Rightarrow> Inl e | Inr b \<Rightarrow> Inr (b, ir_return b), info\<lparr>ri_wnd := Some w\<rparr>))
      | None \<Rightarrow>
          ir_bind (ir_try (jbd_block_get X this_block)) (\<lambda>r.
          case r of Inl e \<Rightarrow> ir_return (Inl e, info)
          | Inr l \<Rightarrow> ir_bind (ir_lift (blk_get l)) (\<lambda>b. ir_return (Inr (b, ir_lift (blk_get l)), info))))"

text \<open>A header of the expected transaction: the result says how the walk goes on (an error, whether the log ends,
  the block reached and the transaction expected next).\<close>

definition log_record :: "extent_ops \<Rightarrow> jbd_sb \<Rightarrow> log_action \<Rightarrow> u32 \<Rightarrow> u32 \<Rightarrow> recover_info \<Rightarrow> bytes \<Rightarrow> bytes irm \<Rightarrow>
     (errno \<times> bool \<times> u32 \<times> u32 \<times> recover_info) irm" where
  "log_record X s action this_block this_trans info b rd =
     ir_bind (ir_mem (ldb32 b 4)) (\<lambda>blocktype.
     if blocktype = JBD_DESCRIPTOR_BLOCK then
       ir_bind (ir_mem (jbd_verify_meta_csum s b)) (\<lambda>ok.
       if \<not> ok then ir_return (EOK, True, this_block, this_trans, info)
       else if action = ACTION_RECOVER then
         ir_bind (jbd_iterate_block_table s rd (jbd_replay_block_tags X s this_trans) (info, this_block)) (\<lambda>(info, this_block).
         ir_return (ri_rc info, ri_rc info \<noteq> EOK, this_block, this_trans, info))
       else
         ir_bind (jbd_iterate_block_table s rd (jbd_display_block_tags s) this_block) (\<lambda>this_block.
         ir_return (EOK, False, this_block, this_trans, info)))
     else if blocktype = JBD_COMMIT_BLOCK then
       ir_bind (ir_mem (jbd_verify_commit_csum s b)) (\<lambda>ok.
       if \<not> ok then ir_return (EOK, True, this_block, this_trans, info)
       else ir_return (EOK, False, this_block, this_trans + 1,
              if action = ACTION_SCAN then info\<lparr>ri_trans_cnt := ri_trans_cnt info + 1\<rparr> else info))
     else if blocktype = JBD_REVOKE_BLOCK then
       ir_bind (ir_mem (jbd_verify_meta_csum s b)) (\<lambda>ok.
       if \<not> ok then ir_return (EOK, True, this_block, this_trans, info)
       else
         let info = (if action = ACTION_SCAN then info\<lparr>ri_revoke_block_cnt := ri_revoke_block_cnt info + 1\<rparr> else info)
         in if action = ACTION_REVOKE then
              ir_bind (jbd_build_revoke_tree s b (info\<lparr>ri_this_trans_id := this_trans\<rparr>)) (\<lambda>info.
              ir_return (ri_rc info, ri_rc info \<noteq> EOK, this_block, this_trans, info))
            else ir_return (EOK, False, this_block, this_trans, info))
     else ir_return (EOK, True, this_block, this_trans, info))"

definition log_step :: "extent_ops \<Rightarrow> jbd_sb \<Rightarrow> log_action \<Rightarrow> u32 \<Rightarrow> u32 \<Rightarrow> recover_info \<Rightarrow>
     (errno \<times> bool \<times> u32 \<times> u32 \<times> recover_info) irm" where
  "log_step X s action this_block this_trans info =
     ir_bind (log_header X s action this_block info) (\<lambda>(r, info).
     case r of Inl e \<Rightarrow> ir_return (e, True, this_block, this_trans, info)
     | Inr (b, rd) \<Rightarrow>
         ir_bind (ir_mem (ldb32 b 0)) (\<lambda>magic.
         ir_bind (ir_mem (ldb32 b 8)) (\<lambda>sequence.
         if magic \<noteq> JBD_MAGIC_NUMBER then ir_return (EOK, True, this_block, this_trans, info)
         else if sequence \<noteq> this_trans then
           ir_return (if action \<noteq> ACTION_SCAN then EIO else EOK, True, this_block, this_trans, info)
         else
           ir_bind (log_record X s action this_block this_trans info b rd) (\<lambda>(e, log_end, this_block, this_trans, info).
           let this_block = jbd_wrap s (this_block + 1)
           in ir_return (e, log_end \<or> this_block = js_start s, this_block, this_trans, info)))))"

text \<open>The walk, with fuel for the number of header blocks; \<open>None\<close> is that it was not enough.\<close>

fun log_walk :: "nat \<Rightarrow> extent_ops \<Rightarrow> jbd_sb \<Rightarrow> log_action \<Rightarrow> u32 \<Rightarrow> u32 \<Rightarrow> recover_info \<Rightarrow>
     (errno \<times> u32 \<times> recover_info) option irm" where
  "log_walk 0 X s action this_block this_trans info = ir_return None"
| "log_walk (Suc n) X s action this_block this_trans info =
     (if action \<noteq> ACTION_SCAN \<and> 0 < trans_id_diff this_trans (ri_last_trans_id info)
      then ir_return (Some (EOK, this_trans, info))
      else
        ir_bind (log_step X s action this_block this_trans info) (\<lambda>(e, log_end, this_block, this_trans, info).
        if log_end then ir_return (Some (e, this_trans, info))
        else log_walk n X s action this_block this_trans info))"

definition jbd_iterate_log :: "nat \<Rightarrow> extent_ops \<Rightarrow> jbd_sb \<Rightarrow> log_action \<Rightarrow> recover_info \<Rightarrow> (errno \<times> recover_info) option irm" where
  "jbd_iterate_log fuel X s action info =
     (let info = (if action = ACTION_SCAN then info\<lparr>ri_trans_cnt := 0, ri_revoke_block_cnt := 0\<rparr> else info)
      in if action \<noteq> ACTION_SCAN \<and> ri_trans_cnt info = 0 then ir_return (Some (EOK, info))
         else
           ir_bind (log_walk fuel X s action (js_start s) (js_sequence s) info) (\<lambda>r.
           ir_return (map_option (\<lambda>(e, this_trans, info).
             (e, if e = EOK \<and> action = ACTION_SCAN
                 then info\<lparr>ri_start_trans_id := js_sequence s,
                   ri_last_trans_id := (if 0 < trans_id_diff this_trans (js_sequence s) then this_trans - 1 else this_trans)\<rparr>
                 else info)) r)))"

section \<open>The journal superblock on the medium\<close>

text \<open>The first 1024 bytes of block 0 of the journal.\<close>

definition jbd_sb_read :: "extent_ops \<Rightarrow> jbd_sb irm" where
  "jbd_sb_read X =
     ir_bind (jbd_inode_bmap X 0) (\<lambda>fblock.
     ir_bind (ir_lift (fs_gets fs_sb)) (\<lambda>sb.
     ir_bind (ir_lift fs_ask) (\<lambda>_.
     ir_bind (ir_lift (blk_get (direct_block (ext4_sb_get_block_size sb) fblock))) (\<lambda>b.
     ir_bind (ir_mem (ldn b 0 1024)) (\<lambda>bs. ir_return (jbd_sb_of_bytes bs))))))"

text \<open>The checksum is set in the caller's copy, also when the write fails.\<close>

definition jbd_sb_write :: "extent_ops \<Rightarrow> jbd_sb \<Rightarrow> (errno \<times> jbd_sb) irm" where
  "jbd_sb_write X s =
     ir_bind (ir_try (jbd_inode_bmap X 0)) (\<lambda>r.
     case r of Inl e \<Rightarrow> ir_return (e, s)
     | Inr fblock \<Rightarrow>
         let s = jbd_sb_csum_set s
         in ir_bind (ir_lift (fs_gets fs_sb)) (\<lambda>sb.
            let l = direct_block (ext4_sb_get_block_size sb) fblock
            in ir_bind (ir_try (ir_lift fs_ask)) (\<lambda>r.
               case r of Inl e \<Rightarrow> ir_return (e, s)
               | Inr _ \<Rightarrow>
                   ir_bind (ir_lift (blk_get l)) (\<lambda>old.
                   ir_bind (ir_mem (wrn old 0 (jbd_sb_bytes s))) (\<lambda>new.
                   ir_bind (ir_lift (fs_modify (medium_put (ext4_sb_get_block_size sb) l new new))) (\<lambda>_.
                   ir_return (EOK, s)))))))"

definition jbd_write_sb :: "extent_ops \<Rightarrow> jbd_fs \<Rightarrow> (errno \<times> jbd_fs) irm" where
  "jbd_write_sb X jf =
     (if jf_dirty jf then
        ir_bind (jbd_sb_write X (jf_sb jf)) (\<lambda>(e, s).
        ir_return (e, jf\<lparr>jf_sb := s, jf_dirty := e \<noteq> EOK\<rparr>))
      else ir_return (EOK, jf))"

definition jbd_check_geometry :: "jbd_sb \<Rightarrow> ext4_sblock \<Rightarrow> ext4_inode \<Rightarrow> unit irm" where
  "jbd_check_geometry s sb ino =
     (let bsize = ext4_sb_get_block_size sb
      in if js_blocksize s \<noteq> bsize then ir_fail EIO
         else if js_maxlen s = 0 then ir_fail EIO
         else if bsize = 0 then ir_crash
         else if ext4_inode_get_size sb ino div ucast bsize < ucast (js_maxlen s) \<or>
                 js_maxlen s \<le> js_first s \<or> js_maxlen s \<le> js_start s then ir_fail EIO
         else ir_return ())"

text \<open>The reference of the journal's inode is taken for the whole session; an error puts it.\<close>

definition ir_session :: "'a irm \<Rightarrow> ext4_inode_ref \<Rightarrow> (ext4_inode_ref \<times> 'a) fsm" where
  "ir_session m ref fs = (case m ref fs of
       (Ret x, ref', fs') \<Rightarrow> (Ret (ref', x), fs')
     | (Err e, ref', fs') \<Rightarrow> fs_bind (fs_ignore (ext4_fs_put_inode_ref ref')) (\<lambda>_. fs_fail e) fs'
     | (Crash, ref', fs') \<Rightarrow> (Crash, fs'))"

definition jbd_get_fs :: "extent_ops \<Rightarrow> (ext4_inode_ref \<times> jbd_fs) fsm" where
  "jbd_get_fs X =
     fs_bind (fs_gets fs_sb) (\<lambda>sb.
     fs_bind (ext4_fs_get_inode_ref (s_journal_inode_number sb))
       (ir_session
         (ir_bind (jbd_sb_read X) (\<lambda>s.
          if \<not> jbd_verify_sb s then ir_fail EIO
          else
            ir_bind (ir_lift (fs_gets fs_sb)) (\<lambda>sb.
            ir_bind ir_inode (\<lambda>ino.
            ir_bind (jbd_check_geometry s sb ino) (\<lambda>_.
            ir_return \<lparr>jf_sb = s, jf_dirty = False\<rparr>)))))))"

text \<open>The result of putting the inode is not looked at.\<close>

definition jbd_put_fs :: "extent_ops \<Rightarrow> jbd_fs \<Rightarrow> ext4_inode_ref \<Rightarrow> errno fsm" where
  "jbd_put_fs X jf ref =
     fs_bind (ir_session (jbd_write_sb X jf) ref) (\<lambda>(ref, e, jf).
     fs_bind (fs_ignore (ext4_fs_put_inode_ref ref)) (\<lambda>_. fs_return e))"

section \<open>Recovery\<close>

definition EXT4_FINCOM_RECOVER :: u32 where "EXT4_FINCOM_RECOVER = 4"

definition no_info :: recover_info where
  "no_info = \<lparr>ri_start_trans_id = 0, ri_last_trans_id = 0, ri_this_trans_id = 0, ri_trans_cnt = 0,
     ri_revoke_block_cnt = 0, ri_blocks_replayed = 0, ri_revoke_root = (\<lambda>_. None), ri_wnd = None, ri_wb = None,
     ri_rc = EOK\<rparr>"

text \<open>After the replay: the barrier and the reload of the superblock may fail unnoticed; a superblock that is none
  is an error; otherwise the journal is empty and the volume does not ask for recovery any more.\<close>

definition recover_finish :: "jbd_fs \<Rightarrow> recover_info \<Rightarrow> (errno \<times> jbd_fs) irm" where
  "recover_finish jf info =
     ir_bind (ir_ignore (ir_lift fs_ask)) (\<lambda>_.
     ir_bind (ir_ignore (ir_lift (fs_bind ext4_sb_read (\<lambda>sb. fs_modify (\<lambda>fs. fs\<lparr>fs_sb := sb\<rparr>))))) (\<lambda>_.
     ir_bind (ir_lift (fs_gets fs_sb)) (\<lambda>sb.
     if s_magic sb \<noteq> EXT4_SUPERBLOCK_MAGIC \<or> 6 < s_log_block_size sb then ir_return (EIO, jf)
     else
       let jf = jf\<lparr>jf_sb := (jf_sb jf)\<lparr>js_start := 0, js_sequence := ri_last_trans_id info\<rparr>, jf_dirty := True\<rparr>
       in ir_bind (ir_lift (fs_modify (\<lambda>fs. fs\<lparr>fs_sb := (fs_sb fs)
            \<lparr>s_features_incompatible := s_features_incompatible sb AND NOT EXT4_FINCOM_RECOVER\<rparr>\<rparr>))) (\<lambda>_.
          ir_bind (ir_try (ir_lift ext4_sb_write)) (\<lambda>r.
          ir_return (case r of Inl e \<Rightarrow> e | Inr _ \<Rightarrow> EOK, jf))))))"

text \<open>The recovery pass, with what is left in the batch written at the end.\<close>

definition recover_replay :: "nat \<Rightarrow> extent_ops \<Rightarrow> jbd_sb \<Rightarrow> recover_info \<Rightarrow> (errno \<times> recover_info) option irm" where
  "recover_replay fuel X s info =
     ir_bind (jbd_replay_wnd_new s 0) (\<lambda>w.
     ir_bind (jbd_replay_wb_new s) (\<lambda>wb.
     ir_bind (jbd_iterate_log fuel X s ACTION_RECOVER (info\<lparr>ri_wnd := w, ri_wb := wb\<rparr>)) (\<lambda>r.
     case r of None \<Rightarrow> ir_return None
     | Some (e, info) \<Rightarrow>
         ir_bind (case ri_wb info of
             Some wb \<Rightarrow> if e = EOK then ir_bind (jbd_replay_wb_flush s wb) (\<lambda>(e, _). ir_return e) else ir_return e
           | None \<Rightarrow> ir_return e) (\<lambda>e.
         ir_return (Some (e, info\<lparr>ri_wnd := None, ri_wb := None\<rparr>))))))"

text \<open>The result also says what the host is told about a recovery that took place.\<close>

definition jbd_recover :: "nat \<Rightarrow> extent_ops \<Rightarrow> jbd_fs \<Rightarrow> (errno \<times> jbd_fs \<times> jbd_recovery option) option irm" where
  "jbd_recover fuel X jf =
     (let s = jf_sb jf
      in if js_start s = 0 then ir_return (Some (EOK, jf, None))
         else
           ir_bind (jbd_iterate_log fuel X s ACTION_SCAN no_info) (\<lambda>r.
           case r of None \<Rightarrow> ir_return None
           | Some (e, info) \<Rightarrow>
               if e \<noteq> EOK then ir_return (Some (e, jf, None))
               else
                 ir_bind (if ri_revoke_block_cnt info \<noteq> 0 then jbd_iterate_log fuel X s ACTION_REVOKE info
                          else ir_return (Some (EOK, info))) (\<lambda>r.
                 case r of None \<Rightarrow> ir_return None
                 | Some (e, info) \<Rightarrow>
                     if e \<noteq> EOK then ir_return (Some (e, jf, None))
                     else
                       ir_bind (recover_replay fuel X s info) (\<lambda>r.
                       case r of None \<Rightarrow> ir_return None
                       | Some (e, info) \<Rightarrow>
                           if e \<noteq> EOK then ir_return (Some (e, jf, None))
                           else
                             ir_bind (recover_finish jf info) (\<lambda>(e, jf).
                             ir_return (Some (e, jf, if e \<noteq> EOK then None
                               else Some \<lparr>rc_trans_replayed = ri_trans_cnt info, rc_blocks_replayed = ri_blocks_replayed info,
                                 rc_log_blocks = js_maxlen (jf_sb jf)\<rparr>)))))))"

end
