(* ===== verification/Journal_Batch.thy ===== *)
theory Journal_Batch
  imports Journal
begin

unbundle bit_operations_syntax

text \<open>
  The batch in which recovery collects replayed blocks: writing it sorted, without duplicates and in runs leaves
  the volume as writing every block in the order of arrival would.  Before that, fields in big-endian order, and
  the tags of a descriptor block: what \<^verbatim>\<open>jbd_write_block_tag\<close> writes, \<^verbatim>\<open>jbd_extract_block_tag\<close> reads.
\<close>

section \<open>Big-endian fields\<close>

lemma length_be16 [simp]: "length (be16 w) = 2"
  by (simp add: be16_def)

lemma get_be32_put [simp]: "o1 + 4 \<le> length bs \<Longrightarrow> get_be32 (put_bytes bs o1 (be32 w)) o1 = w"
  using take_drop_put_bytes [of o1 "be32 w" bs] by (simp add: get_be32_def be32_def get_le32_le32)

lemma get_be16_put [simp]: "o1 + 2 \<le> length bs \<Longrightarrow> get_be16 (put_bytes bs o1 (be16 w)) o1 = w"
  using take_drop_put_bytes [of o1 "be16 w" bs] by (simp add: get_be16_def be16_def get_le16_le16)

lemma get_be32_other:
  "o1 + length v \<le> length bs \<Longrightarrow> o2 + 4 \<le> o1 \<or> o1 + length v \<le> o2 \<Longrightarrow> o2 + 4 \<le> length bs \<Longrightarrow>
     get_be32 (put_bytes bs o1 v) o2 = get_be32 bs o2"
  by (simp add: get_be32_def take_drop_put_other)

lemma get_be16_other:
  "o1 + length v \<le> length bs \<Longrightarrow> o2 + 2 \<le> o1 \<or> o1 + length v \<le> o2 \<Longrightarrow> o2 + 2 \<le> length bs \<Longrightarrow>
     get_be16 (put_bytes bs o1 v) o2 = get_be16 bs o2"
  by (simp add: get_be16_def take_drop_put_other)

lemma get_be32_append: "get_be32 (be32 w @ ys) 0 = w" "4 \<le> o1 \<Longrightarrow> get_be32 (be32 w @ ys) o1 = get_be32 ys (o1 - 4)"
  by (simp_all add: get_be32_def be32_def get_le32_le32)

section \<open>What a sequence of writes leaves\<close>

definition vput :: "u32 \<Rightarrow> u64 \<times> bytes \<Rightarrow> ext4_fs \<Rightarrow> ext4_fs" where
  "vput bsize x = medium_put bsize (fst x) (snd x) (snd x)"

definition sb_home :: "u32 \<Rightarrow> u64 option" where
  "sb_home bsize = (if 1024 < bsize then Some 0 else if bsize = 1024 then Some 1 else None)"

definition sb_in :: "u32 \<Rightarrow> bytes \<Rightarrow> ext4_sblock" where
  "sb_in bsize d = sblock_of_bytes (take 1024 (if 1024 < bsize then drop 1024 d else d))"

lemma medium_put_eq:
  "medium_put bsize l v m fs = fs\<lparr>fs_blk := (fs_blk fs)(l := v),
     fs_disk_sb := (if sb_home bsize = Some l then sb_in bsize m else fs_disk_sb fs)\<rparr>"
  by (simp add: medium_put_def sb_home_def sb_in_def Let_def)

text \<open>The last write to each block counts.\<close>

definition newest :: "(u64 \<times> bytes) list \<Rightarrow> u64 \<Rightarrow> bytes option" where
  "newest recs = map_of (rev recs)"

lemma newest_simps [simp]: "newest [] = Map.empty" "newest (recs @ [x]) = (newest recs)(fst x \<mapsto> snd x)"
  by (simp_all add: newest_def)

definition after_writes :: "u32 \<Rightarrow> (u64 \<Rightarrow> bytes option) \<Rightarrow> ext4_fs \<Rightarrow> ext4_fs" where
  "after_writes bsize m fs = fs\<lparr>fs_blk := (\<lambda>l. case m l of None \<Rightarrow> fs_blk fs l | Some d \<Rightarrow> d),
     fs_disk_sb := (case Option.bind (sb_home bsize) m of None \<Rightarrow> fs_disk_sb fs | Some d \<Rightarrow> sb_in bsize d)\<rparr>"

lemma fold_vput: "fold (vput bsize) recs fs = after_writes bsize (newest recs) fs"
proof (induction recs rule: rev_induct)
  case Nil
  then show ?case by (simp add: after_writes_def)
next
  case (snoc x recs)
  have "fold (vput bsize) (recs @ [x]) fs = vput bsize x (after_writes bsize (newest recs) fs)" using snoc by simp
  also have "\<dots> = after_writes bsize (newest (recs @ [x])) fs"
    by (cases "sb_home bsize") (auto simp: vput_def medium_put_eq after_writes_def fun_eq_iff)
  finally show ?case .
qed

lemma newest_filter: "newest recs l =
    (if filter (\<lambda>x. fst x = l) recs = [] then None else Some (snd (last (filter (\<lambda>x. fst x = l) recs))))"
  by (induction recs rule: rev_induct) auto

lemma keep_newest_filter:
  "(filter (\<lambda>x. fst x = l) (keep_newest xs) = []) = (filter (\<lambda>x. fst x = l) xs = []) \<and>
   last (filter (\<lambda>x. fst x = l) (keep_newest xs)) = last (filter (\<lambda>x. fst x = l) xs)"
  by (induction xs rule: keep_newest.induct) (auto split: if_splits)

lemma newest_order: "newest (wb_order recs) = newest recs"
proof
  fix l
  have "filter (\<lambda>x. fst x = l) (sort_key fst recs) = filter (\<lambda>x. fst x = l) recs" by (rule sort_key_stable)
  then show "newest (wb_order recs) l = newest recs l"
    using keep_newest_filter [of l "sort_key fst recs"] by (simp only: newest_filter wb_order_def)
qed

lemma keep_newest_subset: "set (keep_newest xs) \<subseteq> set xs"
  by (induction xs rule: keep_newest.induct) auto

lemma wb_order_subset: "set (wb_order recs) \<subseteq> set recs"
  using keep_newest_subset [of "sort_key fst recs"] by (simp add: wb_order_def)

section \<open>Writing in runs\<close>

text \<open>A change that touches nothing but the blocks in \<open>A\<close>, which stay blocks of \<open>n\<close> bytes, and the superblock on
  the medium.\<close>

definition touched :: "nat \<Rightarrow> u64 set \<Rightarrow> ext4_fs \<Rightarrow> ext4_fs \<Rightarrow> bool" where
  "touched n A fs fs' \<longleftrightarrow> (\<exists>f d c. fs' = fs\<lparr>fs_blk := f, fs_disk_sb := d, fs_calls := c\<rparr> \<and>
     (\<forall>l. l \<notin> A \<longrightarrow> f l = fs_blk fs l) \<and> (\<forall>l\<in>A. length (f l) = n))"

lemma touched_trans:
  assumes "touched n A fs fs1" "touched n B fs1 fs2"
  shows "touched n (A \<union> B) fs fs2"
proof -
  obtain f d c where a: "fs1 = fs\<lparr>fs_blk := f, fs_disk_sb := d, fs_calls := c\<rparr>" "\<forall>l. l \<notin> A \<longrightarrow> f l = fs_blk fs l"
    "\<forall>l\<in>A. length (f l) = n" using assms(1) by (auto simp: touched_def)
  obtain f' d' c' where b: "fs2 = fs1\<lparr>fs_blk := f', fs_disk_sb := d', fs_calls := c'\<rparr>" "\<forall>l. l \<notin> B \<longrightarrow> f' l = f l"
    "\<forall>l\<in>B. length (f' l) = n" using assms(2) a(1) by (auto simp: touched_def)
  have "length (f' l) = n" if "l \<in> A \<union> B" for l using a(3) b(2,3) that by (cases "l \<in> B") auto
  then show ?thesis using a b by (auto simp: touched_def intro!: exI [of _ f'] exI [of _ d'] exI [of _ c'])
qed

lemma touched_mono:
  assumes "touched n A fs fs'" "A \<subseteq> B" "\<forall>l. length (fs_blk fs l) = n"
  shows "touched n B fs fs'"
proof -
  obtain f d c where a: "fs' = fs\<lparr>fs_blk := f, fs_disk_sb := d, fs_calls := c\<rparr>" "\<forall>l. l \<notin> A \<longrightarrow> f l = fs_blk fs l"
    "\<forall>l\<in>A. length (f l) = n" using assms(1) by (auto simp: touched_def)
  have "length (f l) = n" for l using a(2,3) assms(3) by (cases "l \<in> A") simp_all
  then show ?thesis using a(1,2) assms(2) by (auto simp: touched_def intro!: exI [of _ f] exI [of _ d] exI [of _ c])
qed

lemma touched_put: "length v = n \<Longrightarrow> touched n {l} fs (medium_put bsize l v m fs)"
  by (auto simp: touched_def medium_put_eq intro!: exI [of _ "(fs_blk fs)(l := v)"]
      exI [of _ "if sb_home bsize = Some l then sb_in bsize m else fs_disk_sb fs"] exI [of _ "fs_calls fs"])

lemma touched_calls: "touched n {} fs (fs\<lparr>fs_calls := c\<rparr>)"
  by (auto simp: touched_def intro!: exI [of _ "fs_blk fs"] exI [of _ "fs_disk_sb fs"])

lemma medium_puts_touched:
  "\<forall>x\<in>set vs. length (fst x) = n \<Longrightarrow> touched n ((\<lambda>i. l + of_nat i) ` {..<length vs}) fs (medium_puts bsize l vs fs)"
proof (induction vs arbitrary: l fs)
  case Nil
  show ?case using touched_calls [of n fs "fs_calls fs"] by simp
next
  case (Cons x vs)
  obtain v m where x: "x = (v, m)" by (cases x)
  have e: "(\<lambda>i. l + of_nat i) ` {..<length (x # vs)} = {l} \<union> (\<lambda>i. l + 1 + of_nat i) ` {..<length vs}"
    by (simp add: lessThan_Suc_eq_insert_0 image_image add.commute add.left_commute)
  have "touched n ({l} \<union> (\<lambda>i. l + 1 + of_nat i) ` {..<length vs}) fs (medium_puts bsize (l + 1) vs (medium_put bsize l v m fs))"
    by (rule touched_trans [OF touched_put Cons.IH]) (use Cons.prems x in simp_all)
  moreover have "medium_puts bsize l (x # vs) fs = medium_puts bsize (l + 1) vs (medium_put bsize l v m fs)" by (simp add: x)
  ultimately show ?case by (simp only: e)
qed

text \<open>The blocks of a run lie one behind the other.\<close>

lemma run_tail_keys: "i < run_tail l xs \<Longrightarrow> i < length xs \<and> fst (xs ! i) = l + 1 + of_nat i"
proof (induction xs arbitrary: l i)
  case (Cons x xs)
  then show ?case by (cases i) (auto split: if_splits)
qed simp

lemma run_tail_le: "run_tail l xs \<le> length xs"
  by (induction xs arbitrary: l) auto

lemma medium_puts_run:
  "medium_puts bsize (l + 1) (map (\<lambda>b. (b, b)) (map snd (take (run_tail l xs) xs))) fs = fold (vput bsize) (take (run_tail l xs) xs) fs"
proof (induction xs arbitrary: l fs)
  case (Cons x xs)
  show ?case
  proof (cases "fst x = l + 1")
    case True
    then show ?thesis using Cons.IH [of "l + 1"] by (simp add: vput_def)
  qed simp
qed simp

lemma direct_block_small: "unat lba * unat bsize < 2 ^ 64 \<Longrightarrow> 0 < bsize \<Longrightarrow> direct_block bsize lba = lba"
proof -
  assume l: "unat lba * unat bsize < 2 ^ 64" "0 < bsize"
  have "unat (lba * ucast bsize) = unat lba * unat bsize" using l(1) by (simp add: unat_word_ariths unat_ucast_up)
  moreover have "0 < unat bsize" using l(2) by (simp add: word_less_nat_alt)
  ultimately have "unat (direct_block bsize lba) = unat lba" by (simp add: direct_block_def unat_div unat_ucast_up)
  then show ?thesis by (rule unsigned_word_eqI)
qed

lemma set_direct_run:
  assumes d: "direct_block bsize (fst x) = fst x" and n: "n = run_tail (fst x) xs"
    and len: "\<forall>y\<in>set (x # xs). length (snd y) = N" and whole: "\<forall>l. length (fs_blk fs l) = N"
    and stale: "\<forall>k l b. fs_stale fs k l = Some b \<longrightarrow> length b = N"
  obtains (ok) "blocks_set_direct bsize False (fst x) (map snd (x # take n xs)) fs =
      (Ret (), fold (vput bsize) (x # take n xs) (fs\<lparr>fs_calls := fs_calls fs + 1\<rparr>))"
  | (err) e fs' where "blocks_set_direct bsize False (fst x) (map snd (x # take n xs)) fs = (Err e, fs')" "e \<noteq> EOK"
      "touched N (fst ` set (x # take n xs)) fs fs'" "fs_answer fs (fs_calls fs) \<noteq> EOK"
proof -
  define bs where "bs = map snd (x # take n xs)"
  have id: "map (\<lambda>i. (bs ! i, bs ! i)) [0..<length bs] = map (\<lambda>b. (b, b)) bs" by (rule nth_equalityI) simp_all
  show thesis
  proof (cases "fs_answer fs (fs_calls fs) = EOK")
    case True
    have "medium_puts bsize (fst x) (map (\<lambda>b. (b, b)) bs) f = fold (vput bsize) (x # take n xs) f" for f
      using medium_puts_run [of bsize "fst x" xs] by (simp add: bs_def n vput_def)
    moreover have "blocks_set_direct bsize False (fst x) bs fs =
        (Ret (), medium_puts bsize (fst x) (map (\<lambda>i. (bs ! i, bs ! i)) [0..<length bs]) (fs\<lparr>fs_calls := fs_calls fs + 1\<rparr>))"
      using True by (simp add: blocks_set_direct_def Let_def fs_ask_def d)
    ultimately show thesis using ok id by (simp only: bs_def)
  next
    case False
    define torn where "torn = map (\<lambda>i. (case fs_stale fs (fs_calls fs) (fst x + of_nat i) of None \<Rightarrow> bs ! i | Some b \<Rightarrow> b,
      case fs_stale fs (fs_calls fs) (fst x + of_nat i) of None \<Rightarrow> bs ! i | Some b \<Rightarrow> b)) [0..<length bs]"
    have bl: "length (bs ! i) = N" if "i < length bs" for i
    proof -
      have "bs ! i \<in> snd ` set (x # take n xs)" using nth_mem [OF that] by (simp only: bs_def set_map)
      then obtain y where "y \<in> set (x # take n xs)" "bs ! i = snd y" by (elim imageE)
      moreover have "set (x # take n xs) \<subseteq> set (x # xs)" using set_take_subset [of n xs] by auto
      ultimately show ?thesis using len by auto
    qed
    have t: "\<forall>y\<in>set torn. length (fst y) = N"
      using stale bl by (auto simp: torn_def split: option.splits)
    define fs1 where "fs1 = fs\<lparr>fs_calls := fs_calls fs + 1\<rparr>"
    have keys: "(\<lambda>i. fst x + of_nat i) ` {..<length torn} \<subseteq> fst ` set (x # take n xs)"
    proof
      fix k assume "k \<in> (\<lambda>i. fst x + of_nat i) ` {..<length torn}"
      then obtain i where i: "i < Suc n" "k = fst x + of_nat i" using run_tail_le [of "fst x" xs] by (auto simp: torn_def bs_def n)
      show "k \<in> fst ` set (x # take n xs)"
      proof (cases i)
        case (Suc j)
        then have "j < length xs" "k = fst (xs ! j)" using run_tail_keys [of j "fst x" xs] i n by (auto simp: add.assoc)
        then have "xs ! j \<in> set (take n xs)" using Suc i by (auto simp: in_set_conv_nth intro!: exI [of _ j])
        then show ?thesis using \<open>k = fst (xs ! j)\<close> by auto
      qed (use i in simp)
    qed
    have "touched N ({} \<union> (\<lambda>i. fst x + of_nat i) ` {..<length torn}) fs (medium_puts bsize (fst x) torn fs1)"
      unfolding fs1_def by (rule touched_trans [OF touched_calls medium_puts_touched [OF t]])
    then have "touched N (fst ` set (x # take n xs)) fs (medium_puts bsize (fst x) torn fs1)"
      by (rule touched_mono) (use keys whole in simp_all)
    moreover have "blocks_set_direct bsize False (fst x) bs fs = (Err (fs_answer fs (fs_calls fs)), medium_puts bsize (fst x) torn fs1)"
      using False by (simp add: blocks_set_direct_def Let_def fs_ask_def d torn_def fs1_def)
    ultimately show thesis by (intro err [OF _ False _ False]) (simp_all only: bs_def)
  qed
qed

lemma vput_keeps [simp]: "fs_stale (vput bsize x fs) = fs_stale fs" "fs_answer (vput bsize x fs) = fs_answer fs"
  "fs_calls (vput bsize x fs) = fs_calls fs" "fs_sb (vput bsize x fs) = fs_sb fs"
  by (simp_all add: vput_def medium_put_eq)

lemma vput_calls: "vput bsize x (fs\<lparr>fs_calls := c\<rparr>) = (vput bsize x fs)\<lparr>fs_calls := c\<rparr>"
  by (simp add: vput_def medium_put_eq)

lemma fold_vput_calls: "fold (vput bsize) xs (fs\<lparr>fs_calls := c\<rparr>) = (fold (vput bsize) xs fs)\<lparr>fs_calls := c\<rparr>"
  by (induction xs arbitrary: fs) (simp_all add: vput_calls)

lemma touched_fold: "\<forall>y\<in>set xs. length (snd y) = N \<Longrightarrow> touched N (fst ` set xs) fs (fold (vput bsize) xs fs)"
proof (induction xs arbitrary: fs)
  case Nil
  show ?case using touched_calls [of N fs "fs_calls fs"] by simp
next
  case (Cons x xs)
  have "touched N ({fst x} \<union> fst ` set xs) fs (fold (vput bsize) xs (vput bsize x fs))"
    by (rule touched_trans [OF _ Cons.IH]) (use Cons.prems in \<open>simp_all add: vput_def touched_put\<close>)
  then show ?case by simp
qed

lemma touched_keeps:
  "touched N A fs fs' \<Longrightarrow> fs_stale fs' = fs_stale fs \<and> fs_answer fs' = fs_answer fs \<and> fs_sb fs' = fs_sb fs \<and>
     fs_was_dirty fs' = fs_was_dirty fs \<and> fs_lg_bcnt fs' = fs_lg_bcnt fs"
  "touched N A fs fs' \<Longrightarrow> \<forall>l. length (fs_blk fs l) = N \<Longrightarrow> length (fs_blk fs' l) = N"
  "touched N A fs fs' \<Longrightarrow> l \<notin> A \<Longrightarrow> fs_blk fs' l = fs_blk fs l"
  by (cases "l \<in> A"; auto simp: touched_def)+

text \<open>The disk as the batch finds it: whole blocks, also what a failed write leaves.\<close>

definition whole_blocks :: "nat \<Rightarrow> ext4_fs \<Rightarrow> bool" where
  "whole_blocks N fs \<longleftrightarrow> (\<forall>l. length (fs_blk fs l) = N) \<and> (\<forall>k l b. fs_stale fs k l = Some b \<longrightarrow> length b = N)"

lemma whole_touched: "whole_blocks N fs \<Longrightarrow> touched N A fs fs' \<Longrightarrow> whole_blocks N fs'"
  using touched_keeps(1,2) [of N A fs fs'] by (simp add: whole_blocks_def)

lemma write_runs_spec:
  "\<forall>y\<in>set xs. length (snd y) = N \<and> direct_block bsize (fst y) = fst y \<Longrightarrow> whole_blocks N fs \<Longrightarrow>
   \<exists>r fs'. write_runs bsize False xs ref fs = (r, ref, fs') \<and>
     (r = Ret () \<and> (\<exists>c. fs' = (fold (vput bsize) xs fs)\<lparr>fs_calls := c\<rparr>) \<or>
      (\<exists>e. r = Err e \<and> e \<noteq> EOK \<and> (\<exists>k. fs_answer fs k \<noteq> EOK) \<and> touched N (fst ` set xs) fs fs'))"
proof (induction bsize False xs arbitrary: fs rule: write_runs.induct)
  case (1 bsize)
  then show ?case by (auto simp: ir_return_def intro: exI [of _ "fs_calls fs"])
next
  case (2 bsize x xs)
  define n where "n = run_tail (fst x) xs"
  have w: "\<forall>l. length (fs_blk fs l) = N" "\<forall>k l b. fs_stale fs k l = Some b \<longrightarrow> length b = N"
    using "2.prems"(2) by (simp_all add: whole_blocks_def)
  have split: "set (x # take n xs) \<union> set (drop n xs) = set (x # xs)"
    by (metis append_take_drop_id set_append list.simps(15) Un_insert_left)
  note run = write_runs.simps(2) Let_def n_def [symmetric] ir_bind_def ir_lift_def
  consider (ok) "blocks_set_direct bsize False (fst x) (map snd (x # take n xs)) fs =
        (Ret (), fold (vput bsize) (x # take n xs) (fs\<lparr>fs_calls := fs_calls fs + 1\<rparr>))"
    | (err) e fs' where "blocks_set_direct bsize False (fst x) (map snd (x # take n xs)) fs = (Err e, fs')" "e \<noteq> EOK"
        "touched N (fst ` set (x # take n xs)) fs fs'" "fs_answer fs (fs_calls fs) \<noteq> EOK"
    by (rule set_direct_run [OF _ n_def _ w]) (use "2.prems"(1) in auto)
  then show ?case
  proof cases
    case err
    have "touched N (fst ` set (x # xs)) fs fs'"
      by (rule touched_mono [OF err(3)]) (use w(1) split in auto)
    then show ?thesis using err by (auto simp: run)
  next
    case ok
    define fs1 where "fs1 = (fold (vput bsize) (x # take n xs) fs)\<lparr>fs_calls := fs_calls fs + 1\<rparr>"
    have t0: "touched N (fst ` set (x # take n xs)) fs (fold (vput bsize) (x # take n xs) fs)"
      by (rule touched_fold) (use "2.prems"(1) split in blast)
    then have t: "touched N (fst ` set (x # take n xs) \<union> {}) fs fs1"
      unfolding fs1_def by (rule touched_trans [OF _ touched_calls])
    have "\<exists>r fs'. write_runs bsize False (drop n xs) ref fs1 = (r, ref, fs') \<and>
       (r = Ret () \<and> (\<exists>c. fs' = (fold (vput bsize) (drop n xs) fs1)\<lparr>fs_calls := c\<rparr>) \<or>
        (\<exists>e. r = Err e \<and> e \<noteq> EOK \<and> (\<exists>k. fs_answer fs1 k \<noteq> EOK) \<and> touched N (fst ` set (drop n xs)) fs1 fs'))"
      unfolding n_def by (rule "2.hyps" [OF HOL.refl]) (use "2.prems" whole_touched [OF "2.prems"(2) t] in \<open>auto dest: in_set_dropD\<close>)
    then obtain r fs' where r: "write_runs bsize False (drop n xs) ref fs1 = (r, ref, fs')"
      "r = Ret () \<and> (\<exists>c. fs' = (fold (vput bsize) (drop n xs) fs1)\<lparr>fs_calls := c\<rparr>) \<or>
        (\<exists>e. r = Err e \<and> e \<noteq> EOK \<and> (\<exists>k. fs_answer fs1 k \<noteq> EOK) \<and> touched N (fst ` set (drop n xs)) fs1 fs')" by blast
    have go: "write_runs bsize False (x # xs) ref fs = (r, ref, fs')"
      using ok r(1) by (simp add: run fs1_def fold_vput_calls del: fold.simps)
    have "fold (vput bsize) (drop n xs) (fold (vput bsize) (x # take n xs) fs) = fold (vput bsize) (x # xs) fs"
      by (metis fold_append o_apply append_take_drop_id append_Cons)
    then have f: "(fold (vput bsize) (drop n xs) fs1)\<lparr>fs_calls := c\<rparr> = (fold (vput bsize) (x # xs) fs)\<lparr>fs_calls := c\<rparr>" for c
      by (simp add: fs1_def fold_vput_calls del: fold.simps)
    have "touched N (fst ` set (x # xs)) fs fs'" if "touched N (fst ` set (drop n xs)) fs1 fs'"
      by (rule touched_mono [OF touched_trans [OF t that]]) (use w(1) split in auto)
    moreover have "fs_answer fs1 = fs_answer fs" using touched_keeps(1) [OF t] by simp
    ultimately show ?thesis using go r(2) f by metis
  qed
qed

section \<open>The batch as a whole\<close>

lemma mem_alloc_try:
  "ir_try mem_alloc ref fs =
    (Ret (if fs_answer fs (fs_calls fs) = EOK then Inr () else Inl ENOMEM), ref, fs\<lparr>fs_calls := fs_calls fs + 1\<rparr>)"
  by (simp add: ir_try_def mem_alloc_def ir_bind_def ir_lift_def fs_ask_def Let_def ir_return_def ir_fail_def)

definition recs_ok :: "nat \<Rightarrow> u32 \<Rightarrow> (u64 \<times> bytes) list \<Rightarrow> bool" where
  "recs_ok N bsize recs \<longleftrightarrow> 0 < bsize \<and> (\<forall>y\<in>set recs. length (snd y) = N \<and> unat (fst y) * unat bsize < 2 ^ 64)"

lemma flush_spec:
  assumes w: "whole_blocks N fs" and r: "recs_ok N (js_blocksize s) (wb_recs wb)" and c: "\<not> wb_checkpoint wb"
  obtains (ok) n where "jbd_replay_wb_flush s wb ref fs =
      (Ret (EOK, wb\<lparr>wb_recs := []\<rparr>), ref, (fold (vput (js_blocksize s)) (wb_recs wb) fs)\<lparr>fs_calls := n\<rparr>)"
  | (err) e wb' fs' where "jbd_replay_wb_flush s wb ref fs = (Ret (e, wb'), ref, fs')" "e \<noteq> EOK"
      "wb' = wb \<or> wb' = wb\<lparr>wb_recs := []\<rparr>" "touched N (fst ` set (wb_recs wb)) fs fs'" "\<exists>k. fs_answer fs k \<noteq> EOK"
proof (cases "wb_recs wb = []")
  case True
  then have "wb = wb\<lparr>wb_recs := []\<rparr>" "fs = (fold (vput (js_blocksize s)) (wb_recs wb) fs)\<lparr>fs_calls := fs_calls fs\<rparr>" by simp_all
  then show thesis using ok [of "fs_calls fs"] True by (simp add: jbd_replay_wb_flush_def ir_return_def)
next
  case False
  let ?f1 = "fs\<lparr>fs_calls := fs_calls fs + 1\<rparr>"
  note run = jbd_replay_wb_flush_def False ir_bind_def mem_alloc_try ir_return_def
  show thesis
  proof (cases "fs_answer fs (fs_calls fs) = EOK")
    case no: False
    have "touched N {} fs ?f1" by (rule touched_calls)
    then have "touched N (fst ` set (wb_recs wb)) fs ?f1" by (rule touched_mono) (use w in \<open>simp_all add: whole_blocks_def\<close>)
    then show thesis using err [of ENOMEM wb ?f1] no by (auto simp: run)
  next
    case yes: True
    have keys: "\<forall>y\<in>set (wb_order (wb_recs wb)). length (snd y) = N \<and> direct_block (js_blocksize s) (fst y) = fst y"
    proof
      fix y assume "y \<in> set (wb_order (wb_recs wb))"
      then have "y \<in> set (wb_recs wb)" using wb_order_subset [of "wb_recs wb"] by blast
      then have "length (snd y) = N" "unat (fst y) * unat (js_blocksize s) < 2 ^ 64" using r unfolding recs_ok_def by blast+
      then show "length (snd y) = N \<and> direct_block (js_blocksize s) (fst y) = fst y"
        using r by (simp only: direct_block_small recs_ok_def)
    qed
    have w1: "whole_blocks N ?f1" using w by (simp add: whole_blocks_def)
    have order: "fold (vput (js_blocksize s)) (wb_order (wb_recs wb)) fs = fold (vput (js_blocksize s)) (wb_recs wb) fs"
      by (simp add: fold_vput newest_order)
    obtain q fs' where q: "write_runs (js_blocksize s) False (wb_order (wb_recs wb)) ref ?f1 = (q, ref, fs')"
      "q = Ret () \<and> (\<exists>c. fs' = (fold (vput (js_blocksize s)) (wb_order (wb_recs wb)) ?f1)\<lparr>fs_calls := c\<rparr>) \<or>
        (\<exists>e. q = Err e \<and> e \<noteq> EOK \<and> (\<exists>k. fs_answer ?f1 k \<noteq> EOK) \<and> touched N (fst ` set (wb_order (wb_recs wb))) ?f1 fs')"
      using write_runs_spec [OF keys w1] by blast
    from q(2) show thesis
    proof (elim disjE conjE exE)
      fix c' assume "q = Ret ()" "fs' = (fold (vput (js_blocksize s)) (wb_order (wb_recs wb)) ?f1)\<lparr>fs_calls := c'\<rparr>"
      moreover have "ir_try (write_runs (js_blocksize s) False (wb_order (wb_recs wb))) ref ?f1 = (Ret (Inr ()), ref, fs')"
        using q(1) calculation(1) by (simp add: ir_try_def)
      ultimately show thesis using ok [of c'] yes c by (simp add: run fold_vput_calls order)
    next
      fix e k assume e: "q = Err e" "e \<noteq> EOK" "fs_answer ?f1 k \<noteq> EOK" "touched N (fst ` set (wb_order (wb_recs wb))) ?f1 fs'"
      have "touched N (fst ` set (wb_recs wb)) fs fs'"
        by (rule touched_mono [OF touched_trans [OF touched_calls e(4)]])
          (use wb_order_subset [of "wb_recs wb"] w in \<open>auto simp: whole_blocks_def\<close>)
      moreover have "ir_try (write_runs (js_blocksize s) False (wb_order (wb_recs wb))) ref ?f1 = (Ret (Inl e), ref, fs')"
        using q(1) e(1) by (simp add: ir_try_def)
      ultimately show thesis using err [of e "wb\<lparr>wb_recs := []\<rparr>" fs'] yes c e(2,3) by (auto simp: run)
    qed
  qed
qed

text \<open>C10: Writing the batch, which sorts it by target, drops all but the newest copy of a block and writes each run of
  neighbours with one command, leaves the volume exactly as writing every block in the order of arrival would;
  it fails only when memory or the device does, then only target blocks are affected, and the caller gets the error.\<close>

theorem batch_flush_sequential:
  assumes "whole_blocks N fs" "recs_ok N (js_blocksize s) (wb_recs wb)" "\<not> wb_checkpoint wb"
  shows "\<exists>e wb' fs'. jbd_replay_wb_flush s wb ref fs = (Ret (e, wb'), ref, fs') \<and>
    (if e = EOK
     then wb_recs wb' = [] \<and>
       (\<exists>n. fs' = (fold (\<lambda>(l, d). medium_put (js_blocksize s) l d d) (wb_recs wb) fs)\<lparr>fs_calls := n\<rparr>)
     else (\<exists>k. fs_answer fs k \<noteq> EOK) \<and> touched N (fst ` set (wb_recs wb)) fs fs')"
proof -
  have v: "vput (js_blocksize s) = (\<lambda>(l, d). medium_put (js_blocksize s) l d d)" by (auto simp: vput_def fun_eq_iff)
  show ?thesis by (rule flush_spec [OF assms, of ref]) (auto simp: v)
qed

text \<open>Three copies of two neighbouring blocks of 1 KiB.\<close>

definition batch_example :: jbd_replay_wb where
  "batch_example = \<lparr>wb_recs = [(9, replicate 1024 1), (8, replicate 1024 2), (9, replicate 1024 3)], wb_cap = 4, wb_checkpoint = False\<rparr>"

definition disk_example :: ext4_fs where
  "disk_example = \<lparr>fs_read_only = False, fs_sb = zero_sblock, fs_disk_sb = zero_sblock,
     fs_blk = (\<lambda>_. replicate 1024 0), fs_lg_bcnt = 64, fs_answer = (\<lambda>_. EOK), fs_calls = 0, fs_stale = (\<lambda>_ _. None),
     fs_was_dirty = (\<lambda>_ _. False), fs_inode_block_limits = [], fs_inode_blocks_per_level = [], fs_last_inode_bg_id = 0\<rparr>"

definition jsb_example :: jbd_sb where
  "jsb_example = \<lparr>js_magic = JBD_MAGIC_NUMBER, js_blocktype = 4, js_hdr_sequence = 0, js_blocksize = 1024, js_maxlen = 5,
     js_first = 1, js_sequence = 7, js_start = 2, js_error_val = 0, js_feature_compat = 0, js_feature_incompat = 0,
     js_feature_ro_compat = 0, js_uuid = replicate 16 0, js_nr_users = 1, js_dynsuper = 0, js_max_transaction = 0,
     js_max_trandata = 0, js_checksum_type = 0, js_padding = replicate 171 0, js_checksum = 0, js_users = replicate 768 0\<rparr>"

theorem batch_flush_sequential_witness:
  "\<forall>ref. \<exists>wb' fs' n. jbd_replay_wb_flush jsb_example batch_example ref disk_example = (Ret (EOK, wb'), ref, fs') \<and> wb_recs wb' = [] \<and>
    fs' = (fold (\<lambda>(l, d). medium_put (js_blocksize jsb_example) l d d) (wb_recs batch_example) disk_example)\<lparr>fs_calls := n\<rparr>"
proof
  fix ref
  have "whole_blocks 1024 disk_example" "recs_ok 1024 (js_blocksize jsb_example) (wb_recs batch_example)" "\<not> wb_checkpoint batch_example"
    by (simp_all add: whole_blocks_def disk_example_def recs_ok_def jsb_example_def batch_example_def)
  from batch_flush_sequential [OF this, of ref]
  show "\<exists>wb' fs' n. jbd_replay_wb_flush jsb_example batch_example ref disk_example = (Ret (EOK, wb'), ref, fs') \<and> wb_recs wb' = [] \<and>
      fs' = (fold (\<lambda>(l, d). medium_put (js_blocksize jsb_example) l d d) (wb_recs batch_example) disk_example)\<lparr>fs_calls := n\<rparr>"
    by (auto simp: disk_example_def split: if_splits)
qed

section \<open>Tags\<close>

lemma get_zeros:
  assumes "off + n \<le> length b" "off \<le> o2"
  shows "o2 + 4 \<le> off + n \<Longrightarrow> get_be32 (put_bytes b off (replicate n 0)) o2 = 0"
    "o2 + 2 \<le> off + n \<Longrightarrow> get_be16 (put_bytes b off (replicate n 0)) o2 = 0"
proof -
  have t: "take k (drop o2 (put_bytes b off (replicate n 0))) = replicate k 0" if "o2 + k \<le> off + n" for k
    by (rule nth_equalityI) (use assms that in \<open>auto simp: nth_put_bytes\<close>)
  show "o2 + 4 \<le> off + n \<Longrightarrow> get_be32 (put_bytes b off (replicate n 0)) o2 = 0"
    using t [of 4] by (simp add: get_be32_def get_le32_def numeral_eq_Suc)
  show "o2 + 2 \<le> off + n \<Longrightarrow> get_be16 (put_bytes b off (replicate n 0)) o2 = 0"
    using t [of 2] by (simp add: get_be16_def get_le16_def numeral_eq_Suc)
qed

lemma tag_halves: "ucast (ucast c :: u32) OR push_bit 32 (ucast (ucast (drop_bit 32 c) :: u32)) = (c :: u64)"
  by (rule bit_word_eqI) (auto simp: bit_simps)

lemmas tag_defs = tag_block_def tag_flags_def ldb32_def ldb16_def

lemma place_reads:
  assumes "off + 16 \<le> length b"
  obtains b' where "tag_place s off block b = Some b'" "length b' = length b" "tag_flags s b' off = Some 0"
    "tag_block s b' off = Some (if jbd_has_incompat s JBD_FEATURE_INCOMPAT_64BIT then block else ucast (ucast block :: u32))"
  using assms that
  by (cases "jbd_has_incompat s JBD_FEATURE_INCOMPAT_64BIT"; cases "jbd_has_incompat s JBD_FEATURE_INCOMPAT_CSUM_V3")
    (simp_all add: tag_place_def tag_defs get_be32_other get_be16_other get_zeros tag_halves)

lemma flags_reads:
  assumes "off + 16 \<le> length b" "v \<in> {1, 2, 8}" "tag_flags s b off = Some f"
  obtains b' where "put_flags s off v b = Some b'" "length b' = length b" "tag_flags s b' off = Some (f OR v)"
    "tag_block s b' off = tag_block s b off"
    "\<forall>k. off + 8 \<le> k \<longrightarrow> k + 16 \<le> length b \<longrightarrow> take 16 (drop k b') = take 16 (drop k b)"
proof -
  have v: "ucast (ucast v :: u16) = v" using assms(2) by auto
  show thesis
    using assms that v
    by (cases "jbd_has_incompat s JBD_FEATURE_INCOMPAT_CSUM_V3")
      (auto simp: put_flags_def tag_defs get_be32_other get_be16_other take_drop_put_other unsigned_or_eq split: option.splits)
qed

lemma csum_reads:
  assumes "off + 16 \<le> length b" "\<not> (jbd_has_incompat s JBD_FEATURE_INCOMPAT_CSUM_V2 \<and> jbd_has_incompat s JBD_FEATURE_INCOMPAT_CSUM_V3)"
  obtains b' where "jbd_block_tag_csum_set s off c b = Some b'" "length b' = length b" "tag_flags s b' off = tag_flags s b off"
    "tag_block s b' off = tag_block s b off"
    "\<forall>k. off + jbd_tag_bytes s \<le> k \<longrightarrow> k + 16 \<le> length b \<longrightarrow> take 16 (drop k b') = take 16 (drop k b)"
  using assms that
  by (cases "jbd_has_incompat s JBD_FEATURE_INCOMPAT_CSUM_V3"; cases "jbd_has_incompat s JBD_FEATURE_INCOMPAT_CSUM_V2")
    (auto simp: jbd_block_tag_csum_set_def jbd_has_csum_def jbd_tag_bytes_def tag_defs get_be32_other get_be16_other
      take_drop_put_other Let_def)

lemma tag_bytes_range: "8 \<le> jbd_tag_bytes s" "jbd_tag_bytes s \<le> 16"
  by (simp_all add: jbd_tag_bytes_def Let_def)

lemma uuid_reads:
  assumes "off + 32 \<le> length b" "length u = 16"
  obtains b' where "wrn b (off + jbd_tag_bytes s) u = Some b'" "length b' = length b" "tag_flags s b' off = tag_flags s b off"
    "tag_block s b' off = tag_block s b off" "take 16 (drop (off + jbd_tag_bytes s) b') = u"
proof -
  have t: "take 16 (drop (off + jbd_tag_bytes s) (put_bytes b (off + jbd_tag_bytes s) u)) = u"
    using take_drop_put_bytes [of "off + jbd_tag_bytes s" u b] tag_bytes_range [of s] assms by simp
  show thesis
    using assms that t
    by (cases "jbd_has_incompat s JBD_FEATURE_INCOMPAT_CSUM_V3"; cases "jbd_has_incompat s JBD_FEATURE_INCOMPAT_CSUM_V2";
        cases "jbd_has_incompat s JBD_FEATURE_INCOMPAT_64BIT")
      (simp_all add: jbd_tag_bytes_def tag_defs get_be32_other get_be16_other)
qed

text \<open>What a reader of the tag gets: the checksum is not read, the block number is cut without the 64-bit feature.\<close>

definition read_back :: "jbd_sb \<Rightarrow> tag_info \<Rightarrow> tag_info" where
  "read_back s t = \<lparr>t_tag_bytes = jbd_tag_bytes s + (if t_uuid_exist t then UUID_SIZE else 0),
     t_block = (if jbd_has_incompat s JBD_FEATURE_INCOMPAT_64BIT then t_block t else ucast (ucast (t_block t) :: u32)),
     t_is_escape = t_is_escape t, t_uuid_exist = t_uuid_exist t,
     t_uuid = (if t_uuid_exist t then t_uuid t else []), t_last_tag = t_last_tag t, t_checksum = 0\<rparr>"

definition tag_flag_bits :: "tag_info \<Rightarrow> u32" where
  "tag_flag_bits t = ((if t_uuid_exist t then 0 else 2) OR (if t_last_tag t then 8 else 0)) OR (if t_is_escape t then 1 else 0)"

lemma optional_flag:
  assumes "off + 16 \<le> length b" "v \<in> {1, 2, 8}" "tag_flags s b off = Some f"
  obtains b' where "(if p then put_flags s off v b else Some b) = Some b'" "length b' = length b"
    "tag_flags s b' off = Some (f OR (if p then v else 0))" "tag_block s b' off = tag_block s b off"
    "\<forall>k. off + 8 \<le> k \<longrightarrow> k + 16 \<le> length b \<longrightarrow> take 16 (drop k b') = take 16 (drop k b)"
proof (cases p)
  case True
  show thesis by (rule flags_reads [OF assms]) (use that True in auto)
qed (use that assms(3) in auto)

lemma write_tag_reads:
  assumes v: "\<not> (jbd_has_incompat s JBD_FEATURE_INCOMPAT_CSUM_V2 \<and> jbd_has_incompat s JBD_FEATURE_INCOMPAT_CSUM_V3)"
    and room: "off + 32 \<le> length b" "int (jbd_tag_bytes s) + (if t_uuid_exist t then 16 else 0) \<le> remain" "length (t_uuid t) = 16"
  obtains b' t' where "jbd_write_block_tag s b off remain t = Some (EOK, b', t')" "t_tag_bytes t' = t_tag_bytes (read_back s t)"
    "length b' = length b" "tag_flags s b' off = Some (tag_flag_bits t)" "tag_block s b' off = Some (t_block (read_back s t))"
    "t_uuid_exist t \<longrightarrow> take 16 (drop (off + jbd_tag_bytes s) b') = t_uuid t"
proof -
  have r: "off + 16 \<le> length b" using room(1) by simp
  obtain b1 where b1: "tag_place s off (t_block t) b = Some b1" "length b1 = length b" "tag_flags s b1 off = Some 0"
    "tag_block s b1 off = Some (t_block (read_back s t))"
    by (rule place_reads [OF r, of s "t_block t"]) (simp add: read_back_def)
  obtain b2 where b2: "(if t_uuid_exist t then wrn b1 (off + jbd_tag_bytes s) (t_uuid t) else put_flags s off JBD_FLAG_SAME_UUID b1) = Some b2"
    "length b2 = length b" "tag_flags s b2 off = Some (if t_uuid_exist t then 0 else 2)" "tag_block s b2 off = tag_block s b1 off"
    "t_uuid_exist t \<longrightarrow> take 16 (drop (off + jbd_tag_bytes s) b2) = t_uuid t"
  proof (cases "t_uuid_exist t")
    case True
    show thesis by (rule uuid_reads [of off b1 "t_uuid t" s]) (use that True b1 room in auto)
  next
    case False
    show thesis by (rule flags_reads [of off b1 2 s 0]) (use that False b1 r in \<open>auto simp: JBD_FLAG_SAME_UUID_def\<close>)
  qed
  obtain b3 where b3: "jbd_block_tag_csum_set s off (t_checksum t) b2 = Some b3" "length b3 = length b"
    "tag_flags s b3 off = tag_flags s b2 off" "tag_block s b3 off = tag_block s b2 off"
    "\<forall>k. off + jbd_tag_bytes s \<le> k \<longrightarrow> k + 16 \<le> length b \<longrightarrow> take 16 (drop k b3) = take 16 (drop k b2)"
    by (rule csum_reads [of off b2 s "t_checksum t"]) (use b2 r v in auto)
  obtain b4 where b4: "(if t_last_tag t then put_flags s off JBD_FLAG_LAST_TAG b3 else Some b3) = Some b4" "length b4 = length b"
    "tag_flags s b4 off = Some ((if t_uuid_exist t then 0 else 2) OR (if t_last_tag t then 8 else 0))"
    "tag_block s b4 off = tag_block s b3 off"
    "\<forall>k. off + 8 \<le> k \<longrightarrow> k + 16 \<le> length b \<longrightarrow> take 16 (drop k b4) = take 16 (drop k b3)"
  proof -
    have "off + 16 \<le> length b3" "tag_flags s b3 off = Some (if t_uuid_exist t then 0 else 2)" using r b2(3) b3(2,3) by simp_all
    then show thesis
      by (rule optional_flag [where v = 8 and p = "t_last_tag t", OF _ insertI2 [OF insertI2 [OF insertI1]]])
        (rule that, simp_all add: JBD_FLAG_LAST_TAG_def b3(2) split: if_splits)
  qed
  obtain b5 where b5: "(if t_is_escape t then put_flags s off JBD_FLAG_ESCAPE b4 else Some b4) = Some b5" "length b5 = length b"
    "tag_flags s b5 off = Some (tag_flag_bits t)" "tag_block s b5 off = tag_block s b4 off"
    "\<forall>k. off + 8 \<le> k \<longrightarrow> k + 16 \<le> length b \<longrightarrow> take 16 (drop k b5) = take 16 (drop k b4)"
  proof -
    have "off + 16 \<le> length b4" using r b4(2) by simp
    then show thesis
      by (rule optional_flag [where v = 1 and p = "t_is_escape t", OF _ insertI1 b4(3)])
        (rule that, simp_all add: JBD_FLAG_ESCAPE_def tag_flag_bits_def b4(2) split: if_splits)
  qed
  have u: "t_uuid_exist t \<longrightarrow> take 16 (drop (off + jbd_tag_bytes s) b5) = t_uuid t"
    using b2(5) b3(5) b4(5) b5(5) tag_bytes_range [of s] room(1) by simp
  have "\<not> remain - int (jbd_tag_bytes s) < 0" "\<not> (t_uuid_exist t \<and> remain - int (jbd_tag_bytes s) < int UUID_SIZE)"
    using room(2) by (auto simp: UUID_SIZE_def split: if_splits)
  then have "jbd_write_block_tag s b off remain t = Some (EOK, b5, t\<lparr>t_tag_bytes := t_tag_bytes (read_back s t)\<rparr>)"
    using b1(1) b2(1) b3(1) b4(1) b5(1)
    by (cases "t_uuid_exist t"; cases "t_last_tag t"; cases "t_is_escape t") (simp_all add: jbd_write_block_tag_def Let_def read_back_def)
  then show thesis by (rule that) (use b1 b2 b3 b4 b5 u in simp_all)
qed

text \<open>C30: A tag that fits is written without an error, and reading it at the same place gives back the block number,
  the flags and the UUID, under every combination of the tag formats.\<close>

theorem tag_roundtrip:
  assumes "\<not> (jbd_has_incompat s JBD_FEATURE_INCOMPAT_CSUM_V2 \<and> jbd_has_incompat s JBD_FEATURE_INCOMPAT_CSUM_V3)"
    and "off + 32 \<le> length b" "int (jbd_tag_bytes s) + (if t_uuid_exist t then 16 else 0) \<le> remain" "length (t_uuid t) = 16"
  shows "\<exists>b' t'. jbd_write_block_tag s b off remain t = Some (EOK, b', t') \<and> length b' = length b \<and>
    t_tag_bytes t' = t_tag_bytes (read_back s t) \<and>
    jbd_extract_block_tag s b' off (jbd_tag_bytes s) remain = Some (Inr (read_back s t))"
proof -
  obtain b' t' where w: "jbd_write_block_tag s b off remain t = Some (EOK, b', t')" "t_tag_bytes t' = t_tag_bytes (read_back s t)"
    "length b' = length b" "tag_flags s b' off = Some (tag_flag_bits t)" "tag_block s b' off = Some (t_block (read_back s t))"
    "t_uuid_exist t \<longrightarrow> take 16 (drop (off + jbd_tag_bytes s) b') = t_uuid t"
    by (rule write_tag_reads [OF assms])
  have l: "off + jbd_tag_bytes s + UUID_SIZE \<le> length b'" using assms(2) w(3) tag_bytes_range [of s] by (simp add: UUID_SIZE_def)
  have "jbd_extract_block_tag s b' off (jbd_tag_bytes s) remain = Some (Inr (read_back s t))"
    using w(4-6) l assms(3)
    by (cases "t_uuid_exist t"; cases "t_last_tag t"; cases "t_is_escape t")
      (simp_all add: jbd_extract_block_tag_def Let_def read_back_def tag_flag_bits_def JBD_FLAG_ESCAPE_def JBD_FLAG_SAME_UUID_def
        JBD_FLAG_LAST_TAG_def UUID_SIZE_def)
  then show ?thesis using w by blast
qed

definition tag_example :: tag_info where
  "tag_example = \<lparr>t_tag_bytes = 0, t_block = 0x123456789A, t_is_escape = True, t_uuid_exist = True,
     t_uuid = replicate 16 7, t_last_tag = True, t_checksum = 0xDEADBEEF\<rparr>"

theorem tag_roundtrip_witness:
  "\<exists>b' t'. jbd_write_block_tag jsb_example (replicate 1024 0) 12 1012 tag_example = Some (EOK, b', t') \<and>
    length b' = length (replicate 1024 (0 :: u8)) \<and> t_tag_bytes t' = t_tag_bytes (read_back jsb_example tag_example) \<and>
    jbd_extract_block_tag jsb_example b' 12 (jbd_tag_bytes jsb_example) 1012 = Some (Inr (read_back jsb_example tag_example))"
  by (rule tag_roundtrip) (simp_all add: jsb_example_def tag_example_def jbd_has_incompat_def jbd_tag_bytes_def)

end
