(* ===== verification/Journal_Spec.thy ===== *)
theory Journal_Spec
  imports Journal_Batch
begin

unbundle bit_operations_syntax

text \<open>
  Recovery against what a log says.  A log is a sequence of items (tags with the blocks they log, revoke records,
  commits) laid out block by block round the ring of the journal; what recovery has to do is a function of that
  sequence: write the blocks of the committed transactions in order, without those a later or the same
  transaction revokes.  \<open>log_map\<close> is what the walk needs of the map of the journal's file; inside it the three
  passes are shown to agree with the items, whatever the device answers and whether or not there is memory for
  the window and the batch.
\<close>

section \<open>What a log says\<close>

datatype log_item = Logged "tag_info list" | Revoked "u64 list" | Committed

text \<open>The tags of a descriptor block and the records of a revoke block, as functions of the bytes.\<close>

fun tags_from :: "nat \<Rightarrow> jbd_sb \<Rightarrow> bytes \<Rightarrow> nat \<Rightarrow> int \<Rightarrow> tag_info list option" where
  "tags_from 0 s b off remain = Some []"
| "tags_from (Suc n) s b off remain =
     (if remain = 0 then Some []
      else case jbd_extract_block_tag s b off (jbd_tag_bytes s) remain of
          None \<Rightarrow> None
        | Some (Inl _) \<Rightarrow> Some []
        | Some (Inr t) \<Rightarrow> if t_last_tag t then Some [t]
            else map_option (Cons t) (tags_from n s b (off + t_tag_bytes t) (remain - int (t_tag_bytes t))))"

definition desc_tags :: "jbd_sb \<Rightarrow> bytes \<Rightarrow> tag_info list option" where
  "desc_tags s b = tags_from (nat (table_size s)) s b 12 (table_size s)"

definition record_len :: "jbd_sb \<Rightarrow> nat" where
  "record_len s = (if jbd_has_incompat s JBD_FEATURE_INCOMPAT_64BIT then 8 else 4)"

definition revoke_list :: "jbd_sb \<Rightarrow> bytes \<Rightarrow> u64 list" where
  "revoke_list s b =
     (let count = get_be32 b 12
      in if count < 16 \<or> js_blocksize s < count then []
         else map (\<lambda>i. the (revoke_entry (record_len s) b i)) [0..<(unat count - 16) div record_len s])"

definition header_is :: "jbd_sb \<Rightarrow> bytes \<Rightarrow> u32 \<Rightarrow> log_item \<Rightarrow> bool" where
  "header_is s b tid it \<longleftrightarrow> get_be32 b 0 = JBD_MAGIC_NUMBER \<and> get_be32 b 8 = tid \<and>
     (case it of
        Logged ts \<Rightarrow> get_be32 b 4 = JBD_DESCRIPTOR_BLOCK \<and> jbd_verify_meta_csum s b = Some True \<and> desc_tags s b = Some ts
      | Revoked bs \<Rightarrow> get_be32 b 4 = JBD_REVOKE_BLOCK \<and> jbd_verify_meta_csum s b = Some True \<and> revoke_list s b = bs
      | Committed \<Rightarrow> get_be32 b 4 = JBD_COMMIT_BLOCK \<and> jbd_verify_commit_csum s b = Some True)"

text \<open>A block that ends the log: it is no header of the expected transaction, or its checksum is wrong.\<close>

definition log_ends :: "jbd_sb \<Rightarrow> bytes \<Rightarrow> u32 \<Rightarrow> bool" where
  "log_ends s b tid \<longleftrightarrow> get_be32 b 0 \<noteq> JBD_MAGIC_NUMBER \<or> get_be32 b 8 \<noteq> tid \<or>
     (if get_be32 b 4 = JBD_DESCRIPTOR_BLOCK \<or> get_be32 b 4 = JBD_REVOKE_BLOCK then jbd_verify_meta_csum s b = Some False
      else if get_be32 b 4 = JBD_COMMIT_BLOCK then jbd_verify_commit_csum s b = Some False
      else True)"

fun item_len :: "log_item \<Rightarrow> nat" where
  "item_len (Logged ts) = Suc (length ts)"
| "item_len (Revoked bs) = 1"
| "item_len Committed = 1"

fun next_tid :: "u32 \<Rightarrow> log_item \<Rightarrow> u32" where
  "next_tid tid Committed = tid + 1"
| "next_tid tid it = tid"

definition log_len :: "log_item list \<Rightarrow> nat" where
  "log_len items = sum_list (map item_len items)"

definition commits :: "log_item list \<Rightarrow> nat" where
  "commits items = length (filter (\<lambda>it. it = Committed) items)"

lemma log_len_simps [simp]: "log_len [] = 0" "log_len (it # items) = item_len it + log_len items"
  by (simp_all add: log_len_def)

lemma commits_simps [simp]: "commits [] = 0" "commits (Committed # items) = Suc (commits items)"
  "commits (Logged ts # items) = commits items" "commits (Revoked bs # items) = commits items"
  by (simp_all add: commits_def)

text \<open>The items as they are laid out from offset \<open>k\<close> of the ring on, whose blocks are \<open>G\<close>.\<close>

fun log_at :: "jbd_sb \<Rightarrow> (nat \<Rightarrow> bytes) \<Rightarrow> nat \<Rightarrow> u32 \<Rightarrow> log_item list \<Rightarrow> bool" where
  "log_at s G k tid [] = True"
| "log_at s G k tid (it # items) = (header_is s (G k) tid it \<and> log_at s G (k + item_len it) (next_tid tid it) items)"

text \<open>Only what comes before the last commit counts.\<close>

fun committed :: "log_item list \<Rightarrow> log_item list" where
  "committed [] = []"
| "committed (it # items) = (if Committed \<in> set (it # items) then it # committed items else [])"

text \<open>The last transaction that revokes each block.\<close>

fun revokes :: "u32 \<Rightarrow> log_item list \<Rightarrow> (u64 \<Rightarrow> u32 option) \<Rightarrow> u64 \<Rightarrow> u32 option" where
  "revokes tid [] R = R"
| "revokes tid (Revoked bs # items) R = revokes tid items (fold (\<lambda>b R. R(b \<mapsto> tid)) bs R)"
| "revokes tid (Logged ts # items) R = revokes tid items R"
| "revokes tid (Committed # items) R = revokes (tid + 1) items R"

definition revoked_in :: "(u64 \<Rightarrow> u32 option) \<Rightarrow> u64 \<Rightarrow> u32 \<Rightarrow> bool" where
  "revoked_in R b tid \<longleftrightarrow> (case R b of None \<Rightarrow> False | Some t \<Rightarrow> trans_id_diff tid t \<le> 0)"

text \<open>A logged copy whose first word was the magic number of the journal was logged with another one.\<close>

definition unescape :: "tag_info \<Rightarrow> bytes \<Rightarrow> bytes" where
  "unescape t d = (if t_is_escape t then put_bytes d 0 (be32 JBD_MAGIC_NUMBER) else d)"

fun tag_writes :: "(u64 \<Rightarrow> u32 option) \<Rightarrow> (nat \<Rightarrow> bytes) \<Rightarrow> u32 \<Rightarrow> nat \<Rightarrow> tag_info list \<Rightarrow> (u64 \<times> bytes) list" where
  "tag_writes R G tid k [] = []"
| "tag_writes R G tid k (t # ts) =
     (if revoked_in R (t_block t) tid then [] else [(t_block t, unescape t (G (Suc k)))]) @ tag_writes R G tid (Suc k) ts"

text \<open>What recovery has to write, in order.\<close>

fun log_writes :: "(u64 \<Rightarrow> u32 option) \<Rightarrow> (nat \<Rightarrow> bytes) \<Rightarrow> nat \<Rightarrow> u32 \<Rightarrow> log_item list \<Rightarrow> (u64 \<times> bytes) list" where
  "log_writes R G k tid [] = []"
| "log_writes R G k tid (Logged ts # items) = tag_writes R G tid k ts @ log_writes R G (Suc k + length ts) tid items"
| "log_writes R G k tid (Revoked bs # items) = log_writes R G (Suc k) tid items"
| "log_writes R G k tid (Committed # items) = log_writes R G (Suc k) (tid + 1) items"

section \<open>The ring\<close>

definition ring :: "jbd_sb \<Rightarrow> nat" where
  "ring s = unat (js_maxlen s) - unat (js_first s)"

text \<open>The journal block at offset \<open>k\<close> from the start of the log.\<close>

definition posn :: "jbd_sb \<Rightarrow> nat \<Rightarrow> nat" where
  "posn s k = unat (js_first s) + (unat (js_start s) - unat (js_first s) + k) mod ring s"

definition ring_ok :: "jbd_sb \<Rightarrow> bool" where
  "ring_ok s \<longleftrightarrow> 1 \<le> js_first s \<and> js_first s \<le> js_start s \<and> js_start s < js_maxlen s \<and>
     1024 \<le> js_blocksize s \<and> js_blocksize s \<le> 65536"

lemma ring_okD:
  assumes "ring_ok s"
  shows "1 \<le> unat (js_first s)" "unat (js_first s) \<le> unat (js_start s)" "unat (js_start s) < unat (js_maxlen s)" "0 < ring s"
    "1024 \<le> unat (js_blocksize s)" "unat (js_blocksize s) \<le> 65536" "unat (js_first s) + ring s = unat (js_maxlen s)"
  using assms by (simp_all add: ring_ok_def word_le_nat_alt word_less_nat_alt ring_def)

lemma posn_bounds:
  assumes "ring_ok s"
  shows "1 \<le> posn s k" "posn s k < unat (js_maxlen s)" "posn s k < 2 ^ 32"
proof -
  note r = ring_okD [OF assms]
  have m: "(unat (js_start s) - unat (js_first s) + k) mod ring s < ring s" using r(4) by simp
  show "1 \<le> posn s k" using r(1) by (simp add: posn_def)
  show "posn s k < unat (js_maxlen s)" using m r(7) unfolding posn_def by linarith
  then show "posn s k < 2 ^ 32" using unat_u32_lt [of "js_maxlen s"] by simp
qed

lemma posn_0: "ring_ok s \<Longrightarrow> of_nat (posn s 0) = js_start s"
  using ring_okD [of s] by (simp add: posn_def ring_def)

lemma posn_start:
  assumes "ring_ok s"
  shows "of_nat (posn s k) = js_start s \<longleftrightarrow> k mod ring s = 0"
proof -
  note r = ring_okD [OF assms]
  define d where "d = unat (js_start s) - unat (js_first s)"
  have d: "d < ring s" using r by (simp add: d_def ring_def)
  have "of_nat (posn s k) = js_start s \<longleftrightarrow> unat (of_nat (posn s k) :: u32) = unat (js_start s)"
    by (metis unsigned_word_eqI)
  also have "\<dots> \<longleftrightarrow> posn s k = unat (js_start s)" using posn_bounds(3) [OF assms, of k] by (simp add: unat_of_nat)
  also have "\<dots> \<longleftrightarrow> (d + k) mod ring s = d" using r by (auto simp: posn_def d_def)
  also have "\<dots> \<longleftrightarrow> (d + k) mod ring s = d mod ring s" using d by simp
  also have "\<dots> \<longleftrightarrow> k mod ring s = 0" using mod_eq_dvd_iff_nat [of d "d + k" "ring s"] by (auto simp: mod_eq_0_iff_dvd)
  finally show ?thesis .
qed

lemma wrap_posn:
  assumes "ring_ok s"
  shows "jbd_wrap s (of_nat (posn s k) + 1) = of_nat (posn s (Suc k))"
proof -
  note r = ring_okD [OF assms] and p = posn_bounds [OF assms, of k]
  define m where "m = (unat (js_start s) - unat (js_first s) + k) mod ring s"
  have pm: "posn s k = unat (js_first s) + m" "m < ring s" using r(4) by (simp_all add: posn_def m_def)
  have suc: "(unat (js_start s) - unat (js_first s) + Suc k) mod ring s = (if Suc m = ring s then 0 else Suc m)"
    by (simp add: m_def mod_Suc)
  have u: "unat (of_nat (posn s k) + 1 :: u32) = Suc (posn s k)"
    using p(2) unat_u32_lt [of "js_maxlen s"] by (simp add: unat_word_ariths unat_of_nat)
  have le: "js_maxlen s \<le> of_nat (posn s k) + 1 \<longleftrightarrow> Suc m = ring s"
    using u pm r(7) by (auto simp: word_le_nat_alt)
  show ?thesis
  proof (cases "Suc m = ring s")
    case True
    have "of_nat (posn s k) + 1 = js_maxlen s" using True u pm r(7) by (metis add_Suc_right unsigned_word_eqI)
    then show ?thesis using True le suc by (simp add: jbd_wrap_def posn_def)
  next
    case False
    then show ?thesis using le suc pm by (simp add: jbd_wrap_def posn_def)
  qed
qed

section \<open>Reading the headers\<close>

lemma ldb_in [simp]: "o1 + 4 \<le> length b \<Longrightarrow> ldb32 b o1 = Some (get_be32 b o1)" "o1 + 2 \<le> length b \<Longrightarrow> ldb16 b o1 = Some (get_be16 b o1)"
  by (simp_all add: ldb32_def ldb16_def)

lemma verify_total:
  assumes "ring_ok s" "length b = unat (js_blocksize s)"
  obtains "jbd_verify_meta_csum s b = Some True" | "jbd_verify_meta_csum s b = Some False"
  using assms that ring_okD(5) [OF assms(1)]
  by (cases "jbd_verify_meta_csum s b") (auto simp: jbd_verify_meta_csum_def jbd_meta_csum_def Let_def split: if_splits)

lemma verify_commit_total:
  assumes "ring_ok s" "length b = unat (js_blocksize s)"
  obtains "jbd_verify_commit_csum s b = Some True" | "jbd_verify_commit_csum s b = Some False"
  using assms that ring_okD(5) [OF assms(1)]
  by (cases "jbd_verify_commit_csum s b") (auto simp: jbd_verify_commit_csum_def jbd_commit_csum_def Let_def split: if_splits)

lemma blocktypes [simp]: "JBD_COMMIT_BLOCK \<noteq> JBD_DESCRIPTOR_BLOCK" "JBD_REVOKE_BLOCK \<noteq> JBD_DESCRIPTOR_BLOCK"
  "JBD_REVOKE_BLOCK \<noteq> JBD_COMMIT_BLOCK"
  by (simp_all add: JBD_COMMIT_BLOCK_def JBD_DESCRIPTOR_BLOCK_def JBD_REVOKE_BLOCK_def)

text \<open>Walking the tags of a block that does not change, with a callback that only counts.\<close>

lemma count_table:
  assumes "ring_ok s" "\<And>n. rd ref (fs\<lparr>fs_calls := n\<rparr>) = (Ret b, ref, fs\<lparr>fs_calls := n\<rparr>)"
  shows "tags_from n s b off remain = Some ts \<Longrightarrow>
    table_walk n s rd off remain (jbd_display_block_tags s) (of_nat (posn s k)) ref (fs\<lparr>fs_calls := c\<rparr>) =
      (Ret (of_nat (posn s (k + length ts))), ref, fs\<lparr>fs_calls := c\<rparr>)"
proof (induction n arbitrary: off remain ts k)
  case 0
  then show ?case by (simp add: ir_return_def)
next
  case (Suc n)
  show ?case
  proof (cases "remain = 0")
    case True
    then show ?thesis using Suc.prems by (simp add: ir_return_def)
  next
    case False
    then obtain r where r: "jbd_extract_block_tag s b off (jbd_tag_bytes s) remain = Some r" using Suc.prems by (auto split: option.splits)
    note run = False ir_bind_def assms(2) ir_mem_def ir_lift_def fs_mem_def r ir_return_def jbd_display_block_tags_def wrap_posn [OF assms(1)]
    show ?thesis
    proof (cases r)
      case (Inl e)
      then show ?thesis using Suc.prems False r by (simp add: run)
    next
      case (Inr t)
      show ?thesis
      proof (cases "t_last_tag t")
        case True
        then have "ts = [t]" using Suc.prems False r Inr by simp
        then show ?thesis using True Inr by (simp add: run)
      next
        case more: False
        then obtain us where us: "tags_from n s b (off + t_tag_bytes t) (remain - int (t_tag_bytes t)) = Some us" "ts = t # us"
          using Suc.prems False r Inr by auto
        show ?thesis using Suc.IH [OF us(1), of "Suc k"] more us(2) Inr by (simp add: run)
      qed
    qed
  qed
qed

section \<open>The revoke records\<close>

lemma revoke_entry_in: "16 + l * Suc i \<le> length b \<Longrightarrow> revoke_entry l b i = Some (if l = 8 then get_be64 b (16 + l * i) else ucast (get_be32 b (16 + l * i)))"
  by (simp add: revoke_entry_def Let_def)

lemma add_revoke_run:
  "\<exists>n info'. jbd_add_revoke_block_tags blk info ref fs = (Ret info', ref, fs\<lparr>fs_calls := n\<rparr>) \<and>
    (info' = info\<lparr>ri_revoke_root := (ri_revoke_root info)(blk \<mapsto> ri_this_trans_id info)\<rparr> \<or> info' = info\<lparr>ri_rc := ENOMEM\<rparr>)"
  by (auto simp: jbd_add_revoke_block_tags_def Let_def ir_return_def ir_bind_def mem_alloc_try intro: exI [of _ "fs_calls fs"])

text \<open>What a pass over revoke records does to the state: the table, or an error.\<close>

definition revoked_by :: "u64 list \<Rightarrow> recover_info \<Rightarrow> recover_info \<Rightarrow> bool" where
  "revoked_by bs info info' \<longleftrightarrow>
     (\<exists>R rc. info' = info\<lparr>ri_revoke_root := R, ri_rc := rc\<rparr> \<and>
       (if ri_rc info = EOK \<and> rc = EOK then R = fold (\<lambda>b R. R(b \<mapsto> ri_this_trans_id info)) bs (ri_revoke_root info) else rc \<noteq> EOK))"

lemma revoked_step:
  assumes "info1 = info\<lparr>ri_revoke_root := (ri_revoke_root info)(x \<mapsto> ri_this_trans_id info)\<rparr> \<or> info1 = info\<lparr>ri_rc := ENOMEM\<rparr>"
    and "revoked_by bs info1 info'"
  shows "revoked_by (x # bs) info info'"
proof -
  obtain R rc where r: "info' = info1\<lparr>ri_revoke_root := R, ri_rc := rc\<rparr>"
    "if ri_rc info1 = EOK \<and> rc = EOK then R = fold (\<lambda>b R. R(b \<mapsto> ri_this_trans_id info1)) bs (ri_revoke_root info1) else rc \<noteq> EOK"
    using assms(2) unfolding revoked_by_def by blast
  have "info' = info\<lparr>ri_revoke_root := R, ri_rc := rc\<rparr>" using assms(1) r(1) by auto
  moreover have "if ri_rc info = EOK \<and> rc = EOK then R = fold (\<lambda>b R. R(b \<mapsto> ri_this_trans_id info)) (x # bs) (ri_revoke_root info) else rc \<noteq> EOK"
    using assms(1) r(2) by (elim disjE) (simp_all split: if_splits)
  ultimately show ?thesis unfolding revoked_by_def by blast
qed

lemma revoke_entries_run:
  "\<forall>j. i \<le> j \<and> j < i + n \<longrightarrow> revoke_entry l b j = Some (e j) \<Longrightarrow>
   \<exists>m info'. revoke_entries n l b i info ref fs = (Ret info', ref, fs\<lparr>fs_calls := m\<rparr>) \<and> revoked_by (map e [i..<i + n]) info info'"
proof (induction n arbitrary: i info fs)
  case 0
  then show ?case by (auto simp: ir_return_def revoked_by_def intro!: exI [of _ "fs_calls fs"] exI [of _ "ri_revoke_root info"] exI [of _ "ri_rc info"])
next
  case (Suc n)
  obtain c info1 where a: "jbd_add_revoke_block_tags (e i) info ref fs = (Ret info1, ref, fs\<lparr>fs_calls := c\<rparr>)"
    "info1 = info\<lparr>ri_revoke_root := (ri_revoke_root info)(e i \<mapsto> ri_this_trans_id info)\<rparr> \<or> info1 = info\<lparr>ri_rc := ENOMEM\<rparr>"
    using add_revoke_run [of "e i" info ref fs] by blast
  obtain m info' where b: "revoke_entries n l b (Suc i) info1 ref (fs\<lparr>fs_calls := c\<rparr>) = (Ret info', ref, fs\<lparr>fs_calls := m\<rparr>)"
    "revoked_by (map e [Suc i..<Suc i + n]) info1 info'" using Suc.IH [of "Suc i" info1 "fs\<lparr>fs_calls := c\<rparr>"] Suc.prems by auto
  have u: "[i..<i + Suc n] = i # [Suc i..<Suc i + n]" by (simp add: upt_conv_Cons)
  have "revoked_by (map e [i..<i + Suc n]) info info'"
    unfolding u list.map by (rule revoked_step [OF a(2) b(2)])
  moreover have "revoke_entries (Suc n) l b i info ref fs = (Ret info', ref, fs\<lparr>fs_calls := m\<rparr>)"
    using Suc.prems a(1) b(1) by (simp add: ir_bind_def ir_mem_def ir_lift_def fs_mem_def)
  ultimately show ?case by blast
qed

lemma build_revoke_run:
  assumes "ring_ok s" "length b = unat (js_blocksize s)"
  shows "\<exists>m info'. jbd_build_revoke_tree s b info ref fs = (Ret info', ref, fs\<lparr>fs_calls := m\<rparr>) \<and> revoked_by (revoke_list s b) info info'"
proof -
  note r = ring_okD [OF assms(1)]
  define count where "count = get_be32 b 12"
  have c: "ldb32 b 12 = Some count" using assms(2) r(5) by (simp add: count_def)
  note run = jbd_build_revoke_tree_def Let_def ir_bind_def ir_mem_def ir_lift_def fs_mem_def c record_len_def [symmetric] ir_return_def
  show ?thesis
  proof (cases "count < 16 \<or> js_blocksize s < count")
    case True
    then show ?thesis using c
      by (auto simp: run revoke_list_def count_def [symmetric] revoked_by_def
          intro!: exI [of _ "fs_calls fs"] exI [of _ "ri_revoke_root info"] exI [of _ "ri_rc info"])
  next
    case False
    define n where "n = (unat count - 16) div record_len s"
    have cn: "16 \<le> unat count" "unat count \<le> length b" using False assms(2) by (simp_all add: word_less_nat_alt word_le_nat_alt not_less)
    have "record_len s * n \<le> unat count - 16" by (simp add: n_def)
    moreover have "record_len s * Suc j \<le> record_len s * n" if "j < n" for j using that by (intro mult_le_mono) simp_all
    ultimately have le: "record_len s * Suc j \<le> unat count - 16" if "j < n" for j using that by (meson order_trans)
    have e: "revoke_entry (record_len s) b j = Some (the (revoke_entry (record_len s) b j))" if "j < n" for j
    proof -
      have "16 + record_len s * Suc j \<le> length b" using le [OF that] cn by linarith
      then show ?thesis by (simp add: revoke_entry_in)
    qed
    have l: "revoke_list s b = map (\<lambda>i. the (revoke_entry (record_len s) b i)) [0..<0 + n]"
      using False by (simp add: revoke_list_def count_def [symmetric] n_def)
    show ?thesis unfolding l using revoke_entries_run [of 0 n "record_len s" b "\<lambda>i. the (revoke_entry (record_len s) b i)" info ref fs] e False
      by (auto simp: run n_def [symmetric])
  qed
qed

section \<open>The file of the journal\<close>

text \<open>The volume holds a journal with the contents \<open>J\<close> in the blocks \<open>L\<close> of its file; \<open>K\<close> are the blocks that the
  map of the file is read from.\<close>

definition log_world :: "(ext4_fs \<Rightarrow> ext4_inode_ref \<Rightarrow> bool) \<Rightarrow> (ext4_fs \<Rightarrow> ext4_inode_ref \<Rightarrow> u64 list) \<Rightarrow>
     (ext4_fs \<Rightarrow> ext4_inode_ref \<Rightarrow> u64 set) \<Rightarrow> jbd_sb \<Rightarrow> u64 list \<Rightarrow> u64 set \<Rightarrow> (nat \<Rightarrow> bytes) \<Rightarrow> ext4_inode_ref \<Rightarrow> ext4_fs \<Rightarrow> bool" where
  "log_world valid log_of meta_of s L K J ref fs \<longleftrightarrow>
     ring_ok s \<and> valid fs ref \<and> log_of fs ref = L \<and> meta_of fs ref = K \<and> unat (js_maxlen s) \<le> length L \<and>
     (\<forall>l\<in>set L. unat l * unat (js_blocksize s) < 2 ^ 64) \<and> (\<forall>i<length L. fs_blk fs (L ! i) = J i) \<and>
     whole_blocks (unat (js_blocksize s)) fs"

lemma log_worldD:
  assumes "log_world valid log_of meta_of s L K J ref fs"
  shows "ring_ok s" "valid fs ref" "log_of fs ref = L" "meta_of fs ref = K" "unat (js_maxlen s) \<le> length L"
    "\<forall>l\<in>set L. unat l * unat (js_blocksize s) < 2 ^ 64" "\<forall>i<length L. fs_blk fs (L ! i) = J i"
    "whole_blocks (unat (js_blocksize s)) fs"
  using assms unfolding log_world_def by blast+

lemma unat_posn: "ring_ok s \<Longrightarrow> unat (of_nat (posn s k) :: u32) = posn s k"
  using posn_bounds(3) [of s k] by (simp add: unat_of_nat)

lemma trans_get_run:
  obtains (ok) n where "ext4_trans_block_get l fs = (Ret l, fs\<lparr>fs_calls := n\<rparr>)"
  | (err) n e where "ext4_trans_block_get l fs = (Err e, fs\<lparr>fs_calls := n\<rparr>)" "e \<noteq> EOK"
proof (cases "l < fs_lg_bcnt fs \<and> l \<noteq> 0")
  case True
  then show thesis using ok [of "fs_calls fs + 1"] err [of "fs_answer fs (fs_calls fs)" "fs_calls fs + 1"]
    by (cases "fs_answer fs (fs_calls fs) = EOK") (simp_all add: ext4_trans_block_get_def fs_bind_def fs_ask_def Let_def fs_return_def)
next
  case False
  then show thesis using err [of ENXIO "fs_calls fs"] by (auto simp: ext4_trans_block_get_def)
qed

text \<open>What a pass that only reads makes of an item.\<close>

definition quiet_info :: "log_action \<Rightarrow> u32 \<Rightarrow> log_item \<Rightarrow> recover_info \<Rightarrow> recover_info \<Rightarrow> bool" where
  "quiet_info action tid it info info' \<longleftrightarrow>
     (case it of
        Logged ts \<Rightarrow> info' = info
      | Committed \<Rightarrow> info' = (if action = ACTION_SCAN then info\<lparr>ri_trans_cnt := ri_trans_cnt info + 1\<rparr> else info)
      | Revoked bs \<Rightarrow>
          if action = ACTION_SCAN then info' = info\<lparr>ri_revoke_block_cnt := ri_revoke_block_cnt info + 1\<rparr>
          else revoked_by bs (info\<lparr>ri_this_trans_id := tid\<rparr>) info' \<and> ri_rc info' = EOK)"

locale log_map =
  fixes X :: extent_ops
    and valid :: "ext4_fs \<Rightarrow> ext4_inode_ref \<Rightarrow> bool"
    and log_of :: "ext4_fs \<Rightarrow> ext4_inode_ref \<Rightarrow> u64 list"
    and meta_of :: "ext4_fs \<Rightarrow> ext4_inode_ref \<Rightarrow> u64 set"
  assumes get: "valid fs ref \<Longrightarrow> i < length (log_of fs ref) \<Longrightarrow>
      \<exists>r n. jbd_inode_bmap X (of_nat i) ref fs = (r, ref, fs\<lparr>fs_calls := n\<rparr>) \<and>
        (r = Ret (log_of fs ref ! i) \<or> (\<exists>e. r = Err e \<and> e \<noteq> EOK))"
    and frame: "valid fs ref \<Longrightarrow> \<forall>b\<in>meta_of fs ref. f b = fs_blk fs b \<Longrightarrow>
      valid (fs\<lparr>fs_blk := f, fs_disk_sb := d, fs_calls := n\<rparr>) ref \<and>
      log_of (fs\<lparr>fs_blk := f, fs_disk_sb := d, fs_calls := n\<rparr>) ref = log_of fs ref \<and>
      meta_of (fs\<lparr>fs_blk := f, fs_disk_sb := d, fs_calls := n\<rparr>) ref = meta_of fs ref"
begin

abbreviation world :: "jbd_sb \<Rightarrow> u64 list \<Rightarrow> u64 set \<Rightarrow> (nat \<Rightarrow> bytes) \<Rightarrow> ext4_inode_ref \<Rightarrow> ext4_fs \<Rightarrow> bool" where
  "world \<equiv> log_world valid log_of meta_of"

lemma world_touched:
  assumes w: "world s L K J ref fs" and t: "touched (unat (js_blocksize s)) A fs fs'" and d: "A \<inter> (K \<union> set L) = {}"
  shows "world s L K J ref fs'"
proof -
  obtain f e c where f: "fs' = fs\<lparr>fs_blk := f, fs_disk_sb := e, fs_calls := c\<rparr>" "\<forall>l. l \<notin> A \<longrightarrow> f l = fs_blk fs l"
    using t by (auto simp: touched_def)
  note v = log_worldD(2-4) [OF w]
  have k: "\<forall>b\<in>meta_of fs ref. f b = fs_blk fs b" using f(2) d v(3) by blast
  have j: "fs_blk fs' (L ! i) = J i" if "i < length L" for i
  proof -
    have "L ! i \<notin> A" using d nth_mem [OF that] by blast
    then show ?thesis using f log_worldD(7) [OF w] that by simp
  qed
  have "whole_blocks (unat (js_blocksize s)) fs'" by (rule whole_touched [OF log_worldD(8) [OF w] t])
  then show ?thesis unfolding log_world_def using frame [OF v(1) k, where d = e and n = c] log_worldD(1,5,6) [OF w] j v(2,3) f(1) by simp
qed

lemma world_calls: "world s L K J ref fs \<Longrightarrow> world s L K J ref (fs\<lparr>fs_calls := c\<rparr>)"
  by (erule world_touched [OF _ touched_calls]) simp

lemma world_length: "world s L K J ref fs \<Longrightarrow> i < unat (js_maxlen s) \<Longrightarrow> length (J i) = unat (js_blocksize s)"
proof -
  assume w: "world s L K J ref fs" and i: "i < unat (js_maxlen s)"
  then have "fs_blk fs (L ! i) = J i" using log_worldD(5,7) [OF w] by simp
  then show ?thesis using log_worldD(8) [OF w] by (metis whole_blocks_def)
qed

lemma bmap_run:
  assumes w: "world s L K J ref fs" and i: "i < length L"
  obtains (ok) n where "jbd_inode_bmap X (of_nat i) ref fs = (Ret (L ! i), ref, fs\<lparr>fs_calls := n\<rparr>)"
  | (err) n e where "jbd_inode_bmap X (of_nat i) ref fs = (Err e, ref, fs\<lparr>fs_calls := n\<rparr>)" "e \<noteq> EOK"
proof -
  show thesis using get [of fs ref i] log_worldD(2,3) [OF w] i ok err by blast
qed

lemma posn_index: "world s L K J ref fs \<Longrightarrow> posn s k < length L"
  using posn_bounds(2) [OF log_worldD(1), of valid log_of meta_of s L K J ref fs k] log_worldD(5) [of valid log_of meta_of s L K J ref fs]
  by simp

lemma block_get_run:
  assumes w: "world s L K J ref fs"
  obtains (ok) n where "jbd_block_get X (of_nat (posn s k)) ref fs = (Ret (L ! posn s k), ref, fs\<lparr>fs_calls := n\<rparr>)"
  | (err) n e where "jbd_block_get X (of_nat (posn s k)) ref fs = (Err e, ref, fs\<lparr>fs_calls := n\<rparr>)" "e \<noteq> EOK"
proof -
  note ring = log_worldD(1) [OF w]
  have "(of_nat (posn s k) :: u32) \<noteq> 0" using unat_posn [OF ring, of k] posn_bounds(1) [OF ring, of k] by auto
  note run = jbd_block_get_def this ir_bind_def ir_lift_def
  show thesis
  proof (cases rule: bmap_run [OF w posn_index [OF w, of k], case_names ok err])
    case a: (ok n)
    show thesis
    proof (cases rule: trans_get_run [of "L ! posn s k" "fs\<lparr>fs_calls := n\<rparr>", case_names ok err])
      case (ok m)
      then show thesis using a that(1) [of m] by (simp add: run)
    next
      case (err m e)
      then show thesis using a that(2) [of e m] by (simp add: run)
    qed
  next
    case a: (err n e)
    then show thesis using err [of e n] by (simp add: run)
  qed
qed

section \<open>The passes that only read\<close>

text \<open>A header of the expected transaction.\<close>

lemma log_step_run:
  assumes "log_header X s action blk info ref fs = (Ret (Inr (b, rd), info1), ref1, fs1)" "20 \<le> length b"
    "get_be32 b 0 = JBD_MAGIC_NUMBER" "get_be32 b 8 = tid"
  shows "log_step X s action blk tid info ref fs =
      (case log_record X s action blk tid info1 b rd ref1 fs1 of
         (Ret (e, log_end, this_block, this_trans, info), ref', fs') \<Rightarrow>
           (Ret (e, log_end \<or> jbd_wrap s (this_block + 1) = js_start s, jbd_wrap s (this_block + 1), this_trans, info), ref', fs')
       | (Err e, ref', fs') \<Rightarrow> (Err e, ref', fs') | (Crash, ref', fs') \<Rightarrow> (Crash, ref', fs'))"
  using assms by (simp add: log_step_def ir_bind_def ir_mem_def ir_lift_def fs_mem_def Let_def ir_return_def
      split: fsres.splits prod.splits)

text \<open>One header: an error, or the walk behind the item.\<close>

lemma quiet_header:
  assumes w: "world s L K J ref fs" and a: "action \<noteq> ACTION_RECOVER"
  obtains (ok) n where "log_header X s action (of_nat (posn s k)) info ref fs =
      (Ret (Inr (J (posn s k), ir_lift (blk_get (L ! posn s k))), info), ref, fs\<lparr>fs_calls := n\<rparr>)"
  | (err) n e where "log_header X s action (of_nat (posn s k)) info ref fs = (Ret (Inl e, info), ref, fs\<lparr>fs_calls := n\<rparr>)" "e \<noteq> EOK"
      "\<exists>e' n'. jbd_block_get X (of_nat (posn s k)) ref fs = (Err e', ref, fs\<lparr>fs_calls := n'\<rparr>)"
proof -
  have j: "fs_blk fs (L ! posn s k) = J (posn s k)" using log_worldD(7) [OF w] posn_index [OF w] by simp
  note run = log_header_def a ir_bind_def ir_try_def ir_return_def ir_lift_def blk_get_def fs_gets_def
  show thesis
  proof (cases rule: block_get_run [OF w, of k, case_names ok err])
    case (ok n)
    then show thesis using that(1) [of n] j by (simp add: run)
  next
    case (err n e)
    show thesis by (rule that(2) [of e n]) (use err in \<open>auto simp: run\<close>)
  qed
qed

lemma quiet_step:
  assumes w: "world s L K J ref fs" and a: "action \<noteq> ACTION_RECOVER" and h: "header_is s (J (posn s k)) tid it"
  obtains (ok) n info' where "log_step X s action (of_nat (posn s k)) tid info ref fs =
      (Ret (EOK, (k + item_len it) mod ring s = 0, of_nat (posn s (k + item_len it)), next_tid tid it, info'), ref, fs\<lparr>fs_calls := n\<rparr>)"
      "quiet_info action tid it info info'"
  | (err) n e b t info' where "log_step X s action (of_nat (posn s k)) tid info ref fs =
      (Ret (e, True, b, t, info'), ref, fs\<lparr>fs_calls := n\<rparr>)" "e \<noteq> EOK"
      "action = ACTION_SCAN \<longrightarrow> (\<exists>e' n'. jbd_block_get X (of_nat (posn s k)) ref fs = (Err e', ref, fs\<lparr>fs_calls := n'\<rparr>))"
proof (cases rule: quiet_header [OF w a, of k info, case_names ok err])
  case (err n e)
  show thesis by (rule that(2)) (use err in \<open>simp_all add: log_step_def ir_bind_def ir_return_def\<close>)
next
  case hd: (ok n)
  note ring = log_worldD(1) [OF w]
  define b where "b = J (posn s k)"
  define rd where "rd = ir_lift (blk_get (L ! posn s k))"
  have len: "length b = unat (js_blocksize s)"
    unfolding b_def by (rule world_length [OF w posn_bounds(2) [OF ring]])
  have l: "20 \<le> length b" using len ring_okD(5) [OF ring] by simp
  have j: "fs_blk fs (L ! posn s k) = b" using log_worldD(7) [OF w] posn_index [OF w] by (simp add: b_def)
  have rd: "rd ref (fs\<lparr>fs_calls := m\<rparr>) = (Ret b, ref, fs\<lparr>fs_calls := m\<rparr>)" for m
    by (simp add: rd_def ir_lift_def blk_get_def fs_gets_def j)
  have hs: "get_be32 b 0 = JBD_MAGIC_NUMBER" "get_be32 b 8 = tid" using h by (simp_all add: header_is_def b_def)
  note step = log_step_run [OF hd [folded b_def rd_def] l hs]
  have nx: "jbd_wrap s (of_nat (posn s i) + 1) = of_nat (posn s (Suc i))" for i by (rule wrap_posn [OF ring])
  have st: "of_nat (posn s i) = js_start s \<longleftrightarrow> i mod ring s = 0" for i by (rule posn_start [OF ring])
  note rec = log_record_def ir_bind_def ir_mem_def ir_lift_def fs_mem_def ir_return_def a
  show thesis
  proof (cases it)
    case (Logged ts)
    then have t: "get_be32 b 4 = JBD_DESCRIPTOR_BLOCK" "jbd_verify_meta_csum s b = Some True" "desc_tags s b = Some ts"
      using h by (simp_all add: header_is_def b_def)
    have "jbd_iterate_block_table s rd (jbd_display_block_tags s) (of_nat (posn s k)) ref (fs\<lparr>fs_calls := n\<rparr>) =
        (Ret (of_nat (posn s (k + length ts))), ref, fs\<lparr>fs_calls := n\<rparr>)"
      unfolding jbd_iterate_block_table_def by (rule count_table [where fs = fs and b = b, OF ring]) (use rd t(3) in \<open>simp_all add: desc_tags_def\<close>)
    then have "log_record X s action (of_nat (posn s k)) tid info b rd ref (fs\<lparr>fs_calls := n\<rparr>) =
        (Ret (EOK, False, of_nat (posn s (k + length ts)), tid, info), ref, fs\<lparr>fs_calls := n\<rparr>)"
      using t(1,2) l by (simp add: rec)
    then show thesis using that(1) [of info n] Logged by (simp add: step nx st quiet_info_def)
  next
    case Committed
    then have t: "get_be32 b 4 = JBD_COMMIT_BLOCK" "jbd_verify_commit_csum s b = Some True"
      using h by (simp_all add: header_is_def b_def)
    then have "log_record X s action (of_nat (posn s k)) tid info b rd ref (fs\<lparr>fs_calls := n\<rparr>) =
        (Ret (EOK, False, of_nat (posn s k), tid + 1, if action = ACTION_SCAN then info\<lparr>ri_trans_cnt := ri_trans_cnt info + 1\<rparr> else info),
          ref, fs\<lparr>fs_calls := n\<rparr>)"
      using l by (simp add: rec)
    then show thesis using that(1) [of _ n] Committed by (simp add: step nx st quiet_info_def)
  next
    case (Revoked bs)
    then have t: "get_be32 b 4 = JBD_REVOKE_BLOCK" "jbd_verify_meta_csum s b = Some True" "revoke_list s b = bs"
      using h by (simp_all add: header_is_def b_def)
    show thesis
    proof (cases action)
      case ACTION_SCAN
      then have "log_record X s action (of_nat (posn s k)) tid info b rd ref (fs\<lparr>fs_calls := n\<rparr>) =
          (Ret (EOK, False, of_nat (posn s k), tid, info\<lparr>ri_revoke_block_cnt := ri_revoke_block_cnt info + 1\<rparr>), ref, fs\<lparr>fs_calls := n\<rparr>)"
        using t l by (simp add: rec)
      then show thesis using that(1) [of _ n] Revoked ACTION_SCAN by (simp add: step [unfolded ACTION_SCAN] nx st quiet_info_def)
    next
      case ACTION_REVOKE
      obtain m info' where q: "jbd_build_revoke_tree s b (info\<lparr>ri_this_trans_id := tid\<rparr>) ref (fs\<lparr>fs_calls := n\<rparr>) =
          (Ret info', ref, fs\<lparr>fs_calls := m\<rparr>)" "revoked_by bs (info\<lparr>ri_this_trans_id := tid\<rparr>) info'"
        using build_revoke_run [OF ring len, of "info\<lparr>ri_this_trans_id := tid\<rparr>" ref "fs\<lparr>fs_calls := n\<rparr>"] t(3) by auto
      have "log_record X s action (of_nat (posn s k)) tid info b rd ref (fs\<lparr>fs_calls := n\<rparr>) =
          (Ret (ri_rc info', ri_rc info' \<noteq> EOK, of_nat (posn s k), tid, info'), ref, fs\<lparr>fs_calls := m\<rparr>)"
        using t l q(1) ACTION_REVOKE by (simp add: rec)
      then show thesis using that(1) [of info' m] that(2) [of "ri_rc info'"] Revoked ACTION_REVOKE q(2)
        by (cases "ri_rc info' = EOK") (simp_all add: step [unfolded ACTION_REVOKE] nx st quiet_info_def)
    qed (use a in simp)
  qed
qed

end

lemma calls_twice: "fs\<lparr>fs_calls := n\<rparr>\<lparr>fs_calls := m\<rparr> = fs\<lparr>fs_calls := m\<rparr>" for fs :: ext4_fs
  by simp

lemma trans_diff_left:
  assumes "tid + of_nat c = lst + 1" "c < 2 ^ 31"
  shows "0 < trans_id_diff tid lst \<longleftrightarrow> c = 0"
proof -
  have d: "tid - lst = 1 - of_nat c" 
  proof -
    have "tid = lst + 1 - of_nat c" using assms(1) by (simp add: eq_diff_eq)
    then show ?thesis by simp
  qed
  have "sint (1 - of_nat c :: u32) = 1 - int c"
  proof -
    have "(1 - of_nat c :: u32) = of_int (1 - int c)" by simp
    then have "sint (1 - of_nat c :: u32) = signed_take_bit 31 (1 - int c)" by (simp only: signed_of_int) simp
    moreover have "- (2 ^ 31) \<le> 1 - int c" "1 - int c < 2 ^ 31" using assms(2) by simp_all
    ultimately show ?thesis by (simp add: signed_take_bit_int_eq_self)
  qed
  then show ?thesis by (auto simp: trans_id_diff_def d)
qed

lemma item_len_pos: "1 \<le> item_len it"
  by (cases it) simp_all

lemma log_len_0: "log_len items = 0 \<Longrightarrow> items = []"
proof (cases items)
  case (Cons it r)
  then show "log_len items = 0 \<Longrightarrow> items = []" using item_len_pos [of it] by simp
qed simp

lemma mod_ring: "0 < k \<Longrightarrow> k \<le> n \<Longrightarrow> k mod n = 0 \<longleftrightarrow> k = (n :: nat)"
  by (cases "k = n") auto

definition scan_info :: "log_item list \<Rightarrow> recover_info \<Rightarrow> recover_info" where
  "scan_info items info = info\<lparr>ri_trans_cnt := ri_trans_cnt info + of_nat (commits items),
     ri_revoke_block_cnt := ri_revoke_block_cnt info + of_nat (length (filter (\<lambda>it. \<exists>bs. it = Revoked bs) items))\<rparr>"

lemma scan_info_simps: "scan_info [] info = info"
  "quiet_info ACTION_SCAN tid it info info' \<Longrightarrow> scan_info (it # items) info = scan_info items info'"
  "next_tid tid it + of_nat (commits items) = tid + of_nat (commits (it # items))"
  by (cases it; simp add: scan_info_def quiet_info_def add.assoc add.commute add.left_commute)+

context log_map
begin

lemma scan_end:
  assumes w: "world s L K J ref fs" and h: "log_ends s (J (posn s k)) tid"
  obtains (ok) n b where "log_step X s ACTION_SCAN (of_nat (posn s k)) tid info ref fs = (Ret (EOK, True, b, tid, info), ref, fs\<lparr>fs_calls := n\<rparr>)"
  | (err) n e b t where "log_step X s ACTION_SCAN (of_nat (posn s k)) tid info ref fs = (Ret (e, True, b, t, info), ref, fs\<lparr>fs_calls := n\<rparr>)" "e \<noteq> EOK"
proof -
  have scan: "ACTION_SCAN \<noteq> ACTION_RECOVER" by simp
  note ring = log_worldD(1) [OF w]
  define b where "b = J (posn s k)"
  have len: "length b = unat (js_blocksize s)"
    unfolding b_def by (rule world_length [OF w posn_bounds(2) [OF ring]])
  have l: "20 \<le> length b" using len ring_okD(5) [OF ring] by simp
  note run = log_step_def log_record_def ir_bind_def ir_mem_def ir_lift_def fs_mem_def Let_def ir_return_def
  show thesis
  proof (cases rule: quiet_header [OF w scan, of k info, case_names ok err])
    case (err n e)
    then show thesis using that(2) by (simp add: run)
  next
    case hd: (ok n)
    note hd = hd [folded b_def]
    show thesis
    proof (cases "get_be32 b 0 = JBD_MAGIC_NUMBER \<and> get_be32 b 8 = tid")
      case False
      then have "log_step X s ACTION_SCAN (of_nat (posn s k)) tid info ref fs = (Ret (EOK, True, of_nat (posn s k), tid, info), ref, fs\<lparr>fs_calls := n\<rparr>)"
        using hd l by (auto simp: log_step_def ir_bind_def ir_mem_def ir_lift_def fs_mem_def ir_return_def)
      then show thesis by (rule that(1))
    next
      case True
      have "log_record X s ACTION_SCAN (of_nat (posn s k)) tid info b (ir_lift (blk_get (L ! posn s k))) ref (fs\<lparr>fs_calls := n\<rparr>) =
          (Ret (EOK, True, of_nat (posn s k), tid, info), ref, fs\<lparr>fs_calls := n\<rparr>)"
        using h True l unfolding b_def [symmetric] log_ends_def
        by (auto simp: log_record_def ir_bind_def ir_mem_def ir_lift_def fs_mem_def ir_return_def split: if_splits)
      then show thesis using log_step_run [OF hd l] True that(1) by simp
    qed
  qed
qed

lemma scan_walk:
  "world s L K J ref fs \<Longrightarrow> log_at s (\<lambda>i. J (posn s i)) k tid items \<Longrightarrow> k < ring s \<Longrightarrow> k + log_len items \<le> ring s \<Longrightarrow>
   k + log_len items = ring s \<or> log_ends s (J (posn s (k + log_len items))) (tid + of_nat (commits items)) \<Longrightarrow>
   length items < fuel \<Longrightarrow>
   \<exists>n e t i. log_walk fuel X s ACTION_SCAN (of_nat (posn s k)) tid info ref fs = (Ret (Some (e, t, i)), ref, fs\<lparr>fs_calls := n\<rparr>) \<and>
     (e = EOK \<longrightarrow> t = tid + of_nat (commits items) \<and> i = scan_info items info)"
proof (induction items arbitrary: k tid info fs fuel)
  case Nil
  obtain g where g: "fuel = Suc g" using Nil.prems(6) by (cases fuel) auto
  have "log_ends s (J (posn s k)) tid" using Nil.prems(3,5) by simp
  then show ?case
    by (cases rule: scan_end [OF Nil.prems(1), of k tid info, case_names ok err])
      (auto simp: g ir_bind_def ir_return_def scan_info_simps)
next
  case (Cons it items)
  obtain g where g: "fuel = Suc g" "length items < g" using Cons.prems(6) by (cases fuel) auto
  have h: "header_is s (J (posn s k)) tid it" "log_at s (\<lambda>i. J (posn s i)) (k + item_len it) (next_tid tid it) items"
    using Cons.prems(2) by simp_all
  have kl: "0 < k + item_len it" "k + item_len it \<le> ring s" using Cons.prems(4) item_len_pos [of it] by simp_all
  have scan: "ACTION_SCAN \<noteq> ACTION_RECOVER" by simp
  show ?case
  proof (cases rule: quiet_step [OF Cons.prems(1) scan h(1), of info, case_names ok err])
    case (err n e b t info')
    then show ?thesis by (auto simp: g ir_bind_def ir_return_def)
  next
    case (ok n info')
    note si = scan_info_simps(2) [OF ok(2), of items]
    show ?thesis
    proof (cases "k + item_len it = ring s")
      case True
      then have "items = []" using Cons.prems(4) log_len_0 by simp
      then show ?thesis using ok(1) mod_ring [OF kl] True si scan_info_simps(3) [of tid it items]
        by (auto simp: g ir_bind_def ir_return_def scan_info_simps(1))
    next
      case False
      have "k + item_len it < ring s" using False kl(2) by simp
      from Cons.IH [OF world_calls [OF Cons.prems(1)] h(2) this _ _ g(2), of info' n] Cons.prems(4,5) scan_info_simps(3) [of tid it items]
      obtain m e t i where r: "log_walk g X s ACTION_SCAN (of_nat (posn s (k + item_len it))) (next_tid tid it) info' ref (fs\<lparr>fs_calls := n\<rparr>) =
          (Ret (Some (e, t, i)), ref, fs\<lparr>fs_calls := m\<rparr>)"
        "e = EOK \<longrightarrow> t = next_tid tid it + of_nat (commits items) \<and> i = scan_info items info'"
        by (auto simp: add.assoc)
      then show ?thesis using ok(1) False mod_ring [OF kl] si scan_info_simps(3) [of tid it items]
        by (auto simp: g ir_bind_def)
    qed
  qed
qed

lemma revoke_walk:
  "world s L K J ref fs \<Longrightarrow> log_at s (\<lambda>i. J (posn s i)) k tid items \<Longrightarrow> k + log_len items \<le> ring s \<Longrightarrow>
   tid + of_nat (commits items) = lst + 1 \<Longrightarrow> commits items < 2 ^ 31 \<Longrightarrow> ri_last_trans_id info = lst \<Longrightarrow> ri_rc info = EOK \<Longrightarrow>
   length items < fuel \<Longrightarrow>
   \<exists>n e t i. log_walk fuel X s ACTION_REVOKE (of_nat (posn s k)) tid info ref fs = (Ret (Some (e, t, i)), ref, fs\<lparr>fs_calls := n\<rparr>) \<and>
     (e = EOK \<longrightarrow> (\<exists>x. i = info\<lparr>ri_revoke_root := revokes tid (committed items) (ri_revoke_root info), ri_this_trans_id := x\<rparr>))"
proof (induction items arbitrary: k tid info fs fuel)
  case Nil
  obtain g where g: "fuel = Suc g" using Nil.prems(8) by (cases fuel) auto
  have "0 < trans_id_diff tid lst" using trans_diff_left [OF Nil.prems(4,5)] by simp
  then show ?case using Nil.prems(6) by (auto simp: g ir_return_def intro!: exI [of _ "fs_calls fs"] exI [of _ "ri_this_trans_id info"])
next
  case (Cons it items)
  obtain g where g: "fuel = Suc g" "length items < g" using Cons.prems(8) by (cases fuel) auto
  have h: "header_is s (J (posn s k)) tid it" "log_at s (\<lambda>i. J (posn s i)) (k + item_len it) (next_tid tid it) items"
    using Cons.prems(2) by simp_all
  have kl: "0 < k + item_len it" "k + item_len it \<le> ring s" using Cons.prems(3) item_len_pos [of it] by simp_all
  have rev: "ACTION_REVOKE \<noteq> ACTION_RECOVER" by simp
  note diff = trans_diff_left [OF Cons.prems(4,5)]
  have in_c: "Committed \<in> set (it # items) \<longleftrightarrow> commits (it # items) \<noteq> 0"
    unfolding commits_def by (auto simp: filter_empty_conv)
  show ?case
  proof (cases "commits (it # items) = 0")
    case True
    then have "0 < trans_id_diff tid lst" "committed (it # items) = []" using diff in_c by simp_all
    then show ?thesis using Cons.prems(6) by (auto simp: g ir_return_def intro!: exI [of _ "fs_calls fs"] exI [of _ "ri_this_trans_id info"])
  next
    case more: False
    then have nd: "\<not> 0 < trans_id_diff tid (ri_last_trans_id info)" "committed (it # items) = it # committed items"
      using diff in_c Cons.prems(6) by simp_all
    show ?thesis
    proof (cases rule: quiet_step [OF Cons.prems(1) rev h(1), of info, case_names ok err])
      case (err n e b t info')
      then show ?thesis using nd by (auto simp: g ir_bind_def ir_return_def)
    next
      case (ok n info')
      obtain x where i: "info' = info\<lparr>ri_revoke_root := revokes tid [it] (ri_revoke_root info), ri_this_trans_id := x\<rparr>"
      proof (cases it)
        case (Revoked bs)
        then obtain R rc where "info' = info\<lparr>ri_this_trans_id := tid, ri_revoke_root := R, ri_rc := rc\<rparr>" "rc = EOK"
          "R = fold (\<lambda>b R. R(b \<mapsto> tid)) bs (ri_revoke_root info)"
          using ok(2) Cons.prems(7) by (auto simp: quiet_info_def revoked_by_def)
        then show thesis using that [of tid] Revoked Cons.prems(7) by simp
      qed (use ok(2) that [of "ri_this_trans_id info"] in \<open>simp_all add: quiet_info_def\<close>)
      have rv: "revokes tid (it # committed items) R = revokes (next_tid tid it) (committed items) (revokes tid [it] R)" for R
        by (cases it) simp_all
      show ?thesis
      proof (cases "k + item_len it = ring s")
        case True
        then have "items = []" using Cons.prems(3) log_len_0 by simp
        then show ?thesis using ok(1) mod_ring [OF kl] True nd i by (auto simp: g ir_bind_def ir_return_def)
      next
        case False
        have p: "next_tid tid it + of_nat (commits items) = lst + 1" "commits items < 2 ^ 31"
          using Cons.prems(4,5) scan_info_simps(3) [of tid it items] by (cases it; simp)+
        have q: "k + item_len it + log_len items \<le> ring s" "ri_last_trans_id info' = lst" "ri_rc info' = EOK"
          using Cons.prems(3,6,7) i by simp_all
        note ih = Cons.IH [OF world_calls [OF Cons.prems(1)] h(2) q(1) p q(2,3) g(2), of n]
        obtain m e t i' where r: "log_walk g X s ACTION_REVOKE (of_nat (posn s (k + item_len it))) (next_tid tid it) info' ref (fs\<lparr>fs_calls := n\<rparr>) =
            (Ret (Some (e, t, i')), ref, fs\<lparr>fs_calls := m\<rparr>)"
          "e = EOK \<longrightarrow> (\<exists>x. i' = info'\<lparr>ri_revoke_root := revokes (next_tid tid it) (committed items) (ri_revoke_root info'), ri_this_trans_id := x\<rparr>)"
          using ih unfolding calls_twice by blast
        have "e = EOK \<longrightarrow> (\<exists>x. i' = info\<lparr>ri_revoke_root := revokes tid (committed (it # items)) (ri_revoke_root info), ri_this_trans_id := x\<rparr>)"
          using r(2) unfolding nd(2) rv i by auto
        moreover have "log_walk fuel X s ACTION_REVOKE (of_nat (posn s k)) tid info ref fs = (Ret (Some (e, t, i')), ref, fs\<lparr>fs_calls := m\<rparr>)"
          using ok(1) False mod_ring [OF kl] nd(1) r(1) by (simp add: g ir_bind_def)
        ultimately show ?thesis by blast
      qed
    qed
  qed
qed

end

end
