(* ===== verification/Journal_Recover.thy ===== *)
theory Journal_Recover
  imports Journal_Spec
begin

unbundle bit_operations_syntax

text \<open>
  The pass that replays: the window holds copies of the log, the batch what has been read and not yet been written,
  and together with the volume they are at every point what writing the blocks of the log so far one by one would
  have left.  With the two passes before it this gives what \<^verbatim>\<open>jbd_recover\<close> as a whole leaves.
\<close>

section \<open>The window\<close>

definition wnd_shape :: "nat \<Rightarrow> jbd_replay_wnd \<Rightarrow> bool" where
  "wnd_shape N w \<longleftrightarrow> wn_cap w \<noteq> 0 \<and> length (wn_data w) = unat (wn_cnt w) \<and> (\<forall>b\<in>set (wn_data w). length b = N)"

definition wnd_holds :: "(nat \<Rightarrow> bytes) \<Rightarrow> jbd_replay_wnd \<Rightarrow> bool" where
  "wnd_holds J w \<longleftrightarrow> (\<forall>k<unat (wn_cnt w). wn_data w ! k = J (unat (wn_first w) + k))"

lemma fill_run:
  assumes "direct_block bsize l = l" "whole_blocks N fs" "wnd_shape N w" "0 < unat run" "\<forall>j<unat run. fs_blk fs (l + of_nat j) = J (i + j)"
    and "i < 2 ^ 32"
  obtains (ok) n w' where "wnd_fill w bsize (of_nat i) l run fs = (Ret (EOK, w'), fs\<lparr>fs_calls := n\<rparr>)" "wnd_shape N w'" "wnd_holds J w'"
      "wn_data w' ! 0 = J i" "wn_data w' \<noteq> []" "wn_cap w' = wn_cap w"
  | (err) n e w' where "wnd_fill w bsize (of_nat i) l run fs = (Ret (e, w'), fs\<lparr>fs_calls := n\<rparr>)" "e \<noteq> EOK" "wnd_shape N w'"
proof (cases "fs_answer fs (fs_calls fs) = EOK")
  case True
  define w' where "w' = w\<lparr>wn_data := map (\<lambda>j. fs_blk fs (l + of_nat j)) [0..<unat run], wn_first := of_nat i, wn_cnt := run\<rparr>"
  have "wnd_fill w bsize (of_nat i) l run fs = (Ret (EOK, w'), fs\<lparr>fs_calls := fs_calls fs + 1\<rparr>)"
    using True assms(1) by (simp add: wnd_fill_def Let_def fs_ask_def w'_def)
  moreover have "unat (of_nat i :: u32) = i" using assms(6) by (simp add: unat_of_nat)
  then have "wnd_holds J w'" "wn_data w' ! 0 = J i" "wn_data w' \<noteq> []"
    using assms(4,5) by (auto simp: wnd_holds_def w'_def)
  moreover have "wnd_shape N w'"
  proof -
    have "wn_cap w' \<noteq> 0" "length (wn_data w') = unat (wn_cnt w')" using assms(3) by (simp_all add: wnd_shape_def w'_def)
    moreover have "length b = N" if "b \<in> set (wn_data w')" for b
    proof -
      obtain j where "b = fs_blk fs (l + of_nat j)" using \<open>b \<in> set (wn_data w')\<close> unfolding w'_def by auto
      then show ?thesis using assms(2) unfolding whole_blocks_def by blast
    qed
    ultimately show ?thesis by (simp add: wnd_shape_def)
  qed
  moreover have "wn_cap w' = wn_cap w" by (simp add: w'_def)
  ultimately show thesis using ok by blast
next
  case False
  define w' where "w' = w\<lparr>wn_data := map (\<lambda>j. case fs_stale fs (fs_calls fs) (l + of_nat j) of None \<Rightarrow> wn_data w ! j | Some b \<Rightarrow> b)
    [0..<length (wn_data w)]\<rparr>"
  have "wnd_fill w bsize (of_nat i) l run fs = (Ret (fs_answer fs (fs_calls fs), w'), fs\<lparr>fs_calls := fs_calls fs + 1\<rparr>)"
    using False assms(1) by (simp add: wnd_fill_def Let_def fs_ask_def w'_def)
  moreover have "wnd_shape N w'"
    using assms(2,3) by (auto simp: wnd_shape_def w'_def whole_blocks_def split: option.splits)
  ultimately show thesis using err False by blast
qed

context log_map
begin

lemma wnd_run_run:
  "world s L K J ref fs \<Longrightarrow> i + unat run + n \<le> unat (js_maxlen s) \<Longrightarrow> \<forall>j<unat run. L ! (i + j) = L ! i + of_nat j \<Longrightarrow>
   \<exists>c run'. wnd_run X (of_nat i) (L ! i) n run ref fs = (Ret run', ref, fs\<lparr>fs_calls := c\<rparr>) \<and> unat run \<le> unat run' \<and>
     unat run' \<le> unat run + n \<and> (\<forall>j<unat run'. L ! (i + j) = L ! i + of_nat j)"
proof (induction n arbitrary: run fs)
  case 0
  then show ?case by (auto simp: ir_return_def intro: exI [of _ "fs_calls fs"])
next
  case (Suc n)
  have idx: "i + unat run < length L" using Suc.prems(2) log_worldD(5) [OF Suc.prems(1)] by simp
  have a: "of_nat i + run = (of_nat (i + unat run) :: u32)" by simp
  have lt: "Suc (unat run) < 2 ^ 32" using Suc.prems(2) unat_u32_lt [of "js_maxlen s"] by simp
  have up: "unat (run + 1) = Suc (unat run)" using lt by (simp add: unat_word_ariths)
  note run = ir_bind_def ir_try_def a ir_return_def
  show ?case
  proof (cases rule: bmap_run [OF Suc.prems(1) idx, case_names ok err])
    case (err m e)
    then have "wnd_run X (of_nat i) (L ! i) (Suc n) run ref fs = (Ret run, ref, fs\<lparr>fs_calls := m\<rparr>)"
      by (simp add: run del: of_nat_add)
    then show ?thesis using Suc.prems(3) by auto
  next
    case (ok m)
    show ?thesis
    proof (cases "L ! (i + unat run) = L ! i + ucast run")
      case False
      then have "wnd_run X (of_nat i) (L ! i) (Suc n) run ref fs = (Ret run, ref, fs\<lparr>fs_calls := m\<rparr>)"
        using ok by (simp add: run del: of_nat_add)
      then show ?thesis using Suc.prems(3) by auto
    next
      case True
      have "\<forall>j<unat (run + 1). L ! (i + j) = L ! i + of_nat j"
        using True Suc.prems(3) by (auto simp add: up less_Suc_eq)
      from Suc.IH [OF world_calls [OF Suc.prems(1)] _ this, of m] Suc.prems(2)
      obtain c run' where r: "wnd_run X (of_nat i) (L ! i) n (run + 1) ref (fs\<lparr>fs_calls := m\<rparr>) = (Ret run', ref, fs\<lparr>fs_calls := c\<rparr>)"
        "Suc (unat run) \<le> unat run'" "unat run' \<le> Suc (unat run) + n" "\<forall>j<unat run'. L ! (i + j) = L ! i + of_nat j"
        unfolding up calls_twice by auto
      have "wnd_run X (of_nat i) (L ! i) (Suc n) run ref fs = (Ret run', ref, fs\<lparr>fs_calls := c\<rparr>)"
        using ok True r(1) by (simp add: run del: of_nat_add)
      then show ?thesis using r(2-4) by auto
    qed
  qed
qed

lemma wnd_read_run:
  assumes w: "world s L K J ref fs" and sh: "wnd_shape (unat (js_blocksize s)) v" and i: "i < unat (js_maxlen s)"
  obtains (ok) n b v' where "jbd_replay_wnd_read X s v (of_nat i) ref fs = (Ret (Inr b, v'), ref, fs\<lparr>fs_calls := n\<rparr>)"
      "length b = unat (js_blocksize s)" "wnd_shape (unat (js_blocksize s)) v'" "wnd_holds J v \<longrightarrow> b = J i \<and> wnd_holds J v'"
  | (err) n e v' where "jbd_replay_wnd_read X s v (of_nat i) ref fs = (Ret (Inl e, v'), ref, fs\<lparr>fs_calls := n\<rparr>)" "e \<noteq> EOK"
      "wnd_shape (unat (js_blocksize s)) v'"
proof -
  have i32: "i < 2 ^ 32" using i unat_u32_lt [of "js_maxlen s"] by simp
  then have ui: "unat (of_nat i :: u32) = i" by (simp add: unat_of_nat)
  show thesis
  proof (cases "wn_cnt v \<noteq> 0 \<and> wn_first v \<le> of_nat i \<and> of_nat i - wn_first v < wn_cnt v")
    case True
    have d: "unat (of_nat i - wn_first v) = i - unat (wn_first v)" "unat (wn_first v) \<le> i" "i - unat (wn_first v) < length (wn_data v)"
      using True sh ui by (auto simp: unat_sub word_le_nat_alt word_less_nat_alt wnd_shape_def)
    have "jbd_replay_wnd_read X s v (of_nat i) ref fs = (Ret (Inr (wn_data v ! (i - unat (wn_first v))), v), ref, fs\<lparr>fs_calls := fs_calls fs\<rparr>)"
      using True d by (simp add: jbd_replay_wnd_read_def ir_bind_def ir_mem_def ir_lift_def fs_mem_def ir_return_def)
    then show thesis by (rule ok) (use sh d in \<open>auto simp: wnd_shape_def wnd_holds_def\<close>)
  next
    case False
    define want where "want = (if wn_cap v < js_maxlen s - of_nat i then wn_cap v else js_maxlen s - of_nat i)"
    have le: "of_nat i \<le> js_maxlen s" using i ui by (simp add: word_le_nat_alt)
    have ws: "want \<noteq> 0" "unat want \<le> unat (js_maxlen s) - i"
      using le i ui sh by (auto simp: want_def wnd_shape_def unat_sub word_less_nat_alt)
    then have w1: "1 \<le> unat want" by (simp add: Suc_leI unat_gt_0)
    have idx: "i < length L" using i log_worldD(5) [OF w] by simp
    note run = jbd_replay_wnd_read_def False want_def [symmetric] Let_def ws(1) ir_bind_def ir_try_def ir_return_def ir_lift_def ir_mem_def fs_mem_def
    show thesis
    proof (cases rule: bmap_run [OF w idx, case_names ok err])
      case e: (err n e)
      have "jbd_replay_wnd_read X s v (of_nat i) ref fs = (Ret (Inl e, v), ref, fs\<lparr>fs_calls := n\<rparr>)" using e(1) by (simp add: run)
      then show thesis by (rule err) (use e sh in simp_all)
    next
      case o: (ok n)
      have "i + unat (1 :: u32) + (unat want - 1) \<le> unat (js_maxlen s)" using ws(2) w1 i by simp
      from wnd_run_run [OF world_calls [OF w] this, of n]
      obtain c r where r: "wnd_run X (of_nat i) (L ! i) (unat want - 1) 1 ref (fs\<lparr>fs_calls := n\<rparr>) = (Ret r, ref, fs\<lparr>fs_calls := c\<rparr>)"
        "1 \<le> unat r" "unat r \<le> unat want" "\<forall>j<unat r. L ! (i + j) = L ! i + of_nat j"
        using w1 by auto
      have whole: "whole_blocks (unat (js_blocksize s)) (fs\<lparr>fs_calls := c\<rparr>)" by (rule log_worldD(8) [OF world_calls [OF w]])
      have dir: "direct_block (js_blocksize s) (L ! i) = L ! i"
        by (rule direct_block_small) (use log_worldD(6) [OF w] nth_mem [OF idx] ring_okD(5) [OF log_worldD(1) [OF w]] in \<open>auto simp: word_less_nat_alt\<close>)
      have data: "\<forall>j<unat r. fs_blk (fs\<lparr>fs_calls := c\<rparr>) (L ! i + of_nat j) = J (i + j)"
      proof (intro allI impI)
        fix j assume j: "j < unat r"
        then have "i + j < length L" using r(3) ws(2) i log_worldD(5) [OF w] by simp
        then have "fs_blk fs (L ! (i + j)) = J (i + j)" using log_worldD(7) [OF w] by blast
        then show "fs_blk (fs\<lparr>fs_calls := c\<rparr>) (L ! i + of_nat j) = J (i + j)" using r(4) j by simp
      qed
      have r0: "0 < unat r" using r(2) by simp
      show thesis
      proof (cases rule: fill_run [OF dir whole sh r0 data i32, case_names ok err])
        case f: (ok m v')
        obtain x xs where x: "wn_data v' = x # xs" using f(5) by (cases "wn_data v'") auto
        have "jbd_replay_wnd_read X s v (of_nat i) ref fs = (Ret (Inr (J i), v'), ref, fs\<lparr>fs_calls := m\<rparr>)"
          using o r(1) f(1,4) x by (simp add: run)
        then show thesis by (rule ok) (use f world_length [OF w i] in simp_all)
      next
        case f: (err m e v')
        have "jbd_replay_wnd_read X s v (of_nat i) ref fs = (Ret (Inl e, v'), ref, fs\<lparr>fs_calls := m\<rparr>)"
          using o r(1) f(1,2) by (simp add: run)
        then show thesis by (rule err) (use f in simp_all)
      qed
    qed
  qed
qed

end

section \<open>Replaying\<close>

definition pending :: "recover_info \<Rightarrow> (u64 \<times> bytes) list" where
  "pending info = (case ri_wb info of None \<Rightarrow> [] | Some wb \<Rightarrow> wb_recs wb)"

definition wnd_fine :: "(nat \<Rightarrow> bytes) \<Rightarrow> recover_info \<Rightarrow> bool" where
  "wnd_fine J info \<longleftrightarrow> (\<forall>w. ri_wnd info = Some w \<longrightarrow> wnd_holds J w)"

definition replay_ok :: "jbd_sb \<Rightarrow> u64 set \<Rightarrow> recover_info \<Rightarrow> bool" where
  "replay_ok s T info \<longleftrightarrow> (\<forall>w. ri_wnd info = Some w \<longrightarrow> wnd_shape (unat (js_blocksize s)) w) \<and>
     (\<forall>wb. ri_wb info = Some wb \<longrightarrow> \<not> wb_checkpoint wb \<and> recs_ok (unat (js_blocksize s)) (js_blocksize s) (wb_recs wb) \<and>
       fst ` set (wb_recs wb) \<subseteq> T)"

text \<open>What holds of every part of the pass, errors included: only blocks of \<open>T\<close> change.\<close>

definition kept :: "jbd_sb \<Rightarrow> u64 set \<Rightarrow> recover_info \<Rightarrow> ext4_fs \<Rightarrow> recover_info \<Rightarrow> ext4_fs \<Rightarrow> bool" where
  "kept s T i fs i' fs' \<longleftrightarrow> replay_ok s T i' \<and> touched (unat (js_blocksize s)) T fs fs' \<and>
     ri_revoke_root i' = ri_revoke_root i \<and> ri_last_trans_id i' = ri_last_trans_id i \<and> ri_trans_cnt i' = ri_trans_cnt i"

text \<open>What a part of the pass that has to write \<open>xs\<close> does: the volume together with the batch changes as by writing
  them, unless there is an error.\<close>

definition replays :: "jbd_sb \<Rightarrow> (nat \<Rightarrow> bytes) \<Rightarrow> u64 set \<Rightarrow> (u64 \<times> bytes) list \<Rightarrow> recover_info \<Rightarrow> ext4_fs \<Rightarrow> recover_info \<Rightarrow>
     ext4_fs \<Rightarrow> bool" where
  "replays s J T xs i fs i' fs' \<longleftrightarrow> kept s T i fs i' fs' \<and>
     (ri_rc i' = EOK \<longrightarrow> ri_rc i = EOK \<and> (wnd_fine J i \<longrightarrow> wnd_fine J i' \<and>
        (\<exists>c. fold (vput (js_blocksize s)) (pending i') fs' = (fold (vput (js_blocksize s)) (pending i @ xs) fs)\<lparr>fs_calls := c\<rparr>) \<and>
        ri_blocks_replayed i' = ri_blocks_replayed i + of_nat (length xs)))"

lemma touched_any_calls: "whole_blocks N fs \<Longrightarrow> touched N T fs (fs\<lparr>fs_calls := c\<rparr>)"
  by (rule touched_mono [OF touched_calls]) (simp_all add: whole_blocks_def)

lemma kept_trans: "kept s T i fs i1 fs1 \<Longrightarrow> kept s T i1 fs1 i2 fs2 \<Longrightarrow> kept s T i fs i2 fs2"
  using touched_trans [of "unat (js_blocksize s)" T fs fs1 T fs2] by (simp add: kept_def)

lemma kept_same: "replay_ok s T i \<Longrightarrow> whole_blocks (unat (js_blocksize s)) fs \<Longrightarrow> kept s T i fs i (fs\<lparr>fs_calls := c\<rparr>)"
  by (simp add: kept_def touched_any_calls)

lemma replays_trans:
  assumes a: "replays s J T xs i fs i1 fs1" and b: "replays s J T ys i1 fs1 i2 fs2"
  shows "replays s J T (xs @ ys) i fs i2 fs2"
proof -
  have "kept s T i fs i2 fs2" using a b kept_trans unfolding replays_def by blast
  moreover have "ri_rc i = EOK \<and> (wnd_fine J i \<longrightarrow> wnd_fine J i2 \<and>
        (\<exists>c. fold (vput (js_blocksize s)) (pending i2) fs2 = (fold (vput (js_blocksize s)) (pending i @ xs @ ys) fs)\<lparr>fs_calls := c\<rparr>) \<and>
        ri_blocks_replayed i2 = ri_blocks_replayed i + of_nat (length (xs @ ys)))" if "ri_rc i2 = EOK"
  proof -
    have r: "ri_rc i1 = EOK" "ri_rc i = EOK" using a b that unfolding replays_def by blast+
    have "wnd_fine J i2 \<and> (\<exists>c. fold (vput (js_blocksize s)) (pending i2) fs2 = (fold (vput (js_blocksize s)) (pending i @ xs @ ys) fs)\<lparr>fs_calls := c\<rparr>) \<and>
        ri_blocks_replayed i2 = ri_blocks_replayed i + of_nat (length (xs @ ys))" if w: "wnd_fine J i"
    proof -
      obtain c where c: "wnd_fine J i1" "fold (vput (js_blocksize s)) (pending i1) fs1 = (fold (vput (js_blocksize s)) (pending i @ xs) fs)\<lparr>fs_calls := c\<rparr>"
        "ri_blocks_replayed i1 = ri_blocks_replayed i + of_nat (length xs)"
        using a r(1) w unfolding replays_def by blast
      obtain d where d: "wnd_fine J i2" "fold (vput (js_blocksize s)) (pending i2) fs2 = (fold (vput (js_blocksize s)) (pending i1 @ ys) fs1)\<lparr>fs_calls := d\<rparr>"
        "ri_blocks_replayed i2 = ri_blocks_replayed i1 + of_nat (length ys)"
        using b \<open>ri_rc i2 = EOK\<close> c(1) unfolding replays_def by blast
      have "fold (vput (js_blocksize s)) (pending i2) fs2 = (fold (vput (js_blocksize s)) (pending i @ xs @ ys) fs)\<lparr>fs_calls := d\<rparr>"
        using c(2) d(2) by (simp add: fold_vput_calls)
      then show ?thesis using c(3) d(1,3) by (auto simp: add.assoc)
    qed
    then show ?thesis using r(2) by blast
  qed
  ultimately show ?thesis unfolding replays_def by blast
qed

lemma replays_err: "kept s T i fs i' fs' \<Longrightarrow> ri_rc i' \<noteq> EOK \<Longrightarrow> replays s J T xs i fs i' fs'"
  by (simp add: replays_def)

lemma replays_none: "replay_ok s T i \<Longrightarrow> whole_blocks (unat (js_blocksize s)) fs \<Longrightarrow> replays s J T [] i fs i (fs\<lparr>fs_calls := c\<rparr>)"
  by (auto simp: replays_def kept_same fold_vput_calls intro!: exI [of _ c])

lemma wnd_changed:
  assumes "replay_ok s T i" "wnd_shape (unat (js_blocksize s)) w" "whole_blocks (unat (js_blocksize s)) fs"
  shows "kept s T i fs (i\<lparr>ri_wnd := Some w\<rparr>) (fs\<lparr>fs_calls := c\<rparr>)"
    "ri_rc i' = ri_rc i \<Longrightarrow> (wnd_fine J i \<longrightarrow> wnd_holds J w) \<Longrightarrow> i' = i\<lparr>ri_wnd := Some w\<rparr> \<Longrightarrow> replays s J T [] i fs i' (fs\<lparr>fs_calls := c\<rparr>)"
proof -
  show k: "kept s T i fs (i\<lparr>ri_wnd := Some w\<rparr>) (fs\<lparr>fs_calls := c\<rparr>)"
    using assms by (simp add: kept_def replay_ok_def touched_any_calls)
  show "ri_rc i' = ri_rc i \<Longrightarrow> (wnd_fine J i \<longrightarrow> wnd_holds J w) \<Longrightarrow> i' = i\<lparr>ri_wnd := Some w\<rparr> \<Longrightarrow> replays s J T [] i fs i' (fs\<lparr>fs_calls := c\<rparr>)"
    using k by (auto simp: replays_def fold_vput_calls pending_def wnd_fine_def intro!: exI [of _ c])
qed

text \<open>A block that may be the target of a tag.\<close>

definition home_ok :: "jbd_sb \<Rightarrow> u64 set \<Rightarrow> u64 \<Rightarrow> bool" where
  "home_ok s D b \<longleftrightarrow> b \<noteq> 0 \<and> b \<notin> D \<and> unat b * unat (js_blocksize s) < 2 ^ 64"

lemma unescape_eq:
  assumes "length d = N" "4 \<le> N"
  shows "(if t_is_escape t then wrn d 0 (be32 JBD_MAGIC_NUMBER) else Some d) = Some (unescape t d)" "length (unescape t d) = N"
  using assms by (simp_all add: unescape_def wrn_def)

abbreviation counted :: "recover_info \<Rightarrow> recover_info" where
  "counted i \<equiv> i\<lparr>ri_blocks_replayed := ri_blocks_replayed i + 1\<rparr>"

lemma batch_put:
  assumes w: "whole_blocks N fs" and sz: "N = unat (js_blocksize s)" "4 \<le> N" and ok: "replay_ok s T i" "ri_wb i = Some wb" "b \<in> T"
    and h: "home_ok s D b" and d: "length d = N"
  obtains e wb' fs' where "jbd_replay_wb_record s wb b d (t_is_escape t) ref fs = (Ret (e, wb'), ref, fs')"
    "replays s J T [(b, unescape t d)] i fs (if e \<noteq> EOK then (counted i)\<lparr>ri_wb := Some wb', ri_rc := e\<rparr> else (counted i)\<lparr>ri_wb := Some wb'\<rparr>) fs'"
proof -
  have wb: "\<not> wb_checkpoint wb" "recs_ok N (js_blocksize s) (wb_recs wb)" "fst ` set (wb_recs wb) \<subseteq> T"
    using ok(1,2) by (simp_all add: replay_ok_def sz(1))
  have b0: "0 < js_blocksize s" using sz by (simp add: word_less_nat_alt)
  note u = unescape_eq [OF d sz(2), of t]
  define x where "x = (b, unescape t d)"
  have x: "recs_ok N (js_blocksize s) [x]" using h u(2) b0 by (simp add: recs_ok_def home_ok_def x_def sz(1))
  have full: "replays s J T [x] i fs ((counted i)\<lparr>ri_wb := Some (wb\<lparr>wb_recs := rs @ [x]\<rparr>)\<rparr>) fs'"
    if r: "rs = wb_recs wb \<and> fs' = fs\<lparr>fs_calls := n\<rparr> \<or> rs = [] \<and> fs' = (fold (vput (js_blocksize s)) (wb_recs wb) fs)\<lparr>fs_calls := n\<rparr>" for rs fs' n
  proof -
    have "touched N (fst ` set (wb_recs wb) \<union> {}) fs ((fold (vput (js_blocksize s)) (wb_recs wb) fs)\<lparr>fs_calls := n\<rparr>)"
      by (rule touched_trans [OF touched_fold touched_calls]) (use wb(2) in \<open>simp add: recs_ok_def\<close>)
    then have "touched N T fs ((fold (vput (js_blocksize s)) (wb_recs wb) fs)\<lparr>fs_calls := n\<rparr>)"
      by (rule touched_mono) (use wb(3) w in \<open>simp_all add: whole_blocks_def\<close>)
    then have "touched N T fs fs'" using r touched_any_calls [OF w] by blast
    moreover have "replay_ok s T ((counted i)\<lparr>ri_wb := Some (wb\<lparr>wb_recs := rs @ [x]\<rparr>)\<rparr>)"
      using ok wb x r by (auto simp: replay_ok_def recs_ok_def x_def sz(1))
    ultimately have "kept s T i fs ((counted i)\<lparr>ri_wb := Some (wb\<lparr>wb_recs := rs @ [x]\<rparr>)\<rparr>) fs'" by (simp add: kept_def sz(1))
    moreover have "fold (vput (js_blocksize s)) (rs @ [x]) fs' = (fold (vput (js_blocksize s)) (wb_recs wb @ [x]) fs)\<lparr>fs_calls := n\<rparr>"
      using r by (elim disjE) (simp_all add: fold_vput_calls vput_calls)
    then have "\<exists>c. fold (vput (js_blocksize s)) (rs @ [x]) fs' = (fold (vput (js_blocksize s)) (wb_recs wb @ [x]) fs)\<lparr>fs_calls := c\<rparr>" by blast
    ultimately show ?thesis using ok(2) by (simp add: replays_def pending_def wnd_fine_def)
  qed
  note run = jbd_replay_wb_record_def ir_bind_def ir_mem_def u(1) ir_lift_def fs_mem_def ir_return_def
  show thesis
  proof (cases "length (wb_recs wb) = wb_cap wb")
    case False
    have "jbd_replay_wb_record s wb b d (t_is_escape t) ref fs = (Ret (EOK, wb\<lparr>wb_recs := wb_recs wb @ [x]\<rparr>), ref, fs)"
      using False by (simp add: run x_def)
    then show thesis by (rule that) (use full [of "wb_recs wb" fs "fs_calls fs"] in \<open>simp add: x_def\<close>)
  next
    case cap: True
    show thesis
    proof (cases rule: flush_spec [OF w wb(2,1), of ref, case_names ok err])
      case (ok n)
      have "jbd_replay_wb_record s wb b d (t_is_escape t) ref fs = (Ret (EOK, wb\<lparr>wb_recs := [] @ [x]\<rparr>), ref,
          (fold (vput (js_blocksize s)) (wb_recs wb) fs)\<lparr>fs_calls := n\<rparr>)"
        using cap ok by (simp add: run x_def)
      then show thesis by (rule that) (use full [of "[]" "(fold (vput (js_blocksize s)) (wb_recs wb) fs)\<lparr>fs_calls := n\<rparr>" n] in \<open>simp add: x_def\<close>)
    next
      case (err e wb' fs')
      have r: "jbd_replay_wb_record s wb b d (t_is_escape t) ref fs = (Ret (e, wb'), ref, fs')"
        using cap err by (simp add: run)
      have "touched N T fs fs'" by (rule touched_mono [OF err(4) wb(3)]) (use w in \<open>simp add: whole_blocks_def\<close>)
      moreover have "replay_ok s T ((counted i)\<lparr>ri_wb := Some wb', ri_rc := e\<rparr>)" using ok wb err(3) by (auto simp: replay_ok_def recs_ok_def sz(1))
      ultimately have "replays s J T [(b, unescape t d)] i fs ((counted i)\<lparr>ri_wb := Some wb', ri_rc := e\<rparr>) fs'"
        using err(2) by (intro replays_err) (simp_all add: kept_def sz(1))
      then show thesis using that [OF r] err(2) by simp
    qed
  qed
qed

lemma home_put:
  assumes w: "whole_blocks N fs" and sz: "N = unat (js_blocksize s)" "4 \<le> N" and ok: "replay_ok s T i" "t_block t \<in> T"
    and h: "home_ok s D (t_block t)" and d: "length d = N"
  obtains i' fs' where "replay_home s t d (counted i) ref fs = (Ret i', ref, fs')" "replays s J T [(t_block t, unescape t d)] i fs i' fs'"
proof (cases "ri_wb i")
  case (Some wb)
  obtain e wb' fs' where r: "jbd_replay_wb_record s wb (t_block t) d (t_is_escape t) ref fs = (Ret (e, wb'), ref, fs')"
    "replays s J T [(t_block t, unescape t d)] i fs (if e \<noteq> EOK then (counted i)\<lparr>ri_wb := Some wb', ri_rc := e\<rparr> else (counted i)\<lparr>ri_wb := Some wb'\<rparr>) fs'"
    by (rule batch_put [OF w sz ok(1) Some ok(2) h d])
  show thesis by (rule that [OF _ r(2)]) (simp add: replay_home_def Some ir_bind_def r(1) ir_return_def)
next
  case None
  note u = unescape_eq [OF d sz(2), of t]
  note run = replay_home_def None ir_bind_def ir_try_def ir_lift_def ir_return_def ext4_trans_block_get_noread_def
  show thesis
  proof (cases rule: trans_get_run [of "t_block t" fs, case_names ok err])
    case e: (err n e)
    have "replay_home s t d (counted i) ref fs = (Ret ((counted i)\<lparr>ri_rc := e\<rparr>), ref, fs\<lparr>fs_calls := n\<rparr>)" by (simp add: run e)
    moreover have "replays s J T [(t_block t, unescape t d)] i fs ((counted i)\<lparr>ri_rc := e\<rparr>) (fs\<lparr>fs_calls := n\<rparr>)"
      using ok(1) e(2) w by (intro replays_err) (simp_all add: kept_def replay_ok_def touched_any_calls sz(1))
    ultimately show thesis by (rule that)
  next
    case g: (ok n)
    have "length (fs_blk fs (t_block t)) = N" using w by (simp add: whole_blocks_def)
    then have o: "wrn (fs_blk fs (t_block t)) 0 d = Some d" "ldn d 0 (unat (js_blocksize s)) = Some d"
      using d sz(1) by (simp_all add: wrn_def ldn_def put_bytes_def)
    define fs' where "fs' = (vput (js_blocksize s) (t_block t, unescape t d) fs)\<lparr>fs_calls := n\<rparr>"
    have "replay_home s t d (counted i) ref fs = (Ret (counted i), ref, fs')"
      using u(1) by (simp add: run g o fs_gets_def blk_get_def ir_mem_def fs_mem_def fs_modify_def blk_release_def fs_return_def fs'_def vput_def medium_put_eq)
    moreover have "touched N ({t_block t} \<union> {}) fs fs'"
      unfolding fs'_def vput_def fst_conv snd_conv by (rule touched_trans [OF touched_put [OF u(2)] touched_calls])
    then have "touched N T fs fs'" by (rule touched_mono) (use ok(2) w in \<open>simp_all add: whole_blocks_def\<close>)
    then have "kept s T i fs (counted i) fs'" using ok(1) by (simp add: kept_def replay_ok_def sz(1))
    then have "replays s J T [(t_block t, unescape t d)] i fs (counted i) fs'"
      using None by (auto simp: replays_def pending_def wnd_fine_def fs'_def)
    ultimately show thesis by (rule that)
  qed
qed

context log_map
begin

lemma log_copy_run:
  assumes w: "world s L K J ref fs" and rok: "replay_ok s T i"
  obtains (ok) n b i' where "log_copy X s (of_nat (posn s k)) i ref fs = (Ret (Inr b, i'), ref, fs\<lparr>fs_calls := n\<rparr>)"
      "length b = unat (js_blocksize s)" "replays s J T [] i fs i' (fs\<lparr>fs_calls := n\<rparr>)" "wnd_fine J i \<longrightarrow> b = J (posn s k)"
  | (err) n e i' where "log_copy X s (of_nat (posn s k)) i ref fs = (Ret (Inl e, i'), ref, fs\<lparr>fs_calls := n\<rparr>)" "e \<noteq> EOK"
      "kept s T i fs i' (fs\<lparr>fs_calls := n\<rparr>)"
proof -
  note ring = log_worldD(1) [OF w] and whole = log_worldD(8) [OF w]
  note p = posn_bounds(2) [OF ring, of k]
  note run = log_copy_def ir_bind_def ir_try_def ir_lift_def ir_return_def blk_get_def fs_gets_def
  show thesis
  proof (cases "ri_wnd i")
    case None
    have j: "fs_blk fs (L ! posn s k) = J (posn s k)" using log_worldD(7) [OF w] posn_index [OF w] by simp
    show thesis
    proof (cases rule: block_get_run [OF w, of k, case_names ok err])
      case g: (ok n)
      have "log_copy X s (of_nat (posn s k)) i ref fs = (Ret (Inr (J (posn s k)), i), ref, fs\<lparr>fs_calls := n\<rparr>)"
        using g None j by (simp add: run)
      then show thesis by (rule that(1)) (use world_length [OF w p] replays_none [OF rok whole] in simp_all)
    next
      case g: (err n e)
      have "log_copy X s (of_nat (posn s k)) i ref fs = (Ret (Inl e, i), ref, fs\<lparr>fs_calls := n\<rparr>)"
        using g None by (simp add: run)
      then show thesis by (rule that(2)) (use g kept_same [OF rok whole] in simp_all)
    qed
  next
    case (Some v)
    then have sh: "wnd_shape (unat (js_blocksize s)) v" using rok by (simp add: replay_ok_def)
    show thesis
    proof (cases rule: wnd_read_run [OF w sh p, case_names ok err])
      case g: (ok n b v')
      have "log_copy X s (of_nat (posn s k)) i ref fs = (Ret (Inr b, i\<lparr>ri_wnd := Some v'\<rparr>), ref, fs\<lparr>fs_calls := n\<rparr>)"
        using g(1) Some by (simp add: run)
      then show thesis
        by (rule that(1)) (use g wnd_changed(2) [OF rok g(3) whole] Some in \<open>simp_all add: wnd_fine_def\<close>)
    next
      case g: (err n e v')
      have "log_copy X s (of_nat (posn s k)) i ref fs = (Ret (Inl e, i\<lparr>ri_wnd := Some v'\<rparr>), ref, fs\<lparr>fs_calls := n\<rparr>)"
        using g(1) Some by (simp add: run)
      then show thesis by (rule that(2)) (use g wnd_changed(1) [OF rok g(3) whole] in simp_all)
    qed
  qed
qed

lemma tag_run:
  assumes w: "world s L K J ref fs" and ok: "replay_ok s T i" and t: "\<not> revoked_in (ri_revoke_root i) (t_block t) tid \<longrightarrow> t_block t \<in> T \<and> home_ok s D (t_block t)"
  obtains i' fs' where "jbd_replay_block_tags X s tid t (i, of_nat (posn s k)) ref fs = (Ret (i', of_nat (posn s (Suc k))), ref, fs')"
    "replays s J T (if revoked_in (ri_revoke_root i) (t_block t) tid then [] else [(t_block t, unescape t (J (posn s (Suc k))))]) i fs i' fs'"
proof -
  note ring = log_worldD(1) [OF w] and whole = log_worldD(8) [OF w]
  have rev: "is_revoked i (t_block t) tid = revoked_in (ri_revoke_root i) (t_block t) tid"
    by (simp add: is_revoked_def revoked_in_def jbd_revoke_entry_lookup_def)
  note run = jbd_replay_block_tags_def Let_def wrap_posn [OF ring] rev ir_bind_def ir_return_def
  show thesis
  proof (cases "revoked_in (ri_revoke_root i) (t_block t) tid")
    case True
    show thesis by (rule that [of i fs]) (use True replays_none [OF ok whole, of J "fs_calls fs"] in \<open>simp_all add: run\<close>)
  next
    case False
    then have h: "t_block t \<in> T" "home_ok s D (t_block t)" using t by simp_all
    show thesis
    proof (cases rule: log_copy_run [OF w ok, of "Suc k", case_names ok err])
      case g: (err n e i1)
      have "kept s T i fs (i1\<lparr>ri_rc := e\<rparr>) (fs\<lparr>fs_calls := n\<rparr>)" using g(3) by (simp add: kept_def replay_ok_def)
      then show thesis
        by (intro that [of "i1\<lparr>ri_rc := e\<rparr>" "fs\<lparr>fs_calls := n\<rparr>"]) (use False g replays_err in \<open>simp_all add: run\<close>)
    next
      case g: (ok n b i1)
      have ok1: "replay_ok s T i1" using g(3) by (simp add: replays_def kept_def)
      have w1: "whole_blocks (unat (js_blocksize s)) (fs\<lparr>fs_calls := n\<rparr>)" by (rule log_worldD(8) [OF world_calls [OF w]])
      have four: "4 \<le> unat (js_blocksize s)" using ring_okD(5) [OF ring] by simp
      obtain i' fs' where r: "replay_home s t b (counted i1) ref (fs\<lparr>fs_calls := n\<rparr>) = (Ret i', ref, fs')"
        "replays s J T [(t_block t, unescape t b)] i1 (fs\<lparr>fs_calls := n\<rparr>) i' fs'"
        by (rule home_put [OF w1 HOL.refl four ok1 h g(2)])
      have "replays s J T [(t_block t, unescape t b)] i fs i' fs'" using replays_trans [OF g(3) r(2)] by simp
      then have "replays s J T [(t_block t, unescape t (J (posn s (Suc k))))] i fs i' fs'"
        using g(4) by (auto simp: replays_def)
      then show thesis
        by (intro that [of i' fs']) (use False g(1) r(1) h(2) in \<open>simp_all add: run home_ok_def\<close>)
    qed
  qed
qed

end

lemma replays_keeps:
  assumes "replays s J T xs i fs i' fs'"
  shows "replay_ok s T i'" "ri_revoke_root i' = ri_revoke_root i" "ri_last_trans_id i' = ri_last_trans_id i" "ri_trans_cnt i' = ri_trans_cnt i"
    "touched (unat (js_blocksize s)) T fs fs'" "kept s T i fs i' fs'"
  using assms by (simp_all add: replays_def kept_def)

context log_map
begin

lemma world_replays: "world s L K J ref fs \<Longrightarrow> \<forall>b\<in>T. home_ok s (K \<union> set L) b \<Longrightarrow> kept s T i fs i' fs' \<Longrightarrow> world s L K J ref fs'"
  by (rule world_touched [of s L K J ref fs T]) (auto simp: kept_def home_ok_def)

lemma replay_table:
  assumes D: "\<forall>b\<in>T. home_ok s (K \<union> set L) b"
    and rd: "\<forall>fs. world s L K J ref fs \<longrightarrow> rd ref fs = (Ret b, ref, fs)"
  shows "world s L K J ref fs \<Longrightarrow> replay_ok s T i \<Longrightarrow> ri_revoke_root i = R \<Longrightarrow> tags_from n s b off remain = Some ts \<Longrightarrow>
    fst ` set (tag_writes R (\<lambda>i. J (posn s i)) tid k ts) \<subseteq> T \<Longrightarrow>
    \<exists>i' fs'. table_walk n s rd off remain (jbd_replay_block_tags X s tid) (i, of_nat (posn s k)) ref fs =
        (Ret (i', of_nat (posn s (k + length ts))), ref, fs') \<and>
      replays s J T (tag_writes R (\<lambda>i. J (posn s i)) tid k ts) i fs i' fs'"
proof (induction n arbitrary: off remain ts k i fs)
  case 0
  then show ?case using replays_none [OF 0(2) log_worldD(8) [OF 0(1)], of J "fs_calls fs"] by (auto simp: ir_return_def)
next
  case (Suc n)
  note none = replays_none [OF Suc.prems(2) log_worldD(8) [OF Suc.prems(1)], of J "fs_calls fs"]
  show ?case
  proof (cases "remain = 0")
    case True
    then show ?thesis using Suc.prems none by (auto simp: ir_return_def)
  next
    case False
    then obtain r where r: "jbd_extract_block_tag s b off (jbd_tag_bytes s) remain = Some r" using Suc.prems(4) by (auto split: option.splits)
    have rd0: "rd ref fs = (Ret b, ref, fs)" using rd Suc.prems(1) by blast
    note run = False ir_bind_def rd0 ir_mem_def ir_lift_def fs_mem_def r ir_return_def
    show ?thesis
    proof (cases r)
      case (Inl e)
      then show ?thesis using Suc.prems(4) False r none by (auto simp: run)
    next
      case (Inr t)
      have "\<not> revoked_in R (t_block t) tid \<longrightarrow> t_block t \<in> T" using Suc.prems(4,5) False r Inr by (auto split: if_splits)
      then have t: "\<not> revoked_in (ri_revoke_root i) (t_block t) tid \<longrightarrow> t_block t \<in> T \<and> home_ok s (K \<union> set L) (t_block t)"
        using D Suc.prems(3) by blast
      obtain i1 fs1 where a: "jbd_replay_block_tags X s tid t (i, of_nat (posn s k)) ref fs = (Ret (i1, of_nat (posn s (Suc k))), ref, fs1)"
        "replays s J T (if revoked_in (ri_revoke_root i) (t_block t) tid then [] else [(t_block t, unescape t (J (posn s (Suc k))))]) i fs i1 fs1"
        using tag_run [OF Suc.prems(1,2) t, of k] by blast
      show ?thesis
      proof (cases "t_last_tag t")
        case True
        then have "ts = [t]" using Suc.prems(4) False r Inr by simp
        then show ?thesis using True Inr a Suc.prems(3) by (auto simp: run)
      next
        case more: False
        then obtain us where us: "tags_from n s b (off + t_tag_bytes t) (remain - int (t_tag_bytes t)) = Some us" "ts = t # us"
          using Suc.prems(4) False r Inr by auto
        note k1 = replays_keeps [OF a(2)]
        have ur: "ri_revoke_root i1 = R" "fst ` set (tag_writes R (\<lambda>i. J (posn s i)) tid (Suc k) us) \<subseteq> T" using k1(2) Suc.prems(3,5) us(2) by (auto split: if_splits)
        obtain i2 fs2 where b: "table_walk n s rd (off + t_tag_bytes t) (remain - int (t_tag_bytes t)) (jbd_replay_block_tags X s tid)
            (i1, of_nat (posn s (Suc k))) ref fs1 = (Ret (i2, of_nat (posn s (Suc k + length us))), ref, fs2)"
          "replays s J T (tag_writes R (\<lambda>i. J (posn s i)) tid (Suc k) us) i1 fs1 i2 fs2"
          using Suc.IH [OF world_replays [OF Suc.prems(1) D k1(6)] k1(1) ur(1) us(1) ur(2)] by blast
        have "replays s J T (tag_writes R (\<lambda>i. J (posn s i)) tid k ts) i fs i2 fs2"
          using replays_trans [OF a(2) b(2)] us(2) Suc.prems(3) by simp
        moreover have "table_walk (Suc n) s rd off remain (jbd_replay_block_tags X s tid) (i, of_nat (posn s k)) ref fs =
            (Ret (i2, of_nat (posn s (k + length ts))), ref, fs2)"
          using a(1) b(1) more us(2) Inr by (simp add: run)
        ultimately show ?thesis by blast
      qed
    qed
  qed
qed

lemma loud_header:
  assumes w: "world s L K J ref fs" and rok: "replay_ok s T i" and fine: "wnd_fine J i"
  obtains (ok) n i' rd where "log_header X s ACTION_RECOVER (of_nat (posn s k)) i ref fs = (Ret (Inr (J (posn s k), rd), i'), ref, fs\<lparr>fs_calls := n\<rparr>)"
      "replays s J T [] i fs i' (fs\<lparr>fs_calls := n\<rparr>)" "ri_rc i' = ri_rc i" "wnd_fine J i'" "\<forall>fs. world s L K J ref fs \<longrightarrow> rd ref fs = (Ret (J (posn s k)), ref, fs)"
  | (err) n e i' where "log_header X s ACTION_RECOVER (of_nat (posn s k)) i ref fs = (Ret (Inl e, i'), ref, fs\<lparr>fs_calls := n\<rparr>)" "e \<noteq> EOK"
      "kept s T i fs i' (fs\<lparr>fs_calls := n\<rparr>)"
proof -
  note ring = log_worldD(1) [OF w] and whole = log_worldD(8) [OF w]
  note p = posn_bounds(2) [OF ring, of k]
  note run = log_header_def ir_bind_def ir_try_def ir_lift_def ir_return_def blk_get_def fs_gets_def
  show thesis
  proof (cases "ri_wnd i")
    case None
    have j: "fs_blk f (L ! posn s k) = J (posn s k)" if "world s L K J ref f" for f
      using log_worldD(7) [OF that] posn_index [OF that] by simp
    show thesis
    proof (cases rule: block_get_run [OF w, of k, case_names ok err])
      case g: (ok n)
      have "log_header X s ACTION_RECOVER (of_nat (posn s k)) i ref fs =
          (Ret (Inr (J (posn s k), ir_lift (blk_get (L ! posn s k))), i), ref, fs\<lparr>fs_calls := n\<rparr>)"
        using g None j [OF w] by (simp add: run)
      then show thesis by (rule that(1)) (use fine replays_none [OF rok whole] j in \<open>simp_all add: run\<close>)
    next
      case g: (err n e)
      have "log_header X s ACTION_RECOVER (of_nat (posn s k)) i ref fs = (Ret (Inl e, i), ref, fs\<lparr>fs_calls := n\<rparr>)"
        using g None by (simp add: run)
      then show thesis by (rule that(2)) (use g kept_same [OF rok whole] in simp_all)
    qed
  next
    case (Some v)
    then have sh: "wnd_shape (unat (js_blocksize s)) v" "wnd_holds J v" using rok fine by (simp_all add: replay_ok_def wnd_fine_def)
    show thesis
    proof (cases rule: wnd_read_run [OF w sh(1) p, case_names ok err])
      case g: (ok n b v')
      have "log_header X s ACTION_RECOVER (of_nat (posn s k)) i ref fs =
          (Ret (Inr (J (posn s k), ir_return (J (posn s k))), i\<lparr>ri_wnd := Some v'\<rparr>), ref, fs\<lparr>fs_calls := n\<rparr>)"
        using g(1,4) sh(2) Some by (simp add: run)
      then show thesis
        by (rule that(1)) (use g sh(2) wnd_changed(2) [OF rok g(3) whole] in \<open>simp_all add: ir_return_def wnd_fine_def\<close>)
    next
      case g: (err n e v')
      have "log_header X s ACTION_RECOVER (of_nat (posn s k)) i ref fs = (Ret (Inl e, i\<lparr>ri_wnd := Some v'\<rparr>), ref, fs\<lparr>fs_calls := n\<rparr>)"
        using g(1) Some by (simp add: run)
      then show thesis by (rule that(2)) (use g wnd_changed(1) [OF rok g(3) whole] in simp_all)
    qed
  qed
qed

end

context log_map
begin

lemma recover_step:
  assumes w: "world s L K J ref fs" and D: "\<forall>b\<in>T. home_ok s (K \<union> set L) b" and rok: "replay_ok s T i" and fine: "wnd_fine J i"
    and rc: "ri_rc i = EOK" and h: "header_is s (J (posn s k)) tid it" and ts: "fst ` set (log_writes (ri_revoke_root i) (\<lambda>i. J (posn s i)) k tid [it]) \<subseteq> T"
  obtains (ok) i' fs' where "log_step X s ACTION_RECOVER (of_nat (posn s k)) tid i ref fs =
      (Ret (EOK, (k + item_len it) mod ring s = 0, of_nat (posn s (k + item_len it)), next_tid tid it, i'), ref, fs')"
      "replays s J T (log_writes (ri_revoke_root i) (\<lambda>i. J (posn s i)) k tid [it]) i fs i' fs'" "ri_rc i' = EOK"
  | (err) e b t i' fs' where "log_step X s ACTION_RECOVER (of_nat (posn s k)) tid i ref fs = (Ret (e, True, b, t, i'), ref, fs')" "e \<noteq> EOK"
      "kept s T i fs i' fs'"
proof (cases rule: loud_header [OF w rok fine, of k, case_names ok err])
  case (err n e i')
  then show thesis using that(2) by (simp add: log_step_def ir_bind_def ir_return_def)
next
  case hd: (ok n i1 rd)
  note ring = log_worldD(1) [OF w]
  define b where "b = J (posn s k)"
  have len: "length b = unat (js_blocksize s)"
    unfolding b_def by (rule world_length [OF w posn_bounds(2) [OF ring]])
  have l: "20 \<le> length b" using len ring_okD(5) [OF ring] by simp
  have hs: "get_be32 b 0 = JBD_MAGIC_NUMBER" "get_be32 b 8 = tid" using h by (simp_all add: header_is_def b_def)
  note step = log_step_run [OF hd(1) [folded b_def] l hs]
  have nx: "jbd_wrap s (of_nat (posn s i) + 1) = of_nat (posn s (Suc i))" for i by (rule wrap_posn [OF ring])
  have st: "of_nat (posn s i) = js_start s \<longleftrightarrow> i mod ring s = 0" for i by (rule posn_start [OF ring])
  note rec = log_record_def ir_bind_def ir_mem_def ir_lift_def fs_mem_def ir_return_def
  note k1 = replays_keeps [OF hd(2)]
  have quiet: thesis if "log_record X s ACTION_RECOVER (of_nat (posn s k)) tid i1 b rd ref (fs\<lparr>fs_calls := n\<rparr>) =
      (Ret (EOK, False, of_nat (posn s k), next_tid tid it, i1), ref, fs\<lparr>fs_calls := n\<rparr>)" "item_len it = 1" "log_writes (ri_revoke_root i) (\<lambda>i. J (posn s i)) k tid [it] = []"
    by (rule ok [of i1 "fs\<lparr>fs_calls := n\<rparr>"]) (use that hd rc in \<open>simp_all add: step nx st\<close>)
  show thesis
  proof (cases it)
    case (Logged ts)
    then have t: "get_be32 b 4 = JBD_DESCRIPTOR_BLOCK" "jbd_verify_meta_csum s b = Some True" "desc_tags s b = Some ts"
      using h by (simp_all add: header_is_def b_def)
    have tt: "fst ` set (tag_writes (ri_revoke_root i) (\<lambda>i. J (posn s i)) tid k ts) \<subseteq> T" using assms(7) Logged by simp
    obtain i2 fs2 where r: "jbd_iterate_block_table s rd (jbd_replay_block_tags X s tid) (i1, of_nat (posn s k)) ref (fs\<lparr>fs_calls := n\<rparr>) =
        (Ret (i2, of_nat (posn s (k + length ts))), ref, fs2)"
      "replays s J T (tag_writes (ri_revoke_root i) (\<lambda>i. J (posn s i)) tid k ts) i1 (fs\<lparr>fs_calls := n\<rparr>) i2 fs2"
      using replay_table [where rd = rd and ref = ref, OF D hd(5) [folded b_def] world_calls [OF w, of n] k1(1,2) t(3) [unfolded desc_tags_def] tt]
      unfolding jbd_iterate_block_table_def by blast
    have "log_record X s ACTION_RECOVER (of_nat (posn s k)) tid i1 b rd ref (fs\<lparr>fs_calls := n\<rparr>) =
        (Ret (ri_rc i2, ri_rc i2 \<noteq> EOK, of_nat (posn s (k + length ts)), tid, i2), ref, fs2)"
      using t(1,2) l r(1) by (simp add: rec)
    then have go: "log_step X s ACTION_RECOVER (of_nat (posn s k)) tid i ref fs = (Ret (ri_rc i2,
        ri_rc i2 \<noteq> EOK \<or> (k + item_len it) mod ring s = 0, of_nat (posn s (k + item_len it)), tid, i2), ref, fs2)"
      using Logged by (simp add: step nx st)
    have all: "replays s J T (log_writes (ri_revoke_root i) (\<lambda>i. J (posn s i)) k tid [it]) i fs i2 fs2"
      using replays_trans [OF hd(2) r(2)] Logged by simp
    show thesis
    proof (cases "ri_rc i2 = EOK")
      case True
      then show thesis using ok [OF _ all] go Logged by simp
    next
      case False
      then show thesis using err [OF _ False replays_keeps(6) [OF all]] go by simp
    qed
  next
    case Committed
    then have "get_be32 b 4 = JBD_COMMIT_BLOCK" "jbd_verify_commit_csum s b = Some True"
      using h by (simp_all add: header_is_def b_def)
    then show thesis by (intro quiet) (use l Committed in \<open>simp_all add: rec\<close>)
  next
    case (Revoked bs)
    then have "get_be32 b 4 = JBD_REVOKE_BLOCK" "jbd_verify_meta_csum s b = Some True"
      using h by (simp_all add: header_is_def b_def)
    then show thesis by (intro quiet) (use l Revoked in \<open>simp_all add: rec\<close>)
  qed
qed

lemma recover_walk:
  "world s L K J ref fs \<Longrightarrow> \<forall>b\<in>T. home_ok s (K \<union> set L) b \<Longrightarrow> log_at s (\<lambda>i. J (posn s i)) k tid items \<Longrightarrow> k + log_len items \<le> ring s \<Longrightarrow>
   tid + of_nat (commits items) = lst + 1 \<Longrightarrow> commits items < 2 ^ 31 \<Longrightarrow> fst ` set (log_writes R (\<lambda>i. J (posn s i)) k tid (committed items)) \<subseteq> T \<Longrightarrow>
   replay_ok s T i \<Longrightarrow> wnd_fine J i \<Longrightarrow> ri_rc i = EOK \<Longrightarrow> ri_last_trans_id i = lst \<Longrightarrow> ri_revoke_root i = R \<Longrightarrow> length items < fuel \<Longrightarrow>
   \<exists>e t i' fs'. log_walk fuel X s ACTION_RECOVER (of_nat (posn s k)) tid i ref fs = (Ret (Some (e, t, i')), ref, fs') \<and> kept s T i fs i' fs' \<and>
     (e = EOK \<longrightarrow> ri_rc i' = EOK \<and> replays s J T (log_writes R (\<lambda>i. J (posn s i)) k tid (committed items)) i fs i' fs')"
proof (induction items arbitrary: k tid i fs fuel)
  case Nil
  obtain g where g: "fuel = Suc g" using Nil.prems(13) by (cases fuel) auto
  have "0 < trans_id_diff tid lst" using trans_diff_left [OF Nil.prems(5,6)] by simp
  then show ?case using Nil.prems(10,11) replays_none [OF Nil.prems(8) log_worldD(8) [OF Nil.prems(1)], of J "fs_calls fs"] 
    by (auto simp: g ir_return_def replays_keeps(6))
next
  case (Cons it items)
  obtain g where g: "fuel = Suc g" "length items < g" using Cons.prems(13) by (cases fuel) auto
  have h: "header_is s (J (posn s k)) tid it" "log_at s (\<lambda>i. J (posn s i)) (k + item_len it) (next_tid tid it) items"
    using Cons.prems(3) by simp_all
  have kl: "0 < k + item_len it" "k + item_len it \<le> ring s" using Cons.prems(4) item_len_pos [of it] by simp_all
  note diff = trans_diff_left [OF Cons.prems(5,6)]
  note none = replays_none [OF Cons.prems(8) log_worldD(8) [OF Cons.prems(1)], of J "fs_calls fs"]
  have in_c: "Committed \<in> set (it # items) \<longleftrightarrow> commits (it # items) \<noteq> 0"
    unfolding commits_def by (auto simp: filter_empty_conv)
  show ?case
  proof (cases "commits (it # items) = 0")
    case True
    then have "0 < trans_id_diff tid lst" "committed (it # items) = []" using diff in_c by simp_all
    then show ?thesis using Cons.prems(10,11) none by (auto simp: g ir_return_def replays_keeps(6))
  next
    case more: False
    then have nd: "\<not> 0 < trans_id_diff tid (ri_last_trans_id i)" "committed (it # items) = it # committed items"
      using diff in_c Cons.prems(11) by simp_all
    have wr: "log_writes R (\<lambda>i. J (posn s i)) k tid (it # committed items) =
        log_writes R (\<lambda>i. J (posn s i)) k tid [it] @ log_writes R (\<lambda>i. J (posn s i)) (k + item_len it) (next_tid tid it) (committed items)"
      by (cases it) simp_all
    have ts: "fst ` set (log_writes (ri_revoke_root i) (\<lambda>i. J (posn s i)) k tid [it]) \<subseteq> T"
      "fst ` set (log_writes R (\<lambda>i. J (posn s i)) (k + item_len it) (next_tid tid it) (committed items)) \<subseteq> T"
      using Cons.prems(7,12) unfolding nd(2) wr by auto
    show ?thesis
    proof (cases rule: recover_step [OF Cons.prems(1,2,8,9,10) h(1) ts(1), case_names ok err])
      case (err e b t i' fs')
      then show ?thesis using nd(1) by (auto simp: g ir_bind_def ir_return_def)
    next
      case (ok i1 fs1)
      note k1 = replays_keeps [OF ok(2)]
      show ?thesis
      proof (cases "k + item_len it = ring s")
        case True
        then have "items = []" using Cons.prems(4) log_len_0 by simp
        then show ?thesis using ok mod_ring [OF kl] True nd Cons.prems(12) k1(6) by (auto simp: g ir_bind_def ir_return_def)
      next
        case False
        have p: "next_tid tid it + of_nat (commits items) = lst + 1" "commits items < 2 ^ 31"
          using Cons.prems(5,6) scan_info_simps(3) [of tid it items] by (cases it; simp)+
        have q: "k + item_len it + log_len items \<le> ring s" using Cons.prems(4) by simp
        have f: "wnd_fine J i1" using ok(2,3) Cons.prems(9) by (simp add: replays_def)
        have r: "ri_last_trans_id i1 = lst" "ri_revoke_root i1 = R" using k1 Cons.prems(11,12) by simp_all
        obtain e t i2 fs2 where b: "log_walk g X s ACTION_RECOVER (of_nat (posn s (k + item_len it))) (next_tid tid it) i1 ref fs1 = (Ret (Some (e, t, i2)), ref, fs2)"
          "kept s T i1 fs1 i2 fs2" "e = EOK \<longrightarrow> ri_rc i2 = EOK \<and> replays s J T (log_writes R (\<lambda>i. J (posn s i)) (k + item_len it) (next_tid tid it) (committed items)) i1 fs1 i2 fs2"
          using Cons.IH [OF world_replays [OF Cons.prems(1,2) k1(6)] Cons.prems(2) h(2) q p ts(2) k1(1) f ok(3) r g(2)] by blast
        have "e = EOK \<longrightarrow> ri_rc i2 = EOK \<and> replays s J T (log_writes R (\<lambda>i. J (posn s i)) k tid (committed (it # items))) i fs i2 fs2"
          using b(3) replays_trans [OF ok(2) [unfolded Cons.prems(12)]] unfolding nd(2) wr by blast
        moreover have "log_walk fuel X s ACTION_RECOVER (of_nat (posn s k)) tid i ref fs = (Ret (Some (e, t, i2)), ref, fs2)"
          using ok(1) False mod_ring [OF kl] nd(1) b(1) by (simp add: g ir_bind_def)
        ultimately show ?thesis using kept_trans [OF k1(6) b(2)] by blast
      qed
    qed
  qed
qed

end

section \<open>The passes together\<close>

lemma committed_none: "commits items = 0 \<Longrightarrow> committed items = []"
  by (cases items) (auto simp: commits_def filter_empty_conv split: if_splits)

lemma committed_subset: "set (committed items) \<subseteq> set items"
  by (induction items) auto

lemma length_log_len: "length items \<le> log_len items"
proof (induction items)
  case (Cons it items)
  then show ?case using item_len_pos [of it] by simp
qed simp

lemma revokes_none: "(\<forall>bs. Revoked bs \<notin> set items) \<Longrightarrow> revokes tid items R = R"
  by (induction tid items R rule: revokes.induct) auto

lemma commits_word: "n < 2 ^ 31 \<Longrightarrow> (of_nat n :: u32) = 0 \<longleftrightarrow> n = 0"
proof -
  assume "n < 2 ^ 31"
  then have "unat (of_nat n :: u32) = n" by (simp add: unat_of_nat)
  then show ?thesis by (metis unat_eq_zero)
qed

lemma sint_commits: "n < 2 ^ 31 \<Longrightarrow> sint (of_nat n :: u32) = int n"
proof -
  assume n: "n < 2 ^ 31"
  have "sint (of_int (int n) :: u32) = signed_take_bit 31 (int n)" by (simp only: signed_of_int) simp
  then show ?thesis using n by (simp add: signed_take_bit_int_eq_self)
qed

lemma wnd_new_run:
  assumes "ring_ok s"
  obtains n r where "jbd_replay_wnd_new s c ref fs = (Ret r, ref, fs\<lparr>fs_calls := n\<rparr>)"
    "\<forall>w. r = Some w \<longrightarrow> wnd_shape (unat (js_blocksize s)) w \<and> wnd_holds J w"
proof -
  have b: "js_blocksize s \<noteq> 0" using ring_okD(5) [OF assms] by auto
  define cap where "cap = (let cap = JBD_REPLAY_WND_BYTES div js_blocksize s in if c \<noteq> 0 \<and> c < cap then c else cap)"
  note run = jbd_replay_wnd_new_def b Let_def cap_def [symmetric, unfolded Let_def] ir_bind_def mem_alloc_try ir_return_def
  show thesis
  proof (cases "cap = 0")
    case True
    show thesis by (rule that [of None "fs_calls fs"]) (use True in \<open>simp_all add: run\<close>)
  next
    case False
    show thesis
      by (rule that [of "if fs_answer fs (fs_calls fs) = EOK then Some \<lparr>wn_data = [], wn_first = 0, wn_cnt = 0, wn_cap = cap\<rparr> else None" "fs_calls fs + 1"])
        (use False in \<open>simp_all add: run wnd_shape_def wnd_holds_def\<close>)
  qed
qed

lemma wb_new_run:
  assumes "ring_ok s"
  obtains n r where "jbd_replay_wb_new s ref fs = (Ret r, ref, fs\<lparr>fs_calls := n\<rparr>)"
    "\<forall>wb. r = Some wb \<longrightarrow> wb_recs wb = [] \<and> \<not> wb_checkpoint wb"
proof -
  have b: "js_blocksize s \<noteq> 0" using ring_okD(5) [OF assms] by auto
  define cap where "cap = JBD_REPLAY_WB_BYTES div js_blocksize s"
  note run = jbd_replay_wb_new_def b cap_def [symmetric] ir_bind_def mem_alloc_try ir_return_def
  show thesis
  proof (cases "cap = 0")
    case True
    show thesis by (rule that [of None "fs_calls fs"]) (use True in \<open>simp_all add: run\<close>)
  next
    case False
    show thesis
      by (rule that [of "if fs_answer fs (fs_calls fs) = EOK then Some \<lparr>wb_recs = [], wb_cap = unat cap, wb_checkpoint = False\<rparr> else None" "fs_calls fs + 1"])
        (use False in \<open>simp_all add: run\<close>)
  qed
qed

text \<open>What is left in the batch at the end.\<close>

lemma last_flush:
  assumes w: "whole_blocks N fs" and sz: "N = unat (js_blocksize s)" and ok: "replay_ok s T i"
  obtains e fs' where "(case ri_wb i of Some wb \<Rightarrow> ir_bind (jbd_replay_wb_flush s wb) (\<lambda>(e, _). ir_return e) | None \<Rightarrow> ir_return EOK) ref fs =
      (Ret e, ref, fs')" "touched N T fs fs'" "e = EOK \<longrightarrow> (\<exists>c. fs' = (fold (vput (js_blocksize s)) (pending i) fs)\<lparr>fs_calls := c\<rparr>)"
proof (cases "ri_wb i")
  case None
  have "fs = (fold (vput (js_blocksize s)) (pending i) fs)\<lparr>fs_calls := fs_calls fs\<rparr>" "touched N T fs fs"
    using None touched_any_calls [OF w, of T "fs_calls fs"] by (simp_all add: pending_def)
  then show thesis by (intro that [of EOK fs]) (use None in \<open>auto simp: ir_return_def\<close>)
next
  case (Some wb)
  have wb: "\<not> wb_checkpoint wb" "recs_ok N (js_blocksize s) (wb_recs wb)" "fst ` set (wb_recs wb) \<subseteq> T"
    using ok Some by (simp_all add: replay_ok_def sz)
  show thesis
  proof (cases rule: flush_spec [OF w wb(2,1), of ref, case_names ok err])
    case (ok n)
    have "touched N (fst ` set (wb_recs wb) \<union> {}) fs ((fold (vput (js_blocksize s)) (wb_recs wb) fs)\<lparr>fs_calls := n\<rparr>)"
      by (rule touched_trans [OF touched_fold touched_calls]) (use wb(2) in \<open>simp add: recs_ok_def\<close>)
    then have "touched N T fs ((fold (vput (js_blocksize s)) (wb_recs wb) fs)\<lparr>fs_calls := n\<rparr>)"
      by (rule touched_mono) (use wb(3) w in \<open>simp_all add: whole_blocks_def\<close>)
    then show thesis
      by (intro that [of EOK "(fold (vput (js_blocksize s)) (wb_recs wb) fs)\<lparr>fs_calls := n\<rparr>"])
        (use Some ok in \<open>auto simp: ir_bind_def ir_return_def pending_def\<close>)
  next
    case (err e wb' fs')
    have "touched N T fs fs'" by (rule touched_mono [OF err(4) wb(3)]) (use w in \<open>simp add: whole_blocks_def\<close>)
    then show thesis by (intro that [of e fs']) (use Some err in \<open>auto simp: ir_bind_def ir_return_def\<close>)
  qed
qed

definition log_fits :: "jbd_sb \<Rightarrow> (nat \<Rightarrow> bytes) \<Rightarrow> log_item list \<Rightarrow> bool" where
  "log_fits s J items \<longleftrightarrow> log_at s (\<lambda>k. J (posn s k)) 0 (js_sequence s) items \<and> log_len items \<le> ring s \<and> commits items < 2 ^ 31 \<and>
     (log_len items = ring s \<or> log_ends s (J (posn s (log_len items))) (js_sequence s + of_nat (commits items)))"

lemma log_fitsD:
  assumes "log_fits s J items"
  shows "log_at s (\<lambda>k. J (posn s k)) 0 (js_sequence s) items" "log_len items \<le> ring s" "commits items < 2 ^ 31"
    "log_len items = ring s \<or> log_ends s (J (posn s (log_len items))) (js_sequence s + of_nat (commits items))"
  using assms by (simp_all add: log_fits_def)

definition last_id :: "jbd_sb \<Rightarrow> log_item list \<Rightarrow> u32" where
  "last_id s items = (if commits items = 0 then js_sequence s else js_sequence s + of_nat (commits items) - 1)"

lemma last_id: "commits items \<noteq> 0 \<Longrightarrow> js_sequence s + of_nat (commits items) = last_id s items + 1"
  by (simp add: last_id_def)

definition to_write :: "jbd_sb \<Rightarrow> (nat \<Rightarrow> bytes) \<Rightarrow> log_item list \<Rightarrow> (u64 \<times> bytes) list" where
  "to_write s J items =
     log_writes (revokes (js_sequence s) (committed items) Map.empty) (\<lambda>k. J (posn s k)) 0 (js_sequence s) (committed items)"

abbreviation targets :: "jbd_sb \<Rightarrow> (nat \<Rightarrow> bytes) \<Rightarrow> log_item list \<Rightarrow> u64 set" where
  "targets s J items \<equiv> fst ` set (to_write s J items)"

context log_map
begin

lemma scan_pass:
  assumes w: "world s L K J ref fs" and l: "log_fits s J items" and f: "length items < fuel"
  obtains n e i where "jbd_iterate_log fuel X s ACTION_SCAN no_info ref fs = (Ret (Some (e, i)), ref, fs\<lparr>fs_calls := n\<rparr>)"
    "e = EOK \<longrightarrow> ri_trans_cnt i = of_nat (commits items) \<and> ri_last_trans_id i = last_id s items \<and> ri_revoke_root i = Map.empty \<and>
       ri_rc i = EOK \<and> ri_blocks_replayed i = 0 \<and>
       ri_revoke_block_cnt i = of_nat (length (filter (\<lambda>it. \<exists>bs. it = Revoked bs) items))"
proof -
  note ring = log_worldD(1) [OF w] and l = log_fitsD [OF l]
  define i0 where "i0 = no_info\<lparr>ri_trans_cnt := 0, ri_revoke_block_cnt := 0\<rparr>"
  have "0 < ring s" "0 + log_len items \<le> ring s"
    "0 + log_len items = ring s \<or> log_ends s (J (posn s (0 + log_len items))) (js_sequence s + of_nat (commits items))"
    using ring_okD(4) [OF ring] l by simp_all
  from scan_walk [OF w l(1) this f, of i0]
  obtain n e t i where r: "log_walk fuel X s ACTION_SCAN (of_nat (posn s 0)) (js_sequence s) i0 ref fs = (Ret (Some (e, t, i)), ref, fs\<lparr>fs_calls := n\<rparr>)"
    "e = EOK \<longrightarrow> t = js_sequence s + of_nat (commits items) \<and> i = scan_info items i0" by blast
  define i1 where "i1 = (if e = EOK then i\<lparr>ri_start_trans_id := js_sequence s,
      ri_last_trans_id := (if 0 < trans_id_diff t (js_sequence s) then t - 1 else t)\<rparr> else i)"
  have d: "0 < trans_id_diff (js_sequence s + of_nat (commits items)) (js_sequence s) \<longleftrightarrow> commits items \<noteq> 0"
    using sint_commits [OF l(3)] by (simp add: trans_id_diff_def)
  have "jbd_iterate_log fuel X s ACTION_SCAN no_info ref fs = (Ret (Some (e, i1)), ref, fs\<lparr>fs_calls := n\<rparr>)"
    using r(1) posn_0 [OF ring] by (simp add: jbd_iterate_log_def i0_def [symmetric] ir_bind_def ir_return_def i1_def)
  then show thesis
    by (rule that) (use r(2) d in \<open>simp add: i1_def i0_def no_info_def scan_info_def last_id_def\<close>)
qed

lemma revoke_pass:
  assumes w: "world s L K J ref fs" and l: "log_fits s J items" and f: "length items < fuel"
    and i: "ri_trans_cnt i = of_nat (commits items)" "ri_last_trans_id i = last_id s items" "ri_revoke_root i = Map.empty" "ri_rc i = EOK"
  obtains n e i' where "jbd_iterate_log fuel X s ACTION_REVOKE i ref fs = (Ret (Some (e, i')), ref, fs\<lparr>fs_calls := n\<rparr>)"
    "e = EOK \<longrightarrow> (\<exists>x. i' = i\<lparr>ri_revoke_root := revokes (js_sequence s) (committed items) Map.empty, ri_this_trans_id := x\<rparr>)"
proof -
  note ring = log_worldD(1) [OF w] and l = log_fitsD [OF l]
  show thesis
  proof (cases "commits items = 0")
    case True
    have "i = i\<lparr>ri_revoke_root := Map.empty, ri_this_trans_id := ri_this_trans_id i\<rparr>" using i(3) by simp
    then have "\<exists>x. i = i\<lparr>ri_revoke_root := Map.empty, ri_this_trans_id := x\<rparr>" by blast
    then show thesis by (intro that [of EOK i "fs_calls fs"])
        (use True i(1) committed_none [OF True] in \<open>simp_all add: jbd_iterate_log_def ir_return_def\<close>)
  next
    case False
    have "0 + log_len items \<le> ring s" using l(2) by simp
    from revoke_walk [OF w l(1) this last_id [OF False] l(3) i(2,4) f]
    obtain n e t i' where r: "log_walk fuel X s ACTION_REVOKE (of_nat (posn s 0)) (js_sequence s) i ref fs = (Ret (Some (e, t, i')), ref, fs\<lparr>fs_calls := n\<rparr>)"
      "e = EOK \<longrightarrow> (\<exists>x. i' = i\<lparr>ri_revoke_root := revokes (js_sequence s) (committed items) (ri_revoke_root i), ri_this_trans_id := x\<rparr>)" by blast
    have "jbd_iterate_log fuel X s ACTION_REVOKE i ref fs = (Ret (Some (e, i')), ref, fs\<lparr>fs_calls := n\<rparr>)"
      using r(1) posn_0 [OF ring] False i(1) commits_word [OF l(3)] by (simp add: jbd_iterate_log_def ir_bind_def ir_return_def)
    then show thesis by (rule that) (use r(2) i(3) in simp)
  qed
qed

end

lemma finish_run:
  obtains e jf' fs' where "recover_finish jf i ref fs = (Ret (e, jf'), ref, fs')" "fs_blk fs' = fs_blk fs"
    "e = EOK \<longrightarrow> jf' = jf\<lparr>jf_sb := (jf_sb jf)\<lparr>js_start := 0, js_sequence := ri_last_trans_id i\<rparr>, jf_dirty := True\<rparr> \<and>
       s_features_incompatible (fs_disk_sb fs') AND EXT4_FINCOM_RECOVER = 0"
proof -
  let ?m1 = "Suc (fs_calls fs)"
  define f2 where "f2 = (if fs_answer fs ?m1 = EOK then fs\<lparr>fs_calls := Suc ?m1, fs_sb := fs_disk_sb fs\<rparr> else fs\<lparr>fs_calls := Suc ?m1\<rparr>)"
  have f2: "fs_blk f2 = fs_blk fs" by (simp add: f2_def)
  have rec: "(x AND NOT EXT4_FINCOM_RECOVER) AND EXT4_FINCOM_RECOVER = 0" for x
    by (rule bit_word_eqI) (auto simp: bit_simps)
  have cs: "s_features_incompatible (ext4_sb_set_csum sb) = s_features_incompatible sb" for sb
    by (simp add: ext4_sb_set_csum_def)
  have a: "ir_ignore (ir_lift fs_ask) ref fs = (Ret (), ref, fs\<lparr>fs_calls := ?m1\<rparr>)"
    by (simp add: ir_ignore_def ir_lift_def fs_ask_def Let_def)
  have b: "ir_ignore (ir_lift (fs_bind ext4_sb_read (\<lambda>sb. fs_modify (\<lambda>fs. fs\<lparr>fs_sb := sb\<rparr>)))) ref (fs\<lparr>fs_calls := ?m1\<rparr>) = (Ret (), ref, f2)"
    by (simp add: ir_ignore_def ir_lift_def fs_bind_def ext4_sb_read_def fs_ask_def fs_gets_def fs_modify_def Let_def f2_def)
  note run = recover_finish_def ir_bind_def a b
  note step = ir_lift_def fs_gets_def fs_modify_def ir_return_def ir_try_def
  show thesis
  proof (cases "s_magic (fs_sb f2) \<noteq> EXT4_SUPERBLOCK_MAGIC \<or> 6 < s_log_block_size (fs_sb f2)")
    case True
    show thesis by (rule that [of EIO jf f2]) (use True f2 in \<open>simp_all add: run step\<close>)
  next
    case False
    define jf' where "jf' = jf\<lparr>jf_sb := (jf_sb jf)\<lparr>js_start := 0, js_sequence := ri_last_trans_id i\<rparr>, jf_dirty := True\<rparr>"
    define sb where "sb = ext4_sb_set_csum ((fs_sb f2)\<lparr>s_features_incompatible := s_features_incompatible (fs_sb f2) AND NOT EXT4_FINCOM_RECOVER\<rparr>)"
    note more = ext4_sb_write_def fs_bind_def fs_ask_def Let_def sb_def [symmetric] jf'_def [symmetric]
    show thesis
    proof (cases "fs_answer f2 (fs_calls f2) = EOK")
      case True
      show thesis
        by (rule that [of EOK jf' "f2\<lparr>fs_sb := sb, fs_calls := fs_calls f2 + 1, fs_disk_sb := sb\<rparr>"])
          (use True False f2 rec in \<open>simp_all add: run step more, simp_all add: jf'_def sb_def cs\<close>)
    next
      case no: False
      show thesis
        by (rule that [of "fs_answer f2 (fs_calls f2)" jf' "f2\<lparr>fs_sb := sb, fs_calls := fs_calls f2 + 1\<rparr>"])
          (use no False f2 in \<open>simp_all add: run step more\<close>)
    qed
  qed
qed

context log_map
begin

lemma replay_pass:
  assumes w: "world s L K J ref fs" and l: "log_fits s J items" and f: "length items < fuel"
    and D: "\<forall>b\<in>targets s J items. home_ok s (K \<union> set L) b"
    and i: "ri_trans_cnt i = of_nat (commits items)" "ri_last_trans_id i = last_id s items" "ri_rc i = EOK" "ri_blocks_replayed i = 0"
      "ri_revoke_root i = revokes (js_sequence s) (committed items) Map.empty"
  obtains e i' fs' where "recover_replay fuel X s i ref fs = (Ret (Some (e, i')), ref, fs')" "touched (unat (js_blocksize s)) (targets s J items) fs fs'"
    "e = EOK \<longrightarrow> (\<exists>c. fs' = (fold (vput (js_blocksize s)) (to_write s J items) fs)\<lparr>fs_calls := c\<rparr>) \<and>
       ri_blocks_replayed i' = of_nat (length (to_write s J items)) \<and> ri_trans_cnt i' = ri_trans_cnt i \<and> ri_last_trans_id i' = ri_last_trans_id i"
proof -
  note ring = log_worldD(1) [OF w] and ld = log_fitsD [OF l]
  let ?T = "targets s J items" and ?N = "unat (js_blocksize s)"
  obtain n1 v where v: "jbd_replay_wnd_new s 0 ref fs = (Ret v, ref, fs\<lparr>fs_calls := n1\<rparr>)" "\<forall>w. v = Some w \<longrightarrow> wnd_shape ?N w \<and> wnd_holds J w"
    by (rule wnd_new_run [OF ring])
  obtain n2 b where b: "jbd_replay_wb_new s ref (fs\<lparr>fs_calls := n1\<rparr>) = (Ret b, ref, fs\<lparr>fs_calls := n2\<rparr>)"
    "\<forall>wb. b = Some wb \<longrightarrow> wb_recs wb = [] \<and> \<not> wb_checkpoint wb"
    using wb_new_run [OF ring, of ref "fs\<lparr>fs_calls := n1\<rparr>"] unfolding calls_twice by blast
  define i1 where "i1 = i\<lparr>ri_wnd := v, ri_wb := b\<rparr>"
  define fs1 where "fs1 = fs\<lparr>fs_calls := n2\<rparr>"
  have w1: "world s L K J ref fs1" unfolding fs1_def by (rule world_calls [OF w])
  have b0: "0 < js_blocksize s" using ring_okD(5) [OF ring] by (simp add: word_less_nat_alt)
  have rok: "replay_ok s ?T i1" and fine: "wnd_fine J i1" and none: "pending i1 = []"
    using v(2) b(2) b0 by (auto simp: i1_def replay_ok_def wnd_fine_def pending_def recs_ok_def split: option.splits)
  obtain e i2 fs2 where r: "jbd_iterate_log fuel X s ACTION_RECOVER i1 ref fs1 = (Ret (Some (e, i2)), ref, fs2)" "kept s ?T i1 fs1 i2 fs2"
    "e = EOK \<longrightarrow> replays s J ?T (to_write s J items) i1 fs1 i2 fs2 \<and> ri_rc i2 = EOK"
  proof (cases "commits items = 0")
    case True
    have "replays s J ?T [] i1 fs1 i1 fs1" using replays_none [OF rok log_worldD(8) [OF w1], of J "fs_calls fs1"] by simp
    then show thesis using True i(1,3) committed_none [OF True] replays_keeps(6)
      by (intro that [of EOK i1 fs1]) (simp_all add: jbd_iterate_log_def ir_return_def i1_def to_write_def)
  next
    case False
    have q: "0 + log_len items \<le> ring s" "ri_rc i1 = EOK" "ri_last_trans_id i1 = last_id s items"
      "ri_revoke_root i1 = revokes (js_sequence s) (committed items) Map.empty"
      using ld(2) i by (simp_all add: i1_def)
    have all: "fst ` set (log_writes (revokes (js_sequence s) (committed items) Map.empty) (\<lambda>k. J (posn s k)) 0 (js_sequence s) (committed items)) \<subseteq> ?T"
      by (simp add: to_write_def)
    obtain e t i2 fs2 where r: "log_walk fuel X s ACTION_RECOVER (of_nat (posn s 0)) (js_sequence s) i1 ref fs1 = (Ret (Some (e, t, i2)), ref, fs2)"
      "kept s ?T i1 fs1 i2 fs2" "e = EOK \<longrightarrow> ri_rc i2 = EOK \<and> replays s J ?T (to_write s J items) i1 fs1 i2 fs2"
      using recover_walk [OF w1 D ld(1) q(1) last_id [OF False] ld(3) all rok fine q(2-4) f] unfolding to_write_def by blast
    have "jbd_iterate_log fuel X s ACTION_RECOVER i1 ref fs1 = (Ret (Some (e, i2)), ref, fs2)"
      using r(1) posn_0 [OF ring] False i(1) commits_word [OF ld(3)] by (simp add: jbd_iterate_log_def ir_bind_def ir_return_def i1_def)
    then show thesis by (rule that) (use r in simp_all)
  qed
  have w2: "world s L K J ref fs2" by (rule world_replays [OF w1 D r(2)])
  have t2: "touched ?N ?T fs fs2"
  proof -
    have "touched ?N ?T fs fs1" unfolding fs1_def by (rule touched_any_calls [OF log_worldD(8) [OF w]])
    moreover have "touched ?N ?T fs1 fs2" using r(2) by (simp add: kept_def)
    ultimately show ?thesis using touched_trans [of ?N ?T fs fs1 ?T fs2] by simp
  qed
  note run = recover_replay_def ir_bind_def v(1) b(1) i1_def [symmetric] fs1_def [symmetric] r(1) ir_return_def
  show thesis
  proof (cases "e = EOK")
    case False
    show thesis
      by (rule that [of e "i2\<lparr>ri_wnd := None, ri_wb := None\<rparr>" fs2])
        (use False t2 in \<open>cases "ri_wb i2"; simp add: run\<close>, use False t2 in simp_all)
  next
    case True
    have rok2: "replay_ok s ?T i2" using r(2) by (simp add: kept_def)
    obtain e' fs3 where g: "(case ri_wb i2 of Some wb \<Rightarrow> ir_bind (jbd_replay_wb_flush s wb) (\<lambda>(e, _). ir_return e) | None \<Rightarrow> ir_return EOK) ref fs2 =
        (Ret e', ref, fs3)" "touched ?N ?T fs2 fs3" "e' = EOK \<longrightarrow> (\<exists>c. fs3 = (fold (vput (js_blocksize s)) (pending i2) fs2)\<lparr>fs_calls := c\<rparr>)"
      by (rule last_flush [OF log_worldD(8) [OF w2] HOL.refl rok2])
    have t3: "touched ?N ?T fs fs3" using touched_trans [OF t2 g(2)] by simp
    have go: "recover_replay fuel X s i ref fs = (Ret (Some (e', i2\<lparr>ri_wnd := None, ri_wb := None\<rparr>)), ref, fs3)"
      using g(1) True by (cases "ri_wb i2") (simp_all add: run)
    obtain c where c: "fold (vput (js_blocksize s)) (pending i2) fs2 = (fold (vput (js_blocksize s)) (pending i1 @ to_write s J items) fs1)\<lparr>fs_calls := c\<rparr>"
      "ri_blocks_replayed i2 = ri_blocks_replayed i1 + of_nat (length (to_write s J items))"
      using r(3) True fine unfolding replays_def by blast
    have "e' = EOK \<longrightarrow> (\<exists>c. fs3 = (fold (vput (js_blocksize s)) (to_write s J items) fs)\<lparr>fs_calls := c\<rparr>)"
      using g(3) c(1) none by (auto simp: fs1_def fold_vput_calls)
    then show thesis using r(2) c(2) i(4)
      by (intro that [OF go t3]) (auto simp: kept_def i1_def)
  qed
qed

lemma second_pass:
  assumes w: "world s L K J ref fs" and l: "log_fits s J items" and f: "length items < fuel"
    and i: "ri_trans_cnt i = of_nat (commits items)" "ri_last_trans_id i = last_id s items" "ri_revoke_root i = Map.empty" "ri_rc i = EOK"
      "ri_revoke_block_cnt i = of_nat (length (filter (\<lambda>it. \<exists>bs. it = Revoked bs) items))"
  obtains n e i' where "(if ri_revoke_block_cnt i \<noteq> 0 then jbd_iterate_log fuel X s ACTION_REVOKE i else ir_return (Some (EOK, i))) ref fs =
      (Ret (Some (e, i')), ref, fs\<lparr>fs_calls := n\<rparr>)"
    "e = EOK \<longrightarrow> (\<exists>x. i' = i\<lparr>ri_revoke_root := revokes (js_sequence s) (committed items) Map.empty, ri_this_trans_id := x\<rparr>)"
proof (cases "ri_revoke_block_cnt i = 0")
  case False
  obtain n e i' where r: "jbd_iterate_log fuel X s ACTION_REVOKE i ref fs = (Ret (Some (e, i')), ref, fs\<lparr>fs_calls := n\<rparr>)"
    "e = EOK \<longrightarrow> (\<exists>x. i' = i\<lparr>ri_revoke_root := revokes (js_sequence s) (committed items) Map.empty, ri_this_trans_id := x\<rparr>)"
    by (rule revoke_pass [OF w l f i(1-4)])
  show thesis by (rule that [of e i' n]) (use False r in simp_all)
next
  case True
  have "ring s < 2 ^ 32" using ring_okD(7) [OF log_worldD(1) [OF w]] unat_u32_lt [of "js_maxlen s"] by simp
  then have "length (filter (\<lambda>it. \<exists>bs. it = Revoked bs) items) < 2 ^ 32"
    using log_fitsD(2) [OF l] length_log_len [of items] length_filter_le [of "\<lambda>it. \<exists>bs. it = Revoked bs" items] by linarith
  then have "unat (of_nat (length (filter (\<lambda>it. \<exists>bs. it = Revoked bs) items)) :: u32) = length (filter (\<lambda>it. \<exists>bs. it = Revoked bs) items)"
    by (simp add: unat_of_nat)
  then have "filter (\<lambda>it. \<exists>bs. it = Revoked bs) items = []" using True i(5) by simp
  then have "\<forall>bs. Revoked bs \<notin> set (committed items)" using committed_subset [of items] by (auto simp: filter_empty_conv)
  then have "i = i\<lparr>ri_revoke_root := revokes (js_sequence s) (committed items) Map.empty, ri_this_trans_id := ri_this_trans_id i\<rparr>"
    using i(3) by (simp add: revokes_none)
  then have "\<exists>x. i = i\<lparr>ri_revoke_root := revokes (js_sequence s) (committed items) Map.empty, ri_this_trans_id := x\<rparr>" by blast
  then show thesis by (intro that [of EOK i "fs_calls fs"]) (use True in \<open>simp_all add: ir_return_def\<close>)
qed

lemma recover_run:
  assumes w: "world s L K J ref fs" and s: "jf_sb jf = s" and l: "log_fits s J items" and f: "length items < fuel"
    and D: "\<forall>b\<in>targets s J items. home_ok s (K \<union> set L) b"
  shows "\<exists>e jf' rec fs'. jbd_recover fuel X jf ref fs = (Ret (Some (e, jf', rec)), ref, fs') \<and>
    (\<forall>b. b \<notin> targets s J items \<longrightarrow> fs_blk fs' b = fs_blk fs b) \<and>
    (e = EOK \<longrightarrow> fs_blk fs' = (\<lambda>b. case newest (to_write s J items) b of None \<Rightarrow> fs_blk fs b | Some d \<Rightarrow> d) \<and>
       jf' = jf\<lparr>jf_sb := s\<lparr>js_start := 0, js_sequence := last_id s items\<rparr>, jf_dirty := True\<rparr> \<and>
       s_features_incompatible (fs_disk_sb fs') AND EXT4_FINCOM_RECOVER = 0 \<and>
       rec = Some \<lparr>rc_trans_replayed = of_nat (commits items), rc_blocks_replayed = of_nat (length (to_write s J items)),
         rc_log_blocks = js_maxlen s\<rparr>)"
proof -
  note ring = log_worldD(1) [OF w] and ld = log_fitsD [OF l]
  have st: "js_start s \<noteq> 0" using ring_okD(1,2) [OF ring] by auto
  obtain n1 e1 i1 where a: "jbd_iterate_log fuel X s ACTION_SCAN no_info ref fs = (Ret (Some (e1, i1)), ref, fs\<lparr>fs_calls := n1\<rparr>)"
    "e1 = EOK \<longrightarrow> ri_trans_cnt i1 = of_nat (commits items) \<and> ri_last_trans_id i1 = last_id s items \<and> ri_revoke_root i1 = Map.empty \<and>
       ri_rc i1 = EOK \<and> ri_blocks_replayed i1 = 0 \<and>
       ri_revoke_block_cnt i1 = of_nat (length (filter (\<lambda>it. \<exists>bs. it = Revoked bs) items))"
    by (rule scan_pass [OF w l f])
  note run = jbd_recover_def s st Let_def ir_bind_def a(1) ir_return_def
  show ?thesis
  proof (cases "e1 = EOK")
    case False
    then have "jbd_recover fuel X jf ref fs = (Ret (Some (e1, jf, None)), ref, fs\<lparr>fs_calls := n1\<rparr>)" by (simp add: run)
    then show ?thesis using False by auto
  next
    case ok1: True
    then have i1: "ri_trans_cnt i1 = of_nat (commits items)" "ri_last_trans_id i1 = last_id s items" "ri_revoke_root i1 = Map.empty"
      "ri_rc i1 = EOK" "ri_blocks_replayed i1 = 0" "ri_revoke_block_cnt i1 = of_nat (length (filter (\<lambda>it. \<exists>bs. it = Revoked bs) items))"
      using a(2) by simp_all
    note w1 = world_calls [OF w, of n1]
    obtain n2 e2 i2 where b: "(if ri_revoke_block_cnt i1 \<noteq> 0 then jbd_iterate_log fuel X s ACTION_REVOKE i1 else ir_return (Some (EOK, i1))) ref (fs\<lparr>fs_calls := n1\<rparr>) =
        (Ret (Some (e2, i2)), ref, fs\<lparr>fs_calls := n2\<rparr>)"
      "e2 = EOK \<longrightarrow> (\<exists>x. i2 = i1\<lparr>ri_revoke_root := revokes (js_sequence s) (committed items) Map.empty, ri_this_trans_id := x\<rparr>)"
      using second_pass [OF w1 l f i1(1-4,6)] unfolding calls_twice by metis
    show ?thesis
    proof (cases "e2 = EOK")
      case False
      then have "jbd_recover fuel X jf ref fs = (Ret (Some (e2, jf, None)), ref, fs\<lparr>fs_calls := n2\<rparr>)"
        using ok1 b(1) by (cases "ri_revoke_block_cnt i1 = 0") (simp_all add: run)
      then show ?thesis using False by auto
    next
      case ok2: True
      then have i2: "ri_trans_cnt i2 = of_nat (commits items)" "ri_last_trans_id i2 = last_id s items" "ri_rc i2 = EOK" "ri_blocks_replayed i2 = 0"
        "ri_revoke_root i2 = revokes (js_sequence s) (committed items) Map.empty" using b(2) i1 by auto
      obtain e3 i3 fs3 where c: "recover_replay fuel X s i2 ref (fs\<lparr>fs_calls := n2\<rparr>) = (Ret (Some (e3, i3)), ref, fs3)"
        "touched (unat (js_blocksize s)) (targets s J items) (fs\<lparr>fs_calls := n2\<rparr>) fs3"
        "e3 = EOK \<longrightarrow> (\<exists>c. fs3 = (fold (vput (js_blocksize s)) (to_write s J items) (fs\<lparr>fs_calls := n2\<rparr>))\<lparr>fs_calls := c\<rparr>) \<and>
          ri_blocks_replayed i3 = of_nat (length (to_write s J items)) \<and> ri_trans_cnt i3 = ri_trans_cnt i2 \<and> ri_last_trans_id i3 = ri_last_trans_id i2"
        by (rule replay_pass [OF world_calls [OF w, of n2] l f D i2])
      have un: "\<forall>b. b \<notin> targets s J items \<longrightarrow> fs_blk fs3 b = fs_blk fs b" using touched_keeps(3) [OF c(2)] by simp
      show ?thesis
      proof (cases "e3 = EOK")
        case False
        then have "jbd_recover fuel X jf ref fs = (Ret (Some (e3, jf, None)), ref, fs3)"
          using ok1 ok2 b(1) c(1) by (cases "ri_revoke_block_cnt i1 = 0") (simp_all add: run)
        then show ?thesis using False un by auto
      next
        case ok3: True
        obtain e4 jf' fs4 where d: "recover_finish jf i3 ref fs3 = (Ret (e4, jf'), ref, fs4)" "fs_blk fs4 = fs_blk fs3"
          "e4 = EOK \<longrightarrow> jf' = jf\<lparr>jf_sb := (jf_sb jf)\<lparr>js_start := 0, js_sequence := ri_last_trans_id i3\<rparr>, jf_dirty := True\<rparr> \<and>
             s_features_incompatible (fs_disk_sb fs4) AND EXT4_FINCOM_RECOVER = 0"
          by (rule finish_run)
        have "fs_blk fs3 = (\<lambda>b. case newest (to_write s J items) b of None \<Rightarrow> fs_blk fs b | Some d \<Rightarrow> d)"
        proof -
          obtain c' where "fs3 = (fold (vput (js_blocksize s)) (to_write s J items) fs)\<lparr>fs_calls := c'\<rparr>"
            using c(3) ok3 by (auto simp: fold_vput_calls)
          then show ?thesis by (simp add: fold_vput after_writes_def)
        qed
        moreover have "jbd_recover fuel X jf ref fs = (Ret (Some (e4, jf', if e4 \<noteq> EOK then None
            else Some \<lparr>rc_trans_replayed = ri_trans_cnt i3, rc_blocks_replayed = ri_blocks_replayed i3, rc_log_blocks = js_maxlen (jf_sb jf')\<rparr>)), ref, fs4)"
          using ok1 ok2 ok3 b(1) c(1) d(1) by (cases "ri_revoke_block_cnt i1 = 0") (simp_all add: run)
        ultimately show ?thesis using c(3) ok3 d(2,3) un i2 s by auto
      qed
    qed
  qed
qed

end

section \<open>A log on which the walk never ends\<close>

text \<open>Every read of a block of the log succeeds.\<close>

definition log_readable :: "extent_ops \<Rightarrow> jbd_sb \<Rightarrow> ext4_inode_ref \<Rightarrow> ext4_fs \<Rightarrow> bool" where
  "log_readable X s ref fs \<longleftrightarrow> (\<forall>k c. \<exists>b n. jbd_block_get X (of_nat (posn s k)) ref (fs\<lparr>fs_calls := c\<rparr>) = (Ret b, ref, fs\<lparr>fs_calls := n\<rparr>))"

lemma log_readable_calls [simp]: "log_readable X s ref (fs\<lparr>fs_calls := c\<rparr>) = log_readable X s ref fs"
  by (simp add: log_readable_def)

lemma log_readableD: "log_readable X s ref fs \<Longrightarrow> \<nexists>e n. jbd_block_get X (of_nat (posn s k)) ref fs = (Err e, ref, fs\<lparr>fs_calls := n\<rparr>)"
proof -
  assume "log_readable X s ref fs"
  then obtain b n where "jbd_block_get X (of_nat (posn s k)) ref (fs\<lparr>fs_calls := fs_calls fs\<rparr>) = (Ret b, ref, fs\<lparr>fs_calls := n\<rparr>)"
    unfolding log_readable_def by blast
  then show ?thesis by simp
qed

text \<open>After other items comes a descriptor block whose tags lead once round the ring.\<close>

context log_map
begin

lemma scan_step_read:
  assumes w: "world s L K J ref fs" and h: "header_is s (J (posn s k)) tid it" and r: "log_readable X s ref fs"
  obtains n info' where "log_step X s ACTION_SCAN (of_nat (posn s k)) tid info ref fs =
    (Ret (EOK, (k + item_len it) mod ring s = 0, of_nat (posn s (k + item_len it)), next_tid tid it, info'), ref, fs\<lparr>fs_calls := n\<rparr>)"
proof -
  have scan: "ACTION_SCAN \<noteq> ACTION_RECOVER" by simp
  show thesis
    by (cases rule: quiet_step [OF w scan h, of info, case_names ok err]) (use that log_readableD [OF r, of k] in blast)+
qed

text \<open>A descriptor block whose tags lead once round the ring and back to itself.\<close>

lemma scan_stuck:
  "world s L K J ref fs \<Longrightarrow> log_readable X s ref fs \<Longrightarrow> header_is s (J (posn s k)) tid (Logged ts) \<Longrightarrow> Suc (length ts) mod ring s = 0 \<Longrightarrow>
   k mod ring s \<noteq> 0 \<Longrightarrow>
   \<exists>n. log_walk fuel X s ACTION_SCAN (of_nat (posn s k)) tid info ref fs = (Ret None, ref, fs\<lparr>fs_calls := n\<rparr>)"
proof (induction fuel arbitrary: fs info)
  case 0
  then show ?case by (auto simp: ir_return_def intro: exI [of _ "fs_calls fs"])
next
  case (Suc fuel)
  have m: "(k + item_len (Logged ts)) mod ring s = k mod ring s" using Suc.prems(4) by (metis add_0_right item_len.simps(1) mod_add_right_eq)
  have p: "posn s (k + item_len (Logged ts)) = posn s k"
    unfolding posn_def using Suc.prems(4) by (metis add.assoc add_0_right item_len.simps(1) mod_add_right_eq)
  obtain n info' where ok: "log_step X s ACTION_SCAN (of_nat (posn s k)) tid info ref fs =
      (Ret (EOK, (k + item_len (Logged ts)) mod ring s = 0, of_nat (posn s (k + item_len (Logged ts))), next_tid tid (Logged ts), info'),
        ref, fs\<lparr>fs_calls := n\<rparr>)"
    by (rule scan_step_read [OF Suc.prems(1,3,2)])
  from Suc.IH [OF world_calls [OF Suc.prems(1)] _ Suc.prems(3-5), of n info'] Suc.prems(2) show ?case
    using ok m p Suc.prems(5) by (auto simp: ir_bind_def)
qed

lemma scan_endless:
  "world s L K J ref fs \<Longrightarrow> log_readable X s ref fs \<Longrightarrow> log_at s (\<lambda>i. J (posn s i)) k tid items \<Longrightarrow> 0 < k + log_len items \<Longrightarrow>
   k + log_len items < ring s \<Longrightarrow> header_is s (J (posn s (k + log_len items))) (tid + of_nat (commits items)) (Logged ts) \<Longrightarrow>
   Suc (length ts) mod ring s = 0 \<Longrightarrow>
   \<exists>n. log_walk fuel X s ACTION_SCAN (of_nat (posn s k)) tid info ref fs = (Ret None, ref, fs\<lparr>fs_calls := n\<rparr>)"
proof (induction items arbitrary: k tid info fs fuel)
  case Nil
  have "k mod ring s \<noteq> 0" using Nil.prems(4,5) by simp
  then show ?case using scan_stuck [OF Nil.prems(1,2) _ Nil.prems(7)] Nil.prems(6) by simp
next
  case (Cons it items)
  show ?case
  proof (cases fuel)
    case 0
    then show ?thesis by (auto simp: ir_return_def intro: exI [of _ "fs_calls fs"])
  next
    case (Suc g)
    have h: "header_is s (J (posn s k)) tid it" "log_at s (\<lambda>i. J (posn s i)) (k + item_len it) (next_tid tid it) items"
      using Cons.prems(3) by simp_all
    have kl: "0 < k + item_len it" "k + item_len it < ring s" using Cons.prems(5) item_len_pos [of it] by simp_all
    obtain n info' where ok: "log_step X s ACTION_SCAN (of_nat (posn s k)) tid info ref fs =
        (Ret (EOK, (k + item_len it) mod ring s = 0, of_nat (posn s (k + item_len it)), next_tid tid it, info'), ref, fs\<lparr>fs_calls := n\<rparr>)"
      by (rule scan_step_read [OF Cons.prems(1) h(1) Cons.prems(2)])
    have q: "0 < k + item_len it + log_len items" "k + item_len it + log_len items < ring s"
      "header_is s (J (posn s (k + item_len it + log_len items))) (next_tid tid it + of_nat (commits items)) (Logged ts)"
      using kl Cons.prems(5,6) scan_info_simps(3) [of tid it items] item_len_pos [of it] by (simp_all add: add.assoc)
    have rd: "log_readable X s ref (fs\<lparr>fs_calls := n\<rparr>)" using Cons.prems(2) by simp
    from Cons.IH [OF world_calls [OF Cons.prems(1)] rd h(2) q Cons.prems(7), where info = info' and fuel = g]
    show ?thesis using ok kl by (auto simp: Suc ir_bind_def)
  qed
qed

lemma endless_run:
  assumes w: "world s L K J ref fs" and rd: "log_readable X s ref fs" and s: "jf_sb jf = s"
    and l: "log_at s (\<lambda>i. J (posn s i)) 0 (js_sequence s) items" and k: "items \<noteq> []" "log_len items < ring s"
    and h: "header_is s (J (posn s (log_len items))) (js_sequence s + of_nat (commits items)) (Logged ts)" "Suc (length ts) mod ring s = 0"
  shows "\<exists>n. jbd_recover fuel X jf ref fs = (Ret None, ref, fs\<lparr>fs_calls := n\<rparr>)"
proof -
  note ring = log_worldD(1) [OF w]
  have st: "js_start s \<noteq> 0" using ring_okD(1,2) [OF ring] by auto
  have pos: "0 < 0 + log_len items" "0 + log_len items < ring s" using k log_len_0 [of items] by auto
  have h0: "header_is s (J (posn s (0 + log_len items))) (js_sequence s + of_nat (commits items)) (Logged ts)" using h(1) by simp
  obtain n where r: "log_walk fuel X s ACTION_SCAN (of_nat (posn s 0)) (js_sequence s) (no_info\<lparr>ri_trans_cnt := 0, ri_revoke_block_cnt := 0\<rparr>) ref fs =
      (Ret None, ref, fs\<lparr>fs_calls := n\<rparr>)"
    using scan_endless [OF w rd l pos h0 h(2)] by blast
  then show ?thesis
    by (auto simp: jbd_recover_def s st Let_def ir_bind_def jbd_iterate_log_def r [unfolded posn_0 [OF ring]] ir_return_def)
qed

end

end
