(* ===== verification/Journal_File.thy ===== *)
theory Journal_File
  imports Journal_Recover Extent_Map
begin

unbundle bit_operations_syntax

text \<open>
  The journal is an inode whose blocks are in an extent tree or in the block map: both are a \<open>log_map\<close>, so what
  \<open>Journal_Spec\<close> and \<open>Journal_Recover\<close> show of the walk and of recovery holds of the file.
\<close>

section \<open>The journal as a file\<close>

definition journal_blocks :: "ext4_fs \<Rightarrow> ext4_inode_ref \<Rightarrow> u64 list" where
  "journal_blocks fs ref =
     (if uses_extents (fs_sb fs) (inode_at (ino_raw fs ref)) then ext_blocks fs ref else map_blocks fs ref)"

text \<open>The blocks that a lookup reads.\<close>

definition journal_meta :: "ext4_fs \<Rightarrow> ext4_inode_ref \<Rightarrow> u64 set" where
  "journal_meta fs ref = insert (ir_block ref)
     (if uses_extents (fs_sb fs) (inode_at (ino_raw fs ref)) then set (inode_nodes fs ref)
      else (\<Union>i<length (map_blocks fs ref). set (block_meta fs (inode_at (ino_raw fs ref)) (of_nat i))))"

definition journal_valid :: "ext4_fs \<Rightarrow> ext4_inode_ref \<Rightarrow> bool" where
  "journal_valid fs ref \<longleftrightarrow> ext4_inode_get_size (fs_sb fs) (inode_at (ino_raw fs ref)) \<noteq> 0 \<and> (\<forall>k. fs_answer fs k \<noteq> ENOENT) \<and>
     (if uses_extents (fs_sb fs) (inode_at (ino_raw fs ref)) then extent_tree_ok fs ref
      else levels_ok fs \<and> (\<forall>i<length (map_blocks fs ref). meta_whole fs (inode_at (ino_raw fs ref)) (of_nat i)))"

lemma journal_bmap:
  assumes v: "journal_valid fs ref" and i: "i < length (journal_blocks fs ref)"
  shows "\<exists>r n. jbd_inode_bmap (extent_tree_ops fuel) (of_nat i) ref fs = (r, ref, fs\<lparr>fs_calls := n\<rparr>) \<and>
    (r = Ret (journal_blocks fs ref ! i) \<or> (\<exists>e. r = Err e \<and> e \<noteq> EOK))"
proof (cases "uses_extents (fs_sb fs) (inode_at (ino_raw fs ref))")
  case True
  obtain r n where g: "ext4_extent_get_blocks (of_nat i) 1 False ref fs = (r, ref, fs\<lparr>fs_calls := n\<rparr>)"
    "r = Ret (report_blocks (extent_of_block fs ref (of_nat i)) (of_nat i) 1) \<or> (\<exists>e. r = Err e \<and> walk_err fs e)"
    using extent_lookup(1) [of fs ref "of_nat i" 1] v True by (auto simp: journal_valid_def)
  have ne: "e \<noteq> EOK" if "walk_err fs e" for e using that by (auto simp: walk_err_def)
  have b: "journal_blocks fs ref ! i = fst (report_blocks (extent_of_block fs ref (of_nat i)) (of_nat i) 1)"
    using i True by (simp add: journal_blocks_def ext_blocks_def)
  have x: "ext_get_blocks (extent_tree_ops fuel) = ext4_extent_get_blocks" by (simp add: extent_tree_ops_def)
  have d: "jbd_inode_bmap (extent_tree_ops fuel) (of_nat i) ref fs =
      (case r of Ret (f, _) \<Rightarrow> if f = 0 then Err EIO else Ret f | Err e \<Rightarrow> Err e | Crash \<Rightarrow> Crash, ref, fs\<lparr>fs_calls := n\<rparr>)"
    using v g(1) True by (cases r) (auto simp: jbd_inode_bmap_def ext4_fs_get_inode_dblk_idx_def ext4_fs_get_inode_dblk_idx_internal_def
        ir_bind_def ir_lift_def fs_gets_def ir_return_def ir_fail_def journal_valid_def x)
  show ?thesis using g(2) ne unfolding d b by (auto split: prod.split)
next
  case False
  define ino where "ino = inode_at (ino_raw fs ref)"
  have w: "meta_whole fs ino (of_nat i)" using v i False by (simp add: journal_valid_def journal_blocks_def ino_def)
  obtain r n where "ext4_fs_get_inode_dblk_idx (extent_tree_ops fuel) (of_nat i) False ref fs = (r, ref, fs\<lparr>fs_calls := n\<rparr>)"
    "r = Ret (block_addr fs ino (of_nat i)) \<or> (\<exists>e. r = Err e \<and> e \<notin> {EOK, ENOENT})"
    by (rule lookup_ok [of fs ino ref "of_nat i" "extent_tree_ops fuel" False]) (use v w False in \<open>simp_all add: journal_valid_def ino_def\<close>)
  then show ?thesis using i False by (auto simp: jbd_inode_bmap_def journal_blocks_def map_blocks_def ino_def)
qed

text \<open>Neither map depends on blocks other than its own.\<close>

lemma ext_log_frame:
  assumes v: "extent_tree_ok fs ref" and f: "\<forall>b\<in>insert (ir_block ref) (set (inode_nodes fs ref)). fs_blk fs' b = fs_blk fs b"
    and sb: "fs_sb fs' = fs_sb fs" "fs_was_dirty fs' = fs_was_dirty fs"
  shows "extent_tree_ok fs' ref" "ext_blocks fs' ref = ext_blocks fs ref" "inode_nodes fs' ref = inode_nodes fs ref"
proof -
  have raw: "ino_raw fs' ref = ino_raw fs ref" using f by (simp add: ino_raw_def sb)
  then have rt: "root_bytes fs' ref = root_bytes fs ref" "tree_depth fs' ref = tree_depth fs ref"
    by (simp_all add: root_bytes_def tree_depth_def)
  note fr = tree_frame [OF sb(1), of "unat (tree_depth fs ref)" "root_bytes fs ref"]
  have t: "extent_of_block fs' ref = extent_of_block fs ref"
    "tree_ok fs' (tree_depth fs ref) (unat (tree_depth fs ref)) (root_bytes fs ref) 0 (2 ^ 32) =
      tree_ok fs (tree_depth fs ref) (unat (tree_depth fs ref)) (root_bytes fs ref) 0 (2 ^ 32)"
    using fr f by (auto simp: rt extent_of_block_def inode_exts_def fun_eq_iff)
  show n: "inode_nodes fs' ref = inode_nodes fs ref" using fr f by (simp add: rt)
  have st: "stamp_same fs' ref x = stamp_same fs ref x" if "x \<in> set (inode_nodes fs ref)" for x
    using f that by (simp add: stamp_same_def sb raw)
  show "extent_tree_ok fs' ref" using v st t(2) n by (simp add: extent_tree_ok_def rt sb)
  show "ext_blocks fs' ref = ext_blocks fs ref" by (simp add: ext_blocks_def t sb raw)
qed

lemma map_log_frame:
  assumes f: "fs_blk fs' (ir_block ref) = fs_blk fs (ir_block ref)"
      "\<forall>i<length (map_blocks fs ref). \<forall>b\<in>set (block_meta fs (inode_at (ino_raw fs ref)) (of_nat i)). fs_blk fs' b = fs_blk fs b"
    and sb: "fs_sb fs' = fs_sb fs" "fs_inode_blocks_per_level fs' = fs_inode_blocks_per_level fs" "fs_inode_block_limits fs' = fs_inode_block_limits fs"
  shows "map_blocks fs' ref = map_blocks fs ref"
    "\<forall>i<length (map_blocks fs ref). block_meta fs' (inode_at (ino_raw fs ref)) (of_nat i) = block_meta fs (inode_at (ino_raw fs ref)) (of_nat i)"
    "\<forall>i<length (map_blocks fs ref). meta_whole fs (inode_at (ino_raw fs ref)) (of_nat i) \<longrightarrow> meta_whole fs' (inode_at (ino_raw fs ref)) (of_nat i)"
proof -
  have raw: "ino_raw fs' ref = ino_raw fs ref" using f by (simp add: ino_raw_def sb)
  define n where "n = length (map_blocks fs ref)"
  have n: "n = unat (total_blocks (fs_sb fs) (inode_at (ino_raw fs ref)))" by (simp add: n_def map_blocks_def)
  note fr = block_frame [OF sb(2,3)]
  show "map_blocks fs' ref = map_blocks fs ref"
    using fr(1) f(2) by (simp add: map_blocks_def raw sb)
  show m: "\<forall>i<length (map_blocks fs ref). block_meta fs' (inode_at (ino_raw fs ref)) (of_nat i) = block_meta fs (inode_at (ino_raw fs ref)) (of_nat i)"
    using fr(2) f(2) by blast
  show "\<forall>i<length (map_blocks fs ref). meta_whole fs (inode_at (ino_raw fs ref)) (of_nat i) \<longrightarrow> meta_whole fs' (inode_at (ino_raw fs ref)) (of_nat i)"
    using m f(2) by (simp add: meta_whole_def sb)
qed

interpretation journal_file: log_map "extent_tree_ops fuel" journal_valid journal_blocks journal_meta
proof
  fix fs ref and i :: nat
  assume "journal_valid fs ref" "i < length (journal_blocks fs ref)"
  then show "\<exists>r n. jbd_inode_bmap (extent_tree_ops fuel) (of_nat i) ref fs = (r, ref, fs\<lparr>fs_calls := n\<rparr>) \<and>
      (r = Ret (journal_blocks fs ref ! i) \<or> (\<exists>e. r = Err e \<and> e \<noteq> EOK))" by (rule journal_bmap)
next
  fix fs ref and f :: "u64 \<Rightarrow> bytes" and d and n :: nat
  assume v: "journal_valid fs ref" and m: "\<forall>b\<in>journal_meta fs ref. f b = fs_blk fs b"
  define fs' where "fs' = fs\<lparr>fs_blk := f, fs_disk_sb := d, fs_calls := n\<rparr>"
  have sb: "fs_sb fs' = fs_sb fs" "fs_was_dirty fs' = fs_was_dirty fs" "fs_inode_blocks_per_level fs' = fs_inode_blocks_per_level fs"
    "fs_inode_block_limits fs' = fs_inode_block_limits fs" "fs_answer fs' = fs_answer fs" "fs_blk fs' = f" by (simp_all add: fs'_def)
  have raw: "ino_raw fs' ref = ino_raw fs ref" using m by (simp add: ino_raw_def sb journal_meta_def)
  have lv: "levels_ok fs' = levels_ok fs" by (simp add: levels_ok_def sb)
  have "journal_valid fs' ref \<and> journal_blocks fs' ref = journal_blocks fs ref \<and> journal_meta fs' ref = journal_meta fs ref"
  proof (cases "uses_extents (fs_sb fs) (inode_at (ino_raw fs ref))")
    case True
    have "extent_tree_ok fs ref" "\<forall>b\<in>insert (ir_block ref) (set (inode_nodes fs ref)). fs_blk fs' b = fs_blk fs b"
      using v m True by (simp_all add: journal_valid_def journal_meta_def sb)
    from ext_log_frame [OF this sb(1,2)] show ?thesis
      using v True by (simp add: journal_valid_def journal_blocks_def journal_meta_def raw sb)
  next
    case False
    have "fs_blk fs' (ir_block ref) = fs_blk fs (ir_block ref)"
      "\<forall>i<length (map_blocks fs ref). \<forall>b\<in>set (block_meta fs (inode_at (ino_raw fs ref)) (of_nat i)). fs_blk fs' b = fs_blk fs b"
      using m False by (auto simp: journal_meta_def sb)
    from map_log_frame [OF this sb(1,3,4)] show ?thesis
      using v False by (simp add: journal_valid_def journal_blocks_def journal_meta_def raw sb lv)
  qed
  then show "journal_valid (fs\<lparr>fs_blk := f, fs_disk_sb := d, fs_calls := n\<rparr>) ref \<and>
      journal_blocks (fs\<lparr>fs_blk := f, fs_disk_sb := d, fs_calls := n\<rparr>) ref = journal_blocks fs ref \<and>
      journal_meta (fs\<lparr>fs_blk := f, fs_disk_sb := d, fs_calls := n\<rparr>) ref = journal_meta fs ref"
    by (simp add: fs'_def)
qed

section \<open>What recovery leaves\<close>

text \<open>The journal with the superblock \<open>s\<close> is the file behind \<open>ref\<close>: a ring of whole blocks that the device can
  address.\<close>

definition journal_on :: "jbd_sb \<Rightarrow> ext4_fs \<Rightarrow> ext4_inode_ref \<Rightarrow> bool" where
  "journal_on s fs ref \<longleftrightarrow> ring_ok s \<and> journal_valid fs ref \<and> unat (js_maxlen s) \<le> length (journal_blocks fs ref) \<and>
     (\<forall>l\<in>set (journal_blocks fs ref). unat l * unat (js_blocksize s) < 2 ^ 64) \<and> whole_blocks (unat (js_blocksize s)) fs"

definition journal_data :: "ext4_fs \<Rightarrow> ext4_inode_ref \<Rightarrow> nat \<Rightarrow> bytes" where
  "journal_data fs ref i = fs_blk fs (journal_blocks fs ref ! i)"

text \<open>The blocks that recovery reads: the log and the map of its file.\<close>

definition journal_area :: "ext4_fs \<Rightarrow> ext4_inode_ref \<Rightarrow> u64 set" where
  "journal_area fs ref = journal_meta fs ref \<union> set (journal_blocks fs ref)"

lemma journal_world: "journal_on s fs ref \<Longrightarrow>
    log_world journal_valid journal_blocks journal_meta s (journal_blocks fs ref) (journal_meta fs ref) (journal_data fs ref) ref fs"
  by (simp add: journal_on_def log_world_def journal_data_def)

lemma recover_file:
  assumes "journal_on (jf_sb jf) fs ref" "log_fits (jf_sb jf) (journal_data fs ref) items" "length items < fuel"
    "\<forall>b\<in>targets (jf_sb jf) (journal_data fs ref) items. home_ok (jf_sb jf) (journal_area fs ref) b"
  shows "\<exists>e jf' rec fs'. jbd_recover fuel (extent_tree_ops n) jf ref fs = (Ret (Some (e, jf', rec)), ref, fs') \<and>
    (\<forall>b. b \<notin> targets (jf_sb jf) (journal_data fs ref) items \<longrightarrow> fs_blk fs' b = fs_blk fs b) \<and>
    (e = EOK \<longrightarrow> fs_blk fs' = (\<lambda>b. case newest (to_write (jf_sb jf) (journal_data fs ref) items) b of None \<Rightarrow> fs_blk fs b | Some d \<Rightarrow> d) \<and>
       jf' = jf\<lparr>jf_sb := (jf_sb jf)\<lparr>js_start := 0, js_sequence := last_id (jf_sb jf) items\<rparr>, jf_dirty := True\<rparr> \<and>
       s_features_incompatible (fs_disk_sb fs') AND EXT4_FINCOM_RECOVER = 0 \<and>
       rec = Some \<lparr>rc_trans_replayed = of_nat (commits items),
         rc_blocks_replayed = of_nat (length (to_write (jf_sb jf) (journal_data fs ref) items)), rc_log_blocks = js_maxlen (jf_sb jf)\<rparr>)"
  by (rule journal_file.recover_run [OF journal_world [OF assms(1)] HOL.refl assms(2,3)]) (use assms(4) in \<open>simp add: journal_area_def\<close>)

lemma newest_None: "newest recs b = None \<longleftrightarrow> b \<notin> fst ` set recs"
  by (simp add: newest_def map_of_eq_None_iff)

text \<open>A volume on which recovery was interrupted: some of the blocks to write have any contents.\<close>

lemma journal_torn:
  assumes j: "journal_on s fs ref" and f: "\<forall>b\<in>journal_area fs ref. f b = fs_blk fs b" "\<forall>b. length (f b) = unat (js_blocksize s)"
  shows "journal_on s (fs\<lparr>fs_blk := f, fs_disk_sb := d, fs_calls := c\<rparr>) ref"
    "journal_data (fs\<lparr>fs_blk := f, fs_disk_sb := d, fs_calls := c\<rparr>) ref (posn s k) = journal_data fs ref (posn s k)"
    "journal_area (fs\<lparr>fs_blk := f, fs_disk_sb := d, fs_calls := c\<rparr>) ref = journal_area fs ref"
    "journal_blocks (fs\<lparr>fs_blk := f, fs_disk_sb := d, fs_calls := c\<rparr>) ref = journal_blocks fs ref"
proof -
  have "journal_valid fs ref" "\<forall>b\<in>journal_meta fs ref. f b = fs_blk fs b"
    using j f(1) by (simp_all add: journal_on_def journal_area_def)
  note fr = journal_file.frame [OF this, where d = d and n = c]
  show "journal_on s (fs\<lparr>fs_blk := f, fs_disk_sb := d, fs_calls := c\<rparr>) ref"
    using j f(2) fr by (simp add: journal_on_def whole_blocks_def)
  show "journal_area (fs\<lparr>fs_blk := f, fs_disk_sb := d, fs_calls := c\<rparr>) ref = journal_area fs ref"
    "journal_blocks (fs\<lparr>fs_blk := f, fs_disk_sb := d, fs_calls := c\<rparr>) ref = journal_blocks fs ref"
    using fr by (simp_all add: journal_area_def)
  show "journal_data (fs\<lparr>fs_blk := f, fs_disk_sb := d, fs_calls := c\<rparr>) ref (posn s k) = journal_data fs ref (posn s k)"
  proof -
    have "journal_blocks fs ref ! posn s k \<in> journal_area fs ref"
      using journal_file.posn_index [OF journal_world [OF j]] by (simp add: journal_area_def)
    then show ?thesis using fr f(1) by (simp add: journal_data_def)
  qed
qed

end
