(* ===== verification/Journal_Example.thy ===== *)
theory Journal_Example
  imports Journal_File
begin

unbundle bit_operations_syntax

text \<open>
  A journal of five blocks with one transaction in it, and a run of recovery on it to its end.
\<close>

section \<open>A small journal\<close>

text \<open>A file of five blocks, 20 to 24, whose map is in the inode.\<close>

definition journal_inode_example :: ext4_inode where
  "journal_inode_example = (inode_at [])\<lparr>i_mode := 0x8180, i_size_lo := 20480, i_size_hi := 0, i_blocks := [20, 21, 22, 23, 24] @ replicate 10 0\<rparr>"

definition journal_example :: "bytes \<Rightarrow> bytes \<Rightarrow> bytes \<Rightarrow> ext4_fs" where
  "journal_example b1 b2 b3 = dir_example\<lparr>
     fs_blk := (\<lambda>b. if b = 5 then inode_store (probe_example 0) (replicate 256 0) journal_inode_example @ replicate 3840 0
       else if b = 21 then b1 else if b = 22 then b2 else if b = 23 then b3 else replicate 4096 0)\<rparr>"

definition jheader_example :: "u32 \<Rightarrow> u32 \<Rightarrow> bytes \<Rightarrow> bytes" where
  "jheader_example ty tid body = be32 JBD_MAGIC_NUMBER @ be32 ty @ be32 tid @ body"

text \<open>A descriptor block with one tag, for block 30, and a commit block.\<close>

definition desc_example :: "u32 \<Rightarrow> bytes" where
  "desc_example tid = jheader_example JBD_DESCRIPTOR_BLOCK tid (be32 30 @ be16 0 @ be16 10 @ replicate 4076 0)"

definition commit_example :: "u32 \<Rightarrow> bytes" where
  "commit_example tid = jheader_example JBD_COMMIT_BLOCK tid (replicate 4084 0)"

definition tag30_example :: tag_info where
  "tag30_example = \<lparr>t_tag_bytes = 8, t_block = 30, t_is_escape = False, t_uuid_exist = False, t_uuid = [], t_last_tag = True, t_checksum = 0\<rparr>"

definition jfs_example :: "u32 \<Rightarrow> jbd_fs" where
  "jfs_example maxlen = \<lparr>jf_sb = jsb_example\<lparr>js_blocksize := 4096, js_maxlen := maxlen, js_start := 1\<rparr>, jf_dirty = False\<rparr>"

lemma jfs_example_simps [simp]:
  "js_blocksize (jf_sb (jfs_example m)) = 4096" "js_maxlen (jf_sb (jfs_example m)) = m" "js_first (jf_sb (jfs_example m)) = 1"
  "js_start (jf_sb (jfs_example m)) = 1" "js_sequence (jf_sb (jfs_example m)) = 7" "jbd_has_incompat (jf_sb (jfs_example m)) f = False"
  "jbd_has_csum (jf_sb (jfs_example m)) = 0" "ring (jf_sb (jfs_example m)) = unat m - 1"
  by (simp_all add: jfs_example_def jsb_example_def jbd_has_incompat_def jbd_has_csum_def ring_def)

lemma jheader_example_simps [simp]:
  "get_be32 (jheader_example ty tid body) 0 = JBD_MAGIC_NUMBER" "get_be32 (jheader_example ty tid body) 4 = ty"
  "get_be32 (jheader_example ty tid body) 8 = tid" "length (jheader_example ty tid body) = 12 + length body"
  by (simp_all add: jheader_example_def get_be32_append)

lemma desc_example_tag:
  "jbd_extract_block_tag (jf_sb (jfs_example m)) (desc_example tid) 12 8 4084 = Some (Inr tag30_example)"
proof -
  let ?b = "desc_example tid"
  have l: "length ?b = 4096" by (simp add: desc_example_def)
  have g: "get_be32 ?b 12 = 30" "get_be16 ?b 18 = 10"
    by (simp_all add: desc_example_def jheader_example_def get_be32_append)
      (simp add: get_be16_def be16_def get_le16_le16)
  show ?thesis
    by (simp add: jbd_extract_block_tag_def tag_block_def tag_flags_def l g Let_def tag30_example_def
        JBD_FLAG_ESCAPE_def JBD_FLAG_LAST_TAG_def JBD_FLAG_SAME_UUID_def)
qed

lemma desc_example_tags: "desc_tags (jf_sb (jfs_example m)) (desc_example tid) = Some [tag30_example]"
proof -
  let ?s = "jf_sb (jfs_example m)" and ?b = "desc_example tid"
  note desc_example_tag [of m tid]
  then have "tags_from (Suc 4083) ?s ?b 12 4084 = Some [tag30_example]"
    unfolding tags_from.simps by (simp add: jbd_tag_bytes_def tag30_example_def)
  moreover have "table_size ?s = 4084" by (simp add: table_size_def)
  ultimately show ?thesis by (simp add: desc_tags_def)
qed

lemma journal_example_headers:
  "header_is (jf_sb (jfs_example m)) (desc_example tid) tid (Logged [tag30_example])"
  "header_is (jf_sb (jfs_example m)) (commit_example tid) tid Committed"
  "log_ends (jf_sb (jfs_example m)) (replicate 4096 0) tid"
proof -
  show "header_is (jf_sb (jfs_example m)) (desc_example tid) tid (Logged [tag30_example])"
    using desc_example_tags by (simp add: header_is_def jbd_verify_meta_csum_def) (simp add: desc_example_def)
  show "header_is (jf_sb (jfs_example m)) (commit_example tid) tid Committed"
    by (simp add: header_is_def jbd_verify_commit_csum_def commit_example_def)
  show "log_ends (jf_sb (jfs_example m)) (replicate 4096 0) tid"
  proof -
    have "get_be32 (replicate 4096 0) 0 = get_le32 (replicate 4 0) 0" by (simp add: get_be32_def)
    then have "get_be32 (replicate 4096 0) 0 = 0" by (simp add: get_le32_def)
    then show ?thesis by (simp add: log_ends_def JBD_MAGIC_NUMBER_def)
  qed
qed

lemma journal_example_sb [simp]:
  "fs_sb (journal_example b1 b2 b3) = probe_example 0" "fs_answer (journal_example b1 b2 b3) = (\<lambda>_. EOK)"
  "fs_stale (journal_example b1 b2 b3) = (\<lambda>_ _. None)"
  by (simp_all add: journal_example_def dir_example_def vol_example_def)

lemma journal_example_inode [simp]: "inode_at (ino_raw (journal_example b1 b2 b3) iref_example) = journal_inode_example"
proof -
  have l: "length (i_blocks journal_inode_example) = 15" by (simp add: journal_inode_example_def)
  have sz: "s_inode_size (probe_example 0) = 256" by (simp add: probe_example_def)
  have len: "length (inode_store (probe_example 0) (replicate 256 0) journal_inode_example) = 256"
    using length_inode_bytes [OF l] by (simp add: inode_store_def sz)
  have "ino_raw (journal_example b1 b2 b3) iref_example = inode_store (probe_example 0) (replicate 256 0) journal_inode_example"
    using len by (simp add: ino_raw_def sz) (simp add: journal_example_def iref_example_def)
  then show ?thesis using inode_at_store_big [OF l, of "probe_example 0" "replicate 256 0"] by (simp add: sz)
qed

lemma journal_example_size: "ext4_inode_get_size (probe_example 0) journal_inode_example = 20480"
  "total_blocks (probe_example 0) journal_inode_example = 5"
proof -
  show sz: "ext4_inode_get_size (probe_example 0) journal_inode_example = 20480"
    by (simp add: ext4_inode_get_size_def journal_inode_example_def Let_def)
  show "total_blocks (probe_example 0) journal_inode_example = 5" by (simp add: total_blocks_def sz)
qed

lemma journal_example_file:
  "journal_blocks (journal_example b1 b2 b3) iref_example = [20, 21, 22, 23, 24]"
  "journal_area (journal_example b1 b2 b3) iref_example = {5, 20, 21, 22, 23, 24}"
  "journal_valid (journal_example b1 b2 b3) iref_example"
proof -
  let ?fs = "journal_example b1 b2 b3"
  have b: "block_addr ?fs journal_inode_example (of_nat i) = 20 + of_nat i" "block_meta ?fs journal_inode_example (of_nat i) = []" if "i < 5" for i
  proof -
    have "i = 0 \<or> i = 1 \<or> i = 2 \<or> i = 3 \<or> i = 4" using that by auto
    then show "block_addr ?fs journal_inode_example (of_nat i) = 20 + of_nat i" "block_meta ?fs journal_inode_example (of_nat i) = []"
      by (auto simp: block_addr_def block_meta_def journal_inode_example_def)
  qed
  have up: "[0..<5] = [0, 1, 2, 3, 4::nat]" by (simp add: upt_rec)
  have e: "uses_extents (probe_example 0) journal_inode_example = False" by (simp add: uses_extents_def)
  have m: "map_blocks ?fs iref_example = [20, 21, 22, 23, 24]"
    using b [of 0] b [of 1] b [of 2] b [of 3] b [of 4] by (simp add: map_blocks_def journal_example_size up)
  show j: "journal_blocks ?fs iref_example = [20, 21, 22, 23, 24]" by (simp add: journal_blocks_def m e)
  show "journal_area ?fs iref_example = {5, 20, 21, 22, 23, 24}"
    using b(2) by (simp add: journal_area_def journal_meta_def j m e) (auto simp: iref_example_def)
  have lv: "levels_ok ?fs" by (simp add: levels_ok_def) (simp add: journal_example_def dir_example_def)
  show "journal_valid ?fs iref_example"
    using b(2) by (simp add: journal_valid_def e journal_example_size lv m meta_whole_def)
qed

lemma journal_example_on:
  assumes "length b1 = 4096" "length b2 = 4096" "length b3 = 4096" "2 \<le> m" "m \<le> 5"
  shows "journal_on (jf_sb (jfs_example m)) (journal_example b1 b2 b3) iref_example"
proof -
  have "length (inode_store (probe_example 0) (replicate 256 0) journal_inode_example) = 256"
    using length_inode_bytes [of journal_inode_example] by (simp add: inode_store_def journal_inode_example_def probe_example_def)
  then have "whole_blocks 4096 (journal_example b1 b2 b3)"
    using assms(1-3) by (simp add: whole_blocks_def) (simp add: journal_example_def)
  moreover have "unat m \<le> 5" "1 < m" using assms(4,5) by (simp_all add: word_le_nat_alt word_less_nat_alt)
  ultimately show ?thesis by (simp add: journal_on_def ring_ok_def journal_example_file)
qed

lemma journal_example_data:
  "journal_data (journal_example b1 b2 b3) iref_example 1 = b1" "journal_data (journal_example b1 b2 b3) iref_example 2 = b2"
  "journal_data (journal_example b1 b2 b3) iref_example 3 = b3" "journal_data (journal_example b1 b2 b3) iref_example 4 = replicate 4096 0"
  by (simp_all add: journal_data_def journal_example_file) (simp_all add: journal_example_def)

text \<open>One transaction: a descriptor, the block it logs and the commit.\<close>

abbreviation replay_example :: ext4_fs where
  "replay_example \<equiv> journal_example (desc_example 7) (replicate 4096 7) (commit_example 7)"

lemma replay_example_log:
  "journal_on (jf_sb (jfs_example 5)) replay_example iref_example"
  "log_fits (jf_sb (jfs_example 5)) (journal_data replay_example iref_example) [Logged [tag30_example], Committed]"
  "to_write (jf_sb (jfs_example 5)) (journal_data replay_example iref_example) [Logged [tag30_example], Committed] = [(30, replicate 4096 7)]"
proof -
  show "journal_on (jf_sb (jfs_example 5)) replay_example iref_example"
    by (rule journal_example_on) (simp_all add: desc_example_def commit_example_def)
  have p: "posn (jf_sb (jfs_example 5)) 0 = 1" "posn (jf_sb (jfs_example 5)) (Suc 0) = 2" "posn (jf_sb (jfs_example 5)) (Suc (Suc 0)) = 3"
    "posn (jf_sb (jfs_example 5)) (Suc (Suc (Suc 0))) = 4"
    by (simp_all add: posn_def)
  show "log_fits (jf_sb (jfs_example 5)) (journal_data replay_example iref_example) [Logged [tag30_example], Committed]"
    using p by (simp add: log_fits_def journal_example_data journal_example_data(1) [unfolded One_nat_def] journal_example_headers)
  show "to_write (jf_sb (jfs_example 5)) (journal_data replay_example iref_example) [Logged [tag30_example], Committed] = [(30, replicate 4096 7)]"
    using p by (simp add: to_write_def revoked_in_def journal_example_data tag30_example_def unescape_def)
qed

section \<open>A run\<close>

abbreviation js_run :: jbd_sb where "js_run \<equiv> jf_sb (jfs_example 5)"
abbreviation X_run :: extent_ops where "X_run \<equiv> extent_tree_ops 9"
abbreviation at_call :: "nat \<Rightarrow> ext4_fs" where "at_call n \<equiv> replay_example\<lparr>fs_calls := n\<rparr>"

lemma run_raw: "inode_at (ino_raw (fs\<lparr>fs_calls := n\<rparr>) ref) = inode_at (ino_raw fs ref)"
  by (simp add: ino_raw_def)

lemma run_bmap:
  assumes "i \<in> {1, 2, 3, 4}"
  shows "jbd_inode_bmap X i iref_example ((journal_example b1 b2 b3)\<lparr>fs_calls := n\<rparr>) =
    (Ret (20 + ucast i), iref_example, (journal_example b1 b2 b3)\<lparr>fs_calls := n\<rparr>)"
proof -
  have e: "uses_extents (probe_example 0) journal_inode_example = False" by (simp add: uses_extents_def)
  have d: "ext4_inode_get_direct_block journal_inode_example i = Some (20 + i)" "i < EXT4_INODE_DIRECT_BLOCK_COUNT" "ucast (20 + i) = (20 + ucast i :: u64)"
    using assms by (auto simp: ext4_inode_get_direct_block_def journal_inode_example_def EXT4_INODE_DIRECT_BLOCK_COUNT_def)
  have ino: "ir_inode iref_example ((journal_example b1 b2 b3)\<lparr>fs_calls := n\<rparr>) =
      (Ret journal_inode_example, iref_example, (journal_example b1 b2 b3)\<lparr>fs_calls := n\<rparr>)"
    by (simp add: ir_inode_def inoref_get_def run_raw fs_gets_def ir_lift_def ir_bind_def)
  show ?thesis
    by (simp add: jbd_inode_bmap_def ext4_fs_get_inode_dblk_idx_def ext4_fs_get_inode_dblk_idx_internal_def ir_bind_def
        ir_lift_def fs_gets_def ino journal_example_size e d ir_return_def fs_mem_def)
qed

lemma run_get:
  assumes "i \<in> {1, 2, 3, 4}"
  shows "jbd_block_get X i iref_example ((journal_example b1 b2 b3)\<lparr>fs_calls := n\<rparr>) =
    (Ret (20 + ucast i), iref_example, (journal_example b1 b2 b3)\<lparr>fs_calls := Suc n\<rparr>)"
  using assms run_bmap [OF assms]
  by (auto simp: jbd_block_get_def ir_bind_def ir_lift_def ext4_trans_block_get_def fs_bind_def fs_ask_def Let_def fs_return_def journal_example_def dir_example_def vol_example_def)

lemma run_blocks [simp]:
  "fs_blk (journal_example b1 b2 b3) 21 = b1" "fs_blk (journal_example b1 b2 b3) 22 = b2" "fs_blk (journal_example b1 b2 b3) 23 = b3"
  "fs_blk (journal_example b1 b2 b3) 24 = replicate 4096 0"
  "length (desc_example t) = 4096" "length (commit_example t) = 4096"
  "get_be32 (desc_example t) 0 = JBD_MAGIC_NUMBER" "get_be32 (desc_example t) 4 = JBD_DESCRIPTOR_BLOCK" "get_be32 (desc_example t) 8 = t"
  "get_be32 (commit_example t) 0 = JBD_MAGIC_NUMBER" "get_be32 (commit_example t) 4 = JBD_COMMIT_BLOCK" "get_be32 (commit_example t) 8 = t"
  "get_be32 (replicate 4096 0) 0 \<noteq> JBD_MAGIC_NUMBER"
proof -
  have "get_be32 (replicate 4096 0) 0 = get_le32 (replicate 4 0) 0" by (simp add: get_be32_def)
  then have "get_be32 (replicate 4096 0) 0 = 0" by (simp add: get_le32_def)
  then show "get_be32 (replicate 4096 0) 0 \<noteq> JBD_MAGIC_NUMBER" by (simp add: JBD_MAGIC_NUMBER_def)
qed (simp_all add: journal_example_def desc_example_def commit_example_def)

lemma run_table:
  assumes "rd ref fs = (Ret (desc_example t), ref, fs)"
  shows "jbd_iterate_block_table js_run rd f st ref fs = f tag30_example st ref fs"
proof -
  note desc_example_tag [of 5 t]
  then have "table_walk (Suc 4083) js_run rd 12 4084 f st ref fs = f tag30_example st ref fs"
    unfolding table_walk.simps using assms
    by (simp add: ir_bind_def ir_mem_def ir_lift_def fs_mem_def jbd_tag_bytes_def ir_return_def tag30_example_def split: fsres.splits prod.splits)
  moreover have "table_size js_run = 4084" by (simp add: table_size_def)
  ultimately show ?thesis by (simp add: jbd_iterate_block_table_def)
qed

lemmas run_step = log_step_def log_header_def log_record_def ir_bind_def ir_try_def ir_lift_def ir_mem_def fs_mem_def ir_return_def
  blk_get_def fs_gets_def jbd_verify_meta_csum_def jbd_verify_commit_csum_def Let_def jbd_wrap_def

lemma run_scan:
  "log_step X_run js_run ACTION_SCAN 1 7 i iref_example (at_call n) = (Ret (EOK, False, 3, 7, i), iref_example, at_call (Suc n))"
  "log_step X_run js_run ACTION_SCAN 3 7 i iref_example (at_call n) =
    (Ret (EOK, False, 4, 8, i\<lparr>ri_trans_cnt := ri_trans_cnt i + 1\<rparr>), iref_example, at_call (Suc n))"
  "log_step X_run js_run ACTION_SCAN 4 8 i iref_example (at_call n) = (Ret (EOK, True, 4, 8, i), iref_example, at_call (Suc n))"
  by (simp_all add: run_step run_get run_table jbd_display_block_tags_def)

lemma run_pass1: "jbd_iterate_log 3 X_run js_run ACTION_SCAN no_info iref_example (at_call n) =
    (Ret (Some (EOK, no_info\<lparr>ri_trans_cnt := 1, ri_start_trans_id := 7, ri_last_trans_id := 7\<rparr>)), iref_example, at_call (Suc (Suc (Suc n))))"
  by (simp add: jbd_iterate_log_def numeral_3_eq_3 ir_bind_def run_scan ir_return_def trans_id_diff_def no_info_def)

text \<open>The window takes in all four blocks at once.\<close>

definition wnd_run_example :: jbd_replay_wnd where
  "wnd_run_example = \<lparr>wn_data = [desc_example 7, replicate 4096 7, commit_example 7, replicate 4096 0], wn_first = 1, wn_cnt = 4, wn_cap = 256\<rparr>"

lemma run_wnd:
  "jbd_replay_wnd_read X_run js_run \<lparr>wn_data = [], wn_first = 0, wn_cnt = 0, wn_cap = 256\<rparr> 1 iref_example (at_call n) =
    (Ret (Inr (desc_example 7), wnd_run_example), iref_example, at_call (Suc n))"
  "jbd_replay_wnd_read X_run js_run wnd_run_example 2 iref_example (at_call n) = (Ret (Inr (replicate 4096 7), wnd_run_example), iref_example, at_call n)"
  "jbd_replay_wnd_read X_run js_run wnd_run_example 3 iref_example (at_call n) = (Ret (Inr (commit_example 7), wnd_run_example), iref_example, at_call n)"
proof -
  have "wnd_run X_run 1 21 (Suc (Suc (Suc 0))) 1 iref_example (at_call n) = (Ret 4, iref_example, at_call n)"
    by (simp add: ir_bind_def ir_try_def run_bmap ir_return_def)
  then have r: "wnd_run X_run 1 21 3 1 iref_example (at_call n) = (Ret 4, iref_example, at_call n)"
    unfolding numeral_3_eq_3 .
  have up: "[0..<4] = [0, 1, 2, 3 :: nat]" by (simp add: upt_rec)
  have f: "wnd_fill \<lparr>wn_data = [], wn_first = 0, wn_cnt = 0, wn_cap = 256\<rparr> 4096 1 21 4 (at_call n) = (Ret (EOK, wnd_run_example), at_call (Suc n))"
    by (simp add: wnd_fill_def direct_block_def fs_ask_def up wnd_run_example_def Let_def)
  show "jbd_replay_wnd_read X_run js_run \<lparr>wn_data = [], wn_first = 0, wn_cnt = 0, wn_cap = 256\<rparr> 1 iref_example (at_call n) =
    (Ret (Inr (desc_example 7), wnd_run_example), iref_example, at_call (Suc n))"
    using f r by (simp add: jbd_replay_wnd_read_def Let_def ir_bind_def ir_try_def run_bmap ir_lift_def ir_mem_def fs_mem_def ir_return_def)
      (simp add: wnd_run_example_def ir_return_def)
  show "jbd_replay_wnd_read X_run js_run wnd_run_example 2 iref_example (at_call n) = (Ret (Inr (replicate 4096 7), wnd_run_example), iref_example, at_call n)"
    "jbd_replay_wnd_read X_run js_run wnd_run_example 3 iref_example (at_call n) = (Ret (Inr (commit_example 7), wnd_run_example), iref_example, at_call n)"
    by (simp_all add: jbd_replay_wnd_read_def ir_bind_def ir_lift_def ir_mem_def fs_mem_def ir_return_def wnd_run_example_def)
qed

lemma run_recover:
  assumes i: "ri_wnd i = Some \<lparr>wn_data = [], wn_first = 0, wn_cnt = 0, wn_cap = 256\<rparr>" "ri_wb i = Some \<lparr>wb_recs = [], wb_cap = 1024, wb_checkpoint = False\<rparr>"
    "ri_revoke_root i = Map.empty" "ri_rc i = EOK"
  shows "log_step X_run js_run ACTION_RECOVER 1 7 i iref_example (at_call n) = (Ret (EOK, False, 3, 7,
    i\<lparr>ri_wnd := Some wnd_run_example, ri_blocks_replayed := ri_blocks_replayed i + 1,
      ri_wb := Some \<lparr>wb_recs = [(30, replicate 4096 7)], wb_cap = 1024, wb_checkpoint = False\<rparr>\<rparr>), iref_example, at_call (Suc n))"
proof -
  define j where "j = i\<lparr>ri_wnd := Some wnd_run_example\<rparr>"
  have rd: "jbd_iterate_block_table js_run (ir_return (desc_example 7)) f st iref_example (at_call m) = f tag30_example st iref_example (at_call m)"
    for f and st :: 's and m
    by (rule run_table) (simp add: ir_return_def)
  have t: "jbd_replay_block_tags X_run js_run 7 tag30_example (j, 1) iref_example (at_call m) =
      (Ret (j\<lparr>ri_wnd := Some wnd_run_example, ri_blocks_replayed := ri_blocks_replayed i + 1,
        ri_wb := Some \<lparr>wb_recs = [(30, replicate 4096 7)], wb_cap = 1024, wb_checkpoint = False\<rparr>\<rparr>, 2), iref_example, at_call m)" for m
    using i by (simp add: jbd_replay_block_tags_def Let_def jbd_wrap_def is_revoked_def jbd_revoke_entry_lookup_def j_def log_copy_def
        ir_bind_def ir_return_def run_wnd replay_home_def tag30_example_def jbd_replay_wb_record_def ir_mem_def ir_lift_def fs_mem_def)
  show ?thesis
    using i by (simp add: run_step run_wnd rd t [unfolded j_def] j_def)
qed

lemma run_replay:
  assumes "ri_revoke_root i = Map.empty" "ri_rc i = EOK" "ri_trans_cnt i = 1" "ri_last_trans_id i = 7"
  shows "\<exists>i' n'. recover_replay 3 X_run js_run i iref_example (at_call n) =
    (Ret (Some (EOK, i')), iref_example, (vput 4096 (30, replicate 4096 7) replay_example)\<lparr>fs_calls := n'\<rparr>)"
proof -
  define w0 where "w0 = \<lparr>wn_data = [] :: bytes list, wn_first = 0, wn_cnt = 0, wn_cap = 256 :: u32\<rparr>"
  define b0 where "b0 = \<lparr>wb_recs = [] :: (u64 \<times> bytes) list, wb_cap = 1024, wb_checkpoint = False\<rparr>"
  define b1 where "b1 = b0\<lparr>wb_recs := [(30, replicate 4096 7)]\<rparr>"
  define i0 where "i0 = i\<lparr>ri_wnd := Some w0, ri_wb := Some b0\<rparr>"
  define i1 where "i1 = i0\<lparr>ri_wnd := Some wnd_run_example, ri_blocks_replayed := ri_blocks_replayed i + 1, ri_wb := Some b1\<rparr>"
  have new: "jbd_replay_wnd_new js_run 0 iref_example (at_call n) = (Ret (Some w0), iref_example, at_call (Suc n))"
    "jbd_replay_wb_new js_run iref_example (at_call n) = (Ret (Some b0), iref_example, at_call (Suc n))" for n
    by (simp_all add: jbd_replay_wnd_new_def jbd_replay_wb_new_def JBD_REPLAY_WND_BYTES_def JBD_REPLAY_WB_BYTES_def Let_def
        ir_bind_def mem_alloc_try ir_return_def w0_def b0_def)
  have s1: "log_step X_run js_run ACTION_RECOVER 1 7 i0 iref_example (at_call n) = (Ret (EOK, False, 3, 7, i1), iref_example, at_call (Suc n))" for n
    using run_recover [of i0 n] assms by (simp add: i0_def i1_def w0_def b0_def b1_def)
  have s2: "log_step X_run js_run ACTION_RECOVER 3 7 i1 iref_example (at_call n) = (Ret (EOK, False, 4, 8, i1), iref_example, at_call n)" for n
    by (simp add: run_step run_wnd i1_def)
  have cnt: "ri_trans_cnt i0 = 1" "ri_last_trans_id i0 = 7" "ri_last_trans_id i1 = 7" using assms by (simp_all add: i0_def i1_def)
  have walk: "jbd_iterate_log 3 X_run js_run ACTION_RECOVER i0 iref_example (at_call n) = (Ret (Some (EOK, i1)), iref_example, at_call (Suc n))" for n
    by (simp add: jbd_iterate_log_def numeral_3_eq_3 ir_bind_def s1 s2 cnt ir_return_def trans_id_diff_def)
  have set: "blocks_set_direct 4096 False 30 [replicate 4096 7] (at_call n) = (Ret (), (vput 4096 (30, replicate 4096 7) replay_example)\<lparr>fs_calls := Suc n\<rparr>)" for n
    by (simp add: blocks_set_direct_def direct_block_def fs_ask_def Let_def vput_def medium_put_eq)
  have runs: "ir_try (write_runs 4096 False [(30, replicate 4096 7)]) iref_example (at_call n) =
      (Ret (Inr ()), iref_example, (vput 4096 (30, replicate 4096 7) replay_example)\<lparr>fs_calls := Suc n\<rparr>)" for n
    by (simp add: ir_try_def Let_def ir_bind_def ir_lift_def set ir_return_def)
  have flush: "jbd_replay_wb_flush js_run b1 iref_example (at_call n) =
      (Ret (EOK, b0), iref_example, (vput 4096 (30, replicate 4096 7) replay_example)\<lparr>fs_calls := Suc (Suc n)\<rparr>)" for n
    by (simp add: jbd_replay_wb_flush_def b1_def b0_def ir_bind_def mem_alloc_try wb_order_def runs ir_return_def del: write_runs.simps)
  have "ri_wb i1 = Some b1" by (simp add: i1_def)
  then have "recover_replay 3 X_run js_run i iref_example (at_call n) = (Ret (Some (EOK, i1\<lparr>ri_wnd := None, ri_wb := None\<rparr>)), iref_example,
      (vput 4096 (30, replicate 4096 7) replay_example)\<lparr>fs_calls := Suc (Suc (Suc (Suc (Suc n))))\<rparr>)"
    using walk flush by (simp add: recover_replay_def ir_bind_def new i0_def [symmetric] ir_return_def)
  then show ?thesis by blast
qed

lemma run_finish:
  "\<exists>jf' fs'. recover_finish jf i ref ((vput 4096 (30, d) replay_example)\<lparr>fs_calls := n\<rparr>) = (Ret (EOK, jf'), ref, fs')"
  by (simp add: recover_finish_def ir_bind_def ir_ignore_def ir_lift_def fs_ask_def fs_bind_def ext4_sb_read_def fs_gets_def fs_modify_def
      Let_def ir_try_def ext4_sb_write_def ir_return_def vput_def medium_put_eq sb_home_def)
    (simp add: journal_example_def dir_example_def vol_example_def probe_example_def EXT4_SUPERBLOCK_MAGIC_def)

lemma run_ok:
  "\<exists>jf' rec fs'. jbd_recover 3 X_run (jfs_example 5) iref_example replay_example = (Ret (Some (EOK, jf', rec)), iref_example, fs')"
proof -
  have c: "replay_example = at_call 0" by (simp add: journal_example_def dir_example_def vol_example_def)
  define i where "i = no_info\<lparr>ri_trans_cnt := 1, ri_start_trans_id := 7, ri_last_trans_id := 7\<rparr>"
  have p1: "jbd_iterate_log 3 X_run js_run ACTION_SCAN no_info iref_example (at_call 0) = (Ret (Some (EOK, i)), iref_example, at_call 3)"
    using run_pass1 [of 0] by (simp add: i_def numeral_3_eq_3)
  have i: "ri_revoke_root i = Map.empty" "ri_rc i = EOK" "ri_trans_cnt i = 1" "ri_last_trans_id i = 7" "ri_revoke_block_cnt i = 0"
    by (simp_all add: i_def no_info_def)
  obtain i' n where p2: "recover_replay 3 X_run js_run i iref_example (at_call 3) =
      (Ret (Some (EOK, i')), iref_example, (vput 4096 (30, replicate 4096 7) replay_example)\<lparr>fs_calls := n\<rparr>)"
    using run_replay [OF i(1-4)] by blast
  obtain jf' fs' where p3: "recover_finish (jfs_example 5) i' iref_example ((vput 4096 (30, replicate 4096 7) replay_example)\<lparr>fs_calls := n\<rparr>) =
      (Ret (EOK, jf'), iref_example, fs')"
    using run_finish by blast
  show ?thesis
    by (subst c) (simp add: jbd_recover_def Let_def ir_bind_def p1 i(5) p2 p3 ir_return_def)
qed

end
