(* ===== verification/Journal_Correct.thy ===== *)
theory Journal_Correct
  imports Journal_Example
begin

unbundle bit_operations_syntax

text \<open>
  What \<^verbatim>\<open>jbd_recover\<close> as a whole leaves of a volume, also when it is interrupted and repeated, and that a log can
  be written on which it never ends.
\<close>





text \<open>C29: A log can be written on which recovery never ends: if after whole items comes a descriptor block whose tags
  lead once round the ring and back to it, and every block of the log can be read, no number of steps is enough.\<close>

theorem recover_endless:
  assumes "journal_on (jf_sb jf) fs ref" "log_readable (extent_tree_ops n) (jf_sb jf) ref fs"
    "log_at (jf_sb jf) (\<lambda>k. journal_data fs ref (posn (jf_sb jf) k)) 0 (js_sequence (jf_sb jf)) items"
    "items \<noteq> []" "log_len items < ring (jf_sb jf)" "Suc (length ts) mod ring (jf_sb jf) = 0"
    "header_is (jf_sb jf) (journal_data fs ref (posn (jf_sb jf) (log_len items))) (js_sequence (jf_sb jf) + of_nat (commits items)) (Logged ts)"
  shows "\<exists>k. jbd_recover fuel (extent_tree_ops n) jf ref fs = (Ret None, ref, fs\<lparr>fs_calls := k\<rparr>)"
  by (rule journal_file.endless_run [OF journal_world [OF assms(1)] assms(2) HOL.refl assms(3-5,7,6)])

text \<open>A commit block and behind it a descriptor block with one tag, on a ring of two blocks.\<close>

theorem recover_endless_witness:
  "\<forall>fuel. \<exists>k. jbd_recover fuel (extent_tree_ops 9) (jfs_example 3) iref_example
      (journal_example (commit_example 7) (desc_example 8) (replicate 4096 0)) =
      (Ret None, iref_example, (journal_example (commit_example 7) (desc_example 8) (replicate 4096 0))\<lparr>fs_calls := k\<rparr>)"
proof
  fix fuel
  let ?s = "jf_sb (jfs_example 3)" and ?fs = "journal_example (commit_example 7) (desc_example 8) (replicate 4096 0)"
  have p: "posn ?s 0 = 1" "posn ?s (Suc 0) = 2" by (simp_all add: posn_def)
  have on: "journal_on ?s ?fs iref_example" by (rule journal_example_on) (simp_all add: desc_example_def commit_example_def)
  have "posn ?s k \<in> {1, 2}" for k by (auto simp: posn_def)
  then have "(of_nat (posn ?s k) :: u32) \<in> {1, 2, 3, 4}" for k by (metis insertE insertI1 insertI2 of_nat_1 of_nat_numeral singletonD)
  then have rd: "log_readable (extent_tree_ops 9) ?s iref_example ?fs" unfolding log_readable_def using run_get by blast
  have at: "log_at ?s (\<lambda>k. journal_data ?fs iref_example (posn ?s k)) 0 (js_sequence ?s) [Committed]"
    using p by (simp add: journal_example_data(1) [unfolded One_nat_def] journal_example_headers)
  have h: "header_is ?s (journal_data ?fs iref_example (posn ?s (log_len [Committed]))) (js_sequence ?s + of_nat (commits [Committed])) (Logged [tag30_example])"
    using p by (simp add: journal_example_data journal_example_headers)
  show "\<exists>k. jbd_recover fuel (extent_tree_ops 9) (jfs_example 3) iref_example ?fs = (Ret None, iref_example, ?fs\<lparr>fs_calls := k\<rparr>)"
    by (rule recover_endless [OF on rd at _ _ _ h]) simp_all
qed

end
